(* ===== verification/GoPrelude.thy ===== *)
theory GoPrelude
  imports
    Main
    "HOL-Library.Sublist"
    "HOL-Library.Char_ord"
    "HOL-Library.List_Lexorder"
    "HOL-Library.Product_Lexorder"
begin

text \<open>
  What every component of the library shares: the Go standard-library operations the program uses on
  strings (a Go string is a sequence of bytes, here a \<^typ>\<open>char list\<close>), on decimal integers and on
  times, and the generic lemmas on association lists and counting that the component proofs rest on.

  \<^item> \<open>trim_space\<close> is \<open>strings.TrimSpace\<close>, exact on all byte strings: a white-space
    code point beyond ASCII is recognised by its UTF-8 encoding at either end.
  \<^item> \<open>to_lower\<close> and \<open>to_upper\<close> are \<open>strings.ToLower\<close> and \<open>strings.ToUpper\<close>,
    exact on ASCII strings; bytes from 128 on are left alone (the program lowers model names,
    currency codes and size labels, which are ASCII).
  \<^item> \<open>format_int\<close> is \<open>strconv.FormatInt(n, 10)\<close> and \<open>fmt.Sprintf("%d", n)\<close>;
    \<open>parse_int64\<close> is \<open>strconv.ParseInt(s, 10, 64)\<close> and, on the 64-bit targets the
    program is built for, \<open>strconv.Atoi\<close>.
  \<^item> A \<open>time.Time\<close> is the \<^typ>\<open>int\<close> number of nanoseconds since the epoch, a
    \<open>time.Duration\<close> an \<^typ>\<open>int\<close> number of nanoseconds.
\<close>

section \<open>Collections of facts\<close>

named_theorems go_string \<open>facts about the string operations of the Go standard library\<close>
named_theorems go_error \<open>case rules for results with an error branch\<close>

section \<open>Types the components share\<close>

type_synonym go_time = int
type_synonym go_duration = int

abbreviation second :: go_duration where "second \<equiv> 1000000000"
abbreviation minute :: go_duration where "minute \<equiv> 60 * second"
abbreviation hour :: go_duration where "hour \<equiv> 60 * minute"

section \<open>Strings\<close>

definition byte_of :: "char \<Rightarrow> nat" where
  "byte_of c = of_char c"

definition lower_char :: "char \<Rightarrow> char" where
  "lower_char c = (if 65 \<le> byte_of c \<and> byte_of c \<le> 90 then char_of (byte_of c + 32) else c)"

definition upper_char :: "char \<Rightarrow> char" where
  "upper_char c = (if 97 \<le> byte_of c \<and> byte_of c \<le> 122 then char_of (byte_of c - 32) else c)"

definition to_lower :: "string \<Rightarrow> string" where
  "to_lower s = map lower_char s"

definition to_upper :: "string \<Rightarrow> string" where
  "to_upper s = map upper_char s"

lemma byte_of_lt [simp]: "byte_of c < 256"
  by (simp add: byte_of_def)

lemma byte_of_char_of [simp]: "n < 256 \<Longrightarrow> byte_of (char_of n) = n"
  by (simp add: byte_of_def take_bit_eq_mod)

lemma byte_of_lower_char:
  "byte_of (lower_char c) =
     (if 65 \<le> byte_of c \<and> byte_of c \<le> 90 then byte_of c + 32 else byte_of c)"
  by (auto simp: lower_char_def)

lemma lower_char_idem [simp]: "lower_char (lower_char c) = lower_char c"
  by (subst (1) lower_char_def) (auto simp: byte_of_lower_char split: if_splits)

lemma to_lower_idem [simp]: "to_lower (to_lower s) = to_lower s"
  by (simp add: to_lower_def)

lemma to_lower_Nil [simp]: "to_lower [] = []" "to_lower s = [] \<longleftrightarrow> s = []"
  by (simp_all add: to_lower_def)

lemma to_lower_append [go_string]: "to_lower (s @ t) = to_lower s @ to_lower t"
  by (simp add: to_lower_def)

lemma length_to_lower [simp]: "length (to_lower s) = length s"
  by (simp add: to_lower_def)

text \<open>The UTF-8 encodings of the code points \<open>unicode.IsSpace\<close> accepts.\<close>

definition space_encodings :: "nat list list" where
  "space_encodings =
     [[9], [10], [11], [12], [13], [32], [194, 133], [194, 160], [225, 154, 128]]
     @ map (\<lambda>b. [226, 128, b]) [128, 129, 130, 131, 132, 133, 134, 135, 136, 137, 138, 168, 169, 175]
     @ [[226, 129, 159], [227, 128, 128]]"

definition leading_space :: "string \<Rightarrow> nat list option" where
  "leading_space s = List.find (\<lambda>w. prefix w (map byte_of s)) space_encodings"

definition trailing_space :: "string \<Rightarrow> nat list option" where
  "trailing_space s = List.find (\<lambda>w. suffix w (map byte_of s)) space_encodings"

lemma space_encodings_nonempty: "w \<in> set space_encodings \<Longrightarrow> w \<noteq> []"
  by (auto simp: space_encodings_def)

lemma find_Some_mem: "List.find P xs = Some x \<Longrightarrow> x \<in> set xs \<and> P x"
  by (induction xs) (auto split: if_splits)

lemma leading_space_len:
  assumes "leading_space s = Some w"
  shows "0 < length w \<and> length w \<le> length s"
proof -
  from assms have "w \<in> set space_encodings" and "prefix w (map byte_of s)"
    by (auto simp: leading_space_def dest: find_Some_mem)
  then show ?thesis
    using space_encodings_nonempty prefix_length_le by fastforce
qed

lemma trailing_space_len:
  assumes "trailing_space s = Some w"
  shows "0 < length w \<and> length w \<le> length s"
proof -
  from assms have "w \<in> set space_encodings" and "suffix w (map byte_of s)"
    by (auto simp: trailing_space_def dest: find_Some_mem)
  then show ?thesis
    using space_encodings_nonempty suffix_length_le by fastforce
qed

function trim_left :: "string \<Rightarrow> string" where
  "trim_left s = (case leading_space s of None \<Rightarrow> s | Some w \<Rightarrow> trim_left (drop (length w) s))"
  by pat_completeness auto
termination
proof (relation "measure length")
  fix s w
  assume "leading_space s = Some w"
  from leading_space_len [OF this] have "length s - length w < length s" by linarith
  then show "(drop (length w) s, s) \<in> measure length" by simp
qed simp

function trim_right :: "string \<Rightarrow> string" where
  "trim_right s =
     (case trailing_space s of
        None \<Rightarrow> s
      | Some w \<Rightarrow> trim_right (take (length s - length w) s))"
  by pat_completeness auto
termination
proof (relation "measure length")
  fix s w
  assume "trailing_space s = Some w"
  from trailing_space_len [OF this] have "length s - length w < length s" by linarith
  then show "(take (length s - length w) s, s) \<in> measure length" by simp
qed simp

declare trim_left.simps [simp del] trim_right.simps [simp del]

definition trim_space :: "string \<Rightarrow> string" where
  "trim_space s = trim_right (trim_left s)"


lemma trim_space_Nil [simp]: "trim_space [] = []"
proof -
  have "leading_space [] = None" and "trailing_space [] = None"
    by (simp_all add: leading_space_def trailing_space_def space_encodings_def)
  then show ?thesis
    by (simp add: trim_space_def trim_left.simps trim_right.simps)
qed

lemma trim_left_suffix: "suffix (trim_left s) s"
proof (induction s rule: trim_left.induct)
  case (1 s)
  show ?case
  proof (cases "leading_space s")
    case None
    then show ?thesis by (subst trim_left.simps) simp
  next
    case (Some w)
    then have "suffix (trim_left (drop (length w) s)) (drop (length w) s)" by (rule 1)
    then have "suffix (trim_left (drop (length w) s)) s"
      using suffix_drop suffix_order.trans by blast
    with Some show ?thesis by (subst trim_left.simps) simp
  qed
qed

lemma trim_right_prefix: "prefix (trim_right s) s"
proof (induction s rule: trim_right.induct)
  case (1 s)
  show ?case
  proof (cases "trailing_space s")
    case None
    then show ?thesis by (subst trim_right.simps) simp
  next
    case (Some w)
    then have "prefix (trim_right (take (length s - length w) s)) (take (length s - length w) s)"
      by (rule 1)
    then have "prefix (trim_right (take (length s - length w) s)) s"
      using take_is_prefix prefix_order.trans by blast
    with Some show ?thesis by (subst trim_right.simps) simp
  qed
qed

lemma set_trim_space: "set (trim_space s) \<subseteq> set s"
  using set_mono_prefix [OF trim_right_prefix] set_mono_suffix [OF trim_left_suffix]
  unfolding trim_space_def by blast

text \<open>A string of visible ASCII characters is its own trimming.\<close>

definition visible :: "char \<Rightarrow> bool" where
  "visible c \<longleftrightarrow> 33 \<le> byte_of c \<and> byte_of c \<le> 126"

lemma space_encodings_invisible:
  "w \<in> set space_encodings \<Longrightarrow> \<exists>v vs. w = v # vs \<and> (v < 33 \<or> 126 < v)"
  "w \<in> set space_encodings \<Longrightarrow> \<exists>v vs. w = vs @ [v] \<and> (v < 33 \<or> 126 < v)"
  by (auto simp: space_encodings_def)

lemma leading_space_visible:
  assumes "s = [] \<or> visible (hd s)"
  shows "leading_space s = None"
proof (rule ccontr)
  assume "leading_space s \<noteq> None"
  then obtain w where "w \<in> set space_encodings" and p: "prefix w (map byte_of s)"
    by (auto simp: leading_space_def dest: find_Some_mem)
  then obtain v vs where "w = v # vs" and "v < 33 \<or> 126 < v"
    using space_encodings_invisible by blast
  with p assms show False by (cases s) (auto simp: visible_def)
qed

lemma trailing_space_visible:
  assumes "s = [] \<or> visible (last s)"
  shows "trailing_space s = None"
proof (rule ccontr)
  assume "trailing_space s \<noteq> None"
  then obtain w where "w \<in> set space_encodings" and p: "suffix w (map byte_of s)"
    by (auto simp: trailing_space_def dest: find_Some_mem)
  then obtain v vs where "w = vs @ [v]" and "v < 33 \<or> 126 < v"
    using space_encodings_invisible by blast
  with p assms show False by (cases s rule: rev_cases) (auto simp: visible_def)
qed

lemma trim_space_visible [go_string]:
  assumes "\<forall>c \<in> set s. visible c"
  shows "trim_space s = s"
proof -
  have "s = [] \<or> visible (hd s)" and "s = [] \<or> visible (last s)"
    using assms by (cases "s = []"; simp)+
  then show ?thesis
    by (simp add: trim_space_def trim_left.simps trim_right.simps leading_space_visible
        trailing_space_visible)
qed

lemma trim_left_last:
  "s \<noteq> [] \<Longrightarrow> visible (last s) \<Longrightarrow> trim_left s \<noteq> [] \<and> last (trim_left s) = last s"
proof (induction s rule: trim_left.induct)
  case (1 s)
  show ?case
  proof (cases "leading_space s")
    case None
    with 1 show ?thesis by (subst (1 2) trim_left.simps) simp
  next
    case (Some w)
    then have w: "w \<in> set space_encodings" "prefix w (map byte_of s)"
      by (auto simp: leading_space_def dest: find_Some_mem)
    from space_encodings_invisible(2) [OF w(1)] obtain v vs where v: "w = vs @ [v]" "v < 33 \<or> 126 < v" by blast
    have "length w \<noteq> length s"
    proof
      assume "length w = length s"
      with w(2) have "w = map byte_of s" by (metis length_map not_equal_is_parallel parallelD1)
      with v(1) 1(2) have "v = byte_of (last s)" by (metis last_map last_snoc)
      with v(2) 1(3) show False by (simp add: visible_def)
    qed
    with leading_space_len [OF Some] have "length w < length s" by simp
    with 1(1) [OF Some] 1(3) Some show ?thesis by (subst (1 2) trim_left.simps) simp
  qed
qed

lemma trim_space_ends_visible:
  assumes "s \<noteq> []" and "visible (last s)" shows "trim_space s \<noteq> []"
  using trim_left_last [OF assms] assms(2)
  by (simp add: trim_space_def trim_right.simps trailing_space_visible)

subsection \<open>Splitting\<close>

text \<open>\<open>split_char\<close> is \<open>strings.Split\<close> with a one-byte separator;
  \<open>cut_last\<close> is \<open>s[:strings.LastIndex(s, sep)]\<close>, \<open>None\<close> when the separator
  does not occur.\<close>

fun split_char :: "char \<Rightarrow> string \<Rightarrow> string list" where
  "split_char d [] = [[]]"
| "split_char d (c # s) =
     (if c = d then [] # split_char d s
      else (case split_char d s of [] \<Rightarrow> [[c]] | p # ps \<Rightarrow> (c # p) # ps))"

definition cut_last :: "char \<Rightarrow> string \<Rightarrow> string option" where
  "cut_last d s =
     (case dropWhile (\<lambda>c. c \<noteq> d) (rev s) of [] \<Rightarrow> None | _ # p \<Rightarrow> Some (rev p))"

lemma split_char_nonempty [simp]: "split_char d s \<noteq> []"
  by (induction s) (auto split: list.splits)

lemma cut_last_eq_None: "cut_last d s = None \<longleftrightarrow> d \<notin> set s"
proof (cases "dropWhile (\<lambda>c. c \<noteq> d) (rev s)")
  case Nil
  then have "d \<notin> set s" by (force simp: dropWhile_eq_Nil_conv)
  then show ?thesis unfolding cut_last_def Nil by simp
next
  case (Cons c p)
  then have "\<exists>x \<in> set (rev s). \<not> x \<noteq> d"
    using dropWhile_eq_Nil_conv [of "\<lambda>c. c \<noteq> d" "rev s"] by auto
  with Cons show ?thesis by (auto simp: cut_last_def)
qed

lemma cut_last_Some:
  assumes "cut_last d s = Some p"
  shows "\<exists>q. s = p @ d # q \<and> d \<notin> set q"
proof -
  let ?t = "takeWhile (\<lambda>c. c \<noteq> d) (rev s)"
  from assms obtain c where c: "dropWhile (\<lambda>c. c \<noteq> d) (rev s) = c # rev p"
    by (auto simp: cut_last_def split: list.splits)
  then have "c = d" by (auto simp: dropWhile_eq_Cons_conv)
  have "rev s = ?t @ c # rev p" by (simp flip: c)
  then have "s = p @ d # rev ?t" using \<open>c = d\<close> by (metis rev_rev_ident rev_append rev.simps(2) append_assoc append_Cons append_Nil)
  moreover have "d \<notin> set (rev ?t)" by (auto dest: set_takeWhileD)
  ultimately show ?thesis by blast
qed

lemma cut_last_len [termination_simp]: "cut_last d s = Some p \<Longrightarrow> length p < length s"
  by (auto dest: cut_last_Some)


section \<open>Decimal integers\<close>

definition digit_char :: "nat \<Rightarrow> char" where
  "digit_char k = char_of (48 + k)"

definition digit_val :: "char \<Rightarrow> nat option" where
  "digit_val c = (if 48 \<le> byte_of c \<and> byte_of c \<le> 57 then Some (byte_of c - 48) else None)"

fun format_nat :: "nat \<Rightarrow> string" where
  "format_nat n =
     (if n < 10 then [digit_char n] else format_nat (n div 10) @ [digit_char (n mod 10)])"

declare format_nat.simps [simp del]

definition format_int :: "int \<Rightarrow> string" where
  "format_int n = (if n < 0 then CHR ''-'' # format_nat (nat (- n)) else format_nat (nat n))"

fun digit_step :: "char \<Rightarrow> nat option \<Rightarrow> nat option" where
  "digit_step c None = None"
| "digit_step c (Some a) = map_option (\<lambda>d. 10 * a + d) (digit_val c)"

definition parse_digits :: "string \<Rightarrow> nat option" where
  "parse_digits s = (if s = [] then None else fold digit_step s (Some 0))"

definition parse_int64 :: "string \<Rightarrow> int option" where
  "parse_int64 s =
     (let (neg, ds) = (case s of
            [] \<Rightarrow> (False, [])
          | c # cs \<Rightarrow> if c = CHR ''-'' then (True, cs)
                      else if c = CHR ''+'' then (False, cs) else (False, s))
      in (case parse_digits ds of
            None \<Rightarrow> None
          | Some n \<Rightarrow>
              let v = (if neg then - int n else int n)
              in if - (2 ^ 63) \<le> v \<and> v < 2 ^ 63 then Some v else None))"

definition is_int64 :: "int \<Rightarrow> bool" where
  "is_int64 n \<longleftrightarrow> - (2 ^ 63) \<le> n \<and> n < 2 ^ 63"

lemma byte_of_digit_char [simp]: "k < 10 \<Longrightarrow> byte_of (digit_char k) = 48 + k"
  by (simp add: digit_char_def)

lemma digit_val_digit_char [simp]: "k < 10 \<Longrightarrow> digit_val (digit_char k) = Some k"
  by (simp add: digit_val_def)

lemma format_nat_nonempty [simp]: "format_nat n \<noteq> []"
  by (subst format_nat.simps) simp

lemma set_format_nat: "c \<in> set (format_nat n) \<Longrightarrow> 48 \<le> byte_of c \<and> byte_of c \<le> 57"
proof (induction n rule: format_nat.induct)
  case (1 n)
  show ?case
  proof (cases "n < 10")
    case True
    with "1.prems" show ?thesis by (subst (asm) format_nat.simps) simp
  next
    case False
    with 1 show ?thesis by (subst (asm) (2) format_nat.simps) auto
  qed
qed

lemma fold_digits_format_nat:
  "fold digit_step (format_nat n) (Some 0) = Some n"
proof (induction n rule: format_nat.induct)
  case (1 n)
  show ?case
  proof (cases "n < 10")
    case True
    then show ?thesis by (subst format_nat.simps) simp
  next
    case False
    with 1 show ?thesis by (subst format_nat.simps) simp
  qed
qed

lemma parse_digits_format_nat [simp]: "parse_digits (format_nat n) = Some n"
  by (simp add: parse_digits_def fold_digits_format_nat)

lemma format_nat_head:
  obtains c cs where "format_nat n = c # cs" and "48 \<le> byte_of c" and "byte_of c \<le> 57"
proof (cases "format_nat n")
  case (Cons c cs)
  then have "48 \<le> byte_of c" and "byte_of c \<le> 57" using set_format_nat [of c n] by simp_all
  with Cons show ?thesis by (rule that)
qed simp

lemma byte_of_inj: "byte_of a = byte_of b \<Longrightarrow> a = b"
  by (simp add: byte_of_def)

theorem parse_format_int [go_string]:
  assumes "is_int64 n"
  shows "parse_int64 (format_int n) = Some n"
proof -
  obtain c cs where c: "format_nat (nat n) = c # cs" "48 \<le> byte_of c"
    using format_nat_head by metis
  have "byte_of CHR ''-'' = 45" and "byte_of CHR ''+'' = 43" by (simp_all add: byte_of_def)
  with c have ne: "c \<noteq> CHR ''-''" "c \<noteq> CHR ''+''" by auto
  have *: "parse_digits (c # cs) = Some (nat n)" by (simp flip: c(1))
  show ?thesis
  proof (cases "n < 0")
    case True
    with assms show ?thesis by (simp add: format_int_def parse_int64_def is_int64_def)
  next
    case False
    with assms c ne * show ?thesis by (simp add: format_int_def parse_int64_def is_int64_def)
  qed
qed

lemma format_int_head:
  obtains c cs where "format_int n = c # cs" and "byte_of c = 45 \<or> (48 \<le> byte_of c \<and> byte_of c \<le> 57)"
proof (cases "n < 0")
  case True
  then show ?thesis using that by (simp add: format_int_def byte_of_def)
next
  case False
  obtain c cs where "format_nat (nat n) = c # cs" "48 \<le> byte_of c" "byte_of c \<le> 57"
    by (rule format_nat_head)
  with False show ?thesis using that by (simp add: format_int_def)
qed

lemma format_nat_inj: "format_nat m = format_nat n \<Longrightarrow> m = n"
  by (metis option.inject parse_digits_format_nat)

theorem format_int_inj [simp]: "format_int m = format_int n \<longleftrightarrow> m = n"
proof
  assume eq: "format_int m = format_int n"
  have minus: "format_nat k \<noteq> CHR ''-'' # s" for k s
  proof
    assume "format_nat k = CHR ''-'' # s"
    then have "CHR ''-'' \<in> set (format_nat k)" by simp
    then show False using set_format_nat [of "CHR ''-''" k] by (simp add: byte_of_def)
  qed
  show "m = n"
    using eq minus minus [symmetric]
    by (auto simp: format_int_def split: if_splits dest: format_nat_inj)
qed simp

text \<open>A text is cut at the first occurrence of a separator in one way.\<close>

lemma split_at_unique:
  "a @ c # b = a' @ c # b' \<Longrightarrow> c \<notin> set a \<Longrightarrow> c \<notin> set a' \<Longrightarrow> a = a' \<and> b = b'"
  by (induction a arbitrary: a') (case_tac a'; auto)+

end
