(* ===== verification/GoFloat.thy ===== *)
theory GoFloat
  imports GoPrelude Complex_Main "HOL-Library.Log_Nat"
begin

text \<open>
  Go's \<open>float64\<close>, in which the program keeps every amount of money and every rate. A finite
  value is the rational it denotes and an arithmetic operation is the exact result rounded to
  53 significant bits, ties to even (\<open>rnd64\<close>), which is what IEEE 754 prescribes for
  \<open>+\<close>, \<open>-\<close>, \<open>*\<close> and \<open>/\<close>. Comparisons are exact. Not represented: NaN,
  the infinities (no modelled code divides by zero), overflow and subnormal rounding (the
  exponent range is unbounded), and the sign of zero.

  The locale \<open>go_rounding\<close> is what the component proofs use of rounding: it is monotone,
  idempotent, and exact at 0 and 1. It is interpreted on \<open>rnd64\<close> at the end, so a proof
  about amounts never unfolds the rounding itself.
\<close>

type_synonym float64 = rat

section \<open>Rounding to nearest, ties to even\<close>

definition rne :: "rat \<Rightarrow> int" where
  "rne q = (let f = \<lfloor>q\<rfloor>; r = q - of_int f in
     if r < 1 / 2 then f else if 1 / 2 < r then f + 1 else if even f then f else f + 1)"

definition pow2 :: "int \<Rightarrow> rat" where
  "pow2 e = (if 0 \<le> e then 2 ^ nat e else 1 / 2 ^ nat (- e))"

definition ilog2 :: "rat \<Rightarrow> int" where
  "ilog2 x = (let (n, d) = quotient_of x; k = bitlen n - bitlen d
     in if x < pow2 k then k - 1 else k)"

definition rnd64 :: "rat \<Rightarrow> float64" where
  "rnd64 x =
     (if x = 0 then 0
      else let u = pow2 (ilog2 \<bar>x\<bar> - 52) in sgn x * of_int (rne (\<bar>x\<bar> / u)) * u)"

definition fadd :: "float64 \<Rightarrow> float64 \<Rightarrow> float64" where "fadd x y = rnd64 (x + y)"
definition fsub :: "float64 \<Rightarrow> float64 \<Rightarrow> float64" where "fsub x y = rnd64 (x - y)"
definition fmul :: "float64 \<Rightarrow> float64 \<Rightarrow> float64" where "fmul x y = rnd64 (x * y)"
definition fdiv :: "float64 \<Rightarrow> float64 \<Rightarrow> float64" where "fdiv x y = rnd64 (x / y)"

lemma rne_mono: "x \<le> y \<Longrightarrow> rne x \<le> rne y"
proof -
  assume le: "x \<le> y"
  then have fl: "\<lfloor>x\<rfloor> \<le> \<lfloor>y\<rfloor>" by (rule floor_mono)
  show ?thesis
  proof (cases "\<lfloor>x\<rfloor> = \<lfloor>y\<rfloor>")
    case True
    with le show ?thesis by (auto simp: rne_def Let_def)
  next
    case False
    with fl have "\<lfloor>x\<rfloor> + 1 \<le> \<lfloor>y\<rfloor>" by simp
    then show ?thesis by (auto simp: rne_def Let_def)
  qed
qed

lemma rne_of_int [simp]: "rne (of_int n) = n"
  by (simp add: rne_def)

lemma pow2_eq_powi: "pow2 e = 2 powi e"
  by (simp add: pow2_def power_int_def inverse_eq_divide power_one_over)

lemma pow2_pos [simp]: "0 < pow2 e"
  by (simp add: pow2_eq_powi)

lemma pow2_add: "pow2 (a + b) = pow2 a * pow2 b"
  by (simp add: pow2_eq_powi power_int_add)

lemma pow2_mono: "a \<le> b \<Longrightarrow> pow2 a \<le> pow2 b"
  by (simp add: pow2_eq_powi power_int_increasing)

lemma pow2_less: "pow2 a < pow2 b \<longleftrightarrow> a < b"
proof
  show "a < b" if "pow2 a < pow2 b"
    using that pow2_mono [of b a] by (meson not_le)
  show "pow2 a < pow2 b" if "a < b"
    using that by (simp add: pow2_eq_powi power_int_strict_increasing)
qed

lemma pow2_of_nat: "pow2 (int n) = 2 ^ n"
  by (simp add: pow2_def)

text \<open>\<open>ilog2 x\<close> is the exponent of the binade that holds \<open>x\<close>.\<close>

lemma bitlen_bounds_rat:
  assumes "0 < n"
  shows "pow2 (bitlen n - 1) \<le> of_int n" and "of_int n < pow2 (bitlen n)"
proof -
  have b: "0 < bitlen n" using assms by (metis bitlen_nonneg bitlen_eq_zero_iff not_le order_le_less)
  have "2 ^ nat (bitlen n - 1) \<le> n \<and> n < 2 ^ nat (bitlen n)"
    using assms bitlen_bounds by blast
  then have "(2::rat) ^ nat (bitlen n - 1) \<le> of_int n \<and> of_int n < (2::rat) ^ nat (bitlen n)"
    by (metis of_int_le_iff of_int_less_iff of_int_numeral of_int_power)
  with b show "pow2 (bitlen n - 1) \<le> of_int n" and "of_int n < pow2 (bitlen n)"
    by (simp_all add: pow2_def)
qed

lemma ilog2_bounds:
  assumes "0 < x"
  shows "pow2 (ilog2 x) \<le> x" and "x < pow2 (ilog2 x + 1)"
proof -
  obtain n d where nd: "quotient_of x = (n, d)" by fastforce
  then have x: "x = of_int n / of_int d" and d: "0 < d"
    by (auto intro: quotient_of_div quotient_of_denom_pos)
  with assms have n: "0 < n" by (simp add: zero_less_divide_iff)
  let ?k = "bitlen n - bitlen d"
  have lo: "pow2 (?k - 1) \<le> x"
  proof -
    have "pow2 (?k - 1) * of_int d \<le> pow2 (?k - 1) * pow2 (bitlen d)"
      using bitlen_bounds_rat [OF d] by (intro mult_left_mono) (auto simp: less_imp_le)
    also have "\<dots> = pow2 (bitlen n - 1)" by (simp flip: pow2_add)
    also have "\<dots> \<le> of_int n" using bitlen_bounds_rat [OF n] by simp
    finally show ?thesis using d by (simp add: x pos_le_divide_eq)
  qed
  have hi: "x < pow2 (?k + 1)"
  proof -
    have "of_int n < pow2 (bitlen n)" using bitlen_bounds_rat [OF n] by simp
    also have "\<dots> = pow2 (?k + 1) * pow2 (bitlen d - 1)" by (simp flip: pow2_add)
    also have "\<dots> \<le> pow2 (?k + 1) * of_int d"
      using bitlen_bounds_rat [OF d] by (intro mult_left_mono) (auto simp: less_imp_le)
    finally show ?thesis using d by (simp add: x pos_divide_less_eq)
  qed
  show "pow2 (ilog2 x) \<le> x" and "x < pow2 (ilog2 x + 1)"
    using lo hi by (auto simp: ilog2_def nd Let_def)
qed

lemma ilog2_unique:
  assumes "pow2 e \<le> x" and "x < pow2 (e + 1)"
  shows "ilog2 x = e"
proof -
  have x: "0 < x" using assms(1) pow2_pos order_less_le_trans by blast
  have "pow2 e < pow2 (ilog2 x + 1)" and "pow2 (ilog2 x) < pow2 (e + 1)"
    using assms ilog2_bounds [OF x] by linarith+
  then show ?thesis by (simp add: pow2_less)
qed

lemma ilog2_mono: "0 < x \<Longrightarrow> x \<le> y \<Longrightarrow> ilog2 x \<le> ilog2 y"
proof -
  assume "0 < x" "x \<le> y"
  then have "pow2 (ilog2 x) < pow2 (ilog2 y + 1)"
    using ilog2_bounds [of x] ilog2_bounds [of y] by linarith
  then show ?thesis by (simp add: pow2_less)
qed


section \<open>What rounding keeps\<close>

lemma rnd64_zero [simp]: "rnd64 0 = 0"
  by (simp add: rnd64_def)

lemma rnd64_pos:
  "0 < x \<Longrightarrow> rnd64 x = of_int (rne (x / pow2 (ilog2 x - 52))) * pow2 (ilog2 x - 52)"
  by (simp add: rnd64_def Let_def)

lemma rnd64_minus [simp]: "rnd64 (- x) = - rnd64 x"
  by (simp add: rnd64_def Let_def sgn_minus)

text \<open>A positive value is rounded within its binade, the upper end included.\<close>

lemma rnd64_binade:
  assumes "0 < x"
  shows "pow2 (ilog2 x) \<le> rnd64 x" and "rnd64 x \<le> pow2 (ilog2 x + 1)"
proof -
  let ?e = "ilog2 x - 52"
  have u: "0 < pow2 ?e" by simp
  have lo: "of_int (2 ^ 52) \<le> x / pow2 ?e"
  proof -
    have "2 ^ 52 * pow2 ?e = pow2 (ilog2 x)"
      using pow2_add [of 52 ?e] pow2_of_nat [of 52] by simp
    then show ?thesis using ilog2_bounds [OF assms] u by (simp add: pos_le_divide_eq)
  qed
  have hi: "x / pow2 ?e \<le> of_int (2 ^ 53)"
  proof -
    have "2 ^ 53 * pow2 ?e = pow2 (ilog2 x + 1)"
      using pow2_add [of 53 ?e] pow2_of_nat [of 53] by (simp add: add.commute)
    then show ?thesis using ilog2_bounds [OF assms] u
      by (simp add: pos_divide_le_eq add.commute)
  qed
  have "2 ^ 52 \<le> rne (x / pow2 ?e)" using rne_mono [OF lo] by (simp only: rne_of_int)
  then have "(2 ^ 52 :: rat) \<le> of_int (rne (x / pow2 ?e))"
    by (metis of_int_le_iff of_int_numeral of_int_power)
  then have "2 ^ 52 * pow2 ?e \<le> rnd64 x"
    using assms u by (simp add: rnd64_pos)
  then show "pow2 (ilog2 x) \<le> rnd64 x"
    using pow2_add [of 52 ?e] pow2_of_nat [of 52] by simp
  have "rne (x / pow2 ?e) \<le> 2 ^ 53" using rne_mono [OF hi] by (simp only: rne_of_int)
  then have "of_int (rne (x / pow2 ?e)) \<le> (2 ^ 53 :: rat)"
    by (metis of_int_le_iff of_int_numeral of_int_power)
  then have "rnd64 x \<le> 2 ^ 53 * pow2 ?e"
    using assms u by (simp add: rnd64_pos)
  then show "rnd64 x \<le> pow2 (ilog2 x + 1)"
    using pow2_add [of 53 ?e] pow2_of_nat [of 53] by (simp add: add.commute)
qed

lemma rnd64_positive: "0 < x \<Longrightarrow> 0 < rnd64 x"
  using rnd64_binade(1) pow2_pos order_less_le_trans by blast

lemma rnd64_mono_pos:
  assumes "0 < x" and "x \<le> y"
  shows "rnd64 x \<le> rnd64 y"
proof (cases "ilog2 x = ilog2 y")
  case True
  then have "rne (x / pow2 (ilog2 y - 52)) \<le> rne (y / pow2 (ilog2 y - 52))"
    using assms by (intro rne_mono divide_right_mono) (auto simp: less_imp_le)
  with True assms show ?thesis by (simp add: rnd64_pos)
next
  case False
  with assms ilog2_mono have "ilog2 x + 1 \<le> ilog2 y" by (metis zless_imp_add1_zle order_le_less)
  then have "pow2 (ilog2 x + 1) \<le> pow2 (ilog2 y)" by (rule pow2_mono)
  then show ?thesis using rnd64_binade [of x] rnd64_binade [of y] assms by linarith
qed

lemma rnd64_mono:
  assumes "x \<le> y"
  shows "rnd64 x \<le> rnd64 y"
proof -
  consider "0 < x" | "x = 0" | "x < 0" "0 < y" | "x < 0" "y = 0" | "y < 0"
    using assms by linarith
  then show ?thesis
  proof cases
    case 1
    then show ?thesis using assms by (rule rnd64_mono_pos)
  next
    case 2
    then show ?thesis using assms rnd64_positive [of y] by (cases "y = 0") auto
  next
    case 3
    then show ?thesis using rnd64_positive [of "- x"] rnd64_positive [of y] by simp
  next
    case 4
    then show ?thesis using rnd64_positive [of "- x"] by simp
  next
    case 5
    then show ?thesis using assms rnd64_mono_pos [of "- y" "- x"] by simp
  qed
qed

text \<open>Values with at most 53 significant bits are exact.\<close>

lemma rnd64_multiple:
  assumes "0 < x" and "x = of_int q * pow2 (ilog2 x - 52)"
  shows "rnd64 x = x"
proof -
  have "x / pow2 (ilog2 x - 52) = of_int q"
    using assms(2) pow2_pos [of "ilog2 x - 52"] by (metis less_irrefl nonzero_mult_div_cancel_right)
  then show ?thesis using assms by (simp add: rnd64_pos)
qed

lemma pow2_split: "j \<le> e \<Longrightarrow> pow2 e = of_int (2 ^ nat (e - j)) * pow2 j"
  using pow2_add [of "e - j" j] by (simp add: pow2_def)

lemma rnd64_exact_pos:
  assumes "0 \<le> k" and "k \<le> 2 ^ 53"
  shows "rnd64 (of_int k * pow2 e) = of_int k * pow2 e"
proof (cases "k = 0")
  case False
  let ?x = "of_int k * pow2 e"
  have x: "0 < ?x" using False assms by simp
  show ?thesis
  proof (cases "ilog2 ?x - 52 \<le> e")
    case True
    then have "?x = of_int (k * 2 ^ nat (e - (ilog2 ?x - 52))) * pow2 (ilog2 ?x - 52)"
      using pow2_split [OF True] by simp
    then show ?thesis using x by (rule rnd64_multiple [rotated])
  next
    case j: False
    have "pow2 53 * pow2 e = pow2 (53 + e)" by (rule pow2_add [symmetric])
    also have "\<dots> \<le> pow2 (ilog2 ?x)" using j by (intro pow2_mono) linarith
    also have "\<dots> \<le> ?x" by (rule ilog2_bounds [OF x])
    finally have "pow2 53 \<le> of_int k" by simp
    then have "of_int (2 ^ 53) \<le> (of_int k :: rat)" by (simp add: pow2_def)
    with assms have k: "k = 2 ^ 53" by (simp only: of_int_le_iff)
    have xp: "?x = pow2 (e + 53)" using pow2_add [of e 53] by (simp add: k pow2_def)
    have "ilog2 ?x = e + 53" unfolding xp by (rule ilog2_unique) (simp_all add: pow2_less)
    moreover have "?x = of_int (2 ^ 52) * pow2 (e + 1)"
      unfolding xp using pow2_split [of "e + 1" "e + 53"] by simp
    moreover have "e + 53 - 52 = e + 1" by simp
    ultimately have "?x = of_int (2 ^ 52) * pow2 (ilog2 ?x - 52)" by metis
    with x show ?thesis by (rule rnd64_multiple)
  qed
qed simp

lemma rnd64_idem_pos: "0 < x \<Longrightarrow> rnd64 (rnd64 x) = rnd64 x"
proof -
  assume x: "0 < x"
  let ?e = "ilog2 x - 52"
  have "x / pow2 ?e \<le> of_int (2 ^ 53)"
  proof -
    have "x \<le> pow2 (53 + ?e)" using ilog2_bounds [OF x] by (simp add: add.commute)
    also have "\<dots> = 2 ^ 53 * pow2 ?e" using pow2_add [of 53 ?e] pow2_of_nat [of 53] by simp
    finally show ?thesis by (simp add: pos_divide_le_eq)
  qed
  then have "rne (x / pow2 ?e) \<le> 2 ^ 53" using rne_mono by (metis rne_of_int)
  moreover have "0 \<le> rne (x / pow2 ?e)"
    using rne_mono [of 0 "x / pow2 ?e"] x rne_of_int [of 0] by (simp add: less_imp_le)
  ultimately show ?thesis using x rnd64_exact_pos by (simp add: rnd64_pos)
qed

lemma rnd64_idem [simp]: "rnd64 (rnd64 x) = rnd64 x"
proof -
  consider "0 < x" | "x = 0" | "0 < - x" by linarith
  then show ?thesis
    by cases (use rnd64_idem_pos [of x] rnd64_idem_pos [of "- x"] in simp_all)
qed

lemma rnd64_of_int:
  assumes "\<bar>n\<bar> \<le> 2 ^ 53"
  shows "rnd64 (of_int n) = of_int n"
proof (cases "0 \<le> n")
  case True
  then show ?thesis using assms rnd64_exact_pos [of n 0] by (simp add: pow2_def)
next
  case False
  then show ?thesis using assms rnd64_exact_pos [of "- n" 0] by (simp add: pow2_def)
qed

lemma rnd64_one [simp]: "rnd64 1 = 1"
  using rnd64_of_int [of 1] by simp

text \<open>The relative error of a rounded value.\<close>

lemma rne_error: "\<bar>of_int (rne q) - q\<bar> \<le> 1 / 2"
proof -
  have "of_int \<lfloor>q\<rfloor> \<le> q" "q < of_int \<lfloor>q\<rfloor> + 1" by linarith+
  then show ?thesis unfolding rne_def Let_def by (simp add: abs_le_iff)
qed

lemma rnd64_error: "\<bar>rnd64 x - x\<bar> \<le> \<bar>x\<bar> / 2 ^ 53"
proof -
  have pos: "\<bar>rnd64 y - y\<bar> \<le> y / 2 ^ 53" if y: "0 < y" for y
  proof -
    let ?u = "pow2 (ilog2 y - 52)"
    have u: "0 < ?u" by simp
    then have "?u \<noteq> 0" by (rule less_imp_neq [THEN not_sym])
    then have "of_int (rne (y / ?u)) * ?u - y = (of_int (rne (y / ?u)) - y / ?u) * ?u"
      by (simp add: left_diff_distrib)
    then have "\<bar>of_int (rne (y / ?u)) * ?u - y\<bar> = \<bar>of_int (rne (y / ?u)) - y / ?u\<bar> * ?u"
      using u by (simp only: abs_mult abs_of_pos)
    also have "\<dots> \<le> 1 / 2 * ?u"
      using rne_error [of "y / ?u"] less_imp_le [OF u] by (intro mult_right_mono) simp_all
    also have "\<dots> \<le> y / 2 ^ 53"
      using ilog2_bounds(1) [OF y] pow2_add [of "ilog2 y" "- 52"] by (simp add: pow2_def [of "- 52"])
    finally show ?thesis by (simp only: rnd64_pos [OF y])
  qed
  consider "0 < x" | "x = 0" | "0 < - x" by linarith
  then show ?thesis
    by cases (use pos [of x] pos [of "- x"] in \<open>simp_all add: abs_minus_commute\<close>)
qed

lemma rnd64_lower: "\<bar>z\<bar> * (1 - 1 / 2 ^ 53) \<le> \<bar>rnd64 z\<bar>"
proof -
  have "\<bar>z\<bar> \<le> \<bar>rnd64 z\<bar> + \<bar>z\<bar> / 2 ^ 53" using rnd64_error [of z] by linarith
  then show ?thesis by (simp add: right_diff_distrib)
qed

section \<open>Decimal columns\<close>

text \<open>A column of \<open>n\<close> decimal places rounds what is written to it, halves away from zero.\<close>

definition dec_places :: "nat \<Rightarrow> rat \<Rightarrow> rat" where
  "dec_places n x = sgn x * of_int \<lfloor>\<bar>x\<bar> * 10 ^ n + 1 / 2\<rfloor> / 10 ^ n"

lemma dec_places_zero [simp]: "dec_places n 0 = 0"
  by (simp add: dec_places_def)

lemma dec_places_minus [simp]: "dec_places n (- x) = - dec_places n x"
  by (simp add: dec_places_def sgn_minus)

lemma dec_places_nonneg: "0 \<le> x \<Longrightarrow> 0 \<le> dec_places n x"
  by (cases "x = 0") (simp_all add: dec_places_def)

lemma dec_places_near: "\<bar>dec_places n x - x\<bar> \<le> 1 / (2 * 10 ^ n)"
proof -
  have "\<bar>of_int \<lfloor>\<bar>x\<bar> * 10 ^ n + 1 / 2\<rfloor> - \<bar>x\<bar> * 10 ^ n\<bar> \<le> 1 / 2"
    using of_int_floor_le [of "\<bar>x\<bar> * 10 ^ n + 1 / 2"] floor_correct [of "\<bar>x\<bar> * 10 ^ n + 1 / 2"] by linarith
  then have "\<bar>of_int \<lfloor>\<bar>x\<bar> * 10 ^ n + 1 / 2\<rfloor> / 10 ^ n - \<bar>x\<bar>\<bar> \<le> 1 / (2 * 10 ^ n)"
    by (simp add: abs_le_iff field_simps)
  moreover have "dec_places n x - x = sgn x * (of_int \<lfloor>\<bar>x\<bar> * 10 ^ n + 1 / 2\<rfloor> / 10 ^ n - \<bar>x\<bar>)"
    by (simp add: dec_places_def right_diff_distrib sgn_mult_abs)
  ultimately show ?thesis by (cases "x = 0") (simp_all add: abs_mult)
qed

lemma dec_places_of_int [simp]: "dec_places n (of_int k / 10 ^ n) = of_int k / 10 ^ n"
proof -
  have "\<bar>of_int k / 10 ^ n :: rat\<bar> * 10 ^ n = of_int \<bar>k\<bar>" by (simp add: abs_divide)
  moreover have "\<lfloor>of_int \<bar>k\<bar> + 1 / 2 :: rat\<rfloor> = \<bar>k\<bar>" by (rule floor_unique) simp_all
  moreover have "sgn (of_int k / 10 ^ n :: rat) * of_int \<bar>k\<bar> = of_int k"
    by (cases k "0 :: int" rule: linorder_cases) (simp_all add: sgn_divide)
  ultimately show ?thesis by (simp only: dec_places_def)
qed

lemma dec_places_idem [simp]: "dec_places n (dec_places n x) = dec_places n x"
proof -
  have "dec_places n x = of_int ((if 0 < x then 1 else if x < 0 then - 1 else 0) * \<lfloor>\<bar>x\<bar> * 10 ^ n + 1 / 2\<rfloor>) / 10 ^ n"
    by (simp add: dec_places_def)
  then show ?thesis by (metis dec_places_of_int)
qed

section \<open>The interface the amounts rest on\<close>

definition is_float :: "rat \<Rightarrow> bool" where
  "is_float x \<longleftrightarrow> rnd64 x = x"

locale go_rounding =
  fixes rnd :: "rat \<Rightarrow> rat"
  assumes rnd_mono: "x \<le> y \<Longrightarrow> rnd x \<le> rnd y"
    and rnd_idem: "rnd (rnd x) = rnd x"
    and rnd_0: "rnd 0 = 0"
    and rnd_1: "rnd 1 = 1"
    and rnd_pos: "0 < x \<Longrightarrow> 0 < rnd x"
begin

lemma rnd_nonneg: "0 \<le> x \<Longrightarrow> 0 \<le> rnd x"
  using rnd_mono [of 0 x] by (simp add: rnd_0)

lemma rnd_nonpos: "x \<le> 0 \<Longrightarrow> rnd x \<le> 0"
  using rnd_mono [of x 0] by (simp add: rnd_0)

lemma rnd_le_float: "rnd y = y \<Longrightarrow> x \<le> y \<Longrightarrow> rnd x \<le> y"
  using rnd_mono [of x y] by simp

lemma float_le_rnd: "rnd x = x \<Longrightarrow> x \<le> y \<Longrightarrow> x \<le> rnd y"
  using rnd_mono [of x y] by simp

lemma add_nonneg_ge: "rnd x = x \<Longrightarrow> 0 \<le> y \<Longrightarrow> x \<le> rnd (x + y)"
  by (rule float_le_rnd) simp_all

lemma mult_nonneg: "0 \<le> x \<Longrightarrow> 0 \<le> y \<Longrightarrow> 0 \<le> rnd (x * y)"
  by (simp add: rnd_nonneg)

lemma mult_mono_right: "0 \<le> c \<Longrightarrow> x \<le> y \<Longrightarrow> rnd (x * c) \<le> rnd (y * c)"
  by (simp add: rnd_mono mult_right_mono)

end

interpretation f64: go_rounding rnd64
  by unfold_locales (auto intro: rnd64_mono rnd64_positive)

section \<open>Conversions\<close>

text \<open>\<open>int(x)\<close> on a float drops the fraction. \<open>Duration.Hours()\<close> adds the whole hours
  and the float quotient of the remaining nanoseconds.\<close>

definition trunc :: "float64 \<Rightarrow> int" where
  "trunc x = (if 0 \<le> x then \<lfloor>x\<rfloor> else - \<lfloor>- x\<rfloor>)"

definition go_div :: "int \<Rightarrow> int \<Rightarrow> int" where
  "go_div a b = sgn a * sgn b * (\<bar>a\<bar> div \<bar>b\<bar>)"

definition go_mod :: "int \<Rightarrow> int \<Rightarrow> int" where
  "go_mod a b = a - b * go_div a b"

definition Duration_Hours :: "go_duration \<Rightarrow> float64" where
  "Duration_Hours d =
     fadd (of_int (go_div d hour)) (fdiv (of_int (go_mod d hour)) (of_int hour))"

definition Duration_Seconds :: "go_duration \<Rightarrow> float64" where
  "Duration_Seconds d =
     fadd (of_int (go_div d second)) (fdiv (of_int (go_mod d second)) (of_int second))"

lemma go_div_nonneg: "0 \<le> a \<Longrightarrow> 0 < b \<Longrightarrow> go_div a b = a div b"
  by (cases "a = 0") (simp_all add: go_div_def)

lemma go_mod_nonneg: "0 \<le> a \<Longrightarrow> 0 < b \<Longrightarrow> go_mod a b = a mod b"
  by (simp add: go_mod_def go_div_nonneg minus_mult_div_eq_mod)

lemma trunc_bounds: "of_int a \<le> x \<Longrightarrow> 0 \<le> a \<Longrightarrow> x \<le> of_int b \<Longrightarrow> a \<le> trunc x \<and> trunc x \<le> b"
proof -
  assume *: "of_int a \<le> x" "0 \<le> a" "x \<le> of_int b"
  then have "0 \<le> x" by (meson of_int_0_le_iff order_trans)
  with * show ?thesis by (simp add: trunc_def le_floor_iff floor_le_iff)
qed

text \<open>The days left in a positive duration, as the program computes them, are the whole days or one
  more: the float sum may round up to the next multiple of 24 hours.\<close>

definition days_of_duration :: "go_duration \<Rightarrow> int" where
  "days_of_duration d = trunc (fdiv (Duration_Hours d) 24)"

lemma days_of_duration_bounds:
  assumes "0 \<le> d" and "d < 2 ^ 63"
  shows "d div (24 * hour) \<le> days_of_duration d \<and> days_of_duration d \<le> d div (24 * hour) + 1"
proof -
  let ?D = "d div (24 * hour)"
  have D: "0 \<le> ?D" "?D < 2 ^ 40" using assms by (simp_all add: div_less_iff_less_mult pos_imp_zdiv_nonneg_iff)
  let ?f = "fdiv (of_int (d mod hour)) (of_int hour)"
  have H: "Duration_Hours d = rnd64 (of_int (d div hour) + ?f)"
    using assms by (simp add: Duration_Hours_def go_div_nonneg go_mod_nonneg fadd_def)
  have f0: "0 \<le> ?f" unfolding fdiv_def by (rule f64.rnd_nonneg) simp
  have f1: "?f \<le> 1" unfolding fdiv_def
    by (rule f64.rnd_le_float) (simp_all add: pos_divide_le_eq flip: of_int_le_iff less_imp_le [OF pos_mod_bound])
  have lo: "of_int (24 * ?D) \<le> (of_int (d div hour) :: rat)"
    unfolding of_int_le_iff by (simp add: zdiv_zmult2_eq)
  have hi: "of_int (d div hour) + 1 \<le> (of_int (24 * (?D + 1)) :: rat)"
  proof -
    have "d div hour < 24 * (?D + 1)" by (simp add: div_less_iff_less_mult)
    then show ?thesis by (metis of_int_1 of_int_add of_int_le_iff zless_imp_add1_zle)
  qed
  have fl: "rnd64 (of_int k) = of_int k" if "0 \<le> k" "k \<le> 24 * (?D + 1)" for k
    using that D by (intro rnd64_of_int) simp
  have "of_int (24 * ?D) \<le> Duration_Hours d"
    unfolding H
  proof (rule f64.float_le_rnd)
    show "rnd64 (of_int (24 * ?D)) = of_int (24 * ?D)" using D by (intro fl) simp_all
    show "of_int (24 * ?D) \<le> of_int (d div hour) + ?f" using lo f0 by linarith
  qed
  moreover have "Duration_Hours d \<le> of_int (24 * (?D + 1))"
    unfolding H
  proof (rule f64.rnd_le_float)
    show "rnd64 (of_int (24 * (?D + 1))) = of_int (24 * (?D + 1))" using D by (intro fl) simp_all
    show "of_int (d div hour) + ?f \<le> of_int (24 * (?D + 1))" using hi f1 by linarith
  qed
  ultimately have "of_int ?D \<le> Duration_Hours d / 24" and "Duration_Hours d / 24 \<le> of_int (?D + 1)"
    by simp_all
  then have "of_int ?D \<le> fdiv (Duration_Hours d) 24" and "fdiv (Duration_Hours d) 24 \<le> of_int (?D + 1)"
    unfolding fdiv_def using fl [of ?D] fl [of "?D + 1"] D
    by (auto intro!: f64.float_le_rnd f64.rnd_le_float)
  then show ?thesis using D trunc_bounds unfolding days_of_duration_def by blast
qed

text \<open>The whole seconds of a positive duration, as \<open>int(d.Seconds())\<close> computes them, are exact or
  one more.\<close>

lemma trunc_Duration_Seconds_bounds:
  assumes "0 \<le> d" and "d < 2 ^ 63"
  shows "d div second \<le> trunc (Duration_Seconds d) \<and> trunc (Duration_Seconds d) \<le> d div second + 1"
proof -
  let ?S = "d div second"
  let ?f = "fdiv (of_int (d mod second)) (of_int second)"
  have S: "0 \<le> ?S" "?S < 2 ^ 53 - 1" using assms by simp_all
  have H: "Duration_Seconds d = rnd64 (of_int ?S + ?f)"
    using assms by (simp add: Duration_Seconds_def go_div_nonneg go_mod_nonneg fadd_def)
  have f0: "0 \<le> ?f" unfolding fdiv_def by (rule f64.rnd_nonneg) simp
  have f1: "?f \<le> 1" unfolding fdiv_def
    by (rule f64.rnd_le_float) (simp_all add: pos_divide_le_eq flip: of_int_le_iff less_imp_le [OF pos_mod_bound])
  have fl: "rnd64 (of_int k) = of_int k" if "0 \<le> k" "k < 2 ^ 53" for k
    using that by (intro rnd64_of_int) simp
  have "of_int ?S \<le> Duration_Seconds d"
    unfolding H using fl [of ?S] S f0 by (intro f64.float_le_rnd) simp_all
  moreover have "Duration_Seconds d \<le> of_int (?S + 1)"
    unfolding H using fl [of "?S + 1"] S f1 by (intro f64.rnd_le_float) simp_all
  ultimately show ?thesis using S trunc_bounds by blast
qed

end
