(* ===== verification/GoUtf8.thy ===== *)
theory GoUtf8
  imports GoPrelude
begin

text \<open>
  The part of Go's \<open>unicode/utf8\<close> the program uses: \<open>utf8_valid\<close> is \<open>utf8.ValidString\<close>
  (shortest forms only, no surrogates, nothing above U+10FFFF). A string of bytes is cut on a rune
  boundary by shortening it until it is valid.
\<close>

definition cont :: "char \<Rightarrow> bool" where
  "cont c \<longleftrightarrow> 128 \<le> byte_of c \<and> byte_of c \<le> 191"

definition starts2 :: "char \<Rightarrow> bool" where
  "starts2 a \<longleftrightarrow> 194 \<le> byte_of a \<and> byte_of a \<le> 223"

definition starts3 :: "char \<Rightarrow> char \<Rightarrow> bool" where
  "starts3 a b \<longleftrightarrow> 224 \<le> byte_of a \<and> byte_of a \<le> 239 \<and> cont b
     \<and> (byte_of a = 224 \<longrightarrow> 160 \<le> byte_of b) \<and> (byte_of a = 237 \<longrightarrow> byte_of b \<le> 159)"

definition starts4 :: "char \<Rightarrow> char \<Rightarrow> bool" where
  "starts4 a b \<longleftrightarrow> 240 \<le> byte_of a \<and> byte_of a \<le> 244 \<and> cont b
     \<and> (byte_of a = 240 \<longrightarrow> 144 \<le> byte_of b) \<and> (byte_of a = 244 \<longrightarrow> byte_of b \<le> 143)"

fun rune_len :: "string \<Rightarrow> nat" where
  "rune_len [] = 0"
| "rune_len (a # s) =
     (if byte_of a < 128 then 1
      else case s of
        [] \<Rightarrow> 0
      | b # s' \<Rightarrow>
          if starts2 a \<and> cont b then 2
          else case s' of
            [] \<Rightarrow> 0
          | c # s'' \<Rightarrow>
              if starts3 a b \<and> cont c then 3
              else case s'' of
                [] \<Rightarrow> 0
              | d # _ \<Rightarrow> if starts4 a b \<and> cont c \<and> cont d then 4 else 0)"

lemma rune_len_le: "rune_len s \<le> 4" "rune_len s \<le> length s"
  by (cases s; auto split: list.split)+

function utf8_valid :: "string \<Rightarrow> bool" where
  "utf8_valid s = (if s = [] then True else if rune_len s = 0 then False else utf8_valid (drop (rune_len s) s))"
  by auto
termination
  by (relation "measure length") (auto simp: neq_Nil_conv)

declare utf8_valid.simps [simp del]

lemma utf8_valid_Nil [simp]: "utf8_valid []"
  by (simp add: utf8_valid.simps)

text \<open>The length of the first rune depends on its own bytes only.\<close>

lemma rune_len_take:
  assumes "rune_len s \<noteq> 0" and "rune_len s \<le> n"
  shows "rune_len (take n s) = rune_len s"
  using assms by (cases s; cases n) (auto simp: take_Cons' split: list.splits if_splits)

lemma utf8_valid_step:
  "s \<noteq> [] \<Longrightarrow> utf8_valid s \<Longrightarrow> 0 < rune_len s \<and> utf8_valid (drop (rune_len s) s)"
  by (subst (asm) utf8_valid.simps) (auto split: if_splits)

lemma utf8_valid_take:
  assumes "utf8_valid s" and "n \<le> length s"
  shows "\<exists>m \<le> n. n \<le> m + 3 \<and> utf8_valid (take m s)"
  using assms
proof (induction s arbitrary: n rule: utf8_valid.induct)
  case (1 s)
  show ?case
  proof (cases "s = [] \<or> n < rune_len s")
    case True
    then have "n \<le> 3" using 1(3) rune_len_le(1) [of s] by auto
    then show ?thesis by (intro exI [of _ 0]) simp
  next
    case False
    let ?k = "rune_len s"
    from False 1(2) utf8_valid_step [of s] have k: "0 < ?k" "utf8_valid (drop ?k s)" by auto
    have "n - ?k \<le> length (drop ?k s)" using 1(3) by simp
    with 1(1) [of "n - ?k"] False k obtain m where
      m: "m \<le> n - ?k" "n - ?k \<le> m + 3" "utf8_valid (take m (drop ?k s))" by auto
    have "take (?k + m) s \<noteq> []" using False k by auto
    moreover have "rune_len (take (?k + m) s) = ?k" using k by (intro rune_len_take) auto
    moreover have "drop ?k (take (?k + m) s) = take m (drop ?k s)" by (simp add: take_drop add.commute)
    ultimately have "utf8_valid (take (?k + m) s)"
      using k m(3) by (subst utf8_valid.simps) simp
    with m False show ?thesis by (intro exI [of _ "?k + m"]) auto
  qed
qed

fun shorten :: "string \<Rightarrow> nat \<Rightarrow> nat" where
  "shorten s 0 = 0"
| "shorten s (Suc n) = (if utf8_valid (take (Suc n) s) then Suc n else shorten s n)"

lemma shorten_le: "shorten s n \<le> n"
  by (induction n) auto

lemma shorten_valid: "utf8_valid (take (shorten s n) s)"
  by (induction n) auto

lemma shorten_max: "m \<le> n \<Longrightarrow> utf8_valid (take m s) \<Longrightarrow> m \<le> shorten s n"
  by (induction n) (auto simp: le_Suc_eq)

end
