(* ===== verification/GroupConfig.thy ===== *)
theory GroupConfig
  imports GoFloat
begin

text \<open>
  The group entity (\<open>service/group.go\<close>, \<open>service/group_models_list.go\<close>) and the
  video billing sizes (\<open>service/video_billing_resolution.go\<close>): limits, peak-hour rates, media
  prices and model routing. The record holds the fields these operations read. A Go map that the
  code ranges over is an association list in the order of one iteration; the order is arbitrary,
  so a property over all lists is a property over all orders. The wall clock of the configured time
  zone is the parameter \<open>clock\<close>, which gives the hour and minute of an instant.
\<close>

section \<open>The group record and its flags\<close>

record GroupModelsListConfig =
  mlc_Enabled :: bool
  mlc_Models :: "string list"

record Group =
  g_ID :: int
  g_Platform :: string
  g_Status :: string
  g_Hydrated :: bool
  g_SubscriptionType :: string
  g_DailyLimitUSD :: "float64 option"
  g_WeeklyLimitUSD :: "float64 option"
  g_MonthlyLimitUSD :: "float64 option"
  g_PeakRateEnabled :: bool
  g_PeakStart :: string
  g_PeakEnd :: string
  g_PeakRateMultiplier :: float64
  g_ImageRateIndependent :: bool
  g_ImageRateMultiplier :: float64
  g_ImagePrice1K :: "float64 option"
  g_ImagePrice2K :: "float64 option"
  g_ImagePrice4K :: "float64 option"
  g_VideoRateIndependent :: bool
  g_VideoRateMultiplier :: float64
  g_VideoPrice480P :: "float64 option"
  g_VideoPrice720P :: "float64 option"
  g_VideoPrice1080P :: "float64 option"
  g_ModelRouting :: "(string \<times> int list) list"
  g_ModelRoutingEnabled :: bool
  g_ModelsListConfig :: GroupModelsListConfig

definition StatusActive :: string where "StatusActive = ''active''"
definition SubscriptionTypeSubscription :: string where
  "SubscriptionTypeSubscription = ''subscription''"

definition Group_IsActive :: "Group \<Rightarrow> bool" where
  "Group_IsActive g \<longleftrightarrow> g_Status g = StatusActive"

definition IsSubscriptionType :: "Group \<Rightarrow> bool" where
  "IsSubscriptionType g \<longleftrightarrow> g_SubscriptionType g = SubscriptionTypeSubscription"

definition positive_limit :: "float64 option \<Rightarrow> bool" where
  "positive_limit l = (case l of None \<Rightarrow> False | Some v \<Rightarrow> 0 < v)"

definition HasDailyLimit :: "Group \<Rightarrow> bool" where
  "HasDailyLimit g = positive_limit (g_DailyLimitUSD g)"

definition HasWeeklyLimit :: "Group \<Rightarrow> bool" where
  "HasWeeklyLimit g = positive_limit (g_WeeklyLimitUSD g)"

definition HasMonthlyLimit :: "Group \<Rightarrow> bool" where
  "HasMonthlyLimit g = positive_limit (g_MonthlyLimitUSD g)"

definition GetImagePrice :: "Group \<Rightarrow> string \<Rightarrow> float64 option" where
  "GetImagePrice g imageSize =
     (if imageSize = ''1K'' then g_ImagePrice1K g
      else if imageSize = ''2K'' then g_ImagePrice2K g
      else if imageSize = ''4K'' then g_ImagePrice4K g
      else g_ImagePrice2K g)"

definition NormalizeVideoBillingDurationSecondsOrDefault :: "int \<Rightarrow> int" where
  "NormalizeVideoBillingDurationSecondsOrDefault d =
     (if d \<le> 0 then 8 else if d < 1 then 1 else if 15 < d then 15 else d)"

definition NormalizeVideoBillingResolutionOrDefault :: "string \<Rightarrow> string" where
  "NormalizeVideoBillingResolutionOrDefault resolution =
     (let r = to_lower (trim_space resolution) in
      if r \<in> {''480'', ''480p'', ''sd''} then ''480p''
      else if r \<in> {''720'', ''720p'', ''hd''} then ''720p''
      else if r \<in> {''1080'', ''1080p'', ''full_hd'', ''full-hd'', ''fhd''} then ''1080p''
      else ''480p'')"

definition GetVideoPrice :: "Group \<Rightarrow> string \<Rightarrow> float64 option" where
  "GetVideoPrice g resolution =
     (let r = NormalizeVideoBillingResolutionOrDefault resolution in
      if r = ''480p'' then g_VideoPrice480P g
      else if r = ''720p'' then g_VideoPrice720P g
      else if r = ''1080p'' then g_VideoPrice1080P g
      else g_VideoPrice480P g)"

definition IsGroupContextValid :: "Group option \<Rightarrow> bool" where
  "IsGroupContextValid grp =
     (case grp of
        None \<Rightarrow> False
      | Some g \<Rightarrow>
          if g_ID g \<le> 0 then False
          else if \<not> g_Hydrated g then False
          else if g_Platform g = [] \<or> g_Status g = [] then False
          else True)"

lemma NormalizeVideoBillingDuration_range:
  "1 \<le> NormalizeVideoBillingDurationSecondsOrDefault d
   \<and> NormalizeVideoBillingDurationSecondsOrDefault d \<le> 15"
  by (simp add: NormalizeVideoBillingDurationSecondsOrDefault_def)

lemma NormalizeVideoBillingResolution_range:
  "NormalizeVideoBillingResolutionOrDefault r \<in> {''480p'', ''720p'', ''1080p''}"
  by (simp add: NormalizeVideoBillingResolutionOrDefault_def Let_def)

section \<open>Custom model lists\<close>

fun dedup_trimmed :: "string list \<Rightarrow> string list \<Rightarrow> string list" where
  "dedup_trimmed seen [] = []"
| "dedup_trimmed seen (m # ms) =
     (let model = trim_space m in
      if model = [] then dedup_trimmed seen ms
      else if model \<in> set seen then dedup_trimmed seen ms
      else model # dedup_trimmed (model # seen) ms)"

definition normalizeGroupModelsListConfig :: "GroupModelsListConfig \<Rightarrow> GroupModelsListConfig" where
  "normalizeGroupModelsListConfig cfg =
     \<lparr>mlc_Enabled = mlc_Enabled cfg, mlc_Models = dedup_trimmed [] (mlc_Models cfg)\<rparr>"

definition CustomModelsListEnabled :: "Group option \<Rightarrow> bool" where
  "CustomModelsListEnabled grp =
     (case grp of
        None \<Rightarrow> False
      | Some g \<Rightarrow> mlc_Enabled (g_ModelsListConfig g) \<and> mlc_Models (g_ModelsListConfig g) \<noteq> [])"

lemma set_dedup_trimmed: "set (dedup_trimmed seen ms) = trim_space ` set ms - {[]} - set seen"
  by (induction seen ms rule: dedup_trimmed.induct) (auto simp: Let_def)

lemma distinct_dedup_trimmed: "distinct (dedup_trimmed seen ms)"
  by (induction seen ms rule: dedup_trimmed.induct) (auto simp: Let_def set_dedup_trimmed)

section \<open>Model routing\<close>

definition matchModelPattern :: "string \<Rightarrow> string \<Rightarrow> bool" where
  "matchModelPattern pattern model =
     (if pattern = model then True
      else if suffix ''*'' pattern then prefix (butlast pattern) model
      else False)"

definition GetRoutingAccountIDs :: "Group \<Rightarrow> string \<Rightarrow> int list" where
  "GetRoutingAccountIDs g requestedModel =
     (if \<not> g_ModelRoutingEnabled g \<or> g_ModelRouting g = [] \<or> requestedModel = [] then []
      else (case map_of (g_ModelRouting g) requestedModel of
              Some (a # as) \<Rightarrow> a # as
            | _ \<Rightarrow>
                (case List.find (\<lambda>(p, ids). matchModelPattern p requestedModel \<and> ids \<noteq> [])
                        (g_ModelRouting g) of
                   Some (p, ids) \<Rightarrow> ids
                 | None \<Rightarrow> [])))"

lemma matchModelPattern_iff:
  "matchModelPattern pattern model \<longleftrightarrow>
     pattern = model \<or> (\<exists>p. pattern = p @ ''*'' \<and> prefix p model)"
  by (auto simp: matchModelPattern_def suffix_def)

lemma GetRoutingAccountIDs_matches:
  assumes "GetRoutingAccountIDs g model = ids" and "ids \<noteq> []"
  shows "\<exists>p. (p, ids) \<in> set (g_ModelRouting g) \<and> matchModelPattern p model"
  using assms
  by (auto simp: GetRoutingAccountIDs_def matchModelPattern_def [of model]
      split: if_splits option.splits list.splits
      dest!: find_Some_mem map_of_SomeD)

lemma GetRoutingAccountIDs_exact:
  assumes "g_ModelRoutingEnabled g" and "model \<noteq> []"
    and "map_of (g_ModelRouting g) model = Some ids" and "ids \<noteq> []"
  shows "GetRoutingAccountIDs g model = ids"
  using assms by (cases ids) (auto simp: GetRoutingAccountIDs_def)

text \<open>No answer means that no rule with accounts matches.\<close>

lemma find_None_iff': "List.find P xs = None \<longleftrightarrow> (\<forall>x \<in> set xs. \<not> P x)"
  by (induction xs) auto

lemma GetRoutingAccountIDs_none:
  assumes "g_ModelRoutingEnabled g" and "model \<noteq> []" and "GetRoutingAccountIDs g model = []"
    and "(p, ids) \<in> set (g_ModelRouting g)" and "matchModelPattern p model"
  shows "ids = []"
  using assms
  by (fastforce simp: GetRoutingAccountIDs_def find_None_iff'
      split: if_splits option.splits list.splits dest: find_Some_mem)


section \<open>Peak hours\<close>

text \<open>\<open>sub_zero c\<close> is \<open>c - '0'\<close> on bytes, which wraps below \<open>'0'\<close>.\<close>

definition sub_zero :: "char \<Rightarrow> nat" where
  "sub_zero c = (byte_of c + 208) mod 256"

fun hour_digits :: "nat \<Rightarrow> string \<Rightarrow> nat option" where
  "hour_digits h [] = Some h"
| "hour_digits h (c # cs) =
     (if 9 < sub_zero c then None else hour_digits (h * 10 + sub_zero c) cs)"

definition index_byte :: "string \<Rightarrow> char \<Rightarrow> int" where
  "index_byte s c = (if c \<in> set s then int (length (takeWhile (\<lambda>x. x \<noteq> c) s)) else - 1)"

definition parseMinutes :: "string \<Rightarrow> nat option" where
  "parseMinutes hhmm =
     (let colon = index_byte hhmm CHR '':'' in
      if (colon \<noteq> 1 \<and> colon \<noteq> 2) \<or> int (length hhmm) - colon - 1 \<noteq> 2 then None
      else (case hour_digits 0 (take (nat colon) hhmm) of
              None \<Rightarrow> None
            | Some h \<Rightarrow>
                let m1 = sub_zero (hhmm ! nat (colon + 1)); m2 = sub_zero (hhmm ! nat (colon + 2))
                in if 9 < m1 \<or> 9 < m2 then None
                   else let m = m1 * 10 + m2
                        in if 23 < h \<or> 59 < m then None else Some (h * 60 + m)))"

definition PeakMultiplierAt :: "(go_time \<Rightarrow> nat \<times> nat) \<Rightarrow> Group option \<Rightarrow> go_time \<Rightarrow> float64" where
  "PeakMultiplierAt clock grp now =
     (case grp of
        None \<Rightarrow> 1
      | Some g \<Rightarrow>
          if \<not> IsSubscriptionType g \<or> \<not> g_PeakRateEnabled g \<or> g_PeakStart g = [] \<or> g_PeakEnd g = []
          then 1
          else (case (parseMinutes (g_PeakStart g), parseMinutes (g_PeakEnd g)) of
                  (Some start, Some end') \<Rightarrow>
                    if end' \<le> start then 1
                    else let (h, m) = clock now; cur = h * 60 + m
                         in if start \<le> cur \<and> cur < end' then g_PeakRateMultiplier g else 1
                | _ \<Rightarrow> 1))"

datatype peak_error =
    PeakSubscriptionOnly
  | PeakBoundsRequired
  | PeakStartFormat
  | PeakEndFormat
  | PeakEndNotAfterStart
  | PeakMultiplierNegative

definition ValidatePeakRateConfig ::
  "string \<Rightarrow> bool \<Rightarrow> string \<Rightarrow> string \<Rightarrow> float64 \<Rightarrow> peak_error option" where
  "ValidatePeakRateConfig subscriptionType enabled start end' multiplier =
     (if \<not> enabled then None
      else if subscriptionType \<noteq> SubscriptionTypeSubscription then Some PeakSubscriptionOnly
      else if start = [] \<or> end' = [] then Some PeakBoundsRequired
      else (case parseMinutes start of
              None \<Rightarrow> Some PeakStartFormat
            | Some st \<Rightarrow>
                (case parseMinutes end' of
                   None \<Rightarrow> Some PeakEndFormat
                 | Some en \<Rightarrow>
                     if en \<le> st then Some PeakEndNotAfterStart
                     else if multiplier < 0 then Some PeakMultiplierNegative
                     else None)))"

definition NormalizePeakRateConfig ::
  "string \<Rightarrow> bool \<Rightarrow> string \<Rightarrow> string \<Rightarrow> float64 \<Rightarrow> bool \<times> string \<times> string \<times> float64" where
  "NormalizePeakRateConfig subscriptionType enabled start end' multiplier =
     (if subscriptionType \<noteq> SubscriptionTypeSubscription then (False, [], [], 1)
      else if \<not> enabled then
        (enabled,
         (if parseMinutes start = None then [] else start),
         (if parseMinutes end' = None then [] else end'),
         (if multiplier < 0 then 1 else multiplier))
      else (enabled, start, end', multiplier))"

text \<open>The texts \<open>time.Parse("15:04", s)\<close> accepts for an hour and a minute.\<close>

definition two_digits :: "nat \<Rightarrow> string" where
  "two_digits n = [digit_char (n div 10), digit_char (n mod 10)]"

definition clock_texts :: "nat \<Rightarrow> nat \<Rightarrow> string list" where
  "clock_texts h m =
     (if h < 10 then [[digit_char h] @ '':'' @ two_digits m] else []) @ [two_digits h @ '':'' @ two_digits m]"

lemma sub_zero_digit_char [simp]: "k < 10 \<Longrightarrow> sub_zero (digit_char k) = k"
  by (simp add: sub_zero_def)

lemma digit_char_sub_zero: "sub_zero c \<le> 9 \<Longrightarrow> digit_char (sub_zero c) = c"
proof -
  assume le: "sub_zero c \<le> 9"
  have "sub_zero c = (if byte_of c < 48 then byte_of c + 208 else byte_of c - 48)"
  proof (cases "byte_of c < 48")
    case False
    then have "byte_of c + 208 = (byte_of c - 48) + 256" by simp
    then have "sub_zero c = (byte_of c - 48) mod 256" unfolding sub_zero_def by (metis mod_add_self2)
    with False show ?thesis using byte_of_lt [of c] by simp
  qed (simp add: sub_zero_def)
  then have "byte_of c = 48 + sub_zero c" using le by (simp split: if_splits)
  with le show ?thesis by (intro byte_of_inj) simp
qed

lemma digit_char_neq_colon [simp]: "k < 10 \<Longrightarrow> digit_char k \<noteq> CHR '':''"
proof
  assume k: "k < 10" "digit_char k = CHR '':''"
  have "48 + k = byte_of (digit_char k)" using k(1) by simp
  also have "\<dots> = 58" by (simp add: k(2) byte_of_def)
  finally show False using k(1) by simp
qed

lemma parseMinutes_clock_texts:
  assumes "h < 24" and "m < 60" and "s \<in> set (clock_texts h m)"
  shows "parseMinutes s = Some (h * 60 + m)"
proof -
  have "h div 10 < 10" "m div 10 < 10" using assms by auto
  moreover have "h div 10 * 10 + h mod 10 = h" "m div 10 * 10 + m mod 10 = m" by auto
  ultimately show ?thesis
    using assms
    by (auto simp: clock_texts_def two_digits_def parseMinutes_def index_byte_def Let_def
        split: if_splits)
qed

lemma parseMinutes_shape:
  assumes "parseMinutes s = Some k"
  shows "\<exists>hs b c. s = hs @ [CHR '':'', b, c] \<and> (length hs = 1 \<or> length hs = 2)
    \<and> CHR '':'' \<notin> set hs"
proof -
  let ?hs = "takeWhile (\<lambda>x. x \<noteq> CHR '':'') s" and ?r = "dropWhile (\<lambda>x. x \<noteq> CHR '':'') s"
  from assms have colon: "CHR '':'' \<in> set s" and n: "length ?hs = 1 \<or> length ?hs = 2"
    and len: "length s = length ?hs + 3"
    by (auto simp: parseMinutes_def index_byte_def Let_def split: if_splits)
  have s: "s = ?hs @ ?r" by simp
  then have "length ?r = 3" using len by (metis add_left_cancel length_append)
  then obtain a b c where r: "?r = [a, b, c]" by (auto simp: numeral_3_eq_3 length_Suc_conv)
  then have "a = CHR '':''" using hd_dropWhile [of "\<lambda>x. x \<noteq> CHR '':''" s] by auto
  with r s n show ?thesis by (metis (mono_tags, lifting) set_takeWhileD)
qed


lemma hour_digits_le9:
  "hour_digits h cs = Some n \<Longrightarrow> \<forall>c \<in> set cs. sub_zero c \<le> 9"
  by (induction h cs rule: hour_digits.induct) (auto split: if_splits)

lemma parseMinutes_sound:
  assumes "parseMinutes s = Some k"
  shows "\<exists>h m. h < 24 \<and> m < 60 \<and> k = h * 60 + m \<and> s \<in> set (clock_texts h m)"
proof -
  from parseMinutes_shape [OF assms] obtain hs b c
    where s: "s = hs @ [CHR '':'', b, c]" and n: "length hs = 1 \<or> length hs = 2"
      and nc: "CHR '':'' \<notin> set hs" by blast
  have tw: "takeWhile (\<lambda>x. x \<noteq> CHR '':'') s = hs"
    unfolding s using nc by (subst takeWhile_append2) auto
  have idx: "index_byte s CHR '':'' = int (length hs)"
    by (simp add: index_byte_def tw) (simp add: s)
  obtain h where h: "hour_digits 0 hs = Some h" and h24: "h < 24"
    and b9: "sub_zero b \<le> 9" and c9: "sub_zero c \<le> 9"
    and m: "sub_zero b * 10 + sub_zero c < 60" and k: "k = h * 60 + (sub_zero b * 10 + sub_zero c)"
    using assms n
    by (auto simp: parseMinutes_def idx Let_def s nth_append nat_add_distrib
        split: if_splits option.splits)
  have mm: "[b, c] = two_digits (sub_zero b * 10 + sub_zero c)"
    using b9 c9 by (simp add: two_digits_def digit_char_sub_zero)
  have "s \<in> set (clock_texts h (sub_zero b * 10 + sub_zero c))"
  proof (cases "length hs = 1")
    case True
    then obtain a where a: "hs = [a]" by (auto simp: length_Suc_conv)
    with h have "sub_zero a \<le> 9" "h = sub_zero a" by (auto split: if_splits)
    then have "h < 10" and "digit_char h = a" by (auto simp: digit_char_sub_zero)
    then show ?thesis by (simp add: clock_texts_def s a flip: mm)
  next
    case False
    with n obtain a a' where a: "hs = [a, a']" by (auto simp: numeral_2_eq_2 length_Suc_conv)
    from hour_digits_le9 [OF h] have "sub_zero a \<le> 9" "sub_zero a' \<le> 9" by (auto simp: a)
    moreover from this h have "h = sub_zero a * 10 + sub_zero a'" by (auto simp: a)
    ultimately have "hs = two_digits h" by (simp add: two_digits_def a digit_char_sub_zero)
    then show ?thesis by (simp add: clock_texts_def s flip: mm)
  qed
  with h24 m k show ?thesis by blast
qed

text \<open>the hand-written parser of peak-hour bounds accepts exactly the texts that
  \<open>time.Parse("15:04", s)\<close> accepts (an hour of one or two digits below 24, a minute of exactly
  two digits below 60) and returns the minute of the day.\<close>

theorem parseMinutes_accepts:
  "parseMinutes s = Some k \<longleftrightarrow>
     (\<exists>h m. h < 24 \<and> m < 60 \<and> k = h * 60 + m \<and> s \<in> set (clock_texts h m))"
  using parseMinutes_sound parseMinutes_clock_texts by blast

lemma parseMinutes_range: "parseMinutes s = Some k \<Longrightarrow> k < 1440"
  by (auto dest!: parseMinutes_sound)

text \<open>a peak configuration that validation accepts as enabled makes the multiplier apply on a
  non-empty half-open window of the day: there is a start below an end of at most 1440 minutes, at
  an instant inside the group's multiplier is returned and at any other instant the factor is 1.\<close>

theorem PeakMultiplierAt_valid_config:
  assumes "ValidatePeakRateConfig (g_SubscriptionType g) (g_PeakRateEnabled g)
      (g_PeakStart g) (g_PeakEnd g) (g_PeakRateMultiplier g) = None"
    and "g_PeakRateEnabled g"
  shows "\<exists>st en. parseMinutes (g_PeakStart g) = Some st \<and> parseMinutes (g_PeakEnd g) = Some en \<and>
    st < en \<and> en < 1440 \<and>
    (\<forall>clock now. PeakMultiplierAt clock (Some g) now =
       (let (h, m) = clock now in
        if h * 60 + m \<in> {st..<en} then g_PeakRateMultiplier g else 1))
    \<and> 0 \<le> g_PeakRateMultiplier g"
proof -
  from assms obtain st en where
    p: "parseMinutes (g_PeakStart g) = Some st" "parseMinutes (g_PeakEnd g) = Some en"
      "st < en" "0 \<le> g_PeakRateMultiplier g"
    and t: "IsSubscriptionType g" "g_PeakStart g \<noteq> []" "g_PeakEnd g \<noteq> []"
    by (auto simp: ValidatePeakRateConfig_def IsSubscriptionType_def split: if_splits option.splits)
  then have "PeakMultiplierAt clock (Some g) now =
      (let (h, m) = clock now in if h * 60 + m \<in> {st..<en} then g_PeakRateMultiplier g else 1)"
    for clock now
    using assms(2) by (auto simp: PeakMultiplierAt_def split: prod.splits)
  with p show ?thesis using parseMinutes_range by blast
qed

definition example_group :: Group where
  "example_group =
     \<lparr>g_ID = 7, g_Platform = ''openai'', g_Status = ''active'', g_Hydrated = True,
      g_SubscriptionType = ''subscription'', g_DailyLimitUSD = Some 10, g_WeeklyLimitUSD = Some 50,
      g_MonthlyLimitUSD = None, g_PeakRateEnabled = True, g_PeakStart = ''9:30'',
      g_PeakEnd = ''18:00'', g_PeakRateMultiplier = 2, g_ImageRateIndependent = False,
      g_ImageRateMultiplier = 1, g_ImagePrice1K = None, g_ImagePrice2K = Some 1,
      g_ImagePrice4K = None, g_VideoRateIndependent = False, g_VideoRateMultiplier = 1,
      g_VideoPrice480P = None, g_VideoPrice720P = None, g_VideoPrice1080P = None,
      g_ModelRouting = [(''gpt-*'', [1, 2]), (''gpt-5*'', [3])], g_ModelRoutingEnabled = True,
      g_ModelsListConfig = \<lparr>mlc_Enabled = False, mlc_Models = []\<rparr>\<rparr>"

lemma PeakMultiplierAt_valid_config_witness:
  "\<exists>st en. parseMinutes (g_PeakStart example_group) = Some st \<and> parseMinutes (g_PeakEnd example_group) = Some en \<and>
    st < en \<and> en < 1440 \<and>
    (\<forall>clock now. PeakMultiplierAt clock (Some example_group) now =
       (let (h, m) = clock now in
        if h * 60 + m \<in> {st..<en} then g_PeakRateMultiplier example_group else 1))
    \<and> 0 \<le> g_PeakRateMultiplier example_group"
proof (rule PeakMultiplierAt_valid_config)
  show "ValidatePeakRateConfig (g_SubscriptionType example_group) (g_PeakRateEnabled example_group)
      (g_PeakStart example_group) (g_PeakEnd example_group) (g_PeakRateMultiplier example_group)
    = None"
    by code_simp
  show "g_PeakRateEnabled example_group" by (simp add: example_group_def)
qed

text \<open>normalisation is what storage relies on: it is idempotent, it is the identity on every
  configuration validation accepts while enabled, and a group that is not of subscription type
  stores no peak configuration, so its peak factor is 1 at every instant.\<close>

theorem NormalizePeakRateConfig_correct:
  "case NormalizePeakRateConfig t e s f x of (e', s', f', x') \<Rightarrow>
     NormalizePeakRateConfig t e' s' f' x' = (e', s', f', x')
     \<and> (if e \<and> ValidatePeakRateConfig t e s f x = None then (e', s', f', x') = (e, s, f, x)
        else if t = SubscriptionTypeSubscription then e' = e \<and> (if e then x' = x else 0 \<le> x')
        else (e', s', f', x') = (False, [], [], 1))"
  by (auto simp: NormalizePeakRateConfig_def ValidatePeakRateConfig_def split: if_splits)

end
