(* ===== verification/ApiKey.thy ===== *)
theory ApiKey
  imports GroupConfig
begin

text \<open>
  API keys, users and one-time codes: \<open>service/api_key.go\<close>, \<open>service/user.go\<close>,
  \<open>service/image_billing_multiplier.go\<close>, \<open>service/redeem_code.go\<close>,
  \<open>service/promo_code.go\<close>, \<open>service/proxy.go\<close> and \<open>service/proxy_fallback.go\<close>.
  The current time is an argument wherever the code calls \<open>time.Now\<close>.
\<close>

section \<open>API keys\<close>

definition RateLimitWindow5h :: go_duration where "RateLimitWindow5h = 5 * hour"
definition RateLimitWindow1d :: go_duration where "RateLimitWindow1d = 24 * hour"
definition RateLimitWindow7d :: go_duration where "RateLimitWindow7d = 7 * 24 * hour"

definition IsWindowExpired :: "go_time \<Rightarrow> go_time option \<Rightarrow> go_duration \<Rightarrow> bool" where
  "IsWindowExpired now windowStart duration =
     (case windowStart of None \<Rightarrow> True | Some t \<Rightarrow> duration \<le> now - t)"

record APIKey =
  k_ID :: int
  k_UserID :: int
  k_Status :: string
  k_Group :: "Group option"
  k_Quota :: float64
  k_QuotaUsed :: float64
  k_ExpiresAt :: "go_time option"
  k_RateLimit5h :: float64
  k_RateLimit1d :: float64
  k_RateLimit7d :: float64
  k_Usage5h :: float64
  k_Usage1d :: float64
  k_Usage7d :: float64
  k_Window5hStart :: "go_time option"
  k_Window1dStart :: "go_time option"
  k_Window7dStart :: "go_time option"

definition APIKey_IsActive :: "APIKey \<Rightarrow> bool" where
  "APIKey_IsActive k \<longleftrightarrow> k_Status k = StatusActive"

definition HasRateLimits :: "APIKey \<Rightarrow> bool" where
  "HasRateLimits k \<longleftrightarrow> 0 < k_RateLimit5h k \<or> 0 < k_RateLimit1d k \<or> 0 < k_RateLimit7d k"

definition APIKey_IsExpired :: "go_time \<Rightarrow> APIKey \<Rightarrow> bool" where
  "APIKey_IsExpired now k = (case k_ExpiresAt k of None \<Rightarrow> False | Some e \<Rightarrow> e < now)"

definition IsQuotaExhausted :: "APIKey \<Rightarrow> bool" where
  "IsQuotaExhausted k = (if k_Quota k \<le> 0 then False else k_Quota k \<le> k_QuotaUsed k)"

definition GetQuotaRemaining :: "APIKey \<Rightarrow> float64" where
  "GetQuotaRemaining k =
     (if k_Quota k \<le> 0 then - 1
      else let remaining = fsub (k_Quota k) (k_QuotaUsed k)
           in if remaining < 0 then 0 else remaining)"

definition GetDaysUntilExpiry :: "go_time \<Rightarrow> APIKey \<Rightarrow> int" where
  "GetDaysUntilExpiry now k =
     (case k_ExpiresAt k of
        None \<Rightarrow> - 1
      | Some e \<Rightarrow>
          let duration = e - now
          in if duration < 0 then 0 else trunc (fdiv (Duration_Hours duration) 24))"

definition EffectiveUsage5h :: "go_time \<Rightarrow> APIKey \<Rightarrow> float64" where
  "EffectiveUsage5h now k =
     (if IsWindowExpired now (k_Window5hStart k) RateLimitWindow5h then 0 else k_Usage5h k)"

definition EffectiveUsage1d :: "go_time \<Rightarrow> APIKey \<Rightarrow> float64" where
  "EffectiveUsage1d now k =
     (if IsWindowExpired now (k_Window1dStart k) RateLimitWindow1d then 0 else k_Usage1d k)"

definition EffectiveUsage7d :: "go_time \<Rightarrow> APIKey \<Rightarrow> float64" where
  "EffectiveUsage7d now k =
     (if IsWindowExpired now (k_Window7dStart k) RateLimitWindow7d then 0 else k_Usage7d k)"

lemma IsWindowExpired_mono:
  "IsWindowExpired now w d \<Longrightarrow> now \<le> now' \<Longrightarrow> IsWindowExpired now' w d"
  by (auto simp: IsWindowExpired_def split: option.splits)

text \<open>The remaining quota is zero exactly when the quota is exhausted: rounding never turns a
  positive remainder into zero, and never makes the remainder negative.\<close>

lemma GetQuotaRemaining_zero_iff:
  "GetQuotaRemaining k = 0 \<longleftrightarrow> IsQuotaExhausted k"
proof (cases "k_QuotaUsed k < k_Quota k")
  case True
  then have "0 < rnd64 (k_Quota k - k_QuotaUsed k)" by (simp add: f64.rnd_pos)
  with True show ?thesis
    by (auto simp: GetQuotaRemaining_def IsQuotaExhausted_def Let_def fsub_def)
next
  case False
  then have "rnd64 (k_Quota k - k_QuotaUsed k) \<le> 0" by (simp add: f64.rnd_nonpos)
  with False show ?thesis
    by (auto simp: GetQuotaRemaining_def IsQuotaExhausted_def Let_def fsub_def)
qed

lemma GetQuotaRemaining_sign:
  "GetQuotaRemaining k = - 1 \<and> k_Quota k \<le> 0 \<or> 0 \<le> GetQuotaRemaining k \<and> 0 < k_Quota k"
  by (auto simp: GetQuotaRemaining_def Let_def)

text \<open>what a client is told about a key agrees with what the gateway enforces. The remaining
  quota is \<open>-1\<close> exactly on unlimited keys, 0 exactly when the quota is exhausted, and the days
  until expiry of an unexpired key are the whole days left or one more.\<close>

theorem APIKey_reporting_agrees:
  assumes "\<forall>e. k_ExpiresAt k = Some e \<longrightarrow> e - now < 2 ^ 63"
  shows "(GetQuotaRemaining k = - 1 \<longleftrightarrow> k_Quota k \<le> 0)
    \<and> (GetQuotaRemaining k = 0 \<longleftrightarrow> IsQuotaExhausted k)
    \<and> (case k_ExpiresAt k of
         None \<Rightarrow> GetDaysUntilExpiry now k = - 1 \<and> \<not> APIKey_IsExpired now k
       | Some e \<Rightarrow>
           if APIKey_IsExpired now k then GetDaysUntilExpiry now k = 0
           else (e - now) div (24 * hour) \<le> GetDaysUntilExpiry now k
             \<and> GetDaysUntilExpiry now k \<le> (e - now) div (24 * hour) + 1)"
proof -
  have q: "GetQuotaRemaining k = - 1 \<longleftrightarrow> k_Quota k \<le> 0"
    using GetQuotaRemaining_sign [of k] by linarith
  have d: "(e - now) div (24 * hour) \<le> GetDaysUntilExpiry now k
      \<and> GetDaysUntilExpiry now k \<le> (e - now) div (24 * hour) + 1"
    if "k_ExpiresAt k = Some e" "\<not> APIKey_IsExpired now k" for e
  proof -
    have e: "0 \<le> e - now" "e - now < 2 ^ 63" using that assms by (auto simp: APIKey_IsExpired_def)
    then have "GetDaysUntilExpiry now k = days_of_duration (e - now)"
      by (simp add: GetDaysUntilExpiry_def that days_of_duration_def Let_def)
    then show ?thesis using days_of_duration_bounds [OF e] by simp
  qed
  show ?thesis
    using q GetQuotaRemaining_zero_iff [of k] d
    by (auto simp: GetDaysUntilExpiry_def APIKey_IsExpired_def split: option.splits)
qed

definition example_key :: APIKey where
  "example_key =
     \<lparr>k_ID = 3, k_UserID = 5, k_Status = ''active'', k_Group = Some example_group,
      k_Quota = 10, k_QuotaUsed = 4, k_ExpiresAt = Some (30 * 24 * hour), k_RateLimit5h = 1,
      k_RateLimit1d = 0, k_RateLimit7d = 0, k_Usage5h = 1 / 2, k_Usage1d = 0, k_Usage7d = 0,
      k_Window5hStart = Some 0, k_Window1dStart = None, k_Window7dStart = None\<rparr>"

lemma APIKey_reporting_agrees_witness:
  "GetQuotaRemaining example_key \<noteq> - 1
   \<and> 29 \<le> GetDaysUntilExpiry hour example_key \<and> GetDaysUntilExpiry hour example_key \<le> 30"
proof -
  have "\<forall>e. k_ExpiresAt example_key = Some e \<longrightarrow> e - hour < 2 ^ 63"
    by (simp add: example_key_def)
  from APIKey_reporting_agrees [OF this] show ?thesis
    by (simp add: example_key_def APIKey_IsExpired_def)
qed

section \<open>Rate multipliers\<close>

text \<open>\<open>apiKey != nil && apiKey.Group != nil\<close> is the group of the key, when there is one.\<close>

definition key_group :: "APIKey option \<Rightarrow> Group option" where
  "key_group apiKey = Option.bind apiKey k_Group"

definition resolveImageRateMultiplier :: "APIKey option \<Rightarrow> float64 \<Rightarrow> float64" where
  "resolveImageRateMultiplier apiKey effectiveGroupMultiplier =
     (case key_group apiKey of
        Some g \<Rightarrow>
          if g_ImageRateIndependent g
          then (if g_ImageRateMultiplier g < 0 then 0 else g_ImageRateMultiplier g)
          else effectiveGroupMultiplier
      | None \<Rightarrow> effectiveGroupMultiplier)"

definition resolveVideoRateMultiplier :: "APIKey option \<Rightarrow> float64 \<Rightarrow> float64" where
  "resolveVideoRateMultiplier apiKey effectiveGroupMultiplier =
     (case key_group apiKey of
        Some g \<Rightarrow>
          if g_VideoRateIndependent g
          then (if g_VideoRateMultiplier g < 0 then 0 else g_VideoRateMultiplier g)
          else effectiveGroupMultiplier
      | None \<Rightarrow> effectiveGroupMultiplier)"

definition computePeakAwareMultipliers ::
  "(go_time \<Rightarrow> nat \<times> nat) \<Rightarrow> APIKey option \<Rightarrow> float64 \<Rightarrow> go_time \<Rightarrow> float64 \<times> float64" where
  "computePeakAwareMultipliers clock apiKey base now =
     (let image = resolveImageRateMultiplier apiKey base;
          peak = (case key_group apiKey of
                    None \<Rightarrow> 1
                  | Some g \<Rightarrow> PeakMultiplierAt clock (Some g) now)
      in (fmul base peak, image))"

lemma PeakMultiplierAt_nonneg:
  assumes "ValidatePeakRateConfig (g_SubscriptionType g) (g_PeakRateEnabled g) (g_PeakStart g)
    (g_PeakEnd g) (g_PeakRateMultiplier g) = None"
  shows "0 \<le> PeakMultiplierAt clock (Some g) now"
  using assms
  by (auto simp: PeakMultiplierAt_def ValidatePeakRateConfig_def IsSubscriptionType_def Let_def
      split: if_splits option.splits prod.splits)

lemma resolveImageRateMultiplier_nonneg: "0 \<le> base \<Longrightarrow> 0 \<le> resolveImageRateMultiplier k base"
  by (auto simp: resolveImageRateMultiplier_def split: option.splits)

text \<open>the peak factor enters the token multiplier only. The image multiplier does not depend on
  the time of day; outside peak hours the token multiplier is the base multiplier unchanged; and
  with a valid peak configuration both multipliers of a non-negative base are non-negative.\<close>

theorem computePeakAwareMultipliers_correct:
  assumes "is_float base" and "0 \<le> base"
    and "\<forall>g. key_group apiKey = Some g \<longrightarrow>
      ValidatePeakRateConfig (g_SubscriptionType g) (g_PeakRateEnabled g) (g_PeakStart g)
        (g_PeakEnd g) (g_PeakRateMultiplier g) = None"
  shows "(\<exists>image \<ge> 0. \<forall>clock now. snd (computePeakAwareMultipliers clock apiKey base now) = image)
    \<and> (PeakMultiplierAt clock (key_group apiKey) now = 1 \<longrightarrow>
        fst (computePeakAwareMultipliers clock apiKey base now) = base)
    \<and> 0 \<le> fst (computePeakAwareMultipliers clock apiKey base now)"
proof (intro conjI impI)
  show "\<exists>image \<ge> 0. \<forall>clock now. snd (computePeakAwareMultipliers clock apiKey base now) = image"
    using resolveImageRateMultiplier_nonneg [OF assms(2), of apiKey]
    by (auto simp: computePeakAwareMultipliers_def Let_def)
  show "fst (computePeakAwareMultipliers clock apiKey base now) = base"
    if "PeakMultiplierAt clock (key_group apiKey) now = 1"
    using that assms(1)
    by (auto simp: computePeakAwareMultipliers_def Let_def fmul_def is_float_def split: option.splits)
  show "0 \<le> fst (computePeakAwareMultipliers clock apiKey base now)"
    using assms(2,3) PeakMultiplierAt_nonneg
    by (auto simp: computePeakAwareMultipliers_def Let_def fmul_def intro!: f64.rnd_nonneg mult_nonneg_nonneg
        split: option.splits)
qed

lemma computePeakAwareMultipliers_correct_witness:
  "fst (computePeakAwareMultipliers (\<lambda>_. (3, 15)) (Some example_key) (3 / 2) 0) = 3 / 2"
proof -
  have f: "is_float (3 / 2)" unfolding is_float_def by code_simp
  have g: "\<forall>g. key_group (Some example_key) = Some g \<longrightarrow>
      ValidatePeakRateConfig (g_SubscriptionType g) (g_PeakRateEnabled g) (g_PeakStart g)
        (g_PeakEnd g) (g_PeakRateMultiplier g) = None"
  proof -
    have "ValidatePeakRateConfig (g_SubscriptionType example_group) (g_PeakRateEnabled example_group)
      (g_PeakStart example_group) (g_PeakEnd example_group) (g_PeakRateMultiplier example_group) = None"
      by code_simp
    then show ?thesis by (simp add: key_group_def example_key_def)
  qed
  have "PeakMultiplierAt (\<lambda>_. (3, 15)) (key_group (Some example_key)) 0 = 1" by code_simp
  with computePeakAwareMultipliers_correct [OF f _ g, of "\<lambda>_. (3, 15)" 0] show ?thesis by simp
qed

section \<open>Users and one-time codes\<close>

record User =
  u_Role :: string
  u_Status :: string
  u_AllowedGroups :: "int list"

definition IsAdmin :: "User \<Rightarrow> bool" where
  "IsAdmin u \<longleftrightarrow> u_Role u = ''admin''"

definition User_IsActive :: "User \<Rightarrow> bool" where
  "User_IsActive u \<longleftrightarrow> u_Status u = StatusActive"

definition CanBindGroup :: "User \<Rightarrow> int \<Rightarrow> bool \<Rightarrow> bool" where
  "CanBindGroup u groupID isExclusive =
     (if \<not> isExclusive then True else list_ex (\<lambda>id. id = groupID) (u_AllowedGroups u))"

record RedeemCode =
  rc_ID :: int
  rc_Code :: string
  rc_Type :: string
  rc_Value :: float64
  rc_Status :: string
  rc_UsedBy :: "int option"
  rc_UsedAt :: "go_time option"
  rc_Notes :: string
  rc_ExpiresAt :: "go_time option"
  rc_GroupID :: "int option"
  rc_ValidityDays :: int

definition RedeemCode_IsUsed :: "RedeemCode \<Rightarrow> bool" where
  "RedeemCode_IsUsed r \<longleftrightarrow> rc_Status r = ''used''"

definition RedeemCode_IsExpiredAt :: "RedeemCode option \<Rightarrow> go_time \<Rightarrow> bool" where
  "RedeemCode_IsExpiredAt code now =
     (case code of
        None \<Rightarrow> False
      | Some r \<Rightarrow>
          if rc_Status r = ''expired'' then True
          else rc_Status r = ''unused'' \<and> (case rc_ExpiresAt r of None \<Rightarrow> False | Some e \<Rightarrow> e \<le> now))"

definition RedeemCode_CanUse :: "go_time \<Rightarrow> RedeemCode \<Rightarrow> bool" where
  "RedeemCode_CanUse now r \<longleftrightarrow> rc_Status r = ''unused'' \<and> \<not> RedeemCode_IsExpiredAt (Some r) now"

record PromoCode =
  pc_Status :: string
  pc_MaxUses :: int
  pc_UsedCount :: int
  pc_ExpiresAt :: "go_time option"

definition PromoCode_IsExpired :: "go_time \<Rightarrow> PromoCode \<Rightarrow> bool" where
  "PromoCode_IsExpired now p = (case pc_ExpiresAt p of None \<Rightarrow> False | Some e \<Rightarrow> e < now)"

definition PromoCode_CanUse :: "go_time \<Rightarrow> PromoCode \<Rightarrow> bool" where
  "PromoCode_CanUse now p =
     (if pc_Status p \<noteq> ''active'' then False
      else if (case pc_ExpiresAt p of None \<Rightarrow> False | Some e \<Rightarrow> e < now) then False
      else if 0 < pc_MaxUses p \<and> pc_MaxUses p \<le> pc_UsedCount p then False
      else True)"

text \<open>A code in the initial state of its life: usable codes are unused and unexpired, and no code
  becomes usable again by the mere passing of time.\<close>

lemma RedeemCode_CanUse_iff:
  "RedeemCode_CanUse now r \<longleftrightarrow>
     rc_Status r = ''unused'' \<and> (\<forall>e. rc_ExpiresAt r = Some e \<longrightarrow> now < e)"
  by (auto simp: RedeemCode_CanUse_def RedeemCode_IsExpiredAt_def split: option.splits)

lemma CanUse_antimono:
  "now \<le> now' \<Longrightarrow> RedeemCode_CanUse now' r \<Longrightarrow> RedeemCode_CanUse now r"
  "now \<le> now' \<Longrightarrow> PromoCode_CanUse now' p \<Longrightarrow> PromoCode_CanUse now p"
  by (auto simp: RedeemCode_CanUse_iff PromoCode_CanUse_def split: option.splits if_splits)

section \<open>Proxies and their fallback\<close>

record Proxy =
  px_ID :: int
  px_Status :: string
  px_ExpiresAt :: "go_time option"
  px_FallbackMode :: string
  px_BackupProxyID :: "int option"

definition Proxy_IsActive :: "Proxy \<Rightarrow> bool" where
  "Proxy_IsActive p \<longleftrightarrow> px_Status p = StatusActive"

definition Proxy_IsExpired :: "Proxy \<Rightarrow> go_time \<Rightarrow> bool" where
  "Proxy_IsExpired p now = (case px_ExpiresAt p of None \<Rightarrow> False | Some e \<Rightarrow> e \<le> now)"

text \<open>The loop of \<open>ResolveProxyFallbackTarget\<close> keeps the identifiers it has visited. It returns
  \<open>None\<close> for "leave the account alone", \<open>Some None\<close> for a direct connection and
  \<open>Some (Some id)\<close> for the backup proxy \<open>id\<close>. The snapshot \<open>byID\<close> is an
  association list, so the chain cannot be longer than the snapshot.\<close>

function fallback_loop ::
  "(int \<times> Proxy) list \<Rightarrow> go_time \<Rightarrow> int set \<Rightarrow> int option \<Rightarrow> int option option" where
  "fallback_loop byID now visited curID =
     (case curID of
        None \<Rightarrow> None
      | Some c \<Rightarrow>
          if c \<in> visited then None
          else (case map_of byID c of
                  None \<Rightarrow> None
                | Some p \<Rightarrow>
                    if \<not> Proxy_IsExpired p now \<and> px_Status p \<noteq> ''expired'' then Some (Some (px_ID p))
                    else if px_FallbackMode p = ''direct'' then Some None
                    else if px_FallbackMode p = ''proxy''
                      then fallback_loop byID now (insert c visited) (px_BackupProxyID p)
                    else None))"
  by pat_completeness auto
termination
proof (relation "measure (\<lambda>(byID, now, visited, curID). card (fst ` set byID - visited))")
  fix byID :: "(int \<times> Proxy) list" and visited :: "int set" and c p
  assume c: "c \<notin> visited" "map_of byID c = Some p"
  then have "c \<in> fst ` set byID - visited" by (force dest: map_of_SomeD)
  then have "card (fst ` set byID - insert c visited) < card (fst ` set byID - visited)"
    by (intro psubset_card_mono) auto
  then show "((byID, now, insert c visited, px_BackupProxyID p), byID, now, visited, curID)
      \<in> measure (\<lambda>(byID, now, visited, curID). card (fst ` set byID - visited))" for now curID
    by simp
qed simp

declare fallback_loop.simps [simp del]

definition ResolveProxyFallbackTarget ::
  "Proxy \<Rightarrow> (int \<times> Proxy) list \<Rightarrow> go_time \<Rightarrow> int option option" where
  "ResolveProxyFallbackTarget start byID now =
     (if px_FallbackMode start = ''direct'' then Some None
      else if px_FallbackMode start = ''proxy''
        then fallback_loop byID now {px_ID start} (px_BackupProxyID start)
      else None)"

text \<open>The chain of backups as a relation: \<open>q\<close> is the proxy the backup pointer of a proxy in
  mode \<open>proxy\<close> names.\<close>

inductive backup_chain :: "(int \<times> Proxy) list \<Rightarrow> go_time \<Rightarrow> Proxy \<Rightarrow> Proxy \<Rightarrow> bool" where
  next_backup: "px_FallbackMode p = ''proxy'' \<Longrightarrow> px_BackupProxyID p = Some c \<Longrightarrow>
     map_of byID c = Some q \<Longrightarrow> backup_chain byID now p q"
| later_backup: "backup_chain byID now p q \<Longrightarrow> Proxy_IsExpired q now \<or> px_Status q = ''expired'' \<Longrightarrow>
     px_FallbackMode q = ''proxy'' \<Longrightarrow> px_BackupProxyID q = Some c \<Longrightarrow> map_of byID c = Some r \<Longrightarrow>
     backup_chain byID now p r"

lemma fallback_loop_target:
  assumes "fallback_loop byID now visited curID = Some (Some i)"
    and "\<forall>c q. curID = Some c \<longrightarrow> map_of byID c = Some q \<longrightarrow> backup_chain byID now p q"
  shows "\<exists>q. px_ID q = i \<and> \<not> Proxy_IsExpired q now \<and> px_Status q \<noteq> ''expired''
    \<and> backup_chain byID now p q"
  using assms
proof (induction byID now visited curID rule: fallback_loop.induct)
  case (1 byID now visited curID)
  from "1.prems"(1) obtain c q where c: "curID = Some c" "c \<notin> visited" "map_of byID c = Some q"
    by (subst (asm) fallback_loop.simps) (auto split: option.splits if_splits)
  with "1.prems"(2) have chain: "backup_chain byID now p q" by blast
  show ?case
  proof (cases "\<not> Proxy_IsExpired q now \<and> px_Status q \<noteq> ''expired''")
    case True
    with c "1.prems"(1) have "px_ID q = i" by (subst (asm) fallback_loop.simps) simp
    with True chain show ?thesis by blast
  next
    case False
    with c "1.prems"(1) have mode: "px_FallbackMode q = ''proxy''"
      and rec: "fallback_loop byID now (insert c visited) (px_BackupProxyID q) = Some (Some i)"
      by (subst (asm) (1) fallback_loop.simps, auto split: if_splits)+
    from False mode chain have "\<forall>c' q'. px_BackupProxyID q = Some c' \<longrightarrow> map_of byID c' = Some q' \<longrightarrow>
        backup_chain byID now p q'"
      by (blast intro: later_backup)
    with "1.IH" [OF c(1,2,3)] False mode rec show ?thesis by auto
  qed
qed

text \<open>an account is moved to another proxy only along the configured backups: the target is
  reachable from the expired proxy by backup pointers, through expired proxies only, and is itself
  neither expired nor marked expired. The search ends on every snapshot, cyclic chains included
  (the function is total).\<close>

theorem ResolveProxyFallbackTarget_sound:
  assumes "ResolveProxyFallbackTarget start byID now = Some (Some i)"
  shows "\<exists>q. px_ID q = i \<and> \<not> Proxy_IsExpired q now \<and> px_Status q \<noteq> ''expired''
    \<and> backup_chain byID now start q"
proof -
  from assms have mode: "px_FallbackMode start = ''proxy''"
    and loop: "fallback_loop byID now {px_ID start} (px_BackupProxyID start) = Some (Some i)"
    by (auto simp: ResolveProxyFallbackTarget_def split: if_splits)
  show ?thesis
    by (rule fallback_loop_target [OF loop]) (blast intro: next_backup mode)
qed

definition example_proxies :: "(int \<times> Proxy) list" where
  "example_proxies =
     [(2, \<lparr>px_ID = 2, px_Status = ''active'', px_ExpiresAt = Some 5, px_FallbackMode = ''proxy'',
           px_BackupProxyID = Some 3\<rparr>),
      (3, \<lparr>px_ID = 3, px_Status = ''active'', px_ExpiresAt = None, px_FallbackMode = ''none'',
           px_BackupProxyID = None\<rparr>)]"

definition example_start :: Proxy where
  "example_start = \<lparr>px_ID = 1, px_Status = ''expired'', px_ExpiresAt = Some 4,
     px_FallbackMode = ''proxy'', px_BackupProxyID = Some 2\<rparr>"

lemma ResolveProxyFallbackTarget_sound_witness:
  "\<exists>q. px_ID q = 3 \<and> \<not> Proxy_IsExpired q 10 \<and> px_Status q \<noteq> ''expired''
    \<and> backup_chain example_proxies 10 example_start q"
proof (rule ResolveProxyFallbackTarget_sound)
  show "ResolveProxyFallbackTarget example_start example_proxies 10 = Some (Some 3)"
    by (simp add: ResolveProxyFallbackTarget_def fallback_loop.simps example_start_def
        example_proxies_def Proxy_IsExpired_def)
qed

end
