(* ===== verification/Programs.thy ===== *)
theory Programs
  imports GoPrelude
begin

text \<open>
  Stateful code with error returns. A Go function that works on a store and returns
  \<open>(value, error)\<close> is a function from the store to a result and the store after it: the result
  is \<open>Inl\<close> the error or \<open>Inr\<close> the value, and the store is returned on both branches,
  because what was written before an error stays written. \<open>andthen\<close> is sequencing with the
  early return \<open>if err != nil { return err }\<close>.

  A call to a remote store (PostgreSQL, Redis) can fail before it does anything. \<open>remote\<close> reads
  the store's fault script: the next call fails when the head is \<^const>\<open>True\<close>. A property over
  all scripts is a property over all patterns of failures.

  \<open>preserves P m\<close> says that \<open>m\<close> keeps \<open>P\<close> on every branch, errors included; its rules
  are collected in \<open>preserves\<close>, so the invariant of a whole handler follows from the invariant of
  its calls.
\<close>

type_synonym ('e, 's, 'a) prog = "'s \<Rightarrow> ('e + 'a) \<times> 's"

definition ret :: "'a \<Rightarrow> ('e, 's, 'a) prog" where
  "ret a = (\<lambda>s. (Inr a, s))"

definition throw :: "'e \<Rightarrow> ('e, 's, 'a) prog" where
  "throw e = (\<lambda>s. (Inl e, s))"

definition andthen :: "('e, 's, 'a) prog \<Rightarrow> ('a \<Rightarrow> ('e, 's, 'b) prog) \<Rightarrow> ('e, 's, 'b) prog" where
  "andthen m f = (\<lambda>s. case m s of (Inl e, s') \<Rightarrow> (Inl e, s') | (Inr a, s') \<Rightarrow> f a s')"

definition inspect :: "('s \<Rightarrow> 'a) \<Rightarrow> ('e, 's, 'a) prog" where
  "inspect f = (\<lambda>s. (Inr (f s), s))"

definition update :: "('s \<Rightarrow> 's) \<Rightarrow> ('e, 's, unit) prog" where
  "update f = (\<lambda>s. (Inr (), f s))"

text \<open>\<open>attempt m\<close> hands the result of \<open>m\<close> to the caller instead of returning early: the code
  looks at the error, logs it or drops it.\<close>

definition attempt :: "('e, 's, 'a) prog \<Rightarrow> ('e, 's, 'e + 'a) prog" where
  "attempt m = (\<lambda>s. case m s of (r, s') \<Rightarrow> (Inr r, s'))"

definition when_do :: "bool \<Rightarrow> ('e, 's, unit) prog \<Rightarrow> ('e, 's, unit) prog" where
  "when_do b m = (if b then m else ret ())"

definition remote ::
  "('s \<Rightarrow> bool list) \<Rightarrow> (bool list \<Rightarrow> 's \<Rightarrow> 's) \<Rightarrow> 'e \<Rightarrow> ('e, 's, 'a) prog \<Rightarrow> ('e, 's, 'a) prog" where
  "remote script set_script err m =
     (\<lambda>s. case script s of
            [] \<Rightarrow> m s
          | b # bs \<Rightarrow> if b then (Inl err, set_script bs s) else m (set_script bs s))"

section \<open>Running\<close>

named_theorems run \<open>evaluation of programs on a state\<close>

lemma run_ret [run]: "ret a s = (Inr a, s)"
  by (simp add: ret_def)

lemma run_throw [run]: "throw e s = (Inl e, s)"
  by (simp add: throw_def)

lemma run_inspect [run]: "inspect f s = (Inr (f s), s)"
  by (simp add: inspect_def)

lemma run_update [run]: "update f s = (Inr (), f s)"
  by (simp add: update_def)

lemma run_andthen [run]:
  "andthen m f s = (case m s of (Inl e, s') \<Rightarrow> (Inl e, s') | (Inr a, s') \<Rightarrow> f a s')"
  by (simp add: andthen_def)

lemma run_attempt [run]: "attempt m s = (case m s of (r, s') \<Rightarrow> (Inr r, s'))"
  by (simp add: attempt_def)

lemma run_when_do [run]: "when_do b m s = (if b then m s else (Inr (), s))"
  by (simp add: when_do_def ret_def)

lemma run_remote_ok [run]: "script s = [] \<Longrightarrow> remote script put err m s = m s"
  by (simp add: remote_def)

lemma andthen_ret [simp]: "andthen m ret = m"
  by (rule ext) (simp add: andthen_def ret_def split: prod.split sum.split)

lemma andthen_assoc: "andthen (andthen m f) g = andthen m (\<lambda>a. andthen (f a) g)"
  by (rule ext) (simp add: andthen_def split: prod.split sum.split)

section \<open>Invariants\<close>

definition preserves :: "('s \<Rightarrow> bool) \<Rightarrow> ('e, 's, 'a) prog \<Rightarrow> bool" where
  "preserves P m \<longleftrightarrow> (\<forall>s. P s \<longrightarrow> P (snd (m s)))"

named_theorems preserves \<open>invariants of programs\<close>

lemma preservesI: "(\<And>s. P s \<Longrightarrow> P (snd (m s))) \<Longrightarrow> preserves P m"
  by (simp add: preserves_def)

lemma preservesD: "preserves P m \<Longrightarrow> P s \<Longrightarrow> P (snd (m s))"
  by (simp add: preserves_def)

lemma preservesD': "preserves P m \<Longrightarrow> m s = (r, s') \<Longrightarrow> P s \<Longrightarrow> P s'"
  using preservesD by (metis snd_conv)

lemma preserves_ret [preserves]: "preserves P (ret a)"
  by (simp add: preserves_def ret_def)

lemma preserves_throw [preserves]: "preserves P (throw e)"
  by (simp add: preserves_def throw_def)

lemma preserves_inspect [preserves]: "preserves P (inspect f)"
  by (simp add: preserves_def inspect_def)

lemma preserves_update: "(\<And>s. P s \<Longrightarrow> P (f s)) \<Longrightarrow> preserves P (update f)"
  by (simp add: preserves_def update_def)

lemma preserves_andthen [preserves]:
  "preserves P m \<Longrightarrow> (\<And>a. preserves P (f a)) \<Longrightarrow> preserves P (andthen m f)"
  by (fastforce simp: preserves_def andthen_def split: prod.split sum.split)

lemma preserves_attempt [preserves]: "preserves P m \<Longrightarrow> preserves P (attempt m)"
  by (fastforce simp: preserves_def attempt_def split: prod.split)

lemma preserves_when_do [preserves]: "preserves P m \<Longrightarrow> preserves P (when_do b m)"
  by (simp add: preserves_ret when_do_def)

lemma preserves_if [preserves]:
  "preserves P m \<Longrightarrow> preserves P n \<Longrightarrow> preserves P (if b then m else n)"
  by simp

lemma preserves_option [preserves]:
  "preserves P m \<Longrightarrow> (\<And>a. preserves P (f a)) \<Longrightarrow> preserves P (case x of None \<Rightarrow> m | Some a \<Rightarrow> f a)"
  by (cases x) simp_all

lemma preserves_sum [preserves]:
  "(\<And>e. preserves P (f e)) \<Longrightarrow> (\<And>a. preserves P (g a)) \<Longrightarrow>
     preserves P (case x of Inl e \<Rightarrow> f e | Inr a \<Rightarrow> g a)"
  by (cases x) simp_all

lemma preserves_prod [preserves]:
  "(\<And>a b. preserves P (f a b)) \<Longrightarrow> preserves P (case x of (a, b) \<Rightarrow> f a b)"
  by (cases x) simp

lemma preserves_let [preserves]: "(\<And>a. preserves P (f a)) \<Longrightarrow> preserves P (let a = x in f a)"
  by simp

lemma preserves_remote:
  assumes "preserves P m" and "\<And>bs s. P s \<Longrightarrow> P (put bs s)"
  shows "preserves P (remote script put err m)"
  using assms by (auto simp: preserves_def remote_def split: list.split)

end
