(* ===== verification/UserSubscriptions.thy ===== *)
theory UserSubscriptions
  imports GroupConfig
begin

text \<open>
  The subscription entity, \<open>service/user_subscription.go\<close>, and the pure parts of
  \<open>service/subscription_service.go\<close>: usage windows, limit checks, the combined validation of the
  request path, the progress report and the renewal of a term. \<open>now\<close> stands for
  \<open>time.Now()\<close>; the calls of one operation see one instant. Calendar arithmetic in the local
  time zone (\<open>Time.AddDate(0, 0, n)\<close> and the midnight of a day) depends on the time-zone
  database and is the record \<open>calendar\<close>.
\<close>

record calendar =
  AddDays :: "go_time \<Rightarrow> int \<Rightarrow> go_time"
  Midnight :: "go_time \<Rightarrow> go_time"

text \<open>The calendar of a zone with a fixed offset from UTC (the default zone of the program,
  Asia/Shanghai, is eight hours ahead all year).\<close>

definition fixed_zone :: "go_duration \<Rightarrow> calendar" where
  "fixed_zone off =
     \<lparr>AddDays = (\<lambda>t n. t + n * (24 * hour)),
      Midnight = (\<lambda>t. (t + off) div (24 * hour) * (24 * hour) - off)\<rparr>"

definition zero_time :: go_time where
  "zero_time = - 62135596800 * second"

definition MaxExpiresAt :: go_time where
  "MaxExpiresAt = 4102444799 * second"

definition MaxValidityDays :: int where
  "MaxValidityDays = 36500"

definition SubscriptionStatusActive :: string where "SubscriptionStatusActive = ''active''"
definition SubscriptionStatusExpired :: string where "SubscriptionStatusExpired = ''expired''"
definition SubscriptionStatusSuspended :: string where "SubscriptionStatusSuspended = ''suspended''"

lemmas status_defs = SubscriptionStatusActive_def SubscriptionStatusExpired_def
  SubscriptionStatusSuspended_def

record UserSubscription =
  s_ID :: int
  s_UserID :: int
  s_GroupID :: int
  s_StartsAt :: go_time
  s_ExpiresAt :: go_time
  s_Status :: string
  s_DailyWindowStart :: "go_time option"
  s_WeeklyWindowStart :: "go_time option"
  s_MonthlyWindowStart :: "go_time option"
  s_DailyUsageUSD :: float64
  s_WeeklyUsageUSD :: float64
  s_MonthlyUsageUSD :: float64
  s_AssignedBy :: "int option"
  s_AssignedAt :: go_time
  s_Notes :: string
  s_CreatedAt :: go_time
  s_UpdatedAt :: go_time
  s_DeletedAt :: "go_time option"

section \<open>Status and windows\<close>

definition Sub_IsActive :: "go_time \<Rightarrow> UserSubscription \<Rightarrow> bool" where
  "Sub_IsActive now s \<longleftrightarrow> s_Status s = SubscriptionStatusActive \<and> now < s_ExpiresAt s"

definition Sub_IsExpired :: "go_time \<Rightarrow> UserSubscription \<Rightarrow> bool" where
  "Sub_IsExpired now s \<longleftrightarrow> s_ExpiresAt s < now"

definition DaysRemaining :: "go_time \<Rightarrow> UserSubscription \<Rightarrow> int" where
  "DaysRemaining now s =
     (if Sub_IsExpired now s then 0
      else trunc (fdiv (Duration_Hours (s_ExpiresAt s - now)) 24))"

definition IsWindowActivated :: "UserSubscription \<Rightarrow> bool" where
  "IsWindowActivated s \<longleftrightarrow>
     s_DailyWindowStart s \<noteq> None \<or> s_WeeklyWindowStart s \<noteq> None \<or> s_MonthlyWindowStart s \<noteq> None"

definition HasOneTimeDailyQuota :: "calendar \<Rightarrow> UserSubscription \<Rightarrow> bool" where
  "HasOneTimeDailyQuota cal s =
     (if s_StartsAt s = zero_time \<or> s_ExpiresAt s = zero_time then False
      else s_ExpiresAt s \<le> AddDays cal (s_StartsAt s) 1)"

definition NeedsDailyResetAt :: "calendar \<Rightarrow> go_time \<Rightarrow> UserSubscription \<Rightarrow> bool" where
  "NeedsDailyResetAt cal now s =
     (case s_DailyWindowStart s of
        None \<Rightarrow> False
      | Some w \<Rightarrow> if HasOneTimeDailyQuota cal s then False else w + 24 * hour \<le> now)"

definition NeedsWeeklyReset :: "go_time \<Rightarrow> UserSubscription \<Rightarrow> bool" where
  "NeedsWeeklyReset now s =
     (case s_WeeklyWindowStart s of None \<Rightarrow> False | Some w \<Rightarrow> 7 * 24 * hour \<le> now - w)"

definition NeedsMonthlyReset :: "go_time \<Rightarrow> UserSubscription \<Rightarrow> bool" where
  "NeedsMonthlyReset now s =
     (case s_MonthlyWindowStart s of None \<Rightarrow> False | Some w \<Rightarrow> 30 * 24 * hour \<le> now - w)"

definition DailyResetTime :: "calendar \<Rightarrow> UserSubscription \<Rightarrow> go_time option" where
  "DailyResetTime cal s =
     (case s_DailyWindowStart s of
        None \<Rightarrow> None
      | Some w \<Rightarrow> if HasOneTimeDailyQuota cal s then Some (s_ExpiresAt s) else Some (w + 24 * hour))"

definition WeeklyResetTime :: "UserSubscription \<Rightarrow> go_time option" where
  "WeeklyResetTime s = map_option (\<lambda>w. w + 7 * 24 * hour) (s_WeeklyWindowStart s)"

definition MonthlyResetTime :: "UserSubscription \<Rightarrow> go_time option" where
  "MonthlyResetTime s = map_option (\<lambda>w. w + 30 * 24 * hour) (s_MonthlyWindowStart s)"

text \<open>The reset predicates and the reported reset times say the same.\<close>

lemma NeedsDailyReset_iff:
  "NeedsDailyResetAt cal now s \<longleftrightarrow>
     \<not> HasOneTimeDailyQuota cal s \<and> (\<exists>t. DailyResetTime cal s = Some t \<and> t \<le> now)"
  by (auto simp: NeedsDailyResetAt_def DailyResetTime_def split: option.splits)

lemma NeedsWeeklyReset_iff:
  "NeedsWeeklyReset now s \<longleftrightarrow> (\<exists>t. WeeklyResetTime s = Some t \<and> t \<le> now)"
  by (auto simp: NeedsWeeklyReset_def WeeklyResetTime_def split: option.splits)

lemma NeedsMonthlyReset_iff:
  "NeedsMonthlyReset now s \<longleftrightarrow> (\<exists>t. MonthlyResetTime s = Some t \<and> t \<le> now)"
  by (auto simp: NeedsMonthlyReset_def MonthlyResetTime_def split: option.splits)

section \<open>Limits\<close>

definition within_limit :: "float64 \<Rightarrow> float64 \<Rightarrow> float64 option \<Rightarrow> bool" where
  "within_limit used cost limit = (case limit of None \<Rightarrow> True | Some l \<Rightarrow> fadd used cost \<le> l)"

definition CheckDailyLimit :: "UserSubscription \<Rightarrow> Group \<Rightarrow> float64 \<Rightarrow> bool" where
  "CheckDailyLimit s g additionalCost =
     (if \<not> HasDailyLimit g then True else within_limit (s_DailyUsageUSD s) additionalCost (g_DailyLimitUSD g))"

definition CheckWeeklyLimit :: "UserSubscription \<Rightarrow> Group \<Rightarrow> float64 \<Rightarrow> bool" where
  "CheckWeeklyLimit s g additionalCost =
     (if \<not> HasWeeklyLimit g then True else within_limit (s_WeeklyUsageUSD s) additionalCost (g_WeeklyLimitUSD g))"

definition CheckMonthlyLimit :: "UserSubscription \<Rightarrow> Group \<Rightarrow> float64 \<Rightarrow> bool" where
  "CheckMonthlyLimit s g additionalCost =
     (if \<not> HasMonthlyLimit g then True else within_limit (s_MonthlyUsageUSD s) additionalCost (g_MonthlyLimitUSD g))"

definition CheckAllLimits :: "UserSubscription \<Rightarrow> Group \<Rightarrow> float64 \<Rightarrow> bool \<times> bool \<times> bool" where
  "CheckAllLimits s g additionalCost =
     (CheckDailyLimit s g additionalCost, CheckWeeklyLimit s g additionalCost,
      CheckMonthlyLimit s g additionalCost)"

lemma within_limit_mono:
  "within_limit used cost limit \<Longrightarrow> cost' \<le> cost \<Longrightarrow> within_limit used cost' limit"
  using f64.rnd_mono [of "used + cost'" "used + cost"]
  by (auto simp: within_limit_def fadd_def split: option.splits)

lemma CheckLimit_mono:
  assumes "c' \<le> c"
  shows "CheckDailyLimit s g c \<Longrightarrow> CheckDailyLimit s g c'"
    and "CheckWeeklyLimit s g c \<Longrightarrow> CheckWeeklyLimit s g c'"
    and "CheckMonthlyLimit s g c \<Longrightarrow> CheckMonthlyLimit s g c'"
  using within_limit_mono [OF _ assms]
  by (auto simp: CheckDailyLimit_def CheckWeeklyLimit_def CheckMonthlyLimit_def split: if_splits)

section \<open>Errors\<close>

datatype sub_error =
    ErrSubscriptionNotFound
  | ErrSubscriptionExpired
  | ErrSubscriptionSuspended
  | ErrSubscriptionAlreadyExists
  | ErrSubscriptionAssignConflict string
  | ErrSubscriptionNotRevoked
  | ErrSubscriptionRestoreConflict
  | ErrGroupNotSubscriptionType
  | ErrGroupNotFound
  | ErrInvalidInput
  | ErrDailyLimitExceeded
  | ErrWeeklyLimitExceeded
  | ErrMonthlyLimitExceeded
  | ErrAdjustWouldExpire
  | ErrCannotShortenExpired
  | ErrNumericOverflow
  | ErrStore

section \<open>The request path\<close>

definition CheckUsageLimits :: "UserSubscription \<Rightarrow> Group \<Rightarrow> float64 \<Rightarrow> sub_error option" where
  "CheckUsageLimits s g additionalCost =
     (if \<not> CheckDailyLimit s g additionalCost then Some ErrDailyLimitExceeded
      else if \<not> CheckWeeklyLimit s g additionalCost then Some ErrWeeklyLimitExceeded
      else if \<not> CheckMonthlyLimit s g additionalCost then Some ErrMonthlyLimitExceeded
      else None)"

text \<open>\<open>ValidateAndCheckLimits\<close> returns whether the windows need maintenance, the error, and the
  caller's copy of the subscription with the usage of expired windows cleared.\<close>

definition clear_expired_usage :: "calendar \<Rightarrow> go_time \<Rightarrow> UserSubscription \<Rightarrow> UserSubscription" where
  "clear_expired_usage cal now s =
     (let s1 = (if NeedsDailyResetAt cal now s then s\<lparr>s_DailyUsageUSD := 0\<rparr> else s);
          s2 = (if NeedsWeeklyReset now s1 then s1\<lparr>s_WeeklyUsageUSD := 0\<rparr> else s1)
      in if NeedsMonthlyReset now s2 then s2\<lparr>s_MonthlyUsageUSD := 0\<rparr> else s2)"

definition needs_maintenance :: "calendar \<Rightarrow> go_time \<Rightarrow> UserSubscription \<Rightarrow> bool" where
  "needs_maintenance cal now s \<longleftrightarrow>
     NeedsDailyResetAt cal now s \<or> NeedsWeeklyReset now s \<or> NeedsMonthlyReset now s
     \<or> \<not> IsWindowActivated s"

definition ValidateAndCheckLimits ::
  "calendar \<Rightarrow> go_time \<Rightarrow> UserSubscription \<Rightarrow> Group \<Rightarrow> bool \<times> sub_error option \<times> UserSubscription" where
  "ValidateAndCheckLimits cal now s g =
     (if s_Status s = SubscriptionStatusExpired then (False, Some ErrSubscriptionExpired, s)
      else if s_Status s = SubscriptionStatusSuspended then (False, Some ErrSubscriptionSuspended, s)
      else if Sub_IsExpired now s then (False, Some ErrSubscriptionExpired, s)
      else let s' = clear_expired_usage cal now s; needs = needs_maintenance cal now s
           in if \<not> CheckDailyLimit s' g 0 then (needs, Some ErrDailyLimitExceeded, s')
              else if \<not> CheckWeeklyLimit s' g 0 then (needs, Some ErrWeeklyLimitExceeded, s')
              else if \<not> CheckMonthlyLimit s' g 0 then (needs, Some ErrMonthlyLimitExceeded, s')
              else (needs, None, s'))"

definition normalizeExpiredWindow :: "calendar \<Rightarrow> go_time \<Rightarrow> UserSubscription \<Rightarrow> UserSubscription" where
  "normalizeExpiredWindow cal now s =
     (let s1 = (if NeedsDailyResetAt cal now s
                then s\<lparr>s_DailyWindowStart := None, s_DailyUsageUSD := 0\<rparr> else s);
          s2 = (if NeedsWeeklyReset now s1
                then s1\<lparr>s_WeeklyWindowStart := None, s_WeeklyUsageUSD := 0\<rparr> else s1)
      in if NeedsMonthlyReset now s2
         then s2\<lparr>s_MonthlyWindowStart := None, s_MonthlyUsageUSD := 0\<rparr> else s2)"

definition normalizeExpiredWindows ::
  "calendar \<Rightarrow> go_time \<Rightarrow> UserSubscription list \<Rightarrow> UserSubscription list" where
  "normalizeExpiredWindows cal now subs = map (normalizeExpiredWindow cal now) subs"

definition normalizeSubscriptionStatus ::
  "go_time \<Rightarrow> UserSubscription list \<Rightarrow> UserSubscription list" where
  "normalizeSubscriptionStatus now subs =
     map (\<lambda>s. if s_Status s = SubscriptionStatusActive \<and> s_ExpiresAt s \<le> now
              then s\<lparr>s_Status := SubscriptionStatusExpired\<rparr> else s) subs"

text \<open>\<open>spent now s\<close> is the usage that counts at \<open>now\<close>: an expired window counts 0.\<close>

definition spent_daily :: "calendar \<Rightarrow> go_time \<Rightarrow> UserSubscription \<Rightarrow> float64" where
  "spent_daily cal now s = (if NeedsDailyResetAt cal now s then 0 else s_DailyUsageUSD s)"

definition spent_weekly :: "go_time \<Rightarrow> UserSubscription \<Rightarrow> float64" where
  "spent_weekly now s = (if NeedsWeeklyReset now s then 0 else s_WeeklyUsageUSD s)"

definition spent_monthly :: "go_time \<Rightarrow> UserSubscription \<Rightarrow> float64" where
  "spent_monthly now s = (if NeedsMonthlyReset now s then 0 else s_MonthlyUsageUSD s)"

lemma clear_expired_usage_simps [simp]:
  "s_DailyUsageUSD (clear_expired_usage cal now s) = spent_daily cal now s"
  "s_WeeklyUsageUSD (clear_expired_usage cal now s) = spent_weekly now s"
  "s_MonthlyUsageUSD (clear_expired_usage cal now s) = spent_monthly now s"
  by (auto simp: clear_expired_usage_def Let_def spent_daily_def spent_weekly_def spent_monthly_def
      NeedsWeeklyReset_def NeedsMonthlyReset_def)

lemma normalizeExpiredWindow_usage [simp]:
  "s_DailyUsageUSD (normalizeExpiredWindow cal now s) = spent_daily cal now s"
  "s_WeeklyUsageUSD (normalizeExpiredWindow cal now s) = spent_weekly now s"
  "s_MonthlyUsageUSD (normalizeExpiredWindow cal now s) = spent_monthly now s"
  by (auto simp: normalizeExpiredWindow_def Let_def spent_daily_def spent_weekly_def spent_monthly_def
      NeedsWeeklyReset_def NeedsMonthlyReset_def)

definition below :: "float64 \<Rightarrow> float64 option \<Rightarrow> bool" where
  "below used limit \<longleftrightarrow> (\<forall>l. limit = Some l \<longrightarrow> 0 < l \<longrightarrow> used \<le> l)"

lemma CheckLimit_zero:
  "is_float (s_DailyUsageUSD s) \<Longrightarrow> CheckDailyLimit s g 0 \<longleftrightarrow> below (s_DailyUsageUSD s) (g_DailyLimitUSD g)"
  "is_float (s_WeeklyUsageUSD s) \<Longrightarrow> CheckWeeklyLimit s g 0 \<longleftrightarrow> below (s_WeeklyUsageUSD s) (g_WeeklyLimitUSD g)"
  "is_float (s_MonthlyUsageUSD s) \<Longrightarrow> CheckMonthlyLimit s g 0 \<longleftrightarrow> below (s_MonthlyUsageUSD s) (g_MonthlyLimitUSD g)"
  by (auto simp: CheckDailyLimit_def CheckWeeklyLimit_def CheckMonthlyLimit_def HasDailyLimit_def
      HasWeeklyLimit_def HasMonthlyLimit_def positive_limit_def within_limit_def below_def fadd_def
      is_float_def split: option.splits)

definition float_usage :: "UserSubscription \<Rightarrow> bool" where
  "float_usage s \<longleftrightarrow> is_float (s_DailyUsageUSD s) \<and> is_float (s_WeeklyUsageUSD s)
     \<and> is_float (s_MonthlyUsageUSD s)"

lemma float_spent:
  "float_usage s \<Longrightarrow> is_float (spent_daily cal now s) \<and> is_float (spent_weekly now s)
     \<and> is_float (spent_monthly now s)"
  by (simp add: float_usage_def spent_daily_def spent_weekly_def spent_monthly_def is_float_def)

text \<open>C37: the request path admits a subscription exactly when it is neither expired nor suspended and
  the usage of every window that has not run out is within the group's limit for it; and a
  subscription it admits needs maintenance exactly when a window has run out or none is active.\<close>

theorem ValidateAndCheckLimits_correct:
  assumes "float_usage s"
  shows "(fst (snd (ValidateAndCheckLimits cal now s g)) = None \<longleftrightarrow>
      s_Status s \<notin> {SubscriptionStatusExpired, SubscriptionStatusSuspended} \<and> now \<le> s_ExpiresAt s
      \<and> below (spent_daily cal now s) (g_DailyLimitUSD g)
      \<and> below (spent_weekly now s) (g_WeeklyLimitUSD g)
      \<and> below (spent_monthly now s) (g_MonthlyLimitUSD g))
    \<and> (fst (snd (ValidateAndCheckLimits cal now s g)) = None \<longrightarrow>
        (fst (ValidateAndCheckLimits cal now s g) \<longleftrightarrow>
           NeedsDailyResetAt cal now s \<or> NeedsWeeklyReset now s \<or> NeedsMonthlyReset now s
           \<or> (s_DailyWindowStart s = None \<and> s_WeeklyWindowStart s = None \<and> s_MonthlyWindowStart s = None)))"
  using float_spent [OF assms, of cal now]
  by (auto simp: ValidateAndCheckLimits_def Let_def CheckLimit_zero Sub_IsExpired_def
      needs_maintenance_def IsWindowActivated_def)

definition example_sub :: UserSubscription where
  "example_sub =
     \<lparr>s_ID = 1, s_UserID = 5, s_GroupID = 7, s_StartsAt = 0, s_ExpiresAt = 30 * 24 * hour,
      s_Status = ''active'', s_DailyWindowStart = Some 0, s_WeeklyWindowStart = Some 0,
      s_MonthlyWindowStart = Some 0, s_DailyUsageUSD = 12, s_WeeklyUsageUSD = 12,
      s_MonthlyUsageUSD = 12, s_AssignedBy = None, s_AssignedAt = 0, s_Notes = [],
      s_CreatedAt = 0, s_UpdatedAt = 0, s_DeletedAt = None\<rparr>"

lemma example_sub_float: "float_usage example_sub"
  using rnd64_of_int [of 12] by (simp add: float_usage_def is_float_def example_sub_def)

lemma ValidateAndCheckLimits_correct_witness:
  "fst (snd (ValidateAndCheckLimits (fixed_zone 0) (25 * hour) example_sub example_group)) = None
   \<and> fst (snd (ValidateAndCheckLimits (fixed_zone 0) hour example_sub example_group)) \<noteq> None"
  using ValidateAndCheckLimits_correct [OF example_sub_float, of "fixed_zone 0" "25 * hour" example_group]
    ValidateAndCheckLimits_correct [OF example_sub_float, of "fixed_zone 0" hour example_group]
  by (simp add: example_sub_def example_group_def status_defs below_def spent_daily_def
      spent_weekly_def spent_monthly_def NeedsDailyResetAt_def NeedsWeeklyReset_def
      NeedsMonthlyReset_def HasOneTimeDailyQuota_def fixed_zone_def zero_time_def)

section \<open>The progress report\<close>

record UsageWindowProgress =
  wp_LimitUSD :: float64
  wp_UsedUSD :: float64
  wp_RemainingUSD :: float64
  wp_Percentage :: float64
  wp_WindowStart :: go_time
  wp_ResetsAt :: go_time
  wp_ResetsInSeconds :: int

definition window_progress ::
  "go_time \<Rightarrow> float64 \<Rightarrow> float64 \<Rightarrow> go_time \<Rightarrow> go_time \<Rightarrow> UsageWindowProgress" where
  "window_progress now limit used windowStart resetsAt =
     (let remaining = fsub limit used;
          percentage = fmul (fdiv used limit) 100;
          resetsIn = trunc (Duration_Seconds (resetsAt - now))
      in \<lparr>wp_LimitUSD = limit, wp_UsedUSD = used,
          wp_RemainingUSD = (if remaining < 0 then 0 else remaining),
          wp_Percentage = (if 100 < percentage then 100 else percentage),
          wp_WindowStart = windowStart, wp_ResetsAt = resetsAt,
          wp_ResetsInSeconds = (if resetsIn < 0 then 0 else resetsIn)\<rparr>)"

record SubscriptionProgress =
  sp_ID :: int
  sp_ExpiresAt :: go_time
  sp_ExpiresInDays :: int
  sp_Daily :: "UsageWindowProgress option"
  sp_Weekly :: "UsageWindowProgress option"
  sp_Monthly :: "UsageWindowProgress option"

definition calculateProgress ::
  "calendar \<Rightarrow> go_time \<Rightarrow> UserSubscription \<Rightarrow> Group \<Rightarrow> SubscriptionProgress" where
  "calculateProgress cal now s g =
     \<lparr>sp_ID = s_ID s, sp_ExpiresAt = s_ExpiresAt s, sp_ExpiresInDays = DaysRemaining now s,
      sp_Daily =
        (case (HasDailyLimit g, g_DailyLimitUSD g, s_DailyWindowStart s) of
           (True, Some limit, Some w) \<Rightarrow>
             (let resetsAt = (case DailyResetTime cal s of Some t \<Rightarrow> t | None \<Rightarrow> w + 24 * hour)
              in Some (window_progress now limit (s_DailyUsageUSD s) w resetsAt))
         | _ \<Rightarrow> None),
      sp_Weekly =
        (case (HasWeeklyLimit g, g_WeeklyLimitUSD g, s_WeeklyWindowStart s) of
           (True, Some limit, Some w) \<Rightarrow>
             Some (window_progress now limit (s_WeeklyUsageUSD s) w (w + 7 * 24 * hour))
         | _ \<Rightarrow> None),
      sp_Monthly =
        (case (HasMonthlyLimit g, g_MonthlyLimitUSD g, s_MonthlyWindowStart s) of
           (True, Some limit, Some w) \<Rightarrow>
             Some (window_progress now limit (s_MonthlyUsageUSD s) w (w + 30 * 24 * hour))
         | _ \<Rightarrow> None)\<rparr>"

lemma window_progress_bounds:
  assumes "0 \<le> used" and "0 < limit"
  shows "0 \<le> wp_RemainingUSD (window_progress now limit used w t)
    \<and> 0 \<le> wp_Percentage (window_progress now limit used w t)
    \<and> wp_Percentage (window_progress now limit used w t) \<le> 100
    \<and> 0 \<le> wp_ResetsInSeconds (window_progress now limit used w t)"
  using assms f64.mult_nonneg [of "fdiv used limit" 100] f64.rnd_nonneg [of "used / limit"]
  by (simp add: window_progress_def Let_def fmul_def fdiv_def)

section \<open>Terms\<close>

definition appendSubscriptionNotes :: "string \<Rightarrow> string \<Rightarrow> string" where
  "appendSubscriptionNotes existingNotes newNotes =
     (if newNotes = [] then existingNotes
      else if existingNotes = [] then newNotes
      else existingNotes @ [char_of (10::nat)] @ newNotes)"

definition renewedSubscriptionTerm ::
  "calendar \<Rightarrow> UserSubscription \<Rightarrow> string \<Rightarrow> go_time \<Rightarrow> go_time \<Rightarrow> UserSubscription" where
  "renewedSubscriptionTerm cal s notes startsAt expiresAt =
     (let windowStart = Midnight cal startsAt
      in s\<lparr>s_StartsAt := startsAt, s_ExpiresAt := expiresAt, s_Status := SubscriptionStatusActive,
           s_DailyWindowStart := Some windowStart, s_WeeklyWindowStart := Some windowStart,
           s_MonthlyWindowStart := Some windowStart, s_DailyUsageUSD := 0, s_WeeklyUsageUSD := 0,
           s_MonthlyUsageUSD := 0, s_Notes := appendSubscriptionNotes (s_Notes s) notes\<rparr>)"

definition normalizeAssignValidityDays :: "int \<Rightarrow> int" where
  "normalizeAssignValidityDays days =
     (let d = (if days \<le> 0 then 30 else days) in if MaxValidityDays < d then MaxValidityDays else d)"

definition clampExpiry :: "go_time \<Rightarrow> go_time" where
  "clampExpiry t = (if MaxExpiresAt < t then MaxExpiresAt else t)"

lemma normalizeAssignValidityDays_range:
  "1 \<le> normalizeAssignValidityDays d \<and> normalizeAssignValidityDays d \<le> MaxValidityDays"
  by (simp add: normalizeAssignValidityDays_def MaxValidityDays_def Let_def)

lemma clampExpiry_le: "clampExpiry t \<le> MaxExpiresAt"
  by (simp add: clampExpiry_def)

end
