(* ===== verification/SubscriptionStore.thy ===== *)
theory SubscriptionStore
  imports UserSubscriptions Programs
begin

text \<open>
  The subscription table and its operations, \<open>repository/user_subscription_repo.go\<close>, on a store
  that also holds what the service works with: the live groups, the process-local cache of
  subscriptions, the invalidation messages sent to the billing cache and the fault script of the
  database. The table keeps soft-deleted rows (\<open>s_DeletedAt\<close>); queries see live rows only, as
  the soft-delete mixin makes them, updates by identifier see every row, and the partial unique
  index allows one live row per user and group. Usage columns are \<open>DECIMAL(20,10)\<close>.
\<close>

datatype sub_event = InvalidateBilling int int | PublishInvalidation string

record sub_store =
  st_rows :: "UserSubscription list"
  st_next_id :: int
  st_groups :: "(int \<times> Group) list"
  st_l1 :: "string \<rightharpoonup> UserSubscription"
  st_events :: "sub_event list"
  st_faults :: "bool list"

type_synonym 'a sub_prog = "(sub_error, sub_store, 'a) prog"

definition db :: "'a sub_prog \<Rightarrow> 'a sub_prog" where
  "db = remote st_faults (\<lambda>bs s. s\<lparr>st_faults := bs\<rparr>) ErrStore"

definition live :: "UserSubscription \<Rightarrow> bool" where
  "live r \<longleftrightarrow> s_DeletedAt r = None"

section \<open>Columns\<close>

definition dec10 :: "rat \<Rightarrow> rat" where
  "dec10 x = sgn x * of_int \<lfloor>\<bar>x\<bar> * 10 ^ 10 + 1 / 2\<rfloor> / 10 ^ 10"

definition numeric_ok :: "rat \<Rightarrow> bool" where
  "numeric_ok x \<longleftrightarrow> \<bar>x\<bar> < 10 ^ 10"

lemma dec10_nonneg: "0 \<le> x \<Longrightarrow> 0 \<le> dec10 x"
  by (cases "x = 0") (simp_all add: dec10_def)

lemma dec10_zero [simp]: "dec10 0 = 0"
  by (simp add: dec10_def)

section \<open>Queries and updates\<close>

definition lookup_live :: "(UserSubscription \<Rightarrow> bool) \<Rightarrow> UserSubscription list \<Rightarrow> UserSubscription option" where
  "lookup_live P rows = List.find (\<lambda>r. live r \<and> P r) rows"

definition update_row :: "int \<Rightarrow> (UserSubscription \<Rightarrow> UserSubscription) \<Rightarrow> UserSubscription list \<Rightarrow> UserSubscription list" where
  "update_row i f rows = map (\<lambda>r. if s_ID r = i then f r else r) rows"

definition has_row :: "int \<Rightarrow> UserSubscription list \<Rightarrow> bool" where
  "has_row i rows \<longleftrightarrow> i \<in> s_ID ` set rows"

definition live_conflict :: "int \<Rightarrow> int \<Rightarrow> int \<Rightarrow> UserSubscription list \<Rightarrow> bool" where
  "live_conflict i u g rows \<longleftrightarrow>
     list_ex (\<lambda>r. live r \<and> s_ID r \<noteq> i \<and> s_UserID r = u \<and> s_GroupID r = g) rows"

definition repo_query :: "(UserSubscription \<Rightarrow> bool) \<Rightarrow> UserSubscription sub_prog" where
  "repo_query P = db (\<lambda>s. case lookup_live P (st_rows s) of
     None \<Rightarrow> (Inl ErrSubscriptionNotFound, s) | Some r \<Rightarrow> (Inr r, s))"

definition repo_update :: "int \<Rightarrow> (UserSubscription \<Rightarrow> UserSubscription) \<Rightarrow> unit sub_prog" where
  "repo_update i f = db (\<lambda>s. if has_row i (st_rows s)
     then (Inr (), s\<lparr>st_rows := update_row i f (st_rows s)\<rparr>)
     else (Inl ErrSubscriptionNotFound, s))"

definition inserted_row :: "go_time \<Rightarrow> int \<Rightarrow> UserSubscription \<Rightarrow> UserSubscription" where
  "inserted_row now i sub =
     sub\<lparr>s_ID := i,
       s_StartsAt := (if s_StartsAt sub = zero_time then now else s_StartsAt sub),
       s_Status := (if s_Status sub = [] then SubscriptionStatusActive else s_Status sub),
       s_AssignedAt := (if s_AssignedAt sub = zero_time then now else s_AssignedAt sub),
       s_CreatedAt := now, s_UpdatedAt := now, s_DeletedAt := None\<rparr>"

definition repo_Create :: "go_time \<Rightarrow> UserSubscription \<Rightarrow> int sub_prog" where
  "repo_Create now sub = db (\<lambda>s.
     if live_conflict (st_next_id s) (s_UserID sub) (s_GroupID sub) (st_rows s)
     then (Inl ErrSubscriptionAlreadyExists, s)
     else (Inr (st_next_id s), s\<lparr>st_rows := st_rows s @ [inserted_row now (st_next_id s) sub],
            st_next_id := st_next_id s + 1\<rparr>))"

definition repo_GetByID :: "int \<Rightarrow> UserSubscription sub_prog" where
  "repo_GetByID i = repo_query (\<lambda>r. s_ID r = i)"

definition repo_GetByIDIncludeDeleted :: "int \<Rightarrow> UserSubscription sub_prog" where
  "repo_GetByIDIncludeDeleted i = db (\<lambda>s. case List.find (\<lambda>r. s_ID r = i) (st_rows s) of
     None \<Rightarrow> (Inl ErrSubscriptionNotFound, s) | Some r \<Rightarrow> (Inr r, s))"

definition repo_GetByUserIDAndGroupID :: "int \<Rightarrow> int \<Rightarrow> UserSubscription sub_prog" where
  "repo_GetByUserIDAndGroupID u g = repo_query (\<lambda>r. s_UserID r = u \<and> s_GroupID r = g)"

definition repo_GetActiveByUserIDAndGroupID :: "go_time \<Rightarrow> int \<Rightarrow> int \<Rightarrow> UserSubscription sub_prog" where
  "repo_GetActiveByUserIDAndGroupID now u g = repo_query (\<lambda>r. s_UserID r = u \<and> s_GroupID r = g
     \<and> s_Status r = SubscriptionStatusActive \<and> now < s_ExpiresAt r)"

text \<open>\<open>Update\<close> writes the columns it sets; the nillable setters leave a column alone when the
  value is nil.\<close>

definition keep_if_nil :: "'a option \<Rightarrow> 'a option \<Rightarrow> 'a option" where
  "keep_if_nil new old = (case new of None \<Rightarrow> old | Some v \<Rightarrow> Some v)"

definition updated_row :: "go_time \<Rightarrow> UserSubscription \<Rightarrow> UserSubscription \<Rightarrow> UserSubscription" where
  "updated_row now sub r =
     r\<lparr>s_UserID := s_UserID sub, s_GroupID := s_GroupID sub, s_StartsAt := s_StartsAt sub,
       s_ExpiresAt := s_ExpiresAt sub, s_Status := s_Status sub,
       s_DailyWindowStart := keep_if_nil (s_DailyWindowStart sub) (s_DailyWindowStart r),
       s_WeeklyWindowStart := keep_if_nil (s_WeeklyWindowStart sub) (s_WeeklyWindowStart r),
       s_MonthlyWindowStart := keep_if_nil (s_MonthlyWindowStart sub) (s_MonthlyWindowStart r),
       s_DailyUsageUSD := s_DailyUsageUSD sub, s_WeeklyUsageUSD := s_WeeklyUsageUSD sub,
       s_MonthlyUsageUSD := s_MonthlyUsageUSD sub,
       s_AssignedBy := keep_if_nil (s_AssignedBy sub) (s_AssignedBy r),
       s_AssignedAt := s_AssignedAt sub, s_Notes := s_Notes sub, s_UpdatedAt := now\<rparr>"

definition repo_Update :: "go_time \<Rightarrow> UserSubscription \<Rightarrow> unit sub_prog" where
  "repo_Update now sub = db (\<lambda>s.
     case List.find (\<lambda>r. s_ID r = s_ID sub) (st_rows s) of
       None \<Rightarrow> (Inl ErrSubscriptionNotFound, s)
     | Some r \<Rightarrow>
         if live r \<and> live_conflict (s_ID sub) (s_UserID sub) (s_GroupID sub) (st_rows s)
         then (Inl ErrSubscriptionAlreadyExists, s)
         else (Inr (), s\<lparr>st_rows := update_row (s_ID sub)
           (updated_row now sub)
           (st_rows s)\<rparr>))"

definition repo_Delete :: "go_time \<Rightarrow> int \<Rightarrow> unit sub_prog" where
  "repo_Delete now i = db (\<lambda>s. (Inr (), s\<lparr>st_rows :=
     map (\<lambda>r. if s_ID r = i \<and> live r then r\<lparr>s_DeletedAt := Some now, s_UpdatedAt := now\<rparr> else r) (st_rows s)\<rparr>))"

definition restored_row :: "go_time \<Rightarrow> string \<Rightarrow> UserSubscription \<Rightarrow> UserSubscription" where
  "restored_row now status r = r\<lparr>s_Status := status, s_DeletedAt := None, s_UpdatedAt := now\<rparr>"

definition repo_Restore :: "go_time \<Rightarrow> int \<Rightarrow> string \<Rightarrow> UserSubscription sub_prog" where
  "repo_Restore now i restoredStatus = andthen
     (db (\<lambda>s. case List.find (\<lambda>r. s_ID r = i) (st_rows s) of
        None \<Rightarrow> (Inl ErrSubscriptionNotFound, s)
      | Some r \<Rightarrow>
          if live_conflict i (s_UserID r) (s_GroupID r) (st_rows s)
          then (Inl ErrSubscriptionRestoreConflict, s)
          else (Inr (), s\<lparr>st_rows := update_row i
            (restored_row now restoredStatus) (st_rows s)\<rparr>)))
     (\<lambda>_. repo_GetByID i)"

definition repo_ExistsByUserIDAndGroupID :: "int \<Rightarrow> int \<Rightarrow> bool sub_prog" where
  "repo_ExistsByUserIDAndGroupID u g = db (inspect (\<lambda>s.
     lookup_live (\<lambda>r. s_UserID r = u \<and> s_GroupID r = g) (st_rows s) \<noteq> None))"

definition repo_ExtendExpiry :: "go_time \<Rightarrow> int \<Rightarrow> go_time \<Rightarrow> unit sub_prog" where
  "repo_ExtendExpiry now i t = repo_update i (\<lambda>r. r\<lparr>s_ExpiresAt := t, s_UpdatedAt := now\<rparr>)"

definition repo_UpdateStatus :: "go_time \<Rightarrow> int \<Rightarrow> string \<Rightarrow> unit sub_prog" where
  "repo_UpdateStatus now i status = repo_update i (\<lambda>r. r\<lparr>s_Status := status, s_UpdatedAt := now\<rparr>)"

definition repo_UpdateNotes :: "go_time \<Rightarrow> int \<Rightarrow> string \<Rightarrow> unit sub_prog" where
  "repo_UpdateNotes now i notes = repo_update i (\<lambda>r. r\<lparr>s_Notes := notes, s_UpdatedAt := now\<rparr>)"

definition repo_ActivateWindows :: "go_time \<Rightarrow> int \<Rightarrow> go_time \<Rightarrow> unit sub_prog" where
  "repo_ActivateWindows now i start = repo_update i
     (\<lambda>r. r\<lparr>s_DailyWindowStart := Some start, s_WeeklyWindowStart := Some start,
            s_MonthlyWindowStart := Some start, s_UpdatedAt := now\<rparr>)"

definition repo_ResetDailyUsage :: "go_time \<Rightarrow> int \<Rightarrow> go_time \<Rightarrow> unit sub_prog" where
  "repo_ResetDailyUsage now i start = repo_update i
     (\<lambda>r. r\<lparr>s_DailyUsageUSD := 0, s_DailyWindowStart := Some start, s_UpdatedAt := now\<rparr>)"

definition repo_ResetWeeklyUsage :: "go_time \<Rightarrow> int \<Rightarrow> go_time \<Rightarrow> unit sub_prog" where
  "repo_ResetWeeklyUsage now i start = repo_update i
     (\<lambda>r. r\<lparr>s_WeeklyUsageUSD := 0, s_WeeklyWindowStart := Some start, s_UpdatedAt := now\<rparr>)"

definition repo_ResetMonthlyUsage :: "go_time \<Rightarrow> int \<Rightarrow> go_time \<Rightarrow> unit sub_prog" where
  "repo_ResetMonthlyUsage now i start = repo_update i
     (\<lambda>r. r\<lparr>s_MonthlyUsageUSD := 0, s_MonthlyWindowStart := Some start, s_UpdatedAt := now\<rparr>)"

text \<open>The statement of \<open>IncrementUsage\<close> touches a live row of a live group; no row affected is
  reported as not found, an overflowing column as an error that changes nothing.\<close>

definition add_usage :: "go_time \<Rightarrow> rat \<Rightarrow> UserSubscription \<Rightarrow> UserSubscription" where
  "add_usage now cost r =
     r\<lparr>s_DailyUsageUSD := dec10 (s_DailyUsageUSD r + cost),
       s_WeeklyUsageUSD := dec10 (s_WeeklyUsageUSD r + cost),
       s_MonthlyUsageUSD := dec10 (s_MonthlyUsageUSD r + cost), s_UpdatedAt := now\<rparr>"

definition repo_IncrementUsage :: "go_time \<Rightarrow> int \<Rightarrow> rat \<Rightarrow> unit sub_prog" where
  "repo_IncrementUsage now i cost = db (\<lambda>s.
     let hit = (\<lambda>r. s_ID r = i \<and> live r \<and> map_of (st_groups s) (s_GroupID r) \<noteq> None) in
     case List.find hit (st_rows s) of
       None \<Rightarrow> (Inl ErrSubscriptionNotFound, s)
     | Some r \<Rightarrow>
         let r' = add_usage now cost r in
         if numeric_ok (s_DailyUsageUSD r') \<and> numeric_ok (s_WeeklyUsageUSD r') \<and> numeric_ok (s_MonthlyUsageUSD r')
         then (Inr (), s\<lparr>st_rows := update_row i (add_usage now cost) (st_rows s)\<rparr>)
         else (Inl ErrNumericOverflow, s))"

definition repo_BatchUpdateExpiredStatus :: "go_time \<Rightarrow> int sub_prog" where
  "repo_BatchUpdateExpiredStatus now = db (\<lambda>s.
     let due = (\<lambda>r. s_Status r = SubscriptionStatusActive \<and> s_ExpiresAt r \<le> now) in
     (Inr (int (length (filter due (st_rows s)))),
      s\<lparr>st_rows := map (\<lambda>r. if due r then r\<lparr>s_Status := SubscriptionStatusExpired, s_UpdatedAt := now\<rparr> else r)
        (st_rows s)\<rparr>))"

definition repo_DeleteByGroupID :: "go_time \<Rightarrow> int \<Rightarrow> int sub_prog" where
  "repo_DeleteByGroupID now g = db (\<lambda>s.
     let hit = (\<lambda>r. s_GroupID r = g \<and> live r) in
     (Inr (int (length (filter hit (st_rows s)))),
      s\<lparr>st_rows := map (\<lambda>r. if hit r then r\<lparr>s_DeletedAt := Some now, s_UpdatedAt := now\<rparr> else r) (st_rows s)\<rparr>))"

definition groupRepo_GetByID :: "int \<Rightarrow> Group sub_prog" where
  "groupRepo_GetByID g = db (\<lambda>s. case map_of (st_groups s) g of
     None \<Rightarrow> (Inl ErrGroupNotFound, s) | Some grp \<Rightarrow> (Inr grp, s))"

section \<open>What every state of the table keeps\<close>

definition row_ok :: "UserSubscription \<Rightarrow> bool" where
  "row_ok r \<longleftrightarrow> s_ExpiresAt r \<le> MaxExpiresAt \<and> 0 \<le> s_DailyUsageUSD r \<and> 0 \<le> s_WeeklyUsageUSD r
     \<and> 0 \<le> s_MonthlyUsageUSD r"

definition live_keys :: "UserSubscription list \<Rightarrow> (int \<times> int) list" where
  "live_keys rows = map (\<lambda>r. (s_UserID r, s_GroupID r)) (filter live rows)"

definition table_inv :: "sub_store \<Rightarrow> bool" where
  "table_inv s \<longleftrightarrow> distinct (map s_ID (st_rows s))
     \<and> (\<forall>r \<in> set (st_rows s). s_ID r < st_next_id s)
     \<and> distinct (live_keys (st_rows s))
     \<and> (\<forall>r \<in> set (st_rows s). row_ok r)"

lemma live_keys_Cons:
  "live_keys (r # rows) = (if live r then (s_UserID r, s_GroupID r) # live_keys rows else live_keys rows)"
  by (simp add: live_keys_def)

lemma live_keys_append: "live_keys (xs @ ys) = live_keys xs @ live_keys ys"
  by (simp add: live_keys_def)

lemma set_live_keys:
  "(u, g) \<in> set (live_keys rows) \<longleftrightarrow> (\<exists>r \<in> set rows. live r \<and> s_UserID r = u \<and> s_GroupID r = g)"
  by (auto simp: live_keys_def)

text \<open>A row transformation that keeps identifier, owner, group and deletion mark keeps the table's
  keys; one that also keeps rows well formed keeps the invariant.\<close>

definition keeps_keys :: "(UserSubscription \<Rightarrow> UserSubscription) \<Rightarrow> bool" where
  "keeps_keys f \<longleftrightarrow> (\<forall>r. s_ID (f r) = s_ID r \<and> s_UserID (f r) = s_UserID r
     \<and> s_GroupID (f r) = s_GroupID r \<and> s_DeletedAt (f r) = s_DeletedAt r)"

lemma table_inv_map:
  assumes "table_inv s" and "keeps_keys f" and "\<And>r. row_ok r \<Longrightarrow> row_ok (f r)"
  shows "table_inv (s\<lparr>st_rows := map f (st_rows s)\<rparr>)"
proof -
  have "live_keys (map f rows) = live_keys rows" for rows
    using assms(2) by (induction rows) (auto simp: live_keys_Cons keeps_keys_def live_def live_keys_def)
  moreover have "map s_ID (map f rows) = map s_ID rows" for rows
    using assms(2) by (simp add: keeps_keys_def)
  ultimately show ?thesis using assms by (auto simp: table_inv_def keeps_keys_def simp del: map_map)
qed

lemma table_inv_update_row:
  assumes "table_inv s" and "keeps_keys f" and "\<And>r. row_ok r \<Longrightarrow> row_ok (f r)"
  shows "table_inv (s\<lparr>st_rows := update_row i f (st_rows s)\<rparr>)"
  unfolding update_row_def using assms by (intro table_inv_map) (auto simp: keeps_keys_def)

lemma table_inv_other [simp]:
  "table_inv (s\<lparr>st_faults := bs\<rparr>) = table_inv s"
  "table_inv (s\<lparr>st_l1 := m\<rparr>) = table_inv s"
  "table_inv (s\<lparr>st_events := es\<rparr>) = table_inv s"
  by (simp_all add: table_inv_def)

lemma preserves_db [preserves]: "preserves table_inv m \<Longrightarrow> preserves table_inv (db m)"
  unfolding db_def by (rule preserves_remote) simp_all

lemma preserves_repo_query [preserves]: "preserves table_inv (repo_query P)"
  unfolding repo_query_def by (intro preserves_db preservesI) (auto split: option.split)

lemma preserves_repo_update:
  assumes "keeps_keys f" and "\<And>r. row_ok r \<Longrightarrow> row_ok (f r)"
  shows "preserves table_inv (repo_update i f)"
  unfolding repo_update_def
  using table_inv_update_row [OF _ assms] by (intro preserves_db preservesI) auto

lemma preserves_read [preserves]:
  "preserves table_inv (repo_GetByID i)"
  "preserves table_inv (repo_GetByIDIncludeDeleted i)"
  "preserves table_inv (repo_GetByUserIDAndGroupID u g)"
  "preserves table_inv (repo_GetActiveByUserIDAndGroupID now u g)"
  "preserves table_inv (repo_ExistsByUserIDAndGroupID u g)"
  "preserves table_inv (groupRepo_GetByID g)"
  unfolding repo_GetByID_def repo_GetByIDIncludeDeleted_def repo_GetByUserIDAndGroupID_def
    repo_GetActiveByUserIDAndGroupID_def repo_ExistsByUserIDAndGroupID_def groupRepo_GetByID_def
  by (rule preserves_repo_query preserves_db preserves_inspect
      | (rule preservesI, simp split: option.split))+

lemma preserves_updates [preserves]:
  "preserves table_inv (repo_UpdateStatus now i st)"
  "preserves table_inv (repo_UpdateNotes now i notes)"
  "preserves table_inv (repo_ActivateWindows now i start)"
  "preserves table_inv (repo_ResetDailyUsage now i start)"
  "preserves table_inv (repo_ResetWeeklyUsage now i start)"
  "preserves table_inv (repo_ResetMonthlyUsage now i start)"
  unfolding repo_UpdateStatus_def repo_UpdateNotes_def repo_ActivateWindows_def
    repo_ResetDailyUsage_def repo_ResetWeeklyUsage_def repo_ResetMonthlyUsage_def
  by (rule preserves_repo_update; simp add: keeps_keys_def row_ok_def)+

lemma preserves_ExtendExpiry [preserves]:
  "t \<le> MaxExpiresAt \<Longrightarrow> preserves table_inv (repo_ExtendExpiry now i t)"
  unfolding repo_ExtendExpiry_def
  by (rule preserves_repo_update) (simp_all add: keeps_keys_def row_ok_def)

lemma preserves_IncrementUsage [preserves]:
  assumes "0 \<le> cost"
  shows "preserves table_inv (repo_IncrementUsage now i cost)"
proof -
  have "keeps_keys (add_usage now cost)" by (simp add: keeps_keys_def add_usage_def)
  moreover have "row_ok r \<Longrightarrow> row_ok (add_usage now cost r)" for r
    using assms by (simp add: row_ok_def add_usage_def dec10_nonneg)
  ultimately show ?thesis
    unfolding repo_IncrementUsage_def
    by (intro preserves_db preservesI) (auto simp: Let_def table_inv_update_row split: option.split)
qed

lemma preserves_BatchUpdateExpiredStatus [preserves]:
  "preserves table_inv (repo_BatchUpdateExpiredStatus now)"
  unfolding repo_BatchUpdateExpiredStatus_def
  by (intro preserves_db preservesI)
    (auto simp: Let_def keeps_keys_def row_ok_def intro!: table_inv_map)


text \<open>Inserting a row, deleting one, and the guarded writes that may move a row's key.\<close>

lemma live_conflict_iff:
  "live_conflict i u g rows \<longleftrightarrow>
     (\<exists>r \<in> set rows. live r \<and> s_ID r \<noteq> i \<and> s_UserID r = u \<and> s_GroupID r = g)"
  by (auto simp: live_conflict_def list_ex_iff)

lemma preserves_Create [preserves]:
  assumes "row_ok sub"
  shows "preserves table_inv (repo_Create now sub)"
  unfolding repo_Create_def
proof (intro preserves_db preservesI)
  fix s assume inv: "table_inv s"
  have fresh: "s_ID r \<noteq> st_next_id s" if "r \<in> set (st_rows s)" for r
    using inv that by (auto simp: table_inv_def)
  show "table_inv (snd (if live_conflict (st_next_id s) (s_UserID sub) (s_GroupID sub) (st_rows s)
       then (Inl ErrSubscriptionAlreadyExists, s)
       else (Inr (st_next_id s), s\<lparr>st_rows := st_rows s @ [inserted_row now (st_next_id s) sub],
            st_next_id := st_next_id s + 1\<rparr>)))"
    using inv assms fresh
    by (force simp: table_inv_def inserted_row_def live_keys_append live_keys_Cons live_conflict_iff live_def
        row_ok_def set_live_keys live_keys_def)
qed

lemma table_inv_delete:
  assumes "table_inv s"
  shows "table_inv (s\<lparr>st_rows := map (\<lambda>r. if P r then r\<lparr>s_DeletedAt := Some now, s_UpdatedAt := now\<rparr> else r) (st_rows s)\<rparr>)"
proof -
  let ?d = "\<lambda>r. if P r then r\<lparr>s_DeletedAt := Some now, s_UpdatedAt := now\<rparr> else r"
  have ids: "map s_ID (map ?d rows) = map s_ID rows" for rows by simp
  have keys: "distinct (live_keys rows) \<Longrightarrow> distinct (live_keys (map ?d rows))
      \<and> set (live_keys (map ?d rows)) \<subseteq> set (live_keys rows)" for rows
    by (induction rows) (auto simp: live_keys_Cons live_def live_keys_def [of "[]"])
  show ?thesis using assms keys [of "st_rows s"] ids [of "st_rows s"]
    by (auto simp: table_inv_def row_ok_def simp del: map_map)
qed

lemma preserves_Delete [preserves]:
  "preserves table_inv (repo_Delete now i)" "preserves table_inv (repo_DeleteByGroupID now g)"
  unfolding repo_Delete_def repo_DeleteByGroupID_def
  by (intro preserves_db preservesI, simp add: table_inv_delete Let_def)+

text \<open>A row whose new key is free among the other live rows can be rewritten.\<close>

lemma table_inv_rewrite:
  assumes inv: "table_inv s" and f: "\<And>r. s_ID (f r) = s_ID r" "\<And>r. row_ok r \<Longrightarrow> s_ID r = i \<Longrightarrow> row_ok (f r)"
    and free: "\<And>r q. r \<in> set (st_rows s) \<Longrightarrow> s_ID r = i \<Longrightarrow> live (f r) \<Longrightarrow> q \<in> set (st_rows s) \<Longrightarrow>
      live q \<Longrightarrow> s_ID q \<noteq> i \<Longrightarrow> (s_UserID q, s_GroupID q) \<noteq> (s_UserID (f r), s_GroupID (f r))"
  shows "table_inv (s\<lparr>st_rows := update_row i f (st_rows s)\<rparr>)"
proof -
  let ?u = "\<lambda>r. if s_ID r = i then f r else r"
  have ids: "map s_ID (map ?u rows) = map s_ID rows" for rows using f(1) by simp
  have other: "live_keys (map ?u rows) = live_keys rows" if "i \<notin> s_ID ` set rows" for rows
    using that by (induction rows) (auto simp: live_keys_Cons live_keys_def [of "[]"])
  have keys: "distinct (live_keys (map ?u rows))"
    if "distinct (map s_ID rows)" "distinct (live_keys rows)" "set rows \<subseteq> set (st_rows s)" for rows
    using that
  proof (induction rows)
    case Nil
    then show ?case by (simp add: live_keys_def)
  next
    case (Cons r rows)
    show ?case
    proof (cases "s_ID r = i")
      case True
      with Cons.prems have "i \<notin> s_ID ` set rows" by auto
      note eq = other [OF this]
      have "(s_UserID (f r), s_GroupID (f r)) \<notin> set (live_keys rows)" if fr: "live (f r)"
      proof
        assume "(s_UserID (f r), s_GroupID (f r)) \<in> set (live_keys rows)"
        then obtain q where q: "q \<in> set rows" "live q" "s_UserID q = s_UserID (f r)"
          "s_GroupID q = s_GroupID (f r)" by (auto simp: set_live_keys)
        from q(1) \<open>i \<notin> s_ID ` set rows\<close> have "s_ID q \<noteq> i" by force
        with q Cons.prems(3) free [OF _ True fr, of q] show False by auto
      qed
      with True Cons.prems eq show ?thesis by (auto simp: live_keys_Cons split: if_splits)
    next
      case False
      have "(s_UserID r, s_GroupID r) \<notin> set (live_keys (map ?u rows))" if r: "live r"
      proof
        assume "(s_UserID r, s_GroupID r) \<in> set (live_keys (map ?u rows))"
        then obtain q where q: "q \<in> set rows" "live (?u q)" "s_UserID (?u q) = s_UserID r"
          "s_GroupID (?u q) = s_GroupID r" by (auto simp: set_live_keys)
        show False
        proof (cases "s_ID q = i")
          case True
          with q r False Cons.prems(3) free [of q r] show False by auto
        next
          case False
          with q r Cons.prems(2) show False by (auto simp: live_keys_Cons set_live_keys)
        qed
      qed
      with False Cons show ?thesis by (auto simp: live_keys_Cons split: if_splits)
    qed
  qed
  show ?thesis
    using inv keys [of "st_rows s"] ids [of "st_rows s"] f
    by (auto simp: table_inv_def update_row_def simp del: map_map)
qed

lemma same_row:
  assumes "table_inv s" and "r \<in> set (st_rows s)" and "q \<in> set (st_rows s)" and "s_ID r = s_ID q"
  shows "r = q"
  using assms by (auto simp: table_inv_def distinct_map dest: inj_onD)

lemma row_by_id:
  assumes "table_inv s" and "List.find (\<lambda>r. s_ID r = i) (st_rows s) = Some r"
    and "p \<in> set (st_rows s)" and "s_ID p = i"
  shows "p = r"
proof -
  from find_Some_mem [OF assms(2)] have "r \<in> set (st_rows s)" "s_ID r = i" by auto
  with same_row [OF assms(1) assms(3)] assms(4) show ?thesis by simp
qed

lemma preserves_Restore [preserves]: "preserves table_inv (repo_Restore now i st)"
  unfolding repo_Restore_def
proof (rule preserves_andthen [OF preserves_db [OF preservesI] preserves_read(1)])
  fix s assume inv: "table_inv s"
  have "table_inv (s\<lparr>st_rows := update_row i (restored_row now st) (st_rows s)\<rparr>)"
    if r: "List.find (\<lambda>r. s_ID r = i) (st_rows s) = Some r"
      and free: "\<not> live_conflict i (s_UserID r) (s_GroupID r) (st_rows s)" for r
  proof (rule table_inv_rewrite [OF inv])
    fix p q
    assume p: "p \<in> set (st_rows s)" "s_ID p = i"
      and q: "q \<in> set (st_rows s)" "live q" "s_ID q \<noteq> i"
    from row_by_id [OF inv r p] q free
    show "(s_UserID q, s_GroupID q) \<noteq> (s_UserID (restored_row now st p), s_GroupID (restored_row now st p))"
      by (auto simp: live_conflict_iff restored_row_def)
  qed (simp_all add: row_ok_def restored_row_def)
  with inv show "table_inv (snd (case List.find (\<lambda>r. s_ID r = i) (st_rows s) of
        None \<Rightarrow> (Inl ErrSubscriptionNotFound, s)
      | Some r \<Rightarrow>
          if live_conflict i (s_UserID r) (s_GroupID r) (st_rows s)
          then (Inl ErrSubscriptionRestoreConflict, s)
          else (Inr (), s\<lparr>st_rows := update_row i (restored_row now st) (st_rows s)\<rparr>)))"
    by (simp split: option.split)
qed

lemma preserves_Update [preserves]:
  assumes "row_ok sub"
  shows "preserves table_inv (repo_Update now sub)"
  unfolding repo_Update_def
proof (intro preserves_db preservesI)
  fix s assume inv: "table_inv s"
  have "table_inv (s\<lparr>st_rows := update_row (s_ID sub) (updated_row now sub) (st_rows s)\<rparr>)"
    if r: "List.find (\<lambda>r. s_ID r = s_ID sub) (st_rows s) = Some r"
      and free: "\<not> (live r \<and> live_conflict (s_ID sub) (s_UserID sub) (s_GroupID sub) (st_rows s))" for r
  proof (rule table_inv_rewrite [OF inv])
    fix p q
    assume p: "p \<in> set (st_rows s)" "s_ID p = s_ID sub" "live (updated_row now sub p)"
      and q: "q \<in> set (st_rows s)" "live q" "s_ID q \<noteq> s_ID sub"
    from row_by_id [OF inv r p(1,2)] p q free
    show "(s_UserID q, s_GroupID q) \<noteq> (s_UserID (updated_row now sub p), s_GroupID (updated_row now sub p))"
      by (auto simp: live_conflict_iff live_def updated_row_def)
  qed (use assms in \<open>simp_all add: row_ok_def updated_row_def\<close>)
  with inv show "table_inv (snd (case List.find (\<lambda>r. s_ID r = s_ID sub) (st_rows s) of
       None \<Rightarrow> (Inl ErrSubscriptionNotFound, s)
     | Some r \<Rightarrow>
         if live r \<and> live_conflict (s_ID sub) (s_UserID sub) (s_GroupID sub) (st_rows s)
         then (Inl ErrSubscriptionAlreadyExists, s)
         else (Inr (), s\<lparr>st_rows := update_row (s_ID sub) (updated_row now sub) (st_rows s)\<rparr>)))"
    by (simp split: option.split)
qed

end
