(* ===== verification/SubscriptionService.thy ===== *)
theory SubscriptionService
  imports SubscriptionStore
begin

text \<open>
  The operations of \<open>service/subscription_service.go\<close> on the store of
  \<open>SubscriptionStore\<close>: assignment, renewal, revocation, restoration, extension, the cached lookup
  of the request path, quota resets and window maintenance. Every operation takes the instant its
  \<open>time.Now()\<close> calls return. The configuration says whether the process has an L1 cache, a
  billing cache and a transactional client, and holds the calendar. A call whose error the code
  drops is wrapped in \<open>attempt\<close>; that includes the invalidations it starts in a goroutine, which
  nothing in these operations waits for. Entries of the L1 cache also expire on their own, which is
  a separate step of the state machine at the end.
\<close>

record sub_config =
  sc_cal :: calendar
  sc_l1 :: bool
  sc_billing :: bool
  sc_tx :: bool

section \<open>Caches\<close>

definition subCacheKey :: "int \<Rightarrow> int \<Rightarrow> string" where
  "subCacheKey userID groupID = ''sub:'' @ format_int userID @ '':'' @ format_int groupID"

definition InvalidateSubCache :: "sub_config \<Rightarrow> int \<Rightarrow> int \<Rightarrow> unit sub_prog" where
  "InvalidateSubCache sc u g =
     update (\<lambda>s. if sc_l1 sc then s\<lparr>st_l1 := (st_l1 s)(subCacheKey u g := None)\<rparr> else s)"

definition billing_InvalidateSubscription :: "int \<Rightarrow> int \<Rightarrow> unit sub_prog" where
  "billing_InvalidateSubscription u g =
     db (update (\<lambda>s. s\<lparr>st_events := st_events s @ [InvalidateBilling u g]\<rparr>))"

definition billing_Publish :: "string \<Rightarrow> unit sub_prog" where
  "billing_Publish key = db (update (\<lambda>s. s\<lparr>st_events := st_events s @ [PublishInvalidation key]\<rparr>))"

definition notify_billing :: "sub_config \<Rightarrow> int \<Rightarrow> int \<Rightarrow> unit sub_prog" where
  "notify_billing sc u g =
     when_do (sc_billing sc) (andthen (attempt (billing_InvalidateSubscription u g)) (\<lambda>_. ret ()))"

definition invalidateSubscriptionCaches :: "sub_config \<Rightarrow> int \<Rightarrow> int \<Rightarrow> unit sub_prog" where
  "invalidateSubscriptionCaches sc u g =
     andthen (InvalidateSubCache sc u g)
       (\<lambda>_. when_do (sc_billing sc)
          (andthen (billing_InvalidateSubscription u g) (\<lambda>_. billing_Publish (subCacheKey u g))))"

section \<open>Transactions\<close>

text \<open>\<open>withSubscriptionUpdateTx\<close>: without a client the body runs as it is; otherwise an error of
  the body, and a failed commit, leave the table as it was when the transaction began.\<close>

definition withSubscriptionUpdateTx :: "sub_config \<Rightarrow> 'a sub_prog \<Rightarrow> 'a sub_prog" where
  "withSubscriptionUpdateTx sc body =
     (if \<not> sc_tx sc then body
      else andthen (db (ret ())) (\<lambda>_. \<lambda>s.
        case body s of
          (Inl e, s') \<Rightarrow> (Inl e, s'\<lparr>st_rows := st_rows s\<rparr>)
        | (Inr a, s') \<Rightarrow>
            (case db (ret ()) s' of
               (Inl e, s'') \<Rightarrow> (Inl e, s''\<lparr>st_rows := st_rows s\<rparr>)
             | (Inr _, s'') \<Rightarrow> (Inr a, s''))))"

section \<open>Assignment and renewal\<close>

record AssignSubscriptionInput =
  ai_UserID :: int
  ai_GroupID :: int
  ai_ValidityDays :: int
  ai_AssignedBy :: int
  ai_Notes :: string

definition new_subscription ::
  "sub_config \<Rightarrow> go_time \<Rightarrow> AssignSubscriptionInput \<Rightarrow> UserSubscription" where
  "new_subscription sc now input =
     \<lparr>s_ID = 0, s_UserID = ai_UserID input, s_GroupID = ai_GroupID input, s_StartsAt = now,
      s_ExpiresAt = clampExpiry (AddDays (sc_cal sc) now (normalizeAssignValidityDays (ai_ValidityDays input))),
      s_Status = SubscriptionStatusActive,
      s_DailyWindowStart = None, s_WeeklyWindowStart = None, s_MonthlyWindowStart = None,
      s_DailyUsageUSD = 0, s_WeeklyUsageUSD = 0, s_MonthlyUsageUSD = 0,
      s_AssignedBy = (if 0 < ai_AssignedBy input then Some (ai_AssignedBy input) else None),
      s_AssignedAt = now, s_Notes = ai_Notes input, s_CreatedAt = now, s_UpdatedAt = now,
      s_DeletedAt = None\<rparr>"

definition createSubscription ::
  "sub_config \<Rightarrow> go_time \<Rightarrow> AssignSubscriptionInput \<Rightarrow> UserSubscription sub_prog" where
  "createSubscription sc now input =
     andthen (repo_Create now (new_subscription sc now input)) repo_GetByID"

definition detectAssignSemanticConflict ::
  "sub_config \<Rightarrow> UserSubscription \<Rightarrow> AssignSubscriptionInput \<Rightarrow> string option" where
  "detectAssignSemanticConflict sc existing input =
     (if s_StartsAt existing \<noteq> zero_time
         \<and> s_ExpiresAt existing \<noteq> clampExpiry (AddDays (sc_cal sc) (s_StartsAt existing)
             (normalizeAssignValidityDays (ai_ValidityDays input)))
      then Some ''validity_days_mismatch''
      else if trim_space (s_Notes existing) \<noteq> trim_space (ai_Notes input) then Some ''notes_mismatch''
      else None)"

text \<open>The check both assignment operations start with.\<close>

definition require_subscription_group :: "int \<Rightarrow> unit sub_prog" where
  "require_subscription_group g =
     andthen (groupRepo_GetByID g)
       (\<lambda>grp. if IsSubscriptionType grp then ret () else throw ErrGroupNotSubscriptionType)"

text \<open>A new row, then the invalidation of what the caches say about its key.\<close>

definition create_and_invalidate ::
  "sub_config \<Rightarrow> go_time \<Rightarrow> AssignSubscriptionInput \<Rightarrow> (UserSubscription \<times> bool) sub_prog" where
  "create_and_invalidate sc now input =
     andthen (createSubscription sc now input) (\<lambda>sub.
     andthen (InvalidateSubCache sc (ai_UserID input) (ai_GroupID input)) (\<lambda>_.
     andthen (notify_billing sc (ai_UserID input) (ai_GroupID input)) (\<lambda>_. ret (sub, False))))"

definition assignSubscriptionWithReuse ::
  "sub_config \<Rightarrow> go_time \<Rightarrow> AssignSubscriptionInput \<Rightarrow> (UserSubscription \<times> bool) sub_prog" where
  "assignSubscriptionWithReuse sc now input =
     andthen (require_subscription_group (ai_GroupID input)) (\<lambda>_.
     andthen (repo_ExistsByUserIDAndGroupID (ai_UserID input) (ai_GroupID input)) (\<lambda>exists.
     if exists
     then andthen (repo_GetByUserIDAndGroupID (ai_UserID input) (ai_GroupID input)) (\<lambda>sub.
            case detectAssignSemanticConflict sc sub input of
              Some reason \<Rightarrow> throw (ErrSubscriptionAssignConflict reason)
            | None \<Rightarrow> ret (sub, True))
     else create_and_invalidate sc now input))"

definition AssignSubscription ::
  "sub_config \<Rightarrow> go_time \<Rightarrow> AssignSubscriptionInput \<Rightarrow> UserSubscription sub_prog" where
  "AssignSubscription sc now input =
     andthen (assignSubscriptionWithReuse sc now input) (\<lambda>(sub, _). ret sub)"

definition updateExistingSubscriptionTerm ::
  "sub_config \<Rightarrow> go_time \<Rightarrow> UserSubscription \<Rightarrow> string \<Rightarrow> go_time \<Rightarrow> go_time \<Rightarrow> bool \<Rightarrow> unit sub_prog" where
  "updateExistingSubscriptionTerm sc now existing notes startsAt newExpiresAt isExpired =
     withSubscriptionUpdateTx sc
       (if isExpired
        then repo_Update now (renewedSubscriptionTerm (sc_cal sc) existing notes startsAt newExpiresAt)
        else andthen (repo_ExtendExpiry now (s_ID existing) newExpiresAt) (\<lambda>_.
             andthen (when_do (s_Status existing \<noteq> SubscriptionStatusActive)
                        (repo_UpdateStatus now (s_ID existing) SubscriptionStatusActive)) (\<lambda>_.
             when_do (notes \<noteq> [])
               (repo_UpdateNotes now (s_ID existing) (appendSubscriptionNotes (s_Notes existing) notes)))))"

definition renewal_expiry :: "sub_config \<Rightarrow> go_time \<Rightarrow> UserSubscription \<Rightarrow> int \<Rightarrow> go_time" where
  "renewal_expiry sc now existing days =
     clampExpiry (AddDays (sc_cal sc)
       (if s_ExpiresAt existing \<le> now then now else s_ExpiresAt existing)
       (normalizeAssignValidityDays days))"

definition AssignOrExtendSubscription ::
  "sub_config \<Rightarrow> go_time \<Rightarrow> AssignSubscriptionInput \<Rightarrow> (UserSubscription \<times> bool) sub_prog" where
  "AssignOrExtendSubscription sc now input =
     andthen (require_subscription_group (ai_GroupID input)) (\<lambda>_.
     andthen (attempt (repo_GetByUserIDAndGroupID (ai_UserID input) (ai_GroupID input))) (\<lambda>found.
     case found of
       Inr existing \<Rightarrow>
         andthen (updateExistingSubscriptionTerm sc now existing (ai_Notes input) now
                    (renewal_expiry sc now existing (ai_ValidityDays input))
                    (s_ExpiresAt existing \<le> now)) (\<lambda>_.
         andthen (InvalidateSubCache sc (ai_UserID input) (ai_GroupID input)) (\<lambda>_.
         andthen (notify_billing sc (ai_UserID input) (ai_GroupID input)) (\<lambda>_.
         andthen (repo_GetByID (s_ID existing)) (\<lambda>sub. ret (sub, True)))))
     | Inl _ \<Rightarrow> create_and_invalidate sc now input))"

section \<open>Bulk assignment\<close>

datatype assign_status = Created | Reused | Failed

record BulkAssignResult =
  br_SuccessCount :: int
  br_CreatedCount :: int
  br_ReusedCount :: int
  br_FailedCount :: int
  br_Subscriptions :: "UserSubscription list"
  br_Errors :: "(int \<times> sub_error) list"
  br_Statuses :: "int \<rightharpoonup> assign_status"

definition empty_bulk :: BulkAssignResult where
  "empty_bulk = \<lparr>br_SuccessCount = 0, br_CreatedCount = 0, br_ReusedCount = 0, br_FailedCount = 0,
     br_Subscriptions = [], br_Errors = [], br_Statuses = Map.empty\<rparr>"

definition bulk_count :: "int \<Rightarrow> sub_error + UserSubscription \<times> bool \<Rightarrow> BulkAssignResult \<Rightarrow> BulkAssignResult" where
  "bulk_count u outcome b = (case outcome of
     Inl e \<Rightarrow> b\<lparr>br_FailedCount := br_FailedCount b + 1, br_Errors := br_Errors b @ [(u, e)],
                br_Statuses := (br_Statuses b)(u \<mapsto> Failed)\<rparr>
   | Inr (sub, reused) \<Rightarrow>
       let b' = b\<lparr>br_SuccessCount := br_SuccessCount b + 1, br_Subscriptions := br_Subscriptions b @ [sub]\<rparr>
       in if reused
          then b'\<lparr>br_ReusedCount := br_ReusedCount b + 1, br_Statuses := (br_Statuses b)(u \<mapsto> Reused)\<rparr>
          else b'\<lparr>br_CreatedCount := br_CreatedCount b + 1, br_Statuses := (br_Statuses b)(u \<mapsto> Created)\<rparr>)"

fun bulk_loop ::
  "sub_config \<Rightarrow> go_time \<Rightarrow> AssignSubscriptionInput \<Rightarrow> int list \<Rightarrow> BulkAssignResult \<Rightarrow> BulkAssignResult sub_prog" where
  "bulk_loop sc now input [] b = ret b"
| "bulk_loop sc now input (u # us) b =
     andthen (attempt (assignSubscriptionWithReuse sc now (input\<lparr>ai_UserID := u\<rparr>)))
       (\<lambda>outcome. bulk_loop sc now input us (bulk_count u outcome b))"

definition BulkAssignSubscription ::
  "sub_config \<Rightarrow> go_time \<Rightarrow> AssignSubscriptionInput \<Rightarrow> int list \<Rightarrow> BulkAssignResult sub_prog" where
  "BulkAssignSubscription sc now input us = bulk_loop sc now input us empty_bulk"

section \<open>Revocation, restoration, extension\<close>

definition RevokeSubscription :: "sub_config \<Rightarrow> go_time \<Rightarrow> int \<Rightarrow> unit sub_prog" where
  "RevokeSubscription sc now i =
     andthen (repo_GetByID i) (\<lambda>sub.
     andthen (repo_Delete now i) (\<lambda>_.
     invalidateSubscriptionCaches sc (s_UserID sub) (s_GroupID sub)))"

definition restored_status :: "go_time \<Rightarrow> UserSubscription \<Rightarrow> string" where
  "restored_status now sub =
     (if s_Status sub = SubscriptionStatusActive \<and> s_ExpiresAt sub \<le> now
      then SubscriptionStatusExpired else s_Status sub)"

definition RestoreSubscription :: "sub_config \<Rightarrow> go_time \<Rightarrow> int \<Rightarrow> UserSubscription sub_prog" where
  "RestoreSubscription sc now i =
     andthen (repo_GetByIDIncludeDeleted i) (\<lambda>sub.
     if s_DeletedAt sub = None then throw ErrSubscriptionNotRevoked
     else andthen (repo_ExistsByUserIDAndGroupID (s_UserID sub) (s_GroupID sub)) (\<lambda>exists.
       if exists then throw ErrSubscriptionRestoreConflict
       else andthen (repo_Restore now i (restored_status now sub)) (\<lambda>restored.
            andthen (invalidateSubscriptionCaches sc (s_UserID restored) (s_GroupID restored))
              (\<lambda>_. ret restored))))"

definition clamp_days :: "int \<Rightarrow> int" where
  "clamp_days days =
     (let d = (if MaxValidityDays < days then MaxValidityDays else days)
      in if d < - MaxValidityDays then - MaxValidityDays else d)"

definition ExtendSubscription :: "sub_config \<Rightarrow> go_time \<Rightarrow> int \<Rightarrow> int \<Rightarrow> UserSubscription sub_prog" where
  "ExtendSubscription sc now i days0 =
     andthen (attempt (repo_GetByID i)) (\<lambda>found.
     case found of
       Inl _ \<Rightarrow> throw ErrSubscriptionNotFound
     | Inr sub \<Rightarrow>
         let days = clamp_days days0; isExpired = s_ExpiresAt sub \<le> now in
         if isExpired \<and> days < 0 then throw ErrCannotShortenExpired
         else
           let newExpiresAt = clampExpiry (AddDays (sc_cal sc) (if isExpired then now else s_ExpiresAt sub) days) in
           if newExpiresAt \<le> now then throw ErrAdjustWouldExpire
           else
             andthen (repo_ExtendExpiry now i newExpiresAt) (\<lambda>_.
             andthen (when_do (s_Status sub = SubscriptionStatusExpired)
                        (repo_UpdateStatus now i SubscriptionStatusActive)) (\<lambda>_.
             andthen (InvalidateSubCache sc (s_UserID sub) (s_GroupID sub)) (\<lambda>_.
             andthen (notify_billing sc (s_UserID sub) (s_GroupID sub)) (\<lambda>_.
             repo_GetByID i)))))"

section \<open>The request path\<close>

definition l1_lookup :: "sub_config \<Rightarrow> string \<Rightarrow> sub_store \<Rightarrow> UserSubscription option" where
  "l1_lookup sc key s = (if sc_l1 sc then st_l1 s key else None)"

definition GetActiveSubscription :: "sub_config \<Rightarrow> go_time \<Rightarrow> int \<Rightarrow> int \<Rightarrow> UserSubscription sub_prog" where
  "GetActiveSubscription sc now u g =
     andthen (inspect (l1_lookup sc (subCacheKey u g))) (\<lambda>hit.
     case hit of
       Some sub \<Rightarrow> ret sub
     | None \<Rightarrow>
         andthen (repo_GetActiveByUserIDAndGroupID now u g) (\<lambda>sub.
         andthen (update (\<lambda>s. if sc_l1 sc then s\<lparr>st_l1 := (st_l1 s)(subCacheKey u g \<mapsto> sub)\<rparr> else s))
           (\<lambda>_. ret sub)))"

definition CheckAndActivateWindow :: "sub_config \<Rightarrow> go_time \<Rightarrow> UserSubscription \<Rightarrow> unit sub_prog" where
  "CheckAndActivateWindow sc now sub =
     (if IsWindowActivated sub then ret ()
      else repo_ActivateWindows now (s_ID sub) (Midnight (sc_cal sc) now))"

definition AdminResetQuota ::
  "sub_config \<Rightarrow> go_time \<Rightarrow> int \<Rightarrow> bool \<Rightarrow> bool \<Rightarrow> bool \<Rightarrow> UserSubscription sub_prog" where
  "AdminResetQuota sc now i resetDaily resetWeekly resetMonthly =
     (if \<not> resetDaily \<and> \<not> resetWeekly \<and> \<not> resetMonthly then throw ErrInvalidInput
      else andthen (repo_GetByID i) (\<lambda>sub.
        let windowStart = Midnight (sc_cal sc) now in
        andthen (when_do resetDaily (repo_ResetDailyUsage now (s_ID sub) windowStart)) (\<lambda>_.
        andthen (when_do resetWeekly (repo_ResetWeeklyUsage now (s_ID sub) windowStart)) (\<lambda>_.
        andthen (when_do resetMonthly (repo_ResetMonthlyUsage now (s_ID sub) windowStart)) (\<lambda>_.
        andthen (InvalidateSubCache sc (s_UserID sub) (s_GroupID sub)) (\<lambda>_.
        andthen (notify_billing sc (s_UserID sub) (s_GroupID sub)) (\<lambda>_.
        repo_GetByID i)))))))"

text \<open>\<open>CheckAndResetWindows\<close> writes each due window to the table and then to the caller's copy,
  which it returns; an error stops it.\<close>

definition reset_window ::
  "bool \<Rightarrow> unit sub_prog \<Rightarrow> (UserSubscription \<Rightarrow> UserSubscription) \<Rightarrow> UserSubscription \<Rightarrow> UserSubscription sub_prog" where
  "reset_window due write local sub =
     (if due then andthen write (\<lambda>_. ret (local sub)) else ret sub)"

definition CheckAndResetWindows :: "sub_config \<Rightarrow> go_time \<Rightarrow> UserSubscription \<Rightarrow> UserSubscription sub_prog" where
  "CheckAndResetWindows sc now sub =
     (let ws = Midnight (sc_cal sc) now;
          daily = NeedsDailyResetAt (sc_cal sc) now sub;
          weekly = NeedsWeeklyReset now sub;
          monthly = NeedsMonthlyReset now sub
      in andthen (reset_window daily (repo_ResetDailyUsage now (s_ID sub) ws)
                    (\<lambda>r. r\<lparr>s_DailyWindowStart := Some ws, s_DailyUsageUSD := 0\<rparr>) sub) (\<lambda>sub1.
         andthen (reset_window weekly (repo_ResetWeeklyUsage now (s_ID sub) ws)
                    (\<lambda>r. r\<lparr>s_WeeklyWindowStart := Some ws, s_WeeklyUsageUSD := 0\<rparr>) sub1) (\<lambda>sub2.
         andthen (reset_window monthly (repo_ResetMonthlyUsage now (s_ID sub) ws)
                    (\<lambda>r. r\<lparr>s_MonthlyWindowStart := Some ws, s_MonthlyUsageUSD := 0\<rparr>) sub2) (\<lambda>sub3.
         if daily \<or> weekly \<or> monthly
         then andthen (InvalidateSubCache sc (s_UserID sub) (s_GroupID sub)) (\<lambda>_.
              andthen (notify_billing sc (s_UserID sub) (s_GroupID sub)) (\<lambda>_. ret sub3))
         else ret sub3))))"

definition doWindowMaintenance :: "sub_config \<Rightarrow> go_time \<Rightarrow> UserSubscription \<Rightarrow> unit sub_prog" where
  "doWindowMaintenance sc now sub =
     andthen (when_do (\<not> IsWindowActivated sub)
                (andthen (attempt (CheckAndActivateWindow sc now sub)) (\<lambda>_. ret ()))) (\<lambda>_.
     andthen (attempt (CheckAndResetWindows sc now sub)) (\<lambda>_.
     InvalidateSubCache sc (s_UserID sub) (s_GroupID sub)))"

definition RecordUsage :: "go_time \<Rightarrow> int \<Rightarrow> rat \<Rightarrow> unit sub_prog" where
  "RecordUsage now i costUSD = repo_IncrementUsage now i costUSD"

definition ValidateSubscription :: "go_time \<Rightarrow> UserSubscription \<Rightarrow> unit sub_prog" where
  "ValidateSubscription now sub =
     (if s_Status sub = SubscriptionStatusExpired then throw ErrSubscriptionExpired
      else if s_Status sub = SubscriptionStatusSuspended then throw ErrSubscriptionSuspended
      else if Sub_IsExpired now sub
      then andthen (attempt (repo_UpdateStatus now (s_ID sub) SubscriptionStatusExpired))
             (\<lambda>_. throw ErrSubscriptionExpired)
      else ret ())"

definition GetSubscriptionProgress ::
  "sub_config \<Rightarrow> go_time \<Rightarrow> int \<Rightarrow> SubscriptionProgress sub_prog" where
  "GetSubscriptionProgress sc now i =
     andthen (attempt (repo_GetByID i)) (\<lambda>found.
     case found of
       Inl _ \<Rightarrow> throw ErrSubscriptionNotFound
     | Inr sub \<Rightarrow> andthen (groupRepo_GetByID (s_GroupID sub)) (\<lambda>grp.
         ret (calculateProgress (sc_cal sc) now sub grp)))"

end
