(* ===== verification/SubscriptionInvariants.thy ===== *)
theory SubscriptionInvariants
  imports SubscriptionService
begin

text \<open>
  What every reachable state of the subscription store keeps. \<open>sub_step\<close> is one operation of the
  service, a periodic task, the expiry of a cache entry or a change of the database's failure
  pattern; the invariant says that identifiers are unique, that a user has at most one live
  subscription per group, that no term ends after 2099, that no usage is negative, and that a
  subscription cached under a key belongs to that key's user and group.
\<close>

section \<open>The table\<close>

lemma preserves_InvalidateSubCache [preserves]: "preserves table_inv (InvalidateSubCache sc u g)"
  unfolding InvalidateSubCache_def by (rule preserves_update) simp

lemma preserves_billing [preserves]:
  "preserves table_inv (billing_InvalidateSubscription u g)"
  "preserves table_inv (billing_Publish key)"
  unfolding billing_InvalidateSubscription_def billing_Publish_def
  by (rule preserves_db, rule preserves_update, simp)+

lemma preserves_notify_billing [preserves]: "preserves table_inv (notify_billing sc u g)"
  unfolding notify_billing_def by (intro preserves)

lemma preserves_invalidate_caches [preserves]:
  "preserves table_inv (invalidateSubscriptionCaches sc u g)"
  unfolding invalidateSubscriptionCaches_def by (intro preserves)

text \<open>A rollback restores the rows; identifiers handed out meanwhile are not handed out again.\<close>

definition keeps_next_id :: "'a sub_prog \<Rightarrow> bool" where
  "keeps_next_id m \<longleftrightarrow> (\<forall>n. preserves (\<lambda>s. n \<le> st_next_id s) m)"

lemma table_inv_rollback:
  "table_inv s \<Longrightarrow> st_next_id s \<le> st_next_id s' \<Longrightarrow> table_inv (s'\<lparr>st_rows := st_rows s\<rparr>)"
  by (fastforce simp: table_inv_def)

lemma keeps_next_id_db: "keeps_next_id m \<Longrightarrow> keeps_next_id (db m)"
  unfolding keeps_next_id_def db_def by (auto intro!: preserves_remote)

lemma keeps_next_id_updates:
  "keeps_next_id (repo_update i f)" "keeps_next_id (repo_Update now sub)"
  unfolding repo_update_def repo_Update_def
  by (rule keeps_next_id_db, simp add: keeps_next_id_def preserves_def split: option.split)+

lemma keeps_next_id_comb:
  "keeps_next_id m \<Longrightarrow> (\<And>a. keeps_next_id (f a)) \<Longrightarrow> keeps_next_id (andthen m f)"
  "keeps_next_id n \<Longrightarrow> keeps_next_id (when_do b n)"
  "keeps_next_id m \<Longrightarrow> keeps_next_id k \<Longrightarrow> keeps_next_id (if b then m else k)"
  by (auto simp: keeps_next_id_def intro!: preserves_andthen preserves_when_do)

lemma db_ret_state: "db (ret ()) s = (r, s') \<Longrightarrow> \<exists>bs. s' = s\<lparr>st_faults := bs\<rparr>"
  by (auto simp: db_def remote_def ret_def split: list.splits if_splits)
    (metis sub_store.surjective sub_store.update_convs(6))+

lemma preserves_withTx:
  assumes "preserves table_inv m" and "keeps_next_id m"
  shows "preserves table_inv (withSubscriptionUpdateTx sc m)"
proof (cases "sc_tx sc")
  case True
  have "preserves table_inv (\<lambda>s. case m s of
          (Inl e, s') \<Rightarrow> (Inl e, s'\<lparr>st_rows := st_rows s\<rparr>)
        | (Inr a, s') \<Rightarrow>
            (case db (ret ()) s' of
               (Inl e, s'') \<Rightarrow> (Inl e, s''\<lparr>st_rows := st_rows s\<rparr>)
             | (Inr _, s'') \<Rightarrow> (Inr a, s'')))"
  proof (rule preservesI)
    fix s assume inv: "table_inv s"
    obtain r s' where m: "m s = (r, s')" by (cases "m s")
    have s': "table_inv s'" "st_next_id s \<le> st_next_id s'"
      using assms inv m unfolding keeps_next_id_def preserves_def by (metis snd_conv, metis order_refl snd_conv)
    obtain c s'' where c: "db (ret ()) s' = (c, s'')" by (cases "db (ret ()) s'")
    from db_ret_state [OF c] obtain bs where "s'' = s'\<lparr>st_faults := bs\<rparr>" by blast
    with s' inv m c show "table_inv (snd (case m s of
          (Inl e, s') \<Rightarrow> (Inl e, s'\<lparr>st_rows := st_rows s\<rparr>)
        | (Inr a, s') \<Rightarrow>
            (case db (ret ()) s' of
               (Inl e, s'') \<Rightarrow> (Inl e, s''\<lparr>st_rows := st_rows s\<rparr>)
             | (Inr _, s'') \<Rightarrow> (Inr a, s''))))"
      by (auto split: sum.split intro!: table_inv_rollback)
  qed
  with True show ?thesis
    unfolding withSubscriptionUpdateTx_def by (simp add: preserves_andthen preserves_db preserves_ret)
qed (simp add: withSubscriptionUpdateTx_def assms)

lemma row_ok_new: "row_ok (new_subscription sc now input)"
  by (simp add: row_ok_def new_subscription_def clampExpiry_le)

lemma row_ok_renewed: "t \<le> MaxExpiresAt \<Longrightarrow> row_ok (renewedSubscriptionTerm cal r notes now t)"
  by (simp add: row_ok_def renewedSubscriptionTerm_def Let_def)

lemma preserves_require_group [preserves]: "preserves table_inv (require_subscription_group g)"
  unfolding require_subscription_group_def by (intro preserves)

lemma preserves_create [preserves]: "preserves table_inv (create_and_invalidate sc now input)"
  unfolding create_and_invalidate_def createSubscription_def by (intro preserves row_ok_new)

lemma preserves_updateTerm [preserves]:
  assumes "t \<le> MaxExpiresAt"
  shows "preserves table_inv (updateExistingSubscriptionTerm sc now r notes now' t b)"
  unfolding updateExistingSubscriptionTerm_def
proof (rule preserves_withTx)
  show "preserves table_inv (if b then repo_Update now (renewedSubscriptionTerm (sc_cal sc) r notes now' t)
     else andthen (repo_ExtendExpiry now (s_ID r) t) (\<lambda>_.
          andthen (when_do (s_Status r \<noteq> SubscriptionStatusActive)
                     (repo_UpdateStatus now (s_ID r) SubscriptionStatusActive)) (\<lambda>_.
          when_do (notes \<noteq> []) (repo_UpdateNotes now (s_ID r) (appendSubscriptionNotes (s_Notes r) notes)))))"
    by (intro preserves row_ok_renewed assms)
  show "keeps_next_id (if b then repo_Update now (renewedSubscriptionTerm (sc_cal sc) r notes now' t)
     else andthen (repo_ExtendExpiry now (s_ID r) t) (\<lambda>_.
          andthen (when_do (s_Status r \<noteq> SubscriptionStatusActive)
                     (repo_UpdateStatus now (s_ID r) SubscriptionStatusActive)) (\<lambda>_.
          when_do (notes \<noteq> []) (repo_UpdateNotes now (s_ID r) (appendSubscriptionNotes (s_Notes r) notes)))))"
    unfolding repo_ExtendExpiry_def repo_UpdateStatus_def repo_UpdateNotes_def
    by (intro keeps_next_id_comb keeps_next_id_updates)
qed

lemma renewal_expiry_le [simp]: "renewal_expiry sc now r d \<le> MaxExpiresAt"
  by (simp add: renewal_expiry_def clampExpiry_le)

lemma preserves_assign [preserves]:
  "preserves table_inv (assignSubscriptionWithReuse sc now input)"
  "preserves table_inv (AssignSubscription sc now input)"
  "preserves table_inv (AssignOrExtendSubscription sc now input)"
  unfolding AssignSubscription_def assignSubscriptionWithReuse_def AssignOrExtendSubscription_def
  by (intro preserves renewal_expiry_le)+

lemma preserves_bulk [preserves]: "preserves table_inv (bulk_loop sc now input us b)"
  by (induction us arbitrary: b) (auto intro: preserves)

lemma preserves_admin [preserves]:
  "preserves table_inv (BulkAssignSubscription sc now input us)"
  "preserves table_inv (RevokeSubscription sc now i)"
  "preserves table_inv (RestoreSubscription sc now i)"
  "preserves table_inv (AdminResetQuota sc now i d w m)"
  unfolding BulkAssignSubscription_def RevokeSubscription_def RestoreSubscription_def AdminResetQuota_def
  by (intro preserves)+

lemma preserves_extend [preserves]: "preserves table_inv (ExtendSubscription sc now i days)"
  unfolding ExtendSubscription_def Let_def by (intro preserves clampExpiry_le)

lemma preserves_windows [preserves]:
  "preserves table_inv (CheckAndActivateWindow sc now sub)"
  "preserves table_inv (CheckAndResetWindows sc now sub)"
  "preserves table_inv (doWindowMaintenance sc now sub)"
  unfolding doWindowMaintenance_def CheckAndActivateWindow_def CheckAndResetWindows_def
    reset_window_def Let_def
  by (intro preserves)+

lemma preserves_request [preserves]:
  "preserves table_inv (GetActiveSubscription sc now u g)"
  "preserves table_inv (ValidateSubscription now sub)"
  "0 \<le> cost \<Longrightarrow> preserves table_inv (RecordUsage now i cost)"
  unfolding GetActiveSubscription_def ValidateSubscription_def RecordUsage_def
  by (intro preserves preserves_update | simp)+

section \<open>The process-local cache\<close>

definition l1_ok :: "sub_store \<Rightarrow> bool" where
  "l1_ok s \<longleftrightarrow> (\<forall>k r. st_l1 s k = Some r \<longrightarrow> k = subCacheKey (s_UserID r) (s_GroupID r))"

lemma colon_not_digit: "CHR '':'' \<notin> set (format_int n)"
proof
  assume "CHR '':'' \<in> set (format_int n)"
  then have "CHR '':'' \<in> set (format_nat (nat n)) \<or> CHR '':'' \<in> set (format_nat (nat (- n)))"
    by (auto simp: format_int_def split: if_splits)
  then show False using set_format_nat by (fastforce simp: byte_of_def)
qed

lemma subCacheKey_inj: "subCacheKey u g = subCacheKey u' g' \<longleftrightarrow> u = u' \<and> g = g'"
proof
  assume "subCacheKey u g = subCacheKey u' g'"
  then have "format_int u @ CHR '':'' # format_int g = format_int u' @ CHR '':'' # format_int g'"
    by (simp add: subCacheKey_def)
  with split_at_unique [OF _ colon_not_digit colon_not_digit] show "u = u' \<and> g = g'" by fastforce
qed simp

lemma l1_ok_key:
  assumes "l1_ok s" and "st_l1 s (subCacheKey u g) = Some r"
  shows "s_UserID r = u \<and> s_GroupID r = g"
proof -
  from assms have "subCacheKey u g = subCacheKey (s_UserID r) (s_GroupID r)"
    by (simp add: l1_ok_def)
  then show ?thesis by (simp add: subCacheKey_inj)
qed

lemma l1_ok_other [simp]:
  "l1_ok (s\<lparr>st_rows := rows\<rparr>) = l1_ok s" "l1_ok (s\<lparr>st_next_id := n\<rparr>) = l1_ok s"
  "l1_ok (s\<lparr>st_faults := bs\<rparr>) = l1_ok s" "l1_ok (s\<lparr>st_events := es\<rparr>) = l1_ok s"
  by (simp_all add: l1_ok_def)

lemma l1_ok_forget: "l1_ok s \<Longrightarrow> l1_ok (s\<lparr>st_l1 := (st_l1 s)(k := None)\<rparr>)"
  by (simp add: l1_ok_def)

lemma l1_db [preserves]: "preserves l1_ok m \<Longrightarrow> preserves l1_ok (db m)"
  unfolding db_def by (rule preserves_remote) simp_all

lemma l1_repo [preserves]:
  "preserves l1_ok (repo_query P)" "preserves l1_ok (repo_update i f)"
  "preserves l1_ok (repo_Create now sub)" "preserves l1_ok (repo_Update now sub)"
  "preserves l1_ok (repo_Delete now i)" "preserves l1_ok (repo_DeleteByGroupID now g)"
  "preserves l1_ok (repo_BatchUpdateExpiredStatus now)" "preserves l1_ok (repo_IncrementUsage now i cost)"
  "preserves l1_ok (repo_GetByIDIncludeDeleted i)" "preserves l1_ok (groupRepo_GetByID g)"
  "preserves l1_ok (repo_ExistsByUserIDAndGroupID u g)"
  unfolding repo_query_def repo_update_def repo_Create_def repo_Update_def repo_Delete_def
    repo_DeleteByGroupID_def repo_BatchUpdateExpiredStatus_def repo_IncrementUsage_def
    repo_GetByIDIncludeDeleted_def groupRepo_GetByID_def repo_ExistsByUserIDAndGroupID_def
  by (rule l1_db, rule preservesI, simp add: Let_def inspect_def split: option.split)+

lemma l1_repo_derived [preserves]:
  "preserves l1_ok (repo_GetByID i)" "preserves l1_ok (repo_GetByUserIDAndGroupID u g)"
  "preserves l1_ok (repo_GetActiveByUserIDAndGroupID now u g)"
  "preserves l1_ok (repo_ExtendExpiry now i t)" "preserves l1_ok (repo_UpdateStatus now i st)"
  "preserves l1_ok (repo_UpdateNotes now i notes)" "preserves l1_ok (repo_ActivateWindows now i ws)"
  "preserves l1_ok (repo_ResetDailyUsage now i ws)" "preserves l1_ok (repo_ResetWeeklyUsage now i ws)"
  "preserves l1_ok (repo_ResetMonthlyUsage now i ws)"
  unfolding repo_GetByID_def repo_GetByUserIDAndGroupID_def repo_GetActiveByUserIDAndGroupID_def
    repo_ExtendExpiry_def repo_UpdateStatus_def repo_UpdateNotes_def repo_ActivateWindows_def
    repo_ResetDailyUsage_def repo_ResetWeeklyUsage_def repo_ResetMonthlyUsage_def
  by (rule l1_repo)+

lemma l1_Restore [preserves]: "preserves l1_ok (repo_Restore now i st)"
  unfolding repo_Restore_def
  by (intro preserves_andthen l1_db l1_repo_derived, rule preservesI, simp split: option.split)

lemma l1_caches [preserves]:
  "preserves l1_ok (InvalidateSubCache sc u g)"
  "preserves l1_ok (billing_InvalidateSubscription u g)" "preserves l1_ok (billing_Publish key)"
  unfolding InvalidateSubCache_def billing_InvalidateSubscription_def billing_Publish_def
  by (rule l1_db preserves_update | simp add: l1_ok_forget)+

lemma l1_notify [preserves]:
  "preserves l1_ok (notify_billing sc u g)" "preserves l1_ok (invalidateSubscriptionCaches sc u g)"
  unfolding notify_billing_def invalidateSubscriptionCaches_def by (intro preserves)+

lemma l1_withTx [preserves]:
  assumes "preserves l1_ok m" shows "preserves l1_ok (withSubscriptionUpdateTx sc m)"
proof -
  have "preserves l1_ok (\<lambda>s. case m s of
          (Inl e, s') \<Rightarrow> (Inl e, s'\<lparr>st_rows := st_rows s\<rparr>)
        | (Inr a, s') \<Rightarrow>
            (case db (ret ()) s' of
               (Inl e, s'') \<Rightarrow> (Inl e, s''\<lparr>st_rows := st_rows s\<rparr>)
             | (Inr _, s'') \<Rightarrow> (Inr a, s'')))"
    using assms db_ret_state by (fastforce simp: preserves_def split: prod.split sum.split)
  with assms show ?thesis
    unfolding withSubscriptionUpdateTx_def by (auto intro!: preserves_andthen l1_db preserves_ret)
qed

lemma l1_assign [preserves]:
  "preserves l1_ok (create_and_invalidate sc now input)"
  "preserves l1_ok (require_subscription_group g)"
  "preserves l1_ok (updateExistingSubscriptionTerm sc now r notes now' t b)"
  unfolding create_and_invalidate_def createSubscription_def require_subscription_group_def
    updateExistingSubscriptionTerm_def
  by (intro preserves)+

lemma l1_service [preserves]:
  "preserves l1_ok (assignSubscriptionWithReuse sc now input)"
  "preserves l1_ok (AssignOrExtendSubscription sc now input)"
  "preserves l1_ok (RevokeSubscription sc now i)" "preserves l1_ok (RestoreSubscription sc now i)"
  "preserves l1_ok (AdminResetQuota sc now i d w m)"
  "preserves l1_ok (ExtendSubscription sc now i days)"
  "preserves l1_ok (ValidateSubscription now sub)" "preserves l1_ok (RecordUsage now i cost)"
  unfolding assignSubscriptionWithReuse_def AssignOrExtendSubscription_def RevokeSubscription_def
    RestoreSubscription_def AdminResetQuota_def ExtendSubscription_def ValidateSubscription_def
    RecordUsage_def Let_def
  by (intro preserves)+

lemma l1_bulk [preserves]: "preserves l1_ok (bulk_loop sc now input us b)"
  by (induction us arbitrary: b) (auto intro: preserves)

lemma l1_windows [preserves]: "preserves l1_ok (doWindowMaintenance sc now sub)"
  unfolding doWindowMaintenance_def CheckAndActivateWindow_def CheckAndResetWindows_def
    reset_window_def Let_def
  by (intro preserves)

lemma db_cases:
  obtains (fault) bs where "db m s = (Inl ErrStore, s\<lparr>st_faults := bs\<rparr>)"
  | (ok) bs where "db m s = m (s\<lparr>st_faults := bs\<rparr>)"
proof (cases "st_faults s")
  case Nil
  then have eq: "s\<lparr>st_faults := []\<rparr> = s" by (cases s) simp
  from Nil have "db m s = m s" by (simp add: db_def remote_def)
  then have "db m s = m (s\<lparr>st_faults := []\<rparr>)" by (simp only: eq)
  with ok show thesis by blast
next
  case (Cons b bs)
  with fault [of bs] ok [of bs] show thesis by (cases b) (simp_all add: db_def remote_def)
qed

lemma repo_query_result:
  assumes "repo_query P s = (Inr r, s')"
  shows "r \<in> set (st_rows s) \<and> live r \<and> P r \<and> (\<exists>bs. s' = s\<lparr>st_faults := bs\<rparr>)"
  using assms unfolding repo_query_def
  by (cases rule: db_cases [of "\<lambda>s. case lookup_live P (st_rows s) of
       None \<Rightarrow> (Inl ErrSubscriptionNotFound, s) | Some r \<Rightarrow> (Inr r, s)" s])
    (auto simp: lookup_live_def find_Some_iff split: option.splits)

lemma GetActiveSubscription_cases:
  assumes "GetActiveSubscription sc now u g s = (Inr r, s')" and "l1_ok s"
  shows "s_UserID r = u \<and> s_GroupID r = g \<and> l1_ok s'"
proof (cases "l1_lookup sc (subCacheKey u g) s")
  case None
  with assms(1) obtain s1 where q: "repo_GetActiveByUserIDAndGroupID now u g s = (Inr r, s1)"
    and s': "s' = (if sc_l1 sc then s1\<lparr>st_l1 := (st_l1 s1)(subCacheKey u g \<mapsto> r)\<rparr> else s1)"
    by (auto simp: GetActiveSubscription_def run split: prod.splits sum.splits)
  from repo_query_result [OF q [unfolded repo_GetActiveByUserIDAndGroupID_def]]
  have "s_UserID r = u" "s_GroupID r = g" "l1_ok s1" using assms(2) by auto
  with s' show ?thesis by (auto simp: l1_ok_def)
next
  case (Some sub)
  with assms have "sub = r" "s' = s" "st_l1 s (subCacheKey u g) = Some r"
    by (auto simp: GetActiveSubscription_def run l1_lookup_def split: if_splits)
  with l1_ok_key [OF assms(2)] assms(2) show ?thesis by simp
qed

lemma l1_GetActive [preserves]: "preserves l1_ok (GetActiveSubscription sc now u g)"
proof (rule preservesI)
  fix s assume l1: "l1_ok s"
  show "l1_ok (snd (GetActiveSubscription sc now u g s))"
  proof (cases "fst (GetActiveSubscription sc now u g s)")
    case (Inr r)
    with GetActiveSubscription_cases [OF _ l1, of sc now u g r] show ?thesis
      by (metis prod.collapse)
  next
    case (Inl e)
    with preservesD [OF l1_repo_derived(3) l1, of now u g] l1 show ?thesis
      by (auto simp: GetActiveSubscription_def run split: prod.splits sum.splits option.splits)
  qed
qed

section \<open>Reachable states\<close>

text \<open>One step of the system. \<open>FailurePattern\<close> sets which of the next database calls fail;
  \<open>CacheExpiry\<close> is the end of a cached entry's lifetime; \<open>GroupChange\<close> is an edit of the
  groups.\<close>

inductive sub_step :: "sub_config \<Rightarrow> sub_store \<Rightarrow> sub_store \<Rightarrow> bool" for sc :: sub_config where
  Assign: "sub_step sc s (snd (assignSubscriptionWithReuse sc now input s))"
| AssignOrExtend: "sub_step sc s (snd (AssignOrExtendSubscription sc now input s))"
| BulkAssign: "sub_step sc s (snd (BulkAssignSubscription sc now input users s))"
| Revoke: "sub_step sc s (snd (RevokeSubscription sc now i s))"
| Restore: "sub_step sc s (snd (RestoreSubscription sc now i s))"
| Extend: "sub_step sc s (snd (ExtendSubscription sc now i days s))"
| Lookup: "sub_step sc s (snd (GetActiveSubscription sc now u g s))"
| ResetQuota: "sub_step sc s (snd (AdminResetQuota sc now i daily weekly monthly s))"
| Maintain: "sub_step sc s (snd (doWindowMaintenance sc now sub s))"
| Validate: "sub_step sc s (snd (ValidateSubscription now sub s))"
| Record: "0 \<le> cost \<Longrightarrow> sub_step sc s (snd (RecordUsage now i cost s))"
| ExpireBatch: "sub_step sc s (snd (repo_BatchUpdateExpiredStatus now s))"
| GroupDeleted: "sub_step sc s (snd (repo_DeleteByGroupID now g s))"
| FailurePattern: "sub_step sc s (s\<lparr>st_faults := bs\<rparr>)"
| CacheExpiry: "sub_step sc s (s\<lparr>st_l1 := (st_l1 s)(k := None)\<rparr>)"
| GroupChange: "sub_step sc s (s\<lparr>st_groups := gs\<rparr>)"

inductive sub_reachable :: "sub_config \<Rightarrow> sub_store \<Rightarrow> sub_store \<Rightarrow> bool" for sc :: sub_config and s0 :: sub_store where
  Start: "sub_reachable sc s0 s0"
| Step: "sub_reachable sc s0 s \<Longrightarrow> sub_step sc s s' \<Longrightarrow> sub_reachable sc s0 s'"

lemma table_inv_groups [simp]: "table_inv (s\<lparr>st_groups := gs\<rparr>) = table_inv s"
  "l1_ok (s\<lparr>st_groups := gs\<rparr>) = l1_ok s"
  by (simp_all add: table_inv_def l1_ok_def)

lemma sub_step_inv:
  assumes "sub_step sc s s'" and "table_inv s \<and> l1_ok s"
  shows "table_inv s' \<and> l1_ok s'"
  using assms
proof (induction rule: sub_step.induct)
  case (BulkAssign s now input users)
  then show ?case
    unfolding BulkAssignSubscription_def
    using preservesD [OF preserves_bulk] preservesD [OF l1_bulk] by blast
qed (simp_all add: preservesD preserves l1_ok_forget)

lemma sub_reachable_inv:
  assumes "sub_reachable sc s0 s" and "table_inv s0" and "l1_ok s0"
  shows "table_inv s \<and> l1_ok s"
  using assms by (induction rule: sub_reachable.induct) (use sub_step_inv in blast)+

text \<open>C36: in every state reached from a store without rows by any operations, at any instants, with
  any pattern of database failures and cache expiries: identifiers are unique; a user has at most one
  live subscription per group; every term ends by the latest representable expiry; no usage column
  is negative; and what the cache holds under the key of a user and a group is a subscription of
  that user and group.\<close>

theorem reachable_subscriptions_ok:
  assumes "sub_reachable sc s0 s" and "st_rows s0 = []" and "st_l1 s0 = Map.empty"
  shows "distinct (map s_ID (st_rows s))
    \<and> (\<forall>r \<in> set (st_rows s). \<forall>q \<in> set (st_rows s). live r \<longrightarrow> live q \<longrightarrow>
         s_UserID r = s_UserID q \<longrightarrow> s_GroupID r = s_GroupID q \<longrightarrow> r = q)
    \<and> (\<forall>r \<in> set (st_rows s). s_ExpiresAt r \<le> MaxExpiresAt \<and> 0 \<le> s_DailyUsageUSD r
         \<and> 0 \<le> s_WeeklyUsageUSD r \<and> 0 \<le> s_MonthlyUsageUSD r)
    \<and> (\<forall>u g r. st_l1 s (subCacheKey u g) = Some r \<longrightarrow> s_UserID r = u \<and> s_GroupID r = g)"
proof -
  have "table_inv s0" "l1_ok s0"
    using assms by (simp_all add: table_inv_def l1_ok_def live_keys_def)
  with sub_reachable_inv [OF assms(1)] have inv: "table_inv s" "l1_ok s" by auto
  have "r = q" if "r \<in> set (st_rows s)" "q \<in> set (st_rows s)" "live r" "live q"
    "s_UserID r = s_UserID q" "s_GroupID r = s_GroupID q" for r q
    using inv(1) that by (auto simp: table_inv_def live_keys_def distinct_map inj_on_def)
  with inv show ?thesis
    by (auto simp: table_inv_def row_ok_def dest: l1_ok_key)
qed

definition example_store :: sub_store where
  "example_store = \<lparr>st_rows = [], st_next_id = 1, st_groups = [(7, example_group)],
     st_l1 = Map.empty, st_events = [], st_faults = []\<rparr>"

definition example_config :: sub_config where
  "example_config = \<lparr>sc_cal = fixed_zone 0, sc_l1 = True, sc_billing = True, sc_tx = True\<rparr>"

definition example_input :: AssignSubscriptionInput where
  "example_input = \<lparr>ai_UserID = 5, ai_GroupID = 7, ai_ValidityDays = 30, ai_AssignedBy = 1,
     ai_Notes = ''vip''\<rparr>"

lemma reachable_subscriptions_ok_witness:
  "distinct (map s_ID (st_rows (snd (assignSubscriptionWithReuse example_config hour example_input
     (snd (AssignOrExtendSubscription example_config 0 example_input example_store))))))"
  by (rule conjunct1 [OF reachable_subscriptions_ok [of example_config example_store]])
    (rule Step [OF Step [OF Start AssignOrExtend] Assign], simp_all add: example_store_def)

end
