(* ===== verification/SubscriptionRenewal.thy ===== *)
theory SubscriptionRenewal
  imports SubscriptionInvariants
begin

text \<open>
  What assignment and renewal do to the table. The laws the program relies on of the calendar are
  two locales: \<open>forward_calendar\<close> (adding days moves forward, a day's midnight is not after its
  instants) and \<open>even_calendar\<close> (no day is longer than 24 hours); both hold of every zone with a
  fixed offset.
\<close>

section \<open>The calendar\<close>

locale forward_calendar =
  fixes cal :: calendar
  assumes AddDays_forward: "1 \<le> n \<Longrightarrow> t < AddDays cal t n"
    and Midnight_le: "Midnight cal t \<le> t"
begin

lemma renewal_later:
  assumes "sc_cal sc = cal" and "s_ExpiresAt r \<le> MaxExpiresAt" and "now < MaxExpiresAt"
  shows "s_ExpiresAt r \<le> renewal_expiry sc now r days \<and> now < renewal_expiry sc now r days"
proof -
  let ?t = "if s_ExpiresAt r \<le> now then now else s_ExpiresAt r"
  have "?t < AddDays cal ?t (normalizeAssignValidityDays days)"
    using normalizeAssignValidityDays_range AddDays_forward by blast
  with assms show ?thesis
    by (auto simp: renewal_expiry_def clampExpiry_def)
qed

end

locale even_calendar = forward_calendar +
  assumes day_length: "t < Midnight cal t + 24 * hour"
begin

lemma fresh_window_not_due:
  "\<not> Midnight cal now + 24 * hour \<le> now" "\<not> 7 * 24 * hour \<le> now - Midnight cal now"
  "\<not> 30 * 24 * hour \<le> now - Midnight cal now"
  using day_length [of now] by simp_all

end

lemma floor_day: "(x::int) div (24 * hour) * (24 * hour) \<le> x" "x < x div (24 * hour) * (24 * hour) + 24 * hour"
  using minus_mod_eq_div_mult [of x "24 * hour"] pos_mod_bound [of "24 * hour" x]
    pos_mod_sign [of "24 * hour" x] by linarith+

interpretation fixed_offset: even_calendar "fixed_zone off" for off
proof
  fix t n :: int
  assume "1 \<le> n" then show "t < AddDays (fixed_zone off) t n"
    by (simp add: fixed_zone_def)
next
  fix t
  show "Midnight (fixed_zone off) t \<le> t" "t < Midnight (fixed_zone off) t + 24 * hour"
    using floor_day [of "t + off"] by (simp_all add: fixed_zone_def)
qed

section \<open>Running the store without failures\<close>

named_theorems ok_run \<open>store operations when no call fails\<close>

lemma db_ok [ok_run]: "st_faults s = [] \<Longrightarrow> db m s = m s"
  by (simp add: db_def remote_def)

lemma query_ok [ok_run]:
  "st_faults s = [] \<Longrightarrow> repo_query P s =
     (case lookup_live P (st_rows s) of None \<Rightarrow> Inl ErrSubscriptionNotFound | Some r \<Rightarrow> Inr r, s)"
  by (simp add: repo_query_def db_ok split: option.split)

lemma update_ok [ok_run]:
  "st_faults s = [] \<Longrightarrow> has_row i (st_rows s) \<Longrightarrow>
     repo_update i f s = (Inr (), s\<lparr>st_rows := update_row i f (st_rows s)\<rparr>)"
  by (simp add: repo_update_def db_ok)

lemma require_group_ok [ok_run]:
  "st_faults s = [] \<Longrightarrow> map_of (st_groups s) g = Some grp \<Longrightarrow> IsSubscriptionType grp \<Longrightarrow>
     require_subscription_group g s = (Inr (), s)"
  by (simp add: require_subscription_group_def groupRepo_GetByID_def run ok_run)

lemma exists_ok [ok_run]:
  "st_faults s = [] \<Longrightarrow> repo_ExistsByUserIDAndGroupID u g s =
     (Inr (lookup_live (\<lambda>r. s_UserID r = u \<and> s_GroupID r = g) (st_rows s) \<noteq> None), s)"
  by (simp add: repo_ExistsByUserIDAndGroupID_def run ok_run)

text \<open>The invalidations change nothing but the cache and the events.\<close>

definition forgotten :: "sub_config \<Rightarrow> int \<Rightarrow> int \<Rightarrow> sub_store \<Rightarrow> sub_store" where
  "forgotten sc u g s =
     (if sc_l1 sc then s\<lparr>st_l1 := (st_l1 s)(subCacheKey u g := None)\<rparr> else s)"

definition notified :: "sub_config \<Rightarrow> int \<Rightarrow> int \<Rightarrow> sub_store \<Rightarrow> sub_store" where
  "notified sc u g s =
     (if sc_billing sc then s\<lparr>st_events := st_events s @ [InvalidateBilling u g]\<rparr> else s)"

abbreviation invalidated :: "sub_config \<Rightarrow> int \<Rightarrow> int \<Rightarrow> sub_store \<Rightarrow> sub_store" where
  "invalidated sc u g s \<equiv> notified sc u g (forgotten sc u g s)"

lemma invalidated_simps [simp]:
  "st_rows (forgotten sc u g s) = st_rows s" "st_rows (notified sc u g s) = st_rows s"
  "st_faults (forgotten sc u g s) = st_faults s" "st_faults (notified sc u g s) = st_faults s"
  "st_groups (forgotten sc u g s) = st_groups s" "st_groups (notified sc u g s) = st_groups s"
  "st_next_id (forgotten sc u g s) = st_next_id s" "st_next_id (notified sc u g s) = st_next_id s"
  by (simp_all add: forgotten_def notified_def)

lemma InvalidateSubCache_run [ok_run]: "InvalidateSubCache sc u g s = (Inr (), forgotten sc u g s)"
  by (simp add: InvalidateSubCache_def forgotten_def run)

lemma notify_ok [ok_run]: "st_faults s = [] \<Longrightarrow> notify_billing sc u g s = (Inr (), notified sc u g s)"
  by (simp add: notify_billing_def billing_InvalidateSubscription_def notified_def run ok_run)

lemma find_unique:
  assumes "r \<in> set rows" and "P r" and "\<And>q. q \<in> set rows \<Longrightarrow> P q \<Longrightarrow> q = r"
  shows "List.find P rows = Some r"
proof (cases "List.find P rows")
  case None
  with assms(1,2) show ?thesis by (auto simp: find_None_iff)
next
  case (Some x)
  then have "x \<in> set rows" "P x" by (auto simp: find_Some_iff)
  with assms(3) Some show ?thesis by simp
qed

lemma lookup_live_unique:
  assumes "r \<in> set rows" and "live r" and "P r"
    and "\<And>q. q \<in> set rows \<Longrightarrow> live q \<Longrightarrow> P q \<Longrightarrow> q = r"
  shows "lookup_live P rows = Some r"
  unfolding lookup_live_def by (rule find_unique) (use assms in blast)+

lemma live_key_unique:
  assumes "table_inv s" and "r \<in> set (st_rows s)" and "live r" and "q \<in> set (st_rows s)" and "live q"
    and "s_UserID q = s_UserID r" and "s_GroupID q = s_GroupID r"
  shows "q = r"
  using assms by (auto simp: table_inv_def live_keys_def distinct_map inj_on_def)

lemma lookup_key:
  assumes "table_inv s" and "r \<in> set (st_rows s)" and "live r"
  shows "lookup_live (\<lambda>q. s_UserID q = s_UserID r \<and> s_GroupID q = s_GroupID r) (st_rows s) = Some r"
  using assms live_key_unique by (intro lookup_live_unique) blast+

lemma lookup_id:
  assumes "table_inv s" and "r \<in> set (st_rows s)" and "live r"
  shows "lookup_live (\<lambda>q. s_ID q = s_ID r) (st_rows s) = Some r"
  using assms same_row by (intro lookup_live_unique) metis+

lemma update_row_mem:
  "r \<in> set rows \<Longrightarrow> f r \<in> set (update_row (s_ID r) f rows)"
  "q \<in> set rows \<Longrightarrow> s_ID q \<noteq> i \<Longrightarrow> q \<in> set (update_row i f rows)"
  by (force simp: update_row_def)+

lemma update_row_comp:
  "(\<And>r. s_ID (f r) = s_ID r) \<Longrightarrow> update_row i g (update_row i f rows) = update_row i (\<lambda>r. g (f r)) rows"
  by (induction rows) (auto simp: update_row_def)

lemma has_row_update [simp]:
  assumes "\<And>r. s_ID (f r) = s_ID r"
  shows "has_row i (update_row j f rows) = has_row i rows"
proof -
  have "map s_ID (update_row j f rows) = map s_ID rows"
    by (induction rows) (simp_all add: update_row_def assms)
  then show ?thesis unfolding has_row_def by (metis list.set_map)
qed

lemma lookup_id_updated:
  assumes "table_inv s" and "r \<in> set (st_rows s)" and "live (f r)" and "\<And>q. s_ID (f q) = s_ID q"
  shows "lookup_live (\<lambda>q. s_ID q = s_ID r) (update_row (s_ID r) f (st_rows s)) = Some (f r)"
proof (rule lookup_live_unique)
  show "f r \<in> set (update_row (s_ID r) f (st_rows s))" using assms(2) by (rule update_row_mem)
  fix q assume q: "q \<in> set (update_row (s_ID r) f (st_rows s))" "s_ID q = s_ID r"
  then obtain p where "p \<in> set (st_rows s)" "q = (if s_ID p = s_ID r then f p else p)"
    by (auto simp: update_row_def)
  with q(2) assms same_row [OF assms(1), of p r] show "q = f r" by (auto split: if_splits)
qed (use assms in auto)

section \<open>Renewal\<close>

definition extended_row :: "go_time \<Rightarrow> go_time \<Rightarrow> string \<Rightarrow> UserSubscription \<Rightarrow> UserSubscription \<Rightarrow> UserSubscription" where
  "extended_row now t notes r q = q\<lparr>s_ExpiresAt := t,
     s_Status := (if s_Status r \<noteq> SubscriptionStatusActive then SubscriptionStatusActive else s_Status q),
     s_Notes := (if notes \<noteq> [] then appendSubscriptionNotes (s_Notes r) notes else s_Notes q),
     s_UpdatedAt := now\<rparr>"

lemma extend_body_ok:
  assumes "st_faults s = []" and "has_row (s_ID r) (st_rows s)"
  shows "andthen (repo_ExtendExpiry now (s_ID r) t) (\<lambda>_.
       andthen (when_do (s_Status r \<noteq> SubscriptionStatusActive)
                  (repo_UpdateStatus now (s_ID r) SubscriptionStatusActive)) (\<lambda>_.
       when_do (notes \<noteq> [])
         (repo_UpdateNotes now (s_ID r) (appendSubscriptionNotes (s_Notes r) notes)))) s
     = (Inr (), s\<lparr>st_rows := update_row (s_ID r) (extended_row now t notes r) (st_rows s)\<rparr>)"
  using assms
  by (simp add: run ok_run repo_ExtendExpiry_def repo_UpdateStatus_def repo_UpdateNotes_def
      update_row_comp extended_row_def [abs_def] cong: if_cong)

lemma renew_body_ok:
  assumes "st_faults s = []" and "table_inv s" and "r \<in> set (st_rows s)" and "live r"
    and "s_ID q = s_ID r" and "s_UserID q = s_UserID r" and "s_GroupID q = s_GroupID r"
  shows "repo_Update now q s
     = (Inr (), s\<lparr>st_rows := update_row (s_ID r) (updated_row now q) (st_rows s)\<rparr>)"
proof -
  have "List.find (\<lambda>p. s_ID p = s_ID r) (st_rows s) = Some r"
    using assms same_row by (intro find_unique) metis+
  moreover have "\<not> live_conflict (s_ID r) (s_UserID r) (s_GroupID r) (st_rows s)"
    using assms live_key_unique by (auto simp: live_conflict_iff)
  ultimately show ?thesis using assms by (simp add: repo_Update_def ok_run)
qed

lemma tx_ok:
  "st_faults s = [] \<Longrightarrow> m s = (Inr a, s') \<Longrightarrow> st_faults s' = [] \<Longrightarrow>
     withSubscriptionUpdateTx sc m s = (Inr a, s')"
  by (simp add: withSubscriptionUpdateTx_def run ok_run)

definition renewed_row :: "sub_config \<Rightarrow> go_time \<Rightarrow> AssignSubscriptionInput \<Rightarrow> UserSubscription \<Rightarrow> UserSubscription \<Rightarrow> UserSubscription" where
  "renewed_row sc now input r =
     (if s_ExpiresAt r \<le> now
      then updated_row now (renewedSubscriptionTerm (sc_cal sc) r (ai_Notes input) now
             (renewal_expiry sc now r (ai_ValidityDays input)))
      else extended_row now (renewal_expiry sc now r (ai_ValidityDays input)) (ai_Notes input) r)"

lemma renewed_row_simps [simp]:
  "s_ID (renewed_row sc now input r q) = s_ID q"
  "s_DeletedAt (renewed_row sc now input r q) = s_DeletedAt q"
  "s_ExpiresAt (renewed_row sc now input r q) = renewal_expiry sc now r (ai_ValidityDays input)"
  by (simp_all add: renewed_row_def updated_row_def extended_row_def renewedSubscriptionTerm_def Let_def)

lemma AssignOrExtend_run:
  assumes ok: "st_faults s = []" "table_inv s"
    and grp: "map_of (st_groups s) (ai_GroupID input) = Some grp" "IsSubscriptionType grp"
    and r: "r \<in> set (st_rows s)" "live r" "s_UserID r = ai_UserID input" "s_GroupID r = ai_GroupID input"
  shows "AssignOrExtendSubscription sc now input s =
    (Inr (renewed_row sc now input r r, True),
     invalidated sc (ai_UserID input) (ai_GroupID input)
       (s\<lparr>st_rows := update_row (s_ID r) (renewed_row sc now input r) (st_rows s)\<rparr>))"
proof -
  have row: "has_row (s_ID r) (st_rows s)" using r by (auto simp: has_row_def)
  have key: "lookup_live (\<lambda>q. s_UserID q = ai_UserID input \<and> s_GroupID q = ai_GroupID input) (st_rows s) = Some r"
    using lookup_key [OF ok(2) r(1,2)] r by simp
  have "updateExistingSubscriptionTerm sc now r (ai_Notes input) now
       (renewal_expiry sc now r (ai_ValidityDays input)) (s_ExpiresAt r \<le> now) s
     = (Inr (), s\<lparr>st_rows := update_row (s_ID r) (renewed_row sc now input r) (st_rows s)\<rparr>)"
  proof (cases "s_ExpiresAt r \<le> now")
    case True
    with ok r show ?thesis unfolding updateExistingSubscriptionTerm_def
      by (intro tx_ok) (simp_all add: renew_body_ok renewedSubscriptionTerm_def Let_def renewed_row_def)
  next
    case False
    with ok row show ?thesis unfolding updateExistingSubscriptionTerm_def
      by (intro tx_ok) (simp_all add: extend_body_ok renewed_row_def del: when_do_def)
  qed
  moreover have "lookup_live (\<lambda>q. s_ID q = s_ID r)
      (update_row (s_ID r) (renewed_row sc now input r) (st_rows s)) = Some (renewed_row sc now input r r)"
    using r by (intro lookup_id_updated ok) (simp_all add: live_def)
  ultimately show ?thesis
    using ok grp key
    by (simp add: AssignOrExtendSubscription_def ok_run run_andthen run_attempt run_ret
        repo_GetByUserIDAndGroupID_def repo_GetByID_def)
qed

text \<open>C35: renewing through \<open>AssignOrExtendSubscription\<close> when no database call fails. A user's live
  subscription of a group is kept (same identifier, no second row) and made active; its new expiry
  is the requested number of days after the later of now and the old expiry, capped at 2099, and so
  never earlier than before; usage and windows are kept when the term had not run out and start
  afresh when it had; every other row is left as it was.\<close>

theorem AssignOrExtend_renews:
  assumes "st_faults s = []" and "table_inv s"
    and "map_of (st_groups s) (ai_GroupID input) = Some grp" and "IsSubscriptionType grp"
    and "r \<in> set (st_rows s)" and "live r"
    and "s_UserID r = ai_UserID input" and "s_GroupID r = ai_GroupID input"
    and "forward_calendar (sc_cal sc)" and "now < MaxExpiresAt"
  shows "\<exists>r' s'. AssignOrExtendSubscription sc now input s = (Inr (r', True), s')
    \<and> r' \<in> set (st_rows s') \<and> length (st_rows s') = length (st_rows s)
    \<and> s_ID r' = s_ID r \<and> s_Status r' = SubscriptionStatusActive
    \<and> s_ExpiresAt r' = clampExpiry (AddDays (sc_cal sc) (max now (s_ExpiresAt r))
        (normalizeAssignValidityDays (ai_ValidityDays input)))
    \<and> s_ExpiresAt r \<le> s_ExpiresAt r' \<and> now < s_ExpiresAt r'
    \<and> s_Notes r' = appendSubscriptionNotes (s_Notes r) (ai_Notes input)
    \<and> (if now < s_ExpiresAt r
       then s_StartsAt r' = s_StartsAt r \<and> s_DailyUsageUSD r' = s_DailyUsageUSD r
         \<and> s_WeeklyUsageUSD r' = s_WeeklyUsageUSD r \<and> s_MonthlyUsageUSD r' = s_MonthlyUsageUSD r
         \<and> s_DailyWindowStart r' = s_DailyWindowStart r
         \<and> s_WeeklyWindowStart r' = s_WeeklyWindowStart r
         \<and> s_MonthlyWindowStart r' = s_MonthlyWindowStart r
       else s_StartsAt r' = now \<and> s_DailyUsageUSD r' = 0 \<and> s_WeeklyUsageUSD r' = 0
         \<and> s_MonthlyUsageUSD r' = 0
         \<and> s_DailyWindowStart r' = Some (Midnight (sc_cal sc) now)
         \<and> s_WeeklyWindowStart r' = Some (Midnight (sc_cal sc) now)
         \<and> s_MonthlyWindowStart r' = Some (Midnight (sc_cal sc) now))
    \<and> (\<forall>q \<in> set (st_rows s). s_ID q \<noteq> s_ID r \<longrightarrow> q \<in> set (st_rows s'))"
proof -
  let ?r' = "renewed_row sc now input r r"
  let ?s' = "invalidated sc (ai_UserID input) (ai_GroupID input)
       (s\<lparr>st_rows := update_row (s_ID r) (renewed_row sc now input r) (st_rows s)\<rparr>)"
  have run: "AssignOrExtendSubscription sc now input s = (Inr (?r', True), ?s')"
    by (rule AssignOrExtend_run) (fact assms)+
  have "row_ok r" using assms(2,5) by (simp add: table_inv_def)
  then have later: "s_ExpiresAt r \<le> s_ExpiresAt ?r' \<and> now < s_ExpiresAt ?r'"
    using forward_calendar.renewal_later [OF assms(9) refl] assms(10) by (simp add: row_ok_def)
  have expiry: "s_ExpiresAt ?r' = clampExpiry (AddDays (sc_cal sc) (max now (s_ExpiresAt r))
        (normalizeAssignValidityDays (ai_ValidityDays input)))"
    by (simp add: renewal_expiry_def max_def)
  have rows: "?r' \<in> set (st_rows ?s')" "length (st_rows ?s') = length (st_rows s)"
    "\<forall>q \<in> set (st_rows s). s_ID q \<noteq> s_ID r \<longrightarrow> q \<in> set (st_rows ?s')"
    using update_row_mem [of _ "st_rows s"] assms(5) by (simp_all add: update_row_def)
  have fields: "s_Status ?r' = SubscriptionStatusActive"
    "s_Notes ?r' = appendSubscriptionNotes (s_Notes r) (ai_Notes input)"
    by (simp_all add: renewed_row_def updated_row_def extended_row_def renewedSubscriptionTerm_def
        Let_def appendSubscriptionNotes_def)
  have terms: "if now < s_ExpiresAt r
       then s_StartsAt ?r' = s_StartsAt r \<and> s_DailyUsageUSD ?r' = s_DailyUsageUSD r
         \<and> s_WeeklyUsageUSD ?r' = s_WeeklyUsageUSD r \<and> s_MonthlyUsageUSD ?r' = s_MonthlyUsageUSD r
         \<and> s_DailyWindowStart ?r' = s_DailyWindowStart r
         \<and> s_WeeklyWindowStart ?r' = s_WeeklyWindowStart r
         \<and> s_MonthlyWindowStart ?r' = s_MonthlyWindowStart r
       else s_StartsAt ?r' = now \<and> s_DailyUsageUSD ?r' = 0 \<and> s_WeeklyUsageUSD ?r' = 0
         \<and> s_MonthlyUsageUSD ?r' = 0
         \<and> s_DailyWindowStart ?r' = Some (Midnight (sc_cal sc) now)
         \<and> s_WeeklyWindowStart ?r' = Some (Midnight (sc_cal sc) now)
         \<and> s_MonthlyWindowStart ?r' = Some (Midnight (sc_cal sc) now)"
    by (simp add: renewed_row_def extended_row_def updated_row_def renewedSubscriptionTerm_def
        keep_if_nil_def Let_def)
  show ?thesis
    by (rule exI [of _ ?r'], rule exI [of _ ?s'], intro conjI)
      (fact run rows fields expiry terms later [THEN conjunct1] later [THEN conjunct2]
        renewed_row_simps(1))+
qed

definition renewal_store :: sub_store where
  "renewal_store = example_store\<lparr>st_rows := [example_sub], st_next_id := 2\<rparr>"

lemma renewal_store_inv: "table_inv renewal_store"
  by (simp add: table_inv_def renewal_store_def row_ok_def live_keys_def MaxExpiresAt_def example_sub_def)

lemma AssignOrExtend_renews_witness:
  "\<exists>r' s'. AssignOrExtendSubscription example_config (31 * 24 * hour) example_input renewal_store
      = (Inr (r', True), s') \<and> s_DailyUsageUSD r' = 0 \<and> s_ExpiresAt r' = 61 * 24 * hour"
  using AssignOrExtend_renews [of renewal_store example_input example_group example_sub example_config
      "31 * 24 * hour"] renewal_store_inv fixed_offset.forward_calendar_axioms [of 0]
  by (auto simp: renewal_store_def example_store_def example_input_def example_group_def
      IsSubscriptionType_def SubscriptionTypeSubscription_def live_def example_sub_def
      example_config_def MaxExpiresAt_def clampExpiry_def normalizeAssignValidityDays_def
      MaxValidityDays_def Let_def fixed_zone_def)

end
