(* ===== verification/SubscriptionWindows.thy ===== *)
theory SubscriptionWindows
  imports SubscriptionOperations
begin

text \<open>
  Window maintenance. \<open>CheckAndResetWindows\<close> clears exactly the windows that have run out, and
  after it none is due; the theorem needs the law that no day is longer than 24 hours, and the
  remaining sections show what happens without it, after a partial quota reset, and when the same
  copy of a subscription is maintained twice.
\<close>

section \<open>Clearing the windows that have run out\<close>

lemma store_rows_same: "s\<lparr>st_rows := st_rows s\<rparr> = s"
  by (cases s) simp

lemma update_row_id: "update_row i (\<lambda>q. q) rows = rows"
  by (simp add: update_row_def)

definition put_row :: "int \<Rightarrow> (UserSubscription \<Rightarrow> UserSubscription) \<Rightarrow> sub_store \<Rightarrow> sub_store" where
  "put_row i f s = s\<lparr>st_rows := update_row i f (st_rows s)\<rparr>"

lemma put_row_simps [simp]:
  "st_faults (put_row i f s) = st_faults s" "st_groups (put_row i f s) = st_groups s"
  "st_rows (put_row i f s) = update_row i f (st_rows s)"
  by (simp_all add: put_row_def)

lemma put_row_comp:
  "(\<And>r. s_ID (f r) = s_ID r) \<Longrightarrow> put_row i g (put_row i f s) = put_row i (\<lambda>r. g (f r)) s"
  by (simp add: put_row_def update_row_comp)

lemma reset_window_ok:
  assumes "st_faults s = []" and "has_row i (st_rows s)"
  shows "reset_window due (repo_update i f) local sub s =
    (Inr (if due then local sub else sub), put_row i (\<lambda>q. if due then f q else q) s)"
  using assms by (cases due)
    (simp_all add: reset_window_def run ok_run put_row_def update_row_id store_rows_same)

definition cleared_daily :: "bool \<Rightarrow> go_time \<Rightarrow> UserSubscription \<Rightarrow> UserSubscription" where
  "cleared_daily due ws q = (if due then q\<lparr>s_DailyUsageUSD := 0, s_DailyWindowStart := Some ws\<rparr> else q)"

definition cleared_weekly :: "bool \<Rightarrow> go_time \<Rightarrow> UserSubscription \<Rightarrow> UserSubscription" where
  "cleared_weekly due ws q = (if due then q\<lparr>s_WeeklyUsageUSD := 0, s_WeeklyWindowStart := Some ws\<rparr> else q)"

definition cleared_monthly :: "bool \<Rightarrow> go_time \<Rightarrow> UserSubscription \<Rightarrow> UserSubscription" where
  "cleared_monthly due ws q = (if due then q\<lparr>s_MonthlyUsageUSD := 0, s_MonthlyWindowStart := Some ws\<rparr> else q)"

lemmas cleared_defs = cleared_daily_def cleared_weekly_def cleared_monthly_def

definition cleared :: "sub_config \<Rightarrow> go_time \<Rightarrow> UserSubscription \<Rightarrow> UserSubscription \<Rightarrow> UserSubscription" where
  "cleared sc now sub q =
     (let ws = Midnight (sc_cal sc) now
      in cleared_monthly (NeedsMonthlyReset now sub) ws
          (cleared_weekly (NeedsWeeklyReset now sub) ws
            (cleared_daily (NeedsDailyResetAt (sc_cal sc) now sub) ws q)))"

definition any_due :: "sub_config \<Rightarrow> go_time \<Rightarrow> UserSubscription \<Rightarrow> bool" where
  "any_due sc now sub \<longleftrightarrow> NeedsDailyResetAt (sc_cal sc) now sub \<or> NeedsWeeklyReset now sub
     \<or> NeedsMonthlyReset now sub"

definition touched :: "bool \<Rightarrow> go_time \<Rightarrow> UserSubscription \<Rightarrow> UserSubscription" where
  "touched b now q = (if b then q\<lparr>s_UpdatedAt := now\<rparr> else q)"

lemma cleared_keys [simp]:
  "s_ID (cleared sc now sub q) = s_ID q" "s_UserID (cleared sc now sub q) = s_UserID q"
  "s_GroupID (cleared sc now sub q) = s_GroupID q" "s_DeletedAt (cleared sc now sub q) = s_DeletedAt q"
  "s_ID (touched b now q) = s_ID q" "s_DeletedAt (touched b now q) = s_DeletedAt q"
  by (simp_all add: cleared_def cleared_defs touched_def Let_def)

lemma CheckAndResetWindows_run:
  assumes ok: "st_faults s = []" and row: "has_row (s_ID sub) (st_rows s)"
  shows "\<exists>s'. CheckAndResetWindows sc now sub s = (Inr (cleared sc now sub sub), s')
     \<and> st_rows s' = update_row (s_ID sub) (\<lambda>q. touched (any_due sc now sub) now (cleared sc now sub q)) (st_rows s)
     \<and> st_faults s' = [] \<and> st_groups s' = st_groups s"
proof -
  let ?ws = "Midnight (sc_cal sc) now"
  let ?d = "NeedsDailyResetAt (sc_cal sc) now sub" and ?w = "NeedsWeeklyReset now sub"
    and ?m = "NeedsMonthlyReset now sub"
  let ?f = "\<lambda>q. if ?d then q\<lparr>s_DailyUsageUSD := 0, s_DailyWindowStart := Some ?ws, s_UpdatedAt := now\<rparr> else q"
  let ?g = "\<lambda>q. if ?w then q\<lparr>s_WeeklyUsageUSD := 0, s_WeeklyWindowStart := Some ?ws, s_UpdatedAt := now\<rparr> else q"
  let ?h = "\<lambda>q. if ?m then q\<lparr>s_MonthlyUsageUSD := 0, s_MonthlyWindowStart := Some ?ws, s_UpdatedAt := now\<rparr> else q"
  let ?s3 = "put_row (s_ID sub) ?h (put_row (s_ID sub) ?g (put_row (s_ID sub) ?f s))"
  have rows: "st_rows ?s3 =
      update_row (s_ID sub) (\<lambda>q. touched (any_due sc now sub) now (cleared sc now sub q)) (st_rows s)"
  proof -
    have "st_rows ?s3 = update_row (s_ID sub) (\<lambda>q. ?h (?g (?f q))) (st_rows s)"
      by (simp add: update_row_comp)
    moreover have "?h (?g (?f q)) = touched (any_due sc now sub) now (cleared sc now sub q)" for q
      by (cases ?d; cases ?w; cases ?m)
        (simp_all add: touched_def any_due_def cleared_def cleared_defs Let_def)
    ultimately show ?thesis by simp
  qed
  have local_copy: "(if ?m then (\<lambda>r. r\<lparr>s_MonthlyWindowStart := Some ?ws, s_MonthlyUsageUSD := 0\<rparr>) else (\<lambda>r. r))
      ((if ?w then (\<lambda>r. r\<lparr>s_WeeklyWindowStart := Some ?ws, s_WeeklyUsageUSD := 0\<rparr>) else (\<lambda>r. r))
        ((if ?d then (\<lambda>r. r\<lparr>s_DailyWindowStart := Some ?ws, s_DailyUsageUSD := 0\<rparr>) else (\<lambda>r. r)) sub))
     = cleared sc now sub sub"
    by (simp add: cleared_def cleared_defs Let_def)
  have "has_row (s_ID sub) (st_rows (put_row (s_ID sub) ?f s))"
    "has_row (s_ID sub) (st_rows (put_row (s_ID sub) ?g (put_row (s_ID sub) ?f s)))"
    using row by simp_all
  then have "CheckAndResetWindows sc now sub s = (Inr (cleared sc now sub sub),
      if any_due sc now sub then invalidated sc (s_UserID sub) (s_GroupID sub) ?s3 else ?s3)"
    using ok row local_copy
    by (simp add: CheckAndResetWindows_def Let_def repo_ResetDailyUsage_def repo_ResetWeeklyUsage_def
        repo_ResetMonthlyUsage_def run_andthen run_ret reset_window_ok ok_run any_due_def
        cong: if_cong split del: if_split) (simp add: run_andthen run_ret ok_run cleared_def cleared_defs Let_def)
  with rows ok show ?thesis by (simp add: exI)
qed

lemma cleared_usage:
  "s_DailyUsageUSD (cleared sc now r r) = spent_daily (sc_cal sc) now r"
  "s_WeeklyUsageUSD (cleared sc now r r) = spent_weekly now r"
  "s_MonthlyUsageUSD (cleared sc now r r) = spent_monthly now r"
  by (simp_all add: cleared_def cleared_defs Let_def spent_daily_def spent_weekly_def spent_monthly_def)

lemma cleared_not_due:
  assumes "even_calendar (sc_cal sc)"
  shows "\<not> any_due sc now (touched b now (cleared sc now r r))"
  using even_calendar.fresh_window_not_due [OF assms, of now]
  by (auto simp: any_due_def touched_def cleared_def cleared_defs Let_def NeedsDailyResetAt_def
      NeedsWeeklyReset_def NeedsMonthlyReset_def HasOneTimeDailyQuota_def split: option.splits)

text \<open>window maintenance of a row when no database call fails and no day is longer than 24
  hours. Afterwards none of its windows is due; each usage column is 0 when its window had run out
  and unchanged otherwise, in the row and in the copy the request goes on with; every other row is
  untouched.\<close>

theorem CheckAndResetWindows_correct:
  assumes "st_faults s = []" and "table_inv s" and "r \<in> set (st_rows s)" and "even_calendar (sc_cal sc)"
  shows "\<exists>r' s' q. CheckAndResetWindows sc now r s = (Inr r', s') \<and> q \<in> set (st_rows s') \<and> s_ID q = s_ID r
    \<and> \<not> NeedsDailyResetAt (sc_cal sc) now q \<and> \<not> NeedsWeeklyReset now q \<and> \<not> NeedsMonthlyReset now q
    \<and> s_DailyUsageUSD q = (if NeedsDailyResetAt (sc_cal sc) now r then 0 else s_DailyUsageUSD r)
    \<and> s_WeeklyUsageUSD q = (if NeedsWeeklyReset now r then 0 else s_WeeklyUsageUSD r)
    \<and> s_MonthlyUsageUSD q = (if NeedsMonthlyReset now r then 0 else s_MonthlyUsageUSD r)
    \<and> r' = q\<lparr>s_UpdatedAt := s_UpdatedAt r'\<rparr>
    \<and> (\<forall>p \<in> set (st_rows s). s_ID p \<noteq> s_ID r \<longrightarrow> p \<in> set (st_rows s'))"
proof -
  let ?f = "\<lambda>q. touched (any_due sc now r) now (cleared sc now r q)"
  have "has_row (s_ID r) (st_rows s)" using assms(3) by (auto simp: has_row_def)
  from CheckAndResetWindows_run [OF assms(1) this] obtain s' where
    run: "CheckAndResetWindows sc now r s = (Inr (cleared sc now r r), s')"
    and rows: "st_rows s' = update_row (s_ID r) ?f (st_rows s)" by blast
  have fields: "s_DailyUsageUSD (?f r) = spent_daily (sc_cal sc) now r"
    "s_WeeklyUsageUSD (?f r) = spent_weekly now r" "s_MonthlyUsageUSD (?f r) = spent_monthly now r"
    "s_ID (?f r) = s_ID r" "cleared sc now r r = (?f r)\<lparr>s_UpdatedAt := s_UpdatedAt (cleared sc now r r)\<rparr>"
    using cleared_usage [of sc now r] by (simp_all add: touched_def)
  have due: "\<not> NeedsDailyResetAt (sc_cal sc) now (?f r)" "\<not> NeedsWeeklyReset now (?f r)"
    "\<not> NeedsMonthlyReset now (?f r)"
    using cleared_not_due [OF assms(4)] by (simp_all add: any_due_def)
  have mem: "?f r \<in> set (st_rows s')" "\<forall>p \<in> set (st_rows s). s_ID p \<noteq> s_ID r \<longrightarrow> p \<in> set (st_rows s')"
    unfolding rows using update_row_mem(1) [OF assms(3), of ?f] update_row_mem(2) by blast+
  show ?thesis
    by (rule exI [of _ "cleared sc now r r"], rule exI [of _ s'], rule exI [of _ "?f r"], intro conjI)
      (fact run mem due fields fields [unfolded spent_daily_def] fields [unfolded spent_weekly_def]
        fields [unfolded spent_monthly_def])+
qed

lemma CheckAndResetWindows_correct_witness:
  "\<exists>r' s'. CheckAndResetWindows example_config (25 * hour) example_sub renewal_store = (Inr r', s')
     \<and> s_DailyUsageUSD r' = 0 \<and> s_WeeklyUsageUSD r' = 12"
proof -
  have "st_faults renewal_store = []" "example_sub \<in> set (st_rows renewal_store)"
    "even_calendar (sc_cal example_config)"
    using fixed_offset.even_calendar_axioms [of 0]
    by (simp_all add: renewal_store_def example_store_def example_config_def)
  from CheckAndResetWindows_correct [OF this(1) renewal_store_inv this(2,3), of "25 * hour"]
  obtain r' s' q where run: "CheckAndResetWindows example_config (25 * hour) example_sub renewal_store = (Inr r', s')"
    and usage: "s_DailyUsageUSD q = (if NeedsDailyResetAt (sc_cal example_config) (25 * hour) example_sub
        then 0 else s_DailyUsageUSD example_sub)"
      "s_WeeklyUsageUSD q = (if NeedsWeeklyReset (25 * hour) example_sub then 0 else s_WeeklyUsageUSD example_sub)"
    and copy: "r' = q\<lparr>s_UpdatedAt := s_UpdatedAt r'\<rparr>" by blast
  have "NeedsDailyResetAt (sc_cal example_config) (25 * hour) example_sub" "\<not> NeedsWeeklyReset (25 * hour) example_sub"
    by (simp_all add: example_sub_def example_config_def NeedsDailyResetAt_def NeedsWeeklyReset_def
        HasOneTimeDailyQuota_def fixed_zone_def zero_time_def)
  with usage have "s_DailyUsageUSD q = 0" "s_WeeklyUsageUSD q = 12" by (simp_all add: example_sub_def)
  moreover have "s_DailyUsageUSD r' = s_DailyUsageUSD q" "s_WeeklyUsageUSD r' = s_WeeklyUsageUSD q"
    by (subst copy, simp)+
  ultimately show ?thesis using run by simp
qed

section \<open>A day of 25 hours\<close>

text \<open>The calendar of a zone whose clocks go back one hour on one day: that day's local time has 25
  hours.\<close>

definition clocks_go_back :: calendar where
  "clocks_go_back = (fixed_zone 0)\<lparr>Midnight := (\<lambda>t.
     if t < 0 then Midnight (fixed_zone 0) t
     else if t < 25 * hour then 0
     else Midnight (fixed_zone (- hour)) t)\<rparr>"

lemma clocks_go_back_forward: "forward_calendar clocks_go_back"
proof
  fix t n :: int
  show "1 \<le> n \<Longrightarrow> t < AddDays clocks_go_back t n"
    using fixed_offset.AddDays_forward [of n t 0] by (simp add: clocks_go_back_def)
  show "Midnight clocks_go_back t \<le> t"
    using fixed_offset.Midnight_le [of 0 t] fixed_offset.Midnight_le [of "- hour" t]
    by (simp add: clocks_go_back_def)
qed

text \<open>On the day of 25 hours the daily window is due again right after it was reset. In its last
  hour every maintenance of a subscription whose window began at that day's midnight writes daily
  usage 0 and the same window start, so what was recorded in between no longer counts and the daily
  limit does not hold for that hour.\<close>

theorem long_day_reset_repeats:
  assumes "sc_cal sc = clocks_go_back" and "24 * hour \<le> now" and "now \<le> later" and "later < 25 * hour"
    and "st_faults s = []" and "r \<in> set (st_rows s)"
    and "s_DailyWindowStart r = Some 0" and "\<not> HasOneTimeDailyQuota (sc_cal sc) r"
  shows "\<exists>r' s' q. CheckAndResetWindows sc now r s = (Inr r', s') \<and> q \<in> set (st_rows s') \<and> s_ID q = s_ID r
    \<and> s_DailyUsageUSD q = 0 \<and> s_DailyWindowStart q = Some 0 \<and> NeedsDailyResetAt (sc_cal sc) later q"
proof -
  let ?q = "touched (any_due sc now r) now (cleared sc now r r)"
  have "has_row (s_ID r) (st_rows s)" using assms(6) by (auto simp: has_row_def)
  from CheckAndResetWindows_run [OF assms(5) this] obtain s' where
    run: "CheckAndResetWindows sc now r s = (Inr (cleared sc now r r), s')"
    and rows: "st_rows s' = update_row (s_ID r)
      (\<lambda>q. touched (any_due sc now r) now (cleared sc now r q)) (st_rows s)" by blast
  have "?q \<in> set (st_rows s')"
    unfolding rows by (rule update_row_mem(1) [OF assms(6)])
  moreover have "Midnight (sc_cal sc) now = 0" "NeedsDailyResetAt (sc_cal sc) now r"
    using assms by (simp_all add: clocks_go_back_def NeedsDailyResetAt_def)
  then have "s_DailyUsageUSD ?q = 0" "s_DailyWindowStart ?q = Some 0"
    "s_StartsAt ?q = s_StartsAt r" "s_ExpiresAt ?q = s_ExpiresAt r"
    by (simp_all add: touched_def cleared_def cleared_defs Let_def)
  moreover from this(2-4) have "NeedsDailyResetAt (sc_cal sc) later ?q"
    using assms(2,3,8) by (auto simp: NeedsDailyResetAt_def HasOneTimeDailyQuota_def split: if_splits)
  ultimately show ?thesis
    using run by (intro exI [of _ "cleared sc now r r"] exI [of _ s'] exI [of _ ?q]) simp
qed

lemma long_day_reset_repeats_witness:
  "\<exists>r' s' q. CheckAndResetWindows (example_config\<lparr>sc_cal := clocks_go_back\<rparr>) (24 * hour) example_sub renewal_store
       = (Inr r', s') \<and> q \<in> set (st_rows s') \<and> s_ID q = 1
       \<and> NeedsDailyResetAt clocks_go_back (24 * hour + 30 * minute) q"
  using long_day_reset_repeats [of "example_config\<lparr>sc_cal := clocks_go_back\<rparr>" "24 * hour"
      "24 * hour + 30 * minute" renewal_store example_sub]
  by (force simp: renewal_store_def example_store_def example_sub_def HasOneTimeDailyQuota_def
      zero_time_def clocks_go_back_def fixed_zone_def)

section \<open>Maintaining a stale copy\<close>

text \<open>maintenance of a stale copy drops usage. Two requests that read the same subscription
  before its daily window was reset both ask for maintenance; when usage is recorded between the two
  runs, the second run writes daily usage 0 again, whatever was recorded.\<close>

theorem stale_maintenance_drops_usage:
  assumes "st_faults s = []" and "has_row (s_ID r) (st_rows s)" and "IsWindowActivated r"
    and "NeedsDailyResetAt (sc_cal sc) now r" and "NeedsDailyResetAt (sc_cal sc) later r"
  shows "let s1 = snd (doWindowMaintenance sc now r s);
             s2 = snd (RecordUsage now (s_ID r) cost s1);
             s3 = snd (doWindowMaintenance sc later r s2)
         in \<exists>q \<in> set (st_rows s3). s_ID q = s_ID r \<and> s_DailyUsageUSD q = 0"
proof -
  have run: "\<exists>t'. snd (doWindowMaintenance sc tm r t) = t' \<and> st_faults t' = [] \<and>
      st_rows t' = update_row (s_ID r) (\<lambda>q. touched (any_due sc tm r) tm (cleared sc tm r q)) (st_rows t)"
    if "st_faults t = []" "has_row (s_ID r) (st_rows t)" for tm t
    using CheckAndResetWindows_run [OF that, of sc tm] assms(3)
    by (auto simp: doWindowMaintenance_def run_when_do run_andthen run_attempt ok_run)
  define s1 where "s1 = snd (doWindowMaintenance sc now r s)"
  define s2 where "s2 = snd (RecordUsage now (s_ID r) cost s1)"
  have s1: "st_faults s1 = []" "has_row (s_ID r) (st_rows s1)"
    using run [OF assms(1,2), of now] assms(2) by (auto simp: s1_def)
  then have s2: "st_faults s2 = []" "has_row (s_ID r) (st_rows s2)"
    by (auto simp: s2_def RecordUsage_def repo_IncrementUsage_def ok_run Let_def add_usage_def
        split: option.split)
  then obtain p where p: "p \<in> set (st_rows s2)" "s_ID p = s_ID r" by (auto simp: has_row_def)
  let ?f = "\<lambda>q. touched (any_due sc later r) later (cleared sc later r q)"
  have "?f p \<in> set (st_rows (snd (doWindowMaintenance sc later r s2)))"
    using run [OF s2, of later] update_row_mem(1) [OF p(1), of ?f] p(2) by auto
  moreover have "s_DailyUsageUSD (?f p) = 0" "s_ID (?f p) = s_ID r"
    using assms(5) p(2) by (simp_all add: touched_def cleared_def cleared_defs Let_def)
  ultimately show ?thesis unfolding Let_def s1_def [symmetric] s2_def [symmetric] by blast
qed

lemma stale_maintenance_drops_usage_witness:
  "let s1 = snd (doWindowMaintenance example_config (25 * hour) example_sub renewal_store);
       s2 = snd (RecordUsage (25 * hour) 1 3 s1);
       s3 = snd (doWindowMaintenance example_config (26 * hour) example_sub s2)
   in \<exists>q \<in> set (st_rows s3). s_ID q = 1 \<and> s_DailyUsageUSD q = 0"
proof -
  have i: "s_ID example_sub = 1" by (simp add: example_sub_def)
  have "NeedsDailyResetAt (sc_cal example_config) t example_sub" if "24 * hour \<le> t" for t
    using that by (simp add: example_sub_def example_config_def NeedsDailyResetAt_def
        HasOneTimeDailyQuota_def fixed_zone_def zero_time_def)
  with stale_maintenance_drops_usage [of renewal_store example_sub example_config "25 * hour" "26 * hour" 3]
  show ?thesis unfolding i
    by (simp add: renewal_store_def example_store_def has_row_def IsWindowActivated_def i)
      (simp add: example_sub_def)
qed

section \<open>A partial reset of a fresh subscription\<close>

text \<open>A served request reads the row, maintains its windows and records its cost.\<close>

definition request_cycle :: "sub_config \<Rightarrow> int \<Rightarrow> go_time \<times> rat \<Rightarrow> sub_store \<Rightarrow> sub_store" where
  "request_cycle sc i req s =
     (case lookup_live (\<lambda>r. s_ID r = i) (st_rows s) of
        None \<Rightarrow> s
      | Some r \<Rightarrow> snd (RecordUsage (fst req) i (snd req) (snd (doWindowMaintenance sc (fst req) r s))))"

definition request_cycles :: "sub_config \<Rightarrow> int \<Rightarrow> (go_time \<times> rat) list \<Rightarrow> sub_store \<Rightarrow> sub_store" where
  "request_cycles sc i reqs s = fold (request_cycle sc i) reqs s"

definition weekly_stuck :: "int \<Rightarrow> rat \<Rightarrow> sub_store \<Rightarrow> bool" where
  "weekly_stuck i w s \<longleftrightarrow> table_inv s \<and> st_faults s = []
     \<and> (\<exists>r \<in> set (st_rows s). s_ID r = i \<and> live r \<and> s_DailyWindowStart r \<noteq> None
          \<and> s_WeeklyWindowStart r = None \<and> w \<le> s_WeeklyUsageUSD r
          \<and> dec10 (s_WeeklyUsageUSD r) = s_WeeklyUsageUSD r)"

lemma dec10_mono:
  assumes "0 \<le> x" and "x \<le> y" shows "dec10 x \<le> dec10 y"
proof (cases "x = 0")
  case False
  have "\<lfloor>x * 10 ^ 10 + 1 / 2\<rfloor> \<le> \<lfloor>y * 10 ^ 10 + 1 / 2\<rfloor>" using assms(2) by (intro floor_mono) simp
  with False assms show ?thesis by (simp add: dec10_def divide_right_mono)
qed (use assms dec10_nonneg in simp)

lemma dec10_grid:
  fixes m :: int
  assumes "0 \<le> m" shows "dec10 (of_int m / 10 ^ 10) = of_int m / 10 ^ 10"
proof (cases "m = 0")
  case False
  with assms have "0 < (of_int m / 10 ^ 10 :: rat)" by simp
  moreover have "\<lfloor>(of_int m / 10 ^ 10) * 10 ^ 10 + 1 / 2 :: rat\<rfloor> = m"
    by (simp add: floor_eq_iff)
  ultimately show ?thesis unfolding dec10_def by (simp only: abs_of_pos sgn_pos mult_1)
qed simp

lemma dec10_idem:
  assumes "0 \<le> x" shows "dec10 (dec10 x) = dec10 x"
proof (cases "x = 0")
  case False
  define m where "m = \<lfloor>x * 10 ^ 10 + 1 / 2\<rfloor>"
  have m: "0 \<le> m" unfolding m_def using assms by simp
  from False assms have eq: "dec10 x = of_int m / 10 ^ 10" by (simp add: dec10_def m_def)
  show ?thesis unfolding eq by (rule dec10_grid [OF m])
qed simp

lemma weekly_stuck_cycle:
  assumes stuck: "weekly_stuck i w s" and cost: "0 \<le> snd req"
  shows "weekly_stuck i w (request_cycle sc i req s)"
proof -
  obtain now cost where req: "req = (now, cost)" by (cases req)
  from stuck obtain r where inv: "table_inv s" and ok: "st_faults s = []"
    and r: "r \<in> set (st_rows s)" "s_ID r = i" "live r" "s_DailyWindowStart r \<noteq> None"
      "s_WeeklyWindowStart r = None" "w \<le> s_WeeklyUsageUSD r" "dec10 (s_WeeklyUsageUSD r) = s_WeeklyUsageUSD r"
    unfolding weekly_stuck_def by blast
  define s1 where "s1 = snd (doWindowMaintenance sc now r s)"
  let ?f = "\<lambda>q. touched (any_due sc now r) now (cleared sc now r q)"
  let ?p = "?f r"
  have row: "has_row (s_ID r) (st_rows s)" using r(1) by (auto simp: has_row_def)
  have inv1: "table_inv s1" unfolding s1_def by (rule preservesD [OF preserves_windows(3) inv])
  have s1: "st_faults s1 = []" "st_rows s1 = update_row i ?f (st_rows s)"
    using CheckAndResetWindows_run [OF ok row, of sc now] r(2,4)
    by (auto simp: s1_def doWindowMaintenance_def IsWindowActivated_def run_when_do run_andthen
        run_attempt ok_run)
  have p: "?p \<in> set (st_rows s1)" "s_ID ?p = i" "live ?p" "s_DailyWindowStart ?p \<noteq> None"
    "s_WeeklyWindowStart ?p = None" "s_WeeklyUsageUSD ?p = s_WeeklyUsageUSD r"
    using r s1(2) update_row_mem(1) [OF r(1), of ?f]
    by (auto simp: touched_def cleared_def cleared_defs Let_def NeedsWeeklyReset_def live_def)
  have "request_cycle sc i req s = snd (RecordUsage now i cost s1)"
    using lookup_id [OF inv r(1) r(3)] r(2) by (simp add: request_cycle_def req s1_def)
  moreover have "weekly_stuck i w (snd (RecordUsage now i cost s1))"
  proof (cases "\<exists>q. fst (RecordUsage now i cost s1) = Inr q")
    case False
    then have "snd (RecordUsage now i cost s1) = s1"
      using s1(1) by (auto simp: RecordUsage_def repo_IncrementUsage_def ok_run Let_def split: option.splits if_splits)
    with inv1 s1 p r show ?thesis unfolding weekly_stuck_def by metis
  next
    case True
    then have eq: "snd (RecordUsage now i cost s1) = s1\<lparr>st_rows := update_row i (add_usage now cost) (st_rows s1)\<rparr>"
      using s1(1) by (auto simp: RecordUsage_def repo_IncrementUsage_def ok_run Let_def split: option.splits if_splits)
    let ?q = "add_usage now cost ?p"
    have "0 \<le> s_WeeklyUsageUSD r" using inv r(1) by (simp add: table_inv_def row_ok_def)
    then have "s_WeeklyUsageUSD r \<le> s_WeeklyUsageUSD ?q" "dec10 (s_WeeklyUsageUSD ?q) = s_WeeklyUsageUSD ?q"
      using dec10_mono [of "s_WeeklyUsageUSD r" "s_WeeklyUsageUSD r + cost"] r(7) cost p(6) req
        dec10_idem [of "s_WeeklyUsageUSD r + cost"] by (simp_all add: add_usage_def)
    moreover have "?q \<in> set (st_rows (snd (RecordUsage now i cost s1)))"
      using update_row_mem(1) [OF p(1), of "add_usage now cost"] p(2) by (simp add: eq)
    moreover have "s_ID ?q = i" "live ?q" "s_DailyWindowStart ?q \<noteq> None" "s_WeeklyWindowStart ?q = None"
      using p by (simp_all add: add_usage_def live_def)
    moreover have "table_inv (snd (RecordUsage now i cost s1))"
      using preservesD [OF preserves_request(3) inv1, of cost now i] cost req by simp
    ultimately show ?thesis unfolding weekly_stuck_def
      using r(6) s1(1) eq by (metis (no_types, lifting) order_trans sub_store.select_convs(6)
          sub_store.surjective sub_store.update_convs(1))
  qed
  ultimately show ?thesis by simp
qed

lemma weekly_stuck_cycles:
  "weekly_stuck i w s \<Longrightarrow> \<forall>req \<in> set reqs. 0 \<le> snd req \<Longrightarrow> weekly_stuck i w (request_cycles sc i reqs s)"
  unfolding request_cycles_def
  by (induction reqs arbitrary: s) (simp_all add: weekly_stuck_cycle)

lemma reset_daily_run:
  fixes sc now
  assumes ok: "st_faults s = []" "table_inv s" and r: "r \<in> set (st_rows s)" "live r"
  defines "q \<equiv> r\<lparr>s_DailyUsageUSD := 0, s_DailyWindowStart := Some (Midnight (sc_cal sc) now), s_UpdatedAt := now\<rparr>"
  shows "\<exists>s'. AdminResetQuota sc now (s_ID r) True False False s = (Inr q, s') \<and> q \<in> set (st_rows s')
     \<and> st_faults s' = []"
proof -
  let ?f = "\<lambda>q. q\<lparr>s_DailyUsageUSD := 0, s_DailyWindowStart := Some (Midnight (sc_cal sc) now), s_UpdatedAt := now\<rparr>"
  have "has_row (s_ID r) (st_rows s)" using r(1) by (auto simp: has_row_def)
  moreover have "lookup_live (\<lambda>q. s_ID q = s_ID r) (update_row (s_ID r) ?f (st_rows s)) = Some q"
    unfolding q_def using r by (intro lookup_id_updated ok) (simp_all add: live_def)
  moreover have "q \<in> set (update_row (s_ID r) ?f (st_rows s))"
    unfolding q_def by (rule update_row_mem(1) [OF r(1)])
  ultimately show ?thesis
    using ok lookup_id [OF ok(2) r]
    by (simp add: AdminResetQuota_def Let_def run_andthen run_when_do run_ret ok_run repo_GetByID_def
        repo_ResetDailyUsage_def)
qed

text \<open>resetting only the daily quota of a subscription that was never used disables its weekly
  window for good. However many requests are then served, at whatever instants, the weekly window
  never starts, it is never due for a reset, and the weekly usage never goes down: once it passes the
  group's weekly limit the subscription is refused for the rest of its term.\<close>

theorem daily_reset_disables_weekly_window:
  assumes "st_faults s = []" and "table_inv s" and "r \<in> set (st_rows s)" and "live r"
    and "\<not> IsWindowActivated r" and "s_WeeklyUsageUSD r = 0"
    and "\<forall>req \<in> set (reqs @ further). 0 \<le> snd req"
  shows "let s1 = snd (AdminResetQuota sc now (s_ID r) True False False s);
             s2 = request_cycles sc (s_ID r) reqs s1;
             s3 = request_cycles sc (s_ID r) further s2
         in \<exists>q \<in> set (st_rows s2). \<exists>p \<in> set (st_rows s3). s_ID q = s_ID r \<and> s_ID p = s_ID r
           \<and> s_WeeklyWindowStart p = None \<and> (\<forall>t. \<not> NeedsWeeklyReset t p)
           \<and> s_WeeklyUsageUSD q \<le> s_WeeklyUsageUSD p"
proof -
  define s1 where "s1 = snd (AdminResetQuota sc now (s_ID r) True False False s)"
  define s2 where "s2 = request_cycles sc (s_ID r) reqs s1"
  have inv: "table_inv s1" unfolding s1_def by (rule preservesD [OF preserves_admin(4) assms(2)])
  let ?q = "r\<lparr>s_DailyUsageUSD := 0, s_DailyWindowStart := Some (Midnight (sc_cal sc) now), s_UpdatedAt := now\<rparr>"
  from reset_daily_run [OF assms(1-4), of sc now] have s1: "?q \<in> set (st_rows s1)" "st_faults s1 = []"
    by (auto simp: s1_def)
  have "s_WeeklyWindowStart ?q = None" "live ?q" "s_WeeklyUsageUSD ?q = 0" "s_ID ?q = s_ID r"
    "s_DailyWindowStart ?q \<noteq> None"
    using assms(4-6) by (simp_all add: IsWindowActivated_def live_def)
  with inv s1 have "weekly_stuck (s_ID r) 0 s1"
    unfolding weekly_stuck_def by (intro conjI bexI [of _ ?q]) simp_all
  with assms(7) have s2: "weekly_stuck (s_ID r) 0 s2" unfolding s2_def by (intro weekly_stuck_cycles) auto
  then obtain q where q: "q \<in> set (st_rows s2)" "s_ID q = s_ID r" "weekly_stuck (s_ID r) (s_WeeklyUsageUSD q) s2"
    unfolding weekly_stuck_def by blast
  with assms(7) have "weekly_stuck (s_ID r) (s_WeeklyUsageUSD q) (request_cycles sc (s_ID r) further s2)"
    by (intro weekly_stuck_cycles) auto
  then obtain p where "p \<in> set (st_rows (request_cycles sc (s_ID r) further s2))" "s_ID p = s_ID r"
    "s_WeeklyWindowStart p = None" "s_WeeklyUsageUSD q \<le> s_WeeklyUsageUSD p"
    unfolding weekly_stuck_def by blast
  moreover from this(3) have "\<forall>t. \<not> NeedsWeeklyReset t p" by (simp add: NeedsWeeklyReset_def)
  ultimately show ?thesis
    using q unfolding Let_def s1_def [symmetric] s2_def [symmetric] by blast
qed

definition fresh_sub :: UserSubscription where
  "fresh_sub = example_sub\<lparr>s_DailyWindowStart := None, s_WeeklyWindowStart := None,
     s_MonthlyWindowStart := None, s_DailyUsageUSD := 0, s_WeeklyUsageUSD := 0, s_MonthlyUsageUSD := 0\<rparr>"

lemma daily_reset_disables_weekly_window_witness:
  "let s1 = snd (AdminResetQuota example_config 0 1 True False False (example_store\<lparr>st_rows := [fresh_sub], st_next_id := 2\<rparr>));
       s2 = request_cycles example_config 1 [(0, 40), (hour, 20)] s1;
       s3 = request_cycles example_config 1 [(29 * 24 * hour, 1)] s2
   in \<exists>q \<in> set (st_rows s2). \<exists>p \<in> set (st_rows s3). s_ID q = 1 \<and> s_ID p = 1
     \<and> s_WeeklyWindowStart p = None \<and> (\<forall>t. \<not> NeedsWeeklyReset t p)
     \<and> s_WeeklyUsageUSD q \<le> s_WeeklyUsageUSD p"
proof -
  have i: "s_ID fresh_sub = 1" by (simp add: fresh_sub_def example_sub_def)
  have "table_inv (example_store\<lparr>st_rows := [fresh_sub], st_next_id := 2\<rparr>)"
    by (simp add: table_inv_def row_ok_def live_keys_def MaxExpiresAt_def fresh_sub_def example_sub_def)
  from daily_reset_disables_weekly_window [OF _ this, of fresh_sub "[(0, 40), (hour, 20)]"
      "[(29 * 24 * hour, 1)]" example_config 0]
  show ?thesis unfolding i
    by (simp add: example_store_def live_def IsWindowActivated_def fresh_sub_def example_sub_def)
qed

end
