(* ===== verification/Idempotency.thy ===== *)
theory Idempotency
  imports Programs GoFloat GoUtf8
begin

text \<open>
  The idempotency coordinator, \<open>service/idempotency.go\<close>. Keys and fingerprints are hashed, the
  response of the first execution is stored, and a repeated request gets the stored response. SHA-256
  with hex encoding, JSON encoding and decoding and the log redactor are the record \<open>codec\<close>, an
  argument of the definitions. The repository is the record \<open>idem_repo\<close> of its operations, as the
  Go interface, on a state \<open>'s\<close>; the executor works on a state \<open>'w\<close> of its own. Metrics and
  audit logging are left out; \<open>now\<close> and \<open>later\<close> are the two readings of the clock, before the
  claim and after a failed execution.
\<close>

record 'd codec =
  hash :: "string \<Rightarrow> string"
  json_encode :: "'d \<Rightarrow> string option"
  json_decode :: "string \<Rightarrow> 'd option"
  redact :: "string \<Rightarrow> string"
  empty_object :: 'd

datatype idem_status = Processing | Succeeded | FailedRetryable | OtherStatus string

definition status_text :: "idem_status \<Rightarrow> string" where
  "status_text st = (case st of Processing \<Rightarrow> ''processing'' | Succeeded \<Rightarrow> ''succeeded''
     | FailedRetryable \<Rightarrow> ''failed_retryable'' | OtherStatus x \<Rightarrow> x)"

record IdempotencyRecord =
  ir_ID :: int
  ir_Scope :: string
  ir_KeyHash :: string
  ir_Fingerprint :: string
  ir_Status :: idem_status
  ir_ResponseStatus :: "int option"
  ir_ResponseBody :: "string option"
  ir_ErrorReason :: "string option"
  ir_LockedUntil :: "go_time option"
  ir_ExpiresAt :: go_time

record IdempotencyConfig =
  ic_DefaultTTL :: go_duration
  ic_ProcessingTimeout :: go_duration
  ic_FailedRetryBackoff :: go_duration
  ic_MaxStoredResponseLen :: int
  ic_ObserveOnly :: bool

definition DefaultIdempotencyConfig :: IdempotencyConfig where
  "DefaultIdempotencyConfig = \<lparr>ic_DefaultTTL = 24 * hour, ic_ProcessingTimeout = 30 * second,
     ic_FailedRetryBackoff = 5 * second, ic_MaxStoredResponseLen = 64 * 1024, ic_ObserveOnly = True\<rparr>"

record 'd IdempotencyExecuteOptions =
  io_Scope :: string
  io_ActorScope :: string
  io_Method :: string
  io_Route :: string
  io_IdempotencyKey :: string
  io_Payload :: 'd
  io_TTL :: go_duration
  io_RequireKey :: bool

text \<open>Errors carry the metadata text \<open>retry_after\<close> where the code attaches it; an error of the
  executor is known by its reason.\<close>

datatype idem_error =
    ErrIdempotencyKeyRequired
  | ErrIdempotencyKeyInvalid
  | ErrIdempotencyKeyConflict
  | ErrIdempotencyInProgress "string option"
  | ErrIdempotencyRetryBackoff "string option"
  | ErrIdempotencyStoreUnavail
  | ErrIdempotencyInvalidPayload
  | ErrIdempotencyScopeRequired
  | ErrExecutor string

fun retry_after_text :: "idem_error \<Rightarrow> string option" where
  "retry_after_text (ErrIdempotencyInProgress m) = m"
| "retry_after_text (ErrIdempotencyRetryBackoff m) = m"
| "retry_after_text _ = None"

section \<open>Keys, fingerprints and retry hints\<close>

definition NormalizeIdempotencyKey :: "string \<Rightarrow> idem_error + string" where
  "NormalizeIdempotencyKey raw =
     (let key = trim_space raw
      in if key = [] then Inr []
         else if 128 < length key then Inl ErrIdempotencyKeyInvalid
         else if list_ex (\<lambda>c. byte_of c < 33 \<or> 126 < byte_of c) key then Inl ErrIdempotencyKeyInvalid
         else Inr key)"

definition newline :: string where
  "newline = [char_of (10::nat)]"

definition or_default :: "string \<Rightarrow> string \<Rightarrow> string" where
  "or_default s d = (if s = [] then d else s)"

definition fingerprint_text :: "string \<Rightarrow> string \<Rightarrow> string \<Rightarrow> string \<Rightarrow> string" where
  "fingerprint_text method route actor raw =
     to_upper (or_default method ''POST'') @ newline @ or_default route ''/'' @ newline
       @ or_default actor ''anonymous'' @ newline @ raw"

definition BuildIdempotencyFingerprint ::
  "'d codec \<Rightarrow> string \<Rightarrow> string \<Rightarrow> string \<Rightarrow> 'd \<Rightarrow> idem_error + string" where
  "BuildIdempotencyFingerprint cd method route actorScope payload =
     (case json_encode cd payload of
        None \<Rightarrow> Inl ErrIdempotencyInvalidPayload
      | Some raw \<Rightarrow> Inr (hash cd (fingerprint_text method route actorScope raw)))"

definition HashIdempotencyKey :: "'d codec \<Rightarrow> string \<Rightarrow> string" where
  "HashIdempotencyKey cd key = hash cd key"

definition RetryAfterSecondsFromError :: "idem_error \<Rightarrow> int" where
  "RetryAfterSecondsFromError e =
     (case retry_after_text e of
        None \<Rightarrow> 0
      | Some m \<Rightarrow>
          let v = trim_space m
          in if v = [] then 0
             else case parse_int64 v of None \<Rightarrow> 0 | Some n \<Rightarrow> if n \<le> 0 then 0 else n)"

definition conflictWithRetryAfter ::
  "(string option \<Rightarrow> idem_error) \<Rightarrow> go_time option \<Rightarrow> go_time \<Rightarrow> idem_error" where
  "conflictWithRetryAfter base lockedUntil now =
     (case lockedUntil of
        None \<Rightarrow> base None
      | Some t \<Rightarrow>
          let sec = trunc (Duration_Seconds (t - now))
          in base (Some (format_int (if sec \<le> 0 then 1 else sec))))"

section \<open>Stored responses\<close>

definition truncateUTF8 :: "string \<Rightarrow> int \<Rightarrow> string" where
  "truncateUTF8 s maxBytes =
     (if maxBytes \<le> 0 \<or> int (length s) \<le> maxBytes then s else take (shorten s (nat maxBytes)) s)"

definition truncated_mark :: string where
  "truncated_mark = ''...(truncated)''"

definition marshalStoredResponse :: "'d codec \<Rightarrow> IdempotencyConfig \<Rightarrow> 'd \<Rightarrow> string option" where
  "marshalStoredResponse cd cfg data =
     (case json_encode cd data of
        None \<Rightarrow> None
      | Some raw \<Rightarrow>
          let redacted = redact cd raw
          in if 0 < ic_MaxStoredResponseLen cfg \<and> ic_MaxStoredResponseLen cfg < int (length redacted)
             then Some (truncateUTF8 redacted (ic_MaxStoredResponseLen cfg) @ truncated_mark)
             else Some redacted)"

definition decodeStoredResponse :: "'d codec \<Rightarrow> string option \<Rightarrow> 'd option" where
  "decodeStoredResponse cd stored =
     (case stored of
        None \<Rightarrow> Some (empty_object cd)
      | Some body \<Rightarrow> if trim_space body = [] then Some (empty_object cd) else json_decode cd body)"

section \<open>The repository interface\<close>

text \<open>\<open>CreateProcessing\<close> returns the new identifier, or nothing when the key is taken.\<close>

record 's idem_repo =
  CreateProcessing :: "IdempotencyRecord \<Rightarrow> (unit, 's, int option) prog"
  GetByScopeAndKeyHash :: "string \<Rightarrow> string \<Rightarrow> (unit, 's, IdempotencyRecord option) prog"
  TryReclaim :: "int \<Rightarrow> idem_status \<Rightarrow> go_time \<Rightarrow> go_time \<Rightarrow> go_time \<Rightarrow> (unit, 's, bool) prog"
  MarkSucceeded :: "int \<Rightarrow> int \<Rightarrow> string \<Rightarrow> go_time \<Rightarrow> (unit, 's, unit) prog"
  MarkFailedRetryable :: "int \<Rightarrow> string \<Rightarrow> go_time \<Rightarrow> go_time \<Rightarrow> (unit, 's, unit) prog"

text \<open>What a call of \<open>Execute\<close> gives its caller: the data of a new execution, the replayed data of
  an earlier one, or an error. Until a claim is won, giving an answer is an early return.\<close>

datatype 'd answer = Fresh 'd | Replayed 'd | Refused idem_error

definition or_unavailable :: "(unit, 's, 'a) prog \<Rightarrow> ('d answer, 's, 'a) prog" where
  "or_unavailable m = (\<lambda>s. case m s of
     (Inl _, s') \<Rightarrow> (Inl (Refused ErrIdempotencyStoreUnavail), s') | (Inr a, s') \<Rightarrow> (Inr a, s'))"

section \<open>The claim\<close>

text \<open>A request as the claim sees it.\<close>

record request =
  rq_Scope :: string
  rq_KeyHash :: string
  rq_Fingerprint :: string
  rq_Now :: go_time
  rq_LockedUntil :: go_time
  rq_ExpiresAt :: go_time

definition processing_record :: "request \<Rightarrow> IdempotencyRecord" where
  "processing_record q = \<lparr>ir_ID = 0, ir_Scope = rq_Scope q, ir_KeyHash = rq_KeyHash q,
     ir_Fingerprint = rq_Fingerprint q, ir_Status = Processing, ir_ResponseStatus = None,
     ir_ResponseBody = None, ir_ErrorReason = None, ir_LockedUntil = Some (rq_LockedUntil q),
     ir_ExpiresAt = rq_ExpiresAt q\<rparr>"

text \<open>What an existing record that is not reclaimed as expired leads to: an answer, or an attempt to
  reclaim it after a failure.\<close>

definition answer_existing ::
  "'d codec \<Rightarrow> request \<Rightarrow> IdempotencyRecord \<Rightarrow> 'd answer option" where
  "answer_existing cd q existing =
     (case ir_Status existing of
        Succeeded \<Rightarrow>
          (case decodeStoredResponse cd (ir_ResponseBody existing) of
             None \<Rightarrow> Some (Refused ErrIdempotencyStoreUnavail)
           | Some d \<Rightarrow> Some (Replayed d))
      | Processing \<Rightarrow>
          Some (Refused (conflictWithRetryAfter ErrIdempotencyInProgress (ir_LockedUntil existing) (rq_Now q)))
      | FailedRetryable \<Rightarrow>
          (case ir_LockedUntil existing of
             Some t \<Rightarrow> if rq_Now q < t
               then Some (Refused (conflictWithRetryAfter ErrIdempotencyRetryBackoff (ir_LockedUntil existing) (rq_Now q)))
               else None
           | None \<Rightarrow> None)
      | OtherStatus _ \<Rightarrow> Some (Refused ErrIdempotencyKeyConflict))"

definition resume_existing ::
  "'s idem_repo \<Rightarrow> 'd codec \<Rightarrow> request \<Rightarrow> IdempotencyRecord \<Rightarrow> ('d answer, 's, int) prog" where
  "resume_existing repo cd q existing =
     (case answer_existing cd q existing of
        Some a \<Rightarrow> throw a
      | None \<Rightarrow>
          andthen (or_unavailable (TryReclaim repo (ir_ID existing) FailedRetryable (rq_Now q)
                     (rq_LockedUntil q) (rq_ExpiresAt q))) (\<lambda>taken.
          if taken then ret (ir_ID existing)
          else throw (Refused (conflictWithRetryAfter ErrIdempotencyInProgress (ir_LockedUntil existing) (rq_Now q)))))"

text \<open>Reading the record again: a missing record and a different fingerprint are refused.\<close>

definition check_record :: "request \<Rightarrow> IdempotencyRecord option \<Rightarrow> 'd answer + IdempotencyRecord" where
  "check_record q found =
     (case found of
        None \<Rightarrow> Inl (Refused ErrIdempotencyStoreUnavail)
      | Some r \<Rightarrow> if ir_Fingerprint r \<noteq> rq_Fingerprint q then Inl (Refused ErrIdempotencyKeyConflict) else Inr r)"

definition read_record ::
  "'s idem_repo \<Rightarrow> request \<Rightarrow> ('d answer, 's, IdempotencyRecord) prog" where
  "read_record repo q =
     andthen (or_unavailable (GetByScopeAndKeyHash repo (rq_Scope q) (rq_KeyHash q)))
       (\<lambda>found s. (check_record q found, s))"

definition claim :: "'s idem_repo \<Rightarrow> 'd codec \<Rightarrow> request \<Rightarrow> ('d answer, 's, int) prog" where
  "claim repo cd q =
     andthen (or_unavailable (CreateProcessing repo (processing_record q))) (\<lambda>owner.
     case owner of
       Some i \<Rightarrow> ret i
     | None \<Rightarrow>
         andthen (read_record repo q) (\<lambda>existing.
         if ir_ExpiresAt existing \<le> rq_Now q
         then andthen (or_unavailable (TryReclaim repo (ir_ID existing) (ir_Status existing) (rq_Now q)
                         (rq_LockedUntil q) (rq_ExpiresAt q))) (\<lambda>taken.
              if taken then ret (ir_ID existing)
              else andthen (read_record repo q) (resume_existing repo cd q))
         else resume_existing repo cd q existing))"

section \<open>Execution\<close>

definition on_store :: "('e, 's, 'a) prog \<Rightarrow> ('e, 's \<times> 'w, 'a) prog" where
  "on_store m = (\<lambda>(s, w). case m s of (r, s') \<Rightarrow> (r, (s', w)))"

definition on_world :: "('e, 'w, 'a) prog \<Rightarrow> ('e, 's \<times> 'w, 'a) prog" where
  "on_world m = (\<lambda>(s, w). case m w of (r, w') \<Rightarrow> (r, (s, w')))"

definition reason_or_default :: "string \<Rightarrow> string" where
  "reason_or_default r = or_default r ''EXECUTION_FAILED''"

text \<open>After a won claim: run the executor and record what it did. A failure to record a failure is
  logged only; a failure to record a success is reported although the execution has happened.\<close>

definition run_claimed ::
  "'s idem_repo \<Rightarrow> 'd codec \<Rightarrow> IdempotencyConfig \<Rightarrow> request \<Rightarrow> go_time \<Rightarrow> (string, 'w, 'd) prog \<Rightarrow> int
     \<Rightarrow> 's \<times> 'w \<Rightarrow> 'd answer \<times> 's \<times> 'w" where
  "run_claimed repo cd cfg q later exec i sw =
     (if i = 0 then (Refused ErrIdempotencyStoreUnavail, sw)
      else case on_world exec sw of
        (Inl reason, sw') \<Rightarrow>
          (Refused (ErrExecutor reason),
           snd (on_store (MarkFailedRetryable repo i (reason_or_default reason)
                  (later + ic_FailedRetryBackoff cfg) (rq_ExpiresAt q)) sw'))
      | (Inr data, sw') \<Rightarrow>
          (case marshalStoredResponse cd cfg data of
             None \<Rightarrow> (Refused ErrIdempotencyStoreUnavail, sw')
           | Some body \<Rightarrow>
               (case on_store (MarkSucceeded repo i 200 body (rq_ExpiresAt q)) sw' of
                  (Inl _, sw'') \<Rightarrow> (Refused ErrIdempotencyStoreUnavail, sw'')
                | (Inr _, sw'') \<Rightarrow> (Fresh data, sw''))))"

definition execute_request ::
  "'s idem_repo \<Rightarrow> 'd codec \<Rightarrow> IdempotencyConfig \<Rightarrow> request \<Rightarrow> go_time \<Rightarrow> (string, 'w, 'd) prog
     \<Rightarrow> 's \<times> 'w \<Rightarrow> 'd answer \<times> 's \<times> 'w" where
  "execute_request repo cd cfg q later exec sw =
     (case on_store (claim repo cd q) sw of
        (Inl a, sw') \<Rightarrow> (a, sw')
      | (Inr i, sw') \<Rightarrow> run_claimed repo cd cfg q later exec i sw')"

definition make_request ::
  "'d codec \<Rightarrow> IdempotencyConfig \<Rightarrow> 'd IdempotencyExecuteOptions \<Rightarrow> string \<Rightarrow> string \<Rightarrow> go_time \<Rightarrow> request" where
  "make_request cd cfg opts key fingerprint now =
     \<lparr>rq_Scope = io_Scope opts, rq_KeyHash = HashIdempotencyKey cd key, rq_Fingerprint = fingerprint,
      rq_Now = now, rq_LockedUntil = now + ic_ProcessingTimeout cfg,
      rq_ExpiresAt = now + (if io_TTL opts \<le> 0 then ic_DefaultTTL cfg else io_TTL opts)\<rparr>"

definition Execute ::
  "'s idem_repo option \<Rightarrow> 'd codec \<Rightarrow> IdempotencyConfig \<Rightarrow> go_time \<Rightarrow> go_time \<Rightarrow> 'd IdempotencyExecuteOptions
     \<Rightarrow> (string, 'w, 'd) prog \<Rightarrow> 's \<times> 'w \<Rightarrow> 'd answer \<times> 's \<times> 'w" where
  "Execute repo cd cfg now later opts exec sw =
     (case NormalizeIdempotencyKey (io_IdempotencyKey opts) of
        Inl e \<Rightarrow> (Refused e, sw)
      | Inr key \<Rightarrow>
          if key = []
          then if io_RequireKey opts \<and> \<not> ic_ObserveOnly cfg then (Refused ErrIdempotencyKeyRequired, sw)
               else (case on_world exec sw of
                       (Inl reason, sw') \<Rightarrow> (Refused (ErrExecutor reason), sw')
                     | (Inr data, sw') \<Rightarrow> (Fresh data, sw'))
          else case repo of
            None \<Rightarrow> (Refused ErrIdempotencyStoreUnavail, sw)
          | Some r \<Rightarrow>
              if io_Scope opts = [] then (Refused ErrIdempotencyScopeRequired, sw)
              else case BuildIdempotencyFingerprint cd (io_Method opts) (io_Route opts) (io_ActorScope opts) (io_Payload opts) of
                Inl e \<Rightarrow> (Refused e, sw)
              | Inr fp \<Rightarrow> execute_request r cd cfg (make_request cd cfg opts key fp now) later exec sw)"

end
