(* ===== verification/IdempotencyStore.thy ===== *)
theory IdempotencyStore
  imports Idempotency
begin

text \<open>
  The table behind the coordinator, \<open>repository/idempotency_repo.go\<close>, one definition per SQL
  statement, and the contract between the two: the locale \<open>idempotency_contract\<close> says what each
  operation of the repository does to the map from scope and key hash to record; the coordinator's
  lemmas are proved inside it, and it is interpreted on the SQL operations. The columns
  \<open>created_at\<close> and \<open>updated_at\<close>, which nothing reads, are left out.
\<close>

record idem_store =
  it_rows :: "IdempotencyRecord list"
  it_next_id :: int
  it_faults :: "bool list"

definition idb :: "(unit, idem_store, 'a) prog \<Rightarrow> (unit, idem_store, 'a) prog" where
  "idb = remote it_faults (\<lambda>bs s. s\<lparr>it_faults := bs\<rparr>) ()"

definition same_key :: "string \<Rightarrow> string \<Rightarrow> IdempotencyRecord \<Rightarrow> bool" where
  "same_key sc kh r \<longleftrightarrow> ir_Scope r = sc \<and> ir_KeyHash r = kh"

definition with_id :: "int \<Rightarrow> (IdempotencyRecord \<Rightarrow> IdempotencyRecord) \<Rightarrow> IdempotencyRecord list \<Rightarrow> IdempotencyRecord list" where
  "with_id i f rows = map (\<lambda>r. if ir_ID r = i then f r else r) rows"

text \<open>A conflicting insert still takes a number from the sequence.\<close>

definition create_stmt :: "IdempotencyRecord \<Rightarrow> (unit, idem_store, int option) prog" where
  "create_stmt r s =
     (if list_ex (same_key (ir_Scope r) (ir_KeyHash r)) (it_rows s)
      then (Inr None, s\<lparr>it_next_id := it_next_id s + 1\<rparr>)
      else (Inr (Some (it_next_id s)),
            s\<lparr>it_rows := it_rows s @ [r\<lparr>ir_ID := it_next_id s, ir_ResponseStatus := None,
                ir_ResponseBody := None, ir_ErrorReason := None\<rparr>],
              it_next_id := it_next_id s + 1\<rparr>))"

definition sql_CreateProcessing :: "IdempotencyRecord \<Rightarrow> (unit, idem_store, int option) prog" where
  "sql_CreateProcessing r = idb (create_stmt r)"

definition sql_GetByScopeAndKeyHash :: "string \<Rightarrow> string \<Rightarrow> (unit, idem_store, IdempotencyRecord option) prog" where
  "sql_GetByScopeAndKeyHash sc kh = idb (inspect (\<lambda>s. List.find (same_key sc kh) (it_rows s)))"

definition unlocked_at :: "go_time \<Rightarrow> IdempotencyRecord \<Rightarrow> bool" where
  "unlocked_at now r \<longleftrightarrow> (case ir_LockedUntil r of None \<Rightarrow> True | Some t \<Rightarrow> t \<le> now)"

definition reclaimed :: "go_time \<Rightarrow> go_time \<Rightarrow> IdempotencyRecord \<Rightarrow> IdempotencyRecord" where
  "reclaimed lockedUntil expiresAt r = r\<lparr>ir_Status := Processing, ir_LockedUntil := Some lockedUntil,
     ir_ErrorReason := None, ir_ExpiresAt := expiresAt\<rparr>"

definition reclaim_stmt ::
  "int \<Rightarrow> idem_status \<Rightarrow> go_time \<Rightarrow> go_time \<Rightarrow> go_time \<Rightarrow> (unit, idem_store, bool) prog" where
  "reclaim_stmt i fromStatus now newLockedUntil newExpiresAt s =
     (let hit = (\<lambda>r. ir_ID r = i \<and> ir_Status r = fromStatus \<and> unlocked_at now r)
      in (Inr (list_ex hit (it_rows s)),
          s\<lparr>it_rows := map (\<lambda>r. if hit r then reclaimed newLockedUntil newExpiresAt r else r) (it_rows s)\<rparr>))"

definition sql_TryReclaim ::
  "int \<Rightarrow> idem_status \<Rightarrow> go_time \<Rightarrow> go_time \<Rightarrow> go_time \<Rightarrow> (unit, idem_store, bool) prog" where
  "sql_TryReclaim i fromStatus now newLockedUntil newExpiresAt =
     idb (reclaim_stmt i fromStatus now newLockedUntil newExpiresAt)"

definition sql_ExtendProcessingLock ::
  "int \<Rightarrow> string \<Rightarrow> go_time \<Rightarrow> go_time \<Rightarrow> (unit, idem_store, bool) prog" where
  "sql_ExtendProcessingLock i fingerprint newLockedUntil newExpiresAt = idb (\<lambda>s.
     let hit = (\<lambda>r. ir_ID r = i \<and> ir_Status r = Processing \<and> ir_Fingerprint r = fingerprint)
     in (Inr (list_ex hit (it_rows s)),
         s\<lparr>it_rows := map (\<lambda>r. if hit r
             then r\<lparr>ir_LockedUntil := Some newLockedUntil, ir_ExpiresAt := newExpiresAt\<rparr> else r) (it_rows s)\<rparr>))"

definition succeeded :: "int \<Rightarrow> string \<Rightarrow> go_time \<Rightarrow> IdempotencyRecord \<Rightarrow> IdempotencyRecord" where
  "succeeded st body expiresAt r = r\<lparr>ir_Status := Succeeded, ir_ResponseStatus := Some st,
     ir_ResponseBody := Some body, ir_ErrorReason := None, ir_LockedUntil := None, ir_ExpiresAt := expiresAt\<rparr>"

definition sql_MarkSucceeded :: "int \<Rightarrow> int \<Rightarrow> string \<Rightarrow> go_time \<Rightarrow> (unit, idem_store, unit) prog" where
  "sql_MarkSucceeded i st body expiresAt = idb (\<lambda>s.
     (Inr (), s\<lparr>it_rows := with_id i (succeeded st body expiresAt) (it_rows s)\<rparr>))"

definition failed_retryable :: "string \<Rightarrow> go_time \<Rightarrow> go_time \<Rightarrow> IdempotencyRecord \<Rightarrow> IdempotencyRecord" where
  "failed_retryable reason lockedUntil expiresAt r = r\<lparr>ir_Status := FailedRetryable,
     ir_ErrorReason := Some reason, ir_LockedUntil := Some lockedUntil, ir_ExpiresAt := expiresAt\<rparr>"

definition sql_MarkFailedRetryable :: "int \<Rightarrow> string \<Rightarrow> go_time \<Rightarrow> go_time \<Rightarrow> (unit, idem_store, unit) prog" where
  "sql_MarkFailedRetryable i reason lockedUntil expiresAt = idb (\<lambda>s.
     (Inr (), s\<lparr>it_rows := with_id i (failed_retryable reason lockedUntil expiresAt) (it_rows s)\<rparr>))"

definition sql_DeleteExpired :: "go_time \<Rightarrow> int \<Rightarrow> (unit, idem_store, int) prog" where
  "sql_DeleteExpired now limit = idb (\<lambda>s.
     let n = (if limit \<le> 0 then 500 else nat limit);
         victims = map ir_ID (take n (sort_key ir_ExpiresAt (filter (\<lambda>r. ir_ExpiresAt r \<le> now) (it_rows s))));
         gone = (\<lambda>r. ir_ID r \<in> set victims)
     in (Inr (int (length (filter gone (it_rows s)))),
         s\<lparr>it_rows := filter (\<lambda>r. \<not> gone r) (it_rows s)\<rparr>))"

definition sql_repo :: "idem_store idem_repo" where
  "sql_repo = \<lparr>CreateProcessing = sql_CreateProcessing,
     GetByScopeAndKeyHash = sql_GetByScopeAndKeyHash, TryReclaim = sql_TryReclaim,
     MarkSucceeded = sql_MarkSucceeded, MarkFailedRetryable = sql_MarkFailedRetryable\<rparr>"

section \<open>The contract\<close>

locale idempotency_contract =
  fixes repo :: "'s idem_repo"
    and up :: "'s \<Rightarrow> bool"
    and view :: "'s \<Rightarrow> string \<times> string \<rightharpoonup> IdempotencyRecord"
  assumes create_free: "up s \<Longrightarrow> view s (rq_Scope q, rq_KeyHash q) = None \<Longrightarrow>
      \<exists>i s'. CreateProcessing repo (processing_record q) s = (Inr (Some i), s') \<and> i \<noteq> 0 \<and> up s'
        \<and> view s' = (view s)((rq_Scope q, rq_KeyHash q) \<mapsto> (processing_record q)\<lparr>ir_ID := i\<rparr>)"
    and create_taken: "up s \<Longrightarrow> view s (rq_Scope q, rq_KeyHash q) = Some r \<Longrightarrow>
      \<exists>s'. CreateProcessing repo (processing_record q) s = (Inr None, s') \<and> up s' \<and> view s' = view s"
    and get_view: "up s \<Longrightarrow> GetByScopeAndKeyHash repo sc kh s = (Inr (view s (sc, kh)), s)"
    and reclaim_taken: "up s \<Longrightarrow> view s k = Some r \<Longrightarrow> ir_Status r = st \<Longrightarrow> unlocked_at now r \<Longrightarrow>
      \<exists>s'. TryReclaim repo (ir_ID r) st now l e s = (Inr True, s') \<and> up s'
        \<and> view s' = (view s)(k \<mapsto> reclaimed l e r)"
    and mark_ok: "up s \<Longrightarrow> view s k = Some r \<Longrightarrow>
      \<exists>s'. MarkSucceeded repo (ir_ID r) code body e s = (Inr (), s') \<and> up s'
        \<and> view s' = (view s)(k \<mapsto> succeeded code body e r)"
    and mark_failed: "up s \<Longrightarrow> view s k = Some r \<Longrightarrow>
      \<exists>s'. MarkFailedRetryable repo (ir_ID r) reason l e s = (Inr (), s') \<and> up s'
        \<and> view s' = (view s)(k \<mapsto> failed_retryable reason l e r)"
    and id_nonzero: "up s \<Longrightarrow> view s k = Some r \<Longrightarrow> ir_ID r \<noteq> 0"
begin

text \<open>What happens once a claim is won, on the record of the claimed key.\<close>

lemma run_claimed_ok:
  assumes "up s" and "view s k = Some r" and "exec w = (Inr d, w')"
    and "marshalStoredResponse cd cfg d = Some body"
  shows "\<exists>s'. run_claimed repo cd cfg q later exec (ir_ID r) (s, w) = (Fresh d, s', w') \<and> up s'
    \<and> view s' = (view s)(k \<mapsto> succeeded 200 body (rq_ExpiresAt q) r)"
  using assms mark_ok [OF assms(1,2), of 200 body "rq_ExpiresAt q"] id_nonzero [OF assms(1,2)]
  by (auto simp: run_claimed_def on_world_def on_store_def)

lemma run_claimed_failed:
  assumes "up s" and "view s k = Some r" and "exec w = (Inl reason, w')"
  shows "\<exists>s'. run_claimed repo cd cfg q later exec (ir_ID r) (s, w) = (Refused (ErrExecutor reason), s', w') \<and> up s'
    \<and> view s' = (view s)(k \<mapsto> failed_retryable (reason_or_default reason)
        (later + ic_FailedRetryBackoff cfg) (rq_ExpiresAt q) r)"
  using assms mark_failed [OF assms(1,2), of "reason_or_default reason" "later + ic_FailedRetryBackoff cfg" "rq_ExpiresAt q"]
    id_nonzero [OF assms(1,2)]
  by (auto simp: run_claimed_def on_world_def on_store_def)

lemma claim_free:
  assumes "up s" and "view s (rq_Scope q, rq_KeyHash q) = None"
  shows "\<exists>i s'. claim repo cd q s = (Inr i, s') \<and> up s'
    \<and> view s' = (view s)((rq_Scope q, rq_KeyHash q) \<mapsto> (processing_record q)\<lparr>ir_ID := i\<rparr>)"
  using create_free [OF assms] by (auto simp: claim_def run_andthen or_unavailable_def run_ret)

text \<open>A repeated request before the record expires is answered from the record; when the failure's
  backoff is over it claims the record again.\<close>

lemma claim_existing:
  assumes "up s" and "view s (rq_Scope q, rq_KeyHash q) = Some r" and "ir_Fingerprint r = rq_Fingerprint q"
    and "rq_Now q < ir_ExpiresAt r" and "answer_existing cd q r = Some a"
  shows "\<exists>s'. claim repo cd q s = (Inl a, s') \<and> up s' \<and> view s' = view s"
  using create_taken [OF assms(1,2)] get_view [of _ "rq_Scope q" "rq_KeyHash q"] assms
  by (fastforce simp: claim_def run_andthen or_unavailable_def read_record_def check_record_def
      resume_existing_def run_throw)

lemma claim_mismatch:
  assumes "up s" and "view s (rq_Scope q, rq_KeyHash q) = Some r" and "ir_Fingerprint r \<noteq> rq_Fingerprint q"
  shows "\<exists>s'. claim repo cd q s = (Inl (Refused ErrIdempotencyKeyConflict), s') \<and> up s' \<and> view s' = view s"
  using create_taken [OF assms(1,2)] get_view [of _ "rq_Scope q" "rq_KeyHash q"] assms
  by (fastforce simp: claim_def run_andthen or_unavailable_def read_record_def check_record_def)

lemma claim_after_backoff:
  assumes "up s" and "view s (rq_Scope q, rq_KeyHash q) = Some r" and "ir_Fingerprint r = rq_Fingerprint q"
    and "rq_Now q < ir_ExpiresAt r" and "ir_Status r = FailedRetryable" and "unlocked_at (rq_Now q) r"
  shows "\<exists>s'. claim repo cd q s = (Inr (ir_ID r), s') \<and> up s'
    \<and> view s' = (view s)((rq_Scope q, rq_KeyHash q) \<mapsto> reclaimed (rq_LockedUntil q) (rq_ExpiresAt q) r)"
proof -
  obtain s1 where s1: "CreateProcessing repo (processing_record q) s = (Inr None, s1)" "up s1" "view s1 = view s"
    using create_taken [OF assms(1,2)] by blast
  moreover from s1 assms obtain s2 where "TryReclaim repo (ir_ID r) FailedRetryable (rq_Now q) (rq_LockedUntil q) (rq_ExpiresAt q) s1
      = (Inr True, s2)" "up s2"
    "view s2 = (view s)((rq_Scope q, rq_KeyHash q) \<mapsto> reclaimed (rq_LockedUntil q) (rq_ExpiresAt q) r)"
    using reclaim_taken [of s1 "(rq_Scope q, rq_KeyHash q)" r FailedRetryable "rq_Now q" "rq_LockedUntil q" "rq_ExpiresAt q"]
    by auto
  moreover have "answer_existing cd q r = None"
    using assms(5,6) by (auto simp: answer_existing_def unlocked_at_def split: option.splits)
  ultimately show ?thesis
    using get_view [OF s1(2), of "rq_Scope q" "rq_KeyHash q"] assms
    by (simp add: claim_def run_andthen or_unavailable_def read_record_def check_record_def
        resume_existing_def run_ret)
qed

text \<open>The coordinator executes a new request once and answers its repetitions from the record.\<close>

lemma execute_once:
  assumes "up s" and "view s (rq_Scope q, rq_KeyHash q) = None" and "exec w = (Inr d, w')"
    and "marshalStoredResponse cd cfg d = Some body" and "decodeStoredResponse cd (Some body) = Some d'"
  shows "\<exists>s'. execute_request repo cd cfg q later exec (s, w) = (Fresh d, s', w')
    \<and> (\<forall>q2 later2 exec2 w2. rq_Scope q2 = rq_Scope q \<longrightarrow> rq_KeyHash q2 = rq_KeyHash q \<longrightarrow>
         rq_Now q2 < rq_ExpiresAt q \<longrightarrow>
         (\<exists>s''. view s'' = view s' \<and> execute_request repo cd cfg q2 later2 exec2 (s', w2) =
            (if rq_Fingerprint q2 = rq_Fingerprint q then Replayed d' else Refused ErrIdempotencyKeyConflict, s'', w2)))"
proof -
  let ?k = "(rq_Scope q, rq_KeyHash q)"
  obtain i s1 where c: "claim repo cd q s = (Inr i, s1)" "up s1"
    "view s1 ?k = Some ((processing_record q)\<lparr>ir_ID := i\<rparr>)"
    using claim_free [OF assms(1,2), of cd] by fastforce
  let ?r = "succeeded 200 body (rq_ExpiresAt q) ((processing_record q)\<lparr>ir_ID := i\<rparr>)"
  have "\<exists>s2. run_claimed repo cd cfg q later exec (ir_ID ((processing_record q)\<lparr>ir_ID := i\<rparr>)) (s1, w) = (Fresh d, s2, w')
      \<and> up s2 \<and> view s2 = (view s1)(?k \<mapsto> ?r)"
    by (rule run_claimed_ok) (fact c assms)+
  with c(1) obtain s2 where
    run: "execute_request repo cd cfg q later exec (s, w) = (Fresh d, s2, w')" and s2: "up s2" "view s2 ?k = Some ?r"
    by (auto simp: execute_request_def on_store_def)
  have again: "\<exists>s''. view s'' = view s2 \<and> execute_request repo cd cfg q2 later2 exec2 (s2, w2) =
      (if rq_Fingerprint q2 = rq_Fingerprint q then Replayed d' else Refused ErrIdempotencyKeyConflict, s'', w2)"
    if k: "rq_Scope q2 = rq_Scope q" "rq_KeyHash q2 = rq_KeyHash q" and t: "rq_Now q2 < rq_ExpiresAt q"
    for q2 later2 exec2 w2
  proof -
    have v: "view s2 (rq_Scope q2, rq_KeyHash q2) = Some ?r" using s2 k by simp
    have "answer_existing cd q2 ?r = Some (Replayed d')" "ir_ExpiresAt ?r = rq_ExpiresAt q"
      "ir_Fingerprint ?r = rq_Fingerprint q"
      using assms(5) by (simp_all add: answer_existing_def succeeded_def processing_record_def)
    with claim_existing [OF s2(1) v, of cd] claim_mismatch [OF s2(1) v, of cd] t show ?thesis
      by (cases "rq_Fingerprint q2 = rq_Fingerprint q") (fastforce simp: execute_request_def on_store_def)+
  qed
  with run show ?thesis by blast
qed

end

section \<open>The SQL operations keep the contract\<close>

definition sql_view :: "idem_store \<Rightarrow> string \<times> string \<rightharpoonup> IdempotencyRecord" where
  "sql_view s k = List.find (same_key (fst k) (snd k)) (it_rows s)"

definition sql_up :: "idem_store \<Rightarrow> bool" where
  "sql_up s \<longleftrightarrow> it_faults s = [] \<and> 0 < it_next_id s
     \<and> (\<forall>r \<in> set (it_rows s). 0 < ir_ID r \<and> ir_ID r < it_next_id s)
     \<and> distinct (map ir_ID (it_rows s))
     \<and> distinct (map (\<lambda>r. (ir_Scope r, ir_KeyHash r)) (it_rows s))"

lemma idb_ok: "it_faults s = [] \<Longrightarrow> idb m s = m s"
  by (simp add: idb_def remote_def)

lemma find_key:
  assumes "distinct (map (\<lambda>r. (ir_Scope r, ir_KeyHash r)) rows)"
  shows "List.find (same_key a b) rows = Some r \<longleftrightarrow> r \<in> set rows \<and> ir_Scope r = a \<and> ir_KeyHash r = b"
  using assms by (induction rows) (auto simp: same_key_def rev_image_eqI split: if_splits)

lemma find_append:
  "List.find P (xs @ [x]) = (case List.find P xs of None \<Rightarrow> if P x then Some x else None | Some y \<Rightarrow> Some y)"
  by (induction xs) auto

lemma find_key_map:
  assumes "\<And>r. ir_Scope (f r) = ir_Scope r" and "\<And>r. ir_KeyHash (f r) = ir_KeyHash r"
  shows "List.find (same_key a b) (map f rows) = map_option f (List.find (same_key a b) rows)"
  by (induction rows) (simp_all add: same_key_def assms)

text \<open>Rewriting the row with one identifier rewrites the value of its key.\<close>

lemma view_rewrite:
  assumes up: "sql_up s" and r: "sql_view s k = Some r"
    and f: "\<And>q. ir_ID (f q) = ir_ID q" "\<And>q. ir_Scope (f q) = ir_Scope q" "\<And>q. ir_KeyHash (f q) = ir_KeyHash q"
  defines "s' \<equiv> s\<lparr>it_rows := with_id (ir_ID r) f (it_rows s)\<rparr>"
  shows "sql_up s' \<and> sql_view s' = (sql_view s)(k \<mapsto> f r)"
proof
  let ?g = "\<lambda>q. if ir_ID q = ir_ID r then f q else q"
  have keep: "ir_ID (?g q) = ir_ID q" "ir_Scope (?g q) = ir_Scope q" "ir_KeyHash (?g q) = ir_KeyHash q" for q
    using f by simp_all
  have "map ir_ID (map ?g rows) = map ir_ID rows"
    "map (\<lambda>r. (ir_Scope r, ir_KeyHash r)) (map ?g rows) = map (\<lambda>r. (ir_Scope r, ir_KeyHash r)) rows" for rows
    using keep by simp_all
  with up f show "sql_up s'" by (auto simp: sql_up_def s'_def with_id_def simp del: map_map)
  from up have dk: "distinct (map (\<lambda>r. (ir_Scope r, ir_KeyHash r)) (it_rows s))"
    and di: "distinct (map ir_ID (it_rows s))" by (simp_all add: sql_up_def)
  from r have mem: "r \<in> set (it_rows s)" "k = (ir_Scope r, ir_KeyHash r)"
    using find_key [OF dk] by (auto simp: sql_view_def)
  show "sql_view s' = (sql_view s)(k \<mapsto> f r)"
  proof (rule ext)
    fix k'
    have view: "sql_view s' k' = map_option ?g (sql_view s k')"
      unfolding s'_def sql_view_def with_id_def using find_key_map [of ?g, OF keep(2,3)] by simp
    show "sql_view s' k' = ((sql_view s)(k \<mapsto> f r)) k'"
    proof (cases "sql_view s k'")
      case None
      with view r show ?thesis by auto
    next
      case (Some q)
      then have q: "q \<in> set (it_rows s)" "k' = (ir_Scope q, ir_KeyHash q)"
        using find_key [OF dk] by (auto simp: sql_view_def)
      have "ir_ID q = ir_ID r \<longleftrightarrow> q = r" using di q(1) mem(1) by (auto simp: distinct_map inj_on_def)
      moreover have "k' = k \<longleftrightarrow> q = r" using dk q mem by (auto simp: distinct_map inj_on_def)
      ultimately show ?thesis using view Some by auto
    qed
  qed
qed

lemma reclaim_as_rewrite:
  assumes "sql_up s" and "r \<in> set (it_rows s)" and "ir_Status r = st" and "unlocked_at now r"
  shows "sql_TryReclaim (ir_ID r) st now l e s
    = (Inr True, s\<lparr>it_rows := with_id (ir_ID r) (reclaimed l e) (it_rows s)\<rparr>)"
proof -
  have "q = r" if "q \<in> set (it_rows s)" "ir_ID q = ir_ID r" for q
    using assms(1,2) that by (auto simp: sql_up_def distinct_map inj_on_def)
  then have "map (\<lambda>q. if ir_ID q = ir_ID r \<and> ir_Status q = st \<and> unlocked_at now q then reclaimed l e q else q) (it_rows s)
      = with_id (ir_ID r) (reclaimed l e) (it_rows s)"
    using assms(3,4) by (auto simp: with_id_def)
  with assms show ?thesis by (auto simp: sql_TryReclaim_def reclaim_stmt_def idb_ok sql_up_def Let_def list_ex_iff)
qed

interpretation sql: idempotency_contract sql_repo sql_up sql_view
proof
  fix s :: idem_store and q :: request
  assume up: "sql_up s" and none: "sql_view s (rq_Scope q, rq_KeyHash q) = None"
  let ?r = "(processing_record q)\<lparr>ir_ID := it_next_id s\<rparr>"
  let ?s' = "s\<lparr>it_rows := it_rows s @ [?r], it_next_id := it_next_id s + 1\<rparr>"
  from none have free: "\<not> same_key (rq_Scope q) (rq_KeyHash q) r" if "r \<in> set (it_rows s)" for r
    using that by (auto simp: sql_view_def find_None_iff)
  then have "sql_CreateProcessing (processing_record q) s = (Inr (Some (it_next_id s)), ?s')"
    using up by (simp add: sql_CreateProcessing_def create_stmt_def idb_ok sql_up_def list_ex_iff processing_record_def)
  moreover have "sql_up ?s'"
  proof -
    have "(rq_Scope q, rq_KeyHash q) \<notin> (\<lambda>r. (ir_Scope r, ir_KeyHash r)) ` set (it_rows s)"
    proof
      assume "(rq_Scope q, rq_KeyHash q) \<in> (\<lambda>r. (ir_Scope r, ir_KeyHash r)) ` set (it_rows s)"
      then obtain r where "r \<in> set (it_rows s)" "same_key (rq_Scope q) (rq_KeyHash q) r"
        by (auto simp: same_key_def)
      with free show False by blast
    qed
    moreover have "it_next_id s \<notin> ir_ID ` set (it_rows s)" using up by (auto simp: sql_up_def)
    ultimately show ?thesis using up by (auto simp: sql_up_def processing_record_def)
  qed
  moreover have "sql_view ?s' = (sql_view s)((rq_Scope q, rq_KeyHash q) \<mapsto> ?r)"
  proof (rule ext)
    fix k
    have "sql_view ?s' k = (case sql_view s k of
        None \<Rightarrow> if same_key (fst k) (snd k) ?r then Some ?r else None | Some y \<Rightarrow> Some y)"
      by (simp add: sql_view_def find_append)
    with none show "sql_view ?s' k = ((sql_view s)((rq_Scope q, rq_KeyHash q) \<mapsto> ?r)) k"
      by (cases k; cases "sql_view s k") (auto simp: same_key_def processing_record_def)
  qed
  ultimately show "\<exists>i s'. CreateProcessing sql_repo (processing_record q) s = (Inr (Some i), s') \<and> i \<noteq> 0 \<and> sql_up s'
        \<and> sql_view s' = (sql_view s)((rq_Scope q, rq_KeyHash q) \<mapsto> (processing_record q)\<lparr>ir_ID := i\<rparr>)"
    using up by (fastforce simp: sql_repo_def sql_up_def)
next
  fix s :: idem_store and q :: request and r
  assume up: "sql_up s" and some: "sql_view s (rq_Scope q, rq_KeyHash q) = Some r"
  then have "list_ex (same_key (rq_Scope q) (rq_KeyHash q)) (it_rows s)"
    by (auto simp: sql_view_def list_ex_iff find_Some_iff)
  with up have "sql_CreateProcessing (processing_record q) s = (Inr None, s\<lparr>it_next_id := it_next_id s + 1\<rparr>)"
    by (simp add: sql_CreateProcessing_def create_stmt_def idb_ok sql_up_def processing_record_def)
  with up show "\<exists>s'. CreateProcessing sql_repo (processing_record q) s = (Inr None, s') \<and> sql_up s' \<and> sql_view s' = sql_view s"
    by (force simp: sql_repo_def sql_up_def sql_view_def fun_eq_iff)
next
  fix s sc kh
  assume "sql_up s"
  then show "GetByScopeAndKeyHash sql_repo sc kh s = (Inr (sql_view s (sc, kh)), s)"
    by (simp add: sql_repo_def sql_GetByScopeAndKeyHash_def idb_ok sql_up_def sql_view_def run_inspect)
next
  fix s k r st now l e
  assume up: "sql_up s" and r: "sql_view s k = Some r" and st: "ir_Status r = st" "unlocked_at now r"
  then have "r \<in> set (it_rows s)" by (auto simp: sql_view_def find_Some_iff)
  from reclaim_as_rewrite [OF up this st] view_rewrite [OF up r, of "reclaimed l e"]
  show "\<exists>s'. TryReclaim sql_repo (ir_ID r) st now l e s = (Inr True, s') \<and> sql_up s'
        \<and> sql_view s' = (sql_view s)(k \<mapsto> reclaimed l e r)"
    by (simp add: sql_repo_def reclaimed_def)
next
  fix s k r code body e
  assume up: "sql_up s" and r: "sql_view s k = Some r"
  from view_rewrite [OF up r, of "succeeded code body e"] up
  show "\<exists>s'. MarkSucceeded sql_repo (ir_ID r) code body e s = (Inr (), s') \<and> sql_up s'
        \<and> sql_view s' = (sql_view s)(k \<mapsto> succeeded code body e r)"
    by (simp add: sql_repo_def succeeded_def sql_MarkSucceeded_def idb_ok sql_up_def)
next
  fix s k r reason l e
  assume up: "sql_up s" and r: "sql_view s k = Some r"
  from view_rewrite [OF up r, of "failed_retryable reason l e"] up
  show "\<exists>s'. MarkFailedRetryable sql_repo (ir_ID r) reason l e s = (Inr (), s') \<and> sql_up s'
        \<and> sql_view s' = (sql_view s)(k \<mapsto> failed_retryable reason l e r)"
    by (simp add: sql_repo_def failed_retryable_def sql_MarkFailedRetryable_def idb_ok sql_up_def)
next
  fix s k r
  assume "sql_up s" and "sql_view s k = Some r"
  then show "ir_ID r \<noteq> 0" by (auto simp: sql_up_def sql_view_def dest!: find_Some_mem)
qed

end
