(* ===== verification/IdempotencyProperties.thy ===== *)
theory IdempotencyProperties
  imports IdempotencyStore
begin

text \<open>
  The properties of the coordinator's parts and of a request served on its own: keys, fingerprints,
  retry hints, truncation of stored responses, one execution per key, and the responses that cannot
  be replayed.
\<close>

section \<open>Keys and fingerprints\<close>

text \<open>\<open>NormalizeIdempotencyKey\<close> accepts exactly the headers that are blank, which give no key,
  and those whose trimmed text is 1 to 128 visible ASCII characters, which give that text; a key it
  returns is accepted again unchanged.\<close>

theorem NormalizeIdempotencyKey_correct:
  "(\<forall>key. NormalizeIdempotencyKey raw = Inr key \<longleftrightarrow>
      key = trim_space raw \<and> length key \<le> 128 \<and> (\<forall>c \<in> set key. visible c))
   \<and> (\<forall>key. NormalizeIdempotencyKey raw = Inr key \<longrightarrow> NormalizeIdempotencyKey key = Inr key)"
proof -
  have eq: "NormalizeIdempotencyKey raw = Inr key \<longleftrightarrow>
      key = trim_space raw \<and> length key \<le> 128 \<and> (\<forall>c \<in> set key. visible c)" for raw key
  proof -
    have "list_ex (\<lambda>c. byte_of c < 33 \<or> 126 < byte_of c) s \<longleftrightarrow> \<not> (\<forall>c \<in> set s. visible c)" for s
      by (simp add: list_ex_iff visible_def not_le)
    then show ?thesis by (auto simp: NormalizeIdempotencyKey_def Let_def)
  qed
  then show ?thesis by (metis trim_space_visible)
qed

lemma NormalizeIdempotencyKey_correct_witness:
  "NormalizeIdempotencyKey ''abc'' = Inr ''abc''"
proof -
  have "NormalizeIdempotencyKey '' abc '' = Inr ''abc''" by code_simp
  with NormalizeIdempotencyKey_correct [of "'' abc ''"] show ?thesis by blast
qed

lemma to_upper_newline:
  assumes "char_of (10::nat) \<notin> set s" shows "char_of (10::nat) \<notin> set (to_upper s)"
proof
  assume "char_of (10::nat) \<in> set (to_upper s)"
  then obtain c where "c \<in> set s" "upper_char c = char_of (10::nat)" by (auto simp: to_upper_def)
  then have "c = char_of (10::nat)" by (auto simp: upper_char_def byte_of_def split: if_splits)
  with \<open>c \<in> set s\<close> assms show False by simp
qed

lemma split_line:
  assumes "a @ newline @ b = a' @ newline @ b'"
    and "char_of (10::nat) \<notin> set a" and "char_of (10::nat) \<notin> set a'"
  shows "a = a' \<and> b = b'"
  using split_at_unique [of a "char_of (10::nat)" b a' b'] assms by (simp add: newline_def)

text \<open>two requests have the same fingerprint exactly when they agree on the method (up to the
  case of letters), the route, the actor and the encoded payload, an empty method, route or actor
  counting as its default. The hash is assumed free of collisions and the three fields free of line
  breaks.\<close>

theorem fingerprint_identifies_request:
  assumes "inj (hash cd)"
    and "BuildIdempotencyFingerprint cd m r a p = Inr f" and "BuildIdempotencyFingerprint cd m' r' a' p' = Inr f'"
    and "\<forall>s \<in> {m, r, a, m', r', a'}. char_of (10::nat) \<notin> set s"
  shows "f = f' \<longleftrightarrow> to_upper (or_default m ''POST'') = to_upper (or_default m' ''POST'')
    \<and> or_default r ''/'' = or_default r' ''/'' \<and> or_default a ''anonymous'' = or_default a' ''anonymous''
    \<and> json_encode cd p = json_encode cd p'"
proof -
  obtain raw raw' where raw: "json_encode cd p = Some raw" "f = hash cd (fingerprint_text m r a raw)"
    and raw': "json_encode cd p' = Some raw'" "f' = hash cd (fingerprint_text m' r' a' raw')"
    using assms(2,3) by (auto simp: BuildIdempotencyFingerprint_def split: option.splits)
  have nl: "char_of (10::nat) \<notin> set (or_default s d)" if "char_of (10::nat) \<notin> set s" "char_of (10::nat) \<notin> set d" for s d
    using that by (simp add: or_default_def)
  have defaults: "char_of (10::nat) \<notin> set ''POST''" "char_of (10::nat) \<notin> set ''/''"
    "char_of (10::nat) \<notin> set ''anonymous''" by code_simp+
  have ok: "char_of (10::nat) \<notin> set (to_upper (or_default m ''POST''))"
    "char_of (10::nat) \<notin> set (to_upper (or_default m' ''POST''))"
    "char_of (10::nat) \<notin> set (or_default r ''/'')" "char_of (10::nat) \<notin> set (or_default r' ''/'')"
    "char_of (10::nat) \<notin> set (or_default a ''anonymous'')" "char_of (10::nat) \<notin> set (or_default a' ''anonymous'')"
    using assms(4) nl defaults by (simp_all add: to_upper_newline)
  have "f = f' \<longleftrightarrow> fingerprint_text m r a raw = fingerprint_text m' r' a' raw'"
    using assms(1) raw raw' by (auto simp: inj_eq)
  also have "\<dots> \<longleftrightarrow> to_upper (or_default m ''POST'') = to_upper (or_default m' ''POST'')
    \<and> or_default r ''/'' = or_default r' ''/'' \<and> or_default a ''anonymous'' = or_default a' ''anonymous''
    \<and> raw = raw'"
  proof
    assume "fingerprint_text m r a raw = fingerprint_text m' r' a' raw'"
    then have e1: "to_upper (or_default m ''POST'') @ newline @ (or_default r ''/'' @ newline @ or_default a ''anonymous'' @ newline @ raw)
      = to_upper (or_default m' ''POST'') @ newline @ (or_default r' ''/'' @ newline @ or_default a' ''anonymous'' @ newline @ raw')"
      unfolding fingerprint_text_def by simp
    from split_line [OF e1 ok(1,2)] have 1: "to_upper (or_default m ''POST'') = to_upper (or_default m' ''POST'')"
      and e2: "or_default r ''/'' @ newline @ (or_default a ''anonymous'' @ newline @ raw)
        = or_default r' ''/'' @ newline @ (or_default a' ''anonymous'' @ newline @ raw')" by blast+
    from split_line [OF e2 ok(3,4)] have 2: "or_default r ''/'' = or_default r' ''/''"
      and e3: "or_default a ''anonymous'' @ newline @ raw = or_default a' ''anonymous'' @ newline @ raw'" by blast+
    from split_line [OF e3 ok(5,6)] 1 2 show "to_upper (or_default m ''POST'') = to_upper (or_default m' ''POST'')
    \<and> or_default r ''/'' = or_default r' ''/'' \<and> or_default a ''anonymous'' = or_default a' ''anonymous'' \<and> raw = raw'"
      by blast
  qed (simp add: fingerprint_text_def)
  finally show ?thesis using raw(1) raw'(1) by simp
qed

definition example_codec :: "string codec" where
  "example_codec = \<lparr>hash = (\<lambda>s. s), json_encode = Some,
     json_decode = (\<lambda>s. if suffix truncated_mark s then None else Some s),
     redact = (\<lambda>s. s), empty_object = ''{}''\<rparr>"

lemma fingerprint_identifies_request_witness:
  "\<exists>f f'. BuildIdempotencyFingerprint example_codec ''post'' '''' ''user:1'' ''{}'' = Inr f
     \<and> BuildIdempotencyFingerprint example_codec '''' ''/'' ''user:1'' ''{}'' = Inr f' \<and> f = f'"
proof -
  let ?f = "fingerprint_text ''post'' '''' ''user:1'' ''{}''" and ?f' = "fingerprint_text '''' ''/'' ''user:1'' ''{}''"
  have "?f = ?f' \<longleftrightarrow> to_upper (or_default ''post'' ''POST'') = to_upper (or_default '''' ''POST'')
    \<and> or_default '''' ''/'' = or_default ''/'' ''/'' \<and> or_default ''user:1'' ''anonymous'' = or_default ''user:1'' ''anonymous''
    \<and> json_encode example_codec ''{}'' = json_encode example_codec ''{}''"
  proof (rule fingerprint_identifies_request)
    show "inj (hash example_codec)" by (simp add: example_codec_def)
    show "\<forall>s \<in> {''post'', '''', ''user:1'', '''', ''/'', ''user:1''}. char_of (10::nat) \<notin> set s" by code_simp
  qed (simp_all add: BuildIdempotencyFingerprint_def example_codec_def)
  moreover have "to_upper (or_default ''post'' ''POST'') = to_upper (or_default '''' ''POST'')" by code_simp
  ultimately show ?thesis by (simp add: BuildIdempotencyFingerprint_def example_codec_def or_default_def)
qed

section \<open>Retry hints\<close>

lemma format_int_visible: "c \<in> set (format_int n) \<Longrightarrow> visible c"
  using set_format_nat [of c "nat n"] set_format_nat [of c "nat (- n)"]
  by (auto simp: format_int_def visible_def byte_of_def split: if_splits)

lemma format_int_nonempty: "format_int n \<noteq> []"
  by (simp add: format_int_def)

text \<open>The retry hint a conflict carries can be read back, and it covers the lock: a client told
  of a lock that ends at \<open>t\<close> gets at least one second, never less than the whole seconds left and at
  most one more; without a lock there is no hint.\<close>

theorem retry_after_roundtrip:
  assumes "base \<in> {ErrIdempotencyInProgress, ErrIdempotencyRetryBackoff}" and "t - now < 2 ^ 63"
  shows "RetryAfterSecondsFromError (conflictWithRetryAfter base None now) = 0
    \<and> (let n = RetryAfterSecondsFromError (conflictWithRetryAfter base (Some t) now)
       in 1 \<le> n \<and> (t - now) div second \<le> n \<and> n \<le> max 1 ((t - now) div second + 1))"
proof -
  define sec where "sec = trunc (Duration_Seconds (t - now))"
  define n where "n = (if sec \<le> 0 then 1 else sec)"
  have bounds: "1 \<le> n \<and> (t - now) div second \<le> n \<and> n \<le> max 1 ((t - now) div second + 1) \<and> n < 2 ^ 63"
  proof (cases "0 \<le> t - now")
    case True
    with trunc_Duration_Seconds_bounds [OF True assms(2)] assms(2) show ?thesis
      unfolding n_def sec_def [symmetric] by auto
  next
    case False
    then have neg: "t - now < 0" by simp
    have "Duration_Seconds (t - now) \<le> 0"
    proof -
      have "go_div (t - now) second \<le> 0" "of_int (go_mod (t - now) second) \<le> (0::rat)"
        using neg by (auto simp: go_div_def go_mod_def sgn_if minus_div_mult_eq_mod pos_mod_sign)
      then have "rnd64 (of_int (go_mod (t - now) second) / of_int second) \<le> 0"
        using f64.rnd_le_float [of 0] f64.rnd_0 by (simp add: divide_nonpos_pos)
      with \<open>go_div (t - now) second \<le> 0\<close> show ?thesis
        unfolding Duration_Seconds_def fadd_def fdiv_def
        using f64.rnd_le_float [of 0] f64.rnd_0 by (simp add: add_nonpos_nonpos)
    qed
    then have "sec \<le> 0" unfolding sec_def trunc_def by (auto simp: floor_le_iff le_floor_iff)
    with neg show ?thesis unfolding n_def by (simp add: div_neg_pos_less0 less_imp_le order_trans [of _ 0 1])
  qed
  have trim: "trim_space (format_int n) = format_int n"
    by (rule trim_space_visible) (simp add: format_int_visible)
  have parse: "parse_int64 (format_int n) = Some n" using bounds by (intro parse_format_int) (simp add: is_int64_def)
  have "RetryAfterSecondsFromError (base (Some (format_int n))) = n"
    using assms(1) bounds trim parse format_int_nonempty [of n]
    by (auto simp: RetryAfterSecondsFromError_def Let_def)
  moreover have "conflictWithRetryAfter base (Some t) now = base (Some (format_int n))"
    by (simp add: conflictWithRetryAfter_def Let_def n_def sec_def)
  moreover have "RetryAfterSecondsFromError (conflictWithRetryAfter base None now) = 0"
    using assms(1) by (auto simp: RetryAfterSecondsFromError_def conflictWithRetryAfter_def)
  ultimately show ?thesis using bounds by (simp add: Let_def)
qed

lemma retry_after_roundtrip_witness:
  "let n = RetryAfterSecondsFromError (conflictWithRetryAfter ErrIdempotencyInProgress (Some (30 * second)) 0)
   in 30 \<le> n \<and> n \<le> 31"
  using retry_after_roundtrip [of ErrIdempotencyInProgress "30 * second" 0] by (simp add: Let_def)

section \<open>Truncation\<close>

text \<open>truncation cuts on a rune boundary and no more than it must: the result is a prefix of at
  most \<open>maxBytes\<close> bytes, it is valid UTF-8 when the text was, it is the text itself when that fits,
  and otherwise at most three bytes shorter than the bound.\<close>

theorem truncateUTF8_correct:
  assumes "utf8_valid s" and "0 < maxBytes"
  shows "prefix (truncateUTF8 s maxBytes) s \<and> int (length (truncateUTF8 s maxBytes)) \<le> maxBytes
    \<and> utf8_valid (truncateUTF8 s maxBytes)
    \<and> (if int (length s) \<le> maxBytes then truncateUTF8 s maxBytes = s
       else maxBytes - 3 \<le> int (length (truncateUTF8 s maxBytes)))"
proof (cases "int (length s) \<le> maxBytes")
  case True
  with assms show ?thesis by (simp add: truncateUTF8_def)
next
  case False
  let ?n = "nat maxBytes"
  have n: "?n \<le> length s" using False by simp
  obtain m where m: "m \<le> ?n" "?n \<le> m + 3" "utf8_valid (take m s)"
    using utf8_valid_take [OF assms(1) n] by blast
  then have "m \<le> shorten s ?n" by (intro shorten_max)
  moreover have "truncateUTF8 s maxBytes = take (shorten s ?n) s" using False assms(2) by (simp add: truncateUTF8_def)
  ultimately show ?thesis
    using False assms(2) m(2) n shorten_le [of s ?n] shorten_valid [of s ?n] by (auto simp: take_is_prefix)
qed

lemma truncateUTF8_correct_witness:
  "utf8_valid (truncateUTF8 (map char_of [97::nat, 195, 169, 98]) 2)
   \<and> length (truncateUTF8 (map char_of [97::nat, 195, 169, 98]) 2) \<le> 2"
proof -
  have "utf8_valid (map char_of [97::nat, 195, 169, 98])"
    by (simp add: utf8_valid.simps starts2_def cont_def)
  from truncateUTF8_correct [OF this, of 2] show ?thesis by simp
qed

section \<open>One execution per key\<close>

lemma Execute_claims:
  assumes "NormalizeIdempotencyKey (io_IdempotencyKey opts) = Inr key" and "key \<noteq> []" and "io_Scope opts \<noteq> []"
    and "BuildIdempotencyFingerprint cd (io_Method opts) (io_Route opts) (io_ActorScope opts) (io_Payload opts) = Inr fp"
  shows "Execute (Some repo) cd cfg now later opts exec sw =
    execute_request repo cd cfg (make_request cd cfg opts key fp now) later exec sw"
  using assms by (simp add: Execute_def)


definition example_options :: "string IdempotencyExecuteOptions" where
  "example_options = \<lparr>io_Scope = ''payment'', io_ActorScope = ''user:1'', io_Method = ''POST'',
     io_Route = ''/orders'', io_IdempotencyKey = ''k1'', io_Payload = ''{}'', io_TTL = 0, io_RequireKey = True\<rparr>"

definition empty_idem_store :: idem_store where
  "empty_idem_store = \<lparr>it_rows = [], it_next_id = 1, it_faults = []\<rparr>"


section \<open>Responses that cannot be replayed\<close>

text \<open>a response longer than the stored bound is stored with a mark that makes it undecodable, so
  it is never replayed: the first request gets its data, and every repetition before the record
  expires is refused as if the store were unavailable. The decoder is assumed to reject texts that
  end with the mark, as every JSON decoder does.\<close>

theorem long_response_never_replayed:
  fixes w w' :: 'w
  assumes "sql_up s" and "sql_view s (rq_Scope q, rq_KeyHash q) = None"
    and "exec w = (Inr d, w')" and "json_encode cd d = Some raw"
    and "0 < ic_MaxStoredResponseLen cfg" and "ic_MaxStoredResponseLen cfg < int (length (redact cd raw))"
    and "\<forall>x. json_decode cd (x @ truncated_mark) = None"
  shows "\<exists>s'. execute_request sql_repo cd cfg q later exec (s, w) = (Fresh d, s', w')
    \<and> (\<forall>q2 later2 exec2 (w2 :: 'w). rq_Scope q2 = rq_Scope q \<longrightarrow> rq_KeyHash q2 = rq_KeyHash q \<longrightarrow>
         rq_Fingerprint q2 = rq_Fingerprint q \<longrightarrow> rq_Now q2 < rq_ExpiresAt q \<longrightarrow>
         (\<exists>s''. execute_request sql_repo cd cfg q2 later2 exec2 (s', w2) =
            (Refused ErrIdempotencyStoreUnavail, s'', w2)))"
proof -
  let ?k = "(rq_Scope q, rq_KeyHash q)"
  let ?body = "truncateUTF8 (redact cd raw) (ic_MaxStoredResponseLen cfg) @ truncated_mark"
  have body: "marshalStoredResponse cd cfg d = Some ?body"
    using assms(4-6) by (simp add: marshalStoredResponse_def Let_def)
  obtain i s1 where c: "claim sql_repo cd q s = (Inr i, s1)" "sql_up s1"
    "sql_view s1 ?k = Some ((processing_record q)\<lparr>ir_ID := i\<rparr>)"
    using sql.claim_free [OF assms(1,2), of cd] by fastforce
  let ?r = "succeeded 200 ?body (rq_ExpiresAt q) ((processing_record q)\<lparr>ir_ID := i\<rparr>)"
  have "\<exists>s2. run_claimed sql_repo cd cfg q later exec (ir_ID ((processing_record q)\<lparr>ir_ID := i\<rparr>)) (s1, w) = (Fresh d, s2, w')
      \<and> sql_up s2 \<and> sql_view s2 = (sql_view s1)(?k \<mapsto> ?r)"
    by (rule sql.run_claimed_ok) (fact c assms body)+
  with c(1) obtain s2 where run: "execute_request sql_repo cd cfg q later exec (s, w) = (Fresh d, s2, w')"
    and s2: "sql_up s2" "sql_view s2 ?k = Some ?r"
    by (auto simp: execute_request_def on_store_def)
  have "trim_space (x @ truncated_mark) \<noteq> []" for x
    using trim_space_ends_visible [of "x @ truncated_mark"]
    by (simp add: truncated_mark_def visible_def byte_of_def)
  then have undecodable: "decodeStoredResponse cd (Some ?body) = None"
    using assms(7) by (simp add: decodeStoredResponse_def)
  have "\<exists>s''. execute_request sql_repo cd cfg q2 later2 exec2 (s2, w2) = (Refused ErrIdempotencyStoreUnavail, s'', w2)"
    if k: "rq_Scope q2 = rq_Scope q" "rq_KeyHash q2 = rq_KeyHash q" "rq_Fingerprint q2 = rq_Fingerprint q"
      "rq_Now q2 < rq_ExpiresAt q" for q2 later2 exec2 and w2 :: 'w
  proof -
    have "sql_view s2 (rq_Scope q2, rq_KeyHash q2) = Some ?r" using s2 k by simp
    from sql.claim_existing [OF s2(1) this, of cd] k undecodable show ?thesis
      by (fastforce simp: execute_request_def on_store_def answer_existing_def succeeded_def processing_record_def)
  qed
  with run show ?thesis by blast
qed

lemma long_response_never_replayed_witness:
  "\<exists>s' s''. execute_request sql_repo example_codec (DefaultIdempotencyConfig\<lparr>ic_MaxStoredResponseLen := 3\<rparr>)
       (make_request example_codec DefaultIdempotencyConfig example_options ''k1'' ''f'' 0) 0
       (\<lambda>n. (Inr ''[1,2]'', Suc n)) (empty_idem_store, 0) = (Fresh ''[1,2]'', s', 1)
     \<and> execute_request sql_repo example_codec (DefaultIdempotencyConfig\<lparr>ic_MaxStoredResponseLen := 3\<rparr>)
       (make_request example_codec DefaultIdempotencyConfig example_options ''k1'' ''f'' hour) 0
       (\<lambda>n. (Inr ''[1,2]'', Suc n)) (s', 1) = (Refused ErrIdempotencyStoreUnavail, s'', 1)"
proof -
  let ?q = "make_request example_codec DefaultIdempotencyConfig example_options ''k1'' ''f''"
  have "\<exists>s'. execute_request sql_repo example_codec (DefaultIdempotencyConfig\<lparr>ic_MaxStoredResponseLen := 3\<rparr>) (?q 0) 0
       (\<lambda>n. (Inr ''[1,2]'', Suc n)) (empty_idem_store, 0) = (Fresh ''[1,2]'', s', Suc 0)
    \<and> (\<forall>q2 later2 exec2 (w2 :: nat). rq_Scope q2 = rq_Scope (?q 0) \<longrightarrow> rq_KeyHash q2 = rq_KeyHash (?q 0) \<longrightarrow>
         rq_Fingerprint q2 = rq_Fingerprint (?q 0) \<longrightarrow> rq_Now q2 < rq_ExpiresAt (?q 0) \<longrightarrow>
         (\<exists>s''. execute_request sql_repo example_codec (DefaultIdempotencyConfig\<lparr>ic_MaxStoredResponseLen := 3\<rparr>) q2 later2 exec2 (s', w2) =
            (Refused ErrIdempotencyStoreUnavail, s'', w2)))"
    by (rule long_response_never_replayed [where raw = "''[1,2]''"])
      (simp_all add: sql_up_def empty_idem_store_def sql_view_def example_codec_def
        DefaultIdempotencyConfig_def suffix_def)
  then obtain s' where first: "execute_request sql_repo example_codec (DefaultIdempotencyConfig\<lparr>ic_MaxStoredResponseLen := 3\<rparr>) (?q 0) 0
       (\<lambda>n. (Inr ''[1,2]'', Suc n)) (empty_idem_store, 0) = (Fresh ''[1,2]'', s', Suc 0)"
    and again: "\<And>q2 later2 exec2 (w2 :: nat). rq_Scope q2 = rq_Scope (?q 0) \<Longrightarrow> rq_KeyHash q2 = rq_KeyHash (?q 0) \<Longrightarrow>
         rq_Fingerprint q2 = rq_Fingerprint (?q 0) \<Longrightarrow> rq_Now q2 < rq_ExpiresAt (?q 0) \<Longrightarrow>
         \<exists>s''. execute_request sql_repo example_codec (DefaultIdempotencyConfig\<lparr>ic_MaxStoredResponseLen := 3\<rparr>) q2 later2 exec2 (s', w2) =
            (Refused ErrIdempotencyStoreUnavail, s'', w2)"
    by blast
  have "rq_Now (?q hour) < rq_ExpiresAt (?q 0)"
    by (simp add: make_request_def example_options_def DefaultIdempotencyConfig_def)
  from again [OF _ _ _ this, of 0 "\<lambda>n. (Inr ''[1,2]'', Suc n)" "Suc 0"] first show ?thesis
    by (auto simp: make_request_def)
qed

end
