(* ===== verification/IdempotencyConcurrency.thy ===== *)
theory IdempotencyConcurrency
  imports IdempotencyProperties
begin

text \<open>
  Requests that run at the same time. \<open>claim_step\<close> is the claim of one request cut at its
  repository calls, each of which is one SQL statement and so atomic; running its steps without
  interruption is \<open>claim\<close>. A machine holds the table, a clock and the requests in progress; its
  steps interleave the requests in any way. Two assumptions about time are guards of the steps: a
  claim takes less than the processing timeout, and an execution ends before its record expires.
  Under them at most one execution per key runs at any time, and none while a success is stored.
\<close>

section \<open>A claim in steps\<close>

datatype 'd pc =
    AtCreate
  | AtGet
  | AtReclaimExpired IdempotencyRecord
  | AtGetAgain
  | AtReclaimFailed IdempotencyRecord
  | Claimed int
  | Answered "'d answer"

definition unavailable :: "'d pc" where
  "unavailable = Answered (Refused ErrIdempotencyStoreUnavail)"

definition resume_pc :: "'d codec \<Rightarrow> request \<Rightarrow> IdempotencyRecord \<Rightarrow> 'd pc" where
  "resume_pc cd q r = (case answer_existing cd q r of Some a \<Rightarrow> Answered a | None \<Rightarrow> AtReclaimFailed r)"

definition after_get :: "'d codec \<Rightarrow> request \<Rightarrow> IdempotencyRecord option \<Rightarrow> 'd pc" where
  "after_get cd q found = (case check_record q found of
     Inl a \<Rightarrow> Answered a
   | Inr r \<Rightarrow> if ir_ExpiresAt r \<le> rq_Now q then AtReclaimExpired r else resume_pc cd q r)"

definition after_get_again :: "'d codec \<Rightarrow> request \<Rightarrow> IdempotencyRecord option \<Rightarrow> 'd pc" where
  "after_get_again cd q found = (case check_record q found of
     Inl a \<Rightarrow> Answered a | Inr r \<Rightarrow> resume_pc cd q r)"

definition continue :: "('a \<Rightarrow> 'd pc) \<Rightarrow> (unit + 'a) \<times> 's \<Rightarrow> 'd pc \<times> 's" where
  "continue k out = (case out of (Inl _, s) \<Rightarrow> (unavailable, s) | (Inr a, s) \<Rightarrow> (k a, s))"

fun claim_step :: "'s idem_repo \<Rightarrow> 'd codec \<Rightarrow> request \<Rightarrow> 'd pc \<times> 's \<Rightarrow> 'd pc \<times> 's" where
  "claim_step repo cd q (AtCreate, s) =
     continue (\<lambda>owner. case owner of Some i \<Rightarrow> Claimed i | None \<Rightarrow> AtGet)
       (CreateProcessing repo (processing_record q) s)"
| "claim_step repo cd q (AtGet, s) =
     continue (after_get cd q) (GetByScopeAndKeyHash repo (rq_Scope q) (rq_KeyHash q) s)"
| "claim_step repo cd q (AtReclaimExpired r, s) =
     continue (\<lambda>taken. if taken then Claimed (ir_ID r) else AtGetAgain)
       (TryReclaim repo (ir_ID r) (ir_Status r) (rq_Now q) (rq_LockedUntil q) (rq_ExpiresAt q) s)"
| "claim_step repo cd q (AtGetAgain, s) =
     continue (after_get_again cd q) (GetByScopeAndKeyHash repo (rq_Scope q) (rq_KeyHash q) s)"
| "claim_step repo cd q (AtReclaimFailed r, s) =
     continue (\<lambda>taken. if taken then Claimed (ir_ID r)
         else Answered (Refused (conflictWithRetryAfter ErrIdempotencyInProgress (ir_LockedUntil r) (rq_Now q))))
       (TryReclaim repo (ir_ID r) FailedRetryable (rq_Now q) (rq_LockedUntil q) (rq_ExpiresAt q) s)"
| "claim_step repo cd q (Claimed i, s) = (Claimed i, s)"
| "claim_step repo cd q (Answered a, s) = (Answered a, s)"

definition outcome_pc :: "'d answer + int \<Rightarrow> 'd pc" where
  "outcome_pc out = (case out of Inl a \<Rightarrow> Answered a | Inr i \<Rightarrow> Claimed i)"

fun run_claim :: "nat \<Rightarrow> 's idem_repo \<Rightarrow> 'd codec \<Rightarrow> request \<Rightarrow> 'd pc \<times> 's \<Rightarrow> 'd pc \<times> 's" where
  "run_claim 0 repo cd q st = st"
| "run_claim (Suc n) repo cd q st = run_claim n repo cd q (claim_step repo cd q st)"

lemma run_claim_final [simp]:
  "run_claim n repo cd q (Claimed i, s) = (Claimed i, s)"
  "run_claim n repo cd q (Answered a, s) = (Answered a, s)"
  "run_claim n repo cd q (unavailable, s) = (unavailable, s)"
  by (induction n) (simp_all add: unavailable_def)

lemma run_resume:
  "run_claim (Suc n) repo cd q (resume_pc cd q r, s)
     = (case resume_existing repo cd q r s of (out, s') \<Rightarrow> (outcome_pc out, s'))"
proof (cases "answer_existing cd q r")
  case None
  obtain out s' where "TryReclaim repo (ir_ID r) FailedRetryable (rq_Now q) (rq_LockedUntil q) (rq_ExpiresAt q) s = (out, s')"
    by fastforce
  with None show ?thesis
    by (cases out) (auto simp: resume_pc_def resume_existing_def run or_unavailable_def continue_def
        outcome_pc_def unavailable_def)
next
  case (Some a)
  then show ?thesis by (simp add: resume_pc_def resume_existing_def run outcome_pc_def)
qed

lemma run_get_again:
  fixes cd :: "'d codec"
  shows "run_claim (Suc (Suc n)) repo cd q (AtGetAgain, s)
     = (case andthen (read_record repo q) (resume_existing repo cd q) s of (out, s') \<Rightarrow> (outcome_pc out, s'))"
proof -
  obtain out s' where get: "GetByScopeAndKeyHash repo (rq_Scope q) (rq_KeyHash q) s = (out, s')" by fastforce
  show ?thesis
  proof (cases out)
    case (Inl u)
    with get show ?thesis
      by (simp add: continue_def run read_record_def or_unavailable_def outcome_pc_def unavailable_def)
  next
    case (Inr found)
    show ?thesis
    proof (cases "check_record q found :: 'd answer + IdempotencyRecord")
      case (Inl a)
      with get \<open>out = Inr found\<close> show ?thesis
        by (simp add: continue_def run read_record_def or_unavailable_def outcome_pc_def after_get_again_def)
    next
      case (Inr r)
      with get \<open>out = Inr found\<close> run_resume [of n repo cd q r s'] show ?thesis
        by (simp add: continue_def run read_record_def or_unavailable_def after_get_again_def)
    qed
  qed
qed


section \<open>The machine\<close>

record 'd machine =
  m_store :: idem_store
  m_clock :: go_time
  m_reqs :: "nat \<rightharpoonup> request \<times> 'd pc"

definition claiming :: "'d pc \<Rightarrow> bool" where
  "claiming pc \<longleftrightarrow> (case pc of Claimed _ \<Rightarrow> False | Answered _ \<Rightarrow> False | _ \<Rightarrow> True)"

text \<open>\<open>timeout\<close> is the processing timeout of the configuration. \<open>Arrive\<close> makes a request as
  \<open>make_request\<close> does; \<open>Claim\<close> runs one step of a claim that is not older than the timeout;
  \<open>Succeed\<close> and \<open>Fail\<close> record the outcome of an execution, \<open>Crash\<close> is an execution that ends
  without being recorded; \<open>Tick\<close> lets time pass as long as no execution outlives its record.\<close>

inductive machine_step :: "'d codec \<Rightarrow> go_duration \<Rightarrow> 'd machine \<Rightarrow> 'd machine \<Rightarrow> bool"
  for cd :: "'d codec" and timeout :: go_duration where
  Arrive: "m_reqs m n = None \<Longrightarrow> rq_Now q = m_clock m \<Longrightarrow> rq_LockedUntil q = rq_Now q + timeout \<Longrightarrow>
     rq_LockedUntil q \<le> rq_ExpiresAt q \<Longrightarrow>
     machine_step cd timeout m (m\<lparr>m_reqs := (m_reqs m)(n \<mapsto> (q, AtCreate))\<rparr>)"
| Claim: "m_reqs m n = Some (q, pc) \<Longrightarrow> claiming pc \<Longrightarrow> m_clock m < rq_LockedUntil q \<Longrightarrow>
     claim_step sql_repo cd q (pc, m_store m) = (pc', s') \<Longrightarrow>
     machine_step cd timeout m (m\<lparr>m_store := s', m_reqs := (m_reqs m)(n \<mapsto> (q, pc'))\<rparr>)"
| Succeed: "m_reqs m n = Some (q, Claimed i) \<Longrightarrow>
     sql_MarkSucceeded i 200 body (rq_ExpiresAt q) (m_store m) = (Inr (), s') \<Longrightarrow>
     machine_step cd timeout m (m\<lparr>m_store := s', m_reqs := (m_reqs m)(n \<mapsto> (q, Answered a))\<rparr>)"
| Fail: "m_reqs m n = Some (q, Claimed i) \<Longrightarrow>
     sql_MarkFailedRetryable i reason backoffUntil (rq_ExpiresAt q) (m_store m) = (Inr (), s') \<Longrightarrow>
     machine_step cd timeout m (m\<lparr>m_store := s', m_reqs := (m_reqs m)(n \<mapsto> (q, Answered a))\<rparr>)"
| Crash: "m_reqs m n = Some (q, Claimed i) \<Longrightarrow>
     machine_step cd timeout m (m\<lparr>m_reqs := (m_reqs m)(n \<mapsto> (q, Answered a))\<rparr>)"
| Tick: "m_clock m \<le> t \<Longrightarrow> (\<And>n q i. m_reqs m n = Some (q, Claimed i) \<Longrightarrow> t < rq_ExpiresAt q) \<Longrightarrow>
     machine_step cd timeout m (m\<lparr>m_clock := t\<rparr>)"
| Cleanup: "sql_DeleteExpired (m_clock m) limit (m_store m) = (out, s') \<Longrightarrow>
     machine_step cd timeout m (m\<lparr>m_store := s'\<rparr>)"
| FailurePattern: "machine_step cd timeout m (m\<lparr>m_store := (m_store m)\<lparr>it_faults := bs\<rparr>\<rparr>)"

inductive machine_reachable :: "'d codec \<Rightarrow> go_duration \<Rightarrow> 'd machine \<Rightarrow> bool"
  for cd :: "'d codec" and timeout :: go_duration where
  Initial: "it_rows (m_store m) = [] \<Longrightarrow> 0 < it_next_id (m_store m) \<Longrightarrow> m_reqs m = Map.empty \<Longrightarrow>
     machine_reachable cd timeout m"
| Next: "machine_reachable cd timeout m \<Longrightarrow> machine_step cd timeout m m' \<Longrightarrow> machine_reachable cd timeout m'"

section \<open>What a step of a claim does to the table\<close>

definition key_of :: "IdempotencyRecord \<Rightarrow> string \<times> string" where
  "key_of r = (ir_Scope r, ir_KeyHash r)"

definition rq_key :: "request \<Rightarrow> string \<times> string" where
  "rq_key q = (rq_Scope q, rq_KeyHash q)"

definition rows_ok :: "idem_store \<Rightarrow> bool" where
  "rows_ok s \<longleftrightarrow> 0 < it_next_id s \<and> (\<forall>r \<in> set (it_rows s). 0 < ir_ID r \<and> ir_ID r < it_next_id s)
     \<and> distinct (map ir_ID (it_rows s)) \<and> distinct (map key_of (it_rows s))"

text \<open>The record a step of a claim works with was read for the request's key.\<close>

definition pc_record :: "'d pc \<Rightarrow> IdempotencyRecord option" where
  "pc_record pc = (case pc of AtReclaimExpired r \<Rightarrow> Some r | AtReclaimFailed r \<Rightarrow> Some r | _ \<Rightarrow> None)"

definition pc_from :: "'d pc \<Rightarrow> idem_status" where
  "pc_from pc = (case pc of AtReclaimExpired r \<Rightarrow> ir_Status r | _ \<Rightarrow> FailedRetryable)"

definition reclaim_rows ::
  "request \<Rightarrow> int \<Rightarrow> idem_status \<Rightarrow> IdempotencyRecord list \<Rightarrow> IdempotencyRecord list" where
  "reclaim_rows q i st rows = map (\<lambda>r. if ir_ID r = i \<and> ir_Status r = st \<and> unlocked_at (rq_Now q) r
     then reclaimed (rq_LockedUntil q) (rq_ExpiresAt q) r else r) rows"

lemma idb_cases:
  "(\<exists>bs. idb m s = (Inl (), s\<lparr>it_faults := bs\<rparr>)) \<or> (\<exists>bs. idb m s = m (s\<lparr>it_faults := bs\<rparr>))"
proof (cases "it_faults s")
  case Nil
  then have eq: "s\<lparr>it_faults := []\<rparr> = s" by (cases s) simp
  from Nil have "idb m s = m s" by (simp add: idb_def remote_def)
  then have "idb m s = m (s\<lparr>it_faults := []\<rparr>)" by (simp only: eq)
  then show ?thesis by blast
next
  case (Cons b bs)
  then show ?thesis by (cases b) (auto simp: idb_def remote_def)
qed

lemma pc_record_resume: "pc_record (resume_pc cd q r) = Some r \<or> pc_record (resume_pc cd q r) = None"
  and not_claimed_resume: "resume_pc cd q r \<noteq> Claimed i" "resume_pc cd q r \<noteq> AtReclaimExpired r'"
  by (auto simp: resume_pc_def pc_record_def split: option.split)

text \<open>A step that does not win the claim keeps the rows; the record it remembers is a row of the
  request's key, and one it means to reclaim as expired had expired when the request began.\<close>

definition quiet_step :: "request \<Rightarrow> 'd pc \<Rightarrow> 'd pc \<Rightarrow> idem_store \<Rightarrow> idem_store \<Rightarrow> bool" where
  "quiet_step q pc pc' s s' \<longleftrightarrow> it_rows s' = it_rows s \<and> it_next_id s \<le> it_next_id s' \<and> (\<forall>i. pc' \<noteq> Claimed i)
     \<and> (\<forall>r. pc_record pc' = Some r \<longrightarrow> r \<in> set (it_rows s) \<and> key_of r = rq_key q)
     \<and> (\<forall>r. pc' = AtReclaimExpired r \<longrightarrow> ir_ExpiresAt r \<le> rq_Now q)"

definition insert_step :: "request \<Rightarrow> 'd pc \<Rightarrow> idem_store \<Rightarrow> idem_store \<Rightarrow> bool" where
  "insert_step q pc' s s' \<longleftrightarrow> pc' = Claimed (it_next_id s) \<and> it_next_id s' = it_next_id s + 1
     \<and> it_rows s' = it_rows s @ [(processing_record q)\<lparr>ir_ID := it_next_id s\<rparr>]
     \<and> rq_key q \<notin> key_of ` set (it_rows s)"

definition reclaim_step :: "request \<Rightarrow> 'd pc \<Rightarrow> 'd pc \<Rightarrow> idem_store \<Rightarrow> idem_store \<Rightarrow> bool" where
  "reclaim_step q pc pc' s s' \<longleftrightarrow> (\<exists>r p. pc_record pc = Some r \<and> pc' = Claimed (ir_ID r)
     \<and> p \<in> set (it_rows s) \<and> ir_ID p = ir_ID r \<and> ir_Status p = pc_from pc \<and> unlocked_at (rq_Now q) p
     \<and> it_next_id s' = it_next_id s \<and> it_rows s' = reclaim_rows q (ir_ID r) (pc_from pc) (it_rows s))"

lemma quiet_unavailable: "quiet_step q pc unavailable s (s\<lparr>it_faults := bs\<rparr>)"
  by (simp add: quiet_step_def unavailable_def pc_record_def)

lemma reclaim_none:
  "\<not> list_ex (\<lambda>r. ir_ID r = i \<and> ir_Status r = st \<and> unlocked_at (rq_Now q) r) rows \<Longrightarrow>
     map (\<lambda>r. if ir_ID r = i \<and> ir_Status r = st \<and> unlocked_at (rq_Now q) r then f r else r) rows = rows"
  by (induction rows) auto

lemma reclaim_effect:
  assumes "pc_record pc = Some r"
    and "continue k (sql_TryReclaim (ir_ID r) (pc_from pc) (rq_Now q) (rq_LockedUntil q) (rq_ExpiresAt q) s) = (pc', s')"
    and "k True = Claimed (ir_ID r)" and "\<And>i. k False \<noteq> Claimed i" and "pc_record (k False) = None"
  shows "quiet_step q pc pc' s s' \<or> reclaim_step q pc pc' s s'"
proof -
  let ?hit = "\<lambda>p. ir_ID p = ir_ID r \<and> ir_Status p = pc_from pc \<and> unlocked_at (rq_Now q) p"
  let ?stmt = "reclaim_stmt (ir_ID r) (pc_from pc) (rq_Now q) (rq_LockedUntil q) (rq_ExpiresAt q)"
  from idb_cases [of ?stmt s] show ?thesis
  proof (elim disjE exE)
    fix bs assume "idb ?stmt s = (Inl (), s\<lparr>it_faults := bs\<rparr>)"
    with assms(2) have "pc' = unavailable" "s' = s\<lparr>it_faults := bs\<rparr>"
      by (simp_all add: sql_TryReclaim_def continue_def)
    then show ?thesis using quiet_unavailable by blast
  next
    fix bs assume "idb ?stmt s = ?stmt (s\<lparr>it_faults := bs\<rparr>)"
    with assms(2) have *: "pc' = k (list_ex ?hit (it_rows s))" "it_next_id s' = it_next_id s"
      "it_rows s' = reclaim_rows q (ir_ID r) (pc_from pc) (it_rows s)"
      by (auto simp: sql_TryReclaim_def reclaim_stmt_def continue_def Let_def reclaim_rows_def)
    show ?thesis
    proof (cases "list_ex ?hit (it_rows s)")
      case True
      with * assms(1,3) show ?thesis by (auto simp: reclaim_step_def list_ex_iff)
    next
      case False
      from reclaim_none [OF this] have "it_rows s' = it_rows s" using *(3) by (simp add: reclaim_rows_def)
      with False * assms(4,5) show ?thesis by (auto simp: quiet_step_def pc_record_def split: pc.splits)
    qed
  qed
qed

lemma find_same_key: "List.find (same_key (rq_Scope q) (rq_KeyHash q)) rows = Some r \<Longrightarrow>
    r \<in> set rows \<and> key_of r = rq_key q"
  by (auto simp: same_key_def key_of_def rq_key_def dest!: find_Some_mem)

lemma get_effect:
  assumes "continue k (sql_GetByScopeAndKeyHash (rq_Scope q) (rq_KeyHash q) s) = (pc', s')"
    and "\<And>found i. k found \<noteq> Claimed i"
    and "\<And>found r. pc_record (k found) = Some r \<Longrightarrow> found = Some r"
    and "\<And>found r. k found = AtReclaimExpired r \<Longrightarrow> ir_ExpiresAt r \<le> rq_Now q"
  shows "quiet_step q pc pc' s s'"
proof -
  let ?stmt = "inspect (\<lambda>s. List.find (same_key (rq_Scope q) (rq_KeyHash q)) (it_rows s))
    :: (unit, idem_store, IdempotencyRecord option) prog"
  from idb_cases [of ?stmt s] show ?thesis
  proof (elim disjE exE)
    fix bs assume "idb ?stmt s = (Inl (), s\<lparr>it_faults := bs\<rparr>)"
    with assms(1) have "pc' = unavailable" "s' = s\<lparr>it_faults := bs\<rparr>"
      by (simp_all add: sql_GetByScopeAndKeyHash_def continue_def)
    then show ?thesis using quiet_unavailable by blast
  next
    fix bs assume "idb ?stmt s = ?stmt (s\<lparr>it_faults := bs\<rparr>)"
    with assms(1) have "pc' = k (List.find (same_key (rq_Scope q) (rq_KeyHash q)) (it_rows s))" "s' = s\<lparr>it_faults := bs\<rparr>"
      by (simp_all add: sql_GetByScopeAndKeyHash_def continue_def run)
    with assms(2-4) find_same_key [of q "it_rows s"] show ?thesis by (auto simp: quiet_step_def)
  qed
qed

lemma check_record_Some: "check_record q found = Inr r \<Longrightarrow> found = Some r"
  by (auto simp: check_record_def split: option.splits if_splits)

lemma resume_cases: "(\<exists>a. resume_pc cd q r = Answered a) \<or> resume_pc cd q r = AtReclaimFailed r"
  by (simp add: resume_pc_def split: option.split)

lemma pc_record_simps [simp]:
  "pc_record (Answered a) = None" "pc_record (AtReclaimExpired r) = Some r"
  "pc_record (AtReclaimFailed r) = Some r" "pc_record (Claimed i) = None" "pc_record AtCreate = None"
  by (simp_all add: pc_record_def)

lemma pc_record_resumeD: "pc_record (resume_pc cd q p) = Some r \<Longrightarrow> p = r"
  using resume_cases [of cd q p] by auto

lemma after_get_facts:
  "after_get cd q found \<noteq> Claimed i"
  "pc_record (after_get cd q found) = Some r \<Longrightarrow> found = Some r"
  "after_get cd q found = AtReclaimExpired r \<Longrightarrow> ir_ExpiresAt r \<le> rq_Now q"
proof -
  consider (stop) a where "after_get cd q found = Answered a"
    | (expired) p where "found = Some p" "ir_ExpiresAt p \<le> rq_Now q" "after_get cd q found = AtReclaimExpired p"
    | (resume) p where "found = Some p" "after_get cd q found = resume_pc cd q p"
  proof (cases "check_record q found :: 'a answer + IdempotencyRecord")
    case (Inl a)
    then show thesis by (intro stop) (simp add: after_get_def)
  next
    case (Inr p)
    from check_record_Some [OF Inr] Inr show thesis
      by (cases "ir_ExpiresAt p \<le> rq_Now q") (auto simp: after_get_def intro: expired resume)
  qed
  note cases = this
  show "after_get cd q found \<noteq> Claimed i"
    by (cases rule: cases) (simp_all add: not_claimed_resume)
  show "found = Some r" if "pc_record (after_get cd q found) = Some r"
    using that by (cases rule: cases) (auto dest: pc_record_resumeD)
  show "ir_ExpiresAt r \<le> rq_Now q" if "after_get cd q found = AtReclaimExpired r"
    using that by (cases rule: cases) (simp, simp, metis not_claimed_resume(2))
qed

lemma after_get_again_facts:
  "after_get_again cd q found \<noteq> Claimed i"
  "pc_record (after_get_again cd q found) = Some r \<Longrightarrow> found = Some r"
  "after_get_again cd q found \<noteq> AtReclaimExpired r'"
proof -
  consider (stop) a where "after_get_again cd q found = Answered a"
    | (resume) p where "found = Some p" "after_get_again cd q found = resume_pc cd q p"
  proof (cases "check_record q found :: 'a answer + IdempotencyRecord")
    case (Inl a)
    then show thesis by (intro stop) (simp add: after_get_again_def)
  next
    case (Inr p)
    from check_record_Some [OF Inr] Inr show thesis by (auto simp: after_get_again_def intro: resume)
  qed
  note cases = this
  show "after_get_again cd q found \<noteq> Claimed i"
    by (cases rule: cases) (simp_all add: not_claimed_resume)
  show "found = Some r" if "pc_record (after_get_again cd q found) = Some r"
    using that by (cases rule: cases) (auto dest: pc_record_resumeD)
  show "after_get_again cd q found \<noteq> AtReclaimExpired r'"
    by (cases rule: cases) (simp_all add: not_claimed_resume)
qed

lemma create_effect:
  assumes "continue k (sql_CreateProcessing (processing_record q) s) = (pc', s')"
    and "\<And>i. k (Some i) = Claimed i" and "k None = AtGet"
  shows "quiet_step q pc pc' s s' \<or> insert_step q pc' s s'"
proof -
  let ?r = "processing_record q"
  from idb_cases [of "create_stmt ?r" s] show ?thesis
  proof (elim disjE exE)
    fix bs assume "idb (create_stmt ?r) s = (Inl (), s\<lparr>it_faults := bs\<rparr>)"
    with assms(1) have "pc' = unavailable" "s' = s\<lparr>it_faults := bs\<rparr>"
      by (simp_all add: sql_CreateProcessing_def continue_def)
    then show ?thesis using quiet_unavailable by blast
  next
    fix bs assume run: "idb (create_stmt ?r) s = create_stmt ?r (s\<lparr>it_faults := bs\<rparr>)"
    show ?thesis
    proof (cases "list_ex (same_key (ir_Scope ?r) (ir_KeyHash ?r)) (it_rows s)")
      case True
      with run assms(1,3) have "pc' = AtGet" "it_rows s' = it_rows s" "it_next_id s' = it_next_id s + 1"
        by (auto simp: sql_CreateProcessing_def create_stmt_def continue_def)
      then show ?thesis by (simp add: quiet_step_def pc_record_def)
    next
      case False
      with run assms(1,2) have "pc' = Claimed (it_next_id s)" "it_next_id s' = it_next_id s + 1"
        "it_rows s' = it_rows s @ [?r\<lparr>ir_ID := it_next_id s, ir_ResponseStatus := None,
           ir_ResponseBody := None, ir_ErrorReason := None\<rparr>]"
        by (auto simp: sql_CreateProcessing_def create_stmt_def continue_def)
      moreover have "rq_key q \<notin> key_of ` set (it_rows s)"
        using False by (auto simp: list_ex_iff same_key_def key_of_def rq_key_def processing_record_def)
      ultimately show ?thesis by (simp add: insert_step_def processing_record_def)
    qed
  qed
qed

text \<open>The three kinds of step.\<close>

lemma claim_step_effect:
  assumes "claim_step sql_repo cd q (pc, s) = (pc', s')" and "claiming pc"
  shows "quiet_step q pc pc' s s' \<or> (pc = AtCreate \<and> insert_step q pc' s s') \<or> reclaim_step q pc pc' s s'"
proof (cases pc)
  case AtCreate
  with assms(1) create_effect [of "case_option AtGet Claimed" q s pc' s' AtCreate] show ?thesis
    by (auto simp: sql_repo_def)
next
  case AtGet
  with assms(1) have "continue (after_get cd q) (sql_GetByScopeAndKeyHash (rq_Scope q) (rq_KeyHash q) s) = (pc', s')"
    by (simp add: sql_repo_def)
  then have "quiet_step q pc pc' s s'"
    by (rule get_effect) (fact after_get_facts(1), (erule after_get_facts)+)
  then show ?thesis by blast
next
  case AtGetAgain
  with assms(1) have "continue (after_get_again cd q) (sql_GetByScopeAndKeyHash (rq_Scope q) (rq_KeyHash q) s) = (pc', s')"
    by (simp add: sql_repo_def)
  then have "quiet_step q pc pc' s s'"
    by (rule get_effect) (fact after_get_again_facts(1), erule after_get_again_facts(2),
      simp add: after_get_again_facts(3))
  then show ?thesis by blast
next
  case (AtReclaimExpired r)
  with assms(1) reclaim_effect [of pc r _ q s pc' s'] show ?thesis
    by (simp add: sql_repo_def pc_record_def pc_from_def)
next
  case (AtReclaimFailed r)
  with assms(1) reclaim_effect [of pc r _ q s pc' s'] show ?thesis
    by (simp add: sql_repo_def pc_record_def pc_from_def)
qed (use assms(2) in \<open>simp_all add: claiming_def\<close>)

section \<open>The invariant\<close>

definition own_row :: "request \<Rightarrow> int \<Rightarrow> IdempotencyRecord list \<Rightarrow> bool" where
  "own_row q i rows \<longleftrightarrow> (\<exists>p \<in> set rows. ir_ID p = i \<and> key_of p = rq_key q \<and> ir_Status p = Processing
     \<and> ir_LockedUntil p = Some (rq_LockedUntil q) \<and> ir_ExpiresAt p = rq_ExpiresAt q)"

definition owns :: "'d machine \<Rightarrow> nat \<Rightarrow> request \<Rightarrow> int \<Rightarrow> bool" where
  "owns m n q i \<longleftrightarrow> m_reqs m n = Some (q, Claimed i)"

text \<open>The times of the requests; what an execution owns; that it owns it alone; what a claim
  remembers; and that a record a claim takes for expired has not been claimed meanwhile with a lock
  the claim could see through.\<close>

definition times_ok :: "'d machine \<Rightarrow> bool" where
  "times_ok m \<longleftrightarrow> (\<forall>n q pc. m_reqs m n = Some (q, pc) \<longrightarrow> rq_Now q \<le> m_clock m \<and> rq_LockedUntil q \<le> rq_ExpiresAt q)"

definition owners_ok :: "'d machine \<Rightarrow> bool" where
  "owners_ok m \<longleftrightarrow> (\<forall>n q i. owns m n q i \<longrightarrow> m_clock m < rq_ExpiresAt q \<and> own_row q i (it_rows (m_store m)))"

definition owners_unique :: "'d machine \<Rightarrow> bool" where
  "owners_unique m \<longleftrightarrow> (\<forall>n n' q q' i. owns m n q i \<longrightarrow> owns m n' q' i \<longrightarrow> n = n')"

definition remembered :: "request \<Rightarrow> IdempotencyRecord \<Rightarrow> idem_store \<Rightarrow> bool" where
  "remembered q r s \<longleftrightarrow> key_of r = rq_key q \<and> ir_ID r < it_next_id s
     \<and> (\<forall>p \<in> set (it_rows s). ir_ID p = ir_ID r \<longrightarrow> key_of p = key_of r)"

definition records_ok :: "'d machine \<Rightarrow> bool" where
  "records_ok m \<longleftrightarrow> (\<forall>n q pc r. m_reqs m n = Some (q, pc) \<longrightarrow> pc_record pc = Some r \<longrightarrow> remembered q r (m_store m))"

definition expired_ok :: "'d machine \<Rightarrow> bool" where
  "expired_ok m \<longleftrightarrow> (\<forall>n q r n' q'. m_reqs m n = Some (q, AtReclaimExpired r) \<longrightarrow> owns m n' q' (ir_ID r) \<longrightarrow>
     rq_Now q < rq_LockedUntil q')"

definition machine_inv :: "'d machine \<Rightarrow> bool" where
  "machine_inv m \<longleftrightarrow> rows_ok (m_store m) \<and> times_ok m \<and> owners_ok m \<and> owners_unique m \<and> records_ok m
     \<and> expired_ok m"

lemmas inv_defs = times_ok_def owners_ok_def owners_unique_def records_ok_def expired_ok_def owns_def

lemma same_id: "rows_ok s \<Longrightarrow> p \<in> set (it_rows s) \<Longrightarrow> r \<in> set (it_rows s) \<Longrightarrow> ir_ID p = ir_ID r \<Longrightarrow> p = r"
  by (auto simp: rows_ok_def distinct_map dest: inj_onD)

text \<open>A request that gives up or is answered while the table keeps what the others own.\<close>

lemma inv_answered:
  assumes inv: "machine_inv m" and q: "m_reqs m n = Some (q, pc)"
    and rows: "rows_ok s'" "it_next_id (m_store m) \<le> it_next_id s'"
    and kept: "\<And>n' q' i. n' \<noteq> n \<Longrightarrow> owns m n' q' i \<Longrightarrow> own_row q' i (it_rows s')"
    and mem: "\<And>q' r. remembered q' r (m_store m) \<Longrightarrow> remembered q' r s'"
    and pc': "\<And>i. pc' \<noteq> Claimed i" "\<And>r. pc_record pc' = Some r \<Longrightarrow> remembered q r s'"
      "\<And>r n' q'. pc' = AtReclaimExpired r \<Longrightarrow> owns m n' q' (ir_ID r) \<Longrightarrow> rq_Now q < rq_LockedUntil q'"
  shows "machine_inv (m\<lparr>m_store := s', m_reqs := (m_reqs m)(n \<mapsto> (q, pc'))\<rparr>)"
proof -
  let ?m = "m\<lparr>m_store := s', m_reqs := (m_reqs m)(n \<mapsto> (q, pc'))\<rparr>"
  have owns: "owns ?m n' q' i \<longleftrightarrow> n' \<noteq> n \<and> owns m n' q' i" for n' q' i
    using pc'(1) by (auto simp: owns_def)
  have "times_ok ?m" using inv q by (auto simp: machine_inv_def times_ok_def)
  moreover have "owners_ok ?m" using inv kept owns by (auto simp: machine_inv_def owners_ok_def)
  moreover have "owners_unique ?m" using inv owns unfolding machine_inv_def owners_unique_def by blast
  moreover have "records_ok ?m" using inv mem pc'(2) by (auto simp: machine_inv_def records_ok_def)
  moreover have "expired_ok ?m" using inv owns pc'(3) unfolding machine_inv_def expired_ok_def by auto
  ultimately show ?thesis using rows(1) by (simp add: machine_inv_def)
qed

text \<open>A request that wins a claim on a row nobody owns.\<close>

lemma inv_claimed:
  assumes inv: "machine_inv m" and q: "m_reqs m n = Some (q, pc)" "claiming pc" "m_clock m < rq_LockedUntil q"
    and rows: "rows_ok s'"
    and kept: "\<And>n' q' j. owns m n' q' j \<Longrightarrow> own_row q' j (it_rows s')"
    and mem: "\<And>q' r. remembered q' r (m_store m) \<Longrightarrow> remembered q' r s'"
    and free: "\<And>n' q'. \<not> owns m n' q' i" and own: "own_row q i (it_rows s')"
  shows "machine_inv (m\<lparr>m_store := s', m_reqs := (m_reqs m)(n \<mapsto> (q, Claimed i))\<rparr>)"
proof -
  let ?m = "m\<lparr>m_store := s', m_reqs := (m_reqs m)(n \<mapsto> (q, Claimed i))\<rparr>"
  have owns: "owns ?m n' q' j \<longleftrightarrow> (if n' = n then q' = q \<and> j = i else owns m n' q' j)" for n' q' j
    by (auto simp: owns_def)
  have times: "times_ok m" using inv by (simp add: machine_inv_def)
  with q have "rq_LockedUntil q \<le> rq_ExpiresAt q" by (auto simp: times_ok_def)
  with q(3) have live: "m_clock m < rq_ExpiresAt q" by simp
  have "owners_ok ?m"
    unfolding owners_ok_def
  proof (intro allI impI)
    fix n' q' j assume o: "owns ?m n' q' j"
    show "m_clock ?m < rq_ExpiresAt q' \<and> own_row q' j (it_rows (m_store ?m))"
    proof (cases "n' = n")
      case True
      with o owns live own show ?thesis by simp
    next
      case False
      with o owns have "owns m n' q' j" by simp
      with inv kept show ?thesis by (simp add: machine_inv_def owners_ok_def)
    qed
  qed
  moreover have "times_ok ?m" using times q by (auto simp: times_ok_def)
  moreover have "owners_unique ?m"
    unfolding owners_unique_def
  proof (intro allI impI)
    fix n1 n2 q1 q2 j assume o: "owns ?m n1 q1 j" "owns ?m n2 q2 j"
    have unique: "owns m n1 q1 j \<Longrightarrow> owns m n2 q2 j \<Longrightarrow> n1 = n2"
      using inv unfolding machine_inv_def owners_unique_def by blast
    from o free unique show "n1 = n2"
      unfolding owns by (cases "n1 = n"; cases "n2 = n") auto
  qed
  moreover have "records_ok ?m" using inv mem by (auto simp: machine_inv_def records_ok_def)
  moreover have "expired_ok ?m"
    unfolding expired_ok_def
  proof (intro allI impI)
    fix n2 q2 r n' q'
    assume r: "m_reqs ?m n2 = Some (q2, AtReclaimExpired r)" and o: "owns ?m n' q' (ir_ID r)"
    from r have r': "m_reqs m n2 = Some (q2, AtReclaimExpired r)" by (auto split: if_splits)
    show "rq_Now q2 < rq_LockedUntil q'"
    proof (cases "n' = n")
      case True
      with o owns have "q' = q" by simp
      moreover have "rq_Now q2 \<le> m_clock m" using times r' by (auto simp: times_ok_def)
      ultimately show ?thesis using q(3) by simp
    next
      case False
      with o owns r' inv show ?thesis unfolding machine_inv_def expired_ok_def by metis
    qed
  qed
  ultimately show ?thesis using rows by (simp add: machine_inv_def)
qed

text \<open>Rewriting one row.\<close>

lemma with_id_rows:
  assumes "\<And>r. ir_ID (f r) = ir_ID r" and "\<And>r. key_of (f r) = key_of r"
  shows "rows_ok s \<Longrightarrow> it_rows s' = with_id i f (it_rows s) \<Longrightarrow> it_next_id s' = it_next_id s \<Longrightarrow> rows_ok s'"
    and "remembered q r s \<Longrightarrow> it_rows s' = with_id i f (it_rows s) \<Longrightarrow> it_next_id s' = it_next_id s \<Longrightarrow> remembered q r s'"
    and "own_row q j rows \<Longrightarrow> j \<noteq> i \<Longrightarrow> own_row q j (with_id i f rows)"
proof -
  have maps: "map ir_ID (with_id i f rows) = map ir_ID rows" "map key_of (with_id i f rows) = map key_of rows" for rows
    using assms by (simp_all add: with_id_def)
  have origin: "\<exists>p0 \<in> set rows. ir_ID p = ir_ID p0 \<and> key_of p = key_of p0" if "p \<in> set (with_id i f rows)" for p rows
    using that assms by (auto simp: with_id_def)
  show "rows_ok s'" if s: "rows_ok s" "it_rows s' = with_id i f (it_rows s)" "it_next_id s' = it_next_id s"
  proof -
    have "0 < ir_ID p \<and> ir_ID p < it_next_id s" if "p \<in> set (with_id i f (it_rows s))" for p
      using origin [OF that] s(1) by (auto simp: rows_ok_def)
    with s maps [of "it_rows s"] show ?thesis by (simp add: rows_ok_def)
  qed
  show "remembered q r s'" if s: "remembered q r s" "it_rows s' = with_id i f (it_rows s)" "it_next_id s' = it_next_id s"
    unfolding remembered_def
  proof (intro conjI ballI impI)
    fix p assume "p \<in> set (it_rows s')" "ir_ID p = ir_ID r"
    with origin s obtain p0 where "p0 \<in> set (it_rows s)" "ir_ID p0 = ir_ID r" "key_of p = key_of p0" by metis
    with s(1) show "key_of p = key_of r" by (simp add: remembered_def)
  qed (use s in \<open>simp_all add: remembered_def\<close>)
  show "own_row q j (with_id i f rows)" if own: "own_row q j rows" "j \<noteq> i"
  proof -
    from own obtain p where p: "p \<in> set rows" "ir_ID p = j" "key_of p = rq_key q" "ir_Status p = Processing"
      "ir_LockedUntil p = Some (rq_LockedUntil q)" "ir_ExpiresAt p = rq_ExpiresAt q" by (auto simp: own_row_def)
    moreover from p(1,2) own(2) have "p \<in> set (with_id i f rows)" by (force simp: with_id_def)
    ultimately show ?thesis by (auto simp: own_row_def)
  qed
qed

lemma inv_rows: "machine_inv m \<Longrightarrow> rows_ok (m_store m)"
  by (simp add: machine_inv_def)

lemma inv_owner:
  assumes "machine_inv m" and "owns m n q i"
  shows "m_clock m < rq_ExpiresAt q \<and> own_row q i (it_rows (m_store m))"
  using assms by (simp add: machine_inv_def owners_ok_def)

lemma rows_ok_cong: "it_rows s' = it_rows s \<Longrightarrow> it_next_id s \<le> it_next_id s' \<Longrightarrow> rows_ok s \<Longrightarrow> rows_ok s'"
  by (fastforce simp: rows_ok_def)

lemma remembered_cong:
  "it_rows s' = it_rows s \<Longrightarrow> it_next_id s \<le> it_next_id s' \<Longrightarrow> remembered q r s \<Longrightarrow> remembered q r s'"
  by (simp add: remembered_def)

lemma inv_quiet:
  assumes inv: "machine_inv m" and q: "m_reqs m n = Some (q, pc)" and step: "quiet_step q pc pc' (m_store m) s'"
  shows "machine_inv (m\<lparr>m_store := s', m_reqs := (m_reqs m)(n \<mapsto> (q, pc'))\<rparr>)"
proof (rule inv_answered [OF inv q])
  have rows: "it_rows s' = it_rows (m_store m)" "it_next_id (m_store m) \<le> it_next_id s'"
    using step by (simp_all add: quiet_step_def)
  show "rows_ok s'" using rows_ok_cong [OF rows inv_rows [OF inv]] .
  show "it_next_id (m_store m) \<le> it_next_id s'" by (fact rows)
  show "own_row q' i (it_rows s')" if "owns m n' q' i" for n' q' i
    using inv_owner [OF inv that] rows(1) by simp
  show "remembered q' r s'" if "remembered q' r (m_store m)" for q' r
    using remembered_cong [OF rows that] .
  show "pc' \<noteq> Claimed i" for i using step by (simp add: quiet_step_def)
  show "remembered q r s'" if "pc_record pc' = Some r" for r
  proof -
    from step that have r: "r \<in> set (it_rows (m_store m))" "key_of r = rq_key q" by (simp_all add: quiet_step_def)
    then have "remembered q r (m_store m)"
      using inv_rows [OF inv] same_id [OF inv_rows [OF inv]] by (auto simp: remembered_def rows_ok_def)
    with remembered_cong [OF rows] show ?thesis by blast
  qed
  show "rq_Now q < rq_LockedUntil q'" if pc': "pc' = AtReclaimExpired r" and o: "owns m n' q' (ir_ID r)" for r n' q'
  proof -
    from step pc' have r: "r \<in> set (it_rows (m_store m))" "ir_ExpiresAt r \<le> rq_Now q" by (simp_all add: quiet_step_def)
    from inv_owner [OF inv o] obtain p where p: "p \<in> set (it_rows (m_store m))" "ir_ID p = ir_ID r"
      "ir_ExpiresAt p = rq_ExpiresAt q'" "m_clock m < rq_ExpiresAt q'" by (auto simp: own_row_def)
    from same_id [OF inv_rows [OF inv] p(1) r(1) p(2)] p r(2) have "m_clock m < rq_Now q" by simp
    moreover have "rq_Now q \<le> m_clock m" using inv q by (auto simp: machine_inv_def times_ok_def)
    ultimately show ?thesis by simp
  qed
qed

lemma inv_insert:
  assumes inv: "machine_inv m" and q: "m_reqs m n = Some (q, AtCreate)" "m_clock m < rq_LockedUntil q"
    and step: "insert_step q pc' (m_store m) s'"
  shows "machine_inv (m\<lparr>m_store := s', m_reqs := (m_reqs m)(n \<mapsto> (q, pc'))\<rparr>)"
proof -
  let ?i = "it_next_id (m_store m)" and ?r = "(processing_record q)\<lparr>ir_ID := it_next_id (m_store m)\<rparr>"
  from step have pc': "pc' = Claimed ?i" and rows: "it_rows s' = it_rows (m_store m) @ [?r]" "it_next_id s' = ?i + 1"
    and key: "rq_key q \<notin> key_of ` set (it_rows (m_store m))" by (simp_all add: insert_step_def)
  have old: "ir_ID p \<noteq> ?i" if "p \<in> set (it_rows (m_store m))" for p
    using inv_rows [OF inv] that by (auto simp: rows_ok_def)
  have r: "key_of ?r = rq_key q" by (simp add: key_of_def rq_key_def processing_record_def)
  show ?thesis unfolding pc'
  proof (rule inv_claimed [OF inv q(1) _ q(2)])
    show "claiming AtCreate" by (simp add: claiming_def)
    show "rows_ok s'" using inv_rows [OF inv] old key r rows by (auto simp: rows_ok_def)
    show "own_row q' j (it_rows s')" if "owns m n' q' j" for n' q' j
      using inv_owner [OF inv that] rows(1) by (auto simp: own_row_def)
    show "remembered q' p s'" if "remembered q' p (m_store m)" for q' p
      using that rows by (auto simp: remembered_def)
    show "\<not> owns m n' q' ?i" for n' q' using inv_owner [OF inv] old by (auto simp: own_row_def)
    show "own_row q ?i (it_rows s')" using r rows(1) by (auto simp: own_row_def processing_record_def)
  qed
qed

lemma reclaim_rows_with_id:
  assumes "rows_ok s" and "p \<in> set (it_rows s)" and "ir_ID p = i" and "ir_Status p = st" and "unlocked_at (rq_Now q) p"
  shows "reclaim_rows q i st (it_rows s) = with_id i (reclaimed (rq_LockedUntil q) (rq_ExpiresAt q)) (it_rows s)"
proof -
  have "x = p" if "x \<in> set (it_rows s)" "ir_ID x = i" for x
    using same_id [OF assms(1) that(1) assms(2)] that(2) assms(3) by simp
  then show ?thesis
    unfolding reclaim_rows_def with_id_def using assms(3-5) by (intro map_cong refl) (metis (no_types))
qed

lemma reclaimed_keys: "ir_ID (reclaimed l e r) = ir_ID r" "key_of (reclaimed l e r) = key_of r"
  by (simp_all add: reclaimed_def key_of_def)

lemma inv_reclaim:
  assumes inv: "machine_inv m" and q: "m_reqs m n = Some (q, pc)" "claiming pc" "m_clock m < rq_LockedUntil q"
    and step: "reclaim_step q pc pc' (m_store m) s'"
  shows "machine_inv (m\<lparr>m_store := s', m_reqs := (m_reqs m)(n \<mapsto> (q, pc'))\<rparr>)"
proof -
  from step obtain r p where r: "pc_record pc = Some r" "pc' = Claimed (ir_ID r)"
    and p: "p \<in> set (it_rows (m_store m))" "ir_ID p = ir_ID r" "ir_Status p = pc_from pc" "unlocked_at (rq_Now q) p"
    and s': "it_next_id s' = it_next_id (m_store m)"
      "it_rows s' = reclaim_rows q (ir_ID r) (pc_from pc) (it_rows (m_store m))"
    unfolding reclaim_step_def by blast
  let ?f = "reclaimed (rq_LockedUntil q) (rq_ExpiresAt q)"
  have rows: "it_rows s' = with_id (ir_ID r) ?f (it_rows (m_store m))"
    using reclaim_rows_with_id [OF inv_rows [OF inv] p] s'(2) by simp
  have key: "key_of p = rq_key q"
    using inv q(1) r(1) p(1,2) by (auto simp: machine_inv_def records_ok_def remembered_def)
  have free: "\<not> owns m n' q' (ir_ID r)" for n' q'
  proof
    assume o: "owns m n' q' (ir_ID r)"
    with inv_owner [OF inv o] same_id [OF inv_rows [OF inv] _ p(1)] p(2)
    have own: "ir_Status p = Processing" "ir_LockedUntil p = Some (rq_LockedUntil q')"
      by (auto simp: own_row_def)
    with p(3) r(1) have "pc = AtReclaimExpired r" by (auto simp: pc_from_def pc_record_def split: pc.splits)
    with inv q(1) o have "rq_Now q < rq_LockedUntil q'" unfolding machine_inv_def expired_ok_def by blast
    with p(4) own(2) show False by (simp add: unlocked_at_def)
  qed
  have other: "j \<noteq> ir_ID r" if "owns m n' q' j" for n' q' j using free that by blast
  have mem: "?f p \<in> set (it_rows s')" using p(1,2) rows by (force simp: with_id_def)
  show ?thesis unfolding r(2)
  proof (rule inv_claimed [OF inv q])
    show "rows_ok s'" using with_id_rows(1) [OF reclaimed_keys inv_rows [OF inv] rows s'(1)] .
    show "own_row q' j (it_rows s')" if "owns m n' q' j" for n' q' j
      unfolding rows using inv_owner [OF inv that] other [OF that]
      by (intro with_id_rows(3)) (simp_all add: reclaimed_keys)
    show "remembered q' x s'" if "remembered q' x (m_store m)" for q' x
      using with_id_rows(2) [OF reclaimed_keys that rows s'(1)] .
    show "\<not> owns m n' q' (ir_ID r)" for n' q' by (fact free)
    show "own_row q (ir_ID r) (it_rows s')"
      unfolding own_row_def using mem key p(2) by (intro bexI [of _ "?f p"]) (simp_all add: reclaimed_keys, simp_all add: reclaimed_def)
  qed
qed

text \<open>Recording the outcome of an execution rewrites the row the execution owns.\<close>

lemma inv_outcome:
  assumes inv: "machine_inv m" and q: "m_reqs m n = Some (q, Claimed i)"
    and f: "\<And>r. ir_ID (f r) = ir_ID r" "\<And>r. key_of (f r) = key_of r"
    and rows: "it_rows s' = with_id i f (it_rows (m_store m))" "it_next_id s' = it_next_id (m_store m)"
  shows "machine_inv (m\<lparr>m_store := s', m_reqs := (m_reqs m)(n \<mapsto> (q, Answered a))\<rparr>)"
proof (rule inv_answered [OF inv q])
  show "rows_ok s'" using with_id_rows(1) [OF f inv_rows [OF inv] rows] .
  show "own_row q' j (it_rows s')" if o: "n' \<noteq> n" "owns m n' q' j" for n' q' j
  proof -
    have "owns m n q i" using q by (simp add: owns_def)
    with inv o have "j \<noteq> i" unfolding machine_inv_def owners_unique_def by blast
    with inv_owner [OF inv o(2)] show ?thesis unfolding rows(1) by (intro with_id_rows(3) [OF f]) auto
  qed
  show "remembered q' r s'" if "remembered q' r (m_store m)" for q' r
    using with_id_rows(2) [OF f that rows] .
qed (use rows in simp_all)

lemma mark_result:
  assumes "idb (\<lambda>s. (Inr (), s\<lparr>it_rows := with_id i f (it_rows s)\<rparr>)) s = (Inr (), s')"
  shows "it_rows s' = with_id i f (it_rows s) \<and> it_next_id s' = it_next_id s"
proof -
  let ?stmt = "\<lambda>s. (Inr (), s\<lparr>it_rows := with_id i f (it_rows s)\<rparr>) :: (unit + unit) \<times> idem_store"
  from idb_cases [of ?stmt s] show ?thesis
  proof (elim disjE exE)
    fix bs assume "idb ?stmt s = (Inl (), s\<lparr>it_faults := bs\<rparr>)"
    with assms show ?thesis by simp
  next
    fix bs assume "idb ?stmt s = ?stmt (s\<lparr>it_faults := bs\<rparr>)"
    with assms have "s' = s\<lparr>it_faults := bs, it_rows := with_id i f (it_rows s)\<rparr>" by simp
    then show ?thesis by simp
  qed
qed

lemma inv_cleanup:
  assumes inv: "machine_inv m" and del: "sql_DeleteExpired (m_clock m) limit (m_store m) = (out, s')"
  shows "machine_inv (m\<lparr>m_store := s'\<rparr>)"
proof -
  obtain P where P: "it_rows s' = filter P (it_rows (m_store m))" "it_next_id s' = it_next_id (m_store m)"
    "\<And>r. r \<in> set (it_rows (m_store m)) \<Longrightarrow> m_clock m < ir_ExpiresAt r \<Longrightarrow> P r"
  proof -
    define V where "V = set (map ir_ID (take (if limit \<le> 0 then 500 else nat limit)
        (sort_key ir_ExpiresAt (filter (\<lambda>r. ir_ExpiresAt r \<le> m_clock m) (it_rows (m_store m))))))"
    have "r \<in> set (it_rows (m_store m)) \<Longrightarrow> m_clock m < ir_ExpiresAt r \<Longrightarrow> ir_ID r \<notin> V" for r
      using same_id [OF inv_rows [OF inv]] by (force simp: V_def dest: in_set_takeD)
    moreover have "(it_rows s' = it_rows (m_store m) \<or> it_rows s' = filter (\<lambda>r. ir_ID r \<notin> V) (it_rows (m_store m)))
        \<and> it_next_id s' = it_next_id (m_store m)"
      using del idb_cases [of "\<lambda>s. let n = (if limit \<le> 0 then 500 else nat limit);
         victims = map ir_ID (take n (sort_key ir_ExpiresAt (filter (\<lambda>r. ir_ExpiresAt r \<le> m_clock m) (it_rows s))));
         gone = (\<lambda>r. ir_ID r \<in> set victims)
       in (Inr (int (length (filter gone (it_rows s)))),
         s\<lparr>it_rows := filter (\<lambda>r. \<not> gone r) (it_rows s)\<rparr>)" "m_store m"]
      by (auto simp: sql_DeleteExpired_def Let_def V_def)
    ultimately show thesis using that [of "\<lambda>_. True"] that [of "\<lambda>r. ir_ID r \<notin> V"] by auto
  qed
  have "own_row q i (it_rows s')" if o: "owns m n q i" for n q i
    using inv_owner [OF inv o] P by (auto simp: own_row_def)
  moreover have "rows_ok s'" using inv_rows [OF inv] P(1,2) by (auto simp: rows_ok_def distinct_map_filter)
  moreover have "remembered q r s'" if "remembered q r (m_store m)" for q r
    using that P(1,2) by (auto simp: remembered_def)
  ultimately show ?thesis
    using inv by (auto simp: machine_inv_def inv_defs)
qed

lemma machine_step_inv:
  assumes "machine_step cd timeout m m'" and "machine_inv m"
  shows "machine_inv m'"
  using assms
proof (induction rule: machine_step.induct)
  case (Arrive m n q)
  then show ?case by (fastforce simp: machine_inv_def inv_defs split: if_splits)
next
  case (Claim m n q pc pc' s')
  from claim_step_effect [OF Claim(4,2)] show ?case
    using inv_quiet [OF Claim(5,1)] inv_insert [OF Claim(5)] inv_reclaim [OF Claim(5,1,2,3)] Claim(1,3) by blast
next
  case (Succeed m n q i body s' a)
  from mark_result [OF Succeed(2) [unfolded sql_MarkSucceeded_def]] show ?case
    by (intro inv_outcome [OF Succeed(3,1)]) (auto simp: succeeded_def key_of_def)
next
  case (Fail m n q i reason b s' a)
  from mark_result [OF Fail(2) [unfolded sql_MarkFailedRetryable_def]] show ?case
    by (intro inv_outcome [OF Fail(3,1)]) (auto simp: failed_retryable_def key_of_def)
next
  case (Crash m n q i a)
  have "machine_inv (m\<lparr>m_store := m_store m, m_reqs := (m_reqs m)(n \<mapsto> (q, Answered a))\<rparr>)"
    using inv_rows [OF Crash(2)] inv_owner [OF Crash(2)] by (intro inv_answered [OF Crash(2,1)]) auto
  then show ?case by simp
next
  case (Tick m t)
  then show ?case by (fastforce simp: machine_inv_def inv_defs)
next
  case (Cleanup m limit out s')
  then show ?case using inv_cleanup by blast
next
  case (FailurePattern m bs)
  then show ?case by (simp add: machine_inv_def inv_defs rows_ok_def remembered_def)
qed

lemma machine_reachable_inv: "machine_reachable cd timeout m \<Longrightarrow> machine_inv m"
proof (induction rule: machine_reachable.induct)
  case (Initial m)
  then show ?case by (simp add: machine_inv_def inv_defs rows_ok_def)
qed (rule machine_step_inv)


definition example_request :: request where
  "example_request = \<lparr>rq_Scope = ''payment'', rq_KeyHash = ''k1'', rq_Fingerprint = ''f'', rq_Now = 0,
     rq_LockedUntil = 30 * second, rq_ExpiresAt = 24 * hour\<rparr>"


text \<open>the assumption on the age of a claim is needed: the statement that reclaims an expired record does
  not look at the expiry again. Of two requests that have read the same expired record, both take
  it, one after the other, when the second began after the lock the first was going to set.\<close>

lemma stalled_claims_both_win:
  assumes "sql_up s" and "r \<in> set (it_rows s)" and "ir_Status r = Processing" and "unlocked_at (rq_Now q1) r"
    and "rq_LockedUntil q1 \<le> rq_Now q2"
  shows "\<exists>s1 s2. claim_step sql_repo cd q1 (AtReclaimExpired r, s) = (Claimed (ir_ID r), s1)
    \<and> claim_step sql_repo cd q2 (AtReclaimExpired r, s1) = (Claimed (ir_ID r), s2)"
proof -
  have "sql_view s (key_of r) = Some r"
    using assms(1,2) find_key [of "it_rows s"] by (simp add: sql_view_def sql_up_def key_of_def)
  from sql.reclaim_taken [OF assms(1) this assms(3,4), of "rq_LockedUntil q1" "rq_ExpiresAt q1"] obtain s1
    where s1: "TryReclaim sql_repo (ir_ID r) Processing (rq_Now q1) (rq_LockedUntil q1) (rq_ExpiresAt q1) s = (Inr True, s1)"
      "sql_up s1" "sql_view s1 (key_of r) = Some (reclaimed (rq_LockedUntil q1) (rq_ExpiresAt q1) r)"
    by auto
  have "ir_Status (reclaimed (rq_LockedUntil q1) (rq_ExpiresAt q1) r) = Processing"
    "unlocked_at (rq_Now q2) (reclaimed (rq_LockedUntil q1) (rq_ExpiresAt q1) r)"
    using assms(5) by (simp_all add: reclaimed_def unlocked_at_def)
  from sql.reclaim_taken [OF s1(2,3) this, of "rq_LockedUntil q2" "rq_ExpiresAt q2"] s1(1) assms(3) show ?thesis
    by (auto simp: continue_def reclaimed_keys)
qed

lemma stalled_claims_both_win_witness:
  "\<exists>s1 s2. claim_step sql_repo example_codec (example_request\<lparr>rq_Now := 25 * hour, rq_LockedUntil := 26 * hour\<rparr>)
       (AtReclaimExpired ((processing_record example_request)\<lparr>ir_ID := 1\<rparr>),
        empty_idem_store\<lparr>it_rows := [(processing_record example_request)\<lparr>ir_ID := 1\<rparr>], it_next_id := 2\<rparr>) = (Claimed 1, s1)
     \<and> claim_step sql_repo example_codec (example_request\<lparr>rq_Now := 27 * hour, rq_LockedUntil := 28 * hour\<rparr>)
       (AtReclaimExpired ((processing_record example_request)\<lparr>ir_ID := 1\<rparr>), s1) = (Claimed 1, s2)"
  using stalled_claims_both_win [of "empty_idem_store\<lparr>it_rows := [(processing_record example_request)\<lparr>ir_ID := 1\<rparr>], it_next_id := 2\<rparr>"
      "(processing_record example_request)\<lparr>ir_ID := 1\<rparr>" "example_request\<lparr>rq_Now := 25 * hour, rq_LockedUntil := 26 * hour\<rparr>"
      "example_request\<lparr>rq_Now := 27 * hour, rq_LockedUntil := 28 * hour\<rparr>" example_codec]
  by (simp add: sql_up_def empty_idem_store_def processing_record_def example_request_def unlocked_at_def)

end
