(* ===== verification/RedisStore.thy ===== *)
theory RedisStore
  imports Programs "HOL-Library.Char_ord" "HOL-Library.List_Lexorder" "HOL-Library.Product_Lexorder"
begin

text \<open>
  The Redis commands the concurrency cache sends, as documented: sorted sets ordered by score and
  member, integer counters, key expiry with millisecond deadlines against the server's clock. An
  empty sorted set does not exist, and a key that goes away takes its deadline with it.

  \<open>rcall\<close> is one request to the server (a command, a pipeline or a Lua script, which runs
  atomically). The state carries what the network will do: how long passes before each request and
  whether it is served, lost on the way, or served with its reply lost. A property over all states is
  a property over all delays and failures between the requests of an operation.
\<close>

datatype reply = Served | Dropped | LostReply

record redis =
  rd_ms :: int
  rd_zsets :: "string \<Rightarrow> (int \<times> string) list"
  rd_counters :: "string \<Rightarrow> int option"
  rd_deadline :: "string \<Rightarrow> int option"
  rd_net :: "(nat \<times> reply) list"

type_synonym 'a redis_prog = "(unit, redis, 'a) prog"

section \<open>Time and the network\<close>

definition key_expired :: "redis \<Rightarrow> string \<Rightarrow> bool" where
  "key_expired r k \<longleftrightarrow> (case rd_deadline r k of None \<Rightarrow> False | Some d \<Rightarrow> d < rd_ms r)"

definition rd_purge :: "redis \<Rightarrow> redis" where
  "rd_purge r = r\<lparr>rd_zsets := (\<lambda>k. if key_expired r k then [] else rd_zsets r k),
     rd_counters := (\<lambda>k. if key_expired r k then None else rd_counters r k),
     rd_deadline := (\<lambda>k. if key_expired r k then None else rd_deadline r k)\<rparr>"

definition rd_tick :: "nat \<Rightarrow> redis \<Rightarrow> redis" where
  "rd_tick d r = rd_purge (r\<lparr>rd_ms := rd_ms r + int d\<rparr>)"

definition rcall :: "'a redis_prog \<Rightarrow> 'a redis_prog" where
  "rcall m r =
     (case rd_net r of
        [] \<Rightarrow> m r
      | (d, a) # net \<Rightarrow>
          (let r' = rd_tick d (r\<lparr>rd_net := net\<rparr>) in
           case a of Served \<Rightarrow> m r' | Dropped \<Rightarrow> (Inl (), r') | LostReply \<Rightarrow> (Inl (), snd (m r'))))"

section \<open>Commands\<close>

definition rd_time :: "redis \<Rightarrow> int" where
  "rd_time r = rd_ms r div 1000"

definition zput :: "string \<Rightarrow> (int \<times> string) list \<Rightarrow> redis \<Rightarrow> redis" where
  "zput k zs r = r\<lparr>rd_zsets := (rd_zsets r)(k := zs),
     rd_deadline := (if zs = [] then (rd_deadline r)(k := None) else rd_deadline r)\<rparr>"

definition rd_zadd :: "string \<Rightarrow> int \<Rightarrow> string \<Rightarrow> redis \<Rightarrow> redis" where
  "rd_zadd k sc m r = zput k (insort (sc, m) (filter (\<lambda>p. snd p \<noteq> m) (rd_zsets r k))) r"

definition rd_zrem :: "string \<Rightarrow> string list \<Rightarrow> redis \<Rightarrow> redis" where
  "rd_zrem k ms r = zput k (filter (\<lambda>p. snd p \<notin> set ms) (rd_zsets r k)) r"

definition rd_zremrangebyscore :: "string \<Rightarrow> int \<Rightarrow> redis \<Rightarrow> redis" where
  "rd_zremrangebyscore k mx r = zput k (filter (\<lambda>p. mx < fst p) (rd_zsets r k)) r"

definition rd_zcard :: "string \<Rightarrow> redis \<Rightarrow> int" where
  "rd_zcard k r = int (length (rd_zsets r k))"

definition rd_zscore :: "string \<Rightarrow> string \<Rightarrow> redis \<Rightarrow> int option" where
  "rd_zscore k m r = map_option fst (find (\<lambda>p. snd p = m) (rd_zsets r k))"

definition rd_zrange :: "string \<Rightarrow> redis \<Rightarrow> string list" where
  "rd_zrange k r = map snd (rd_zsets r k)"

definition rd_zrangebyscore :: "string \<Rightarrow> int \<Rightarrow> nat \<Rightarrow> redis \<Rightarrow> string list" where
  "rd_zrangebyscore k mx n r = take n (map snd (filter (\<lambda>p. fst p \<le> mx) (rd_zsets r k)))"

definition rd_del :: "string list \<Rightarrow> redis \<Rightarrow> redis" where
  "rd_del ks r = r\<lparr>rd_zsets := (\<lambda>k. if k \<in> set ks then [] else rd_zsets r k),
     rd_counters := (\<lambda>k. if k \<in> set ks then None else rd_counters r k),
     rd_deadline := (\<lambda>k. if k \<in> set ks then None else rd_deadline r k)\<rparr>"

definition rd_exists :: "string \<Rightarrow> redis \<Rightarrow> bool" where
  "rd_exists k r \<longleftrightarrow> rd_zsets r k \<noteq> [] \<or> rd_counters r k \<noteq> None"

definition rd_expire :: "string \<Rightarrow> int \<Rightarrow> redis \<Rightarrow> redis" where
  "rd_expire k ttl r =
     (if \<not> rd_exists k r then r
      else if ttl \<le> 0 then rd_del [k] r
      else r\<lparr>rd_deadline := (rd_deadline r)(k \<mapsto> rd_ms r + 1000 * ttl)\<rparr>)"

definition rd_add :: "string \<Rightarrow> int \<Rightarrow> redis \<Rightarrow> redis" where
  "rd_add k d r = r\<lparr>rd_counters := (rd_counters r)(k \<mapsto> (case rd_counters r k of None \<Rightarrow> 0 | Some v \<Rightarrow> v) + d)\<rparr>"

definition rd_set :: "string \<Rightarrow> int \<Rightarrow> redis \<Rightarrow> redis" where
  "rd_set k v r = (rd_del [k] r)\<lparr>rd_counters := (rd_counters r)(k \<mapsto> v)\<rparr>"

section \<open>An empty server\<close>

definition empty_redis :: redis where
  "empty_redis = \<lparr>rd_ms = 0, rd_zsets = (\<lambda>_. []), rd_counters = Map.empty, rd_deadline = Map.empty, rd_net = []\<rparr>"

end
