(* ===== verification/ConcurrencySlots.thy ===== *)
theory ConcurrencySlots
  imports RedisStore GoFloat
begin

text \<open>
  Concurrency slots and wait queues, \<open>repository/concurrency_cache.go\<close>: the keys, the Lua
  scripts, the operations on account, user and API key slots, the wait counters, the load queries,
  the active indexes and the clean-up jobs, in the order of the file, and the operations of
  \<open>service/concurrency_service.go\<close> that wrap them. A script is a function of the server's state;
  \<open>run_script\<close> sends it.
\<close>

section \<open>Keys\<close>

definition accountSlotKeyPrefix :: string where "accountSlotKeyPrefix = ''concurrency:account:''"
definition userSlotKeyPrefix :: string where "userSlotKeyPrefix = ''concurrency:user:''"
definition apiKeySlotKeyPrefix :: string where "apiKeySlotKeyPrefix = ''concurrency:api_key:''"
definition waitQueueKeyPrefix :: string where "waitQueueKeyPrefix = ''concurrency:wait:''"
definition accountWaitKeyPrefix :: string where "accountWaitKeyPrefix = ''wait:account:''"
definition defaultSlotTTLMinutes :: int where "defaultSlotTTLMinutes = 15"
definition accountActiveIndexKey :: string where "accountActiveIndexKey = ''concurrency:account:active_index''"
definition userActiveIndexKey :: string where "userActiveIndexKey = ''concurrency:user:active_index''"
definition activeIndexCleanupBatchSize :: nat where "activeIndexCleanupBatchSize = 1000"
definition activeIndexPipelineChunkSize :: nat where "activeIndexPipelineChunkSize = 500"
definition legacyWaitSweepMarkerKey :: string where
  "legacyWaitSweepMarkerKey = ''concurrency:startup:legacy_wait_sweep:v1''"

definition accountSlotKey :: "int \<Rightarrow> string" where "accountSlotKey i = accountSlotKeyPrefix @ format_int i"
definition userSlotKey :: "int \<Rightarrow> string" where "userSlotKey i = userSlotKeyPrefix @ format_int i"
definition apiKeySlotKey :: "int \<Rightarrow> string" where "apiKeySlotKey i = apiKeySlotKeyPrefix @ format_int i"
definition waitQueueKey :: "int \<Rightarrow> string" where "waitQueueKey i = waitQueueKeyPrefix @ format_int i"
definition accountWaitKey :: "int \<Rightarrow> string" where "accountWaitKey i = accountWaitKeyPrefix @ format_int i"

record slotIndexSpec =
  indexKey :: string
  slotKey :: "int \<Rightarrow> string"
  waitKey :: "int \<Rightarrow> string"

definition accountSlotIndex :: slotIndexSpec where
  "accountSlotIndex = \<lparr>indexKey = accountActiveIndexKey, slotKey = accountSlotKey, waitKey = accountWaitKey\<rparr>"

definition userSlotIndex :: slotIndexSpec where
  "userSlotIndex = \<lparr>indexKey = userActiveIndexKey, slotKey = userSlotKey, waitKey = waitQueueKey\<rparr>"

record concurrencyCache =
  slotTTLSeconds :: int
  waitQueueTTLSeconds :: int

definition NewConcurrencyCache :: "int \<Rightarrow> int \<Rightarrow> concurrencyCache" where
  "NewConcurrencyCache slotTTLMinutes waitTTL =
     (let minutes = (if slotTTLMinutes \<le> 0 then defaultSlotTTLMinutes else slotTTLMinutes)
      in \<lparr>slotTTLSeconds = minutes * 60, waitQueueTTLSeconds = (if waitTTL \<le> 0 then minutes * 60 else waitTTL)\<rparr>)"

section \<open>Scripts\<close>

definition acquireScript :: "string \<Rightarrow> int \<Rightarrow> int \<Rightarrow> string \<Rightarrow> redis \<Rightarrow> (int \<times> int) \<times> redis" where
  "acquireScript key maxConcurrency ttl requestID r =
     (let now = rd_time r;
          pruned = rd_zremrangebyscore key (now - ttl) r;
          held = rd_expire key ttl (rd_zadd key now requestID pruned)
      in if rd_zscore key requestID pruned \<noteq> None then ((1, now), held)
         else if rd_zcard key pruned < maxConcurrency then ((1, now), held)
         else ((0, now), pruned))"

definition getCountScript :: "string \<Rightarrow> int \<Rightarrow> redis \<Rightarrow> int \<times> redis" where
  "getCountScript key ttl r =
     (let pruned = rd_zremrangebyscore key (rd_time r - ttl) r in (rd_zcard key pruned, pruned))"

definition trackSlotScript :: "string \<Rightarrow> int \<Rightarrow> string \<Rightarrow> redis \<Rightarrow> int \<times> redis" where
  "trackSlotScript key ttl requestID r =
     (let now = rd_time r; pruned = rd_zremrangebyscore key (now - ttl) r
      in (1, rd_expire key ttl (rd_zadd key now requestID pruned)))"

definition counter_value :: "string \<Rightarrow> redis \<Rightarrow> int" where
  "counter_value key r = (case rd_counters r key of None \<Rightarrow> 0 | Some v \<Rightarrow> v)"

definition incrementWaitScript :: "string \<Rightarrow> int \<Rightarrow> int \<Rightarrow> redis \<Rightarrow> (int \<times> int) \<times> redis" where
  "incrementWaitScript key maxWait ttl r =
     (let now = rd_time r
      in if maxWait \<le> counter_value key r then ((0, now), r)
         else ((1, now), rd_expire key ttl (rd_add key 1 r)))"

definition incrementAccountWaitScript :: "string \<Rightarrow> int \<Rightarrow> int \<Rightarrow> redis \<Rightarrow> (int \<times> int) \<times> redis" where
  "incrementAccountWaitScript key maxWait ttl r =
     (let now = rd_time r
      in if maxWait \<le> counter_value key r then ((0, now), r)
         else ((1, now), rd_expire key ttl (rd_add key 1 r)))"

definition decrementWaitScript :: "string \<Rightarrow> redis \<Rightarrow> int \<times> redis" where
  "decrementWaitScript key r =
     (1, case rd_counters r key of None \<Rightarrow> r | Some v \<Rightarrow> if 0 < v then rd_add key (- 1) r else r)"

definition cleanupExpiredSlotsScript :: "string \<Rightarrow> int \<Rightarrow> redis \<Rightarrow> int \<times> redis" where
  "cleanupExpiredSlotsScript key ttl r =
     (let pruned = rd_zremrangebyscore key (rd_time r - ttl) r
      in (1, if rd_zcard key pruned = 0 then rd_del [key] pruned else rd_expire key ttl pruned))"

definition foreign_members :: "string \<Rightarrow> string list \<Rightarrow> string list" where
  "foreign_members activePrefix = filter (\<lambda>m. take (length activePrefix) m \<noteq> activePrefix)"

definition startupCleanupSlotScript :: "string \<Rightarrow> string \<Rightarrow> int \<Rightarrow> redis \<Rightarrow> (int \<times> int) \<times> redis" where
  "startupCleanupSlotScript key activePrefix slotTTL r =
     (let foreign = foreign_members activePrefix (rd_zrange key r);
          kept = rd_zrem key foreign r;
          remaining = rd_zcard key kept
      in ((int (length foreign), remaining),
          if remaining = 0 then rd_del [key] kept else rd_expire key slotTTL kept))"

definition run_script :: "(redis \<Rightarrow> 'a \<times> redis) \<Rightarrow> 'a redis_prog" where
  "run_script f = rcall (\<lambda>r. case f r of (a, r') \<Rightarrow> (Inr a, r'))"

section \<open>The active indexes\<close>

text \<open>Index maintenance logs its failures and goes on.\<close>

definition logged :: "'a redis_prog \<Rightarrow> unit redis_prog" where
  "logged m = andthen (attempt m) (\<lambda>_. ret ())"

definition redisUnixSeconds :: "int redis_prog" where
  "redisUnixSeconds = rcall (inspect rd_time)"

definition touchActiveIndexAt :: "string \<Rightarrow> int \<Rightarrow> int \<Rightarrow> unit redis_prog" where
  "touchActiveIndexAt idx i expireAt =
     when_do (0 < i \<and> 0 < expireAt) (logged (rcall (update (rd_zadd idx expireAt (format_int i)))))"

definition activeIndexTTL :: "concurrencyCache \<Rightarrow> int \<Rightarrow> int \<Rightarrow> int" where
  "activeIndexTTL c slotCount waitCount =
     (let ttl = (if 0 < slotCount then slotTTLSeconds c else 0)
      in if 0 < waitCount \<and> ttl < waitQueueTTLSeconds c then waitQueueTTLSeconds c else ttl)"

text \<open>One candidate of a pipeline: prune the expired slots, count the rest, read the wait counter. A
  counter that is missing or not positive counts as no waiter.\<close>

definition read_load :: "concurrencyCache \<Rightarrow> string \<Rightarrow> string \<Rightarrow> int \<Rightarrow> redis \<Rightarrow> (int \<times> int) \<times> redis" where
  "read_load c sk wk now r =
     (let pruned = rd_zremrangebyscore sk (now - slotTTLSeconds c) r
      in ((rd_zcard sk pruned, max 0 (counter_value wk pruned)), pruned))"

definition readActiveLoadForKey :: "concurrencyCache \<Rightarrow> string \<Rightarrow> string \<Rightarrow> int \<Rightarrow> (int \<times> int) redis_prog" where
  "readActiveLoadForKey c sk wk now = run_script (read_load c sk wk now)"

definition refresh_with :: "concurrencyCache \<Rightarrow> string \<Rightarrow> int \<Rightarrow> int \<Rightarrow> int \<times> int \<Rightarrow> unit redis_prog" where
  "refresh_with c idx i now = (\<lambda>(slotCount, waitCount).
     if slotCount = 0 \<and> waitCount \<le> 0 then logged (rcall (update (rd_zrem idx [format_int i])))
     else let ttl = activeIndexTTL c slotCount waitCount
          in when_do (0 < ttl) (touchActiveIndexAt idx i (now + ttl)))"

definition refreshActiveIndex :: "concurrencyCache \<Rightarrow> slotIndexSpec \<Rightarrow> int \<Rightarrow> unit redis_prog" where
  "refreshActiveIndex c spec i =
     when_do (0 < i) (logged (
       andthen redisUnixSeconds (\<lambda>now.
       andthen (readActiveLoadForKey c (slotKey spec i) (waitKey spec i) now)
         (refresh_with c (indexKey spec) i now))))"

definition removeActiveIndexMembers :: "string \<Rightarrow> string list \<Rightarrow> unit redis_prog" where
  "removeActiveIndexMembers idx members =
     when_do (members \<noteq> []) (logged (rcall (update (rd_zrem idx members))))"

section \<open>Slots\<close>

definition acquire_slot :: "concurrencyCache \<Rightarrow> slotIndexSpec \<Rightarrow> int \<Rightarrow> int \<Rightarrow> string \<Rightarrow> bool redis_prog" where
  "acquire_slot c spec i maxConcurrency requestID =
     andthen (run_script (acquireScript (slotKey spec i) maxConcurrency (slotTTLSeconds c) requestID)) (\<lambda>(result, now).
     andthen (when_do (result = 1) (touchActiveIndexAt (indexKey spec) i (now + slotTTLSeconds c))) (\<lambda>_.
     ret (result = 1)))"

definition release_slot :: "concurrencyCache \<Rightarrow> slotIndexSpec \<Rightarrow> int \<Rightarrow> string \<Rightarrow> unit redis_prog" where
  "release_slot c spec i requestID =
     andthen (rcall (update (rd_zrem (slotKey spec i) [requestID]))) (\<lambda>_. refreshActiveIndex c spec i)"

text \<open>The counts of several keys, read in one pipeline with a cut-off computed before it.\<close>

fun count_pipeline :: "(int \<Rightarrow> string) \<Rightarrow> int \<Rightarrow> int list \<Rightarrow> redis \<Rightarrow> (int \<times> int) list \<times> redis" where
  "count_pipeline key cutoff [] r = ([], r)"
| "count_pipeline key cutoff (i # ids) r =
     (let r1 = rd_zremrangebyscore (key i) cutoff r;
          (counts, r2) = count_pipeline key cutoff ids r1
      in ((i, rd_zcard (key i) r1) # counts, r2))"

definition count_batch :: "concurrencyCache \<Rightarrow> (int \<Rightarrow> string) \<Rightarrow> int list \<Rightarrow> (int \<rightharpoonup> int) redis_prog" where
  "count_batch c key ids =
     (if ids = [] then ret Map.empty
      else andthen redisUnixSeconds (\<lambda>now.
           andthen (run_script (count_pipeline key (now - slotTTLSeconds c) ids)) (\<lambda>counts.
           ret (map_of (rev counts)))))"

definition AcquireAccountSlot :: "concurrencyCache \<Rightarrow> int \<Rightarrow> int \<Rightarrow> string \<Rightarrow> bool redis_prog" where
  "AcquireAccountSlot c = acquire_slot c accountSlotIndex"

definition ReleaseAccountSlot :: "concurrencyCache \<Rightarrow> int \<Rightarrow> string \<Rightarrow> unit redis_prog" where
  "ReleaseAccountSlot c = release_slot c accountSlotIndex"

definition GetAccountConcurrency :: "concurrencyCache \<Rightarrow> int \<Rightarrow> int redis_prog" where
  "GetAccountConcurrency c i = run_script (getCountScript (accountSlotKey i) (slotTTLSeconds c))"

definition GetAccountConcurrencyBatch :: "concurrencyCache \<Rightarrow> int list \<Rightarrow> (int \<rightharpoonup> int) redis_prog" where
  "GetAccountConcurrencyBatch c = count_batch c accountSlotKey"

definition AcquireUserSlot :: "concurrencyCache \<Rightarrow> int \<Rightarrow> int \<Rightarrow> string \<Rightarrow> bool redis_prog" where
  "AcquireUserSlot c = acquire_slot c userSlotIndex"

definition ReleaseUserSlot :: "concurrencyCache \<Rightarrow> int \<Rightarrow> string \<Rightarrow> unit redis_prog" where
  "ReleaseUserSlot c = release_slot c userSlotIndex"

definition GetUserConcurrency :: "concurrencyCache \<Rightarrow> int \<Rightarrow> int redis_prog" where
  "GetUserConcurrency c i = run_script (getCountScript (userSlotKey i) (slotTTLSeconds c))"

definition TrackAPIKeySlot :: "concurrencyCache \<Rightarrow> int \<Rightarrow> string \<Rightarrow> unit redis_prog" where
  "TrackAPIKeySlot c i requestID =
     andthen (run_script (trackSlotScript (apiKeySlotKey i) (slotTTLSeconds c) requestID)) (\<lambda>_. ret ())"

definition ReleaseAPIKeySlot :: "int \<Rightarrow> string \<Rightarrow> unit redis_prog" where
  "ReleaseAPIKeySlot i requestID = rcall (update (rd_zrem (apiKeySlotKey i) [requestID]))"

definition GetAPIKeyConcurrencyBatch :: "concurrencyCache \<Rightarrow> int list \<Rightarrow> (int \<rightharpoonup> int) redis_prog" where
  "GetAPIKeyConcurrencyBatch c = count_batch c apiKeySlotKey"

section \<open>Wait queues\<close>

definition IncrementWaitCount :: "concurrencyCache \<Rightarrow> int \<Rightarrow> int \<Rightarrow> bool redis_prog" where
  "IncrementWaitCount c i maxWait =
     andthen (run_script (incrementWaitScript (waitQueueKey i) maxWait (waitQueueTTLSeconds c))) (\<lambda>(result, now).
     andthen (when_do (result = 1) (touchActiveIndexAt userActiveIndexKey i (now + waitQueueTTLSeconds c))) (\<lambda>_.
     ret (result = 1)))"

definition DecrementWaitCount :: "concurrencyCache \<Rightarrow> int \<Rightarrow> unit redis_prog" where
  "DecrementWaitCount c i =
     andthen (run_script (decrementWaitScript (waitQueueKey i))) (\<lambda>_. refreshActiveIndex c userSlotIndex i)"

definition IncrementAccountWaitCount :: "concurrencyCache \<Rightarrow> int \<Rightarrow> int \<Rightarrow> bool redis_prog" where
  "IncrementAccountWaitCount c i maxWait =
     andthen (run_script (incrementAccountWaitScript (accountWaitKey i) maxWait (waitQueueTTLSeconds c))) (\<lambda>(result, now).
     andthen (when_do (result = 1) (touchActiveIndexAt accountActiveIndexKey i (now + waitQueueTTLSeconds c))) (\<lambda>_.
     ret (result = 1)))"

definition DecrementAccountWaitCount :: "concurrencyCache \<Rightarrow> int \<Rightarrow> unit redis_prog" where
  "DecrementAccountWaitCount c i =
     andthen (run_script (decrementWaitScript (accountWaitKey i))) (\<lambda>_. refreshActiveIndex c accountSlotIndex i)"

definition GetAccountWaitingCount :: "int \<Rightarrow> int redis_prog" where
  "GetAccountWaitingCount i = rcall (inspect (counter_value (accountWaitKey i)))"

section \<open>Load queries\<close>

record LoadInfo =
  CurrentConcurrency :: int
  WaitingCount :: int
  LoadRate :: int

definition load_info :: "int \<Rightarrow> int \<Rightarrow> int \<Rightarrow> LoadInfo" where
  "load_info maxConcurrency current waiting = \<lparr>CurrentConcurrency = current, WaitingCount = waiting,
     LoadRate = (if 0 < maxConcurrency then go_div ((current + waiting) * 100) maxConcurrency else 0)\<rparr>"

fun load_pipeline ::
  "slotIndexSpec \<Rightarrow> int \<Rightarrow> (int \<times> int) list \<Rightarrow> redis \<Rightarrow> (int \<times> LoadInfo) list \<times> redis" where
  "load_pipeline spec cutoff [] r = ([], r)"
| "load_pipeline spec cutoff ((i, maxConcurrency) # xs) r =
     (let r1 = rd_zremrangebyscore (slotKey spec i) cutoff r;
          info = load_info maxConcurrency (rd_zcard (slotKey spec i) r1) (counter_value (waitKey spec i) r1);
          (infos, r2) = load_pipeline spec cutoff xs r1
      in ((i, info) # infos, r2))"

definition load_batch ::
  "concurrencyCache \<Rightarrow> slotIndexSpec \<Rightarrow> (int \<times> int) list \<Rightarrow> (int \<rightharpoonup> LoadInfo) redis_prog" where
  "load_batch c spec xs =
     (if xs = [] then ret Map.empty
      else andthen redisUnixSeconds (\<lambda>now.
           andthen (run_script (load_pipeline spec (now - slotTTLSeconds c) xs)) (\<lambda>infos.
           ret (map_of (rev infos)))))"

definition GetAccountsLoadBatch :: "concurrencyCache \<Rightarrow> (int \<times> int) list \<Rightarrow> (int \<rightharpoonup> LoadInfo) redis_prog" where
  "GetAccountsLoadBatch c = load_batch c accountSlotIndex"

definition GetUsersLoadBatch :: "concurrencyCache \<Rightarrow> (int \<times> int) list \<Rightarrow> (int \<rightharpoonup> LoadInfo) redis_prog" where
  "GetUsersLoadBatch c = load_batch c userSlotIndex"

section \<open>Clean-up of expired slots and index members\<close>

definition CleanupExpiredAccountSlots :: "concurrencyCache \<Rightarrow> int \<Rightarrow> unit redis_prog" where
  "CleanupExpiredAccountSlots c i =
     andthen (run_script (cleanupExpiredSlotsScript (accountSlotKey i) (slotTTLSeconds c))) (\<lambda>_.
     refreshActiveIndex c accountSlotIndex i)"

text \<open>An index member that does not parse as a positive identifier is stale. The candidates are read
  in pipelines of at most 500.\<close>

definition member_id :: "string \<Rightarrow> int option" where
  "member_id m = (case parse_int64 m of None \<Rightarrow> None | Some i \<Rightarrow> if i \<le> 0 then None else Some i)"

definition index_candidates :: "string list \<Rightarrow> (int \<times> string) list" where
  "index_candidates = List.map_filter (\<lambda>m. map_option (\<lambda>i. (i, m)) (member_id m))"

definition stale_candidates :: "string list \<Rightarrow> string list" where
  "stale_candidates = filter (\<lambda>m. member_id m = None)"

record activeIndexLoad =
  al_member :: string
  al_slotCount :: int
  al_waitCount :: int

fun index_pipeline ::
  "concurrencyCache \<Rightarrow> slotIndexSpec \<Rightarrow> int \<Rightarrow> (int \<times> string) list \<Rightarrow> redis \<Rightarrow> activeIndexLoad list \<times> redis" where
  "index_pipeline c spec now [] r = ([], r)"
| "index_pipeline c spec now ((i, m) # xs) r =
     (let ((slots, waits), r1) = read_load c (slotKey spec i) (waitKey spec i) now r;
          (loads, r2) = index_pipeline c spec now xs r1
      in (\<lparr>al_member = m, al_slotCount = slots, al_waitCount = waits\<rparr> # loads, r2))"

function read_chunks ::
  "concurrencyCache \<Rightarrow> slotIndexSpec \<Rightarrow> int \<Rightarrow> (int \<times> string) list \<Rightarrow> activeIndexLoad list redis_prog" where
  "read_chunks c spec now xs =
     (if xs = [] then ret []
      else andthen (run_script (index_pipeline c spec now (take activeIndexPipelineChunkSize xs))) (\<lambda>loads.
           andthen (read_chunks c spec now (drop activeIndexPipelineChunkSize xs)) (\<lambda>rest.
           ret (loads @ rest))))"
  by pat_completeness auto
termination
  by (relation "measure (\<lambda>(_, _, _, xs). length xs)") (auto simp: activeIndexPipelineChunkSize_def)

declare read_chunks.simps [simp del]

definition readIndexLoads ::
  "concurrencyCache \<Rightarrow> slotIndexSpec \<Rightarrow> string list \<Rightarrow> int \<Rightarrow> (activeIndexLoad list \<times> string list) redis_prog" where
  "readIndexLoads c spec members now =
     andthen (read_chunks c spec now (index_candidates members)) (\<lambda>loads. ret (loads, stale_candidates members))"

definition idle :: "activeIndexLoad \<Rightarrow> bool" where
  "idle l \<longleftrightarrow> al_slotCount l = 0 \<and> al_waitCount l \<le> 0"

definition refreshed_scores :: "concurrencyCache \<Rightarrow> int \<Rightarrow> activeIndexLoad list \<Rightarrow> (int \<times> string) list" where
  "refreshed_scores c now loads =
     map (\<lambda>l. (now + activeIndexTTL c (al_slotCount l) (al_waitCount l), al_member l)) (filter (\<lambda>l. \<not> idle l) loads)"

definition rd_zadd_all :: "string \<Rightarrow> (int \<times> string) list \<Rightarrow> redis \<Rightarrow> redis" where
  "rd_zadd_all idx = fold (\<lambda>(sc, m). rd_zadd idx sc m)"

definition write_index :: "string \<Rightarrow> (int \<times> string) list \<Rightarrow> string list \<Rightarrow> unit redis_prog" where
  "write_index idx refreshed stale =
     andthen (when_do (refreshed \<noteq> []) (logged (rcall (update (rd_zadd_all idx refreshed))))) (\<lambda>_.
     removeActiveIndexMembers idx stale)"

definition reconcileExpiredIndexCandidates :: "concurrencyCache \<Rightarrow> slotIndexSpec \<Rightarrow> unit redis_prog" where
  "reconcileExpiredIndexCandidates c spec =
     andthen redisUnixSeconds (\<lambda>now.
     andthen (rcall (inspect (rd_zrangebyscore (indexKey spec) now activeIndexCleanupBatchSize))) (\<lambda>members.
     andthen (readIndexLoads c spec members now) (\<lambda>(loads, stale).
     write_index (indexKey spec) (refreshed_scores c now loads)
       (stale @ map al_member (filter idle loads)))))"

definition CleanupExpiredAccountSlotKeys :: "concurrencyCache \<Rightarrow> unit redis_prog" where
  "CleanupExpiredAccountSlotKeys c =
     andthen (reconcileExpiredIndexCandidates c accountSlotIndex) (\<lambda>_.
     reconcileExpiredIndexCandidates c userSlotIndex)"

section \<open>Clean-up at start\<close>

text \<open>SCAN answers in pages whose number and order the server chooses: \<open>pages\<close> gives the pages for a
  key prefix. Each page is deleted before the next is asked for.\<close>

type_synonym scan_pages = "string \<Rightarrow> redis \<Rightarrow> string list list"

fun sweep_pages :: "string list list \<Rightarrow> unit redis_prog" where
  "sweep_pages [] = ret ()"
| "sweep_pages (p # ps) =
     andthen (rcall (ret ())) (\<lambda>_.
     andthen (when_do (p \<noteq> []) (rcall (update (rd_del p)))) (\<lambda>_.
     sweep_pages ps))"

definition sweep_prefix :: "scan_pages \<Rightarrow> string \<Rightarrow> unit redis_prog" where
  "sweep_prefix pages pre = andthen (inspect (pages pre)) sweep_pages"

definition sweepLegacyWaitKeysOnce :: "scan_pages \<Rightarrow> unit redis_prog" where
  "sweepLegacyWaitKeysOnce pages =
     andthen (rcall (inspect (rd_exists legacyWaitSweepMarkerKey))) (\<lambda>done.
     if done then ret ()
     else andthen (sweep_prefix pages accountWaitKeyPrefix) (\<lambda>_.
          andthen (sweep_prefix pages waitQueueKeyPrefix) (\<lambda>_.
          rcall (update (rd_set legacyWaitSweepMarkerKey 1)))))"

definition allIndexMembers :: "string \<Rightarrow> string list redis_prog" where
  "allIndexMembers idx = rcall (inspect (rd_zrange idx))"

text \<open>The loop over the index: the members that keep slots of this process, with their new scores, and
  the members to drop.\<close>

fun stale_loop ::
  "concurrencyCache \<Rightarrow> slotIndexSpec \<Rightarrow> string \<Rightarrow> int \<Rightarrow> string list \<Rightarrow> ((int \<times> string) list \<times> string list) redis_prog" where
  "stale_loop c spec activePrefix now [] = ret ([], [])"
| "stale_loop c spec activePrefix now (m # ms) =
     (case member_id m of
        None \<Rightarrow> andthen (stale_loop c spec activePrefix now ms) (\<lambda>(fresh, stale). ret (fresh, m # stale))
      | Some i \<Rightarrow>
          andthen (run_script (startupCleanupSlotScript (slotKey spec i) activePrefix (slotTTLSeconds c))) (\<lambda>(_, remaining).
          andthen (rcall (update (rd_del [waitKey spec i]))) (\<lambda>_.
          andthen (stale_loop c spec activePrefix now ms) (\<lambda>(fresh, stale).
          ret (if 0 < remaining then ((now + slotTTLSeconds c, m) # fresh, stale) else (fresh, m # stale))))))"

definition cleanupStaleProcessSlotsForIndex ::
  "concurrencyCache \<Rightarrow> slotIndexSpec \<Rightarrow> string list \<Rightarrow> string \<Rightarrow> int \<Rightarrow> unit redis_prog" where
  "cleanupStaleProcessSlotsForIndex c spec members activePrefix now =
     andthen (stale_loop c spec activePrefix now members) (\<lambda>(fresh, stale).
     write_index (indexKey spec) fresh stale)"

definition CleanupStaleProcessSlots :: "concurrencyCache \<Rightarrow> scan_pages \<Rightarrow> string \<Rightarrow> unit redis_prog" where
  "CleanupStaleProcessSlots c pages activeRequestPrefix =
     (if activeRequestPrefix = [] then ret ()
      else andthen (sweepLegacyWaitKeysOnce pages) (\<lambda>_.
           andthen redisUnixSeconds (\<lambda>now.
           andthen (allIndexMembers accountActiveIndexKey) (\<lambda>accountMembers.
           andthen (cleanupStaleProcessSlotsForIndex c accountSlotIndex accountMembers activeRequestPrefix now) (\<lambda>_.
           andthen (allIndexMembers userActiveIndexKey) (\<lambda>userMembers.
           cleanupStaleProcessSlotsForIndex c userSlotIndex userMembers activeRequestPrefix now))))))"

section \<open>The service\<close>

text \<open>A process has a random prefix and numbers its requests; the identifier of a slot is the prefix and
  the number in base 36. No limit means no slot. The function that gives the slot back is the account
  or user and the identifier to release.\<close>

definition base36_digit :: "nat \<Rightarrow> char" where
  "base36_digit d = (if d < 10 then char_of (48 + d) else char_of (87 + d))"

fun format_base36 :: "nat \<Rightarrow> string" where
  "format_base36 n = (if n < 36 then [base36_digit n] else format_base36 (n div 36) @ [base36_digit (n mod 36)])"

declare format_base36.simps [simp del]

definition generateRequestID :: "string \<Rightarrow> nat \<Rightarrow> string" where
  "generateRequestID requestIDPrefix seq = requestIDPrefix @ ''-'' @ format_base36 seq"

definition defaultExtraWaitSlots :: int where "defaultExtraWaitSlots = 20"

record AcquireResult =
  Acquired :: bool
  ReleaseFunc :: "(int \<times> string) option"

definition svc_acquire ::
  "(int \<Rightarrow> int \<Rightarrow> string \<Rightarrow> bool redis_prog) \<Rightarrow> int \<Rightarrow> int \<Rightarrow> string \<Rightarrow> AcquireResult redis_prog" where
  "svc_acquire acquire i maxConcurrency requestID =
     (if maxConcurrency \<le> 0 then ret \<lparr>Acquired = True, ReleaseFunc = None\<rparr>
      else andthen (acquire i maxConcurrency requestID) (\<lambda>acquired.
           ret \<lparr>Acquired = acquired, ReleaseFunc = (if acquired then Some (i, requestID) else None)\<rparr>))"

definition svc_AcquireAccountSlot :: "concurrencyCache \<Rightarrow> int \<Rightarrow> int \<Rightarrow> string \<Rightarrow> AcquireResult redis_prog" where
  "svc_AcquireAccountSlot c = svc_acquire (AcquireAccountSlot c)"

definition svc_AcquireUserSlot :: "concurrencyCache \<Rightarrow> int \<Rightarrow> int \<Rightarrow> string \<Rightarrow> AcquireResult redis_prog" where
  "svc_AcquireUserSlot c = svc_acquire (AcquireUserSlot c)"

definition svc_TrackAPIKeySlot :: "concurrencyCache \<Rightarrow> int \<Rightarrow> string \<Rightarrow> (int \<times> string) option redis_prog" where
  "svc_TrackAPIKeySlot c i requestID =
     (if i \<le> 0 then ret None
      else andthen (attempt (TrackAPIKeySlot c i requestID)) (\<lambda>out.
           ret (case out of Inl _ \<Rightarrow> None | Inr _ \<Rightarrow> Some (i, requestID))))"

definition zeroAPIKeyConcurrencyMap :: "int list \<Rightarrow> (int \<rightharpoonup> int)" where
  "zeroAPIKeyConcurrencyMap ids = (\<lambda>i. if i \<in> set ids then Some 0 else None)"

definition svc_GetAPIKeyConcurrencyBatch :: "concurrencyCache \<Rightarrow> int list \<Rightarrow> (int \<rightharpoonup> int) redis_prog" where
  "svc_GetAPIKeyConcurrencyBatch c ids =
     (if ids = [] then ret (zeroAPIKeyConcurrencyMap ids)
      else andthen (attempt (GetAPIKeyConcurrencyBatch c ids)) (\<lambda>out.
           ret (case out of Inl _ \<Rightarrow> zeroAPIKeyConcurrencyMap ids
                | Inr counts \<Rightarrow> (\<lambda>i. if i \<in> set ids then Some (case counts i of None \<Rightarrow> 0 | Some n \<Rightarrow> n) else None))))"

text \<open>A failed increment lets the request wait; failures to decrement are logged.\<close>

definition fail_open :: "bool redis_prog \<Rightarrow> bool redis_prog" where
  "fail_open m = andthen (attempt m) (\<lambda>out. ret (case out of Inl _ \<Rightarrow> True | Inr b \<Rightarrow> b))"

definition svc_IncrementWaitCount :: "concurrencyCache \<Rightarrow> int \<Rightarrow> int \<Rightarrow> bool redis_prog" where
  "svc_IncrementWaitCount c i maxWait = fail_open (IncrementWaitCount c i maxWait)"

definition svc_DecrementWaitCount :: "concurrencyCache \<Rightarrow> int \<Rightarrow> unit redis_prog" where
  "svc_DecrementWaitCount c i = logged (DecrementWaitCount c i)"

definition svc_IncrementAccountWaitCount :: "concurrencyCache \<Rightarrow> int \<Rightarrow> int \<Rightarrow> bool redis_prog" where
  "svc_IncrementAccountWaitCount c i maxWait = fail_open (IncrementAccountWaitCount c i maxWait)"

definition svc_DecrementAccountWaitCount :: "concurrencyCache \<Rightarrow> int \<Rightarrow> unit redis_prog" where
  "svc_DecrementAccountWaitCount c i = logged (DecrementAccountWaitCount c i)"

definition CalculateMaxWait :: "int \<Rightarrow> int" where
  "CalculateMaxWait userConcurrency = (if userConcurrency \<le> 0 then 1 else userConcurrency) + defaultExtraWaitSlots"

end
