(* ===== verification/ConcurrencyInvariants.thy ===== *)
theory ConcurrencyInvariants
  imports ConcurrencySlots
begin

text \<open>
  What every operation of the concurrency cache keeps, for all delays and failures of the requests it
  sends. The keys of the cache are pairwise different, so an operation touches the slots of one
  account or user only. \<open>slot_inv\<close> is the invariant of one slot key with a set of promises: a promise
  \<open>(m, sc)\<close> is a slot given to \<open>m\<close> at second \<open>sc\<close> that must stay until its time to live is over.
\<close>

section \<open>Keys\<close>

datatype redis_key = AccountSlot int | UserSlot int | ApiKeySlot int | WaitQueue int | AccountWait int
  | AccountIndex | UserIndex | SweepMarker

fun key_text :: "redis_key \<Rightarrow> string" where
  "key_text (AccountSlot i) = accountSlotKey i"
| "key_text (UserSlot i) = userSlotKey i"
| "key_text (ApiKeySlot i) = apiKeySlotKey i"
| "key_text (WaitQueue i) = waitQueueKey i"
| "key_text (AccountWait i) = accountWaitKey i"
| "key_text AccountIndex = accountActiveIndexKey"
| "key_text UserIndex = userActiveIndexKey"
| "key_text SweepMarker = legacyWaitSweepMarkerKey"

lemmas key_defs = accountSlotKey_def userSlotKey_def apiKeySlotKey_def waitQueueKey_def accountWaitKey_def
  accountSlotKeyPrefix_def userSlotKeyPrefix_def apiKeySlotKeyPrefix_def waitQueueKeyPrefix_def
  accountWaitKeyPrefix_def accountActiveIndexKey_def userActiveIndexKey_def legacyWaitSweepMarkerKey_def

lemma format_int_no_letter: "format_int i \<noteq> CHR ''a'' # s"
proof
  assume eq: "format_int i = CHR ''a'' # s"
  from format_int_head [of i] eq show False by (auto simp: byte_of_def)
qed

lemma key_text_inj: "key_text k = key_text k' \<longleftrightarrow> k = k'"
  using format_int_no_letter format_int_no_letter [symmetric]
  by (cases k; cases k') (auto simp: key_defs)

lemma key_text_neq [simp]:
  "key_text k = accountSlotKey i \<longleftrightarrow> k = AccountSlot i" "key_text k = userSlotKey i \<longleftrightarrow> k = UserSlot i"
  "key_text k = waitQueueKey i \<longleftrightarrow> k = WaitQueue i" "key_text k = accountWaitKey i \<longleftrightarrow> k = AccountWait i"
  "key_text k = apiKeySlotKey i \<longleftrightarrow> k = ApiKeySlot i" "key_text k = accountActiveIndexKey \<longleftrightarrow> k = AccountIndex"
  "key_text k = userActiveIndexKey \<longleftrightarrow> k = UserIndex" "key_text k = legacyWaitSweepMarkerKey \<longleftrightarrow> k = SweepMarker"
  using key_text_inj [of k "AccountSlot i"] key_text_inj [of k "UserSlot i"] key_text_inj [of k "WaitQueue i"]
    key_text_inj [of k "AccountWait i"] key_text_inj [of k "ApiKeySlot i"] key_text_inj [of k AccountIndex]
    key_text_inj [of k UserIndex] key_text_inj [of k SweepMarker]
  by simp_all

lemma wait_keys:
  "take 13 (key_text k) = accountWaitKeyPrefix \<longleftrightarrow> (\<exists>i. k = AccountWait i)"
  "take 17 (key_text k) = waitQueueKeyPrefix \<longleftrightarrow> (\<exists>i. k = WaitQueue i)"
  by (cases k; simp add: key_defs)+

section \<open>The commands\<close>

text \<open>Slots of the key \<open>K\<close> are entered at most now, last until the key's deadline, and number at most
  \<open>M\<close>; the promises that are not over are kept.\<close>

definition slot_inv :: "concurrencyCache \<Rightarrow> string \<Rightarrow> int \<Rightarrow> (string \<times> int) set \<Rightarrow> redis \<Rightarrow> bool" where
  "slot_inv c K M G r \<longleftrightarrow>
     distinct (map snd (rd_zsets r K)) \<and> (\<forall>p \<in> set (rd_zsets r K). fst p \<le> rd_time r)
     \<and> (\<forall>d. rd_deadline r K = Some d \<longrightarrow> (\<forall>p \<in> set (rd_zsets r K). 1000 * (fst p + slotTTLSeconds c) \<le> d))
     \<and> rd_zcard K r \<le> M
     \<and> (\<forall>(m, sc) \<in> G. rd_time r < sc + slotTTLSeconds c \<longrightarrow> (\<exists>sc' \<ge> sc. (sc', m) \<in> set (rd_zsets r K)))"

lemma slot_inv_cong:
  "rd_zsets r' K = rd_zsets r K \<Longrightarrow> rd_deadline r' K = rd_deadline r K \<Longrightarrow> rd_ms r' = rd_ms r \<Longrightarrow>
     slot_inv c K M G r' = slot_inv c K M G r"
  by (simp add: slot_inv_def rd_time_def rd_zcard_def)

lemma command_time [simp]:
  "rd_time (zput k zs r) = rd_time r" "rd_time (rd_zadd k sc m r) = rd_time r" "rd_time (rd_zrem k ms r) = rd_time r"
  "rd_time (rd_zremrangebyscore k mx r) = rd_time r" "rd_time (rd_del ks r) = rd_time r"
  "rd_time (rd_expire k ttl r) = rd_time r" "rd_time (rd_add k d r) = rd_time r" "rd_time (rd_set k d r) = rd_time r"
  by (simp_all add: rd_time_def zput_def rd_zadd_def rd_zrem_def rd_zremrangebyscore_def rd_del_def rd_expire_def
      rd_add_def rd_set_def)

lemma other_key:
  assumes "k \<noteq> K"
  shows "slot_inv c K M G (zput k zs r) = slot_inv c K M G r"
    and "slot_inv c K M G (rd_zadd k sc m r) = slot_inv c K M G r"
    and "slot_inv c K M G (rd_zrem k ms r) = slot_inv c K M G r"
    and "slot_inv c K M G (rd_zremrangebyscore k mx r) = slot_inv c K M G r"
    and "slot_inv c K M G (rd_expire k ttl r) = slot_inv c K M G r"
    and "slot_inv c K M G (rd_set k v r) = slot_inv c K M G r"
  using assms
  by (rule_tac slot_inv_cong; simp add: zput_def rd_zadd_def rd_zrem_def rd_zremrangebyscore_def rd_expire_def
      rd_del_def rd_set_def)+

lemma inv_del: "K \<notin> set ks \<Longrightarrow> slot_inv c K M G (rd_del ks r) = slot_inv c K M G r"
  by (rule slot_inv_cong) (simp_all add: rd_del_def)

lemma inv_add: "slot_inv c K M G (rd_add k d r) = slot_inv c K M G r"
  by (rule slot_inv_cong) (simp_all add: rd_add_def)

lemma slot_invI:
  assumes "distinct (map snd (rd_zsets r K))" and "\<And>sc m. (sc, m) \<in> set (rd_zsets r K) \<Longrightarrow> sc \<le> rd_time r"
    and "\<And>d sc m. rd_deadline r K = Some d \<Longrightarrow> (sc, m) \<in> set (rd_zsets r K) \<Longrightarrow> 1000 * (sc + slotTTLSeconds c) \<le> d"
    and "rd_zcard K r \<le> M"
    and "\<And>m sc. (m, sc) \<in> G \<Longrightarrow> rd_time r < sc + slotTTLSeconds c \<Longrightarrow> \<exists>sc' \<ge> sc. (sc', m) \<in> set (rd_zsets r K)"
  shows "slot_inv c K M G r"
  using assms unfolding slot_inv_def by fastforce

lemma slot_invD:
  assumes "slot_inv c K M G r"
  shows "distinct (map snd (rd_zsets r K))" and "(sc, m) \<in> set (rd_zsets r K) \<Longrightarrow> sc \<le> rd_time r"
    and "rd_deadline r K = Some d \<Longrightarrow> (sc, m) \<in> set (rd_zsets r K) \<Longrightarrow> 1000 * (sc + slotTTLSeconds c) \<le> d"
    and "rd_zcard K r \<le> M"
    and "(m, sc) \<in> G \<Longrightarrow> rd_time r < sc + slotTTLSeconds c \<Longrightarrow> \<exists>sc' \<ge> sc. (sc', m) \<in> set (rd_zsets r K)"
  using assms unfolding slot_inv_def by fastforce+

lemma inv_filter:
  assumes inv: "slot_inv c K M G r"
    and keep: "\<And>m sc sc'. (m, sc) \<in> G \<Longrightarrow> sc \<le> sc' \<Longrightarrow> rd_time r < sc + slotTTLSeconds c \<Longrightarrow> Q (sc', m)"
  shows "slot_inv c K M G (zput K (filter Q (rd_zsets r K)) r)" (is "slot_inv c K M G ?r")
proof -
  have zs: "rd_zsets ?r K = filter Q (rd_zsets r K)" and time: "rd_time ?r = rd_time r"
    by (simp_all add: zput_def rd_time_def)
  show ?thesis
  proof (rule slot_invI, goal_cases)
    case 1
    show ?case using slot_invD(1) [OF inv] by (simp add: zs distinct_map_filter)
  next
    case (2 sc m)
    then show ?case by (auto simp: zs time intro: slot_invD(2) [OF inv])
  next
    case (3 d sc m)
    then have "rd_deadline r K = Some d" by (simp add: zput_def split: if_splits)
    moreover have "(sc, m) \<in> set (rd_zsets r K)" using 3 by (simp add: zs)
    ultimately show ?case by (rule slot_invD(3) [OF inv])
  next
    case 4
    have "length (filter Q (rd_zsets r K)) \<le> length (rd_zsets r K)" by simp
    then show ?case using slot_invD(4) [OF inv] unfolding rd_zcard_def zs by linarith
  next
    case (5 m sc)
    then obtain sc' where "sc \<le> sc'" "(sc', m) \<in> set (rd_zsets r K)"
      using slot_invD(5) [OF inv] by (auto simp: time)
    with 5 keep show ?case by (auto simp: zs time)
  qed
qed

lemma inv_prune:
  "slot_inv c K M G r \<Longrightarrow> mx \<le> rd_time r - slotTTLSeconds c \<Longrightarrow> slot_inv c K M G (rd_zremrangebyscore K mx r)"
  unfolding rd_zremrangebyscore_def by (rule inv_filter) auto

lemma inv_zrem:
  "slot_inv c K M G r \<Longrightarrow> (\<And>m sc. (m, sc) \<in> G \<Longrightarrow> m \<notin> set ms) \<Longrightarrow> slot_inv c K M G (rd_zrem K ms r)"
  unfolding rd_zrem_def by (rule inv_filter) auto

lemma inv_promises: "slot_inv c K M G r \<Longrightarrow> G' \<subseteq> G \<Longrightarrow> slot_inv c K M G' r"
  unfolding slot_inv_def by blast

lemma ms_time: "1000 * rd_time r \<le> rd_ms r" "rd_ms r < 1000 * rd_time r + 1000"
  by (simp_all add: rd_time_def)

lemma inv_expire:
  assumes "slot_inv c K M G r" and "0 < slotTTLSeconds c"
  shows "slot_inv c K M G (rd_expire K (slotTTLSeconds c) r)"
proof -
  have "1000 * (fst p + slotTTLSeconds c) \<le> rd_ms r + 1000 * slotTTLSeconds c" if "p \<in> set (rd_zsets r K)" for p
    using assms(1) that ms_time(1) [of r] unfolding slot_inv_def by fastforce
  with assms show ?thesis
    unfolding slot_inv_def rd_expire_def by (auto simp: rd_time_def rd_zcard_def)
qed

lemma inv_tick:
  assumes "slot_inv c K M G r" and "0 \<le> M"
  shows "slot_inv c K M G (rd_tick d r)"
proof -
  let ?r = "r\<lparr>rd_ms := rd_ms r + int d\<rparr>"
  have mono: "rd_time r \<le> rd_time ?r" by (simp add: rd_time_def zdiv_mono1)
  have same: "slot_inv c K M G ?r"
  proof (rule slot_invI, goal_cases)
    case (2 sc m)
    then show ?case using slot_invD(2) [OF assms(1)] mono by fastforce
  next
    case (5 m sc)
    then show ?case using slot_invD(5) [OF assms(1)] mono by fastforce
  qed (use slot_invD [OF assms(1)] in \<open>simp_all add: rd_zcard_def\<close>)
  show ?thesis
  proof (cases "key_expired ?r K")
    case False
    then show ?thesis
      using same slot_inv_cong [of "rd_tick d r" K ?r c M G] by (simp add: rd_tick_def rd_purge_def)
  next
    case True
    then obtain dl where dl: "rd_deadline r K = Some dl" "dl < rd_ms ?r"
      by (auto simp: key_expired_def split: option.splits)
    have "\<not> rd_time ?r < sc + slotTTLSeconds c" if "(m, sc) \<in> G" for m sc
    proof
      assume early: "rd_time ?r < sc + slotTTLSeconds c"
      with same that obtain sc' where "sc \<le> sc'" "(sc', m) \<in> set (rd_zsets r K)"
        unfolding slot_inv_def by fastforce
      with assms(1) dl(1) have "1000 * (sc + slotTTLSeconds c) \<le> dl"
        unfolding slot_inv_def by fastforce
      with dl(2) early ms_time(2) [of ?r] show False by simp
    qed
    then show ?thesis
      using True assms(2) unfolding slot_inv_def
      by (auto simp: rd_tick_def rd_purge_def rd_zcard_def rd_time_def)
  qed
qed

lemma length_other_members:
  "m \<in> snd ` set zs \<Longrightarrow> length (filter (\<lambda>p. snd p \<noteq> m) zs) < length zs"
  by (force intro: length_filter_less)

lemma rd_zscore_None: "rd_zscore k m r = None \<longleftrightarrow> m \<notin> snd ` set (rd_zsets r k)"
  by (auto simp: rd_zscore_def find_None_iff image_iff)

lemma inv_hold:
  assumes inv: "slot_inv c K M G r" and room: "rd_zscore K m r \<noteq> None \<or> rd_zcard K r < M" and ttl: "0 < slotTTLSeconds c"
  shows "slot_inv c K M (insert (m, rd_time r) G) (rd_expire K (slotTTLSeconds c) (rd_zadd K (rd_time r) m r))"
    (is "slot_inv c K M ?G ?r")
proof -
  let ?rest = "filter (\<lambda>p. snd p \<noteq> m) (rd_zsets r K)"
  have zs: "rd_zsets ?r K = insort (rd_time r, m) ?rest"
    and dl: "rd_deadline ?r K = Some (rd_ms r + 1000 * slotTTLSeconds c)"
    using ttl by (simp_all add: rd_expire_def rd_zadd_def zput_def rd_exists_def)
  have mem: "set (rd_zsets ?r K) = insert (rd_time r, m) (set ?rest)"
    unfolding zs by (rule set_insort_key)
  show ?thesis
  proof (rule slot_invI, goal_cases)
    case 1
    have "distinct (map snd (insort (rd_time r, m) ?rest))"
      using slot_invD(1) [OF inv] by (auto simp: distinct_map distinct_insort set_insort_key inj_on_def)
    then show ?case by (simp only: zs)
  next
    case (2 sc x)
    then have "(sc, x) \<in> insert (rd_time r, m) (set ?rest)" unfolding mem .
    then show ?case by (auto intro: slot_invD(2) [OF inv])
  next
    case (3 d sc x)
    then have "(sc, x) \<in> insert (rd_time r, m) (set ?rest)" "d = rd_ms r + 1000 * slotTTLSeconds c"
      unfolding mem dl by simp_all
    then have "sc \<le> rd_time r" "d = rd_ms r + 1000 * slotTTLSeconds c" by (auto intro: slot_invD(2) [OF inv])
    with ms_time(1) [of r] show ?case by simp
  next
    case 4
    have "int (length ?rest) < M"
    proof (cases "m \<in> snd ` set (rd_zsets r K)")
      case True
      with length_other_members slot_invD(4) [OF inv] show ?thesis unfolding rd_zcard_def by fastforce
    next
      case False
      then have "int (length (rd_zsets r K)) < M" using room unfolding rd_zscore_None rd_zcard_def by simp
      moreover have "length ?rest \<le> length (rd_zsets r K)" by simp
      ultimately show ?thesis by linarith
    qed
    then show ?case unfolding rd_zcard_def zs by simp
  next
    case (5 x sc)
    show ?case
    proof (cases "x = m")
      case True
      have "sc \<le> rd_time r" if "(x, sc) \<in> G"
        using slot_invD(5) [OF inv that] slot_invD(2) [OF inv] 5(2) by fastforce
      with 5 True show ?thesis unfolding mem by auto
    next
      case False
      with 5 have "(x, sc) \<in> G" "rd_time r < sc + slotTTLSeconds c" by auto
      then obtain sc' where "sc \<le> sc'" "(sc', x) \<in> set (rd_zsets r K)" using slot_invD(5) [OF inv] by blast
      with False show ?thesis unfolding mem by auto
    qed
  qed
qed

lemma inv_startup:
  assumes "slot_inv c K M G r" and "0 < slotTTLSeconds c"
    and "\<And>m sc. (m, sc) \<in> G \<Longrightarrow> take (length pre) m = pre"
  shows "slot_inv c K M G (snd (startupCleanupSlotScript K pre (slotTTLSeconds c) r))"
proof -
  let ?kept = "rd_zrem K (foreign_members pre (rd_zrange K r)) r"
  have kept: "slot_inv c K M G ?kept"
    by (rule inv_zrem [OF assms(1)]) (use assms(3) in \<open>fastforce simp: foreign_members_def\<close>)
  have "slot_inv c K M G (rd_del [K] ?kept)" if "rd_zcard K ?kept = 0"
    using that kept unfolding slot_inv_def by (auto simp: rd_del_def rd_zcard_def rd_time_def)
  with kept inv_expire [OF kept assms(2)] show ?thesis by (simp add: startupCleanupSlotScript_def Let_def)
qed

lemma inv_cleanup_script:
  assumes "slot_inv c K M G r" and "0 < slotTTLSeconds c"
  shows "slot_inv c K M G (snd (cleanupExpiredSlotsScript K (slotTTLSeconds c) r))"
proof -
  let ?kept = "rd_zremrangebyscore K (rd_time r - slotTTLSeconds c) r"
  have kept: "slot_inv c K M G ?kept" by (rule inv_prune [OF assms(1)]) simp
  have "slot_inv c K M G (rd_del [K] ?kept)" if "rd_zcard K ?kept = 0"
    using that kept unfolding slot_inv_def by (auto simp: rd_del_def rd_zcard_def rd_time_def)
  with kept inv_expire [OF kept assms(2)] show ?thesis by (simp add: cleanupExpiredSlotsScript_def Let_def)
qed

section \<open>The requests\<close>

definition slot_key :: "string \<Rightarrow> bool" where
  "slot_key K \<longleftrightarrow> (\<exists>i. K = accountSlotKey i \<or> K = userSlotKey i)"

definition slot_frame :: "concurrencyCache \<Rightarrow> string \<Rightarrow> int \<Rightarrow> bool" where
  "slot_frame c K M \<longleftrightarrow> slot_key K \<and> 0 < slotTTLSeconds c \<and> 0 \<le> M"

definition slots_at :: "concurrencyCache \<Rightarrow> string \<Rightarrow> int \<Rightarrow> (string \<times> int) set \<Rightarrow> int \<Rightarrow> redis \<Rightarrow> bool" where
  "slots_at c K M G t r \<longleftrightarrow> slot_inv c K M G r \<and> t \<le> rd_time r"

definition index_spec :: "slotIndexSpec \<Rightarrow> bool" where
  "index_spec spec \<longleftrightarrow> spec = accountSlotIndex \<or> spec = userSlotIndex"

lemma slot_key_neq:
  assumes "slot_key K"
  shows "accountActiveIndexKey \<noteq> K" "userActiveIndexKey \<noteq> K" "waitQueueKey i \<noteq> K" "accountWaitKey i \<noteq> K"
    "legacyWaitSweepMarkerKey \<noteq> K" "apiKeySlotKey i \<noteq> K"
  using assms format_int_no_letter format_int_no_letter [symmetric]
  by (auto simp: slot_key_def key_defs)

lemma spec_neq: "index_spec spec \<Longrightarrow> slot_key K \<Longrightarrow> indexKey spec \<noteq> K \<and> waitKey spec i \<noteq> K"
  by (auto simp: index_spec_def accountSlotIndex_def userSlotIndex_def dest: slot_key_neq)

lemma tick_time: "rd_time r \<le> rd_time (rd_tick d r)"
  by (simp add: rd_tick_def rd_purge_def rd_time_def zdiv_mono1)

lemma slots_at_net: "slots_at c K M G t (r\<lparr>rd_net := n\<rparr>) = slots_at c K M G t r"
  using slot_inv_cong [of "r\<lparr>rd_net := n\<rparr>" K r c M G] by (simp add: slots_at_def rd_time_def)

lemma slots_at_tick: "slot_frame c K M \<Longrightarrow> slots_at c K M G t r \<Longrightarrow> slots_at c K M G t (rd_tick d r)"
  using inv_tick [of c K M G r d] tick_time [of r d] by (auto simp: slots_at_def slot_frame_def)

lemma preserves_rcall:
  assumes "slot_frame c K M" and "preserves (slots_at c K M G t) m"
  shows "preserves (slots_at c K M G t) (rcall m)"
proof (rule preservesI)
  fix r assume r: "slots_at c K M G t r"
  have tick: "slots_at c K M G t (rd_tick d (r\<lparr>rd_net := n\<rparr>))" for d n
    by (rule slots_at_tick [OF assms(1)]) (simp add: slots_at_net r)
  then show "slots_at c K M G t (snd (rcall m r))"
    using r preservesD [OF assms(2)] by (auto simp: rcall_def Let_def split: list.split reply.split)
qed

lemma preserves_command:
  assumes "slot_frame c K M" and "\<And>r. slots_at c K M G t r \<Longrightarrow> slots_at c K M G t (f r)"
  shows "preserves (slots_at c K M G t) (rcall (update f))"
  using assms by (intro preserves_rcall preserves_update)

lemma preserves_query: "slot_frame c K M \<Longrightarrow> preserves (slots_at c K M G t) (rcall (inspect f))"
  by (intro preserves_rcall preserves_inspect)

lemma preserves_script:
  assumes "slot_frame c K M" and "\<And>r. slots_at c K M G t r \<Longrightarrow> slots_at c K M G t (snd (f r))"
  shows "preserves (slots_at c K M G t) (run_script f)"
  unfolding run_script_def using assms
  by (intro preserves_rcall preservesI) (auto simp: case_prod_beta)

lemma preserves_logged: "preserves P m \<Longrightarrow> preserves P (logged m)"
  unfolding logged_def by (intro preserves)

text \<open>What follows a reading of the clock runs at that second or later.\<close>

lemma preserves_now:
  assumes "slot_frame c K M" and "\<And>now. preserves (slots_at c K M G (max t now)) (f now)"
  shows "preserves (slots_at c K M G t) (andthen redisUnixSeconds f)"
proof (rule preservesI)
  fix r assume r: "slots_at c K M G t r"
  have "preserves (slots_at c K M G t) redisUnixSeconds"
    unfolding redisUnixSeconds_def by (rule preserves_query [OF assms(1)])
  from preservesD [OF this r] have after: "slots_at c K M G t (snd (redisUnixSeconds r))" .
  show "slots_at c K M G t (snd (andthen redisUnixSeconds f r))"
  proof (cases "fst (redisUnixSeconds r)")
    case (Inl e)
    with after show ?thesis by (simp add: andthen_def case_prod_beta)
  next
    case (Inr now)
    then have "now = rd_time (snd (redisUnixSeconds r))"
      by (auto simp: redisUnixSeconds_def rcall_def Let_def run split: list.splits reply.splits)
    with after have "slots_at c K M G (max t now) (snd (redisUnixSeconds r))" by (simp add: slots_at_def)
    from preservesD [OF assms(2) this] Inr show ?thesis by (simp add: andthen_def case_prod_beta slots_at_def)
  qed
qed

lemma slots_at_other:
  assumes "k \<noteq> K"
  shows "slots_at c K M G t (rd_zadd k sc m r) = slots_at c K M G t r"
    and "slots_at c K M G t (rd_zrem k ms r) = slots_at c K M G t r"
    and "slots_at c K M G t (rd_zremrangebyscore k mx r) = slots_at c K M G t r"
    and "slots_at c K M G t (rd_expire k ttl r) = slots_at c K M G t r"
    and "slots_at c K M G t (rd_set k v r) = slots_at c K M G t r"
  using assms by (simp_all add: slots_at_def other_key)

lemma slots_at_del: "K \<notin> set ks \<Longrightarrow> slots_at c K M G t (rd_del ks r) = slots_at c K M G t r"
  by (simp add: slots_at_def inv_del)

lemma slots_at_add: "slots_at c K M G t (rd_add k d r) = slots_at c K M G t r"
  by (simp add: slots_at_def inv_add)

lemma slots_at_prune:
  "slots_at c K M G t r \<Longrightarrow> mx \<le> t - slotTTLSeconds c \<Longrightarrow> slots_at c K M G t (rd_zremrangebyscore k mx r)"
  by (cases "k = K") (auto simp: slots_at_def other_key intro: inv_prune)

lemma slots_at_zadd_all: "k \<noteq> K \<Longrightarrow> slots_at c K M G t (rd_zadd_all k xs r) = slots_at c K M G t r"
  by (induction xs arbitrary: r) (simp_all add: rd_zadd_all_def slots_at_other(1) split: prod.split)

section \<open>The operations\<close>

named_theorems keeps_slots \<open>operations keep the slots of a key\<close>

lemma keeps_touch [keeps_slots]:
  assumes "slot_frame c K M" and "idx \<noteq> K"
  shows "preserves (slots_at c K M G t) (touchActiveIndexAt idx i e)"
  unfolding touchActiveIndexAt_def using assms
  by (intro preserves_when_do preserves_logged preserves_command) (simp_all add: slots_at_other)

lemma keeps_remove [keeps_slots]:
  assumes "slot_frame c K M" and "idx \<noteq> K"
  shows "preserves (slots_at c K M G t) (removeActiveIndexMembers idx ms)"
  unfolding removeActiveIndexMembers_def using assms
  by (intro preserves_when_do preserves_logged preserves_command) (simp_all add: slots_at_other)

lemma keeps_write_index [keeps_slots]:
  assumes "slot_frame c K M" and "idx \<noteq> K"
  shows "preserves (slots_at c K M G t) (write_index idx fresh stale)"
  unfolding write_index_def using assms
  by (intro preserves_andthen preserves_when_do preserves_logged preserves_command keeps_remove)
    (simp_all add: slots_at_zadd_all)

lemma read_load_slots:
  "slots_at c K M G (max t now) r \<Longrightarrow> slots_at c K M G (max t now) (snd (read_load c sk wk now r))"
  by (auto simp: read_load_def Let_def intro: slots_at_prune)

lemma keeps_refresh [keeps_slots]:
  assumes fr: "slot_frame c K M" and spec: "index_spec spec"
  shows "preserves (slots_at c K M G t) (refreshActiveIndex c spec i)"
proof -
  have K: "slot_key K" using fr by (simp add: slot_frame_def)
  have idx: "indexKey spec \<noteq> K" using spec_neq [OF spec K] by simp
  have "preserves (slots_at c K M G s) (refresh_with c (indexKey spec) i now load)" for s now load
    unfolding refresh_with_def Let_def using fr idx
    by (intro preserves_prod preserves_if preserves_when_do preserves_logged preserves_command keeps_touch)
      (simp_all add: slots_at_other)
  moreover have "preserves (slots_at c K M G (max t now)) (readActiveLoadForKey c sk wk now)" for sk wk now
    unfolding readActiveLoadForKey_def using fr read_load_slots by (intro preserves_script) auto
  ultimately show ?thesis
    unfolding refreshActiveIndex_def using fr
    by (intro preserves_when_do preserves_logged preserves_now preserves_andthen) auto
qed

lemma keeps_acquire [keeps_slots]:
  assumes fr: "slot_frame c K M" and spec: "index_spec spec" and lim: "slotKey spec i = K \<Longrightarrow> mx \<le> M"
  shows "preserves (slots_at c K M G t) (acquire_slot c spec i mx rid)"
proof -
  have K: "slot_key K" using fr by (simp add: slot_frame_def)
  have script: "slots_at c K M G t (snd (acquireScript (slotKey spec i) mx (slotTTLSeconds c) rid r))"
    if r: "slots_at c K M G t r" for r
  proof -
    let ?k = "slotKey spec i"
    let ?p = "rd_zremrangebyscore ?k (rd_time r - slotTTLSeconds c) r"
    let ?h = "rd_expire ?k (slotTTLSeconds c) (rd_zadd ?k (rd_time r) rid ?p)"
    have p: "slots_at c K M G t ?p"
      using r by (cases "?k = K") (auto simp: slots_at_def other_key intro: inv_prune)
    have "slots_at c K M G t ?h" if room: "rd_zscore ?k rid ?p \<noteq> None \<or> rd_zcard ?k ?p < mx"
    proof (cases "?k = K")
      case True
      with room lim have "rd_zscore K rid ?p \<noteq> None \<or> rd_zcard K ?p < M" by auto
      from inv_hold [OF _ this] p True fr show ?thesis
        unfolding slots_at_def slot_frame_def by (auto intro: inv_promises)
    next
      case False
      with p show ?thesis by (simp add: slots_at_other)
    qed
    with p show ?thesis by (auto simp: acquireScript_def Let_def)
  qed
  show ?thesis
    unfolding acquire_slot_def using fr spec_neq [OF spec K]
    by (intro preserves_andthen preserves_prod preserves_when_do preserves_script keeps_touch preserves_ret script) auto
qed

lemma keeps_release [keeps_slots]:
  assumes fr: "slot_frame c K M" and spec: "index_spec spec" and other: "\<And>m sc. slotKey spec i = K \<Longrightarrow> (m, sc) \<in> G \<Longrightarrow> m \<noteq> rid"
  shows "preserves (slots_at c K M G t) (release_slot c spec i rid)"
proof -
  have "slots_at c K M G t (rd_zrem (slotKey spec i) [rid] r)" if "slots_at c K M G t r" for r
    using that other by (cases "slotKey spec i = K") (auto simp: slots_at_def other_key intro: inv_zrem)
  then show ?thesis
    unfolding release_slot_def using fr spec
    by (intro preserves_andthen preserves_command keeps_refresh) auto
qed

lemma keeps_count [keeps_slots]:
  assumes "slot_frame c K M"
  shows "preserves (slots_at c K M G t) (run_script (getCountScript k (slotTTLSeconds c)))"
proof (intro preserves_script assms)
  fix r assume "slots_at c K M G t r"
  then show "slots_at c K M G t (snd (getCountScript k (slotTTLSeconds c) r))"
    by (cases "k = K") (auto simp: getCountScript_def Let_def slots_at_def other_key intro: inv_prune)
qed

lemma count_pipeline_slots:
  "slots_at c K M G (max t now) r \<Longrightarrow>
     slots_at c K M G (max t now) (snd (count_pipeline key (now - slotTTLSeconds c) ids r))"
  by (induction ids arbitrary: r) (simp_all add: Let_def case_prod_beta slots_at_prune split: prod.split)

lemma load_pipeline_slots:
  "slots_at c K M G (max t now) r \<Longrightarrow>
     slots_at c K M G (max t now) (snd (load_pipeline spec (now - slotTTLSeconds c) xs r))"
proof (induction xs arbitrary: r)
  case (Cons a xs)
  then show ?case by (cases a) (simp_all add: Let_def case_prod_beta slots_at_prune)
qed simp

lemma index_pipeline_slots:
  "slots_at c K M G (max t now) r \<Longrightarrow>
     slots_at c K M G (max t now) (snd (index_pipeline c spec now xs r))"
  by (induction xs arbitrary: r) (auto simp: Let_def case_prod_beta read_load_slots)

lemma keeps_batches [keeps_slots]:
  assumes "slot_frame c K M"
  shows "preserves (slots_at c K M G t) (count_batch c key ids)"
    and "preserves (slots_at c K M G t) (load_batch c spec xs)"
  unfolding count_batch_def load_batch_def
  by (intro preserves_if preserves_ret preserves_now preserves_andthen preserves_script
      count_pipeline_slots load_pipeline_slots assms; assumption)+

lemma keeps_increment [keeps_slots]:
  assumes "slot_frame c K M" and "k \<noteq> K"
  shows "preserves (slots_at c K M G t) (run_script (incrementWaitScript k mx ttl))"
    and "preserves (slots_at c K M G t) (run_script (incrementAccountWaitScript k mx ttl))"
    and "preserves (slots_at c K M G t) (run_script (decrementWaitScript k))"
  using assms
  by (intro preserves_script; simp add: incrementWaitScript_def incrementAccountWaitScript_def decrementWaitScript_def
      Let_def slots_at_other slots_at_add split: option.split)+

lemma keeps_waits [keeps_slots]:
  assumes fr: "slot_frame c K M"
  shows "preserves (slots_at c K M G t) (IncrementWaitCount c i mx)"
    and "preserves (slots_at c K M G t) (IncrementAccountWaitCount c i mx)"
    and "preserves (slots_at c K M G t) (DecrementWaitCount c i)"
    and "preserves (slots_at c K M G t) (DecrementAccountWaitCount c i)"
    and "preserves (slots_at c K M G t) (GetAccountWaitingCount i)"
proof -
  have K: "slot_key K" using fr by (simp add: slot_frame_def)
  note neq = slot_key_neq [OF K]
  show "preserves (slots_at c K M G t) (IncrementWaitCount c i mx)"
    "preserves (slots_at c K M G t) (IncrementAccountWaitCount c i mx)"
    unfolding IncrementWaitCount_def IncrementAccountWaitCount_def
    by (intro preserves_andthen preserves_prod preserves_when_do preserves_ret keeps_increment keeps_touch fr neq)+
  show "preserves (slots_at c K M G t) (DecrementWaitCount c i)"
    "preserves (slots_at c K M G t) (DecrementAccountWaitCount c i)"
    unfolding DecrementWaitCount_def DecrementAccountWaitCount_def
    by (intro preserves_andthen keeps_increment keeps_refresh fr neq; simp add: index_spec_def)+
  show "preserves (slots_at c K M G t) (GetAccountWaitingCount i)"
    unfolding GetAccountWaitingCount_def by (rule preserves_query [OF fr])
qed

lemma keeps_cleanup [keeps_slots]:
  assumes fr: "slot_frame c K M"
  shows "preserves (slots_at c K M G t) (CleanupExpiredAccountSlots c i)"
proof -
  have "slots_at c K M G t (snd (cleanupExpiredSlotsScript (accountSlotKey i) (slotTTLSeconds c) r))"
    if r: "slots_at c K M G t r" for r
  proof (cases "accountSlotKey i = K")
    case True
    with inv_cleanup_script [of c K M G r] r fr show ?thesis
      by (auto simp: slots_at_def slot_frame_def cleanupExpiredSlotsScript_def Let_def)
  next
    case False
    with r show ?thesis by (simp add: cleanupExpiredSlotsScript_def Let_def slots_at_other slots_at_del)
  qed
  then show ?thesis
    unfolding CleanupExpiredAccountSlots_def
    by (intro preserves_andthen preserves_script keeps_refresh fr) (simp_all add: index_spec_def)
qed

lemma keeps_read_chunks:
  assumes "slot_frame c K M"
  shows "preserves (slots_at c K M G (max t now)) (read_chunks c spec now xs)"
proof (induction "length xs" arbitrary: xs rule: less_induct)
  case less
  show ?case
  proof (cases "xs = []")
    case True
    then show ?thesis by (subst read_chunks.simps) (simp add: preserves_ret)
  next
    case False
    then have "preserves (slots_at c K M G (max t now)) (read_chunks c spec now (drop activeIndexPipelineChunkSize xs))"
      by (intro less) (simp add: activeIndexPipelineChunkSize_def)
    then show ?thesis
      by (subst read_chunks.simps, intro preserves_if preserves_andthen preserves_script preserves_ret assms
          index_pipeline_slots)
  qed
qed

lemma keeps_reconcile [keeps_slots]:
  assumes fr: "slot_frame c K M" and spec: "index_spec spec"
  shows "preserves (slots_at c K M G t) (reconcileExpiredIndexCandidates c spec)"
proof -
  have K: "slot_key K" using fr by (simp add: slot_frame_def)
  have idx: "indexKey spec \<noteq> K" using spec_neq [OF spec K] by simp
  show ?thesis
    unfolding reconcileExpiredIndexCandidates_def readIndexLoads_def
    by (intro preserves_now preserves_andthen preserves_prod preserves_ret preserves_query keeps_read_chunks
        keeps_write_index fr idx)
qed

lemma keeps_reconcile_all [keeps_slots]:
  "slot_frame c K M \<Longrightarrow> preserves (slots_at c K M G t) (CleanupExpiredAccountSlotKeys c)"
  unfolding CleanupExpiredAccountSlotKeys_def
  by (intro preserves_andthen keeps_reconcile) (simp_all add: index_spec_def)

lemma keeps_sweep_pages:
  assumes "slot_frame c K M" and "\<forall>p \<in> set ps. K \<notin> set p"
  shows "preserves (slots_at c K M G t) (sweep_pages ps)"
  using assms(2)
proof (induction ps)
  case (Cons p ps)
  then show ?case
    by (auto intro!: preserves_andthen preserves_rcall [OF assms(1)] preserves_ret preserves_when_do
        preserves_update simp: slots_at_del)
qed (simp add: preserves_ret)

text \<open>The pages of a prefix hold keys with that prefix only.\<close>

definition pages_ok :: "scan_pages \<Rightarrow> bool" where
  "pages_ok pages \<longleftrightarrow>
     (\<forall>pre r k. k \<in> \<Union> (set ` set (pages pre r)) \<longrightarrow> take (length pre) k = pre)"

lemma keeps_sweep:
  assumes fr: "slot_frame c K M" and pages: "pages_ok pages"
  shows "preserves (slots_at c K M G t) (sweepLegacyWaitKeysOnce pages)"
proof -
  have K: "slot_key K" using fr by (simp add: slot_frame_def)
  then have no: "take (length accountWaitKeyPrefix) K \<noteq> accountWaitKeyPrefix"
    "take (length waitQueueKeyPrefix) K \<noteq> waitQueueKeyPrefix"
    by (auto simp: slot_key_def key_defs)
  have sweep: "preserves (slots_at c K M G t) (sweep_prefix pages pre)" if "take (length pre) K \<noteq> pre" for pre
  proof (rule preservesI)
    fix r assume r: "slots_at c K M G t r"
    have "\<forall>p \<in> set (pages pre r). K \<notin> set p" using pages that unfolding pages_ok_def by blast
    from preservesD [OF keeps_sweep_pages [OF fr this] r]
    show "slots_at c K M G t (snd (sweep_prefix pages pre r))" by (simp add: sweep_prefix_def run)
  qed
  show ?thesis
    unfolding sweepLegacyWaitKeysOnce_def
    by (intro preserves_andthen preserves_query preserves_if preserves_ret sweep no preserves_command fr)
      (simp add: slots_at_other slot_key_neq [OF K])
qed

lemma keeps_stale_loop:
  assumes fr: "slot_frame c K M" and spec: "index_spec spec" and mine: "\<And>m sc. (m, sc) \<in> G \<Longrightarrow> take (length pre) m = pre"
  shows "preserves (slots_at c K M G t) (stale_loop c spec pre now ms)"
proof (induction ms)
  case (Cons m ms)
  have K: "slot_key K" using fr by (simp add: slot_frame_def)
  have wait: "waitKey spec i \<noteq> K" for i using spec_neq [OF spec K] by simp
  have "slots_at c K M G t (snd (startupCleanupSlotScript (slotKey spec i) pre (slotTTLSeconds c) r))"
    if r: "slots_at c K M G t r" for r i
  proof (cases "slotKey spec i = K")
    case True
    with inv_startup [of c K M G r pre] r fr mine show ?thesis
      by (auto simp: slots_at_def slot_frame_def startupCleanupSlotScript_def Let_def)
  next
    case False
    with r show ?thesis by (simp add: startupCleanupSlotScript_def Let_def slots_at_other slots_at_del)
  qed
  then show ?case
    unfolding stale_loop.simps
    by (intro preserves_option preserves_andthen preserves_prod preserves_ret Cons.IH preserves_script preserves_command fr)
      (use wait in \<open>simp_all add: slots_at_del eq_commute\<close>)
qed (simp add: preserves_ret)

lemma keeps_startup:
  assumes fr: "slot_frame c K M" and pages: "pages_ok pages" and mine: "\<And>m sc. (m, sc) \<in> G \<Longrightarrow> take (length pre) m = pre"
  shows "preserves (slots_at c K M G t) (CleanupStaleProcessSlots c pages pre)"
proof -
  have K: "slot_key K" using fr by (simp add: slot_frame_def)
  have "preserves (slots_at c K M G s) (cleanupStaleProcessSlotsForIndex c spec ms pre now)"
    if "index_spec spec" for s spec ms now
    unfolding cleanupStaleProcessSlotsForIndex_def
    by (intro preserves_andthen preserves_prod keeps_stale_loop keeps_write_index fr that mine)
      (use spec_neq [OF that K] in simp_all)
  then show ?thesis
    unfolding CleanupStaleProcessSlots_def allIndexMembers_def
    by (intro preserves_if preserves_ret preserves_now preserves_andthen keeps_sweep preserves_query fr pages)
      (simp_all add: index_spec_def)
qed

lemma keeps_api_key [keeps_slots]:
  assumes fr: "slot_frame c K M"
  shows "preserves (slots_at c K M G t) (TrackAPIKeySlot c i rid)"
    and "preserves (slots_at c K M G t) (ReleaseAPIKeySlot i rid)"
proof -
  have "apiKeySlotKey i \<noteq> K" using fr slot_key_neq(6) by (simp add: slot_frame_def)
  then show "preserves (slots_at c K M G t) (TrackAPIKeySlot c i rid)" "preserves (slots_at c K M G t) (ReleaseAPIKeySlot i rid)"
    unfolding TrackAPIKeySlot_def ReleaseAPIKeySlot_def
    by (intro preserves_andthen preserves_script preserves_command preserves_ret fr;
        simp add: trackSlotScript_def Let_def slots_at_other)+
qed

section \<open>Granted slots\<close>

lemma inv_older:
  assumes inv: "slot_inv c K M (insert (m, sc) G) r" and le: "sc0 \<le> sc"
  shows "slot_inv c K M (insert (m, sc0) G) r"
proof (rule slot_invI, goal_cases)
  case (5 x s)
  show ?case
  proof (cases "(x, s) = (m, sc0)")
    case True
    with 5 le obtain s' where "sc \<le> s'" "(s', m) \<in> set (rd_zsets r K)"
      using slot_invD(5) [OF inv, of m sc] by auto
    with True le show ?thesis by (auto intro: exI [of _ s'])
  next
    case False
    with 5 show ?thesis using slot_invD(5) [OF inv, of x s] by auto
  qed
qed (fact slot_invD [OF inv])+

text \<open>A grant is a promise from the second the caller asked.\<close>

lemma acquire_grants:
  assumes fr: "slot_frame c K M" and spec: "index_spec spec" and key: "slotKey spec i = K" and lim: "mx \<le> M"
    and r: "slot_inv c K M G r" and out: "acquire_slot c spec i mx rid r = (Inr True, r')"
  shows "slot_inv c K M (insert (rid, rd_time r) G) r'"
proof -
  let ?script = "run_script (acquireScript K mx (slotTTLSeconds c) rid)"
  obtain res now r1 where s: "?script r = (Inr (res, now), r1)" and res: "res = 1"
    and rest: "when_do True (touchActiveIndexAt (indexKey spec) i (now + slotTTLSeconds c)) r1 = (Inr (), r')"
    using out unfolding acquire_slot_def key
    by (auto simp: run split: sum.splits prod.splits if_splits)
  obtain r0 where r0: "slots_at c K M G (rd_time r) r0"
    and script: "acquireScript K mx (slotTTLSeconds c) rid r0 = ((1, now), r1)"
  proof -
    have start: "slots_at c K M G (rd_time r) r" using r by (simp add: slots_at_def)
    have tick: "slots_at c K M G (rd_time r) (rd_tick d (r\<lparr>rd_net := n\<rparr>))" for d n
      by (rule slots_at_tick [OF fr]) (simp add: slots_at_net start)
    show ?thesis
      using s res start tick that
      by (auto simp: run_script_def rcall_def Let_def case_prod_beta prod_eq_iff split: list.splits reply.splits)
  qed
  let ?p = "rd_zremrangebyscore K (rd_time r0 - slotTTLSeconds c) r0"
  have p: "slot_inv c K M G ?p" using r0 by (auto simp: slots_at_def intro: inv_prune)
  have held: "now = rd_time r0" "r1 = rd_expire K (slotTTLSeconds c) (rd_zadd K (rd_time r0) rid ?p)"
    "rd_zscore K rid ?p \<noteq> None \<or> rd_zcard K ?p < mx"
    using script by (auto simp: acquireScript_def Let_def split: if_splits)
  have ttl: "0 < slotTTLSeconds c" using fr by (simp add: slot_frame_def)
  have "slot_inv c K M (insert (rid, rd_time r0) G) r1"
    using inv_hold [OF p _ ttl, of rid] held lim by auto
  then have "slot_inv c K M (insert (rid, rd_time r) G) r1"
    by (rule inv_older) (use r0 in \<open>simp add: slots_at_def\<close>)
  then have before: "slots_at c K M (insert (rid, rd_time r) G) (rd_time r1) r1" by (simp add: slots_at_def)
  have keep: "preserves (slots_at c K M (insert (rid, rd_time r) G) (rd_time r1))
      (touchActiveIndexAt (indexKey spec) i (now + slotTTLSeconds c))"
    using fr spec_neq [OF spec] by (intro keeps_touch) (auto simp: slot_frame_def)
  have touched: "touchActiveIndexAt (indexKey spec) i (now + slotTTLSeconds c) r1 = (Inr (), r')"
    using rest by (simp add: when_do_def)
  from preservesD' [OF keep touched before] show ?thesis by (simp add: slots_at_def)
qed

definition promises :: "string \<Rightarrow> (string \<times> string \<times> int) set \<Rightarrow> (string \<times> int) set" where
  "promises K G = {(m, sc). (K, m, sc) \<in> G}"

text \<open>Operations that neither grant slots nor take granted slots back.\<close>

definition forget :: "'a redis_prog \<Rightarrow> unit redis_prog" where
  "forget m = andthen m (\<lambda>_. ret ())"

inductive bystander :: "concurrencyCache \<Rightarrow> unit redis_prog \<Rightarrow> bool" for c where
  "bystander c (forget (GetAccountConcurrency c i))"
| "bystander c (forget (GetUserConcurrency c i))"
| "bystander c (forget (GetAccountConcurrencyBatch c ids))"
| "bystander c (forget (GetAPIKeyConcurrencyBatch c ids))"
| "bystander c (forget (GetAccountsLoadBatch c xs))"
| "bystander c (forget (GetUsersLoadBatch c xs))"
| "bystander c (forget (IncrementWaitCount c i mx))"
| "bystander c (forget (IncrementAccountWaitCount c i mx))"
| "bystander c (DecrementWaitCount c i)"
| "bystander c (DecrementAccountWaitCount c i)"
| "bystander c (forget (GetAccountWaitingCount i))"
| "bystander c (TrackAPIKeySlot c i rid)"
| "bystander c (ReleaseAPIKeySlot i rid)"
| "bystander c (CleanupExpiredAccountSlots c i)"
| "bystander c (CleanupExpiredAccountSlotKeys c)"

text \<open>The server's state and the slots granted and not given back: who holds them, for which key, and
  since when. Acquisitions of a key ask for at most its limit \<open>M\<close>. Any time may pass and the network
  may do anything between and within the operations.\<close>

inductive slot_run ::
  "concurrencyCache \<Rightarrow> scan_pages \<Rightarrow> (string \<Rightarrow> int) \<Rightarrow> redis \<Rightarrow> (string \<times> string \<times> int) set \<Rightarrow> bool"
  for c pages M where
  Start: "(\<And>K. rd_zsets r K = []) \<Longrightarrow> slot_run c pages M r {}"
| Environment: "slot_run c pages M r G \<Longrightarrow> slot_run c pages M (rd_tick d (r\<lparr>rd_net := n\<rparr>)) G"
| AcquireAccount: "slot_run c pages M r G \<Longrightarrow> mx \<le> M (accountSlotKey i) \<Longrightarrow>
    AcquireAccountSlot c i mx rid r = (out, r') \<Longrightarrow>
    slot_run c pages M r' (if out = Inr True then insert (accountSlotKey i, rid, rd_time r) G else G)"
| AcquireUser: "slot_run c pages M r G \<Longrightarrow> mx \<le> M (userSlotKey i) \<Longrightarrow>
    AcquireUserSlot c i mx rid r = (out, r') \<Longrightarrow>
    slot_run c pages M r' (if out = Inr True then insert (userSlotKey i, rid, rd_time r) G else G)"
| ReleaseAccount: "slot_run c pages M r G \<Longrightarrow> ReleaseAccountSlot c i rid r = (out, r') \<Longrightarrow>
    slot_run c pages M r' {(K, m, sc) \<in> G. \<not> (K = accountSlotKey i \<and> m = rid)}"
| ReleaseUser: "slot_run c pages M r G \<Longrightarrow> ReleaseUserSlot c i rid r = (out, r') \<Longrightarrow>
    slot_run c pages M r' {(K, m, sc) \<in> G. \<not> (K = userSlotKey i \<and> m = rid)}"
| Startup: "slot_run c pages M r G \<Longrightarrow> CleanupStaleProcessSlots c pages pre r = (out, r') \<Longrightarrow>
    slot_run c pages M r' {(K, m, sc) \<in> G. take (length pre) m = pre}"
| Bystander: "slot_run c pages M r G \<Longrightarrow> bystander c op \<Longrightarrow> op r = (out, r') \<Longrightarrow> slot_run c pages M r' G"

lemma keeps_bystander:
  assumes "slot_frame c K M" and "bystander c op"
  shows "preserves (slots_at c K M G t) op"
  using assms(2)
  by cases (auto simp: forget_def GetAccountConcurrency_def GetUserConcurrency_def GetAccountConcurrencyBatch_def
      GetAPIKeyConcurrencyBatch_def GetAccountsLoadBatch_def GetUsersLoadBatch_def
      intro!: preserves_andthen preserves_ret keeps_slots assms(1))

lemma promises_simps:
  "promises K (insert (K', m, sc) G) = (if K' = K then insert (m, sc) (promises K G) else promises K G)"
  "promises K {} = {}"
  "promises K {(K', m, sc) \<in> G. P K' m} = {(m, sc) \<in> promises K G. P K m}"
  by (auto simp: promises_def)

lemma inv_less_promises:
  "preserves (slots_at c K M G' t) op \<Longrightarrow> slot_inv c K M G r \<Longrightarrow> G' \<subseteq> G \<Longrightarrow> t \<le> rd_time r \<Longrightarrow> op r = (out, r') \<Longrightarrow>
     slot_inv c K M G' r'"
  using preservesD' inv_promises unfolding slots_at_def by metis

lemma acquire_step:
  assumes "slot_frame c K M" and "index_spec spec" and "slotKey spec i = K \<Longrightarrow> mx \<le> M"
    and "slot_inv c K M (promises K G) r" and "acquire_slot c spec i mx rid r = (out, r')"
  shows "slot_inv c K M (promises K (if out = Inr True then insert (slotKey spec i, rid, rd_time r) G else G)) r'"
proof (cases "out = Inr True \<and> slotKey spec i = K")
  case True
  then have key: "slotKey spec i = K" and out: "out = Inr True" by simp_all
  have "slot_inv c K M (insert (rid, rd_time r) (promises K G)) r'"
    using assms(5) unfolding out by (rule acquire_grants [OF assms(1,2) key assms(3) [OF key] assms(4)])
  with key out show ?thesis by (simp add: promises_simps)
next
  case False
  have "preserves (slots_at c K M (promises K G) (rd_time r)) (acquire_slot c spec i mx rid)"
    using assms(1-3) by (rule keeps_acquire)
  from inv_less_promises [OF this assms(4) order_refl order_refl assms(5)] False show ?thesis
    by (auto simp: promises_simps)
qed

lemma slot_run_inv:
  assumes "slot_run c pages M r G" and "slot_frame c K (M K)" and "pages_ok pages"
  shows "slot_inv c K (M K) (promises K G) r"
  using assms(1)
proof induction
  case (Start r)
  with assms(2) show ?case by (simp add: slot_inv_def rd_zcard_def promises_simps slot_frame_def)
next
  case (Environment r G d n)
  then have "slots_at c K (M K) (promises K G) (rd_time r) (r\<lparr>rd_net := n\<rparr>)"
    unfolding slots_at_net by (simp add: slots_at_def)
  from slots_at_tick [OF assms(2) this] show ?case by (simp add: slots_at_def)
next
  case (AcquireAccount r G mx i rid out r')
  have lim: "slotKey accountSlotIndex i = K \<Longrightarrow> mx \<le> M K" and key: "slotKey accountSlotIndex i = accountSlotKey i"
    using AcquireAccount.hyps(2) by (auto simp: accountSlotIndex_def)
  from AcquireAccount.hyps(3) have "acquire_slot c accountSlotIndex i mx rid r = (out, r')"
    by (simp add: AcquireAccountSlot_def)
  from acquire_step [OF assms(2) _ lim AcquireAccount.IH this] show ?case
    unfolding key by (simp add: index_spec_def)
next
  case (AcquireUser r G mx i rid out r')
  have lim: "slotKey userSlotIndex i = K \<Longrightarrow> mx \<le> M K" and key: "slotKey userSlotIndex i = userSlotKey i"
    using AcquireUser.hyps(2) by (auto simp: userSlotIndex_def)
  from AcquireUser.hyps(3) have "acquire_slot c userSlotIndex i mx rid r = (out, r')"
    by (simp add: AcquireUserSlot_def)
  from acquire_step [OF assms(2) _ lim AcquireUser.IH this] show ?case
    unfolding key by (simp add: index_spec_def)
next
  case (ReleaseAccount r G i rid out r')
  let ?G = "{(K, m, sc) \<in> G. \<not> (K = accountSlotKey i \<and> m = rid)}"
  have "preserves (slots_at c K (M K) (promises K ?G) (rd_time r)) (release_slot c accountSlotIndex i rid)"
    by (rule keeps_release [OF assms(2)]) (auto simp: promises_def index_spec_def accountSlotIndex_def)
  then show ?case
    by (rule inv_less_promises [OF _ ReleaseAccount.IH _ order_refl])
      (use ReleaseAccount.hyps in \<open>auto simp: promises_def ReleaseAccountSlot_def\<close>)
next
  case (ReleaseUser r G i rid out r')
  let ?G = "{(K, m, sc) \<in> G. \<not> (K = userSlotKey i \<and> m = rid)}"
  have "preserves (slots_at c K (M K) (promises K ?G) (rd_time r)) (release_slot c userSlotIndex i rid)"
    by (rule keeps_release [OF assms(2)]) (auto simp: promises_def index_spec_def userSlotIndex_def)
  then show ?case
    by (rule inv_less_promises [OF _ ReleaseUser.IH _ order_refl])
      (use ReleaseUser.hyps in \<open>auto simp: promises_def ReleaseUserSlot_def\<close>)
next
  case (Startup r G pre out r')
  let ?G = "{(K, m, sc) \<in> G. take (length pre) m = pre}"
  have keep: "preserves (slots_at c K (M K) (promises K ?G) (rd_time r)) (CleanupStaleProcessSlots c pages pre)"
    by (rule keeps_startup [OF assms(2,3)]) (auto simp: promises_def)
  have "promises K ?G \<subseteq> promises K G" by (auto simp: promises_def)
  from inv_less_promises [OF keep Startup.IH this order_refl] Startup.hyps(2) show ?case .
next
  case (Bystander r G op out r')
  from inv_less_promises [OF keeps_bystander [OF assms(2) Bystander.hyps(2)] Bystander.IH order_refl order_refl] Bystander.hyps(3)
  show ?case .
qed

text \<open>C5: concurrency limits. In every run of the cache's operations, with any delays, lost requests and
  lost replies, the holders of an account's or user's slot that have not given it back and are within
  its time to live are at most the limit, and each of them is still counted by the sorted set; a
  slot is taken away early only by its own release or by the start of a process with another
  prefix.\<close>

theorem granted_slots_within_limit:
  assumes "slot_run c pages M r G" and "pages_ok pages" and "0 < slotTTLSeconds c" and "0 \<le> M K"
    and "K = accountSlotKey i \<or> K = userSlotKey i"
  defines "holders \<equiv> {m. \<exists>sc. (K, m, sc) \<in> G \<and> rd_time r < sc + slotTTLSeconds c}"
  shows "holders \<subseteq> set (rd_zrange K r) \<and> int (card holders) \<le> M K"
proof -
  have "slot_frame c K (M K)" using assms(3-5) by (auto simp: slot_frame_def slot_key_def)
  from slot_run_inv [OF assms(1) this assms(2)] have inv: "slot_inv c K (M K) (promises K G) r" .
  have sub: "holders \<subseteq> set (rd_zrange K r)"
  proof
    fix m assume "m \<in> holders"
    then obtain sc where "(m, sc) \<in> promises K G" "rd_time r < sc + slotTTLSeconds c"
      by (auto simp: holders_def promises_def)
    from slot_invD(5) [OF inv this] show "m \<in> set (rd_zrange K r)" by (force simp: rd_zrange_def)
  qed
  then have "card holders \<le> length (rd_zrange K r)"
    by (meson List.finite_set card_length card_mono le_trans)
  with sub slot_invD(4) [OF inv] show ?thesis by (simp add: rd_zcard_def rd_zrange_def)
qed

end
