(* ===== verification/ConcurrencyProperties.thy ===== *)
theory ConcurrencyProperties
  imports ConcurrencyInvariants
begin

text \<open>
  What the operations of the concurrency cache do when their requests are served. \<open>slot_semaphore\<close> is
  the contract of the slots of one account or user, a counting semaphore with named holders; the
  model's operations are interpretations of it. The rest is the wait counters, the start of a process
  and the active index.
\<close>

section \<open>The semaphore contract\<close>

fun acquire_all :: "(string \<Rightarrow> 's \<Rightarrow> bool \<times> 's) \<Rightarrow> string list \<Rightarrow> 's \<Rightarrow> bool list \<times> 's" where
  "acquire_all acq [] s = ([], s)"
| "acquire_all acq (m # ms) s =
     (let (b, s1) = acq m s; (bs, s2) = acquire_all acq ms s1 in (b # bs, s2))"

locale slot_semaphore =
  fixes usable :: "'s \<Rightarrow> bool" and holders :: "'s \<Rightarrow> string set"
    and acquire :: "int \<Rightarrow> string \<Rightarrow> 's \<Rightarrow> bool \<times> 's" and release :: "string \<Rightarrow> 's \<Rightarrow> 's"
  assumes finite_holders: "usable s \<Longrightarrow> finite (holders s)"
    and acquire_granted: "usable s \<Longrightarrow> fst (acquire mx m s) \<longleftrightarrow> m \<in> holders s \<or> int (card (holders s)) < mx"
    and acquire_holders: "usable s \<Longrightarrow> holders (snd (acquire mx m s)) =
      (if m \<in> holders s \<or> int (card (holders s)) < mx then insert m (holders s) else holders s)"
    and acquire_usable: "usable s \<Longrightarrow> usable (snd (acquire mx m s))"
    and release_holders: "usable s \<Longrightarrow> holders (release m s) = holders s - {m}"
    and release_usable: "usable s \<Longrightarrow> usable (release m s)"
begin

lemma release_makes_room:
  assumes "usable s" and "m \<in> holders s" and "int (card (holders s)) \<le> mx"
  shows "fst (acquire mx m' (release m s))"
proof -
  have "card (holders s - {m}) < card (holders s)"
    using finite_holders [OF assms(1)] assms(2) by (rule card_Diff1_less)
  with assms show ?thesis
    using acquire_granted [OF release_usable [OF assms(1)]] release_holders [OF assms(1)] by fastforce
qed

lemma free_slots_are_given:
  assumes "usable s" and "distinct ms" and "set ms \<inter> holders s = {}"
    and "k = min (length ms) (nat (mx - int (card (holders s))))"
  shows "fst (acquire_all (acquire mx) ms s) = replicate k True @ replicate (length ms - k) False
    \<and> holders (snd (acquire_all (acquire mx) ms s)) = set (take k ms) \<union> holders s"
  using assms
proof (induction ms arbitrary: s k)
  case (Cons m ms)
  let ?s = "snd (acquire mx m s)"
  define k' where "k' = min (length ms) (nat (mx - int (card (holders ?s))))"
  have m: "m \<notin> holders s" "usable ?s" using Cons.prems acquire_usable by auto
  have IH: "fst (acquire_all (acquire mx) ms ?s) = replicate k' True @ replicate (length ms - k') False
      \<and> holders (snd (acquire_all (acquire mx) ms ?s)) = set (take k' ms) \<union> holders ?s"
    using Cons.prems m by (intro Cons.IH) (auto simp: acquire_holders k'_def)
  show ?case
  proof (cases "int (card (holders s)) < mx")
    case True
    with m Cons.prems have h: "holders ?s = insert m (holders s)" "fst (acquire mx m s)"
      by (simp_all add: acquire_holders acquire_granted)
    with m finite_holders Cons.prems(1) have "card (holders ?s) = Suc (card (holders s))" by simp
    with True Cons.prems(4) have "k = Suc k'" by (simp add: k'_def)
    with IH h show ?thesis by (simp add: Let_def case_prod_beta)
  next
    case False
    with m Cons.prems have h: "holders ?s = holders s" "\<not> fst (acquire mx m s)"
      by (simp_all add: acquire_holders acquire_granted)
    with False Cons.prems(4) have "k = 0" "k' = 0" by (simp_all add: k'_def)
    with IH h show ?thesis by (simp add: Let_def case_prod_beta)
  qed
qed simp

end

section \<open>Slots of an account or user\<close>

definition live_members :: "concurrencyCache \<Rightarrow> string \<Rightarrow> redis \<Rightarrow> string set" where
  "live_members c K r = {m. \<exists>sc. (sc, m) \<in> set (rd_zsets r K) \<and> rd_time r < sc + slotTTLSeconds c}"

definition served :: "concurrencyCache \<Rightarrow> string \<Rightarrow> redis \<Rightarrow> bool" where
  "served c K r \<longleftrightarrow> rd_net r = [] \<and> 0 < slotTTLSeconds c \<and> distinct (map snd (rd_zsets r K))"

lemma rcall_served: "rd_net r = [] \<Longrightarrow> rcall m r = m r"
  by (simp add: rcall_def)

lemma run_script_served: "rd_net r = [] \<Longrightarrow> run_script f r = (Inr (fst (f r)), snd (f r))"
  by (simp add: run_script_def rcall_served case_prod_beta)

lemma command_net [simp]:
  "rd_net (zput k zs r) = rd_net r" "rd_net (rd_zadd k sc m r) = rd_net r" "rd_net (rd_zrem k ms r) = rd_net r"
  "rd_net (rd_zremrangebyscore k mx r) = rd_net r" "rd_net (rd_del ks r) = rd_net r"
  "rd_net (rd_expire k ttl r) = rd_net r" "rd_net (rd_add k d r) = rd_net r" "rd_net (rd_set k d r) = rd_net r"
  by (simp_all add: zput_def rd_zadd_def rd_zrem_def rd_zremrangebyscore_def rd_del_def rd_expire_def
      rd_add_def rd_set_def)

lemma zsets_simps [simp]:
  "rd_zsets (zput k zs r) K = (if K = k then zs else rd_zsets r K)"
  "rd_zsets (rd_zadd k sc m r) K = (if K = k then insort (sc, m) (filter (\<lambda>p. snd p \<noteq> m) (rd_zsets r k)) else rd_zsets r K)"
  "rd_zsets (rd_zrem k ms r) K = (if K = k then filter (\<lambda>p. snd p \<notin> set ms) (rd_zsets r k) else rd_zsets r K)"
  "rd_zsets (rd_zremrangebyscore k mx r) K = (if K = k then filter (\<lambda>p. mx < fst p) (rd_zsets r k) else rd_zsets r K)"
  "rd_zsets (rd_add k d r) K = rd_zsets r K"
  "rd_zsets (rd_del ks r) K = (if K \<in> set ks then [] else rd_zsets r K)"
  "0 < ttl \<Longrightarrow> rd_zsets (rd_expire k ttl r) K = rd_zsets r K"
  by (simp_all add: zput_def rd_zadd_def rd_zrem_def rd_zremrangebyscore_def rd_add_def rd_del_def rd_expire_def)

lemma counters_simps [simp]:
  "rd_counters (zput k zs r) K = rd_counters r K" "rd_counters (rd_zadd k sc m r) K = rd_counters r K"
  "rd_counters (rd_zrem k ms r) K = rd_counters r K" "rd_counters (rd_zremrangebyscore k mx r) K = rd_counters r K"
  "rd_counters (rd_del ks r) K = (if K \<in> set ks then None else rd_counters r K)"
  "0 < ttl \<Longrightarrow> rd_counters (rd_expire k ttl r) K = rd_counters r K"
  by (simp_all add: zput_def rd_zadd_def rd_zrem_def rd_zremrangebyscore_def rd_del_def rd_expire_def)

lemma card_live:
  assumes "distinct (map snd (rd_zsets r K))"
  shows "live_members c K r = snd ` set (filter (\<lambda>p. rd_time r - slotTTLSeconds c < fst p) (rd_zsets r K))"
    and "int (card (live_members c K r)) = rd_zcard K (rd_zremrangebyscore K (rd_time r - slotTTLSeconds c) r)"
proof -
  let ?live = "filter (\<lambda>p. rd_time r - slotTTLSeconds c < fst p) (rd_zsets r K)"
  show eq: "live_members c K r = snd ` set ?live"
    by (force simp: live_members_def)
  have "distinct (map snd ?live)" using assms by (rule distinct_map_filter)
  then have "card (snd ` set ?live) = length ?live"
    by (metis distinct_card length_map list.set_map)
  with eq show "int (card (live_members c K r)) = rd_zcard K (rd_zremrangebyscore K (rd_time r - slotTTLSeconds c) r)"
    by (simp add: rd_zcard_def)
qed

lemma touch_served:
  assumes "rd_net r = []"
  shows "touchActiveIndexAt idx i e r =
    (Inr (), if 0 < i \<and> 0 < e then rd_zadd idx e (format_int i) r else r)"
  using assms by (simp add: touchActiveIndexAt_def logged_def rcall_served run)

definition granted_state :: "concurrencyCache \<Rightarrow> slotIndexSpec \<Rightarrow> int \<Rightarrow> string \<Rightarrow> redis \<Rightarrow> redis" where
  "granted_state c spec i rid r =
     (let K = slotKey spec i; now = rd_time r; ttl = slotTTLSeconds c;
          held = rd_expire K ttl (rd_zadd K now rid (rd_zremrangebyscore K (now - ttl) r))
      in if 0 < i \<and> 0 < now + ttl then rd_zadd (indexKey spec) (now + ttl) (format_int i) held else held)"

lemma acquire_served:
  assumes "served c (slotKey spec i) r"
  shows "acquire_slot c spec i mx rid r =
    (if rid \<in> live_members c (slotKey spec i) r \<or> int (card (live_members c (slotKey spec i) r)) < mx
     then (Inr True, granted_state c spec i rid r)
     else (Inr False, rd_zremrangebyscore (slotKey spec i) (rd_time r - slotTTLSeconds c) r))"
proof -
  let ?K = "slotKey spec i"
  let ?p = "rd_zremrangebyscore ?K (rd_time r - slotTTLSeconds c) r"
  have d: "distinct (map snd (rd_zsets r ?K))" using assms by (simp add: served_def)
  have "rd_zscore ?K rid ?p \<noteq> None \<longleftrightarrow> rid \<in> live_members c ?K r"
    unfolding rd_zscore_None card_live(1) [OF d] by simp
  with card_live(2) [OF d, of c] assms show ?thesis
    by (auto simp: acquire_slot_def run run_script_served served_def acquireScript_def Let_def touch_served
        granted_state_def)
qed

lemma spec_keys:
  assumes "index_spec spec"
  shows "indexKey spec \<noteq> slotKey spec' i \<or> \<not> index_spec spec'" and "slotKey spec i = slotKey spec j \<longleftrightarrow> i = j"
  using assms format_int_no_letter format_int_no_letter [symmetric]
  by (auto simp: index_spec_def accountSlotIndex_def userSlotIndex_def key_defs)

lemma granted_live:
  assumes "served c (slotKey spec i) r" and "index_spec spec"
  shows "live_members c (slotKey spec i) (granted_state c spec i rid r) = insert rid (live_members c (slotKey spec i) r)"
    and "served c (slotKey spec i) (granted_state c spec i rid r)"
proof -
  let ?K = "slotKey spec i"
  have ttl: "0 < slotTTLSeconds c" and d: "distinct (map snd (rd_zsets r ?K))" and net: "rd_net r = []"
    using assms(1) by (simp_all add: served_def)
  have idx: "?K \<noteq> indexKey spec" using spec_keys(1) [OF assms(2), of spec i] assms(2) by auto
  let ?rest = "filter (\<lambda>p. snd p \<noteq> rid) (filter (\<lambda>p. rd_time r - slotTTLSeconds c < fst p) (rd_zsets r ?K))"
  have zs: "rd_zsets (granted_state c spec i rid r) ?K = insort (rd_time r, rid) ?rest"
    and time: "rd_time (granted_state c spec i rid r) = rd_time r"
    using ttl idx by (simp_all add: granted_state_def Let_def)
  show "live_members c ?K (granted_state c spec i rid r) = insert rid (live_members c ?K r)"
    using ttl unfolding live_members_def zs time
    by (intro set_eqI, rename_tac x, case_tac "x = rid") (auto simp: set_insort_key diff_less_eq)
  have "distinct (map snd (insort (rd_time r, rid) ?rest))"
    using d by (auto simp: distinct_map distinct_insort set_insort_key inj_on_def)
  then show "served c ?K (granted_state c spec i rid r)"
    using ttl net zs by (simp add: served_def granted_state_def Let_def)
qed

definition refreshed_state :: "concurrencyCache \<Rightarrow> slotIndexSpec \<Rightarrow> int \<Rightarrow> redis \<Rightarrow> redis" where
  "refreshed_state c spec i r =
     (let K = slotKey spec i; p = rd_zremrangebyscore K (rd_time r - slotTTLSeconds c) r;
          slots = rd_zcard K p; waits = max 0 (counter_value (waitKey spec i) p);
          ttl = activeIndexTTL c slots waits
      in if i \<le> 0 then r
         else if slots = 0 \<and> waits = 0 then rd_zrem (indexKey spec) [format_int i] p
         else if 0 < ttl \<and> 0 < rd_time r + ttl then rd_zadd (indexKey spec) (rd_time r + ttl) (format_int i) p
         else p)"

lemma refresh_served:
  assumes "rd_net r = []"
  shows "refreshActiveIndex c spec i r = (Inr (), refreshed_state c spec i r)"
proof (cases "0 < i")
  case True
  let ?K = "slotKey spec i"
  let ?p = "rd_zremrangebyscore ?K (rd_time r - slotTTLSeconds c) r"
  have p: "rd_net ?p = []" using assms by simp
  have "max 0 w \<le> 0 \<longleftrightarrow> max 0 w = 0" for w :: int by auto
  with True assms p show ?thesis
    by (simp add: refreshActiveIndex_def logged_def redisUnixSeconds_def readActiveLoadForKey_def rcall_served
        run_script_served run read_load_def Let_def refresh_with_def refreshed_state_def touch_served)
qed (simp add: refreshActiveIndex_def refreshed_state_def run)

lemma refreshed_live:
  assumes "served c (slotKey spec i) r" and "index_spec spec"
  shows "live_members c (slotKey spec i) (refreshed_state c spec i r) = live_members c (slotKey spec i) r"
    and "served c (slotKey spec i) (refreshed_state c spec i r)"
proof -
  let ?K = "slotKey spec i"
  have idx: "?K \<noteq> indexKey spec" using spec_keys(1) [OF assms(2), of spec i] assms(2) by auto
  have zs: "rd_zsets (refreshed_state c spec i r) ?K =
      (if i \<le> 0 then rd_zsets r ?K else filter (\<lambda>p. rd_time r - slotTTLSeconds c < fst p) (rd_zsets r ?K))"
    and rest: "rd_time (refreshed_state c spec i r) = rd_time r" "rd_net (refreshed_state c spec i r) = rd_net r"
    using idx by (simp_all add: refreshed_state_def Let_def)
  show "live_members c ?K (refreshed_state c spec i r) = live_members c ?K r"
    unfolding live_members_def zs rest by auto
  show "served c ?K (refreshed_state c spec i r)"
    using assms(1) by (simp add: served_def zs rest distinct_map_filter)
qed

lemma release_served:
  assumes "rd_net r = []"
  shows "release_slot c spec i rid r = (Inr (), refreshed_state c spec i (rd_zrem (slotKey spec i) [rid] r))"
  using assms by (simp add: release_slot_def run rcall_served refresh_served)

lemma release_live:
  assumes "served c (slotKey spec i) r" and "index_spec spec"
  shows "live_members c (slotKey spec i) (snd (release_slot c spec i rid r)) = live_members c (slotKey spec i) r - {rid}"
    and "served c (slotKey spec i) (snd (release_slot c spec i rid r))"
proof -
  let ?r = "rd_zrem (slotKey spec i) [rid] r"
  have r: "served c (slotKey spec i) ?r" "rd_net r = []"
    using assms(1) by (simp_all add: served_def distinct_map_filter)
  have "live_members c (slotKey spec i) ?r = live_members c (slotKey spec i) r - {rid}"
    by (auto simp: live_members_def)
  with refreshed_live [OF r(1) assms(2)] r(2)
  show "live_members c (slotKey spec i) (snd (release_slot c spec i rid r)) = live_members c (slotKey spec i) r - {rid}"
    "served c (slotKey spec i) (snd (release_slot c spec i rid r))"
    by (simp_all add: release_served)
qed

lemma refused_live:
  assumes "served c K r"
  shows "live_members c K (rd_zremrangebyscore K (rd_time r - slotTTLSeconds c) r) = live_members c K r"
    and "served c K (rd_zremrangebyscore K (rd_time r - slotTTLSeconds c) r)"
  using assms by (auto simp: live_members_def served_def distinct_map_filter)

text \<open>The state of the contract is the cache's configuration, the account or user, and the server.\<close>

definition spec_acquire :: "slotIndexSpec \<Rightarrow> int \<Rightarrow> string \<Rightarrow> concurrencyCache \<times> int \<times> redis
    \<Rightarrow> bool \<times> concurrencyCache \<times> int \<times> redis" where
  "spec_acquire spec mx rid = (\<lambda>(c, i, r). case acquire_slot c spec i mx rid r of (out, r') \<Rightarrow> (out = Inr True, c, i, r'))"

definition spec_release :: "slotIndexSpec \<Rightarrow> string \<Rightarrow> concurrencyCache \<times> int \<times> redis \<Rightarrow> concurrencyCache \<times> int \<times> redis" where
  "spec_release spec rid = (\<lambda>(c, i, r). (c, i, snd (release_slot c spec i rid r)))"

lemma semaphore_laws:
  assumes "index_spec spec"
  shows "slot_semaphore (\<lambda>(c, i, r). served c (slotKey spec i) r) (\<lambda>(c, i, r). live_members c (slotKey spec i) r)
    (spec_acquire spec) (spec_release spec)"
proof (unfold_locales, goal_cases)
  case (1 s)
  then show ?case using card_live(1) by (auto simp: served_def)
next
  case (2 s mx m)
  then show ?case by (auto simp: spec_acquire_def acquire_served split: if_splits)
next
  case (3 s mx m)
  then show ?case using granted_live(1) [OF _ assms] refused_live(1)
    by (cases s) (simp add: spec_acquire_def acquire_served)
next
  case (4 s mx m)
  then show ?case using granted_live(2) [OF _ assms] refused_live(2)
    by (cases s) (simp add: spec_acquire_def acquire_served)
next
  case (5 s m)
  then show ?case using release_live(1) [OF _ assms] by (auto simp: spec_release_def)
next
  case (6 s m)
  then show ?case using release_live(2) [OF _ assms] by (auto simp: spec_release_def)
qed

interpretation account_slots: slot_semaphore
  "\<lambda>(c, i, r). served c (accountSlotKey i) r" "\<lambda>(c, i, r). live_members c (accountSlotKey i) r"
  "spec_acquire accountSlotIndex" "spec_release accountSlotIndex"
  using semaphore_laws [of accountSlotIndex] by (simp add: index_spec_def accountSlotIndex_def)

interpretation user_slots: slot_semaphore
  "\<lambda>(c, i, r). served c (userSlotKey i) r" "\<lambda>(c, i, r). live_members c (userSlotKey i) r"
  "spec_acquire userSlotIndex" "spec_release userSlotIndex"
  using semaphore_laws [of userSlotIndex] by (simp add: index_spec_def userSlotIndex_def)

lemma acquire_all_spec:
  "acquire_all (spec_acquire spec mx) ms (c, i, r) =
    (case acquire_all (\<lambda>rid r. case acquire_slot c spec i mx rid r of (out, r') \<Rightarrow> (out = Inr True, r')) ms r of
       (bs, r') \<Rightarrow> (bs, c, i, r'))"
  by (induction ms arbitrary: r) (simp_all add: spec_acquire_def Let_def case_prod_beta)

text \<open>the slots of an account are a counting semaphore. When the requests are served, new requests
  asking one after the other get exactly the free slots: as many as the limit leaves, the first ones
  to ask, and the others are refused; afterwards the holders are the old ones and the granted ones.
  Giving a slot back lets the next request in.\<close>

theorem free_account_slots_are_given:
  fixes mx :: int
  assumes "rd_net r = []" and "0 < slotTTLSeconds c" and "distinct (map snd (rd_zsets r (accountSlotKey i)))"
    and "distinct ms" and "set ms \<inter> live_members c (accountSlotKey i) r = {}"
  defines "acq \<equiv> \<lambda>rid r. case AcquireAccountSlot c i mx rid r of (out, r') \<Rightarrow> (out = Inr True, r')"
    and "live \<equiv> live_members c (accountSlotKey i)"
    and "k \<equiv> min (length ms) (nat (mx - int (card (live_members c (accountSlotKey i) r))))"
  shows "fst (acquire_all acq ms r) = replicate k True @ replicate (length ms - k) False
    \<and> live (snd (acquire_all acq ms r)) = set (take k ms) \<union> live r
    \<and> (\<forall>m m'. m \<in> live r \<longrightarrow> int (card (live r)) \<le> mx \<longrightarrow>
         (\<exists>s. ReleaseAccountSlot c i m r = (Inr (), s) \<and> fst (AcquireAccountSlot c i mx m' s) = Inr True))"
proof -
  have s: "served c (accountSlotKey i) r" using assms(1-3) by (simp add: served_def)
  have given: "fst (acquire_all acq ms r) = replicate k True @ replicate (length ms - k) False
      \<and> live (snd (acquire_all acq ms r)) = set (take k ms) \<union> live r"
    using account_slots.free_slots_are_given [of "(c, i, r)" ms k mx] s assms(4,5)
    by (simp add: k_def live_def acquire_all_spec acq_def AcquireAccountSlot_def case_prod_beta)
  have "fst (AcquireAccountSlot c i mx m' (snd (ReleaseAccountSlot c i m r))) = Inr True"
    if "m \<in> live r" "int (card (live r)) \<le> mx" for m m'
    using account_slots.release_makes_room [of "(c, i, r)" m mx m'] s that
    by (simp add: live_def spec_acquire_def spec_release_def AcquireAccountSlot_def ReleaseAccountSlot_def case_prod_beta)
  moreover have "fst (ReleaseAccountSlot c i m r) = Inr ()" for m
    using assms(1) by (simp add: ReleaseAccountSlot_def release_served)
  ultimately show ?thesis using given by (metis prod.collapse)
qed

definition example_cache :: concurrencyCache where
  "example_cache = \<lparr>slotTTLSeconds = 900, waitQueueTTLSeconds = 900\<rparr>"

lemma empty_simps [simp]:
  "live_members c K empty_redis = {}" "rd_net empty_redis = []" "rd_zsets empty_redis K = []"
  "rd_counters empty_redis K = None" "rd_time empty_redis = 0" "slotTTLSeconds example_cache = 900"
  "waitQueueTTLSeconds example_cache = 900"
  by (simp_all add: live_members_def empty_redis_def rd_time_def example_cache_def)

lemma free_account_slots_are_given_witness:
  "fst (acquire_all (\<lambda>rid r. case AcquireAccountSlot example_cache 7 2 rid r of (out, r') \<Rightarrow> (out = Inr True, r'))
     [''a'', ''b'', ''c''] empty_redis) = [True, True, False]"
  using free_account_slots_are_given [where r = empty_redis and c = example_cache and i = 7 and mx = 2
      and ms = "[''a'', ''b'', ''c'']"]
  by (simp add: numeral_2_eq_2 numeral_3_eq_3 del: acquire_all.simps)

section \<open>The start of a process\<close>

definition own :: "string \<Rightarrow> int \<times> string \<Rightarrow> bool" where
  "own pre p \<longleftrightarrow> take (length pre) (snd p) = pre"

definition indexed :: "slotIndexSpec \<Rightarrow> string list \<Rightarrow> int \<Rightarrow> bool" where
  "indexed spec ms i \<longleftrightarrow> Some i \<in> member_id ` set ms"

definition keeps_own :: "slotIndexSpec \<Rightarrow> string \<Rightarrow> redis \<Rightarrow> string \<Rightarrow> bool" where
  "keeps_own spec pre r m \<longleftrightarrow> (\<exists>i. member_id m = Some i \<and> filter (own pre) (rd_zsets r (slotKey spec i)) \<noteq> [])"

lemma startup_script_served:
  assumes "0 < ttl"
  shows "rd_zsets (snd (startupCleanupSlotScript K pre ttl r)) K' =
      (if K' = K then filter (own pre) (rd_zsets r K) else rd_zsets r K')"
    and "snd (fst (startupCleanupSlotScript K pre ttl r)) = int (length (filter (own pre) (rd_zsets r K)))"
    and "rd_net (snd (startupCleanupSlotScript K pre ttl r)) = rd_net r"
    and "rd_time (snd (startupCleanupSlotScript K pre ttl r)) = rd_time r"
    and "K' \<noteq> K \<Longrightarrow> rd_counters (snd (startupCleanupSlotScript K pre ttl r)) K' = rd_counters r K'"
proof -
  have zrem: "filter (\<lambda>p. snd p \<notin> set (foreign_members pre (rd_zrange K r))) (rd_zsets r K) = filter (own pre) (rd_zsets r K)"
    by (rule filter_cong) (auto simp: foreign_members_def rd_zrange_def own_def)
  show "rd_zsets (snd (startupCleanupSlotScript K pre ttl r)) K' =
      (if K' = K then filter (own pre) (rd_zsets r K) else rd_zsets r K')"
    "snd (fst (startupCleanupSlotScript K pre ttl r)) = int (length (filter (own pre) (rd_zsets r K)))"
    "rd_net (snd (startupCleanupSlotScript K pre ttl r)) = rd_net r"
    "rd_time (snd (startupCleanupSlotScript K pre ttl r)) = rd_time r"
    "K' \<noteq> K \<Longrightarrow> rd_counters (snd (startupCleanupSlotScript K pre ttl r)) K' = rd_counters r K'"
    using assms zrem by (simp_all add: startupCleanupSlotScript_def Let_def rd_zcard_def)
qed

lemma index_keys_apart:
  assumes "index_spec spec"
  shows "waitKey spec j \<noteq> slotKey spec i" "indexKey spec \<noteq> slotKey spec i" "indexKey spec \<noteq> waitKey spec j"
    "slotKey spec i = slotKey spec j \<longleftrightarrow> i = j" "waitKey spec i = waitKey spec j \<longleftrightarrow> i = j"
  using assms format_int_no_letter format_int_no_letter [symmetric]
  by (auto simp: index_spec_def accountSlotIndex_def userSlotIndex_def key_defs)

definition cleaned :: "concurrencyCache \<Rightarrow> slotIndexSpec \<Rightarrow> string \<Rightarrow> string \<Rightarrow> redis \<Rightarrow> redis" where
  "cleaned c spec pre m r = (case member_id m of None \<Rightarrow> r
     | Some i \<Rightarrow> rd_del [waitKey spec i] (snd (startupCleanupSlotScript (slotKey spec i) pre (slotTTLSeconds c) r)))"

lemma cleaned_simps:
  assumes ttl: "0 < slotTTLSeconds c" and spec: "index_spec spec"
  shows "rd_net (cleaned c spec pre m r) = rd_net r" and "rd_time (cleaned c spec pre m r) = rd_time r"
    and "rd_zsets (cleaned c spec pre m r) (slotKey spec i) =
      (if member_id m = Some i then filter (own pre) (rd_zsets r (slotKey spec i)) else rd_zsets r (slotKey spec i))"
    and "(\<And>i. K \<noteq> slotKey spec i \<and> K \<noteq> waitKey spec i) \<Longrightarrow> rd_zsets (cleaned c spec pre m r) K = rd_zsets r K"
    and "rd_counters (cleaned c spec pre m r) (waitKey spec i) =
      (if member_id m = Some i then None else rd_counters r (waitKey spec i))"
    and "keeps_own spec pre (cleaned c spec pre m r) = keeps_own spec pre r"
proof -
  note keys = index_keys_apart [OF spec]
  note script = startup_script_served [OF ttl]
  show "rd_net (cleaned c spec pre m r) = rd_net r" "rd_time (cleaned c spec pre m r) = rd_time r"
    by (simp_all add: cleaned_def script split: option.split)
  show zs: "rd_zsets (cleaned c spec pre m r) (slotKey spec i) =
      (if member_id m = Some i then filter (own pre) (rd_zsets r (slotKey spec i)) else rd_zsets r (slotKey spec i))" for i
    using keys(1) by (simp add: cleaned_def script keys(4) eq_commute [of "slotKey spec i" "waitKey spec _"] split: option.split)
  show "rd_zsets (cleaned c spec pre m r) K = rd_zsets r K" if "\<And>i. K \<noteq> slotKey spec i \<and> K \<noteq> waitKey spec i"
    using that by (simp add: cleaned_def script split: option.split)
  show "rd_counters (cleaned c spec pre m r) (waitKey spec i) =
      (if member_id m = Some i then None else rd_counters r (waitKey spec i))"
    using keys(1) by (simp add: cleaned_def script keys(5) split: option.split)
  show "keeps_own spec pre (cleaned c spec pre m r) = keeps_own spec pre r"
    by (rule ext) (simp add: keeps_own_def zs)
qed

lemma stale_loop_served:
  assumes "rd_net r = []" and ttl: "0 < slotTTLSeconds c" and spec: "index_spec spec"
  shows "stale_loop c spec pre now ms r =
    (Inr (map (\<lambda>m. (now + slotTTLSeconds c, m)) (filter (keeps_own spec pre r) ms),
          filter (\<lambda>m. \<not> keeps_own spec pre r m) ms), fold (cleaned c spec pre) ms r)"
  using assms(1)
proof (induction ms arbitrary: r)
  case (Cons m ms)
  let ?r = "cleaned c spec pre m r"
  have IH: "stale_loop c spec pre now ms ?r =
    (Inr (map (\<lambda>m. (now + slotTTLSeconds c, m)) (filter (keeps_own spec pre r) ms),
          filter (\<lambda>m. \<not> keeps_own spec pre r m) ms), fold (cleaned c spec pre) ms ?r)"
    using Cons.IH [of ?r] Cons.prems by (simp add: cleaned_simps [OF ttl spec])
  show ?case
  proof (cases "member_id m")
    case None
    then have "?r = r" "\<not> keeps_own spec pre r m" by (simp_all add: cleaned_def keeps_own_def)
    with IH None show ?thesis by (simp add: run)
  next
    case (Some i)
    let ?script = "startupCleanupSlotScript (slotKey spec i) pre (slotTTLSeconds c) r"
    have after: "?r = rd_del [waitKey spec i] (snd ?script)" using Some by (simp add: cleaned_def)
    have "keeps_own spec pre r m \<longleftrightarrow> 0 < snd (fst ?script)"
      using Some by (simp add: keeps_own_def startup_script_served [OF ttl])
    with IH Some Cons.prems show ?thesis
      by (simp add: run run_script_served rcall_served startup_script_served(3) [OF ttl] after case_prod_beta)
  qed
qed (simp add: run)

lemma cleaned_all:
  assumes ttl: "0 < slotTTLSeconds c" and spec: "index_spec spec"
  shows "rd_net (fold (cleaned c spec pre) ms r) = rd_net r" and "rd_time (fold (cleaned c spec pre) ms r) = rd_time r"
    and "rd_zsets (fold (cleaned c spec pre) ms r) (slotKey spec i) =
      (if indexed spec ms i then filter (own pre) (rd_zsets r (slotKey spec i)) else rd_zsets r (slotKey spec i))"
    and "(\<And>i. K \<noteq> slotKey spec i \<and> K \<noteq> waitKey spec i) \<Longrightarrow> rd_zsets (fold (cleaned c spec pre) ms r) K = rd_zsets r K"
    and "rd_counters (fold (cleaned c spec pre) ms r) (waitKey spec i) =
      (if indexed spec ms i then None else rd_counters r (waitKey spec i))"
  by (induction ms arbitrary: r) (auto simp: cleaned_simps [OF ttl spec] indexed_def)

lemma cleaned_no_counter:
  "rd_counters r K = None \<Longrightarrow> 0 < slotTTLSeconds c \<Longrightarrow> rd_counters (fold (cleaned c spec pre) ms r) K = None"
proof (induction ms arbitrary: r)
  case (Cons m ms)
  then have "rd_counters (cleaned c spec pre m r) K = None"
    by (simp add: cleaned_def startupCleanupSlotScript_def Let_def split: option.split)
  with Cons show ?case by simp
qed simp

lemma zadd_all_simps:
  "rd_net (rd_zadd_all idx xs r) = rd_net r" "rd_time (rd_zadd_all idx xs r) = rd_time r"
  "rd_counters (rd_zadd_all idx xs r) = rd_counters r"
  "K \<noteq> idx \<Longrightarrow> rd_zsets (rd_zadd_all idx xs r) K = rd_zsets r K"
  "set (rd_zrange idx (rd_zadd_all idx xs r)) = snd ` set xs \<union> set (rd_zrange idx r)"
proof (induction xs arbitrary: r)
  case (Cons x xs)
  obtain sc m where x: "x = (sc, m)" by (cases x)
  {
    case 1
    show ?case using Cons(1) [of "rd_zadd idx sc m r"] by (simp add: x rd_zadd_all_def)
  next
    case 2
    show ?case using Cons(2) [of "rd_zadd idx sc m r"] by (simp add: x rd_zadd_all_def)
  next
    case 3
    show ?case using Cons(3) [of "rd_zadd idx sc m r"] by (simp add: x rd_zadd_all_def rd_zadd_def zput_def)
  next
    case 4
    then show ?case using Cons(4) [of "rd_zadd idx sc m r"] by (simp add: x rd_zadd_all_def)
  next
    case 5
    have "set (rd_zrange idx (rd_zadd idx sc m r)) = insert m (set (rd_zrange idx r))"
      by (auto simp: rd_zrange_def set_insort_key)
    then show ?case using Cons(5) [of "rd_zadd idx sc m r"] by (auto simp: x rd_zadd_all_def)
  }
qed (simp_all add: rd_zadd_all_def)

definition index_written :: "string \<Rightarrow> (int \<times> string) list \<Rightarrow> string list \<Rightarrow> redis \<Rightarrow> redis" where
  "index_written idx fresh stale r =
     (if stale = [] then rd_zadd_all idx fresh r else rd_zrem idx stale (rd_zadd_all idx fresh r))"

lemma write_index_served:
  "rd_net r = [] \<Longrightarrow> write_index idx fresh stale r = (Inr (), index_written idx fresh stale r)"
  by (simp add: write_index_def removeActiveIndexMembers_def logged_def run rcall_served zadd_all_simps
      index_written_def) (simp add: rd_zadd_all_def)

lemma index_written_simps:
  "rd_net (index_written idx fresh stale r) = rd_net r" "rd_time (index_written idx fresh stale r) = rd_time r"
  "rd_counters (index_written idx fresh stale r) K = rd_counters r K"
  "K \<noteq> idx \<Longrightarrow> rd_zsets (index_written idx fresh stale r) K = rd_zsets r K"
  "set (rd_zrange idx (index_written idx fresh stale r)) = (snd ` set fresh \<union> set (rd_zrange idx r)) - set stale"
proof -
  have "set (rd_zrange idx (rd_zrem idx stale s)) = set (rd_zrange idx s) - set stale" for s
    by (auto simp: rd_zrange_def)
  then show "set (rd_zrange idx (index_written idx fresh stale r)) = (snd ` set fresh \<union> set (rd_zrange idx r)) - set stale"
    by (simp add: index_written_def zadd_all_simps)
qed (simp_all add: index_written_def zadd_all_simps)

text \<open>One index: the server's state after its loop and its write.\<close>

definition index_cleaned :: "concurrencyCache \<Rightarrow> slotIndexSpec \<Rightarrow> string \<Rightarrow> int \<Rightarrow> redis \<Rightarrow> redis" where
  "index_cleaned c spec pre now r =
     (let ms = rd_zrange (indexKey spec) r
      in index_written (indexKey spec) (map (\<lambda>m. (now + slotTTLSeconds c, m)) (filter (keeps_own spec pre r) ms))
           (filter (\<lambda>m. \<not> keeps_own spec pre r m) ms) (fold (cleaned c spec pre) ms r))"

lemma index_cleaned_simps:
  assumes ttl: "0 < slotTTLSeconds c" and spec: "index_spec spec"
  shows "rd_net (index_cleaned c spec pre now r) = rd_net r"
    and "rd_zsets (index_cleaned c spec pre now r) (slotKey spec i) =
      (if indexed spec (rd_zrange (indexKey spec) r) i then filter (own pre) (rd_zsets r (slotKey spec i))
       else rd_zsets r (slotKey spec i))"
    and "indexed spec (rd_zrange (indexKey spec) r) i \<Longrightarrow> rd_counters (index_cleaned c spec pre now r) (waitKey spec i) = None"
    and "rd_counters r K = None \<Longrightarrow> rd_counters (index_cleaned c spec pre now r) K = None"
    and "(\<And>i. K \<noteq> slotKey spec i \<and> K \<noteq> waitKey spec i) \<Longrightarrow> K \<noteq> indexKey spec \<Longrightarrow>
      rd_zsets (index_cleaned c spec pre now r) K = rd_zsets r K"
    and "set (rd_zrange (indexKey spec) (index_cleaned c spec pre now r)) =
      {m \<in> set (rd_zrange (indexKey spec) r). keeps_own spec pre r m}"
proof -
  note keys = index_keys_apart [OF spec]
  have idx: "slotKey spec i \<noteq> indexKey spec" "indexKey spec \<noteq> slotKey spec i \<and> indexKey spec \<noteq> waitKey spec i" for i
    using keys(2) [of i] keys(3) [of i] by auto
  show "rd_net (index_cleaned c spec pre now r) = rd_net r"
    by (simp add: index_cleaned_def Let_def index_written_simps cleaned_all [OF ttl spec])
  show "rd_zsets (index_cleaned c spec pre now r) (slotKey spec i) =
      (if indexed spec (rd_zrange (indexKey spec) r) i then filter (own pre) (rd_zsets r (slotKey spec i))
       else rd_zsets r (slotKey spec i))"
    by (simp add: index_cleaned_def Let_def index_written_simps idx(1) cleaned_all(3) [OF ttl spec])
  show "indexed spec (rd_zrange (indexKey spec) r) i \<Longrightarrow> rd_counters (index_cleaned c spec pre now r) (waitKey spec i) = None"
    by (simp add: index_cleaned_def Let_def index_written_simps cleaned_all(5) [OF ttl spec])
  show "rd_counters r K = None \<Longrightarrow> rd_counters (index_cleaned c spec pre now r) K = None"
    by (simp add: index_cleaned_def Let_def index_written_simps cleaned_no_counter ttl)
  show "rd_zsets (index_cleaned c spec pre now r) K = rd_zsets r K"
    if "\<And>i. K \<noteq> slotKey spec i \<and> K \<noteq> waitKey spec i" "K \<noteq> indexKey spec"
    using that(2) cleaned_all(4) [OF ttl spec that(1)] by (simp add: index_cleaned_def Let_def index_written_simps)
  have "rd_zrange (indexKey spec) (fold (cleaned c spec pre) ms r) = rd_zrange (indexKey spec) r" for ms
    using cleaned_all(4) [OF ttl spec idx(2)] by (simp add: rd_zrange_def)
  then show "set (rd_zrange (indexKey spec) (index_cleaned c spec pre now r)) =
      {m \<in> set (rd_zrange (indexKey spec) r). keeps_own spec pre r m}"
    by (auto simp: index_cleaned_def Let_def index_written_simps)
qed

lemma sweep_pages_served: "rd_net r = [] \<Longrightarrow> sweep_pages ps r = (Inr (), fold rd_del ps r)"
proof (induction ps arbitrary: r)
  case (Cons p ps)
  have "rd_del [] r = r" by (simp add: rd_del_def)
  with Cons show ?case by (simp add: run rcall_served)
qed (simp add: run)

lemma fold_del_simps:
  "rd_net (fold rd_del ps r) = rd_net r" "rd_time (fold rd_del ps r) = rd_time r"
  "K \<notin> \<Union> (set ` set ps) \<Longrightarrow> rd_zsets (fold rd_del ps r) K = rd_zsets r K"
  by (induction ps arbitrary: r) auto

definition wait_key :: "string \<Rightarrow> bool" where
  "wait_key K \<longleftrightarrow> take (length accountWaitKeyPrefix) K = accountWaitKeyPrefix
     \<or> take (length waitQueueKeyPrefix) K = waitQueueKeyPrefix"

lemma sweep_served:
  assumes "rd_net r = []" and "pages_ok pages"
  shows "\<exists>r1. sweepLegacyWaitKeysOnce pages r = (Inr (), r1) \<and> rd_net r1 = [] \<and> rd_time r1 = rd_time r
    \<and> (\<forall>K. \<not> wait_key K \<longrightarrow> K \<noteq> legacyWaitSweepMarkerKey \<longrightarrow> rd_zsets r1 K = rd_zsets r K)"
proof (cases "rd_exists legacyWaitSweepMarkerKey r")
  case True
  with assms(1) show ?thesis by (simp add: sweepLegacyWaitKeysOnce_def run rcall_served)
next
  case False
  let ?r1 = "fold rd_del (pages accountWaitKeyPrefix r) r"
  let ?r2 = "fold rd_del (pages waitQueueKeyPrefix ?r1) ?r1"
  let ?r3 = "rd_set legacyWaitSweepMarkerKey 1 ?r2"
  have run: "sweepLegacyWaitKeysOnce pages r = (Inr (), ?r3)"
    using False assms(1) by (simp add: sweepLegacyWaitKeysOnce_def run rcall_served sweep_prefix_def
        sweep_pages_served fold_del_simps)
  have "rd_zsets ?r2 K = rd_zsets r K" if "\<not> wait_key K" for K
  proof -
    have "K \<notin> \<Union> (set ` set (pages accountWaitKeyPrefix r))" "K \<notin> \<Union> (set ` set (pages waitQueueKeyPrefix ?r1))"
      using that assms(2) unfolding pages_ok_def wait_key_def by blast+
    then show ?thesis by (simp add: fold_del_simps)
  qed
  then have "rd_zsets ?r3 K = rd_zsets r K" if "\<not> wait_key K" "K \<noteq> legacyWaitSweepMarkerKey" for K
    using that by (simp add: rd_set_def)
  moreover have "rd_net ?r3 = []" "rd_time ?r3 = rd_time r" using assms(1) by (simp_all add: fold_del_simps)
  ultimately show ?thesis using run by blast
qed

lemma startup_served:
  assumes "rd_net r = []" and "0 < slotTTLSeconds c" and "pages_ok pages" and "pre \<noteq> []"
  shows "\<exists>r1 now. CleanupStaleProcessSlots c pages pre r =
      (Inr (), index_cleaned c userSlotIndex pre now (index_cleaned c accountSlotIndex pre now r1)) \<and> rd_net r1 = []
    \<and> (\<forall>K. \<not> wait_key K \<longrightarrow> K \<noteq> legacyWaitSweepMarkerKey \<longrightarrow> rd_zsets r1 K = rd_zsets r K)"
proof -
  have specs: "index_spec accountSlotIndex" "index_spec userSlotIndex" by (simp_all add: index_spec_def)
  have idx: "accountActiveIndexKey = indexKey accountSlotIndex" "userActiveIndexKey = indexKey userSlotIndex"
    by (simp_all add: accountSlotIndex_def userSlotIndex_def)
  from sweep_served [OF assms(1,3)] obtain r1 where r1: "sweepLegacyWaitKeysOnce pages r = (Inr (), r1)" "rd_net r1 = []"
    "\<forall>K. \<not> wait_key K \<longrightarrow> K \<noteq> legacyWaitSweepMarkerKey \<longrightarrow> rd_zsets r1 K = rd_zsets r K"
    by blast
  have one: "cleanupStaleProcessSlotsForIndex c spec (rd_zrange (indexKey spec) s) pre now s =
      (Inr (), index_cleaned c spec pre now s)" if "rd_net s = []" "index_spec spec" for spec s now
    using that by (simp add: cleanupStaleProcessSlotsForIndex_def run stale_loop_served [OF that(1) assms(2) that(2)]
        write_index_served cleaned_all(1) [OF assms(2) that(2)] index_cleaned_def Let_def)
  have "CleanupStaleProcessSlots c pages pre r =
      (Inr (), index_cleaned c userSlotIndex pre (rd_time r1) (index_cleaned c accountSlotIndex pre (rd_time r1) r1))"
    unfolding CleanupStaleProcessSlots_def idx
    using assms(4) r1 by (simp add: run redisUnixSeconds_def allIndexMembers_def rcall_served one [OF _ specs(1)]
        one [OF _ specs(2)] index_cleaned_simps(1) [OF assms(2)] specs)
  with r1(2,3) show ?thesis by blast
qed

lemma not_wait_keys:
  assumes "index_spec spec"
  shows "\<not> wait_key (slotKey spec i)" "slotKey spec i \<noteq> legacyWaitSweepMarkerKey"
    "\<not> wait_key (indexKey spec)" "indexKey spec \<noteq> legacyWaitSweepMarkerKey"
  using assms by (auto simp: index_spec_def accountSlotIndex_def userSlotIndex_def wait_key_def key_defs)

lemma specs_apart:
  "slotKey userSlotIndex i \<noteq> slotKey accountSlotIndex j \<and> slotKey userSlotIndex i \<noteq> waitKey accountSlotIndex j"
  "slotKey accountSlotIndex i \<noteq> slotKey userSlotIndex j \<and> slotKey accountSlotIndex i \<noteq> waitKey userSlotIndex j"
  "indexKey userSlotIndex \<noteq> slotKey accountSlotIndex j \<and> indexKey userSlotIndex \<noteq> waitKey accountSlotIndex j"
  "indexKey accountSlotIndex \<noteq> slotKey userSlotIndex j \<and> indexKey accountSlotIndex \<noteq> waitKey userSlotIndex j"
  "indexKey userSlotIndex \<noteq> indexKey accountSlotIndex"
  "slotKey userSlotIndex i \<noteq> indexKey accountSlotIndex" "slotKey accountSlotIndex i \<noteq> indexKey userSlotIndex"
  using format_int_no_letter format_int_no_letter [symmetric]
  by (auto simp: accountSlotIndex_def userSlotIndex_def key_defs)

lemma startup_effect:
  assumes "rd_net r = []" and "0 < slotTTLSeconds c" and "pages_ok pages" and "pre \<noteq> []"
    and "spec = accountSlotIndex \<or> spec = userSlotIndex"
  defines "indexed_ids \<equiv> {i. Some i \<in> member_id ` set (rd_zrange (indexKey spec) r)}"
  shows "\<exists>r'. CleanupStaleProcessSlots c pages pre r = (Inr (), r') \<and> rd_net r' = []
    \<and> (\<forall>i. rd_zsets r' (slotKey spec i) =
         (if i \<in> indexed_ids then filter (\<lambda>(sc, m). take (length pre) m = pre) (rd_zsets r (slotKey spec i))
          else rd_zsets r (slotKey spec i)))
    \<and> (\<forall>i \<in> indexed_ids. rd_counters r' (waitKey spec i) = None)
    \<and> set (rd_zrange (indexKey spec) r') =
        {m \<in> set (rd_zrange (indexKey spec) r). \<exists>i. member_id m = Some i \<and> rd_zsets r' (slotKey spec i) \<noteq> []}"
proof -
  have spec: "index_spec spec" using assms(5) by (simp add: index_spec_def)
  have specs: "index_spec accountSlotIndex" "index_spec userSlotIndex" by (simp_all add: index_spec_def)
  have own: "own pre = (\<lambda>(sc, m). take (length pre) m = pre)" by (auto simp: own_def)
  from startup_served [OF assms(1-4)] obtain r1 now where
    run: "CleanupStaleProcessSlots c pages pre r =
      (Inr (), index_cleaned c userSlotIndex pre now (index_cleaned c accountSlotIndex pre now r1))"
    and same: "\<forall>K. \<not> wait_key K \<longrightarrow> K \<noteq> legacyWaitSweepMarkerKey \<longrightarrow> rd_zsets r1 K = rd_zsets r K"
    and net: "rd_net r1 = []"
    by blast
  let ?r' = "index_cleaned c userSlotIndex pre now (index_cleaned c accountSlotIndex pre now r1)"
  note simps = index_cleaned_simps [OF assms(2)]
  have zs: "rd_zsets r1 (slotKey spec i) = rd_zsets r (slotKey spec i)"
    and ix: "rd_zrange (indexKey spec) r1 = rd_zrange (indexKey spec) r" for i
    using same not_wait_keys [OF spec] by (simp_all add: rd_zrange_def)
  have kept: "keeps_own spec pre r1 = keeps_own spec pre r" by (rule ext) (simp add: keeps_own_def zs)
  have indexed: "indexed spec (rd_zrange (indexKey spec) r) i \<longleftrightarrow> i \<in> indexed_ids" for i
    by (simp add: indexed_def indexed_ids_def)
  have main: "rd_zsets ?r' (slotKey spec i) = (if i \<in> indexed_ids then filter (own pre) (rd_zsets r (slotKey spec i))
      else rd_zsets r (slotKey spec i)) \<and> (i \<in> indexed_ids \<longrightarrow> rd_counters ?r' (waitKey spec i) = None)
    \<and> set (rd_zrange (indexKey spec) ?r') = {m \<in> set (rd_zrange (indexKey spec) r). keeps_own spec pre r m}" for i
    using assms(5)
  proof
    assume acc: "spec = accountSlotIndex"
    let ?r2 = "index_cleaned c accountSlotIndex pre now r1"
    have frame: "rd_zsets ?r' (slotKey accountSlotIndex i) = rd_zsets ?r2 (slotKey accountSlotIndex i)"
      "rd_zrange (indexKey accountSlotIndex) ?r' = rd_zrange (indexKey accountSlotIndex) ?r2" for i
      using simps(5) [OF specs(2)] specs_apart by (simp_all add: rd_zrange_def)
    show ?thesis
      using simps(2) [OF specs(1), of pre now r1 i] simps(3) [OF specs(1), of r1 i pre now]
        simps(4) [OF specs(2), of ?r2 "waitKey spec i" pre now] simps(6) [OF specs(1), of pre now r1]
      by (simp add: acc frame zs [unfolded acc] ix [unfolded acc] indexed [unfolded acc] kept [unfolded acc])
  next
    assume usr: "spec = userSlotIndex"
    let ?r2 = "index_cleaned c accountSlotIndex pre now r1"
    have frame: "rd_zsets ?r2 (slotKey userSlotIndex i) = rd_zsets r1 (slotKey userSlotIndex i)"
      "rd_zrange (indexKey userSlotIndex) ?r2 = rd_zrange (indexKey userSlotIndex) r1" for i
      using simps(5) [OF specs(1)] specs_apart by (simp_all add: rd_zrange_def)
    have kept2: "keeps_own userSlotIndex pre ?r2 = keeps_own userSlotIndex pre r"
      by (rule ext) (simp add: keeps_own_def frame zs [unfolded usr])
    show ?thesis
      using simps(2) [OF specs(2), of pre now ?r2 i] simps(3) [OF specs(2), of ?r2 i pre now]
        simps(6) [OF specs(2), of pre now ?r2]
      by (simp add: usr frame zs [unfolded usr] ix [unfolded usr] indexed [unfolded usr] kept2)
  qed
  have keep: "keeps_own spec pre r m \<longleftrightarrow> (\<exists>i. member_id m = Some i \<and> rd_zsets ?r' (slotKey spec i) \<noteq> [])"
    if "m \<in> set (rd_zrange (indexKey spec) r)" for m
  proof -
    have "i \<in> indexed_ids" if "member_id m = Some i" for i
      using that \<open>m \<in> _\<close> by (force simp: indexed_ids_def)
    then show ?thesis using main by (auto simp: keeps_own_def)
  qed
  have "set (rd_zrange (indexKey spec) ?r') =
      {m \<in> set (rd_zrange (indexKey spec) r). \<exists>i. member_id m = Some i \<and> rd_zsets ?r' (slotKey spec i) \<noteq> []}"
    using main keep by blast
  moreover have "rd_net ?r' = []" using net by (simp add: simps(1) specs)
  ultimately show ?thesis using run main unfolding own by blast
qed

text \<open>the clean-up a process does when it starts. When the requests are served, of the slots of
  every account (or user) in the active index exactly those remain whose request identifier begins
  with the prefix of the process, and its wait counter is gone; accounts outside the index keep their
  slots; and the index keeps exactly the accounts that still hold slots.\<close>

theorem startup_keeps_own_slots:
  assumes "rd_net r = []" and "0 < slotTTLSeconds c" and "pages_ok pages" and "pre \<noteq> []"
    and "spec = accountSlotIndex \<or> spec = userSlotIndex"
  defines "indexed_ids \<equiv> {i. Some i \<in> member_id ` set (rd_zrange (indexKey spec) r)}"
  shows "\<exists>r'. CleanupStaleProcessSlots c pages pre r = (Inr (), r')
    \<and> (\<forall>i. rd_zsets r' (slotKey spec i) =
         (if i \<in> indexed_ids then filter (\<lambda>(sc, m). take (length pre) m = pre) (rd_zsets r (slotKey spec i))
          else rd_zsets r (slotKey spec i)))
    \<and> (\<forall>i \<in> indexed_ids. rd_counters r' (waitKey spec i) = None)
    \<and> set (rd_zrange (indexKey spec) r') =
        {m \<in> set (rd_zrange (indexKey spec) r). \<exists>i. member_id m = Some i \<and> rd_zsets r' (slotKey spec i) \<noteq> []}"
  using startup_effect [OF assms(1-5)] unfolding indexed_ids_def by blast

definition startup_store :: redis where
  "startup_store = empty_redis\<lparr>rd_zsets := (\<lambda>K. if K = accountSlotKey 7 then [(0, ''a-1''), (0, ''b-1'')]
     else if K = accountActiveIndexKey then [(900, ''7'')] else [])\<rparr>"

lemma startup_store_simps [simp]:
  "rd_net startup_store = []" "rd_time startup_store = 0"
  "rd_zsets startup_store (accountSlotKey 7) = [(0, ''a-1''), (0, ''b-1'')]"
  "rd_zsets startup_store accountActiveIndexKey = [(900, ''7'')]"
  "member_id ''7'' = Some 7"
  using format_int_no_letter [of 7, symmetric]
  by (simp_all add: startup_store_def rd_time_def empty_redis_def key_defs member_id_def parse_int64_def parse_digits_def
      digit_val_def byte_of_def)

lemma startup_keeps_own_slots_witness:
  "\<exists>r'. CleanupStaleProcessSlots example_cache (\<lambda>_ _. []) ''a'' startup_store = (Inr (), r')
     \<and> rd_zsets r' (accountSlotKey 7) = [(0, ''a-1'')]"
proof -
  have "slotKey accountSlotIndex = accountSlotKey" "indexKey accountSlotIndex = accountActiveIndexKey"
    by (simp_all add: accountSlotIndex_def)
  then show ?thesis
    using startup_keeps_own_slots [of startup_store example_cache "\<lambda>_ _. []" "''a''" accountSlotIndex]
    by (auto simp: pages_ok_def rd_zrange_def)
qed

text \<open>the start of a second process takes the slots of the running ones. An account whose slots are
  all held by requests of another process refuses the next request; after a process with a prefix of
  its own has started, the same request is let in although no slot was given back.\<close>

theorem other_process_start_exceeds_limit:
  assumes "rd_net r = []" and "0 < slotTTLSeconds c" and "pages_ok pages" and "pre \<noteq> []"
    and "distinct (map snd (rd_zsets r (accountSlotKey i)))"
    and "m \<in> set (rd_zrange accountActiveIndexKey r)" and "member_id m = Some i"
    and "\<And>m. m \<in> set (rd_zrange (accountSlotKey i) r) \<Longrightarrow> take (length pre) m \<noteq> pre"
    and "int (card (live_members c (accountSlotKey i) r)) = mx" and "0 < mx" and "rid \<notin> live_members c (accountSlotKey i) r"
  shows "fst (AcquireAccountSlot c i mx rid r) = Inr False
    \<and> (\<exists>r'. CleanupStaleProcessSlots c pages pre r = (Inr (), r') \<and> fst (AcquireAccountSlot c i mx rid r') = Inr True)"
proof
  have key: "slotKey accountSlotIndex i = accountSlotKey i" "indexKey accountSlotIndex = accountActiveIndexKey"
    by (simp_all add: accountSlotIndex_def)
  show "fst (AcquireAccountSlot c i mx rid r) = Inr False"
    using acquire_served [of c accountSlotIndex i r mx rid] assms by (simp add: AcquireAccountSlot_def served_def key)
  have "Some i \<in> member_id ` set (rd_zrange (indexKey accountSlotIndex) r)"
    using assms(6,7) unfolding key(2) by (metis image_eqI)
  then obtain r' where r': "CleanupStaleProcessSlots c pages pre r = (Inr (), r')" "rd_net r' = []"
      "rd_zsets r' (accountSlotKey i) = filter (\<lambda>(sc, m). take (length pre) m = pre) (rd_zsets r (accountSlotKey i))"
    using startup_effect [OF assms(1-4) disjI1 [OF refl]] unfolding key(1) [symmetric] by auto
  have "rd_zsets r' (accountSlotKey i) = []"
    using assms(8) unfolding r'(3) by (force simp: filter_empty_conv rd_zrange_def)
  then have "live_members c (accountSlotKey i) r' = {}" "served c (accountSlotKey i) r'"
    using r'(2) assms(2) by (simp_all add: live_members_def served_def)
  then have "fst (AcquireAccountSlot c i mx rid r') = Inr True"
    using acquire_served [of c accountSlotIndex i r' mx rid] assms(10) by (simp add: AcquireAccountSlot_def key)
  with r'(1) show "\<exists>r'. CleanupStaleProcessSlots c pages pre r = (Inr (), r') \<and> fst (AcquireAccountSlot c i mx rid r') = Inr True"
    by blast
qed

lemma other_process_start_exceeds_limit_witness:
  "fst (AcquireAccountSlot example_cache 7 2 ''x-1'' startup_store) = Inr False
   \<and> (\<exists>r'. CleanupStaleProcessSlots example_cache (\<lambda>_ _. []) ''x'' startup_store = (Inr (), r')
        \<and> fst (AcquireAccountSlot example_cache 7 2 ''x-1'' r') = Inr True)"
proof (rule other_process_start_exceeds_limit [where m = "''7''"])
  have "live_members example_cache (accountSlotKey 7) startup_store = {''a-1'', ''b-1''}"
    by (auto simp: live_members_def)
  then show "int (card (live_members example_cache (accountSlotKey 7) startup_store)) = 2"
    "''x-1'' \<notin> live_members example_cache (accountSlotKey 7) startup_store"
    by simp_all
qed (auto simp: pages_ok_def rd_zrange_def)

section \<open>A run\<close>

lemma granted_slots_within_limit_witness:
  "\<exists>r G. slot_run example_cache (\<lambda>_ _. []) (\<lambda>_. 1) r G \<and> (accountSlotKey 7, ''a-1'', 0) \<in> G
     \<and> fst (AcquireAccountSlot example_cache 7 1 ''b-1'' r) = Inr False
     \<and> int (card {m. \<exists>sc. (accountSlotKey 7, m, sc) \<in> G \<and> rd_time r < sc + 900}) \<le> 1"
proof -
  let ?r = "granted_state example_cache accountSlotIndex 7 ''a-1'' empty_redis"
  let ?G = "{(accountSlotKey 7, ''a-1'', 0)} :: (string \<times> string \<times> int) set"
  have key: "slotKey accountSlotIndex 7 = accountSlotKey 7" and spec: "index_spec accountSlotIndex"
    by (simp_all add: accountSlotIndex_def index_spec_def)
  have srv: "served example_cache (slotKey accountSlotIndex 7) empty_redis" by (simp add: served_def)
  have "AcquireAccountSlot example_cache 7 1 ''a-1'' empty_redis = (Inr True, ?r)"
    using acquire_served [OF srv, of 1 "''a-1''"] by (simp add: AcquireAccountSlot_def)
  from AcquireAccount [OF Start, where M = "\<lambda>_. 1", OF _ _ this]
  have run: "slot_run example_cache (\<lambda>_ _. []) (\<lambda>_. 1) ?r ?G" by simp
  have "fst (AcquireAccountSlot example_cache 7 1 ''b-1'' ?r) = Inr False"
    using acquire_served [OF granted_live(2) [OF srv spec], of 1 "''b-1''" "''a-1''"]
    by (simp add: AcquireAccountSlot_def granted_live(1) [OF srv spec])
  moreover have "int (card {m. \<exists>sc. (accountSlotKey 7, m, sc) \<in> ?G \<and> rd_time ?r < sc + 900}) \<le> 1"
    using granted_slots_within_limit [OF run, of "accountSlotKey 7" 7] by (simp add: pages_ok_def)
  ultimately show ?thesis using run by blast
qed

section \<open>Keys and wait counters\<close>

text \<open>C29: the keys of the cache. Different accounts, users, API keys, indexes and counters never share
  a Redis key, and the patterns of the start-up sweep match the wait counters only: a sweep cannot
  delete slots, indexes or its own marker.\<close>

theorem redis_keys_disjoint:
  "(key_text k = key_text k' \<longleftrightarrow> k = k')
   \<and> (take (length accountWaitKeyPrefix) (key_text k) = accountWaitKeyPrefix \<longleftrightarrow> (\<exists>i. k = AccountWait i))
   \<and> (take (length waitQueueKeyPrefix) (key_text k) = waitQueueKeyPrefix \<longleftrightarrow> (\<exists>i. k = WaitQueue i))"
proof -
  have "length accountWaitKeyPrefix = 13" "length waitQueueKeyPrefix = 17"
    by (simp_all add: accountWaitKeyPrefix_def waitQueueKeyPrefix_def)
  then show ?thesis by (simp only: key_text_inj wait_keys simp_thms)
qed

lemma value_refreshed:
  "counter_value (waitKey spec j) (refreshed_state c spec i r) = counter_value (waitKey spec j) r"
  by (simp add: refreshed_state_def Let_def counter_value_def)

lemma value_expire: "0 < ttl \<Longrightarrow> counter_value K (rd_expire k ttl r) = counter_value K r"
  by (simp add: counter_value_def)

lemma value_add: "counter_value K (rd_add K d r) = counter_value K r + d"
  by (simp add: counter_value_def rd_add_def)

lemma value_zadd: "counter_value K (rd_zadd k sc m r) = counter_value K r"
  by (simp add: counter_value_def)

text \<open>The wait queue of an account. A request joins exactly when fewer than the maximum wait, which
  raises the count by one; leaving lowers it by one and never below zero; joining and leaving puts the
  count back to what it was.\<close>

theorem account_wait_count:
  fixes i :: int
  assumes "rd_net r = []" and "0 < waitQueueTTLSeconds c"
  defines "v \<equiv> counter_value (accountWaitKey i)"
  shows "\<exists>r1 r2. IncrementAccountWaitCount c i maxWait r = (Inr (v r < maxWait), r1)
    \<and> v r1 = (if v r < maxWait then v r + 1 else v r)
    \<and> DecrementAccountWaitCount c i r = (Inr (), r2) \<and> v r2 = (if 0 < v r then v r - 1 else v r)
    \<and> (v r < maxWait \<and> 0 \<le> v r \<longrightarrow> (\<exists>r3. DecrementAccountWaitCount c i r1 = (Inr (), r3) \<and> v r3 = v r))"
proof -
  have K: "accountWaitKey i = waitKey accountSlotIndex i" by (simp add: accountSlotIndex_def)
  have dec: "\<exists>r2. DecrementAccountWaitCount c i s = (Inr (), r2) \<and> v r2 = (if 0 < v s then v s - 1 else v s)"
    if "rd_net s = []" for s
  proof -
    let ?s = "snd (decrementWaitScript (accountWaitKey i) s)"
    have "rd_net ?s = []" using that by (simp add: decrementWaitScript_def split: option.split)
    moreover have "v ?s = (if 0 < v s then v s - 1 else v s)"
      by (cases "rd_counters s (accountWaitKey i)")
        (simp_all add: decrementWaitScript_def v_def counter_value_def rd_add_def)
    ultimately show ?thesis
      using that unfolding v_def K
      by (simp add: DecrementAccountWaitCount_def run run_script_served refresh_served value_refreshed K)
  qed
  let ?r1 = "snd (IncrementAccountWaitCount c i maxWait r)"
  have inc: "fst (IncrementAccountWaitCount c i maxWait r) = Inr (v r < maxWait)"
    "v ?r1 = (if v r < maxWait then v r + 1 else v r)" "rd_net ?r1 = []"
    using assms(1,2) unfolding v_def
    by (auto simp: IncrementAccountWaitCount_def run run_script_served incrementAccountWaitScript_def Let_def
        touch_served value_expire value_add value_zadd)
  from dec [OF assms(1)] dec [OF inc(3)] inc show ?thesis by (auto simp: prod_eq_iff)
qed

lemma account_wait_count_witness:
  "\<exists>r1. IncrementAccountWaitCount example_cache 7 1 empty_redis = (Inr True, r1)
     \<and> fst (IncrementAccountWaitCount example_cache 7 1 r1) = Inr False"
proof -
  from account_wait_count [where r = empty_redis and c = example_cache and i = 7 and maxWait = 1] obtain r1 where
    r1: "IncrementAccountWaitCount example_cache 7 1 empty_redis = (Inr True, r1)" "counter_value (accountWaitKey 7) r1 = 1"
    by (auto simp: counter_value_def)
  then have "rd_net r1 = []"
    by (auto simp: IncrementAccountWaitCount_def run run_script_served incrementAccountWaitScript_def Let_def
        touch_served counter_value_def)
  from account_wait_count [OF this, where c = example_cache and i = 7 and maxWait = 1] r1 show ?thesis by auto
qed

end
