(* ===== verification/Failover.thy ===== *)
theory Failover
  imports GoPrelude
begin

text \<open>
  Failover between upstream accounts: the state and decisions of \<open>handler/failover_loop.go\<close> and the
  loop around them in \<open>handler/gateway_handler.go\<close> (the Gemini branch; the other handlers make the same
  calls in the same order). What the outside does in one turn of the loop, which
  account is selected, how the upstream answers and whether the client is still there, is an input.
\<close>

section \<open>State and decisions\<close>

datatype FailoverAction = FailoverContinue | FailoverExhausted | FailoverCanceled

definition maxSameAccountRetries :: int where "maxSameAccountRetries = 3"
definition sameAccountRetryDelay :: go_duration where "sameAccountRetryDelay = 500 * 1000000"
definition singleAccountBackoffDelay :: go_duration where "singleAccountBackoffDelay = 2 * second"
definition PlatformAntigravity :: string where "PlatformAntigravity = ''antigravity''"
definition StatusServiceUnavailable :: int where "StatusServiceUnavailable = 503"

record UpstreamFailoverError =
  fe_StatusCode :: int
  fe_RetryableOnSameAccount :: bool
  fe_ForceCacheBilling :: bool

record FailoverState =
  SwitchCount :: int
  MaxSwitches :: int
  FailedAccountIDs :: "int list"
  SameAccountRetryCount :: "int \<Rightarrow> int"
  LastFailoverErr :: "UpstreamFailoverError option"
  ForceCacheBilling :: bool
  hasBoundSession :: bool

definition NewFailoverState :: "int \<Rightarrow> bool \<Rightarrow> FailoverState" where
  "NewFailoverState maxSwitches bound = \<lparr>SwitchCount = 0, MaxSwitches = maxSwitches, FailedAccountIDs = [],
     SameAccountRetryCount = (\<lambda>_. 0), LastFailoverErr = None, ForceCacheBilling = False, hasBoundSession = bound\<rparr>"

definition needForceCacheBilling :: "bool \<Rightarrow> UpstreamFailoverError option \<Rightarrow> bool" where
  "needForceCacheBilling bound err \<longleftrightarrow> bound \<or> (case err of None \<Rightarrow> False | Some e \<Rightarrow> fe_ForceCacheBilling e)"

text \<open>What a decision does besides its answer: it waits, or takes the account out of scheduling for a
  while. A wait of no time succeeds even when the client has gone.\<close>

datatype failover_effect = Slept go_duration | TempUnscheduled int

definition sleepWithContext :: "bool \<Rightarrow> go_duration \<Rightarrow> bool" where
  "sleepWithContext alive d \<longleftrightarrow> d \<le> 0 \<or> alive"

definition note_error :: "UpstreamFailoverError \<Rightarrow> FailoverState \<Rightarrow> FailoverState" where
  "note_error e fs = fs\<lparr>LastFailoverErr := Some e,
     ForceCacheBilling := ForceCacheBilling fs \<or> needForceCacheBilling (hasBoundSession fs) (Some e)\<rparr>"

definition HandleFailoverError ::
  "bool \<Rightarrow> int \<Rightarrow> string \<Rightarrow> UpstreamFailoverError \<Rightarrow> FailoverState \<Rightarrow> FailoverAction \<times> failover_effect list \<times> FailoverState" where
  "HandleFailoverError alive i platform e fs0 =
     (let fs = note_error e fs0 in
      if fe_RetryableOnSameAccount e \<and> SameAccountRetryCount fs i < maxSameAccountRetries
      then (if sleepWithContext alive sameAccountRetryDelay then FailoverContinue else FailoverCanceled,
            [Slept sameAccountRetryDelay],
            fs\<lparr>SameAccountRetryCount := (SameAccountRetryCount fs)(i := SameAccountRetryCount fs i + 1)\<rparr>)
      else
        let unsched = (if fe_RetryableOnSameAccount e then [TempUnscheduled i] else []);
            failed = fs\<lparr>FailedAccountIDs := List.insert i (FailedAccountIDs fs)\<rparr>
        in if MaxSwitches fs \<le> SwitchCount fs then (FailoverExhausted, unsched, failed)
           else let switched = failed\<lparr>SwitchCount := SwitchCount fs + 1\<rparr>;
                    delay = SwitchCount fs * second
                in if platform = PlatformAntigravity
                   then (if sleepWithContext alive delay then FailoverContinue else FailoverCanceled,
                         unsched @ (if 0 < delay then [Slept delay] else []), switched)
                   else (FailoverContinue, unsched, switched))"

definition HandleSelectionExhausted :: "bool \<Rightarrow> FailoverState \<Rightarrow> FailoverAction \<times> failover_effect list \<times> FailoverState" where
  "HandleSelectionExhausted alive fs =
     (case LastFailoverErr fs of
        Some e \<Rightarrow>
          if fe_StatusCode e = StatusServiceUnavailable \<and> SwitchCount fs \<le> MaxSwitches fs
          then if sleepWithContext alive singleAccountBackoffDelay
               then (FailoverContinue, [Slept singleAccountBackoffDelay], fs\<lparr>FailedAccountIDs := []\<rparr>)
               else (FailoverCanceled, [Slept singleAccountBackoffDelay], fs)
          else (FailoverExhausted, [], fs)
      | None \<Rightarrow> (FailoverExhausted, [], fs))"

section \<open>The loop\<close>

text \<open>How the upstream answers a forwarded request: it serves it, fails with a failover error before or
  after part of the answer went to the client, or the request ends otherwise: another upstream error, a
  request intercepted before it is forwarded, no slot on the account and no place in its queue.\<close>

datatype upstream = UpstreamServed | FailedOver UpstreamFailoverError | BrokenStream UpstreamFailoverError | OtherFailure

text \<open>One turn: no account can be selected, or an account of a platform is selected and answers; and
  whether the client is still there for a wait of this turn.\<close>

datatype turn = NoAccount bool | Picked int string upstream bool

datatype loop_reply = Answered | NoAvailableAccounts | FailoverFailed | ClientGone | ForwardFailed

definition after_action :: "FailoverAction \<Rightarrow> loop_reply option" where
  "after_action a = (case a of FailoverContinue \<Rightarrow> None | FailoverExhausted \<Rightarrow> Some FailoverFailed | FailoverCanceled \<Rightarrow> Some ClientGone)"

definition turn_without_account :: "bool \<Rightarrow> FailoverState \<Rightarrow> loop_reply option \<times> failover_effect list \<times> FailoverState" where
  "turn_without_account alive fs =
     (if FailedAccountIDs fs = [] then (Some NoAvailableAccounts, [], fs)
      else (case HandleSelectionExhausted alive fs of (a, fx, fs') \<Rightarrow> (after_action a, fx, fs')))"

definition turn_with_account ::
  "int \<Rightarrow> string \<Rightarrow> upstream \<Rightarrow> bool \<Rightarrow> FailoverState \<Rightarrow> loop_reply option \<times> failover_effect list \<times> FailoverState" where
  "turn_with_account i platform u alive fs =
     (case u of
        UpstreamServed \<Rightarrow> (Some Answered, [], fs)
      | OtherFailure \<Rightarrow> (Some ForwardFailed, [], fs)
      | BrokenStream e \<Rightarrow> (Some FailoverFailed, [], fs)
      | FailedOver e \<Rightarrow>
          (case HandleFailoverError alive i platform e fs of (a, fx, fs') \<Rightarrow> (after_action a, fx, fs')))"

definition loop_turn :: "turn \<Rightarrow> FailoverState \<Rightarrow> loop_reply option \<times> failover_effect list \<times> FailoverState" where
  "loop_turn t fs =
     (case t of
        NoAccount alive \<Rightarrow> turn_without_account alive fs
      | Picked i platform u alive \<Rightarrow> turn_with_account i platform u alive fs)"

fun failover_loop :: "turn list \<Rightarrow> FailoverState \<Rightarrow> loop_reply option \<times> failover_effect list \<times> FailoverState" where
  "failover_loop [] fs = (None, [], fs)"
| "failover_loop (t # ts) fs =
     (case loop_turn t fs of
        (Some r, fx, fs') \<Rightarrow> (Some r, fx, fs')
      | (None, fx, fs') \<Rightarrow> (case failover_loop ts fs' of (r, fx', fs'') \<Rightarrow> (r, fx @ fx', fs'')))"

section \<open>The loop ends\<close>

text \<open>The budget of a request: three retries for each account, two steps for each account switch that is
  left (the switch and the clearing of the failed accounts it makes possible), one step when there are
  failed accounts to clear.\<close>

definition budget :: "int set \<Rightarrow> FailoverState \<Rightarrow> nat" where
  "budget A fs = (\<Sum>i\<in>A. nat (3 - SameAccountRetryCount fs i)) + 2 * nat (MaxSwitches fs - SwitchCount fs)
     + (if FailedAccountIDs fs = [] then 0 else 1)"

definition turn_accounts :: "turn \<Rightarrow> int set" where
  "turn_accounts t = (case t of NoAccount _ \<Rightarrow> {} | Picked i _ _ _ \<Rightarrow> {i})"

lemmas turn_defs = loop_turn_def turn_without_account_def turn_with_account_def

lemma sum_retry:
  assumes "finite A" and "i \<in> A" and "f i < (3 :: int)"
  shows "(\<Sum>j\<in>A. nat (3 - (f(i := f i + 1)) j)) < (\<Sum>j\<in>A. nat (3 - f j))"
  by (rule sum_strict_mono_ex1) (use assms in auto)

lemma HandleFailoverError_continue:
  assumes "HandleFailoverError alive i platform e fs = (FailoverContinue, fx, fs')" and "finite A" and "i \<in> A"
  shows "budget A fs' < budget A fs"
proof (cases "fe_RetryableOnSameAccount e \<and> SameAccountRetryCount fs i < 3")
  case True
  with assms(1) have "fs' = (note_error e fs)\<lparr>SameAccountRetryCount := (SameAccountRetryCount fs)(i := SameAccountRetryCount fs i + 1)\<rparr>"
    by (auto simp: HandleFailoverError_def Let_def note_error_def maxSameAccountRetries_def)
  with True sum_retry [OF assms(2,3), of "SameAccountRetryCount fs"] show ?thesis
    by (simp add: budget_def note_error_def)
next
  case False
  with assms(1) have "SwitchCount fs < MaxSwitches fs"
    and "fs' = (note_error e fs)\<lparr>SwitchCount := SwitchCount fs + 1, FailedAccountIDs := List.insert i (FailedAccountIDs fs)\<rparr>"
    by (auto simp: HandleFailoverError_def Let_def note_error_def maxSameAccountRetries_def split: if_splits)
  then show ?thesis by (auto simp: budget_def note_error_def)
qed

lemma loop_turn_continue:
  assumes "loop_turn t fs = (None, fx, fs')" and "finite A" and "turn_accounts t \<subseteq> A"
  shows "budget A fs' < budget A fs"
proof (cases t)
  case (NoAccount alive)
  with assms(1) have "FailedAccountIDs fs \<noteq> []" "fs' = fs\<lparr>FailedAccountIDs := []\<rparr>"
    by (auto simp: turn_defs HandleSelectionExhausted_def after_action_def split: if_splits option.splits)
  then show ?thesis by (simp add: budget_def)
next
  case (Picked i platform u alive)
  with assms(1) obtain e where "HandleFailoverError alive i platform e fs = (FailoverContinue, fx, fs')"
    by (auto simp: turn_defs after_action_def split: upstream.splits prod.splits FailoverAction.splits)
  from HandleFailoverError_continue [OF this assms(2)] assms(3) Picked show ?thesis
    by (simp add: turn_accounts_def)
qed

lemma loop_within_budget:
  assumes "finite A" and "\<forall>t \<in> set ts. turn_accounts t \<subseteq> A" and "budget A fs < length ts"
  shows "fst (failover_loop ts fs) \<noteq> None"
  using assms(2,3)
proof (induction ts arbitrary: fs)
  case (Cons t ts)
  obtain r fx fs' where turn: "loop_turn t fs = (r, fx, fs')" by (cases "loop_turn t fs")
  show ?case
  proof (cases r)
    case None
    have "budget A fs' < budget A fs"
      using loop_turn_continue [OF turn [unfolded None] assms(1)] Cons.prems(1) by simp
    with Cons have "fst (failover_loop ts fs') \<noteq> None" by simp
    then show ?thesis using turn None by (simp add: case_prod_beta)
  next
    case (Some x)
    then show ?thesis using turn by simp
  qed
qed simp

text \<open>C31: the failover loop ends. Whatever the upstream answers and whichever accounts of the group the
  selection picks, even the same one again and again, the request is answered, refused or given up
  within three turns for each account, two for each allowed switch, and one.\<close>

theorem failover_loop_ends:
  assumes "finite A" and "\<forall>t \<in> set ts. turn_accounts t \<subseteq> A"
    and "3 * card A + 2 * nat maxSwitches < length ts"
  shows "fst (failover_loop ts (NewFailoverState maxSwitches bound)) \<noteq> None"
proof (rule loop_within_budget [OF assms(1,2)])
  show "budget A (NewFailoverState maxSwitches bound) < length ts"
    using assms(3) by (simp add: budget_def NewFailoverState_def)
qed

definition capacity_error :: UpstreamFailoverError where
  "capacity_error = \<lparr>fe_StatusCode = 503, fe_RetryableOnSameAccount = True, fe_ForceCacheBilling = False\<rparr>"

lemma failover_loop_ends_witness:
  "fst (failover_loop (replicate 6 (Picked 7 ''antigravity'' (FailedOver capacity_error) True)) (NewFailoverState 1 False)) \<noteq> None"
  by (rule failover_loop_ends [where A = "{7}"]) (simp_all add: turn_accounts_def)

section \<open>One account after another\<close>

lemma failover_loop_append:
  "failover_loop ts fs = (None, fx, fs') \<Longrightarrow>
     failover_loop (ts @ us) fs = (case failover_loop us fs' of (r, fx', fs'') \<Rightarrow> (r, fx @ fx', fs''))"
  by (induction ts arbitrary: fs fx) (auto split: prod.splits option.splits)

lemma retry_turn:
  assumes "fe_RetryableOnSameAccount e" and "SameAccountRetryCount fs i < 3"
  shows "loop_turn (Picked i platform (FailedOver e) True) fs = (None, [Slept sameAccountRetryDelay],
    (note_error e fs)\<lparr>SameAccountRetryCount := (SameAccountRetryCount fs)(i := SameAccountRetryCount fs i + 1)\<rparr>)"
  using assms by (simp add: turn_defs HandleFailoverError_def Let_def note_error_def after_action_def
      maxSameAccountRetries_def sleepWithContext_def)

text \<open>an account that keeps failing with an error worth retrying is tried four times: after each of
  the first three failures the same request waits half a second and may go to it again, without
  using up a switch; the fourth failure takes the account out of scheduling, excludes it from the
  request's further selection and uses one switch, or ends the request when no switch is left. On the
  antigravity platform the switch waits one second more each time.\<close>

theorem four_tries_per_account:
  fixes platform :: string
  assumes "fe_RetryableOnSameAccount e" and "SameAccountRetryCount fs i = 0"
  defines "t \<equiv> Picked i platform (FailedOver e) True"
    and "r \<equiv> failover_loop (replicate 4 (Picked i platform (FailedOver e) True)) fs"
  shows "fst (failover_loop (replicate 3 t) fs) = None
    \<and> SwitchCount (snd (snd (failover_loop (replicate 3 t) fs))) = SwitchCount fs
    \<and> FailedAccountIDs (snd (snd (failover_loop (replicate 3 t) fs))) = FailedAccountIDs fs
    \<and> FailedAccountIDs (snd (snd r)) = List.insert i (FailedAccountIDs fs)
    \<and> LastFailoverErr (snd (snd r)) = Some e
    \<and> (if SwitchCount fs < MaxSwitches fs
       then fst r = None \<and> SwitchCount (snd (snd r)) = SwitchCount fs + 1
         \<and> fst (snd r) = replicate 3 (Slept sameAccountRetryDelay) @ [TempUnscheduled i]
             @ (if platform = PlatformAntigravity \<and> 0 < SwitchCount fs then [Slept (SwitchCount fs * second)] else [])
       else fst r = Some FailoverFailed
         \<and> fst (snd r) = replicate 3 (Slept sameAccountRetryDelay) @ [TempUnscheduled i])"
proof -
  define fs3 where "fs3 = (note_error e fs)\<lparr>SameAccountRetryCount := (SameAccountRetryCount fs)(i := 3)\<rparr>"
  have note_idem: "note_error e (note_error e s) = note_error e s" for s
    by (auto simp: note_error_def needForceCacheBilling_def)
  have note_upd: "note_error e (s\<lparr>SameAccountRetryCount := f\<rparr>) = (note_error e s)\<lparr>SameAccountRetryCount := f\<rparr>" for s f
    by (simp add: note_error_def)
  have count: "SameAccountRetryCount (note_error e s) = SameAccountRetryCount s" for s
    by (simp add: note_error_def)
  have three: "failover_loop (replicate 3 t) fs = (None, replicate 3 (Slept sameAccountRetryDelay), fs3)"
    using assms(1,2) unfolding t_def numeral_3_eq_3
    by (simp add: retry_turn note_upd note_idem count fs3_def)
  have "r = failover_loop (replicate 3 t @ [t]) fs"
    unfolding r_def t_def by (simp add: eval_nat_numeral)
  then have r: "r = (case loop_turn t fs3 of (x, fx, fs') \<Rightarrow> (x, replicate 3 (Slept sameAccountRetryDelay) @ fx, fs'))"
    using failover_loop_append [OF three, of "[t]"] by (simp split: prod.splits option.splits)
  have fs3: "SameAccountRetryCount fs3 i = 3" "SwitchCount fs3 = SwitchCount fs" "MaxSwitches fs3 = MaxSwitches fs"
    "FailedAccountIDs fs3 = FailedAccountIDs fs"
    by (simp_all add: fs3_def note_error_def)
  have turn: "loop_turn t fs3 =
      (if SwitchCount fs < MaxSwitches fs
       then (None, [TempUnscheduled i] @ (if platform = PlatformAntigravity \<and> 0 < SwitchCount fs then [Slept (SwitchCount fs * second)] else []),
             (note_error e fs3)\<lparr>SwitchCount := SwitchCount fs + 1, FailedAccountIDs := List.insert i (FailedAccountIDs fs)\<rparr>)
       else (Some FailoverFailed, [TempUnscheduled i], (note_error e fs3)\<lparr>FailedAccountIDs := List.insert i (FailedAccountIDs fs)\<rparr>))"
    using assms(1) fs3 unfolding t_def
    by (simp add: turn_defs HandleFailoverError_def Let_def note_error_def after_action_def
        maxSameAccountRetries_def sleepWithContext_def)
  show ?thesis unfolding r three turn using fs3 by (simp add: note_error_def)
qed

lemma four_tries_per_account_witness:
  "fst (failover_loop (replicate 4 (Picked 7 ''gemini'' (FailedOver capacity_error) True)) (NewFailoverState 0 False))
     = Some FailoverFailed"
  using four_tries_per_account [where e = capacity_error and fs = "NewFailoverState 0 False" and i = 7 and platform = "''gemini''"]
  by (simp add: capacity_error_def NewFailoverState_def split: if_splits)

end
