(* ===== verification/ChannelPricing.thy ===== *)
theory ChannelPricing
  imports GroupConfig "HOL-Library.Char_ord" "HOL-Library.List_Lexorder" "HOL-Library.Product_Lexorder" "HOL-Library.Multiset"
begin

text \<open>
  Channels and their model prices, \<open>service/channel.go\<close>: price lookup, token intervals and their
  validation, and the list of models a channel supports. A nil price is \<^const>\<open>None\<close>; copies of
  entries (\<open>Clone\<close>) are the values themselves. Go visits a map in an arbitrary order: a map is the
  list of its entries in the order of one visit, and what is proved holds for every order.
\<close>

section \<open>Entities\<close>

datatype BillingMode = BillingModeToken | BillingModePerRequest | BillingModeImage | BillingModeVideo
  | BillingModeEmpty | BillingModeOther string

definition BillingMode_IsValid :: "BillingMode \<Rightarrow> bool" where
  "BillingMode_IsValid m = (case m of BillingModeToken \<Rightarrow> True | BillingModePerRequest \<Rightarrow> True
     | BillingModeImage \<Rightarrow> True | BillingModeEmpty \<Rightarrow> True | _ \<Rightarrow> False)"

definition IsValidUsageFilter :: "BillingMode \<Rightarrow> bool" where
  "IsValidUsageFilter m = (case m of BillingModeOther _ \<Rightarrow> False | _ \<Rightarrow> True)"

record PricingInterval =
  MinTokens :: int
  MaxTokens :: "int option"
  TierLabel :: string
  pi_InputPrice :: "float64 option"
  pi_OutputPrice :: "float64 option"
  pi_CacheWritePrice :: "float64 option"
  pi_CacheReadPrice :: "float64 option"
  pi_PerRequestPrice :: "float64 option"

record ChannelModelPricing =
  cp_ID :: int
  cp_Platform :: string
  cp_Models :: "string list"
  cp_BillingMode :: BillingMode
  cp_InputPrice :: "float64 option"
  cp_OutputPrice :: "float64 option"
  cp_CacheWritePrice :: "float64 option"
  cp_CacheReadPrice :: "float64 option"
  cp_ImageOutputPrice :: "float64 option"
  cp_PerRequestPrice :: "float64 option"
  cp_Intervals :: "PricingInterval list"

text \<open>A value of the feature configuration, a JSON object, as far as the code looks at it.\<close>

datatype feature = FeatureBool bool | FeatureMap "(string \<times> feature) list" | FeatureOther

record Channel =
  ch_Status :: string
  ch_BillingModelSource :: string
  ch_FeaturesConfig :: "(string \<times> feature) list"
  ch_ModelPricing :: "ChannelModelPricing list"
  ch_ModelMapping :: "(string \<times> (string \<times> string) list) list"

definition BillingModelSourceChannelMapped :: string where
  "BillingModelSourceChannelMapped = ''channel_mapped''"

definition Channel_IsActive :: "Channel \<Rightarrow> bool" where
  "Channel_IsActive c \<longleftrightarrow> ch_Status c = StatusActive"

definition normalizeBillingModelSource :: "Channel \<Rightarrow> Channel" where
  "normalizeBillingModelSource c =
     (if ch_BillingModelSource c = [] then c\<lparr>ch_BillingModelSource := BillingModelSourceChannelMapped\<rparr> else c)"

definition priced_for :: "string \<Rightarrow> ChannelModelPricing \<Rightarrow> bool" where
  "priced_for model p \<longleftrightarrow> (\<exists>m \<in> set (cp_Models p). to_lower m = to_lower model)"

definition GetModelPricing :: "Channel \<Rightarrow> string \<Rightarrow> ChannelModelPricing option" where
  "GetModelPricing c model = find (priced_for model) (ch_ModelPricing c)"

definition GetModelPricingByPlatform :: "Channel option \<Rightarrow> string \<Rightarrow> string \<Rightarrow> ChannelModelPricing option" where
  "GetModelPricingByPlatform ch platform model =
     (case ch of None \<Rightarrow> None
      | Some c \<Rightarrow> find (\<lambda>p. cp_Platform p = platform \<and> priced_for model p) (ch_ModelPricing c))"

definition featureKeyWebSearchEmulation :: string where "featureKeyWebSearchEmulation = ''web_search_emulation''"
definition featureKeyBedrockCCCompat :: string where "featureKeyBedrockCCCompat = ''bedrock_cc_compat''"

definition IsWebSearchEmulationEnabled :: "Channel option \<Rightarrow> string \<Rightarrow> bool" where
  "IsWebSearchEmulationEnabled ch platform =
     (case ch of None \<Rightarrow> False
      | Some c \<Rightarrow> (case map_of (ch_FeaturesConfig c) featureKeyWebSearchEmulation of
          Some (FeatureMap wse) \<Rightarrow> (case map_of wse platform of Some (FeatureBool b) \<Rightarrow> b | _ \<Rightarrow> False)
        | _ \<Rightarrow> False))"

definition IsBedrockCCCompatEnabled :: "Channel option \<Rightarrow> string \<Rightarrow> bool" where
  "IsBedrockCCCompatEnabled ch platform =
     (case ch of None \<Rightarrow> False
      | Some c \<Rightarrow> (case map_of (ch_FeaturesConfig c) featureKeyBedrockCCCompat of
          Some (FeatureBool b) \<Rightarrow> b | _ \<Rightarrow> False))"

section \<open>Intervals\<close>

text \<open>An interval holds the counts above its lower bound up to its upper bound.\<close>

definition in_interval :: "int \<Rightarrow> PricingInterval \<Rightarrow> bool" where
  "in_interval n iv \<longleftrightarrow> MinTokens iv < n \<and> (case MaxTokens iv of None \<Rightarrow> True | Some m \<Rightarrow> n \<le> m)"

definition FindMatchingInterval :: "PricingInterval list \<Rightarrow> int \<Rightarrow> PricingInterval option" where
  "FindMatchingInterval ivs n = find (in_interval n) ivs"

definition GetIntervalForContext :: "ChannelModelPricing \<Rightarrow> int \<Rightarrow> PricingInterval option" where
  "GetIntervalForContext p n = FindMatchingInterval (cp_Intervals p) n"

definition GetTierByLabel :: "ChannelModelPricing \<Rightarrow> string \<Rightarrow> PricingInterval option" where
  "GetTierByLabel p label = find (\<lambda>iv. to_lower (TierLabel iv) = to_lower label) (cp_Intervals p)"

text \<open>Errors name the interval by its place in the sorted list, from 1.\<close>

datatype interval_error = MinTokensNegative nat | MaxTokensNotPositive nat | MaxTokensNotAboveMin nat
  | PriceNegative nat string | UnboundedNotLast nat | IntervalsOverlap nat

definition interval_prices :: "PricingInterval \<Rightarrow> (string \<times> float64 option) list" where
  "interval_prices iv = [(''input_price'', pi_InputPrice iv), (''output_price'', pi_OutputPrice iv),
     (''cache_write_price'', pi_CacheWritePrice iv), (''cache_read_price'', pi_CacheReadPrice iv),
     (''per_request_price'', pi_PerRequestPrice iv)]"

definition validateIntervalPrices :: "PricingInterval \<Rightarrow> nat \<Rightarrow> interval_error option" where
  "validateIntervalPrices iv i =
     map_option (\<lambda>(name, _). PriceNegative (i + 1) name)
       (find (\<lambda>(_, v). case v of None \<Rightarrow> False | Some x \<Rightarrow> x < 0) (interval_prices iv))"

definition validateSingleInterval :: "PricingInterval \<Rightarrow> nat \<Rightarrow> interval_error option" where
  "validateSingleInterval iv i =
     (if MinTokens iv < 0 then Some (MinTokensNegative (i + 1))
      else case MaxTokens iv of
        None \<Rightarrow> validateIntervalPrices iv i
      | Some m \<Rightarrow> if m \<le> 0 then Some (MaxTokensNotPositive (i + 1))
                  else if m \<le> MinTokens iv then Some (MaxTokensNotAboveMin (i + 1))
                  else validateIntervalPrices iv i)"

fun validate_singles :: "nat \<Rightarrow> PricingInterval list \<Rightarrow> interval_error option" where
  "validate_singles i [] = None"
| "validate_singles i (iv # ivs) =
     (case validateSingleInterval iv i of Some e \<Rightarrow> Some e | None \<Rightarrow> validate_singles (i + 1) ivs)"

text \<open>The loop over the sorted intervals with the previous one: first an unbounded interval before the
  end, then an overlap with the previous interval.\<close>

fun overlap_loop :: "nat \<Rightarrow> PricingInterval option \<Rightarrow> PricingInterval list \<Rightarrow> interval_error option" where
  "overlap_loop i prev [] = None"
| "overlap_loop i prev (iv # ivs) =
     (if MaxTokens iv = None \<and> ivs \<noteq> [] then Some (UnboundedNotLast (i + 1))
      else case prev of
        None \<Rightarrow> overlap_loop (i + 1) (Some iv) ivs
      | Some p \<Rightarrow>
          (case MaxTokens p of
             None \<Rightarrow> Some (IntervalsOverlap (i + 1))
           | Some m \<Rightarrow> if MinTokens iv < m then Some (IntervalsOverlap (i + 1))
                        else overlap_loop (i + 1) (Some iv) ivs))"

definition validateIntervalOverlap :: "PricingInterval list \<Rightarrow> interval_error option" where
  "validateIntervalOverlap = overlap_loop 0 None"

text \<open>Intervals with the same lower bound keep their order here; which of them an error names depends on
  it, whether there is an error does not.\<close>

definition ValidateIntervals :: "PricingInterval list \<Rightarrow> BillingMode \<Rightarrow> interval_error option" where
  "ValidateIntervals ivs mode =
     (let sorted = sort_key MinTokens ivs in
      case validate_singles 0 sorted of
        Some e \<Rightarrow> Some e
      | None \<Rightarrow> if mode = BillingModePerRequest \<or> mode = BillingModeImage then None
                else validateIntervalOverlap sorted)"

section \<open>What validated intervals mean\<close>

definition interval_ok :: "PricingInterval \<Rightarrow> bool" where
  "interval_ok iv \<longleftrightarrow> 0 \<le> MinTokens iv \<and> (\<forall>m. MaxTokens iv = Some m \<longrightarrow> MinTokens iv < m)
     \<and> (\<forall>p \<in> set (interval_prices iv). \<forall>x. snd p = Some x \<longrightarrow> 0 \<le> x)"

definition follows :: "PricingInterval \<Rightarrow> PricingInterval \<Rightarrow> bool" where
  "follows p q \<longleftrightarrow> (\<exists>m. MaxTokens p = Some m \<and> m \<le> MinTokens q)"

lemma validateSingleInterval_None: "validateSingleInterval iv i = None \<longleftrightarrow> interval_ok iv"
proof -
  have "validateIntervalPrices iv i = None \<longleftrightarrow> (\<forall>p \<in> set (interval_prices iv). \<forall>x. snd p = Some x \<longrightarrow> 0 \<le> x)"
    by (auto simp: validateIntervalPrices_def find_None_iff split: option.splits) force+
  then show ?thesis by (auto simp: validateSingleInterval_def interval_ok_def split: option.splits)
qed

lemma validate_singles_None: "validate_singles i ivs = None \<longleftrightarrow> (\<forall>iv \<in> set ivs. interval_ok iv)"
proof (induction ivs arbitrary: i)
  case (Cons iv ivs)
  then show ?case using validateSingleInterval_None [of iv i] by (cases "validateSingleInterval iv i") auto
qed simp

lemma overlap_loop_None: "overlap_loop i (Some p) ivs = None \<longleftrightarrow> successively follows (p # ivs)"
proof (induction ivs arbitrary: i p)
  case (Cons iv ivs)
  then show ?case by (cases ivs) (auto simp: follows_def not_less split: option.splits)
qed simp

lemma validateIntervalOverlap_None: "validateIntervalOverlap ivs = None \<longleftrightarrow> successively follows ivs"
proof (cases ivs)
  case (Cons iv rest)
  show ?thesis
  proof (cases "MaxTokens iv = None \<and> rest \<noteq> []")
    case True
    then show ?thesis using Cons by (cases rest) (auto simp: validateIntervalOverlap_def follows_def)
  next
    case False
    then have "validateIntervalOverlap ivs = overlap_loop 1 (Some iv) rest" using Cons by (auto simp: validateIntervalOverlap_def)
    then show ?thesis by (simp add: overlap_loop_None Cons)
  qed
qed (simp add: validateIntervalOverlap_def)

lemma follows_sorted_wrt:
  "\<forall>iv \<in> set ivs. interval_ok iv \<Longrightarrow> successively follows ivs \<longleftrightarrow> sorted_wrt follows ivs"
proof (induction ivs)
  case (Cons iv ivs)
  have trans: "follows p r" if "follows p q" "follows q r" "interval_ok q" for p q r
    using that by (auto simp: follows_def interval_ok_def)
  show ?case
  proof (cases ivs)
    case (Cons q rest)
    have "sorted_wrt follows (q # rest) \<Longrightarrow> follows iv q \<Longrightarrow> \<forall>r \<in> set rest. follows iv r"
      using trans Cons.prems Cons by (metis list.set_intros sorted_wrt.simps(2))
    then show ?thesis using Cons.IH Cons.prems Cons by auto
  qed simp
qed simp

text \<open>For intervals in the order of their lower bounds, following is holding no count in common.\<close>

lemma follows_apart:
  assumes "interval_ok p" and "interval_ok q" and "MinTokens p \<le> MinTokens q"
  shows "follows p q \<longleftrightarrow> (\<forall>n. \<not> (in_interval n p \<and> in_interval n q))"
proof
  assume "follows p q"
  then show "\<forall>n. \<not> (in_interval n p \<and> in_interval n q)" by (auto simp: follows_def in_interval_def)
next
  assume apart: "\<forall>n. \<not> (in_interval n p \<and> in_interval n q)"
  have "in_interval (MinTokens q + 1) q" using assms(2) by (auto simp: in_interval_def interval_ok_def split: option.split)
  with apart have "\<not> in_interval (MinTokens q + 1) p" by blast
  with assms(3) show "follows p q" by (auto simp: in_interval_def follows_def split: option.splits)
qed

lemma at_most_one:
  assumes "\<forall>iv \<in> set ivs. interval_ok iv" and "sorted (map MinTokens ivs)"
  shows "sorted_wrt follows ivs \<longleftrightarrow> (\<forall>n. length (filter (in_interval n) ivs) \<le> 1)"
  using assms
proof (induction ivs)
  case (Cons p ivs)
  have "(\<forall>q \<in> set ivs. follows p q) \<longleftrightarrow> (\<forall>n. in_interval n p \<longrightarrow> filter (in_interval n) ivs = [])"
    using Cons.prems follows_apart [of p] by (auto simp: filter_empty_conv)
  moreover have "(\<forall>n. length (filter (in_interval n) (p # ivs)) \<le> 1) \<longleftrightarrow>
      (\<forall>n. length (filter (in_interval n) ivs) \<le> 1) \<and> (\<forall>n. in_interval n p \<longrightarrow> filter (in_interval n) ivs = [])"
  proof -
    have "length (filter (in_interval n) (p # ivs)) \<le> 1 \<longleftrightarrow> length (filter (in_interval n) ivs) \<le> 1
        \<and> (in_interval n p \<longrightarrow> filter (in_interval n) ivs = [])" for n
      by (cases "filter (in_interval n) ivs") auto
    then show ?thesis by blast
  qed
  ultimately show ?case using Cons by auto
qed simp

lemma find_filter: "find P xs = (case filter P xs of [] \<Rightarrow> None | x # _ \<Rightarrow> Some x)"
  by (induction xs) auto

lemma find_permutation:
  assumes "mset ys = mset xs" and "length (filter P xs) \<le> 1"
  shows "find P ys = find P xs"
proof -
  have "mset (filter P ys) = mset (filter P xs)" unfolding mset_filter using assms(1) by simp
  with assms(2) have "filter P ys = filter P xs"
    by (cases "filter P xs") (auto simp del: mset_filter)
  then show ?thesis by (simp add: find_filter)
qed

text \<open>the validation of price intervals. It accepts exactly the lists whose intervals are well
  formed (a lower bound that is not negative and below the upper bound, no negative price) and, when
  prices go by tokens, put no token count into two intervals. Then the interval a count is billed by
  does not depend on the order in which the intervals are stored.\<close>

theorem ValidateIntervals_correct:
  "(ValidateIntervals ivs mode = None \<longleftrightarrow> (\<forall>iv \<in> set ivs. interval_ok iv)
      \<and> (mode = BillingModePerRequest \<or> mode = BillingModeImage \<or> (\<forall>n. length (filter (in_interval n) ivs) \<le> 1)))
   \<and> (ValidateIntervals ivs BillingModeToken = None \<longrightarrow> mset ivs' = mset ivs \<longrightarrow>
        FindMatchingInterval ivs' n = FindMatchingInterval ivs n)"
proof -
  let ?s = "sort_key MinTokens ivs"
  have len: "length (filter P ?s) = length (filter P ivs)" for P
    by (metis mset_filter mset_sort size_mset)
  have valid: "ValidateIntervals ivs mode = None \<longleftrightarrow> (\<forall>iv \<in> set ivs. interval_ok iv)
      \<and> (mode = BillingModePerRequest \<or> mode = BillingModeImage \<or> (\<forall>n. length (filter (in_interval n) ivs) \<le> 1))" for mode
  proof (cases "\<forall>iv \<in> set ivs. interval_ok iv")
    case True
    then have ok: "\<forall>iv \<in> set ?s. interval_ok iv" by simp
    have "validateIntervalOverlap ?s = None \<longleftrightarrow> (\<forall>n. length (filter (in_interval n) ivs) \<le> 1)"
      unfolding validateIntervalOverlap_None follows_sorted_wrt [OF ok] at_most_one [OF ok sorted_sort_key] len ..
    moreover have "validate_singles 0 ?s = None" using ok validate_singles_None by blast
    ultimately show ?thesis using True by (simp add: ValidateIntervals_def)
  next
    case False
    then have "validate_singles 0 ?s \<noteq> None" using validate_singles_None by simp
    with False show ?thesis by (auto simp: ValidateIntervals_def Let_def)
  qed
  have "FindMatchingInterval ivs' n = FindMatchingInterval ivs n"
    if "ValidateIntervals ivs BillingModeToken = None" "mset ivs' = mset ivs"
  proof -
    have "length (filter (in_interval n) ivs) \<le> 1" using that(1) valid [of BillingModeToken] by blast
    then show ?thesis unfolding FindMatchingInterval_def by (rule find_permutation [OF that(2)])
  qed
  then show ?thesis by (intro conjI impI valid)
qed

definition example_interval :: "int \<Rightarrow> int option \<Rightarrow> PricingInterval" where
  "example_interval lo hi = \<lparr>MinTokens = lo, MaxTokens = hi, TierLabel = '''', pi_InputPrice = Some 1, pi_OutputPrice = None,
     pi_CacheWritePrice = None, pi_CacheReadPrice = None, pi_PerRequestPrice = None\<rparr>"

lemma ValidateIntervals_correct_witness:
  "FindMatchingInterval [example_interval 200 None, example_interval 0 (Some 200)] 150
     = FindMatchingInterval [example_interval 0 (Some 200), example_interval 200 None] 150
   \<and> ValidateIntervals [example_interval 0 (Some 201), example_interval 200 None] BillingModeToken \<noteq> None"
proof -
  have ok: "interval_ok (example_interval 0 (Some 200))" "interval_ok (example_interval 200 None)"
    by (auto simp: interval_ok_def example_interval_def interval_prices_def)
  have "length (filter (in_interval n) [example_interval 0 (Some 200), example_interval 200 None]) \<le> 1" for n
    by (auto simp: in_interval_def example_interval_def)
  then have "ValidateIntervals [example_interval 0 (Some 200), example_interval 200 None] BillingModeToken = None"
    using ok ValidateIntervals_correct [THEN conjunct1] by (metis empty_iff list.set(1) set_ConsD)
  with ValidateIntervals_correct [where ivs = "[example_interval 0 (Some 200), example_interval 200 None]" and
      ivs' = "[example_interval 200 None, example_interval 0 (Some 200)]" and n = 150]
  have "FindMatchingInterval [example_interval 200 None, example_interval 0 (Some 200)] 150
     = FindMatchingInterval [example_interval 0 (Some 200), example_interval 200 None] 150"
    by (simp add: add_mset_commute)
  moreover have "\<not> length (filter (in_interval 201) [example_interval 0 (Some 201), example_interval 200 None]) \<le> 1"
    by (simp add: in_interval_def example_interval_def)
  then have "ValidateIntervals [example_interval 0 (Some 201), example_interval 200 None] BillingModeToken \<noteq> None"
    using ValidateIntervals_correct [where ivs = "[example_interval 0 (Some 201), example_interval 200 None]" and mode = BillingModeToken]
    by (metis BillingMode.distinct(3) BillingMode.distinct(1))
  ultimately show ?thesis by blast
qed

end
