(* ===== verification/ChannelModels.thy ===== *)
theory ChannelModels
  imports ChannelPricing
begin

text \<open>
  The models a channel supports, \<open>SupportedModels\<close> of \<open>service/channel.go\<close>: the index of priced models,
  the pass over the model mapping, the pass over the priced models, sorting. The entries of a Go map
  are visited in an unspecified order: the mapping is the list of its entries in the order of one
  visit, and the platforms of the price index are visited in the order \<open>visit\<close>.
\<close>

definition wildcardSuffix :: char where "wildcardSuffix = CHR ''*''"

definition splitWildcardSuffix :: "string \<Rightarrow> string \<times> bool" where
  "splitWildcardSuffix pattern =
     (if pattern \<noteq> [] \<and> last pattern = wildcardSuffix then (butlast pattern, True) else (pattern, False))"

record SupportedModel =
  sm_Name :: string
  sm_Platform :: string
  sm_Pricing :: "ChannelModelPricing option"

section \<open>The price index\<close>

record platformPricingIndex =
  byLower :: "string \<rightharpoonup> ChannelModelPricing"
  originalCase :: "string \<rightharpoonup> string"
  ix_names :: "string list"

definition empty_index :: platformPricingIndex where
  "empty_index = \<lparr>byLower = Map.empty, originalCase = Map.empty, ix_names = []\<rparr>"

definition index_model :: "ChannelModelPricing \<Rightarrow> string \<Rightarrow> platformPricingIndex \<Rightarrow> platformPricingIndex" where
  "index_model p m pidx =
     (if snd (splitWildcardSuffix m) then pidx
      else let lower = to_lower m in
        if byLower pidx lower \<noteq> None then pidx
        else \<lparr>byLower = (byLower pidx)(lower \<mapsto> p), originalCase = (originalCase pidx)(lower \<mapsto> m),
               ix_names = ix_names pidx @ [m]\<rparr>)"

definition index_pricing ::
  "ChannelModelPricing \<Rightarrow> (string \<rightharpoonup> platformPricingIndex) \<Rightarrow> (string \<rightharpoonup> platformPricingIndex)" where
  "index_pricing p idx =
     (let pidx = (case idx (cp_Platform p) of Some pidx \<Rightarrow> pidx | None \<Rightarrow> empty_index)
      in idx(cp_Platform p \<mapsto> fold (index_model p) (cp_Models p) pidx))"

definition buildPricingIndex :: "ChannelModelPricing list \<Rightarrow> (string \<rightharpoonup> platformPricingIndex)" where
  "buildPricingIndex pricings = fold index_pricing pricings Map.empty"

section \<open>The passes\<close>

definition lookup_priced :: "platformPricingIndex option \<Rightarrow> string \<Rightarrow> string \<times> ChannelModelPricing option" where
  "lookup_priced pidx name =
     (case pidx of
        None \<Rightarrow> (name, None)
      | Some ix \<Rightarrow>
          if name = [] then (name, None)
          else let lower = to_lower name in
            case byLower ix lower of
              Some p \<Rightarrow> (case originalCase ix lower of Some d \<Rightarrow> d | None \<Rightarrow> [], Some p)
            | None \<Rightarrow> (name, None))"

text \<open>The result so far and the keys already in it.\<close>

type_synonym listing = "(string \<times> string) set \<times> SupportedModel list"

definition add_model :: "string \<Rightarrow> string \<Rightarrow> ChannelModelPricing option \<Rightarrow> listing \<Rightarrow> listing" where
  "add_model platform displayName pricing st =
     (case st of (seen, result) \<Rightarrow>
        let key = (platform, to_lower displayName) in
        if key \<in> seen then (seen, result)
        else (insert key seen,
              result @ [\<lparr>sm_Name = displayName, sm_Platform = platform, sm_Pricing = pricing\<rparr>]))"

definition add_priced :: "string \<Rightarrow> platformPricingIndex \<Rightarrow> string \<Rightarrow> listing \<Rightarrow> listing" where
  "add_priced platform ix name st =
     (case lookup_priced (Some ix) name of (display, pricing) \<Rightarrow> add_model platform display pricing st)"

definition expand_wildcard :: "string \<Rightarrow> platformPricingIndex option \<Rightarrow> string \<Rightarrow> listing \<Rightarrow> listing" where
  "expand_wildcard platform pidx pre st =
     (case pidx of
        None \<Rightarrow> st
      | Some ix \<Rightarrow> fold (add_priced platform ix)
          (filter (\<lambda>c. prefix (to_lower pre) (to_lower c)) (ix_names ix)) st)"

definition pricing_key :: "string \<Rightarrow> string \<Rightarrow> string" where
  "pricing_key src target =
     (let k = (if target = [] then src else target)
      in if snd (splitWildcardSuffix k) then src else k)"

definition add_mapping :: "string \<Rightarrow> platformPricingIndex option \<Rightarrow> string \<times> string \<Rightarrow> listing \<Rightarrow> listing" where
  "add_mapping platform pidx entry st =
     (case entry of (src, target) \<Rightarrow>
        (case splitWildcardSuffix src of (pre, wild) \<Rightarrow>
           if wild then expand_wildcard platform pidx pre st
           else add_model platform (fst (lookup_priced pidx src))
                  (snd (lookup_priced pidx (pricing_key src target))) st))"

definition mapping_pass ::
  "(string \<rightharpoonup> platformPricingIndex) \<Rightarrow> (string \<times> (string \<times> string) list) list \<Rightarrow> listing \<Rightarrow> listing" where
  "mapping_pass idx mappings =
     fold (\<lambda>(platform, mapping). fold (add_mapping platform (idx platform)) mapping) mappings"

definition pricing_pass :: "(string \<rightharpoonup> platformPricingIndex) \<Rightarrow> string list \<Rightarrow> listing \<Rightarrow> listing" where
  "pricing_pass idx visit =
     fold (\<lambda>platform. case idx platform of
             None \<Rightarrow> (\<lambda>st. st) | Some ix \<Rightarrow> fold (add_priced platform ix) (ix_names ix)) visit"

definition model_key :: "SupportedModel \<Rightarrow> string \<times> string" where
  "model_key m = (sm_Platform m, sm_Name m)"

definition SupportedModels :: "Channel option \<Rightarrow> string list \<Rightarrow> SupportedModel list" where
  "SupportedModels ch visit =
     (case ch of
        None \<Rightarrow> []
      | Some c \<Rightarrow>
          if ch_ModelMapping c = [] \<and> ch_ModelPricing c = [] then []
          else let idx = buildPricingIndex (ch_ModelPricing c);
                   st = pricing_pass idx visit (mapping_pass idx (ch_ModelMapping c) ({}, []))
               in sort_key model_key (snd st))"

section \<open>What the index holds\<close>

definition concrete :: "string \<Rightarrow> bool" where
  "concrete m \<longleftrightarrow> \<not> snd (splitWildcardSuffix m)"

definition concretely_priced :: "string \<Rightarrow> ChannelModelPricing \<Rightarrow> bool" where
  "concretely_priced l p \<longleftrightarrow> (\<exists>m \<in> set (cp_Models p). concrete m \<and> to_lower m = l)"

lemma concrete_iff: "concrete m \<longleftrightarrow> m = [] \<or> last m \<noteq> CHR ''*''"
  by (auto simp: concrete_def splitWildcardSuffix_def wildcardSuffix_def)

lemma lower_star: "lower_char c = CHR ''*'' \<longleftrightarrow> c = CHR ''*''"
proof -
  have star: "d = CHR ''*'' \<longleftrightarrow> byte_of d = 42" for d
    using byte_of_inj [of d "CHR ''*''"] by (auto simp: byte_of_def)
  show ?thesis unfolding star byte_of_lower_char by auto
qed

lemma concrete_to_lower: "to_lower m = to_lower n \<Longrightarrow> concrete m \<longleftrightarrow> concrete n"
proof -
  have "concrete m \<longleftrightarrow> to_lower m = [] \<or> last (to_lower m) \<noteq> CHR ''*''" for m
    by (cases "m = []") (auto simp: concrete_iff to_lower_def last_map lower_star)
  then show "to_lower m = to_lower n \<Longrightarrow> concrete m \<longleftrightarrow> concrete n" by metis
qed

definition index_ok :: "platformPricingIndex \<Rightarrow> bool" where
  "index_ok ix \<longleftrightarrow>
     (\<forall>l p. byLower ix l = Some p \<longrightarrow> (\<exists>d \<in> set (ix_names ix). originalCase ix l = Some d \<and> to_lower d = l))
   \<and> (\<forall>n \<in> set (ix_names ix). concrete n \<and> byLower ix (to_lower n) \<noteq> None)"

lemma index_ok_empty [simp]: "index_ok empty_index"
  by (simp add: index_ok_def empty_index_def)

lemma byLower_empty: "byLower empty_index l = None"
  by (simp add: empty_index_def)

lemma index_model_simps:
  "\<not> concrete m \<or> byLower ix (to_lower m) \<noteq> None \<Longrightarrow> index_model p m ix = ix"
  "concrete m \<Longrightarrow> byLower ix (to_lower m) = None \<Longrightarrow> index_model p m ix =
     \<lparr>byLower = (byLower ix)(to_lower m \<mapsto> p), originalCase = (originalCase ix)(to_lower m \<mapsto> m),
      ix_names = ix_names ix @ [m]\<rparr>"
  by (auto simp: index_model_def concrete_def Let_def)

lemma index_model_ok: "index_ok ix \<Longrightarrow> index_ok (index_model p m ix)"
proof (cases "\<not> concrete m \<or> byLower ix (to_lower m) \<noteq> None")
  case False
  assume "index_ok ix"
  with False show ?thesis by (auto simp: index_model_simps index_ok_def)
qed (simp add: index_model_simps)

lemma index_models_ok: "index_ok ix \<Longrightarrow> index_ok (fold (index_model p) ms ix)"
  by (induction ms arbitrary: ix) (auto simp: index_model_ok)

lemma index_models_byLower:
  "byLower (fold (index_model p) ms ix) l =
     (case byLower ix l of Some q \<Rightarrow> Some q
      | None \<Rightarrow> if \<exists>m \<in> set ms. concrete m \<and> to_lower m = l then Some p else None)"
proof (induction ms arbitrary: ix)
  case (Cons m ms)
  show ?case
  proof (cases "\<not> concrete m \<or> byLower ix (to_lower m) \<noteq> None")
    case True
    then show ?thesis by (auto simp: Cons index_model_simps split: option.splits)
  next
    case False
    then show ?thesis by (auto simp: Cons index_model_simps split: option.splits)
  qed
qed (simp split: option.split)

text \<open>The index of a platform agrees with a scan of the price list.\<close>

definition scan :: "ChannelModelPricing list \<Rightarrow> string \<Rightarrow> string \<Rightarrow> ChannelModelPricing option" where
  "scan ps platform l = find (\<lambda>p. cp_Platform p = platform \<and> concretely_priced l p) ps"

lemma scan_snoc:
  "scan (ps @ [p]) platform l = (case scan ps platform l of Some q \<Rightarrow> Some q
     | None \<Rightarrow> if cp_Platform p = platform \<and> concretely_priced l p then Some p else None)"
  by (induction ps) (auto simp: scan_def)

lemma buildPricingIndex_snoc: "buildPricingIndex (ps @ [p]) = index_pricing p (buildPricingIndex ps)"
  by (simp add: buildPricingIndex_def)

lemma buildPricingIndex_correct:
  "(case buildPricingIndex ps platform of
      None \<Rightarrow> \<forall>p \<in> set ps. cp_Platform p \<noteq> platform
    | Some ix \<Rightarrow> index_ok ix \<and> byLower ix = scan ps platform)"
proof (induction ps rule: rev_induct)
  case Nil
  show ?case by (simp add: buildPricingIndex_def)
next
  case (snoc p ps)
  show ?case
  proof (cases "cp_Platform p = platform")
    case False
    then have "scan (ps @ [p]) platform = scan ps platform"
      by (auto simp: scan_snoc fun_eq_iff split: option.splits)
    with snoc False show ?thesis
      by (auto simp: buildPricingIndex_snoc index_pricing_def Let_def split: option.splits)
  next
    case True
    show ?thesis
    proof (cases "buildPricingIndex ps platform")
      case None
      then have "scan ps platform l = None" for l using snoc by (auto simp: scan_def find_None_iff)
      then show ?thesis using True None
        by (auto simp: buildPricingIndex_snoc index_pricing_def Let_def index_models_ok fun_eq_iff
            index_models_byLower scan_snoc byLower_empty concretely_priced_def)
    next
      case (Some ix)
      then show ?thesis using True snoc
        by (auto simp: buildPricingIndex_snoc index_pricing_def Let_def index_models_ok fun_eq_iff
            index_models_byLower scan_snoc concretely_priced_def split: option.splits)
    qed
  qed
qed

lemma buildPricingIndex_Some:
  "buildPricingIndex ps platform = Some ix \<Longrightarrow> index_ok ix \<and> byLower ix = scan ps platform"
  using buildPricingIndex_correct [of ps platform] by simp

lemma scan_GetModelPricingByPlatform:
  assumes "concrete n"
  shows "scan (ch_ModelPricing c) platform (to_lower n) = GetModelPricingByPlatform (Some c) platform n"
proof -
  have "concretely_priced (to_lower n) p \<longleftrightarrow> priced_for n p" for p
    unfolding concretely_priced_def priced_for_def using assms concrete_to_lower [of _ n] by blast
  then show ?thesis by (simp add: scan_def GetModelPricingByPlatform_def)
qed

section \<open>What the passes list\<close>

definition dedup_key :: "SupportedModel \<Rightarrow> string \<times> string" where
  "dedup_key m = (sm_Platform m, to_lower (sm_Name m))"

definition exact_sources :: "Channel \<Rightarrow> (string \<times> string) set" where
  "exact_sources c = {(platform, to_lower src) | platform src mapping target.
     (platform, mapping) \<in> set (ch_ModelMapping c) \<and> (src, target) \<in> set mapping \<and> concrete src}"

definition concrete_prices :: "Channel \<Rightarrow> (string \<times> string) set" where
  "concrete_prices c = {(cp_Platform p, to_lower m) | p m. p \<in> set (ch_ModelPricing c) \<and> m \<in> set (cp_Models p) \<and> concrete m}"

definition entry_ok :: "Channel \<Rightarrow> SupportedModel \<Rightarrow> bool" where
  "entry_ok c m \<longleftrightarrow> concrete (sm_Name m)
     \<and> (sm_Name m \<noteq> [] \<longrightarrow> dedup_key m \<notin> exact_sources c \<longrightarrow>
          sm_Pricing m = GetModelPricingByPlatform (Some c) (sm_Platform m) (sm_Name m))"

definition listing_ok :: "Channel \<Rightarrow> listing \<Rightarrow> bool" where
  "listing_ok c st \<longleftrightarrow> fst st = dedup_key ` set (snd st) \<and> distinct (map dedup_key (snd st))
     \<and> (\<forall>m \<in> set (snd st). entry_ok c m)"

lemma fst_add_model: "fst (add_model platform d pr st) = insert (platform, to_lower d) (fst st)"
  by (auto simp: add_model_def Let_def split: prod.splits)

lemma add_model_ok:
  assumes "listing_ok c st" and "entry_ok c \<lparr>sm_Name = d, sm_Platform = platform, sm_Pricing = pr\<rparr>"
  shows "listing_ok c (add_model platform d pr st)"
  using assms by (cases st) (auto simp: add_model_def listing_ok_def dedup_key_def Let_def)

lemma fold_ok:
  assumes "\<And>x st. x \<in> set xs \<Longrightarrow> listing_ok c st \<Longrightarrow> listing_ok c (f x st)" and "listing_ok c st"
  shows "listing_ok c (fold f xs st)"
  using assms by (induction xs arbitrary: st) auto

lemma fold_keys:
  assumes "\<And>x st. x \<in> set xs \<Longrightarrow> fst (f x st) = K x \<union> fst st"
  shows "fst (fold f xs st) = (\<Union>x \<in> set xs. K x) \<union> fst st"
  using assms by (induction xs arbitrary: st) auto

lemma lookup_display:
  assumes "case pidx of None \<Rightarrow> True | Some ix \<Rightarrow> index_ok ix"
  shows "to_lower (fst (lookup_priced pidx n)) = to_lower n"
proof (cases pidx)
  case (Some ix)
  show ?thesis
  proof (cases "byLower ix (to_lower n)")
    case (Some p)
    then obtain d where "originalCase ix (to_lower n) = Some d" "to_lower d = to_lower n"
      using assms \<open>pidx = Some ix\<close> unfolding index_ok_def by auto
    then show ?thesis using Some \<open>pidx = Some ix\<close> by (simp add: lookup_priced_def Let_def)
  qed (simp add: lookup_priced_def Let_def Some)
qed (simp add: lookup_priced_def)

lemma lookup_priced_name:
  assumes "index_ok ix" and "n \<in> set (ix_names ix)"
  shows "concrete (fst (lookup_priced (Some ix) n)) \<and> to_lower (fst (lookup_priced (Some ix) n)) = to_lower n
    \<and> (n \<noteq> [] \<longrightarrow> snd (lookup_priced (Some ix) n) = byLower ix (to_lower n))"
proof -
  have lower: "to_lower (fst (lookup_priced (Some ix) n)) = to_lower n"
    using lookup_display [of "Some ix" n] assms(1) by simp
  moreover have "concrete n" using assms by (auto simp: index_ok_def)
  ultimately have "concrete (fst (lookup_priced (Some ix) n))" using concrete_to_lower by blast
  with lower show ?thesis by (auto simp: lookup_priced_def Let_def split: option.splits)
qed

lemma add_priced_ok:
  assumes "buildPricingIndex (ch_ModelPricing c) platform = Some ix" and "n \<in> set (ix_names ix)" and "listing_ok c st"
  shows "listing_ok c (add_priced platform ix n st)"
proof -
  obtain d pr where look: "lookup_priced (Some ix) n = (d, pr)" by fastforce
  note ix = buildPricingIndex_Some [OF assms(1)]
  note name = lookup_priced_name [OF ix [THEN conjunct1] assms(2), unfolded look fst_conv snd_conv]
  have "pr = GetModelPricingByPlatform (Some c) platform d" if "d \<noteq> []"
  proof -
    have "n \<noteq> []" using that name by auto
    then have "pr = scan (ch_ModelPricing c) platform (to_lower d)" using name ix by simp
    then show ?thesis using scan_GetModelPricingByPlatform [of d c platform] name by simp
  qed
  then have "entry_ok c \<lparr>sm_Name = d, sm_Platform = platform, sm_Pricing = pr\<rparr>"
    using name by (simp add: entry_ok_def)
  then show ?thesis using add_model_ok [OF assms(3)] by (simp add: add_priced_def look)
qed

lemma fst_add_priced:
  assumes "index_ok ix" and "n \<in> set (ix_names ix)"
  shows "fst (add_priced platform ix n st) = {(platform, to_lower n)} \<union> fst st"
  using lookup_priced_name [OF assms] by (auto simp: add_priced_def fst_add_model split: prod.splits)

lemma names_priced:
  assumes "buildPricingIndex (ch_ModelPricing c) platform = Some ix" and "n \<in> set (ix_names ix)"
  shows "(platform, to_lower n) \<in> concrete_prices c"
proof -
  note ix = buildPricingIndex_Some [OF assms(1)]
  with assms(2) obtain p where "scan (ch_ModelPricing c) platform (to_lower n) = Some p" by (auto simp: index_ok_def)
  then have "p \<in> set (ch_ModelPricing c)" "cp_Platform p = platform" "concretely_priced (to_lower n) p"
    unfolding scan_def using find_Some_mem by fastforce+
  then show ?thesis unfolding concretely_priced_def concrete_prices_def by (metis (mono_tags, lifting) mem_Collect_eq)
qed

lemma priced_names:
  assumes "(platform, l) \<in> concrete_prices c"
  shows "\<exists>ix. buildPricingIndex (ch_ModelPricing c) platform = Some ix \<and> l \<in> to_lower ` set (ix_names ix)"
proof -
  from assms obtain p m where p: "p \<in> set (ch_ModelPricing c)" "cp_Platform p = platform" "m \<in> set (cp_Models p)"
    "concrete m" "to_lower m = l" by (auto simp: concrete_prices_def)
  obtain ix where ix: "buildPricingIndex (ch_ModelPricing c) platform = Some ix"
    using buildPricingIndex_correct [of "ch_ModelPricing c" platform] p by (cases "buildPricingIndex (ch_ModelPricing c) platform") auto
  from p have "scan (ch_ModelPricing c) platform l \<noteq> None"
    by (auto simp: scan_def find_None_iff concretely_priced_def)
  with buildPricingIndex_Some [OF ix] have "l \<in> to_lower ` set (ix_names ix)" unfolding index_ok_def by (metis image_eqI not_Some_eq)
  with ix show ?thesis by blast
qed

lemma expand_wildcard_ok:
  fixes platform pre :: string
  assumes "listing_ok c st" and "fst st \<subseteq> K \<union> concrete_prices c"
  defines "st' \<equiv> expand_wildcard platform (buildPricingIndex (ch_ModelPricing c) platform) pre st"
  shows "listing_ok c st' \<and> fst st \<subseteq> fst st' \<and> fst st' \<subseteq> K \<union> concrete_prices c"
proof (cases "buildPricingIndex (ch_ModelPricing c) platform")
  case None
  then show ?thesis using assms by (simp add: expand_wildcard_def)
next
  case (Some ix)
  define ns where "ns = filter (\<lambda>n. prefix (to_lower pre) (to_lower n)) (ix_names ix)"
  have sub: "n \<in> set (ix_names ix)" if "n \<in> set ns" for n using that by (simp add: ns_def)
  have st': "st' = fold (add_priced platform ix) ns st" by (simp add: st'_def expand_wildcard_def Some ns_def)
  have "listing_ok c st'" unfolding st' using add_priced_ok [OF Some sub] assms(1) by (intro fold_ok) auto
  moreover have "fst st' = (\<Union>n \<in> set ns. {(platform, to_lower n)}) \<union> fst st"
    unfolding st' using fst_add_priced buildPricingIndex_Some [OF Some] sub by (intro fold_keys) blast
  ultimately show ?thesis using names_priced [OF Some sub] assms(2) by auto
qed

text \<open>The keys of a listing are the exact sources \<open>D\<close> seen so far, and perhaps concretely priced models.\<close>

definition pass_ok :: "Channel \<Rightarrow> (string \<times> string) set \<Rightarrow> listing \<Rightarrow> bool" where
  "pass_ok c D st \<longleftrightarrow> listing_ok c st \<and> D \<subseteq> fst st \<and> fst st \<subseteq> D \<union> concrete_prices c"

definition exact_of :: "string \<Rightarrow> (string \<times> string) list \<Rightarrow> (string \<times> string) set" where
  "exact_of platform mapping = {(platform, to_lower src) | src target. (src, target) \<in> set mapping \<and> concrete src}"

lemma exact_of_Cons: "exact_of platform ((src, target) # es) =
    (if concrete src then {(platform, to_lower src)} else {}) \<union> exact_of platform es"
  by (auto simp: exact_of_def)

lemma exact_sources_eq: "exact_sources c = (\<Union>(platform, mapping) \<in> set (ch_ModelMapping c). exact_of platform mapping)"
  by (auto simp: exact_sources_def exact_of_def)

lemma add_mapping_pass:
  fixes src target :: string
  assumes "pass_ok c D st" and "concrete src \<Longrightarrow> (platform, to_lower src) \<in> exact_sources c"
  shows "pass_ok c ((if concrete src then {(platform, to_lower src)} else {}) \<union> D)
    (add_mapping platform (buildPricingIndex (ch_ModelPricing c) platform) (src, target) st)"
proof (cases "concrete src")
  case False
  then show ?thesis
    using assms(1) expand_wildcard_ok [where st = st and K = D and platform = platform and c = c]
    by (auto simp: pass_ok_def add_mapping_def concrete_def split: prod.splits)
next
  case True
  define pidx where "pidx = buildPricingIndex (ch_ModelPricing c) platform"
  have "case pidx of None \<Rightarrow> True | Some ix \<Rightarrow> index_ok ix"
    using buildPricingIndex_Some by (simp add: pidx_def split: option.split)
  then have lower: "to_lower (fst (lookup_priced pidx src)) = to_lower src" by (rule lookup_display)
  with True have "concrete (fst (lookup_priced pidx src))" using concrete_to_lower by blast
  then have "entry_ok c \<lparr>sm_Name = fst (lookup_priced pidx src), sm_Platform = platform, sm_Pricing = pr\<rparr>" for pr
    using assms(2) [OF True] lower by (simp add: entry_ok_def dedup_key_def)
  then have "listing_ok c (add_model platform (fst (lookup_priced pidx src)) pr st)" for pr
    using assms(1) by (intro add_model_ok) (auto simp: pass_ok_def)
  then show ?thesis using True assms(1) lower
    by (auto simp: pass_ok_def add_mapping_def concrete_def fst_add_model pidx_def split: prod.splits)
qed

lemma add_mappings_pass:
  assumes "pass_ok c D st" and "exact_of platform mapping \<subseteq> exact_sources c"
  shows "pass_ok c (exact_of platform mapping \<union> D)
    (fold (add_mapping platform (buildPricingIndex (ch_ModelPricing c) platform)) mapping st)"
  using assms
proof (induction mapping arbitrary: D st)
  case (Cons e es)
  obtain src target where e: "e = (src, target)" by (cases e)
  have "pass_ok c ((if concrete src then {(platform, to_lower src)} else {}) \<union> D)
      (add_mapping platform (buildPricingIndex (ch_ModelPricing c) platform) (src, target) st)"
    using Cons.prems by (intro add_mapping_pass) (auto simp: e exact_of_Cons split: if_splits)
  from Cons.IH [OF this] Cons.prems(2) show ?case
    by (simp add: e exact_of_Cons Un_ac)
qed (simp add: exact_of_def)

lemma mapping_pass_ok:
  assumes "pass_ok c D st" and "set ms \<subseteq> set (ch_ModelMapping c)"
  shows "pass_ok c ((\<Union>(platform, mapping) \<in> set ms. exact_of platform mapping) \<union> D)
    (mapping_pass (buildPricingIndex (ch_ModelPricing c)) ms st)"
  using assms
proof (induction ms arbitrary: D st)
  case (Cons e ms)
  obtain platform mapping where e: "e = (platform, mapping)" by (cases e)
  have "exact_of platform mapping \<subseteq> exact_sources c" using Cons.prems(2) by (auto simp: e exact_sources_eq)
  from Cons.IH [OF add_mappings_pass [OF Cons.prems(1) this]] Cons.prems(2)
  show ?case by (simp add: e mapping_pass_def Un_ac)
qed (simp add: mapping_pass_def)

lemma pricing_pass_ok:
  assumes "listing_ok c st"
  shows "listing_ok c (pricing_pass (buildPricingIndex (ch_ModelPricing c)) visit st)"
  unfolding pricing_pass_def
proof (rule fold_ok [OF _ assms])
  fix platform st assume st: "listing_ok c st"
  show "listing_ok c ((case buildPricingIndex (ch_ModelPricing c) platform of None \<Rightarrow> \<lambda>st. st
      | Some ix \<Rightarrow> fold (add_priced platform ix) (ix_names ix)) st)"
    using st add_priced_ok by (auto split: option.split intro!: fold_ok)
qed

lemma fst_pricing_pass:
  "fst (pricing_pass (buildPricingIndex (ch_ModelPricing c)) visit st) =
     {k \<in> concrete_prices c. fst k \<in> set visit} \<union> fst st"
proof -
  let ?K = "\<lambda>platform. {k \<in> concrete_prices c. fst k = platform}"
  have "fst ((case buildPricingIndex (ch_ModelPricing c) platform of None \<Rightarrow> \<lambda>st. st
      | Some ix \<Rightarrow> fold (add_priced platform ix) (ix_names ix)) st) = ?K platform \<union> fst st" for platform st
  proof (cases "buildPricingIndex (ch_ModelPricing c) platform")
    case None
    then have "?K platform = {}" using priced_names by (metis (mono_tags, lifting) empty_Collect_eq option.distinct(1) prod.collapse)
    then show ?thesis unfolding None option.case by blast
  next
    case (Some ix)
    have "fst (fold (add_priced platform ix) (ix_names ix) st) = (\<Union>n \<in> set (ix_names ix). {(platform, to_lower n)}) \<union> fst st"
      using fst_add_priced buildPricingIndex_Some [OF Some] by (intro fold_keys) blast
    moreover have "(\<Union>n \<in> set (ix_names ix). {(platform, to_lower n)}) = ?K platform"
      using names_priced [OF Some] priced_names Some by fastforce
    ultimately show ?thesis using Some by simp
  qed
  then have "fst (pricing_pass (buildPricingIndex (ch_ModelPricing c)) visit st) = (\<Union>platform \<in> set visit. ?K platform) \<union> fst st"
    unfolding pricing_pass_def by (intro fold_keys) blast
  then show ?thesis by auto
qed

text \<open>the list of models a channel supports. Whatever order the maps are visited in, it is sorted by
  platform and name and names no model of a platform twice, in any casing; it holds exactly the models
  with a concrete price and the concrete sources of the mapping, and no pattern; and a model that is
  not the source of a mapping is listed with the price it is billed by.\<close>

theorem SupportedModels_correct:
  assumes "set visit = dom (buildPricingIndex (ch_ModelPricing c))"
  shows "sorted (map model_key (SupportedModels (Some c) visit))
    \<and> distinct (map dedup_key (SupportedModels (Some c) visit))
    \<and> dedup_key ` set (SupportedModels (Some c) visit) = exact_sources c \<union> concrete_prices c
    \<and> (\<forall>m \<in> set (SupportedModels (Some c) visit). concrete (sm_Name m)
         \<and> (sm_Name m \<noteq> [] \<and> dedup_key m \<notin> exact_sources c \<longrightarrow>
              sm_Pricing m = GetModelPricingByPlatform (Some c) (sm_Platform m) (sm_Name m)))"
proof -
  define idx where "idx = buildPricingIndex (ch_ModelPricing c)"
  define st where "st = mapping_pass idx (ch_ModelMapping c) ({}, [])"
  define st' where "st' = pricing_pass idx visit st"
  have "pass_ok c {} ({}, [])" by (simp add: pass_ok_def listing_ok_def)
  then have st: "pass_ok c (exact_sources c) st"
    using mapping_pass_ok [of c "{}" "({}, [])" "ch_ModelMapping c"] by (simp add: st_def idx_def exact_sources_eq)
  then have ok: "listing_ok c st'" unfolding st'_def idx_def by (intro pricing_pass_ok) (simp add: pass_ok_def)
  have "fst k \<in> set visit" if "k \<in> concrete_prices c" for k
    using that priced_names [of "fst k" "snd k" c] assms by (auto simp: dom_def)
  then have keys: "fst st' = exact_sources c \<union> concrete_prices c"
    using st fst_pricing_pass [of c visit st] by (auto simp: st'_def idx_def pass_ok_def)
  have models: "SupportedModels (Some c) visit = sort_key model_key (snd st')"
  proof (cases "ch_ModelMapping c = [] \<and> ch_ModelPricing c = []")
    case True
    then have "visit = []" using assms by (simp add: buildPricingIndex_def)
    with True have "snd st' = []"
      by (simp add: st'_def st_def pricing_pass_def mapping_pass_def)
    then show ?thesis using True by (simp add: SupportedModels_def)
  next
    case False
    then show ?thesis by (simp only: SupportedModels_def Let_def st'_def st_def idx_def option.case if_False)
  qed
  have "distinct (map dedup_key (sort_key model_key (snd st')))"
    using ok by (auto simp: listing_ok_def distinct_map)
  then show ?thesis using ok keys unfolding models
    by (auto simp: listing_ok_def entry_ok_def)
qed

definition priced_at :: "string list \<Rightarrow> float64 \<Rightarrow> ChannelModelPricing" where
  "priced_at models price = \<lparr>cp_ID = 1, cp_Platform = ''openai'', cp_Models = models, cp_BillingMode = BillingModeToken,
     cp_InputPrice = Some price, cp_OutputPrice = Some price, cp_CacheWritePrice = None, cp_CacheReadPrice = None,
     cp_ImageOutputPrice = None, cp_PerRequestPrice = None, cp_Intervals = []\<rparr>"

definition example_channel :: "(string \<times> string) list \<Rightarrow> Channel" where
  "example_channel mapping = \<lparr>ch_Status = ''active'', ch_BillingModelSource = [], ch_FeaturesConfig = [],
     ch_ModelPricing = [priced_at [''o3'', ''O3'', ''gpt-*''] 1, priced_at [''o4''] 2], ch_ModelMapping = [(''openai'', mapping)]\<rparr>"

lemmas example_defs = SupportedModels_def buildPricingIndex_def index_pricing_def index_model_def empty_index_def
  mapping_pass_def pricing_pass_def add_mapping_def expand_wildcard_def add_priced_def lookup_priced_def add_model_def
  splitWildcardSuffix_def wildcardSuffix_def pricing_key_def example_channel_def priced_at_def model_key_def

lemma example_lower: "to_lower ''o3'' = ''o3''" "to_lower ''O3'' = ''o3''" "to_lower ''o4'' = ''o4''" "to_lower ''o'' = ''o''"
  by code_simp+

lemma example_index: "dom (buildPricingIndex (ch_ModelPricing (example_channel mapping))) = {''openai''}"
  by (simp add: example_defs example_lower Let_def)

lemma SupportedModels_correct_witness:
  "distinct (map dedup_key (SupportedModels (Some (example_channel [(''o*'', ''o*'')])) [''openai'']))
   \<and> map sm_Name (SupportedModels (Some (example_channel [(''o*'', ''o*'')])) [''openai'']) = [''o3'', ''o4'']"
proof -
  have "map sm_Name (SupportedModels (Some (example_channel [(''o*'', ''o*'')])) [''openai'']) = [''o3'', ''o4'']"
    by (simp add: example_defs example_lower Let_def sort_key_def)
  moreover have "distinct (map dedup_key (SupportedModels (Some (example_channel [(''o*'', ''o*'')])) [''openai'']))"
    using SupportedModels_correct [of "[''openai'']" "example_channel [(''o*'', ''o*'')]"] by (simp add: example_index)
  ultimately show ?thesis by blast
qed

text \<open>A model that is both the exact source of a mapping and matched by a wildcard source is listed with
  the price of whichever entry the visit of the map meets first.\<close>

lemma supported_price_depends_on_visit:
  "map (\<lambda>m. (sm_Name m, map_option cp_InputPrice (sm_Pricing m)))
     (SupportedModels (Some (example_channel [(''o3'', ''o4''), (''o*'', ''o*'')])) [''openai''])
   = [(''o3'', Some (Some 2)), (''o4'', Some (Some 2))]"
  "map (\<lambda>m. (sm_Name m, map_option cp_InputPrice (sm_Pricing m)))
     (SupportedModels (Some (example_channel [(''o*'', ''o*''), (''o3'', ''o4'')])) [''openai''])
   = [(''o3'', Some (Some 1)), (''o4'', Some (Some 2))]"
  by (simp_all add: example_defs example_lower Let_def sort_key_def)

end
