(* ===== verification/ImageBilling.thy ===== *)
theory ImageBilling
  imports GoPrelude "HOL-Library.Multiset"
begin

text \<open>
  The size an image or a video is billed by: \<open>service/image_billing_size.go\<close> and
  \<open>service/video_billing_resolution.go\<close>. A tier is the string the code stores. A count per tier is a
  map; \<^const>\<open>None\<close> for the whole map is Go's nil map.
\<close>

section \<open>Image tiers\<close>

definition ImageBillingSize1K :: string where "ImageBillingSize1K = ''1K''"
definition ImageBillingSize2K :: string where "ImageBillingSize2K = ''2K''"
definition ImageBillingSize4K :: string where "ImageBillingSize4K = ''4K''"

definition ImageSizeSourceOutput :: string where "ImageSizeSourceOutput = ''output''"
definition ImageSizeSourceInput :: string where "ImageSizeSourceInput = ''input''"
definition ImageSizeSourceDefault :: string where "ImageSizeSourceDefault = ''default''"

record ImageBillingSizeResolution =
  BillingSize :: string
  InputSize :: string
  OutputSize :: string
  ibr_Source :: string
  Breakdown :: "(string \<rightharpoonup> nat) option"

definition parseImageBillingDimensions :: "string \<Rightarrow> (int \<times> int) option" where
  "parseImageBillingDimensions imgsize =
     (case split_char (CHR ''x'') (to_lower (trim_space imgsize)) of
        [w, h] \<Rightarrow>
          (case parse_int64 (trim_space w) of
             None \<Rightarrow> None
           | Some width \<Rightarrow>
               (case parse_int64 (trim_space h) of
                  None \<Rightarrow> None
                | Some height \<Rightarrow> if width \<le> 0 \<or> height \<le> 0 then None else Some (width, height)))
      | _ \<Rightarrow> None)"

definition ClassifyImageBillingTier :: "string \<Rightarrow> string option" where
  "ClassifyImageBillingTier imgsize =
     (let trimmed = trim_space imgsize; normalized = to_lower trimmed in
      if normalized = [] \<or> normalized = ''auto'' then None
      else if normalized = ''1k'' then Some ImageBillingSize1K
      else if normalized = ''2k'' then Some ImageBillingSize2K
      else if normalized = ''4k'' then Some ImageBillingSize4K
      else if normalized = ''2048x2048'' \<or> normalized = ''2048x1152'' then Some ImageBillingSize2K
      else if normalized = ''3840x2160'' \<or> normalized = ''2160x3840'' then Some ImageBillingSize4K
      else (case parseImageBillingDimensions trimmed of
              None \<Rightarrow> None
            | Some (width, height) \<Rightarrow>
                let maxEdge = (if width < height then height else width) in
                if maxEdge \<le> 1024 then Some ImageBillingSize1K
                else if maxEdge \<le> 2048 then Some ImageBillingSize2K
                else Some ImageBillingSize4K))"

definition NormalizeImageBillingTierOrDefault :: "string \<Rightarrow> string" where
  "NormalizeImageBillingTierOrDefault imgsize =
     (case ClassifyImageBillingTier imgsize of Some tier \<Rightarrow> tier | None \<Rightarrow> ImageBillingSize2K)"

definition imageTierRank :: "string \<Rightarrow> nat" where
  "imageTierRank tier =
     (let t = to_upper (trim_space tier) in
      if t = ImageBillingSize1K then 1 else if t = ImageBillingSize2K then 2
      else if t = ImageBillingSize4K then 3 else 0)"

definition compactTrimmedStrings :: "string list \<Rightarrow> string list" where
  "compactTrimmedStrings values = filter (\<lambda>s. s \<noteq> []) (map trim_space values)"

definition firstDisplayImageOutputSize :: "string list \<Rightarrow> string" where
  "firstDisplayImageOutputSize outputSizes =
     (case find (\<lambda>s. s \<noteq> []) (map trim_space outputSizes) of Some s \<Rightarrow> s | None \<Rightarrow> [])"

definition normalizeImageSizeBreakdown :: "(string \<Rightarrow> nat) \<Rightarrow> (string \<rightharpoonup> nat) option" where
  "normalizeImageSizeBreakdown counts =
     (let out = map_of (filter (\<lambda>(_, n). 0 < n)
                  (map (\<lambda>t. (t, counts t)) [ImageBillingSize1K, ImageBillingSize2K, ImageBillingSize4K]))
      in if counts ImageBillingSize1K = 0 \<and> counts ImageBillingSize2K = 0 \<and> counts ImageBillingSize4K = 0
         then None else Some out)"

text \<open>The loop over the outputs: counts per tier (0 for a missing key, as Go reads it) and the highest tier.\<close>

definition count_output :: "string \<Rightarrow> (string \<Rightarrow> nat) \<times> string \<Rightarrow> (string \<Rightarrow> nat) \<times> string" where
  "count_output output st =
     (case ClassifyImageBillingTier output of
        None \<Rightarrow> st
      | Some tier \<Rightarrow>
          (case st of (breakdown, outputTier) \<Rightarrow>
             (breakdown(tier := breakdown tier + 1),
              if imageTierRank outputTier < imageTierRank tier then tier else outputTier)))"

definition ResolveImageBillingSize :: "string \<Rightarrow> string list \<Rightarrow> ImageBillingSizeResolution" where
  "ResolveImageBillingSize inputSize0 outputSizes0 =
     (let inputSize = trim_space inputSize0;
          outputSizes = compactTrimmedStrings outputSizes0;
          outputSize = firstDisplayImageOutputSize outputSizes;
          (breakdown, outputTier) = fold count_output outputSizes (\<lambda>_. 0, [])
      in if outputTier \<noteq> []
         then \<lparr>BillingSize = outputTier, InputSize = inputSize, OutputSize = outputSize,
               ibr_Source = ImageSizeSourceOutput, Breakdown = normalizeImageSizeBreakdown breakdown\<rparr>
         else (case ClassifyImageBillingTier inputSize of
            Some tier \<Rightarrow> \<lparr>BillingSize = tier, InputSize = inputSize, OutputSize = outputSize,
               ibr_Source = ImageSizeSourceInput, Breakdown = None\<rparr>
          | None \<Rightarrow> \<lparr>BillingSize = ImageBillingSize2K, InputSize = inputSize, OutputSize = outputSize,
               ibr_Source = ImageSizeSourceDefault, Breakdown = None\<rparr>))"

text \<open>What of a forward result, \<open>ForwardResult\<close> or \<open>OpenAIForwardResult\<close>, is about images; the two types
  and the two functions on them are alike.\<close>

record ForwardImages =
  ImageCount :: int
  ImageSize :: string
  ImageInputSize :: string
  ImageOutputSize :: string
  ImageOutputSizes :: "string list"
  fwd_ImageSizeSource :: string
  ImageSizeBreakdown :: "(string \<rightharpoonup> nat) option"

definition applyImageBillingResolution :: "ImageBillingSizeResolution \<Rightarrow> ForwardImages \<Rightarrow> ForwardImages" where
  "applyImageBillingResolution resolved result =
     result\<lparr>ImageSize := BillingSize resolved, ImageInputSize := InputSize resolved,
            ImageOutputSize := OutputSize resolved, fwd_ImageSizeSource := ibr_Source resolved,
            ImageSizeBreakdown := Breakdown resolved\<rparr>"

definition ApplyForwardImageBillingResolution :: "ForwardImages option \<Rightarrow> ForwardImages option" where
  "ApplyForwardImageBillingResolution res =
     (case res of
        None \<Rightarrow> None
      | Some result \<Rightarrow>
          if ImageCount result \<le> 0 then Some result
          else
            let given = trim_space (ImageInputSize result);
                inputSize = (if given = [] \<and> trim_space (ImageSize result) \<noteq> ImageBillingSize2K
                             then trim_space (ImageSize result) else given);
                outputSizes = (if ImageOutputSizes result = [] \<and> trim_space (ImageOutputSize result) \<noteq> []
                               then [ImageOutputSize result] else ImageOutputSizes result)
            in Some (applyImageBillingResolution (ResolveImageBillingSize inputSize outputSizes) result))"

definition ApplyOpenAIImageBillingResolution :: "ForwardImages option \<Rightarrow> ForwardImages option" where
  "ApplyOpenAIImageBillingResolution = ApplyForwardImageBillingResolution"

text \<open>The keys of a breakdown, given in the order in which the map is visited.\<close>

definition SortedImageBillingBreakdownKeys :: "string list \<Rightarrow> string list" where
  "SortedImageBillingBreakdownKeys keys = sort_key (\<lambda>k. (imageTierRank k, k)) keys"

section \<open>Videos\<close>

definition VideoBillingResolution480P :: string where "VideoBillingResolution480P = ''480p''"
definition VideoBillingResolution720P :: string where "VideoBillingResolution720P = ''720p''"
definition VideoBillingResolution1080P :: string where "VideoBillingResolution1080P = ''1080p''"
definition VideoBillingMinDurationSeconds :: int where "VideoBillingMinDurationSeconds = 1"
definition VideoBillingMaxDurationSeconds :: int where "VideoBillingMaxDurationSeconds = 15"
definition VideoBillingDefaultDurationSeconds :: int where "VideoBillingDefaultDurationSeconds = 8"

definition NormalizeVideoBillingDurationSecondsOrDefault :: "int \<Rightarrow> int" where
  "NormalizeVideoBillingDurationSecondsOrDefault durationSeconds =
     (if durationSeconds \<le> 0 then VideoBillingDefaultDurationSeconds
      else if durationSeconds < VideoBillingMinDurationSeconds then VideoBillingMinDurationSeconds
      else if VideoBillingMaxDurationSeconds < durationSeconds then VideoBillingMaxDurationSeconds
      else durationSeconds)"

definition NormalizeVideoBillingResolutionOrDefault :: "string \<Rightarrow> string" where
  "NormalizeVideoBillingResolutionOrDefault resolution =
     (let r = to_lower (trim_space resolution) in
      if r \<in> {''480'', ''480p'', ''sd''} then VideoBillingResolution480P
      else if r \<in> {''720'', ''720p'', ''hd''} then VideoBillingResolution720P
      else if r \<in> {''1080'', ''1080p'', ''full_hd'', ''full-hd'', ''fhd''} then VideoBillingResolution1080P
      else VideoBillingResolution480P)"

section \<open>The resolved size\<close>

definition image_tiers :: "string list" where
  "image_tiers = [ImageBillingSize1K, ImageBillingSize2K, ImageBillingSize4K]"

lemmas size_defs = ImageBillingSize1K_def ImageBillingSize2K_def ImageBillingSize4K_def

lemma ClassifyImageBillingTier_tier: "ClassifyImageBillingTier s = Some t \<Longrightarrow> t \<in> set image_tiers"
  by (auto simp: ClassifyImageBillingTier_def image_tiers_def Let_def split: if_splits option.splits)

lemma image_tier_rank:
  "imageTierRank ImageBillingSize1K = 1" "imageTierRank ImageBillingSize2K = 2" "imageTierRank ImageBillingSize4K = 3"
  "imageTierRank [] = 0"
  by code_simp+

lemma image_tier_rank_pos: "t \<in> set image_tiers \<Longrightarrow> 0 < imageTierRank t"
  by (auto simp: image_tiers_def image_tier_rank)

lemma image_tier_nonempty: "t \<in> set image_tiers \<Longrightarrow> t \<noteq> []"
  by (auto simp: image_tiers_def size_defs)

definition tiers_of :: "string list \<Rightarrow> string list" where
  "tiers_of outputs = List.map_filter ClassifyImageBillingTier (compactTrimmedStrings outputs)"

lemma tiers_of_tier: "t \<in> set (tiers_of outputs) \<Longrightarrow> t \<in> set image_tiers"
  by (auto simp: tiers_of_def map_filter_def dest: ClassifyImageBillingTier_tier)

text \<open>The loop counts every tier, and ends with the highest of the tiers it has met.\<close>

lemma count_outputs:
  assumes "fold count_output outputs (breakdown, outputTier) = (breakdown', outputTier')"
  defines "tiers \<equiv> List.map_filter ClassifyImageBillingTier outputs"
  shows "breakdown' t = breakdown t + count_list tiers t
    \<and> outputTier' \<in> insert outputTier (set tiers)
    \<and> (\<forall>u \<in> insert outputTier (set tiers). imageTierRank u \<le> imageTierRank outputTier')"
  using assms(1) unfolding tiers_def
proof (induction outputs arbitrary: breakdown outputTier)
  case (Cons s ss)
  show ?case
  proof (cases "ClassifyImageBillingTier s")
    case None
    then show ?thesis using Cons by (simp add: count_output_def map_filter_simps)
  next
    case (Some u)
    define top where "top = (if imageTierRank outputTier < imageTierRank u then u else outputTier)"
    have "fold count_output ss (breakdown(u := breakdown u + 1), top) = (breakdown', outputTier')"
    proof -
      have "count_output s (breakdown, outputTier) = (breakdown(u := breakdown u + 1), top)"
        by (simp add: count_output_def Some top_def)
      then show ?thesis using Cons.prems by simp
    qed
    note rest = Cons.IH [OF this]
    have top: "top = u \<and> imageTierRank outputTier \<le> imageTierRank top \<or> top = outputTier \<and> imageTierRank u \<le> imageTierRank top"
      by (auto simp: top_def)
    show ?thesis using rest top by (auto simp: map_filter_simps Some)
  qed
qed (simp add: map_filter_simps)

lemma normalizeImageSizeBreakdown_correct:
  assumes "\<And>t. t \<notin> set image_tiers \<Longrightarrow> counts t = 0" and "counts u \<noteq> 0"
  shows "normalizeImageSizeBreakdown counts = Some (\<lambda>t. if counts t = 0 then None else Some (counts t))"
proof -
  have "\<not> (counts ImageBillingSize1K = 0 \<and> counts ImageBillingSize2K = 0 \<and> counts ImageBillingSize4K = 0)"
  proof
    assume "counts ImageBillingSize1K = 0 \<and> counts ImageBillingSize2K = 0 \<and> counts ImageBillingSize4K = 0"
    then have "\<forall>t \<in> set image_tiers. counts t = 0" by (simp add: image_tiers_def)
    with assms(1) [of u] assms(2) show False by (cases "u \<in> set image_tiers") auto
  qed
  moreover have "map_of (filter (\<lambda>(_, n). 0 < n) (map (\<lambda>t. (t, counts t)) image_tiers)) t =
      (if counts t = 0 then None else Some (counts t))" for t
    using assms(1) [of t] by (auto simp: image_tiers_def size_defs)
  ultimately show ?thesis by (simp add: normalizeImageSizeBreakdown_def image_tiers_def fun_eq_iff del: map_of_filter_in)
qed

lemma ResolveImageBillingSize_cases:
  "let tiers = tiers_of outputs; r = ResolveImageBillingSize inp outputs in
     if tiers = []
     then ibr_Source r = (if ClassifyImageBillingTier (trim_space inp) = None then ImageSizeSourceDefault else ImageSizeSourceInput)
       \<and> BillingSize r = NormalizeImageBillingTierOrDefault (trim_space inp) \<and> Breakdown r = None
     else BillingSize r \<in> set tiers \<and> (\<forall>t \<in> set tiers. imageTierRank t \<le> imageTierRank (BillingSize r))
       \<and> ibr_Source r = ImageSizeSourceOutput
       \<and> Breakdown r = Some (\<lambda>t. if t \<in> set tiers then Some (count_list tiers t) else None)"
proof -
  obtain breakdown top where loop: "fold count_output (compactTrimmedStrings outputs) (\<lambda>_. 0, []) = (breakdown, top)"
    by fastforce
  from count_outputs [OF this] have counts: "breakdown t = count_list (tiers_of outputs) t"
    and top: "top \<in> insert [] (set (tiers_of outputs))" "\<forall>t \<in> set (tiers_of outputs). imageTierRank t \<le> imageTierRank top" for t
    by (auto simp: tiers_of_def)
  show ?thesis
  proof (cases "tiers_of outputs")
    case Nil
    with top have "top = []" by simp
    with loop Nil show ?thesis
      by (auto simp: ResolveImageBillingSize_def Let_def NormalizeImageBillingTierOrDefault_def split: option.splits)
  next
    case (Cons u us)
    have "0 < imageTierRank top" using top(2) Cons tiers_of_tier image_tier_rank_pos by (metis gr_zeroI le_zero_eq list.set_intros(1) not_gr_zero)
    then have top': "top \<in> set (tiers_of outputs)" "top \<noteq> []" using top(1) image_tier_rank(4) by auto
    have "normalizeImageSizeBreakdown breakdown = Some (\<lambda>t. if breakdown t = 0 then None else Some (breakdown t))"
      using top'(1) tiers_of_tier by (intro normalizeImageSizeBreakdown_correct [where u = top]) (auto simp: counts count_list_0_iff)
    then have "normalizeImageSizeBreakdown breakdown =
        Some (\<lambda>t. if t \<in> set (tiers_of outputs) then Some (count_list (tiers_of outputs) t) else None)"
      by (simp add: counts count_list_0_iff fun_eq_iff)
    moreover have "tiers_of outputs \<noteq> []" using Cons by simp
    ultimately show ?thesis using loop top' top(2) by (simp add: ResolveImageBillingSize_def Let_def)
  qed
qed

text \<open>Trimming is idempotent, so a resolved size resolves to itself.\<close>

lemma leading_space_prefix: "prefix t s \<Longrightarrow> leading_space s = None \<Longrightarrow> leading_space t = None"
  unfolding leading_space_def find_None_iff
  by (metis (no_types, lifting) map_mono_prefix prefix_order.trans)

lemma leading_space_trim_left: "leading_space (trim_left s) = None"
  by (induction s rule: trim_left.induct) (subst trim_left.simps, auto split: option.split)

lemma trailing_space_trim_right: "trailing_space (trim_right s) = None"
  by (induction s rule: trim_right.induct) (subst trim_right.simps, auto split: option.split)

lemma trim_space_idem [simp]: "trim_space (trim_space s) = trim_space s"
proof -
  have "leading_space (trim_space s) = None"
    unfolding trim_space_def using leading_space_prefix trim_right_prefix leading_space_trim_left by blast
  then have "trim_left (trim_space s) = trim_space s" by (simp add: trim_left.simps)
  moreover have "trim_right (trim_space s) = trim_space s"
    using trailing_space_trim_right by (simp add: trim_space_def trim_right.simps)
  ultimately show ?thesis by (simp add: trim_space_def)
qed

lemma ClassifyImageBillingTier_trim [simp]: "ClassifyImageBillingTier (trim_space s) = ClassifyImageBillingTier s"
  by (simp add: ClassifyImageBillingTier_def)

lemma NormalizeImageBillingTierOrDefault_trim [simp]:
  "NormalizeImageBillingTierOrDefault (trim_space s) = NormalizeImageBillingTierOrDefault s"
  by (simp add: NormalizeImageBillingTierOrDefault_def)

lemma compactTrimmedStrings_idem [simp]:
  "compactTrimmedStrings (compactTrimmedStrings ss) = compactTrimmedStrings ss"
  by (induction ss) (auto simp: compactTrimmedStrings_def)

text \<open>Two requests with the same classified outputs are billed alike when there are any, and otherwise by
  their requested sizes.\<close>

lemma ResolveImageBillingSize_same:
  assumes "tiers_of os = tiers_of os'" and "tiers_of os \<noteq> [] \<or> ClassifyImageBillingTier i = ClassifyImageBillingTier i'"
  shows "BillingSize (ResolveImageBillingSize i os) = BillingSize (ResolveImageBillingSize i' os')
    \<and> ibr_Source (ResolveImageBillingSize i os) = ibr_Source (ResolveImageBillingSize i' os')
    \<and> Breakdown (ResolveImageBillingSize i os) = Breakdown (ResolveImageBillingSize i' os')"
proof (cases "tiers_of os = []")
  case True
  then show ?thesis
    using ResolveImageBillingSize_cases [of os i] ResolveImageBillingSize_cases [of os' i'] assms
    by (simp add: Let_def NormalizeImageBillingTierOrDefault_def)
next
  case False
  have unique: "t = u" if "t \<in> set (tiers_of os)" "u \<in> set (tiers_of os)" "imageTierRank t = imageTierRank u" for t u
    using that tiers_of_tier [of t os] tiers_of_tier [of u os] by (auto simp: image_tiers_def image_tier_rank)
  from False show ?thesis
    using ResolveImageBillingSize_cases [of os i] ResolveImageBillingSize_cases [of os' i'] assms(1) unique
    by (simp add: Let_def) (meson dual_order.antisym)
qed

lemma resolution_idempotent:
  assumes "ApplyForwardImageBillingResolution (Some f) = Some f1"
  shows "\<exists>f2. ApplyForwardImageBillingResolution (Some f1) = Some f2 \<and> ImageSize f2 = ImageSize f1
    \<and> fwd_ImageSizeSource f2 = fwd_ImageSizeSource f1 \<and> ImageSizeBreakdown f2 = ImageSizeBreakdown f1"
proof (cases "ImageCount f \<le> 0")
  case True
  with assms have "f1 = f" by (simp add: ApplyForwardImageBillingResolution_def)
  with assms show ?thesis by auto
next
  case False
  define inp where "inp = (if trim_space (ImageInputSize f) = [] \<and> trim_space (ImageSize f) \<noteq> ImageBillingSize2K
    then trim_space (ImageSize f) else trim_space (ImageInputSize f))"
  define os where "os = (if ImageOutputSizes f = [] \<and> trim_space (ImageOutputSize f) \<noteq> []
    then [ImageOutputSize f] else ImageOutputSizes f)"
  define r where "r = ResolveImageBillingSize inp os"
  have f1: "f1 = applyImageBillingResolution r f"
    using assms False by (simp add: ApplyForwardImageBillingResolution_def Let_def inp_def os_def r_def)
  have trim: "trim_space inp = inp" by (simp add: inp_def)
  have r_io: "InputSize r = inp" "OutputSize r = firstDisplayImageOutputSize (compactTrimmedStrings os)"
    by (auto simp: r_def ResolveImageBillingSize_def Let_def trim split: prod.splits option.splits)
  define inp' where "inp' = (if inp = [] \<and> trim_space (BillingSize r) \<noteq> ImageBillingSize2K then trim_space (BillingSize r) else inp)"
  define os' where "os' = (if ImageOutputSizes f = [] \<and> trim_space (OutputSize r) \<noteq> [] then [OutputSize r] else ImageOutputSizes f)"
  have second: "ApplyForwardImageBillingResolution (Some f1) = Some (applyImageBillingResolution (ResolveImageBillingSize inp' os') f1)"
    using False by (simp add: f1 applyImageBillingResolution_def ApplyForwardImageBillingResolution_def Let_def inp'_def os'_def r_io trim)
  have "compactTrimmedStrings os' = compactTrimmedStrings os"
    by (auto simp: os'_def os_def r_io firstDisplayImageOutputSize_def compactTrimmedStrings_def)
  then have tiers: "tiers_of os = tiers_of os'" by (simp add: tiers_of_def)
  have "tiers_of os \<noteq> [] \<or> inp' = inp"
  proof (rule disjCI)
    assume "\<not> inp' = inp"
    then have "inp = []" "trim_space (BillingSize r) \<noteq> ImageBillingSize2K" by (auto simp: inp'_def split: if_splits)
    moreover have "ClassifyImageBillingTier [] = None" "trim_space ImageBillingSize2K = ImageBillingSize2K" by code_simp+
    ultimately show "tiers_of os \<noteq> []"
      using ResolveImageBillingSize_cases [of os inp] by (auto simp: Let_def r_def NormalizeImageBillingTierOrDefault_def)
  qed
  define f2 where "f2 = applyImageBillingResolution (ResolveImageBillingSize inp' os') f1"
  have "ImageSize f2 = ImageSize f1 \<and> fwd_ImageSizeSource f2 = fwd_ImageSizeSource f1 \<and> ImageSizeBreakdown f2 = ImageSizeBreakdown f1"
    using ResolveImageBillingSize_same [OF tiers, of inp inp'] \<open>tiers_of os \<noteq> [] \<or> inp' = inp\<close>
    by (auto simp: f2_def f1 applyImageBillingResolution_def r_def)
  with second show ?thesis unfolding f2_def by blast
qed

text \<open>the size an image request is billed by. When some size reported by the upstream can be
  classified, it is the highest tier among those, and the breakdown counts the outputs of every tier that
  occurs; otherwise it is the tier of the requested size, and 2K when that cannot be classified
  either. Resolving a result again changes neither the size it is billed by nor its source and
  breakdown.\<close>

theorem ResolveImageBillingSize_correct:
  "(tiers_of outputs = [] \<longrightarrow>
      BillingSize (ResolveImageBillingSize inp outputs) = NormalizeImageBillingTierOrDefault inp
      \<and> Breakdown (ResolveImageBillingSize inp outputs) = None
      \<and> ibr_Source (ResolveImageBillingSize inp outputs) =
          (if ClassifyImageBillingTier inp = None then ImageSizeSourceDefault else ImageSizeSourceInput))
   \<and> (tiers_of outputs \<noteq> [] \<longrightarrow>
      BillingSize (ResolveImageBillingSize inp outputs) \<in> set (tiers_of outputs)
      \<and> (\<forall>t \<in> set (tiers_of outputs). imageTierRank t \<le> imageTierRank (BillingSize (ResolveImageBillingSize inp outputs)))
      \<and> Breakdown (ResolveImageBillingSize inp outputs) =
          Some (\<lambda>t. if t \<in> set (tiers_of outputs) then Some (count_list (tiers_of outputs) t) else None)
      \<and> ibr_Source (ResolveImageBillingSize inp outputs) = ImageSizeSourceOutput)
   \<and> (ApplyForwardImageBillingResolution (Some f) = Some f1 \<longrightarrow>
      (\<exists>f2. ApplyForwardImageBillingResolution (Some f1) = Some f2 \<and> ImageSize f2 = ImageSize f1
        \<and> fwd_ImageSizeSource f2 = fwd_ImageSizeSource f1 \<and> ImageSizeBreakdown f2 = ImageSizeBreakdown f1))"
proof (intro conjI)
  note cases = ResolveImageBillingSize_cases [of outputs inp, unfolded Let_def ClassifyImageBillingTier_trim
      NormalizeImageBillingTierOrDefault_trim]
  show "tiers_of outputs = [] \<longrightarrow>
      BillingSize (ResolveImageBillingSize inp outputs) = NormalizeImageBillingTierOrDefault inp
      \<and> Breakdown (ResolveImageBillingSize inp outputs) = None
      \<and> ibr_Source (ResolveImageBillingSize inp outputs) =
          (if ClassifyImageBillingTier inp = None then ImageSizeSourceDefault else ImageSizeSourceInput)"
    using cases by simp
  show "tiers_of outputs \<noteq> [] \<longrightarrow>
      BillingSize (ResolveImageBillingSize inp outputs) \<in> set (tiers_of outputs)
      \<and> (\<forall>t \<in> set (tiers_of outputs). imageTierRank t \<le> imageTierRank (BillingSize (ResolveImageBillingSize inp outputs)))
      \<and> Breakdown (ResolveImageBillingSize inp outputs) =
          Some (\<lambda>t. if t \<in> set (tiers_of outputs) then Some (count_list (tiers_of outputs) t) else None)
      \<and> ibr_Source (ResolveImageBillingSize inp outputs) = ImageSizeSourceOutput"
    using cases by simp
  show "ApplyForwardImageBillingResolution (Some f) = Some f1 \<longrightarrow>
      (\<exists>f2. ApplyForwardImageBillingResolution (Some f1) = Some f2 \<and> ImageSize f2 = ImageSize f1
        \<and> fwd_ImageSizeSource f2 = fwd_ImageSizeSource f1 \<and> ImageSizeBreakdown f2 = ImageSizeBreakdown f1)"
    using resolution_idempotent by blast
qed

definition example_forward :: ForwardImages where
  "example_forward = \<lparr>ImageCount = 3, ImageSize = [], ImageInputSize = ''1K'', ImageOutputSize = [],
     ImageOutputSizes = [''1024x1536'', '' 4k '', ''1024x1536'', ''auto''], fwd_ImageSizeSource = [], ImageSizeBreakdown = None\<rparr>"

lemma ResolveImageBillingSize_correct_witness:
  "BillingSize (ResolveImageBillingSize ''1K'' (ImageOutputSizes example_forward)) = ''4K''
   \<and> map_option ImageSize (ApplyForwardImageBillingResolution (Some example_forward)) = Some ''4K''
   \<and> map_option ImageSize (ApplyForwardImageBillingResolution (ApplyForwardImageBillingResolution (Some example_forward))) = Some ''4K''"
proof -
  let ?os = "ImageOutputSizes example_forward"
  have tiers: "tiers_of ?os = [''2K'', ''4K'', ''2K'']" by code_simp
  have ranks: "imageTierRank ''2K'' = 2" "imageTierRank ''4K'' = 3" by code_simp+
  obtain f1 where f1: "ApplyForwardImageBillingResolution (Some example_forward) = Some f1"
    by (cases "ApplyForwardImageBillingResolution (Some example_forward)")
      (auto simp: ApplyForwardImageBillingResolution_def Let_def split: if_splits)
  note claim = ResolveImageBillingSize_correct [of ?os "''1K''" example_forward f1]
  have size: "BillingSize (ResolveImageBillingSize ''1K'' ?os) = ''4K''"
    using claim ranks by (auto simp: tiers)
  moreover have "ImageSize f1 = BillingSize (ResolveImageBillingSize ''1K'' ?os)"
  proof -
    have "trim_space ''1K'' = ''1K''" by code_simp
    then show ?thesis using f1
      by (auto simp: ApplyForwardImageBillingResolution_def Let_def example_forward_def applyImageBillingResolution_def)
  qed
  moreover obtain f2 where "ApplyForwardImageBillingResolution (Some f1) = Some f2" "ImageSize f2 = ImageSize f1"
    using claim f1 by blast
  ultimately show ?thesis using f1 by simp
qed

end
