(* ===== verification/GoStrings.thy ===== *)
theory GoStrings
  imports GoPrelude
begin

text \<open>
  More of Go's \<open>strings\<close> package, for the parts of the program that take model names apart:
  \<open>contains\<close> is \<open>strings.Contains\<close>, \<open>has_prefix\<close> and \<open>has_suffix\<close> take the text first as Go does,
  \<open>replace_all\<close> is \<open>strings.ReplaceAll\<close> for a non-empty pattern, \<open>go_fields\<close> is \<open>strings.Fields\<close> (on
  valid UTF-8), \<open>after_last\<close> is \<open>s[strings.LastIndex(s, sep)+len(sep):]\<close>, \<open>join_with\<close> is
  \<open>strings.Join\<close>.
\<close>

definition contains :: "string \<Rightarrow> string \<Rightarrow> bool" where "contains s sub = sublist sub s"
definition has_prefix :: "string \<Rightarrow> string \<Rightarrow> bool" where "has_prefix s p = prefix p s"
definition has_suffix :: "string \<Rightarrow> string \<Rightarrow> bool" where "has_suffix s p = suffix p s"

definition trim_prefix :: "string \<Rightarrow> string \<Rightarrow> string" where
  "trim_prefix s p = (if prefix p s then drop (length p) s else s)"

definition trim_suffix :: "string \<Rightarrow> string \<Rightarrow> string" where
  "trim_suffix s p = (if suffix p s then take (length s - length p) s else s)"

fun replace_all :: "string \<Rightarrow> string \<Rightarrow> string \<Rightarrow> string" where
  "replace_all old new [] = []"
| "replace_all old new (c # s) =
     (if old \<noteq> [] \<and> prefix old (c # s) then new @ replace_all old new (drop (length old - 1) s)
      else c # replace_all old new s)"

fun after_last :: "string \<Rightarrow> string \<Rightarrow> string option" where
  "after_last sep [] = (if sep = [] then Some [] else None)"
| "after_last sep (c # s) =
     (case after_last sep s of
        Some r \<Rightarrow> Some r
      | None \<Rightarrow> if prefix sep (c # s) then Some (drop (length sep) (c # s)) else None)"

fun join_with :: "string \<Rightarrow> string list \<Rightarrow> string" where
  "join_with sep [] = []"
| "join_with sep [s] = s"
| "join_with sep (s # t # ts) = s @ sep @ join_with sep (t # ts)"

text \<open>The words of a text between white space; \<open>cur\<close> is the word being read.\<close>

definition end_word :: "string \<Rightarrow> string list \<Rightarrow> string list" where
  "end_word cur ws = (if cur = [] then ws else cur # ws)"

function fields_from :: "string \<Rightarrow> string \<Rightarrow> string list" where
  "fields_from cur s =
     (case s of
        [] \<Rightarrow> end_word cur []
      | c # s' \<Rightarrow>
          (case leading_space s of
             None \<Rightarrow> fields_from (cur @ [c]) s'
           | Some w \<Rightarrow> end_word cur (fields_from [] (drop (length w) s))))"
  by pat_completeness auto
termination
proof (relation "measure (length \<circ> snd)")
  fix cur s w and c :: char and s'
  assume "leading_space s = Some w" and "s = c # s'"
  then show "(([], drop (length w) s), (cur, s)) \<in> measure (length \<circ> snd)"
    using leading_space_len [of s w] by simp
qed simp_all

declare fields_from.simps [simp del]

definition go_fields :: "string \<Rightarrow> string list" where "go_fields s = fields_from [] s"

section \<open>Replacing shortens\<close>

lemma length_replace_all: "length new \<le> length old \<Longrightarrow> length (replace_all old new s) \<le> length s"
proof (induction old new s rule: replace_all.induct)
  case (2 old new c s)
  show ?case
  proof (cases "old \<noteq> [] \<and> prefix old (c # s)")
    case True
    then have "length old \<le> length (c # s)" using prefix_length_le by blast
    moreover have "0 < length old" using True by simp
    moreover have "length (replace_all old new (drop (length old - 1) s)) \<le> length s - (length old - 1)"
      using "2.IH"(1) [OF True "2.prems"] by simp
    ultimately show ?thesis using True "2.prems" by simp
  next
    case False
    then show ?thesis using "2.IH"(2) "2.prems" by auto
  qed
qed simp

lemma replace_all_shortens:
  assumes "old \<noteq> []" and "length new < length old" and "contains s old"
  shows "length (replace_all old new s) < length s"
  using assms(2,1,3)
proof (induction old new s rule: replace_all.induct)
  case (2 old new c s)
  show ?case
  proof (cases "prefix old (c # s)")
    case True
    then have len: "length old \<le> length (c # s)" using prefix_length_le by blast
    have "length (replace_all old new (drop (length old - 1) s)) \<le> length s - (length old - 1)"
      using length_replace_all [of new old "drop (length old - 1) s"] "2.prems" by simp
    moreover have "0 < length old" using "2.prems" by simp
    ultimately show ?thesis using True "2.prems" len by simp
  next
    case False
    then have "contains s old" using "2.prems"(3) "2.prems"(2)
      by (auto simp: contains_def sublist_Cons_right)
    with False show ?thesis using "2.IH"(2) "2.prems" by simp
  qed
qed (simp add: contains_def)

text \<open>The loop \<open>for strings.Contains(s, "--") { s = strings.ReplaceAll(s, "--", "-") }\<close>, and its end.\<close>

function collapse_dashes :: "string \<Rightarrow> string" where
  "collapse_dashes s = (if contains s ''--'' then collapse_dashes (replace_all ''--'' ''-'' s) else s)"
  by pat_completeness auto
termination by (relation "measure length") (simp_all add: replace_all_shortens)

declare collapse_dashes.simps [simp del]

lemma collapse_dashes_done: "\<not> contains (collapse_dashes s) ''--''"
  by (induction s rule: collapse_dashes.induct) (subst collapse_dashes.simps, auto)

end
