(* ===== verification/ModelNames.thy ===== *)
theory ModelNames
  imports GoStrings
begin

text \<open>
  The spellings of OpenAI model names and the model each is billed as, \<open>service/openai_model_alias.go\<close>
  with the alias table of \<open>service/openai_codex_transform.go\<close>. An empty result is Go's \<open>""\<close>, "not a
  known model".
\<close>

definition slash :: char where "slash = CHR ''/''"

definition lastOpenAIModelSegment :: "string \<Rightarrow> string" where
  "lastOpenAIModelSegment model0 =
     (let model = trim_space model0 in
      if model = [] then []
      else let segment = (if contains model [slash] then last (split_char slash model) else model)
           in trim_space segment)"

definition alias_replacements :: "(string \<times> string) list" where
  "alias_replacements =
     [(''gpt-5.4mini'', ''gpt-5.4-mini''), (''gpt-5.4nano'', ''gpt-5.4-nano''),
      (''gpt-5.3-codexspark'', ''gpt-5.3-codex-spark''), (''gpt-5.3codexspark'', ''gpt-5.3-codex-spark''),
      (''gpt-5.3codex'', ''gpt-5.3-codex'')]"

definition canonicalizeOpenAIModelAliasSpelling :: "string \<Rightarrow> string" where
  "canonicalizeOpenAIModelAliasSpelling model0 =
     (let model = to_lower (lastOpenAIModelSegment model0) in
      if model = [] then []
      else
        let dashed = collapse_dashes (join_with ''-'' (go_fields (replace_all ''_'' ''-'' model)));
            normalized = (if has_prefix dashed ''gpt5'' then ''gpt-5'' @ trim_prefix dashed ''gpt5'' else dashed)
        in if \<not> has_prefix normalized ''gpt-'' \<and> \<not> contains normalized ''codex'' then []
           else fold (\<lambda>(from, to) s. replace_all from to s) alias_replacements normalized)"

definition codexModelMap :: "(string \<times> string) list" where
  "codexModelMap =
    [(''gpt-5.6-sol'', ''gpt-5.6-sol''),
     (''gpt-5.6-terra'', ''gpt-5.6-terra''),
     (''gpt-5.6-luna'', ''gpt-5.6-luna''),
     (''gpt-5.5'', ''gpt-5.5''),
     (''gpt-5.5-pro'', ''gpt-5.5-pro''),
     (''codex-auto-review'', ''codex-auto-review''),
     (''gpt-5.4'', ''gpt-5.4''),
     (''gpt-5.4-mini'', ''gpt-5.4-mini''),
     (''gpt-5.4-none'', ''gpt-5.4''),
     (''gpt-5.4-low'', ''gpt-5.4''),
     (''gpt-5.4-medium'', ''gpt-5.4''),
     (''gpt-5.4-high'', ''gpt-5.4''),
     (''gpt-5.4-xhigh'', ''gpt-5.4''),
     (''gpt-5.4-chat-latest'', ''gpt-5.4''),
     (''gpt-5.3'', ''gpt-5.3-codex''),
     (''gpt-5.3-none'', ''gpt-5.3-codex''),
     (''gpt-5.3-low'', ''gpt-5.3-codex''),
     (''gpt-5.3-medium'', ''gpt-5.3-codex''),
     (''gpt-5.3-high'', ''gpt-5.3-codex''),
     (''gpt-5.3-xhigh'', ''gpt-5.3-codex''),
     (''gpt-5.3-codex'', ''gpt-5.3-codex''),
     (''gpt-5.3-codex-spark'', ''gpt-5.3-codex-spark''),
     (''gpt-5.3-codex-low'', ''gpt-5.3-codex''),
     (''gpt-5.3-codex-medium'', ''gpt-5.3-codex''),
     (''gpt-5.3-codex-high'', ''gpt-5.3-codex''),
     (''gpt-5.3-codex-xhigh'', ''gpt-5.3-codex''),
     (''gpt-5.2'', ''gpt-5.2''),
     (''gpt-5.2-none'', ''gpt-5.2''),
     (''gpt-5.2-low'', ''gpt-5.2''),
     (''gpt-5.2-medium'', ''gpt-5.2''),
     (''gpt-5.2-high'', ''gpt-5.2''),
     (''gpt-5.2-xhigh'', ''gpt-5.2''),
     (''gpt-5'', ''gpt-5.4''),
     (''gpt-5-mini'', ''gpt-5.4''),
     (''gpt-5-nano'', ''gpt-5.4''),
     (''gpt-5.1'', ''gpt-5.4''),
     (''gpt-5.1-codex'', ''gpt-5.3-codex''),
     (''gpt-5.1-codex-max'', ''gpt-5.3-codex''),
     (''gpt-5.1-codex-mini'', ''gpt-5.3-codex''),
     (''gpt-5.2-codex'', ''gpt-5.2''),
     (''codex-mini-latest'', ''gpt-5.3-codex''),
     (''gpt-5-codex'', ''gpt-5.3-codex'')]"

definition codexModelLookupKey :: "string \<Rightarrow> string" where
  "codexModelLookupKey modelID0 =
     (let modelID = trim_space modelID0 in
      if modelID = [] then []
      else let segment = (if contains modelID [slash] then last (split_char slash modelID) else modelID)
           in to_lower (join_with ''-'' (go_fields segment)))"

definition getNormalizedCodexModel :: "string \<Rightarrow> string" where
  "getNormalizedCodexModel modelID =
     (let key = codexModelLookupKey modelID in
      if key = [] then [] else (case map_of codexModelMap key of Some mapped \<Rightarrow> mapped | None \<Rightarrow> []))"

text \<open>The cases of the final switch, in order: a part of the name and the model it stands for.\<close>

definition codex_families :: "(string \<times> string) list" where
  "codex_families =
     [(''gpt-5.6-sol'', ''gpt-5.6-sol''), (''gpt-5.6-terra'', ''gpt-5.6-terra''), (''gpt-5.6-luna'', ''gpt-5.6-luna''),
      (''gpt-5.5-pro'', ''gpt-5.5-pro''), (''gpt-5.5'', ''gpt-5.5''), (''gpt-5.4-mini'', ''gpt-5.4-mini''),
      (''gpt-5.4-nano'', ''gpt-5.4-nano''), (''gpt-5.4'', ''gpt-5.4''), (''gpt-5.2'', ''gpt-5.2''),
      (''gpt-5.3-codex-spark'', ''gpt-5.3-codex-spark''), (''gpt-5.3-codex'', ''gpt-5.3-codex''),
      (''gpt-5.3'', ''gpt-5.3-codex''), (''codex'', ''gpt-5.3-codex''), (''gpt-5'', ''gpt-5.4'')]"

definition normalizeKnownOpenAICodexModel :: "string \<Rightarrow> string" where
  "normalizeKnownOpenAICodexModel model =
     (let normalized = canonicalizeOpenAIModelAliasSpelling model in
      if normalized = [] then []
      else
        let mapped = getNormalizedCodexModel normalized;
            compact = (if has_suffix normalized ''-openai-compact''
                       then getNormalizedCodexModel (trim_suffix normalized ''-openai-compact'') else [])
        in if mapped \<noteq> [] then mapped
           else if compact \<noteq> [] then compact
           else (case find (\<lambda>(part, _). contains normalized part) codex_families of
                   Some (_, known) \<Rightarrow> known
                 | None \<Rightarrow> []))"

section \<open>Names to try for a price\<close>

type_synonym candidates = "string list \<times> string set"

definition add_candidate :: "string \<Rightarrow> candidates \<Rightarrow> candidates" where
  "add_candidate candidate0 st =
     (case st of (candidates, seen) \<Rightarrow>
        let candidate = trim_space candidate0 in
        if candidate = [] then st
        else if to_lower candidate \<in> seen then st
        else (candidates @ [candidate], insert (to_lower candidate) seen))"

definition appendUsageBillingModelCandidate :: "string \<Rightarrow> candidates \<Rightarrow> candidates" where
  "appendUsageBillingModelCandidate model st =
     (let trimmed = trim_space model in
      if trimmed = [] then st
      else
        let st1 = add_candidate trimmed st;
            canonical = canonicalizeOpenAIModelAliasSpelling trimmed;
            st2 = (if canonical \<noteq> [] then add_candidate canonical st1 else st1);
            normalized = normalizeKnownOpenAICodexModel trimmed
        in if normalized \<noteq> [] then add_candidate normalized st2 else st2)"

definition usageBillingModelCandidates :: "string \<Rightarrow> string list \<Rightarrow> string list" where
  "usageBillingModelCandidates primary alternates =
     fst (fold appendUsageBillingModelCandidate alternates (appendUsageBillingModelCandidate primary ([], {})))"

definition firstUsageBillingModel :: "string list \<Rightarrow> string" where
  "firstUsageBillingModel candidates =
     (case find (\<lambda>s. s \<noteq> []) (map trim_space candidates) of Some s \<Rightarrow> s | None \<Rightarrow> [])"

section \<open>What a name can stand for\<close>

definition known_models :: "string list" where
  "known_models = [''gpt-5.6-sol'', ''gpt-5.6-terra'', ''gpt-5.6-luna'', ''gpt-5.5'', ''gpt-5.5-pro'', ''codex-auto-review'',
     ''gpt-5.4'', ''gpt-5.4-mini'', ''gpt-5.4-nano'', ''gpt-5.2'', ''gpt-5.3-codex'', ''gpt-5.3-codex-spark'']"

lemma codex_tables_known: "snd ` set codexModelMap \<subseteq> set known_models" "snd ` set codex_families \<subseteq> set known_models"
  by (simp_all add: codexModelMap_def codex_families_def known_models_def)

lemma getNormalizedCodexModel_known: "getNormalizedCodexModel s \<noteq> [] \<Longrightarrow> getNormalizedCodexModel s \<in> set known_models"
  using codex_tables_known(1)
  by (auto simp: getNormalizedCodexModel_def Let_def split: option.splits if_splits dest!: map_of_SomeD)

lemma normalizeKnownOpenAICodexModel_known:
  "normalizeKnownOpenAICodexModel s \<noteq> [] \<Longrightarrow> normalizeKnownOpenAICodexModel s \<in> set known_models"
proof -
  have "known \<in> set known_models" if "find (\<lambda>(part, _). contains n part) codex_families = Some (part, known)" for n part known
    using find_Some_mem [OF that] codex_tables_known(2) by force
  then show "normalizeKnownOpenAICodexModel s \<noteq> [] \<Longrightarrow> normalizeKnownOpenAICodexModel s \<in> set known_models"
    using getNormalizedCodexModel_known
    by (auto simp: normalizeKnownOpenAICodexModel_def Let_def split: option.splits if_splits)
qed

end
