(* ===== verification/BillingPrices.thy ===== *)
theory BillingPrices
  imports GoFloat ModelNames
begin

text \<open>
  Prices per token: the built-in prices and the choice among them by model name
  (\<open>service/billing_service.go\<close>), and the price data downloaded at run time with its fuzzy lookup
  (\<open>service/pricing_service.go\<close>). The price data, a Go map, is the list of its entries in the order in
  which one visit of the map meets them. A price that cannot be found is \<^const>\<open>None\<close>, Go's nil or
  \<open>ErrModelPricingUnavailable\<close>.
\<close>

section \<open>Built-in prices\<close>

record ModelPricing =
  InputPricePerToken :: float64
  InputPricePerTokenPriority :: float64
  ImageInputPricePerToken :: float64
  OutputPricePerToken :: float64
  OutputPricePerTokenPriority :: float64
  CacheCreationPricePerToken :: float64
  CacheReadPricePerToken :: float64
  CacheReadPricePerTokenPriority :: float64
  CacheCreation5mPrice :: float64
  CacheCreation1hPrice :: float64
  SupportsCacheBreakdown :: bool
  LongContextInputThreshold :: int
  LongContextInputMultiplier :: float64
  LongContextOutputMultiplier :: float64
  ImageOutputPricePerToken :: float64
  ImageOutputPriceExplicit :: bool

definition no_pricing :: ModelPricing where
  "no_pricing = \<lparr>InputPricePerToken = 0, InputPricePerTokenPriority = 0, ImageInputPricePerToken = 0,
     OutputPricePerToken = 0, OutputPricePerTokenPriority = 0, CacheCreationPricePerToken = 0,
     CacheReadPricePerToken = 0, CacheReadPricePerTokenPriority = 0, CacheCreation5mPrice = 0, CacheCreation1hPrice = 0,
     SupportsCacheBreakdown = False, LongContextInputThreshold = 0, LongContextInputMultiplier = 0,
     LongContextOutputMultiplier = 0, ImageOutputPricePerToken = 0, ImageOutputPriceExplicit = False\<rparr>"

text \<open>The literal \<open>xe-6\<close>: dollars per million tokens as a price per token.\<close>

definition usd :: "rat \<Rightarrow> float64" where "usd x = rnd64 (x / 1000000)"

definition claude_gemini_prices :: "(string \<times> ModelPricing) list" where
  "claude_gemini_prices =
    [(''claude-opus-4.5'', no_pricing\<lparr>InputPricePerToken := usd 5, OutputPricePerToken := usd 25,
        CacheCreationPricePerToken := usd (25 / 4), CacheReadPricePerToken := usd (1 / 2)\<rparr>),
     (''claude-sonnet-4'', no_pricing\<lparr>InputPricePerToken := usd 3, OutputPricePerToken := usd 15,
        CacheCreationPricePerToken := usd (15 / 4), CacheReadPricePerToken := usd (3 / 10)\<rparr>),
     (''claude-3-5-sonnet'', no_pricing\<lparr>InputPricePerToken := usd 3, OutputPricePerToken := usd 15,
        CacheCreationPricePerToken := usd (15 / 4), CacheReadPricePerToken := usd (3 / 10)\<rparr>),
     (''claude-3-5-haiku'', no_pricing\<lparr>InputPricePerToken := usd 1, OutputPricePerToken := usd 5,
        CacheCreationPricePerToken := usd (5 / 4), CacheReadPricePerToken := usd (1 / 10)\<rparr>),
     (''claude-3-opus'', no_pricing\<lparr>InputPricePerToken := usd 15, OutputPricePerToken := usd 75,
        CacheCreationPricePerToken := usd (75 / 4), CacheReadPricePerToken := usd (3 / 2)\<rparr>),
     (''claude-3-haiku'', no_pricing\<lparr>InputPricePerToken := usd (1 / 4), OutputPricePerToken := usd (5 / 4),
        CacheCreationPricePerToken := usd (3 / 10), CacheReadPricePerToken := usd (3 / 100)\<rparr>),
     (''claude-opus-4.6'', no_pricing\<lparr>InputPricePerToken := usd 5, OutputPricePerToken := usd 25,
        CacheCreationPricePerToken := usd (25 / 4), CacheReadPricePerToken := usd (1 / 2)\<rparr>),
     (''claude-opus-4.7'', no_pricing\<lparr>InputPricePerToken := usd 5, OutputPricePerToken := usd 25,
        CacheCreationPricePerToken := usd (25 / 4), CacheReadPricePerToken := usd (1 / 2)\<rparr>),
     (''gemini-3.1-pro'', no_pricing\<lparr>InputPricePerToken := usd 2, OutputPricePerToken := usd 12,
        CacheCreationPricePerToken := usd 2, CacheReadPricePerToken := usd (1 / 5)\<rparr>)]"

definition openai_prices :: "(string \<times> ModelPricing) list" where
  "openai_prices =
    [(''gpt-4o'', no_pricing\<lparr>InputPricePerToken := usd (5 / 2), InputPricePerTokenPriority := usd (17 / 4),
        OutputPricePerToken := usd 10, OutputPricePerTokenPriority := usd 17, CacheReadPricePerToken := usd (5 / 4),
        CacheReadPricePerTokenPriority := usd (17 / 8)\<rparr>),
     (''gpt-4o-mini'', no_pricing\<lparr>InputPricePerToken := usd (3 / 20),
        InputPricePerTokenPriority := usd (1 / 4), OutputPricePerToken := usd (3 / 5),
        OutputPricePerTokenPriority := usd 1, CacheReadPricePerToken := usd (3 / 40),
        CacheReadPricePerTokenPriority := usd (1 / 8)\<rparr>),
     (''gpt-4.1'', no_pricing\<lparr>InputPricePerToken := usd 2, InputPricePerTokenPriority := usd (7 / 2),
        OutputPricePerToken := usd 8, OutputPricePerTokenPriority := usd 14, CacheReadPricePerToken := usd (1 / 2),
        CacheReadPricePerTokenPriority := usd (7 / 8)\<rparr>),
     (''gpt-4.1-mini'', no_pricing\<lparr>InputPricePerToken := usd (2 / 5),
        InputPricePerTokenPriority := usd (7 / 10), OutputPricePerToken := usd (8 / 5),
        OutputPricePerTokenPriority := usd (14 / 5), CacheReadPricePerToken := usd (1 / 10),
        CacheReadPricePerTokenPriority := usd (7 / 40)\<rparr>),
     (''gpt-4.1-nano'', no_pricing\<lparr>InputPricePerToken := usd (1 / 10),
        InputPricePerTokenPriority := usd (1 / 5), OutputPricePerToken := usd (2 / 5),
        OutputPricePerTokenPriority := usd (4 / 5), CacheReadPricePerToken := usd (1 / 40),
        CacheReadPricePerTokenPriority := usd (1 / 20)\<rparr>),
     (''o1-preview'', no_pricing\<lparr>InputPricePerToken := usd 15, OutputPricePerToken := usd 60,
        CacheReadPricePerToken := usd (15 / 2)\<rparr>),
     (''o1-mini'', no_pricing\<lparr>InputPricePerToken := usd (11 / 10), OutputPricePerToken := usd (22 / 5),
        CacheReadPricePerToken := usd (11 / 20)\<rparr>),
     (''o1-pro'', no_pricing\<lparr>InputPricePerToken := usd 150, OutputPricePerToken := usd 600\<rparr>),
     (''o3'', no_pricing\<lparr>InputPricePerToken := usd 2, InputPricePerTokenPriority := usd (7 / 2),
        OutputPricePerToken := usd 8, OutputPricePerTokenPriority := usd 14, CacheReadPricePerToken := usd (1 / 2),
        CacheReadPricePerTokenPriority := usd (7 / 8)\<rparr>),
     (''o3-mini'', no_pricing\<lparr>InputPricePerToken := usd (11 / 10), OutputPricePerToken := usd (22 / 5),
        CacheReadPricePerToken := usd (11 / 20)\<rparr>),
     (''o3-pro'', no_pricing\<lparr>InputPricePerToken := usd 20, OutputPricePerToken := usd 80\<rparr>),
     (''o4-mini'', no_pricing\<lparr>InputPricePerToken := usd (11 / 10), InputPricePerTokenPriority := usd 2,
        OutputPricePerToken := usd (22 / 5), OutputPricePerTokenPriority := usd 8,
        CacheReadPricePerToken := usd (11 / 40), CacheReadPricePerTokenPriority := usd (1 / 2)\<rparr>),
     (''gpt-5.1'', no_pricing\<lparr>InputPricePerToken := usd (5 / 4), InputPricePerTokenPriority := usd (5 / 2),
        OutputPricePerToken := usd 10, OutputPricePerTokenPriority := usd 20,
        CacheCreationPricePerToken := usd (5 / 4), CacheReadPricePerToken := usd (1 / 8),
        CacheReadPricePerTokenPriority := usd (1 / 4)\<rparr>),
     (''gpt-5.4'', no_pricing\<lparr>InputPricePerToken := usd (5 / 2), InputPricePerTokenPriority := usd 5,
        OutputPricePerToken := usd 15, OutputPricePerTokenPriority := usd 30,
        CacheCreationPricePerToken := usd (5 / 2), CacheReadPricePerToken := usd (1 / 4),
        CacheReadPricePerTokenPriority := usd (1 / 2), LongContextInputThreshold := 272000,
        LongContextInputMultiplier := 2, LongContextOutputMultiplier := (3 / 2)\<rparr>),
     (''gpt-5.5'', no_pricing\<lparr>InputPricePerToken := usd (5 / 2), InputPricePerTokenPriority := usd 5,
        OutputPricePerToken := usd 15, OutputPricePerTokenPriority := usd 30,
        CacheCreationPricePerToken := usd (5 / 2), CacheReadPricePerToken := usd (1 / 4),
        CacheReadPricePerTokenPriority := usd (1 / 2), LongContextInputThreshold := 272000,
        LongContextInputMultiplier := 2, LongContextOutputMultiplier := (3 / 2)\<rparr>),
     (''gpt-5.5-pro'', no_pricing\<lparr>InputPricePerToken := usd (5 / 2), InputPricePerTokenPriority := usd 5,
        OutputPricePerToken := usd 15, OutputPricePerTokenPriority := usd 30,
        CacheCreationPricePerToken := usd (5 / 2), CacheReadPricePerToken := usd (1 / 4),
        CacheReadPricePerTokenPriority := usd (1 / 2), LongContextInputThreshold := 272000,
        LongContextInputMultiplier := 2, LongContextOutputMultiplier := (3 / 2)\<rparr>),
     (''gpt-5.6-sol'', no_pricing\<lparr>InputPricePerToken := usd (5 / 2), InputPricePerTokenPriority := usd 5,
        OutputPricePerToken := usd 15, OutputPricePerTokenPriority := usd 30,
        CacheCreationPricePerToken := usd (5 / 2), CacheReadPricePerToken := usd (1 / 4),
        CacheReadPricePerTokenPriority := usd (1 / 2), LongContextInputThreshold := 272000,
        LongContextInputMultiplier := 2, LongContextOutputMultiplier := (3 / 2)\<rparr>),
     (''gpt-5.6-terra'', no_pricing\<lparr>InputPricePerToken := usd (5 / 2), InputPricePerTokenPriority := usd 5,
        OutputPricePerToken := usd 15, OutputPricePerTokenPriority := usd 30,
        CacheCreationPricePerToken := usd (5 / 2), CacheReadPricePerToken := usd (1 / 4),
        CacheReadPricePerTokenPriority := usd (1 / 2), LongContextInputThreshold := 272000,
        LongContextInputMultiplier := 2, LongContextOutputMultiplier := (3 / 2)\<rparr>),
     (''gpt-5.6-luna'', no_pricing\<lparr>InputPricePerToken := usd (5 / 2), InputPricePerTokenPriority := usd 5,
        OutputPricePerToken := usd 15, OutputPricePerTokenPriority := usd 30,
        CacheCreationPricePerToken := usd (5 / 2), CacheReadPricePerToken := usd (1 / 4),
        CacheReadPricePerTokenPriority := usd (1 / 2), LongContextInputThreshold := 272000,
        LongContextInputMultiplier := 2, LongContextOutputMultiplier := (3 / 2)\<rparr>),
     (''gpt-5.4-mini'', no_pricing\<lparr>InputPricePerToken := usd (3 / 4), OutputPricePerToken := usd (9 / 2),
        CacheReadPricePerToken := usd (3 / 40)\<rparr>),
     (''gpt-5.4-nano'', no_pricing\<lparr>InputPricePerToken := usd (1 / 5), OutputPricePerToken := usd (5 / 4),
        CacheReadPricePerToken := usd (1 / 50)\<rparr>),
     (''gpt-5.2'', no_pricing\<lparr>InputPricePerToken := usd (7 / 4), InputPricePerTokenPriority := usd (7 / 2),
        OutputPricePerToken := usd 14, OutputPricePerTokenPriority := usd 28,
        CacheCreationPricePerToken := usd (7 / 4), CacheReadPricePerToken := usd (7 / 40),
        CacheReadPricePerTokenPriority := usd (7 / 20)\<rparr>),
     (''gpt-5.3-codex'', no_pricing\<lparr>InputPricePerToken := usd (3 / 2), InputPricePerTokenPriority := usd 3,
        OutputPricePerToken := usd 12, OutputPricePerTokenPriority := usd 24,
        CacheCreationPricePerToken := usd (3 / 2), CacheReadPricePerToken := usd (3 / 20),
        CacheReadPricePerTokenPriority := usd (3 / 10)\<rparr>)]"

definition deepseek_glm_prices :: "(string \<times> ModelPricing) list" where
  "deepseek_glm_prices =
    [(''deepseek-v4-pro'', no_pricing\<lparr>InputPricePerToken := usd (87 / 200),
        OutputPricePerToken := usd (87 / 100), CacheReadPricePerToken := usd (29 / 8000)\<rparr>),
     (''deepseek-v4-flash'', no_pricing\<lparr>InputPricePerToken := usd (7 / 50),
        OutputPricePerToken := usd (7 / 25), CacheReadPricePerToken := usd (7 / 2500)\<rparr>),
     (''glm-5.1'', no_pricing\<lparr>InputPricePerToken := usd (7 / 5), OutputPricePerToken := usd (22 / 5),
        CacheReadPricePerToken := usd (13 / 50)\<rparr>),
     (''glm-5'', no_pricing\<lparr>InputPricePerToken := usd 1, OutputPricePerToken := usd (16 / 5),
        CacheReadPricePerToken := usd (1 / 5)\<rparr>),
     (''glm-5-turbo'', no_pricing\<lparr>InputPricePerToken := usd (6 / 5), OutputPricePerToken := usd 4,
        CacheReadPricePerToken := usd (6 / 25)\<rparr>),
     (''glm-4.7'', no_pricing\<lparr>InputPricePerToken := usd (3 / 5), OutputPricePerToken := usd (11 / 5),
        CacheReadPricePerToken := usd (11 / 100)\<rparr>),
     (''glm-4.7-flashx'', no_pricing\<lparr>InputPricePerToken := usd (7 / 100), OutputPricePerToken := usd (2 / 5),
        CacheReadPricePerToken := usd (1 / 100)\<rparr>),
     (''glm-4.6'', no_pricing\<lparr>InputPricePerToken := usd (3 / 5), OutputPricePerToken := usd (11 / 5),
        CacheReadPricePerToken := usd (11 / 100)\<rparr>),
     (''glm-4.5'', no_pricing\<lparr>InputPricePerToken := usd (3 / 5), OutputPricePerToken := usd (11 / 5),
        CacheReadPricePerToken := usd (11 / 100)\<rparr>),
     (''glm-4.5-x'', no_pricing\<lparr>InputPricePerToken := usd (11 / 5), OutputPricePerToken := usd (89 / 10),
        CacheReadPricePerToken := usd (9 / 20)\<rparr>),
     (''glm-4.5-air'', no_pricing\<lparr>InputPricePerToken := usd (1 / 5), OutputPricePerToken := usd (11 / 10),
        CacheReadPricePerToken := usd (3 / 100)\<rparr>),
     (''glm-4.5-airx'', no_pricing\<lparr>InputPricePerToken := usd (11 / 10), OutputPricePerToken := usd (9 / 2),
        CacheReadPricePerToken := usd (11 / 50)\<rparr>),
     (''glm-4-32b-0414-128k'', no_pricing\<lparr>InputPricePerToken := usd (1 / 10),
        OutputPricePerToken := usd (1 / 10)\<rparr>),
     (''glm-4.5-flash'', no_pricing),
     (''glm-4.7-flash'', no_pricing)]"

definition other_prices :: "(string \<times> ModelPricing) list" where
  "other_prices =
    [(''kimi-k2.6'', no_pricing\<lparr>InputPricePerToken := usd (19 / 20), OutputPricePerToken := usd 4,
        CacheReadPricePerToken := usd (3 / 20)\<rparr>),
     (''kimi-for-coding'', no_pricing\<lparr>InputPricePerToken := usd (19 / 20), OutputPricePerToken := usd 4,
        CacheReadPricePerToken := usd (3 / 20)\<rparr>),
     (''kimi-k2.5'', no_pricing\<lparr>InputPricePerToken := usd (3 / 5), OutputPricePerToken := usd 3,
        CacheReadPricePerToken := usd (49 / 500)\<rparr>),
     (''kimi-k2-thinking'', no_pricing\<lparr>InputPricePerToken := usd (14 / 25),
        OutputPricePerToken := usd (56 / 25), CacheReadPricePerToken := usd (7 / 50)\<rparr>),
     (''kimi-k2'', no_pricing\<lparr>InputPricePerToken := usd (14 / 25), OutputPricePerToken := usd (56 / 25),
        CacheReadPricePerToken := usd (7 / 50)\<rparr>),
     (''minimax-m3'', no_pricing\<lparr>InputPricePerToken := usd (3 / 5), OutputPricePerToken := usd (12 / 5),
        CacheReadPricePerToken := usd (3 / 25)\<rparr>),
     (''minimax-m2.7'', no_pricing\<lparr>InputPricePerToken := usd (3 / 10), OutputPricePerToken := usd (6 / 5),
        CacheReadPricePerToken := usd (3 / 50)\<rparr>),
     (''minimax-m2.7-highspeed'', no_pricing\<lparr>InputPricePerToken := usd (3 / 5),
        OutputPricePerToken := usd (12 / 5), CacheReadPricePerToken := usd (3 / 50)\<rparr>),
     (''minimax-m2.5'', no_pricing\<lparr>InputPricePerToken := usd (3 / 10), OutputPricePerToken := usd (6 / 5),
        CacheReadPricePerToken := usd (3 / 100)\<rparr>),
     (''minimax-m2.1'', no_pricing\<lparr>InputPricePerToken := usd (3 / 10), OutputPricePerToken := usd (6 / 5),
        CacheReadPricePerToken := usd (3 / 100)\<rparr>),
     (''minimax-m2'', no_pricing\<lparr>InputPricePerToken := usd (3 / 10), OutputPricePerToken := usd (6 / 5),
        CacheReadPricePerToken := usd (3 / 100)\<rparr>),
     (''doubao-embedding-vision'', no_pricing\<lparr>InputPricePerToken := usd (49 / 500),
        ImageInputPricePerToken := usd (63 / 250)\<rparr>),
     (''grok-4.5'', no_pricing\<lparr>InputPricePerToken := usd 2, OutputPricePerToken := usd 6,
        CacheReadPricePerToken := usd (1 / 2)\<rparr>),
     (''grok-4.3'', no_pricing\<lparr>InputPricePerToken := usd (5 / 4), OutputPricePerToken := usd (5 / 2),
        LongContextInputThreshold := 1000000, LongContextInputMultiplier := 1\<rparr>),
     (''grok-build-0.1'', no_pricing\<lparr>InputPricePerToken := usd 1, OutputPricePerToken := usd 2\<rparr>)]"

definition fallbackPrices :: "(string \<times> ModelPricing) list" where
  "fallbackPrices = claude_gemini_prices @ openai_prices @ deepseek_glm_prices @ other_prices"

text \<open>The first rule with a part that occurs in the name gives the key; \<open>getFallbackPricing\<close> tries the Claude
  families, then these, then the OpenAI names.\<close>

definition matching_rule :: "(string list \<times> string) list \<Rightarrow> string \<Rightarrow> string option" where
  "matching_rule rules m = map_option snd (find (\<lambda>(parts, _). \<exists>p \<in> set parts. contains m p) rules)"

definition vendor_rules :: "(string list \<times> string) list" where
  "vendor_rules =
     [([''gemini-3.1-pro'', ''gemini-3-1-pro''], ''gemini-3.1-pro''),
      ([''deepseek-v4-flash''], ''deepseek-v4-flash''), ([''deepseek-v4-pro''], ''deepseek-v4-pro''),
      ([''deepseek-chat'', ''deepseek-reasoner''], ''deepseek-v4-flash''),
      ([''glm-5.1''], ''glm-5.1''), ([''glm-5-turbo'', ''glm-5turbo''], ''glm-5-turbo''), ([''glm-5''], ''glm-5''),
      ([''glm-4.7-flashx''], ''glm-4.7-flashx''), ([''glm-4.7-flash''], ''glm-4.7-flash''), ([''glm-4.7''], ''glm-4.7''),
      ([''glm-4.6''], ''glm-4.6''), ([''glm-4.5-flash''], ''glm-4.5-flash''), ([''glm-4.5-x'', ''glm-4.5x''], ''glm-4.5-x''),
      ([''glm-4.5-airx'', ''glm-4.5airx''], ''glm-4.5-airx''), ([''glm-4.5-air'', ''glm-4.5air''], ''glm-4.5-air''),
      ([''glm-4.5''], ''glm-4.5''), ([''glm-4-32b''], ''glm-4-32b-0414-128k''),
      ([''kimi-for-coding''], ''kimi-for-coding''), ([''kimi-k2.6'', ''kimi-k2-6''], ''kimi-k2.6''),
      ([''kimi-k2.5'', ''kimi-k2-5''], ''kimi-k2.5''), ([''kimi-k2-thinking'', ''kimi-k2-thinking-''], ''kimi-k2-thinking''),
      ([''kimi-k2'', ''kimi/k2''], ''kimi-k2''), ([''minimax-m3''], ''minimax-m3''),
      ([''minimax-m2.7-highspeed'', ''minimax-m2-7-highspeed''], ''minimax-m2.7-highspeed''),
      ([''minimax-m2.7'', ''minimax-m2-7''], ''minimax-m2.7''), ([''minimax-m2.5'', ''minimax-m2-5''], ''minimax-m2.5''),
      ([''minimax-m2.1'', ''minimax-m2-1''], ''minimax-m2.1''), ([''minimax-m2'', ''minimax-m-2''], ''minimax-m2''),
      ([''doubao-embedding-vision''], ''doubao-embedding-vision'')]"

definition claude_fallback_key :: "string \<Rightarrow> string option" where
  "claude_fallback_key m =
     (if contains m ''opus'' then
        (if contains m ''4.7'' \<or> contains m ''4-7'' then Some ''claude-opus-4.7''
         else if contains m ''4.6'' \<or> contains m ''4-6'' then Some ''claude-opus-4.6''
         else if contains m ''4.5'' \<or> contains m ''4-5'' then Some ''claude-opus-4.5''
         else Some ''claude-3-opus'')
      else if contains m ''sonnet'' then
        (if contains m ''4'' \<and> \<not> contains m ''3'' then Some ''claude-sonnet-4'' else Some ''claude-3-5-sonnet'')
      else if contains m ''haiku'' then
        (if contains m ''3-5'' \<or> contains m ''3.5'' then Some ''claude-3-5-haiku'' else Some ''claude-3-haiku'')
      else if contains m ''claude'' then Some ''claude-sonnet-4''
      else None)"

definition codex_fallback_key :: "string \<Rightarrow> string option" where
  "codex_fallback_key m =
     (let normalized = normalizeKnownOpenAICodexModel m in
      if normalized \<in> set [''gpt-5.6-sol'', ''gpt-5.6-terra'', ''gpt-5.6-luna'', ''gpt-5.5-pro'', ''gpt-5.5'', ''gpt-5.4-mini'',
           ''gpt-5.4-nano'', ''gpt-5.4'', ''gpt-5.2'']
      then Some normalized
      else if normalized = ''gpt-5.3-codex'' \<or> normalized = ''gpt-5.3-codex-spark'' then Some ''gpt-5.3-codex''
      else None)"

definition openai_fallback_key :: "string \<Rightarrow> string option" where
  "openai_fallback_key m =
     (if contains m ''gpt-4o-mini'' then Some ''gpt-4o-mini''
      else if contains m ''gpt-4o'' \<or> contains m ''chatgpt-4o-latest'' then Some ''gpt-4o''
      else if contains m ''gpt-4.1-mini'' then Some ''gpt-4.1-mini''
      else if contains m ''gpt-4.1-nano'' then Some ''gpt-4.1-nano''
      else if contains m ''gpt-4.1'' then Some ''gpt-4.1''
      else if contains m ''o1-pro'' then Some ''o1-pro''
      else if contains m ''o1-mini'' then Some ''o1-mini''
      else if contains m ''o1-preview'' \<or> m = ''o1'' then Some ''o1-preview''
      else if contains m ''o3-pro'' then Some ''o3-pro''
      else if contains m ''o3-mini'' then Some ''o3-mini''
      else if has_prefix m ''o3'' then Some ''o3''
      else if contains m ''o4-mini'' then Some ''o4-mini''
      else if m \<in> set [''grok'', ''grok-latest'', ''grok-4.5'', ''grok-4.5-latest'', ''grok-build-latest''] then Some ''grok-4.5''
      else if m = ''grok-4.3'' then Some ''grok-4.3''
      else if m \<in> set [''grok-build'', ''grok-build-0.1''] then Some ''grok-build-0.1''
      else None)"

definition or_else :: "'a option \<Rightarrow> 'a option \<Rightarrow> 'a option" where
  "or_else x y = (case x of Some a \<Rightarrow> Some a | None \<Rightarrow> y)"

definition fallback_key :: "string \<Rightarrow> string option" where
  "fallback_key m =
     or_else (claude_fallback_key m) (or_else (matching_rule vendor_rules m)
       (or_else (codex_fallback_key m) (openai_fallback_key m)))"

definition getFallbackPricing :: "string \<Rightarrow> ModelPricing option" where
  "getFallbackPricing model = Option.bind (fallback_key (to_lower model)) (map_of fallbackPrices)"

section \<open>Downloaded prices\<close>

record LiteLLMRawEntry =
  raw_InputCostPerToken :: "float64 option"
  raw_InputCostPerTokenPriority :: "float64 option"
  raw_OutputCostPerToken :: "float64 option"
  raw_OutputCostPerTokenPriority :: "float64 option"
  raw_CacheCreationInputTokenCost :: "float64 option"
  raw_CacheCreationInputTokenCostAbove1hr :: "float64 option"
  raw_CacheReadInputTokenCost :: "float64 option"
  raw_CacheReadInputTokenCostPriority :: "float64 option"
  raw_OutputCostPerImage :: "float64 option"
  raw_OutputCostPerImageToken :: "float64 option"

record LiteLLMModelPricing =
  InputCostPerToken :: float64
  InputCostPerTokenPriority :: float64
  OutputCostPerToken :: float64
  OutputCostPerTokenPriority :: float64
  CacheCreationInputTokenCost :: float64
  CacheCreationInputTokenCostAbove1hr :: float64
  CacheReadInputTokenCost :: float64
  CacheReadInputTokenCostPriority :: float64
  LongContextInputTokenThreshold :: int
  LongContextInputCostMultiplier :: float64
  LongContextOutputCostMultiplier :: float64
  OutputCostPerImage :: float64
  OutputCostPerImageToken :: float64
  TokenPricingAbsent :: bool

definition given :: "float64 option \<Rightarrow> float64" where
  "given x = (case x of Some v \<Rightarrow> v | None \<Rightarrow> 0)"

definition parse_entry :: "LiteLLMRawEntry \<Rightarrow> LiteLLMModelPricing option" where
  "parse_entry e =
     (if raw_InputCostPerToken e = None \<and> raw_OutputCostPerToken e = None
         \<and> raw_OutputCostPerImage e = None \<and> raw_OutputCostPerImageToken e = None
      then None
      else Some \<lparr>InputCostPerToken = given (raw_InputCostPerToken e),
        InputCostPerTokenPriority = given (raw_InputCostPerTokenPriority e),
        OutputCostPerToken = given (raw_OutputCostPerToken e),
        OutputCostPerTokenPriority = given (raw_OutputCostPerTokenPriority e),
        CacheCreationInputTokenCost = given (raw_CacheCreationInputTokenCost e),
        CacheCreationInputTokenCostAbove1hr = given (raw_CacheCreationInputTokenCostAbove1hr e),
        CacheReadInputTokenCost = given (raw_CacheReadInputTokenCost e),
        CacheReadInputTokenCostPriority = given (raw_CacheReadInputTokenCostPriority e),
        LongContextInputTokenThreshold = 0, LongContextInputCostMultiplier = 0, LongContextOutputCostMultiplier = 0,
        OutputCostPerImage = given (raw_OutputCostPerImage e),
        OutputCostPerImageToken = given (raw_OutputCostPerImageToken e),
        TokenPricingAbsent = (raw_InputCostPerToken e = None \<and> raw_OutputCostPerToken e = None)\<rparr>)"

type_synonym pricing_data = "(string \<times> LiteLLMModelPricing) list"

text \<open>The entries as the JSON decoder delivers them; an entry it cannot decode is \<^const>\<open>None\<close> and is
  skipped. No entry at all is an error.\<close>

definition parsePricingData :: "(string \<times> LiteLLMRawEntry option) list \<Rightarrow> pricing_data option" where
  "parsePricingData rawData =
     (let result = List.map_filter (\<lambda>(name, raw).
            if name = ''sample_spec'' then None
            else map_option (\<lambda>p. (name, p)) (Option.bind raw parse_entry)) rawData
      in if result = [] then None else Some result)"

definition no_litellm :: LiteLLMModelPricing where
  "no_litellm = \<lparr>InputCostPerToken = 0, InputCostPerTokenPriority = 0, OutputCostPerToken = 0,
     OutputCostPerTokenPriority = 0, CacheCreationInputTokenCost = 0, CacheCreationInputTokenCostAbove1hr = 0,
     CacheReadInputTokenCost = 0, CacheReadInputTokenCostPriority = 0, LongContextInputTokenThreshold = 0,
     LongContextInputCostMultiplier = 0, LongContextOutputCostMultiplier = 0, OutputCostPerImage = 0,
     OutputCostPerImageToken = 0, TokenPricingAbsent = False\<rparr>"

definition openAIGPT54FallbackPricing :: LiteLLMModelPricing where
  "openAIGPT54FallbackPricing = no_litellm\<lparr>InputCostPerToken := usd (5 / 2), OutputCostPerToken := usd 15,
     CacheReadInputTokenCost := usd (1 / 4), LongContextInputTokenThreshold := 272000,
     LongContextInputCostMultiplier := 2, LongContextOutputCostMultiplier := 3 / 2\<rparr>"

definition openAIGPT54MiniFallbackPricing :: LiteLLMModelPricing where
  "openAIGPT54MiniFallbackPricing = no_litellm\<lparr>InputCostPerToken := usd (3 / 4), OutputCostPerToken := usd (9 / 2),
     CacheReadInputTokenCost := usd (3 / 40)\<rparr>"

definition openAIGPT54NanoFallbackPricing :: LiteLLMModelPricing where
  "openAIGPT54NanoFallbackPricing = no_litellm\<lparr>InputCostPerToken := usd (1 / 5), OutputCostPerToken := usd (5 / 4),
     CacheReadInputTokenCost := usd (1 / 50)\<rparr>"

section \<open>Looking a price up in the downloaded data\<close>

definition is_digit :: "char \<Rightarrow> bool" where "is_digit c \<longleftrightarrow> 48 \<le> byte_of c \<and> byte_of c \<le> 57"

definition isNumeric :: "string \<Rightarrow> bool" where "isNumeric s \<longleftrightarrow> list_all is_digit s"

definition lastSegment :: "string \<Rightarrow> string" where "lastSegment model = last (split_char slash model)"

definition google_models :: string where "google_models = ''publishers/google/models/''"

definition normalizeModelNameForPricing :: "string \<Rightarrow> string" where
  "normalizeModelNameForPricing model0 =
     (let m1 = dropWhile (\<lambda>c. c = slash) (trim_space model0);
          m2 = trim_prefix (trim_prefix m1 ''models/'') google_models;
          m3 = (case after_last (slash # google_models) m2 of Some r \<Rightarrow> r | None \<Rightarrow> m2);
          m4 = (case after_last ''/models/'' m3 of Some r \<Rightarrow> r | None \<Rightarrow> m3);
          m5 = dropWhile (\<lambda>c. c = slash) m4;
          canonical = canonicalizeOpenAIModelAliasSpelling m5
      in if canonical \<noteq> [] then canonical else m5)"

text \<open>The candidates without blanks and repetitions; never empty.\<close>

definition add_lookup :: "string \<Rightarrow> string list \<Rightarrow> string list" where
  "add_lookup c0 out = (let c = trim_space c0 in if c = [] \<or> c \<in> set out then out else out @ [c])"

definition buildModelLookupCandidates :: "string \<Rightarrow> string list" where
  "buildModelLookupCandidates modelLower =
     (let out = fold add_lookup
            [normalizeModelNameForPricing modelLower, modelLower, trim_prefix modelLower ''models/'',
             lastSegment modelLower, lastSegment (trim_prefix modelLower ''models/'')] []
      in if out = [] then [modelLower] else out)"

definition extractBaseName :: "string \<Rightarrow> string" where
  "extractBaseName model =
     join_with ''-'' (filter (\<lambda>part. \<not> (length part = 8 \<and> isNumeric part) \<and> \<not> contains part '':'')
       (split_char (CHR ''-'') model))"

record modelFamily =
  mf_name :: string
  mf_match :: "string list"
  mf_pricing :: "string list"

text \<open>A family without price patterns of its own uses its match patterns.\<close>

definition family :: "string \<Rightarrow> string list \<Rightarrow> modelFamily" where
  "family name patterns = \<lparr>mf_name = name, mf_match = patterns, mf_pricing = patterns\<rparr>"

definition families :: "modelFamily list" where
  "families =
     [\<lparr>mf_name = ''opus-4.7'', mf_match = [''claude-opus-4-7'', ''claude-opus-4.7''],
       mf_pricing = [''claude-opus-4-7'', ''claude-opus-4.7'', ''claude-opus-4-6'']\<rparr>,
      family ''opus-4.6'' [''claude-opus-4-6'', ''claude-opus-4.6''],
      family ''opus-4.5'' [''claude-opus-4-5'', ''claude-opus-4.5''],
      family ''opus-4'' [''claude-opus-4'', ''claude-3-opus''],
      family ''sonnet-4.5'' [''claude-sonnet-4-5'', ''claude-sonnet-4.5''],
      family ''sonnet-4'' [''claude-sonnet-4'', ''claude-3-5-sonnet''],
      family ''sonnet-3.5'' [''claude-3-5-sonnet'', ''claude-3.5-sonnet''],
      family ''sonnet-3'' [''claude-3-sonnet''],
      family ''haiku-3.5'' [''claude-3-5-haiku'', ''claude-3.5-haiku''],
      family ''haiku-3'' [''claude-3-haiku'']]"

definition family_fallback :: "string \<Rightarrow> string option" where
  "family_fallback m =
     (if contains m ''opus'' then
        Some (if contains m ''4.7'' \<or> contains m ''4-7'' then ''opus-4.7''
              else if contains m ''4.6'' \<or> contains m ''4-6'' then ''opus-4.6''
              else if contains m ''4.5'' \<or> contains m ''4-5'' then ''opus-4.5'' else ''opus-4'')
      else if contains m ''sonnet'' then
        Some (if contains m ''4.5'' \<or> contains m ''4-5'' then ''sonnet-4.5''
              else if contains m ''3-5'' \<or> contains m ''3.5'' then ''sonnet-3.5'' else ''sonnet-4'')
      else if contains m ''haiku'' then
        Some (if contains m ''3-5'' \<or> contains m ''3.5'' then ''haiku-3.5'' else ''haiku-3'')
      else None)"

definition family_of :: "string \<Rightarrow> modelFamily option" where
  "family_of m =
     or_else (find (\<lambda>f. \<exists>p \<in> set (mf_match f). contains m p \<or> contains m (replace_all ''-'' [] p)) families)
       (Option.bind (family_fallback m) (\<lambda>name. find (\<lambda>f. mf_name f = name) families))"

fun first_price :: "pricing_data \<Rightarrow> string list \<Rightarrow> LiteLLMModelPricing option" where
  "first_price data [] = None"
| "first_price data (pattern # ps) =
     (case find (\<lambda>(key, _). contains (to_lower key) pattern) data of
        Some (_, pricing) \<Rightarrow> Some pricing
      | None \<Rightarrow> first_price data ps)"

definition matchByModelFamily :: "pricing_data \<Rightarrow> string \<Rightarrow> LiteLLMModelPricing option" where
  "matchByModelFamily data model =
     (case family_of model of None \<Rightarrow> None | Some f \<Rightarrow> first_price data (mf_pricing f))"

text \<open>The two regular expressions, \<open>-\d{8}$\<close> and \<open>^(gpt-\d+(?:\.\d+)?)(?:-|$)\<close>.\<close>

definition strip_date :: "string \<Rightarrow> string" where
  "strip_date s =
     (let n = length s - 9; tl9 = drop n s
      in if 9 \<le> length s \<and> hd tl9 = CHR ''-'' \<and> isNumeric (tl tl9) then take n s else s)"

definition ends_base :: "string \<Rightarrow> bool" where "ends_base rest \<longleftrightarrow> rest = [] \<or> hd rest = CHR ''-''"

definition base_version :: "string \<Rightarrow> string option" where
  "base_version s =
     (if \<not> has_prefix s ''gpt-'' then None
      else
        let major = takeWhile is_digit (drop 4 s); rest = dropWhile is_digit (drop 4 s) in
        if major = [] then None
        else if ends_base rest then Some (''gpt-'' @ major)
        else if hd rest = CHR ''.'' then
          (let minor = takeWhile is_digit (tl rest) in
           if minor \<noteq> [] \<and> ends_base (dropWhile is_digit (tl rest)) then Some (''gpt-'' @ major @ ''.'' @ minor)
           else None)
        else None)"

definition add_variant :: "string \<Rightarrow> string option \<Rightarrow> string list \<Rightarrow> string list" where
  "add_variant model v variants =
     (case v of None \<Rightarrow> variants
      | Some x \<Rightarrow> if x \<noteq> model \<and> x \<notin> set variants then variants @ [x] else variants)"

definition generateOpenAIModelVariants :: "string \<Rightarrow> string list" where
  "generateOpenAIModelVariants model =
     (let withoutDate = strip_date model;
          v1 = (if withoutDate \<noteq> model then add_variant model (Some withoutDate) [] else []);
          v2 = add_variant model (base_version model) v1
      in if withoutDate \<noteq> model then add_variant model (base_version withoutDate) v2 else v2)"

definition isGrokImageGenerationModel :: "string \<Rightarrow> bool" where
  "isGrokImageGenerationModel model0 =
     (let model = to_lower (trim_space model0)
      in model = ''grok-imagine'' \<or> model = ''grok-imagine-edit'' \<or> has_prefix model ''grok-imagine-image'')"

definition isOpenAIImageGenerationModel :: "string \<Rightarrow> bool" where
  "isOpenAIImageGenerationModel model0 =
     (let model = to_lower (trim_space model0)
      in has_prefix model ''gpt-image-'' \<or> isGrokImageGenerationModel model)"

definition DefaultTestModel :: string where "DefaultTestModel = ''gpt-5.4''"

fun first_key :: "pricing_data \<Rightarrow> string list \<Rightarrow> LiteLLMModelPricing option" where
  "first_key data [] = None"
| "first_key data (k # ks) = (case map_of data k of Some p \<Rightarrow> Some p | None \<Rightarrow> first_key data ks)"

definition static_gpt5_price :: "string \<Rightarrow> LiteLLMModelPricing option" where
  "static_gpt5_price model =
     (if has_prefix model ''gpt-5.6'' then Some openAIGPT54FallbackPricing
      else if has_prefix model ''gpt-5.5'' then Some openAIGPT54FallbackPricing
      else if has_prefix model ''gpt-5.4-mini'' then Some openAIGPT54MiniFallbackPricing
      else if has_prefix model ''gpt-5.4-nano'' then Some openAIGPT54NanoFallbackPricing
      else if has_prefix model ''gpt-5.4'' then Some openAIGPT54FallbackPricing
      else None)"

definition matchOpenAIModel :: "pricing_data \<Rightarrow> string \<Rightarrow> LiteLLMModelPricing option" where
  "matchOpenAIModel data model =
     or_else (if has_prefix model ''gpt-5.3-codex-spark'' then map_of data ''gpt-5.1-codex'' else None)
     (or_else (first_key data (generateOpenAIModelVariants model))
     (or_else (if has_prefix model ''gpt-5.3-codex'' then map_of data ''gpt-5.2-codex'' else None)
     (or_else (static_gpt5_price model)
       (if isOpenAIImageGenerationModel model then first_key data [''gpt-image-2'', ''gpt-image-1.5'', ''gpt-image-1'']
        else map_of data (to_lower DefaultTestModel)))))"

definition pricing_GetModelPricing :: "pricing_data \<Rightarrow> string \<Rightarrow> LiteLLMModelPricing option" where
  "pricing_GetModelPricing data modelName =
     (if modelName = [] then None
      else
        let modelLower = to_lower (trim_space modelName);
            candidates = buildModelLookupCandidates modelLower;
            first = hd candidates
        in or_else (first_key data (filter (\<lambda>c. c \<noteq> []) candidates))
          (or_else (first_key data (map (replace_all ''-4-5-'' ''-4.5-'') candidates))
          (or_else (map_option snd (find (\<lambda>(key, _). extractBaseName (to_lower key) = extractBaseName first) data))
          (or_else (matchByModelFamily data first)
            (if has_prefix first ''gpt-'' then matchOpenAIModel data first else None)))))"

section \<open>The price of a model\<close>

definition openAIGPT54LongContextInputThreshold :: int where "openAIGPT54LongContextInputThreshold = 272000"
definition openAIGPT54LongContextInputMultiplier :: float64 where "openAIGPT54LongContextInputMultiplier = 2"
definition openAIGPT54LongContextOutputMultiplier :: float64 where "openAIGPT54LongContextOutputMultiplier = 3 / 2"

definition isOpenAIGPT54Model :: "string \<Rightarrow> bool" where
  "isOpenAIGPT54Model model \<longleftrightarrow> normalizeKnownOpenAICodexModel model \<in>
     set [''gpt-5.4'', ''gpt-5.5'', ''gpt-5.5-pro'', ''gpt-5.6-sol'', ''gpt-5.6-terra'', ''gpt-5.6-luna'']"

definition applyModelSpecificPricingPolicy :: "string \<Rightarrow> ModelPricing \<Rightarrow> ModelPricing" where
  "applyModelSpecificPricingPolicy model pricing =
     (if \<not> isOpenAIGPT54Model model then pricing
      else if 0 < LongContextInputThreshold pricing \<and> 0 < LongContextInputMultiplier pricing
          \<and> 0 < LongContextOutputMultiplier pricing then pricing
      else pricing
        \<lparr>LongContextInputThreshold := (if LongContextInputThreshold pricing \<le> 0 then openAIGPT54LongContextInputThreshold
            else LongContextInputThreshold pricing),
         LongContextInputMultiplier := (if LongContextInputMultiplier pricing \<le> 0 then openAIGPT54LongContextInputMultiplier
            else LongContextInputMultiplier pricing),
         LongContextOutputMultiplier := (if LongContextOutputMultiplier pricing \<le> 0 then openAIGPT54LongContextOutputMultiplier
            else LongContextOutputMultiplier pricing)\<rparr>)"

definition litellm_to_pricing :: "LiteLLMModelPricing \<Rightarrow> ModelPricing" where
  "litellm_to_pricing p =
     (let price5m = CacheCreationInputTokenCost p; price1h = CacheCreationInputTokenCostAbove1hr p
      in \<lparr>InputPricePerToken = InputCostPerToken p, InputPricePerTokenPriority = InputCostPerTokenPriority p,
         ImageInputPricePerToken = 0, OutputPricePerToken = OutputCostPerToken p,
         OutputPricePerTokenPriority = OutputCostPerTokenPriority p,
         CacheCreationPricePerToken = CacheCreationInputTokenCost p,
         CacheReadPricePerToken = CacheReadInputTokenCost p,
         CacheReadPricePerTokenPriority = CacheReadInputTokenCostPriority p,
         CacheCreation5mPrice = price5m, CacheCreation1hPrice = price1h,
         SupportsCacheBreakdown = (0 < price1h \<and> price5m < price1h),
         LongContextInputThreshold = LongContextInputTokenThreshold p,
         LongContextInputMultiplier = LongContextInputCostMultiplier p,
         LongContextOutputMultiplier = LongContextOutputCostMultiplier p,
         ImageOutputPricePerToken = OutputCostPerImageToken p, ImageOutputPriceExplicit = False\<rparr>)"

text \<open>The data of the price service, if there is one, first; an entry with image prices only does not
  count. Then the built-in prices.\<close>

definition billing_GetModelPricing :: "pricing_data option \<Rightarrow> string \<Rightarrow> ModelPricing option" where
  "billing_GetModelPricing svc model0 =
     (let model = to_lower model0 in
      case Option.bind svc (\<lambda>data. pricing_GetModelPricing data model) of
        Some p \<Rightarrow>
          if TokenPricingAbsent p
          then map_option (applyModelSpecificPricingPolicy model) (getFallbackPricing model)
          else Some (applyModelSpecificPricingPolicy model (litellm_to_pricing p))
      | None \<Rightarrow> map_option (applyModelSpecificPricingPolicy model) (getFallbackPricing model))"

end
