(* ===== verification/BillingCost.thy ===== *)
theory BillingCost
  imports BillingPrices ChannelPricing ImageBilling
begin

text \<open>
  What a request costs: prices after the channel's overrides (\<open>service/model_pricing_resolver.go\<close>) and
  the cost by token, by request, by image and by second of video (\<open>service/billing_service.go\<close>). Token
  counts are integers, far below \<open>2 ^ 63\<close>; every floating-point operation is rounded on its own, as
  on amd64 (no fused multiply-add). The price of the model in the group's channel, which the channel
  service looks up, is an input.
\<close>

section \<open>Channel prices over model prices\<close>

definition over :: "float64 option \<Rightarrow> float64 \<Rightarrow> float64" where
  "over x y = (case x of Some v \<Rightarrow> v | None \<Rightarrow> y)"

text \<open>The flat prices of a channel; an image price that is not set is 0, not the model's.\<close>

definition override_image_price :: "ChannelModelPricing \<Rightarrow> ModelPricing \<Rightarrow> ModelPricing" where
  "override_image_price ch p =
     p\<lparr>ImageOutputPricePerToken := over (cp_ImageOutputPrice ch) 0, ImageOutputPriceExplicit := True\<rparr>"

definition override_flat_prices :: "ChannelModelPricing \<Rightarrow> ModelPricing \<Rightarrow> ModelPricing" where
  "override_flat_prices ch p =
     override_image_price ch (p
       \<lparr>InputPricePerToken := over (cp_InputPrice ch) (InputPricePerToken p),
        InputPricePerTokenPriority := over (cp_InputPrice ch) (InputPricePerTokenPriority p),
        OutputPricePerToken := over (cp_OutputPrice ch) (OutputPricePerToken p),
        OutputPricePerTokenPriority := over (cp_OutputPrice ch) (OutputPricePerTokenPriority p),
        CacheCreationPricePerToken := over (cp_CacheWritePrice ch) (CacheCreationPricePerToken p),
        CacheCreation5mPrice := over (cp_CacheWritePrice ch) (CacheCreation5mPrice p),
        CacheCreation1hPrice := over (cp_CacheWritePrice ch) (CacheCreation1hPrice p),
        CacheReadPricePerToken := over (cp_CacheReadPrice ch) (CacheReadPricePerToken p),
        CacheReadPricePerTokenPriority := over (cp_CacheReadPrice ch) (CacheReadPricePerTokenPriority p)\<rparr>)"

definition GetModelPricingWithChannel ::
  "pricing_data option \<Rightarrow> string \<Rightarrow> ChannelModelPricing option \<Rightarrow> ModelPricing option" where
  "GetModelPricingWithChannel svc model channelPricing =
     (case billing_GetModelPricing svc model of
        None \<Rightarrow> None
      | Some pricing \<Rightarrow>
          (case channelPricing of None \<Rightarrow> Some pricing | Some ch \<Rightarrow> Some (override_flat_prices ch pricing)))"

datatype PricingSource = PricingSourceChannel | PricingSourceLiteLLM | PricingSourceFallback

record ResolvedPricing =
  rp_Mode :: BillingMode
  BasePricing :: "ModelPricing option"
  Intervals :: "PricingInterval list"
  RequestTiers :: "PricingInterval list"
  DefaultPerRequestPrice :: float64
  rp_Source :: PricingSource
  rp_SupportsCacheBreakdown :: bool
  channelPricing :: "ChannelModelPricing option"

definition filterValidIntervals :: "PricingInterval list \<Rightarrow> PricingInterval list" where
  "filterValidIntervals = filter (\<lambda>iv. pi_InputPrice iv \<noteq> None \<or> pi_OutputPrice iv \<noteq> None
     \<or> pi_CacheWritePrice iv \<noteq> None \<or> pi_CacheReadPrice iv \<noteq> None \<or> pi_PerRequestPrice iv \<noteq> None)"

definition applyTokenOverrides :: "ChannelModelPricing \<Rightarrow> ResolvedPricing \<Rightarrow> ResolvedPricing" where
  "applyTokenOverrides ch resolved =
     (let validIntervals = filterValidIntervals (cp_Intervals ch);
          base = (case BasePricing resolved of None \<Rightarrow> no_pricing | Some p \<Rightarrow> p)
      in if validIntervals \<noteq> []
         then resolved\<lparr>Intervals := validIntervals, BasePricing := Some (override_image_price ch base)\<rparr>
         else resolved\<lparr>BasePricing := Some (override_flat_prices ch base)\<rparr>)"

definition applyRequestTierOverrides :: "ChannelModelPricing \<Rightarrow> ResolvedPricing \<Rightarrow> ResolvedPricing" where
  "applyRequestTierOverrides ch resolved =
     resolved\<lparr>RequestTiers := filterValidIntervals (cp_Intervals ch),
              DefaultPerRequestPrice := over (cp_PerRequestPrice ch) (DefaultPerRequestPrice resolved)\<rparr>"

definition mode_or_token :: "BillingMode \<Rightarrow> BillingMode" where
  "mode_or_token m = (if m = BillingModeEmpty then BillingModeToken else m)"

definition per_request_mode :: "BillingMode \<Rightarrow> bool" where
  "per_request_mode m \<longleftrightarrow> m = BillingModePerRequest \<or> m = BillingModeImage"

definition applyChannelOverrides :: "ChannelModelPricing option \<Rightarrow> ResolvedPricing \<Rightarrow> ResolvedPricing" where
  "applyChannelOverrides chPricing resolved =
     (case chPricing of
        None \<Rightarrow> resolved
      | Some ch \<Rightarrow>
          let mode = mode_or_token (cp_BillingMode ch);
              r = resolved\<lparr>rp_Source := PricingSourceChannel, channelPricing := Some ch, rp_Mode := mode\<rparr>
          in if mode = BillingModeToken then applyTokenOverrides ch r
             else if per_request_mode mode then applyRequestTierOverrides ch r
             else r)"

definition resolveBasePricing :: "pricing_data option \<Rightarrow> string \<Rightarrow> ModelPricing option \<times> PricingSource" where
  "resolveBasePricing svc model =
     (case billing_GetModelPricing svc model of
        None \<Rightarrow> (None, PricingSourceFallback)
      | Some p \<Rightarrow> (Some p, PricingSourceLiteLLM))"

definition blank_pricing :: ResolvedPricing where
  "blank_pricing = \<lparr>rp_Mode = BillingModeToken, BasePricing = None, Intervals = [], RequestTiers = [],
     DefaultPerRequestPrice = 0, rp_Source = PricingSourceChannel, rp_SupportsCacheBreakdown = False, channelPricing = None\<rparr>"

text \<open>The channel price is looked up at the start and, when there is none and the request belongs to a
  group, once more at the end: \<open>found\<close> and \<open>found_later\<close> are the two answers, both \<^const>\<open>None\<close> for a
  request without a group.\<close>

definition Resolve ::
  "pricing_data option \<Rightarrow> ChannelModelPricing option \<Rightarrow> ChannelModelPricing option \<Rightarrow> string \<Rightarrow> ResolvedPricing" where
  "Resolve svc found found_later model =
     (let token_path = (case resolveBasePricing svc model of (basePricing, source) \<Rightarrow>
            blank_pricing\<lparr>BasePricing := basePricing, rp_Source := source,
              rp_SupportsCacheBreakdown := (case basePricing of None \<Rightarrow> False | Some p \<Rightarrow> SupportsCacheBreakdown p)\<rparr>)
      in case found of
           Some ch \<Rightarrow>
             let mode = mode_or_token (cp_BillingMode ch) in
             if per_request_mode mode
             then applyRequestTierOverrides ch (blank_pricing\<lparr>rp_Mode := mode, channelPricing := Some ch\<rparr>)
             else applyTokenOverrides ch (token_path\<lparr>rp_Source := PricingSourceChannel, channelPricing := Some ch\<rparr>)
         | None \<Rightarrow> applyChannelOverrides found_later token_path)"

definition intervalToModelPricing :: "PricingInterval \<Rightarrow> bool \<Rightarrow> ChannelModelPricing option \<Rightarrow> ModelPricing" where
  "intervalToModelPricing iv supportsCacheBreakdown chPricing =
     (let p = no_pricing
            \<lparr>SupportsCacheBreakdown := supportsCacheBreakdown,
             InputPricePerToken := over (pi_InputPrice iv) 0, InputPricePerTokenPriority := over (pi_InputPrice iv) 0,
             OutputPricePerToken := over (pi_OutputPrice iv) 0, OutputPricePerTokenPriority := over (pi_OutputPrice iv) 0,
             CacheCreationPricePerToken := over (pi_CacheWritePrice iv) 0,
             CacheCreation5mPrice := over (pi_CacheWritePrice iv) 0, CacheCreation1hPrice := over (pi_CacheWritePrice iv) 0,
             CacheReadPricePerToken := over (pi_CacheReadPrice iv) 0,
             CacheReadPricePerTokenPriority := over (pi_CacheReadPrice iv) 0\<rparr>
      in case chPricing of None \<Rightarrow> p | Some ch \<Rightarrow> override_image_price ch p)"

definition GetIntervalPricing :: "ResolvedPricing \<Rightarrow> int \<Rightarrow> ModelPricing option" where
  "GetIntervalPricing resolved totalContextTokens =
     (if Intervals resolved = [] then BasePricing resolved
      else (case FindMatchingInterval (Intervals resolved) totalContextTokens of
              None \<Rightarrow> BasePricing resolved
            | Some iv \<Rightarrow> Some (intervalToModelPricing iv (rp_SupportsCacheBreakdown resolved) (channelPricing resolved))))"

definition GetRequestTierPrice :: "ResolvedPricing \<Rightarrow> string \<Rightarrow> float64" where
  "GetRequestTierPrice resolved tierLabel =
     (case find (\<lambda>tier. TierLabel tier = tierLabel \<and> pi_PerRequestPrice tier \<noteq> None) (RequestTiers resolved) of
        None \<Rightarrow> 0 | Some tier \<Rightarrow> over (pi_PerRequestPrice tier) 0)"

definition GetRequestTierPriceByContext :: "ResolvedPricing \<Rightarrow> int \<Rightarrow> float64" where
  "GetRequestTierPriceByContext resolved totalContextTokens =
     (case FindMatchingInterval (RequestTiers resolved) totalContextTokens of
        None \<Rightarrow> 0 | Some iv \<Rightarrow> over (pi_PerRequestPrice iv) 0)"

section \<open>Costs by token\<close>

record UsageTokens =
  InputTokens :: int
  ImageInputTokens :: int
  OutputTokens :: int
  CacheCreationTokens :: int
  CacheReadTokens :: int
  CacheCreation5mTokens :: int
  CacheCreation1hTokens :: int
  ImageOutputTokens :: int

record CostBreakdown =
  InputCost :: float64
  OutputCost :: float64
  ImageOutputCost :: float64
  CacheCreationCost :: float64
  CacheReadCost :: float64
  TotalCost :: float64
  ActualCost :: float64
  cb_BillingMode :: BillingMode

definition no_cost :: CostBreakdown where
  "no_cost = \<lparr>InputCost = 0, OutputCost = 0, ImageOutputCost = 0, CacheCreationCost = 0, CacheReadCost = 0,
     TotalCost = 0, ActualCost = 0, cb_BillingMode = BillingModeEmpty\<rparr>"

text \<open>The conversion \<open>float64(n)\<close>.\<close>

definition fof :: "int \<Rightarrow> float64" where "fof n = rnd64 (of_int n)"

definition normalizeBillingServiceTier :: "string \<Rightarrow> string" where
  "normalizeBillingServiceTier serviceTier = to_lower (trim_space serviceTier)"

definition usePriorityServiceTierPricing :: "string \<Rightarrow> ModelPricing \<Rightarrow> bool" where
  "usePriorityServiceTierPricing serviceTier p \<longleftrightarrow>
     normalizeBillingServiceTier serviceTier = ''priority''
     \<and> (0 < InputPricePerTokenPriority p \<or> 0 < OutputPricePerTokenPriority p \<or> 0 < CacheReadPricePerTokenPriority p)"

definition serviceTierCostMultiplier :: "string \<Rightarrow> float64" where
  "serviceTierCostMultiplier serviceTier =
     (let t = normalizeBillingServiceTier serviceTier
      in if t = ''priority'' then 2 else if t = ''flex'' then 1 / 2 else 1)"

definition shouldApplySessionLongContextPricing :: "UsageTokens \<Rightarrow> ModelPricing \<Rightarrow> bool" where
  "shouldApplySessionLongContextPricing tokens p \<longleftrightarrow>
     0 < LongContextInputThreshold p
     \<and> (1 < LongContextInputMultiplier p \<or> 1 < LongContextOutputMultiplier p)
     \<and> LongContextInputThreshold p < InputTokens tokens + CacheReadTokens tokens"

definition computeCacheCreationCost :: "ModelPricing \<Rightarrow> UsageTokens \<Rightarrow> float64 \<Rightarrow> float64" where
  "computeCacheCreationCost p tokens multiplier =
     (if SupportsCacheBreakdown p \<and> (0 < CacheCreation5mPrice p \<or> 0 < CacheCreation1hPrice p)
      then if CacheCreation5mTokens tokens = 0 \<and> CacheCreation1hTokens tokens = 0 \<and> 0 < CacheCreationTokens tokens
           then fmul (fmul (fof (CacheCreationTokens tokens)) (CacheCreation5mPrice p)) multiplier
           else fadd (fmul (fmul (fof (CacheCreation5mTokens tokens)) (CacheCreation5mPrice p)) multiplier)
                  (fmul (fmul (fof (CacheCreation1hTokens tokens)) (CacheCreation1hPrice p)) multiplier)
      else fmul (fmul (fof (CacheCreationTokens tokens)) (CacheCreationPricePerToken p)) multiplier)"

text \<open>The unit prices after the service tier and the long-context surcharge: input, output, cache read,
  the factor on cache writes and the factor on everything.\<close>

record unit_prices =
  up_input :: float64
  up_output :: float64
  up_cacheRead :: float64
  up_cacheCreation :: float64
  up_tier :: float64

definition tier_prices :: "ModelPricing \<Rightarrow> string \<Rightarrow> unit_prices" where
  "tier_prices p serviceTier =
     (if usePriorityServiceTierPricing serviceTier p
      then \<lparr>up_input = (if 0 < InputPricePerTokenPriority p then InputPricePerTokenPriority p else InputPricePerToken p),
            up_output = (if 0 < OutputPricePerTokenPriority p then OutputPricePerTokenPriority p else OutputPricePerToken p),
            up_cacheRead = (if 0 < CacheReadPricePerTokenPriority p then CacheReadPricePerTokenPriority p
                            else CacheReadPricePerToken p),
            up_cacheCreation = 1, up_tier = 1\<rparr>
      else \<lparr>up_input = InputPricePerToken p, up_output = OutputPricePerToken p, up_cacheRead = CacheReadPricePerToken p,
            up_cacheCreation = 1, up_tier = serviceTierCostMultiplier serviceTier\<rparr>)"

definition long_context_prices :: "ModelPricing \<Rightarrow> unit_prices \<Rightarrow> unit_prices" where
  "long_context_prices p u =
     u\<lparr>up_input := fmul (up_input u) (LongContextInputMultiplier p),
       up_output := fmul (up_output u) (LongContextOutputMultiplier p),
       up_cacheRead := fmul (up_cacheRead u) (LongContextInputMultiplier p),
       up_cacheCreation := LongContextInputMultiplier p\<rparr>"

definition input_cost :: "ModelPricing \<Rightarrow> UsageTokens \<Rightarrow> float64 \<Rightarrow> float64" where
  "input_cost p tokens inputPrice =
     (if 0 < ImageInputTokens tokens
      then
        let short = InputTokens tokens - ImageInputTokens tokens < 0;
            textInputTokens = (if short then 0 else InputTokens tokens - ImageInputTokens tokens);
            imageInputTokens = (if short then InputTokens tokens else ImageInputTokens tokens);
            imageInputPrice = (if ImageInputPricePerToken p = 0 then inputPrice else ImageInputPricePerToken p)
        in fadd (fmul (fof textInputTokens) inputPrice) (fmul (fof imageInputTokens) imageInputPrice)
      else fmul (fof (InputTokens tokens)) inputPrice)"

definition output_cost :: "UsageTokens \<Rightarrow> float64 \<Rightarrow> float64" where
  "output_cost tokens outputPrice = fmul (fof (max 0 (OutputTokens tokens - ImageOutputTokens tokens))) outputPrice"

definition image_output_cost :: "ModelPricing \<Rightarrow> UsageTokens \<Rightarrow> float64 \<Rightarrow> float64" where
  "image_output_cost p tokens outputPrice =
     (if 0 < ImageOutputTokens tokens
      then fmul (fof (ImageOutputTokens tokens))
             (if ImageOutputPricePerToken p = 0 \<and> \<not> ImageOutputPriceExplicit p then outputPrice
              else ImageOutputPricePerToken p)
      else 0)"

definition scale_cost :: "float64 \<Rightarrow> float64 \<Rightarrow> float64" where
  "scale_cost tierMultiplier cost = (if tierMultiplier \<noteq> 1 then fmul cost tierMultiplier else cost)"

definition total_of :: "float64 \<Rightarrow> float64 \<Rightarrow> float64 \<Rightarrow> float64 \<Rightarrow> float64 \<Rightarrow> float64" where
  "total_of i out img cc cr = fadd (fadd (fadd (fadd i out) img) cc) cr"

definition computeTokenBreakdown :: "ModelPricing \<Rightarrow> UsageTokens \<Rightarrow> float64 \<Rightarrow> string \<Rightarrow> bool \<Rightarrow> CostBreakdown" where
  "computeTokenBreakdown p tokens rateMultiplier0 serviceTier applyLongCtx =
     (let rateMultiplier = (if rateMultiplier0 < 0 then 0 else rateMultiplier0);
          u0 = tier_prices p serviceTier;
          u = (if applyLongCtx \<and> shouldApplySessionLongContextPricing tokens p then long_context_prices p u0 else u0);
          i = scale_cost (up_tier u) (input_cost p tokens (up_input u));
          out = scale_cost (up_tier u) (output_cost tokens (up_output u));
          img = scale_cost (up_tier u) (image_output_cost p tokens (up_output u));
          cc = scale_cost (up_tier u) (computeCacheCreationCost p tokens (up_cacheCreation u));
          cr = scale_cost (up_tier u) (fmul (fof (CacheReadTokens tokens)) (up_cacheRead u));
          total = total_of i out img cc cr
      in \<lparr>InputCost = i, OutputCost = out, ImageOutputCost = img, CacheCreationCost = cc, CacheReadCost = cr,
          TotalCost = total, ActualCost = fmul total rateMultiplier, cb_BillingMode = BillingModeEmpty\<rparr>)"

section \<open>Entry points\<close>

definition calculateCostInternal ::
  "pricing_data option \<Rightarrow> string \<Rightarrow> UsageTokens \<Rightarrow> float64 \<Rightarrow> string \<Rightarrow> ChannelModelPricing option \<Rightarrow> CostBreakdown option" where
  "calculateCostInternal svc model tokens rateMultiplier serviceTier ch =
     (case (case ch of Some c \<Rightarrow> GetModelPricingWithChannel svc model (Some c) | None \<Rightarrow> billing_GetModelPricing svc model) of
        None \<Rightarrow> None
      | Some pricing \<Rightarrow> Some (computeTokenBreakdown pricing tokens rateMultiplier serviceTier True))"

definition CalculateCost :: "pricing_data option \<Rightarrow> string \<Rightarrow> UsageTokens \<Rightarrow> float64 \<Rightarrow> CostBreakdown option" where
  "CalculateCost svc model tokens rateMultiplier = calculateCostInternal svc model tokens rateMultiplier [] None"

definition CalculateCostWithServiceTier ::
  "pricing_data option \<Rightarrow> string \<Rightarrow> UsageTokens \<Rightarrow> float64 \<Rightarrow> string \<Rightarrow> CostBreakdown option" where
  "CalculateCostWithServiceTier svc model tokens rateMultiplier serviceTier =
     calculateCostInternal svc model tokens rateMultiplier serviceTier None"

definition CalculateCostWithConfig :: "float64 \<Rightarrow> pricing_data option \<Rightarrow> string \<Rightarrow> UsageTokens \<Rightarrow> CostBreakdown option" where
  "CalculateCostWithConfig configured svc model tokens =
     CalculateCost svc model tokens (if configured \<le> 0 then 1 else configured)"

definition GetEstimatedCost :: "float64 \<Rightarrow> pricing_data option \<Rightarrow> string \<Rightarrow> int \<Rightarrow> int \<Rightarrow> float64 option" where
  "GetEstimatedCost configured svc model estimatedInputTokens estimatedOutputTokens =
     map_option ActualCost (CalculateCostWithConfig configured svc model
       \<lparr>InputTokens = estimatedInputTokens, ImageInputTokens = 0, OutputTokens = estimatedOutputTokens,
        CacheCreationTokens = 0, CacheReadTokens = 0, CacheCreation5mTokens = 0, CacheCreation1hTokens = 0,
        ImageOutputTokens = 0\<rparr>)"

record CostInput =
  ci_Model :: string
  ci_Tokens :: UsageTokens
  ci_RequestCount :: int
  ci_SizeTier :: string
  ci_RateMultiplier :: float64
  ci_ServiceTier :: string

definition context_tokens :: "UsageTokens \<Rightarrow> int" where
  "context_tokens tokens = InputTokens tokens + CacheReadTokens tokens"

definition calculateTokenCost :: "ResolvedPricing \<Rightarrow> CostInput \<Rightarrow> CostBreakdown option" where
  "calculateTokenCost resolved inp =
     (case GetIntervalPricing resolved (context_tokens (ci_Tokens inp)) of
        None \<Rightarrow> None
      | Some pricing \<Rightarrow>
          Some (computeTokenBreakdown (applyModelSpecificPricingPolicy (ci_Model inp) pricing) (ci_Tokens inp)
            (ci_RateMultiplier inp) (ci_ServiceTier inp) (Intervals resolved = [])))"

definition calculatePerRequestCost :: "ResolvedPricing \<Rightarrow> CostInput \<Rightarrow> CostBreakdown" where
  "calculatePerRequestCost resolved inp =
     (let count = (if ci_RequestCount inp \<le> 0 then 1 else ci_RequestCount inp);
          u1 = (if ci_SizeTier inp \<noteq> [] then GetRequestTierPrice resolved (ci_SizeTier inp) else 0);
          u2 = (if u1 = 0 then GetRequestTierPriceByContext resolved (context_tokens (ci_Tokens inp)) else u1);
          unitPrice = (if u2 = 0 then DefaultPerRequestPrice resolved else u2);
          totalCost = fmul unitPrice (fof count)
      in no_cost\<lparr>TotalCost := totalCost, ActualCost := fmul totalCost (ci_RateMultiplier inp)\<rparr>)"

text \<open>The resolved price is \<^const>\<open>None\<close> when there is no resolver; then the model's own price counts.\<close>

definition CalculateCostUnified :: "pricing_data option \<Rightarrow> ResolvedPricing option \<Rightarrow> CostInput \<Rightarrow> CostBreakdown option" where
  "CalculateCostUnified svc resolver inp0 =
     (case resolver of
        None \<Rightarrow> calculateCostInternal svc (ci_Model inp0) (ci_Tokens inp0) (ci_RateMultiplier inp0) (ci_ServiceTier inp0) None
      | Some resolved \<Rightarrow>
          let inp = (if ci_RateMultiplier inp0 < 0 then inp0\<lparr>ci_RateMultiplier := 0\<rparr> else inp0);
              breakdown = (if per_request_mode (rp_Mode resolved) then Some (calculatePerRequestCost resolved inp)
                           else calculateTokenCost resolved inp)
          in map_option (\<lambda>b. b\<lparr>cb_BillingMode := mode_or_token (rp_Mode resolved)\<rparr>) breakdown)"

section \<open>The older long-context split\<close>

definition add_costs :: "CostBreakdown \<Rightarrow> CostBreakdown \<Rightarrow> CostBreakdown" where
  "add_costs a b = \<lparr>InputCost = fadd (InputCost a) (InputCost b), OutputCost = OutputCost a,
     ImageOutputCost = ImageOutputCost a, CacheCreationCost = CacheCreationCost a,
     CacheReadCost = fadd (CacheReadCost a) (CacheReadCost b), TotalCost = fadd (TotalCost a) (TotalCost b),
     ActualCost = fadd (ActualCost a) (ActualCost b), cb_BillingMode = BillingModeEmpty\<rparr>"

text \<open>The cached and the new input tokens within the threshold and beyond it.\<close>

definition split_context :: "UsageTokens \<Rightarrow> int \<Rightarrow> (int \<times> int) \<times> (int \<times> int)" where
  "split_context tokens threshold =
     (if threshold \<le> CacheReadTokens tokens
      then ((threshold, 0), (CacheReadTokens tokens - threshold, InputTokens tokens))
      else ((CacheReadTokens tokens, threshold - CacheReadTokens tokens),
            (0, InputTokens tokens - (threshold - CacheReadTokens tokens))))"

definition in_range_tokens :: "UsageTokens \<Rightarrow> int \<Rightarrow> UsageTokens" where
  "in_range_tokens tokens threshold =
     (case fst (split_context tokens threshold) of (cache, input) \<Rightarrow>
        \<lparr>InputTokens = input, ImageInputTokens = 0, OutputTokens = OutputTokens tokens,
         CacheCreationTokens = CacheCreationTokens tokens, CacheReadTokens = cache,
         CacheCreation5mTokens = CacheCreation5mTokens tokens, CacheCreation1hTokens = CacheCreation1hTokens tokens,
         ImageOutputTokens = ImageOutputTokens tokens\<rparr>)"

definition out_range_tokens :: "UsageTokens \<Rightarrow> int \<Rightarrow> UsageTokens" where
  "out_range_tokens tokens threshold =
     (case snd (split_context tokens threshold) of (cache, input) \<Rightarrow>
        \<lparr>InputTokens = input, ImageInputTokens = 0, OutputTokens = 0, CacheCreationTokens = 0, CacheReadTokens = cache,
         CacheCreation5mTokens = 0, CacheCreation1hTokens = 0, ImageOutputTokens = 0\<rparr>)"

text \<open>The price data is read once for each part. When the second part has no price, the caller gets the cost
  of the first part together with an error (\<^const>\<open>True\<close>).\<close>

definition CalculateCostWithLongContext ::
  "pricing_data option \<Rightarrow> pricing_data option \<Rightarrow> string \<Rightarrow> UsageTokens \<Rightarrow> float64 \<Rightarrow> int \<Rightarrow> float64
     \<Rightarrow> CostBreakdown option \<times> bool" where
  "CalculateCostWithLongContext svc svc' model tokens rateMultiplier threshold extraMultiplier =
     (if threshold \<le> 0 \<or> extraMultiplier \<le> 1 \<or> CacheReadTokens tokens + InputTokens tokens \<le> threshold
      then (let c = CalculateCost svc model tokens rateMultiplier in (c, c = None))
      else (case CalculateCost svc model (in_range_tokens tokens threshold) rateMultiplier of
              None \<Rightarrow> (None, True)
            | Some inRangeCost \<Rightarrow>
                (case CalculateCost svc' model (out_range_tokens tokens threshold) (fmul rateMultiplier extraMultiplier) of
                   None \<Rightarrow> (Some inRangeCost, True)
                 | Some outRangeCost \<Rightarrow> (Some (add_costs inRangeCost outRangeCost), False))))"

section \<open>Images and videos\<close>

record ImagePriceConfig =
  Price1K :: "float64 option"
  Price2K :: "float64 option"
  Price4K :: "float64 option"

record VideoPriceConfig =
  Price480P :: "float64 option"
  Price720P :: "float64 option"
  Price1080P :: "float64 option"

definition cents :: "rat \<Rightarrow> float64" where "cents x = rnd64 (x / 100)"

definition defaultImageGenerationPrice :: float64 where "defaultImageGenerationPrice = cents (67 / 5)"

definition getGrokImagineImageTierPrice :: "string \<Rightarrow> float64 \<Rightarrow> float64 \<Rightarrow> float64" where
  "getGrokImagineImageTierPrice imageSize price1K price2K =
     (if NormalizeImageBillingTierOrDefault imageSize = ImageBillingSize1K then price1K else price2K)"

definition getDefaultGrokImagineImagePrice :: "string \<Rightarrow> string \<Rightarrow> float64 option" where
  "getDefaultGrokImagineImagePrice model0 imageSize =
     (let model = to_lower (trim_space model0) in
      if model = ''grok-imagine-image-quality''
      then Some (getGrokImagineImageTierPrice imageSize (cents 5) (cents 7))
      else if model \<in> set [''grok-imagine'', ''grok-imagine-image'', ''grok-imagine-edit'']
      then Some (getGrokImagineImageTierPrice imageSize (cents 2) (cents 2))
      else None)"

definition getDefaultGrokImagineVideoPrice :: "string \<Rightarrow> string \<Rightarrow> float64 option" where
  "getDefaultGrokImagineVideoPrice model0 resolution =
     (let model = to_lower (trim_space model0); r = NormalizeVideoBillingResolutionOrDefault resolution in
      if has_prefix model ''grok-imagine-video-1.5''
      then Some (if r = VideoBillingResolution480P then cents 8 else if r = VideoBillingResolution720P then cents 14
                 else if r = VideoBillingResolution1080P then cents 25 else cents 8)
      else if has_prefix model ''grok-imagine-video''
      then Some (if r = VideoBillingResolution480P then cents 5
                 else if r = VideoBillingResolution720P \<or> r = VideoBillingResolution1080P then cents 7 else cents 5)
      else None)"

definition getDefaultImagePrice :: "pricing_data option \<Rightarrow> string \<Rightarrow> string \<Rightarrow> float64" where
  "getDefaultImagePrice svc model imageSize =
     (case getDefaultGrokImagineImagePrice model imageSize of
        Some price \<Rightarrow> price
      | None \<Rightarrow>
          let listed = (case Option.bind svc (\<lambda>data. pricing_GetModelPricing data model) of
                None \<Rightarrow> 0 | Some p \<Rightarrow> if 0 < OutputCostPerImage p then OutputCostPerImage p else 0);
              basePrice = (if listed \<le> 0 then defaultImageGenerationPrice else listed)
          in if imageSize = ''2K'' then fmul basePrice (3 / 2)
             else if imageSize = ''4K'' then fmul basePrice 2
             else basePrice)"

definition getImageUnitPrice :: "pricing_data option \<Rightarrow> string \<Rightarrow> string \<Rightarrow> ImagePriceConfig option \<Rightarrow> float64" where
  "getImageUnitPrice svc model imageSize groupConfig =
     (let configured = (case groupConfig of
            None \<Rightarrow> None
          | Some g \<Rightarrow> if imageSize = ''1K'' then Price1K g else if imageSize = ''2K'' then Price2K g
                      else if imageSize = ''4K'' then Price4K g else None)
      in over configured (getDefaultImagePrice svc model imageSize))"

definition getDefaultVideoPrice :: "pricing_data option \<Rightarrow> string \<Rightarrow> string \<Rightarrow> float64" where
  "getDefaultVideoPrice svc model resolution =
     (case getDefaultGrokImagineVideoPrice model resolution of
        Some price \<Rightarrow> price
      | None \<Rightarrow> getDefaultImagePrice svc model ImageBillingSize2K)"

definition getVideoUnitPrice :: "pricing_data option \<Rightarrow> string \<Rightarrow> string \<Rightarrow> VideoPriceConfig option \<Rightarrow> float64" where
  "getVideoUnitPrice svc model resolution groupConfig =
     (let configured = (case groupConfig of
            None \<Rightarrow> None
          | Some g \<Rightarrow> if resolution = VideoBillingResolution480P then Price480P g
                      else if resolution = VideoBillingResolution720P then Price720P g
                      else if resolution = VideoBillingResolution1080P then Price1080P g else None)
      in over configured (getDefaultVideoPrice svc model resolution))"

definition CalculateImageCost ::
  "pricing_data option \<Rightarrow> string \<Rightarrow> string \<Rightarrow> int \<Rightarrow> ImagePriceConfig option \<Rightarrow> float64 \<Rightarrow> CostBreakdown" where
  "CalculateImageCost svc model imageSize0 imageCount groupConfig rateMultiplier =
     (if imageCount \<le> 0 then no_cost
      else
        let imageSize = NormalizeImageBillingTierOrDefault imageSize0;
            totalCost = fmul (getImageUnitPrice svc model imageSize groupConfig) (fof imageCount)
        in no_cost\<lparr>TotalCost := totalCost, ActualCost := fmul totalCost (max 0 rateMultiplier),
                   cb_BillingMode := BillingModeImage\<rparr>)"

definition CalculateVideoCost ::
  "pricing_data option \<Rightarrow> string \<Rightarrow> string \<Rightarrow> int \<Rightarrow> int \<Rightarrow> VideoPriceConfig option \<Rightarrow> float64 \<Rightarrow> CostBreakdown" where
  "CalculateVideoCost svc model resolution0 videoCount durationSeconds0 groupConfig rateMultiplier =
     (if videoCount \<le> 0 then no_cost
      else
        let resolution = NormalizeVideoBillingResolutionOrDefault resolution0;
            durationSeconds = NormalizeVideoBillingDurationSecondsOrDefault durationSeconds0;
            perSecondPrice = getVideoUnitPrice svc model resolution groupConfig;
            totalCost = fmul (fmul perSecondPrice (fof durationSeconds)) (fof videoCount)
        in no_cost\<lparr>TotalCost := totalCost, ActualCost := fmul totalCost (max 0 rateMultiplier),
                   cb_BillingMode := BillingModeVideo\<rparr>)"

end
