(* ===== verification/BillingProperties.thy ===== *)
theory BillingProperties
  imports BillingCost
begin

text \<open>
  What holds of the cost of a request: a service tier scales it exactly, more usage never costs less,
  a request that has no price has no cost, and which built-in price a model name gets.
\<close>

section \<open>Scaling by powers of two\<close>

lemma ilog2_scale:
  assumes "0 < x"
  shows "ilog2 (pow2 k * x) = k + ilog2 x"
proof (rule ilog2_unique)
  show "pow2 (k + ilog2 x) \<le> pow2 k * x" "pow2 k * x < pow2 (k + ilog2 x + 1)"
    using ilog2_bounds [OF assms] by (simp_all add: pow2_add add.assoc)
qed

lemma rnd64_scale_pos:
  assumes "0 < x"
  shows "rnd64 (pow2 k * x) = pow2 k * rnd64 x"
proof -
  have "pow2 (k + ilog2 x - 52) = pow2 k * pow2 (ilog2 x - 52)"
    using pow2_add [of k "ilog2 x - 52"] by (simp add: algebra_simps)
  moreover have "pow2 k \<noteq> 0" by (metis less_irrefl pow2_pos)
  ultimately show ?thesis using assms by (simp add: rnd64_pos ilog2_scale)
qed

lemma rnd64_scale: "rnd64 (pow2 k * x) = pow2 k * rnd64 x"
proof (cases x "0 :: rat" rule: linorder_cases)
  case less
  then have "rnd64 (pow2 k * (- x)) = pow2 k * rnd64 (- x)" by (intro rnd64_scale_pos) simp
  then show ?thesis by simp
qed (simp_all add: rnd64_scale_pos)

definition power_of_two :: "float64 \<Rightarrow> bool" where "power_of_two c \<longleftrightarrow> (\<exists>k. c = pow2 k)"

lemma power_of_two_tier: "power_of_two (serviceTierCostMultiplier t)"
proof -
  have "1 = pow2 0" "2 = pow2 1" "1 / 2 = pow2 (- 1)" by (simp_all add: pow2_def)
  then show ?thesis unfolding power_of_two_def serviceTierCostMultiplier_def Let_def by metis
qed

lemma rnd64_scaled: "power_of_two c \<Longrightarrow> rnd64 (c * x) = c * rnd64 x"
  using rnd64_scale by (auto simp: power_of_two_def)

lemma fmul_scaled: "power_of_two c \<Longrightarrow> fmul (c * x) y = c * fmul x y"
  unfolding fmul_def using rnd64_scaled [of c "x * y"] by (simp add: mult.assoc)

lemma fadd_scaled: "power_of_two c \<Longrightarrow> fadd (c * x) (c * y) = c * fadd x y"
  unfolding fadd_def using rnd64_scaled [of c "x + y"] by (simp add: distrib_left)

lemma total_scaled:
  "power_of_two c \<Longrightarrow> total_of (c * i) (c * out) (c * img) (c * cc) (c * cr) = c * total_of i out img cc cr"
  by (simp add: total_of_def fadd_scaled)

lemma scale_cost_float: "power_of_two c \<Longrightarrow> is_float x \<Longrightarrow> scale_cost c x = c * x"
  using rnd64_scaled [of c x] by (simp add: scale_cost_def fmul_def is_float_def mult.commute)

section \<open>Service tiers\<close>

lemma fmul_is_float [simp]: "is_float (fmul x y)"
  by (simp add: fmul_def is_float_def)

lemma fadd_is_float [simp]: "is_float (fadd x y)"
  by (simp add: fadd_def is_float_def)

lemma zero_is_float [simp]: "is_float 0"
  by (simp add: is_float_def)

lemma cost_parts_are_floats [simp]:
  "is_float (input_cost p t x)" "is_float (output_cost t x)" "is_float (image_output_cost p t x)"
  "is_float (computeCacheCreationCost p t x)"
  by (simp_all add: input_cost_def output_cost_def image_output_cost_def computeCacheCreationCost_def Let_def)

definition scale_breakdown :: "float64 \<Rightarrow> CostBreakdown \<Rightarrow> CostBreakdown" where
  "scale_breakdown c b = \<lparr>InputCost = c * InputCost b, OutputCost = c * OutputCost b,
     ImageOutputCost = c * ImageOutputCost b, CacheCreationCost = c * CacheCreationCost b,
     CacheReadCost = c * CacheReadCost b, TotalCost = c * TotalCost b, ActualCost = c * ActualCost b,
     cb_BillingMode = cb_BillingMode b\<rparr>"

definition with_priority_prices :: "ModelPricing \<Rightarrow> ModelPricing" where
  "with_priority_prices p =
     p\<lparr>InputPricePerToken := (if 0 < InputPricePerTokenPriority p then InputPricePerTokenPriority p else InputPricePerToken p),
       OutputPricePerToken := (if 0 < OutputPricePerTokenPriority p then OutputPricePerTokenPriority p else OutputPricePerToken p),
       CacheReadPricePerToken := (if 0 < CacheReadPricePerTokenPriority p then CacheReadPricePerTokenPriority p
                                  else CacheReadPricePerToken p)\<rparr>"

lemma standard_tier: "normalizeBillingServiceTier [] = []"
  by (simp add: normalizeBillingServiceTier_def)

lemma standard_tier_prices:
  "tier_prices p [] = \<lparr>up_input = InputPricePerToken p, up_output = OutputPricePerToken p,
     up_cacheRead = CacheReadPricePerToken p, up_cacheCreation = 1, up_tier = 1\<rparr>"
  by (simp add: tier_prices_def usePriorityServiceTierPricing_def standard_tier serviceTierCostMultiplier_def)

lemma scale_cost_1 [simp]: "scale_cost 1 x = x"
  by (simp add: scale_cost_def)

text \<open>C32: what a service tier does to the price of a request. The priority tier of a model with priority
  prices is billed by exactly these prices, without a further factor; in every other case all parts of the
  cost, their total and the amount charged are those of the standard tier times 2 for priority, a half
  for flex and 1 for any other tier, without any rounding.\<close>

theorem service_tier_pricing:
  "computeTokenBreakdown p tokens rate serviceTier applyLongCtx =
     (if usePriorityServiceTierPricing serviceTier p
      then computeTokenBreakdown (with_priority_prices p) tokens rate [] applyLongCtx
      else scale_breakdown (serviceTierCostMultiplier serviceTier) (computeTokenBreakdown p tokens rate [] applyLongCtx))"
proof (cases "usePriorityServiceTierPricing serviceTier p")
  case True
  define q where "q = with_priority_prices p"
  have same: "tier_prices p serviceTier = tier_prices q []"
    unfolding standard_tier_prices using True by (simp add: q_def with_priority_prices_def tier_prices_def)
  have sel: "LongContextInputThreshold q = LongContextInputThreshold p" "LongContextInputMultiplier q = LongContextInputMultiplier p"
    "LongContextOutputMultiplier q = LongContextOutputMultiplier p" "ImageInputPricePerToken q = ImageInputPricePerToken p"
    "ImageOutputPricePerToken q = ImageOutputPricePerToken p" "ImageOutputPriceExplicit q = ImageOutputPriceExplicit p"
    "SupportsCacheBreakdown q = SupportsCacheBreakdown p" "CacheCreation5mPrice q = CacheCreation5mPrice p"
    "CacheCreation1hPrice q = CacheCreation1hPrice p" "CacheCreationPricePerToken q = CacheCreationPricePerToken p"
    by (simp_all add: q_def with_priority_prices_def)
  have fields: "shouldApplySessionLongContextPricing tokens q = shouldApplySessionLongContextPricing tokens p"
    "input_cost q tokens x = input_cost p tokens x" "image_output_cost q tokens x = image_output_cost p tokens x"
    "computeCacheCreationCost q tokens x = computeCacheCreationCost p tokens x"
    "long_context_prices q u = long_context_prices p u" for x u
    by (simp_all only: sel shouldApplySessionLongContextPricing_def input_cost_def image_output_cost_def
        computeCacheCreationCost_def long_context_prices_def)
  show ?thesis using True by (simp only: computeTokenBreakdown_def same fields if_True flip: q_def)
next
  case False
  define c where "c = serviceTierCostMultiplier serviceTier"
  note c = power_of_two_tier [of serviceTier, folded c_def]
  have prices: "tier_prices p serviceTier = (tier_prices p [])\<lparr>up_tier := c\<rparr>"
    unfolding standard_tier_prices using False by (simp add: tier_prices_def c_def)
  show ?thesis using False
    by (simp add: computeTokenBreakdown_def prices scale_breakdown_def Let_def standard_tier_prices long_context_prices_def
        scale_cost_float [OF c] total_scaled [OF c] fmul_scaled [OF c] flip: c_def)
qed

section \<open>More usage never costs less\<close>

definition is_price :: "float64 \<Rightarrow> bool" where
  "is_price x \<longleftrightarrow> 0 \<le> x \<and> is_float x"

text \<open>Prices that are not negative, and surcharges for a long context that are not discounts.\<close>

definition prices_ok :: "ModelPricing \<Rightarrow> bool" where
  "prices_ok p \<longleftrightarrow> list_all is_price
      [InputPricePerToken p, InputPricePerTokenPriority p, ImageInputPricePerToken p, OutputPricePerToken p,
       OutputPricePerTokenPriority p, CacheCreationPricePerToken p, CacheReadPricePerToken p,
       CacheReadPricePerTokenPriority p, CacheCreation5mPrice p, CacheCreation1hPrice p, ImageOutputPricePerToken p]
   \<and> (0 < LongContextInputThreshold p \<and> (1 < LongContextInputMultiplier p \<or> 1 < LongContextOutputMultiplier p) \<longrightarrow>
        1 \<le> LongContextInputMultiplier p \<and> 1 \<le> LongContextOutputMultiplier p)"

text \<open>Usage of text that is at least as high in every respect; cache writes are broken down by duration in
  both or in neither.\<close>

definition usage_le :: "UsageTokens \<Rightarrow> UsageTokens \<Rightarrow> bool" where
  "usage_le t t' \<longleftrightarrow>
     0 \<le> InputTokens t \<and> InputTokens t \<le> InputTokens t'
   \<and> 0 \<le> OutputTokens t \<and> OutputTokens t \<le> OutputTokens t'
   \<and> 0 \<le> CacheCreationTokens t \<and> CacheCreationTokens t \<le> CacheCreationTokens t'
   \<and> 0 \<le> CacheReadTokens t \<and> CacheReadTokens t \<le> CacheReadTokens t'
   \<and> 0 \<le> CacheCreation5mTokens t \<and> CacheCreation5mTokens t \<le> CacheCreation5mTokens t'
   \<and> 0 \<le> CacheCreation1hTokens t \<and> CacheCreation1hTokens t \<le> CacheCreation1hTokens t'
   \<and> (CacheCreation5mTokens t = 0 \<and> CacheCreation1hTokens t = 0 \<longleftrightarrow>
        CacheCreation5mTokens t' = 0 \<and> CacheCreation1hTokens t' = 0)
   \<and> ImageInputTokens t = 0 \<and> ImageInputTokens t' = 0 \<and> ImageOutputTokens t = 0 \<and> ImageOutputTokens t' = 0"

lemma fof_nonneg: "0 \<le> n \<Longrightarrow> 0 \<le> fof n"
  by (simp add: fof_def f64.rnd_nonneg)

lemma fof_mono: "m \<le> n \<Longrightarrow> fof m \<le> fof n"
  by (simp add: fof_def rnd64_mono)

lemma fmul_nonneg: "0 \<le> x \<Longrightarrow> 0 \<le> y \<Longrightarrow> 0 \<le> fmul x y"
  by (simp add: fmul_def f64.mult_nonneg)

lemma fmul_mono: "0 \<le> x \<Longrightarrow> 0 \<le> y \<Longrightarrow> x \<le> x' \<Longrightarrow> y \<le> y' \<Longrightarrow> fmul x y \<le> fmul x' y'"
  unfolding fmul_def by (intro rnd64_mono mult_mono) auto

lemma fadd_nonneg: "0 \<le> x \<Longrightarrow> 0 \<le> y \<Longrightarrow> 0 \<le> fadd x y"
  by (simp add: fadd_def f64.rnd_nonneg)

lemma fadd_mono: "x \<le> x' \<Longrightarrow> y \<le> y' \<Longrightarrow> fadd x y \<le> fadd x' y'"
  unfolding fadd_def by (intro rnd64_mono add_mono)

lemma fmul_ge: "is_price x \<Longrightarrow> 1 \<le> m \<Longrightarrow> x \<le> fmul x m"
  using mult_left_mono [of 1 m x] by (simp add: is_price_def is_float_def fmul_def f64.float_le_rnd)

named_theorems cost_mono \<open>monotonicity of the operations on amounts\<close>
lemmas [cost_mono] = fof_nonneg fof_mono fmul_nonneg fmul_mono fadd_nonneg fadd_mono

lemma scale_cost_0 [simp]: "scale_cost c 0 = 0"
  by (simp add: scale_cost_def fmul_def)

lemma scale_cost_mono: "0 \<le> c \<Longrightarrow> 0 \<le> x \<Longrightarrow> x \<le> y \<Longrightarrow> 0 \<le> scale_cost c x \<and> scale_cost c x \<le> scale_cost c y"
  by (simp add: scale_cost_def cost_mono)

text \<open>Unit prices that are not negative, and their order.\<close>

definition units_le :: "unit_prices \<Rightarrow> unit_prices \<Rightarrow> bool" where
  "units_le u v \<longleftrightarrow> 0 \<le> up_input u \<and> up_input u \<le> up_input v \<and> 0 \<le> up_output u \<and> up_output u \<le> up_output v
     \<and> 0 \<le> up_cacheRead u \<and> up_cacheRead u \<le> up_cacheRead v
     \<and> 0 \<le> up_cacheCreation u \<and> up_cacheCreation u \<le> up_cacheCreation v \<and> up_tier u = up_tier v \<and> 0 \<le> up_tier u"

lemma units_le_refl: "units_le u v \<Longrightarrow> units_le v v"
  by (auto simp: units_le_def)

lemma tier_prices_ok:
  assumes "prices_ok p"
  shows "is_price (up_input (tier_prices p s))" "is_price (up_output (tier_prices p s))"
    "is_price (up_cacheRead (tier_prices p s))" "up_cacheCreation (tier_prices p s) = 1" "0 \<le> up_tier (tier_prices p s)"
  using assms by (auto simp: tier_prices_def prices_ok_def serviceTierCostMultiplier_def Let_def)

definition units :: "ModelPricing \<Rightarrow> UsageTokens \<Rightarrow> string \<Rightarrow> bool \<Rightarrow> unit_prices" where
  "units p t s lc = (if lc \<and> shouldApplySessionLongContextPricing t p then long_context_prices p (tier_prices p s)
     else tier_prices p s)"

lemma units_mono:
  assumes "prices_ok p" and "usage_le t t'"
  shows "units_le (units p t s lc) (units p t' s lc)"
proof -
  note ok = tier_prices_ok [OF assms(1), of s]
  have base: "units_le (tier_prices p s) (tier_prices p s)"
    using ok by (simp add: units_le_def is_price_def)
  show ?thesis
  proof (cases "lc \<and> shouldApplySessionLongContextPricing t' p")
    case True
    then have m: "1 \<le> LongContextInputMultiplier p" "1 \<le> LongContextOutputMultiplier p"
      using assms(1) by (auto simp: prices_ok_def shouldApplySessionLongContextPricing_def)
    then have "units_le (tier_prices p s) (long_context_prices p (tier_prices p s))"
      using ok by (auto simp: units_le_def long_context_prices_def is_price_def fmul_ge)
    with True show ?thesis using units_le_refl by (auto simp: units_def)
  next
    case False
    then have "\<not> (lc \<and> shouldApplySessionLongContextPricing t p)"
      using assms(2) by (auto simp: shouldApplySessionLongContextPricing_def usage_le_def)
    with False base show ?thesis by (auto simp: units_def)
  qed
qed

definition breakdown_prices :: "ModelPricing \<Rightarrow> bool" where
  "breakdown_prices p \<longleftrightarrow> SupportsCacheBreakdown p \<and> (0 < CacheCreation5mPrice p \<or> 0 < CacheCreation1hPrice p)"

lemma cache_creation_plain:
  "\<not> breakdown_prices p \<Longrightarrow> computeCacheCreationCost p t m = fmul (fmul (fof (CacheCreationTokens t)) (CacheCreationPricePerToken p)) m"
  unfolding computeCacheCreationCost_def breakdown_prices_def by (rule if_not_P)

lemma cache_creation_total:
  "breakdown_prices p \<Longrightarrow> CacheCreation5mTokens t = 0 \<and> CacheCreation1hTokens t = 0 \<Longrightarrow> 0 \<le> CacheCreationTokens t \<Longrightarrow>
     computeCacheCreationCost p t m = fmul (fmul (fof (CacheCreationTokens t)) (CacheCreation5mPrice p)) m"
  unfolding computeCacheCreationCost_def breakdown_prices_def
  by (auto simp: fof_def fmul_def fadd_def order_le_less)

lemma cache_creation_split:
  "breakdown_prices p \<Longrightarrow> \<not> (CacheCreation5mTokens t = 0 \<and> CacheCreation1hTokens t = 0) \<Longrightarrow>
     computeCacheCreationCost p t m = fadd (fmul (fmul (fof (CacheCreation5mTokens t)) (CacheCreation5mPrice p)) m)
       (fmul (fmul (fof (CacheCreation1hTokens t)) (CacheCreation1hPrice p)) m)"
  unfolding computeCacheCreationCost_def breakdown_prices_def by auto

lemma computeCacheCreationCost_mono:
  assumes "prices_ok p" and "usage_le t t'" and "0 \<le> m" and "m \<le> m'"
  shows "0 \<le> computeCacheCreationCost p t m \<and> computeCacheCreationCost p t m \<le> computeCacheCreationCost p t' m'"
proof -
  have price: "0 \<le> CacheCreationPricePerToken p" "0 \<le> CacheCreation5mPrice p" "0 \<le> CacheCreation1hPrice p"
    using assms(1) by (auto simp: prices_ok_def is_price_def)
  have tokens: "0 \<le> CacheCreationTokens t" "CacheCreationTokens t \<le> CacheCreationTokens t'"
    "0 \<le> CacheCreation5mTokens t" "CacheCreation5mTokens t \<le> CacheCreation5mTokens t'"
    "0 \<le> CacheCreation1hTokens t" "CacheCreation1hTokens t \<le> CacheCreation1hTokens t'"
    "CacheCreation5mTokens t = 0 \<and> CacheCreation1hTokens t = 0 \<longleftrightarrow> CacheCreation5mTokens t' = 0 \<and> CacheCreation1hTokens t' = 0"
    using assms(2) unfolding usage_le_def by blast+
  have one: "0 \<le> fmul (fmul (fof n) x) m \<and> fmul (fmul (fof n) x) m \<le> fmul (fmul (fof n') x) m'"
    if "0 \<le> n" "n \<le> n'" "0 \<le> x" for n n' x
    using that assms(3,4) by (simp add: cost_mono)
  consider "\<not> breakdown_prices p" | "breakdown_prices p" "CacheCreation5mTokens t = 0 \<and> CacheCreation1hTokens t = 0"
    | "breakdown_prices p" "\<not> (CacheCreation5mTokens t = 0 \<and> CacheCreation1hTokens t = 0)" by blast
  then show ?thesis
  proof cases
    case 1
    then show ?thesis using one [OF tokens(1,2) price(1)] cache_creation_plain [of p] by simp
  next
    case 2
    have "0 \<le> CacheCreationTokens t'" using tokens by linarith
    with 2 one [OF tokens(1,2) price(2)] tokens(1) show ?thesis
      using cache_creation_total [of p t m] cache_creation_total [of p t' m'] tokens(7) by simp
  next
    case 3
    with one [OF tokens(3,4) price(2)] one [OF tokens(5,6) price(3)] show ?thesis
      using cache_creation_split [of p t m] cache_creation_split [of p t' m'] tokens(7)
      by (simp add: fadd_nonneg fadd_mono)
  qed
qed

text \<open>The parts of the cost, in the order of the record.\<close>

definition cost_parts :: "CostBreakdown \<Rightarrow> float64 list" where
  "cost_parts b = [InputCost b, OutputCost b, ImageOutputCost b, CacheCreationCost b, CacheReadCost b, TotalCost b, ActualCost b]"

lemma total_mono:
  "0 \<le> i \<Longrightarrow> 0 \<le> out \<Longrightarrow> 0 \<le> img \<Longrightarrow> 0 \<le> cc \<Longrightarrow> 0 \<le> cr \<Longrightarrow> i \<le> i' \<Longrightarrow> out \<le> out' \<Longrightarrow> img \<le> img' \<Longrightarrow> cc \<le> cc' \<Longrightarrow> cr \<le> cr'
    \<Longrightarrow> 0 \<le> total_of i out img cc cr \<and> total_of i out img cc cr \<le> total_of i' out' img' cc' cr'"
  by (simp add: total_of_def fadd_nonneg fadd_mono)


definition example_prices :: ModelPricing where
  "example_prices = no_pricing\<lparr>InputPricePerToken := 1, OutputPricePerToken := 4, LongContextInputThreshold := 100,
     LongContextInputMultiplier := 2, LongContextOutputMultiplier := 3 / 2\<rparr>"

definition text_usage :: "int \<Rightarrow> int \<Rightarrow> UsageTokens" where
  "text_usage input out = \<lparr>InputTokens = input, ImageInputTokens = 0, OutputTokens = out, CacheCreationTokens = 0,
     CacheReadTokens = 0, CacheCreation5mTokens = 0, CacheCreation1hTokens = 0, ImageOutputTokens = 0\<rparr>"


section \<open>Requests without a price\<close>

lemma Resolve_found:
  "CalculateCostUnified svc (Some (Resolve svc (Some ch) later model)) inp \<noteq> None"
  by (auto simp: CalculateCostUnified_def Resolve_def Let_def applyTokenOverrides_def applyRequestTierOverrides_def
      calculateTokenCost_def GetIntervalPricing_def blank_pricing_def per_request_mode_def split: option.splits prod.splits)

definition unusable_mode :: "BillingMode \<Rightarrow> bool" where
  "unusable_mode m \<longleftrightarrow> mode_or_token m \<noteq> BillingModeToken \<and> \<not> per_request_mode (mode_or_token m)"

lemma Resolve_later:
  "CalculateCostUnified svc (Some (Resolve svc None later model)) inp = None \<longleftrightarrow>
     billing_GetModelPricing svc model = None
     \<and> (case later of None \<Rightarrow> True | Some ch \<Rightarrow> unusable_mode (cp_BillingMode ch))"
proof (cases later)
  case None
  then show ?thesis
    by (auto simp: CalculateCostUnified_def Resolve_def Let_def applyChannelOverrides_def resolveBasePricing_def
        calculateTokenCost_def GetIntervalPricing_def blank_pricing_def per_request_mode_def split: option.splits)
next
  case (Some ch)
  have base: "rp_Mode r = mode_or_token (cp_BillingMode ch) \<Longrightarrow> per_request_mode (rp_Mode r) \<Longrightarrow>
      CalculateCostUnified svc (Some r) inp \<noteq> None" for r
    by (simp add: CalculateCostUnified_def Let_def)
  consider "mode_or_token (cp_BillingMode ch) = BillingModeToken" | "per_request_mode (mode_or_token (cp_BillingMode ch))"
    | "unusable_mode (cp_BillingMode ch)" by (auto simp: unusable_mode_def)
  then show ?thesis
  proof cases
    case 1
    then show ?thesis using Some
      by (auto simp: CalculateCostUnified_def Resolve_def Let_def applyChannelOverrides_def resolveBasePricing_def unusable_mode_def
          applyTokenOverrides_def calculateTokenCost_def GetIntervalPricing_def blank_pricing_def per_request_mode_def
          split: option.splits prod.splits)
  next
    case 2
    then show ?thesis using Some
      by (auto simp: CalculateCostUnified_def Resolve_def Let_def applyChannelOverrides_def resolveBasePricing_def unusable_mode_def
          applyRequestTierOverrides_def blank_pricing_def per_request_mode_def split: option.splits prod.splits)
  next
    case 3
    then show ?thesis using Some
      by (auto simp: CalculateCostUnified_def Resolve_def Let_def applyChannelOverrides_def resolveBasePricing_def unusable_mode_def
          calculateTokenCost_def GetIntervalPricing_def blank_pricing_def split: option.splits prod.splits)
  qed
qed

text \<open>An entry of the downloaded data counts when it has a price for text.\<close>

definition listed_price :: "pricing_data option \<Rightarrow> string \<Rightarrow> LiteLLMModelPricing option" where
  "listed_price svc model =
     (case Option.bind svc (\<lambda>data. pricing_GetModelPricing data (to_lower model)) of
        Some p \<Rightarrow> if TokenPricingAbsent p then None else Some p
      | None \<Rightarrow> None)"

lemma to_lower_getFallbackPricing: "getFallbackPricing (to_lower model) = getFallbackPricing model"
  by (simp add: getFallbackPricing_def)

lemma billing_GetModelPricing_None:
  "billing_GetModelPricing svc model = None \<longleftrightarrow> listed_price svc model = None \<and> getFallbackPricing model = None"
  by (auto simp: billing_GetModelPricing_def Let_def listed_price_def to_lower_getFallbackPricing split: option.splits)


section \<open>A built-in price that no model reaches\<close>

lemma canonical_gpt51: "canonicalizeOpenAIModelAliasSpelling ''gpt-5.1'' = ''gpt-5.1''"
  by code_simp

lemma lookup_key_gpt51: "codexModelLookupKey ''gpt-5.1'' = ''gpt-5.1''"
  by code_simp

lemma known_gpt51: "normalizeKnownOpenAICodexModel ''gpt-5.1'' = ''gpt-5.4''"
  by (simp add: normalizeKnownOpenAICodexModel_def canonical_gpt51 getNormalizedCodexModel_def lookup_key_gpt51 codexModelMap_def Let_def)

lemma fallback_key_gpt51: "fallback_key ''gpt-5.1'' = Some ''gpt-5.4''"
proof -
  have "claude_fallback_key ''gpt-5.1'' = None" "matching_rule vendor_rules ''gpt-5.1'' = None" by code_simp+
  moreover have "codex_fallback_key ''gpt-5.1'' = Some ''gpt-5.4''" by (simp add: codex_fallback_key_def known_gpt51)
  ultimately show ?thesis by (simp add: fallback_key_def or_else_def)
qed

lemma reachable_rules: "''gpt-5.1'' \<notin> snd ` set vendor_rules"
  by (simp add: vendor_rules_def)

lemma fallback_key_not_gpt51: "fallback_key m \<noteq> Some ''gpt-5.1''"
proof -
  have "claude_fallback_key m \<noteq> Some ''gpt-5.1''" by (auto simp: claude_fallback_key_def)
  moreover have "matching_rule vendor_rules m \<noteq> Some ''gpt-5.1''"
  proof
    assume "matching_rule vendor_rules m = Some ''gpt-5.1''"
    then obtain parts where "(parts, ''gpt-5.1'') \<in> set vendor_rules"
      by (auto simp: matching_rule_def dest!: find_Some_mem)
    then have "''gpt-5.1'' \<in> snd ` set vendor_rules" by (rule image_eqI [rotated]) simp
    with reachable_rules show False ..
  qed
  moreover have "codex_fallback_key m \<noteq> Some ''gpt-5.1''" by (auto simp: codex_fallback_key_def Let_def)
  moreover have "openai_fallback_key m \<noteq> Some ''gpt-5.1''" by (auto simp: openai_fallback_key_def)
  ultimately show ?thesis by (auto simp: fallback_key_def or_else_def split: option.splits)
qed

text \<open>the built-in price of GPT-5.1 is never used. No model name leads to it; GPT-5.1 itself is
  billed by the built-in price of GPT-5.4, twice as much for input and half as much again for output.\<close>

theorem gpt51_price_unreachable:
  "fallback_key (to_lower model) \<noteq> Some ''gpt-5.1''
   \<and> getFallbackPricing ''gpt-5.1'' = map_of fallbackPrices ''gpt-5.4''
   \<and> map_option InputPricePerToken (map_of fallbackPrices ''gpt-5.4'') = Some (usd (5 / 2))
   \<and> map_option InputPricePerToken (map_of fallbackPrices ''gpt-5.1'') = Some (usd (5 / 4))
   \<and> map_option OutputPricePerToken (map_of fallbackPrices ''gpt-5.4'') = Some (usd 15)
   \<and> map_option OutputPricePerToken (map_of fallbackPrices ''gpt-5.1'') = Some (usd 10)"
proof (intro conjI fallback_key_not_gpt51)
  have "to_lower ''gpt-5.1'' = ''gpt-5.1''" by code_simp
  then show "getFallbackPricing ''gpt-5.1'' = map_of fallbackPrices ''gpt-5.4''"
    by (simp add: getFallbackPricing_def fallback_key_gpt51)
qed (simp_all add: fallbackPrices_def claude_gemini_prices_def openai_prices_def no_pricing_def)

end
