(* ===== verification/Tasks.thy ===== *)
theory Tasks
  imports GoPrelude
begin

text \<open>
  Operations that several goroutines or processes run at the same time on one shared store. A task is
  the sequence of the atomic statements an operation sends: \<open>Call u k\<close> changes the store by
  \<open>u\<close> and goes on with \<open>k\<close>, which sees the store the statement saw. \<open>run_task\<close> runs a task
  alone; a pool interleaves the statements of any number of tasks, any of which may stop for good
  before its end (a crash, a lost goroutine), with changes from outside.

  The locale \<open>ownership\<close> is the proof rule for a pool: every task in progress is in a mode that says
  what it may rely on; a statement must keep the invariant of the store and what the other tasks rely
  on. \<open>safe\<close> checks one task alone.
\<close>

section \<open>Tasks\<close>

datatype ('s, 'a) task = Done 'a | Call "'s \<Rightarrow> 's" "'s \<Rightarrow> ('s, 'a) task"

primrec then_do :: "('s, 'a) task \<Rightarrow> ('a \<Rightarrow> ('s, 'b) task) \<Rightarrow> ('s, 'b) task" where
  "then_do (Done a) f = f a"
| "then_do (Call u k) f = Call u (\<lambda>s. then_do (k s) f)"

definition statement :: "('s \<Rightarrow> 'a \<times> 's) \<Rightarrow> ('s, 'a) task" where
  "statement f = Call (\<lambda>s. snd (f s)) (\<lambda>s. Done (fst (f s)))"

definition glance :: "('s \<Rightarrow> 'a) \<Rightarrow> ('s, 'a) task" where
  "glance f = statement (\<lambda>s. (f s, s))"

text \<open>\<open>if err != nil { return err }\<close> after a statement, and \<open>_ =\<close> before one.\<close>

definition or_return ::
  "('s, 'e + 'a) task \<Rightarrow> ('a \<Rightarrow> ('s, 'e + 'b) task) \<Rightarrow> ('s, 'e + 'b) task" where
  "or_return m f = then_do m (\<lambda>r. case r of Inl e \<Rightarrow> Done (Inl e) | Inr a \<Rightarrow> f a)"

definition ignoring :: "('s, 'a) task \<Rightarrow> ('s, 'b) task \<Rightarrow> ('s, 'b) task" where
  "ignoring m n = then_do m (\<lambda>_. n)"

primrec run_task :: "('s, 'a) task \<Rightarrow> 's \<Rightarrow> 'a \<times> 's" where
  "run_task (Done a) = (\<lambda>s. (a, s))"
| "run_task (Call u k) = (\<lambda>s. run_task (k s) (u s))"

named_theorems task_run \<open>a task run alone\<close>

lemma run_then_do [task_run]:
  "run_task (then_do m f) s = (case run_task m s of (a, s') \<Rightarrow> run_task (f a) s')"
  by (induction m arbitrary: s) simp_all

lemma run_statement [task_run]: "run_task (statement f) s = f s"
  by (simp add: statement_def)

lemma run_glance [task_run]: "run_task (glance f) s = (f s, s)"
  by (simp add: glance_def run_statement)

lemma run_or_return [task_run]:
  "run_task (or_return m f) s
     = (case run_task m s of (Inl e, s') \<Rightarrow> (Inl e, s') | (Inr a, s') \<Rightarrow> run_task (f a) s')"
  by (auto simp: or_return_def run_then_do split: prod.split sum.split)

lemma run_ignoring [task_run]: "run_task (ignoring m n) s = run_task n (snd (run_task m s))"
  by (simp add: ignoring_def run_then_do split: prod.split)

lemma run_if [task_run]: "run_task (if b then m else n) s = (if b then run_task m s else run_task n s)"
  by simp

lemma then_do_assoc: "then_do (then_do m f) g = then_do m (\<lambda>a. then_do (f a) g)"
  by (induction m) simp_all

text \<open>What can happen to a statement or a transaction sent to a server: it is served, it is rejected
  before it does anything, or it is executed and its answer lost.\<close>

datatype fault = Served | Rejected | Unanswered

section \<open>What every statement does\<close>

text \<open>\<open>each R m\<close> says that every statement of the task changes the store as \<open>R\<close> allows, whatever
  other statements run between two of them.\<close>

primrec each :: "('s \<Rightarrow> 's \<Rightarrow> bool) \<Rightarrow> ('s, 'a) task \<Rightarrow> bool" where
  "each R (Done a) \<longleftrightarrow> True"
| "each R (Call u k) \<longleftrightarrow> (\<forall>s. R s (u s)) \<and> (\<forall>s. each R (k s))"

named_theorems each \<open>what the statements of a task do\<close>

lemma each_Done [each]: "each R (Done a)"
  by simp

lemma each_then_do [each]: "each R m \<Longrightarrow> (\<And>a. each R (f a)) \<Longrightarrow> each R (then_do m f)"
  by (induction m) auto

lemma each_statement: "(\<And>s. R s (snd (f s))) \<Longrightarrow> each R (statement f)"
  by (simp add: statement_def)

lemma each_glance: "(\<And>s. R s s) \<Longrightarrow> each R (glance f)"
  by (simp add: glance_def statement_def)

lemma each_or_return [each]: "each R m \<Longrightarrow> (\<And>a. each R (f a)) \<Longrightarrow> each R (or_return m f)"
  unfolding or_return_def by (intro each_then_do) (auto split: sum.split)

lemma each_ignoring [each]: "each R m \<Longrightarrow> each R n \<Longrightarrow> each R (ignoring m n)"
  unfolding ignoring_def by (intro each_then_do)

lemma each_if [each]: "(b \<Longrightarrow> each R m) \<Longrightarrow> (\<not> b \<Longrightarrow> each R n) \<Longrightarrow> each R (if b then m else n)"
  by simp

lemma each_option [each]:
  "(x = None \<Longrightarrow> each R m) \<Longrightarrow> (\<And>a. x = Some a \<Longrightarrow> each R (f a)) \<Longrightarrow>
     each R (case x of None \<Rightarrow> m | Some a \<Rightarrow> f a)"
  by (cases x) simp_all

lemma each_sum [each]:
  "(\<And>e. each R (f e)) \<Longrightarrow> (\<And>a. each R (g a)) \<Longrightarrow> each R (case x of Inl e \<Rightarrow> f e | Inr a \<Rightarrow> g a)"
  by (cases x) simp_all

lemma each_prod [each]: "(\<And>a b. each R (f a b)) \<Longrightarrow> each R (case x of (a, b) \<Rightarrow> f a b)"
  by (cases x) simp

lemma each_list [each]:
  "each R m \<Longrightarrow> (\<And>a as. each R (f a as)) \<Longrightarrow> each R (case x of [] \<Rightarrow> m | a # as \<Rightarrow> f a as)"
  by (cases x) simp_all

lemma each_let [each]: "(\<And>a. each R (f a)) \<Longrightarrow> each R (let a = x in f a)"
  by simp

text \<open>A task run alone does what its statements do, when that composes.\<close>

lemma each_run:
  assumes "each R m" and "\<And>s. R s s" and "\<And>s t u. R s t \<Longrightarrow> R t u \<Longrightarrow> R s u"
  shows "R s (snd (run_task m s))"
  using assms(1)
proof (induction m arbitrary: s)
  case (Done a)
  then show ?case using assms(2) by simp
next
  case (Call u k)
  then have "R s (u s)" and "R (u s) (snd (run_task (k s) (u s)))" by auto
  then show ?case using assms(3) by simp
qed

definition keeping :: "('s \<Rightarrow> bool) \<Rightarrow> 's \<Rightarrow> 's \<Rightarrow> bool" where
  "keeping P s s' \<longleftrightarrow> (P s \<longrightarrow> P s')"

lemma keepingI: "(P s \<Longrightarrow> P s') \<Longrightarrow> keeping P s s'"
  by (simp add: keeping_def)

lemma keeping_refl [simp]: "keeping P s s"
  by (simp add: keeping_def)

section \<open>Pools\<close>

type_synonym 's pool = "'s \<times> (nat \<rightharpoonup> ('s, unit) task)"

definition finish :: "('s, 'a) task \<Rightarrow> ('s, unit) task" where
  "finish m = then_do m (\<lambda>_. Done ())"

inductive pool_step ::
  "(('s, unit) task \<Rightarrow> bool) \<Rightarrow> ('s \<Rightarrow> 's \<Rightarrow> bool) \<Rightarrow> 's pool \<Rightarrow> 's pool \<Rightarrow> bool"
  for starts :: "('s, unit) task \<Rightarrow> bool" and world :: "'s \<Rightarrow> 's \<Rightarrow> bool" where
  Start: "starts m \<Longrightarrow> ts n = None \<Longrightarrow> pool_step starts world (s, ts) (s, ts(n \<mapsto> m))"
| Statement: "ts n = Some (Call u k) \<Longrightarrow> pool_step starts world (s, ts) (u s, ts(n \<mapsto> k s))"
| Leave: "pool_step starts world (s, ts) (s, ts(n := None))"
| World: "world s s' \<Longrightarrow> pool_step starts world (s, ts) (s', ts)"

inductive pool_reachable ::
  "(('s, unit) task \<Rightarrow> bool) \<Rightarrow> ('s \<Rightarrow> 's \<Rightarrow> bool) \<Rightarrow> ('s \<Rightarrow> bool) \<Rightarrow> 's pool \<Rightarrow> bool"
  for starts :: "('s, unit) task \<Rightarrow> bool" and world :: "'s \<Rightarrow> 's \<Rightarrow> bool" and first :: "'s \<Rightarrow> bool" where
  Initial: "first s \<Longrightarrow> pool_reachable starts world first (s, Map.empty)"
| Next: "pool_reachable starts world first p \<Longrightarrow> pool_step starts world p p' \<Longrightarrow>
     pool_reachable starts world first p'"

inductive_cases pool_stepE: "pool_step starts world p p'"

lemma pool_keeps:
  assumes "pool_reachable starts world first p" and "\<And>s. first s \<Longrightarrow> P s"
    and "\<And>t. starts t \<Longrightarrow> each (keeping P) t" and "\<And>s s'. world s s' \<Longrightarrow> P s \<Longrightarrow> P s'"
  shows "P (fst p) \<and> (\<forall>n t. snd p n = Some t \<longrightarrow> each (keeping P) t)"
  using assms(1)
proof induction
  case (Initial s)
  then show ?case using assms(2) by simp
next
  case (Next p p')
  from Next.hyps(2) Next.IH show ?case
  proof (cases rule: pool_step.cases)
    case (Start m ts n s)
    then show ?thesis using Next.IH assms(3) by simp
  next
    case (Statement ts n u k s)
    with Next.IH have "each (keeping P) (Call u k)" and "P s" by (metis fst_conv snd_conv)+
    then have "P (u s)" and "each (keeping P) (k s)" by (simp_all add: keeping_def)
    then show ?thesis using Next.IH Statement by simp
  next
    case (Leave s ts n)
    then show ?thesis using Next.IH by simp
  next
    case (World s s' ts)
    then show ?thesis using Next.IH assms(4) by simp
  qed
qed

section \<open>Ownership\<close>

text \<open>\<open>knows m s\<close> is what a task in mode \<open>m\<close> relies on; \<open>apart m n\<close> says that two tasks may be in
  the modes \<open>m\<close> and \<open>n\<close> at the same time; \<open>moves m s m' s'\<close> are the changes a task in mode
  \<open>m\<close> may make when it goes to mode \<open>m'\<close>.\<close>

locale ownership =
  fixes inv :: "'s \<Rightarrow> bool"
    and knows :: "'m \<Rightarrow> 's \<Rightarrow> bool"
    and idle :: 'm
    and apart :: "'m \<Rightarrow> 'm \<Rightarrow> bool"
    and moves :: "'m \<Rightarrow> 's \<Rightarrow> 'm \<Rightarrow> 's \<Rightarrow> bool"
    and world :: "'s \<Rightarrow> 's \<Rightarrow> bool"
  assumes move_own: "inv s \<Longrightarrow> knows m s \<Longrightarrow> moves m s m' s' \<Longrightarrow> inv s' \<and> knows m' s'"
    and move_other: "inv s \<Longrightarrow> knows m s \<Longrightarrow> knows n s \<Longrightarrow> apart m n \<Longrightarrow> moves m s m' s' \<Longrightarrow>
        knows n s' \<and> apart m' n"
    and world_inv: "inv s \<Longrightarrow> world s s' \<Longrightarrow> inv s'"
    and world_knows: "inv s \<Longrightarrow> knows n s \<Longrightarrow> world s s' \<Longrightarrow> knows n s'"
    and idle_knows: "knows idle s"
    and idle_apart: "apart idle n"
    and apart_sym: "apart m n \<Longrightarrow> apart n m"
begin

primrec safe :: "('s, 'a) task \<Rightarrow> ('a \<Rightarrow> 'm \<Rightarrow> bool) \<Rightarrow> 'm \<Rightarrow> bool" where
  "safe (Done a) Q = (\<lambda>m. Q a m)"
| "safe (Call u k) Q =
     (\<lambda>m. \<forall>s. inv s \<longrightarrow> knows m s \<longrightarrow> (\<exists>m'. moves m s m' (u s) \<and> safe (k s) Q m'))"

lemma safe_then_do: "safe t (\<lambda>a. safe (f a) Q) m \<Longrightarrow> safe (then_do t f) Q m"
  by (induction t arbitrary: m) (simp, fastforce)

lemma safe_mono: "safe t Q m \<Longrightarrow> (\<And>a m. Q a m \<Longrightarrow> R a m) \<Longrightarrow> safe t R m"
  by (induction t arbitrary: m) (simp, fastforce)

lemma safe_statement:
  "(\<And>s. inv s \<Longrightarrow> knows m s \<Longrightarrow> \<exists>m'. moves m s m' (snd (f s)) \<and> Q (fst (f s)) m') \<Longrightarrow>
     safe (statement f) Q m"
  by (simp add: statement_def)

definition pool_ok :: "'s pool \<Rightarrow> (nat \<Rightarrow> 'm) \<Rightarrow> bool" where
  "pool_ok p modes \<longleftrightarrow> inv (fst p)
     \<and> (\<forall>n t. snd p n = Some t \<longrightarrow> safe t (\<lambda>_ _. True) (modes n) \<and> knows (modes n) (fst p))
     \<and> (\<forall>n n'. n \<noteq> n' \<longrightarrow> snd p n \<noteq> None \<longrightarrow> snd p n' \<noteq> None \<longrightarrow> apart (modes n) (modes n'))"

lemma pool_okI:
  assumes "inv s" and "\<And>n t. ts n = Some t \<Longrightarrow> safe t (\<lambda>_ _. True) (modes n) \<and> knows (modes n) s"
    and "\<And>n n'. n \<noteq> n' \<Longrightarrow> ts n \<noteq> None \<Longrightarrow> ts n' \<noteq> None \<Longrightarrow> apart (modes n) (modes n')"
  shows "pool_ok (s, ts) modes"
  using assms by (simp add: pool_ok_def)

lemma pool_okD:
  assumes "pool_ok (s, ts) modes"
  shows "inv s" and "ts n = Some t \<Longrightarrow> safe t (\<lambda>_ _. True) (modes n)"
    and "ts n = Some t \<Longrightarrow> knows (modes n) s"
    and "n \<noteq> n' \<Longrightarrow> ts n \<noteq> None \<Longrightarrow> ts n' \<noteq> None \<Longrightarrow> apart (modes n) (modes n')"
  using assms by (simp_all add: pool_ok_def)

lemma pool_ok_put:
  assumes ok: "pool_ok (s, ts) modes" and "inv s'" and "safe t (\<lambda>_ _. True) m'" and "knows m' s'"
    and others: "\<And>i. i \<noteq> n \<Longrightarrow> ts i \<noteq> None \<Longrightarrow> knows (modes i) s' \<and> apart m' (modes i)"
  shows "pool_ok (s', ts(n \<mapsto> t)) (modes(n := m'))"
proof (rule pool_okI)
  fix i u assume u: "(ts(n \<mapsto> t)) i = Some u"
  show "safe u (\<lambda>_ _. True) ((modes(n := m')) i) \<and> knows ((modes(n := m')) i) s'"
  proof (cases "i = n")
    case True
    with u assms(3,4) show ?thesis by simp
  next
    case False
    with u pool_okD(2) [OF ok, of i u] others [of i] show ?thesis by simp
  qed
next
  fix i j assume ij: "i \<noteq> j" "(ts(n \<mapsto> t)) i \<noteq> None" "(ts(n \<mapsto> t)) j \<noteq> None"
  show "apart ((modes(n := m')) i) ((modes(n := m')) j)"
  proof (cases "i = n \<or> j = n")
    case True
    with ij others [of i] others [of j] show ?thesis by (auto intro: apart_sym)
  next
    case False
    with ij pool_okD(4) [OF ok, of i j] show ?thesis by simp
  qed
qed (rule assms(2))

lemma pool_step_ok:
  assumes "pool_step starts world p p'" and "pool_ok p modes"
    and "\<And>t. starts t \<Longrightarrow> safe t (\<lambda>_ _. True) idle"
  shows "\<exists>modes'. pool_ok p' modes'"
  using assms(1)
proof (cases rule: pool_step.cases)
  case (Start m ts n s)
  with assms(2) have ok: "pool_ok (s, ts) modes" by simp
  have "knows (modes i) s \<and> apart idle (modes i)" if "ts i \<noteq> None" for i
    using that pool_okD(3) [OF ok] idle_apart by blast
  then have "pool_ok (s, ts(n \<mapsto> m)) (modes(n := idle))"
    using pool_okD(1) [OF ok] assms(3) [OF Start(3)] idle_knows by (intro pool_ok_put [OF ok]) simp_all
  with Start show ?thesis by blast
next
  case (Statement ts n u k s)
  with assms(2) have ok: "pool_ok (s, ts) modes" by simp
  have inv: "inv s" and kn: "knows (modes n) s" and "safe (Call u k) (\<lambda>_ _. True) (modes n)"
    using pool_okD(1-3) [OF ok] Statement(3) by blast+
  then obtain m' where m': "moves (modes n) s m' (u s)" "safe (k s) (\<lambda>_ _. True) m'" by auto
  have "knows (modes i) (u s) \<and> apart m' (modes i)" if "i \<noteq> n" and i: "ts i \<noteq> None" for i
  proof -
    have "knows (modes i) s" using i pool_okD(3) [OF ok] by blast
    moreover have "apart (modes n) (modes i)" using pool_okD(4) [OF ok, of n i] that Statement(3) by simp
    ultimately show ?thesis using move_other [OF inv kn _ _ m'(1)] by blast
  qed
  then have "pool_ok (u s, ts(n \<mapsto> k s)) (modes(n := m'))"
    using move_own [OF inv kn m'(1)] m'(2) by (intro pool_ok_put [OF ok]) simp_all
  with Statement show ?thesis by blast
next
  case (Leave s ts n)
  with assms(2) have ok: "pool_ok (s, ts) modes" by simp
  have "pool_ok (s, ts(n := None)) modes"
  proof (rule pool_okI)
    show "inv s" by (rule pool_okD(1) [OF ok])
    show "safe t (\<lambda>_ _. True) (modes i) \<and> knows (modes i) s" if "(ts(n := None)) i = Some t" for i t
      using that pool_okD(2,3) [OF ok, of i t] by (simp split: if_splits)
    show "apart (modes i) (modes j)"
      if "i \<noteq> j" "(ts(n := None)) i \<noteq> None" "(ts(n := None)) j \<noteq> None" for i j
      using that pool_okD(4) [OF ok, of i j] by (simp split: if_splits)
  qed
  with Leave show ?thesis by blast
next
  case (World s s' ts)
  with assms(2) have ok: "pool_ok (s, ts) modes" by simp
  have inv: "inv s" by (rule pool_okD(1) [OF ok])
  have "pool_ok (s', ts) modes"
  proof (rule pool_okI)
    show "inv s'" by (rule world_inv [OF inv World(3)])
    show "safe t (\<lambda>_ _. True) (modes i) \<and> knows (modes i) s'" if "ts i = Some t" for i t
      using that pool_okD(2,3) [OF ok, of i t] world_knows [OF inv _ World(3)] by simp
    show "apart (modes i) (modes j)" if "i \<noteq> j" "ts i \<noteq> None" "ts j \<noteq> None" for i j
      using that pool_okD(4) [OF ok, of i j] by simp
  qed
  with World show ?thesis by blast
qed

lemma pool_reachable_ok:
  assumes "pool_reachable starts world first p" and "\<And>s. first s \<Longrightarrow> inv s"
    and "\<And>t. starts t \<Longrightarrow> safe t (\<lambda>_ _. True) idle"
  shows "\<exists>modes. pool_ok p modes"
  using assms(1)
proof induction
  case (Initial s)
  then show ?case using assms(2) by (auto simp: pool_ok_def)
next
  case (Next p p')
  then show ?case using pool_step_ok assms(3) by blast
qed

lemma pool_inv:
  assumes "pool_reachable starts world first (s, ts)" and "\<And>s. first s \<Longrightarrow> inv s"
    and "\<And>t. starts t \<Longrightarrow> safe t (\<lambda>_ _. True) idle"
  shows "inv s"
  using pool_reachable_ok [OF assms] pool_okD(1) by blast

end

end
