(* ===== verification/TaskOwnership.thy ===== *)
theory TaskOwnership
  imports Tasks
begin

text \<open>
  Rules for \<open>safe\<close>, one for each way a task is put together. \<open>free\<close> tasks are safe from every mode and
  leave the task in any; \<open>results\<close> is what a task may return, whatever the store answers.
\<close>

section \<open>What a task returns\<close>

primrec results :: "('a \<Rightarrow> bool) \<Rightarrow> ('s, 'a) task \<Rightarrow> bool" where
  "results P (Done a) \<longleftrightarrow> P a"
| "results P (Call u k) \<longleftrightarrow> (\<forall>s. results P (k s))"

named_theorems results \<open>what a task may return\<close>

lemma results_any [results]: "results (\<lambda>_. True) t"
  by (induction t) simp_all

lemma results_mono: "results P t \<Longrightarrow> (\<And>a. P a \<Longrightarrow> Q a) \<Longrightarrow> results Q t"
  by (induction t) simp_all

lemma results_then_do: "results (\<lambda>a. results P (f a)) t \<Longrightarrow> results P (then_do t f)"
  by (induction t) simp_all

lemma results_then [results]: "(\<And>a. results P (f a)) \<Longrightarrow> results P (then_do t f)"
  by (induction t) simp_all

lemma results_or_return [results]:
  "(\<And>e. P (Inl e)) \<Longrightarrow> (\<And>a. results P (f a)) \<Longrightarrow> results P (or_return t f)"
  unfolding or_return_def by (intro results_then) (auto split: sum.split)

lemma results_ignoring [results]: "results P n \<Longrightarrow> results P (ignoring m n)"
  unfolding ignoring_def by (intro results_then)

lemma results_Done [results]: "P a \<Longrightarrow> results P (Done a)"
  by simp

lemma results_if [results]:
  "(b \<Longrightarrow> results P m) \<Longrightarrow> (\<not> b \<Longrightarrow> results P n) \<Longrightarrow> results P (if b then m else n)"
  by simp

lemma results_sum [results]:
  "(\<And>e. results P (f e)) \<Longrightarrow> (\<And>a. results P (g a)) \<Longrightarrow> results P (case x of Inl e \<Rightarrow> f e | Inr a \<Rightarrow> g a)"
  by (cases x) simp_all

lemma results_option [results]:
  "results P m \<Longrightarrow> (\<And>a. results P (f a)) \<Longrightarrow> results P (case x of None \<Rightarrow> m | Some a \<Rightarrow> f a)"
  by (cases x) simp_all

section \<open>A task that runs to its end\<close>

lemma pool_runs:
  "pool_reachable starts world first (s, ts(n \<mapsto> t)) \<Longrightarrow>
     pool_reachable starts world first (snd (run_task t s), ts(n \<mapsto> Done (fst (run_task t s))))"
proof (induction t arbitrary: s)
  case (Done a)
  then show ?case by simp
next
  case (Call u k)
  have "pool_step starts world (s, ts(n \<mapsto> Call u k)) (u s, (ts(n \<mapsto> Call u k))(n \<mapsto> k s))"
    by (rule pool_step.Statement) simp
  then have "pool_reachable starts world first (u s, ts(n \<mapsto> k s))"
    using Call.prems pool_reachable.Next by fastforce
  from Call.IH [OF rangeI this] show ?case by simp
qed

lemma run_reachable:
  assumes "pool_reachable starts world first (s, ts)" and "ts n = None" and "starts (finish m)"
  shows "pool_reachable starts world first (snd (run_task m s), ts)"
proof -
  have "pool_reachable starts world first (s, ts(n \<mapsto> finish m))"
    using assms pool_step.Start pool_reachable.Next by metis
  then have "pool_reachable starts world first
      (snd (run_task (finish m) s), ts(n \<mapsto> Done (fst (run_task (finish m) s))))"
    by (rule pool_runs)
  then have "pool_reachable starts world first (snd (run_task (finish m) s),
      (ts(n \<mapsto> Done (fst (run_task (finish m) s))))(n := None))"
    by (rule pool_reachable.Next) (rule pool_step.Leave)
  moreover have "snd (run_task (finish m) s) = snd (run_task m s)"
    by (simp add: finish_def run_then_do split: prod.split)
  moreover have "(ts(n \<mapsto> x))(n := None) = ts" for x using assms(2) by (simp add: fun_upd_idem_iff)
  ultimately show ?thesis by simp
qed

lemma run_alone_reachable:
  "first s \<Longrightarrow> starts (finish m) \<Longrightarrow> pool_reachable starts world first (snd (run_task m s), Map.empty)"
  by (rule run_reachable [where n = 0]) (simp_all add: pool_reachable.Initial)

section \<open>Rules for safe tasks\<close>

context ownership
begin

lemma safe_Done: "Q a m \<Longrightarrow> safe (Done a) Q m"
  by simp

lemma safe_then: "safe t R m \<Longrightarrow> (\<And>a n. R a n \<Longrightarrow> safe (f a) Q n) \<Longrightarrow> safe (then_do t f) Q m"
  using safe_then_do safe_mono by (metis (mono_tags, lifting))

lemma safe_ignoring: "safe t R m \<Longrightarrow> (\<And>a n. R a n \<Longrightarrow> safe u Q n) \<Longrightarrow> safe (ignoring t u) Q m"
  unfolding ignoring_def by (rule safe_then)

lemma safe_or_return:
  "safe t R m \<Longrightarrow> (\<And>e n. R (Inl e) n \<Longrightarrow> Q (Inl e) n) \<Longrightarrow> (\<And>a n. R (Inr a) n \<Longrightarrow> safe (f a) Q n) \<Longrightarrow>
     safe (or_return t f) Q m"
  unfolding or_return_def by (rule safe_then, assumption) (auto split: sum.split)

lemma safe_if: "(b \<Longrightarrow> safe t Q m) \<Longrightarrow> (\<not> b \<Longrightarrow> safe u Q m) \<Longrightarrow> safe (if b then t else u) Q m"
  by simp

lemma safe_Let: "(\<And>a. safe (f a) Q m) \<Longrightarrow> safe (let a = x in f a) Q m"
  by simp

lemma safe_sum:
  "(\<And>e. x = Inl e \<Longrightarrow> safe (f e) Q m) \<Longrightarrow> (\<And>a. x = Inr a \<Longrightarrow> safe (g a) Q m) \<Longrightarrow>
     safe (case x of Inl e \<Rightarrow> f e | Inr a \<Rightarrow> g a) Q m"
  by (cases x) simp_all

lemma safe_option:
  "(x = None \<Longrightarrow> safe t Q m) \<Longrightarrow> (\<And>a. x = Some a \<Longrightarrow> safe (f a) Q m) \<Longrightarrow>
     safe (case x of None \<Rightarrow> t | Some a \<Rightarrow> f a) Q m"
  by (cases x) simp_all

text \<open>Statements that every mode allows.\<close>

lemma safe_each:
  assumes "each R t" and "results P t" and "\<And>s s'. inv s \<Longrightarrow> knows m s \<Longrightarrow> R s s' \<Longrightarrow> moves m s m s'"
  shows "safe t (\<lambda>a n. n = m \<and> P a) m"
  using assms(1,2)
proof (induction t)
  case (Done a)
  then show ?case by simp
next
  case (Call u k)
  then have "safe (k s) (\<lambda>a n. n = m \<and> P a) m" for s by simp
  moreover have "moves m s m (u s)" if "inv s" "knows m s" for s
    using that Call.prems(1) assms(3) by simp
  ultimately show ?case by auto
qed

section \<open>Free tasks\<close>

definition free :: "('s, 'a) task \<Rightarrow> bool" where
  "free t \<longleftrightarrow> (\<forall>m. safe t (\<lambda>_ _. True) m)"

lemma free_safe: "free t \<Longrightarrow> safe t (\<lambda>_ _. True) m"
  by (simp add: free_def)

lemma free_Done: "free (Done a)"
  by (simp add: free_def)

lemma free_then_do: "free t \<Longrightarrow> (\<And>a. free (f a)) \<Longrightarrow> free (then_do t f)"
  unfolding free_def by (blast intro: safe_then)

lemma free_or_return: "free t \<Longrightarrow> (\<And>a. free (f a)) \<Longrightarrow> free (or_return t f)"
  unfolding or_return_def by (intro free_then_do) (auto simp: free_Done split: sum.split)

lemma free_ignoring: "free t \<Longrightarrow> free u \<Longrightarrow> free (ignoring t u)"
  unfolding ignoring_def by (rule free_then_do)

lemma free_if: "(b \<Longrightarrow> free t) \<Longrightarrow> (\<not> b \<Longrightarrow> free u) \<Longrightarrow> free (if b then t else u)"
  by simp

lemma free_Let: "(\<And>a. free (f a)) \<Longrightarrow> free (let a = x in f a)"
  by simp

lemma free_sum: "(\<And>e. free (f e)) \<Longrightarrow> (\<And>a. free (g a)) \<Longrightarrow> free (case x of Inl e \<Rightarrow> f e | Inr a \<Rightarrow> g a)"
  by (cases x) simp_all

lemma free_option: "free t \<Longrightarrow> (\<And>a. free (f a)) \<Longrightarrow> free (case x of None \<Rightarrow> t | Some a \<Rightarrow> f a)"
  by (cases x) simp_all

lemma free_list: "free t \<Longrightarrow> (\<And>a as. free (f a as)) \<Longrightarrow> free (case x of [] \<Rightarrow> t | a # as \<Rightarrow> f a as)"
  by (cases x) simp_all

text \<open>A task in the idle mode does nothing another mode would not allow.\<close>

lemma free_from_idle:
  assumes "safe t (\<lambda>_ _. True) idle"
    and "\<And>m s m' s'. inv s \<Longrightarrow> knows m s \<Longrightarrow> moves idle s m' s' \<Longrightarrow> moves m s m' s'"
  shows "free t"
proof (cases t)
  case (Done a)
  then show ?thesis by (simp add: free_def)
next
  case (Call u k)
  have "\<exists>m'. moves m s m' (u s) \<and> safe (k s) (\<lambda>_ _. True) m'" if "inv s" "knows m s" for m s
  proof -
    from assms(1) that(1) idle_knows obtain m' where "moves idle s m' (u s)" "safe (k s) (\<lambda>_ _. True) m'"
      by (auto simp: Call)
    with assms(2) [OF that] show ?thesis by blast
  qed
  then show ?thesis by (simp add: free_def Call)
qed

lemmas free_rules = free_Done free_then_do free_or_return free_ignoring free_if free_Let free_sum
  free_option free_list

end

end
