(* ===== verification/PaymentStore.thy ===== *)
theory PaymentStore
  imports Tasks ApiKey SubscriptionService GoStrings
begin

text \<open>
  What the payment service and the redeem service work on: the tables of orders, audit logs, redeem
  codes, users and provider instances, the Redis keys of the redeem cache, the store of the
  subscription service, and the answers the outside world will give (payment gateways, the affiliate
  service). Every statement is one atomic step of a task. The database, its audit table and Redis
  have scripts of failures of their own: a statement is served, rejected before it does anything, or
  executed with its answer lost.

  Amount columns are \<open>DECIMAL(20,2)\<close>; \<open>col2\<close> is what a program reads back after writing a
  float. The balance is \<open>DECIMAL(20,8)\<close>. \<open>ps_ledger\<close> is not in the database: it records each
  change of a balance or a subscription with its cause, for the theorems to speak about.
\<close>

section \<open>Orders\<close>

datatype order_status =
    PENDING | PAID | RECHARGING | COMPLETED | EXPIRED | CANCELLED | FAILED
  | REFUND_REQUESTED | REFUNDING | REFUND_PENDING | PARTIALLY_REFUNDED | REFUNDED | REFUND_FAILED

text \<open>A value of the JSON column \<open>provider_snapshot\<close>.\<close>

datatype snapshot_value = SnapshotText string | SnapshotNumber int | SnapshotOther

record PaymentOrder =
  po_ID :: int
  po_UserID :: int
  po_Amount :: float64
  po_PayAmount :: float64
  po_RechargeCode :: string
  po_OutTradeNo :: string
  po_PaymentType :: string
  po_PaymentTradeNo :: string
  po_OrderType :: string
  po_SubscriptionGroupID :: "int option"
  po_SubscriptionDays :: "int option"
  po_ProviderInstanceID :: "string option"
  po_ProviderKey :: "string option"
  po_ProviderSnapshot :: "(string \<times> snapshot_value) list"
  po_Status :: order_status
  po_RefundAmount :: float64
  po_RefundReason :: "string option"
  po_RefundAt :: "go_time option"
  po_ForceRefund :: bool
  po_RefundRequestedAt :: "go_time option"
  po_RefundRequestReason :: "string option"
  po_RefundRequestedBy :: "string option"
  po_ExpiresAt :: go_time
  po_PaidAt :: "go_time option"
  po_CompletedAt :: "go_time option"
  po_FailedAt :: "go_time option"
  po_FailedReason :: "string option"
  po_CreatedAt :: go_time
  po_UpdatedAt :: go_time

abbreviation OrderTypeBalance :: string where "OrderTypeBalance \<equiv> ''balance''"
abbreviation OrderTypeSubscription :: string where "OrderTypeSubscription \<equiv> ''subscription''"
abbreviation EntityStatusActive :: string where "EntityStatusActive \<equiv> ''active''"

abbreviation TypeAlipay :: string where "TypeAlipay \<equiv> ''alipay''"
abbreviation TypeWxpay :: string where "TypeWxpay \<equiv> ''wxpay''"
abbreviation TypeStripe :: string where "TypeStripe \<equiv> ''stripe''"
abbreviation TypeCard :: string where "TypeCard \<equiv> ''card''"
abbreviation TypeLink :: string where "TypeLink \<equiv> ''link''"
abbreviation TypeEasyPay :: string where "TypeEasyPay \<equiv> ''easypay''"
abbreviation TypeAirwallex :: string where "TypeAirwallex \<equiv> ''airwallex''"

definition GetBasePaymentType :: "string \<Rightarrow> string" where
  "GetBasePaymentType t =
     (if t = TypeEasyPay then TypeEasyPay
      else if t = TypeAirwallex then TypeAirwallex
      else if t = TypeStripe \<or> t = TypeCard \<or> t = TypeLink then TypeStripe
      else if has_prefix t TypeAlipay then TypeAlipay
      else if has_prefix t TypeWxpay then TypeWxpay
      else t)"

definition psIsRefundStatus :: "order_status \<Rightarrow> bool" where
  "psIsRefundStatus st \<longleftrightarrow>
     st \<in> {REFUND_REQUESTED, REFUNDING, REFUND_PENDING, PARTIALLY_REFUNDED, REFUNDED, REFUND_FAILED}"

section \<open>Audit log\<close>

datatype audit_action =
    A_ORDER_PAID | A_ORDER_RECOVERED | A_ORDER_CANCELLED | A_ORDER_EXPIRED
  | A_PAYMENT_PROVIDER_MISMATCH | A_PAYMENT_PROVIDER_METADATA_MISMATCH
  | A_PAYMENT_INVALID_AMOUNT | A_PAYMENT_AMOUNT_MISMATCH | A_PAYMENT_AFTER_EXPIRY
  | A_RECHARGE_SUCCESS | A_SUBSCRIPTION_ASSIGNED | A_SUBSCRIPTION_SUCCESS | A_FULFILLMENT_FAILED
  | A_RECHARGE_RETRY | A_AFFILIATE_REBATE_APPLIED | A_AFFILIATE_REBATE_SKIPPED
  | A_AFFILIATE_REBATE_FAILED | A_REFUND_REQUESTED | A_REFUND_PENDING | A_REFUND_SUCCESS
  | A_REFUND_FAILED | A_REFUND_GATEWAY_FAILED | A_REFUND_ROLLBACK_FAILED | A_REFUND_QUERY_PENDING
  | A_REFUND_NO_TRADE_NO | A_REFUND_PROVIDER_METADATA_MISMATCH

text \<open>Of the details, the program reads back those of \<open>REFUND_PENDING\<close> only.\<close>

record refundPendingAuditDetail =
  rd_RefundID :: string
  rd_DeductionRollbackOK :: bool

record PaymentAuditLog =
  al_OrderID :: int
  al_Action :: audit_action
  al_Operator :: string
  al_Detail :: "refundPendingAuditDetail option"
  al_CreatedAt :: go_time

section \<open>The other tables\<close>

record PaymentUser =
  pu_ID :: int
  pu_Balance :: rat
  pu_TotalRecharged :: rat
  pu_Concurrency :: int

record PaymentProviderInstance =
  pi_ID :: int
  pi_ProviderKey :: string
  pi_SupportedTypes :: string
  pi_Enabled :: bool
  pi_RefundEnabled :: bool
  pi_AllowUserRefund :: bool

text \<open>An amount a gateway reports: \<^const>\<open>None\<close> stands for NaN and the infinities.\<close>

record QueryOrderResponse =
  qr_TradeNo :: string
  qr_Paid :: bool
  qr_Amount :: "float64 option"
  qr_Metadata :: "(string \<times> string) list"

record RefundResponse =
  rr_RefundID :: string
  rr_Status :: string

datatype ledger_entry =
    CreditCode int int rat
  | ChangeConcurrency int int int
  | RefundDeduct int int rat
  | RefundRollback int int rat
  | SubscriptionAssigned int
  | SubscriptionDeducted int int
  | SubscriptionRestored int int

record pay_store =
  ps_orders :: "PaymentOrder list"
  ps_audit :: "PaymentAuditLog list"
  ps_codes :: "RedeemCode list"
  ps_next_code :: int
  ps_users :: "PaymentUser list"
  ps_instances :: "PaymentProviderInstance list"
  ps_subs :: sub_store
  ps_clock :: go_time
  ps_attempts :: "int \<Rightarrow> int"
  ps_locks :: "string set"
  ps_faults :: "fault list"
  ps_audit_faults :: "fault list"
  ps_redis_faults :: "bool list"
  ps_queries :: "(unit + QueryOrderResponse) list"
  ps_refunds :: "(RefundResponse option \<times> bool) list"
  ps_refund_queries :: "(unit + RefundResponse) list"
  ps_rebates :: "(unit + rat) list"
  ps_ledger :: "ledger_entry list"

text \<open>A provider as the service sees it. Making one from an instance decrypts its configuration and
  builds a client, which is not modelled: the configuration of the service says what comes out.\<close>

record Provider =
  pv_ProviderKey :: string
  pv_RefundQuery :: bool
  pv_Merchant :: "(string \<times> string) list"

record pay_config =
  pc_sub :: sub_config
  pc_affiliate :: bool
  pc_redeem_cache :: bool
  pc_registry :: "string \<rightharpoonup> Provider"
  pc_CreateProvider :: "PaymentProviderInstance \<rightharpoonup> Provider"

datatype pay_error = StoreError | App string | SubscriptionError sub_error

type_synonym 'a pay_task = "(pay_store, pay_error + 'a) task"

section \<open>Statements\<close>

definition col2 :: "float64 \<Rightarrow> float64" where
  "col2 x = rnd64 (dec_places 2 x)"

text \<open>One statement under the next entry of a fault script.\<close>

definition under_fault ::
  "(pay_store \<Rightarrow> fault list) \<Rightarrow> (fault list \<Rightarrow> pay_store \<Rightarrow> pay_store) \<Rightarrow>
     (pay_store \<Rightarrow> (pay_error + 'a) \<times> pay_store) \<Rightarrow> pay_store \<Rightarrow> (pay_error + 'a) \<times> pay_store" where
  "under_fault script put f s = (case script s of
     [] \<Rightarrow> f s
   | Served # fs \<Rightarrow> f (put fs s)
   | Rejected # fs \<Rightarrow> (Inl StoreError, put fs s)
   | Unanswered # fs \<Rightarrow> (Inl StoreError, snd (f (put fs s))))"

definition sql :: "(pay_store \<Rightarrow> (pay_error + 'a) \<times> pay_store) \<Rightarrow> 'a pay_task" where
  "sql f = statement (under_fault ps_faults (\<lambda>fs s. s\<lparr>ps_faults := fs\<rparr>) f)"

definition audit_sql :: "(pay_store \<Rightarrow> (pay_error + 'a) \<times> pay_store) \<Rightarrow> 'a pay_task" where
  "audit_sql f = statement (under_fault ps_audit_faults (\<lambda>fs s. s\<lparr>ps_audit_faults := fs\<rparr>) f)"

definition sql_query :: "(pay_store \<Rightarrow> 'a) \<Rightarrow> 'a pay_task" where
  "sql_query f = sql (\<lambda>s. (Inr (f s), s))"

definition now_is :: "(pay_store, go_time) task" where
  "now_is = glance ps_clock"

definition order_by_id :: "int \<Rightarrow> pay_store \<Rightarrow> PaymentOrder option" where
  "order_by_id i s = List.find (\<lambda>r. po_ID r = i) (ps_orders s)"

text \<open>\<open>entClient.PaymentOrder.Get\<close> and \<open>Query().Where(...).Only\<close>.\<close>

definition get_order :: "int \<Rightarrow> PaymentOrder option pay_task" where
  "get_order i = sql_query (order_by_id i)"

definition orders_where :: "(PaymentOrder \<Rightarrow> bool) \<Rightarrow> PaymentOrder list pay_task" where
  "orders_where P = sql_query (\<lambda>s. filter P (ps_orders s))"

text \<open>\<open>entClient.PaymentOrder.Update().Where(...)\<close>: the rows that match are changed, their
  \<open>updated_at\<close> is set, and the number of them comes back.\<close>

definition changed_orders ::
  "go_time \<Rightarrow> (PaymentOrder \<Rightarrow> bool) \<Rightarrow> (PaymentOrder \<Rightarrow> PaymentOrder) \<Rightarrow> PaymentOrder list \<Rightarrow> PaymentOrder list" where
  "changed_orders t P f rows = map (\<lambda>r. if P r then (f r)\<lparr>po_UpdatedAt := t\<rparr> else r) rows"

definition update_orders :: "(PaymentOrder \<Rightarrow> bool) \<Rightarrow> (PaymentOrder \<Rightarrow> PaymentOrder) \<Rightarrow> nat pay_task" where
  "update_orders P f = sql (\<lambda>s. (Inr (length (filter P (ps_orders s))),
     s\<lparr>ps_orders := changed_orders (ps_clock s) P f (ps_orders s)\<rparr>))"

text \<open>\<open>UpdateOneID\<close> fails when the row does not exist.\<close>

definition update_one :: "int \<Rightarrow> (PaymentOrder \<Rightarrow> PaymentOrder) \<Rightarrow> unit pay_task" where
  "update_one i f = sql (\<lambda>s.
     if order_by_id i s = None then (Inl StoreError, s)
     else (Inr (), s\<lparr>ps_orders := changed_orders (ps_clock s) (\<lambda>r. po_ID r = i) f (ps_orders s)\<rparr>))"

text \<open>The table has a unique index on order and action (migration 131), so a second entry of the same
  action is refused.\<close>

definition has_entry :: "int \<Rightarrow> audit_action \<Rightarrow> PaymentAuditLog list \<Rightarrow> bool" where
  "has_entry i act logs \<longleftrightarrow> list_ex (\<lambda>l. al_OrderID l = i \<and> al_Action l = act) logs"

definition insert_audit ::
  "int \<Rightarrow> audit_action \<Rightarrow> string \<Rightarrow> refundPendingAuditDetail option \<Rightarrow> pay_store \<Rightarrow> (pay_error + unit) \<times> pay_store" where
  "insert_audit i act op detail s =
     (if has_entry i act (ps_audit s) then (Inl StoreError, s)
      else (Inr (), s\<lparr>ps_audit := ps_audit s @ [\<lparr>al_OrderID = i, al_Action = act, al_Operator = op,
        al_Detail = detail, al_CreatedAt = ps_clock s\<rparr>]\<rparr>))"

text \<open>\<open>writeAuditLog\<close> logs an error and drops it.\<close>

definition writeAuditLog ::
  "int \<Rightarrow> audit_action \<Rightarrow> string \<Rightarrow> refundPendingAuditDetail option \<Rightarrow> (pay_store, unit) task" where
  "writeAuditLog i act op detail = ignoring (audit_sql (insert_audit i act op detail)) (Done ())"

text \<open>\<open>hasAuditLog\<close> drops an error too, and the count is then 0.\<close>

definition hasAuditLog :: "int \<Rightarrow> audit_action \<Rightarrow> (pay_store, bool) task" where
  "hasAuditLog i act = then_do (audit_sql (\<lambda>s. (Inr (has_entry i act (ps_audit s)), s)))
     (\<lambda>r. case r of Inl _ \<Rightarrow> Done False | Inr b \<Rightarrow> Done b)"

section \<open>Transactions and other services\<close>

text \<open>A transaction is one step: an error undoes it. The invalidations of the subscription service's
  process-local cache are not part of it and stay, and an answer that was given has been given.\<close>

definition rolled_back :: "pay_store \<Rightarrow> pay_store \<Rightarrow> pay_store" where
  "rolled_back s s' = s\<lparr>ps_subs := (ps_subs s)\<lparr>st_l1 := st_l1 (ps_subs s'),
     st_events := st_events (ps_subs s'), st_faults := st_faults (ps_subs s')\<rparr>,
     ps_rebates := ps_rebates s'\<rparr>"

definition tx :: "(pay_error, pay_store, 'a) prog \<Rightarrow> 'a pay_task" where
  "tx p = sql (\<lambda>s. case p s of (Inl e, s') \<Rightarrow> (Inl e, rolled_back s s') | (Inr a, s') \<Rightarrow> (Inr a, s'))"

text \<open>A call of the subscription service, whose own statements are the subject of its theory, is one
  step here.\<close>

definition with_subs :: "'a sub_prog \<Rightarrow> (pay_error, pay_store, 'a) prog" where
  "with_subs p s = (case p (ps_subs s) of
     (Inl e, t) \<Rightarrow> (Inl (SubscriptionError e), s\<lparr>ps_subs := t\<rparr>)
   | (Inr a, t) \<Rightarrow> (Inr a, s\<lparr>ps_subs := t\<rparr>))"

definition record_entry :: "ledger_entry \<Rightarrow> pay_store \<Rightarrow> pay_store" where
  "record_entry e s = s\<lparr>ps_ledger := ps_ledger s @ [e]\<rparr>"

definition noting :: "ledger_entry \<Rightarrow> (pay_error, pay_store, 'a) prog \<Rightarrow> (pay_error, pay_store, 'a) prog" where
  "noting e p = andthen p (\<lambda>a. andthen (update (record_entry e)) (\<lambda>_. ret a))"

definition user_by_id :: "int \<Rightarrow> pay_store \<Rightarrow> PaymentUser option" where
  "user_by_id i s = List.find (\<lambda>u. pu_ID u = i) (ps_users s)"

definition change_user :: "int \<Rightarrow> (PaymentUser \<Rightarrow> PaymentUser) \<Rightarrow> (pay_error, pay_store, unit) prog" where
  "change_user i f s =
     (if user_by_id i s = None then (Inl (App ''USER_NOT_FOUND''), s)
      else (Inr (), s\<lparr>ps_users := map (\<lambda>u. if pu_ID u = i then f u else u) (ps_users s)\<rparr>))"

text \<open>\<open>UpdateBalance\<close> of the user repository also counts what is added as recharged.\<close>

definition add_balance :: "float64 \<Rightarrow> PaymentUser \<Rightarrow> PaymentUser" where
  "add_balance x u = u\<lparr>pu_Balance := dec_places 8 (pu_Balance u + x)\<rparr>"

definition UpdateBalance :: "int \<Rightarrow> float64 \<Rightarrow> (pay_error, pay_store, unit) prog" where
  "UpdateBalance i x = change_user i (\<lambda>u.
     let u' = add_balance x u in
     if 0 < x then u'\<lparr>pu_TotalRecharged := dec_places 8 (pu_TotalRecharged u + x)\<rparr> else u')"

definition UpdateConcurrency :: "int \<Rightarrow> int \<Rightarrow> (pay_error, pay_store, unit) prog" where
  "UpdateConcurrency i d = change_user i (\<lambda>u. u\<lparr>pu_Concurrency := pu_Concurrency u + d\<rparr>)"

text \<open>\<open>DeductBalance\<close> sends a second statement when the balance does not cover the amount; the
  balance then goes below zero.\<close>

definition covered :: "int \<Rightarrow> float64 \<Rightarrow> pay_store \<Rightarrow> bool" where
  "covered i x s \<longleftrightarrow> (case user_by_id i s of None \<Rightarrow> False | Some u \<Rightarrow> x \<le> pu_Balance u)"

definition DeductBalance :: "ledger_entry \<Rightarrow> int \<Rightarrow> float64 \<Rightarrow> unit pay_task" where
  "DeductBalance why i x =
     or_return (sql (\<lambda>s. if covered i x s
         then (case noting why (change_user i (add_balance (- x))) s of
             (Inl e, s') \<Rightarrow> (Inl e, s') | (Inr _, s') \<Rightarrow> (Inr True, s'))
         else (Inr False, s))) (\<lambda>done.
     if done then Done (Inr ())
     else sql (noting why (change_user i (add_balance (- x)))))"

section \<open>Redis\<close>

definition redis :: "(pay_store \<Rightarrow> 'a \<times> pay_store) \<Rightarrow> 'a pay_task" where
  "redis f = statement (\<lambda>s. case ps_redis_faults s of
     [] \<Rightarrow> (case f s of (a, s') \<Rightarrow> (Inr a, s'))
   | b # bs \<Rightarrow> if b then (Inl StoreError, s\<lparr>ps_redis_faults := bs\<rparr>)
       else (case f (s\<lparr>ps_redis_faults := bs\<rparr>) of (a, s') \<Rightarrow> (Inr a, s')))"

end
