(* ===== verification/RedeemService.thy ===== *)
theory RedeemService
  imports PaymentStore
begin

text \<open>
  \<open>service/redeem_service.go\<close> with the statements of \<open>repository/redeem_code_repo.go\<close> and the Redis
  keys of \<open>repository/redeem_cache.go\<close>: creation, redemption, batch update and deletion of redeem
  codes. The keys in Redis expire on their own, which is a change from outside. The caches of user
  and balance data that a redemption invalidates are not modelled.
\<close>

abbreviation RedeemTypeBalance :: string where "RedeemTypeBalance \<equiv> ''balance''"
abbreviation RedeemTypeConcurrency :: string where "RedeemTypeConcurrency \<equiv> ''concurrency''"
abbreviation RedeemTypeSubscription :: string where "RedeemTypeSubscription \<equiv> ''subscription''"
abbreviation RedeemTypeInvitation :: string where "RedeemTypeInvitation \<equiv> ''invitation''"
abbreviation StatusUnused :: string where "StatusUnused \<equiv> ''unused''"
abbreviation StatusUsed :: string where "StatusUsed \<equiv> ''used''"
abbreviation StatusDisabled :: string where "StatusDisabled \<equiv> ''disabled''"

definition redeemMaxErrorsPerHour :: int where "redeemMaxErrorsPerHour = 20"

section \<open>Redis\<close>

definition GetRedeemAttemptCount :: "int \<Rightarrow> int pay_task" where
  "GetRedeemAttemptCount u = redis (\<lambda>s. (ps_attempts s u, s))"

definition IncrementRedeemAttemptCount :: "int \<Rightarrow> unit pay_task" where
  "IncrementRedeemAttemptCount u =
     redis (\<lambda>s. ((), s\<lparr>ps_attempts := (ps_attempts s)(u := ps_attempts s u + 1)\<rparr>))"

definition AcquireRedeemLock :: "string \<Rightarrow> bool pay_task" where
  "AcquireRedeemLock c = redis (\<lambda>s. (c \<notin> ps_locks s, s\<lparr>ps_locks := insert c (ps_locks s)\<rparr>))"

definition ReleaseRedeemLock :: "string \<Rightarrow> unit pay_task" where
  "ReleaseRedeemLock c = redis (\<lambda>s. ((), s\<lparr>ps_locks := ps_locks s - {c}\<rparr>))"

definition checkRedeemRateLimit :: "pay_config \<Rightarrow> int \<Rightarrow> unit pay_task" where
  "checkRedeemRateLimit cfg u =
     (if \<not> pc_redeem_cache cfg then Done (Inr ())
      else then_do (GetRedeemAttemptCount u) (\<lambda>r. case r of
          Inl _ \<Rightarrow> Done (Inr ())
        | Inr n \<Rightarrow> if redeemMaxErrorsPerHour \<le> n then Done (Inl (App ''REDEEM_RATE_LIMITED''))
            else Done (Inr ())))"

definition incrementRedeemErrorCount :: "pay_config \<Rightarrow> int \<Rightarrow> (pay_store, unit) task" where
  "incrementRedeemErrorCount cfg u =
     (if \<not> pc_redeem_cache cfg then Done () else ignoring (IncrementRedeemAttemptCount u) (Done ()))"

definition acquireRedeemLock :: "pay_config \<Rightarrow> string \<Rightarrow> (pay_store, bool) task" where
  "acquireRedeemLock cfg c =
     (if \<not> pc_redeem_cache cfg then Done True
      else then_do (AcquireRedeemLock c) (\<lambda>r. case r of Inl _ \<Rightarrow> Done True | Inr ok \<Rightarrow> Done ok))"

definition releaseRedeemLock :: "pay_config \<Rightarrow> string \<Rightarrow> (pay_store, unit) task" where
  "releaseRedeemLock cfg c =
     (if \<not> pc_redeem_cache cfg then Done () else ignoring (ReleaseRedeemLock c) (Done ()))"

section \<open>The table of codes\<close>

definition code_by :: "(RedeemCode \<Rightarrow> bool) \<Rightarrow> pay_store \<Rightarrow> RedeemCode option" where
  "code_by P s = List.find P (ps_codes s)"

definition code_query :: "(RedeemCode \<Rightarrow> bool) \<Rightarrow> RedeemCode pay_task" where
  "code_query P = or_return (sql_query (code_by P)) (\<lambda>found. case found of
     None \<Rightarrow> Done (Inl (App ''REDEEM_CODE_NOT_FOUND'')) | Some c \<Rightarrow> Done (Inr c))"

definition repo_GetByCode :: "string \<Rightarrow> RedeemCode pay_task" where
  "repo_GetByCode c = code_query (\<lambda>r. rc_Code r = c)"

definition repo_code_GetByID :: "int \<Rightarrow> RedeemCode pay_task" where
  "repo_code_GetByID i = code_query (\<lambda>r. rc_ID r = i)"

text \<open>\<open>code\<close> is unique.\<close>

definition repo_code_Create :: "RedeemCode \<Rightarrow> unit pay_task" where
  "repo_code_Create c = sql (\<lambda>s.
     if code_by (\<lambda>r. rc_Code r = rc_Code c) s \<noteq> None then (Inl StoreError, s)
     else (Inr (), s\<lparr>ps_codes := ps_codes s @ [c\<lparr>rc_ID := ps_next_code s\<rparr>],
       ps_next_code := ps_next_code s + 1\<rparr>))"

fun number_codes :: "int \<Rightarrow> RedeemCode list \<Rightarrow> RedeemCode list" where
  "number_codes i [] = []"
| "number_codes i (c # cs) = c\<lparr>rc_ID := i\<rparr> # number_codes (i + 1) cs"

definition repo_code_CreateBatch :: "RedeemCode list \<Rightarrow> unit pay_task" where
  "repo_code_CreateBatch cs =
     (if cs = [] then Done (Inr ())
      else sql (\<lambda>s.
        if \<not> distinct (map rc_Code cs) \<or> (\<exists>c \<in> set cs. code_by (\<lambda>r. rc_Code r = rc_Code c) s \<noteq> None)
        then (Inl StoreError, s)
        else (Inr (), s\<lparr>ps_codes := ps_codes s @ number_codes (ps_next_code s) cs,
          ps_next_code := ps_next_code s + int (length cs)\<rparr>)))"

definition repo_code_Delete :: "int \<Rightarrow> unit pay_task" where
  "repo_code_Delete i = sql (\<lambda>s. (Inr (), s\<lparr>ps_codes := filter (\<lambda>r. rc_ID r \<noteq> i) (ps_codes s)\<rparr>))"

definition mark_used :: "go_time \<Rightarrow> int \<Rightarrow> RedeemCode \<Rightarrow> RedeemCode" where
  "mark_used now u c = c\<lparr>rc_Status := StatusUsed, rc_UsedBy := Some u, rc_UsedAt := Some now\<rparr>"

definition repo_code_Use :: "int \<Rightarrow> int \<Rightarrow> (pay_error, pay_store, unit) prog" where
  "repo_code_Use i u s =
     (if \<not> list_ex (\<lambda>r. rc_ID r = i \<and> rc_Status r = StatusUnused) (ps_codes s)
      then (Inl (App ''REDEEM_CODE_USED''), s)
      else (Inr (), s\<lparr>ps_codes := map (\<lambda>r. if rc_ID r = i \<and> rc_Status r = StatusUnused
          then mark_used (ps_clock s) u r else r) (ps_codes s)\<rparr>))"

section \<open>Creation\<close>

definition new_code :: "string \<Rightarrow> string \<Rightarrow> float64 \<Rightarrow> RedeemCode" where
  "new_code c typ v = \<lparr>rc_ID = 0, rc_Code = c, rc_Type = typ, rc_Value = v, rc_Status = StatusUnused,
     rc_UsedBy = None, rc_UsedAt = None, rc_Notes = [], rc_ExpiresAt = None, rc_GroupID = None,
     rc_ValidityDays = 0\<rparr>"

text \<open>\<open>GenerateCodes\<close> draws its codes at random; they are an argument here.\<close>

definition GenerateCodes :: "string list \<Rightarrow> int \<Rightarrow> string \<Rightarrow> float64 \<Rightarrow> RedeemCode list pay_task" where
  "GenerateCodes random count typ v =
     (if count \<le> 0 then Done (Inl (App ''count must be greater than 0''))
      else if typ \<noteq> RedeemTypeInvitation \<and> v = 0 then Done (Inl (App ''value must not be zero''))
      else if 1000 < count then Done (Inl (App ''cannot generate more than 1000 codes at once''))
      else
        let codeType = (if typ = [] then RedeemTypeBalance else typ);
            value = (if codeType = RedeemTypeInvitation then 0 else v);
            codes = map (\<lambda>c. new_code c codeType value) (take (nat count) random)
        in or_return (repo_code_CreateBatch codes) (\<lambda>_. Done (Inr codes)))"

definition defaulted_code :: "RedeemCode \<Rightarrow> RedeemCode" where
  "defaulted_code c = c\<lparr>rc_Code := trim_space (rc_Code c),
     rc_Type := (if rc_Type c = [] then RedeemTypeBalance else rc_Type c),
     rc_Status := (if rc_Status c = [] then StatusUnused else rc_Status c)\<rparr>"

definition CreateCode :: "RedeemCode \<Rightarrow> unit pay_task" where
  "CreateCode c0 =
     (let c = defaulted_code c0 in
      if rc_Code c = [] then Done (Inl (App ''code is required''))
      else if rc_Type c \<noteq> RedeemTypeInvitation \<and> rc_Value c = 0
      then Done (Inl (App ''value must not be zero''))
      else then_do now_is (\<lambda>now.
        if RedeemCode_IsExpiredAt (Some c) now then Done (Inl (App ''REDEEM_CODE_EXPIRED''))
        else repo_code_Create c))"

section \<open>Redemption\<close>

definition bytes :: "nat list \<Rightarrow> string" where "bytes ns = map char_of ns"

text \<open>The notes of a subscription, in UTF-8: \<open>redeemed with code %s\<close> and
  \<open>refund with code %s, %d days deducted\<close>.\<close>

definition redeem_note :: "string \<Rightarrow> string" where
  "redeem_note c = bytes [233, 128, 154, 232, 191, 135, 229, 133, 145, 230, 141, 162, 231, 160, 129, 32] @ c
     @ bytes [32, 229, 133, 145, 230, 141, 162]"

definition deduct_note :: "string \<Rightarrow> int \<Rightarrow> string" where
  "deduct_note c d = bytes [233, 128, 154, 232, 191, 135, 229, 133, 145, 230, 141, 162, 231, 160, 129, 32] @ c
     @ bytes [32, 233, 128, 128, 230, 172, 190, 230, 137, 163, 229, 135, 143, 32] @ format_int d @ bytes [32, 229, 164, 169]"

definition reduceOrCancelSubscription ::
  "sub_config \<Rightarrow> go_time \<Rightarrow> int \<Rightarrow> int \<Rightarrow> int \<Rightarrow> string \<Rightarrow> unit sub_prog" where
  "reduceOrCancelSubscription sc now u g reduceDays c =
     andthen (attempt (repo_GetByUserIDAndGroupID u g)) (\<lambda>found. case found of
       Inl _ \<Rightarrow> throw ErrSubscriptionNotFound
     | Inr sub \<Rightarrow>
         let remaining = max 0 (days_of_duration (s_ExpiresAt sub - now));
             notes = deduct_note c reduceDays
         in andthen
           (if remaining \<le> reduceDays
            then andthen (repo_UpdateStatus now (s_ID sub) SubscriptionStatusExpired)
                   (\<lambda>_. repo_ExtendExpiry now (s_ID sub) now)
            else repo_ExtendExpiry now (s_ID sub) (AddDays (sc_cal sc) (s_ExpiresAt sub) (- reduceDays)))
           (\<lambda>_. andthen (repo_UpdateNotes now (s_ID sub)
                  (if s_Notes sub = [] then notes else s_Notes sub @ [char_of (10::nat)] @ notes))
           (\<lambda>_. InvalidateSubCache sc u g)))"

text \<open>What a code gives, inside the transaction. The balance and the concurrency a negative code takes
  away are limited by what the user had when it was read.\<close>

definition redeem_effect ::
  "pay_config \<Rightarrow> go_time \<Rightarrow> PaymentUser \<Rightarrow> RedeemCode \<Rightarrow> (pay_error, pay_store, unit) prog" where
  "redeem_effect cfg now user c =
     (if rc_Type c = RedeemTypeBalance then
        let amount = (if rc_Value c < 0 \<and> fadd (rnd64 (pu_Balance user)) (rc_Value c) < 0
                      then - rnd64 (pu_Balance user) else rc_Value c)
        in noting (CreditCode (rc_ID c) (pu_ID user) amount) (UpdateBalance (pu_ID user) amount)
      else if rc_Type c = RedeemTypeConcurrency then
        let d = trunc (rc_Value c);
            delta = (if d < 0 \<and> pu_Concurrency user + d < 0 then - pu_Concurrency user else d)
        in noting (ChangeConcurrency (rc_ID c) (pu_ID user) delta) (UpdateConcurrency (pu_ID user) delta)
      else if rc_Type c = RedeemTypeSubscription then
        (case rc_GroupID c of
           None \<Rightarrow> throw (App ''REDEEM_CODE_INVALID'')
         | Some g \<Rightarrow>
             if rc_ValidityDays c < 0
             then with_subs (reduceOrCancelSubscription (pc_sub cfg) now (pu_ID user) g
                    (- rc_ValidityDays c) (rc_Code c))
             else with_subs (andthen (AssignOrExtendSubscription (pc_sub cfg) now
                    \<lparr>ai_UserID = pu_ID user, ai_GroupID = g,
                      ai_ValidityDays = (if rc_ValidityDays c = 0 then 30 else rc_ValidityDays c),
                      ai_AssignedBy = 0, ai_Notes = redeem_note (rc_Code c)\<rparr>) (\<lambda>_. ret ())))
      else throw (App ''REDEEM_CODE_UNSUPPORTED_TYPE''))"

definition redeem_prog :: "pay_config \<Rightarrow> PaymentUser \<Rightarrow> RedeemCode \<Rightarrow> (pay_error, pay_store, unit) prog" where
  "redeem_prog cfg user c =
     andthen (repo_code_Use (rc_ID c) (pu_ID user)) (\<lambda>_. andthen (inspect ps_clock) (\<lambda>now.
     redeem_effect cfg now user c))"

definition redeem_tx :: "pay_config \<Rightarrow> PaymentUser \<Rightarrow> RedeemCode \<Rightarrow> unit pay_task" where
  "redeem_tx cfg user c = tx (redeem_prog cfg user c)"

definition get_user :: "int \<Rightarrow> PaymentUser pay_task" where
  "get_user u = or_return (sql_query (user_by_id u)) (\<lambda>found. case found of
     None \<Rightarrow> Done (Inl (App ''USER_NOT_FOUND'')) | Some r \<Rightarrow> Done (Inr r))"

text \<open>The types an ordinary redemption accepts.\<close>

definition check_type :: "RedeemCode \<Rightarrow> pay_error option" where
  "check_type c =
     (if rc_Type c = RedeemTypeBalance \<or> rc_Type c = RedeemTypeConcurrency then None
      else if rc_Type c = RedeemTypeSubscription then
        (if rc_GroupID c = None then Some (App ''REDEEM_CODE_INVALID'') else None)
      else Some (App ''REDEEM_CODE_UNSUPPORTED_TYPE''))"

definition redeem_locked :: "pay_config \<Rightarrow> int \<Rightarrow> string \<Rightarrow> RedeemCode pay_task" where
  "redeem_locked cfg u code =
     then_do (repo_GetByCode code) (\<lambda>found. case found of
       Inl e \<Rightarrow> if e = App ''REDEEM_CODE_NOT_FOUND''
           then ignoring (incrementRedeemErrorCount cfg u) (Done (Inl e)) else Done (Inl e)
     | Inr c \<Rightarrow> then_do now_is (\<lambda>now.
         if RedeemCode_IsExpiredAt (Some c) now
         then ignoring (incrementRedeemErrorCount cfg u) (Done (Inl (App ''REDEEM_CODE_EXPIRED'')))
         else if \<not> RedeemCode_CanUse now c
         then ignoring (incrementRedeemErrorCount cfg u) (Done (Inl (App ''REDEEM_CODE_USED'')))
         else case check_type c of
           Some e \<Rightarrow> Done (Inl e)
         | None \<Rightarrow> or_return (get_user u) (\<lambda>user.
             or_return (redeem_tx cfg user c) (\<lambda>_. repo_code_GetByID (rc_ID c)))))"

definition Redeem :: "pay_config \<Rightarrow> int \<Rightarrow> string \<Rightarrow> RedeemCode pay_task" where
  "Redeem cfg u code =
     or_return (checkRedeemRateLimit cfg u) (\<lambda>_.
     then_do (acquireRedeemLock cfg code) (\<lambda>locked.
       if \<not> locked then Done (Inl (App ''REDEEM_CODE_LOCKED''))
       else then_do (redeem_locked cfg u code) (\<lambda>r. ignoring (releaseRedeemLock cfg code) (Done r))))"

section \<open>Administration\<close>

record RedeemCodeBatchUpdateFields =
  bu_Status :: "string option"
  bu_ExpiresAt :: "go_time option option"
  bu_Notes :: "string option"
  bu_GroupID :: "int option option"
  bu_Type :: "string option"
  bu_Value :: "float64 option"

definition HasChanges :: "RedeemCodeBatchUpdateFields \<Rightarrow> bool" where
  "HasChanges f \<longleftrightarrow> bu_Status f \<noteq> None \<or> bu_ExpiresAt f \<noteq> None \<or> bu_Notes f \<noteq> None
     \<or> bu_GroupID f \<noteq> None \<or> bu_Type f \<noteq> None \<or> bu_Value f \<noteq> None"

definition HasCoreFieldChanges :: "RedeemCodeBatchUpdateFields \<Rightarrow> bool" where
  "HasCoreFieldChanges f \<longleftrightarrow> bu_Type f \<noteq> None \<or> bu_Value f \<noteq> None"

definition TouchesUsedSensitiveFields :: "RedeemCodeBatchUpdateFields \<Rightarrow> bool" where
  "TouchesUsedSensitiveFields f \<longleftrightarrow> bu_Status f \<noteq> None \<or> bu_ExpiresAt f \<noteq> None \<or> bu_GroupID f \<noteq> None"

definition apply_fields :: "RedeemCodeBatchUpdateFields \<Rightarrow> RedeemCode \<Rightarrow> RedeemCode" where
  "apply_fields f c = c\<lparr>
     rc_Status := (case bu_Status f of None \<Rightarrow> rc_Status c | Some v \<Rightarrow> v),
     rc_Notes := (case bu_Notes f of None \<Rightarrow> rc_Notes c | Some v \<Rightarrow> v),
     rc_ExpiresAt := (case bu_ExpiresAt f of None \<Rightarrow> rc_ExpiresAt c | Some v \<Rightarrow> v),
     rc_GroupID := (case bu_GroupID f of None \<Rightarrow> rc_GroupID c | Some v \<Rightarrow> v)\<rparr>"

text \<open>Two statements of one transaction at the default isolation level, so other statements can run
  between them. The second one does not look at the status again.\<close>

definition repo_code_BatchUpdate :: "int list \<Rightarrow> RedeemCodeBatchUpdateFields \<Rightarrow> int pay_task" where
  "repo_code_BatchUpdate ids0 f =
     (let ids = remdups ids0 in
      if ids = [] then Done (Inr 0)
      else or_return (sql_query (\<lambda>s. filter (\<lambda>r. rc_ID r \<in> set ids) (ps_codes s))) (\<lambda>existing.
        if length existing \<noteq> length ids then Done (Inl (App ''REDEEM_CODE_NOT_FOUND''))
        else if TouchesUsedSensitiveFields f \<and> list_ex (\<lambda>r. rc_Status r = StatusUsed) existing
        then Done (Inl (App ''REDEEM_CODE_USED''))
        else sql (\<lambda>s.
          if length (filter (\<lambda>r. rc_ID r \<in> set ids) (ps_codes s)) \<noteq> length ids
          then (Inl (App ''REDEEM_CODE_NOT_FOUND''), s)
          else (Inr (int (length ids)), s\<lparr>ps_codes :=
            map (\<lambda>r. if rc_ID r \<in> set ids then apply_fields f r else r) (ps_codes s)\<rparr>))))"

definition redeem_BatchUpdate :: "int list \<Rightarrow> RedeemCodeBatchUpdateFields \<Rightarrow> int pay_task" where
  "redeem_BatchUpdate ids f =
     (if ids = [] then Done (Inl (App ''REDEEM_CODE_BATCH_UPDATE_IDS_REQUIRED''))
      else if \<not> HasChanges f then Done (Inl (App ''REDEEM_CODE_BATCH_UPDATE_EMPTY''))
      else if HasCoreFieldChanges f then Done (Inl (App ''REDEEM_CODE_CORE_FIELDS_IMMUTABLE''))
      else if list_ex (\<lambda>i. i \<le> 0) ids then Done (Inl (App ''REDEEM_CODE_BATCH_UPDATE_INVALID_ID''))
      else if (case bu_Status f of None \<Rightarrow> False | Some v \<Rightarrow> v \<noteq> StatusUnused \<and> v \<noteq> StatusDisabled)
      then Done (Inl (App ''REDEEM_CODE_STATUS_INVALID''))
      else then_do now_is (\<lambda>now.
        if (case bu_ExpiresAt f of Some (Some e) \<Rightarrow> e \<le> now | _ \<Rightarrow> False)
        then Done (Inl (App ''REDEEM_CODE_EXPIRES_AT_INVALID''))
        else if (case bu_GroupID f of Some (Some g) \<Rightarrow> g \<le> 0 | _ \<Rightarrow> False)
        then Done (Inl (App ''REDEEM_CODE_GROUP_ID_INVALID''))
        else repo_code_BatchUpdate ids f))"

definition redeem_Delete :: "int \<Rightarrow> unit pay_task" where
  "redeem_Delete i = or_return (repo_code_GetByID i) (\<lambda>c.
     if RedeemCode_IsUsed c then Done (Inl (App ''REDEEM_CODE_DELETE_USED'')) else repo_code_Delete i)"

end
