(* ===== verification/PaymentAmounts.thy ===== *)
theory PaymentAmounts
  imports GoFloat GoStrings
begin

text \<open>
  Currencies and amounts: \<open>payment/currency.go\<close>, \<open>payment/fee.go\<close>, \<open>payment/amount.go\<close>,
  \<open>service/payment_amounts.go\<close> and the amount rules of order creation. The program computes with the
  package \<open>shopspring/decimal\<close>, which is not part of the repository: its operations are a parameter.
  A decimal is the rational it stands for; a property that relies on one of them names what it needs.
\<close>

record decimal_ops =
  dd_NewFromFloat :: "float64 \<Rightarrow> rat"
  dd_NewFromString :: "string \<Rightarrow> rat option"
  dd_Div :: "rat \<Rightarrow> rat \<Rightarrow> rat"
  dd_Round :: "rat \<Rightarrow> nat \<Rightarrow> rat"
  dd_RoundUp :: "rat \<Rightarrow> nat \<Rightarrow> rat"
  dd_InexactFloat64 :: "rat \<Rightarrow> float64"
  dd_StringFixed :: "rat \<Rightarrow> nat \<Rightarrow> string"

text \<open>A float a caller may have given: NaN and the infinities are apart from the numbers.\<close>

datatype go_number = Number float64 | NaN | PlusInf | MinusInf

section \<open>Currencies\<close>

abbreviation DefaultPaymentCurrency :: string where "DefaultPaymentCurrency \<equiv> ''CNY''"

record paymentCurrencyAmountUnit =
  apiMinorUnit :: nat
  maxFractionDigits :: nat

definition zeroDecimalAmountUnit :: paymentCurrencyAmountUnit where
  "zeroDecimalAmountUnit = \<lparr>apiMinorUnit = 0, maxFractionDigits = 0\<rparr>"
definition twoDecimalAmountUnit :: paymentCurrencyAmountUnit where
  "twoDecimalAmountUnit = \<lparr>apiMinorUnit = 2, maxFractionDigits = 2\<rparr>"
definition threeDecimalAmountUnit :: paymentCurrencyAmountUnit where
  "threeDecimalAmountUnit = \<lparr>apiMinorUnit = 3, maxFractionDigits = 3\<rparr>"
definition stripeLegacyZeroAmount :: paymentCurrencyAmountUnit where
  "stripeLegacyZeroAmount = \<lparr>apiMinorUnit = 2, maxFractionDigits = 0\<rparr>"

definition paymentCurrencyAmountUnits :: "(string \<times> paymentCurrencyAmountUnit) list" where
  "paymentCurrencyAmountUnits =
     map (\<lambda>c. (c, zeroDecimalAmountUnit))
       [''BIF'', ''CLP'', ''DJF'', ''GNF'', ''JPY'', ''KMF'', ''KRW'', ''MGA'', ''PYG'', ''RWF'', ''VND'',
        ''VUV'', ''XAF'', ''XOF'', ''XPF'']
     @ map (\<lambda>c. (c, stripeLegacyZeroAmount)) [''ISK'', ''UGX'']
     @ map (\<lambda>c. (c, threeDecimalAmountUnit)) [''BHD'', ''IQD'', ''JOD'', ''KWD'', ''LYD'', ''OMR'', ''TND'']"

definition upper_letter :: "char \<Rightarrow> bool" where
  "upper_letter c \<longleftrightarrow> 65 \<le> byte_of c \<and> byte_of c \<le> 90"

definition NormalizePaymentCurrency :: "string \<Rightarrow> string option" where
  "NormalizePaymentCurrency raw =
     (let currency = to_upper (trim_space raw) in
      if currency = [] then Some DefaultPaymentCurrency
      else if length currency \<noteq> 3 then None
      else if \<not> list_all upper_letter currency then None
      else Some currency)"

definition paymentCurrencyAmountUnitFor :: "string \<Rightarrow> paymentCurrencyAmountUnit" where
  "paymentCurrencyAmountUnitFor currency = (case NormalizePaymentCurrency currency of
     None \<Rightarrow> twoDecimalAmountUnit
   | Some n \<Rightarrow> (case map_of paymentCurrencyAmountUnits n of Some u \<Rightarrow> u | None \<Rightarrow> twoDecimalAmountUnit))"

definition CurrencyMinorUnit :: "string \<Rightarrow> nat" where
  "CurrencyMinorUnit currency = apiMinorUnit (paymentCurrencyAmountUnitFor currency)"

definition CurrencyMaxFractionDigits :: "string \<Rightarrow> nat" where
  "CurrencyMaxFractionDigits currency = maxFractionDigits (paymentCurrencyAmountUnitFor currency)"

section \<open>Minor units\<close>

datatype amount_error = InvalidAmount string | InvalidCurrency | NotWhole string | TooManyDecimals string nat

definition is_whole :: "rat \<Rightarrow> bool" where "is_whole x \<longleftrightarrow> of_int \<lfloor>x\<rfloor> = x"

text \<open>\<open>IntPart\<close> is the integer part toward zero; the int64 it fits in is not exceeded by an amount of
  less than 10 to the 15th.\<close>

definition AmountToMinorUnit :: "decimal_ops \<Rightarrow> string \<Rightarrow> string \<Rightarrow> amount_error + int" where
  "AmountToMinorUnit dd amountStr currency =
     (case dd_NewFromString dd (trim_space amountStr) of
        None \<Rightarrow> Inl (InvalidAmount amountStr)
      | Some d \<Rightarrow> (case NormalizePaymentCurrency currency of
          None \<Rightarrow> Inl InvalidCurrency
        | Some c \<Rightarrow>
            let u = paymentCurrencyAmountUnitFor c in
            if \<not> is_whole (d * 10 ^ maxFractionDigits u) then
              (if maxFractionDigits u = 0 then Inl (NotWhole c)
               else Inl (TooManyDecimals c (maxFractionDigits u)))
            else Inr (trunc (d * 10 ^ apiMinorUnit u))))"

definition MinorUnitToAmount :: "decimal_ops \<Rightarrow> int \<Rightarrow> string \<Rightarrow> float64" where
  "MinorUnitToAmount dd v currency =
     dd_InexactFloat64 dd (dd_Div dd (of_int v) (10 ^ CurrencyMinorUnit currency))"

definition YuanToFen :: "decimal_ops \<Rightarrow> string \<Rightarrow> amount_error + int" where
  "YuanToFen dd s = AmountToMinorUnit dd s DefaultPaymentCurrency"

definition FenToYuan :: "decimal_ops \<Rightarrow> int \<Rightarrow> float64" where
  "FenToYuan dd v = MinorUnitToAmount dd v DefaultPaymentCurrency"

definition FormatAmountForCurrency :: "decimal_ops \<Rightarrow> float64 \<Rightarrow> string \<Rightarrow> string" where
  "FormatAmountForCurrency dd x currency =
     dd_StringFixed dd (dd_NewFromFloat dd x) (CurrencyMaxFractionDigits currency)"

section \<open>Fees, credited balance, refunds\<close>

definition CalculatePayAmountForCurrency :: "decimal_ops \<Rightarrow> float64 \<Rightarrow> float64 \<Rightarrow> string \<Rightarrow> string" where
  "CalculatePayAmountForCurrency dd rechargeAmount feeRate currency =
     (let digits = CurrencyMaxFractionDigits currency; amount = dd_NewFromFloat dd rechargeAmount in
      if feeRate \<le> 0 then dd_StringFixed dd amount digits
      else let fee = dd_RoundUp dd (dd_Div dd (amount * dd_NewFromFloat dd feeRate) 100) digits in
        dd_StringFixed dd (amount + fee) digits)"

definition CalculatePayAmount :: "decimal_ops \<Rightarrow> float64 \<Rightarrow> float64 \<Rightarrow> string" where
  "CalculatePayAmount dd rechargeAmount feeRate =
     CalculatePayAmountForCurrency dd rechargeAmount feeRate DefaultPaymentCurrency"

definition normalizeBalanceRechargeMultiplier :: "go_number \<Rightarrow> float64" where
  "normalizeBalanceRechargeMultiplier m =
     (case m of Number x \<Rightarrow> if x \<le> 0 then 1 else x | _ \<Rightarrow> 1)"

definition normalizeSubscriptionUSDToCNYRate :: "go_number \<Rightarrow> float64" where
  "normalizeSubscriptionUSDToCNYRate r = (case r of Number x \<Rightarrow> if x < 0 then 0 else x | _ \<Rightarrow> 0)"

definition calculateCreditedBalance :: "decimal_ops \<Rightarrow> float64 \<Rightarrow> go_number \<Rightarrow> float64" where
  "calculateCreditedBalance dd paymentAmount multiplier =
     dd_InexactFloat64 dd (dd_Round dd (dd_NewFromFloat dd paymentAmount
       * dd_NewFromFloat dd (normalizeBalanceRechargeMultiplier multiplier)) 2)"

definition amountToleranceCNY :: float64 where "amountToleranceCNY = rnd64 (1 / 100)"

definition paymentAmountToleranceForCurrency :: "string \<Rightarrow> float64" where
  "paymentAmountToleranceForCurrency currency =
     (let minorUnit = CurrencyMinorUnit currency in
      if minorUnit \<le> 2 then amountToleranceCNY else fdiv (rnd64 (1 / 10 ^ minorUnit)) 2)"

definition isValidProviderAmount :: "float64 option \<Rightarrow> bool" where
  "isValidProviderAmount amount = (case amount of None \<Rightarrow> False | Some x \<Rightarrow> 0 < x)"

definition calculateGatewayRefundAmount ::
  "decimal_ops \<Rightarrow> float64 \<Rightarrow> float64 \<Rightarrow> float64 \<Rightarrow> string \<Rightarrow> float64" where
  "calculateGatewayRefundAmount dd orderAmount payAmount refundAmount currency =
     (if orderAmount \<le> 0 \<or> payAmount \<le> 0 \<or> refundAmount \<le> 0 then 0
      else
        let digits = CurrencyMaxFractionDigits currency in
        if \<bar>fsub refundAmount orderAmount\<bar> \<le> paymentAmountToleranceForCurrency currency
        then dd_InexactFloat64 dd (dd_Round dd (dd_NewFromFloat dd payAmount) digits)
        else dd_InexactFloat64 dd (dd_Round dd (dd_Div dd
          (dd_NewFromFloat dd payAmount * dd_NewFromFloat dd refundAmount)
          (dd_NewFromFloat dd orderAmount)) digits))"

section \<open>Amounts of a new order\<close>

definition calculateSubscriptionGatewayBaseAmount ::
  "decimal_ops \<Rightarrow> float64 \<Rightarrow> go_number \<Rightarrow> string \<Rightarrow> float64" where
  "calculateSubscriptionGatewayBaseAmount dd amount usdToCnyRate currency =
     (let rate = normalizeSubscriptionUSDToCNYRate usdToCnyRate in
      if rate \<le> 0 \<or> currency \<noteq> DefaultPaymentCurrency then amount
      else dd_InexactFloat64 dd (dd_Round dd (dd_NewFromFloat dd amount * dd_NewFromFloat dd rate)
        (CurrencyMaxFractionDigits currency)))"

definition psComputeValidityDays :: "int \<Rightarrow> string \<Rightarrow> int" where
  "psComputeValidityDays days u =
     (if u = ''week'' \<or> u = ''weeks'' then days * 7
      else if u = ''month'' \<or> u = ''months'' then days * 30 else days)"

section \<open>Minor units are exact\<close>

text \<open>Normalised currencies are normalised.\<close>

lemma normalized_again: "NormalizePaymentCurrency cur = Some c \<Longrightarrow> NormalizePaymentCurrency c = Some c"
proof -
  assume *: "NormalizePaymentCurrency cur = Some c"
  show ?thesis
  proof (cases "to_upper (trim_space cur) = []")
    case True
    with * have "c = DefaultPaymentCurrency" by (simp add: NormalizePaymentCurrency_def Let_def)
    moreover have "NormalizePaymentCurrency DefaultPaymentCurrency = Some DefaultPaymentCurrency" by code_simp
    ultimately show ?thesis by simp
  next
    case False
    with * have c: "length c = 3" "list_all upper_letter c"
      by (auto simp: NormalizePaymentCurrency_def Let_def split: if_splits)
    then have "to_upper c = c"
      by (auto simp: to_upper_def list_all_iff upper_letter_def upper_char_def intro!: map_idI)
    moreover have "trim_space c = c"
      using c by (intro trim_space_visible) (auto simp: list_all_iff upper_letter_def visible_def)
    moreover have "c \<noteq> []" using c(1) by auto
    ultimately show ?thesis using c by (simp add: NormalizePaymentCurrency_def Let_def)
  qed
qed

lemma amount_unit_normalized:
  "NormalizePaymentCurrency cur = Some c \<Longrightarrow> paymentCurrencyAmountUnitFor c = paymentCurrencyAmountUnitFor cur"
  by (simp add: paymentCurrencyAmountUnitFor_def normalized_again)

text \<open>No currency takes more decimals than its minor unit has.\<close>

lemma digits_within_minor_unit:
  "maxFractionDigits (paymentCurrencyAmountUnitFor cur) \<le> apiMinorUnit (paymentCurrencyAmountUnitFor cur)"
proof -
  have "list_all (\<lambda>(_, u). maxFractionDigits u \<le> apiMinorUnit u) paymentCurrencyAmountUnits" by code_simp
  then have "maxFractionDigits u \<le> apiMinorUnit u" if "map_of paymentCurrencyAmountUnits n = Some u" for n u
    using that by (auto simp: list_all_iff dest: map_of_SomeD)
  then show ?thesis
    by (auto simp: paymentCurrencyAmountUnitFor_def twoDecimalAmountUnit_def split: option.split)
qed

text \<open>The package divides by a power of ten without rounding while the quotient has at most its
  sixteen decimals, and converts a decimal to the nearest float.\<close>

definition exact_decimals :: "decimal_ops \<Rightarrow> bool" where
  "exact_decimals dd \<longleftrightarrow> (\<forall>v n. n \<le> 16 \<longrightarrow> dd_Div dd (of_int v) (10 ^ n) = of_int v / 10 ^ n)
     \<and> dd_InexactFloat64 dd = rnd64"

lemma minor_unit_small: "CurrencyMinorUnit cur \<le> 16"
proof -
  have "list_all (\<lambda>(_, u). apiMinorUnit u \<le> 16) paymentCurrencyAmountUnits" by code_simp
  then have "apiMinorUnit u \<le> 16" if "map_of paymentCurrencyAmountUnits n = Some u" for n u
    using that by (auto simp: list_all_iff dest: map_of_SomeD)
  then show ?thesis
    by (auto simp: CurrencyMinorUnit_def paymentCurrencyAmountUnitFor_def twoDecimalAmountUnit_def split: option.split)
qed

lemma whole_trunc: "is_whole x \<Longrightarrow> of_int (trunc x) = x"
proof -
  assume "is_whole x"
  then obtain n where "x = of_int n" unfolding is_whole_def by metis
  then show ?thesis by (simp add: trunc_def flip: of_int_minus)
qed

lemma is_whole_mult: "is_whole x \<Longrightarrow> is_whole (x * 10 ^ n)"
  unfolding is_whole_def by (metis floor_of_int of_int_mult of_int_numeral of_int_power)


end
