(* ===== verification/PaymentProviders.thy ===== *)
theory PaymentProviders
  imports PaymentStore PaymentAmounts
begin

text \<open>
  Which provider instance an order belongs to, and whether a message of a gateway is about it:
  \<open>service/payment_order_provider_snapshot.go\<close>, the instance lookups of \<open>service/payment_refund.go\<close>
  and \<open>service/payment_order_lifecycle.go\<close>, \<open>service/payment_webhook_provider.go\<close> and
  \<open>InstanceSupportsType\<close> of \<open>payment/load_balancer.go\<close>. A registry maps a payment type to the
  provider registered last for it.
\<close>

definition equal_fold :: "string \<Rightarrow> string \<Rightarrow> bool" where
  "equal_fold s t \<longleftrightarrow> to_lower s = to_lower t"

definition psStringValue :: "string option \<Rightarrow> string" where
  "psStringValue v = (case v of None \<Rightarrow> [] | Some s \<Rightarrow> s)"

section \<open>Snapshots\<close>

record paymentOrderProviderSnapshot =
  sn_SchemaVersion :: int
  sn_ProviderInstanceID :: string
  sn_ProviderKey :: string
  sn_PaymentMode :: string
  sn_MerchantAppID :: string
  sn_MerchantID :: string
  sn_Currency :: string

definition psSnapshotStringValue :: "snapshot_value option \<Rightarrow> string" where
  "psSnapshotStringValue v = (case v of Some (SnapshotText s) \<Rightarrow> trim_space s | _ \<Rightarrow> [])"

definition psSnapshotIntValue :: "snapshot_value option \<Rightarrow> int" where
  "psSnapshotIntValue v = (case v of
     Some (SnapshotNumber n) \<Rightarrow> n
   | Some (SnapshotText s) \<Rightarrow> (case parse_int64 (trim_space s) of Some n \<Rightarrow> n | None \<Rightarrow> 0)
   | _ \<Rightarrow> 0)"

definition psOrderProviderSnapshot :: "PaymentOrder \<Rightarrow> paymentOrderProviderSnapshot option" where
  "psOrderProviderSnapshot ord =
     (if po_ProviderSnapshot ord = [] then None
      else
        let field = map_of (po_ProviderSnapshot ord);
            snapshot = \<lparr>sn_SchemaVersion = psSnapshotIntValue (field ''schema_version''),
              sn_ProviderInstanceID = psSnapshotStringValue (field ''provider_instance_id''),
              sn_ProviderKey = psSnapshotStringValue (field ''provider_key''),
              sn_PaymentMode = psSnapshotStringValue (field ''payment_mode''),
              sn_MerchantAppID = psSnapshotStringValue (field ''merchant_app_id''),
              sn_MerchantID = psSnapshotStringValue (field ''merchant_id''),
              sn_Currency = psSnapshotStringValue (field ''currency'')\<rparr>
        in if snapshot = \<lparr>sn_SchemaVersion = 0, sn_ProviderInstanceID = [], sn_ProviderKey = [],
              sn_PaymentMode = [], sn_MerchantAppID = [], sn_MerchantID = [], sn_Currency = []\<rparr>
           then None else Some snapshot)"

definition PaymentOrderCurrency :: "PaymentOrder \<Rightarrow> string" where
  "PaymentOrderCurrency ord = (case psOrderProviderSnapshot ord of
     None \<Rightarrow> DefaultPaymentCurrency
   | Some sn \<Rightarrow> (case NormalizePaymentCurrency (sn_Currency sn) of
       None \<Rightarrow> DefaultPaymentCurrency | Some c \<Rightarrow> c))"

section \<open>The instance of an order\<close>

definition get_instance :: "int \<Rightarrow> PaymentProviderInstance option pay_task" where
  "get_instance i = sql_query (\<lambda>s. List.find (\<lambda>r. pi_ID r = i) (ps_instances s))"

definition resolveSnapshotOrderProviderInstance ::
  "PaymentOrder \<Rightarrow> paymentOrderProviderSnapshot \<Rightarrow> PaymentProviderInstance option pay_task" where
  "resolveSnapshotOrderProviderInstance ord sn =
     (let column = trim_space (psStringValue (po_ProviderInstanceID ord));
          wanted = (if trim_space (sn_ProviderInstanceID sn) = [] then column
                    else trim_space (sn_ProviderInstanceID sn))
      in if wanted = [] then Done (Inl (App ''provider snapshot is missing provider_instance_id''))
         else if column \<noteq> [] \<and> sn_ProviderInstanceID sn \<noteq> [] \<and> \<not> equal_fold column (sn_ProviderInstanceID sn)
         then Done (Inl (App ''provider snapshot instance mismatch''))
         else case parse_int64 wanted of
           None \<Rightarrow> Done (Inl (App ''provider snapshot instance id is invalid''))
         | Some i \<Rightarrow> or_return (get_instance i) (\<lambda>found. case found of
             None \<Rightarrow> Done (Inl (App ''provider snapshot instance is missing''))
           | Some inst \<Rightarrow>
               if sn_ProviderKey sn \<noteq> [] \<and> \<not> equal_fold (trim_space (pi_ProviderKey inst)) (sn_ProviderKey sn)
               then Done (Inl (App ''provider snapshot key mismatch''))
               else Done (Inr (Some inst))))"

definition normalizeVisibleMethodSupportType :: "string \<Rightarrow> string" where
  "normalizeVisibleMethodSupportType t =
     (let s = trim_space t in
      if s = TypeAlipay \<or> s = ''alipay_direct'' then TypeAlipay
      else if s = TypeWxpay \<or> s = ''wxpay_direct'' then TypeWxpay else s)"

definition InstanceSupportsType :: "string \<Rightarrow> string \<Rightarrow> bool" where
  "InstanceSupportsType supportedTypes target \<longleftrightarrow>
     supportedTypes = [] \<or> list_ex (\<lambda>t. let supported = trim_space t in
        supported = target
        \<or> normalizeVisibleMethodSupportType supported = normalizeVisibleMethodSupportType target)
       (split_char (CHR '','') supportedTypes)"

definition psLegacyOrderMatchesInstance :: "string \<Rightarrow> PaymentProviderInstance \<Rightarrow> bool" where
  "psLegacyOrderMatchesInstance orderPaymentType inst =
     (let baseType = GetBasePaymentType (trim_space orderPaymentType);
          key = trim_space (pi_ProviderKey inst)
      in if baseType = [] then False
         else if baseType = TypeStripe then key = TypeStripe
         else if key = TypeStripe then False
         else if key = baseType then True
         else InstanceSupportsType (pi_SupportedTypes inst) baseType)"

definition psFilterLegacyOrderProviderInstances ::
  "string \<Rightarrow> PaymentProviderInstance list \<Rightarrow> PaymentProviderInstance list" where
  "psFilterLegacyOrderProviderInstances t insts =
     (if trim_space t = [] then insts else filter (psLegacyOrderMatchesInstance t) insts)"

definition only_one :: "'a list \<Rightarrow> 'a option" where
  "only_one xs = (case xs of [x] \<Rightarrow> Some x | _ \<Rightarrow> None)"

definition resolveUniqueLegacyOrderProviderInstance ::
  "PaymentOrder \<Rightarrow> PaymentProviderInstance option pay_task" where
  "resolveUniqueLegacyOrderProviderInstance ord =
     (let paymentType = GetBasePaymentType (trim_space (po_PaymentType ord));
          key = trim_space (psStringValue (po_ProviderKey ord));
          pick = (\<lambda>insts. Done (Inr (only_one (psFilterLegacyOrderProviderInstances paymentType insts))))
      in if key \<noteq> []
         then or_return (sql_query (\<lambda>s. filter (\<lambda>r. pi_ProviderKey r = key) (ps_instances s))) pick
         else if paymentType = [] then Done (Inr None)
         else or_return (sql_query ps_instances) pick)"

definition getOrderProviderInstance :: "PaymentOrder \<Rightarrow> PaymentProviderInstance option pay_task" where
  "getOrderProviderInstance ord = (case psOrderProviderSnapshot ord of
     Some sn \<Rightarrow> resolveSnapshotOrderProviderInstance ord sn
   | None \<Rightarrow>
       let wanted = trim_space (psStringValue (po_ProviderInstanceID ord)) in
       if wanted = [] then resolveUniqueLegacyOrderProviderInstance ord
       else case parse_int64 wanted of
         None \<Rightarrow> Done (Inr None)
       | Some i \<Rightarrow> or_return (get_instance i) (\<lambda>found. case found of
           None \<Rightarrow> Done (Inl StoreError) | Some inst \<Rightarrow> Done (Inr (Some inst))))"

definition getRefundOrderProviderInstance :: "PaymentOrder \<Rightarrow> PaymentProviderInstance option pay_task" where
  "getRefundOrderProviderInstance ord = (case psOrderProviderSnapshot ord of
     Some sn \<Rightarrow> resolveSnapshotOrderProviderInstance ord sn
   | None \<Rightarrow>
       let wanted = trim_space (psStringValue (po_ProviderInstanceID ord)) in
       if wanted = [] then Done (Inr None)
       else case parse_int64 wanted of
         None \<Rightarrow> Done (Inl (App ''refund provider instance id is invalid''))
       | Some i \<Rightarrow> or_return (get_instance i) (\<lambda>found. case found of
           None \<Rightarrow> Done (Inl (App ''refund provider instance is missing''))
         | Some inst \<Rightarrow> Done (Inr (Some inst))))"

section \<open>Providers\<close>

definition createProviderFromInstance :: "pay_config \<Rightarrow> PaymentProviderInstance \<Rightarrow> Provider pay_task" where
  "createProviderFromInstance cfg inst = (case pc_CreateProvider cfg inst of
     None \<Rightarrow> Done (Inl (App ''create provider from instance'')) | Some p \<Rightarrow> Done (Inr p))"

definition paymentOrderAllowsRegistryFallback :: "PaymentOrder \<Rightarrow> bool" where
  "paymentOrderAllowsRegistryFallback ord \<longleftrightarrow> psOrderProviderSnapshot ord = None
     \<and> trim_space (psStringValue (po_ProviderInstanceID ord)) = []
     \<and> trim_space (psStringValue (po_ProviderKey ord)) = []"

definition GetProviderKey :: "pay_config \<Rightarrow> string \<Rightarrow> string" where
  "GetProviderKey cfg t = (case pc_registry cfg t of None \<Rightarrow> [] | Some p \<Rightarrow> pv_ProviderKey p)"

definition paymentOrderFallbackProviderKey :: "pay_config \<Rightarrow> PaymentOrder \<Rightarrow> string" where
  "paymentOrderFallbackProviderKey cfg ord =
     (let key = trim_space (GetProviderKey cfg (po_PaymentType ord)) in
      if key \<noteq> [] then key else trim_space (GetBasePaymentType (trim_space (po_PaymentType ord))))"

definition webhookRegistryFallbackAllowed :: "string \<Rightarrow> (pay_store, bool) task" where
  "webhookRegistryFallbackAllowed providerKey =
     (let key = trim_space providerKey in
      if key = [] then Done False
      else then_do (sql_query (\<lambda>s. length (filter (\<lambda>r. pi_ProviderKey r = key \<and> pi_Enabled r) (ps_instances s))))
        (\<lambda>r. case r of Inl _ \<Rightarrow> Done False | Inr n \<Rightarrow> Done (n \<le> 1)))"

definition getOrderProvider :: "pay_config \<Rightarrow> PaymentOrder \<Rightarrow> Provider pay_task" where
  "getOrderProvider cfg ord =
     or_return (getOrderProviderInstance ord) (\<lambda>found. case found of
       Some inst \<Rightarrow> createProviderFromInstance cfg inst
     | None \<Rightarrow>
         if \<not> paymentOrderAllowsRegistryFallback ord then Done (Inl (App ''provider instance is unresolved''))
         else
           let key = paymentOrderFallbackProviderKey cfg ord in
           if key = [] then Done (Inl (App ''provider fallback key is missing''))
           else then_do (webhookRegistryFallbackAllowed key) (\<lambda>ok.
             if \<not> ok then Done (Inl (App ''provider fallback is ambiguous''))
             else case pc_registry cfg (po_PaymentType ord) of
               None \<Rightarrow> Done (Inl (App ''PROVIDER_NOT_FOUND'')) | Some p \<Rightarrow> Done (Inr p)))"

definition getRefundProvider :: "pay_config \<Rightarrow> PaymentOrder \<Rightarrow> Provider pay_task" where
  "getRefundProvider cfg ord =
     or_return (getRefundOrderProviderInstance ord) (\<lambda>found. case found of
       None \<Rightarrow> Done (Inl (App ''refund provider instance is unavailable''))
     | Some inst \<Rightarrow> createProviderFromInstance cfg inst)"

section \<open>Which provider verifies a webhook\<close>

definition psHasPinnedProviderInstance :: "PaymentOrder \<Rightarrow> bool" where
  "psHasPinnedProviderInstance ord \<longleftrightarrow> psOrderProviderSnapshot ord \<noteq> None
     \<or> (case po_ProviderInstanceID ord of None \<Rightarrow> False | Some i \<Rightarrow> trim_space i \<noteq> [])"

definition getPinnedOrderProvider :: "pay_config \<Rightarrow> PaymentOrder \<Rightarrow> Provider pay_task" where
  "getPinnedOrderProvider cfg ord =
     or_return (getOrderProviderInstance ord) (\<lambda>found. case found of
       None \<Rightarrow> Done (Inl (App ''provider instance is missing''))
     | Some inst \<Rightarrow> createProviderFromInstance cfg inst)"

text \<open>The instances come in the order of their column \<open>sort_order\<close>, here the order of the table.\<close>

definition getEnabledWebhookProvidersByKey :: "pay_config \<Rightarrow> string \<Rightarrow> Provider list pay_task" where
  "getEnabledWebhookProvidersByKey cfg providerKey =
     (let key = trim_space providerKey in
      or_return (sql_query (\<lambda>s. filter (\<lambda>r. pi_ProviderKey r = key \<and> pi_Enabled r) (ps_instances s))) (\<lambda>insts.
        let providers = List.map_filter (pc_CreateProvider cfg) insts in
        if providers = [] then Done (Inl (App ''PROVIDER_NOT_FOUND'')) else Done (Inr providers)))"

text \<open>A provider of the registry is looked up by its key among the registered payment types, which are
  an argument: the code goes through a map, and takes one of the providers with that key.\<close>

definition GetProviderByKey :: "pay_config \<Rightarrow> string list \<Rightarrow> string \<Rightarrow> Provider list pay_task" where
  "GetProviderByKey cfg registered key =
     (case filter (\<lambda>p. pv_ProviderKey p = key) (List.map_filter (pc_registry cfg) registered) of
        [] \<Rightarrow> Done (Inl (App ''PROVIDER_NOT_FOUND'')) | p # _ \<Rightarrow> Done (Inr [p]))"

definition registry_webhook_provider :: "pay_config \<Rightarrow> string list \<Rightarrow> string \<Rightarrow> Provider list pay_task" where
  "registry_webhook_provider cfg registered providerKey =
     (if trim_space providerKey = TypeWxpay then getEnabledWebhookProvidersByKey cfg providerKey
      else then_do (webhookRegistryFallbackAllowed providerKey) (\<lambda>ok.
        if \<not> ok then Done (Inl (App ''webhook provider fallback is ambiguous''))
        else GetProviderByKey cfg registered providerKey))"

definition single :: "Provider pay_task \<Rightarrow> Provider list pay_task" where
  "single m = or_return m (\<lambda>p. Done (Inr [p]))"

definition order_by_trade_no :: "string \<Rightarrow> pay_store \<Rightarrow> PaymentOrder option" where
  "order_by_trade_no n s = only_one (filter (\<lambda>r. po_OutTradeNo r = n) (ps_orders s))"

definition GetWebhookProviders :: "pay_config \<Rightarrow> string list \<Rightarrow> string \<Rightarrow> string \<Rightarrow> Provider list pay_task" where
  "GetWebhookProviders cfg registered providerKey outTradeNo =
     (if outTradeNo = [] then registry_webhook_provider cfg registered providerKey
      else then_do (sql_query (order_by_trade_no outTradeNo)) (\<lambda>r. case r of
        Inr (Some ord) \<Rightarrow>
          if psHasPinnedProviderInstance ord then single (getPinnedOrderProvider cfg ord)
          else or_return (getOrderProviderInstance ord) (\<lambda>found. case found of
              Some inst \<Rightarrow> single (createProviderFromInstance cfg inst)
            | None \<Rightarrow> registry_webhook_provider cfg registered providerKey)
      | _ \<Rightarrow> registry_webhook_provider cfg registered providerKey))"

section \<open>Messages of a gateway\<close>

definition expectedNotificationProviderKey :: "pay_config \<Rightarrow> string \<Rightarrow> string \<Rightarrow> string \<Rightarrow> string" where
  "expectedNotificationProviderKey cfg orderPaymentType orderProviderKey instanceProviderKey =
     (if trim_space instanceProviderKey \<noteq> [] then trim_space instanceProviderKey
      else if trim_space orderProviderKey \<noteq> [] then trim_space orderProviderKey
      else if trim_space (GetProviderKey cfg orderPaymentType) \<noteq> []
      then trim_space (GetProviderKey cfg orderPaymentType)
      else trim_space orderPaymentType)"

definition expectedNotificationProviderKeyForOrder :: "pay_config \<Rightarrow> PaymentOrder \<Rightarrow> string \<Rightarrow> string" where
  "expectedNotificationProviderKeyForOrder cfg ord instanceProviderKey =
     expectedNotificationProviderKey cfg (po_PaymentType ord)
       (case psOrderProviderSnapshot ord of
          Some sn \<Rightarrow> if sn_ProviderKey sn \<noteq> [] then sn_ProviderKey sn else psStringValue (po_ProviderKey ord)
        | None \<Rightarrow> psStringValue (po_ProviderKey ord))
       instanceProviderKey"

definition meta :: "(string \<times> string) list \<Rightarrow> string \<Rightarrow> string" where
  "meta md k = (case map_of md k of None \<Rightarrow> [] | Some v \<Rightarrow> trim_space v)"

text \<open>One expected value of the snapshot against the message; nothing is expected when it is empty.\<close>

definition matches :: "string \<Rightarrow> string \<Rightarrow> bool" where
  "matches expected actual \<longleftrightarrow>
     trim_space expected = [] \<or> (actual \<noteq> [] \<and> equal_fold (trim_space expected) actual)"

definition state_is :: "string \<Rightarrow> string \<Rightarrow> bool" where
  "state_is wanted actual \<longleftrightarrow> actual = [] \<or> equal_fold actual wanted"

definition validateProviderSnapshotMetadata ::
  "PaymentOrder \<Rightarrow> string \<Rightarrow> (string \<times> string) list \<Rightarrow> pay_error option" where
  "validateProviderSnapshotMetadata ord providerKey md =
     (if md = [] then None
      else case psOrderProviderSnapshot ord of
        None \<Rightarrow> None
      | Some sn \<Rightarrow>
          let key = trim_space providerKey; check = (\<lambda>ok what. if ok then None else Some (App what)) in
          if key = TypeWxpay then
            (if \<not> matches (sn_MerchantAppID sn) (meta md ''appid'') then Some (App ''wxpay appid'')
             else if \<not> matches (sn_MerchantID sn) (meta md ''mchid'') then Some (App ''wxpay mchid'')
             else if \<not> matches (sn_Currency sn) (to_upper (meta md ''currency'')) then Some (App ''wxpay currency'')
             else check (state_is ''SUCCESS'' (meta md ''trade_state'')) ''wxpay trade_state'')
          else if key = TypeAlipay then
            check (matches (sn_MerchantAppID sn) (meta md ''app_id'')) ''alipay app_id''
          else if key = TypeEasyPay then
            check (matches (sn_MerchantID sn) (meta md ''pid'')) ''easypay pid''
          else if key = TypeStripe then
            check (matches (sn_Currency sn) (to_upper (meta md ''currency''))) ''stripe currency''
          else if key = TypeAirwallex then
            (if \<not> matches (sn_MerchantID sn) (meta md ''account_id'') then Some (App ''airwallex account_id'')
             else if \<not> matches (sn_Currency sn) (to_upper (meta md ''currency'')) then Some (App ''airwallex currency'')
             else check (state_is ''SUCCEEDED'' (meta md ''status'')) ''airwallex status'')
          else None)"

end
