(* ===== verification/AccountQuota.thy ===== *)
theory AccountQuota
  imports GoFloat
begin

text \<open>
  Quotas of upstream accounts, kept in the JSON column \<open>accounts.extra\<close>: the SQL expressions of
  \<open>repository/account_repo.go\<close> that count usage and reset the daily and weekly windows, and the Go code
  of \<open>service/account.go\<close> that reads the same fields. The fields are those of the JSON object, with
  \<^const>\<open>None\<close> for a key that is not there; a time stands for its RFC 3339 text, and the beginnings of
  windows are whole seconds. Zones are the time-zone databases of Go and of PostgreSQL, which are not
  part of the repository: \<open>Local\<close> is the wall clock of a zone at an instant, in nanoseconds since its
  1st of January 1970, and \<open>Utc\<close> the instant of a wall clock.
\<close>

record account_extra =
  ax_QuotaLimit :: "rat option"
  ax_QuotaUsed :: "rat option"
  ax_DailyLimit :: "rat option"
  ax_DailyUsed :: "rat option"
  ax_DailyStart :: "go_time option"
  ax_DailyResetMode :: "string option"
  ax_DailyResetHour :: "int option"
  ax_DailyResetAt :: "go_time option"
  ax_WeeklyLimit :: "rat option"
  ax_WeeklyUsed :: "rat option"
  ax_WeeklyStart :: "go_time option"
  ax_WeeklyResetMode :: "string option"
  ax_WeeklyResetDay :: "int option"
  ax_WeeklyResetHour :: "int option"
  ax_WeeklyResetAt :: "go_time option"
  ax_ResetTimezone :: "string option"

record zones =
  Local :: "string \<Rightarrow> go_time \<Rightarrow> int"
  Utc :: "string \<Rightarrow> int \<Rightarrow> go_time"
  Loadable :: "string \<Rightarrow> bool"

abbreviation a_day :: go_duration where "a_day \<equiv> 24 * hour"

definition DefaultQuotaResetTimezone :: string where "DefaultQuotaResetTimezone = ''Asia/Shanghai''"

abbreviation fixed_mode :: string where "fixed_mode \<equiv> ''fixed''"
abbreviation rolling_mode :: string where "rolling_mode \<equiv> ''rolling''"

definition or_else :: "'a option \<Rightarrow> 'a \<Rightarrow> 'a" where
  "or_else x d = (case x of None \<Rightarrow> d | Some a \<Rightarrow> a)"

lemma or_else_simps [simp]: "or_else None d = d" "or_else (Some a) d = a"
  by (simp_all add: or_else_def)

text \<open>\<open>date_trunc('day', w)\<close> and \<open>EXTRACT(DOW FROM w)\<close>: the 1st of January 1970 was a Thursday.\<close>

definition day_start :: "int \<Rightarrow> int" where
  "day_start w = w - w mod a_day"

definition dow :: "int \<Rightarrow> int" where
  "dow w = (w div a_day + 4) mod 7"

text \<open>The remainder of SQL and of Go has the sign of the dividend.\<close>

definition rem7 :: "int \<Rightarrow> int" where
  "rem7 x = (if 0 \<le> x then x mod 7 else - (- x mod 7))"

section \<open>The windows in SQL\<close>

definition sql_zone :: "account_extra \<Rightarrow> string" where
  "sql_zone ax = or_else (ax_ResetTimezone ax) DefaultQuotaResetTimezone"

definition quotaDailyLimitEnabled :: "account_extra \<Rightarrow> bool" where
  "quotaDailyLimitEnabled ax \<longleftrightarrow> 0 < or_else (ax_DailyLimit ax) 0"

definition quotaWeeklyLimitEnabled :: "account_extra \<Rightarrow> bool" where
  "quotaWeeklyLimitEnabled ax \<longleftrightarrow> 0 < or_else (ax_WeeklyLimit ax) 0"

definition dailyFixedResetMode :: "account_extra \<Rightarrow> bool" where
  "dailyFixedResetMode ax \<longleftrightarrow> ax_DailyResetMode ax = Some fixed_mode
     \<or> (ax_DailyResetMode ax = None \<and> quotaDailyLimitEnabled ax)"

definition weeklyFixedResetMode :: "account_extra \<Rightarrow> bool" where
  "weeklyFixedResetMode ax \<longleftrightarrow> or_else (ax_WeeklyResetMode ax) rolling_mode = fixed_mode"

definition daily_point :: "zones \<Rightarrow> account_extra \<Rightarrow> go_time \<Rightarrow> int" where
  "daily_point z ax now = day_start (Local z (sql_zone ax) now) + or_else (ax_DailyResetHour ax) 0 * hour"

definition currentDailyWindowStart :: "zones \<Rightarrow> account_extra \<Rightarrow> go_time \<Rightarrow> go_time" where
  "currentDailyWindowStart z ax now =
     (let p = daily_point z ax now; tz = sql_zone ax in
      if Utc z tz p \<le> now then Utc z tz p else Utc z tz (p - a_day))"

definition nextDailyResetAt :: "zones \<Rightarrow> account_extra \<Rightarrow> go_time \<Rightarrow> go_time option" where
  "nextDailyResetAt z ax now =
     (if dailyFixedResetMode ax then
        let p = daily_point z ax now; tz = sql_zone ax in
        Some (if Utc z tz p \<le> now then Utc z tz (p + a_day) else Utc z tz p)
      else None)"

definition weekly_point :: "zones \<Rightarrow> account_extra \<Rightarrow> go_time \<Rightarrow> int" where
  "weekly_point z ax now = day_start (Local z (sql_zone ax) now) + or_else (ax_WeeklyResetHour ax) 0 * hour"

definition currentWeeklyWindowStart :: "zones \<Rightarrow> account_extra \<Rightarrow> go_time \<Rightarrow> go_time" where
  "currentWeeklyWindowStart z ax now =
     (let p = weekly_point z ax now; tz = sql_zone ax;
          gone = rem7 (dow (Local z tz now) - or_else (ax_WeeklyResetDay ax) 1 + 7)
      in if gone = 0 \<and> now < Utc z tz p then Utc z tz (p - 7 * a_day) else Utc z tz (p - gone * a_day))"

definition nextWeeklyResetAt :: "zones \<Rightarrow> account_extra \<Rightarrow> go_time \<Rightarrow> go_time option" where
  "nextWeeklyResetAt z ax now =
     (if weeklyFixedResetMode ax then
        let p = weekly_point z ax now; tz = sql_zone ax;
            ahead = rem7 (or_else (ax_WeeklyResetDay ax) 1 - dow (Local z tz now) + 7)
        in Some (if ahead = 0 \<and> Utc z tz p \<le> now then Utc z tz (p + 7 * a_day) else Utc z tz (p + ahead * a_day))
      else None)"

definition dailyResetNeeded :: "zones \<Rightarrow> account_extra \<Rightarrow> go_time \<Rightarrow> bool" where
  "dailyResetNeeded z ax now \<longleftrightarrow>
     (if dailyFixedResetMode ax
      then or_else (ax_DailyResetAt ax) 0 \<le> now \<or> or_else (ax_DailyStart ax) 0 < currentDailyWindowStart z ax now
      else or_else (ax_DailyStart ax) 0 + a_day \<le> now)"

definition weeklyResetNeeded :: "zones \<Rightarrow> account_extra \<Rightarrow> go_time \<Rightarrow> bool" where
  "weeklyResetNeeded z ax now \<longleftrightarrow>
     (if weeklyFixedResetMode ax
      then or_else (ax_WeeklyResetAt ax) 0 \<le> now \<or> or_else (ax_WeeklyStart ax) 0 < currentWeeklyWindowStart z ax now
      else or_else (ax_WeeklyStart ax) 0 + 7 * a_day \<le> now)"

section \<open>Counting usage in SQL\<close>

text \<open>The expression of the UPDATE in \<open>IncrementQuotaUsed\<close> and \<open>incrementUsageBillingAccountQuota\<close>: every
  value on the right is that of the row before it.\<close>

definition increment_daily :: "zones \<Rightarrow> rat \<Rightarrow> go_time \<Rightarrow> account_extra \<Rightarrow> account_extra \<Rightarrow> account_extra" where
  "increment_daily z x now ax out =
     (if quotaDailyLimitEnabled ax then
        let due = dailyResetNeeded z ax now;
            out1 = out\<lparr>ax_DailyUsed := Some (if due then x else or_else (ax_DailyUsed ax) 0 + x),
              ax_DailyStart := Some (if due
                then (if dailyFixedResetMode ax then currentDailyWindowStart z ax now else now)
                else or_else (ax_DailyStart ax) now)\<rparr>
        in if due \<and> nextDailyResetAt z ax now \<noteq> None
           then out1\<lparr>ax_DailyResetAt := nextDailyResetAt z ax now, ax_DailyResetMode := Some fixed_mode\<rparr>
           else out1
      else out)"

definition increment_weekly :: "zones \<Rightarrow> rat \<Rightarrow> go_time \<Rightarrow> account_extra \<Rightarrow> account_extra \<Rightarrow> account_extra" where
  "increment_weekly z x now ax out =
     (if quotaWeeklyLimitEnabled ax then
        let due = weeklyResetNeeded z ax now;
            out1 = out\<lparr>ax_WeeklyUsed := Some (if due then x else or_else (ax_WeeklyUsed ax) 0 + x),
              ax_WeeklyStart := Some (if due
                then (if weeklyFixedResetMode ax then currentWeeklyWindowStart z ax now else now)
                else or_else (ax_WeeklyStart ax) now)\<rparr>
        in if due \<and> nextWeeklyResetAt z ax now \<noteq> None
           then out1\<lparr>ax_WeeklyResetAt := nextWeeklyResetAt z ax now\<rparr> else out1
      else out)"

definition increment_extra :: "zones \<Rightarrow> rat \<Rightarrow> go_time \<Rightarrow> account_extra \<Rightarrow> account_extra" where
  "increment_extra z x now ax =
     increment_weekly z x now ax (increment_daily z x now ax
       (ax\<lparr>ax_QuotaUsed := Some (or_else (ax_QuotaUsed ax) 0 + x)\<rparr>))"

text \<open>\<open>ResetQuotaUsed\<close>, and one row of \<open>ResetExpiredQuotaPeriods\<close>: \<^const>\<open>None\<close> when the row is not
  updated.\<close>

definition reset_extra :: "account_extra \<Rightarrow> account_extra" where
  "reset_extra ax = ax\<lparr>ax_QuotaUsed := Some 0, ax_DailyUsed := Some 0, ax_WeeklyUsed := Some 0,
     ax_DailyStart := None, ax_WeeklyStart := None, ax_DailyResetAt := None, ax_WeeklyResetAt := None\<rparr>"

definition expired_daily :: "zones \<Rightarrow> account_extra \<Rightarrow> go_time \<Rightarrow> bool" where
  "expired_daily z ax now \<longleftrightarrow> quotaDailyLimitEnabled ax \<and> 0 < or_else (ax_DailyUsed ax) 0 \<and> dailyResetNeeded z ax now"

definition expired_weekly :: "zones \<Rightarrow> account_extra \<Rightarrow> go_time \<Rightarrow> bool" where
  "expired_weekly z ax now \<longleftrightarrow>
     quotaWeeklyLimitEnabled ax \<and> 0 < or_else (ax_WeeklyUsed ax) 0 \<and> weeklyResetNeeded z ax now"

definition reset_daily :: "zones \<Rightarrow> account_extra \<Rightarrow> go_time \<Rightarrow> account_extra \<Rightarrow> account_extra" where
  "reset_daily z ax now out =
     (if \<not> expired_daily z ax now then out
      else if dailyFixedResetMode ax
      then out\<lparr>ax_DailyUsed := Some 0, ax_DailyStart := Some (currentDailyWindowStart z ax now),
        ax_DailyResetAt := nextDailyResetAt z ax now, ax_DailyResetMode := Some fixed_mode\<rparr>
      else out\<lparr>ax_DailyUsed := Some 0, ax_DailyStart := None, ax_DailyResetAt := None\<rparr>)"

definition reset_weekly :: "zones \<Rightarrow> account_extra \<Rightarrow> go_time \<Rightarrow> account_extra \<Rightarrow> account_extra" where
  "reset_weekly z ax now out =
     (if \<not> expired_weekly z ax now then out
      else if weeklyFixedResetMode ax
      then out\<lparr>ax_WeeklyUsed := Some 0, ax_WeeklyStart := Some (currentWeeklyWindowStart z ax now),
        ax_WeeklyResetAt := nextWeeklyResetAt z ax now\<rparr>
      else out\<lparr>ax_WeeklyUsed := Some 0, ax_WeeklyStart := None, ax_WeeklyResetAt := None\<rparr>)"

definition reset_expired :: "zones \<Rightarrow> go_time \<Rightarrow> account_extra \<Rightarrow> account_extra option" where
  "reset_expired z now ax =
     (if expired_daily z ax now \<or> expired_weekly z ax now
      then Some (reset_weekly z ax now (reset_daily z ax now ax)) else None)"


section \<open>The windows in Go\<close>

text \<open>Numbers are read as floats; an empty or unknown zone name falls back. \<open>time.LoadLocation\<close> of an
  unknown name fails, and the code then takes UTC.\<close>

definition extra_number :: "rat option \<Rightarrow> float64" where
  "extra_number x = (case x of None \<Rightarrow> 0 | Some v \<Rightarrow> rnd64 v)"

definition GetQuotaLimit :: "account_extra \<Rightarrow> float64" where "GetQuotaLimit ax = extra_number (ax_QuotaLimit ax)"
definition GetQuotaUsed :: "account_extra \<Rightarrow> float64" where "GetQuotaUsed ax = extra_number (ax_QuotaUsed ax)"
definition GetQuotaDailyLimit :: "account_extra \<Rightarrow> float64" where
  "GetQuotaDailyLimit ax = extra_number (ax_DailyLimit ax)"
definition GetQuotaDailyUsed :: "account_extra \<Rightarrow> float64" where
  "GetQuotaDailyUsed ax = extra_number (ax_DailyUsed ax)"
definition GetQuotaWeeklyLimit :: "account_extra \<Rightarrow> float64" where
  "GetQuotaWeeklyLimit ax = extra_number (ax_WeeklyLimit ax)"
definition GetQuotaWeeklyUsed :: "account_extra \<Rightarrow> float64" where
  "GetQuotaWeeklyUsed ax = extra_number (ax_WeeklyUsed ax)"

definition GetQuotaDailyResetMode :: "account_extra \<Rightarrow> string" where
  "GetQuotaDailyResetMode ax =
     (if ax_DailyResetMode ax = Some fixed_mode then fixed_mode
      else if ax_DailyResetMode ax = Some rolling_mode then rolling_mode
      else if 0 < GetQuotaDailyLimit ax then fixed_mode else rolling_mode)"

definition GetQuotaWeeklyResetMode :: "account_extra \<Rightarrow> string" where
  "GetQuotaWeeklyResetMode ax = (if ax_WeeklyResetMode ax = Some fixed_mode then fixed_mode else rolling_mode)"

definition GetQuotaDailyResetHour :: "account_extra \<Rightarrow> int" where
  "GetQuotaDailyResetHour ax = or_else (ax_DailyResetHour ax) 0"
definition GetQuotaWeeklyResetDay :: "account_extra \<Rightarrow> int" where
  "GetQuotaWeeklyResetDay ax = or_else (ax_WeeklyResetDay ax) 1"
definition GetQuotaWeeklyResetHour :: "account_extra \<Rightarrow> int" where
  "GetQuotaWeeklyResetHour ax = or_else (ax_WeeklyResetHour ax) 0"

definition GetQuotaResetTimezone :: "account_extra \<Rightarrow> string" where
  "GetQuotaResetTimezone ax = (case ax_ResetTimezone ax of
     None \<Rightarrow> DefaultQuotaResetTimezone | Some tz \<Rightarrow> if tz = [] then DefaultQuotaResetTimezone else tz)"

definition location :: "zones \<Rightarrow> string \<Rightarrow> string" where
  "location z name = (if Loadable z name then name else ''UTC'')"

text \<open>\<open>time.Date(t.Year(), t.Month(), t.Day(), hour, 0, 0, 0, tz)\<close> and \<open>AddDate(0, 0, n)\<close>.\<close>

definition at_hour :: "zones \<Rightarrow> string \<Rightarrow> int \<Rightarrow> go_time \<Rightarrow> go_time" where
  "at_hour z tz h t = Utc z tz (day_start (Local z tz t) + h * hour)"

definition add_days :: "zones \<Rightarrow> string \<Rightarrow> go_time \<Rightarrow> int \<Rightarrow> go_time" where
  "add_days z tz t n = Utc z tz (Local z tz t + n * a_day)"

definition nextFixedDailyReset :: "zones \<Rightarrow> int \<Rightarrow> string \<Rightarrow> go_time \<Rightarrow> go_time" where
  "nextFixedDailyReset z h tz after =
     (let today = at_hour z tz h after in if today \<le> after then add_days z tz today 1 else today)"

definition lastFixedDailyReset :: "zones \<Rightarrow> int \<Rightarrow> string \<Rightarrow> go_time \<Rightarrow> go_time" where
  "lastFixedDailyReset z h tz now =
     (let today = at_hour z tz h now in if now < today then add_days z tz today (- 1) else today)"

definition nextFixedWeeklyReset :: "zones \<Rightarrow> int \<Rightarrow> int \<Rightarrow> string \<Rightarrow> go_time \<Rightarrow> go_time" where
  "nextFixedWeeklyReset z day h tz after =
     (let today = at_hour z tz h after; ahead = rem7 (day - dow (Local z tz today) + 7)
      in add_days z tz today (if ahead = 0 \<and> today \<le> after then 7 else ahead))"

definition lastFixedWeeklyReset :: "zones \<Rightarrow> int \<Rightarrow> int \<Rightarrow> string \<Rightarrow> go_time \<Rightarrow> go_time" where
  "lastFixedWeeklyReset z day h tz now =
     (let today = at_hour z tz h now; gone = rem7 (dow (Local z tz today) - day + 7)
      in add_days z tz today (- (if gone = 0 \<and> now < today then 7 else gone)))"

text \<open>A time that is not there is Go's zero time, for which \<open>IsZero\<close> holds.\<close>

definition isFixedDailyPeriodExpired :: "zones \<Rightarrow> account_extra \<Rightarrow> go_time \<Rightarrow> go_time option \<Rightarrow> bool" where
  "isFixedDailyPeriodExpired z ax now start = (case start of
     None \<Rightarrow> True
   | Some s \<Rightarrow>
       (case ax_DailyResetAt ax of Some r \<Rightarrow> r \<le> now | None \<Rightarrow> False)
       \<or> s < lastFixedDailyReset z (GetQuotaDailyResetHour ax) (location z (GetQuotaResetTimezone ax)) now)"

definition isFixedWeeklyPeriodExpired :: "zones \<Rightarrow> account_extra \<Rightarrow> go_time \<Rightarrow> go_time option \<Rightarrow> bool" where
  "isFixedWeeklyPeriodExpired z ax now start = (case start of
     None \<Rightarrow> True
   | Some s \<Rightarrow>
       (case ax_WeeklyResetAt ax of Some r \<Rightarrow> r \<le> now | None \<Rightarrow> False)
       \<or> s < lastFixedWeeklyReset z (GetQuotaWeeklyResetDay ax) (GetQuotaWeeklyResetHour ax)
              (location z (GetQuotaResetTimezone ax)) now)"

definition isPeriodExpired :: "go_time \<Rightarrow> go_time option \<Rightarrow> go_duration \<Rightarrow> bool" where
  "isPeriodExpired now start dur = (case start of None \<Rightarrow> True | Some s \<Rightarrow> dur \<le> now - s)"

definition IsDailyQuotaPeriodExpired :: "zones \<Rightarrow> account_extra \<Rightarrow> go_time \<Rightarrow> bool" where
  "IsDailyQuotaPeriodExpired z ax now =
     (if GetQuotaDailyResetMode ax = fixed_mode then isFixedDailyPeriodExpired z ax now (ax_DailyStart ax)
      else isPeriodExpired now (ax_DailyStart ax) a_day)"

definition IsWeeklyQuotaPeriodExpired :: "zones \<Rightarrow> account_extra \<Rightarrow> go_time \<Rightarrow> bool" where
  "IsWeeklyQuotaPeriodExpired z ax now =
     (if GetQuotaWeeklyResetMode ax = fixed_mode then isFixedWeeklyPeriodExpired z ax now (ax_WeeklyStart ax)
      else isPeriodExpired now (ax_WeeklyStart ax) (7 * a_day))"

definition GetEffectiveQuotaDailyUsed :: "zones \<Rightarrow> account_extra \<Rightarrow> go_time \<Rightarrow> float64" where
  "GetEffectiveQuotaDailyUsed z ax now =
     (if GetQuotaDailyUsed ax \<le> 0 \<or> IsDailyQuotaPeriodExpired z ax now then 0 else GetQuotaDailyUsed ax)"

definition GetEffectiveQuotaWeeklyUsed :: "zones \<Rightarrow> account_extra \<Rightarrow> go_time \<Rightarrow> float64" where
  "GetEffectiveQuotaWeeklyUsed z ax now =
     (if GetQuotaWeeklyUsed ax \<le> 0 \<or> IsWeeklyQuotaPeriodExpired z ax now then 0 else GetQuotaWeeklyUsed ax)"

definition GetEffectiveQuotaDailyResetAt :: "zones \<Rightarrow> account_extra \<Rightarrow> go_time \<Rightarrow> go_time option" where
  "GetEffectiveQuotaDailyResetAt z ax now =
     (if GetQuotaDailyResetMode ax \<noteq> fixed_mode then ax_DailyResetAt ax
      else case ax_DailyResetAt ax of
        Some r \<Rightarrow> if now < r then Some r
          else Some (nextFixedDailyReset z (GetQuotaDailyResetHour ax) (location z (GetQuotaResetTimezone ax)) now)
      | None \<Rightarrow> Some (nextFixedDailyReset z (GetQuotaDailyResetHour ax) (location z (GetQuotaResetTimezone ax)) now))"

definition GetEffectiveQuotaWeeklyResetAt :: "zones \<Rightarrow> account_extra \<Rightarrow> go_time \<Rightarrow> go_time option" where
  "GetEffectiveQuotaWeeklyResetAt z ax now =
     (let next = Some (nextFixedWeeklyReset z (GetQuotaWeeklyResetDay ax) (GetQuotaWeeklyResetHour ax)
        (location z (GetQuotaResetTimezone ax)) now) in
      if GetQuotaWeeklyResetMode ax \<noteq> fixed_mode then ax_WeeklyResetAt ax
      else case ax_WeeklyResetAt ax of Some r \<Rightarrow> if now < r then Some r else next | None \<Rightarrow> next)"

definition HasAnyQuotaLimit :: "account_extra \<Rightarrow> bool" where
  "HasAnyQuotaLimit ax \<longleftrightarrow> 0 < GetQuotaLimit ax \<or> 0 < GetQuotaDailyLimit ax \<or> 0 < GetQuotaWeeklyLimit ax"

definition IsQuotaExceeded :: "zones \<Rightarrow> account_extra \<Rightarrow> go_time \<Rightarrow> bool" where
  "IsQuotaExceeded z ax now \<longleftrightarrow>
     (0 < GetQuotaLimit ax \<and> GetQuotaLimit ax \<le> GetQuotaUsed ax)
     \<or> (0 < GetQuotaDailyLimit ax \<and> \<not> IsDailyQuotaPeriodExpired z ax now
          \<and> GetQuotaDailyLimit ax \<le> GetQuotaDailyUsed ax)
     \<or> (0 < GetQuotaWeeklyLimit ax \<and> \<not> IsWeeklyQuotaPeriodExpired z ax now
          \<and> GetQuotaWeeklyLimit ax \<le> GetQuotaWeeklyUsed ax)"

section \<open>Saving an account\<close>

definition in_range :: "int \<Rightarrow> int \<Rightarrow> int \<Rightarrow> int" where
  "in_range hi d x = (if x < 0 \<or> hi < x then d else x)"

text \<open>A mode or a zone that is not there is the empty string.\<close>

definition ComputeQuotaResetAt :: "zones \<Rightarrow> go_time \<Rightarrow> account_extra \<Rightarrow> account_extra" where
  "ComputeQuotaResetAt z now ax =
     (let tz = location z (GetQuotaResetTimezone ax);
          mode = or_else (ax_DailyResetMode ax) [];
          h = in_range 23 0 (GetQuotaDailyResetHour ax);
          ax1 = (if mode = fixed_mode \<or> (mode = [] \<and> 0 < GetQuotaDailyLimit ax)
            then ax\<lparr>ax_DailyResetMode := Some fixed_mode, ax_DailyResetHour := Some h,
              ax_DailyResetAt := Some (nextFixedDailyReset z h tz now)\<rparr>
            else ax\<lparr>ax_DailyResetAt := None\<rparr>)
      in if ax_WeeklyResetMode ax = Some fixed_mode
         then ax1\<lparr>ax_WeeklyResetAt := Some (nextFixedWeeklyReset z (in_range 6 1 (GetQuotaWeeklyResetDay ax))
           (in_range 23 0 (GetQuotaWeeklyResetHour ax)) tz now)\<rparr>
         else ax1\<lparr>ax_WeeklyResetAt := None\<rparr>)"

text \<open>\<open>start.IsZero() || start.Before(lastReset)\<close>.\<close>

definition stale_start :: "go_time option \<Rightarrow> go_time \<Rightarrow> bool" where
  "stale_start start reset \<longleftrightarrow> (case start of None \<Rightarrow> True | Some s \<Rightarrow> s < reset)"

definition NormalizeFixedQuotaWindows :: "zones \<Rightarrow> go_time \<Rightarrow> account_extra \<Rightarrow> account_extra" where
  "NormalizeFixedQuotaWindows z now ax =
     (let name = or_else (ax_ResetTimezone ax) []; tz = location z (if name = [] then ''UTC'' else name);
          daily = lastFixedDailyReset z (in_range 23 0 (GetQuotaDailyResetHour ax)) tz now;
          weekly = lastFixedWeeklyReset z (in_range 6 1 (GetQuotaWeeklyResetDay ax))
            (in_range 23 0 (GetQuotaWeeklyResetHour ax)) tz now;
          ax1 = (if ax_DailyResetMode ax = Some fixed_mode \<and> 0 < GetQuotaDailyLimit ax \<and> stale_start (ax_DailyStart ax) daily
            then ax\<lparr>ax_DailyUsed := Some 0, ax_DailyStart := Some daily\<rparr> else ax)
      in if ax_WeeklyResetMode ax = Some fixed_mode \<and> 0 < GetQuotaWeeklyLimit ax \<and> stale_start (ax_WeeklyStart ax) weekly
         then ax1\<lparr>ax_WeeklyUsed := Some 0, ax_WeeklyStart := Some weekly\<rparr> else ax1)"

datatype quota_config_error = BadTimezone | BadDailyMode | BadDailyHour | BadWeeklyMode | BadWeeklyDay | BadWeeklyHour

definition out_of :: "int \<Rightarrow> int option \<Rightarrow> bool" where
  "out_of hi x \<longleftrightarrow> (case x of None \<Rightarrow> False | Some v \<Rightarrow> v < 0 \<or> hi < v)"

definition bad_mode :: "string option \<Rightarrow> bool" where
  "bad_mode m \<longleftrightarrow> (case m of None \<Rightarrow> False | Some v \<Rightarrow> v \<noteq> rolling_mode \<and> v \<noteq> fixed_mode)"

definition ValidateQuotaResetConfig :: "zones \<Rightarrow> account_extra \<Rightarrow> quota_config_error option" where
  "ValidateQuotaResetConfig z ax =
     (if (case ax_ResetTimezone ax of None \<Rightarrow> False | Some tz \<Rightarrow> tz \<noteq> [] \<and> \<not> Loadable z tz) then Some BadTimezone
      else if bad_mode (ax_DailyResetMode ax) then Some BadDailyMode
      else if out_of 23 (ax_DailyResetHour ax) then Some BadDailyHour
      else if bad_mode (ax_WeeklyResetMode ax) then Some BadWeeklyMode
      else if out_of 6 (ax_WeeklyResetDay ax) then Some BadWeeklyDay
      else if out_of 23 (ax_WeeklyResetHour ax) then Some BadWeeklyHour
      else None)"


section \<open>Wall clocks\<close>

text \<open>A zone whose clock is never set forward or back: its wall clock and its instants are in
  order-preserving correspondence. A place and a moment are then the same to compare, which is all the
  window lemmas use.\<close>

locale civil_zone =
  fixes wall :: "go_time \<Rightarrow> int" and instant :: "int \<Rightarrow> go_time"
  assumes wall_instant: "wall (instant w) = w"
    and instant_wall: "instant (wall t) = t"
    and instant_mono: "w \<le> v \<Longrightarrow> instant w \<le> instant v"
begin

lemma instant_le: "instant w \<le> t \<longleftrightarrow> w \<le> wall t"
proof
  show "w \<le> wall t" if "instant w \<le> t"
  proof (rule ccontr)
    assume "\<not> w \<le> wall t"
    then have "instant (wall t) \<le> instant w" by (intro instant_mono) simp
    with that have "instant w = t" by (simp add: instant_wall)
    then show False using \<open>\<not> w \<le> wall t\<close> wall_instant by fastforce
  qed
  show "instant w \<le> t" if "w \<le> wall t"
    using instant_mono [OF that] by (simp add: instant_wall)
qed

lemma less_instant: "t < instant w \<longleftrightarrow> wall t < w"
  using instant_le [of w t] by linarith

end

text \<open>Zones that are a fixed number of nanoseconds ahead of UTC, as UTC and, since 1992, Asia/Shanghai
  are.\<close>

definition fixed_offsets :: "(string \<Rightarrow> int) \<Rightarrow> (string \<Rightarrow> bool) \<Rightarrow> zones" where
  "fixed_offsets off known = \<lparr>Local = (\<lambda>n t. t + off n), Utc = (\<lambda>n w. w - off n), Loadable = known\<rparr>"

interpretation zone: civil_zone "Local (fixed_offsets off known) n" "Utc (fixed_offsets off known) n" for off known n
  by unfold_locales (auto simp: fixed_offsets_def)

lemma day_start_bounds: "day_start w \<le> w" "w < day_start w + a_day"
  using pos_mod_sign [of "a_day" w] pos_mod_bound [of "a_day" w] by (simp_all add: day_start_def)

lemma dow_range: "0 \<le> dow w" "dow w \<le> 6"
  using pos_mod_sign [of 7 "w div a_day + 4"] pos_mod_bound [of 7 "w div a_day + 4"]
  by (simp_all add: dow_def)

lemma dow_at_hour: "0 \<le> h \<Longrightarrow> h \<le> 23 \<Longrightarrow> dow (day_start w + h * hour) = dow w"
proof -
  assume h: "0 \<le> h" "h \<le> 23"
  have "(w div a_day * a_day + h * hour) div a_day = w div a_day"
    using h by (subst div_mult_self3) (simp_all add: div_pos_pos_trivial)
  moreover have "day_start w = w div a_day * a_day"
    by (simp add: day_start_def minus_mod_eq_div_mult)
  ultimately show ?thesis by (simp only: dow_def)
qed

lemma rem7_range: "0 \<le> x \<Longrightarrow> 0 \<le> rem7 x \<and> rem7 x \<le> 6"
  using pos_mod_sign [of 7 x] pos_mod_bound [of 7 x] by (simp add: rem7_def)

lemma rem7_small: "0 \<le> x \<Longrightarrow> x < 14 \<Longrightarrow> rem7 x = (if x < 7 then x else x - 7)"
  using mod_pos_pos_trivial [of "x - 7" 7] by (auto simp: rem7_def mod_pos_pos_trivial)

lemma rem7_opposite:
  assumes "0 \<le> a" "a \<le> 6" "0 \<le> b" "b \<le> 6"
  shows "rem7 (b - a + 7) = (if a = b then 0 else 7 - rem7 (a - b + 7))"
  using assms by (simp add: rem7_small)

lemma in_range_hour: "0 \<le> in_range 23 0 h" "in_range 23 0 h \<le> 23"
  and in_range_day: "0 \<le> in_range 6 1 d" "in_range 6 1 d \<le> 6"
  and in_range_id: "0 \<le> x \<Longrightarrow> x \<le> hi \<Longrightarrow> in_range hi y x = x"
  by (simp_all add: in_range_def)

text \<open>Beginnings of windows: a grid of instants one period apart, and each instant lies in the window that
  begins last before it.\<close>

locale reset_grid =
  fixes start_of :: "go_time \<Rightarrow> go_time" and period :: go_duration
  assumes period_pos: "0 < period"
    and starts: "start_of t \<le> t"
    and ends: "t < start_of t + period"
    and grid: "start_of s mod period = start_of t mod period"
begin

lemma later_start:
  assumes "start_of s < start_of t"
  shows "start_of s + period \<le> start_of t"
proof -
  have "period dvd start_of t - start_of s" using grid by (simp add: mod_eq_dvd_iff)
  then show ?thesis using assms zdvd_imp_le [of period "start_of t - start_of s"] by simp
qed

lemma same_window: "start_of s \<le> t \<Longrightarrow> t < start_of s + period \<Longrightarrow> start_of t = start_of s"
  using later_start [of s t] later_start [of t s] starts [of t] ends [of t] by linarith

end

lemma offset_simps [simp]:
  "Local (fixed_offsets off known) n t = t + off n" "Utc (fixed_offsets off known) n w = w - off n"
  "Loadable (fixed_offsets off known) = known"
  by (simp_all add: fixed_offsets_def)

definition days_gone :: "int \<Rightarrow> int \<Rightarrow> int" where
  "days_gone day w = rem7 (dow w - day + 7)"

lemma days_gone_bounds: "0 \<le> day \<Longrightarrow> day \<le> 6 \<Longrightarrow> 0 \<le> days_gone day w \<and> days_gone day w \<le> 6"
  using dow_range [of w] by (simp add: days_gone_def rem7_range)

lemma days_gone_mod: "0 \<le> day \<Longrightarrow> day \<le> 6 \<Longrightarrow> (w div a_day - days_gone day w) mod 7 = (day + 3) mod 7"
proof -
  assume d: "0 \<le> day" "day \<le> 6"
  then have "days_gone day w = (dow w - day + 7) mod 7"
    using dow_range [of w] by (simp add: days_gone_def rem7_def)
  also have "\<dots> = (w div a_day + 4 - day) mod 7" by (simp add: dow_def mod_simps)
  finally have "(w div a_day - days_gone day w) mod 7 = (w div a_day - (w div a_day + 4 - day)) mod 7"
    by (simp add: mod_simps)
  also have "\<dots> = (day - 4) mod 7" by simp
  also have "\<dots> = (day + 3) mod 7" using mod_add_self2 [of "day - 4" 7] by (simp add: add.commute)
  finally show ?thesis .
qed

lemma day_start_div: "day_start w = w div a_day * a_day"
  by (simp add: day_start_def minus_mod_eq_div_mult)

lemma lastFixedDailyReset_eq:
  "lastFixedDailyReset (fixed_offsets off known) h tz now =
     (let p = day_start (now + off tz) + h * hour in if p \<le> now + off tz then p - off tz else p - a_day - off tz)"
  by (auto simp: lastFixedDailyReset_def at_hour_def add_days_def Let_def)

lemma lastFixedWeeklyReset_eq:
  assumes "0 \<le> h" "h \<le> 23"
  shows "lastFixedWeeklyReset (fixed_offsets off known) day h tz now =
     (let w = now + off tz; p = day_start w + h * hour; g = days_gone day w
      in p - (if g = 0 \<and> w < p then 7 else g) * a_day - off tz)"
  using dow_at_hour [OF assms, of "now + off tz"]
  by (auto simp: lastFixedWeeklyReset_def at_hour_def add_days_def days_gone_def Let_def)

interpretation daily_grid: reset_grid "lastFixedDailyReset (fixed_offsets off known) (in_range 23 0 h) tz" a_day
  for off known h tz
proof
  let ?L = "lastFixedDailyReset (fixed_offsets off known) (in_range 23 0 h) tz"
  show "0 < a_day" by simp
  show "?L t \<le> t" and "t < ?L t + a_day" for t
    using in_range_hour [of h] day_start_bounds [of "t + off tz"]
    by (auto simp: lastFixedDailyReset_eq Let_def)
  have "?L t mod a_day = (in_range 23 0 h * hour - off tz) mod a_day" for t
  proof -
    have "?L t = in_range 23 0 h * hour - off tz + (t + off tz) div a_day * a_day
      \<or> ?L t = in_range 23 0 h * hour - off tz + ((t + off tz) div a_day - 1) * a_day"
      by (auto simp: lastFixedDailyReset_eq Let_def day_start_div algebra_simps)
    then show ?thesis by (elim disjE) (simp_all only: mod_mult_self1)
  qed
  then show "?L s mod a_day = ?L t mod a_day" for s t by simp
qed

interpretation weekly_grid:
  reset_grid "lastFixedWeeklyReset (fixed_offsets off known) (in_range 6 1 d) (in_range 23 0 h) tz" "7 * a_day"
  for off known d h tz
proof
  let ?L = "lastFixedWeeklyReset (fixed_offsets off known) (in_range 6 1 d) (in_range 23 0 h) tz"
  note eq = lastFixedWeeklyReset_eq [OF in_range_hour [of h]]
  show "0 < 7 * a_day" by simp
  show "?L t \<le> t" and "t < ?L t + 7 * a_day" for t
    using in_range_hour [of h] day_start_bounds [of "t + off tz"]
      days_gone_bounds [OF in_range_day [of d], of "t + off tz"]
    by (cases "days_gone (in_range 6 1 d) (t + off tz) = 0"; simp add: eq Let_def)+
  have "?L t mod (7 * a_day) = ((in_range 6 1 d + 3) mod 7 * a_day + in_range 23 0 h * hour - off tz) mod (7 * a_day)" for t
  proof -
    let ?w = "t + off tz" and ?g = "days_gone (in_range 6 1 d) (t + off tz)"
    let ?n = "?w div a_day - ?g"
    have n: "?n = (in_range 6 1 d + 3) mod 7 + ?n div 7 * 7"
      using days_gone_mod [OF in_range_day, of ?w d] by (metis mod_mult_div_eq mult.commute)
    have "?L t = ?n * a_day + in_range 23 0 h * hour - off tz
      \<or> ?L t = (?n - 7) * a_day + in_range 23 0 h * hour - off tz"
      by (auto simp: eq Let_def day_start_div algebra_simps)
    then have "\<exists>k. ?L t = (in_range 6 1 d + 3) mod 7 * a_day + in_range 23 0 h * hour - off tz + k * (7 * a_day)"
    proof
      assume "?L t = ?n * a_day + in_range 23 0 h * hour - off tz"
      then show ?thesis by (subst (asm) n) (auto simp: algebra_simps intro: exI [of _ "?n div 7"])
    next
      assume "?L t = (?n - 7) * a_day + in_range 23 0 h * hour - off tz"
      then show ?thesis by (subst (asm) n) (auto simp: algebra_simps intro: exI [of _ "?n div 7 - 1"])
    qed
    then show ?thesis by (auto simp only: mod_mult_self1)
  qed
  then show "?L s mod (7 * a_day) = ?L t mod (7 * a_day)" for s t by simp
qed

text \<open>The next reset is one period after the last one.\<close>

lemma nextFixedDailyReset_eq:
  "nextFixedDailyReset (fixed_offsets off known) h tz now = lastFixedDailyReset (fixed_offsets off known) h tz now + a_day"
  by (auto simp: nextFixedDailyReset_def lastFixedDailyReset_def at_hour_def add_days_def Let_def)

lemma days_ahead:
  assumes "0 \<le> day" "day \<le> 6"
  shows "rem7 (day - dow w + 7) = (if days_gone day w = 0 then 0 else 7 - days_gone day w)"
  using assms dow_range [of w] by (auto simp: days_gone_def rem7_small)

lemma nextFixedWeeklyReset_eq:
  assumes "0 \<le> h" "h \<le> 23" "0 \<le> day" "day \<le> 6"
  shows "nextFixedWeeklyReset (fixed_offsets off known) day h tz now =
    lastFixedWeeklyReset (fixed_offsets off known) day h tz now + 7 * a_day"
proof -
  let ?w = "now + off tz"
  have "days_gone day (day_start ?w + h * hour) = days_gone day ?w"
    using dow_at_hour [OF assms(1,2), of ?w] by (simp add: days_gone_def)
  then show ?thesis
    using days_gone_bounds [OF assms(3,4), of ?w]
    by (auto simp: nextFixedWeeklyReset_def lastFixedWeeklyReset_def at_hour_def add_days_def Let_def
        days_ahead [OF assms(3,4)] simp flip: days_gone_def)
qed

section \<open>Go and SQL see the same windows\<close>

lemma rnd64_pos_iff: "0 < rnd64 v \<longleftrightarrow> 0 < v"
  using rnd64_positive [of v] rnd64_mono [of v 0] by (cases "0 < v") auto

lemma extra_number_pos [simp]: "0 < extra_number x \<longleftrightarrow> 0 < or_else x 0"
  by (simp add: extra_number_def or_else_def rnd64_pos_iff split: option.splits)

definition valid_hours :: "account_extra \<Rightarrow> bool" where
  "valid_hours ax \<longleftrightarrow> 0 \<le> or_else (ax_DailyResetHour ax) 0 \<and> or_else (ax_DailyResetHour ax) 0 \<le> 23
     \<and> 0 \<le> or_else (ax_WeeklyResetHour ax) 0 \<and> or_else (ax_WeeklyResetHour ax) 0 \<le> 23
     \<and> 0 \<le> or_else (ax_WeeklyResetDay ax) 1 \<and> or_else (ax_WeeklyResetDay ax) 1 \<le> 6"

lemma validated_ranges: "ValidateQuotaResetConfig z ax = None \<Longrightarrow> valid_hours ax"
  by (auto simp: ValidateQuotaResetConfig_def valid_hours_def out_of_def or_else_def split: if_splits option.splits)

lemma validated_modes:
  assumes "ValidateQuotaResetConfig z ax = None"
  shows "dailyFixedResetMode ax \<longleftrightarrow> GetQuotaDailyResetMode ax = fixed_mode"
    and "weeklyFixedResetMode ax \<longleftrightarrow> GetQuotaWeeklyResetMode ax = fixed_mode"
  using assms
  by (auto simp: ValidateQuotaResetConfig_def bad_mode_def dailyFixedResetMode_def weeklyFixedResetMode_def
      GetQuotaDailyResetMode_def GetQuotaWeeklyResetMode_def GetQuotaDailyLimit_def quotaDailyLimitEnabled_def
      or_else_def split: if_splits option.splits)

lemma validated_zone:
  assumes "ValidateQuotaResetConfig z ax = None" and "ax_ResetTimezone ax \<noteq> Some []"
    and "Loadable z DefaultQuotaResetTimezone"
  shows "location z (GetQuotaResetTimezone ax) = sql_zone ax" and "GetQuotaResetTimezone ax = sql_zone ax"
  using assms by (auto simp: ValidateQuotaResetConfig_def location_def GetQuotaResetTimezone_def sql_zone_def
      or_else_def split: if_splits option.splits)

lemma currentDailyWindowStart_eq:
  "currentDailyWindowStart (fixed_offsets off known) ax now =
     lastFixedDailyReset (fixed_offsets off known) (or_else (ax_DailyResetHour ax) 0) (sql_zone ax) now"
  by (auto simp: lastFixedDailyReset_eq currentDailyWindowStart_def daily_point_def Let_def)

lemma nextDailyResetAt_eq:
  "nextDailyResetAt (fixed_offsets off known) ax now = (if dailyFixedResetMode ax
     then Some (currentDailyWindowStart (fixed_offsets off known) ax now + a_day) else None)"
  by (auto simp: nextDailyResetAt_def currentDailyWindowStart_def daily_point_def Let_def)

lemma currentWeeklyWindowStart_eq:
  assumes "valid_hours ax"
  shows "currentWeeklyWindowStart (fixed_offsets off known) ax now =
     lastFixedWeeklyReset (fixed_offsets off known) (or_else (ax_WeeklyResetDay ax) 1)
       (or_else (ax_WeeklyResetHour ax) 0) (sql_zone ax) now"
  using assms
  by (auto simp: lastFixedWeeklyReset_eq currentWeeklyWindowStart_def weekly_point_def days_gone_def Let_def
      valid_hours_def)

lemma nextWeeklyResetAt_eq:
  assumes "valid_hours ax"
  shows "nextWeeklyResetAt (fixed_offsets off known) ax now = (if weeklyFixedResetMode ax
     then Some (currentWeeklyWindowStart (fixed_offsets off known) ax now + 7 * a_day) else None)"
  using assms days_gone_bounds [of "or_else (ax_WeeklyResetDay ax) 1" "now + off (sql_zone ax)"]
  by (auto simp: nextWeeklyResetAt_def currentWeeklyWindowStart_def weekly_point_def Let_def valid_hours_def
      days_ahead simp flip: days_gone_def)



section \<open>Counting within a window\<close>

lemma daily_frame [simp]:
  "dailyFixedResetMode (ax\<lparr>ax_QuotaUsed := a\<rparr>) = dailyFixedResetMode ax"
  "dailyFixedResetMode (ax\<lparr>ax_DailyUsed := a\<rparr>) = dailyFixedResetMode ax"
  "dailyFixedResetMode (ax\<lparr>ax_DailyStart := s\<rparr>) = dailyFixedResetMode ax"
  "dailyFixedResetMode (ax\<lparr>ax_DailyResetAt := s\<rparr>) = dailyFixedResetMode ax"
  "dailyFixedResetMode (ax\<lparr>ax_DailyResetMode := Some fixed_mode\<rparr>)"
  "dailyFixedResetMode (ax\<lparr>ax_WeeklyUsed := a\<rparr>) = dailyFixedResetMode ax"
  "dailyFixedResetMode (ax\<lparr>ax_WeeklyStart := s\<rparr>) = dailyFixedResetMode ax"
  "dailyFixedResetMode (ax\<lparr>ax_WeeklyResetAt := s\<rparr>) = dailyFixedResetMode ax"
  by (simp_all add: dailyFixedResetMode_def quotaDailyLimitEnabled_def)

lemma limits_frame [simp]:
  "quotaDailyLimitEnabled (increment_extra z x now ax) = quotaDailyLimitEnabled ax"
  "quotaWeeklyLimitEnabled (increment_extra z x now ax) = quotaWeeklyLimitEnabled ax"
  "weeklyFixedResetMode (increment_extra z x now ax) = weeklyFixedResetMode ax"
  "sql_zone (increment_extra z x now ax) = sql_zone ax"
  "ax_DailyResetHour (increment_extra z x now ax) = ax_DailyResetHour ax"
  "ax_WeeklyResetHour (increment_extra z x now ax) = ax_WeeklyResetHour ax"
  "ax_WeeklyResetDay (increment_extra z x now ax) = ax_WeeklyResetDay ax"
  by (simp_all add: increment_extra_def increment_weekly_def increment_daily_def Let_def quotaDailyLimitEnabled_def
      quotaWeeklyLimitEnabled_def weeklyFixedResetMode_def sql_zone_def)

lemma daily_mode_frame [simp]: "dailyFixedResetMode (increment_extra z x now ax) = dailyFixedResetMode ax"
  by (simp add: increment_extra_def increment_weekly_def increment_daily_def nextDailyResetAt_def Let_def)

lemma valid_hours_frame [simp]: "valid_hours (increment_extra z x now ax) = valid_hours ax"
  by (simp add: valid_hours_def)

text \<open>What an increment writes: the end of a window is written when the window is begun.\<close>

lemma increment_daily_fields:
  assumes "quotaDailyLimitEnabled ax"
  shows "ax_DailyUsed (increment_extra z x now ax) =
      Some ((if dailyResetNeeded z ax now then 0 else or_else (ax_DailyUsed ax) 0) + x)"
    and "ax_DailyStart (increment_extra z x now ax) = Some (if dailyResetNeeded z ax now
      then (if dailyFixedResetMode ax then currentDailyWindowStart z ax now else now)
      else or_else (ax_DailyStart ax) now)"
    and "ax_DailyResetAt (increment_extra z x now ax) = (if dailyResetNeeded z ax now \<and> dailyFixedResetMode ax
      then nextDailyResetAt z ax now else ax_DailyResetAt ax)"
  using assms
  by (simp_all add: increment_extra_def increment_weekly_def increment_daily_def nextDailyResetAt_def Let_def)

lemma increment_weekly_fields:
  assumes "quotaWeeklyLimitEnabled ax"
  shows "ax_WeeklyUsed (increment_extra z x now ax) =
      Some ((if weeklyResetNeeded z ax now then 0 else or_else (ax_WeeklyUsed ax) 0) + x)"
    and "ax_WeeklyStart (increment_extra z x now ax) = Some (if weeklyResetNeeded z ax now
      then (if weeklyFixedResetMode ax then currentWeeklyWindowStart z ax now else now)
      else or_else (ax_WeeklyStart ax) now)"
    and "ax_WeeklyResetAt (increment_extra z x now ax) = (if weeklyResetNeeded z ax now \<and> weeklyFixedResetMode ax
      then nextWeeklyResetAt z ax now else ax_WeeklyResetAt ax)"
  using assms
  by (simp_all add: increment_extra_def increment_weekly_def increment_daily_def nextWeeklyResetAt_def Let_def)

lemma window_start_frame [simp]:
  "currentDailyWindowStart z (increment_extra z' x now ax) = currentDailyWindowStart z ax"
  "currentWeeklyWindowStart z (increment_extra z' x now ax) = currentWeeklyWindowStart z ax"
  by (simp_all add: fun_eq_iff currentDailyWindowStart_def daily_point_def currentWeeklyWindowStart_def
      weekly_point_def)

definition daily_end :: "zones \<Rightarrow> account_extra \<Rightarrow> go_time \<Rightarrow> go_time" where
  "daily_end z ax now = or_else (nextDailyResetAt z ax now) (now + a_day)"

definition weekly_end :: "zones \<Rightarrow> account_extra \<Rightarrow> go_time \<Rightarrow> go_time" where
  "weekly_end z ax now = or_else (nextWeeklyResetAt z ax now) (now + 7 * a_day)"

text \<open>An account counting in a window that began with the increment of \<open>t\<close>.\<close>

definition counting :: "zones \<Rightarrow> account_extra \<Rightarrow> go_time \<Rightarrow> rat \<Rightarrow> account_extra \<Rightarrow> bool" where
  "counting z ax0 t u ax \<longleftrightarrow>
     (quotaDailyLimitEnabled ax0 \<and> dailyResetNeeded z ax0 t \<longrightarrow>
        ax_DailyUsed ax = Some u \<and> quotaDailyLimitEnabled ax \<and> ax_DailyStart ax \<noteq> None
        \<and> (\<forall>s. t \<le> s \<and> s < daily_end z ax0 t \<longrightarrow> \<not> dailyResetNeeded z ax s))
   \<and> (quotaWeeklyLimitEnabled ax0 \<and> weeklyResetNeeded z ax0 t \<longrightarrow>
        ax_WeeklyUsed ax = Some u \<and> quotaWeeklyLimitEnabled ax \<and> ax_WeeklyStart ax \<noteq> None
        \<and> (\<forall>s. t \<le> s \<and> s < weekly_end z ax0 t \<longrightarrow> \<not> weeklyResetNeeded z ax s))"

lemma not_due_again:
  assumes z: "z = fixed_offsets off known" and v: "valid_hours ax"
  shows "quotaDailyLimitEnabled ax \<Longrightarrow> dailyResetNeeded z ax t \<Longrightarrow> t \<le> s \<Longrightarrow> s < daily_end z ax t
      \<Longrightarrow> \<not> dailyResetNeeded z (increment_extra z x t ax) s"
    and "quotaWeeklyLimitEnabled ax \<Longrightarrow> weeklyResetNeeded z ax t \<Longrightarrow> t \<le> s \<Longrightarrow> s < weekly_end z ax t
      \<Longrightarrow> \<not> weeklyResetNeeded z (increment_extra z x t ax) s"
proof -
  have h: "in_range 23 0 (or_else (ax_DailyResetHour ax) 0) = or_else (ax_DailyResetHour ax) 0"
    "in_range 23 0 (or_else (ax_WeeklyResetHour ax) 0) = or_else (ax_WeeklyResetHour ax) 0"
    "in_range 6 1 (or_else (ax_WeeklyResetDay ax) 1) = or_else (ax_WeeklyResetDay ax) 1"
    using v by (simp_all add: valid_hours_def in_range_id)
  note d = daily_grid.same_window [of off known "or_else (ax_DailyResetHour ax) 0" "sql_zone ax" t s, unfolded h]
    daily_grid.starts [of off known "or_else (ax_DailyResetHour ax) 0" "sql_zone ax" t, unfolded h]
  note w = weekly_grid.same_window [of off known "or_else (ax_WeeklyResetDay ax) 1" "or_else (ax_WeeklyResetHour ax) 0"
      "sql_zone ax" t s, unfolded h]
    weekly_grid.starts [of off known "or_else (ax_WeeklyResetDay ax) 1" "or_else (ax_WeeklyResetHour ax) 0"
      "sql_zone ax" t, unfolded h]
  show "\<not> dailyResetNeeded z (increment_extra z x t ax) s"
    if "quotaDailyLimitEnabled ax" "dailyResetNeeded z ax t" "t \<le> s" "s < daily_end z ax t"
    using that d
    by (simp add: z h dailyResetNeeded_def [of _ "increment_extra _ _ _ _"] increment_daily_fields daily_end_def
        nextDailyResetAt_eq currentDailyWindowStart_eq split: if_splits)
  show "\<not> weeklyResetNeeded z (increment_extra z x t ax) s"
    if "quotaWeeklyLimitEnabled ax" "weeklyResetNeeded z ax t" "t \<le> s" "s < weekly_end z ax t"
    using that w
    by (simp add: z h weeklyResetNeeded_def [of _ "increment_extra _ _ _ _"] increment_weekly_fields weekly_end_def
        nextWeeklyResetAt_eq [OF v] currentWeeklyWindowStart_eq [OF v] split: if_splits)
qed

lemma counting_begins:
  "z = fixed_offsets off known \<Longrightarrow> valid_hours ax \<Longrightarrow> counting z ax t x (increment_extra z x t ax)"
  by (simp add: counting_def increment_daily_fields increment_weekly_fields not_due_again)

lemma due_same:
  "quotaDailyLimitEnabled ax \<Longrightarrow> \<not> dailyResetNeeded z ax now \<Longrightarrow> ax_DailyStart ax \<noteq> None \<Longrightarrow>
    dailyResetNeeded z (increment_extra z x now ax) s = dailyResetNeeded z ax s"
  "quotaWeeklyLimitEnabled ax \<Longrightarrow> \<not> weeklyResetNeeded z ax now \<Longrightarrow> ax_WeeklyStart ax \<noteq> None \<Longrightarrow>
    weeklyResetNeeded z (increment_extra z x now ax) s = weeklyResetNeeded z ax s"
  by (auto simp: dailyResetNeeded_def [of _ "increment_extra _ _ _ _"] dailyResetNeeded_def [of _ ax s]
      weeklyResetNeeded_def [of _ "increment_extra _ _ _ _"] weeklyResetNeeded_def [of _ ax s]
      increment_daily_fields increment_weekly_fields or_else_def)

lemma counting_goes_on:
  assumes "counting z ax0 t u ax" and "t \<le> s" and "quotaDailyLimitEnabled ax0 \<longrightarrow> s < daily_end z ax0 t"
    and "quotaWeeklyLimitEnabled ax0 \<longrightarrow> s < weekly_end z ax0 t"
  shows "counting z ax0 t (u + x) (increment_extra z x s ax)"
  using assms by (auto simp: counting_def increment_daily_fields increment_weekly_fields due_same or_else_def)

definition increments :: "zones \<Rightarrow> (rat \<times> go_time) list \<Rightarrow> account_extra \<Rightarrow> account_extra" where
  "increments z costs ax = fold (\<lambda>(x, t). increment_extra z x t) costs ax"

lemma counting_sum:
  "counting z ax0 t u ax \<Longrightarrow> \<forall>(x, s) \<in> set costs. t \<le> s \<and> (quotaDailyLimitEnabled ax0 \<longrightarrow> s < daily_end z ax0 t)
      \<and> (quotaWeeklyLimitEnabled ax0 \<longrightarrow> s < weekly_end z ax0 t)
    \<Longrightarrow> counting z ax0 t (u + sum_list (map fst costs)) (increments z costs ax)"
proof (induction costs arbitrary: u ax)
  case (Cons c costs)
  then have "counting z ax0 t (u + fst c) (increment_extra z (fst c) (snd c) ax)"
    by (intro counting_goes_on) auto
  from Cons.IH [OF this] Cons.prems(2) show ?case
    by (simp add: increments_def case_prod_beta add.assoc)
qed (simp add: increments_def)


text \<open>Concrete accounts: the zones are Shanghai and UTC, the times are in May 2026.\<close>

definition two_zones :: zones where
  "two_zones = fixed_offsets (\<lambda>n. if n = DefaultQuotaResetTimezone then 8 * hour else 0) (\<lambda>_. True)"

definition may_2026 :: "int \<Rightarrow> int \<Rightarrow> go_time" where
  "may_2026 d h = (20573 + d) * a_day + h * hour"

definition plain_extra :: account_extra where
  "plain_extra = \<lparr>ax_QuotaLimit = None, ax_QuotaUsed = None, ax_DailyLimit = Some 10, ax_DailyUsed = None,
     ax_DailyStart = None, ax_DailyResetMode = Some fixed_mode, ax_DailyResetHour = Some 0, ax_DailyResetAt = None,
     ax_WeeklyLimit = Some 50, ax_WeeklyUsed = None, ax_WeeklyStart = None, ax_WeeklyResetMode = None,
     ax_WeeklyResetDay = None, ax_WeeklyResetHour = None, ax_WeeklyResetAt = None, ax_ResetTimezone = None\<rparr>"



text \<open>saving an account can forget usage of the current window. An account without a zone counts its day
  from midnight in Shanghai, in the UPDATE and in \<open>IsQuotaExceeded\<close>. It has used up its daily quota at
  18:00 UTC; when it is saved at 01:00 UTC, in the same window, \<open>NormalizeFixedQuotaWindows\<close> compares the
  start of the window with midnight in UTC, and sets the used amount to 0: the account is within its quota
  again.\<close>

theorem saving_forgets_usage:
  "let used = increments two_zones [(10, may_2026 4 18)] plain_extra;
       saved = NormalizeFixedQuotaWindows two_zones (may_2026 5 1) used
   in IsQuotaExceeded two_zones used (may_2026 5 1)
     \<and> currentDailyWindowStart two_zones used (may_2026 5 1) = currentDailyWindowStart two_zones used (may_2026 4 18)
     \<and> ax_DailyUsed saved = Some 0 \<and> \<not> IsQuotaExceeded two_zones saved (may_2026 5 1)"
  by code_simp

end
