(* ===== verification/UsageBilling.thy ===== *)
theory UsageBilling
  imports AccountQuota ApiKey SubscriptionStore Tasks GoStrings
begin

text \<open>
  The billing of requests and of batch-image holds: \<open>service/usage_billing.go\<close>,
  \<open>repository/usage_billing_repo.go\<close> and \<open>CleanupUsageBillingDedup\<close> of
  \<open>repository/dashboard_aggregation_repo.go\<close>. Each operation of the repository is one database
  transaction, hence one step; the fault script says whether it is served, rejected (any failure of a
  statement or of the commit), or committed with its answer lost. The primary key of a claim makes
  transactions of the same request wait for each other.

  \<open>bc_num\<close> is the number that PostgreSQL reads from the text the driver sends for a float, and
  \<open>bc_hash\<close> the hexadecimal SHA-256 of a text. Balances, frozen balances and the amounts of API keys
  are \<open>DECIMAL(20,8)\<close>. \<open>bs_ledger\<close> is not in the database: it records what was applied.
\<close>

section \<open>Commands\<close>

record UsageBillingCommand =
  uc_RequestID :: string
  uc_APIKeyID :: int
  uc_RequestFingerprint :: string
  uc_RequestPayloadHash :: string
  uc_UserID :: int
  uc_AccountID :: int
  uc_SubscriptionID :: "int option"
  uc_AccountType :: string
  uc_Model :: string
  uc_ServiceTier :: string
  uc_ReasoningEffort :: string
  uc_BillingType :: int
  uc_InputTokens :: int
  uc_OutputTokens :: int
  uc_CacheCreationTokens :: int
  uc_CacheReadTokens :: int
  uc_ImageCount :: int
  uc_MediaType :: string
  uc_BalanceCost :: float64
  uc_SubscriptionCost :: float64
  uc_APIKeyQuotaCost :: float64
  uc_APIKeyRateLimitCost :: float64
  uc_AccountQuotaCost :: float64

record BatchImageBalanceHoldCommand =
  hc_RequestID :: string
  hc_APIKeyID :: int
  hc_RequestFingerprint :: string
  hc_RequestPayloadHash :: string
  hc_UserID :: int
  hc_BatchID :: string
  hc_HoldAmount :: float64
  hc_ActualAmount :: float64

text \<open>The verbs \<open>%d\<close> and \<open>%0.10f\<close> of \<open>fmt\<close>.\<close>

fun nat_digits :: "nat \<Rightarrow> string" where
  "nat_digits n = (if n < 10 then [char_of (48 + n)] else nat_digits (n div 10) @ [char_of (48 + n mod 10)])"

declare nat_digits.simps [simp del]

definition fmt_d :: "int \<Rightarrow> string" where
  "fmt_d i = (if i < 0 then ''-'' @ nat_digits (nat (- i)) else nat_digits (nat i))"

definition fmt_f10 :: "float64 \<Rightarrow> string" where
  "fmt_f10 x = (let n = nat (rne (\<bar>x\<bar> * 10 ^ 10)); frac = nat_digits (n mod 10 ^ 10) in
     (if x < 0 then ''-'' else []) @ nat_digits (n div 10 ^ 10) @ ''.'' @ replicate (10 - length frac) (CHR ''0'') @ frac)"

record bill_config =
  bc_num :: "float64 \<Rightarrow> rat"
  bc_hash :: "string \<Rightarrow> string"
  bc_zones :: zones
  bc_midnight :: "go_time \<Rightarrow> go_time"

definition with_payload_hash :: "string \<Rightarrow> string \<Rightarrow> string" where
  "with_payload_hash raw h = (if trim_space h = [] then raw else raw @ ''|'' @ trim_space h)"

definition usage_text :: "UsageBillingCommand \<Rightarrow> string" where
  "usage_text c = join_with ''|''
     [fmt_d (uc_UserID c), fmt_d (uc_AccountID c), fmt_d (uc_APIKeyID c), trim_space (uc_AccountType c),
      trim_space (uc_Model c), trim_space (uc_ServiceTier c), trim_space (uc_ReasoningEffort c),
      fmt_d (uc_BillingType c), fmt_d (uc_InputTokens c), fmt_d (uc_OutputTokens c),
      fmt_d (uc_CacheCreationTokens c), fmt_d (uc_CacheReadTokens c), fmt_d (uc_ImageCount c),
      trim_space (uc_MediaType c), fmt_d (or_else (uc_SubscriptionID c) 0), fmt_f10 (uc_BalanceCost c),
      fmt_f10 (uc_SubscriptionCost c), fmt_f10 (uc_APIKeyQuotaCost c), fmt_f10 (uc_APIKeyRateLimitCost c),
      fmt_f10 (uc_AccountQuotaCost c)]"

definition buildUsageBillingFingerprint :: "bill_config \<Rightarrow> UsageBillingCommand \<Rightarrow> string" where
  "buildUsageBillingFingerprint cfg c = bc_hash cfg (with_payload_hash (usage_text c) (uc_RequestPayloadHash c))"

definition HashUsageRequestPayload :: "bill_config \<Rightarrow> string \<Rightarrow> string" where
  "HashUsageRequestPayload cfg payload = (if payload = [] then [] else bc_hash cfg payload)"

definition Usage_Normalize :: "bill_config \<Rightarrow> UsageBillingCommand \<Rightarrow> UsageBillingCommand" where
  "Usage_Normalize cfg c =
     (let c1 = c\<lparr>uc_RequestID := trim_space (uc_RequestID c)\<rparr> in
      if trim_space (uc_RequestFingerprint c1) = []
      then c1\<lparr>uc_RequestFingerprint := buildUsageBillingFingerprint cfg c1\<rparr> else c1)"

definition hold_text :: "BatchImageBalanceHoldCommand \<Rightarrow> string" where
  "hold_text c = join_with ''|'' [fmt_d (hc_UserID c), fmt_d (hc_APIKeyID c), trim_space (hc_BatchID c),
     fmt_f10 (hc_HoldAmount c), fmt_f10 (hc_ActualAmount c)]"

definition buildBatchImageBalanceHoldFingerprint :: "bill_config \<Rightarrow> BatchImageBalanceHoldCommand \<Rightarrow> string" where
  "buildBatchImageBalanceHoldFingerprint cfg c =
     bc_hash cfg (with_payload_hash (hold_text c) (hc_RequestPayloadHash c))"

definition Hold_Normalize :: "bill_config \<Rightarrow> BatchImageBalanceHoldCommand \<Rightarrow> BatchImageBalanceHoldCommand" where
  "Hold_Normalize cfg c =
     (let c1 = c\<lparr>hc_RequestID := trim_space (hc_RequestID c), hc_BatchID := trim_space (hc_BatchID c)\<rparr> in
      if trim_space (hc_RequestFingerprint c1) = []
      then c1\<lparr>hc_RequestFingerprint := buildBatchImageBalanceHoldFingerprint cfg c1\<rparr> else c1)"

definition BatchImageHoldRequestID :: "string \<Rightarrow> string" where
  "BatchImageHoldRequestID b = ''batch_image_hold:'' @ trim_space b"
definition BatchImageCaptureRequestID :: "string \<Rightarrow> string" where
  "BatchImageCaptureRequestID b = ''batch_image_capture:'' @ trim_space b"
definition BatchImageReleaseRequestID :: "string \<Rightarrow> string" where
  "BatchImageReleaseRequestID b = ''batch_image_release:'' @ trim_space b"

section \<open>The database\<close>

record claim_row =
  cl_RequestID :: string
  cl_APIKeyID :: int
  cl_Fingerprint :: string
  cl_CreatedAt :: go_time

record bill_user =
  bu_Balance :: rat
  bu_Frozen :: rat
  bu_Deleted :: bool

record bill_key =
  bk_Key :: APIKey
  bk_Deleted :: bool

record bill_account =
  ba_Extra :: account_extra
  ba_Deleted :: bool

datatype bill_entry =
    UsageApplied UsageBillingCommand
  | HoldReserved BatchImageBalanceHoldCommand
  | HoldCaptured BatchImageBalanceHoldCommand
  | HoldReleased BatchImageBalanceHoldCommand
  | HoldNothing BatchImageBalanceHoldCommand
  | Credited int rat

record bill_store =
  bs_dedup :: "claim_row list"
  bs_archive :: "claim_row list"
  bs_users :: "int \<rightharpoonup> bill_user"
  bs_subs :: "int \<rightharpoonup> UserSubscription"
  bs_groups :: "int list"
  bs_keys :: "int \<rightharpoonup> bill_key"
  bs_accounts :: "int \<rightharpoonup> bill_account"
  bs_outbox :: "int list"
  bs_clock :: go_time
  bs_faults :: "fault list"
  bs_ledger :: "bill_entry list"

datatype bill_error =
    DbError | UsageBillingRequestIDRequired | UsageBillingRequestConflict | BillSubscriptionNotFound
  | BillUserNotFound | BillAPIKeyNotFound | BillAccountNotFound | BatchImageInsufficientBalance
  | BatchImageSettlementCostExceedsHold | FrozenBalanceInsufficient

type_synonym 'a bill = "(bill_error, bill_store, 'a) prog"

text \<open>One transaction: an error undoes it.\<close>

definition committed :: "'a bill \<Rightarrow> 'a bill" where
  "committed p s = (case p s of (Inl e, _) \<Rightarrow> (Inl e, s) | (Inr a, s') \<Rightarrow> (Inr a, s'))"

definition transaction :: "'a bill \<Rightarrow> 'a bill" where
  "transaction p s = (case bs_faults s of
     [] \<Rightarrow> committed p s
   | Served # fs \<Rightarrow> committed p (s\<lparr>bs_faults := fs\<rparr>)
   | Rejected # fs \<Rightarrow> (Inl DbError, s\<lparr>bs_faults := fs\<rparr>)
   | Unanswered # fs \<Rightarrow> (Inl DbError, snd (committed p (s\<lparr>bs_faults := fs\<rparr>))))"

definition note_entry :: "bill_entry \<Rightarrow> unit bill" where
  "note_entry e = update (\<lambda>s. s\<lparr>bs_ledger := bs_ledger s @ [e]\<rparr>)"

text \<open>A value that does not fit into \<open>DECIMAL(20,8)\<close> is an error of the statement.\<close>

definition fits8 :: "rat \<Rightarrow> bool" where
  "fits8 x \<longleftrightarrow> \<bar>dec_places 8 x\<bar> < 10 ^ 12"

section \<open>Claims\<close>

definition find_claim :: "string \<Rightarrow> int \<Rightarrow> claim_row list \<Rightarrow> claim_row option" where
  "find_claim rid k rows = List.find (\<lambda>r. cl_RequestID r = rid \<and> cl_APIKeyID r = k) rows"

definition same_claim :: "claim_row \<Rightarrow> string \<Rightarrow> bill_error + bool" where
  "same_claim r fp = (if trim_space (cl_Fingerprint r) \<noteq> trim_space fp then Inl UsageBillingRequestConflict else Inr False)"

text \<open>The insertion into the dedup table is undone with the transaction when the claim turns out to be
  archived.\<close>

definition claimUsageBillingRequest :: "string \<Rightarrow> int \<Rightarrow> string \<Rightarrow> bool bill" where
  "claimUsageBillingRequest rid k fp s = (case find_claim rid k (bs_dedup s) of
     Some r \<Rightarrow> (same_claim r fp, s)
   | None \<Rightarrow> (case find_claim rid k (bs_archive s) of
       Some r \<Rightarrow> (same_claim r fp, s)
     | None \<Rightarrow> (Inr True, s\<lparr>bs_dedup := bs_dedup s @ [\<lparr>cl_RequestID = rid, cl_APIKeyID = k, cl_Fingerprint = fp,
         cl_CreatedAt = bs_clock s\<rparr>]\<rparr>)))"

definition batchImageHoldClaimExists :: "string \<Rightarrow> int \<Rightarrow> bill_store \<Rightarrow> bool" where
  "batchImageHoldClaimExists rid k s \<longleftrightarrow>
     find_claim rid k (bs_dedup s) \<noteq> None \<or> find_claim rid k (bs_archive s) \<noteq> None"

text \<open>One round of \<open>CleanupUsageBillingDedup\<close>, and its loop: the oldest claims by position are moved to the
  archive, as many as a round takes, until a round takes fewer.\<close>

definition usageBillingDedupCleanupBatchSize :: nat where "usageBillingDedupCleanupBatchSize = 10000"

fun split_victims :: "go_time \<Rightarrow> nat \<Rightarrow> claim_row list \<Rightarrow> claim_row list \<times> claim_row list" where
  "split_victims cutoff 0 rows = ([], rows)"
| "split_victims cutoff n [] = ([], [])"
| "split_victims cutoff (Suc n) (r # rows) =
     (if cl_CreatedAt r < cutoff then (let (v, k) = split_victims cutoff n rows in (r # v, k))
      else (let (v, k) = split_victims cutoff (Suc n) rows in (v, r # k)))"

definition archive_row :: "claim_row list \<Rightarrow> claim_row \<Rightarrow> claim_row list" where
  "archive_row rows r = (if find_claim (cl_RequestID r) (cl_APIKeyID r) rows = None then rows @ [r] else rows)"

definition cleanup_round :: "nat \<Rightarrow> go_time \<Rightarrow> nat bill" where
  "cleanup_round n cutoff s = (case split_victims cutoff n (bs_dedup s) of (v, rows) \<Rightarrow>
     (Inr (length v), s\<lparr>bs_dedup := rows, bs_archive := foldl archive_row (bs_archive s) v\<rparr>))"

lemma split_victims_length:
  "split_victims cutoff n rows = (v, k) \<Longrightarrow> length v + length k = length rows \<and> length v \<le> n"
  by (induction cutoff n rows arbitrary: v k rule: split_victims.induct)
    (auto split: if_splits prod.splits)

lemma transaction_round:
  assumes "transaction (cleanup_round n cutoff) s = (Inr affected, s')"
  shows "length (bs_dedup s') + affected = length (bs_dedup s)"
  using assms split_victims_length [of cutoff n "bs_dedup s"]
  by (auto simp: transaction_def committed_def cleanup_round_def split: list.splits fault.splits prod.splits)

function cleanup_loop :: "go_time \<Rightarrow> unit bill" where
  "cleanup_loop cutoff s = (case transaction (cleanup_round usageBillingDedupCleanupBatchSize cutoff) s of
     (Inl e, s') \<Rightarrow> (Inl e, s')
   | (Inr affected, s') \<Rightarrow>
       if affected < usageBillingDedupCleanupBatchSize then (Inr (), s') else cleanup_loop cutoff s')"
  by pat_completeness auto
termination
  by (relation "measure (\<lambda>(cutoff, s). length (bs_dedup s))")
    (auto dest!: sym [of _ "transaction _ _"] transaction_round simp: usageBillingDedupCleanupBatchSize_def)

declare cleanup_loop.simps [simp del]

section \<open>What a request changes\<close>

definition live_user :: "int \<Rightarrow> bill_store \<Rightarrow> bill_user option" where
  "live_user u s = (case bs_users s u of None \<Rightarrow> None | Some r \<Rightarrow> if bu_Deleted r then None else Some r)"

text \<open>A write to the balance, and to the frozen balance where the statement sets it.\<close>

definition paid_user :: "bill_user \<Rightarrow> rat \<Rightarrow> rat option \<Rightarrow> bill_user" where
  "paid_user r b f = r\<lparr>bu_Balance := dec_places 8 b,
     bu_Frozen := (case f of None \<Rightarrow> bu_Frozen r | Some x \<Rightarrow> dec_places 8 x)\<rparr>"

definition set_money :: "int \<Rightarrow> bill_user \<Rightarrow> rat \<Rightarrow> rat option \<Rightarrow> bill_user bill" where
  "set_money u r b f s =
     (if fits8 b \<and> (case f of None \<Rightarrow> True | Some x \<Rightarrow> fits8 x)
      then (Inr (paid_user r b f), s\<lparr>bs_users := (bs_users s)(u \<mapsto> paid_user r b f)\<rparr>)
      else (Inl DbError, s))"

definition incrementUsageBillingSubscription :: "int \<Rightarrow> rat \<Rightarrow> unit bill" where
  "incrementUsageBillingSubscription i cost s = (case bs_subs s i of
     None \<Rightarrow> (Inl BillSubscriptionNotFound, s)
   | Some r \<Rightarrow>
       if live r \<and> s_GroupID r \<in> set (bs_groups s) then
         let r' = add_usage (bs_clock s) cost r in
         if numeric_ok (s_DailyUsageUSD r') \<and> numeric_ok (s_WeeklyUsageUSD r') \<and> numeric_ok (s_MonthlyUsageUSD r')
         then (Inr (), s\<lparr>bs_subs := (bs_subs s)(i \<mapsto> r')\<rparr>) else (Inl DbError, s)
       else (Inl BillSubscriptionNotFound, s))"

text \<open>The balance is charged whether or not it covers the amount; the answer tells which.\<close>

definition deductUsageBillingBalance :: "int \<Rightarrow> rat \<Rightarrow> (float64 \<times> bool) bill" where
  "deductUsageBillingBalance u x s = (case live_user u s of
     None \<Rightarrow> (Inl BillUserNotFound, s)
   | Some r \<Rightarrow> andthen (set_money u r (bu_Balance r - x) None)
       (\<lambda>r'. ret (rnd64 (bu_Balance r'), x \<le> bu_Balance r)) s)"

definition StatusAPIKeyQuotaExhausted :: string where "StatusAPIKeyQuotaExhausted = ''quota_exhausted''"

definition live_key :: "int \<Rightarrow> bill_store \<Rightarrow> APIKey option" where
  "live_key i s = (case bs_keys s i of None \<Rightarrow> None | Some r \<Rightarrow> if bk_Deleted r then None else Some (bk_Key r))"

definition put_key :: "int \<Rightarrow> APIKey \<Rightarrow> bill_store \<Rightarrow> bill_store" where
  "put_key i k s = s\<lparr>bs_keys := (bs_keys s)(i \<mapsto> \<lparr>bk_Key = k, bk_Deleted = False\<rparr>)\<rparr>"

definition charged_key :: "rat \<Rightarrow> APIKey \<Rightarrow> APIKey" where
  "charged_key x k = k\<lparr>k_QuotaUsed := dec_places 8 (k_QuotaUsed k + x),
     k_Status := (if 0 < k_Quota k \<and> k_Status k = StatusActive \<and> k_QuotaUsed k < k_Quota k
         \<and> k_Quota k \<le> k_QuotaUsed k + x
       then StatusAPIKeyQuotaExhausted else k_Status k)\<rparr>"

definition incrementUsageBillingAPIKeyQuota :: "int \<Rightarrow> rat \<Rightarrow> bool bill" where
  "incrementUsageBillingAPIKeyQuota i x s = (case live_key i s of
     None \<Rightarrow> (Inl BillAPIKeyNotFound, s)
   | Some k \<Rightarrow>
       if fits8 (k_QuotaUsed k + x) then
         let k' = charged_key x k in
         (Inr (0 < k_Quota k' \<and> k_Quota k' \<le> k_QuotaUsed k' \<and> k_QuotaUsed k' - x < k_Quota k'), put_key i k' s)
       else (Inl DbError, s))"

text \<open>The windows of an API key. The daily and the weekly window begin at midnight of the session's zone.\<close>

definition ran_out :: "go_time \<Rightarrow> go_time option \<Rightarrow> go_duration \<Rightarrow> bool" where
  "ran_out now start d = (case start of None \<Rightarrow> False | Some w \<Rightarrow> w + d \<le> now)"

definition window_usage :: "go_time \<Rightarrow> go_time option \<Rightarrow> go_duration \<Rightarrow> rat \<Rightarrow> rat \<Rightarrow> rat" where
  "window_usage now start d used x = (if ran_out now start d then x else used + x)"

definition window_start :: "go_time \<Rightarrow> go_time option \<Rightarrow> go_duration \<Rightarrow> go_time \<Rightarrow> go_time option" where
  "window_start now start d fresh = (if start = None \<or> ran_out now start d then Some fresh else start)"

definition limited_key :: "bill_config \<Rightarrow> go_time \<Rightarrow> rat \<Rightarrow> APIKey \<Rightarrow> APIKey" where
  "limited_key cfg now x k = k\<lparr>
     k_Usage5h := dec_places 8 (window_usage now (k_Window5hStart k) RateLimitWindow5h (k_Usage5h k) x),
     k_Usage1d := dec_places 8 (window_usage now (k_Window1dStart k) RateLimitWindow1d (k_Usage1d k) x),
     k_Usage7d := dec_places 8 (window_usage now (k_Window7dStart k) RateLimitWindow7d (k_Usage7d k) x),
     k_Window5hStart := window_start now (k_Window5hStart k) RateLimitWindow5h now,
     k_Window1dStart := window_start now (k_Window1dStart k) RateLimitWindow1d (bc_midnight cfg now),
     k_Window7dStart := window_start now (k_Window7dStart k) RateLimitWindow7d (bc_midnight cfg now)\<rparr>"

definition incrementUsageBillingAPIKeyRateLimit :: "bill_config \<Rightarrow> int \<Rightarrow> rat \<Rightarrow> unit bill" where
  "incrementUsageBillingAPIKeyRateLimit cfg i x s = (case live_key i s of
     None \<Rightarrow> (Inl BillAPIKeyNotFound, s)
   | Some k \<Rightarrow>
       if \<bar>k_Usage5h (limited_key cfg (bs_clock s) x k)\<bar> < 10 ^ 12 \<and> \<bar>k_Usage1d (limited_key cfg (bs_clock s) x k)\<bar> < 10 ^ 12
         \<and> \<bar>k_Usage7d (limited_key cfg (bs_clock s) x k)\<bar> < 10 ^ 12
       then (Inr (), put_key i (limited_key cfg (bs_clock s) x k) s) else (Inl DbError, s))"

record AccountQuotaState =
  qs_TotalUsed :: float64
  qs_TotalLimit :: float64
  qs_DailyUsed :: float64
  qs_DailyLimit :: float64
  qs_WeeklyUsed :: float64
  qs_WeeklyLimit :: float64

definition quota_state :: "account_extra \<Rightarrow> AccountQuotaState" where
  "quota_state ax = \<lparr>qs_TotalUsed = extra_number (ax_QuotaUsed ax), qs_TotalLimit = extra_number (ax_QuotaLimit ax),
     qs_DailyUsed = extra_number (ax_DailyUsed ax), qs_DailyLimit = extra_number (ax_DailyLimit ax),
     qs_WeeklyUsed = extra_number (ax_WeeklyUsed ax), qs_WeeklyLimit = extra_number (ax_WeeklyLimit ax)\<rparr>"

definition crossed :: "float64 \<Rightarrow> float64 \<Rightarrow> float64 \<Rightarrow> bool" where
  "crossed limit used x \<longleftrightarrow> 0 < limit \<and> limit \<le> used \<and> fsub used x < limit"

definition quota_crossed :: "AccountQuotaState \<Rightarrow> float64 \<Rightarrow> bool" where
  "quota_crossed q x \<longleftrightarrow> crossed (qs_TotalLimit q) (qs_TotalUsed q) x
     \<or> crossed (qs_DailyLimit q) (qs_DailyUsed q) x \<or> crossed (qs_WeeklyLimit q) (qs_WeeklyUsed q) x"

text \<open>The outbox keeps one pending event of an account.\<close>

definition enqueue_account :: "int \<Rightarrow> bill_store \<Rightarrow> bill_store" where
  "enqueue_account i s = (if i \<in> set (bs_outbox s) then s else s\<lparr>bs_outbox := bs_outbox s @ [i]\<rparr>)"

definition incrementUsageBillingAccountQuota :: "bill_config \<Rightarrow> int \<Rightarrow> float64 \<Rightarrow> AccountQuotaState bill" where
  "incrementUsageBillingAccountQuota cfg i x s = (case bs_accounts s i of
     None \<Rightarrow> (Inl BillAccountNotFound, s)
   | Some a \<Rightarrow>
       if ba_Deleted a then (Inl BillAccountNotFound, s)
       else let ax = increment_extra (bc_zones cfg) (bc_num cfg x) (bs_clock s) (ba_Extra a);
                s' = s\<lparr>bs_accounts := (bs_accounts s)(i \<mapsto> a\<lparr>ba_Extra := ax\<rparr>)\<rparr>
            in (Inr (quota_state ax), if quota_crossed (quota_state ax) x then enqueue_account i s' else s'))"

record UsageBillingApplyResult =
  ar_Applied :: bool
  ar_APIKeyQuotaExhausted :: bool
  ar_NewBalance :: "float64 option"
  ar_BalanceOverdrafted :: bool
  ar_QuotaState :: "AccountQuotaState option"

definition not_applied :: UsageBillingApplyResult where
  "not_applied = \<lparr>ar_Applied = False, ar_APIKeyQuotaExhausted = False, ar_NewBalance = None,
     ar_BalanceOverdrafted = False, ar_QuotaState = None\<rparr>"

definition optional :: "bool \<Rightarrow> 'a bill \<Rightarrow> 'a option bill" where
  "optional b p = (if b then andthen p (\<lambda>a. ret (Some a)) else ret None)"

definition has_account_quota :: "UsageBillingCommand \<Rightarrow> bool" where
  "has_account_quota c \<longleftrightarrow> 0 < uc_AccountQuotaCost c
     \<and> (to_lower (uc_AccountType c) = ''apikey'' \<or> to_lower (uc_AccountType c) = ''bedrock'')"

definition applyUsageBillingEffects :: "bill_config \<Rightarrow> UsageBillingCommand \<Rightarrow> UsageBillingApplyResult bill" where
  "applyUsageBillingEffects cfg c =
     andthen (case uc_SubscriptionID c of
         Some i \<Rightarrow> when_do (0 < uc_SubscriptionCost c) (incrementUsageBillingSubscription i (bc_num cfg (uc_SubscriptionCost c)))
       | None \<Rightarrow> ret ()) (\<lambda>_.
     andthen (optional (0 < uc_BalanceCost c)
       (deductUsageBillingBalance (uc_UserID c) (bc_num cfg (uc_BalanceCost c)))) (\<lambda>bal.
     andthen (optional (0 < uc_APIKeyQuotaCost c)
       (incrementUsageBillingAPIKeyQuota (uc_APIKeyID c) (bc_num cfg (uc_APIKeyQuotaCost c)))) (\<lambda>ex.
     andthen (when_do (0 < uc_APIKeyRateLimitCost c)
       (incrementUsageBillingAPIKeyRateLimit cfg (uc_APIKeyID c) (bc_num cfg (uc_APIKeyRateLimitCost c)))) (\<lambda>_.
     andthen (optional (has_account_quota c)
       (incrementUsageBillingAccountQuota cfg (uc_AccountID c) (uc_AccountQuotaCost c))) (\<lambda>q.
     ret \<lparr>ar_Applied = True, ar_APIKeyQuotaExhausted = (ex = Some True), ar_NewBalance = map_option fst bal,
       ar_BalanceOverdrafted = (case bal of None \<Rightarrow> False | Some (_, ok) \<Rightarrow> \<not> ok), ar_QuotaState = q\<rparr>)))))"

definition Billing_Apply :: "bill_config \<Rightarrow> UsageBillingCommand \<Rightarrow> UsageBillingApplyResult bill" where
  "Billing_Apply cfg cmd =
     (let c = Usage_Normalize cfg cmd in
      if uc_RequestID c = [] then throw UsageBillingRequestIDRequired
      else transaction (andthen (claimUsageBillingRequest (uc_RequestID c) (uc_APIKeyID c) (uc_RequestFingerprint c))
        (\<lambda>fresh. if \<not> fresh then ret not_applied
          else andthen (applyUsageBillingEffects cfg c) (\<lambda>r. andthen (note_entry (UsageApplied c)) (\<lambda>_. ret r)))))"

section \<open>Holds\<close>

record BatchImageBalanceHoldResult =
  hr_Applied :: bool
  hr_NewBalance :: "float64 option"
  hr_FrozenBalance :: "float64 option"

text \<open>What is applied in the transaction: \<^const>\<open>None\<close> when no row is touched.\<close>

type_synonym hold_op = "bill_config \<Rightarrow> BatchImageBalanceHoldCommand \<Rightarrow> (float64 \<times> float64) option bill"

definition moved :: "bill_entry \<Rightarrow> int \<Rightarrow> bill_user \<Rightarrow> rat \<Rightarrow> rat \<Rightarrow> (float64 \<times> float64) option bill" where
  "moved e u r b f = andthen (set_money u r b (Some f)) (\<lambda>r'. andthen (note_entry e)
     (\<lambda>_. ret (Some (rnd64 (bu_Balance r'), rnd64 (bu_Frozen r')))))"

definition moved_nothing :: "BatchImageBalanceHoldCommand \<Rightarrow> (float64 \<times> float64) option bill" where
  "moved_nothing c = andthen (note_entry (HoldNothing c)) (\<lambda>_. ret None)"

definition reserveUsageBillingBatchImageBalance :: hold_op where
  "reserveUsageBillingBatchImageBalance cfg c s =
     (let h = bc_num cfg (hc_HoldAmount c); u = hc_UserID c in
      if hc_HoldAmount c \<le> 0 then moved_nothing c s
      else case live_user u s of
        None \<Rightarrow> (Inl BillUserNotFound, s)
      | Some r \<Rightarrow> if h \<le> bu_Balance r then moved (HoldReserved c) u r (bu_Balance r - h) (bu_Frozen r + h) s
          else (Inl BatchImageInsufficientBalance, s))"

definition batchImageCostEpsilon :: float64 where "batchImageCostEpsilon = rnd64 (1 / 10 ^ 8)"

definition captureUsageBillingBatchImageBalance :: hold_op where
  "captureUsageBillingBatchImageBalance cfg c s =
     (let h = bc_num cfg (hc_HoldAmount c); a = bc_num cfg (hc_ActualAmount c); u = hc_UserID c in
      if hc_HoldAmount c \<le> 0 \<and> hc_ActualAmount c \<le> 0 then moved_nothing c s
      else if batchImageCostEpsilon < fsub (hc_ActualAmount c) (hc_HoldAmount c)
      then (Inl BatchImageSettlementCostExceedsHold, s)
      else case live_user u s of
        None \<Rightarrow> (Inl BillUserNotFound, s)
      | Some r \<Rightarrow> if h \<le> bu_Frozen r
          then moved (HoldCaptured c) u r
            (bu_Balance r + (if a < h then h - a else 0) - (if h < a then a - h else 0)) (bu_Frozen r - h) s
          else (Inl FrozenBalanceInsufficient, s))"

definition releaseUsageBillingBatchImageBalance :: hold_op where
  "releaseUsageBillingBatchImageBalance cfg c s =
     (let h = bc_num cfg (hc_HoldAmount c); u = hc_UserID c in
      if hc_HoldAmount c \<le> 0 \<or> \<not> batchImageHoldClaimExists (BatchImageHoldRequestID (hc_BatchID c)) (hc_APIKeyID c) s
      then moved_nothing c s
      else case live_user u s of
        None \<Rightarrow> (Inl BillUserNotFound, s)
      | Some r \<Rightarrow> if h \<le> bu_Frozen r then moved (HoldReleased c) u r (bu_Balance r + h) (bu_Frozen r - h) s
          else (Inl FrozenBalanceInsufficient, s))"

definition applyBatchImageBalanceHold :: "hold_op \<Rightarrow> bill_config \<Rightarrow> BatchImageBalanceHoldCommand \<Rightarrow>
    BatchImageBalanceHoldResult bill" where
  "applyBatchImageBalanceHold op cfg cmd =
     (let c = Hold_Normalize cfg cmd in
      if hc_RequestID c = [] then throw UsageBillingRequestIDRequired
      else transaction (andthen (claimUsageBillingRequest (hc_RequestID c) (hc_APIKeyID c) (hc_RequestFingerprint c))
        (\<lambda>fresh. if \<not> fresh then ret \<lparr>hr_Applied = False, hr_NewBalance = None, hr_FrozenBalance = None\<rparr>
          else andthen (op cfg c) (\<lambda>r. ret \<lparr>hr_Applied = True, hr_NewBalance = map_option fst r,
            hr_FrozenBalance = map_option snd r\<rparr>))))"

definition ReserveBatchImageBalance :: "bill_config \<Rightarrow> BatchImageBalanceHoldCommand \<Rightarrow> BatchImageBalanceHoldResult bill" where
  "ReserveBatchImageBalance = applyBatchImageBalanceHold reserveUsageBillingBatchImageBalance"

definition CaptureBatchImageBalance :: "bill_config \<Rightarrow> BatchImageBalanceHoldCommand \<Rightarrow> BatchImageBalanceHoldResult bill" where
  "CaptureBatchImageBalance = applyBatchImageBalanceHold captureUsageBillingBatchImageBalance"

definition ReleaseBatchImageBalance :: "bill_config \<Rightarrow> BatchImageBalanceHoldCommand \<Rightarrow> BatchImageBalanceHoldResult bill" where
  "ReleaseBatchImageBalance = applyBatchImageBalanceHold releaseUsageBillingBatchImageBalance"

end
