(* ===== verification/UsageBillingRuns.thy ===== *)
theory UsageBillingRuns
  imports UsageBilling
begin

text \<open>
  Sequences of billing transactions, in any order, with failures, lost answers, cleanups, and changes from
  outside. What was applied is recorded in the ledger: every claim stands for exactly one entry, and the
  balances are the openings plus the entries, up to the rounding of the columns.
\<close>

section \<open>Claims stand for entries\<close>

text \<open>A table of claims and a log of what was done, in which a step either does nothing to both or claims
  a new key and logs it.\<close>

locale once_only =
  fixes claims :: "'s \<Rightarrow> 'k set" and log :: "'s \<Rightarrow> 'k list" and step :: "'s \<Rightarrow> 's \<Rightarrow> bool"
  assumes step_log: "step s s' \<Longrightarrow> (claims s' = claims s \<and> log s' = log s)
    \<or> (\<exists>k. k \<notin> claims s \<and> claims s' = insert k (claims s) \<and> log s' = log s @ [k])"
begin

definition kept :: "'s \<Rightarrow> bool" where
  "kept s \<longleftrightarrow> distinct (log s) \<and> set (log s) = claims s"

lemma kept_step: "step s s' \<Longrightarrow> kept s \<Longrightarrow> kept s'"
  using step_log [of s s'] by (auto simp: kept_def)

lemma kept_run: "step\<^sup>*\<^sup>* s s' \<Longrightarrow> kept s \<Longrightarrow> kept s'"
  by (induction rule: rtranclp_induct) (auto intro: kept_step)

lemma log_grows: "step\<^sup>*\<^sup>* s s' \<Longrightarrow> prefix (log s) (log s')"
  by (induction rule: rtranclp_induct) (use step_log in \<open>force simp: prefix_def\<close>)+

end

definition entry_key :: "bill_entry \<Rightarrow> (string \<times> int) option" where
  "entry_key e = (case e of
     UsageApplied c \<Rightarrow> Some (uc_RequestID c, uc_APIKeyID c)
   | HoldReserved c \<Rightarrow> Some (hc_RequestID c, hc_APIKeyID c)
   | HoldCaptured c \<Rightarrow> Some (hc_RequestID c, hc_APIKeyID c)
   | HoldReleased c \<Rightarrow> Some (hc_RequestID c, hc_APIKeyID c)
   | HoldNothing c \<Rightarrow> Some (hc_RequestID c, hc_APIKeyID c)
   | Credited _ _ \<Rightarrow> None)"

definition logged_keys :: "bill_store \<Rightarrow> (string \<times> int) list" where
  "logged_keys s = List.map_filter entry_key (bs_ledger s)"

definition row_key :: "claim_row \<Rightarrow> string \<times> int" where
  "row_key r = (cl_RequestID r, cl_APIKeyID r)"

definition claimed :: "bill_store \<Rightarrow> (string \<times> int) set" where
  "claimed s = row_key ` set (bs_dedup s) \<union> row_key ` set (bs_archive s)"

lemma find_claim_None: "find_claim rid k rows = None \<longleftrightarrow> (rid, k) \<notin> row_key ` set rows"
  by (auto simp: find_claim_def find_None_iff row_key_def)

lemma map_filter_snoc: "List.map_filter f (xs @ [x]) = List.map_filter f xs @ (case f x of None \<Rightarrow> [] | Some y \<Rightarrow> [y])"
  by (induction xs) (auto simp: List.map_filter_simps split: option.split)

section \<open>Frames\<close>

definition books :: "claim_row list \<Rightarrow> claim_row list \<Rightarrow> bill_entry list \<Rightarrow> bill_store \<Rightarrow> bool" where
  "books d a l s \<longleftrightarrow> bs_dedup s = d \<and> bs_archive s = a \<and> bs_ledger s = l"

definition money_is :: "(int \<rightharpoonup> bill_user) \<Rightarrow> bill_store \<Rightarrow> bool" where
  "money_is m s \<longleftrightarrow> bs_users s = m"

lemma preserves_optional [preserves]: "preserves P p \<Longrightarrow> preserves P (optional b p)"
  by (simp add: optional_def preserves)

lemma effects_books [preserves]:
  "preserves (books d a l) (incrementUsageBillingSubscription i x)"
  "preserves (books d a l) (deductUsageBillingBalance u x)"
  "preserves (books d a l) (incrementUsageBillingAPIKeyQuota i x)"
  "preserves (books d a l) (incrementUsageBillingAPIKeyRateLimit cfg i x)"
  "preserves (books d a l) (incrementUsageBillingAccountQuota cfg i x)"
  by (rule preservesI, simp add: books_def incrementUsageBillingSubscription_def deductUsageBillingBalance_def
      set_money_def run incrementUsageBillingAPIKeyQuota_def incrementUsageBillingAPIKeyRateLimit_def put_key_def
      incrementUsageBillingAccountQuota_def enqueue_account_def Let_def split: option.split)+

lemma effects_money [preserves]:
  "preserves (money_is m) (incrementUsageBillingSubscription i x)"
  "preserves (money_is m) (incrementUsageBillingAPIKeyQuota i x)"
  "preserves (money_is m) (incrementUsageBillingAPIKeyRateLimit cfg i x)"
  "preserves (money_is m) (incrementUsageBillingAccountQuota cfg i x)"
  by (rule preservesI, simp add: money_is_def incrementUsageBillingSubscription_def
      incrementUsageBillingAPIKeyQuota_def incrementUsageBillingAPIKeyRateLimit_def put_key_def
      incrementUsageBillingAccountQuota_def enqueue_account_def Let_def split: option.split)+

lemma applyUsageBillingEffects_books: "preserves (books d a l) (applyUsageBillingEffects cfg c)"
  unfolding applyUsageBillingEffects_def by (intro preserves)

text \<open>A transaction that commits goes from the store it found, with the fault script advanced.\<close>

lemma transaction_cases:
  obtains fs where "snd (transaction p s) = s\<lparr>bs_faults := fs\<rparr>"
  | fs a where "p (s\<lparr>bs_faults := fs\<rparr>) = (Inr a, snd (transaction p s))"
proof -
  have c: "snd (committed p t) = t \<or> (\<exists>a. p t = (Inr a, snd (committed p t)))" for t
    by (auto simp: committed_def split: prod.split sum.split)
  have same: "s\<lparr>bs_faults := bs_faults s\<rparr> = s" by simp
  show thesis
  proof (cases "bs_faults s")
    case Nil
    then have "transaction p s = committed p s" by (simp add: transaction_def)
    with c [of s] show thesis using that same by metis
  next
    case (Cons f fs)
    then have "snd (transaction p s) = s\<lparr>bs_faults := fs\<rparr> \<or> snd (transaction p s) = snd (committed p (s\<lparr>bs_faults := fs\<rparr>))"
      by (simp add: transaction_def split: fault.split)
    with c [of "s\<lparr>bs_faults := fs\<rparr>"] show thesis using that by metis
  qed
qed

lemma claim_fresh:
  assumes "claimUsageBillingRequest rid k fp s = (Inr True, s')"
  shows "(rid, k) \<notin> claimed s" and "claimed s' = insert (rid, k) (claimed s)" and "bs_ledger s' = bs_ledger s"
    and "bs_users s' = bs_users s" and "bs_archive s' = bs_archive s"
  using assms by (auto simp: claimUsageBillingRequest_def claimed_def find_claim_None same_claim_def row_key_def
      split: option.splits if_splits)

lemma claim_old: "claimUsageBillingRequest rid k fp s = (Inr False, s') \<Longrightarrow> s' = s"
  by (auto simp: claimUsageBillingRequest_def same_claim_def split: option.splits if_splits)

section \<open>Every operation\<close>

text \<open>A release is posted only under a claim of the batch's hold.\<close>

definition release_ok :: "bill_entry \<Rightarrow> bill_store \<Rightarrow> bool" where
  "release_ok e s \<longleftrightarrow> (case e of
     HoldReleased c \<Rightarrow> (BatchImageHoldRequestID (hc_BatchID c), hc_APIKeyID c) \<in> claimed s | _ \<Rightarrow> True)"

text \<open>\<open>logs s e s'\<close>: the entry \<open>e\<close> and its claim, new before, are what the step adds to the books.\<close>

definition logs :: "bill_store \<Rightarrow> bill_entry \<Rightarrow> bill_store \<Rightarrow> bool" where
  "logs s e s' \<longleftrightarrow> bs_ledger s' = bs_ledger s @ [e] \<and> release_ok e s'
     \<and> (case entry_key e of None \<Rightarrow> claimed s' = claimed s
        | Some k \<Rightarrow> k \<notin> claimed s \<and> claimed s' = insert k (claimed s))"

definition same_books :: "bill_store \<Rightarrow> bill_store \<Rightarrow> bool" where
  "same_books s s' \<longleftrightarrow> bs_ledger s' = bs_ledger s \<and> claimed s' = claimed s \<and> bs_users s' = bs_users s"

text \<open>What an entry does to the rows of the users.\<close>

definition balance_change :: "bill_config \<Rightarrow> bill_entry \<Rightarrow> rat" where
  "balance_change cfg e = (case e of
     UsageApplied c \<Rightarrow> if 0 < uc_BalanceCost c then - bc_num cfg (uc_BalanceCost c) else 0
   | HoldReserved c \<Rightarrow> - bc_num cfg (hc_HoldAmount c)
   | HoldCaptured c \<Rightarrow> bc_num cfg (hc_HoldAmount c) - bc_num cfg (hc_ActualAmount c)
   | HoldReleased c \<Rightarrow> bc_num cfg (hc_HoldAmount c)
   | HoldNothing c \<Rightarrow> 0
   | Credited _ x \<Rightarrow> x)"

definition frozen_change :: "bill_config \<Rightarrow> bill_entry \<Rightarrow> rat" where
  "frozen_change cfg e = (case e of
     HoldReserved c \<Rightarrow> bc_num cfg (hc_HoldAmount c)
   | HoldCaptured c \<Rightarrow> - bc_num cfg (hc_HoldAmount c)
   | HoldReleased c \<Rightarrow> - bc_num cfg (hc_HoldAmount c)
   | _ \<Rightarrow> 0)"

definition entry_user :: "bill_entry \<Rightarrow> int" where
  "entry_user e = (case e of UsageApplied c \<Rightarrow> uc_UserID c | HoldReserved c \<Rightarrow> hc_UserID c
     | HoldCaptured c \<Rightarrow> hc_UserID c | HoldReleased c \<Rightarrow> hc_UserID c | HoldNothing c \<Rightarrow> hc_UserID c
     | Credited u _ \<Rightarrow> u)"

definition moves_money :: "bill_entry \<Rightarrow> bool" where
  "moves_money e \<longleftrightarrow> (case e of UsageApplied c \<Rightarrow> 0 < uc_BalanceCost c | HoldNothing _ \<Rightarrow> False | _ \<Rightarrow> True)"

definition is_hold :: "bill_entry \<Rightarrow> bool" where
  "is_hold e \<longleftrightarrow> (case e of UsageApplied _ \<Rightarrow> False | Credited _ _ \<Rightarrow> False | _ \<Rightarrow> True)"

definition lifts_hold :: "bill_entry \<Rightarrow> bool" where
  "lifts_hold e \<longleftrightarrow> (case e of HoldCaptured _ \<Rightarrow> True | HoldReleased _ \<Rightarrow> True | _ \<Rightarrow> False)"

definition positive_hold :: "bill_entry \<Rightarrow> bool" where
  "positive_hold e \<longleftrightarrow> (case e of HoldReserved c \<Rightarrow> 0 < hc_HoldAmount c | _ \<Rightarrow> True)"

definition posted :: "bill_config \<Rightarrow> bill_store \<Rightarrow> bill_entry \<Rightarrow> bill_store \<Rightarrow> bool" where
  "posted cfg s e s' \<longleftrightarrow>
     (if moves_money e
      then \<exists>r. bs_users s (entry_user e) = Some r
        \<and> bs_users s' = (bs_users s)(entry_user e \<mapsto> paid_user r (bu_Balance r + balance_change cfg e)
            (if is_hold e then Some (bu_Frozen r + frozen_change cfg e) else None))
        \<and> (lifts_hold e \<longrightarrow> 0 \<le> bu_Frozen r + frozen_change cfg e) \<and> positive_hold e
      else bs_users s' = bs_users s)"

lemma set_money_Inr:
  "set_money u r b f s = (Inr r', s') \<Longrightarrow> r' = paid_user r b f \<and> s' = s\<lparr>bs_users := (bs_users s)(u \<mapsto> paid_user r b f)\<rparr>"
  by (auto simp: set_money_def split: if_splits)

lemma live_user_Some: "live_user u s = Some r \<Longrightarrow> bs_users s u = Some r"
  by (auto simp: live_user_def split: option.splits if_splits)

lemma claimed_users [simp]: "claimed (s\<lparr>bs_users := m\<rparr>) = claimed s" "claimed (s\<lparr>bs_ledger := l\<rparr>) = claimed s"
  "claimed (s\<lparr>bs_faults := fs\<rparr>) = claimed s"
  by (simp_all add: claimed_def)

lemma effects_money_Inr:
  assumes "applyUsageBillingEffects cfg c s = (Inr r, s')"
  shows "if 0 < uc_BalanceCost c then \<exists>x. bs_users s (uc_UserID c) = Some x
      \<and> bs_users s' = (bs_users s)(uc_UserID c \<mapsto> paid_user x (bu_Balance x - bc_num cfg (uc_BalanceCost c)) None)
    else bs_users s' = bs_users s"
proof -
  let ?sub = "case uc_SubscriptionID c of
      Some i \<Rightarrow> when_do (0 < uc_SubscriptionCost c) (incrementUsageBillingSubscription i (bc_num cfg (uc_SubscriptionCost c)))
    | None \<Rightarrow> ret ()"
  let ?bal = "optional (0 < uc_BalanceCost c) (deductUsageBillingBalance (uc_UserID c) (bc_num cfg (uc_BalanceCost c)))"
  let ?rest = "\<lambda>bal. andthen (optional (0 < uc_APIKeyQuotaCost c)
       (incrementUsageBillingAPIKeyQuota (uc_APIKeyID c) (bc_num cfg (uc_APIKeyQuotaCost c)))) (\<lambda>ex.
     andthen (when_do (0 < uc_APIKeyRateLimitCost c)
       (incrementUsageBillingAPIKeyRateLimit cfg (uc_APIKeyID c) (bc_num cfg (uc_APIKeyRateLimitCost c)))) (\<lambda>_.
     andthen (optional (has_account_quota c)
       (incrementUsageBillingAccountQuota cfg (uc_AccountID c) (uc_AccountQuotaCost c))) (\<lambda>q.
     ret \<lparr>ar_Applied = True, ar_APIKeyQuotaExhausted = (ex = Some True), ar_NewBalance = map_option fst bal,
       ar_BalanceOverdrafted = (case bal of None \<Rightarrow> False | Some (_, ok) \<Rightarrow> \<not> ok), ar_QuotaState = q\<rparr>)))"
  obtain s1 bal s2 where 1: "?sub s = (Inr (), s1)" and 2: "?bal s1 = (Inr bal, s2)"
    and 3: "?rest bal s2 = (Inr r, s')"
    using assms unfolding applyUsageBillingEffects_def andthen_def
    by (auto split: prod.splits sum.splits)
  have "preserves (money_is (bs_users s)) ?sub" by (intro preserves)
  then have m1: "bs_users s1 = bs_users s"
    using preservesD' [of "money_is (bs_users s)" ?sub s "Inr ()" s1] 1 by (simp add: money_is_def)
  have m3: "bs_users s' = bs_users s2"
    using preservesD' [of "money_is (bs_users s2)" "?rest bal" s2 "Inr r" s'] 3 by (simp add: money_is_def preserves)
  show ?thesis
  proof (cases "0 < uc_BalanceCost c")
    case True
    with 2 obtain b where "deductUsageBillingBalance (uc_UserID c) (bc_num cfg (uc_BalanceCost c)) s1 = (Inr b, s2)"
      by (auto simp: optional_def run split: prod.splits sum.splits)
    then obtain x where "live_user (uc_UserID c) s1 = Some x"
      "s2 = s1\<lparr>bs_users := (bs_users s1)(uc_UserID c \<mapsto> paid_user x (bu_Balance x - bc_num cfg (uc_BalanceCost c)) None)\<rparr>"
      by (auto simp: deductUsageBillingBalance_def run dest!: set_money_Inr split: option.splits prod.splits sum.splits)
    with True m1 m3 live_user_Some show ?thesis by fastforce
  next
    case False
    with 2 m1 m3 show ?thesis by (auto simp: optional_def run)
  qed
qed

text \<open>Each operation of the repository either leaves the books as they are or posts one entry.\<close>

definition books_step :: "bill_config \<Rightarrow> bill_store \<Rightarrow> bill_store \<Rightarrow> bool" where
  "books_step cfg s s' \<longleftrightarrow> same_books s s' \<or> (\<exists>e. logs s e s' \<and> posted cfg s e s')"

lemma faults_same: "same_books s (s\<lparr>bs_faults := fs\<rparr>)"
  by (simp add: same_books_def)

lemma books_step_faults: "books_step cfg (s\<lparr>bs_faults := fs\<rparr>) s' = books_step cfg s s'"
  by (simp add: books_step_def same_books_def logs_def posted_def cong: if_cong split: option.split)

lemma transaction_books:
  assumes "\<And>s a s'. p s = (Inr a, s') \<Longrightarrow> books_step cfg s s'"
  shows "books_step cfg s (snd (transaction p s))"
proof (cases rule: transaction_cases [of p s])
  case (1 fs)
  then show ?thesis using faults_same books_step_def by metis
next
  case (2 fs a)
  then show ?thesis using assms books_step_faults by metis
qed

lemma Billing_Apply_books: "books_step cfg s (snd (Billing_Apply cfg cmd s))"
proof -
  let ?c = "Usage_Normalize cfg cmd"
  let ?p = "andthen (claimUsageBillingRequest (uc_RequestID ?c) (uc_APIKeyID ?c) (uc_RequestFingerprint ?c))
        (\<lambda>fresh. if \<not> fresh then ret not_applied
          else andthen (applyUsageBillingEffects cfg ?c) (\<lambda>r. andthen (note_entry (UsageApplied ?c)) (\<lambda>_. ret r)))"
  have p: "books_step cfg s s'" if run: "?p s = (Inr a, s')" for s a s'
  proof -
    from run obtain fresh s1 where cl: "claimUsageBillingRequest (uc_RequestID ?c) (uc_APIKeyID ?c)
        (uc_RequestFingerprint ?c) s = (Inr fresh, s1)"
      by (auto simp: andthen_def split: prod.splits sum.splits)
    show ?thesis
    proof (cases fresh)
      case True
      with run cl obtain s2 where eff: "applyUsageBillingEffects cfg ?c s1 = (Inr a, s2)"
        and s': "s' = s2\<lparr>bs_ledger := bs_ledger s2 @ [UsageApplied ?c]\<rparr>"
        by (auto simp: andthen_def note_entry_def update_def ret_def split: prod.splits sum.splits)
      have "books (bs_dedup s1) (bs_archive s1) (bs_ledger s1) s2"
        using preservesD' [OF applyUsageBillingEffects_books eff] by (simp add: books_def)
      then have b: "claimed s2 = claimed s1" "bs_ledger s2 = bs_ledger s1" by (simp_all add: books_def claimed_def)
      from True have "logs s (UsageApplied ?c) s'"
        using claim_fresh [of _ _ _ s s1] cl b by (simp add: logs_def s' entry_key_def release_ok_def)
      moreover have "posted cfg s (UsageApplied ?c) s'"
        using effects_money_Inr [OF eff] claim_fresh(4) [of _ _ _ s s1] cl True
        by (auto simp: posted_def s' moves_money_def entry_user_def balance_change_def is_hold_def lifts_hold_def
            positive_hold_def split: if_splits)
      ultimately show ?thesis unfolding books_step_def by blast
    next
      case False
      then have "s1 = s" using cl claim_old by simp
      with run cl False have "s' = s" by (simp add: run_andthen run_ret)
      then show ?thesis by (simp add: books_step_def same_books_def)
    qed
  qed
  show ?thesis
  proof (cases "uc_RequestID ?c = []")
    case True
    then show ?thesis by (simp add: Billing_Apply_def run Let_def books_step_def same_books_def)
  next
    case False
    then have "Billing_Apply cfg cmd s = transaction ?p s" by (simp add: Billing_Apply_def Let_def)
    then show ?thesis using transaction_books [OF p] by simp
  qed
qed

section \<open>The three operations on holds\<close>

text \<open>What the operations on holds share: a committed one posts one entry under the request of its command
  and leaves the claims to the transaction.\<close>

locale hold_operation =
  fixes op :: hold_op
  assumes posts: "op cfg c s = (Inr r, s') \<Longrightarrow> \<exists>e. entry_key e = Some (hc_RequestID c, hc_APIKeyID c)
    \<and> bs_ledger s' = bs_ledger s @ [e] \<and> bs_dedup s' = bs_dedup s \<and> bs_archive s' = bs_archive s \<and> posted cfg s e s'
    \<and> release_ok e s'"
begin

lemma hold_books: "books_step cfg s (snd (applyBatchImageBalanceHold op cfg cmd s))"
proof -
  let ?c = "Hold_Normalize cfg cmd"
  let ?p = "andthen (claimUsageBillingRequest (hc_RequestID ?c) (hc_APIKeyID ?c) (hc_RequestFingerprint ?c))
        (\<lambda>fresh. if \<not> fresh then ret \<lparr>hr_Applied = False, hr_NewBalance = None, hr_FrozenBalance = None\<rparr>
          else andthen (op cfg ?c) (\<lambda>r. ret \<lparr>hr_Applied = True, hr_NewBalance = map_option fst r,
            hr_FrozenBalance = map_option snd r\<rparr>))"
  have p: "books_step cfg s s'" if run: "?p s = (Inr a, s')" for s a s'
  proof -
    from run obtain fresh s1 where cl: "claimUsageBillingRequest (hc_RequestID ?c) (hc_APIKeyID ?c)
        (hc_RequestFingerprint ?c) s = (Inr fresh, s1)"
      by (auto simp: andthen_def split: prod.splits sum.splits)
    show ?thesis
    proof (cases fresh)
      case True
      with run cl obtain r where eff: "op cfg ?c s1 = (Inr r, s')"
        by (auto simp: andthen_def ret_def split: prod.splits sum.splits)
      from posts [OF this] obtain e where e: "entry_key e = Some (hc_RequestID ?c, hc_APIKeyID ?c)"
        "bs_ledger s' = bs_ledger s1 @ [e]" "bs_dedup s' = bs_dedup s1" "bs_archive s' = bs_archive s1"
        "posted cfg s1 e s'" "release_ok e s'" by blast
      from True cl have "logs s e s'"
        using claim_fresh [of _ _ _ s s1] e by (simp add: logs_def claimed_def)
      moreover have "posted cfg s e s'"
        using e(5) claim_fresh(4) [of _ _ _ s s1] cl True by (simp add: posted_def cong: if_cong)
      ultimately show ?thesis unfolding books_step_def by blast
    next
      case False
      then have "s1 = s" using cl claim_old by simp
      with run cl False have "s' = s" by (simp add: run_andthen run_ret)
      then show ?thesis by (simp add: books_step_def same_books_def)
    qed
  qed
  show ?thesis
  proof (cases "hc_RequestID ?c = []")
    case True
    then show ?thesis by (simp add: applyBatchImageBalanceHold_def run Let_def books_step_def same_books_def)
  next
    case False
    then have "applyBatchImageBalanceHold op cfg cmd s = transaction ?p s"
      by (simp add: applyBatchImageBalanceHold_def Let_def)
    then show ?thesis using transaction_books [OF p] by simp
  qed
qed

end

lemma moved_Inr:
  "moved e u r b f s = (Inr x, s') \<Longrightarrow> bs_ledger s' = bs_ledger s @ [e] \<and> bs_dedup s' = bs_dedup s
     \<and> bs_archive s' = bs_archive s \<and> bs_users s' = (bs_users s)(u \<mapsto> paid_user r b (Some f))"
  by (auto simp: moved_def andthen_def note_entry_def update_def ret_def dest!: set_money_Inr split: prod.splits sum.splits)

lemma moved_nothing_Inr:
  "moved_nothing c s = (Inr x, s') \<Longrightarrow> s' = s\<lparr>bs_ledger := bs_ledger s @ [HoldNothing c]\<rparr>"
  by (auto simp: moved_nothing_def run note_entry_def)

lemmas entry_simps = entry_key_def entry_user_def balance_change_def frozen_change_def is_hold_def lifts_hold_def
  moves_money_def positive_hold_def

definition posts_one :: "bill_config \<Rightarrow> BatchImageBalanceHoldCommand \<Rightarrow> bill_store \<Rightarrow> bill_store \<Rightarrow> bool" where
  "posts_one cfg c s s' \<longleftrightarrow> (\<exists>e. entry_key e = Some (hc_RequestID c, hc_APIKeyID c)
     \<and> bs_ledger s' = bs_ledger s @ [e] \<and> bs_dedup s' = bs_dedup s \<and> bs_archive s' = bs_archive s
     \<and> posted cfg s e s' \<and> release_ok e s')"

lemma nothing_posts_one: "moved_nothing c s = (Inr x, s') \<Longrightarrow> posts_one cfg c s s'"
  unfolding posts_one_def by (intro exI [of _ "HoldNothing c"]) (auto dest: moved_nothing_Inr simp: posted_def entry_simps release_ok_def)

lemma moved_posts_one:
  assumes "moved e u r b f s = (Inr x, s')" and "live_user u s = Some r" and "entry_user e = u" "is_hold e" "moves_money e"
    and "entry_key e = Some (hc_RequestID c, hc_APIKeyID c)"
    and "b = bu_Balance r + balance_change cfg e" "f = bu_Frozen r + frozen_change cfg e" "lifts_hold e \<longrightarrow> 0 \<le> f" "positive_hold e" "release_ok e s"
  shows "posts_one cfg c s s'"
  unfolding posts_one_def
  using moved_Inr [OF assms(1)] live_user_Some [OF assms(2)] assms(3-)
  by (intro exI [of _ e]) (simp add: posted_def release_ok_def claimed_def split: bill_entry.splits)

lemma claim_exists: "batchImageHoldClaimExists rid k s \<longleftrightarrow> (rid, k) \<in> claimed s"
  unfolding batchImageHoldClaimExists_def find_claim_None claimed_def by blast

lemma hold_operations_post_one:
  "reserveUsageBillingBatchImageBalance cfg c s = (Inr r, s') \<Longrightarrow> posts_one cfg c s s'"
  "captureUsageBillingBatchImageBalance cfg c s = (Inr r, s') \<Longrightarrow> posts_one cfg c s s'"
  "releaseUsageBillingBatchImageBalance cfg c s = (Inr r, s') \<Longrightarrow> posts_one cfg c s s'"
  unfolding reserveUsageBillingBatchImageBalance_def captureUsageBillingBatchImageBalance_def
    releaseUsageBillingBatchImageBalance_def Let_def
  by (auto split: if_splits option.splits intro: nothing_posts_one elim!: moved_posts_one
      simp: entry_simps release_ok_def claim_exists)

interpretation reserving: hold_operation reserveUsageBillingBatchImageBalance
  by unfold_locales (use hold_operations_post_one in \<open>simp add: posts_one_def\<close>)

interpretation capturing: hold_operation captureUsageBillingBatchImageBalance
  by unfold_locales (use hold_operations_post_one in \<open>simp add: posts_one_def\<close>)

interpretation releasing: hold_operation releaseUsageBillingBatchImageBalance
  by unfold_locales (use hold_operations_post_one in \<open>simp add: posts_one_def\<close>)


section \<open>Runs\<close>

lemma split_victims_set:
  "set (fst (split_victims cutoff n rows)) \<union> set (snd (split_victims cutoff n rows)) = set rows"
proof (induction cutoff n rows rule: split_victims.induct)
  case (3 cutoff n r rows)
  then show ?case by (cases "cl_CreatedAt r < cutoff") (simp_all add: case_prod_beta)
qed simp_all

lemma archived_keys: "row_key ` set (foldl archive_row rows v) = row_key ` set rows \<union> row_key ` set v"
proof (induction v arbitrary: rows)
  case (Cons r v)
  have one: "row_key ` set (archive_row rows r) = insert (row_key r) (row_key ` set rows)"
    by (cases "row_key r \<in> row_key ` set rows")
      (simp_all add: archive_row_def find_claim_None row_key_def [symmetric] insert_absorb)
  show ?case by (simp add: Cons.IH one)
qed simp

lemma cleanup_round_same:
  assumes "cleanup_round n cutoff s = (Inr a, s')"
  shows "same_books s s'"
proof -
  obtain v rows where v: "split_victims cutoff n (bs_dedup s) = (v, rows)" by fastforce
  with assms have s': "s' = s\<lparr>bs_dedup := rows, bs_archive := foldl archive_row (bs_archive s) v\<rparr>"
    by (simp add: cleanup_round_def)
  have "row_key ` set (bs_dedup s) = row_key ` set v \<union> row_key ` set rows"
    using split_victims_set [of cutoff n "bs_dedup s"] v by (simp flip: image_Un)
  then show ?thesis by (auto simp: same_books_def claimed_def s' archived_keys)
qed

lemma same_books_trans: "same_books s t \<Longrightarrow> same_books t u \<Longrightarrow> same_books s u"
  by (simp add: same_books_def)

lemma transaction_same:
  assumes "\<And>s a s'. p s = (Inr a, s') \<Longrightarrow> same_books s s'"
  shows "same_books s (snd (transaction p s))"
proof (cases rule: transaction_cases [of p s])
  case (1 fs)
  then show ?thesis by (simp add: faults_same)
next
  case (2 fs a)
  from same_books_trans [OF faults_same assms [OF this]] show ?thesis .
qed

lemma cleanup_same: "same_books s (snd (cleanup_loop cutoff s))"
proof (induction cutoff s rule: cleanup_loop.induct)
  case (1 cutoff s)
  let ?t = "transaction (cleanup_round usageBillingDedupCleanupBatchSize cutoff) s"
  obtain r s' where t: "?t = (r, s')" by fastforce
  have "same_books s (snd ?t)" by (rule transaction_same) (rule cleanup_round_same)
  with t have s': "same_books s s'" by simp
  show ?case
  proof (cases r)
    case (Inl e)
    with t s' show ?thesis by (subst cleanup_loop.simps) simp
  next
    case (Inr n)
    show ?thesis
    proof (cases "n < usageBillingDedupCleanupBatchSize")
      case True
      with t s' Inr show ?thesis by (subst cleanup_loop.simps) simp
    next
      case False
      with 1 t Inr have "same_books s' (snd (cleanup_loop cutoff s'))" by simp
      with t s' Inr False show ?thesis by (subst cleanup_loop.simps) (auto intro: same_books_trans)
    qed
  qed
qed

text \<open>What else changes the store: other tables, the clock and the fault script, rows of users as to anything
  but money, and credits of balances.\<close>

definition money_of :: "bill_user \<Rightarrow> rat \<times> rat" where
  "money_of r = (bu_Balance r, bu_Frozen r)"

definition outside :: "bill_store \<Rightarrow> bill_store \<Rightarrow> bool" where
  "outside s s' \<longleftrightarrow> bs_dedup s' = bs_dedup s \<and> bs_archive s' = bs_archive s \<and> bs_ledger s' = bs_ledger s
     \<and> map_option money_of \<circ> bs_users s' = map_option money_of \<circ> bs_users s"

inductive bill_step :: "bill_config \<Rightarrow> bill_store \<Rightarrow> bill_store \<Rightarrow> bool" for cfg where
  Apply: "bill_step cfg s (snd (Billing_Apply cfg c s))"
| Reserve: "bill_step cfg s (snd (ReserveBatchImageBalance cfg h s))"
| Capture: "bill_step cfg s (snd (CaptureBatchImageBalance cfg h s))"
| Release: "bill_step cfg s (snd (ReleaseBatchImageBalance cfg h s))"
| Cleanup: "bill_step cfg s (snd (cleanup_loop cutoff s))"
| Outside: "outside s s' \<Longrightarrow> bill_step cfg s s'"
| Credit: "bs_users s u = Some r \<Longrightarrow>
    bill_step cfg s (s\<lparr>bs_users := (bs_users s)(u \<mapsto> paid_user r (bu_Balance r + x) None),
      bs_ledger := bs_ledger s @ [Credited u x]\<rparr>)"

lemma bill_step_cases:
  assumes "bill_step cfg s s'"
  shows "books_step cfg s s' \<or> outside s s'"
  using assms
proof cases
  case (Credit u r x)
  then have "logs s (Credited u x) s' \<and> posted cfg s (Credited u x) s'"
    by (auto simp: logs_def posted_def entry_simps release_ok_def)
  then show ?thesis unfolding books_step_def by blast
next
  case (Cleanup cutoff)
  then show ?thesis using cleanup_same by (simp add: books_step_def)
qed (simp_all add: Billing_Apply_books ReserveBatchImageBalance_def CaptureBatchImageBalance_def
  ReleaseBatchImageBalance_def reserving.hold_books capturing.hold_books releasing.hold_books)

interpretation billing: once_only claimed logged_keys "bill_step cfg" for cfg
proof
  fix s s' assume "bill_step cfg s s'"
  then have "books_step cfg s s' \<or> outside s s'" by (rule bill_step_cases)
  then show "(claimed s' = claimed s \<and> logged_keys s' = logged_keys s)
    \<or> (\<exists>k. k \<notin> claimed s \<and> claimed s' = insert k (claimed s) \<and> logged_keys s' = logged_keys s @ [k])"
  proof
    assume "books_step cfg s s'"
    then consider "same_books s s'" | e where "logs s e s'" by (auto simp: books_step_def)
    then show ?thesis
    proof cases
      case (2 e)
      then show ?thesis by (cases "entry_key e") (auto simp: logs_def logged_keys_def map_filter_snoc)
    qed (simp add: same_books_def logged_keys_def)
  next
    assume "outside s s'"
    then show ?thesis by (simp add: outside_def logged_keys_def claimed_def)
  qed
qed

lemma no_books: "bs_dedup s = [] \<Longrightarrow> bs_archive s = [] \<Longrightarrow> bs_ledger s = [] \<Longrightarrow> billing.kept s"
  by (simp add: billing.kept_def claimed_def logged_keys_def List.map_filter_simps)

text \<open>C11: a request is applied at most once, and it stays claimed. Whatever requests, holds, cleanups that
  archive the claims, failures and lost answers came in whatever order: of the entries of the ledger no two
  are of the same request of the same API key, and the requests with an entry are exactly those that have a
  claim in one of the two tables.\<close>

theorem request_applied_at_most_once:
  assumes "bs_dedup s0 = []" "bs_archive s0 = []" "bs_ledger s0 = []" and "(bill_step cfg)\<^sup>*\<^sup>* s0 s"
  shows "distinct (List.map_filter entry_key (bs_ledger s))
    \<and> set (List.map_filter entry_key (bs_ledger s)) = claimed s"
  using billing.kept_run [OF assms(4) no_books [OF assms(1-3)]] by (simp add: billing.kept_def logged_keys_def)

end
