(* ===== verification/UsageBillingMoney.thy ===== *)
theory UsageBillingMoney
  imports UsageBillingRuns
begin

text \<open>
  What billing does to the money of a user: the balance and the frozen balance follow from the ledger, up to
  the rounding of the columns; the runs in which a hold cannot be settled; what a repeated request does.
\<close>

section \<open>Money\<close>

definition balance_sum :: "bill_config \<Rightarrow> int \<Rightarrow> bill_entry list \<Rightarrow> rat" where
  "balance_sum cfg u l = sum_list (map (balance_change cfg) (filter (\<lambda>e. entry_user e = u) l))"

definition frozen_sum :: "bill_config \<Rightarrow> int \<Rightarrow> bill_entry list \<Rightarrow> rat" where
  "frozen_sum cfg u l = sum_list (map (frozen_change cfg) (filter (\<lambda>e. entry_user e = u) l))"

lemma sums_snoc:
  "balance_sum cfg u (l @ [e]) = balance_sum cfg u l + (if entry_user e = u then balance_change cfg e else 0)"
  "frozen_sum cfg u (l @ [e]) = frozen_sum cfg u l + (if entry_user e = u then frozen_change cfg e else 0)"
  by (simp_all add: balance_sum_def frozen_sum_def)

lemma not_hold: "\<not> is_hold e \<Longrightarrow> frozen_change cfg e = 0"
  by (simp add: is_hold_def frozen_change_def split: bill_entry.splits)

lemma not_moving: "\<not> moves_money e \<Longrightarrow> balance_change cfg e = 0 \<and> frozen_change cfg e = 0"
  by (simp add: moves_money_def balance_change_def frozen_change_def split: bill_entry.splits)

text \<open>A property of the columns of one user, relative to the openings and to what the ledger says.\<close>

definition columns :: "(bill_user \<Rightarrow> bill_user \<Rightarrow> rat \<Rightarrow> rat \<Rightarrow> nat \<Rightarrow> bool) \<Rightarrow> bill_config \<Rightarrow> bill_store \<Rightarrow> bill_store \<Rightarrow> bool" where
  "columns Q cfg s0 s \<longleftrightarrow> (\<forall>u r. bs_users s u = Some r \<longrightarrow> (\<exists>r0. bs_users s0 u = Some r0
     \<and> Q r0 r (balance_sum cfg u (bs_ledger s)) (frozen_sum cfg u (bs_ledger s)) (length (bs_ledger s))))"

lemma columnsI:
  "(\<And>u r. bs_users s u = Some r \<Longrightarrow> \<exists>r0. bs_users s0 u = Some r0
     \<and> Q r0 r (balance_sum cfg u (bs_ledger s)) (frozen_sum cfg u (bs_ledger s)) (length (bs_ledger s)))
   \<Longrightarrow> columns Q cfg s0 s"
  by (simp add: columns_def)

lemma columnsE:
  assumes "columns Q cfg s0 s" and "bs_users s u = Some r"
  obtains r0 where "bs_users s0 u = Some r0"
    and "Q r0 r (balance_sum cfg u (bs_ledger s)) (frozen_sum cfg u (bs_ledger s)) (length (bs_ledger s))"
  using assms unfolding columns_def by blast

lemma columns_step:
  assumes step: "bill_step cfg s s'" and cols: "columns Q cfg s0 s"
    and ok: "\<And>e. e \<in> set (bs_ledger s') \<Longrightarrow> A e"
    and same: "\<And>r0 r r' b f n. Q r0 r b f n \<Longrightarrow> money_of r' = money_of r \<Longrightarrow> Q r0 r' b f n"
    and more: "\<And>r0 r b f n. Q r0 r b f n \<Longrightarrow> Q r0 r b f (Suc n)"
    and pays: "\<And>r0 r b f n e. Q r0 r b f n \<Longrightarrow> A e \<Longrightarrow> (lifts_hold e \<longrightarrow> 0 \<le> bu_Frozen r + frozen_change cfg e) \<Longrightarrow>
      positive_hold e \<Longrightarrow>
      Q r0 (paid_user r (bu_Balance r + balance_change cfg e)
          (if is_hold e then Some (bu_Frozen r + frozen_change cfg e) else None))
        (b + balance_change cfg e) (f + frozen_change cfg e) (Suc n)"
  shows "columns Q cfg s0 s'"
proof -
  from bill_step_cases [OF step] consider "same_books s s'" | e where "logs s e s'" "posted cfg s e s'" | "outside s s'"
    by (auto simp: books_step_def)
  then show ?thesis
  proof cases
    case 1
    then show ?thesis using cols by (simp add: same_books_def columns_def)
  next
    case 3
    show ?thesis
    proof (rule columnsI)
      fix u x assume u: "bs_users s' u = Some x"
      have "map_option money_of (bs_users s' u) = map_option money_of (bs_users s u)"
        using 3 unfolding outside_def by (metis comp_apply)
      with u obtain y where y: "bs_users s u = Some y" "money_of x = money_of y"
        by (cases "bs_users s u") auto
      obtain r0 where "bs_users s0 u = Some r0"
        "Q r0 y (balance_sum cfg u (bs_ledger s)) (frozen_sum cfg u (bs_ledger s)) (length (bs_ledger s))"
        using cols y(1) by (rule columnsE)
      then show "\<exists>r0. bs_users s0 u = Some r0
          \<and> Q r0 x (balance_sum cfg u (bs_ledger s')) (frozen_sum cfg u (bs_ledger s')) (length (bs_ledger s'))"
        using 3 same y(2) by (auto simp: outside_def)
    qed
  next
    case (2 e)
    then have l: "bs_ledger s' = bs_ledger s @ [e]" by (simp add: logs_def)
    have A: "A e" using ok l by simp
    show ?thesis
    proof (cases "moves_money e")
      case False
      then have us: "bs_users s' = bs_users s" using 2 by (simp add: posted_def)
      show ?thesis
      proof (rule columnsI)
        fix u x assume "bs_users s' u = Some x"
        then obtain r0 where "bs_users s0 u = Some r0"
          "Q r0 x (balance_sum cfg u (bs_ledger s)) (frozen_sum cfg u (bs_ledger s)) (length (bs_ledger s))"
          using cols us by (metis columnsE)
        then show "\<exists>r0. bs_users s0 u = Some r0
            \<and> Q r0 x (balance_sum cfg u (bs_ledger s')) (frozen_sum cfg u (bs_ledger s')) (length (bs_ledger s'))"
          using more not_moving [OF False, of cfg] by (simp add: l sums_snoc)
      qed
    next
      case True
      with 2 obtain r where r: "bs_users s (entry_user e) = Some r"
        and s': "bs_users s' = (bs_users s)(entry_user e \<mapsto> paid_user r (bu_Balance r + balance_change cfg e)
            (if is_hold e then Some (bu_Frozen r + frozen_change cfg e) else None))"
        and h: "lifts_hold e \<longrightarrow> 0 \<le> bu_Frozen r + frozen_change cfg e" "positive_hold e"
        by (auto simp: posted_def)
      show ?thesis
      proof (rule columnsI)
        fix u x assume u: "bs_users s' u = Some x"
        show "\<exists>r0. bs_users s0 u = Some r0 \<and> Q r0 x (balance_sum cfg u (bs_ledger s'))
            (frozen_sum cfg u (bs_ledger s')) (length (bs_ledger s'))"
        proof (cases "u = entry_user e")
          case True
          obtain r0 where "bs_users s0 u = Some r0"
            "Q r0 r (balance_sum cfg u (bs_ledger s)) (frozen_sum cfg u (bs_ledger s)) (length (bs_ledger s))"
            using cols r unfolding True by (rule columnsE)
          with pays [OF this(2) A h] u show ?thesis by (simp add: l sums_snoc s' True)
        next
          case False
          with u have "bs_users s u = Some x" by (simp add: s')
          from columnsE [OF cols this] obtain r0 where "bs_users s0 u = Some r0"
            "Q r0 x (balance_sum cfg u (bs_ledger s)) (frozen_sum cfg u (bs_ledger s)) (length (bs_ledger s))" .
          with False more show ?thesis by (simp add: l sums_snoc)
        qed
      qed
    qed
  qed
qed

lemma columns_run:
  assumes run: "(bill_step cfg)\<^sup>*\<^sup>* s0 s" and start: "bs_ledger s0 = []"
    and ok: "\<And>e. e \<in> set (bs_ledger s) \<Longrightarrow> A e"
    and first: "\<And>u r. bs_users s0 u = Some r \<Longrightarrow> Q r r 0 0 0"
    and same: "\<And>r0 r r' b f n. Q r0 r b f n \<Longrightarrow> money_of r' = money_of r \<Longrightarrow> Q r0 r' b f n"
    and more: "\<And>r0 r b f n. Q r0 r b f n \<Longrightarrow> Q r0 r b f (Suc n)"
    and pays: "\<And>r0 r b f n e. Q r0 r b f n \<Longrightarrow> A e \<Longrightarrow> (lifts_hold e \<longrightarrow> 0 \<le> bu_Frozen r + frozen_change cfg e) \<Longrightarrow>
      positive_hold e \<Longrightarrow>
      Q r0 (paid_user r (bu_Balance r + balance_change cfg e)
          (if is_hold e then Some (bu_Frozen r + frozen_change cfg e) else None))
        (b + balance_change cfg e) (f + frozen_change cfg e) (Suc n)"
  shows "columns Q cfg s0 s"
  using run ok
proof (induction rule: rtranclp_induct)
  case base
  then show ?case using start first by (simp add: columns_def balance_sum_def frozen_sum_def)
next
  case (step s s')
  have "prefix (bs_ledger s) (bs_ledger s')"
    using bill_step_cases [OF step.hyps(2)] by (auto simp: books_step_def same_books_def logs_def outside_def)
  then have "columns Q cfg s0 s" using step by (meson set_mono_prefix subsetD)
  then show ?case by (rule columns_step [OF step.hyps(2), where A = A]) (use step.prems same more pays in auto)
qed



text \<open>Amounts the columns keep exactly.\<close>

definition whole8 :: "rat \<Rightarrow> bool" where
  "whole8 x \<longleftrightarrow> dec_places 8 x = x"

lemma whole8_iff: "whole8 x \<longleftrightarrow> (\<exists>k::int. x = of_int k / 10 ^ 8)"
proof
  assume "whole8 x"
  moreover have "dec_places 8 x =
      of_int ((if 0 < x then 1 else if x < 0 then - 1 else 0) * \<lfloor>\<bar>x\<bar> * 10 ^ 8 + 1 / 2\<rfloor>) / 10 ^ 8"
    by (simp add: dec_places_def)
  ultimately have "x = of_int ((if 0 < x then 1 else if x < 0 then - 1 else 0) * \<lfloor>\<bar>x\<bar> * 10 ^ 8 + 1 / 2\<rfloor>) / 10 ^ 8"
    by (simp only: whole8_def)
  then show "\<exists>k::int. x = of_int k / 10 ^ 8" by blast
next
  assume "\<exists>k::int. x = of_int k / 10 ^ 8"
  then obtain k :: int where "x = of_int k / 10 ^ 8" by blast
  then show "whole8 x" using dec_places_of_int [of 8 k] by (simp only: whole8_def)
qed

lemma whole8_add: "whole8 x \<Longrightarrow> whole8 y \<Longrightarrow> whole8 (x + y)"
  unfolding whole8_iff by (metis add_divide_distrib of_int_add)

lemma whole8_zero [simp]: "whole8 0"
  by (simp add: whole8_def)

definition whole_entry :: "bill_config \<Rightarrow> bill_entry \<Rightarrow> bool" where
  "whole_entry cfg e \<longleftrightarrow> whole8 (balance_change cfg e) \<and> whole8 (frozen_change cfg e)"


section \<open>A request that comes again\<close>

definition served :: "bill_store \<Rightarrow> bool" where
  "served s \<longleftrightarrow> bs_faults s = []"

lemma find_claim_SomeD: "find_claim rid k rows = Some r \<Longrightarrow> r \<in> set rows \<and> row_key r = (rid, k)"
  by (auto simp: find_claim_def row_key_def find_Some_iff)

lemma claim_known:
  assumes "(rid, k) \<in> claimed s"
  shows "\<exists>r. row_key r = (rid, k) \<and> claimUsageBillingRequest rid k fp s = (same_claim r fp, s)"
proof (cases "find_claim rid k (bs_dedup s)")
  case None
  then have "find_claim rid k (bs_archive s) \<noteq> None"
    using assms unfolding claimed_def find_claim_None by blast
  then obtain r where "find_claim rid k (bs_archive s) = Some r" by auto
  then show ?thesis
    using None by (intro exI [of _ r]) (auto simp: claimUsageBillingRequest_def dest: find_claim_SomeD)
next
  case (Some r)
  then show ?thesis
    by (intro exI [of _ r]) (auto simp: claimUsageBillingRequest_def dest: find_claim_SomeD)
qed

text \<open>a claimed request changes nothing. It is answered as not applied when its fingerprint is that of the
  claim, and refused as a conflict when it is another one; holds are treated alike.\<close>

theorem repeated_request_changes_nothing:
  assumes "served s" and "uc_RequestID (Usage_Normalize cfg c) \<noteq> []"
    and "(uc_RequestID (Usage_Normalize cfg c), uc_APIKeyID (Usage_Normalize cfg c)) \<in> claimed s"
  shows "Billing_Apply cfg c s \<in> {(Inr not_applied, s), (Inl UsageBillingRequestConflict, s)}"
proof -
  from claim_known [OF assms(3), of "uc_RequestFingerprint (Usage_Normalize cfg c)"] obtain r where
    "claimUsageBillingRequest (uc_RequestID (Usage_Normalize cfg c)) (uc_APIKeyID (Usage_Normalize cfg c))
       (uc_RequestFingerprint (Usage_Normalize cfg c)) s
     = (same_claim r (uc_RequestFingerprint (Usage_Normalize cfg c)), s)" by blast
  then show ?thesis
    using assms(1,2) by (auto simp: Billing_Apply_def Let_def transaction_def served_def committed_def run same_claim_def)
qed

section \<open>Holds that cannot be settled\<close>

lemma fresh_claim:
  assumes "(rid, k) \<notin> claimed s"
  shows "claimUsageBillingRequest rid k fp s = (Inr True, s\<lparr>bs_dedup := bs_dedup s @ [\<lparr>cl_RequestID = rid,
    cl_APIKeyID = k, cl_Fingerprint = fp, cl_CreatedAt = bs_clock s\<rparr>]\<rparr>)"
proof -
  have "find_claim rid k (bs_dedup s) = None" "find_claim rid k (bs_archive s) = None"
    using assms by (simp_all add: find_claim_None claimed_def)
  then show ?thesis by (simp add: claimUsageBillingRequest_def)
qed

definition claim_added :: "BatchImageBalanceHoldCommand \<Rightarrow> bill_store \<Rightarrow> bill_store" where
  "claim_added c s = s\<lparr>bs_dedup := bs_dedup s @ [\<lparr>cl_RequestID = hc_RequestID c, cl_APIKeyID = hc_APIKeyID c,
     cl_Fingerprint = hc_RequestFingerprint c, cl_CreatedAt = bs_clock s\<rparr>]\<rparr>"

lemma hold_run:
  assumes "served s" and "c = Hold_Normalize cfg cmd" and "hc_RequestID c \<noteq> []"
    and "(hc_RequestID c, hc_APIKeyID c) \<notin> claimed s"
  shows "applyBatchImageBalanceHold op cfg cmd s = (case op cfg c (claim_added c s) of
      (Inl e, _) \<Rightarrow> (Inl e, s)
    | (Inr r, s') \<Rightarrow> (Inr \<lparr>hr_Applied = True, hr_NewBalance = map_option fst r, hr_FrozenBalance = map_option snd r\<rparr>, s'))"
  using assms(1,3) fresh_claim [OF assms(4), of "hc_RequestFingerprint c"]
  by (auto simp: applyBatchImageBalanceHold_def Let_def assms(2) [symmetric] transaction_def served_def committed_def
      run claim_added_def split: prod.split sum.split)

lemma claim_added_simps [simp]:
  "live_user u (claim_added c s) = live_user u s" "bs_users (claim_added c s) = bs_users s"
  "bs_ledger (claim_added c s) = bs_ledger s" "bs_faults (claim_added c s) = bs_faults s"
  by (simp_all add: live_user_def claim_added_def)

text \<open>a hold that is rounded down is never settled. When the held amount has more than eight decimals and
  its column rounds it down, reserving it for a user with no other hold succeeds; after that every capture
  and every release of the amount is refused, because the frozen balance is less than the amount, and
  changes nothing.\<close>

theorem rounded_down_hold_is_stuck:
  assumes "served s" and "c = Hold_Normalize cfg cmd" and "hc_RequestID c \<noteq> []"
    and "(hc_RequestID c, hc_APIKeyID c) \<notin> claimed s"
    and "live_user (hc_UserID c) s = Some r" and "bu_Frozen r = 0" and "h = bc_num cfg (hc_HoldAmount c)"
    and "0 < hc_HoldAmount c" and "h \<le> bu_Balance r" and "dec_places 8 h < h"
    and "fits8 h" and "fits8 (bu_Balance r - h)"
  shows "\<exists>res s1. ReserveBatchImageBalance cfg cmd s = (Inr res, s1) \<and> hr_Applied res
    \<and> (\<forall>cmd' c'. c' = Hold_Normalize cfg cmd' \<and> hc_RequestID c' \<noteq> [] \<and> (hc_RequestID c', hc_APIKeyID c') \<notin> claimed s1
        \<and> hc_UserID c' = hc_UserID c \<and> hc_HoldAmount c' = hc_HoldAmount c \<longrightarrow>
        (hc_ActualAmount c' \<le> hc_HoldAmount c' \<longrightarrow>
           CaptureBatchImageBalance cfg cmd' s1 = (Inl FrozenBalanceInsufficient, s1))
        \<and> ((BatchImageHoldRequestID (hc_BatchID c'), hc_APIKeyID c') \<in> claimed s1 \<longrightarrow>
           ReleaseBatchImageBalance cfg cmd' s1 = (Inl FrozenBalanceInsufficient, s1)))"
proof -
  let ?r1 = "paid_user r (bu_Balance r - h) (Some (0 + h))"
  let ?s1 = "(claim_added c s)\<lparr>bs_users := (bs_users s)(hc_UserID c \<mapsto> ?r1), bs_ledger := bs_ledger s @ [HoldReserved c]\<rparr>"
  have "reserveUsageBillingBatchImageBalance cfg c (claim_added c s)
      = (Inr (Some (rnd64 (bu_Balance ?r1), rnd64 (bu_Frozen ?r1))), ?s1)"
    using assms(5-)
    by (simp add: reserveUsageBillingBatchImageBalance_def moved_def set_money_def run note_entry_def Let_def)
  then have res: "ReserveBatchImageBalance cfg cmd s = (Inr \<lparr>hr_Applied = True,
      hr_NewBalance = Some (rnd64 (bu_Balance ?r1)), hr_FrozenBalance = Some (rnd64 (bu_Frozen ?r1))\<rparr>, ?s1)"
    using hold_run [OF assms(1-4), of reserveUsageBillingBatchImageBalance] by (simp add: ReserveBatchImageBalance_def)
  have s1: "served ?s1" using assms(1) by (simp add: served_def)
  have "\<not> bu_Deleted r" using assms(5) by (auto simp: live_user_def split: option.splits if_splits)
  then have live: "live_user (hc_UserID c) ?s1 = Some ?r1" by (simp add: live_user_def paid_user_def)
  have less: "bu_Frozen ?r1 < h" using assms(10) by (simp add: paid_user_def)
  show ?thesis
  proof (intro exI conjI allI impI; (elim conjE)?)
    show "ReserveBatchImageBalance cfg cmd s = (Inr \<lparr>hr_Applied = True,
      hr_NewBalance = Some (rnd64 (bu_Balance ?r1)), hr_FrozenBalance = Some (rnd64 (bu_Frozen ?r1))\<rparr>, ?s1)" by (rule res)
    fix cmd' c'
    assume c': "c' = Hold_Normalize cfg cmd'" "hc_RequestID c' \<noteq> []" "(hc_RequestID c', hc_APIKeyID c') \<notin> claimed ?s1"
      "hc_UserID c' = hc_UserID c" "hc_HoldAmount c' = hc_HoldAmount c"
    note run = hold_run [OF s1 c'(1-3)]
    show "CaptureBatchImageBalance cfg cmd' ?s1 = (Inl FrozenBalanceInsufficient, ?s1)"
      if "hc_ActualAmount c' \<le> hc_HoldAmount c'"
    proof -
      have "fsub (hc_ActualAmount c') (hc_HoldAmount c') \<le> 0"
        using that rnd64_mono [of "hc_ActualAmount c' - hc_HoldAmount c'" 0] by (simp add: fsub_def)
      moreover have "0 < batchImageCostEpsilon" by (simp add: batchImageCostEpsilon_def rnd64_positive)
      ultimately have "captureUsageBillingBatchImageBalance cfg c' (claim_added c' ?s1)
          = (Inl FrozenBalanceInsufficient, claim_added c' ?s1)"
        using live less assms(7,8) c'(4,5)
        by (simp add: captureUsageBillingBatchImageBalance_def Let_def)
      then show ?thesis using run [of captureUsageBillingBatchImageBalance] by (simp add: CaptureBatchImageBalance_def)
    qed
    show "ReleaseBatchImageBalance cfg cmd' ?s1 = (Inl FrozenBalanceInsufficient, ?s1)"
      if "(BatchImageHoldRequestID (hc_BatchID c'), hc_APIKeyID c') \<in> claimed ?s1"
    proof -
      have "batchImageHoldClaimExists (BatchImageHoldRequestID (hc_BatchID c')) (hc_APIKeyID c') (claim_added c' ?s1)"
        using that by (auto simp: batchImageHoldClaimExists_def find_claim_None claimed_def claim_added_def)
      then have "releaseUsageBillingBatchImageBalance cfg c' (claim_added c' ?s1)
          = (Inl FrozenBalanceInsufficient, claim_added c' ?s1)"
        using live less assms(7,8) c'(4,5) by (simp add: releaseUsageBillingBatchImageBalance_def Let_def)
      then show ?thesis using run [of releaseUsageBillingBatchImageBalance] by (simp add: ReleaseBatchImageBalance_def)
    qed
  qed simp
qed

end
