(* ===== verification/UsageBillingProperties.thy ===== *)
theory UsageBillingProperties
  imports UsageBillingMoney
begin

text \<open>
  Further properties of billing: the archiving of claims, the windows and the quota of an API key, holds
  released without a reservation or too early; and concrete stores at which the properties apply.
\<close>

section \<open>Archiving\<close>

lemma split_victims_all:
  "length (fst (split_victims cutoff n rows)) < n \<Longrightarrow>
    \<forall>r \<in> set (snd (split_victims cutoff n rows)). cutoff \<le> cl_CreatedAt r"
proof (induction cutoff n rows rule: split_victims.induct)
  case (3 cutoff n r rows)
  then show ?case by (cases "cl_CreatedAt r < cutoff") (simp_all add: case_prod_beta not_less)
qed simp_all

lemma served_round:
  "served s \<Longrightarrow> transaction (cleanup_round n cutoff) s = cleanup_round n cutoff s"
  by (simp add: served_def transaction_def committed_def cleanup_round_def split: prod.split)

lemma cleanup_archives:
  "served s \<Longrightarrow> fst (cleanup_loop cutoff s) = Inr ()
    \<and> (\<forall>r \<in> set (bs_dedup (snd (cleanup_loop cutoff s))). cutoff \<le> cl_CreatedAt r)"
proof (induction cutoff s rule: cleanup_loop.induct)
  case (1 cutoff s)
  let ?n = usageBillingDedupCleanupBatchSize
  obtain v rows where v: "split_victims cutoff ?n (bs_dedup s) = (v, rows)" by fastforce
  let ?s = "s\<lparr>bs_dedup := rows, bs_archive := foldl archive_row (bs_archive s) v\<rparr>"
  have t: "transaction (cleanup_round ?n cutoff) s = (Inr (length v), ?s)"
    using 1(2) v by (simp add: served_round) (simp add: cleanup_round_def)
  show ?case
  proof (cases "length v < ?n")
    case True
    then show ?thesis using t split_victims_all [of cutoff ?n "bs_dedup s"] v by (subst (1 2) cleanup_loop.simps) simp
  next
    case False
    have "served ?s" using 1(2) by (simp add: served_def)
    with 1(1) t False have "fst (cleanup_loop cutoff ?s) = Inr ()
        \<and> (\<forall>r \<in> set (bs_dedup (snd (cleanup_loop cutoff ?s))). cutoff \<le> cl_CreatedAt r)" by simp
    moreover have "cleanup_loop cutoff s = cleanup_loop cutoff ?s"
      using t False by (subst cleanup_loop.simps) simp
    ultimately show ?thesis by simp
  qed
qed

text \<open>C28: the clean-up of the claims ends, and forgets none. Whatever the number of claims, the loop over rounds
  returns; when no round fails, no claim older than the cutoff is left in the first table; and every request
  claimed before is still claimed, as it is when a round fails on the way.\<close>

theorem cleanup_keeps_claims:
  "claimed (snd (cleanup_loop cutoff s)) = claimed s
    \<and> bs_users (snd (cleanup_loop cutoff s)) = bs_users s
    \<and> (served s \<longrightarrow> fst (cleanup_loop cutoff s) = Inr ()
        \<and> (\<forall>r \<in> set (bs_dedup (snd (cleanup_loop cutoff s))). cutoff \<le> cl_CreatedAt r))"
  using cleanup_same [of s cutoff] cleanup_archives [of s cutoff] by (simp add: same_books_def)

section \<open>API keys\<close>

lemma ran_out_iff: "ran_out now (Some w) d \<longleftrightarrow> IsWindowExpired now (Some w) d"
  by (auto simp: ran_out_def IsWindowExpired_def)

lemma window_start_begun: "window_start now start d fresh \<noteq> None"
  by (simp add: window_start_def)

definition windows_begun :: "APIKey \<Rightarrow> bool" where
  "windows_begun k \<longleftrightarrow> (k_Window5hStart k = None \<longrightarrow> k_Usage5h k = 0) \<and> (k_Window1dStart k = None \<longrightarrow> k_Usage1d k = 0)
     \<and> (k_Window7dStart k = None \<longrightarrow> k_Usage7d k = 0)"

lemma window_counts:
  assumes "fresh \<le> now" "now < fresh + d" "start = None \<longrightarrow> used = 0"
  shows "(if IsWindowExpired now (window_start now start d fresh) d then 0 else dec_places 8 (window_usage now start d used x))
    = dec_places 8 ((if IsWindowExpired now start d then 0 else used) + x)"
  using assms by (cases start) (auto simp: window_start_def window_usage_def ran_out_def IsWindowExpired_def)

text \<open>the windows of an API key count what is charged. With a day that began at most 24 hours ago, an
  increment adds the cost to the usage that the limits are checked against in each of the three windows: a
  window that has run out begins anew with the cost alone, one that has not been begun begins, and none is
  found to have run out right after.\<close>

theorem key_windows_count:
  assumes "live_key i s = Some k" and "windows_begun k"
    and "bc_midnight cfg (bs_clock s) \<le> bs_clock s" "bs_clock s < bc_midnight cfg (bs_clock s) + 24 * hour"
    and "incrementUsageBillingAPIKeyRateLimit cfg i x s = (Inr (), s')"
  shows "\<exists>k'. live_key i s' = Some k' \<and> windows_begun k'
    \<and> EffectiveUsage5h (bs_clock s) k' = dec_places 8 (EffectiveUsage5h (bs_clock s) k + x)
    \<and> EffectiveUsage1d (bs_clock s) k' = dec_places 8 (EffectiveUsage1d (bs_clock s) k + x)
    \<and> EffectiveUsage7d (bs_clock s) k' = dec_places 8 (EffectiveUsage7d (bs_clock s) k + x)"
proof (intro exI conjI)
  let ?k = "limited_key cfg (bs_clock s) x k" and ?now = "bs_clock s"
  have s': "s' = put_key i ?k s"
    using assms(1,5) by (auto simp: incrementUsageBillingAPIKeyRateLimit_def split: if_splits)
  have d: "?now < ?now + RateLimitWindow5h" "?now < bc_midnight cfg ?now + RateLimitWindow1d"
    "?now < bc_midnight cfg ?now + RateLimitWindow7d"
    using assms(4) by (simp_all add: RateLimitWindow5h_def RateLimitWindow1d_def RateLimitWindow7d_def)
  show "live_key i s' = Some ?k" by (simp add: s' put_key_def live_key_def)
  show "windows_begun ?k" by (simp add: windows_begun_def limited_key_def window_start_begun del: not_None_eq)
  show "EffectiveUsage5h ?now ?k = dec_places 8 (EffectiveUsage5h ?now k + x)"
    using window_counts [of ?now ?now RateLimitWindow5h "k_Window5hStart k" "k_Usage5h k" x] assms(2) d(1)
    by (simp add: EffectiveUsage5h_def limited_key_def windows_begun_def split del: if_split cong: if_cong)
  show "EffectiveUsage1d ?now ?k = dec_places 8 (EffectiveUsage1d ?now k + x)"
    using window_counts [of "bc_midnight cfg ?now" ?now RateLimitWindow1d "k_Window1dStart k" "k_Usage1d k" x] assms(2,3) d(2)
    by (simp add: EffectiveUsage1d_def limited_key_def windows_begun_def split del: if_split cong: if_cong)
  show "EffectiveUsage7d ?now ?k = dec_places 8 (EffectiveUsage7d ?now k + x)"
    using window_counts [of "bc_midnight cfg ?now" ?now RateLimitWindow7d "k_Window7dStart k" "k_Usage7d k" x] assms(2,3) d(3)
    by (simp add: EffectiveUsage7d_def limited_key_def windows_begun_def split del: if_split cong: if_cong)
qed

text \<open>a quota that is used up is reported once. For amounts that the columns keep, the increment reports
  exhaustion exactly when the key had quota left before and has none after; an active key then gets the
  status that keeps it from being used, and no other status is changed.\<close>

theorem quota_exhaustion_reported_once:
  assumes "live_key i s = Some k" and "whole8 (k_QuotaUsed k)" "whole8 x" and "0 \<le> x"
    and "incrementUsageBillingAPIKeyQuota i x s = (Inr exhausted, s')"
  shows "\<exists>k'. live_key i s' = Some k' \<and> k_QuotaUsed k' = k_QuotaUsed k + x
    \<and> exhausted = (\<not> IsQuotaExhausted k \<and> IsQuotaExhausted k')
    \<and> k_Status k' = (if exhausted \<and> k_Status k = StatusActive then StatusAPIKeyQuotaExhausted else k_Status k)"
proof (intro exI conjI)
  let ?k = "charged_key x k"
  have ex: "exhausted = (0 < k_Quota ?k \<and> k_Quota ?k \<le> k_QuotaUsed ?k \<and> k_QuotaUsed ?k - x < k_Quota ?k)"
    and s': "s' = put_key i ?k s"
    using assms(1,5) by (auto simp: incrementUsageBillingAPIKeyQuota_def Let_def split: if_splits)
  show "live_key i s' = Some ?k" by (simp add: s' put_key_def live_key_def)
  show used: "k_QuotaUsed ?k = k_QuotaUsed k + x"
    using whole8_add [OF assms(2,3)] by (simp add: charged_key_def whole8_def)
  show e: "exhausted = (\<not> IsQuotaExhausted k \<and> IsQuotaExhausted ?k)"
    unfolding ex used IsQuotaExhausted_def using used by (auto simp: charged_key_def)
  show "k_Status ?k = (if exhausted \<and> k_Status k = StatusActive then StatusAPIKeyQuotaExhausted else k_Status k)"
    unfolding ex used by (auto simp: charged_key_def)
qed


section \<open>Releases\<close>

lemma books_release:
  assumes "(bill_step cfg)\<^sup>*\<^sup>* s0 s" and "bs_ledger s0 = []" and "e \<in> set (bs_ledger s)"
  shows "release_ok e s"
  using assms(1,3)
proof (induction rule: rtranclp_induct)
  case base
  then show ?case using assms(2) by simp
next
  case (step s s')
  from bill_step_cases [OF step.hyps(2)] consider "same_books s s'" | e' where "logs s e' s'" | "outside s s'"
    by (auto simp: books_step_def)
  then show ?case
  proof cases
    case (2 e')
    then have "claimed s \<subseteq> claimed s'" and "bs_ledger s' = bs_ledger s @ [e']" and "release_ok e' s'"
      by (auto simp: logs_def split: option.splits)
    with step.IH step.prems show ?thesis by (cases "e = e'") (auto simp: release_ok_def split: bill_entry.splits)
  qed (use step in \<open>auto simp: same_books_def outside_def claimed_def release_ok_def split: bill_entry.splits\<close>)
qed

text \<open>C14: money is released only for a batch whose hold was claimed: of every release that moved money there is
  an applied request under the request id of the batch's hold and the same API key.\<close>

theorem no_release_without_hold:
  assumes "(bill_step cfg)\<^sup>*\<^sup>* s0 s" and "bs_dedup s0 = []" "bs_archive s0 = []" "bs_ledger s0 = []"
    and "HoldReleased c \<in> set (bs_ledger s)"
  shows "\<exists>e \<in> set (bs_ledger s). entry_key e = Some (BatchImageHoldRequestID (hc_BatchID c), hc_APIKeyID c)"
proof -
  have "(BatchImageHoldRequestID (hc_BatchID c), hc_APIKeyID c) \<in> claimed s"
    using books_release [OF assms(1,4,5)] by (simp add: release_ok_def)
  then have "(BatchImageHoldRequestID (hc_BatchID c), hc_APIKeyID c) \<in> set (logged_keys s)"
    using billing.kept_run [OF assms(1) no_books [OF assms(2-4)]] by (simp add: billing.kept_def)
  then show ?thesis by (auto simp: logged_keys_def List.map_filter_def)
qed


section \<open>Concrete stores\<close>

definition example_cfg :: bill_config where
  "example_cfg = \<lparr>bc_num = (\<lambda>x. x), bc_hash = (\<lambda>s. s), bc_zones = two_zones, bc_midnight = (\<lambda>t. t - t mod a_day)\<rparr>"

definition example_bill_key :: APIKey where
  "example_bill_key = \<lparr>k_ID = 3, k_UserID = 7, k_Status = StatusActive, k_Group = None, k_Quota = 5, k_QuotaUsed = 4,
     k_ExpiresAt = None, k_RateLimit5h = 8, k_RateLimit1d = 0, k_RateLimit7d = 0, k_Usage5h = 1, k_Usage1d = 1,
     k_Usage7d = 0, k_Window5hStart = Some (may_2026 3 2), k_Window1dStart = Some (may_2026 3 0), k_Window7dStart = None\<rparr>"

definition example_store :: bill_store where
  "example_store = \<lparr>bs_dedup = [], bs_archive = [], bs_users = [7 \<mapsto> \<lparr>bu_Balance = 10, bu_Frozen = 0, bu_Deleted = False\<rparr>],
     bs_subs = Map.empty, bs_groups = [], bs_keys = [3 \<mapsto> \<lparr>bk_Key = example_bill_key, bk_Deleted = False\<rparr>],
     bs_accounts = Map.empty, bs_outbox = [], bs_clock = may_2026 3 5, bs_faults = [], bs_ledger = []\<rparr>"

definition example_usage :: UsageBillingCommand where
  "example_usage = \<lparr>uc_RequestID = ''r1'', uc_APIKeyID = 3, uc_RequestFingerprint = ''f'', uc_RequestPayloadHash = [],
     uc_UserID = 7, uc_AccountID = 1, uc_SubscriptionID = None, uc_AccountType = ''oauth'', uc_Model = ''m'',
     uc_ServiceTier = [], uc_ReasoningEffort = [], uc_BillingType = 0, uc_InputTokens = 1, uc_OutputTokens = 1,
     uc_CacheCreationTokens = 0, uc_CacheReadTokens = 0, uc_ImageCount = 0, uc_MediaType = [], uc_BalanceCost = 2,
     uc_SubscriptionCost = 0, uc_APIKeyQuotaCost = 2, uc_APIKeyRateLimitCost = 2, uc_AccountQuotaCost = 2\<rparr>"

definition example_hold :: "string \<Rightarrow> float64 \<Rightarrow> float64 \<Rightarrow> BatchImageBalanceHoldCommand" where
  "example_hold rid h a = \<lparr>hc_RequestID = rid, hc_APIKeyID = 3, hc_RequestFingerprint = ''f'', hc_RequestPayloadHash = [],
     hc_UserID = 7, hc_BatchID = ''b1'', hc_HoldAmount = h, hc_ActualAmount = a\<rparr>"

definition after_usage :: bill_store where
  "after_usage = snd (Billing_Apply example_cfg example_usage example_store)"

definition after_hold :: bill_store where
  "after_hold = snd (ReserveBatchImageBalance example_cfg (example_hold (BatchImageHoldRequestID ''b1'') 3 0) after_usage)"

definition after_release :: bill_store where
  "after_release = snd (ReleaseBatchImageBalance example_cfg (example_hold (BatchImageReleaseRequestID ''b1'') 3 0) after_hold)"

lemma example_run: "(bill_step example_cfg)\<^sup>*\<^sup>* example_store after_release"
  unfolding after_release_def after_hold_def after_usage_def
  by (rule rtranclp.rtrancl_into_rtrancl [OF rtranclp.rtrancl_into_rtrancl [OF r_into_rtranclp]])
    (rule bill_step.Apply bill_step.Reserve bill_step.Release)+

text \<open>What the witnesses need of the store, evaluated once.\<close>

definition example_view :: "bill_store \<Rightarrow> nat \<times> nat \<times> rat \<times> rat \<times> bool \<times> bool \<times> bool" where
  "example_view s = (length (bs_ledger s), length (List.map_filter entry_key (bs_ledger s)),
     balance_sum example_cfg 7 (bs_ledger s), frozen_sum example_cfg 7 (bs_ledger s),
     (\<forall>e \<in> set (bs_ledger s). whole_entry example_cfg e), bs_users s 7 \<noteq> None,
     HoldReleased (Hold_Normalize example_cfg (example_hold (BatchImageReleaseRequestID ''b1'') 3 0)) \<in> set (bs_ledger s))"

lemma example_view_eq: "example_view after_release = (3, 3, - 2, 0, True, True, True)"
  by code_simp

lemmas example_facts = example_view_eq [unfolded example_view_def prod.inject]

theorem request_applied_at_most_once_witness:
  "length (List.map_filter entry_key (bs_ledger after_release)) = 3
    \<and> distinct (List.map_filter entry_key (bs_ledger after_release))"
proof -
  have "bs_dedup example_store = []" "bs_archive example_store = []" "bs_ledger example_store = []"
    by (simp_all add: example_store_def)
  from request_applied_at_most_once [OF this example_run] show ?thesis using example_facts by blast
qed



theorem repeated_request_changes_nothing_witness:
  "Billing_Apply example_cfg example_usage after_usage
    \<in> {(Inr not_applied, after_usage), (Inl UsageBillingRequestConflict, after_usage)}"
proof (rule repeated_request_changes_nothing)
  show "served after_usage" "uc_RequestID (Usage_Normalize example_cfg example_usage) \<noteq> []"
    "(uc_RequestID (Usage_Normalize example_cfg example_usage), uc_APIKeyID (Usage_Normalize example_cfg example_usage))
      \<in> claimed after_usage" by code_simp+
qed

theorem rounded_down_hold_is_stuck_witness:
  "\<exists>s1. snd (ReserveBatchImageBalance example_cfg
        (example_hold (BatchImageHoldRequestID ''b1'') (123456784 / 10 ^ 9) 0) example_store) = s1
    \<and> CaptureBatchImageBalance example_cfg
        (example_hold (BatchImageCaptureRequestID ''b1'') (123456784 / 10 ^ 9) (1 / 10)) s1 = (Inl FrozenBalanceInsufficient, s1)"
proof -
  let ?cmd = "example_hold (BatchImageHoldRequestID ''b1'') (123456784 / 10 ^ 9) 0"
  let ?c = "Hold_Normalize example_cfg ?cmd"
  let ?cmd' = "example_hold (BatchImageCaptureRequestID ''b1'') (123456784 / 10 ^ 9) (1 / 10)"
  let ?c' = "Hold_Normalize example_cfg ?cmd'"
  let ?r = "\<lparr>bu_Balance = 10, bu_Frozen = 0, bu_Deleted = False\<rparr> :: bill_user"
  have "served example_store" "hc_RequestID ?c \<noteq> []" "(hc_RequestID ?c, hc_APIKeyID ?c) \<notin> claimed example_store"
    "bu_Frozen ?r = 0" "0 < hc_HoldAmount ?c" "bc_num example_cfg (hc_HoldAmount ?c) \<le> bu_Balance ?r"
    "dec_places 8 (bc_num example_cfg (hc_HoldAmount ?c)) < bc_num example_cfg (hc_HoldAmount ?c)"
    "fits8 (bc_num example_cfg (hc_HoldAmount ?c))" "fits8 (bu_Balance ?r - bc_num example_cfg (hc_HoldAmount ?c))"
    by code_simp+
  moreover have "live_user (hc_UserID ?c) example_store = Some ?r" by code_simp
  ultimately obtain res s1 where s1: "ReserveBatchImageBalance example_cfg ?cmd example_store = (Inr res, s1)"
    and cap: "\<And>cmd' c'. c' = Hold_Normalize example_cfg cmd' \<Longrightarrow> hc_RequestID c' \<noteq> [] \<Longrightarrow>
        (hc_RequestID c', hc_APIKeyID c') \<notin> claimed s1 \<Longrightarrow> hc_UserID c' = hc_UserID ?c \<Longrightarrow>
        hc_HoldAmount c' = hc_HoldAmount ?c \<Longrightarrow> hc_ActualAmount c' \<le> hc_HoldAmount c' \<Longrightarrow>
        CaptureBatchImageBalance example_cfg cmd' s1 = (Inl FrozenBalanceInsufficient, s1)"
    using rounded_down_hold_is_stuck [OF _ refl, of example_store example_cfg ?cmd ?r
        "bc_num example_cfg (hc_HoldAmount ?c)"] by blast
  have "(hc_RequestID ?c', hc_APIKeyID ?c') \<notin> claimed (snd (ReserveBatchImageBalance example_cfg ?cmd example_store))"
    by code_simp
  moreover have "hc_RequestID ?c' \<noteq> []" "hc_UserID ?c' = hc_UserID ?c" "hc_HoldAmount ?c' = hc_HoldAmount ?c"
    "hc_ActualAmount ?c' \<le> hc_HoldAmount ?c'" by code_simp+
  ultimately show ?thesis using cap [OF refl, of ?cmd'] s1 by simp
qed

theorem no_release_without_hold_witness:
  "\<exists>e \<in> set (bs_ledger after_release). entry_key e = Some (BatchImageHoldRequestID ''b1'', 3)"
proof -
  let ?c = "Hold_Normalize example_cfg (example_hold (BatchImageReleaseRequestID ''b1'') 3 0)"
  have "bs_dedup example_store = []" "bs_archive example_store = []" "bs_ledger example_store = []"
    by (simp_all add: example_store_def)
  moreover have "HoldReleased ?c \<in> set (bs_ledger after_release)" using example_facts by blast
  ultimately have "\<exists>e \<in> set (bs_ledger after_release). entry_key e = Some (BatchImageHoldRequestID (hc_BatchID ?c), hc_APIKeyID ?c)"
    by (rule no_release_without_hold [OF example_run])
  moreover have "BatchImageHoldRequestID (hc_BatchID ?c) = BatchImageHoldRequestID ''b1''" "hc_APIKeyID ?c = 3" by code_simp+
  ultimately show ?thesis by simp
qed

theorem key_windows_count_witness:
  "\<exists>k'. live_key 3 (snd (incrementUsageBillingAPIKeyRateLimit example_cfg 3 2 example_store)) = Some k'
    \<and> EffectiveUsage5h (may_2026 3 5) k' = 3"
proof -
  have 1: "live_key 3 example_store = Some example_bill_key" by code_simp
  have 2: "windows_begun example_bill_key" by code_simp
  have 3: "bc_midnight example_cfg (bs_clock example_store) \<le> bs_clock example_store"
    "bs_clock example_store < bc_midnight example_cfg (bs_clock example_store) + 24 * hour" by code_simp+
  obtain s' where 4: "incrementUsageBillingAPIKeyRateLimit example_cfg 3 2 example_store = (Inr (), s')"
  proof -
    have "fst (incrementUsageBillingAPIKeyRateLimit example_cfg 3 2 example_store) = Inr ()" by code_simp
    then show thesis
      using that by (cases "incrementUsageBillingAPIKeyRateLimit example_cfg 3 2 example_store") auto
  qed
  have 5: "dec_places 8 (EffectiveUsage5h (bs_clock example_store) example_bill_key + 2) = 3"
    "bs_clock example_store = may_2026 3 5" by code_simp+
  from key_windows_count [OF 1 2 3 4] 4 5 show ?thesis by auto
qed

theorem quota_exhaustion_reported_once_witness:
  "\<exists>k'. live_key 3 (snd (incrementUsageBillingAPIKeyQuota 3 2 example_store)) = Some k'
    \<and> k_Status k' = StatusAPIKeyQuotaExhausted"
proof -
  have 1: "live_key 3 example_store = Some example_bill_key" by code_simp
  have 2: "whole8 (k_QuotaUsed example_bill_key)" "whole8 2" "(0 :: rat) \<le> 2" by code_simp+
  obtain s' where 3: "incrementUsageBillingAPIKeyQuota 3 2 example_store = (Inr True, s')"
  proof -
    have "fst (incrementUsageBillingAPIKeyQuota 3 2 example_store) = Inr True" by code_simp
    then show thesis using that by (cases "incrementUsageBillingAPIKeyQuota 3 2 example_store") auto
  qed
  have "k_Status example_bill_key = StatusActive" by code_simp
  with quota_exhaustion_reported_once [OF 1 2 3] 3 show ?thesis by auto
qed

theorem cleanup_keeps_claims_witness:
  "fst (cleanup_loop (may_2026 3 6) after_usage) = Inr ()
    \<and> claimed (snd (cleanup_loop (may_2026 3 6) after_usage)) = claimed after_usage"
proof -
  have "served after_usage" by code_simp
  then show ?thesis using cleanup_keeps_claims [of "may_2026 3 6" after_usage] by blast
qed

end
