(* ===== verification/PaymentFulfillment.thy ===== *)
theory PaymentFulfillment
  imports PaymentProviders RedeemService
begin

text \<open>
  \<open>service/payment_fulfillment.go\<close>: a gateway's message that an order was paid, its checks, the
  change to PAID, and the fulfilment, which gives the user what was bought. A balance order is
  fulfilled by creating and redeeming the code of the order, a subscription order by assigning or
  extending the subscription. The answers of the affiliate service are inputs; the notification
  mails are not modelled.
\<close>

definition paymentGraceMinutes :: int where "paymentGraceMinutes = 5"

definition orderIDPrefix :: string where "orderIDPrefix = ''sub2_''"

abbreviation NotificationStatusSuccess :: string where "NotificationStatusSuccess \<equiv> ''success''"

record PaymentNotification =
  pn_TradeNo :: string
  pn_OrderID :: string
  pn_Amount :: "float64 option"
  pn_Status :: string
  pn_Metadata :: "(string \<times> string) list"

section \<open>Affiliate rebate\<close>

definition affiliateRebateBaseAmount :: "PaymentOrder \<Rightarrow> float64" where
  "affiliateRebateBaseAmount ord =
     (if po_OrderType ord = OrderTypeBalance \<or> po_OrderType ord = OrderTypeSubscription
      then po_Amount ord else 0)"

text \<open>The transaction claims the audit entry first, so the rebate is accrued once; the claim is
  renamed when there was no rebate to accrue.\<close>

definition rebate_tx :: "int \<Rightarrow> unit pay_task" where
  "rebate_tx i = tx (\<lambda>s.
     if has_entry i A_AFFILIATE_REBATE_APPLIED (ps_audit s) \<or> has_entry i A_AFFILIATE_REBATE_SKIPPED (ps_audit s)
     then (Inr (), s)
     else
       let (answer, rest) = (case ps_rebates s of [] \<Rightarrow> (Inr 0, []) | r # rs \<Rightarrow> (r, rs)); s1 = s\<lparr>ps_rebates := rest\<rparr> in
       case answer of
         Inl _ \<Rightarrow> (Inl StoreError, s1)
       | Inr rebate \<Rightarrow> insert_audit i
           (if rebate \<le> 0 then A_AFFILIATE_REBATE_SKIPPED else A_AFFILIATE_REBATE_APPLIED) ''system'' None s1)"

definition applyAffiliateRebateForOrder :: "pay_config \<Rightarrow> PaymentOrder \<Rightarrow> unit pay_task" where
  "applyAffiliateRebateForOrder cfg ord =
     (if affiliateRebateBaseAmount ord \<le> 0 \<or> \<not> pc_affiliate cfg then Done (Inr ())
      else then_do (rebate_tx (po_ID ord)) (\<lambda>r. case r of
          Inr _ \<Rightarrow> Done (Inr ())
        | Inl e \<Rightarrow> ignoring (writeAuditLog (po_ID ord) A_AFFILIATE_REBATE_FAILED ''system'' None) (Done (Inl e))))"

section \<open>The end of a fulfilment\<close>

definition completed :: "go_time \<Rightarrow> PaymentOrder \<Rightarrow> PaymentOrder" where
  "completed t r = r\<lparr>po_Status := COMPLETED, po_CompletedAt := Some t\<rparr>"

definition markCompleted :: "PaymentOrder \<Rightarrow> audit_action \<Rightarrow> unit pay_task" where
  "markCompleted ord act =
     then_do now_is (\<lambda>now.
     or_return (update_orders (\<lambda>r. po_ID r = po_ID ord \<and> po_Status r = RECHARGING) (completed now)) (\<lambda>_.
     ignoring (writeAuditLog (po_ID ord) act ''system'' None) (Done (Inr ()))))"

definition failed :: "go_time \<Rightarrow> string \<Rightarrow> PaymentOrder \<Rightarrow> PaymentOrder" where
  "failed t reason r = r\<lparr>po_Status := FAILED, po_FailedAt := Some t, po_FailedReason := Some reason\<rparr>"

text \<open>\<open>psErrMsg\<close>; the text of an error of the store is not modelled.\<close>

definition err_text :: "pay_error \<Rightarrow> string" where
  "err_text e = (case e of App s \<Rightarrow> s | _ \<Rightarrow> ''store error'')"

definition markFailed :: "int \<Rightarrow> pay_error \<Rightarrow> (pay_store, unit) task" where
  "markFailed i cause =
     then_do now_is (\<lambda>now.
     then_do (update_orders (\<lambda>r. po_ID r = i \<and> po_Status r = RECHARGING) (failed now (err_text cause))) (\<lambda>r.
     case r of
       Inl _ \<Rightarrow> Done ()
     | Inr n \<Rightarrow> if 0 < n then writeAuditLog i A_FULFILLMENT_FAILED ''system'' None else Done ()))"

section \<open>Balance orders\<close>

datatype redeemAction = redeemActionCreate | redeemActionRedeem | redeemActionSkipCompleted

definition resolveRedeemAction :: "pay_error + RedeemCode \<Rightarrow> redeemAction" where
  "resolveRedeemAction lookup = (case lookup of
     Inl _ \<Rightarrow> redeemActionCreate
   | Inr c \<Rightarrow> if RedeemCode_IsUsed c then redeemActionSkipCompleted else redeemActionRedeem)"

definition finish_balance :: "pay_config \<Rightarrow> PaymentOrder \<Rightarrow> unit pay_task" where
  "finish_balance cfg ord =
     or_return (applyAffiliateRebateForOrder cfg ord) (\<lambda>_. markCompleted ord A_RECHARGE_SUCCESS)"

definition redeem_order :: "pay_config \<Rightarrow> PaymentOrder \<Rightarrow> unit pay_task" where
  "redeem_order cfg ord =
     or_return (Redeem cfg (po_UserID ord) (po_RechargeCode ord)) (\<lambda>_. finish_balance cfg ord)"

definition doBalance :: "pay_config \<Rightarrow> PaymentOrder \<Rightarrow> unit pay_task" where
  "doBalance cfg ord =
     then_do (repo_GetByCode (po_RechargeCode ord)) (\<lambda>existing.
     case resolveRedeemAction existing of
       redeemActionSkipCompleted \<Rightarrow> finish_balance cfg ord
     | redeemActionCreate \<Rightarrow>
         or_return (CreateCode (new_code (po_RechargeCode ord) RedeemTypeBalance (po_Amount ord)))
           (\<lambda>_. redeem_order cfg ord)
     | redeemActionRedeem \<Rightarrow> redeem_order cfg ord)"

section \<open>Subscription orders\<close>

text \<open>The group lookup of \<open>doSub\<close> reads the live groups of the subscription store.\<close>

definition order_group :: "int \<Rightarrow> Group option pay_task" where
  "order_group g = sql_query (\<lambda>s. map_of (st_groups (ps_subs s)) g)"

definition order_note :: "int \<Rightarrow> string" where
  "order_note i = ''payment order '' @ format_int i"

definition assign_order :: "pay_config \<Rightarrow> PaymentOrder \<Rightarrow> int \<Rightarrow> int \<Rightarrow> unit pay_task" where
  "assign_order cfg ord g days = sql (\<lambda>s.
     noting (SubscriptionAssigned (po_ID ord))
       (with_subs (andthen (AssignOrExtendSubscription (pc_sub cfg) (ps_clock s)
         \<lparr>ai_UserID = po_UserID ord, ai_GroupID = g, ai_ValidityDays = days, ai_AssignedBy = 0,
           ai_Notes = order_note (po_ID ord)\<rparr>) (\<lambda>_. ret ()))) s)"

definition finish_sub :: "pay_config \<Rightarrow> PaymentOrder \<Rightarrow> unit pay_task" where
  "finish_sub cfg ord =
     or_return (applyAffiliateRebateForOrder cfg ord) (\<lambda>_. markCompleted ord A_SUBSCRIPTION_SUCCESS)"

text \<open>\<open>||\<close> of the two lookups.\<close>

definition already_assigned :: "int \<Rightarrow> (pay_store, bool) task" where
  "already_assigned i = then_do (hasAuditLog i A_SUBSCRIPTION_ASSIGNED) (\<lambda>b.
     if b then Done True else hasAuditLog i A_SUBSCRIPTION_SUCCESS)"

definition doSub :: "pay_config \<Rightarrow> PaymentOrder \<Rightarrow> int \<Rightarrow> int \<Rightarrow> unit pay_task" where
  "doSub cfg ord g days =
     then_do (order_group g) (\<lambda>found.
     if (case found of Inr (Some grp) \<Rightarrow> g_Status grp \<noteq> EntityStatusActive | _ \<Rightarrow> True)
     then Done (Inl (App ''group no longer exists or inactive''))
     else then_do (already_assigned (po_ID ord)) (\<lambda>assigned.
       if assigned then finish_sub cfg ord
       else or_return (assign_order cfg ord g days) (\<lambda>_.
         ignoring (writeAuditLog (po_ID ord) A_SUBSCRIPTION_ASSIGNED ''system'' None)
           (finish_sub cfg ord))))"

section \<open>Fulfilment\<close>

definition found_order :: "int \<Rightarrow> PaymentOrder pay_task" where
  "found_order i = then_do (get_order i) (\<lambda>r. case r of
     Inr (Some ord) \<Rightarrow> Done (Inr ord) | _ \<Rightarrow> Done (Inl (App ''NOT_FOUND'')))"

definition recharging :: "PaymentOrder \<Rightarrow> PaymentOrder" where
  "recharging r = r\<lparr>po_Status := RECHARGING\<rparr>"

definition fulfillable :: "order_status \<Rightarrow> bool" where
  "fulfillable st \<longleftrightarrow> st = PAID \<or> st = FAILED"

text \<open>The order is locked by its status: only one request changes it from PAID or FAILED to
  RECHARGING.\<close>

definition lock_order :: "int \<Rightarrow> nat pay_task" where
  "lock_order i = update_orders (\<lambda>r. po_ID r = i \<and> fulfillable (po_Status r)) recharging"

definition fulfill_locked :: "PaymentOrder \<Rightarrow> unit pay_task \<Rightarrow> unit pay_task" where
  "fulfill_locked ord work =
     or_return (lock_order (po_ID ord)) (\<lambda>n.
     if n = 0 then Done (Inr ())
     else then_do work (\<lambda>r. case r of
         Inl e \<Rightarrow> ignoring (markFailed (po_ID ord) e) (Done (Inl e))
       | Inr _ \<Rightarrow> Done (Inr ())))"

definition check_fulfillable :: "PaymentOrder \<Rightarrow> unit pay_task \<Rightarrow> unit pay_task" where
  "check_fulfillable ord m =
     (if po_Status ord = COMPLETED then Done (Inr ())
      else if psIsRefundStatus (po_Status ord) then Done (Inl (App ''INVALID_STATUS''))
      else if \<not> fulfillable (po_Status ord) then Done (Inl (App ''INVALID_STATUS''))
      else m)"

definition ExecuteBalanceFulfillment :: "pay_config \<Rightarrow> int \<Rightarrow> unit pay_task" where
  "ExecuteBalanceFulfillment cfg i =
     or_return (found_order i) (\<lambda>ord. check_fulfillable ord (fulfill_locked ord (doBalance cfg ord)))"

definition ExecuteSubscriptionFulfillment :: "pay_config \<Rightarrow> int \<Rightarrow> unit pay_task" where
  "ExecuteSubscriptionFulfillment cfg i =
     or_return (found_order i) (\<lambda>ord. check_fulfillable ord (
       case (po_SubscriptionGroupID ord, po_SubscriptionDays ord) of
         (Some g, Some days) \<Rightarrow> fulfill_locked ord (doSub cfg ord g days)
       | _ \<Rightarrow> Done (Inl (App ''INVALID_STATUS''))))"

definition executeFulfillment :: "pay_config \<Rightarrow> int \<Rightarrow> unit pay_task" where
  "executeFulfillment cfg i =
     or_return (get_order i) (\<lambda>found. case found of
       None \<Rightarrow> Done (Inl StoreError)
     | Some ord \<Rightarrow>
         if po_OrderType ord = OrderTypeSubscription then ExecuteSubscriptionFulfillment cfg i
         else ExecuteBalanceFulfillment cfg i)"

definition RetryFulfillment :: "pay_config \<Rightarrow> int \<Rightarrow> unit pay_task" where
  "RetryFulfillment cfg i =
     or_return (found_order i) (\<lambda>ord.
       if po_PaidAt ord = None then Done (Inl (App ''INVALID_STATUS''))
       else if psIsRefundStatus (po_Status ord) then Done (Inl (App ''INVALID_STATUS''))
       else if po_Status ord = RECHARGING then Done (Inl (App ''CONFLICT''))
       else if po_Status ord = COMPLETED then Done (Inl (App ''INVALID_STATUS''))
       else if \<not> fulfillable (po_Status ord) then Done (Inl (App ''INVALID_STATUS''))
       else or_return (update_orders (\<lambda>r. po_ID r = i \<and> fulfillable (po_Status r))
              (\<lambda>r. r\<lparr>po_Status := PAID, po_FailedAt := None, po_FailedReason := None\<rparr>)) (\<lambda>_.
         ignoring (writeAuditLog i A_RECHARGE_RETRY ''admin'' None) (executeFulfillment cfg i)))"

section \<open>A payment is confirmed\<close>

definition alreadyProcessed :: "pay_config \<Rightarrow> int \<Rightarrow> unit pay_task" where
  "alreadyProcessed cfg i =
     then_do (get_order i) (\<lambda>r. case r of
       Inr (Some cur) \<Rightarrow>
         (case po_Status cur of
            FAILED \<Rightarrow> executeFulfillment cfg i
          | PAID \<Rightarrow> Done (Inl (App ''order is being processed''))
          | RECHARGING \<Rightarrow> Done (Inl (App ''order is being processed''))
          | EXPIRED \<Rightarrow> ignoring (writeAuditLog i A_PAYMENT_AFTER_EXPIRY ''system'' None) (Done (Inr ()))
          | _ \<Rightarrow> Done (Inr ()))
     | _ \<Rightarrow> Done (Inr ()))"

definition payable :: "go_time \<Rightarrow> PaymentOrder \<Rightarrow> bool" where
  "payable now r \<longleftrightarrow> po_Status r = PENDING \<or> po_Status r = CANCELLED
     \<or> (po_Status r = EXPIRED \<and> now - paymentGraceMinutes * minute \<le> po_UpdatedAt r)"

definition paid_order :: "go_time \<Rightarrow> float64 \<Rightarrow> string \<Rightarrow> PaymentOrder \<Rightarrow> PaymentOrder" where
  "paid_order now paid tradeNo r = r\<lparr>po_Status := PAID, po_PayAmount := col2 paid,
     po_PaymentTradeNo := tradeNo, po_PaidAt := Some now, po_FailedAt := None, po_FailedReason := None\<rparr>"

definition toPaid :: "pay_config \<Rightarrow> PaymentOrder \<Rightarrow> string \<Rightarrow> float64 \<Rightarrow> string \<Rightarrow> unit pay_task" where
  "toPaid cfg ord tradeNo paid pk =
     then_do now_is (\<lambda>now.
     or_return (update_orders (\<lambda>r. po_ID r = po_ID ord \<and> payable now r) (paid_order now paid tradeNo)) (\<lambda>c.
     if c = 0 then alreadyProcessed cfg (po_ID ord)
     else ignoring
       (if po_Status ord = CANCELLED \<or> po_Status ord = EXPIRED
        then writeAuditLog (po_ID ord) A_ORDER_RECOVERED pk None else Done ())
       (ignoring (writeAuditLog (po_ID ord) A_ORDER_PAID pk None)
         (executeFulfillment cfg (po_ID ord)))))"

text \<open>The checks of \<open>confirmPayment\<close>: the first that fails is logged and returned.\<close>

definition rejected :: "int \<Rightarrow> audit_action \<Rightarrow> string \<Rightarrow> string \<Rightarrow> unit pay_task" where
  "rejected i act pk why = ignoring (writeAuditLog i act pk None) (Done (Inl (App why)))"

definition confirm_checked ::
  "pay_config \<Rightarrow> PaymentOrder \<Rightarrow> string \<Rightarrow> string \<Rightarrow> float64 option \<Rightarrow> string \<Rightarrow> (string \<times> string) list \<Rightarrow> unit pay_task" where
  "confirm_checked cfg ord instanceKey tradeNo amount pk md =
     (let expected = expectedNotificationProviderKeyForOrder cfg ord instanceKey in
      if expected \<noteq> [] \<and> trim_space pk \<noteq> [] \<and> \<not> equal_fold expected (trim_space pk)
      then rejected (po_ID ord) A_PAYMENT_PROVIDER_MISMATCH pk ''provider mismatch''
      else case validateProviderSnapshotMetadata ord pk md of
        Some e \<Rightarrow> ignoring (writeAuditLog (po_ID ord) A_PAYMENT_PROVIDER_METADATA_MISMATCH pk None) (Done (Inl e))
      | None \<Rightarrow> (case amount of
          None \<Rightarrow> rejected (po_ID ord) A_PAYMENT_INVALID_AMOUNT pk ''invalid paid amount from provider''
        | Some paid \<Rightarrow>
            if \<not> isValidProviderAmount amount
            then rejected (po_ID ord) A_PAYMENT_INVALID_AMOUNT pk ''invalid paid amount from provider''
            else if paymentAmountToleranceForCurrency (PaymentOrderCurrency ord) < \<bar>fsub paid (po_PayAmount ord)\<bar>
            then rejected (po_ID ord) A_PAYMENT_AMOUNT_MISMATCH pk ''amount mismatch''
            else toPaid cfg ord tradeNo paid pk))"

definition confirmPayment ::
  "pay_config \<Rightarrow> int \<Rightarrow> string \<Rightarrow> float64 option \<Rightarrow> string \<Rightarrow> (string \<times> string) list \<Rightarrow> unit pay_task" where
  "confirmPayment cfg i tradeNo amount pk md =
     then_do (get_order i) (\<lambda>r. case r of
       Inr (Some ord) \<Rightarrow>
         then_do (getOrderProviderInstance ord) (\<lambda>found.
           confirm_checked cfg ord
             (case found of Inr (Some inst) \<Rightarrow> pi_ProviderKey inst | _ \<Rightarrow> []) tradeNo amount pk md)
     | _ \<Rightarrow> Done (Inr ()))"

definition parseLegacyPaymentOrderID :: "string \<Rightarrow> int option" where
  "parseLegacyPaymentOrderID orderID =
     (let t = trim_space orderID in
      if \<not> has_prefix t orderIDPrefix then None
      else case parse_int64 (trim_prefix t orderIDPrefix) of
        None \<Rightarrow> None | Some i \<Rightarrow> if i \<le> 0 then None else Some i)"

definition HandlePaymentNotification :: "pay_config \<Rightarrow> PaymentNotification \<Rightarrow> string \<Rightarrow> unit pay_task" where
  "HandlePaymentNotification cfg n pk =
     (if pn_Status n \<noteq> NotificationStatusSuccess then Done (Inr ())
      else or_return (sql_query (\<lambda>s. filter (\<lambda>r. po_OutTradeNo r = pn_OrderID n) (ps_orders s))) (\<lambda>rows.
        case rows of
          [ord] \<Rightarrow> confirmPayment cfg (po_ID ord) (pn_TradeNo n) (pn_Amount n) pk (pn_Metadata n)
        | [] \<Rightarrow> (case parseLegacyPaymentOrderID (pn_OrderID n) of
            Some i \<Rightarrow> confirmPayment cfg i (pn_TradeNo n) (pn_Amount n) pk (pn_Metadata n)
          | None \<Rightarrow> Done (Inl (App ''payment order not found'')))
        | _ \<Rightarrow> Done (Inl StoreError)))"

end
