(* ===== verification/PaymentLifecycle.thy ===== *)
theory PaymentLifecycle
  imports PaymentFulfillment
begin

text \<open>
  The other ends of an order: the transaction of \<open>service/payment_order.go\<close> that creates it, with its
  limits, and \<open>service/payment_order_lifecycle.go\<close>: cancellation, expiry, and the active queries that
  find a payment whose notification was missed. What a gateway answers to a query is an input; a
  query that is not answered fails.
\<close>

section \<open>Creation\<close>

definition defaultMaxPendingOrders :: int where "defaultMaxPendingOrders = 3"
definition defaultOrderTimeoutMin :: int where "defaultOrderTimeoutMin = 30"

record order_config =
  oc_DailyLimit :: float64
  oc_OrderTimeoutMin :: int
  oc_MaxPendingOrders :: int

definition psStartOfDayUTC :: "go_time \<Rightarrow> go_time" where
  "psStartOfDayUTC t = t - t mod (24 * hour)"

definition checkPendingLimit :: "int \<Rightarrow> int \<Rightarrow> (pay_error, pay_store, unit) prog" where
  "checkPendingLimit u m s =
     (let limit = (if m \<le> 0 then defaultMaxPendingOrders else m) in
      if limit \<le> int (length (filter (\<lambda>r. po_UserID r = u \<and> po_Status r = PENDING) (ps_orders s)))
      then (Inl (App ''TOO_MANY_PENDING''), s) else (Inr (), s))"

definition counts_today :: "int \<Rightarrow> go_time \<Rightarrow> PaymentOrder \<Rightarrow> bool" where
  "counts_today u ts r \<longleftrightarrow> po_UserID r = u \<and> po_Status r \<in> {PAID, RECHARGING, COMPLETED}
     \<and> (case po_PaidAt r of None \<Rightarrow> False | Some t \<Rightarrow> ts \<le> t)"

definition daily_usage :: "PaymentOrder list \<Rightarrow> float64" where
  "daily_usage rows = fold (\<lambda>r used.
     fadd used (if po_OrderType r = OrderTypeBalance then po_PayAmount r else po_Amount r)) rows 0"

definition checkDailyLimit :: "int \<Rightarrow> float64 \<Rightarrow> float64 \<Rightarrow> (pay_error, pay_store, unit) prog" where
  "checkDailyLimit u amount limit s =
     (if limit \<le> 0 then (Inr (), s)
      else
        let used = daily_usage (filter (counts_today u (psStartOfDayUTC (ps_clock s))) (ps_orders s)) in
        if limit < fadd used amount then (Inl (App ''DAILY_LIMIT_EXCEEDED''), s) else (Inr (), s))"

text \<open>The five numbers \<open>allocateOutTradeNo\<close> draws are an argument.\<close>

definition allocateOutTradeNo :: "string list \<Rightarrow> (pay_error, pay_store, string) prog" where
  "allocateOutTradeNo random s =
     (case List.find (\<lambda>c. \<not> list_ex (\<lambda>r. po_OutTradeNo r = c) (ps_orders s)) (take 5 random) of
        None \<Rightarrow> (Inl (App ''generate unique out_trade_no''), s) | Some c \<Rightarrow> (Inr c, s))"

definition recharge_code :: "int \<Rightarrow> go_time \<Rightarrow> string" where
  "recharge_code i now = ''PAY-'' @ format_int i @ ''-'' @ format_int (now mod 100000)"

text \<open>The order to insert comes with what the request, the user, the plan and the chosen instance
  give; the transaction sets the rest. The identifier is the next one of the table's sequence.\<close>

definition next_order_id :: "pay_store \<Rightarrow> int" where
  "next_order_id s = 1 + fold (\<lambda>r m. max m (po_ID r)) (ps_orders s) 0"

definition insert_order :: "PaymentOrder \<Rightarrow> (pay_error, pay_store, PaymentOrder) prog" where
  "insert_order ord s =
     (if po_OutTradeNo ord \<noteq> [] \<and> list_ex (\<lambda>r. po_OutTradeNo r = po_OutTradeNo ord) (ps_orders s)
      then (Inl StoreError, s)
      else let row = ord\<lparr>po_ID := next_order_id s, po_CreatedAt := ps_clock s, po_UpdatedAt := ps_clock s,
          po_RechargeCode := recharge_code (next_order_id s) (ps_clock s)\<rparr>
        in (Inr row, s\<lparr>ps_orders := ps_orders s @ [row]\<rparr>))"

definition timeout_minutes :: "order_config \<Rightarrow> int" where
  "timeout_minutes oc = (if oc_OrderTimeoutMin oc \<le> 0 then defaultOrderTimeoutMin else oc_OrderTimeoutMin oc)"

definition createOrderInTx ::
  "order_config \<Rightarrow> string list \<Rightarrow> PaymentOrder \<Rightarrow> float64 \<Rightarrow> PaymentOrder pay_task" where
  "createOrderInTx oc random ord limitAmount =
     tx (andthen (checkPendingLimit (po_UserID ord) (oc_MaxPendingOrders oc)) (\<lambda>_.
         andthen (checkDailyLimit (po_UserID ord) limitAmount (oc_DailyLimit oc)) (\<lambda>_.
         andthen (inspect ps_clock) (\<lambda>now.
         andthen (allocateOutTradeNo random) (\<lambda>n.
         insert_order (ord\<lparr>po_OutTradeNo := n, po_Status := PENDING, po_PaymentTradeNo := [],
           po_Amount := col2 (po_Amount ord), po_PayAmount := col2 (po_PayAmount ord),
           po_ExpiresAt := now + timeout_minutes oc * minute\<rparr>))))))"

text \<open>The end of \<open>CreateOrder\<close>: the provider is asked to start a payment, and its answer (\<^const>\<open>None\<close>
  when that failed) is stored. When anything fails the order is set to FAILED, whatever its status.\<close>

definition finish_creation :: "PaymentOrder \<Rightarrow> string option \<Rightarrow> unit pay_task" where
  "finish_creation ord tradeNo =
     then_do (case tradeNo of
         None \<Rightarrow> Done (Inl (App ''PAYMENT_GATEWAY_ERROR''))
       | Some t \<Rightarrow> update_one (po_ID ord) (\<lambda>r. if t = [] then r else r\<lparr>po_PaymentTradeNo := t\<rparr>)) (\<lambda>r.
     case r of
       Inr _ \<Rightarrow> Done (Inr ())
     | Inl e \<Rightarrow> ignoring (update_one (po_ID ord) (\<lambda>r. r\<lparr>po_Status := FAILED\<rparr>)) (Done (Inl e)))"

section \<open>Asking the gateway\<close>

definition query_upstream :: "(pay_store, unit + QueryOrderResponse) task" where
  "query_upstream = statement (\<lambda>s. case ps_queries s of
     [] \<Rightarrow> (Inl (), s) | a # rest \<Rightarrow> (a, s\<lparr>ps_queries := rest\<rparr>))"

definition first_nonempty :: "string list \<Rightarrow> string" where
  "first_nonempty xs = (case List.find (\<lambda>x. x \<noteq> []) xs of None \<Rightarrow> [] | Some x \<Rightarrow> x)"

definition paymentOrderQueryReference :: "PaymentOrder \<Rightarrow> Provider \<Rightarrow> string" where
  "paymentOrderQueryReference ord p =
     (let key = first_nonempty [trim_space (pv_ProviderKey p),
            (case psOrderProviderSnapshot ord of None \<Rightarrow> [] | Some sn \<Rightarrow> trim_space (sn_ProviderKey sn)),
            trim_space (psStringValue (po_ProviderKey ord)), trim_space (po_PaymentType ord)];
          base = GetBasePaymentType key
      in if base = TypeAlipay \<or> base = TypeEasyPay \<or> base = TypeWxpay then trim_space (po_OutTradeNo ord)
         else if trim_space (po_PaymentTradeNo ord) \<noteq> [] then trim_space (po_PaymentTradeNo ord)
         else trim_space (po_OutTradeNo ord))"

definition paymentOrderShouldPersistUpstreamTradeNo :: "string \<Rightarrow> string \<Rightarrow> string \<Rightarrow> bool" where
  "paymentOrderShouldPersistUpstreamTradeNo queryRef upstreamTradeNo currentTradeNo \<longleftrightarrow>
     trim_space upstreamTradeNo \<noteq> []
     \<and> \<not> equal_fold (trim_space upstreamTradeNo) (trim_space currentTradeNo)
     \<and> \<not> equal_fold (trim_space upstreamTradeNo) (trim_space queryRef)"

definition requeryPaidOrderOnce :: "(pay_store, QueryOrderResponse option) task" where
  "requeryPaidOrderOnce = then_do query_upstream (\<lambda>r. case r of
     Inl _ \<Rightarrow> Done None
   | Inr resp \<Rightarrow> Done (if qr_Paid resp \<and> isValidProviderAmount (qr_Amount resp) then Some resp else None))"

text \<open>A payment the gateway reports is handled like a notification; its error is logged only.\<close>

definition paid_upstream ::
  "pay_config \<Rightarrow> PaymentOrder \<Rightarrow> Provider \<Rightarrow> string \<Rightarrow> QueryOrderResponse \<Rightarrow> (pay_store, bool) task" where
  "paid_upstream cfg ord p queryRef resp =
     (let upstream = trim_space (qr_TradeNo resp);
          notify = (\<lambda>tradeNo. ignoring (HandlePaymentNotification cfg \<lparr>pn_TradeNo = tradeNo,
            pn_OrderID = po_OutTradeNo ord, pn_Amount = qr_Amount resp, pn_Status = NotificationStatusSuccess,
            pn_Metadata = qr_Metadata resp\<rparr> (pv_ProviderKey p)) (Done True))
      in if paymentOrderShouldPersistUpstreamTradeNo queryRef upstream (po_PaymentTradeNo ord)
         then ignoring (update_orders (\<lambda>r. po_ID r = po_ID ord) (\<lambda>r. r\<lparr>po_PaymentTradeNo := upstream\<rparr>))
           (notify upstream)
         else notify (po_PaymentTradeNo ord))"

text \<open>\<open>checkPaid\<close> and \<open>reconcilePaid\<close> differ in whether an unpaid payment is cancelled at the gateway,
  a call whose result is dropped. The answer is whether the order had been paid.\<close>

definition checkPaidWithOptions :: "pay_config \<Rightarrow> PaymentOrder \<Rightarrow> (pay_store, bool) task" where
  "checkPaidWithOptions cfg ord =
     then_do (getOrderProvider cfg ord) (\<lambda>found. case found of
       Inl _ \<Rightarrow> Done False
     | Inr p \<Rightarrow>
         let queryRef = paymentOrderQueryReference ord p in
         if queryRef = [] then Done False
         else then_do query_upstream (\<lambda>r. case r of
           Inl _ \<Rightarrow> Done False
         | Inr resp \<Rightarrow>
             if \<not> qr_Paid resp then Done False
             else if isValidProviderAmount (qr_Amount resp) then paid_upstream cfg ord p queryRef resp
             else ignoring (writeAuditLog (po_ID ord) A_PAYMENT_INVALID_AMOUNT (pv_ProviderKey p) None)
               (then_do requeryPaidOrderOnce (\<lambda>again. case again of
                  None \<Rightarrow> Done False | Some resp' \<Rightarrow> paid_upstream cfg ord p queryRef resp'))))"

section \<open>Cancellation and expiry\<close>

datatype cancel_outcome = AlreadyPaid | Cancelled

definition cancelCore :: "pay_config \<Rightarrow> PaymentOrder \<Rightarrow> order_status \<Rightarrow> string \<Rightarrow> cancel_outcome pay_task" where
  "cancelCore cfg ord fs op =
     then_do (if po_PaymentTradeNo ord \<noteq> [] \<or> po_PaymentType ord \<noteq> []
              then checkPaidWithOptions cfg ord else Done False) (\<lambda>paid.
     if paid then Done (Inr AlreadyPaid)
     else or_return (update_orders (\<lambda>r. po_ID r = po_ID ord \<and> po_Status r = PENDING)
            (\<lambda>r. r\<lparr>po_Status := fs\<rparr>)) (\<lambda>c.
       ignoring (if 0 < c
           then writeAuditLog (po_ID ord) (if fs = EXPIRED then A_ORDER_EXPIRED else A_ORDER_CANCELLED) op None
           else Done ()) (Done (Inr Cancelled))))"

definition CancelOrder :: "pay_config \<Rightarrow> int \<Rightarrow> int \<Rightarrow> cancel_outcome pay_task" where
  "CancelOrder cfg i u =
     or_return (found_order i) (\<lambda>ord.
       if po_UserID ord \<noteq> u then Done (Inl (App ''FORBIDDEN''))
       else if po_Status ord \<noteq> PENDING then Done (Inl (App ''INVALID_STATUS''))
       else cancelCore cfg ord CANCELLED (''user:'' @ format_int u))"

definition AdminCancelOrder :: "pay_config \<Rightarrow> int \<Rightarrow> cancel_outcome pay_task" where
  "AdminCancelOrder cfg i =
     or_return (found_order i) (\<lambda>ord.
       if po_Status ord \<noteq> PENDING then Done (Inl (App ''INVALID_STATUS''))
       else cancelCore cfg ord CANCELLED ''admin'')"

fun expire_loop :: "pay_config \<Rightarrow> PaymentOrder list \<Rightarrow> int \<Rightarrow> (pay_store, int) task" where
  "expire_loop cfg [] n = Done n"
| "expire_loop cfg (ord # rest) n =
     then_do (cancelCore cfg ord EXPIRED ''system'') (\<lambda>r. case r of
       Inr Cancelled \<Rightarrow> expire_loop cfg rest (n + 1) | _ \<Rightarrow> expire_loop cfg rest n)"

definition ExpireTimedOutOrders :: "pay_config \<Rightarrow> int pay_task" where
  "ExpireTimedOutOrders cfg =
     then_do now_is (\<lambda>now.
     or_return (orders_where (\<lambda>r. po_Status r = PENDING \<and> po_ExpiresAt r \<le> now)) (\<lambda>rows.
     then_do (expire_loop cfg rows 0) (\<lambda>n. Done (Inr n))))"

section \<open>Verification and reconciliation\<close>

definition out_trade_char :: "char \<Rightarrow> bool" where
  "out_trade_char c \<longleftrightarrow> (let b = byte_of c in
     (97 \<le> b \<and> b \<le> 122) \<or> (65 \<le> b \<and> b \<le> 90) \<or> (48 \<le> b \<and> b \<le> 57) \<or> b = 95 \<or> b = 45)"

definition normalizeOrderLookupOutTradeNo :: "string \<Rightarrow> pay_error + string" where
  "normalizeOrderLookupOutTradeNo raw =
     (let n = trim_space raw in
      if n = [] then Inl (App ''INVALID_OUT_TRADE_NO'')
      else if 64 < length n then Inl (App ''INVALID_OUT_TRADE_NO'')
      else if list_all out_trade_char n then Inr n else Inl (App ''INVALID_OUT_TRADE_NO''))"

definition order_by_number :: "string \<Rightarrow> PaymentOrder pay_task" where
  "order_by_number n = then_do (sql_query (order_by_trade_no n)) (\<lambda>r. case r of
     Inr (Some ord) \<Rightarrow> Done (Inr ord) | _ \<Rightarrow> Done (Inl (App ''NOT_FOUND'')))"

definition VerifyOrderByOutTradeNo :: "pay_config \<Rightarrow> string \<Rightarrow> int \<Rightarrow> PaymentOrder pay_task" where
  "VerifyOrderByOutTradeNo cfg raw u = (case normalizeOrderLookupOutTradeNo raw of
     Inl e \<Rightarrow> Done (Inl e)
   | Inr n \<Rightarrow> or_return (order_by_number n) (\<lambda>ord.
       if po_UserID ord \<noteq> u then Done (Inl (App ''FORBIDDEN''))
       else if po_Status ord = PENDING \<or> po_Status ord = EXPIRED then
         then_do (checkPaidWithOptions cfg ord) (\<lambda>paid.
           if \<not> paid then Done (Inr ord)
           else or_return (get_order (po_ID ord)) (\<lambda>found. case found of
               None \<Rightarrow> Done (Inl StoreError) | Some cur \<Rightarrow> Done (Inr cur)))
       else Done (Inr ord)))"

definition VerifyOrderPublic :: "string \<Rightarrow> PaymentOrder pay_task" where
  "VerifyOrderPublic raw = (case normalizeOrderLookupOutTradeNo raw of
     Inl e \<Rightarrow> Done (Inl e) | Inr n \<Rightarrow> order_by_number n)"

definition pendingWxpayReconcileLimit :: nat where "pendingWxpayReconcileLimit = 20"

definition is_wxpay :: "string \<Rightarrow> bool" where
  "is_wxpay t \<longleftrightarrow> t = TypeWxpay \<or> has_prefix t (TypeWxpay @ ''_'')"

fun reconcile_loop :: "pay_config \<Rightarrow> PaymentOrder list \<Rightarrow> int \<Rightarrow> (pay_store, int) task" where
  "reconcile_loop cfg [] n = Done n"
| "reconcile_loop cfg (ord # rest) n = then_do (checkPaidWithOptions cfg ord) (\<lambda>paid.
     reconcile_loop cfg rest (if paid then n + 1 else n))"

definition ReconcilePendingWxpayOrders :: "pay_config \<Rightarrow> int pay_task" where
  "ReconcilePendingWxpayOrders cfg =
     then_do now_is (\<lambda>now.
     or_return (orders_where (\<lambda>r. po_Status r = PENDING \<and> now < po_ExpiresAt r
         \<and> (is_wxpay (po_PaymentType r) \<or> (case po_ProviderKey r of None \<Rightarrow> False | Some k \<Rightarrow> is_wxpay k)))) (\<lambda>rows.
     then_do (reconcile_loop cfg (take pendingWxpayReconcileLimit (sort_key po_CreatedAt rows)) 0)
       (\<lambda>n. Done (Inr n))))"

section \<open>Cancelling too often\<close>

record cancel_limit =
  cl_Enabled :: bool
  cl_Max :: int
  cl_Window :: int
  cl_Unit :: string
  cl_Mode :: string

definition cancelRateLimitWindowStart :: "calendar \<Rightarrow> cancel_limit \<Rightarrow> go_time \<Rightarrow> go_time" where
  "cancelRateLimitWindowStart cal cl now =
     (let w = (if cl_Window cl \<le> 0 then 1 else cl_Window cl);
          u = (if cl_Unit cl = [] then ''day'' else cl_Unit cl)
      in if cl_Mode cl = ''fixed'' then
           (if u = ''minute'' then now - now mod minute - (w - 1) * minute
            else if u = ''day'' then AddDays cal (Midnight cal now) (- (w - 1))
            else now - now mod hour - (w - 1) * hour)
         else
           (if u = ''minute'' then now - w * minute
            else if u = ''day'' then AddDays cal now (- w)
            else now - w * hour))"

definition checkCancelRateLimit :: "calendar \<Rightarrow> cancel_limit \<Rightarrow> int \<Rightarrow> unit pay_task" where
  "checkCancelRateLimit cal cl u =
     (if \<not> cl_Enabled cl \<or> cl_Max cl \<le> 0 then Done (Inr ())
      else then_do now_is (\<lambda>now.
        let start = cancelRateLimitWindowStart cal cl now; op = ''user:'' @ format_int u in
        then_do (audit_sql (\<lambda>s. (Inr (length (filter (\<lambda>l. al_Action l = A_ORDER_CANCELLED
            \<and> al_Operator l = op \<and> start \<le> al_CreatedAt l) (ps_audit s))), s))) (\<lambda>r. case r of
          Inl _ \<Rightarrow> Done (Inr ())
        | Inr n \<Rightarrow> if cl_Max cl \<le> int n then Done (Inl (App ''CANCEL_RATE_LIMITED'')) else Done (Inr ()))))"

end
