(* ===== verification/PaymentRefund.thy ===== *)
theory PaymentRefund
  imports PaymentLifecycle
begin

text \<open>
  \<open>service/payment_refund.go\<close>: the user's request for a refund, the plan an administrator makes, its
  execution (deduct, ask the gateway, roll back or mark), and the later query of a refund the
  gateway left pending. The answers of the gateway are inputs: a refund call may return a response,
  an error, or both.
\<close>

datatype deduction = NoDeduction | BalanceDeduction | SubscriptionDeduction

record RefundPlan =
  rp_Order :: PaymentOrder
  rp_RefundAmount :: float64
  rp_GatewayAmount :: float64
  rp_Reason :: string
  rp_Force :: bool
  rp_DeductBalance :: bool
  rp_DeductionType :: deduction
  rp_BalanceToDeduct :: float64
  rp_SubDaysToDeduct :: int
  rp_SubscriptionID :: int

record RefundResult =
  rs_Success :: bool
  rs_RequireForce :: bool
  rs_BalanceDeducted :: float64
  rs_SubDaysDeducted :: int

definition not_refunded :: RefundResult where
  "not_refunded = \<lparr>rs_Success = False, rs_RequireForce = False, rs_BalanceDeducted = 0, rs_SubDaysDeducted = 0\<rparr>"

definition plan_id :: "RefundPlan \<Rightarrow> int" where "plan_id p = po_ID (rp_Order p)"

section \<open>The user's request\<close>

definition validateRefundRequest :: "int \<Rightarrow> int \<Rightarrow> PaymentOrder pay_task" where
  "validateRefundRequest i u =
     or_return (found_order i) (\<lambda>ord.
       if po_UserID ord \<noteq> u then Done (Inl (App ''FORBIDDEN''))
       else if po_OrderType ord \<noteq> OrderTypeBalance then Done (Inl (App ''INVALID_ORDER_TYPE''))
       else if po_Status ord \<noteq> COMPLETED then Done (Inl (App ''INVALID_STATUS''))
       else then_do (getRefundOrderProviderInstance ord) (\<lambda>found. case found of
           Inr (Some inst) \<Rightarrow> if pi_AllowUserRefund inst then Done (Inr ord) else Done (Inl (App ''USER_REFUND_DISABLED''))
         | _ \<Rightarrow> Done (Inl (App ''USER_REFUND_DISABLED''))))"

definition refund_requested :: "go_time \<Rightarrow> string \<Rightarrow> int \<Rightarrow> float64 \<Rightarrow> PaymentOrder \<Rightarrow> PaymentOrder" where
  "refund_requested t reason u amount r = r\<lparr>po_Status := REFUND_REQUESTED, po_RefundRequestedAt := Some t,
     po_RefundRequestReason := Some reason, po_RefundRequestedBy := Some (format_int u),
     po_RefundAmount := amount\<rparr>"

definition RequestRefund :: "int \<Rightarrow> int \<Rightarrow> string \<Rightarrow> unit pay_task" where
  "RequestRefund i u reason =
     or_return (validateRefundRequest i u) (\<lambda>ord.
     or_return (get_user (po_UserID ord)) (\<lambda>user.
       if rnd64 (pu_Balance user) < po_Amount ord then Done (Inl (App ''BALANCE_NOT_ENOUGH''))
       else then_do now_is (\<lambda>now.
         or_return (update_orders (\<lambda>r. po_ID r = i \<and> po_UserID r = u \<and> po_Status r = COMPLETED
             \<and> po_OrderType r = OrderTypeBalance) (refund_requested now (trim_space reason) u (po_Amount ord))) (\<lambda>c.
           if c = 0 then Done (Inl (App ''CONFLICT''))
           else ignoring (writeAuditLog i A_REFUND_REQUESTED (''user:'' @ format_int u) None) (Done (Inr ()))))))"

section \<open>The plan\<close>

definition refundable :: "order_status \<Rightarrow> bool" where
  "refundable st \<longleftrightarrow> st \<in> {COMPLETED, REFUND_REQUESTED, REFUND_PENDING, REFUND_FAILED}"

definition sub_call :: "'a sub_prog \<Rightarrow> 'a pay_task" where "sub_call p = sql (with_subs p)"

definition active_subscription :: "pay_config \<Rightarrow> int \<Rightarrow> int \<Rightarrow> UserSubscription pay_task" where
  "active_subscription cfg u g = sql (\<lambda>s. with_subs (GetActiveSubscription (pc_sub cfg) (ps_clock s) u g) s)"

definition prepDeduct :: "pay_config \<Rightarrow> PaymentOrder \<Rightarrow> RefundPlan \<Rightarrow> bool \<Rightarrow> (pay_store, RefundResult + RefundPlan) task" where
  "prepDeduct cfg ord p force =
     (let more_force = Inl (not_refunded\<lparr>rs_RequireForce := True\<rparr>) in
      if po_OrderType ord = OrderTypeSubscription then
        (case (po_SubscriptionGroupID ord, po_SubscriptionDays ord) of
           (Some g, Some days) \<Rightarrow>
             then_do (active_subscription cfg (po_UserID ord) g) (\<lambda>found.
               let q = p\<lparr>rp_DeductionType := SubscriptionDeduction, rp_SubDaysToDeduct := days\<rparr> in
               case found of
                 Inr sub \<Rightarrow> Done (Inr (q\<lparr>rp_SubscriptionID := s_ID sub\<rparr>))
               | Inl _ \<Rightarrow> Done (if force then Inr q else more_force))
         | _ \<Rightarrow> Done (Inr (p\<lparr>rp_DeductionType := SubscriptionDeduction\<rparr>)))
      else then_do (get_user (po_UserID ord)) (\<lambda>found. case found of
          Inl _ \<Rightarrow> Done (if force then Inr p else more_force)
        | Inr user \<Rightarrow> Done (Inr (p\<lparr>rp_DeductionType := BalanceDeduction,
            rp_BalanceToDeduct := min (rp_RefundAmount p) (rnd64 (pu_Balance user))\<rparr>))))"

definition default_reason :: "PaymentOrder \<Rightarrow> string" where
  "default_reason ord = ''refund order:'' @ format_int (po_ID ord)"

definition refund_reason :: "PaymentOrder \<Rightarrow> string \<Rightarrow> string" where
  "refund_reason ord reason =
     (let r = (if trim_space reason = [] then psStringValue (po_RefundRequestReason ord) else trim_space reason) in
      if r = [] then default_reason ord else r)"

definition plan_of ::
  "decimal_ops \<Rightarrow> PaymentOrder \<Rightarrow> float64 \<Rightarrow> string \<Rightarrow> bool \<Rightarrow> bool \<Rightarrow> RefundPlan" where
  "plan_of dd ord amt reason force deduct = \<lparr>rp_Order = ord, rp_RefundAmount = amt,
     rp_GatewayAmount = calculateGatewayRefundAmount dd (po_Amount ord) (po_PayAmount ord) amt (PaymentOrderCurrency ord),
     rp_Reason = reason, rp_Force = force, rp_DeductBalance = deduct, rp_DeductionType = NoDeduction,
     rp_BalanceToDeduct = 0, rp_SubDaysToDeduct = 0, rp_SubscriptionID = 0\<rparr>"

text \<open>The amount is a \<^typ>\<open>go_number\<close>; an amount of at most 0 stands for the whole order.\<close>

definition PrepareRefund ::
  "pay_config \<Rightarrow> decimal_ops \<Rightarrow> int \<Rightarrow> go_number \<Rightarrow> string \<Rightarrow> bool \<Rightarrow> bool \<Rightarrow> (RefundResult + RefundPlan) pay_task" where
  "PrepareRefund cfg dd i amount reason force deduct =
     or_return (found_order i) (\<lambda>ord.
       if \<not> refundable (po_Status ord) then Done (Inl (App ''INVALID_STATUS''))
       else then_do (getRefundOrderProviderInstance ord) (\<lambda>found. case found of
           Inl _ \<Rightarrow> Done (Inl (App ''PROVIDER_LOOKUP_FAILED''))
         | Inr None \<Rightarrow> Done (Inl (App ''REFUND_DISABLED''))
         | Inr (Some inst) \<Rightarrow>
             if \<not> pi_RefundEnabled inst then Done (Inl (App ''REFUND_DISABLED''))
             else case amount of
               Number x \<Rightarrow>
                 let amt = (if x \<le> 0 then po_Amount ord else x) in
                 if paymentAmountToleranceForCurrency (PaymentOrderCurrency ord) < fsub amt (po_Amount ord)
                 then Done (Inl (App ''REFUND_AMOUNT_EXCEEDED''))
                 else
                   let p = plan_of dd ord amt (refund_reason ord reason) force deduct in
                   if deduct then then_do (prepDeduct cfg ord p force) (\<lambda>r. Done (Inr r)) else Done (Inr (Inr p))
             | _ \<Rightarrow> Done (Inl (App ''INVALID_AMOUNT''))))"

section \<open>Deduction and rollback\<close>

definition restoreStatus :: "RefundPlan \<Rightarrow> (pay_store, unit) task" where
  "restoreStatus p = ignoring (update_one (plan_id p) (\<lambda>r. r\<lparr>po_Status :=
     (if po_Status (rp_Order p) = REFUND_REQUESTED then REFUND_REQUESTED else COMPLETED)\<rparr>)) (Done ())"

definition restoring :: "RefundPlan \<Rightarrow> pay_error \<Rightarrow> 'a pay_task" where
  "restoring p e = ignoring (restoreStatus p) (Done (Inl e))"

definition extend_by :: "pay_config \<Rightarrow> ledger_entry \<Rightarrow> int \<Rightarrow> int \<Rightarrow> unit pay_task" where
  "extend_by cfg why i days = sql (\<lambda>s. noting why
     (with_subs (andthen (ExtendSubscription (pc_sub cfg) (ps_clock s) i days) (\<lambda>_. ret ()))) s)"

definition revoke_for :: "pay_config \<Rightarrow> ledger_entry \<Rightarrow> int \<Rightarrow> unit pay_task" where
  "revoke_for cfg why i = sql (\<lambda>s. noting why (with_subs (RevokeSubscription (pc_sub cfg) (ps_clock s) i)) s)"

text \<open>Shortening a subscription; one that would end is revoked.\<close>

definition deduct_days :: "pay_config \<Rightarrow> RefundPlan \<Rightarrow> unit pay_task" where
  "deduct_days cfg p =
     (let why = SubscriptionDeducted (plan_id p) (rp_SubDaysToDeduct p) in
      then_do (extend_by cfg why (rp_SubscriptionID p) (- rp_SubDaysToDeduct p)) (\<lambda>r. case r of
        Inr _ \<Rightarrow> Done (Inr ())
      | Inl e \<Rightarrow>
          if e = SubscriptionError ErrAdjustWouldExpire then revoke_for cfg why (rp_SubscriptionID p)
          else Done (Inl e)))"

definition deducts_balance :: "RefundPlan \<Rightarrow> bool" where
  "deducts_balance p \<longleftrightarrow> rp_DeductionType p = BalanceDeduction \<and> 0 < rp_BalanceToDeduct p"

definition deducts_days :: "RefundPlan \<Rightarrow> bool" where
  "deducts_days p \<longleftrightarrow> rp_DeductionType p = SubscriptionDeduction \<and> 0 < rp_SubDaysToDeduct p \<and> 0 < rp_SubscriptionID p"

definition deduct_balance_for :: "RefundPlan \<Rightarrow> unit pay_task" where
  "deduct_balance_for p = DeductBalance (RefundDeduct (plan_id p) (po_UserID (rp_Order p)) (rp_BalanceToDeduct p))
     (po_UserID (rp_Order p)) (rp_BalanceToDeduct p)"

text \<open>The deduction before the gateway is asked. A retry after a rollback that failed skips it.\<close>

definition deduct_first :: "pay_config \<Rightarrow> RefundPlan \<Rightarrow> RefundPlan pay_task" where
  "deduct_first cfg p =
     (if deducts_balance p then
        then_do (hasAuditLog (plan_id p) A_REFUND_ROLLBACK_FAILED) (\<lambda>skip.
          if skip then Done (Inr (p\<lparr>rp_BalanceToDeduct := 0\<rparr>))
          else then_do (deduct_balance_for p) (\<lambda>r. case r of
              Inl e \<Rightarrow> restoring p e | Inr _ \<Rightarrow> Done (Inr p)))
      else if deducts_days p then
        then_do (hasAuditLog (plan_id p) A_REFUND_ROLLBACK_FAILED) (\<lambda>skip.
          if skip then Done (Inr (p\<lparr>rp_SubDaysToDeduct := 0\<rparr>))
          else then_do (deduct_days cfg p) (\<lambda>r. case r of
              Inl e \<Rightarrow> restoring p e | Inr _ \<Rightarrow> Done (Inr p)))
      else Done (Inr p))"

definition RollbackRefund :: "pay_config \<Rightarrow> RefundPlan \<Rightarrow> (pay_store, bool) task" where
  "RollbackRefund cfg p =
     (let check = (\<lambda>m. then_do m (\<lambda>r. case r of
            Inr _ \<Rightarrow> Done True
          | Inl _ \<Rightarrow> ignoring (writeAuditLog (plan_id p) A_REFUND_ROLLBACK_FAILED ''admin'' None) (Done False)))
      in if deducts_balance p then
           check (sql (noting (RefundRollback (plan_id p) (po_UserID (rp_Order p)) (rp_BalanceToDeduct p))
             (UpdateBalance (po_UserID (rp_Order p)) (rp_BalanceToDeduct p))))
         else if deducts_days p then
           check (extend_by cfg (SubscriptionRestored (plan_id p) (rp_SubDaysToDeduct p))
             (rp_SubscriptionID p) (rp_SubDaysToDeduct p))
         else Done True)"

section \<open>The gateway\<close>

abbreviation ProviderStatusPending :: string where "ProviderStatusPending \<equiv> ''pending''"
abbreviation ProviderStatusSuccess :: string where "ProviderStatusSuccess \<equiv> ''success''"
abbreviation ProviderStatusRefunded :: string where "ProviderStatusRefunded \<equiv> ''refunded''"

definition refund_upstream :: "(pay_store, RefundResponse option \<times> bool) task" where
  "refund_upstream = statement (\<lambda>s. case ps_refunds s of
     [] \<Rightarrow> ((None, True), s) | a # rest \<Rightarrow> (a, s\<lparr>ps_refunds := rest\<rparr>))"

definition query_refund_upstream :: "(pay_store, unit + RefundResponse) task" where
  "query_refund_upstream = statement (\<lambda>s. case ps_refund_queries s of
     [] \<Rightarrow> (Inl (), s) | a # rest \<Rightarrow> (a, s\<lparr>ps_refund_queries := rest\<rparr>))"

definition refund_status :: "RefundResponse \<Rightarrow> string" where
  "refund_status r = trim_space (rr_Status r)"

definition is_done :: "RefundResponse \<Rightarrow> bool" where
  "is_done r \<longleftrightarrow> refund_status r = ProviderStatusSuccess \<or> refund_status r = ProviderStatusRefunded"

definition is_pending :: "RefundResponse \<Rightarrow> bool" where
  "is_pending r \<longleftrightarrow> refund_status r = ProviderStatusPending"

definition validateRefundProviderResponse :: "RefundResponse option \<Rightarrow> pay_error option" where
  "validateRefundProviderResponse resp = (case resp of
     None \<Rightarrow> Some (App ''payment refund response missing'')
   | Some r \<Rightarrow> if is_done r \<or> is_pending r then None else Some (App ''payment refund failed''))"

definition gwRefund :: "pay_config \<Rightarrow> RefundPlan \<Rightarrow> RefundResponse pay_task" where
  "gwRefund cfg p =
     (let ord = rp_Order p in
      if po_PaymentTradeNo ord = [] then
        ignoring (writeAuditLog (plan_id p) A_REFUND_NO_TRADE_NO ''admin'' None)
          (Done (Inr \<lparr>rr_RefundID = [], rr_Status = ProviderStatusSuccess\<rparr>))
      else or_return (getRefundProvider cfg ord) (\<lambda>prov.
        case validateProviderSnapshotMetadata ord (pv_ProviderKey prov) (pv_Merchant prov) of
          Some e \<Rightarrow> ignoring (writeAuditLog (plan_id p) A_REFUND_PROVIDER_METADATA_MISMATCH ''admin'' None) (Done (Inl e))
        | None \<Rightarrow> then_do refund_upstream (\<lambda>(resp, failed). case resp of
            None \<Rightarrow> Done (Inl (App ''payment refund''))
          | Some r \<Rightarrow>
              if failed then (if is_pending r then Done (Inr r) else Done (Inl (App ''payment refund'')))
              else case validateRefundProviderResponse resp of Some e \<Rightarrow> Done (Inl e) | None \<Rightarrow> Done (Inr r))))"

section \<open>Marking\<close>

definition refunded :: "go_time \<Rightarrow> RefundPlan \<Rightarrow> PaymentOrder \<Rightarrow> PaymentOrder" where
  "refunded t p r = r\<lparr>po_Status := (if rp_RefundAmount p < po_Amount (rp_Order p) then PARTIALLY_REFUNDED else REFUNDED),
     po_RefundAmount := col2 (rp_RefundAmount p), po_RefundReason := Some (rp_Reason p), po_RefundAt := Some t,
     po_ForceRefund := rp_Force p\<rparr>"

definition markRefundOk :: "RefundPlan \<Rightarrow> RefundResult pay_task" where
  "markRefundOk p =
     then_do now_is (\<lambda>now.
     or_return (update_one (plan_id p) (refunded now p)) (\<lambda>_.
     ignoring (writeAuditLog (plan_id p) A_REFUND_SUCCESS ''admin'' None)
       (Done (Inr \<lparr>rs_Success = True, rs_RequireForce = False, rs_BalanceDeducted = rp_BalanceToDeduct p,
          rs_SubDaysDeducted = rp_SubDaysToDeduct p\<rparr>))))"

definition refund_pending :: "RefundPlan \<Rightarrow> PaymentOrder \<Rightarrow> PaymentOrder" where
  "refund_pending p r = r\<lparr>po_Status := REFUND_PENDING, po_RefundAmount := col2 (rp_RefundAmount p),
     po_RefundReason := Some (rp_Reason p), po_RefundAt := None, po_ForceRefund := rp_Force p,
     po_FailedAt := None, po_FailedReason := None\<rparr>"

text \<open>A pending refund gives the deduction back until it is final.\<close>

definition markRefundPending :: "pay_config \<Rightarrow> RefundPlan \<Rightarrow> RefundResponse \<Rightarrow> RefundResult pay_task" where
  "markRefundPending cfg p resp =
     then_do (RollbackRefund cfg p) (\<lambda>ok.
     or_return (update_one (plan_id p) (refund_pending p)) (\<lambda>_.
     ignoring (writeAuditLog (plan_id p) A_REFUND_PENDING ''admin''
         (Some \<lparr>rd_RefundID = trim_space (rr_RefundID resp), rd_DeductionRollbackOK = ok\<rparr>))
       (Done (Inr not_refunded))))"

definition refund_failed :: "go_time \<Rightarrow> pay_error \<Rightarrow> PaymentOrder \<Rightarrow> PaymentOrder" where
  "refund_failed t e r = r\<lparr>po_Status := REFUND_FAILED, po_FailedAt := Some t, po_FailedReason := Some (err_text e)\<rparr>"

definition handleGwFail :: "pay_config \<Rightarrow> RefundPlan \<Rightarrow> pay_error \<Rightarrow> RefundResult pay_task" where
  "handleGwFail cfg p e =
     then_do (RollbackRefund cfg p) (\<lambda>ok.
     if ok then ignoring (restoreStatus p)
       (ignoring (writeAuditLog (plan_id p) A_REFUND_GATEWAY_FAILED ''admin'' None) (Done (Inr not_refunded)))
     else then_do now_is (\<lambda>now.
       ignoring (update_one (plan_id p) (refund_failed now e))
       (ignoring (writeAuditLog (plan_id p) A_REFUND_FAILED ''admin'' None) (Done (Inl (App ''REFUND_FAILED''))))))"

definition finishRefund :: "pay_config \<Rightarrow> RefundPlan \<Rightarrow> RefundResponse \<Rightarrow> RefundResult pay_task" where
  "finishRefund cfg p resp = (case validateRefundProviderResponse (Some resp) of
     Some e \<Rightarrow> handleGwFail cfg p e
   | None \<Rightarrow> if is_done resp then markRefundOk p else markRefundPending cfg p resp)"

definition ExecuteRefund :: "pay_config \<Rightarrow> RefundPlan \<Rightarrow> RefundResult pay_task" where
  "ExecuteRefund cfg p =
     or_return (update_orders (\<lambda>r. po_ID r = plan_id p \<and> refundable (po_Status r))
         (\<lambda>r. r\<lparr>po_Status := REFUNDING\<rparr>)) (\<lambda>c.
     if c = 0 then Done (Inl (App ''CONFLICT''))
     else or_return (deduct_first cfg p) (\<lambda>q.
       then_do (gwRefund cfg q) (\<lambda>r. case r of
         Inl e \<Rightarrow> handleGwFail cfg q e | Inr resp \<Rightarrow> finishRefund cfg q resp)))"

text \<open>What the administrator's handler does.\<close>

definition admin_refund ::
  "pay_config \<Rightarrow> decimal_ops \<Rightarrow> int \<Rightarrow> go_number \<Rightarrow> string \<Rightarrow> bool \<Rightarrow> bool \<Rightarrow> RefundResult pay_task" where
  "admin_refund cfg dd i amount reason force deduct =
     or_return (PrepareRefund cfg dd i amount reason force deduct) (\<lambda>r. case r of
       Inl early \<Rightarrow> Done (Inr early) | Inr p \<Rightarrow> ExecuteRefund cfg p)"

section \<open>A pending refund becomes final\<close>

definition pending_entry :: "int \<Rightarrow> PaymentAuditLog list \<Rightarrow> PaymentAuditLog option" where
  "pending_entry i logs = List.find (\<lambda>l. al_OrderID l = i \<and> al_Action l = A_REFUND_PENDING) (rev logs)"

definition unknown_detail :: refundPendingAuditDetail where
  "unknown_detail = \<lparr>rd_RefundID = [], rd_DeductionRollbackOK = True\<rparr>"

definition latestRefundPendingDetail :: "int \<Rightarrow> (pay_store, refundPendingAuditDetail) task" where
  "latestRefundPendingDetail i =
     then_do (audit_sql (\<lambda>s. (Inr (pending_entry i (ps_audit s)), s))) (\<lambda>r. case r of
       Inr (Some l) \<Rightarrow> Done (case al_Detail l of None \<Rightarrow> unknown_detail | Some d \<Rightarrow> d)
     | _ \<Rightarrow> Done unknown_detail)"

definition refundFinalizePlan :: "decimal_ops \<Rightarrow> PaymentOrder \<Rightarrow> RefundPlan" where
  "refundFinalizePlan dd ord =
     (plan_of dd ord (po_RefundAmount ord)
        (let r = trim_space (psStringValue (po_RefundReason ord)) in if r = [] then default_reason ord else r)
        (po_ForceRefund ord) True)
     \<lparr>rp_DeductionType := BalanceDeduction,
      rp_BalanceToDeduct := (if po_OrderType ord = OrderTypeBalance then po_RefundAmount ord else 0)\<rparr>"

definition applyRefundFinalDeduction :: "pay_config \<Rightarrow> RefundPlan \<Rightarrow> RefundPlan pay_task" where
  "applyRefundFinalDeduction cfg p =
     then_do (hasAuditLog (plan_id p) A_REFUND_SUCCESS) (\<lambda>done.
     if done then Done (Inr (p\<lparr>rp_BalanceToDeduct := 0, rp_SubDaysToDeduct := 0\<rparr>))
     else if deducts_balance p then or_return (deduct_balance_for p) (\<lambda>_. Done (Inr p))
     else if deducts_days p then or_return (deduct_days cfg p) (\<lambda>_. Done (Inr p))
     else Done (Inr p))"

definition finalizeRefundFailed :: "PaymentOrder \<Rightarrow> pay_error \<Rightarrow> RefundResult pay_task" where
  "finalizeRefundFailed ord e =
     then_do now_is (\<lambda>now.
     ignoring (update_one (po_ID ord) (refund_failed now e))
     (ignoring (writeAuditLog (po_ID ord) A_REFUND_FAILED ''admin'' None) (Done (Inr not_refunded))))"

definition finalize_plan ::
  "pay_config \<Rightarrow> decimal_ops \<Rightarrow> PaymentOrder \<Rightarrow> refundPendingAuditDetail \<Rightarrow> (pay_store, RefundResult + RefundPlan) task" where
  "finalize_plan cfg dd ord detail =
     (let p = refundFinalizePlan dd ord in
      if \<not> rd_DeductionRollbackOK detail
      then Done (Inr (p\<lparr>rp_BalanceToDeduct := 0, rp_SubDaysToDeduct := 0\<rparr>))
      else if po_OrderType ord = OrderTypeSubscription then prepDeduct cfg ord p True
      else Done (Inr p))"

definition QueryAndFinalizeRefund :: "pay_config \<Rightarrow> decimal_ops \<Rightarrow> int \<Rightarrow> RefundResult pay_task" where
  "QueryAndFinalizeRefund cfg dd i =
     or_return (found_order i) (\<lambda>ord.
       if po_Status ord \<noteq> REFUND_PENDING then Done (Inl (App ''INVALID_STATUS''))
       else or_return (getRefundProvider cfg ord) (\<lambda>prov.
         if \<not> pv_RefundQuery prov then Done (Inl (App ''REFUND_QUERY_UNSUPPORTED''))
         else then_do (latestRefundPendingDetail i) (\<lambda>detail.
           then_do query_refund_upstream (\<lambda>answer. case answer of
             Inl _ \<Rightarrow> Done (Inl (App ''query refund''))
           | Inr resp \<Rightarrow> (case validateRefundProviderResponse (Some resp) of
               Some e \<Rightarrow> finalizeRefundFailed ord e
             | None \<Rightarrow>
                 then_do (finalize_plan cfg dd ord detail) (\<lambda>r. case r of
                   Inl early \<Rightarrow> Done (Inr early)
                 | Inr p \<Rightarrow>
                     if is_done resp then or_return (applyRefundFinalDeduction cfg p) markRefundOk
                     else ignoring (writeAuditLog i A_REFUND_QUERY_PENDING ''admin'' None)
                       (Done (Inr not_refunded))))))))"

end
