(* ===== verification/PaymentEffects.thy ===== *)
theory PaymentEffects
  imports PaymentRefund
begin

text \<open>
  What the statements of the payment and redeem services may do to the store. The locale \<open>pay_effect\<close>
  is for a relation between the store before and after a statement that allows every primitive change
  but one: moving an order into or out of RECHARGING, or giving a paid subscription. Every operation
  that does neither then has it for each of its statements. \<open>pay_effect_all\<close> adds the other changes and
  reaches every operation of the two services.
\<close>

definition settled :: "order_status \<Rightarrow> bool" where
  "settled st \<longleftrightarrow> st = COMPLETED \<or> psIsRefundStatus st"

text \<open>A change of status that neither enters nor leaves RECHARGING, nor the settled ones.\<close>

definition benign_status :: "order_status \<Rightarrow> order_status \<Rightarrow> bool" where
  "benign_status st st' \<longleftrightarrow> (st = RECHARGING \<longleftrightarrow> st' = RECHARGING) \<and> (settled st \<longleftrightarrow> settled st')"

text \<open>What an order is about does not change.\<close>

definition same_goods :: "(PaymentOrder \<Rightarrow> PaymentOrder) \<Rightarrow> bool" where
  "same_goods f \<longleftrightarrow> (\<forall>r. po_ID (f r) = po_ID r \<and> po_OrderType (f r) = po_OrderType r
     \<and> po_RechargeCode (f r) = po_RechargeCode r)"

definition benign_change :: "(PaymentOrder \<Rightarrow> bool) \<Rightarrow> (PaymentOrder \<Rightarrow> PaymentOrder) \<Rightarrow> bool" where
  "benign_change P f \<longleftrightarrow> same_goods f \<and> (\<forall>r. P r \<longrightarrow> benign_status (po_Status r) (po_Status (f r)))"

definition plain_action :: "audit_action \<Rightarrow> bool" where
  "plain_action act \<longleftrightarrow> act \<noteq> A_SUBSCRIPTION_ASSIGNED \<and> act \<noteq> A_SUBSCRIPTION_SUCCESS"

definition plain_entry :: "ledger_entry \<Rightarrow> bool" where
  "plain_entry e \<longleftrightarrow> (case e of CreditCode _ _ _ \<Rightarrow> False | SubscriptionAssigned _ \<Rightarrow> False | _ \<Rightarrow> True)"

definition insert_code :: "RedeemCode \<Rightarrow> pay_store \<Rightarrow> pay_store" where
  "insert_code c s = s\<lparr>ps_codes := ps_codes s @ [c\<lparr>rc_ID := ps_next_code s\<rparr>],
     ps_next_code := ps_next_code s + 1\<rparr>"

definition no_code :: "string \<Rightarrow> pay_store \<Rightarrow> bool" where
  "no_code c s \<longleftrightarrow> code_by (\<lambda>r. rc_Code r = c) s = None"

lemma plain_actions [each, simp]:
  "plain_action A_ORDER_PAID" "plain_action A_ORDER_RECOVERED" "plain_action A_ORDER_CANCELLED"
  "plain_action A_ORDER_EXPIRED" "plain_action A_PAYMENT_PROVIDER_MISMATCH"
  "plain_action A_PAYMENT_PROVIDER_METADATA_MISMATCH" "plain_action A_PAYMENT_INVALID_AMOUNT"
  "plain_action A_PAYMENT_AMOUNT_MISMATCH" "plain_action A_PAYMENT_AFTER_EXPIRY"
  "plain_action A_RECHARGE_SUCCESS" "plain_action A_FULFILLMENT_FAILED"
  "plain_action A_RECHARGE_RETRY" "plain_action A_AFFILIATE_REBATE_APPLIED"
  "plain_action A_AFFILIATE_REBATE_SKIPPED" "plain_action A_AFFILIATE_REBATE_FAILED"
  "plain_action A_REFUND_REQUESTED" "plain_action A_REFUND_PENDING" "plain_action A_REFUND_SUCCESS"
  "plain_action A_REFUND_FAILED" "plain_action A_REFUND_GATEWAY_FAILED"
  "plain_action A_REFUND_ROLLBACK_FAILED" "plain_action A_REFUND_QUERY_PENDING"
  "plain_action A_REFUND_NO_TRADE_NO" "plain_action A_REFUND_PROVIDER_METADATA_MISMATCH"
  "plain_action act \<Longrightarrow> plain_action act' \<Longrightarrow> plain_action (if b then act else act')"
  by (simp_all add: plain_action_def)

lemma each_cases [each]:
  "each R a \<Longrightarrow> each R b \<Longrightarrow> each R c \<Longrightarrow> each R (case_redeemAction a b c act)"
  "each R a \<Longrightarrow> each R b \<Longrightarrow> each R (case_cancel_outcome a b outcome)"
  by (cases act; simp) (cases outcome; simp)

lemma each_order_status [each]:
  "each R a1 \<Longrightarrow> each R a2 \<Longrightarrow> each R a3 \<Longrightarrow> each R a4 \<Longrightarrow> each R a5 \<Longrightarrow> each R a6 \<Longrightarrow> each R a7 \<Longrightarrow> each R a8 \<Longrightarrow> each R a9 \<Longrightarrow> each R a10 \<Longrightarrow> each R a11 \<Longrightarrow> each R a12 \<Longrightarrow> each R a13 \<Longrightarrow> 
     each R (case_order_status a1 a2 a3 a4 a5 a6 a7 a8 a9 a10 a11 a12 a13 st)"
  by (cases st) simp_all

lemma each_go_number [each]:
  "(\<And>x. each R (f x)) \<Longrightarrow> each R a \<Longrightarrow> each R b \<Longrightarrow> each R c \<Longrightarrow>
     each R (case v of Number x \<Rightarrow> f x | NaN \<Rightarrow> a | PlusInf \<Rightarrow> b | MinusInf \<Rightarrow> c)"
  by (cases v) simp_all

section \<open>Changes of the store\<close>

locale pay_effect =
  fixes R :: "pay_store \<Rightarrow> pay_store \<Rightarrow> bool"
  assumes R_refl: "R s s"
    and R_trans: "R s t \<Longrightarrow> R t u \<Longrightarrow> R s u"
    and R_faults: "set fs \<subseteq> set (ps_faults s) \<Longrightarrow> R s (s\<lparr>ps_faults := fs\<rparr>)"
    and R_audit_faults: "set fs \<subseteq> set (ps_audit_faults s) \<Longrightarrow> R s (s\<lparr>ps_audit_faults := fs\<rparr>)"
    and R_redis_faults: "R s (s\<lparr>ps_redis_faults := bs\<rparr>)"
    and R_attempts: "R s (s\<lparr>ps_attempts := ats\<rparr>)"
    and R_locks: "R s (s\<lparr>ps_locks := ls\<rparr>)"
    and R_queries: "R s (s\<lparr>ps_queries := qs\<rparr>)"
    and R_refunds: "R s (s\<lparr>ps_refunds := rfs\<rparr>)"
    and R_refund_queries: "R s (s\<lparr>ps_refund_queries := rqs\<rparr>)"
    and R_rebates: "R s (s\<lparr>ps_rebates := rbs\<rparr>)"
    and R_users: "R s (s\<lparr>ps_users := us\<rparr>)"
    and R_subs: "R s (s\<lparr>ps_subs := store\<rparr>)"
    and R_audit: "plain_action (al_Action l) \<Longrightarrow> R s (s\<lparr>ps_audit := ps_audit s @ [l]\<rparr>)"
    and R_entry: "plain_entry e \<Longrightarrow> R s (record_entry e s)"
    and R_code: "no_code (rc_Code c) s \<Longrightarrow> R s (insert_code c s)"
    and R_redeem: "redeem_prog cfg user c s = (Inr x, s') \<Longrightarrow> R s s'"
    and R_orders: "benign_change P f \<Longrightarrow> R s (s\<lparr>ps_orders := changed_orders tm P f (ps_orders s)\<rparr>)"
    and R_new_order: "po_Status ord = PENDING \<Longrightarrow> insert_order ord s = (Inr row, s') \<Longrightarrow> R s s'"
begin

lemma R_under_fault:
  assumes "\<And>s. R s (snd (f s))" and "\<And>s fs. set fs \<subseteq> set (script s) \<Longrightarrow> R s (put fs s)"
  shows "R s (snd (under_fault script put f s))"
proof (cases "script s")
  case Nil
  then show ?thesis using assms(1) by (simp add: under_fault_def)
next
  case (Cons x fs)
  have put: "R s (put fs s)" using assms(2) [of fs s] Cons by (simp add: subset_insertI)
  then have "R s (snd (f (put fs s)))" using assms(1) R_trans by blast
  with put Cons show ?thesis by (cases x) (simp_all add: under_fault_def)
qed

lemma each_sql: "(\<And>s. R s (snd (f s))) \<Longrightarrow> each R (sql f)"
  unfolding sql_def by (intro each_statement R_under_fault R_faults)

lemma each_audit_sql: "(\<And>s. R s (snd (f s))) \<Longrightarrow> each R (audit_sql f)"
  unfolding audit_sql_def by (intro each_statement R_under_fault R_audit_faults)

lemma each_sql_query [each]: "each R (sql_query f)"
  unfolding sql_query_def by (intro each_sql) (simp add: R_refl)

lemma each_now_is [each]: "each R now_is"
  unfolding now_is_def by (intro each_glance R_refl)

lemma R_rolled_back: "R s (rolled_back s s')"
proof -
  have "R s (s\<lparr>ps_subs := t\<rparr>)" for t by (rule R_subs)
  then show ?thesis unfolding rolled_back_def using R_rebates R_trans by blast
qed

lemma each_tx: "(\<And>s a s'. p s = (Inr a, s') \<Longrightarrow> R s s') \<Longrightarrow> each R (tx p)"
  unfolding tx_def by (intro each_sql) (auto simp: R_rolled_back split: prod.split sum.split)

lemma R_with_subs: "R s (snd (with_subs p s))"
  by (auto simp: with_subs_def R_subs split: prod.split sum.split)

lemma R_noting: "plain_entry e \<Longrightarrow> (\<And>s. R s (snd (p s))) \<Longrightarrow> R s (snd (noting e p s))"
  unfolding noting_def
  by (auto simp: run split: prod.split sum.split) (metis R_entry R_trans snd_conv)+

lemma R_change_user: "R s (snd (change_user i f s))"
  by (simp add: change_user_def R_users R_refl)

lemma each_redis: "(\<And>s. R s (snd (f s))) \<Longrightarrow> each R (redis f)"
  unfolding redis_def
proof (intro each_statement)
  fix s assume *: "\<And>s. R s (snd (f s))"
  show "R s (snd (case ps_redis_faults s of [] \<Rightarrow> (case f s of (a, s') \<Rightarrow> (Inr a, s'))
     | b # bs \<Rightarrow> if b then (Inl StoreError, s\<lparr>ps_redis_faults := bs\<rparr>)
         else (case f (s\<lparr>ps_redis_faults := bs\<rparr>) of (a, s') \<Rightarrow> (Inr a, s'))))"
    using * [of s] R_trans [OF R_redis_faults *] R_redis_faults
    by (auto split: list.split prod.split) (metis snd_conv)+
qed

section \<open>The audit log and the redeem service\<close>

lemma each_insert_audit: "plain_action act \<Longrightarrow> R s (snd (insert_audit i act op d s))"
  by (auto simp: insert_audit_def R_refl intro!: R_audit)

lemma each_writeAuditLog [each]: "plain_action act \<Longrightarrow> each R (writeAuditLog i act op d)"
  unfolding writeAuditLog_def by (intro each each_audit_sql each_insert_audit)

lemma each_hasAuditLog [each]: "each R (hasAuditLog i act)"
  unfolding hasAuditLog_def by (intro each each_audit_sql) (simp add: R_refl)

lemma each_redeem_cache [each]:
  "each R (checkRedeemRateLimit cfg u)" "each R (incrementRedeemErrorCount cfg u)"
  "each R (acquireRedeemLock cfg c)" "each R (releaseRedeemLock cfg c)"
  unfolding checkRedeemRateLimit_def incrementRedeemErrorCount_def acquireRedeemLock_def
    releaseRedeemLock_def GetRedeemAttemptCount_def IncrementRedeemAttemptCount_def
    AcquireRedeemLock_def ReleaseRedeemLock_def
  by (intro each each_redis; simp add: R_refl R_attempts R_locks)+

lemma each_code_query [each]: "each R (code_query P)"
  unfolding code_query_def by (intro each)

lemma each_repo_codes [each]: "each R (repo_GetByCode c)" "each R (repo_code_GetByID i)"
  unfolding repo_GetByCode_def repo_code_GetByID_def by (intro each)+

lemma each_code_Create [each]: "each R (repo_code_Create c)"
proof -
  have "R s (s\<lparr>ps_codes := ps_codes s @ [c\<lparr>rc_ID := ps_next_code s\<rparr>], ps_next_code := ps_next_code s + 1\<rparr>)"
    if "code_by (\<lambda>r. rc_Code r = rc_Code c) s = None" for s
    using R_code [of c s] that by (simp add: no_code_def insert_code_def)
  then show ?thesis unfolding repo_code_Create_def by (intro each_sql) (auto simp: R_refl)
qed

lemma each_redeem_tx [each]: "each R (redeem_tx cfg user c)"
  unfolding redeem_tx_def by (intro each_tx R_redeem)

lemma each_get_user [each]: "each R (get_user u)"
  unfolding get_user_def by (intro each)

lemma each_Redeem [each]: "each R (Redeem cfg u code)"
  unfolding Redeem_def redeem_locked_def by (intro each)

lemma each_CreateCode [each]: "each R (CreateCode c)"
  unfolding CreateCode_def by (intro each)

section \<open>Orders and providers\<close>

lemma each_update_orders: "benign_change P f \<Longrightarrow> each R (update_orders P f)"
  unfolding update_orders_def by (intro each_sql) (simp add: R_orders)

lemma each_order_queries [each]:
  "each R (get_order i)" "each R (found_order i)" "each R (orders_where P)" "each R (order_group g)"
  "each R (get_instance i)" "each R (order_by_number n)"
  unfolding get_order_def found_order_def orders_where_def order_group_def get_instance_def
    order_by_number_def by (intro each)+

lemma each_instances [each]:
  "each R (resolveSnapshotOrderProviderInstance ord sn)"
  "each R (resolveUniqueLegacyOrderProviderInstance ord)"
  unfolding resolveSnapshotOrderProviderInstance_def resolveUniqueLegacyOrderProviderInstance_def Let_def
  by (intro each)+

lemma each_getInstance [each]:
  "each R (getOrderProviderInstance ord)" "each R (getRefundOrderProviderInstance ord)"
  unfolding getOrderProviderInstance_def getRefundOrderProviderInstance_def Let_def by (intro each)+

lemma each_providers [each]:
  "each R (createProviderFromInstance cfg inst)" "each R (webhookRegistryFallbackAllowed key)"
  unfolding createProviderFromInstance_def webhookRegistryFallbackAllowed_def by (intro each)+

lemma each_getProvider [each]: "each R (getOrderProvider cfg ord)" "each R (getRefundProvider cfg ord)"
  unfolding getOrderProvider_def getRefundProvider_def Let_def by (intro each)+

lemma each_rebate_tx [each]: "each R (rebate_tx i)"
proof -
  have "R s (snd (insert_audit i act op d (s\<lparr>ps_rebates := rest\<rparr>)))" if "plain_action act" for s act op d rest
    using R_trans [OF R_rebates each_insert_audit] that .
  then show ?thesis unfolding rebate_tx_def
    by (intro each_tx) (auto simp: R_refl Let_def split: if_splits prod.splits sum.splits; metis snd_conv plain_actions)
qed

lemma each_rebate [each]: "each R (applyAffiliateRebateForOrder cfg ord)"
  unfolding applyAffiliateRebateForOrder_def by (intro each)

lemma each_upstream [each]:
  "each R query_upstream" "each R refund_upstream" "each R query_refund_upstream"
  unfolding query_upstream_def refund_upstream_def query_refund_upstream_def
  by (intro each_statement; auto simp: R_refl R_queries R_refunds R_refund_queries split: list.split)+

lemma each_requery [each]: "each R requeryPaidOrderOnce"
  unfolding requeryPaidOrderOnce_def by (intro each)

lemma benign_trade_no: "benign_change P (\<lambda>r. r\<lparr>po_PaymentTradeNo := t\<rparr>)"
  by (simp add: benign_change_def benign_status_def same_goods_def)

lemma benign_paid: "benign_change (\<lambda>r. po_ID r = i \<and> payable now r) (paid_order now x t)"
  by (auto simp: benign_change_def benign_status_def same_goods_def paid_order_def payable_def settled_def psIsRefundStatus_def)

lemma benign_retry: "benign_change (\<lambda>r. po_ID r = i \<and> fulfillable (po_Status r))
    (\<lambda>r. r\<lparr>po_Status := PAID, po_FailedAt := None, po_FailedReason := None\<rparr>)"
  by (auto simp: benign_change_def benign_status_def same_goods_def fulfillable_def settled_def psIsRefundStatus_def)

lemma benign_cancel: "st = CANCELLED \<or> st = EXPIRED \<Longrightarrow>
    benign_change (\<lambda>r. po_ID r = i \<and> po_Status r = PENDING) (\<lambda>r. r\<lparr>po_Status := st\<rparr>)"
  by (auto simp: benign_change_def benign_status_def same_goods_def settled_def psIsRefundStatus_def)

lemma benign_refunding: "benign_change (\<lambda>r. po_ID r = i \<and> refundable (po_Status r)) (\<lambda>r. r\<lparr>po_Status := REFUNDING\<rparr>)"
  by (auto simp: benign_change_def benign_status_def same_goods_def refundable_def settled_def psIsRefundStatus_def)

lemma benign_requested: "benign_change
    (\<lambda>r. po_ID r = i \<and> po_UserID r = u \<and> po_Status r = COMPLETED \<and> po_OrderType r = OrderTypeBalance)
    (refund_requested t reason u x)"
  by (auto simp: benign_change_def benign_status_def same_goods_def refund_requested_def settled_def psIsRefundStatus_def)

lemma each_RequestRefund [each]: "each R (RequestRefund i u reason)"
  unfolding RequestRefund_def validateRefundRequest_def
  by (intro each each_update_orders benign_requested)

lemma each_createOrderInTx [each]: "each R (createOrderInTx oc random ord limit)"
  unfolding createOrderInTx_def
proof (intro each_tx)
  fix s row s'
  assume "andthen (checkPendingLimit (po_UserID ord) (oc_MaxPendingOrders oc)) (\<lambda>_.
         andthen (checkDailyLimit (po_UserID ord) limit (oc_DailyLimit oc)) (\<lambda>_.
         andthen (inspect ps_clock) (\<lambda>now.
         andthen (allocateOutTradeNo random) (\<lambda>n.
         insert_order (ord\<lparr>po_OutTradeNo := n, po_Status := PENDING, po_PaymentTradeNo := [],
           po_Amount := col2 (po_Amount ord), po_PayAmount := col2 (po_PayAmount ord),
           po_ExpiresAt := now + timeout_minutes oc * minute\<rparr>))))) s = (Inr row, s')"
  then show "R s s'"
    by (auto simp: run checkPendingLimit_def checkDailyLimit_def allocateOutTradeNo_def Let_def
        split: if_splits option.splits prod.splits sum.splits dest!: R_new_order [rotated])
qed

section \<open>Refunds before they are marked\<close>

lemma each_DeductBalance [each]: "plain_entry why \<Longrightarrow> each R (DeductBalance why i x)"
proof -
  assume *: "plain_entry why"
  then have n: "R s (snd (noting why (change_user i f) s))" for s f
    by (intro R_noting R_change_user)
  have "R s (snd (if covered i x s
         then (case noting why (change_user i (add_balance (- x))) s of
             (Inl e, s') \<Rightarrow> (Inl e, s') | (Inr _, s') \<Rightarrow> (Inr True, s'))
         else (Inr False, s)))" for s
    using n [of s "add_balance (- x)"] by (auto simp: R_refl split: prod.split sum.split)
  then show ?thesis unfolding DeductBalance_def by (intro each each_sql n)
qed

lemma R_insert_codes:
  "distinct (map rc_Code cs) \<Longrightarrow> (\<And>c. c \<in> set cs \<Longrightarrow> no_code (rc_Code c) s) \<Longrightarrow>
     R s (s\<lparr>ps_codes := ps_codes s @ number_codes (ps_next_code s) cs,
       ps_next_code := ps_next_code s + int (length cs)\<rparr>)"
proof (induction cs arbitrary: s)
  case Nil
  then show ?case by (simp add: R_refl)
next
  case (Cons c cs)
  let ?s = "insert_code c s"
  have "no_code (rc_Code d) ?s" if "d \<in> set cs" for d
    using that Cons.prems by (auto simp: no_code_def insert_code_def code_by_def find_None_iff)
  then have "R ?s (?s\<lparr>ps_codes := ps_codes ?s @ number_codes (ps_next_code ?s) cs,
       ps_next_code := ps_next_code ?s + int (length cs)\<rparr>)" using Cons by simp
  moreover have "R s ?s" using R_code Cons.prems(2) by simp
  ultimately show ?case using R_trans by (fastforce simp: insert_code_def algebra_simps)
qed

lemma each_GenerateCodes [each]: "each R (GenerateCodes random n typ v)"
proof -
  have "each R (repo_code_CreateBatch cs)" for cs
    unfolding repo_code_CreateBatch_def
    by (intro each each_sql) (auto simp: R_refl no_code_def intro!: R_insert_codes)
  then show ?thesis unfolding GenerateCodes_def Let_def by (intro each)
qed

lemma each_subs [each]:
  "each R (sub_call p)" "each R (active_subscription cfg u g)"
  "plain_entry why \<Longrightarrow> each R (extend_by cfg why i days)" "plain_entry why \<Longrightarrow> each R (revoke_for cfg why i)"
  unfolding sub_call_def active_subscription_def extend_by_def revoke_for_def
  by (intro each_sql R_with_subs R_noting; assumption)+

lemma plain_refund_entries [simp]:
  "plain_entry (RefundDeduct i u x)" "plain_entry (RefundRollback i u x)"
  "plain_entry (SubscriptionDeducted i d)" "plain_entry (SubscriptionRestored i d)"
  "plain_entry (ChangeConcurrency i u d)"
  by (simp_all add: plain_entry_def)

lemma each_prepDeduct [each]: "each R (prepDeduct cfg ord p force)"
  unfolding prepDeduct_def Let_def by (intro each)

lemma each_PrepareRefund [each]: "each R (PrepareRefund cfg dd i amount reason force deduct)"
  unfolding PrepareRefund_def Let_def by (intro each)

lemma each_deductions [each]:
  "each R (deduct_days cfg p)" "each R (deduct_balance_for p)" "each R (RollbackRefund cfg p)"
  unfolding deduct_days_def deduct_balance_for_def RollbackRefund_def Let_def UpdateBalance_def
  by (intro each each_sql R_noting R_change_user; simp)+

lemma each_gwRefund [each]: "each R (gwRefund cfg p)"
  unfolding gwRefund_def Let_def by (intro each)

lemma each_finalDeduction [each]:
  "each R (applyRefundFinalDeduction cfg p)" "each R (latestRefundPendingDetail i)"
  "each R (finalize_plan cfg dd ord detail)"
  unfolding applyRefundFinalDeduction_def latestRefundPendingDetail_def finalize_plan_def Let_def
  by (intro each each_audit_sql; simp add: R_refl)+

end

section \<open>Every operation\<close>

text \<open>The operations requests, webhooks and the periodic jobs run. Batch updates and deletions of
  redeem codes by an administrator are left out here, and so is the end of \<open>CreateOrder\<close>, which writes
  the status without looking at it.\<close>

inductive pay_operation :: "pay_config \<Rightarrow> decimal_ops \<Rightarrow> (pay_store, unit) task \<Rightarrow> bool"
  for cfg :: pay_config and dd :: decimal_ops where
  Notification: "pay_operation cfg dd (finish (HandlePaymentNotification cfg n pk))"
| Retry: "pay_operation cfg dd (finish (RetryFulfillment cfg i))"
| Cancel: "pay_operation cfg dd (finish (CancelOrder cfg i u))"
| AdminCancel: "pay_operation cfg dd (finish (AdminCancelOrder cfg i))"
| Expire: "pay_operation cfg dd (finish (ExpireTimedOutOrders cfg))"
| Verify: "pay_operation cfg dd (finish (VerifyOrderByOutTradeNo cfg raw u))"
| Reconcile: "pay_operation cfg dd (finish (ReconcilePendingWxpayOrders cfg))"
| Create: "pay_operation cfg dd (finish (createOrderInTx oc random ord limit))"
| Request: "pay_operation cfg dd (finish (RequestRefund i u reason))"
| Refund: "pay_operation cfg dd (finish (admin_refund cfg dd i amount reason force deduct))"
| Finalize: "pay_operation cfg dd (finish (QueryAndFinalizeRefund cfg dd i))"
| RedeemCode: "pay_operation cfg dd (finish (Redeem cfg u code))"
| AddCode: "pay_operation cfg dd (finish (CreateCode c))"
| AddCodes: "pay_operation cfg dd (finish (GenerateCodes random k typ v))"

locale pay_effect_all = pay_effect +
  assumes R_any_orders: "same_goods f \<Longrightarrow> R s (s\<lparr>ps_orders := changed_orders tm P f (ps_orders s)\<rparr>)"
    and R_any_audit: "R s (s\<lparr>ps_audit := ps_audit s @ [l]\<rparr>)"
    and R_assigned: "R s (record_entry (SubscriptionAssigned i) s)"
begin

lemma each_any_writeAuditLog [each]: "each R (writeAuditLog i act op d)"
  unfolding writeAuditLog_def
  by (intro each each_audit_sql) (auto simp: insert_audit_def R_refl intro!: R_any_audit)

lemma each_any_update: "same_goods f \<Longrightarrow> each R (update_orders P f)"
  unfolding update_orders_def by (intro each_sql) (simp add: R_any_orders)

lemma each_update_one: "same_goods f \<Longrightarrow> each R (update_one i f)"
  unfolding update_one_def by (intro each_sql) (simp add: R_any_orders R_refl)

lemma each_lock [each]: "each R (lock_order i)"
  unfolding lock_order_def by (intro each_any_update) (simp add: same_goods_def recharging_def)

lemma each_marks [each]: "each R (markCompleted ord act)" "each R (markFailed i e)"
  unfolding markCompleted_def markFailed_def
  by (intro each each_any_update; simp add: same_goods_def completed_def failed_def)+

lemma each_doBalance [each]: "each R (doBalance cfg ord)"
  unfolding doBalance_def finish_balance_def redeem_order_def
  by (intro each)

lemma each_assign_order [each]: "each R (assign_order cfg ord g days)"
proof -
  have "R s (snd (noting (SubscriptionAssigned i) p s))" if "\<And>s. R s (snd (p s))"
    for i s and p :: "(pay_error, pay_store, unit) prog"
    using that unfolding noting_def
    by (auto simp: run split: prod.split sum.split) (metis R_assigned R_trans snd_conv)+
  then show ?thesis unfolding assign_order_def by (intro each_sql) (simp add: R_with_subs)
qed

lemma each_doSub [each]: "each R (doSub cfg ord g days)"
  unfolding doSub_def finish_sub_def already_assigned_def by (intro each)

lemma each_fulfillments [each]:
  "each R (ExecuteBalanceFulfillment cfg i)" "each R (ExecuteSubscriptionFulfillment cfg i)"
  unfolding ExecuteBalanceFulfillment_def ExecuteSubscriptionFulfillment_def check_fulfillable_def
    fulfill_locked_def by (intro each)+

lemma each_executeFulfillment [each]: "each R (executeFulfillment cfg i)"
  unfolding executeFulfillment_def by (intro each)

lemma each_Retry [each]: "each R (RetryFulfillment cfg i)"
  unfolding RetryFulfillment_def by (intro each each_update_orders benign_retry)

lemma each_alreadyProcessed [each]: "each R (alreadyProcessed cfg i)"
  unfolding alreadyProcessed_def by (intro each)

lemma each_confirm_checked [each]: "each R (confirm_checked cfg ord k t x pk md)"
  unfolding confirm_checked_def toPaid_def rejected_def
  by (intro each each_update_orders benign_paid)

lemma each_Notification [each]: "each R (HandlePaymentNotification cfg n pk)"
  unfolding HandlePaymentNotification_def confirmPayment_def by (intro each)

lemma each_paid_upstream [each]: "each R (paid_upstream cfg ord p ref resp)"
  unfolding paid_upstream_def Let_def by (intro each each_update_orders benign_trade_no)

lemma each_checkPaid [each]: "each R (checkPaidWithOptions cfg ord)"
  unfolding checkPaidWithOptions_def Let_def by (intro each)

lemma each_cancelCore: "st = CANCELLED \<or> st = EXPIRED \<Longrightarrow> each R (cancelCore cfg ord st op)"
  unfolding cancelCore_def by (intro each each_update_orders benign_cancel)

lemma each_cancels [each]: "each R (CancelOrder cfg i u)" "each R (AdminCancelOrder cfg i)"
  unfolding CancelOrder_def AdminCancelOrder_def by (intro each each_cancelCore; simp)+

lemma each_expire_loop [each]: "each R (expire_loop cfg rows n)"
  by (induction rows arbitrary: n) (auto intro!: each each_cancelCore)

lemma each_reconcile_loop [each]: "each R (reconcile_loop cfg rows n)"
  by (induction rows arbitrary: n) (auto intro!: each)

lemma each_jobs [each]:
  "each R (ExpireTimedOutOrders cfg)" "each R (ReconcilePendingWxpayOrders cfg)"
  "each R (VerifyOrderByOutTradeNo cfg raw u)"
  unfolding ExpireTimedOutOrders_def ReconcilePendingWxpayOrders_def VerifyOrderByOutTradeNo_def
  by (intro each)+

lemma each_refund_marks [each]:
  "each R (restoreStatus p)" "each R (markRefundOk p)" "each R (markRefundPending cfg p resp)"
  "each R (finalizeRefundFailed ord e)"
  unfolding restoreStatus_def markRefundOk_def markRefundPending_def finalizeRefundFailed_def
  by (intro each each_update_one; simp add: same_goods_def refunded_def refund_pending_def refund_failed_def)+

lemma each_gw_results [each]:
  "each R (handleGwFail cfg p e)" "each R (finishRefund cfg p resp)" "each R (deduct_first cfg p)"
  unfolding handleGwFail_def finishRefund_def deduct_first_def restoring_def
  by (intro each each_update_one; simp add: same_goods_def refund_failed_def)+

lemma each_refunds [each]:
  "each R (ExecuteRefund cfg p)" "each R (QueryAndFinalizeRefund cfg dd i)"
  unfolding ExecuteRefund_def QueryAndFinalizeRefund_def
  by (intro each each_update_orders benign_refunding)+

lemma each_admin_refund [each]: "each R (admin_refund cfg dd i amount reason force deduct)"
  unfolding admin_refund_def by (intro each)

lemma each_pay_operation: "pay_operation cfg dd m \<Longrightarrow> each R m"
  by (erule pay_operation.cases) (auto simp: finish_def intro!: each)

end

end
