(* ===== verification/PaymentInvariants.thy ===== *)
theory PaymentInvariants
  imports PaymentEffects
begin

text \<open>
  What holds however the operations of \<open>pay_operation\<close> interleave, fail and crash. A redeem code gives
  its value at most once. An order that is COMPLETED, or was and is being refunded, has been handed
  over: its code was redeemed, or its subscription was assigned exactly once. An order that was left in
  RECHARGING stays there. The first holds under every failure; the others need the audit table to
  answer and no statement to be executed with its answer lost, and the counterexamples in
  \<open>PaymentProperties\<close> show what goes wrong otherwise.
\<close>

section \<open>A code is credited once\<close>

definition credits :: "int \<Rightarrow> pay_store \<Rightarrow> nat" where
  "credits i s = length (filter (\<lambda>e. case e of CreditCode j _ _ \<Rightarrow> j = i | _ \<Rightarrow> False) (ps_ledger s))"

definition used_id :: "int \<Rightarrow> RedeemCode list \<Rightarrow> bool" where
  "used_id i rows \<longleftrightarrow> (\<exists>r \<in> set rows. rc_ID r = i \<and> rc_Status r = StatusUsed)"

definition credit_inv :: "pay_store \<Rightarrow> bool" where
  "credit_inv s \<longleftrightarrow> distinct (map rc_ID (ps_codes s)) \<and> distinct (map rc_Code (ps_codes s))
     \<and> (\<forall>r \<in> set (ps_codes s). rc_ID r < ps_next_code s)
     \<and> (\<forall>i. credits i s \<le> (if used_id i (ps_codes s) then 1 else 0))"

lemma credit_inv_cong:
  "ps_codes s' = ps_codes s \<Longrightarrow> ps_next_code s' = ps_next_code s \<Longrightarrow> ps_ledger s' = ps_ledger s \<Longrightarrow>
     credit_inv s' = credit_inv s"
  by (simp add: credit_inv_def credits_def)

lemma credits_entry: "credits i (record_entry e s)
    = credits i s + (case e of CreditCode j _ _ \<Rightarrow> if j = i then 1 else 0 | _ \<Rightarrow> 0)"
  by (simp add: credits_def record_entry_def split: ledger_entry.split)

text \<open>What a redemption that commits has done to the codes and to the ledger.\<close>

definition use_row :: "go_time \<Rightarrow> int \<Rightarrow> int \<Rightarrow> RedeemCode \<Rightarrow> RedeemCode" where
  "use_row now u i r = (if rc_ID r = i \<and> rc_Status r = StatusUnused then mark_used now u r else r)"

lemma use_row_fields [simp]: "rc_ID (use_row now u i r) = rc_ID r" "rc_Code (use_row now u i r) = rc_Code r"
  by (simp_all add: use_row_def mark_used_def)

definition same_tables :: "pay_store \<Rightarrow> pay_store \<Rightarrow> bool" where
  "same_tables s s' \<longleftrightarrow> ps_orders s' = ps_orders s \<and> ps_audit s' = ps_audit s \<and> ps_codes s' = ps_codes s
     \<and> ps_next_code s' = ps_next_code s \<and> ps_faults s' = ps_faults s \<and> ps_audit_faults s' = ps_audit_faults s"

lemma change_user_rest: "change_user i f s = (x, s') \<Longrightarrow> same_tables s s' \<and> ps_ledger s' = ps_ledger s"
  by (auto simp: change_user_def same_tables_def split: if_splits)

lemma with_subs_rest: "with_subs p s = (x, s') \<Longrightarrow> same_tables s s' \<and> ps_ledger s' = ps_ledger s"
  by (auto simp: with_subs_def same_tables_def split: prod.splits sum.splits)

lemma noting_result: "noting e p s = (Inr x, s') \<Longrightarrow> \<exists>t. p s = (Inr x, t) \<and> s' = record_entry e t"
  by (auto simp: noting_def run split: prod.splits sum.splits)

text \<open>The entries a redemption writes.\<close>

definition redeem_entries :: "int \<Rightarrow> ledger_entry list \<Rightarrow> bool" where
  "redeem_entries i es \<longleftrightarrow>
     es = [] \<or> (\<exists>u a. es = [CreditCode i u a]) \<or> (\<exists>u d. es = [ChangeConcurrency i u d])"

lemma redeem_effect_result:
  assumes "redeem_effect cfg now user c s = (Inr (), s')"
  shows "same_tables s s' \<and> (\<exists>es. ps_ledger s' = ps_ledger s @ es \<and> redeem_entries (rc_ID c) es)"
proof -
  have noted: "same_tables s s' \<and> ps_ledger s' = ps_ledger s @ [e]"
    if "noting e (change_user i f) s = (Inr (), s')" for e i f
  proof -
    from noting_result [OF that] obtain t where t: "change_user i f s = (Inr (), t)" "s' = record_entry e t" by blast
    from change_user_rest [OF t(1)] t(2) show ?thesis by (auto simp: record_entry_def same_tables_def)
  qed
  from assms show ?thesis
    unfolding redeem_effect_def UpdateBalance_def UpdateConcurrency_def Let_def
    by (auto split: if_splits option.splits simp: throw_def redeem_entries_def dest!: noted with_subs_rest)
qed

lemma redeem_prog_result:
  assumes "redeem_prog cfg user c s = (Inr (), s')"
  shows "(\<exists>r \<in> set (ps_codes s). rc_ID r = rc_ID c \<and> rc_Status r = StatusUnused)
    \<and> same_tables (s\<lparr>ps_codes := map (use_row (ps_clock s) (pu_ID user) (rc_ID c)) (ps_codes s)\<rparr>) s'
    \<and> (\<exists>es. ps_ledger s' = ps_ledger s @ es \<and> redeem_entries (rc_ID c) es)"
proof -
  let ?t = "s\<lparr>ps_codes := map (use_row (ps_clock s) (pu_ID user) (rc_ID c)) (ps_codes s)\<rparr>"
  from assms have ex: "list_ex (\<lambda>r. rc_ID r = rc_ID c \<and> rc_Status r = StatusUnused) (ps_codes s)"
    and eff: "redeem_effect cfg (ps_clock s) user c ?t = (Inr (), s')"
    by (auto simp: redeem_prog_def run repo_code_Use_def use_row_def [abs_def] split: if_splits)
  from redeem_effect_result [OF eff] ex show ?thesis by (simp add: list_ex_iff)
qed

lemma used_id_use_row: "used_id j (map (use_row now u i) rows) \<longleftrightarrow> used_id j rows
    \<or> (j = i \<and> (\<exists>r \<in> set rows. rc_ID r = i \<and> rc_Status r = StatusUnused))"
  by (induction rows) (auto simp: used_id_def use_row_def mark_used_def)

lemma unused_not_used:
  assumes "distinct (map rc_ID rows)" and "r \<in> set rows" "rc_ID r = i" "rc_Status r = StatusUnused"
  shows "\<not> used_id i rows"
  using assms eq_key_imp_eq_value [of "map (\<lambda>r. (rc_ID r, r)) rows"]
  by (force simp: used_id_def distinct_map inj_on_def)

lemma redeem_keeps_credit:
  assumes "redeem_prog cfg user c s = (Inr (), s')" and "credit_inv s"
  shows "credit_inv s'"
proof -
  note res = redeem_prog_result [OF assms(1)]
  have codes: "ps_codes s' = map (use_row (ps_clock s) (pu_ID user) (rc_ID c)) (ps_codes s)"
    and nxt: "ps_next_code s' = ps_next_code s" using res by (simp_all add: same_tables_def)
  from assms(2) have dist: "distinct (map rc_ID (ps_codes s))" and cr: "credits i s \<le> (if used_id i (ps_codes s) then 1 else 0)" for i
    by (simp_all add: credit_inv_def)
  from res dist have unused: "\<not> used_id (rc_ID c) (ps_codes s)" using unused_not_used by blast
  have led: "credits i s' \<le> credits i s + (if i = rc_ID c then 1 else 0)" for i
    using res by (auto simp: credits_def redeem_entries_def)
  have "credits i s' \<le> (if used_id i (ps_codes s') then 1 else 0)" for i
    using led [of i] cr [of i] unused res by (auto simp: codes used_id_use_row split: if_splits)
  with assms(2) nxt show ?thesis by (simp add: credit_inv_def codes comp_def)
qed

lemma insert_keeps_credit:
  fixes c :: RedeemCode
  assumes "no_code (rc_Code c) s" and "credit_inv s"
  shows "credit_inv (insert_code c s)"
proof -
  from assms(1) have new: "rc_Code c \<notin> rc_Code ` set (ps_codes s)"
    by (auto simp: no_code_def code_by_def find_None_iff)
  from assms(2) have lt: "\<And>r. r \<in> set (ps_codes s) \<Longrightarrow> rc_ID r < ps_next_code s" by (simp add: credit_inv_def)
  then have "ps_next_code s \<notin> rc_ID ` set (ps_codes s)" by fastforce
  moreover have "\<forall>r \<in> set (ps_codes s). rc_ID r < ps_next_code s + 1" using lt by fastforce
  moreover have "used_id i (ps_codes s) \<Longrightarrow> used_id i (ps_codes s @ [d])" for i d by (auto simp: used_id_def)
  ultimately show ?thesis using assms(2) new
    by (auto simp: credit_inv_def insert_code_def credits_def split: if_splits) (metis le_zero_eq)+
qed

interpretation credit: pay_effect_all "keeping credit_inv"
proof unfold_locales
  fix cfg user c s s' and x :: unit
  assume "redeem_prog cfg user c s = (Inr x, s')"
  then show "keeping credit_inv s s'" using redeem_keeps_credit by (auto intro: keepingI)
next
  fix c :: RedeemCode and s assume "no_code (rc_Code c) s"
  then show "keeping credit_inv s (insert_code c s)" using insert_keeps_credit by (auto intro: keepingI)
next
  fix ord s row s' assume "insert_order ord s = (Inr row, s')"
  then show "keeping credit_inv s s'"
    by (auto simp: insert_order_def Let_def keeping_def credit_inv_def credits_def split: if_splits)
qed (auto simp: keeping_def credit_inv_def credits_def record_entry_def plain_entry_def split: ledger_entry.splits)

text \<open>The outside world: users, subscriptions and instances change, time passes, Redis keys expire,
  answers arrive, and failures of the given kinds happen. Orders, codes and audit logs are only
  changed by the operations.\<close>

definition outside :: "fault set \<Rightarrow> fault set \<Rightarrow> pay_store \<Rightarrow> pay_store \<Rightarrow> bool" where
  "outside F A s s' \<longleftrightarrow> ps_orders s' = ps_orders s \<and> ps_audit s' = ps_audit s \<and> ps_codes s' = ps_codes s
     \<and> ps_next_code s' = ps_next_code s \<and> ps_ledger s' = ps_ledger s \<and> ps_clock s \<le> ps_clock s'
     \<and> set (ps_faults s') \<subseteq> F \<and> set (ps_audit_faults s') \<subseteq> A"

definition before_redeeming :: "pay_store \<Rightarrow> bool" where
  "before_redeeming s \<longleftrightarrow> ps_ledger s = [] \<and> distinct (map rc_ID (ps_codes s))
     \<and> distinct (map rc_Code (ps_codes s)) \<and> (\<forall>r \<in> set (ps_codes s). rc_ID r < ps_next_code s)"


end
