(* ===== verification/PaymentOwnership.thy ===== *)
theory PaymentOwnership
  imports TaskOwnership PaymentInvariants
begin

text \<open>
  The status RECHARGING as a lock. A fulfilment takes an order from PAID or FAILED to RECHARGING,
  works, and leaves to COMPLETED or FAILED; nobody else moves an order in RECHARGING. The modes say
  how far a task has come with the order it holds; the invariant says what is true of orders nobody
  holds. \<open>F\<close> is a set of orders in RECHARGING that no running task holds, left behind by a crash or by
  a failed statement: they stay as they are.
\<close>

section \<open>What the store says of an order\<close>

datatype goods = Goods (goods_type: string) (goods_code: string)

definition status_of :: "int \<Rightarrow> pay_store \<Rightarrow> order_status option" where
  "status_of i s = map_option po_Status (order_by_id i s)"

definition goods_of :: "int \<Rightarrow> pay_store \<Rightarrow> goods option" where
  "goods_of i s = map_option (\<lambda>r. Goods (po_OrderType r) (po_RechargeCode r)) (order_by_id i s)"

definition assignments :: "int \<Rightarrow> pay_store \<Rightarrow> nat" where
  "assignments i s = length (filter (\<lambda>e. e = SubscriptionAssigned i) (ps_ledger s))"

definition logged :: "int \<Rightarrow> pay_store \<Rightarrow> bool" where
  "logged i s \<longleftrightarrow> has_entry i A_SUBSCRIPTION_ASSIGNED (ps_audit s)"

definition success_logged :: "int \<Rightarrow> pay_store \<Rightarrow> bool" where
  "success_logged i s \<longleftrightarrow> has_entry i A_SUBSCRIPTION_SUCCESS (ps_audit s)"

definition code_used :: "string \<Rightarrow> pay_store \<Rightarrow> bool" where
  "code_used c s \<longleftrightarrow> (\<exists>r \<in> set (ps_codes s). rc_Code r = c \<and> rc_Status r = StatusUsed)"

definition code_row :: "int \<Rightarrow> string \<Rightarrow> pay_store \<Rightarrow> bool" where
  "code_row j c s \<longleftrightarrow> (\<exists>r \<in> set (ps_codes s). rc_ID r = j \<and> rc_Code r = c)"

definition handed :: "int \<Rightarrow> goods \<Rightarrow> pay_store \<Rightarrow> bool" where
  "handed i g s \<longleftrightarrow>
     (if goods_type g = OrderTypeSubscription then assignments i s = 1 else code_used (goods_code g) s)"

definition handed_over :: "int \<Rightarrow> pay_store \<Rightarrow> bool" where
  "handed_over i s \<longleftrightarrow> (case goods_of i s of None \<Rightarrow> False | Some g \<Rightarrow> handed i g s)"

definition order_ids :: "pay_store \<Rightarrow> int list" where
  "order_ids s = map po_ID (ps_orders s)"

lemma goods_status: "goods_of i s = None \<longleftrightarrow> status_of i s = None"
  by (simp add: goods_of_def status_of_def)

section \<open>Statements that leave every lock alone\<close>

definition status_step :: "order_status option \<Rightarrow> order_status option \<Rightarrow> bool" where
  "status_step a b \<longleftrightarrow> (case (a, b) of
     (Some st, Some st') \<Rightarrow> benign_status st st' | (None, Some st') \<Rightarrow> st' \<noteq> RECHARGING \<and> \<not> settled st'
   | (None, None) \<Rightarrow> True | (Some _, None) \<Rightarrow> False)"

definition benign_step :: "pay_store \<Rightarrow> pay_store \<Rightarrow> bool" where
  "benign_step s s' \<longleftrightarrow> keeping credit_inv s s'
     \<and> (distinct (order_ids s) \<longrightarrow> distinct (order_ids s'))
     \<and> (\<forall>i. status_step (status_of i s) (status_of i s'))
     \<and> (\<forall>i g. goods_of i s = Some g \<longrightarrow> goods_of i s' = Some g)
     \<and> (\<forall>i. assignments i s' = assignments i s)
     \<and> (\<forall>i. logged i s' = logged i s) \<and> (\<forall>i. success_logged i s' = success_logged i s)
     \<and> (\<forall>c. code_used c s \<longrightarrow> code_used c s') \<and> (\<forall>j c. code_row j c s \<longrightarrow> code_row j c s')
     \<and> set (ps_faults s') \<subseteq> set (ps_faults s) \<and> set (ps_audit_faults s') \<subseteq> set (ps_audit_faults s)"

lemmas seen_defs = status_of_def goods_of_def assignments_def logged_def success_logged_def
  code_used_def code_row_def order_ids_def order_by_id_def

lemma status_step_refl [simp]: "status_step a a"
  by (cases a) (simp_all add: status_step_def benign_status_def)

lemma status_step_trans: "status_step a b \<Longrightarrow> status_step b c \<Longrightarrow> status_step a c"
  by (cases a; cases b; cases c) (auto simp: status_step_def benign_status_def settled_def psIsRefundStatus_def)

lemma find_map: "(\<And>r. p (h r) = p r) \<Longrightarrow> List.find p (map h rows) = map_option h (List.find p rows)"
  by (induction rows) auto

lemma order_changed:
  assumes "same_goods f"
  shows "order_by_id i (s\<lparr>ps_orders := changed_orders t P f (ps_orders s)\<rparr>)
    = map_option (\<lambda>r. if P r then (f r)\<lparr>po_UpdatedAt := t\<rparr> else r) (order_by_id i s)"
  using assms unfolding order_by_id_def changed_orders_def
  by (simp, intro find_map) (simp add: same_goods_def)

lemma ids_changed: "same_goods f \<Longrightarrow> map po_ID (changed_orders t P f rows) = map po_ID rows"
  by (simp add: changed_orders_def same_goods_def)

lemma goods_changed:
  "same_goods f \<Longrightarrow> goods_of i (s\<lparr>ps_orders := changed_orders t P f (ps_orders s)\<rparr>) = goods_of i s"
  by (cases "order_by_id i s") (auto simp: goods_of_def order_changed same_goods_def)

lemma status_changed:
  "same_goods f \<Longrightarrow> status_of i (s\<lparr>ps_orders := changed_orders t P f (ps_orders s)\<rparr>)
     = map_option (\<lambda>r. po_Status (if P r then f r else r)) (order_by_id i s)"
  by (cases "order_by_id i s") (auto simp: status_of_def order_changed)

lemma used_use_row:
  "r \<in> set rows \<Longrightarrow> rc_Status r = StatusUsed \<Longrightarrow> r \<in> set (map (use_row now u i) rows)"
  by (force simp: use_row_def)

lemma max_ids:
  fixes rows :: "PaymentOrder list"
  shows "m \<le> fold (\<lambda>r m. max m (po_ID r)) rows m"
    and "r \<in> set rows \<Longrightarrow> po_ID r \<le> fold (\<lambda>r m. max m (po_ID r)) rows m"
proof (induction rows arbitrary: m)
  case Nil
  case 1 show ?case by simp
  case 2 then show ?case by simp
next
  case (Cons a rows)
  case 1 show ?case using Cons.IH(1) [of "max m (po_ID a)"] by simp
  case 2 then show ?case using Cons.IH(1) [of "max m (po_ID a)"] Cons.IH(2) [of "max m (po_ID a)"] by auto
qed

lemma ids_below_next: "i \<in> set (order_ids s) \<Longrightarrow> i < next_order_id s"
  using max_ids(2) [of _ "ps_orders s" 0] by (fastforce simp: order_ids_def next_order_id_def)

lemma insert_order_result:
  assumes "insert_order ord s = (Inr row, s')"
  shows "s' = s\<lparr>ps_orders := ps_orders s @ [row]\<rparr> \<and> po_ID row = next_order_id s \<and> po_Status row = po_Status ord"
  using assms by (auto simp: insert_order_def Let_def split: if_splits)

lemma benign_stepI:
  assumes "keeping credit_inv s s'" and "distinct (order_ids s) \<Longrightarrow> distinct (order_ids s')"
    and "\<And>i. status_step (status_of i s) (status_of i s')"
    and "\<And>i g. goods_of i s = Some g \<Longrightarrow> goods_of i s' = Some g"
    and "\<And>i. assignments i s' = assignments i s" and "\<And>i. logged i s' = logged i s"
    and "\<And>i. success_logged i s' = success_logged i s"
    and "\<And>c. code_used c s \<Longrightarrow> code_used c s'" and "\<And>j c. code_row j c s \<Longrightarrow> code_row j c s'"
    and "set (ps_faults s') \<subseteq> set (ps_faults s)" and "set (ps_audit_faults s') \<subseteq> set (ps_audit_faults s)"
  shows "benign_step s s'"
  using assms unfolding benign_step_def by simp

lemma benign_fields:
  "ps_codes s' = ps_codes s \<Longrightarrow> ps_next_code s' = ps_next_code s \<Longrightarrow> ps_ledger s' = ps_ledger s \<Longrightarrow>
   ps_orders s' = ps_orders s \<Longrightarrow> ps_audit s' = ps_audit s \<Longrightarrow> set (ps_faults s') \<subseteq> set (ps_faults s) \<Longrightarrow>
   set (ps_audit_faults s') \<subseteq> set (ps_audit_faults s) \<Longrightarrow> benign_step s s'"
proof (rule benign_stepI)
  assume *: "ps_codes s' = ps_codes s" "ps_next_code s' = ps_next_code s" "ps_ledger s' = ps_ledger s"
    "ps_orders s' = ps_orders s" "ps_audit s' = ps_audit s"
  then show "keeping credit_inv s s'" by (simp add: keeping_def credit_inv_cong [of s' s])
  show "status_step (status_of i s) (status_of i s')" for i
    using * by (simp add: status_of_def order_by_id_def)
  show "goods_of i s = Some g \<Longrightarrow> goods_of i s' = Some g" for i g
    using * by (simp add: goods_of_def order_by_id_def)
qed (simp_all add: order_ids_def assignments_def logged_def success_logged_def code_used_def code_row_def)

lemma benign_stepD:
  assumes "benign_step s s'"
  shows "credit_inv s \<Longrightarrow> credit_inv s'" and "distinct (order_ids s) \<Longrightarrow> distinct (order_ids s')"
    and "status_step (status_of i s) (status_of i s')"
    and "goods_of i s = Some g \<Longrightarrow> goods_of i s' = Some g"
    and "assignments i s' = assignments i s" and "logged i s' = logged i s"
    and "success_logged i s' = success_logged i s"
    and "code_used c s \<Longrightarrow> code_used c s'" and "code_row j c s \<Longrightarrow> code_row j c s'"
    and "set (ps_faults s') \<subseteq> set (ps_faults s)" and "set (ps_audit_faults s') \<subseteq> set (ps_audit_faults s)"
  using assms unfolding benign_step_def keeping_def by blast+

lemma benign_trans:
  assumes "benign_step s t" and "benign_step t u"
  shows "benign_step s u"
proof (rule benign_stepI)
  show "keeping credit_inv s u" using assms [THEN benign_stepD(1)] by (auto simp: keeping_def)
  show "status_step (status_of i s) (status_of i u)" for i
    by (rule status_step_trans [OF assms [THEN benign_stepD(3)]])
  show "goods_of i s = Some g \<Longrightarrow> goods_of i u = Some g" for i g
    using assms [THEN benign_stepD(4)] by blast
  show "set (ps_faults u) \<subseteq> set (ps_faults s)" "set (ps_audit_faults u) \<subseteq> set (ps_audit_faults s)"
    using assms [THEN benign_stepD(10)] assms [THEN benign_stepD(11)] by blast+
qed (use assms in \<open>simp_all add: benign_stepD(2,5-9)\<close>)

lemma benign_audit:
  "plain_action (al_Action l) \<Longrightarrow> benign_step s (s\<lparr>ps_audit := ps_audit s @ [l]\<rparr>)"
  by (intro benign_stepI credit.R_audit)
    (auto simp: seen_defs has_entry_def plain_action_def)

lemma benign_entry: "plain_entry e \<Longrightarrow> benign_step s (record_entry e s)"
  by (intro benign_stepI credit.R_entry) (auto simp: seen_defs record_entry_def plain_entry_def)

lemma benign_code: "no_code (rc_Code c) s \<Longrightarrow> benign_step s (insert_code c s)"
  by (intro benign_stepI credit.R_code) (auto simp: seen_defs insert_code_def)

lemma benign_redeem:
  assumes "redeem_prog cfg user c s = (Inr (), s')"
  shows "benign_step s s'"
proof -
  note res = redeem_prog_result [OF assms]
  have codes: "ps_codes s' = map (use_row (ps_clock s) (pu_ID user) (rc_ID c)) (ps_codes s)"
    and same: "ps_orders s' = ps_orders s" "ps_audit s' = ps_audit s" "ps_faults s' = ps_faults s"
      "ps_audit_faults s' = ps_audit_faults s"
    using res by (simp_all add: same_tables_def)
  have "assignments i s' = assignments i s" for i
    using res by (auto simp: assignments_def redeem_entries_def)
  moreover have "code_used d s \<Longrightarrow> code_used d s'" for d
    using used_use_row unfolding code_used_def codes by blast
  moreover have "code_row j d s \<Longrightarrow> code_row j d s'" for j d
    by (force simp: code_row_def codes)
  ultimately show ?thesis
    by (intro benign_stepI credit.R_redeem [OF assms])
      (simp_all add: same order_ids_def status_of_def goods_of_def order_by_id_def logged_def success_logged_def)
qed

lemma benign_orders:
  assumes "benign_change P f"
  shows "benign_step s (s\<lparr>ps_orders := changed_orders tm P f (ps_orders s)\<rparr>)" (is "benign_step s ?s'")
proof -
  have sg: "same_goods f" using assms by (simp add: benign_change_def)
  have "status_step (status_of i s) (status_of i ?s')" for i
  proof -
    have new: "status_of i ?s' = map_option (\<lambda>r. po_Status (if P r then f r else r)) (order_by_id i s)"
      by (rule status_changed [OF sg])
    have old: "status_of i s = map_option po_Status (order_by_id i s)" by (simp add: status_of_def)
    show ?thesis
      using assms by (cases "order_by_id i s") (auto simp: old new status_step_def benign_change_def benign_status_def)
  qed
  then show ?thesis
    by (intro benign_stepI credit.R_any_orders [OF sg])
      (simp_all add: goods_changed [OF sg] ids_changed [OF sg] order_ids_def assignments_def logged_def
        success_logged_def code_used_def code_row_def)
qed

lemma find_app: "List.find p (xs @ ys) = (case List.find p xs of Some x \<Rightarrow> Some x | None \<Rightarrow> List.find p ys)"
  by (induction xs) auto

lemma benign_new_order:
  assumes "po_Status ord = PENDING" and "insert_order ord s = (Inr row, s')"
  shows "benign_step s s'"
proof -
  from insert_order_result [OF assms(2)] assms(1)
  have s': "s' = s\<lparr>ps_orders := ps_orders s @ [row]\<rparr>"
    and row: "po_ID row = next_order_id s" "po_Status row = PENDING" by simp_all
  have found: "order_by_id i s' = (case order_by_id i s of Some r \<Rightarrow> Some r
      | None \<Rightarrow> if po_ID row = i then Some row else None)" for i
    by (simp add: s' order_by_id_def find_app split: option.split)
  have "status_step (status_of i s) (status_of i s')" for i
    using row by (cases "order_by_id i s") (simp_all add: found status_of_def status_step_def benign_status_def
      settled_def psIsRefundStatus_def)
  moreover have "goods_of i s = Some g \<Longrightarrow> goods_of i s' = Some g" for i g
    by (cases "order_by_id i s") (simp_all add: found goods_of_def)
  moreover have "distinct (order_ids s) \<Longrightarrow> distinct (order_ids s')"
    using ids_below_next [of "po_ID row" s] row by (auto simp: s' order_ids_def)
  ultimately show ?thesis
    by (intro benign_stepI credit.R_new_order [OF assms])
      (simp_all add: s' assignments_def logged_def success_logged_def code_used_def code_row_def)
qed

interpretation benign: pay_effect benign_step
proof unfold_locales
  fix s t u assume "benign_step s t" "benign_step t u"
  then show "benign_step s u" by (rule benign_trans)
next
  fix cfg user c s s' and x :: unit
  assume "redeem_prog cfg user c s = (Inr x, s')"
  then show "benign_step s s'" using benign_redeem by simp
qed (blast intro: benign_audit benign_entry benign_code benign_orders benign_new_order
    | (rule benign_fields; simp add: subset_insertI))+

section \<open>Modes\<close>

text \<open>How far a task has come: with an order it has read, with one that is settled, or with one it has
  locked. While it holds the lock it knows more and more: which code of the table is the order's, that
  no subscription was assigned, that one was, that the goods are handed over and logged.\<close>

datatype stage = Locked | Choosing int | Unassigned | Extended | Ready

datatype mode = Idle | Seen int goods | Closed int goods | Holding int goods stage

definition safe_log :: "int \<Rightarrow> pay_store \<Rightarrow> bool" where
  "safe_log i s \<longleftrightarrow> (assignments i s = 1 \<longrightarrow> logged i s)"

fun stage_knows :: "int \<Rightarrow> goods \<Rightarrow> stage \<Rightarrow> pay_store \<Rightarrow> bool" where
  "stage_knows i g Locked s \<longleftrightarrow> safe_log i s"
| "stage_knows i g (Choosing j) s \<longleftrightarrow> safe_log i s \<and> code_row j (goods_code g) s"
| "stage_knows i g Unassigned s \<longleftrightarrow> assignments i s = 0"
| "stage_knows i g Extended s \<longleftrightarrow> assignments i s = 1"
| "stage_knows i g Ready s \<longleftrightarrow> handed i g s \<and> safe_log i s"

definition is_settled :: "int \<Rightarrow> pay_store \<Rightarrow> bool" where
  "is_settled i s \<longleftrightarrow> (\<exists>st. status_of i s = Some st \<and> settled st)"

fun pay_knows :: "int set \<Rightarrow> mode \<Rightarrow> pay_store \<Rightarrow> bool" where
  "pay_knows F Idle s \<longleftrightarrow> True"
| "pay_knows F (Seen i g) s \<longleftrightarrow> goods_of i s = Some g"
| "pay_knows F (Closed i g) s \<longleftrightarrow> goods_of i s = Some g \<and> is_settled i s"
| "pay_knows F (Holding i g k) s \<longleftrightarrow>
     i \<notin> F \<and> status_of i s = Some RECHARGING \<and> goods_of i s = Some g \<and> stage_knows i g k s"

fun held :: "mode \<Rightarrow> int option" where
  "held (Holding i g k) = Some i"
| "held _ = None"

definition pay_apart :: "mode \<Rightarrow> mode \<Rightarrow> bool" where
  "pay_apart m n \<longleftrightarrow> held m = None \<or> held m \<noteq> held n"

text \<open>The invariant of the store. The audit table answers, and no statement is executed with its answer
  lost.\<close>

definition own_inv :: "int set \<Rightarrow> pay_store \<Rightarrow> bool" where
  "own_inv F s \<longleftrightarrow> credit_inv s \<and> distinct (order_ids s)
     \<and> (\<forall>i. assignments i s \<le> 1)
     \<and> (\<forall>i. status_of i s = Some RECHARGING \<or> safe_log i s)
     \<and> (\<forall>i. logged i s \<or> success_logged i s \<longrightarrow> assignments i s = 1)
     \<and> (\<forall>i g. is_settled i s \<longrightarrow> goods_of i s = Some g \<longrightarrow> handed i g s)
     \<and> (\<forall>i \<in> F. status_of i s = Some RECHARGING)
     \<and> set (ps_faults s) \<subseteq> {Served, Rejected} \<and> ps_audit_faults s = []"

lemma own_invD:
  assumes "own_inv F s"
  shows "credit_inv s" and "distinct (order_ids s)" and "assignments i s \<le> 1"
    and "status_of i s = Some RECHARGING \<or> safe_log i s"
    and "logged i s \<or> success_logged i s \<Longrightarrow> assignments i s = 1"
    and "is_settled i s \<Longrightarrow> goods_of i s = Some g \<Longrightarrow> handed i g s"
    and "i \<in> F \<Longrightarrow> status_of i s = Some RECHARGING"
    and "set (ps_faults s) \<subseteq> {Served, Rejected}" and "ps_audit_faults s = []"
  using assms unfolding own_inv_def by blast+

text \<open>What no step ever undoes, and what a step leaves alone at an order its task does not hold.\<close>

definition grows :: "pay_store \<Rightarrow> pay_store \<Rightarrow> bool" where
  "grows s s' \<longleftrightarrow> (\<forall>i g. goods_of i s = Some g \<longrightarrow> goods_of i s' = Some g)
     \<and> (\<forall>i. is_settled i s \<longrightarrow> is_settled i s') \<and> (\<forall>i. logged i s \<longrightarrow> logged i s')
     \<and> (\<forall>c. code_used c s \<longrightarrow> code_used c s') \<and> (\<forall>j c. code_row j c s \<longrightarrow> code_row j c s')"

definition untouched :: "int \<Rightarrow> pay_store \<Rightarrow> pay_store \<Rightarrow> bool" where
  "untouched i s s' \<longleftrightarrow> assignments i s' = assignments i s
     \<and> (status_of i s = Some RECHARGING \<longrightarrow> status_of i s' = Some RECHARGING)"

definition pay_moves :: "int set \<Rightarrow> mode \<Rightarrow> pay_store \<Rightarrow> mode \<Rightarrow> pay_store \<Rightarrow> bool" where
  "pay_moves F m s m' s' \<longleftrightarrow> own_inv F s' \<and> pay_knows F m' s' \<and> grows s s'
     \<and> (\<forall>i. held m \<noteq> Some i \<longrightarrow> untouched i s s')
     \<and> (held m' = None \<or> held m' = held m \<or> (\<forall>i. held m' = Some i \<longrightarrow> status_of i s \<noteq> Some RECHARGING))"

definition pay_world :: "pay_store \<Rightarrow> pay_store \<Rightarrow> bool" where
  "pay_world = outside {Served, Rejected} {}"

lemma stage_stable:
  assumes "grows s s'" and "untouched i s s'" and "stage_knows i g k s"
  shows "stage_knows i g k s'"
  using assms by (cases k) (auto simp: grows_def untouched_def safe_log_def handed_def split: if_splits)

lemma knows_stable:
  assumes "grows s s'" and "\<And>i. held n = Some i \<Longrightarrow> untouched i s s'" and "pay_knows F n s"
  shows "pay_knows F n s'"
proof (cases n)
  case (Holding i g k)
  with assms(2) have "untouched i s s'" by simp
  moreover have "goods_of i s' = Some g" using assms(1,3) Holding by (simp add: grows_def)
  ultimately show ?thesis using assms(1,3) Holding stage_stable [of s s' i g k]
    by (simp add: untouched_def)
qed (use assms(1,3) in \<open>auto simp: grows_def\<close>)

lemma pay_move_other:
  assumes "pay_knows F n s" and "pay_apart m n" and "pay_moves F m s m' s'"
  shows "pay_knows F n s' \<and> pay_apart m' n"
proof
  have "untouched i s s'" if "held n = Some i" for i
  proof -
    have "held m \<noteq> Some i" using assms(2) that by (auto simp: pay_apart_def)
    with assms(3) show ?thesis unfolding pay_moves_def by blast
  qed
  moreover have "grows s s'" using assms(3) by (simp add: pay_moves_def)
  ultimately show "pay_knows F n s'" using assms(1) knows_stable by blast
  show "pay_apart m' n"
  proof (cases "held m' = None \<or> held m' = held m")
    case True
    with assms(2) show ?thesis by (auto simp: pay_apart_def)
  next
    case False
    with assms(3) obtain i where "held m' = Some i" "status_of i s \<noteq> Some RECHARGING"
      by (auto simp: pay_moves_def)
    with assms(1) show ?thesis by (cases n) (auto simp: pay_apart_def)
  qed
qed

lemma world_seen:
  assumes "outside A B s s'"
  shows "status_of i s' = status_of i s" and "goods_of i s' = goods_of i s"
    and "assignments i s' = assignments i s" and "logged i s' = logged i s"
    and "success_logged i s' = success_logged i s" and "code_used c s' = code_used c s"
    and "code_row j c s' = code_row j c s" and "order_ids s' = order_ids s" and "credit_inv s' = credit_inv s"
    and "is_settled i s' = is_settled i s"
  using assms credit_inv_cong [of s' s]
  by (simp_all add: outside_def status_of_def goods_of_def order_by_id_def assignments_def logged_def
      success_logged_def code_used_def code_row_def order_ids_def is_settled_def)

lemma world_grows: "outside A B s s' \<Longrightarrow> grows s s' \<and> untouched i s s'"
  by (simp add: grows_def untouched_def world_seen)

lemma world_own_inv:
  assumes "pay_world s s'" and "own_inv F s"
  shows "own_inv F s'"
proof -
  have *: "outside {Served, Rejected} {} s s'" using assms(1) by (simp add: pay_world_def)
  then have "set (ps_faults s') \<subseteq> {Served, Rejected}" "ps_audit_faults s' = []" by (simp_all add: outside_def)
  with assms(2) show ?thesis unfolding own_inv_def safe_log_def handed_def world_seen [OF *] by simp
qed

interpretation lock: ownership "own_inv F" "pay_knows F" Idle pay_apart "pay_moves F" pay_world for F
proof unfold_locales
  fix s m m' s' assume "pay_moves F m s m' s'"
  then show "own_inv F s' \<and> pay_knows F m' s'" by (simp add: pay_moves_def)
next
  fix s m n m' s' assume "pay_knows F n s" "pay_apart m n" "pay_moves F m s m' s'"
  then show "pay_knows F n s' \<and> pay_apart m' n" by (rule pay_move_other)
next
  fix s s' assume "own_inv F s" "pay_world s s'"
  then show "own_inv F s'" by (rule world_own_inv [rotated])
next
  fix s n s' assume "pay_knows F n s" "pay_world s s'"
  then show "pay_knows F n s'" using world_grows knows_stable unfolding pay_world_def by blast
qed (auto simp: pay_apart_def)

section \<open>Steps\<close>

lemma settled_step:
  "status_step a b \<Longrightarrow> a = Some st \<Longrightarrow> settled st \<Longrightarrow> \<exists>st'. b = Some st' \<and> settled st'"
  by (cases b) (auto simp: status_step_def benign_status_def)

lemma benign_settled: "benign_step s s' \<Longrightarrow> is_settled i s \<Longrightarrow> is_settled i s'"
  unfolding is_settled_def using settled_step [OF benign_stepD(3)] by blast

lemma benign_recharging:
  assumes "benign_step s s'" shows "status_of i s' = Some RECHARGING \<longleftrightarrow> status_of i s = Some RECHARGING"
  using benign_stepD(3) [OF assms, of i]
  by (cases "status_of i s"; cases "status_of i s'") (auto simp: status_step_def benign_status_def)

lemma benign_grows: "benign_step s s' \<Longrightarrow> grows s s'"
  unfolding grows_def using benign_settled benign_stepD(4,6,8,9) by blast

lemma benign_untouched: "benign_step s s' \<Longrightarrow> untouched i s s'"
  by (simp add: untouched_def benign_stepD(5) benign_recharging)

lemma settled_before:
  assumes "benign_step s s'" and "is_settled i s'" and "goods_of i s' = Some g"
  shows "is_settled i s \<and> goods_of i s = Some g"
proof -
  from assms(2) obtain st' where st': "status_of i s' = Some st'" "settled st'" by (auto simp: is_settled_def)
  with benign_stepD(3) [OF assms(1), of i] obtain st where st: "status_of i s = Some st" "settled st"
    by (cases "status_of i s") (auto simp: status_step_def benign_status_def)
  then obtain g0 where "goods_of i s = Some g0" using goods_status [of i s] by auto
  with benign_stepD(4) [OF assms(1)] assms(3) st show ?thesis by (fastforce simp: is_settled_def)
qed

lemma benign_own_inv:
  assumes b: "benign_step s s'" and inv: "own_inv F s"
  shows "own_inv F s'"
proof -
  note D = own_invD [OF inv] and B = benign_stepD [OF b]
  have "handed i g s'" if "is_settled i s'" "goods_of i s' = Some g" for i g
  proof -
    from settled_before [OF b that] D(6) have "handed i g s" by blast
    then show ?thesis using B(5,8) by (simp add: handed_def split: if_splits)
  qed
  moreover have "status_of i s' = Some RECHARGING \<or> safe_log i s'" for i
    using D(4) [of i] by (simp add: safe_log_def B(5,6) benign_recharging [OF b])
  ultimately show ?thesis unfolding own_inv_def
    using D B by (simp add: benign_recharging [OF b])
qed

lemma benign_move:
  assumes "benign_step s s'" and "own_inv F s" and "pay_knows F m s"
  shows "pay_moves F m s m s'"
  unfolding pay_moves_def
  using benign_own_inv [OF assms(1,2)] benign_grows [OF assms(1)] benign_untouched [OF assms(1)]
    knows_stable [OF _ _ assms(3)] by simp

lemma idle_move: "pay_moves F Idle s m' s' \<Longrightarrow> pay_moves F m s m' s'"
  unfolding pay_moves_def by auto

lemma grows_trans: "grows s t \<Longrightarrow> grows t u \<Longrightarrow> grows s u"
  unfolding grows_def by blast

lemma untouched_trans: "untouched i s t \<Longrightarrow> untouched i t u \<Longrightarrow> untouched i s u"
  by (simp add: untouched_def)

lemma benign_then_move:
  assumes "benign_step s t" and "pay_moves F m t m' u"
  shows "pay_moves F m s m' u"
  using assms(2) grows_trans [OF benign_grows [OF assms(1)], of u]
    untouched_trans [OF benign_untouched [OF assms(1)], of _ u]
  unfolding pay_moves_def benign_recharging [OF assms(1)] by blast

text \<open>Tasks that only take benign steps.\<close>

lemma safe_benign:
  assumes "each benign_step t" and "results P t"
  shows "lock.safe F t (\<lambda>a n. n = m \<and> P a) m"
  using assms by (rule lock.safe_each) (rule benign_move)

lemma idle_free: "lock.safe F t (\<lambda>_ _. True) Idle \<Longrightarrow> lock.free F t"
  by (rule lock.free_from_idle) (auto intro: idle_move)

lemma free_benign: "each benign_step t \<Longrightarrow> lock.free F t"
  unfolding lock.free_def using lock.safe_mono [OF safe_benign [OF _ results_any]] by (metis (mono_tags))

text \<open>A statement of the database: a fault rejects it, or it runs. What it may do is said for the store
  it runs on.\<close>

lemma safe_sql:
  assumes run: "\<And>s. own_inv F s \<Longrightarrow> pay_knows F m s \<Longrightarrow> \<exists>m'. pay_moves F m s m' (snd (f s)) \<and> Q (fst (f s)) m'"
    and rejected: "Q (Inl StoreError) m"
  shows "lock.safe F (sql f) Q m"
  unfolding sql_def
proof (rule lock.safe_statement)
  fix s assume inv: "own_inv F s" and kn: "pay_knows F m s"
  let ?put = "\<lambda>fs. s\<lparr>ps_faults := fs\<rparr>"
  show "\<exists>m'. pay_moves F m s m' (snd (under_fault ps_faults (\<lambda>fs s. s\<lparr>ps_faults := fs\<rparr>) f s))
      \<and> Q (fst (under_fault ps_faults (\<lambda>fs s. s\<lparr>ps_faults := fs\<rparr>) f s)) m'"
  proof (cases "ps_faults s")
    case Nil
    then show ?thesis using run [OF inv kn] by (simp add: under_fault_def)
  next
    case (Cons x fs)
    have b: "benign_step s (?put fs)" by (rule benign.R_faults) (auto simp: Cons)
    have x: "x = Served \<or> x = Rejected" using own_invD(8) [OF inv] Cons by auto
    show ?thesis
    proof (cases "x = Rejected")
      case True
      with benign_move [OF b inv kn] rejected Cons show ?thesis by (auto simp: under_fault_def)
    next
      case False
      with x have x: "x = Served" by simp
      have kn': "pay_knows F m (?put fs)" and inv': "own_inv F (?put fs)"
        using benign_move [OF b inv kn] by (simp_all add: pay_moves_def)
      from run [OF inv' kn'] obtain m' where m': "pay_moves F m (?put fs) m' (snd (f (?put fs)))"
          "Q (fst (f (?put fs))) m'" by blast
      have "pay_moves F m s m' (snd (f (?put fs)))"
        by (rule benign_then_move [OF b m'(1)])
      with m'(2) x Cons show ?thesis by (auto simp: under_fault_def)
    qed
  qed
qed

text \<open>A statement on the audit table always runs.\<close>

lemma safe_audit_sql:
  assumes "\<And>s. own_inv F s \<Longrightarrow> pay_knows F m s \<Longrightarrow> \<exists>m'. pay_moves F m s m' (snd (f s)) \<and> Q (fst (f s)) m'"
  shows "lock.safe F (audit_sql f) Q m"
  unfolding audit_sql_def
  by (rule lock.safe_statement) (use assms own_invD(9) in \<open>auto simp: under_fault_def\<close>)

end
