(* ===== verification/PaymentHandover.thy ===== *)
theory PaymentHandover
  imports PaymentOwnership
begin

text \<open>
  Fulfilment through the modes of \<open>PaymentOwnership\<close>: taking the lock, assigning the subscription or
  redeeming the code, logging, completing, failing; and refunds, which touch settled orders only. From
  these every operation of \<open>pay_operation\<close> is safe, so what the invariant says of settled orders holds in
  every interleaving.
\<close>

section \<open>One order changes\<close>

lemma order_found:
  assumes "distinct (order_ids s)" and "r \<in> set (ps_orders s)"
  shows "order_by_id (po_ID r) s = Some r"
proof -
  have "distinct (map po_ID rows) \<Longrightarrow> r \<in> set rows \<Longrightarrow> List.find (\<lambda>x. po_ID x = po_ID r) rows = Some r"
    for rows by (induction rows) force+
  with assms show ?thesis by (simp add: order_ids_def order_by_id_def)
qed

lemma other_order:
  assumes "same_goods f" and "\<And>r. P r \<Longrightarrow> po_ID r = i" and "j \<noteq> i"
  shows "status_of j (s\<lparr>ps_orders := changed_orders t P f (ps_orders s)\<rparr>) = status_of j s"
proof -
  have "po_ID r = j" if "order_by_id j s = Some r" for r
    using that by (auto simp: order_by_id_def find_Some_iff)
  with assms(2,3) have "\<not> P r" if "order_by_id j s = Some r" for r using that by blast
  then show ?thesis
    unfolding status_changed [OF assms(1)] by (cases "order_by_id j s") (simp_all add: status_of_def)
qed

lemma stay_move:
  "own_inv F s \<Longrightarrow> pay_knows F m' s \<Longrightarrow> held m' = None \<or> held m' = held m \<Longrightarrow> pay_moves F m s m' s"
  by (auto simp: pay_moves_def grows_def untouched_def)

text \<open>When the rows an update changes all belong to one order, this much is left to show.\<close>

lemma order_move:
  fixes s :: pay_store
  defines "s' \<equiv> \<lambda>t P f. s\<lparr>ps_orders := changed_orders t P f (ps_orders s)\<rparr>"
  assumes sg: "same_goods f" and one: "\<And>r. P r \<Longrightarrow> po_ID r = i" and inv: "own_inv F s"
    and settles: "is_settled i (s' t P f) \<Longrightarrow> goods_of i s = Some g \<Longrightarrow> handed i g s"
    and stays: "is_settled i s \<Longrightarrow> is_settled i (s' t P f)"
    and log: "status_of i (s' t P f) = Some RECHARGING \<or> safe_log i s"
    and stuck: "i \<in> F \<Longrightarrow> status_of i (s' t P f) = Some RECHARGING"
    and kn: "pay_knows F m' (s' t P f)"
    and own: "held m = Some i \<or> (status_of i s = Some RECHARGING \<longrightarrow> status_of i (s' t P f) = Some RECHARGING)"
    and take: "held m' = None \<or> held m' = held m \<or> (held m' = Some i \<and> status_of i s \<noteq> Some RECHARGING)"
    and gs: "goods_of i s = Some g"
  shows "pay_moves F m s m' (s' t P f)"
proof -
  let ?s = "s' t P f"
  note D = own_invD [OF inv]
  have other: "status_of j ?s = status_of j s" if "j \<noteq> i" for j
    unfolding s'_def by (rule other_order [OF sg one that])
  have goods: "goods_of j ?s = goods_of j s" for j unfolding s'_def by (rule goods_changed [OF sg])
  have same: "assignments j ?s = assignments j s" "logged j ?s = logged j s"
      "success_logged j ?s = success_logged j s" "code_used c ?s = code_used c s"
      "code_row j c ?s = code_row j c s" "ps_faults ?s = ps_faults s"
      "ps_audit_faults ?s = ps_audit_faults s" "safe_log j ?s = safe_log j s" "handed j h ?s = handed j h s" for j c h
    by (simp_all add: s'_def assignments_def logged_def success_logged_def code_used_def code_row_def
        safe_log_def handed_def)
  have settled: "is_settled j ?s = is_settled j s" if "j \<noteq> i" for j
    using other [OF that] by (simp add: is_settled_def)
  have cr: "credit_inv ?s" using D(1) credit.R_any_orders [OF sg, of s t P] by (simp add: keeping_def s'_def)
  have ids: "distinct (order_ids ?s)" using D(2) ids_changed [OF sg] by (simp add: s'_def order_ids_def)
  have "own_inv F ?s" unfolding own_inv_def
  proof (intro conjI allI ballI impI cr ids)
    fix j show "assignments j ?s \<le> 1" using D(3) by (simp add: same)
    show "status_of j ?s = Some RECHARGING \<or> safe_log j ?s"
      using D(4) log by (cases "j = i") (simp_all add: same other)
    show "assignments j ?s = 1" if "logged j ?s \<or> success_logged j ?s" using D(5) that by (simp add: same)
    fix h assume h: "is_settled j ?s" "goods_of j ?s = Some h"
    show "handed j h ?s"
    proof (cases "j = i")
      case True
      with h settles gs show ?thesis by (simp add: goods same)
    next
      case False
      with h D(6) show ?thesis by (simp add: goods same settled)
    qed
  next
    fix j assume "j \<in> F"
    then show "status_of j ?s = Some RECHARGING" using D(7) stuck by (cases "j = i") (simp_all add: other)
  qed (use D(8,9) in \<open>simp_all add: same\<close>)
  moreover have "grows s ?s" unfolding grows_def
    using stays settled by (auto simp: goods same) (metis stays settled)
  moreover have "untouched j s ?s" if "held m \<noteq> Some j" for j
    using own that by (cases "j = i") (auto simp: untouched_def same other)
  ultimately show ?thesis using kn take by (auto simp: pay_moves_def)
qed

section \<open>Taking and leaving the lock\<close>

lemma not_settled: "status_of i s = Some st \<Longrightarrow> \<not> settled st \<Longrightarrow> \<not> is_settled i s"
  by (simp add: is_settled_def)

lemma settled_cases [simp]: "\<not> settled RECHARGING" "\<not> settled FAILED" "\<not> settled PAID" "settled COMPLETED"
  by (simp_all add: settled_def psIsRefundStatus_def)

lemma fulfillable_not: "fulfillable st \<Longrightarrow> \<not> settled st \<and> st \<noteq> RECHARGING"
  by (auto simp: fulfillable_def)

lemma filter_id:
  assumes "distinct (order_ids s)"
  shows "filter (\<lambda>r. po_ID r = i \<and> P r) (ps_orders s) \<noteq> []
    \<longleftrightarrow> (\<exists>r. order_by_id i s = Some r \<and> P r)"
proof
  assume "filter (\<lambda>r. po_ID r = i \<and> P r) (ps_orders s) \<noteq> []"
  then obtain r where "r \<in> set (ps_orders s)" "po_ID r = i" "P r" by (auto simp: filter_empty_conv)
  then show "\<exists>r. order_by_id i s = Some r \<and> P r" using order_found [OF assms] by blast
next
  assume "\<exists>r. order_by_id i s = Some r \<and> P r"
  then show "filter (\<lambda>r. po_ID r = i \<and> P r) (ps_orders s) \<noteq> []"
    by (auto simp: order_by_id_def find_Some_iff filter_empty_conv)
qed

lemma safe_lock_order:
  "lock.safe F (lock_order i)
     (\<lambda>r m. case r of Inl _ \<Rightarrow> m = Seen i g | Inr n \<Rightarrow> m = (if n = 0 then Seen i g else Holding i g Locked)) (Seen i g)"
  unfolding lock_order_def update_orders_def
proof (rule safe_sql)
  fix s assume inv: "own_inv F s" and kn: "pay_knows F (Seen i g) s"
  let ?P = "\<lambda>r. po_ID r = i \<and> fulfillable (po_Status r)"
  let ?s = "s\<lparr>ps_orders := changed_orders (ps_clock s) ?P recharging (ps_orders s)\<rparr>"
  have sg: "same_goods recharging" by (simp add: same_goods_def recharging_def)
  from kn obtain r where r: "order_by_id i s = Some r" "goods_of i s = Some g"
    by (auto simp: goods_of_def)
  then have id: "po_ID r = i" by (auto simp: order_by_id_def find_Some_iff)
  have st: "status_of i s = Some (po_Status r)" using r by (simp add: status_of_def)
  have st': "status_of i ?s = Some (if fulfillable (po_Status r) then RECHARGING else po_Status r)"
    unfolding status_changed [OF sg] using r id by (simp add: recharging_def)
  have gs': "goods_of i ?s = Some g" using goods_changed [OF sg] r by simp
  have logs: "safe_log i ?s = safe_log i s" by (simp add: safe_log_def assignments_def logged_def)
  let ?m = "if fulfillable (po_Status r) then Holding i g Locked else Seen i g"
  have "pay_moves F (Seen i g) s ?m ?s"
  proof (rule order_move [OF sg _ inv _ _ _ _ _ _ _ r(2)])
    show "is_settled i ?s \<Longrightarrow> handed i g s"
      using own_invD(6) [OF inv, of i g] r(2) st st' by (auto simp: is_settled_def split: if_splits)
    show "is_settled i s \<Longrightarrow> is_settled i ?s"
      using st st' fulfillable_not by (auto simp: is_settled_def)
    show "status_of i ?s = Some RECHARGING \<or> safe_log i s" using own_invD(4) [OF inv, of i] st st' by auto
    show "i \<in> F \<Longrightarrow> status_of i ?s = Some RECHARGING" using own_invD(7) [OF inv, of i] st st' by auto
    show "pay_knows F ?m ?s"
      using own_invD(4,7) [OF inv, of i] st st' gs' logs fulfillable_not by auto
  qed (use st st' fulfillable_not in auto)
  moreover have "length (filter ?P (ps_orders s)) = 0 \<longleftrightarrow> \<not> fulfillable (po_Status r)"
    using filter_id [OF own_invD(2) [OF inv], of i "\<lambda>r. fulfillable (po_Status r)"] r(1) by auto
  ultimately show "\<exists>m'. pay_moves F (Seen i g) s m' (snd (Inr (length (filter ?P (ps_orders s))), ?s))
      \<and> (case fst (Inr (length (filter ?P (ps_orders s))), ?s) of Inl _ \<Rightarrow> m' = Seen i g
        | Inr n \<Rightarrow> m' = (if n = 0 then Seen i g else Holding i g Locked))"
    by auto
qed simp

definition in_hand :: "int \<Rightarrow> goods \<Rightarrow> mode \<Rightarrow> bool" where
  "in_hand i g m \<longleftrightarrow> (\<exists>k. m = Holding i g k \<and> k \<noteq> Extended)"

lemma in_hand_simps [simp]: "in_hand i g (Holding j h k) \<longleftrightarrow> j = i \<and> h = g \<and> k \<noteq> Extended"
  by (auto simp: in_hand_def)

lemma in_hand_log:
  assumes "in_hand i g m" and "pay_knows F m s"
  shows "safe_log i s"
proof -
  from assms obtain k where "stage_knows i g k s" "k \<noteq> Extended" by (auto simp: in_hand_def)
  then show ?thesis by (cases k) (simp_all add: safe_log_def)
qed

text \<open>The end of a fulfilment: the order goes from RECHARGING to \<open>st\<close>.\<close>

lemma leave_move:
  assumes inv: "own_inv F s" and kn: "pay_knows F m s" and m: "in_hand i g m" and sg: "same_goods f"
    and f: "\<And>r. po_Status (f r) = st" and st: "st = FAILED \<or> (st = COMPLETED \<and> handed i g s)"
    and m': "m' = Idle \<or> (m' = Closed i g \<and> st = COMPLETED)"
  shows "pay_moves F m s m' (s\<lparr>ps_orders :=
    changed_orders t (\<lambda>r. po_ID r = i \<and> po_Status r = RECHARGING) f (ps_orders s)\<rparr>)" (is "pay_moves F m s m' ?s")
proof -
  from m obtain k where mk: "m = Holding i g k" by (auto simp: in_hand_def)
  with kn have now: "status_of i s = Some RECHARGING" "goods_of i s = Some g" "i \<notin> F" by simp_all
  then obtain r where r: "order_by_id i s = Some r" "po_Status r = RECHARGING" by (auto simp: status_of_def)
  then have "po_ID r = i" by (auto simp: order_by_id_def find_Some_iff)
  with r have st': "status_of i ?s = Some st" unfolding status_changed [OF sg] by (simp add: f)
  have gs': "goods_of i ?s = Some g" using goods_changed [OF sg] now(2) by simp
  show ?thesis
  proof (rule order_move [OF sg _ inv _ _ _ _ _ _ _ now(2)])
    show "is_settled i ?s \<Longrightarrow> handed i g s" using st st' by (auto simp: is_settled_def)
    show "pay_knows F m' ?s" using m' st' gs' by (auto simp: is_settled_def)
    show "status_of i ?s = Some RECHARGING \<or> safe_log i s" using in_hand_log [OF m kn] by blast
  qed (use mk m' now in \<open>auto simp: is_settled_def\<close>)
qed

lemma safe_now_is: "lock.safe F now_is (\<lambda>_ n. n = m) m"
  using safe_benign [OF benign.each_now_is results_any] by simp

lemma safe_markFailed:
  assumes "in_hand i g m"
  shows "lock.safe F (markFailed i e) (\<lambda>_ _. True) m"
  unfolding markFailed_def
proof (rule lock.safe_then [OF safe_now_is], rule lock.safe_then)
  fix now n assume n: "n = m"
  show "lock.safe F (update_orders (\<lambda>r. po_ID r = i \<and> po_Status r = RECHARGING) (failed now (err_text e)))
      (\<lambda>_ _. True) n"
    unfolding update_orders_def
    by (rule safe_sql) (use leave_move [OF _ _ assms, where f = "failed now (err_text e)" and st = FAILED and m' = Idle] n
      in \<open>auto simp: same_goods_def failed_def\<close>)
  fix r k
  show "lock.safe F (case r of Inl _ \<Rightarrow> Done () | Inr c \<Rightarrow>
      if 0 < c then writeAuditLog i A_FULFILLMENT_FAILED ''system'' None else Done ()) (\<lambda>_ _. True) k"
    by (rule lock.free_safe, rule free_benign, intro each benign.each_writeAuditLog)
qed

lemma order_op_keeps: "each benign_step t \<Longrightarrow> lock.safe F t (\<lambda>_ n. n = m) m"
  using safe_benign [OF _ results_any] by simp

text \<open>The entry that says a subscription order is done is written when it is.\<close>

lemma free_success_log:
  assumes "act = A_RECHARGE_SUCCESS \<or> (act = A_SUBSCRIPTION_SUCCESS \<and> goods_type g = OrderTypeSubscription)"
  shows "lock.safe F (writeAuditLog i act op d) (\<lambda>_ _. True) (Closed i g)"
proof (cases "act = A_RECHARGE_SUCCESS")
  case True
  then show ?thesis by (simp add: lock.free_safe free_benign benign.each_writeAuditLog)
next
  case False
  with assms have act: "act = A_SUBSCRIPTION_SUCCESS" and sub: "goods_type g = OrderTypeSubscription" by simp_all
  have "\<exists>m'. pay_moves F (Closed i g) s m' (snd (insert_audit i act op d s)) \<and> True"
    if inv: "own_inv F s" and kn: "pay_knows F (Closed i g) s" for s
  proof (cases "has_entry i act (ps_audit s)")
    case True
    then show ?thesis using stay_move [OF inv kn] by (auto simp: insert_audit_def)
  next
    case False
    let ?s = "snd (insert_audit i act op d s)"
    have h: "assignments i s = 1" using own_invD(6) [OF inv, of i g] kn sub by (simp add: handed_def)
    have s': "?s = s\<lparr>ps_audit := ps_audit ?s\<rparr>"
      and ent: "has_entry j a (ps_audit ?s) \<longleftrightarrow> has_entry j a (ps_audit s) \<or> (j = i \<and> a = act)" for j a
      using False by (auto simp: insert_audit_def has_entry_def)
    have same: "status_of j ?s = status_of j s" "goods_of j ?s = goods_of j s" "assignments j ?s = assignments j s"
        "logged j ?s = logged j s" "code_used c ?s = code_used c s" "code_row l c ?s = code_row l c s"
        "order_ids ?s = order_ids s" "is_settled j ?s = is_settled j s" "handed j k ?s = handed j k s"
        "safe_log j ?s = safe_log j s" "success_logged j ?s \<longleftrightarrow> success_logged j s \<or> j = i"
        "ps_faults ?s = ps_faults s" "ps_audit_faults ?s = ps_audit_faults s" for j c l k
      using False act by (auto simp: insert_audit_def status_of_def goods_of_def order_by_id_def assignments_def
          logged_def code_used_def code_row_def order_ids_def is_settled_def handed_def safe_log_def
          success_logged_def has_entry_def)
    have "credit_inv ?s" using own_invD(1) [OF inv] credit_inv_cong [of ?s s] False by (simp add: insert_audit_def)
    with inv h have "own_inv F ?s" unfolding own_inv_def by (auto simp: same)
    with kn show ?thesis by (intro exI [of _ "Closed i g"])
        (auto simp: pay_moves_def grows_def untouched_def same)
  qed
  then show ?thesis unfolding writeAuditLog_def
    by (intro lock.safe_ignoring [OF safe_audit_sql [where Q = "\<lambda>_ _. True"]]) auto
qed

lemma safe_markCompleted:
  assumes "po_ID ord = i"
    and "act = A_RECHARGE_SUCCESS \<or> (act = A_SUBSCRIPTION_SUCCESS \<and> goods_type g = OrderTypeSubscription)"
  shows "lock.safe F (markCompleted ord act) (\<lambda>r n. \<forall>e. r = Inl e \<longrightarrow> in_hand i g n) (Holding i g Ready)"
  unfolding markCompleted_def
proof (intro lock.safe_then [OF safe_now_is])
  fix now n assume n: "n = Holding i g Ready"
  let ?R = "\<lambda>(r :: pay_error + nat) m. m = (case r of Inl _ \<Rightarrow> n | Inr _ \<Rightarrow> Closed i g)"
  have "lock.safe F (update_orders (\<lambda>r. po_ID r = po_ID ord \<and> po_Status r = RECHARGING) (completed now)) ?R n"
    unfolding update_orders_def
  proof (rule safe_sql)
    fix s assume "own_inv F s" "pay_knows F n s"
    then show "\<exists>m'. pay_moves F n s m' (snd (Inr (length (filter (\<lambda>r. po_ID r = po_ID ord \<and> po_Status r = RECHARGING) (ps_orders s))),
      s\<lparr>ps_orders := changed_orders (ps_clock s) (\<lambda>r. po_ID r = po_ID ord \<and> po_Status r = RECHARGING)
        (completed now) (ps_orders s)\<rparr>)) \<and> ?R (fst (Inr (length (filter (\<lambda>r. po_ID r = po_ID ord \<and> po_Status r = RECHARGING) (ps_orders s))),
      s\<lparr>ps_orders := changed_orders (ps_clock s) (\<lambda>r. po_ID r = po_ID ord \<and> po_Status r = RECHARGING)
        (completed now) (ps_orders s)\<rparr>)) m'"
      using leave_move [of F s n i g "completed now" COMPLETED "Closed i g"] assms(1) n
      by (auto simp: same_goods_def completed_def)
  qed simp
  then show "lock.safe F (or_return (update_orders (\<lambda>r. po_ID r = po_ID ord \<and> po_Status r = RECHARGING) (completed now))
      (\<lambda>_. ignoring (writeAuditLog (po_ID ord) act ''system'' None) (Done (Inr ()))))
      (\<lambda>r n. \<forall>e. r = Inl e \<longrightarrow> in_hand i g n) n"
    by (rule lock.safe_or_return)
      (use n in simp, use assms in \<open>auto intro!: lock.safe_ignoring [OF free_success_log]\<close>)
qed

section \<open>A subscription order\<close>

text \<open>A new entry in the audit table, apart from the two it is about.\<close>

lemma audit_same:
  assumes "s' = s\<lparr>ps_audit := logs\<rparr>"
  shows "status_of j s' = status_of j s" and "goods_of j s' = goods_of j s"
    and "assignments j s' = assignments j s" and "code_used c s' = code_used c s"
    and "code_row l c s' = code_row l c s" and "order_ids s' = order_ids s"
    and "is_settled j s' = is_settled j s" and "handed j k s' = handed j k s"
    and "ps_faults s' = ps_faults s" and "ps_audit_faults s' = ps_audit_faults s"
    and "credit_inv s' = credit_inv s"
  using credit_inv_cong [of s' s] assms
  by (auto simp: status_of_def goods_of_def order_by_id_def assignments_def code_used_def code_row_def
      order_ids_def is_settled_def handed_def)

lemma safe_assigned_log:
  assumes sub: "goods_type g = OrderTypeSubscription"
  shows "lock.safe F (writeAuditLog i A_SUBSCRIPTION_ASSIGNED op d) (\<lambda>_ m. m = Holding i g Ready) (Holding i g Extended)"
proof -
  have "\<exists>m'. pay_moves F (Holding i g Extended) s m' (snd (insert_audit i A_SUBSCRIPTION_ASSIGNED op d s))
      \<and> m' = Holding i g Ready"
    if inv: "own_inv F s" and kn: "pay_knows F (Holding i g Extended) s" for s
  proof (cases "has_entry i A_SUBSCRIPTION_ASSIGNED (ps_audit s)")
    case True
    then have "pay_knows F (Holding i g Ready) s"
      using kn sub by (simp add: handed_def safe_log_def logged_def)
    with True show ?thesis using stay_move [OF inv] by (auto simp: insert_audit_def)
  next
    case False
    let ?s = "snd (insert_audit i A_SUBSCRIPTION_ASSIGNED op d s)"
    have s': "?s = s\<lparr>ps_audit := ps_audit ?s\<rparr>" using False by (simp add: insert_audit_def)
    note same = audit_same [OF s']
    have logs: "logged j ?s \<longleftrightarrow> logged j s \<or> j = i" "success_logged j ?s = success_logged j s" for j
      using False by (auto simp: insert_audit_def logged_def success_logged_def has_entry_def)
    have "own_inv F ?s" using inv kn unfolding own_inv_def by (auto simp: same logs safe_log_def)
    moreover have "pay_knows F (Holding i g Ready) ?s"
      using kn sub by (simp add: same logs safe_log_def handed_def)
    ultimately show ?thesis by (auto simp: pay_moves_def grows_def untouched_def same logs)
  qed
  then show ?thesis unfolding writeAuditLog_def
    by (intro lock.safe_ignoring [OF safe_audit_sql [where Q = "\<lambda>_ m. m = Holding i g Ready"]]) auto
qed

text \<open>Reading the audit table. Under the lock, no entry means that nothing was assigned.\<close>

lemma safe_hasAuditLog:
  assumes "\<And>s. own_inv F s \<Longrightarrow> pay_knows F m s \<Longrightarrow>
      \<exists>m'. pay_moves F m s m' s \<and> Q (has_entry i act (ps_audit s)) m'"
  shows "lock.safe F (hasAuditLog i act) Q m"
  unfolding hasAuditLog_def
  by (rule lock.safe_then [OF safe_audit_sql [where Q = "\<lambda>r n. \<exists>b. r = Inr b \<and> Q b n"]]) (use assms in auto)

lemma safe_already_assigned:
  assumes sub: "goods_type g = OrderTypeSubscription"
  shows "lock.safe F (already_assigned i)
    (\<lambda>b m. m = Holding i g (if b then Ready else Unassigned)) (Holding i g Locked)"
  unfolding already_assigned_def
proof (rule lock.safe_then)
  show "lock.safe F (hasAuditLog i A_SUBSCRIPTION_ASSIGNED)
      (\<lambda>b m. m = Holding i g (if b then Ready else Unassigned)) (Holding i g Locked)"
  proof (rule safe_hasAuditLog)
    fix s assume inv: "own_inv F s" and kn: "pay_knows F (Holding i g Locked) s"
    let ?b = "has_entry i A_SUBSCRIPTION_ASSIGNED (ps_audit s)"
    have "pay_knows F (Holding i g (if ?b then Ready else Unassigned)) s"
      using kn sub own_invD(3,5) [OF inv, of i]
      by (auto simp: handed_def safe_log_def logged_def intro: order_antisym)
    then show "\<exists>m'. pay_moves F (Holding i g Locked) s m' s \<and> m' = Holding i g (if ?b then Ready else Unassigned)"
      using stay_move [OF inv, of _ "Holding i g Locked"] by simp
  qed
next
  fix b n assume n: "n = Holding i g (if b then Ready else Unassigned)"
  show "lock.safe F (if b then Done True else hasAuditLog i A_SUBSCRIPTION_SUCCESS)
      (\<lambda>b m. m = Holding i g (if b then Ready else Unassigned)) n"
  proof (cases b)
    case True
    with n show ?thesis by simp
  next
    case False
    have "lock.safe F (hasAuditLog i A_SUBSCRIPTION_SUCCESS)
        (\<lambda>b m. m = Holding i g (if b then Ready else Unassigned)) (Holding i g Unassigned)"
    proof (rule safe_hasAuditLog)
      fix s assume inv: "own_inv F s" and kn: "pay_knows F (Holding i g Unassigned) s"
      have "\<not> has_entry i A_SUBSCRIPTION_SUCCESS (ps_audit s)"
        using own_invD(5) [OF inv, of i] kn by (auto simp: success_logged_def)
      then show "\<exists>m'. pay_moves F (Holding i g Unassigned) s m' s
          \<and> m' = Holding i g (if has_entry i A_SUBSCRIPTION_SUCCESS (ps_audit s) then Ready else Unassigned)"
        using stay_move [OF inv kn] by auto
    qed
    with False n show ?thesis by simp
  qed
qed

lemma assigned_result:
  assumes "noting (SubscriptionAssigned i) (with_subs p) s = (r, s')"
  shows "(\<exists>t. s' = s\<lparr>ps_subs := t\<rparr> \<and> (\<exists>e. r = Inl e))
    \<or> (\<exists>t. s' = record_entry (SubscriptionAssigned i) (s\<lparr>ps_subs := t\<rparr>) \<and> (\<exists>x. r = Inr x))"
  using assms unfolding noting_def with_subs_def
  by (auto simp: run split: prod.splits sum.splits)

lemma safe_assign_order:
  assumes "po_ID ord = i"
  shows "lock.safe F (assign_order cfg ord gr days)
    (\<lambda>r m. m = Holding i g (case r of Inl _ \<Rightarrow> Unassigned | Inr _ \<Rightarrow> Extended)) (Holding i g Unassigned)"
  unfolding assign_order_def assms
proof (rule safe_sql)
  fix s assume inv: "own_inv F s" and kn: "pay_knows F (Holding i g Unassigned) s"
  let ?p = "andthen (AssignOrExtendSubscription (pc_sub cfg) (ps_clock s)
      \<lparr>ai_UserID = po_UserID ord, ai_GroupID = gr, ai_ValidityDays = days, ai_AssignedBy = 0,
        ai_Notes = order_note i\<rparr>) (\<lambda>_. ret ())"
  obtain r s' where rs: "noting (SubscriptionAssigned i) (with_subs ?p) s = (r, s')" by fastforce
  have "pay_moves F (Holding i g Unassigned) s
      (Holding i g (case r of Inl _ \<Rightarrow> Unassigned | Inr _ \<Rightarrow> Extended)) s'"
    using assigned_result [OF rs]
  proof (elim disjE exE conjE)
    fix t e assume "s' = s\<lparr>ps_subs := t\<rparr>" and r: "r = Inl e"
    then have "benign_step s s'" using benign.R_subs by simp
    with r show ?thesis using benign_move [OF _ inv kn] by simp
  next
    fix t x assume s': "s' = record_entry (SubscriptionAssigned i) (s\<lparr>ps_subs := t\<rparr>)" and r: "r = Inr x"
    have same: "status_of j s' = status_of j s" "goods_of j s' = goods_of j s"
        "assignments j s' = assignments j s + (if j = i then 1 else 0)" "logged j s' = logged j s"
        "success_logged j s' = success_logged j s" "code_used c s' = code_used c s"
        "code_row l c s' = code_row l c s" "order_ids s' = order_ids s" "is_settled j s' = is_settled j s"
        "ps_faults s' = ps_faults s" "ps_audit_faults s' = ps_audit_faults s" for j c l
      by (simp_all add: s' record_entry_def status_of_def goods_of_def order_by_id_def assignments_def
          logged_def success_logged_def code_used_def code_row_def order_ids_def is_settled_def)
    have cr: "credit_inv s'" using own_invD(1) [OF inv] by (simp add: s' credit_inv_def credits_def record_entry_def)
    have i: "status_of i s = Some RECHARGING" "assignments i s = 0" "\<not> is_settled i s" "\<not> logged i s"
        "\<not> success_logged i s"
      using kn own_invD(5) [OF inv, of i] by (auto simp: is_settled_def)
    have "own_inv F s'" unfolding own_inv_def
      using own_invD [OF inv] i cr by (auto simp: same safe_log_def handed_def)
    moreover have "pay_knows F (Holding i g Extended) s'" using kn by (simp add: same)
    ultimately show ?thesis using r by (auto simp: pay_moves_def grows_def untouched_def same)
  qed
  with rs show "\<exists>m'. pay_moves F (Holding i g Unassigned) s m' (snd (noting (SubscriptionAssigned i) (with_subs ?p) s))
      \<and> m' = Holding i g (case fst (noting (SubscriptionAssigned i) (with_subs ?p) s) of Inl _ \<Rightarrow> Unassigned | Inr _ \<Rightarrow> Extended)"
    by simp
qed simp

text \<open>What is left to do when the goods are handed over. An error leaves the order to \<open>markFailed\<close>.\<close>

definition failed_in_hand :: "int \<Rightarrow> goods \<Rightarrow> pay_error + 'a \<Rightarrow> mode \<Rightarrow> bool" where
  "failed_in_hand i g r m \<longleftrightarrow> (\<forall>e. r = Inl e \<longrightarrow> in_hand i g m)"

lemma safe_finish:
  assumes "po_ID ord = i"
    and "act = A_RECHARGE_SUCCESS \<or> (act = A_SUBSCRIPTION_SUCCESS \<and> goods_type g = OrderTypeSubscription)"
  shows "lock.safe F (or_return (applyAffiliateRebateForOrder cfg ord) (\<lambda>_. markCompleted ord act))
    (failed_in_hand i g) (Holding i g Ready)"
  by (rule lock.safe_or_return [OF order_op_keeps [OF benign.each_rebate]])
    (use safe_markCompleted [OF assms] in \<open>auto simp: failed_in_hand_def [abs_def]\<close>)

lemma safe_doSub:
  assumes "po_ID ord = i" and "goods_type g = OrderTypeSubscription"
  shows "lock.safe F (doSub cfg ord gr days) (failed_in_hand i g) (Holding i g Locked)"
  unfolding doSub_def finish_sub_def
proof (rule lock.safe_then [OF order_op_keeps], goal_cases)
  case 1
  show ?case by (rule benign.each_order_queries)
next
  case (2 found n)
  have finish: "lock.safe F (or_return (applyAffiliateRebateForOrder cfg ord) (\<lambda>_. markCompleted ord A_SUBSCRIPTION_SUCCESS))
      (failed_in_hand i g) (Holding i g Ready)"
    by (rule safe_finish) (use assms in auto)
  have assign: "lock.safe F (or_return (assign_order cfg ord gr days) (\<lambda>_.
        ignoring (writeAuditLog (po_ID ord) A_SUBSCRIPTION_ASSIGNED ''system'' None)
          (or_return (applyAffiliateRebateForOrder cfg ord) (\<lambda>_. markCompleted ord A_SUBSCRIPTION_SUCCESS))))
      (failed_in_hand i g) (Holding i g Unassigned)"
    by (rule lock.safe_or_return [OF safe_assign_order [OF assms(1)]])
      (use finish assms safe_assigned_log in \<open>auto simp: failed_in_hand_def intro!: lock.safe_ignoring [OF safe_assigned_log]\<close>)
  show ?case
    by (rule lock.safe_if) (use 2 finish assign assms safe_already_assigned in
      \<open>auto simp: failed_in_hand_def intro!: lock.safe_then [OF safe_already_assigned]\<close>)
qed

section \<open>A balance order\<close>

text \<open>The task may remember which row it found.\<close>

lemma safe_find_code:
  assumes bal: "goods_type g \<noteq> OrderTypeSubscription" and pick: "\<And>j. pick j \<in> {Locked, Choosing j}"
  shows "lock.safe F (repo_GetByCode (goods_code g)) (\<lambda>r m. m = Holding i g (case r of Inl _ \<Rightarrow> Locked
      | Inr c \<Rightarrow> if rc_Status c = StatusUsed then Ready else pick (rc_ID c))) (Holding i g Locked)"
proof -
  let ?Q = "\<lambda>found. Holding i g (case found of None \<Rightarrow> Locked
      | Some c \<Rightarrow> if rc_Status c = StatusUsed then Ready else pick (rc_ID c))"
  have "lock.safe F (sql_query (code_by (\<lambda>r. rc_Code r = goods_code g)))
      (\<lambda>r m. m = (case r of Inl _ \<Rightarrow> Holding i g Locked | Inr found \<Rightarrow> ?Q found)) (Holding i g Locked)"
    unfolding sql_query_def
  proof (rule safe_sql)
    fix s assume inv: "own_inv F s" and kn: "pay_knows F (Holding i g Locked) s"
    let ?found = "code_by (\<lambda>r. rc_Code r = goods_code g) s"
    have "pay_knows F (?Q ?found) s"
    proof (cases ?found)
      case None
      with kn show ?thesis by simp
    next
      case (Some c)
      then have "c \<in> set (ps_codes s)" "rc_Code c = goods_code g"
        by (auto simp: code_by_def find_Some_iff)
      then have "code_row (rc_ID c) (goods_code g) s" "rc_Status c = StatusUsed \<Longrightarrow> code_used (goods_code g) s"
        by (auto simp: code_row_def code_used_def)
      with kn Some bal pick [of "rc_ID c"] show ?thesis by (auto simp: handed_def)
    qed
    then show "\<exists>m'. pay_moves F (Holding i g Locked) s m' (snd (Inr ?found, s))
        \<and> m' = (case fst (Inr ?found, s) of Inl _ \<Rightarrow> Holding i g Locked | Inr found \<Rightarrow> ?Q found)"
      using stay_move [OF inv, of _ "Holding i g Locked"] by simp
  qed simp
  then show ?thesis unfolding repo_GetByCode_def code_query_def
    by (rule lock.safe_or_return) (auto split: option.split)
qed

lemma redeemed_is_used:
  assumes "redeem_prog cfg user c s = (Inr (), s')" and "credit_inv s" and "code_row (rc_ID c) d s"
  shows "code_used d s'"
proof -
  note res = redeem_prog_result [OF assms(1)]
  from res obtain r where r: "r \<in> set (ps_codes s)" "rc_ID r = rc_ID c" "rc_Status r = StatusUnused" by blast
  from assms(3) obtain r' where r': "r' \<in> set (ps_codes s)" "rc_ID r' = rc_ID c" "rc_Code r' = d"
    by (auto simp: code_row_def)
  have "r' = r" using assms(2) r r' by (auto simp: credit_inv_def distinct_map inj_on_def)
  have codes: "ps_codes s' = map (use_row (ps_clock s) (pu_ID user) (rc_ID c)) (ps_codes s)"
    using res by (simp add: same_tables_def)
  have "use_row (ps_clock s) (pu_ID user) (rc_ID c) r \<in> set (ps_codes s')" using r codes by simp
  moreover have "rc_Status (use_row (ps_clock s) (pu_ID user) (rc_ID c) r) = StatusUsed"
    using r by (simp add: use_row_def mark_used_def)
  ultimately show ?thesis using \<open>r' = r\<close> r' unfolding code_used_def by (metis use_row_fields(2))
qed

lemma safe_redeem_tx:
  assumes bal: "goods_type g \<noteq> OrderTypeSubscription"
  shows "lock.safe F (redeem_tx cfg user c)
    (\<lambda>r m. m = Holding i g (case r of Inl _ \<Rightarrow> Choosing (rc_ID c) | Inr _ \<Rightarrow> Ready)) (Holding i g (Choosing (rc_ID c)))"
  unfolding redeem_tx_def tx_def
proof (rule safe_sql)
  fix s assume inv: "own_inv F s" and kn: "pay_knows F (Holding i g (Choosing (rc_ID c))) s"
  obtain r s' where rs: "redeem_prog cfg user c s = (r, s')" by fastforce
  show "\<exists>m'. pay_moves F (Holding i g (Choosing (rc_ID c))) s m'
        (snd (case redeem_prog cfg user c s of (Inl e, s') \<Rightarrow> (Inl e, rolled_back s s') | (Inr a, s') \<Rightarrow> (Inr a, s')))
      \<and> m' = Holding i g (case fst (case redeem_prog cfg user c s of (Inl e, s') \<Rightarrow> (Inl e, rolled_back s s')
          | (Inr a, s') \<Rightarrow> (Inr a, s')) of Inl _ \<Rightarrow> Choosing (rc_ID c) | Inr _ \<Rightarrow> Ready)"
  proof (cases r)
    case (Inl e)
    then show ?thesis using benign_move [OF benign.R_rolled_back inv kn] rs by auto
  next
    case (Inr x)
    with rs have ok: "redeem_prog cfg user c s = (Inr (), s')" by simp
    have b: "benign_step s s'" by (rule benign_redeem [OF ok])
    from benign_move [OF b inv kn] have mv: "pay_moves F (Holding i g (Choosing (rc_ID c))) s (Holding i g (Choosing (rc_ID c))) s'" .
    then have "pay_knows F (Holding i g (Choosing (rc_ID c))) s'" by (simp add: pay_moves_def)
    moreover have "code_used (goods_code g) s'"
      using redeemed_is_used [OF ok own_invD(1) [OF inv]] kn by simp
    ultimately have "pay_knows F (Holding i g Ready) s'" using bal by (simp add: handed_def)
    with mv have "pay_moves F (Holding i g (Choosing (rc_ID c))) s (Holding i g Ready) s'"
      by (simp add: pay_moves_def)
    with ok show ?thesis by simp
  qed
qed simp

text \<open>What redeeming the order's code leaves behind.\<close>

definition redeemed :: "int \<Rightarrow> goods \<Rightarrow> pay_error + 'a \<Rightarrow> mode \<Rightarrow> bool" where
  "redeemed i g r m \<longleftrightarrow> (case r of Inl _ \<Rightarrow> in_hand i g m | Inr _ \<Rightarrow> m = Holding i g Ready)"

lemma redeemed_simps [simp]:
  "redeemed i g (Inl e) m = in_hand i g m" "redeemed i g (Inr a) m \<longleftrightarrow> m = Holding i g Ready"
  by (simp_all add: redeemed_def)

lemma safe_redeem_locked:
  assumes bal: "goods_type g \<noteq> OrderTypeSubscription"
  shows "lock.safe F (redeem_locked cfg u (goods_code g)) (redeemed i g) (Holding i g Locked)"
  unfolding redeem_locked_def
proof (rule lock.safe_then [OF safe_find_code [OF bal, of Choosing]], simp, goal_cases)
  case (1 found n)
  have stop: "lock.safe F (ignoring (incrementRedeemErrorCount cfg u) (Done (Inl e :: pay_error + RedeemCode))) (redeemed i g) n" for e
    by (rule lock.safe_ignoring [OF order_op_keeps [OF benign.each_redeem_cache(2)]])
      (use 1 in \<open>auto split: sum.splits\<close>)
  show ?case
  proof (cases found)
    case (Inl e)
    with stop 1 show ?thesis by simp
  next
    case (Inr c)
    with 1 have n: "n = Holding i g (if rc_Status c = StatusUsed then Ready else Choosing (rc_ID c))" by simp
    have redeem: "lock.safe F (or_return (get_user u) (\<lambda>user. or_return (redeem_tx cfg user c)
        (\<lambda>_. repo_code_GetByID (rc_ID c)))) (redeemed i g) (Holding i g (Choosing (rc_ID c)))"
    proof (rule lock.safe_or_return [OF order_op_keeps [OF benign.each_get_user]], goal_cases)
      case (2 user k)
      show ?case
      proof (rule lock.safe_or_return [where R = "\<lambda>r m. m = Holding i g (case r of Inl _ \<Rightarrow> Choosing (rc_ID c) | Inr _ \<Rightarrow> Ready)"])
        show "lock.safe F (redeem_tx cfg user c) (\<lambda>r m. m = Holding i g (case r of Inl _ \<Rightarrow> Choosing (rc_ID c) | Inr _ \<Rightarrow> Ready)) k"
          using safe_redeem_tx [OF bal] 2 by simp
        fix a l assume "l = Holding i g (case Inr a of Inl _ \<Rightarrow> Choosing (rc_ID c) | Inr _ \<Rightarrow> Ready)"
        then have "l = Holding i g Ready" by simp
        then show "lock.safe F (repo_code_GetByID (rc_ID c)) (redeemed i g) l"
          by (intro lock.safe_mono [OF order_op_keeps [OF benign.each_repo_codes(2)]]) (auto split: sum.splits simp: redeemed_def)
      qed simp
    qed simp
    have "lock.safe F (then_do now_is (\<lambda>now.
         if RedeemCode_IsExpiredAt (Some c) now
         then ignoring (incrementRedeemErrorCount cfg u) (Done (Inl (App ''REDEEM_CODE_EXPIRED'')))
         else if \<not> RedeemCode_CanUse now c
         then ignoring (incrementRedeemErrorCount cfg u) (Done (Inl (App ''REDEEM_CODE_USED'')))
         else case check_type c of Some e \<Rightarrow> Done (Inl e)
         | None \<Rightarrow> or_return (get_user u) (\<lambda>user. or_return (redeem_tx cfg user c)
             (\<lambda>_. repo_code_GetByID (rc_ID c))))) (redeemed i g) n"
    proof (rule lock.safe_then [OF safe_now_is], goal_cases)
      case (1 now k)
      then have k: "k = n" by simp
      show ?case unfolding k
      proof (intro lock.safe_if stop)
        assume "\<not> \<not> RedeemCode_CanUse now c"
        then have "rc_Status c \<noteq> StatusUsed" by (auto simp: RedeemCode_CanUse_def)
        with n redeem show "lock.safe F (case check_type c of Some e \<Rightarrow> Done (Inl e)
         | None \<Rightarrow> or_return (get_user u) (\<lambda>user. or_return (redeem_tx cfg user c)
             (\<lambda>_. repo_code_GetByID (rc_ID c)))) (redeemed i g) n"
          by (auto split: option.split)
      qed
    qed
    with Inr show ?thesis by simp
  qed
qed

lemma safe_Redeem:
  assumes bal: "goods_type g \<noteq> OrderTypeSubscription"
  shows "lock.safe F (Redeem cfg u (goods_code g)) (redeemed i g) (Holding i g Locked)"
  unfolding Redeem_def
proof (rule lock.safe_or_return [OF order_op_keeps [OF benign.each_redeem_cache(1)]], simp, goal_cases)
  case (1 x n)
  show ?case
  proof (rule lock.safe_then [OF order_op_keeps [OF benign.each_redeem_cache(3)]], goal_cases)
    case (1 ok k)
    with \<open>n = Holding i g Locked\<close> have k: "k = Holding i g Locked" by simp
    have "lock.safe F (then_do (redeem_locked cfg u (goods_code g)) (\<lambda>r. ignoring (releaseRedeemLock cfg (goods_code g)) (Done r)))
        (redeemed i g) k"
      unfolding k by (rule lock.safe_then [OF safe_redeem_locked [OF bal]])
        (rule lock.safe_ignoring [OF order_op_keeps [OF benign.each_redeem_cache(4)]], simp)
    with k show ?case by simp
  qed
qed

lemma safe_redeem_order:
  assumes "po_ID ord = i" and "po_RechargeCode ord = goods_code g" and bal: "goods_type g \<noteq> OrderTypeSubscription"
  shows "lock.safe F (redeem_order cfg ord) (failed_in_hand i g) (Holding i g Locked)"
  unfolding redeem_order_def finish_balance_def assms(2)
proof (rule lock.safe_or_return [OF safe_Redeem [OF bal]])
  show "redeemed i g (Inl e) n \<Longrightarrow> failed_in_hand i g (Inl e) n" for e n by (simp add: failed_in_hand_def)
  show "redeemed i g (Inr c) n \<Longrightarrow> lock.safe F (or_return (applyAffiliateRebateForOrder cfg ord)
      (\<lambda>_. markCompleted ord A_RECHARGE_SUCCESS)) (failed_in_hand i g) n" for c n
    using safe_finish [OF assms(1)] by simp
qed

lemma safe_doBalance:
  assumes "po_ID ord = i" and "po_RechargeCode ord = goods_code g" and bal: "goods_type g \<noteq> OrderTypeSubscription"
  shows "lock.safe F (doBalance cfg ord) (failed_in_hand i g) (Holding i g Locked)"
  unfolding doBalance_def assms(2)
proof (rule lock.safe_then [OF safe_find_code [OF bal, of "\<lambda>_. Locked"]], simp, goal_cases)
  case (1 found n)
  have finish: "lock.safe F (finish_balance cfg ord) (failed_in_hand i g) (Holding i g Ready)"
    unfolding finish_balance_def using safe_finish [OF assms(1)] by simp
  have redeem: "lock.safe F (redeem_order cfg ord) (failed_in_hand i g) (Holding i g Locked)"
    by (rule safe_redeem_order [OF assms])
  have create: "lock.safe F (or_return (CreateCode (new_code (goods_code g) RedeemTypeBalance (po_Amount ord)))
      (\<lambda>_. redeem_order cfg ord)) (failed_in_hand i g) (Holding i g Locked)"
    by (rule lock.safe_or_return [OF order_op_keeps [OF benign.each_CreateCode]])
      (use redeem in \<open>auto simp: failed_in_hand_def\<close>)
  show ?case using 1 finish redeem create
    by (auto simp: resolveRedeemAction_def RedeemCode_IsUsed_def split: sum.splits if_splits)
qed

section \<open>Fulfilment\<close>

definition order_goods :: "PaymentOrder \<Rightarrow> goods" where
  "order_goods ord = Goods (po_OrderType ord) (po_RechargeCode ord)"

lemma order_goods_simps [simp]:
  "goods_type (order_goods ord) = po_OrderType ord" "goods_code (order_goods ord) = po_RechargeCode ord"
  by (simp_all add: order_goods_def)

lemma order_by_id_goods: "order_by_id i s = Some ord \<Longrightarrow> goods_of i s = Some (order_goods ord) \<and> po_ID ord = i"
  by (auto simp: goods_of_def order_goods_def order_by_id_def find_Some_iff)

lemma safe_get_order:
  "lock.safe F (get_order i) (\<lambda>r m. case r of
       Inr (Some ord) \<Rightarrow> po_ID ord = i \<and> m = Seen i (order_goods ord) | _ \<Rightarrow> held m = None) Idle"
  unfolding get_order_def sql_query_def
proof (rule safe_sql)
  fix s assume inv: "own_inv F s"
  show "\<exists>m'. pay_moves F Idle s m' (snd (Inr (order_by_id i s), s)) \<and>
      (case fst (Inr (order_by_id i s), s) of Inr (Some ord) \<Rightarrow> po_ID ord = i \<and> m' = Seen i (order_goods ord)
        | _ \<Rightarrow> held m' = None)"
  proof (cases "order_by_id i s")
    case None
    then show ?thesis using stay_move [OF inv, of Idle] by (intro exI [of _ Idle]) simp
  next
    case (Some ord)
    then show ?thesis using stay_move [OF inv, of "Seen i (order_goods ord)"] order_by_id_goods [OF Some] by simp
  qed
qed simp

text \<open>The second read gives the same goods.\<close>

lemma safe_found_order:
  "lock.safe F (found_order i) (\<lambda>r m. case r of
       Inr ord \<Rightarrow> po_ID ord = i \<and> order_goods ord = g \<and> m = Seen i g | Inl _ \<Rightarrow> True) (Seen i g)"
proof -
  have "lock.safe F (get_order i) (\<lambda>r m. case r of
       Inr (Some ord) \<Rightarrow> po_ID ord = i \<and> order_goods ord = g \<and> m = Seen i g | _ \<Rightarrow> True) (Seen i g)"
    unfolding get_order_def sql_query_def
  proof (rule safe_sql)
    fix s assume inv: "own_inv F s" and kn: "pay_knows F (Seen i g) s"
    have "order_goods ord = g \<and> po_ID ord = i" if "order_by_id i s = Some ord" for ord
      using order_by_id_goods [OF that] kn by simp
    then show "\<exists>m'. pay_moves F (Seen i g) s m' (snd (Inr (order_by_id i s), s)) \<and>
        (case fst (Inr (order_by_id i s), s) of
          Inr (Some ord) \<Rightarrow> po_ID ord = i \<and> order_goods ord = g \<and> m' = Seen i g | _ \<Rightarrow> True)"
      using stay_move [OF inv kn] by (intro exI [of _ "Seen i g"]) (auto split: option.split)
  qed simp
  then show ?thesis unfolding found_order_def
    by (rule lock.safe_then) (auto split: sum.splits option.splits)
qed

lemma safe_fulfill_locked:
  assumes "po_ID ord = i" and work: "lock.safe F work (failed_in_hand i g) (Holding i g Locked)"
  shows "lock.safe F (fulfill_locked ord work) (\<lambda>_ _. True) (Seen i g)"
  unfolding fulfill_locked_def assms(1)
proof (rule lock.safe_or_return [OF safe_lock_order [where g = g]], simp, goal_cases)
  case (1 n k)
  show ?case
  proof (rule lock.safe_if)
    assume "n \<noteq> 0"
    with 1 have k: "k = Holding i g Locked" by simp
    show "lock.safe F (then_do work (\<lambda>r. case r of Inl e \<Rightarrow> ignoring (markFailed i e) (Done (Inl e))
         | Inr _ \<Rightarrow> Done (Inr ()))) (\<lambda>_ _. True) k"
      unfolding k by (rule lock.safe_then [OF work])
        (auto simp: failed_in_hand_def split: sum.split intro!: lock.safe_ignoring [OF safe_markFailed])
  qed simp
qed

lemma safe_check_fulfillable:
  "lock.safe F t (\<lambda>_ _. True) m \<Longrightarrow> lock.safe F (check_fulfillable ord t) (\<lambda>_ _. True) m"
  by (simp add: check_fulfillable_def)

lemma safe_ExecuteBalance:
  assumes "goods_type g \<noteq> OrderTypeSubscription"
  shows "lock.safe F (ExecuteBalanceFulfillment cfg i) (\<lambda>_ _. True) (Seen i g)"
  unfolding ExecuteBalanceFulfillment_def
  by (rule lock.safe_or_return [OF safe_found_order])
    (use assms in \<open>auto intro!: safe_check_fulfillable safe_fulfill_locked safe_doBalance\<close>)

lemma safe_ExecuteSubscription:
  assumes "goods_type g = OrderTypeSubscription"
  shows "lock.safe F (ExecuteSubscriptionFulfillment cfg i) (\<lambda>_ _. True) (Seen i g)"
  unfolding ExecuteSubscriptionFulfillment_def
  by (rule lock.safe_or_return [OF safe_found_order])
    (use assms in \<open>auto intro!: safe_check_fulfillable safe_fulfill_locked safe_doSub split: option.split\<close>)

lemma free_executeFulfillment: "lock.free F (executeFulfillment cfg i)"
  unfolding executeFulfillment_def
proof (rule idle_free, rule lock.safe_or_return [OF safe_get_order], simp, goal_cases)
  case (1 found m)
  then show ?case
    by (auto split: option.splits intro: safe_ExecuteBalance safe_ExecuteSubscription)
qed

section \<open>Refunds\<close>

text \<open>A refund writes the status without looking at it, but only of an order it has seen settled.\<close>

lemma safe_closed_update:
  assumes sg: "same_goods f" and st: "\<And>r. settled (po_Status (f r))"
  shows "lock.safe F (update_one i f) (\<lambda>_ m. m = Closed i g) (Closed i g)"
  unfolding update_one_def
proof (rule safe_sql)
  fix s assume inv: "own_inv F s" and kn: "pay_knows F (Closed i g) s"
  let ?s = "s\<lparr>ps_orders := changed_orders (ps_clock s) (\<lambda>r. po_ID r = i) f (ps_orders s)\<rparr>"
  from kn obtain r where r: "order_by_id i s = Some r" "goods_of i s = Some g" "is_settled i s"
    by (auto simp: goods_of_def)
  then have "po_ID r = i" by (auto simp: order_by_id_def find_Some_iff)
  with r have st': "status_of i ?s = Some (po_Status (f r))" unfolding status_changed [OF sg] by simp
  have not: "status_of i s \<noteq> Some RECHARGING" using r(3) by (auto simp: is_settled_def)
  have gs': "goods_of i ?s = Some g" using goods_changed [OF sg] r by simp
  have "pay_moves F (Closed i g) s (Closed i g) ?s"
  proof (rule order_move [OF sg _ inv _ _ _ _ _ _ _ r(2)])
    show "handed i g s" using own_invD(6) [OF inv r(3,2)] .
    show "is_settled i ?s" using st st' by (simp add: is_settled_def)
    show "status_of i ?s = Some RECHARGING \<or> safe_log i s" using own_invD(4) [OF inv, of i] not by blast
    show "i \<in> F \<Longrightarrow> status_of i ?s = Some RECHARGING" using own_invD(7) [OF inv, of i] not by blast
    show "pay_knows F (Closed i g) ?s" using gs' st st' by (simp add: is_settled_def)
  qed (use not in simp_all)
  with r(1) show "\<exists>m'. pay_moves F (Closed i g) s m' (snd (if order_by_id i s = None then (Inl StoreError, s) else (Inr (), ?s)))
      \<and> m' = Closed i g" by simp
qed simp

lemma refund_settled [simp]:
  "settled REFUND_REQUESTED" "settled REFUNDED" "settled PARTIALLY_REFUNDED" "settled REFUND_PENDING"
  "settled REFUND_FAILED" "settled REFUNDING"
  by (simp_all add: settled_def psIsRefundStatus_def)

text \<open>A task that keeps working on a settled order.\<close>

definition keeps_closed :: "int set \<Rightarrow> int \<Rightarrow> (pay_store, 'a) task \<Rightarrow> bool" where
  "keeps_closed F i t \<longleftrightarrow> (\<forall>g. lock.safe F t (\<lambda>_ m. m = Closed i g) (Closed i g))"

lemma closed_benign: "each benign_step t \<Longrightarrow> keeps_closed F i t"
  by (simp add: keeps_closed_def order_op_keeps)

lemma closed_Done: "keeps_closed F i (Done a)"
  by (simp add: keeps_closed_def)

lemma closed_then_do: "keeps_closed F i t \<Longrightarrow> (\<And>a. keeps_closed F i (f a)) \<Longrightarrow> keeps_closed F i (then_do t f)"
  unfolding keeps_closed_def by (blast intro: lock.safe_then)

lemma closed_ignoring: "keeps_closed F i t \<Longrightarrow> keeps_closed F i u \<Longrightarrow> keeps_closed F i (ignoring t u)"
  unfolding ignoring_def by (rule closed_then_do)

lemma closed_or_return: "keeps_closed F i t \<Longrightarrow> (\<And>a. keeps_closed F i (f a)) \<Longrightarrow> keeps_closed F i (or_return t f)"
  unfolding or_return_def by (rule closed_then_do) (auto simp: closed_Done split: sum.split)

lemma closed_sum: "(\<And>e. keeps_closed F i (f e)) \<Longrightarrow> (\<And>a. keeps_closed F i (h a)) \<Longrightarrow>
    keeps_closed F i (case x of Inl e \<Rightarrow> f e | Inr a \<Rightarrow> h a)"
  by (cases x) simp_all

lemma closed_option: "keeps_closed F i t \<Longrightarrow> (\<And>a. keeps_closed F i (h a)) \<Longrightarrow>
    keeps_closed F i (case x of None \<Rightarrow> t | Some a \<Rightarrow> h a)"
  by (cases x) simp_all

lemma closed_if: "keeps_closed F i t \<Longrightarrow> keeps_closed F i u \<Longrightarrow> keeps_closed F i (if b then t else u)"
  by simp

lemma closed_update: "same_goods f \<Longrightarrow> (\<And>r. settled (po_Status (f r))) \<Longrightarrow> keeps_closed F i (update_one i f)"
  by (simp add: keeps_closed_def safe_closed_update)

lemmas closed_rules = closed_Done closed_ignoring closed_or_return closed_if closed_sum closed_option closed_then_do

lemma closed_restore: "plan_id p = i \<Longrightarrow> keeps_closed F i (restoreStatus p)"
  unfolding restoreStatus_def by (intro closed_ignoring closed_Done) (auto intro!: closed_update simp: same_goods_def)

lemma closed_marks:
  assumes "plan_id p = i"
  shows "keeps_closed F i (markRefundOk p)" and "keeps_closed F i (markRefundPending cfg p resp)"
    and "keeps_closed F i (handleGwFail cfg p e)" and "keeps_closed F i (restoring p e')"
proof -
  show "keeps_closed F i (markRefundOk p)"
    unfolding markRefundOk_def assms
    by (intro closed_then_do closed_or_return closed_ignoring closed_Done closed_update; (rule closed_benign)?)
      (auto simp: same_goods_def refunded_def intro!: each)
  show "keeps_closed F i (markRefundPending cfg p resp)"
    unfolding markRefundPending_def assms
    by (intro closed_then_do closed_or_return closed_ignoring closed_Done closed_update; (rule closed_benign)?)
      (auto simp: same_goods_def refund_pending_def intro!: each)
  show "keeps_closed F i (restoring p e')"
    unfolding restoring_def by (intro closed_ignoring closed_Done closed_restore assms)
  show "keeps_closed F i (handleGwFail cfg p e)"
    unfolding handleGwFail_def assms
    by (intro closed_if closed_then_do closed_ignoring closed_Done closed_restore assms closed_update; (rule closed_benign)?)
      (auto simp: same_goods_def refund_failed_def intro!: each)
qed

lemma closed_finishRefund: "plan_id p = i \<Longrightarrow> keeps_closed F i (finishRefund cfg p resp)"
  unfolding finishRefund_def by (auto intro!: closed_marks split: option.split)

lemma safe_deduct_first:
  "lock.safe F (deduct_first cfg p) (\<lambda>r m. m = Closed (plan_id p) g \<and> (\<forall>q. r = Inr q \<longrightarrow> plan_id q = plan_id p))
     (Closed (plan_id p) g)"
proof -
  let ?Q = "\<lambda>(r :: pay_error + RefundPlan) m. m = Closed (plan_id p) g \<and> (\<forall>q. r = Inr q \<longrightarrow> plan_id q = plan_id p)"
  have stop: "lock.safe F (restoring p e) ?Q (Closed (plan_id p) g)" for e
  proof -
    have "lock.safe F (restoreStatus p) (\<lambda>_ m. m = Closed (plan_id p) g) (Closed (plan_id p) g)"
      using closed_restore [OF refl, of F p] by (simp add: keeps_closed_def)
    then show ?thesis unfolding restoring_def by (rule lock.safe_ignoring) simp
  qed
  have branch: "lock.safe F (then_do (hasAuditLog (plan_id p) A_REFUND_ROLLBACK_FAILED) (\<lambda>skip.
          if skip then Done (Inr q)
          else then_do m (\<lambda>r. case r of Inl e \<Rightarrow> restoring p e | Inr _ \<Rightarrow> Done (Inr p)))) ?Q (Closed (plan_id p) g)"
    if "plan_id q = plan_id p" and "each benign_step m" for q and m :: "unit pay_task"
    by (rule lock.safe_then [OF order_op_keeps [OF benign.each_hasAuditLog]])
      (use that stop in \<open>auto intro!: lock.safe_then [OF order_op_keeps] split: sum.split\<close>)
  show ?thesis unfolding deduct_first_def
    by (intro lock.safe_if branch benign.each_deductions) (simp_all add: plan_id_def)
qed

lemma safe_ExecuteRefund: "keeps_closed F (plan_id p) (ExecuteRefund cfg p)"
  unfolding keeps_closed_def ExecuteRefund_def
proof
  fix g
  have rest: "lock.safe F (or_return (deduct_first cfg p) (\<lambda>q. then_do (gwRefund cfg q) (\<lambda>r. case r of
      Inl e \<Rightarrow> handleGwFail cfg q e | Inr resp \<Rightarrow> finishRefund cfg q resp)))
      (\<lambda>_ m. m = Closed (plan_id p) g) (Closed (plan_id p) g)"
  proof (rule lock.safe_or_return [OF safe_deduct_first [of F cfg p g]], simp, goal_cases)
    case (1 q n)
    then have q: "plan_id q = plan_id p" and n: "n = Closed (plan_id p) g" by simp_all
    have "keeps_closed F (plan_id p) (then_do (gwRefund cfg q) (\<lambda>r. case r of
        Inl e \<Rightarrow> handleGwFail cfg q e | Inr resp \<Rightarrow> finishRefund cfg q resp))"
      by (intro closed_then_do closed_benign benign.each_gwRefund closed_sum closed_marks closed_finishRefund q)
    with n show ?case by (simp add: keeps_closed_def)
  qed
  show "lock.safe F (or_return (update_orders (\<lambda>r. po_ID r = plan_id p \<and> refundable (po_Status r))
         (\<lambda>r. r\<lparr>po_Status := REFUNDING\<rparr>)) (\<lambda>c.
     if c = 0 then Done (Inl (App ''CONFLICT''))
     else or_return (deduct_first cfg p) (\<lambda>q.
       then_do (gwRefund cfg q) (\<lambda>r. case r of
         Inl e \<Rightarrow> handleGwFail cfg q e | Inr resp \<Rightarrow> finishRefund cfg q resp))))
     (\<lambda>_ m. m = Closed (plan_id p) g) (Closed (plan_id p) g)"
    by (rule lock.safe_or_return [OF order_op_keeps [OF benign.each_update_orders [OF benign.benign_refunding]]])
      (use rest in auto)
qed

text \<open>Reading an order: a settled one is remembered as such.\<close>

lemma safe_found_settled:
  "lock.safe F (found_order i) (\<lambda>r m. case r of
       Inr ord \<Rightarrow> po_ID ord = i \<and> (settled (po_Status ord) \<longrightarrow> m = Closed i (order_goods ord)) | Inl _ \<Rightarrow> True) Idle"
proof -
  have "lock.safe F (get_order i) (\<lambda>r m. case r of
       Inr (Some ord) \<Rightarrow> po_ID ord = i \<and> (settled (po_Status ord) \<longrightarrow> m = Closed i (order_goods ord)) | _ \<Rightarrow> True) Idle"
    unfolding get_order_def sql_query_def
  proof (rule safe_sql)
    fix s assume inv: "own_inv F s"
    let ?m = "case order_by_id i s of Some ord \<Rightarrow> if settled (po_Status ord) then Closed i (order_goods ord) else Idle
        | None \<Rightarrow> Idle"
    have "pay_knows F ?m s \<and> held ?m = None"
      using order_by_id_goods [of i s] by (auto simp: is_settled_def status_of_def split: option.split)
    then have "pay_moves F Idle s ?m s" using stay_move [OF inv] by blast
    then show "\<exists>m'. pay_moves F Idle s m' (snd (Inr (order_by_id i s), s)) \<and>
        (case fst (Inr (order_by_id i s), s) of
          Inr (Some ord) \<Rightarrow> po_ID ord = i \<and> (settled (po_Status ord) \<longrightarrow> m' = Closed i (order_goods ord)) | _ \<Rightarrow> True)"
      using order_by_id_goods [of i s] by (intro exI [of _ ?m]) (auto split: option.split)
  qed simp
  then show ?thesis unfolding found_order_def
    by (rule lock.safe_then) (auto split: sum.splits option.splits)
qed

lemma free_admin_refund: "lock.free F (admin_refund cfg dd i amount reason force deduct)"
proof (rule idle_free)
  let ?Q = "\<lambda>r m. \<forall>p. r = Inr (Inr p) \<longrightarrow> plan_id p = i \<and> (\<exists>g. m = Closed i g)"
  have prep: "lock.safe F (PrepareRefund cfg dd i amount reason force deduct) ?Q Idle"
    unfolding PrepareRefund_def
  proof (rule lock.safe_or_return [OF safe_found_settled], simp, goal_cases)
    case (1 ord m)
    then have id: "po_ID ord = i" and closed: "settled (po_Status ord) \<Longrightarrow> m = Closed i (order_goods ord)" by simp_all
    have deduct: "results (\<lambda>r. \<forall>q. r = Inr q \<longrightarrow> plan_id q = plan_id p) (prepDeduct cfg ord p force)" for p
      unfolding prepDeduct_def Let_def by (intro results) (auto simp: plan_id_def intro!: results split: option.split)
    have plan: "plan_id (plan_of dd ord amt rsn force d) = i" for amt rsn d
      using id by (simp add: plan_id_def plan_of_def)
    show ?case
    proof (rule lock.safe_if)
      assume "\<not> \<not> refundable (po_Status ord)"
      then have "settled (po_Status ord)" by (auto simp: refundable_def)
      with closed have m: "m = Closed i (order_goods ord)" by simp
      define P where "P r \<longleftrightarrow> (\<forall>p. r = Inr (Inr p) \<longrightarrow> plan_id p = i)" for r :: "pay_error + RefundResult + RefundPlan"
      let ?t = "then_do (getRefundOrderProviderInstance ord) (\<lambda>found. case found of
           Inl _ \<Rightarrow> Done (Inl (App ''PROVIDER_LOOKUP_FAILED''))
         | Inr None \<Rightarrow> Done (Inl (App ''REFUND_DISABLED''))
         | Inr (Some inst) \<Rightarrow>
             if \<not> pi_RefundEnabled inst then Done (Inl (App ''REFUND_DISABLED''))
             else case amount of
               Number x \<Rightarrow>
                 let amt = (if x \<le> 0 then po_Amount ord else x) in
                 if paymentAmountToleranceForCurrency (PaymentOrderCurrency ord) < fsub amt (po_Amount ord)
                 then Done (Inl (App ''REFUND_AMOUNT_EXCEEDED''))
                 else
                   let p = plan_of dd ord amt (refund_reason ord reason) force deduct in
                   if deduct then then_do (prepDeduct cfg ord p force) (\<lambda>r. Done (Inr r)) else Done (Inr (Inr p))
             | _ \<Rightarrow> Done (Inl (App ''INVALID_AMOUNT'')))"
      have "each benign_step ?t" unfolding Let_def by (intro each)
      moreover have P: "P (Inl e)" "P (Inr (Inl early))" "plan_id p = i \<Longrightarrow> P (Inr (Inr p))" for e early p
        by (simp_all add: P_def)
      have pd: "results P (then_do (prepDeduct cfg ord p force) (\<lambda>r. Done (Inr r)))" if "plan_id p = i" for p
        by (rule results_then_do, rule results_mono [OF deduct [of p]]) (use that in \<open>auto simp: P_def\<close>)
      have "results P ?t" unfolding Let_def
        by (rule results_then, cases deduct)
          (simp_all add: P plan pd split: sum.split option.split go_number.split)
      ultimately have "lock.safe F ?t (\<lambda>a n. n = m \<and> P a) m" by (rule safe_benign)
      then show "lock.safe F ?t ?Q m" by (rule lock.safe_mono) (use m in \<open>auto simp: P_def\<close>)
    qed simp
  qed
  show "lock.safe F (admin_refund cfg dd i amount reason force deduct) (\<lambda>_ _. True) Idle"
    unfolding admin_refund_def
  proof (rule lock.safe_or_return [OF prep], simp, goal_cases)
    case (1 r m)
    then show ?case
      using safe_ExecuteRefund [of F _ cfg] unfolding keeps_closed_def
      by (cases r) (auto intro: lock.safe_mono)
  qed
qed

lemma closed_finalizeFailed:
  assumes "po_ID ord = i"
  shows "keeps_closed F i (finalizeRefundFailed ord e)"
  unfolding finalizeRefundFailed_def assms
  by (intro closed_then_do closed_ignoring closed_Done closed_update; (rule closed_benign)?)
    (auto simp: same_goods_def refund_failed_def intro!: each)

lemma finalize_plan_id:
  "results (\<lambda>r. \<forall>q. r = Inr q \<longrightarrow> plan_id q = po_ID ord) (finalize_plan cfg dd ord detail)"
proof -
  have p: "plan_id (refundFinalizePlan dd ord) = po_ID ord" by (simp add: plan_id_def refundFinalizePlan_def plan_of_def)
  then have "results (\<lambda>r. \<forall>q. r = Inr q \<longrightarrow> plan_id q = po_ID ord) (prepDeduct cfg ord (refundFinalizePlan dd ord) True)"
    unfolding prepDeduct_def Let_def by (intro results) (auto simp: plan_id_def intro!: results split: option.split)
  then show ?thesis using p unfolding finalize_plan_def Let_def by (auto simp: plan_id_def)
qed

lemma finalDeduction_id:
  "results (\<lambda>r. \<forall>q. r = Inr q \<longrightarrow> plan_id q = plan_id p) (applyRefundFinalDeduction cfg p)"
  unfolding applyRefundFinalDeduction_def by (intro results) (auto simp: plan_id_def intro!: results)

lemma closed_results:
  assumes "each benign_step t" and "results P t" and "\<And>a. P a \<Longrightarrow> keeps_closed F i (f a)"
  shows "keeps_closed F i (then_do t f)"
  unfolding keeps_closed_def
proof
  fix g
  show "lock.safe F (then_do t f) (\<lambda>_ m. m = Closed i g) (Closed i g)"
    by (rule lock.safe_then [OF safe_benign [OF assms(1,2)]]) (use assms(3) in \<open>auto simp: keeps_closed_def\<close>)
qed

lemma closed_or_results:
  assumes "each benign_step t" and "results (\<lambda>r. \<forall>q. r = Inr q \<longrightarrow> P q) t"
    and "\<And>q. P q \<Longrightarrow> keeps_closed F i (f q)"
  shows "keeps_closed F i (or_return t f)"
  unfolding or_return_def
  by (rule closed_results [OF assms(1,2)]) (auto simp: closed_Done assms(3) split: sum.split)

lemma free_QueryAndFinalize: "lock.free F (QueryAndFinalizeRefund cfg dd i)"
  unfolding QueryAndFinalizeRefund_def
proof (rule idle_free, rule lock.safe_or_return [OF safe_found_settled], simp, goal_cases)
  case (1 ord m)
  then have id: "po_ID ord = i" and closed: "settled (po_Status ord) \<Longrightarrow> m = Closed i (order_goods ord)" by simp_all
  let ?ends = "\<lambda>p resp. if is_done resp then or_return (applyRefundFinalDeduction cfg p) markRefundOk
      else ignoring (writeAuditLog i A_REFUND_QUERY_PENDING ''admin'' None) (Done (Inr not_refunded))"
  have ends: "keeps_closed F i (?ends p resp)" if "plan_id p = i" for p resp
    by (intro closed_if closed_or_results [OF benign.each_finalDeduction(1) finalDeduction_id] closed_ignoring
        closed_benign closed_marks(1)) (use that in \<open>auto intro!: each\<close>)
  have tail: "keeps_closed F i (then_do (finalize_plan cfg dd ord detail) (\<lambda>r. case r of
      Inl early \<Rightarrow> Done (Inr early) | Inr p \<Rightarrow> ?ends p resp))" for detail resp
    by (rule closed_results [OF benign.each_finalDeduction(3) finalize_plan_id])
      (use ends id in \<open>auto simp: closed_Done split: sum.split\<close>)
  show ?case
  proof (rule lock.safe_if)
    assume "\<not> po_Status ord \<noteq> REFUND_PENDING"
    with closed have m: "m = Closed i (order_goods ord)" by simp
    have "keeps_closed F i (or_return (getRefundProvider cfg ord) (\<lambda>prov.
         if \<not> pv_RefundQuery prov then Done (Inl (App ''REFUND_QUERY_UNSUPPORTED''))
         else then_do (latestRefundPendingDetail i) (\<lambda>detail.
           then_do query_refund_upstream (\<lambda>answer. case answer of
             Inl _ \<Rightarrow> Done (Inl (App ''query refund''))
           | Inr resp \<Rightarrow> (case validateRefundProviderResponse (Some resp) of
               Some e \<Rightarrow> finalizeRefundFailed ord e
             | None \<Rightarrow>
                 then_do (finalize_plan cfg dd ord detail) (\<lambda>r. case r of
                   Inl early \<Rightarrow> Done (Inr early)
                 | Inr p \<Rightarrow> ?ends p resp))))))"
      by (intro closed_or_return closed_if closed_Done closed_then_do [OF closed_benign [OF benign.each_finalDeduction(2)]]
          closed_then_do [OF closed_benign [OF benign.each_upstream(3)]] closed_sum closed_option tail
          closed_finalizeFailed [OF id] closed_benign [OF benign.each_getProvider(2)])
    then show "lock.safe F (or_return (getRefundProvider cfg ord) (\<lambda>prov.
         if \<not> pv_RefundQuery prov then Done (Inl (App ''REFUND_QUERY_UNSUPPORTED''))
         else then_do (latestRefundPendingDetail i) (\<lambda>detail.
           then_do query_refund_upstream (\<lambda>answer. case answer of
             Inl _ \<Rightarrow> Done (Inl (App ''query refund''))
           | Inr resp \<Rightarrow> (case validateRefundProviderResponse (Some resp) of
               Some e \<Rightarrow> finalizeRefundFailed ord e
             | None \<Rightarrow>
                 then_do (finalize_plan cfg dd ord detail) (\<lambda>r. case r of
                   Inl early \<Rightarrow> Done (Inr early)
                 | Inr p \<Rightarrow> ?ends p resp)))))) (\<lambda>_ _. True) m"
      unfolding m keeps_closed_def by (blast intro: lock.safe_mono)
  qed simp
qed

section \<open>Every operation\<close>

lemma free_cases:
  "lock.free F a \<Longrightarrow> lock.free F b \<Longrightarrow> lock.free F (case_cancel_outcome a b x)"
  "lock.free F a1 \<Longrightarrow> lock.free F a2 \<Longrightarrow> lock.free F a3 \<Longrightarrow> lock.free F a4 \<Longrightarrow> lock.free F a5 \<Longrightarrow> lock.free F a6 \<Longrightarrow> 
   lock.free F a7 \<Longrightarrow> lock.free F a8 \<Longrightarrow> lock.free F a9 \<Longrightarrow> lock.free F a10 \<Longrightarrow> lock.free F a11 \<Longrightarrow> lock.free F a12 \<Longrightarrow> 
   lock.free F a13 \<Longrightarrow> lock.free F (case_order_status a1 a2 a3 a4 a5 a6 a7 a8 a9 a10 a11 a12 a13 st)"
  by (cases x; simp) (cases st; simp)

lemmas free_ops = lock.free_rules free_cases free_executeFulfillment

lemma free_Retry: "lock.free F (RetryFulfillment cfg i)"
  unfolding RetryFulfillment_def
  by (intro free_ops free_benign [OF benign.each_order_queries(2)] free_benign [OF benign.each_writeAuditLog]
      free_benign [OF benign.each_update_orders [OF benign.benign_retry]] plain_actions)

lemma free_alreadyProcessed: "lock.free F (alreadyProcessed cfg i)"
  unfolding alreadyProcessed_def
  by (intro free_ops free_benign [OF benign.each_order_queries(1)] free_benign [OF benign.each_writeAuditLog] plain_actions)

lemma free_toPaid: "lock.free F (toPaid cfg ord k x pk)"
  unfolding toPaid_def
  by (intro free_ops free_alreadyProcessed free_benign [OF benign.each_now_is] free_benign [OF benign.each_writeAuditLog]
      free_benign [OF benign.each_update_orders [OF benign.benign_paid]] plain_actions)

lemma free_rejected: "plain_action act \<Longrightarrow> lock.free F (rejected i act pk why)"
  unfolding rejected_def by (intro free_ops free_benign [OF benign.each_writeAuditLog])

lemma free_confirm_checked: "lock.free F (confirm_checked cfg ord k t x pk md)"
  unfolding confirm_checked_def Let_def
  by (intro free_ops free_toPaid free_rejected free_benign [OF benign.each_writeAuditLog] plain_actions)

lemma free_confirmPayment: "lock.free F (confirmPayment cfg i t x pk md)"
  unfolding confirmPayment_def
  by (intro free_ops free_confirm_checked free_benign [OF benign.each_order_queries(1)]
      free_benign [OF benign.each_getInstance(1)])

lemma free_Notification: "lock.free F (HandlePaymentNotification cfg n pk)"
  unfolding HandlePaymentNotification_def
  by (intro free_ops free_confirmPayment free_benign [OF benign.each_sql_query])

lemma free_paid_upstream: "lock.free F (paid_upstream cfg ord p ref resp)"
  unfolding paid_upstream_def Let_def
  by (intro free_ops free_Notification free_benign [OF benign.each_update_orders [OF benign.benign_trade_no]])

lemma free_checkPaid: "lock.free F (checkPaidWithOptions cfg ord)"
  unfolding checkPaidWithOptions_def Let_def
  by (intro free_ops free_paid_upstream free_benign [OF benign.each_getProvider(1)] free_benign [OF benign.each_upstream(1)]
      free_benign [OF benign.each_writeAuditLog] free_benign [OF benign.each_requery] plain_actions)

lemma free_cancelCore: "st = CANCELLED \<or> st = EXPIRED \<Longrightarrow> lock.free F (cancelCore cfg ord st op)"
  unfolding cancelCore_def
  by (intro free_ops free_checkPaid free_benign [OF benign.each_update_orders [OF benign.benign_cancel]]
      free_benign [OF benign.each_writeAuditLog] plain_actions)

lemma free_cancels: "lock.free F (CancelOrder cfg i u)" "lock.free F (AdminCancelOrder cfg i)"
  unfolding CancelOrder_def AdminCancelOrder_def
  by (intro free_ops free_cancelCore free_benign [OF benign.each_order_queries(2)]; simp)+

lemma free_expire_loop: "lock.free F (expire_loop cfg rows n)"
  by (induction rows arbitrary: n) (auto intro!: free_ops free_cancelCore split: sum.split cancel_outcome.split)

lemma free_reconcile_loop: "lock.free F (reconcile_loop cfg rows n)"
  by (induction rows arbitrary: n) (auto intro!: free_ops free_checkPaid)

lemma free_jobs:
  "lock.free F (ExpireTimedOutOrders cfg)" "lock.free F (ReconcilePendingWxpayOrders cfg)"
  "lock.free F (VerifyOrderByOutTradeNo cfg raw u)"
  unfolding ExpireTimedOutOrders_def ReconcilePendingWxpayOrders_def VerifyOrderByOutTradeNo_def
  by (intro free_ops free_expire_loop free_reconcile_loop free_checkPaid free_benign [OF benign.each_now_is]
      free_benign [OF benign.each_order_queries(1)] free_benign [OF benign.each_order_queries(3)]
      free_benign [OF benign.each_order_queries(6)])+

lemma free_finish: "lock.free F t \<Longrightarrow> lock.free F (finish t)"
  unfolding finish_def by (intro free_ops)

lemma safe_pay_operation:
  assumes "pay_operation cfg dd t"
  shows "lock.safe F t (\<lambda>_ _. True) Idle"
proof (rule lock.free_safe)
  show "lock.free F t" using assms
    by cases (auto intro!: free_finish free_Notification free_Retry free_cancels free_jobs free_admin_refund
      free_QueryAndFinalize intro: free_benign simp: benign.each_createOrderInTx benign.each_RequestRefund
      benign.each_Redeem benign.each_CreateCode benign.each_GenerateCodes free_benign)
qed

section \<open>In every interleaving\<close>

definition before_selling :: "pay_store \<Rightarrow> bool" where
  "before_selling s \<longleftrightarrow> before_redeeming s \<and> ps_audit s = [] \<and> distinct (map po_ID (ps_orders s))
     \<and> (\<forall>r \<in> set (ps_orders s). \<not> settled (po_Status r))
     \<and> set (ps_faults s) \<subseteq> {Served, Rejected} \<and> ps_audit_faults s = []"

lemma before_selling_inv:
  assumes "before_selling s" and "\<And>i. i \<in> F \<Longrightarrow> status_of i s = Some RECHARGING"
  shows "own_inv F s"
proof -
  from assms(1) have led: "ps_ledger s = []" and "ps_audit s = []"
    and "\<forall>r \<in> set (ps_orders s). \<not> settled (po_Status r)" and "credit_inv s" and "distinct (order_ids s)"
    and "set (ps_faults s) \<subseteq> {Served, Rejected}" and "ps_audit_faults s = []"
    by (simp_all add: before_selling_def before_redeeming_def credit_inv_def credits_def order_ids_def)
  moreover have "assignments i s = 0" "\<not> logged i s" "\<not> success_logged i s" for i
    using calculation by (simp_all add: assignments_def logged_def success_logged_def has_entry_def)
  moreover have "\<not> is_settled i s" for i
    using calculation(3) by (auto simp: is_settled_def status_of_def order_by_id_def find_Some_iff)
  ultimately show ?thesis using assms(2) by (simp add: own_inv_def safe_log_def)
qed

lemma reachable_inv:
  assumes "pool_reachable (pay_operation cfg dd) (outside {Served, Rejected} {}) first (s, ts)"
    and "\<And>s. first s \<Longrightarrow> own_inv F s"
  shows "own_inv F s"
  using lock.pool_inv [OF assms(1) [folded pay_world_def] assms(2) safe_pay_operation] .



end
