(* ===== verification/PaymentRuns.thy ===== *)
theory PaymentRuns
  imports PaymentRefund
begin

text \<open>
  Single operations of the payment service run alone on a store whose failure scripts are empty: what
  each statement does as equations for \<open>run_task\<close>, and from them the whole way of a balance order from
  the gateway's message to the credited user, and of a refund the gateway turns down.
\<close>

section \<open>Statements without failures\<close>

definition serving :: "pay_store \<Rightarrow> bool" where
  "serving s \<longleftrightarrow> ps_faults s = [] \<and> ps_audit_faults s = [] \<and> ps_redis_faults s = []"

named_theorems served \<open>statements on a store without failures\<close>

lemma run_sql [served]: "serving s \<Longrightarrow> run_task (sql f) s = f s"
  by (simp add: sql_def under_fault_def serving_def task_run)

lemma run_audit_sql [served]: "serving s \<Longrightarrow> run_task (audit_sql f) s = f s"
  by (simp add: audit_sql_def under_fault_def serving_def task_run)

lemma run_redis [served]: "serving s \<Longrightarrow> run_task (redis f) s = (case f s of (a, s') \<Rightarrow> (Inr a, s'))"
  by (simp add: redis_def serving_def task_run split: prod.split)

lemma run_sql_query [served]: "serving s \<Longrightarrow> run_task (sql_query f) s = (Inr (f s), s)"
  by (simp add: sql_query_def served)

lemma run_now_is [served]: "run_task now_is s = (ps_clock s, s)"
  by (simp add: now_is_def task_run)

lemma serving_fields [simp]:
  "serving (s\<lparr>ps_orders := os\<rparr>) = serving s" "serving (s\<lparr>ps_codes := cs\<rparr>) = serving s"
  "serving (s\<lparr>ps_next_code := n\<rparr>) = serving s" "serving (s\<lparr>ps_users := us\<rparr>) = serving s"
  "serving (s\<lparr>ps_locks := ls\<rparr>) = serving s" "serving (s\<lparr>ps_audit := al\<rparr>) = serving s"
  "serving (s\<lparr>ps_ledger := es\<rparr>) = serving s" "serving (s\<lparr>ps_subs := t\<rparr>) = serving s"
  "serving (s\<lparr>ps_refunds := rs\<rparr>) = serving s" "serving (s\<lparr>ps_attempts := ats\<rparr>) = serving s"
  by (simp_all add: serving_def)

definition logged_once :: "int \<Rightarrow> audit_action \<Rightarrow> string \<Rightarrow> pay_store \<Rightarrow> pay_store" where
  "logged_once i act op s = snd (insert_audit i act op None s)"

lemma run_writeAuditLog [served]:
  "serving s \<Longrightarrow> run_task (writeAuditLog i act op None) s = ((), logged_once i act op s)"
  by (simp add: writeAuditLog_def logged_once_def task_run served split: prod.split)

lemma logged_once_fields [simp]:
  "ps_orders (logged_once i act op s) = ps_orders s" "ps_codes (logged_once i act op s) = ps_codes s"
  "ps_next_code (logged_once i act op s) = ps_next_code s" "ps_users (logged_once i act op s) = ps_users s"
  "ps_ledger (logged_once i act op s) = ps_ledger s" "ps_locks (logged_once i act op s) = ps_locks s"
  "ps_clock (logged_once i act op s) = ps_clock s" "ps_subs (logged_once i act op s) = ps_subs s"
  "ps_instances (logged_once i act op s) = ps_instances s" "ps_attempts (logged_once i act op s) = ps_attempts s"
  "ps_refunds (logged_once i act op s) = ps_refunds s" "serving (logged_once i act op s) = serving s"
  by (simp_all add: logged_once_def insert_audit_def serving_def)

lemma run_get_order [served]: "serving s \<Longrightarrow> run_task (get_order i) s = (Inr (order_by_id i s), s)"
  by (simp add: get_order_def served)

lemma run_found_order [served]:
  "serving s \<Longrightarrow> order_by_id i s = Some r \<Longrightarrow> run_task (found_order i) s = (Inr r, s)"
  by (simp add: found_order_def task_run served)

text \<open>One order is changed, and found again as it was changed.\<close>

definition set_order :: "int \<Rightarrow> (PaymentOrder \<Rightarrow> PaymentOrder) \<Rightarrow> pay_store \<Rightarrow> pay_store" where
  "set_order i f s = s\<lparr>ps_orders := changed_orders (ps_clock s) (\<lambda>r. po_ID r = i) f (ps_orders s)\<rparr>"

lemma set_order_fields [simp]:
  "ps_codes (set_order i f s) = ps_codes s" "ps_next_code (set_order i f s) = ps_next_code s"
  "ps_users (set_order i f s) = ps_users s" "ps_ledger (set_order i f s) = ps_ledger s"
  "ps_locks (set_order i f s) = ps_locks s" "ps_clock (set_order i f s) = ps_clock s"
  "ps_subs (set_order i f s) = ps_subs s" "ps_instances (set_order i f s) = ps_instances s"
  "ps_attempts (set_order i f s) = ps_attempts s" "ps_audit (set_order i f s) = ps_audit s"
  "ps_refunds (set_order i f s) = ps_refunds s" "serving (set_order i f s) = serving s"
  by (simp_all add: set_order_def)

lemma order_by_id_cong: "ps_orders s' = ps_orders s \<Longrightarrow> order_by_id i s' = order_by_id i s"
  by (simp add: order_by_id_def)

lemma order_after_set:
  assumes "order_by_id i s = Some r" and "\<And>r. po_ID (f r) = po_ID r"
  shows "order_by_id i (set_order i f s) = Some ((f r)\<lparr>po_UpdatedAt := ps_clock s\<rparr>)"
proof -
  have "List.find p rows = Some r \<Longrightarrow> (\<And>r. p (h r) = p r) \<Longrightarrow> List.find p (map h rows) = Some (h r)"
    for p h and rows :: "PaymentOrder list"
    by (induction rows) (auto split: if_splits)
  from this [of "\<lambda>r. po_ID r = i" "ps_orders s" "\<lambda>r. if po_ID r = i then (f r)\<lparr>po_UpdatedAt := ps_clock s\<rparr> else r"]
  show ?thesis using assms by (auto simp: order_by_id_def set_order_def changed_orders_def find_Some_iff)
qed

definition unique_orders :: "pay_store \<Rightarrow> bool" where
  "unique_orders s \<longleftrightarrow> distinct (map po_ID (ps_orders s))"

lemma unique_found:
  "unique_orders s \<Longrightarrow> order_by_id i s = Some r \<Longrightarrow> r' \<in> set (ps_orders s) \<Longrightarrow> po_ID r' = i \<Longrightarrow> r' = r"
  by (auto simp: unique_orders_def order_by_id_def find_Some_iff distinct_map inj_on_def)

lemma unique_set [simp]: "(\<And>r. po_ID (f r) = po_ID r) \<Longrightarrow> unique_orders (set_order i f s) = unique_orders s"
proof -
  assume "\<And>r. po_ID (f r) = po_ID r"
  then have "map po_ID (ps_orders (set_order i f s)) = map po_ID (ps_orders s)"
    by (simp add: set_order_def changed_orders_def)
  then show ?thesis by (simp add: unique_orders_def)
qed

lemma filter_unique_id:
  "distinct (map po_ID rows) \<Longrightarrow> r \<in> set rows \<Longrightarrow> filter (\<lambda>x. po_ID x = po_ID r) rows = [r]"
proof (induction rows)
  case (Cons a rows)
  have new: "po_ID x \<noteq> po_ID a" if "x \<in> set rows" for x
    using Cons.prems(1) that by (metis distinct.simps(2) image_eqI list.simps(9) set_map)
  show ?case
  proof (cases "r = a")
    case True
    have "filter (\<lambda>x. po_ID x = po_ID a) rows = []" using new by (simp add: filter_empty_conv)
    then show ?thesis using True by simp
  next
    case False
    with Cons.prems(2) have r: "r \<in> set rows" by simp
    then have "po_ID a \<noteq> po_ID r" using new by metis
    then show ?thesis using Cons.IH Cons.prems(1) r by simp
  qed
qed simp

text \<open>The conditional updates of one order: the condition holds, or nothing changes.\<close>

lemma run_update_orders:
  assumes "serving s" and u: "unique_orders s" and r: "order_by_id i s = Some r"
  shows "run_task (update_orders (\<lambda>r. po_ID r = i \<and> P r) f) s = (if P r then (Inr 1, set_order i f s) else (Inr 0, s))"
proof -
  have id: "po_ID r = i" and mem: "r \<in> set (ps_orders s)" using r by (auto simp: order_by_id_def find_Some_iff)
  have iff: "po_ID x = i \<and> P x \<longleftrightarrow> po_ID x = i \<and> P r" if "x \<in> set (ps_orders s)" for x
    using unique_found [OF u r that] by auto
  have "filter (\<lambda>x. po_ID x = i) (ps_orders s) = [r]"
    using u mem id filter_unique_id unfolding unique_orders_def by blast
  moreover have "filter (\<lambda>x. po_ID x = i \<and> P x) (ps_orders s) = (if P r then filter (\<lambda>x. po_ID x = i) (ps_orders s) else [])"
    using iff by (auto intro!: filter_cong simp: filter_empty_conv)
  moreover have "changed_orders t (\<lambda>x. po_ID x = i \<and> P x) f (ps_orders s)
      = (if P r then changed_orders t (\<lambda>x. po_ID x = i) f (ps_orders s) else ps_orders s)" for t
    using iff by (auto simp: changed_orders_def intro!: map_cong map_idI)
  ultimately show ?thesis using assms(1) by (simp add: update_orders_def served set_order_def)
qed

section \<open>Redeeming a code\<close>

text \<open>What redeeming a balance code does to the store.\<close>

definition credited :: "int \<Rightarrow> RedeemCode \<Rightarrow> pay_store \<Rightarrow> pay_store" where
  "credited u c s = s\<lparr>ps_codes := map (\<lambda>r. if rc_ID r = rc_ID c \<and> rc_Status r = StatusUnused
         then mark_used (ps_clock s) u r else r) (ps_codes s),
     ps_users := map (\<lambda>x. if pu_ID x = u then (add_balance (rc_Value c) x)\<lparr>pu_TotalRecharged :=
         dec_places 8 (pu_TotalRecharged x + rc_Value c)\<rparr> else x) (ps_users s),
     ps_ledger := ps_ledger s @ [CreditCode (rc_ID c) u (rc_Value c)]\<rparr>"

lemma credited_fields [simp]:
  "ps_orders (credited u c s) = ps_orders s" "ps_locks (credited u c s) = ps_locks s"
  "ps_clock (credited u c s) = ps_clock s" "ps_subs (credited u c s) = ps_subs s" "ps_audit (credited u c s) = ps_audit s"
  "serving (credited u c s) = serving s" "ps_instances (credited u c s) = ps_instances s"
  "ps_ledger (credited u c s) = ps_ledger s @ [CreditCode (rc_ID c) u (rc_Value c)]"
  by (simp_all add: credited_def serving_def)

lemma credited_found:
  assumes "c \<in> set (ps_codes s)"
  shows "code_by (\<lambda>r. rc_ID r = rc_ID c) (credited u c s) \<noteq> None"
proof -
  let ?f = "\<lambda>r. if rc_ID r = rc_ID c \<and> rc_Status r = StatusUnused then mark_used (ps_clock s) u r else r"
  have "?f c \<in> set (ps_codes (credited u c s))" unfolding credited_def using assms by simp
  moreover have "rc_ID (?f c) = rc_ID c" by (simp add: mark_used_def)
  ultimately show ?thesis unfolding code_by_def find_None_iff by blast
qed

lemma run_redeem_tx:
  assumes "serving s" and "c \<in> set (ps_codes s)" and "rc_Status c = StatusUnused"
    and "rc_Type c = RedeemTypeBalance" and "0 < rc_Value c" and "user_by_id (pu_ID user) s \<noteq> None"
  shows "run_task (redeem_tx cfg user c) s = (Inr (), credited (pu_ID user) c s)"
proof -
  have "list_ex (\<lambda>r. rc_ID r = rc_ID c \<and> rc_Status r = StatusUnused) (ps_codes s)"
    using assms(2,3) by (auto simp: list_ex_iff)
  moreover have "user_by_id i (s\<lparr>ps_codes := cs\<rparr>) = user_by_id i s" for i cs by (simp add: user_by_id_def)
  ultimately show ?thesis using assms
    by (simp add: redeem_tx_def tx_def served redeem_prog_def redeem_effect_def repo_code_Use_def run noting_def
        UpdateBalance_def change_user_def record_entry_def credited_def Let_def cong: if_cong)
qed

text \<open>Redis while a code is redeemed: nobody else holds its lock, and the user is below the limit of
  failed attempts.\<close>

definition may_redeem :: "int \<Rightarrow> string \<Rightarrow> pay_store \<Rightarrow> bool" where
  "may_redeem u code s \<longleftrightarrow> ps_attempts s u < redeemMaxErrorsPerHour \<and> code \<notin> ps_locks s"

lemma run_Redeem:
  assumes srv: "serving s" and may: "may_redeem u code s" and found: "code_by (\<lambda>r. rc_Code r = code) s = Some c"
    and usable: "rc_Status c = StatusUnused" "\<not> RedeemCode_IsExpiredAt (Some c) (ps_clock s)"
    and bal: "rc_Type c = RedeemTypeBalance" "0 < rc_Value c" and user: "user_by_id u s = Some user"
    and ids: "distinct (map rc_ID (ps_codes s))"
  shows "\<exists>c'. run_task (Redeem cfg u code) s = (Inr c', credited u c s)"
proof -
  have mem: "c \<in> set (ps_codes s)" using found by (auto simp: code_by_def find_Some_iff)
  have uid: "pu_ID user = u" using user by (auto simp: user_by_id_def find_Some_iff)
  let ?l = "if pc_redeem_cache cfg then s\<lparr>ps_locks := insert code (ps_locks s)\<rparr> else s"
  have l: "serving ?l" "code_by P ?l = code_by P s" "user_by_id u ?l = Some user" "ps_clock ?l = ps_clock s"
      "c \<in> set (ps_codes ?l)" for P
    using srv user mem by (simp_all add: code_by_def user_by_id_def)
  have tx: "run_task (redeem_tx cfg user c) ?l = (Inr (), credited u c ?l)"
    using run_redeem_tx [OF l(1,5) usable(1) bal, of user cfg] l(3) uid by simp
  have "code_by (\<lambda>r. rc_ID r = rc_ID c) (credited u c ?l) \<noteq> None"
    by (rule credited_found [OF l(5)])
  then obtain c' where c': "code_by (\<lambda>r. rc_ID r = rc_ID c) (credited u c ?l) = Some c'" by auto
  have "run_task (redeem_locked cfg u code) ?l = (Inr c', credited u c ?l)"
    using usable bal l tx found c' srv
    by (simp add: redeem_locked_def repo_GetByCode_def code_query_def get_user_def repo_code_GetByID_def task_run
        served RedeemCode_CanUse_def RedeemCode_IsExpiredAt_def check_type_def)
  moreover have "(credited u c ?l)\<lparr>ps_locks := ps_locks ?l - {code}\<rparr> = credited u c s" if "pc_redeem_cache cfg"
    using that may by (simp add: credited_def may_redeem_def)
  moreover have "serving (credited u c ?l)" using srv by simp
  ultimately have "run_task (Redeem cfg u code) s = (Inr c', credited u c s)"
    using srv may
    by (cases "pc_redeem_cache cfg") (simp_all add: Redeem_def checkRedeemRateLimit_def GetRedeemAttemptCount_def acquireRedeemLock_def
      AcquireRedeemLock_def releaseRedeemLock_def ReleaseRedeemLock_def may_redeem_def task_run served)
  then show ?thesis by blast
qed

section \<open>Fulfilling a balance order\<close>

definition order_code :: "PaymentOrder \<Rightarrow> pay_store \<Rightarrow> RedeemCode" where
  "order_code ord s = (new_code (po_RechargeCode ord) RedeemTypeBalance (po_Amount ord))\<lparr>rc_ID := ps_next_code s\<rparr>"

definition with_code :: "RedeemCode \<Rightarrow> pay_store \<Rightarrow> pay_store" where
  "with_code c s = s\<lparr>ps_codes := ps_codes s @ [c], ps_next_code := ps_next_code s + 1\<rparr>"

lemma with_code_fields [simp]:
  "ps_orders (with_code c s) = ps_orders s" "ps_users (with_code c s) = ps_users s"
  "ps_locks (with_code c s) = ps_locks s" "ps_clock (with_code c s) = ps_clock s"
  "ps_attempts (with_code c s) = ps_attempts s" "ps_codes (with_code c s) = ps_codes s @ [c]"
  "ps_ledger (with_code c s) = ps_ledger s" "serving (with_code c s) = serving s"
  "ps_audit (with_code c s) = ps_audit s" "ps_instances (with_code c s) = ps_instances s"
  by (simp_all add: with_code_def serving_def)

text \<open>What a balance order needs to be fulfilled: its code is a proper new one, the amount is positive,
  its user exists and is not kept from redeeming.\<close>

definition deliverable :: "PaymentOrder \<Rightarrow> pay_store \<Rightarrow> bool" where
  "deliverable ord s \<longleftrightarrow> serving s \<and> unique_orders s
     \<and> distinct (map rc_ID (ps_codes s)) \<and> (\<forall>r \<in> set (ps_codes s). rc_ID r < ps_next_code s)
     \<and> code_by (\<lambda>r. rc_Code r = po_RechargeCode ord) s = None
     \<and> trim_space (po_RechargeCode ord) = po_RechargeCode ord \<and> po_RechargeCode ord \<noteq> []
     \<and> 0 < po_Amount ord \<and> user_by_id (po_UserID ord) s \<noteq> None
     \<and> may_redeem (po_UserID ord) (po_RechargeCode ord) s"

definition delivered :: "PaymentOrder \<Rightarrow> pay_store \<Rightarrow> pay_store" where
  "delivered ord s = logged_once (po_ID ord) A_RECHARGE_SUCCESS ''system''
     (set_order (po_ID ord) (completed (ps_clock s))
       (credited (po_UserID ord) (order_code ord s) (with_code (order_code ord s) s)))"

lemma find_at_end: "List.find p xs = None \<Longrightarrow> p y \<Longrightarrow> List.find p (xs @ [y]) = Some y"
  by (induction xs) (auto split: if_splits)

lemma run_CreateCode:
  assumes "deliverable ord s"
  shows "run_task (CreateCode (new_code (po_RechargeCode ord) RedeemTypeBalance (po_Amount ord))) s
    = (Inr (), with_code (order_code ord s) s)"
  using assms
  by (simp add: deliverable_def CreateCode_def Let_def defaulted_code_def new_code_def task_run served
      RedeemCode_IsExpiredAt_def repo_code_Create_def with_code_def order_code_def)

lemma run_markCompleted:
  assumes "serving s" and "unique_orders s" and "order_by_id (po_ID ord) s = Some r" and "po_Status r = RECHARGING"
  shows "run_task (markCompleted ord act) s
    = (Inr (), logged_once (po_ID ord) act ''system'' (set_order (po_ID ord) (completed (ps_clock s)) s))"
  using assms run_update_orders [OF assms(1-3), of "\<lambda>r. po_Status r = RECHARGING" "completed (ps_clock s)"]
  by (simp add: markCompleted_def task_run served)

lemma run_doBalance:
  assumes ok: "deliverable ord s" and aff: "\<not> pc_affiliate cfg"
    and r: "order_by_id (po_ID ord) s = Some r" "po_Status r = RECHARGING"
  shows "run_task (doBalance cfg ord) s = (Inr (), delivered ord s)"
proof -
  let ?c = "order_code ord s" and ?s = "with_code (order_code ord s) s" and ?u = "po_UserID ord"
  have srv: "serving s" and none: "code_by (\<lambda>r. rc_Code r = po_RechargeCode ord) s = None"
    using ok by (simp_all add: deliverable_def)
  obtain user where user: "user_by_id ?u s = Some user" using ok by (auto simp: deliverable_def)
  have "\<exists>c'. run_task (Redeem cfg ?u (po_RechargeCode ord)) ?s = (Inr c', credited ?u ?c ?s)"
  proof (rule run_Redeem)
    show "code_by (\<lambda>r. rc_Code r = po_RechargeCode ord) ?s = Some ?c"
      using none find_at_end [of "\<lambda>r. rc_Code r = po_RechargeCode ord" "ps_codes s" ?c]
      by (simp add: code_by_def) (simp add: order_code_def new_code_def)
    show "distinct (map rc_ID (ps_codes ?s))"
      using ok by (auto simp: deliverable_def order_code_def)
  qed (use ok user in \<open>simp_all add: deliverable_def may_redeem_def order_code_def new_code_def
      RedeemCode_IsExpiredAt_def user_by_id_def\<close>)
  then obtain c' where redeem: "run_task (Redeem cfg ?u (po_RechargeCode ord)) ?s = (Inr c', credited ?u ?c ?s)" ..
  have "run_task (markCompleted ord A_RECHARGE_SUCCESS) (credited ?u ?c ?s) = (Inr (), delivered ord s)"
    using run_markCompleted [of "credited ?u ?c ?s" ord r] srv r ok
      order_by_id_cong [of "credited ?u ?c ?s" s] by (simp add: delivered_def deliverable_def unique_orders_def)
  moreover have "run_task (applyAffiliateRebateForOrder cfg ord) t = (Inr (), t)" for t
    using aff by (simp add: applyAffiliateRebateForOrder_def)
  moreover have "run_task (repo_GetByCode (po_RechargeCode ord)) s = (Inl (App ''REDEEM_CODE_NOT_FOUND''), s)"
    using srv none by (simp add: repo_GetByCode_def code_query_def task_run served)
  ultimately show ?thesis
    using run_CreateCode [OF ok] redeem
    by (simp add: doBalance_def resolveRedeemAction_def redeem_order_def finish_balance_def task_run)
qed


section \<open>A paid order is fulfilled\<close>

lemma deliverable_cong:
  assumes "serving s' = serving s" "unique_orders s' = unique_orders s" "ps_codes s' = ps_codes s"
    "ps_next_code s' = ps_next_code s" "ps_users s' = ps_users s" "ps_attempts s' = ps_attempts s" "ps_locks s' = ps_locks s"
    "po_RechargeCode ord' = po_RechargeCode ord" "po_Amount ord' = po_Amount ord" "po_UserID ord' = po_UserID ord"
  shows "deliverable ord' s' = deliverable ord s"
  using assms by (simp add: deliverable_def code_by_def user_by_id_def may_redeem_def)

lemma deliverable_log [simp]: "deliverable ord (logged_once i act op s) = deliverable ord s"
  by (rule deliverable_cong) (simp_all add: unique_orders_def)

lemma deliverable_set: "(\<And>r. po_ID (f r) = po_ID r) \<Longrightarrow> deliverable ord (set_order i f s) = deliverable ord s"
  by (rule deliverable_cong) simp_all

lemma order_by_id_log [simp]: "order_by_id i (logged_once j act op s) = order_by_id i s"
  by (simp add: order_by_id_def)

definition fulfilled :: "PaymentOrder \<Rightarrow> pay_store \<Rightarrow> pay_store" where
  "fulfilled ord s = delivered ord (set_order (po_ID ord) recharging s)"

lemma run_ExecuteBalanceFulfillment:
  assumes ok: "deliverable ord s" and aff: "\<not> pc_affiliate cfg"
    and r: "order_by_id i s = Some ord" "fulfillable (po_Status ord)"
  shows "run_task (ExecuteBalanceFulfillment cfg i) s = (Inr (), fulfilled ord s)"
proof -
  have i: "po_ID ord = i" using r(1) by (auto simp: order_by_id_def find_Some_iff)
  have srv: "serving s" and uq: "unique_orders s" using ok by (simp_all add: deliverable_def)
  let ?s = "set_order i recharging s"
  have lock: "run_task (lock_order i) s = (Inr 1, ?s)"
    using run_update_orders [OF srv uq r(1), of "\<lambda>r. fulfillable (po_Status r)" recharging] r(2)
    by (simp add: lock_order_def)
  have id: "po_ID (recharging r) = po_ID r" for r by (simp add: recharging_def)
  have "run_task (doBalance cfg ord) ?s = (Inr (), delivered ord ?s)"
    using ok by (intro run_doBalance [OF _ aff, where r = "(recharging ord)\<lparr>po_UpdatedAt := ps_clock s\<rparr>"])
      (simp_all add: deliverable_set [OF id] i order_after_set [OF r(1) id], simp add: recharging_def)
  with lock show ?thesis using srv r i
    by (auto simp: ExecuteBalanceFulfillment_def check_fulfillable_def fulfill_locked_def task_run served
        fulfilled_def fulfillable_def psIsRefundStatus_def)
qed

lemma run_executeFulfillment:
  assumes "deliverable ord s" and "\<not> pc_affiliate cfg" and "order_by_id i s = Some ord" "fulfillable (po_Status ord)"
    and "po_OrderType ord = OrderTypeBalance"
  shows "run_task (executeFulfillment cfg i) s = (Inr (), fulfilled ord s)"
  using run_ExecuteBalanceFulfillment [OF assms(1-4)] assms
  by (simp add: executeFulfillment_def task_run served deliverable_def)

section \<open>A payment is confirmed\<close>

definition paid_logged :: "int \<Rightarrow> string \<Rightarrow> float64 \<Rightarrow> string \<Rightarrow> pay_store \<Rightarrow> pay_store" where
  "paid_logged i tradeNo paid pk s =
     logged_once i A_ORDER_PAID pk (set_order i (paid_order (ps_clock s) paid tradeNo) s)"

lemma run_toPaid:
  assumes ok: "deliverable ord s" and aff: "\<not> pc_affiliate cfg" and bal: "po_OrderType ord = OrderTypeBalance"
    and r: "order_by_id i s = Some ord" "po_Status ord = PENDING"
  shows "\<exists>ord'. order_by_id i (paid_logged i tradeNo paid pk s) = Some ord' \<and> ord' = (paid_order (ps_clock s) paid tradeNo ord)\<lparr>po_UpdatedAt := ps_clock s\<rparr>
    \<and> run_task (toPaid cfg ord tradeNo paid pk) s = (Inr (), fulfilled ord' (paid_logged i tradeNo paid pk s))"
proof -
  have i: "po_ID ord = i" using r(1) by (auto simp: order_by_id_def find_Some_iff)
  have srv: "serving s" and uq: "unique_orders s" using ok by (simp_all add: deliverable_def)
  let ?f = "paid_order (ps_clock s) paid tradeNo" and ?s = "paid_logged i tradeNo paid pk s"
  let ?ord = "(?f ord)\<lparr>po_UpdatedAt := ps_clock s\<rparr>"
  have id: "po_ID (?f r) = po_ID r" for r by (simp add: paid_order_def)
  have upd: "run_task (update_orders (\<lambda>r. po_ID r = i \<and> payable (ps_clock s) r) ?f) s = (Inr 1, set_order i ?f s)"
    using run_update_orders [OF srv uq r(1), of "payable (ps_clock s)" ?f] r(2) by (simp add: payable_def)
  have found: "order_by_id i ?s = Some ?ord" using order_after_set [OF r(1) id] by (simp add: paid_logged_def)
  have "deliverable ?ord (set_order i ?f s) = deliverable ord s"
    using id by (intro deliverable_cong) (simp_all add: paid_order_def)
  then have "deliverable ?ord ?s" using ok by (simp add: paid_logged_def)
  then have "run_task (executeFulfillment cfg i) ?s = (Inr (), fulfilled ?ord ?s)"
    using aff bal by (intro run_executeFulfillment [OF _ _ found]) (simp_all add: paid_order_def fulfillable_def)
  with upd found show ?thesis using srv r i by (simp add: toPaid_def task_run served paid_logged_def)
qed


text \<open>What the checks of a message demand: the gateway expected for the order, the values pinned in
  its snapshot, a proper amount, and that amount within the currency's tolerance.\<close>

definition acceptable :: "pay_config \<Rightarrow> PaymentOrder \<Rightarrow> string \<Rightarrow> float64 \<Rightarrow> string \<Rightarrow> (string \<times> string) list \<Rightarrow> bool" where
  "acceptable cfg ord instanceKey paid pk md \<longleftrightarrow>
     (let expected = expectedNotificationProviderKeyForOrder cfg ord instanceKey in
      expected = [] \<or> trim_space pk = [] \<or> equal_fold expected (trim_space pk))
     \<and> validateProviderSnapshotMetadata ord pk md = None \<and> isValidProviderAmount (Some paid)
     \<and> \<bar>fsub paid (po_PayAmount ord)\<bar> \<le> paymentAmountToleranceForCurrency (PaymentOrderCurrency ord)"

lemma confirm_checked_acceptable:
  "acceptable cfg ord k paid pk md \<Longrightarrow>
   confirm_checked cfg ord k tradeNo (Some paid) pk md = toPaid cfg ord tradeNo paid pk"
  by (auto simp: acceptable_def confirm_checked_def Let_def not_less)

text \<open>Looking the instance up leaves the store as it is.\<close>

definition instance_key :: "PaymentOrder \<Rightarrow> pay_store \<Rightarrow> string" where
  "instance_key ord s = (case fst (run_task (getOrderProviderInstance ord) s) of
     Inr (Some inst) \<Rightarrow> pi_ProviderKey inst | _ \<Rightarrow> [])"

definition lookup :: "'a pay_task \<Rightarrow> bool" where
  "lookup m \<longleftrightarrow> (\<forall>s s'. serving s \<longrightarrow> serving s' \<longrightarrow> ps_instances s' = ps_instances s \<longrightarrow>
     (\<exists>r. run_task m s = (r, s) \<and> run_task m s' = (r, s')))"

named_theorems looking \<open>statements that only read the payment instances\<close>

lemma lookup_Done [looking]: "lookup (Done r)"
  by (simp add: lookup_def task_run)

lemma lookup_instances [looking]:
  "lookup (get_instance i)" "lookup (sql_query (\<lambda>s. filter p (ps_instances s)))" "lookup (sql_query ps_instances)"
  by (simp_all add: lookup_def get_instance_def served)

lemma lookup_then [looking]:
  assumes "lookup m" and "\<And>x. lookup (k x)"
  shows "lookup (or_return m k)"
  unfolding lookup_def
proof (intro allI impI)
  fix s s' assume s: "serving s" "serving s'" "ps_instances s' = ps_instances s"
  then obtain r where "run_task m s = (r, s)" "run_task m s' = (r, s')" using assms(1) by (auto simp: lookup_def)
  with assms(2) s show "\<exists>r. run_task (or_return m k) s = (r, s) \<and> run_task (or_return m k) s' = (r, s')"
    by (cases r) (auto simp: task_run lookup_def)
qed

lemma lookup_order_instance [looking]: "lookup (getOrderProviderInstance ord)"
  by (simp add: getOrderProviderInstance_def resolveSnapshotOrderProviderInstance_def
      resolveUniqueLegacyOrderProviderInstance_def Let_def looking split: option.split)

lemma lookup_refund_instance [looking]: "lookup (getRefundOrderProviderInstance ord)"
  by (simp add: getRefundOrderProviderInstance_def resolveSnapshotOrderProviderInstance_def Let_def looking
      split: option.split)

lemma lookup_refund_provider [looking]: "lookup (getRefundProvider cfg ord)"
  by (simp add: getRefundProvider_def createProviderFromInstance_def looking split: option.split)

lemma run_lookup: "lookup m \<Longrightarrow> serving s \<Longrightarrow> \<exists>r. run_task m s = (r, s)"
  unfolding lookup_def by blast

lemma run_lookup_same:
  "lookup m \<Longrightarrow> serving s \<Longrightarrow> serving s' \<Longrightarrow> ps_instances s' = ps_instances s
   \<Longrightarrow> run_task m s' = (fst (run_task m s), s')"
  unfolding lookup_def by fastforce

lemma run_confirm:
  assumes "serving s" and "order_by_id i s = Some ord"
  shows "run_task (confirmPayment cfg i tradeNo amount pk md) s
    = run_task (confirm_checked cfg ord (instance_key ord s) tradeNo amount pk md) s"
proof -
  obtain r where "run_task (getOrderProviderInstance ord) s = (r, s)"
    using run_lookup [OF lookup_order_instance assms(1)] by blast
  then show ?thesis using assms by (simp add: confirmPayment_def task_run served instance_key_def)
qed

text \<open>The message names the order by its number, and no other order has it.\<close>

definition names_order :: "PaymentNotification \<Rightarrow> PaymentOrder \<Rightarrow> pay_store \<Rightarrow> bool" where
  "names_order n ord s \<longleftrightarrow> filter (\<lambda>r. po_OutTradeNo r = pn_OrderID n) (ps_orders s) = [ord]"

lemma find_first: "filter p xs = y # ys \<Longrightarrow> List.find p xs = Some y"
  by (induction xs) (auto split: if_splits)

lemma named_found:
  assumes "names_order n ord s" and "unique_orders s"
  shows "order_by_id (po_ID ord) s = Some ord"
proof -
  have "ord \<in> set (filter (\<lambda>r. po_OutTradeNo r = pn_OrderID n) (ps_orders s))"
    using assms(1) by (simp add: names_order_def)
  then have "ord \<in> set (ps_orders s)" by simp
  then have "filter (\<lambda>x. po_ID x = po_ID ord) (ps_orders s) = [ord]"
    using assms(2) filter_unique_id unfolding unique_orders_def by blast
  then show ?thesis unfolding order_by_id_def by (rule find_first)
qed

lemma run_notification:
  assumes "serving s" and "unique_orders s" and "names_order n ord s" and "pn_Status n = ''success''"
  shows "run_task (HandlePaymentNotification cfg n pk) s
    = run_task (confirm_checked cfg ord (instance_key ord s) (pn_TradeNo n) (pn_Amount n) pk (pn_Metadata n)) s"
  using assms run_confirm [OF assms(1) named_found [OF assms(3,2)]]
  by (simp add: HandlePaymentNotification_def names_order_def task_run served)



section \<open>Messages that change nothing\<close>

definition only_audited :: "pay_store \<Rightarrow> pay_store \<Rightarrow> bool" where
  "only_audited s s' \<longleftrightarrow> s' = s\<lparr>ps_audit := ps_audit s'\<rparr>"

lemma only_audited_refl [simp]: "only_audited s s"
  by (simp add: only_audited_def)

lemma only_audited_log [simp]: "only_audited s (logged_once i act op s)"
  by (simp add: only_audited_def logged_once_def insert_audit_def)

lemma refused_run:
  assumes srv: "serving s" and bad: "\<And>paid. amount = Some paid \<Longrightarrow> \<not> acceptable cfg ord k paid pk md"
  shows "\<exists>e. fst (run_task (confirm_checked cfg ord k tradeNo amount pk md) s) = Inl e
    \<and> only_audited s (snd (run_task (confirm_checked cfg ord k tradeNo amount pk md) s))"
  using bad srv
  by (cases amount; cases "validateProviderSnapshotMetadata ord pk md")
    (auto simp: confirm_checked_def Let_def rejected_def acceptable_def task_run served)

lemma finished_toPaid:
  assumes srv: "serving s" and uq: "unique_orders s" and r: "order_by_id i s = Some ord"
    and fin: "po_Status ord = COMPLETED \<or> psIsRefundStatus (po_Status ord)"
  shows "run_task (toPaid cfg ord tradeNo paid pk) s = (Inr (), s)"
proof -
  have i: "po_ID ord = i" using r by (auto simp: order_by_id_def find_Some_iff)
  have "\<not> payable (ps_clock s) ord" using fin by (auto simp: payable_def psIsRefundStatus_def)
  then have "run_task (update_orders (\<lambda>r. po_ID r = i \<and> payable (ps_clock s) r) (paid_order (ps_clock s) paid tradeNo)) s = (Inr 0, s)"
    using run_update_orders [OF srv uq r, of "payable (ps_clock s)"] by simp
  with fin srv r i show ?thesis
    by (auto simp: toPaid_def alreadyProcessed_def task_run served psIsRefundStatus_def)
qed

text \<open>C8: A message that fails a check of \<open>confirmPayment\<close> (another gateway, other merchant data, no
  proper amount, an amount beyond the tolerance) is refused, and only the audit log changes.\<close>

lemma unacceptable_payment_refused:
  assumes "serving s" and "unique_orders s" and "names_order n ord s" and "pn_Status n = ''success''"
    and "\<And>paid. pn_Amount n = Some paid \<Longrightarrow> \<not> acceptable cfg ord (instance_key ord s) paid pk (pn_Metadata n)"
  shows "\<exists>e. fst (run_task (HandlePaymentNotification cfg n pk) s) = Inl e
    \<and> only_audited s (snd (run_task (HandlePaymentNotification cfg n pk) s))"
  unfolding run_notification [OF assms(1-4)] by (rule refused_run [OF assms(1,5)])

text \<open>A message for an order that is completed or being refunded, whatever it says, changes
  nothing but the audit log: a repeated message does not pay out again.\<close>

lemma finished_order_unmoved:
  assumes "serving s" and "unique_orders s" and "names_order n ord s"
    and "po_Status ord = COMPLETED \<or> psIsRefundStatus (po_Status ord)"
  shows "only_audited s (snd (run_task (HandlePaymentNotification cfg n pk) s))"
proof (cases "pn_Status n = ''success''")
  case True
  show ?thesis
  proof (cases "\<exists>paid. pn_Amount n = Some paid \<and> acceptable cfg ord (instance_key ord s) paid pk (pn_Metadata n)")
    case True
    then obtain paid where "pn_Amount n = Some paid" "acceptable cfg ord (instance_key ord s) paid pk (pn_Metadata n)"
      by blast
    then show ?thesis
      using finished_toPaid [OF assms(1,2) named_found [OF assms(3,2)] assms(4)]
        run_notification [OF assms(1-3) \<open>pn_Status n = ''success''\<close>]
      by (simp add: confirm_checked_acceptable)
  next
    case False
    then have "\<not> acceptable cfg ord (instance_key ord s) paid pk (pn_Metadata n)" if "pn_Amount n = Some paid" for paid
      using that by blast
    from refused_run [OF assms(1) this] show ?thesis
      unfolding run_notification [OF assms(1-3) \<open>pn_Status n = ''success''\<close>] by blast
  qed
qed (simp add: HandlePaymentNotification_def task_run)


section \<open>A refund and the gateway's answer\<close>

definition gateway_refuses :: "pay_store \<Rightarrow> bool" where
  "gateway_refuses s \<longleftrightarrow> (case ps_refunds s of
     [] \<Rightarrow> True
   | (None, _) # _ \<Rightarrow> True
   | (Some r, err) # _ \<Rightarrow> \<not> is_pending r \<and> (err \<or> \<not> is_done r))"

definition gateway_refunds :: "pay_store \<Rightarrow> bool" where
  "gateway_refunds s \<longleftrightarrow> (case ps_refunds s of (Some r, False) # _ \<Rightarrow> is_done r | _ \<Rightarrow> False)"

definition answered :: "pay_store \<Rightarrow> pay_store" where
  "answered s = s\<lparr>ps_refunds := tl (ps_refunds s)\<rparr>"

lemma answered_fields [simp]:
  "ps_orders (answered s) = ps_orders s" "ps_users (answered s) = ps_users s" "ps_ledger (answered s) = ps_ledger s"
  "ps_clock (answered s) = ps_clock s" "ps_audit (answered s) = ps_audit s" "serving (answered s) = serving s"
  by (simp_all add: answered_def)

text \<open>The gateway of the order can be asked: it has a trade number there, and its provider exists and
  is the one of the snapshot.\<close>

definition refund_reachable :: "pay_config \<Rightarrow> PaymentOrder \<Rightarrow> pay_store \<Rightarrow> bool" where
  "refund_reachable cfg ord s \<longleftrightarrow> po_PaymentTradeNo ord \<noteq> []
     \<and> (case fst (run_task (getRefundProvider cfg ord) s) of
          Inr prov \<Rightarrow> validateProviderSnapshotMetadata ord (pv_ProviderKey prov) (pv_Merchant prov) = None
        | Inl _ \<Rightarrow> False)"

lemma reachable_provider:
  assumes "serving s" and "serving s'" and "ps_instances s' = ps_instances s" and "refund_reachable cfg ord s"
  obtains prov where "run_task (getRefundProvider cfg ord) s' = (Inr prov, s')" and "po_PaymentTradeNo ord \<noteq> []"
    and "validateProviderSnapshotMetadata ord (pv_ProviderKey prov) (pv_Merchant prov) = None"
  using run_lookup_same [OF lookup_refund_provider assms(1-3), of cfg ord] assms(4)
  by (auto simp: refund_reachable_def split: sum.splits)

lemma run_gwRefund_refused:
  assumes "serving s" and "serving s'" and "ps_instances s' = ps_instances s" and "refund_reachable cfg (rp_Order p) s"
    and "gateway_refuses s'"
  shows "\<exists>e. run_task (gwRefund cfg p) s' = (Inl e, answered s')"
proof -
  obtain prov where prov: "run_task (getRefundProvider cfg (rp_Order p)) s' = (Inr prov, s')"
      "po_PaymentTradeNo (rp_Order p) \<noteq> []"
      "validateProviderSnapshotMetadata (rp_Order p) (pv_ProviderKey prov) (pv_Merchant prov) = None"
    using reachable_provider [OF assms(1-4)] .
  show ?thesis
  proof (cases "ps_refunds s'")
    case Nil
    then have "answered s' = s'" by (simp add: answered_def)
    with prov Nil show ?thesis by (simp add: gwRefund_def Let_def task_run refund_upstream_def)
  next
    case (Cons a rest)
    with prov assms(5) show ?thesis
      by (cases a; cases "fst a") (auto simp: gwRefund_def Let_def task_run refund_upstream_def gateway_refuses_def
        answered_def validateRefundProviderResponse_def)
  qed
qed

lemma run_gwRefund_done:
  assumes "serving s" and "serving s'" and "ps_instances s' = ps_instances s" and "refund_reachable cfg (rp_Order p) s"
    and "gateway_refunds s'"
  shows "\<exists>r. is_done r \<and> run_task (gwRefund cfg p) s' = (Inr r, answered s')"
proof -
  obtain prov where prov: "run_task (getRefundProvider cfg (rp_Order p)) s' = (Inr prov, s')"
      "po_PaymentTradeNo (rp_Order p) \<noteq> []"
      "validateProviderSnapshotMetadata (rp_Order p) (pv_ProviderKey prov) (pv_Merchant prov) = None"
    using reachable_provider [OF assms(1-4)] .
  with assms(5) show ?thesis
    by (auto simp: gwRefund_def Let_def task_run refund_upstream_def gateway_refunds_def
        answered_def validateRefundProviderResponse_def split: list.splits option.splits prod.splits bool.splits)
qed


text \<open>The user whose balance changed.\<close>

definition user_changed :: "int \<Rightarrow> (PaymentUser \<Rightarrow> PaymentUser) \<Rightarrow> pay_store \<Rightarrow> pay_store" where
  "user_changed u f s = s\<lparr>ps_users := map (\<lambda>x. if pu_ID x = u then f x else x) (ps_users s)\<rparr>"

lemma user_changed_fields [simp]:
  "ps_orders (user_changed u f s) = ps_orders s" "ps_ledger (user_changed u f s) = ps_ledger s"
  "ps_clock (user_changed u f s) = ps_clock s" "ps_audit (user_changed u f s) = ps_audit s"
  "ps_refunds (user_changed u f s) = ps_refunds s" "ps_instances (user_changed u f s) = ps_instances s"
  "serving (user_changed u f s) = serving s"
  by (simp_all add: user_changed_def)

lemma entry_fields [simp]:
  "ps_orders (record_entry e s) = ps_orders s" "ps_ledger (record_entry e s) = ps_ledger s @ [e]"
  "ps_clock (record_entry e s) = ps_clock s" "ps_audit (record_entry e s) = ps_audit s"
  "ps_refunds (record_entry e s) = ps_refunds s" "ps_instances (record_entry e s) = ps_instances s"
  "ps_users (record_entry e s) = ps_users s" "serving (record_entry e s) = serving s"
  by (simp_all add: record_entry_def serving_def)

lemma user_after_change:
  "(\<And>x. pu_ID (f x) = pu_ID x) \<Longrightarrow> user_by_id u (user_changed u f s) = map_option f (user_by_id u s)"
proof -
  assume "\<And>x. pu_ID (f x) = pu_ID x"
  then have "List.find (\<lambda>x. pu_ID x = u) (map (\<lambda>x. if pu_ID x = u then f x else x) us)
      = map_option f (List.find (\<lambda>x. pu_ID x = u) us)" for us
    by (induction us) auto
  then show ?thesis by (simp add: user_by_id_def user_changed_def)
qed

lemma user_entry [simp]: "user_by_id u (record_entry e s) = user_by_id u s"
  by (simp add: user_by_id_def)

lemma user_set_order [simp]: "user_by_id u (set_order i f s) = user_by_id u s"
  by (simp add: user_by_id_def)

lemma user_log [simp]: "user_by_id u (logged_once i act op s) = user_by_id u s"
  by (simp add: user_by_id_def)

lemma user_answered [simp]: "user_by_id u (answered s) = user_by_id u s"
  by (simp add: user_by_id_def)

lemma run_DeductBalance:
  assumes "serving s" and "user_by_id u s \<noteq> None"
  shows "run_task (DeductBalance why u x) s = (Inr (), record_entry why (user_changed u (add_balance (- x)) s))"
  using assms by (auto simp: DeductBalance_def task_run served change_user_def noting_def run user_changed_def)

text \<open>What a refund takes: the plan was made from the order as it is, it deducts an amount from the
  balance of a user who exists, and no earlier rollback failed.\<close>

definition executable :: "pay_config \<Rightarrow> RefundPlan \<Rightarrow> pay_store \<Rightarrow> bool" where
  "executable cfg p s \<longleftrightarrow> serving s \<and> unique_orders s \<and> order_by_id (plan_id p) s = Some (rp_Order p)
     \<and> refundable (po_Status (rp_Order p)) \<and> deducts_balance p
     \<and> \<not> has_entry (plan_id p) A_REFUND_ROLLBACK_FAILED (ps_audit s)
     \<and> user_by_id (po_UserID (rp_Order p)) s \<noteq> None \<and> refund_reachable cfg (rp_Order p) s"

definition refund_deducted :: "RefundPlan \<Rightarrow> pay_store \<Rightarrow> pay_store" where
  "refund_deducted p s =
     (let u = po_UserID (rp_Order p); x = rp_BalanceToDeduct p in
      record_entry (RefundDeduct (plan_id p) u x) (user_changed u (add_balance (- x))
        (set_order (plan_id p) (\<lambda>r. r\<lparr>po_Status := REFUNDING\<rparr>) s)))"

lemma refund_deducted_fields [simp]:
  "ps_clock (refund_deducted p s) = ps_clock s" "ps_refunds (refund_deducted p s) = ps_refunds s"
  "ps_instances (refund_deducted p s) = ps_instances s" "serving (refund_deducted p s) = serving s"
  "ps_ledger (refund_deducted p s) = ps_ledger s @ [RefundDeduct (plan_id p) (po_UserID (rp_Order p)) (rp_BalanceToDeduct p)]"
  by (simp_all add: refund_deducted_def Let_def)

lemma order_refund_deducted:
  "order_by_id (plan_id p) s = Some r \<Longrightarrow>
   order_by_id (plan_id p) (refund_deducted p s) = Some (r\<lparr>po_Status := REFUNDING, po_UpdatedAt := ps_clock s\<rparr>)"
  using order_after_set [of "plan_id p" s r "\<lambda>r. r\<lparr>po_Status := REFUNDING\<rparr>"]
  by (simp add: refund_deducted_def Let_def order_by_id_def)

lemma user_refund_deducted:
  "user_by_id (po_UserID (rp_Order p)) s = Some x \<Longrightarrow>
   user_by_id (po_UserID (rp_Order p)) (refund_deducted p s) = Some (add_balance (- rp_BalanceToDeduct p) x)"
  by (simp add: refund_deducted_def Let_def user_after_change add_balance_def)

lemma run_until_gateway:
  assumes "executable cfg p s"
  shows "run_task (ExecuteRefund cfg p) s =
    run_task (then_do (gwRefund cfg p) (\<lambda>r. case r of
         Inl e \<Rightarrow> handleGwFail cfg p e | Inr resp \<Rightarrow> finishRefund cfg p resp)) (refund_deducted p s)"
proof -
  let ?f = "\<lambda>r. r\<lparr>po_Status := REFUNDING\<rparr>"
  have ok: "serving s" "unique_orders s" "order_by_id (plan_id p) s = Some (rp_Order p)" "refundable (po_Status (rp_Order p))"
      "deducts_balance p" "\<not> has_entry (plan_id p) A_REFUND_ROLLBACK_FAILED (ps_audit s)"
      "user_by_id (po_UserID (rp_Order p)) s \<noteq> None"
    using assms by (simp_all add: executable_def)
  have "run_task (deduct_first cfg p) (set_order (plan_id p) ?f s) = (Inr p, refund_deducted p s)"
    using ok by (simp add: deduct_first_def hasAuditLog_def deduct_balance_for_def task_run served
        run_DeductBalance refund_deducted_def Let_def)
  then show ?thesis
    using run_update_orders [OF ok(1-3), of "\<lambda>r. refundable (po_Status r)" ?f] ok(4)
    by (simp add: ExecuteRefund_def task_run)
qed


lemma run_update_one:
  "serving s \<Longrightarrow> order_by_id i s \<noteq> None \<Longrightarrow> run_task (update_one i f) s = (Inr (), set_order i f s)"
  by (simp add: update_one_def served set_order_def)

lemma run_rollback:
  assumes "serving s" and "deducts_balance p" and "user_by_id (po_UserID (rp_Order p)) s \<noteq> None"
  shows "run_task (RollbackRefund cfg p) s = (True,
    record_entry (RefundRollback (plan_id p) (po_UserID (rp_Order p)) (rp_BalanceToDeduct p))
      (user_changed (po_UserID (rp_Order p)) (\<lambda>x. (add_balance (rp_BalanceToDeduct p) x)
        \<lparr>pu_TotalRecharged := dec_places 8 (pu_TotalRecharged x + rp_BalanceToDeduct p)\<rparr>) s))"
  using assms by (auto simp: RollbackRefund_def Let_def task_run served noting_def run UpdateBalance_def
      change_user_def user_changed_def deducts_balance_def cong: if_cong)

lemma balance_roundtrip: "\<bar>dec_places 8 (dec_places 8 (b - x) + x) - b\<bar> \<le> 1 / 10 ^ 8"
proof -
  show ?thesis using dec_places_near [of 8 "b - x"] dec_places_near [of 8 "dec_places 8 (b - x) + x"]
    by (simp only: abs_le_iff) linarith
qed



section \<open>Three-decimal currencies\<close>

text \<open>The amount column keeps two decimals, so an amount with a third one is read back changed by almost
  a thousandth at least.\<close>

lemma far_apart:
  fixes x y :: rat
  assumes "d \<le> \<bar>x - y\<bar>" and "\<bar>a - y\<bar> \<le> e" and "\<bar>b - x\<bar> \<le> e'"
  shows "d - e - e' \<le> \<bar>b - a\<bar>"
  using assms by (auto simp: abs_if split: if_splits)

lemma col2_third_decimal:
  fixes k :: int
  assumes k: "0 < k" "k \<le> 10 ^ 12" and third: "k mod 10 \<noteq> 0"
  defines "p \<equiv> rnd64 (of_int k / 1000)"
  shows "998 / 1000000 \<le> \<bar>p - col2 p\<bar>"
proof -
  let ?x = "of_int k / 1000 :: rat"
  have x: "0 < ?x" "?x \<le> 10 ^ 9" using k by (simp_all add: of_int_less_iff [symmetric] del: of_int_less_iff)
  have p: "\<bar>p - ?x\<bar> \<le> 1 / 10 ^ 6" "0 < p"
    using rnd64_error [of ?x] x rnd64_positive [OF x(1)] by (auto simp: p_def abs_le_iff)
  obtain m where y: "dec_places 2 p = of_int m / 100" by (simp add: dec_places_def p(2))
  have half: "\<bar>dec_places 2 p - p\<bar> \<le> 1 / 100"
  proof -
    define f :: rat where "f = of_int \<lfloor>p * 100 + 1 / 2\<rfloor>"
    have "f \<le> p * 100 + 1 / 2" "p * 100 + 1 / 2 < f + 1" unfolding f_def by linarith+
    then have "\<bar>f / 100 - p\<bar> \<le> 1 / 100" by linarith
    then show ?thesis using p(2) by (simp add: dec_places_def f_def)
  qed
  have "k \<noteq> 10 * m" using third by auto
  then have "1 \<le> \<bar>k - 10 * m\<bar>" by linarith
  then have "(1::rat) \<le> \<bar>of_int (k - 10 * m)\<bar>" by linarith
  then have "1 / 1000 \<le> \<bar>of_int (k - 10 * m) / 1000 :: rat\<bar>" by simp
  moreover have "of_int (k - 10 * m) / 1000 = ?x - of_int m / 100" by simp
  ultimately have "1 / 1000 \<le> \<bar>?x - of_int m / 100\<bar>" by (simp only:)
  moreover have "\<bar>col2 p - dec_places 2 p\<bar> \<le> 1 / 10 ^ 6 / 4"
  proof -
    have "p \<le> 1 / 10 ^ 6 + 10 ^ 9" using p(1) x(2) by linarith
    then have "\<bar>dec_places 2 p\<bar> \<le> 2 * 10 ^ 9" 
      using abs_le_D1 [OF half] abs_le_D2 [OF half] p(2) by (simp add: abs_le_iff)
    then have "\<bar>dec_places 2 p\<bar> / 2 ^ 53 \<le> 1 / 10 ^ 6 / 4" by simp
    with rnd64_error [of "dec_places 2 p"] show ?thesis unfolding col2_def by (rule order_trans)
  qed
  ultimately show ?thesis using far_apart [OF _ _ p(1)] unfolding y by fastforce
qed

text \<open>An order in a currency with three decimals whose exact amount has a non-zero third decimal
  can never be paid: the amount column has two decimals, so the amount the gateway reports back is
  further from the stored one than the tolerance of half a minor unit, and the message is refused.\<close>

lemma third_decimal_never_accepted:
  fixes k :: int
  assumes "0 < k" and "k \<le> 10 ^ 12" and "k mod 10 \<noteq> 0"
    and cur: "CurrencyMinorUnit (PaymentOrderCurrency ord) = 3"
    and pay: "po_PayAmount ord = col2 (rnd64 (of_int k / 1000))"
  shows "\<not> acceptable cfg ord key (rnd64 (of_int k / 1000)) pk md"
proof -
  let ?p = "rnd64 (of_int k / 1000)"
  have "paymentAmountToleranceForCurrency (PaymentOrderCurrency ord) = fdiv (rnd64 (1 / 1000)) 2"
    using cur by (simp add: paymentAmountToleranceForCurrency_def)
  also have "\<dots> \<le> 6 / 10000" by code_simp
  also have "6 / 10000 < \<bar>fsub ?p (col2 ?p)\<bar>"
    using col2_third_decimal [OF assms(1-3)] rnd64_lower [of "?p - col2 ?p"] unfolding fsub_def by simp
  finally show ?thesis unfolding acceptable_def pay by simp
qed

end
