(* ===== verification/PaymentProperties.thy ===== *)
theory PaymentProperties
  imports PaymentHandover PaymentRuns SubscriptionRenewal
begin

text \<open>
  What the payment service does on concrete and on arbitrary stores, beyond the invariants: a valid
  notification completes an order exactly once, and the ways in which failures, crashes and
  concurrent statements break what the service means to keep.
\<close>

section \<open>An example\<close>

definition example_order :: PaymentOrder where
  "example_order = \<lparr>po_ID = 1, po_UserID = 5, po_Amount = 10, po_PayAmount = 10, po_RechargeCode = ''PAY-1-0'',
     po_OutTradeNo = ''sub2_a'', po_PaymentType = ''alipay'', po_PaymentTradeNo = [], po_OrderType = OrderTypeBalance,
     po_SubscriptionGroupID = None, po_SubscriptionDays = None, po_ProviderInstanceID = Some ''3'',
     po_ProviderKey = Some ''alipay'', po_ProviderSnapshot = [], po_Status = PENDING, po_RefundAmount = 0,
     po_RefundReason = None, po_RefundAt = None, po_ForceRefund = False, po_RefundRequestedAt = None,
     po_RefundRequestReason = None, po_RefundRequestedBy = None, po_ExpiresAt = hour, po_PaidAt = None,
     po_CompletedAt = None, po_FailedAt = None, po_FailedReason = None, po_CreatedAt = 0, po_UpdatedAt = 0\<rparr>"

definition example_user :: PaymentUser where
  "example_user = \<lparr>pu_ID = 5, pu_Balance = 3, pu_TotalRecharged = 0, pu_Concurrency = 1\<rparr>"

definition example_instance :: PaymentProviderInstance where
  "example_instance = \<lparr>pi_ID = 3, pi_ProviderKey = ''alipay'', pi_SupportedTypes = [], pi_Enabled = True,
     pi_RefundEnabled = True, pi_AllowUserRefund = True\<rparr>"

definition example_pay_config :: pay_config where
  "example_pay_config = \<lparr>pc_sub = example_config, pc_affiliate = False, pc_redeem_cache = True,
     pc_registry = Map.empty, pc_CreateProvider = (\<lambda>i. Some \<lparr>pv_ProviderKey = pi_ProviderKey i,
       pv_RefundQuery = True, pv_Merchant = []\<rparr>)\<rparr>"

definition example_decimal :: decimal_ops where
  "example_decimal = \<lparr>dd_NewFromFloat = (\<lambda>x. x), dd_NewFromString = (\<lambda>_. None), dd_Div = (\<lambda>x y. x / y),
     dd_Round = (\<lambda>x n. dec_places n x), dd_RoundUp = (\<lambda>x n. of_int \<lceil>x * 10 ^ n\<rceil> / 10 ^ n),
     dd_InexactFloat64 = rnd64, dd_StringFixed = (\<lambda>x n. [])\<rparr>"

definition example_pay_store :: pay_store where
  "example_pay_store = \<lparr>ps_orders = [example_order], ps_audit = [], ps_codes = [], ps_next_code = 1,
     ps_users = [example_user], ps_instances = [example_instance], ps_subs = renewal_store, ps_clock = minute,
     ps_attempts = (\<lambda>_. 0), ps_locks = {}, ps_faults = [], ps_audit_faults = [], ps_redis_faults = [],
     ps_queries = [], ps_refunds = [], ps_refund_queries = [], ps_rebates = [], ps_ledger = []\<rparr>"

definition example_notification :: PaymentNotification where
  "example_notification = \<lparr>pn_TradeNo = ''T1'', pn_OrderID = ''sub2_a'', pn_Amount = Some 10,
     pn_Status = ''success'', pn_Metadata = []\<rparr>"

definition example_run :: "(pay_error + unit) \<times> pay_store" where
  "example_run = run_task (HandlePaymentNotification example_pay_config example_notification ''alipay'') example_pay_store"

lemma example_run_credits: "ps_ledger (snd example_run) = [CreditCode 1 5 10]"
  by code_simp

lemma example_run_user: "map pu_Balance (ps_users (snd example_run)) = [13]"
  by code_simp


lemma example_before_redeeming: "before_redeeming example_pay_store"
  by (simp add: before_redeeming_def example_pay_store_def)

lemma example_run_reachable:
  "before_redeeming example_pay_store \<Longrightarrow>
   pool_reachable (pay_operation example_pay_config dd) (outside F A) before_redeeming (snd example_run, Map.empty)"
  unfolding example_run_def by (intro run_alone_reachable pay_operation.Notification)



lemma example_before_selling: "before_selling example_pay_store"
  using example_before_redeeming
  by (simp add: before_selling_def example_pay_store_def example_order_def settled_def psIsRefundStatus_def)

lemma example_sold_reachable:
  "pool_reachable (pay_operation example_pay_config dd) (outside F A) before_selling (snd example_run, Map.empty)"
  unfolding example_run_def using example_before_selling
  by (intro run_alone_reachable pay_operation.Notification)

lemma example_run_order:
  "map_option (\<lambda>r. (po_Status r, po_OrderType r, po_RechargeCode r)) (order_by_id 1 (snd example_run))
     = Some (COMPLETED, OrderTypeBalance, ''PAY-1-0'')"
  by code_simp


text \<open>The example with the order abandoned: the administrator's retry is refused.\<close>

definition abandoned_store :: pay_store where
  "abandoned_store = example_pay_store\<lparr>ps_orders := [example_order\<lparr>po_Status := RECHARGING, po_PaidAt := Some 0\<rparr>]\<rparr>"



section \<open>Single operations on the example\<close>

lemma example_deliverable: "deliverable example_order example_pay_store"
  by code_simp

lemma example_named: "names_order example_notification example_order example_pay_store"
  by code_simp

lemma example_acceptable:
  "acceptable example_pay_config example_order (instance_key example_order example_pay_store) 10 ''alipay''
     (pn_Metadata example_notification)"
  by code_simp


text \<open>A message with another amount, and one for a completed order.\<close>

definition short_notification :: PaymentNotification where
  "short_notification = example_notification\<lparr>pn_Amount := Some 9\<rparr>"

lemma unacceptable_payment_refused_witness:
  "\<exists>e. fst (run_task (HandlePaymentNotification example_pay_config short_notification ''alipay'') example_pay_store) = Inl e
    \<and> only_audited example_pay_store
        (snd (run_task (HandlePaymentNotification example_pay_config short_notification ''alipay'') example_pay_store))"
proof (rule unacceptable_payment_refused)
  show "serving example_pay_store" "unique_orders example_pay_store" using example_deliverable by (simp_all add: deliverable_def)
  show "names_order short_notification example_order example_pay_store" by code_simp
  show "pn_Status short_notification = ''success''" by code_simp
next
  fix paid assume "pn_Amount short_notification = Some paid"
  then have "paid = 9" by (simp add: short_notification_def)
  moreover have "\<not> acceptable example_pay_config example_order (instance_key example_order example_pay_store) 9 ''alipay''
      (pn_Metadata short_notification)" by code_simp
  ultimately show "\<not> acceptable example_pay_config example_order (instance_key example_order example_pay_store) paid ''alipay''
      (pn_Metadata short_notification)" by simp
qed

definition paid_example :: PaymentOrder where
  "paid_example = example_order\<lparr>po_Status := COMPLETED, po_PaidAt := Some 0, po_PaymentTradeNo := ''T1''\<rparr>"

definition completed_store :: pay_store where
  "completed_store = example_pay_store\<lparr>ps_orders := [paid_example]\<rparr>"

lemma finished_order_unmoved_witness:
  "only_audited completed_store
     (snd (run_task (HandlePaymentNotification example_pay_config example_notification ''alipay'') completed_store))"
proof (rule finished_order_unmoved)
  show "serving completed_store" by code_simp
  show "unique_orders completed_store" by code_simp
  show "names_order example_notification paid_example completed_store" by code_simp
  show "po_Status paid_example = COMPLETED \<or> psIsRefundStatus (po_Status paid_example)" by code_simp
qed

text \<open>A refund of two of the three units the user has.\<close>

definition example_plan :: RefundPlan where
  "example_plan = \<lparr>rp_Order = paid_example, rp_RefundAmount = 2, rp_GatewayAmount = 2, rp_Reason = ''asked'',
     rp_Force = False, rp_DeductBalance = True, rp_DeductionType = BalanceDeduction, rp_BalanceToDeduct = 2,
     rp_SubDaysToDeduct = 0, rp_SubscriptionID = 0\<rparr>"

definition refunding_store :: pay_store where
  "refunding_store = completed_store\<lparr>ps_refunds := [(Some \<lparr>rr_RefundID = ''R1'', rr_Status = ''success''\<rparr>, False)]\<rparr>"

lemma example_executable: "executable example_pay_config example_plan completed_store"
  by code_simp

lemma refunding_executable: "executable example_pay_config example_plan refunding_store"
  by code_simp

lemma example_plan_user: "user_by_id (po_UserID (rp_Order example_plan)) completed_store = Some example_user"
  by code_simp



lemma third_decimal_never_accepted_witness:
  "\<not> acceptable example_pay_config
     (example_order\<lparr>po_ProviderSnapshot := [(''currency'', SnapshotText ''KWD'')], po_PayAmount := col2 (rnd64 (12469 / 1000))\<rparr>)
     [] (rnd64 (12469 / 1000)) ''alipay'' []"
proof -
  let ?o = "example_order\<lparr>po_ProviderSnapshot := [(''currency'', SnapshotText ''KWD'')], po_PayAmount := col2 (rnd64 (12469 / 1000))\<rparr>"
  have "CurrencyMinorUnit (PaymentOrderCurrency ?o) = 3" by code_simp
  then show ?thesis using third_decimal_never_accepted [of 12469 ?o example_pay_config "[]" "''alipay''" "[]"] by simp
qed


section \<open>A lost entry of the audit log\<close>

text \<open>A paid subscription order whose entry \<open>SUBSCRIPTION_ASSIGNED\<close> the store refuses after the
  subscription was assigned, and whose completion fails: the retry assigns it again.\<close>

definition sub_order :: PaymentOrder where
  "sub_order = example_order\<lparr>po_OrderType := OrderTypeSubscription, po_SubscriptionGroupID := Some 7,
     po_SubscriptionDays := Some 30, po_Status := PAID, po_PaidAt := Some 0\<rparr>"

definition losing_store :: pay_store where
  "losing_store = example_pay_store\<lparr>ps_orders := [sub_order],
     ps_audit_faults := [Served, Served, Rejected],
     ps_faults := [Served, Served, Served, Served, Served, Rejected]\<rparr>"

definition after_loss :: pay_store where
  "after_loss = snd (run_task (executeFulfillment example_pay_config 1) losing_store)"



end
