(* ===== verification/BatchImageQueue.thy ===== *)
theory BatchImageQueue
  imports Tasks Programs GoStrings "HOL-Library.Char_ord" "HOL-Library.List_Lexorder" "HOL-Library.Product_Lexorder"
begin

text \<open>
  The queue of batch-image jobs: \<open>repository/batch_image_queue.go\<close> and the worker turn of
  \<open>service/batch_image_worker.go\<close>. The list of ready jobs, the sorted sets of delayed and of active
  jobs, the inflight keys and the job locks are the structures behind the configured keys and prefixes,
  which are taken to differ. A script or a pipeline is one request and runs atomically; the fault script
  says whether it is served, rejected, or executed with its answer lost. All clocks are one, in
  milliseconds.
\<close>

section \<open>Options and identifiers\<close>

record batchImageQueueOptions =
  ReadyKey :: string
  DelayedKey :: string
  ActiveKey :: string
  InflightPrefix :: string
  LockPrefix :: string
  InflightTTL :: go_duration
  LockTTL :: go_duration

definition a_second :: go_duration where "a_second = 10 ^ 9"
definition defaultBatchImageInflightTTL :: go_duration where "defaultBatchImageInflightTTL = 7 * 24 * 3600 * a_second"
definition defaultBatchImageJobLockTTL :: go_duration where "defaultBatchImageJobLockTTL = 5 * 60 * a_second"

definition default_text :: "string \<Rightarrow> string \<Rightarrow> string" where
  "default_text v d = (if v = [] then d else v)"

definition default_duration :: "go_duration \<Rightarrow> go_duration \<Rightarrow> go_duration" where
  "default_duration v d = (if v \<le> 0 then d else v)"

definition normalizeBatchImageQueueOptions :: "batchImageQueueOptions \<Rightarrow> batchImageQueueOptions" where
  "normalizeBatchImageQueueOptions o' = \<lparr>
     ReadyKey = default_text (ReadyKey o') ''batch_image:queue:ready'',
     DelayedKey = default_text (DelayedKey o') ''batch_image:queue:delayed'',
     ActiveKey = default_text (ActiveKey o') ''batch_image:queue:active'',
     InflightPrefix = default_text (InflightPrefix o') ''batch_image:queue:inflight:'',
     LockPrefix = default_text (LockPrefix o') ''batch_image:queue:lock:'',
     InflightTTL = default_duration (InflightTTL o') defaultBatchImageInflightTTL,
     LockTTL = default_duration (LockTTL o') defaultBatchImageJobLockTTL\<rparr>"

definition IsValidBatchImageID :: "string \<Rightarrow> bool" where
  "IsValidBatchImageID b \<longleftrightarrow> has_prefix b ''imgbatch_'' \<and> length ''imgbatch_'' < length b"

section \<open>The server\<close>

type_synonym zset = "(int \<times> string) list"

record queue_store =
  qu_ready :: "string list"
  qu_active :: zset
  qu_delayed :: zset
  qu_inflight :: "string \<rightharpoonup> int"
  qu_locks :: "string \<rightharpoonup> string \<times> int"
  qu_ms :: int
  qu_faults :: "fault list"

datatype queue_error = RedisError | InvalidQueuePayload | AlreadyQueued | QueueEmpty | RandomFailed | ContextDone | ProcessFailed

type_synonym 'a queue_op = "(queue_error, queue_store, 'a) prog"

definition redis_call :: "'a queue_op \<Rightarrow> 'a queue_op" where
  "redis_call p s = (case qu_faults s of
     [] \<Rightarrow> p s
   | Served # fs \<Rightarrow> p (s\<lparr>qu_faults := fs\<rparr>)
   | Rejected # fs \<Rightarrow> (Inl RedisError, s\<lparr>qu_faults := fs\<rparr>)
   | Unanswered # fs \<Rightarrow> (Inl RedisError, snd (p (s\<lparr>qu_faults := fs\<rparr>))))"

definition milliseconds :: "go_duration \<Rightarrow> int" where "milliseconds d = d div 10 ^ 6"

definition z_rem :: "string \<Rightarrow> zset \<Rightarrow> zset" where "z_rem m = filter (\<lambda>p. snd p \<noteq> m)"
definition z_add :: "int \<Rightarrow> string \<Rightarrow> zset \<Rightarrow> zset" where "z_add sc m zs = insort (sc, m) (z_rem m zs)"
definition z_members :: "zset \<Rightarrow> string set" where "z_members zs = snd ` set zs"
definition z_due :: "int \<Rightarrow> nat \<Rightarrow> zset \<Rightarrow> string list" where
  "z_due mx n zs = take n (map snd (filter (\<lambda>p. fst p \<le> mx) zs))"

text \<open>A key with a deadline is gone when the clock has passed it.\<close>

definition is_inflight :: "string \<Rightarrow> queue_store \<Rightarrow> bool" where
  "is_inflight b s \<longleftrightarrow> (case qu_inflight s b of None \<Rightarrow> False | Some d \<Rightarrow> qu_ms s \<le> d)"

definition lock_token :: "string \<Rightarrow> queue_store \<Rightarrow> string option" where
  "lock_token b s = (case qu_locks s b of None \<Rightarrow> None | Some (t, d) \<Rightarrow> if qu_ms s \<le> d then Some t else None)"

section \<open>Operations\<close>

definition batchImageEnqueueScript :: "string \<Rightarrow> int \<Rightarrow> int queue_op" where
  "batchImageEnqueueScript b ttl s =
     (if ttl \<le> 0 then (Inl RedisError, s)
      else if is_inflight b s then (Inr 0, s)
      else (Inr 1, s\<lparr>qu_inflight := (qu_inflight s)(b \<mapsto> qu_ms s + ttl), qu_ready := b # qu_ready s\<rparr>))"

definition queue_Enqueue :: "batchImageQueueOptions \<Rightarrow> string \<Rightarrow> unit queue_op" where
  "queue_Enqueue q b = (if \<not> IsValidBatchImageID b then throw InvalidQueuePayload
     else andthen (redis_call (batchImageEnqueueScript b (milliseconds (InflightTTL q))))
       (\<lambda>applied. if applied = 0 then throw AlreadyQueued else ret ()))"

definition batchImageReserveScript :: "string option queue_op" where
  "batchImageReserveScript s = (case rev (qu_ready s) of
     [] \<Rightarrow> (Inr None, s)
   | b # rest \<Rightarrow> (Inr (Some b), s\<lparr>qu_ready := rev rest, qu_active := z_add (qu_ms s) b (qu_active s)\<rparr>))"

definition zrem_active :: "string \<Rightarrow> unit queue_op" where
  "zrem_active b = redis_call (update (\<lambda>s. s\<lparr>qu_active := z_rem b (qu_active s)\<rparr>))"

definition reserveOnce :: "string queue_op" where
  "reserveOnce = andthen (redis_call batchImageReserveScript) (\<lambda>raw. case raw of
     None \<Rightarrow> throw QueueEmpty
   | Some b \<Rightarrow> if IsValidBatchImageID b then ret b
       else andthen (if b \<noteq> [] then andthen (attempt (zrem_active b)) (\<lambda>_. ret ()) else ret ())
         (\<lambda>_. throw InvalidQueuePayload))"

text \<open>What happens while \<open>Reserve\<close> waits between two polls: the store goes on to another, or the context
  ends; it also ends after the last wait listed.\<close>

fun reserve_loop :: "int \<Rightarrow> (queue_store \<Rightarrow> queue_store) list \<Rightarrow> string queue_op" where
  "reserve_loop deadline waits s = (case reserveOnce s of
     (Inr b, s') \<Rightarrow> (Inr b, s')
   | (Inl e, s') \<Rightarrow>
       if e \<noteq> QueueEmpty then (Inl e, s')
       else if deadline \<le> qu_ms s' then (Inl QueueEmpty, s')
       else case waits of [] \<Rightarrow> (Inl ContextDone, s') | w # ws \<Rightarrow> reserve_loop deadline ws (w s'))"

declare reserve_loop.simps [simp del]

definition queue_Reserve :: "go_duration \<Rightarrow> (queue_store \<Rightarrow> queue_store) list \<Rightarrow> string queue_op" where
  "queue_Reserve block waits s = reserve_loop (qu_ms s + milliseconds block) waits s"

definition requeued :: "string \<Rightarrow> go_duration \<Rightarrow> queue_store \<Rightarrow> queue_store" where
  "requeued b delay s =
     (let s1 = s\<lparr>qu_active := z_rem b (qu_active s), qu_delayed := z_rem b (qu_delayed s)\<rparr> in
      if delay \<le> 0 then s1\<lparr>qu_ready := b # qu_ready s1\<rparr>
      else s1\<lparr>qu_delayed := z_add (qu_ms s + milliseconds delay) b (qu_delayed s1)\<rparr>)"

definition queue_RequeueAfter :: "string \<Rightarrow> go_duration \<Rightarrow> unit queue_op" where
  "queue_RequeueAfter b delay = (if \<not> IsValidBatchImageID b then throw InvalidQueuePayload
     else redis_call (update (requeued b delay)))"

definition acked :: "string \<Rightarrow> queue_store \<Rightarrow> queue_store" where
  "acked b s = s\<lparr>qu_active := z_rem b (qu_active s), qu_delayed := z_rem b (qu_delayed s),
     qu_inflight := (qu_inflight s)(b := None)\<rparr>"

definition queue_Ack :: "string \<Rightarrow> unit queue_op" where
  "queue_Ack b = (if \<not> IsValidBatchImageID b then throw InvalidQueuePayload else redis_call (update (acked b)))"

text \<open>\<open>ZADD XX\<close>: only a member that is there gets a new score.\<close>

definition beaten :: "string \<Rightarrow> queue_store \<Rightarrow> queue_store" where
  "beaten b s = (if b \<in> z_members (qu_active s) then s\<lparr>qu_active := z_add (qu_ms s) b (qu_active s)\<rparr> else s)"

definition queue_Heartbeat :: "string \<Rightarrow> unit queue_op" where
  "queue_Heartbeat b = (if \<not> IsValidBatchImageID b then throw InvalidQueuePayload else redis_call (update (beaten b)))"

definition some_limit :: "nat \<Rightarrow> nat" where "some_limit n = (if n = 0 then 100 else n)"

definition batchImageMoveDueDelayedScript :: "int \<Rightarrow> nat \<Rightarrow> nat queue_op" where
  "batchImageMoveDueDelayedScript now n s =
     (let jobs = z_due now n (qu_delayed s) in
      (Inr (length jobs), s\<lparr>qu_delayed := filter (\<lambda>p. snd p \<notin> set jobs) (qu_delayed s),
         qu_ready := rev jobs @ qu_ready s\<rparr>))"

definition batchImageRecoverStaleActiveScript :: "int \<Rightarrow> nat \<Rightarrow> nat queue_op" where
  "batchImageRecoverStaleActiveScript cutoff n s =
     (let jobs = z_due cutoff n (qu_active s) in
      (Inr (length jobs), s\<lparr>qu_active := filter (\<lambda>p. snd p \<notin> set jobs) (qu_active s),
         qu_ready := rev jobs @ qu_ready s\<rparr>))"

definition queue_MoveDueDelayedToReady :: "nat \<Rightarrow> nat queue_op" where
  "queue_MoveDueDelayedToReady n s =
     redis_call (batchImageMoveDueDelayedScript (qu_ms s) (some_limit n)) s"

definition queue_RecoverStaleActive :: "go_duration \<Rightarrow> nat \<Rightarrow> nat queue_op" where
  "queue_RecoverStaleActive stale n s =
     (if stale \<le> 0 then (Inl InvalidQueuePayload, s)
      else redis_call (batchImageRecoverStaleActiveScript (qu_ms s - milliseconds stale) (some_limit n)) s)"

section \<open>Locks\<close>

text \<open>\<open>token\<close> is what the random generator gives, if it does. The handle of a lock is its job and token.\<close>

definition queue_TryAcquireJobLock :: "batchImageQueueOptions \<Rightarrow> string \<Rightarrow> go_duration \<Rightarrow> string option \<Rightarrow> (string \<times> string) option queue_op" where
  "queue_TryAcquireJobLock q b ttl token = (if \<not> IsValidBatchImageID b then throw InvalidQueuePayload
     else case token of
       None \<Rightarrow> throw RandomFailed
     | Some t \<Rightarrow> redis_call (\<lambda>s.
         if lock_token b s \<noteq> None then (Inr None, s)
         else (Inr (Some (b, t)),
           s\<lparr>qu_locks := (qu_locks s)(b \<mapsto> (t, qu_ms s + milliseconds (default_duration ttl (LockTTL q))))\<rparr>)))"

definition lock_Release :: "string \<times> string \<Rightarrow> unit queue_op" where
  "lock_Release l = redis_call (update (\<lambda>s.
     if lock_token (fst l) s = Some (snd l) then s\<lparr>qu_locks := (qu_locks s)(fst l := None)\<rparr> else s))"

definition lock_Refresh :: "string \<times> string \<Rightarrow> go_duration \<Rightarrow> unit queue_op" where
  "lock_Refresh l ttl = redis_call (update (\<lambda>s.
     if lock_token (fst l) s = Some (snd l)
     then s\<lparr>qu_locks := (qu_locks s)(fst l \<mapsto> (snd l, qu_ms s + milliseconds (default_duration ttl defaultBatchImageJobLockTTL)))\<rparr>
     else s))"

section \<open>A turn of the worker\<close>

record worker_options =
  ReserveBlockTimeout :: go_duration
  JobLockTTL :: go_duration
  LockConflictDelay :: go_duration
  ErrorRetryDelay :: go_duration
  DefaultRequeueDelay :: go_duration

datatype process_result = Terminal | Requeue go_duration

text \<open>\<open>process\<close> is \<open>Process\<close> of the pipeline as the queue sees it: an answer, and the queue after all that
  happened while the job was worked on, the heartbeats included.\<close>

definition after_process :: "worker_options \<Rightarrow> string \<Rightarrow> (unit + process_result) \<Rightarrow> unit queue_op" where
  "after_process opts b r = (case r of
     Inl _ \<Rightarrow> queue_RequeueAfter b (ErrorRetryDelay opts)
   | Inr Terminal \<Rightarrow> queue_Ack b
   | Inr (Requeue d) \<Rightarrow> queue_RequeueAfter b (default_duration d (DefaultRequeueDelay opts)))"

definition RunOnce :: "batchImageQueueOptions \<Rightarrow> worker_options \<Rightarrow> (queue_store \<Rightarrow> queue_store) list \<Rightarrow> string option \<Rightarrow>
    (string \<Rightarrow> queue_store \<Rightarrow> (unit + process_result) \<times> queue_store) \<Rightarrow> unit queue_op" where
  "RunOnce q opts waits token process =
     andthen (attempt (queue_Reserve (ReserveBlockTimeout opts) waits)) (\<lambda>reserved. case reserved of
       Inl e \<Rightarrow> if e = QueueEmpty then ret () else throw e
     | Inr b \<Rightarrow>
         andthen (attempt (queue_TryAcquireJobLock q b (JobLockTTL opts) token)) (\<lambda>locked. case locked of
           Inl e \<Rightarrow> andthen (queue_RequeueAfter b (LockConflictDelay opts)) (\<lambda>_. throw e)
         | Inr None \<Rightarrow> queue_RequeueAfter b (LockConflictDelay opts)
         | Inr (Some l) \<Rightarrow>
             andthen (\<lambda>s. case process b s of (r, s') \<Rightarrow> (Inr r, s')) (\<lambda>r.
             andthen (attempt (after_process opts b r)) (\<lambda>done'.
             andthen (attempt (lock_Release l)) (\<lambda>_. case done' of Inl e \<Rightarrow> throw e | Inr _ \<Rightarrow> ret ())))))"

section \<open>No job is lost\<close>

definition queued_somewhere :: "string \<Rightarrow> queue_store \<Rightarrow> bool" where
  "queued_somewhere b s \<longleftrightarrow> b \<in> set (qu_ready s) \<union> z_members (qu_active s) \<union> z_members (qu_delayed s)"

definition jobs_kept :: "queue_store \<Rightarrow> bool" where
  "jobs_kept s \<longleftrightarrow> (\<forall>b. IsValidBatchImageID b \<longrightarrow> is_inflight b s \<longrightarrow> queued_somewhere b s)"

lemma z_members_simps [simp]:
  "z_members (z_rem m zs) = z_members zs - {m}"
  "z_members (z_add sc m zs) = insert m (z_members zs)"
  "z_members (filter (\<lambda>p. snd p \<notin> S) zs) = z_members zs - S"
  by (auto simp: z_members_def z_rem_def z_add_def set_insort_key)

lemma set_z_due: "set (z_due mx n zs) \<subseteq> z_members zs"
  by (auto simp: z_due_def z_members_def dest!: in_set_takeD)

lemma z_add_mem [simp]: "b \<in> z_members zs \<Longrightarrow> insert b (z_members zs) = z_members zs"
  by auto

lemma preserves_redis_call:
  assumes "preserves P p" and "\<And>fs s. P s \<Longrightarrow> P (s\<lparr>qu_faults := fs\<rparr>)"
  shows "preserves P (redis_call p)"
  using assms by (auto simp: preserves_def redis_call_def split: list.split fault.split)

lemma queued_faults [simp]: "queued_somewhere b (s\<lparr>qu_faults := fs\<rparr>) = queued_somewhere b s"
  "is_inflight b (s\<lparr>qu_faults := fs\<rparr>) = is_inflight b s"
  "queued_somewhere b (s\<lparr>qu_locks := m\<rparr>) = queued_somewhere b s"
  "is_inflight b (s\<lparr>qu_locks := m\<rparr>) = is_inflight b s"
  "queued_somewhere b (s\<lparr>qu_ms := t\<rparr>) = queued_somewhere b s"
  by (simp_all add: queued_somewhere_def is_inflight_def cong: option.case_cong)

lemma recovers_none:
  "queued_somewhere b (snd (batchImageMoveDueDelayedScript now n s)) = queued_somewhere b s"
  "queued_somewhere b (snd (batchImageRecoverStaleActiveScript now n s)) = queued_somewhere b s"
  using set_z_due [of now n "qu_delayed s"] set_z_due [of now n "qu_active s"]
  by (auto simp: queued_somewhere_def batchImageMoveDueDelayedScript_def batchImageRecoverStaleActiveScript_def Let_def)

lemma reserve_script_keeps: "queued_somewhere b (snd (batchImageReserveScript s)) = queued_somewhere b s"
proof (cases "rev (qu_ready s)")
  case (Cons c rest)
  then have "set (qu_ready s) = insert c (set (rev rest))" by (metis set_rev list.simps(15))
  with Cons show ?thesis by (auto simp: queued_somewhere_def batchImageReserveScript_def)
qed (simp add: batchImageReserveScript_def)

lemma requeued_keeps: "queued_somewhere b (requeued c d s) \<longleftrightarrow> queued_somewhere b s \<or> b = c"
  by (auto simp: queued_somewhere_def requeued_def Let_def)

lemma beaten_keeps: "queued_somewhere b (beaten c s) = queued_somewhere b s"
  by (auto simp: queued_somewhere_def beaten_def)

lemma acked_keeps: "b \<noteq> c \<Longrightarrow> queued_somewhere b (acked c s) = queued_somewhere b s"
  by (auto simp: queued_somewhere_def acked_def)

lemma enqueue_keeps: "queued_somewhere b s \<Longrightarrow> queued_somewhere b (snd (batchImageEnqueueScript c ttl s))"
  by (auto simp: queued_somewhere_def batchImageEnqueueScript_def)

lemma removed_keeps: "b \<noteq> c \<Longrightarrow> queued_somewhere b (s\<lparr>qu_active := z_rem c (qu_active s)\<rparr>) = queued_somewhere b s"
  by (auto simp: queued_somewhere_def)

text \<open>Where a job is queued, only its own acknowledgement takes it out.\<close>

definition in_queue :: "string \<Rightarrow> queue_store \<Rightarrow> bool" where
  "in_queue b s \<longleftrightarrow> queued_somewhere b s"

lemma preserves_call_queue:
  "(\<And>s. in_queue b s \<Longrightarrow> in_queue b (snd (p s))) \<Longrightarrow> preserves (in_queue b) (redis_call p)"
  by (rule preserves_redis_call) (auto simp: preserves_def in_queue_def)

lemma queue_ops_keep [preserves]:
  "preserves (in_queue b) (queue_Enqueue q c)"
  "preserves (in_queue b) (queue_RequeueAfter c d)"
  "preserves (in_queue b) (queue_Heartbeat c)"
  "preserves (in_queue b) (queue_TryAcquireJobLock q c ttl token)"
  "preserves (in_queue b) (lock_Release l)"
  "preserves (in_queue b) (lock_Refresh l ttl)"
  unfolding queue_Enqueue_def queue_RequeueAfter_def queue_Heartbeat_def queue_TryAcquireJobLock_def
    lock_Release_def lock_Refresh_def
  by (intro preserves preserves_call_queue;
      auto simp: in_queue_def run requeued_keeps beaten_keeps intro: enqueue_keeps)+

lemma queue_moves_keep [preserves]:
  "preserves (in_queue b) (queue_MoveDueDelayedToReady n)"
  "preserves (in_queue b) (queue_RecoverStaleActive stale n)"
proof -
  have m: "preserves (in_queue b) (redis_call (batchImageMoveDueDelayedScript now k))"
    "preserves (in_queue b) (redis_call (batchImageRecoverStaleActiveScript now k))" for now k
    by (rule preserves_call_queue; simp add: in_queue_def recovers_none)+
  show "preserves (in_queue b) (queue_MoveDueDelayedToReady n)"
    "preserves (in_queue b) (queue_RecoverStaleActive stale n)"
    using m by (auto simp: preserves_def queue_MoveDueDelayedToReady_def queue_RecoverStaleActive_def)
qed

lemma queue_Ack_keeps: "b \<noteq> c \<Longrightarrow> preserves (in_queue b) (queue_Ack c)"
  unfolding queue_Ack_def by (intro preserves preserves_call_queue) (simp add: in_queue_def run acked_keeps)

lemma drop_invalid_keeps:
  assumes "IsValidBatchImageID b"
  shows "preserves (in_queue b) (if IsValidBatchImageID c then ret c
    else andthen (if c \<noteq> [] then andthen (attempt (zrem_active c)) (\<lambda>_. ret ()) else ret ()) (\<lambda>_. throw InvalidQueuePayload))"
proof (cases "b = c")
  case True
  with assms show ?thesis by (simp add: preserves)
next
  case False
  then have "preserves (in_queue b) (zrem_active c)"
    unfolding zrem_active_def by (intro preserves_call_queue) (simp add: in_queue_def run removed_keeps)
  then show ?thesis by (intro preserves)
qed

lemma reserveOnce_keeps: "IsValidBatchImageID b \<Longrightarrow> preserves (in_queue b) reserveOnce"
  unfolding reserveOnce_def
  by (intro preserves_andthen preserves_option preserves_throw drop_invalid_keeps preserves_call_queue)
    (simp_all add: in_queue_def reserve_script_keeps)

lemma reserve_loop_keeps:
  assumes "IsValidBatchImageID b" and "\<And>w s. w \<in> set waits \<Longrightarrow> in_queue b s \<Longrightarrow> in_queue b (w s)"
    and "in_queue b s"
  shows "in_queue b (snd (reserve_loop deadline waits s))"
  using assms(2-)
proof (induction deadline waits s rule: reserve_loop.induct)
  case (1 deadline waits s)
  obtain r s' where r: "reserveOnce s = (r, s')" by fastforce
  then have q: "in_queue b s'" using preservesD' [OF reserveOnce_keeps [OF assms(1)]] "1.prems" by blast
  show ?case
  proof (cases r)
    case (Inl e)
    show ?thesis
    proof (cases "e \<noteq> QueueEmpty \<or> deadline \<le> qu_ms s'")
      case False
      with Inl r q "1.IH" [OF r [symmetric] Inl] "1.prems" show ?thesis
        by (subst reserve_loop.simps) (auto split: list.split)
    qed (use Inl r q in \<open>subst reserve_loop.simps, auto\<close>)
  qed (use r q in \<open>subst reserve_loop.simps, auto\<close>)
qed

section \<open>Every step\<close>

definition kept :: "string \<Rightarrow> queue_store \<Rightarrow> bool" where
  "kept b s \<longleftrightarrow> is_inflight b s \<longrightarrow> queued_somewhere b s"

lemma preserves_call_kept:
  "(\<And>s. kept b s \<Longrightarrow> kept b (snd (p s))) \<Longrightarrow> preserves (kept b) (redis_call p)"
  by (rule preserves_redis_call) (auto simp: preserves_def kept_def)

lemma enqueue_kept: "kept b s \<Longrightarrow> kept b (snd (batchImageEnqueueScript c ttl s))"
  by (auto simp: kept_def queued_somewhere_def is_inflight_def batchImageEnqueueScript_def split: option.splits if_splits)

lemma same_inflight [simp]:
  "is_inflight b (requeued c d s) = is_inflight b s" "is_inflight b (beaten c s) = is_inflight b s"
  "is_inflight b (snd (batchImageMoveDueDelayedScript now n s)) = is_inflight b s"
  "is_inflight b (snd (batchImageRecoverStaleActiveScript now n s)) = is_inflight b s"
  "is_inflight b (snd (batchImageReserveScript s)) = is_inflight b s"
  "is_inflight b (s\<lparr>qu_active := z\<rparr>) = is_inflight b s"
  "is_inflight b (acked c s) \<longleftrightarrow> b \<noteq> c \<and> is_inflight b s"
  by (auto simp: is_inflight_def requeued_def beaten_def acked_def Let_def batchImageMoveDueDelayedScript_def
      batchImageRecoverStaleActiveScript_def batchImageReserveScript_def split: option.splits list.split)

lemma queue_ops_kept [preserves]:
  "preserves (kept b) (queue_Enqueue q c)"
  "preserves (kept b) (queue_RequeueAfter c d)"
  "preserves (kept b) (queue_Ack c)"
  "preserves (kept b) (queue_Heartbeat c)"
  "preserves (kept b) (queue_TryAcquireJobLock q c ttl token)"
  "preserves (kept b) (lock_Release l)"
  "preserves (kept b) (lock_Refresh l ttl)"
  unfolding queue_Enqueue_def queue_RequeueAfter_def queue_Ack_def queue_Heartbeat_def
    queue_TryAcquireJobLock_def lock_Release_def lock_Refresh_def
  by (intro preserves preserves_call_kept enqueue_kept;
      auto simp: kept_def run requeued_keeps beaten_keeps acked_keeps)+

lemma queue_moves_kept [preserves]:
  "preserves (kept b) (queue_MoveDueDelayedToReady n)"
  "preserves (kept b) (queue_RecoverStaleActive stale n)"
proof -
  have m: "preserves (kept b) (redis_call (batchImageMoveDueDelayedScript now k))"
    "preserves (kept b) (redis_call (batchImageRecoverStaleActiveScript now k))" for now k
    by (rule preserves_call_kept; simp add: kept_def recovers_none)+
  show "preserves (kept b) (queue_MoveDueDelayedToReady n)"
    "preserves (kept b) (queue_RecoverStaleActive stale n)"
    using m by (auto simp: preserves_def queue_MoveDueDelayedToReady_def queue_RecoverStaleActive_def)
qed

lemma reserveOnce_kept:
  assumes b: "IsValidBatchImageID b"
  shows "preserves (kept b) reserveOnce"
proof -
  have "preserves (kept b) (if IsValidBatchImageID c then ret c
    else andthen (if c \<noteq> [] then andthen (attempt (zrem_active c)) (\<lambda>_. ret ()) else ret ()) (\<lambda>_. throw InvalidQueuePayload))" for c
  proof (cases "b = c")
    case True
    with b show ?thesis by (simp add: preserves)
  next
    case False
    then have "preserves (kept b) (zrem_active c)"
      unfolding zrem_active_def by (intro preserves_call_kept) (simp add: kept_def run removed_keeps)
    then show ?thesis by (intro preserves)
  qed
  then show ?thesis unfolding reserveOnce_def
    by (intro preserves_andthen preserves_option preserves_throw preserves_call_kept)
      (simp_all add: kept_def reserve_script_keeps)
qed

text \<open>A step of any worker, submitter or maintenance loop of any process, the passing of time, and what the
  network does.\<close>

inductive queue_step :: "queue_store \<Rightarrow> queue_store \<Rightarrow> bool" where
  a_submit: "queue_step s (snd (queue_Enqueue q b s))"
| a_reservation: "queue_step s (snd (reserveOnce s))"
| a_lock: "queue_step s (snd (queue_TryAcquireJobLock q b ttl token s))"
| a_refresh: "queue_step s (snd (lock_Refresh l ttl s))"
| an_unlock: "queue_step s (snd (lock_Release l s))"
| a_requeue: "queue_step s (snd (queue_RequeueAfter b d s))"
| an_ack: "queue_step s (snd (queue_Ack b s))"
| a_heartbeat: "queue_step s (snd (queue_Heartbeat b s))"
| a_move: "queue_step s (snd (queue_MoveDueDelayedToReady n s))"
| a_recovery: "queue_step s (snd (queue_RecoverStaleActive stale n s))"
| a_wait: "0 \<le> d \<Longrightarrow> queue_step s (s\<lparr>qu_ms := qu_ms s + d\<rparr>)"
| a_fault: "queue_step s (s\<lparr>qu_faults := fs\<rparr>)"

lemma kept_wait: "0 \<le> d \<Longrightarrow> kept b s \<Longrightarrow> kept b (s\<lparr>qu_ms := qu_ms s + d\<rparr>)"
  by (auto simp: kept_def is_inflight_def queued_somewhere_def split: option.splits)

lemma queue_step_kept:
  assumes "queue_step s s'" and "IsValidBatchImageID b" and "kept b s"
  shows "kept b s'"
  using assms(1)
proof cases
  case (a_submit q c)
  show ?thesis unfolding a_submit by (rule preservesD [OF queue_ops_kept(1) assms(3)])
next
  case a_reservation
  show ?thesis unfolding a_reservation by (rule preservesD [OF reserveOnce_kept assms(3)]) fact
next
  case (a_lock q c ttl token)
  show ?thesis unfolding a_lock by (rule preservesD [OF queue_ops_kept(5) assms(3)])
next
  case (a_refresh l ttl)
  show ?thesis unfolding a_refresh by (rule preservesD [OF queue_ops_kept(7) assms(3)])
next
  case (an_unlock l)
  show ?thesis unfolding an_unlock by (rule preservesD [OF queue_ops_kept(6) assms(3)])
next
  case (a_requeue c d)
  show ?thesis unfolding a_requeue by (rule preservesD [OF queue_ops_kept(2) assms(3)])
next
  case (an_ack c)
  show ?thesis unfolding an_ack by (rule preservesD [OF queue_ops_kept(3) assms(3)])
next
  case (a_heartbeat c)
  show ?thesis unfolding a_heartbeat by (rule preservesD [OF queue_ops_kept(4) assms(3)])
next
  case (a_move n)
  show ?thesis unfolding a_move by (rule preservesD [OF queue_moves_kept(1) assms(3)])
next
  case (a_recovery stale n)
  show ?thesis unfolding a_recovery by (rule preservesD [OF queue_moves_kept(2) assms(3)])
next
  case (a_wait d)
  then show ?thesis using kept_wait assms(3) by blast
next
  case (a_fault fs)
  then show ?thesis using assms(3) by (simp add: kept_def)
qed

lemma jobs_kept_run: "queue_step\<^sup>*\<^sup>* s s' \<Longrightarrow> jobs_kept s \<Longrightarrow> jobs_kept s'"
  by (induction rule: rtranclp_induct) (auto simp: jobs_kept_def kept_def [symmetric] intro: queue_step_kept)

section \<open>A turn keeps what is not finished\<close>

lemma RunOnce_keeps:
  assumes b: "IsValidBatchImageID b"
    and waits: "\<And>w s. w \<in> set waits \<Longrightarrow> in_queue b s \<Longrightarrow> in_queue b (w s)"
    and process: "\<And>c s. in_queue b s \<Longrightarrow> in_queue b (snd (process c s))"
    and unfinished: "\<And>s. fst (process b s) \<noteq> Inr Terminal"
    and "in_queue b s"
  shows "in_queue b (snd (RunOnce q opts waits token process s))"
proof -
  have reserve: "preserves (in_queue b) (queue_Reserve block waits)" for block
  proof (rule preservesI)
    fix s assume "in_queue b s"
    then have "in_queue b (snd (reserve_loop d waits s))" for d using reserve_loop_keeps [of b waits s d] b waits by blast
    then show "in_queue b (snd (queue_Reserve block waits s))" by (simp add: queue_Reserve_def)
  qed
  have work: "preserves (in_queue b) (andthen (\<lambda>s. case process c s of (r, s') \<Rightarrow> (Inr r, s')) (\<lambda>r.
      andthen (attempt (after_process opts c r)) (\<lambda>done'.
      andthen (attempt (lock_Release l)) (\<lambda>_. case done' of Inl e \<Rightarrow> throw e | Inr _ \<Rightarrow> ret ()))))" (is "preserves _ (?work c l)") for c l
  proof (rule preservesI)
    fix s assume s: "in_queue b s"
    obtain r s1 where r: "process c s = (r, s1)" by fastforce
    have s1: "in_queue b s1" using process [OF s, of c] r by simp
    have "c = b \<Longrightarrow> r \<noteq> Inr Terminal" using unfinished [of s] r by auto
    then have "preserves (in_queue b) (after_process opts c r)"
      by (cases "c = b")
        (auto simp: after_process_def split: sum.split process_result.split intro: preserves queue_Ack_keeps)
    then have "preserves (in_queue b) (andthen (attempt (after_process opts c r)) (\<lambda>done'.
      andthen (attempt (lock_Release l)) (\<lambda>_. case done' of Inl e \<Rightarrow> throw e | Inr _ \<Rightarrow> ret ())))"
      by (intro preserves)
    from preservesD [OF this s1] show "in_queue b (snd (?work c l s))"
      by (simp only: r run_andthen [of "\<lambda>s. case process c s of (r, s') \<Rightarrow> (Inr r, s')"] prod.case sum.case)
  qed
  have "preserves (in_queue b) (RunOnce q opts waits token process)"
    unfolding RunOnce_def by (intro preserves reserve work)
  then show ?thesis using assms(5) by (rule preservesD)
qed

section \<open>Recovered jobs run again\<close>

definition calm :: "queue_store \<Rightarrow> bool" where "calm s \<longleftrightarrow> qu_faults s = []"

lemma redis_call_calm: "calm s \<Longrightarrow> redis_call p s = p s"
  by (simp add: calm_def redis_call_def)

text \<open>A reservation takes the rightmost ready job.\<close>

lemma reserveOnce_pops:
  assumes "calm s" and "qu_ready s = xs @ [b]"
  shows "qu_ready (snd (reserveOnce s)) = xs" and "calm (snd (reserveOnce s))"
    and "IsValidBatchImageID b \<Longrightarrow> fst (reserveOnce s) = Inr b"
  using assms
  by (simp_all add: reserveOnce_def run redis_call_calm batchImageReserveScript_def zrem_active_def)
    (simp_all add: calm_def redis_call_def run)

definition next_reserve :: "queue_store \<Rightarrow> queue_store" where
  "next_reserve s = snd (reserveOnce s)"

lemma reserves_reach:
  assumes "calm s" and "qu_ready s = xs @ b # ys" and "IsValidBatchImageID b"
  shows "fst (reserveOnce ((next_reserve ^^ length ys) s)) = Inr b"
  using assms(1,2)
proof (induction ys arbitrary: s rule: rev_induct)
  case Nil
  then show ?case using reserveOnce_pops(3) assms(3) by simp
next
  case (snoc y ys)
  then have "qu_ready s = (xs @ b # ys) @ [y]" by simp
  from reserveOnce_pops(1,2) [OF snoc.prems(1) this] have
    "calm (next_reserve s)" "qu_ready (next_reserve s) = xs @ b # ys"
    by (simp_all add: next_reserve_def)
  from snoc.IH [OF this] show ?case by (simp add: funpow_swap1)
qed

lemma RecoverStaleActive_calm:
  assumes "calm s" and "0 < stale"
  shows "queue_RecoverStaleActive stale n s
    = batchImageRecoverStaleActiveScript (qu_ms s - milliseconds stale) (some_limit n) s"
  using assms by (simp add: queue_RecoverStaleActive_def redis_call_calm)

lemma due_listed:
  assumes "(sc, b) \<in> set zs" and "sc \<le> mx" and "length (filter (\<lambda>p. fst p \<le> mx) zs) \<le> n"
  shows "b \<in> set (z_due mx n zs)"
  using assms by (force simp: z_due_def)

lemma recovered:
  assumes "calm s" and "0 < stale" and "(sc, b) \<in> set (qu_active s)" and "sc \<le> qu_ms s - milliseconds stale"
    and "length (filter (\<lambda>p. fst p \<le> qu_ms s - milliseconds stale) (qu_active s)) \<le> some_limit n"
  shows "b \<in> set (qu_ready (snd (queue_RecoverStaleActive stale n s)))"
    and "b \<notin> z_members (qu_active (snd (queue_RecoverStaleActive stale n s)))"
    and "calm (snd (queue_RecoverStaleActive stale n s))"
proof -
  have "b \<in> set (z_due (qu_ms s - milliseconds stale) (some_limit n) (qu_active s))"
    using due_listed assms(3-5) by blast
  then show "b \<in> set (qu_ready (snd (queue_RecoverStaleActive stale n s)))"
    "b \<notin> z_members (qu_active (snd (queue_RecoverStaleActive stale n s)))"
    by (simp_all add: RecoverStaleActive_calm [OF assms(1,2)] batchImageRecoverStaleActiveScript_def Let_def)
  show "calm (snd (queue_RecoverStaleActive stale n s))"
    using assms(1) by (simp add: RecoverStaleActive_calm [OF assms(1,2)] batchImageRecoverStaleActiveScript_def Let_def calm_def)
qed

text \<open>C15: No queued job is lost: after any sequence of operations of workers, submitters and maintenance
  loops, with any failures and lost answers, a job whose inflight key blocks its submission is in the
  ready list, active or delayed.\<close>

theorem queued_jobs_never_lost:
  assumes "queue_step\<^sup>*\<^sup>* s s'" and "jobs_kept s" and "IsValidBatchImageID b" and "is_inflight b s'"
  shows "b \<in> set (qu_ready s') \<or> b \<in> z_members (qu_active s') \<or> b \<in> z_members (qu_delayed s')"
  using jobs_kept_run [OF assms(1,2)] assms(3,4) by (auto simp: jobs_kept_def queued_somewhere_def)

text \<open>A turn of the worker takes a job out of the queue only when its processing says it is finished:
  otherwise the job is still queued after the turn, whatever requests of the turn fail.\<close>

theorem unfinished_jobs_stay_queued:
  assumes "IsValidBatchImageID b"
    and "\<And>w s. w \<in> set waits \<Longrightarrow> queued_somewhere b s \<Longrightarrow> queued_somewhere b (w s)"
    and "\<And>c s. queued_somewhere b s \<Longrightarrow> queued_somewhere b (snd (process c s))"
    and "\<And>s. fst (process b s) \<noteq> Inr Terminal" and "queued_somewhere b s"
  shows "queued_somewhere b (snd (RunOnce q opts waits token process s))"
  using RunOnce_keeps [OF assms(1), of waits process s q opts token] assms(2-) by (simp add: in_queue_def)

text \<open>C26: A job whose worker died comes back: once its heartbeat is older than the limit, the recovery moves
  it to the ready list and a later reservation takes it, after at most as many others as were waiting.\<close>

theorem stale_job_is_reserved_again:
  assumes "calm s" and "0 < stale" and "(sc, b) \<in> set (qu_active s)" and "sc \<le> qu_ms s - milliseconds stale"
    and "length (filter (\<lambda>p. fst p \<le> qu_ms s - milliseconds stale) (qu_active s)) \<le> some_limit n"
    and "IsValidBatchImageID b" and "s' = snd (queue_RecoverStaleActive stale n s)"
  shows "\<exists>k < length (qu_ready s'). fst (reserveOnce ((next_reserve ^^ k) s')) = Inr b"
proof -
  obtain xs ys where "qu_ready s' = xs @ b # ys" using recovered(1) [OF assms(1-5)] assms(7) split_list by metis
  then show ?thesis using reserves_reach [OF _ _ assms(6)] recovered(3) [OF assms(1-5)] assms(7)
    by (intro exI [of _ "length ys"]) simp
qed

text \<open>C27: An acknowledgement that comes after the recovery leaves the recovered copy and frees the inflight
  key, so the next submission puts a second copy into the ready list.\<close>

theorem late_ack_allows_second_copy:
  assumes "calm s" and "0 < stale" and "(sc, b) \<in> set (qu_active s)" and "sc \<le> qu_ms s - milliseconds stale"
    and "length (filter (\<lambda>p. fst p \<le> qu_ms s - milliseconds stale) (qu_active s)) \<le> some_limit n"
    and "IsValidBatchImageID b" and "0 < milliseconds (InflightTTL q)"
    and "s1 = snd (queue_RecoverStaleActive stale n s)" and "s2 = snd (queue_Ack b s1)"
  shows "\<exists>s3. queue_Enqueue q b s2 = (Inr (), s3) \<and> 2 \<le> count_list (qu_ready s3) b"
proof -
  have c: "calm s1" and r: "b \<in> set (qu_ready s1)" using recovered [OF assms(1-5)] assms(8) by simp_all
  then have s2: "s2 = acked b s1" using assms(6,9) by (simp add: queue_Ack_def redis_call_calm run)
  then have "calm s2" "\<not> is_inflight b s2" "qu_ready s2 = qu_ready s1" using c by (simp_all add: calm_def acked_def is_inflight_def)
  moreover have "1 \<le> count_list (qu_ready s1) b" using r by (simp add: Suc_le_eq count_list_0_iff flip: neq0_conv)
  ultimately show ?thesis using assms(6,7)
    by (simp add: queue_Enqueue_def redis_call_calm run batchImageEnqueueScript_def)
qed

section \<open>Concrete runs\<close>

definition example_options :: batchImageQueueOptions where
  "example_options = normalizeBatchImageQueueOptions
     \<lparr>ReadyKey = [], DelayedKey = [], ActiveKey = [], InflightPrefix = [], LockPrefix = [], InflightTTL = 0, LockTTL = 0\<rparr>"

definition example_worker :: worker_options where
  "example_worker = \<lparr>ReserveBlockTimeout = a_second, JobLockTTL = 0, LockConflictDelay = a_second,
     ErrorRetryDelay = 60 * a_second, DefaultRequeueDelay = 30 * a_second\<rparr>"

definition empty_queue :: queue_store where
  "empty_queue = \<lparr>qu_ready = [], qu_active = [], qu_delayed = [], qu_inflight = Map.empty, qu_locks = Map.empty,
     qu_ms = 0, qu_faults = []\<rparr>"

definition one_active :: queue_store where
  "one_active = snd (reserveOnce (snd (queue_Enqueue example_options ''imgbatch_1'' empty_queue)))"

definition an_hour_later :: queue_store where
  "an_hour_later = one_active\<lparr>qu_ms := qu_ms one_active + 3600000\<rparr>"

lemma one_active_eq: "one_active = empty_queue\<lparr>qu_active := [(0, ''imgbatch_1'')],
    qu_inflight := [''imgbatch_1'' \<mapsto> 604800000]\<rparr>"
  by (simp add: one_active_def queue_Enqueue_def IsValidBatchImageID_def has_prefix_def redis_call_def run
      empty_queue_def batchImageEnqueueScript_def is_inflight_def reserveOnce_def batchImageReserveScript_def
      example_options_def normalizeBatchImageQueueOptions_def default_duration_def defaultBatchImageInflightTTL_def
      a_second_def milliseconds_def z_add_def z_rem_def)

lemma example_hypotheses:
  "calm an_hour_later" "(0, ''imgbatch_1'') \<in> set (qu_active an_hour_later)"
  "0 \<le> qu_ms an_hour_later - milliseconds (600 * a_second)"
  "length (filter (\<lambda>p. fst p \<le> qu_ms an_hour_later - milliseconds (600 * a_second)) (qu_active an_hour_later)) \<le> some_limit 0"
  "IsValidBatchImageID ''imgbatch_1''" "0 < 600 * a_second"
  by (simp_all add: an_hour_later_def one_active_eq empty_queue_def calm_def milliseconds_def a_second_def
      some_limit_def IsValidBatchImageID_def has_prefix_def)

theorem queued_jobs_never_lost_witness:
  "''imgbatch_1'' \<in> set (qu_ready one_active) \<or> ''imgbatch_1'' \<in> z_members (qu_active one_active)
    \<or> ''imgbatch_1'' \<in> z_members (qu_delayed one_active)"
proof (rule queued_jobs_never_lost)
  have "queue_step\<^sup>*\<^sup>* empty_queue (snd (queue_Enqueue example_options ''imgbatch_1'' empty_queue))"
    by (rule r_into_rtranclp) (rule a_submit)
  then show "queue_step\<^sup>*\<^sup>* empty_queue one_active"
    unfolding one_active_def by (rule rtranclp.rtrancl_into_rtrancl) (rule a_reservation)
  show "jobs_kept empty_queue" by (simp add: jobs_kept_def is_inflight_def empty_queue_def)
  show "is_inflight ''imgbatch_1'' one_active" by (simp add: is_inflight_def one_active_eq empty_queue_def)
qed (rule example_hypotheses)

theorem unfinished_jobs_stay_queued_witness:
  "queued_somewhere ''imgbatch_1'' (snd (RunOnce example_options example_worker [] (Some ''t'')
     (\<lambda>b s. (Inr (Requeue a_second), s)) (snd (queue_Enqueue example_options ''imgbatch_1'' empty_queue))))"
proof (rule unfinished_jobs_stay_queued)
  show "queued_somewhere ''imgbatch_1'' (snd (queue_Enqueue example_options ''imgbatch_1'' empty_queue))"
    by (simp add: queue_Enqueue_def example_hypotheses(5) redis_call_def run empty_queue_def
      batchImageEnqueueScript_def is_inflight_def queued_somewhere_def
      example_options_def normalizeBatchImageQueueOptions_def default_duration_def defaultBatchImageInflightTTL_def
      a_second_def milliseconds_def)
qed (simp_all add: example_hypotheses)

theorem stale_job_is_reserved_again_witness:
  "\<exists>k < length (qu_ready (snd (queue_RecoverStaleActive (600 * a_second) 0 an_hour_later))).
     fst (reserveOnce ((next_reserve ^^ k) (snd (queue_RecoverStaleActive (600 * a_second) 0 an_hour_later)))) = Inr ''imgbatch_1''"
  by (rule stale_job_is_reserved_again [OF example_hypotheses(1,6,2,3,4,5) refl])

theorem late_ack_allows_second_copy_witness:
  "\<exists>s3. queue_Enqueue example_options ''imgbatch_1'' (snd (queue_Ack ''imgbatch_1''
       (snd (queue_RecoverStaleActive (600 * a_second) 0 an_hour_later)))) = (Inr (), s3)
     \<and> 2 \<le> count_list (qu_ready s3) ''imgbatch_1''"
  by (rule late_ack_allows_second_copy [OF example_hypotheses(1,6,2,3,4,5) _ refl refl])
    (simp add: example_options_def normalizeBatchImageQueueOptions_def default_duration_def
      defaultBatchImageInflightTTL_def a_second_def milliseconds_def)

end
