(* ===== verification/BatchImageJobs.thy ===== *)
theory BatchImageJobs
  imports UsageBilling BatchImageQueue
begin

text \<open>
  The tables of batch-image jobs: the data and the status graph of \<open>service/batch_image.go\<close>, the statements
  of \<open>repository/batch_image_repo.go\<close>. A row of a job is the entity the repository reads back; the columns
  with ten decimals round what is written. The statements share the store with the billing database and the
  queue. The fault script decides on each statement sent alone and on each transaction; the clocks of the
  application are one.
\<close>

section \<open>Status graph\<close>

datatype job_status = JCreated | JUploading | JSubmitted | JRunning | JIndexing | JSettling
  | JCompleted | JFailed | JCancelled | JOutputDeleted

definition IsTerminalBatchImageJobStatus :: "job_status \<Rightarrow> bool" where
  "IsTerminalBatchImageJobStatus st \<longleftrightarrow> st \<in> {JCompleted, JFailed, JCancelled, JOutputDeleted}"

fun allowed_from :: "job_status \<Rightarrow> job_status list" where
  "allowed_from JCreated = [JUploading, JSubmitted, JCancelled]"
| "allowed_from JUploading = [JSubmitted, JCancelled]"
| "allowed_from JSubmitted = [JRunning, JIndexing, JFailed, JCancelled]"
| "allowed_from JRunning = [JRunning, JIndexing, JFailed, JCancelled]"
| "allowed_from JIndexing = [JSettling, JFailed]"
| "allowed_from JSettling = [JCompleted]"
| "allowed_from _ = []"

definition CanTransitionBatchImageJob :: "job_status \<Rightarrow> job_status \<Rightarrow> bool" where
  "CanTransitionBatchImageJob from_st to_st \<longleftrightarrow>
     (if IsTerminalBatchImageJobStatus from_st
      then to_st = JOutputDeleted \<and> from_st \<noteq> JOutputDeleted
        \<and> (from_st = JCompleted \<or> from_st = JFailed \<or> from_st = JCancelled)
      else to_st = JFailed \<or> to_st \<in> set (allowed_from from_st))"

definition isBatchImageProcessorDoneStatus :: "job_status \<Rightarrow> bool" where
  "isBatchImageProcessorDoneStatus st \<longleftrightarrow> st = JSettling \<or> IsTerminalBatchImageJobStatus st"

definition IsSupportedBatchImageProvider :: "string \<Rightarrow> bool" where
  "IsSupportedBatchImageProvider p \<longleftrightarrow> p = ''gemini_api'' \<or> p = ''vertex''"

section \<open>Rows\<close>

record BatchImageJob =
  bj_ID :: int
  bj_BatchID :: string
  bj_UserID :: int
  bj_APIKeyID :: "int option"
  bj_AccountID :: "int option"
  bj_Provider :: string
  bj_Model :: string
  bj_TaskName :: string
  bj_ParentBatchID :: "string option"
  bj_Status :: job_status
  bj_ProviderJobName :: "string option"
  bj_ProviderInputRef :: "string option"
  bj_ProviderOutputRef :: "string option"
  bj_GCSInputURI :: "string option"
  bj_GCSOutputURI :: "string option"
  bj_ItemCount :: int
  bj_SuccessCount :: int
  bj_FailCount :: int
  bj_CancelledCount :: int
  bj_EstimatedCost :: float64
  bj_HoldAmount :: "float64 option"
  bj_ActualCost :: "float64 option"
  bj_BaseUnitPrice :: float64
  bj_GroupRateMultiplier :: float64
  bj_AccountRateMultiplier :: float64
  bj_BatchDiscountMultiplier :: float64
  bj_HoldMultiplier :: float64
  bj_BillableUnitPrice :: float64
  bj_HoldUnitPrice :: float64
  bj_PricingSnapshotVersion :: int
  bj_Currency :: string
  bj_HoldID :: "string option"
  bj_IdempotencyKey :: "string option"
  bj_RequestHash :: "string option"
  bj_ManifestHash :: "string option"
  bj_RetryCount :: int
  bj_Version :: int
  bj_OutputExpiresAt :: "go_time option"
  bj_InputDeletedAt :: "go_time option"
  bj_OutputDeletedAt :: "go_time option"
  bj_DownloadedAt :: "go_time option"
  bj_UserDeletedAt :: "go_time option"
  bj_LastErrorCode :: "string option"
  bj_LastErrorMessage :: "string option"
  bj_CreatedAt :: go_time
  bj_UpdatedAt :: go_time
  bj_SubmittedAt :: "go_time option"
  bj_StartedAt :: "go_time option"
  bj_FinishedAt :: "go_time option"
  bj_SettledAt :: "go_time option"

datatype item_status = IPending | ISuccess | IFailed | ICancelled

record BatchImageItem =
  ii_JobID :: string
  ii_CustomID :: string
  ii_Status :: item_status
  ii_RequestHash :: "string option"
  ii_PromptPreview :: "string option"
  ii_ProviderSourceObject :: "string option"
  ii_SourceLineNumber :: "int option"
  ii_MimeType :: "string option"
  ii_FileExtension :: "string option"
  ii_ImageCount :: int
  ii_ErrorCode :: "string option"
  ii_ErrorMessage :: "string option"
  ii_IndexedAt :: "go_time option"

text \<open>A usage log as the settlement fills it.\<close>

record BatchUsageLog =
  bl_RequestID :: string
  bl_UserID :: int
  bl_APIKeyID :: int
  bl_AccountID :: int
  bl_Model :: string
  bl_ImageCount :: int
  bl_ActualCost :: float64
  bl_RateMultiplier :: float64
  bl_AccountRateMultiplier :: float64
  bl_CreatedAt :: go_time

record batch_store =
  bi_jobs :: "BatchImageJob list"
  bi_items :: "BatchImageItem list"
  bi_events :: "(string \<times> string) list"
  bi_next_id :: int
  bi_usage_logs :: "BatchUsageLog list"
  bi_invalidated :: "int list"
  bi_bill :: bill_store
  bi_queue :: queue_store
  bi_clock :: go_time
  bi_faults :: "fault list"

datatype batch_error =
    JobDbError | JobNotFound | JobExists | ItemExists | InvalidProvider | InvalidTransition
  | IndexStateConflict | SettlementInvalidStatus | AlreadySettled | ManifestConflict | RecordDeleteNotReady
  | SettlementMissingAPIKeyID | SettlementMissingAccountID | SettlementInvalidCounts | SettlementPricingMissing
  | SettlementCostExceedsHold | SettlementBillingFailed | BillingHoldFailed | InsufficientBalance
  | IndexOutputMissing | IndexParseFailed | IndexNoResultLines | DuplicateCustomID
  | MissingProviderJobName | MissingAccountID | UnsupportedProvider | AccountError
  | IdempotencyConflict | QueueFailed | ProviderSubmitFailed string | CancelFailed
  | CleanupFailed | OutputDeleteNotReady | UnsafeCleanupPath | CleanupUnsafePath | ProviderCleanupFailed
  | UnsupportedCleanupTarget

type_synonym 'a batch = "(batch_error, batch_store, 'a) prog"

text \<open>\<open>strings.TrimSpace(*v)\<close>, empty for nil; \<open>batchImageOptionalStringPtr\<close>.\<close>

definition batchImageDerefString :: "string option \<Rightarrow> string" where
  "batchImageDerefString v = (case v of None \<Rightarrow> [] | Some t \<Rightarrow> trim_space t)"

definition batchImageOptionalStringPtr :: "string \<Rightarrow> string option" where
  "batchImageOptionalStringPtr v = (if trim_space v = [] then None else Some (trim_space v))"

definition truncateBatchImageMessage :: "string \<Rightarrow> nat \<Rightarrow> string" where
  "truncateBatchImageMessage m limit =
     (let t = trim_space m in if limit = 0 \<or> length t \<le> limit then t else take limit t)"

section \<open>Statements\<close>

definition undone :: "'a batch \<Rightarrow> 'a batch" where
  "undone p s = (case p s of (Inl e, _) \<Rightarrow> (Inl e, s) | (Inr a, s') \<Rightarrow> (Inr a, s'))"

definition job_call :: "'a batch \<Rightarrow> 'a batch" where
  "job_call p s = (case bi_faults s of
     [] \<Rightarrow> undone p s
   | Served # fs \<Rightarrow> undone p (s\<lparr>bi_faults := fs\<rparr>)
   | Rejected # fs \<Rightarrow> (Inl JobDbError, s\<lparr>bi_faults := fs\<rparr>)
   | Unanswered # fs \<Rightarrow> (Inl JobDbError, snd (undone p (s\<lparr>bi_faults := fs\<rparr>))))"

definition find_job :: "string \<Rightarrow> batch_store \<Rightarrow> BatchImageJob option" where
  "find_job b s = List.find (\<lambda>j. bj_BatchID j = b) (bi_jobs s)"

definition update_jobs :: "(BatchImageJob \<Rightarrow> bool) \<Rightarrow> (BatchImageJob \<Rightarrow> BatchImageJob) \<Rightarrow> batch_store \<Rightarrow> batch_store" where
  "update_jobs w f s = s\<lparr>bi_jobs := map (\<lambda>j. if w j then f j else j) (bi_jobs s)\<rparr>"

text \<open>\<open>UPDATE batch_image_jobs SET f WHERE batch_id = b AND w\<close>, with the number of rows.\<close>

definition update_job :: "string \<Rightarrow> (BatchImageJob \<Rightarrow> bool) \<Rightarrow> (BatchImageJob \<Rightarrow> BatchImageJob) \<Rightarrow> nat batch" where
  "update_job b w f s =
     (Inr (length (filter (\<lambda>j. bj_BatchID j = b \<and> w j) (bi_jobs s))), update_jobs (\<lambda>j. bj_BatchID j = b \<and> w j) f s)"

text \<open>An event of a job that is not there breaks the foreign key.\<close>

definition append_event :: "string \<Rightarrow> string \<Rightarrow> unit batch" where
  "append_event b ty s = (case find_job b s of None \<Rightarrow> (Inl JobDbError, s)
     | Some _ \<Rightarrow> (Inr (), s\<lparr>bi_events := bi_events s @ [(b, ty)]\<rparr>))"

definition AppendBatchImageEvent :: "string \<Rightarrow> string \<Rightarrow> unit batch" where
  "AppendBatchImageEvent b ty = job_call (append_event b ty)"

definition the_job :: "string \<Rightarrow> BatchImageJob batch" where
  "the_job b s = (case find_job b s of None \<Rightarrow> (Inl JobNotFound, s) | Some j \<Rightarrow> (Inr j, s))"

definition GetBatchImageJobByBatchID :: "string \<Rightarrow> BatchImageJob batch" where
  "GetBatchImageJobByBatchID b = job_call (the_job b)"

definition owned_by :: "int \<Rightarrow> int \<Rightarrow> BatchImageJob \<Rightarrow> bool" where
  "owned_by u k j \<longleftrightarrow> bj_UserID j = u \<and> bj_APIKeyID j = Some k"

definition GetBatchImageJobByBatchIDForOwner :: "int \<Rightarrow> int \<Rightarrow> string \<Rightarrow> BatchImageJob batch" where
  "GetBatchImageJobByBatchIDForOwner u k b = job_call (\<lambda>s. case find_job b s of
     None \<Rightarrow> (Inl JobNotFound, s)
   | Some j \<Rightarrow> if owned_by u k j \<and> bj_UserDeletedAt j = None then (Inr j, s) else (Inl JobNotFound, s))"

definition GetBatchImageJobByIdempotencyKey :: "int \<Rightarrow> int \<Rightarrow> string \<Rightarrow> BatchImageJob batch" where
  "GetBatchImageJobByIdempotencyKey u k key = job_call (\<lambda>s.
     case List.find (\<lambda>j. owned_by u k j \<and> bj_IdempotencyKey j = Some key) (rev (bi_jobs s)) of
       None \<Rightarrow> (Inl JobNotFound, s) | Some j \<Rightarrow> (Inr j, s))"

text \<open>The columns \<open>DECIMAL(20,10)\<close>.\<close>

definition column10 :: "bill_config \<Rightarrow> float64 \<Rightarrow> float64" where
  "column10 cfg x = rnd64 (dec_places 10 (bc_num cfg x))"

definition column4 :: "bill_config \<Rightarrow> float64 \<Rightarrow> float64" where
  "column4 cfg x = rnd64 (dec_places 4 (bc_num cfg x))"

definition fits10 :: "bill_config \<Rightarrow> float64 \<Rightarrow> bool" where
  "fits10 cfg x \<longleftrightarrow> \<bar>dec_places 10 (bc_num cfg x)\<bar> < 10 ^ 10"

definition fits4 :: "bill_config \<Rightarrow> float64 \<Rightarrow> bool" where
  "fits4 cfg x \<longleftrightarrow> \<bar>dec_places 4 (bc_num cfg x)\<bar> < 10 ^ 6"

definition stored_job :: "bill_config \<Rightarrow> BatchImageJob \<Rightarrow> BatchImageJob" where
  "stored_job cfg j = j\<lparr>bj_EstimatedCost := column10 cfg (bj_EstimatedCost j),
     bj_HoldAmount := map_option (column10 cfg) (bj_HoldAmount j),
     bj_ActualCost := map_option (column10 cfg) (bj_ActualCost j),
     bj_BaseUnitPrice := column10 cfg (bj_BaseUnitPrice j),
     bj_GroupRateMultiplier := column4 cfg (bj_GroupRateMultiplier j),
     bj_AccountRateMultiplier := column4 cfg (bj_AccountRateMultiplier j),
     bj_BatchDiscountMultiplier := column4 cfg (bj_BatchDiscountMultiplier j),
     bj_HoldMultiplier := column4 cfg (bj_HoldMultiplier j),
     bj_BillableUnitPrice := column10 cfg (bj_BillableUnitPrice j),
     bj_HoldUnitPrice := column10 cfg (bj_HoldUnitPrice j)\<rparr>"

definition job_fits :: "bill_config \<Rightarrow> BatchImageJob \<Rightarrow> bool" where
  "job_fits cfg j \<longleftrightarrow> (\<forall>x \<in> set [bj_EstimatedCost j, bj_BaseUnitPrice j, bj_BillableUnitPrice j, bj_HoldUnitPrice j]. fits10 cfg x)
     \<and> map_option (fits10 cfg) (bj_HoldAmount j) \<noteq> Some False \<and> map_option (fits10 cfg) (bj_ActualCost j) \<noteq> Some False
     \<and> (\<forall>x \<in> set [bj_GroupRateMultiplier j, bj_AccountRateMultiplier j, bj_BatchDiscountMultiplier j, bj_HoldMultiplier j]. fits4 cfg x)"

text \<open>The row an insertion makes of the parameters: what it does not set has the default of its column.\<close>

definition inserted_job :: "go_time \<Rightarrow> int \<Rightarrow> BatchImageJob \<Rightarrow> BatchImageJob" where
  "inserted_job now i j = j\<lparr>bj_ID := i, bj_Version := 0, bj_InputDeletedAt := None, bj_OutputDeletedAt := None,
     bj_DownloadedAt := None, bj_UserDeletedAt := None, bj_LastErrorCode := None, bj_LastErrorMessage := None,
     bj_CreatedAt := now, bj_UpdatedAt := now, bj_SubmittedAt := None, bj_StartedAt := None, bj_FinishedAt := None,
     bj_SettledAt := None\<rparr>"

definition manifest_taken :: "string \<Rightarrow> string option \<Rightarrow> batch_store \<Rightarrow> bool" where
  "manifest_taken b h s \<longleftrightarrow> h \<noteq> None \<and> h \<noteq> Some [] \<and> (\<exists>j \<in> set (bi_jobs s). bj_BatchID j \<noteq> b \<and> bj_ManifestHash j = h)"

text \<open>The parameters are the fields of a job that \<open>inserted_job\<close> does not set; the service always gives a batch
  identifier.\<close>

definition insert_job :: "bill_config \<Rightarrow> BatchImageJob \<Rightarrow> BatchImageJob batch" where
  "insert_job cfg p s =
     (if find_job (bj_BatchID p) s \<noteq> None \<or> manifest_taken (bj_BatchID p) (bj_ManifestHash p) s then (Inl JobExists, s)
      else if \<not> job_fits cfg p then (Inl JobDbError, s)
      else let j = stored_job cfg (inserted_job (bi_clock s) (bi_next_id s) p)
           in (Inr j, s\<lparr>bi_jobs := bi_jobs s @ [j], bi_next_id := bi_next_id s + 1\<rparr>))"

definition CreateBatchImageJob :: "bill_config \<Rightarrow> BatchImageJob \<Rightarrow> BatchImageJob batch" where
  "CreateBatchImageJob cfg params =
     (if \<not> IsSupportedBatchImageProvider (bj_Provider params) then throw InvalidProvider
      else job_call (insert_job cfg
        (params\<lparr>bj_Currency := (if bj_Currency params = [] then ''USD'' else bj_Currency params)\<rparr>)))"

definition transitioned :: "job_status \<Rightarrow> go_time \<Rightarrow> string option \<Rightarrow> string option \<Rightarrow> BatchImageJob \<Rightarrow> BatchImageJob" where
  "transitioned to_st now code msg j = j\<lparr>bj_Status := to_st, bj_Version := bj_Version j + 1, bj_UpdatedAt := now,
     bj_LastErrorCode := (if to_st = JFailed then code else bj_LastErrorCode j),
     bj_LastErrorMessage := (if to_st = JFailed then msg else bj_LastErrorMessage j),
     bj_SubmittedAt := (if to_st = JSubmitted \<and> bj_SubmittedAt j = None then Some now else bj_SubmittedAt j),
     bj_StartedAt := (if to_st = JRunning \<and> bj_StartedAt j = None then Some now else bj_StartedAt j),
     bj_FinishedAt := (if to_st \<in> {JCompleted, JFailed, JCancelled} \<and> bj_FinishedAt j = None then Some now else bj_FinishedAt j),
     bj_SettledAt := (if to_st = JCompleted \<and> bj_SettledAt j = None then Some now else bj_SettledAt j),
     bj_OutputDeletedAt := (if to_st = JOutputDeleted \<and> bj_OutputDeletedAt j = None then Some now else bj_OutputDeletedAt j)\<rparr>"

definition set_job :: "string \<Rightarrow> (BatchImageJob \<Rightarrow> BatchImageJob) \<Rightarrow> unit batch" where
  "set_job b f = andthen (update_job b (\<lambda>_. True) f) (\<lambda>_. ret ())"

definition TransitionBatchImageJobStatus :: "string \<Rightarrow> job_status \<Rightarrow> string option \<Rightarrow> string option \<Rightarrow> string \<Rightarrow> unit batch" where
  "TransitionBatchImageJobStatus b to_st code msg event = job_call (andthen (the_job b) (\<lambda>j.
     if \<not> CanTransitionBatchImageJob (bj_Status j) to_st then throw InvalidTransition
     else andthen (inspect bi_clock) (\<lambda>now. andthen (set_job b (transitioned to_st now code msg))
       (\<lambda>_. if event \<noteq> [] then append_event b event else ret ()))))"

definition unsubmitted :: "BatchImageJob \<Rightarrow> bool" where
  "unsubmitted j \<longleftrightarrow> bj_Status j = JCreated \<or> bj_Status j = JUploading"

definition TouchBatchImageJobSubmitting :: "string \<Rightarrow> unit batch" where
  "TouchBatchImageJobSubmitting b = job_call (andthen (inspect bi_clock) (\<lambda>now.
     andthen (update_job b unsubmitted (\<lambda>j. j\<lparr>bj_UpdatedAt := now\<rparr>)) (\<lambda>_. ret ())))"

definition failed_job :: "go_time \<Rightarrow> string \<Rightarrow> string \<Rightarrow> BatchImageJob \<Rightarrow> BatchImageJob" where
  "failed_job now code msg j = j\<lparr>bj_Status := JFailed, bj_LastErrorCode := Some code, bj_LastErrorMessage := Some msg,
     bj_FinishedAt := (if bj_FinishedAt j = None then Some now else bj_FinishedAt j), bj_UpdatedAt := now,
     bj_Version := bj_Version j + 1\<rparr>"

text \<open>The answer says whether the job was failed, also when recording the event then fails.\<close>

definition FailStaleUnsubmittedBatchImageJob :: "string \<Rightarrow> go_time \<Rightarrow> string \<Rightarrow> string \<Rightarrow> (bool \<times> batch_error option) batch" where
  "FailStaleUnsubmittedBatchImageJob b cutoff code msg =
     andthen (attempt (job_call (andthen (inspect bi_clock) (\<lambda>now.
       update_job b (\<lambda>j. unsubmitted j \<and> bj_ProviderJobName j = None \<and> bj_UpdatedAt j \<le> cutoff) (failed_job now code msg)))))
     (\<lambda>r. case r of
        Inl e \<Rightarrow> ret (False, Some e)
      | Inr n \<Rightarrow> if n = 0 then ret (False, None)
          else andthen (attempt (AppendBatchImageEvent b ''billing_hold_recovery_failed_unsubmitted''))
            (\<lambda>r. ret (True, case r of Inl e \<Rightarrow> Some e | Inr _ \<Rightarrow> None)))"

definition found_or :: "batch_error \<Rightarrow> nat batch \<Rightarrow> unit batch" where
  "found_or e p = andthen (job_call p) (\<lambda>n. if n = 0 then throw e else ret ())"

definition UpdateBatchImageJobProviderOutputRef :: "string \<Rightarrow> string \<Rightarrow> unit batch" where
  "UpdateBatchImageJobProviderOutputRef b ref = found_or JobNotFound (andthen (inspect bi_clock) (\<lambda>now.
     update_job b (\<lambda>_. True) (\<lambda>j. j\<lparr>bj_ProviderOutputRef := Some ref, bj_UpdatedAt := now\<rparr>)))"

definition nullif_empty :: "string \<Rightarrow> string option" where
  "nullif_empty v = (if v = [] then None else Some v)"

record BatchProviderJob =
  pj_ProviderJobName :: string
  pj_ProviderInputRef :: string
  pj_ProviderOutputRef :: string

definition batchImageGCSRef :: "string \<Rightarrow> string \<Rightarrow> string" where
  "batchImageGCSRef provider ref =
     (if provider = ''vertex'' \<and> has_prefix (trim_space ref) ''gs://'' then trim_space ref else [])"

definition submitted_job :: "go_time \<Rightarrow> string \<Rightarrow> BatchProviderJob \<Rightarrow> BatchImageJob \<Rightarrow> BatchImageJob" where
  "submitted_job now provider p j = j\<lparr>bj_Status := JSubmitted, bj_ProviderJobName := Some (pj_ProviderJobName p),
     bj_ProviderInputRef := nullif_empty (pj_ProviderInputRef p),
     bj_ProviderOutputRef := nullif_empty (pj_ProviderOutputRef p),
     bj_GCSInputURI := nullif_empty (batchImageGCSRef provider (pj_ProviderInputRef p)),
     bj_GCSOutputURI := nullif_empty (batchImageGCSRef provider (pj_ProviderOutputRef p)),
     bj_SubmittedAt := (if bj_SubmittedAt j = None then Some now else bj_SubmittedAt j), bj_UpdatedAt := now,
     bj_Version := bj_Version j + 1\<rparr>"

definition UpdateBatchImageJobProviderSubmit :: "string \<Rightarrow> string \<Rightarrow> BatchProviderJob \<Rightarrow> unit batch" where
  "UpdateBatchImageJobProviderSubmit b provider p = job_call (andthen (the_job b) (\<lambda>j.
     if \<not> CanTransitionBatchImageJob (bj_Status j) JSubmitted then throw InvalidTransition
     else andthen (inspect bi_clock) (\<lambda>now. andthen (set_job b (submitted_job now provider p))
       (\<lambda>_. append_event b ''provider_submitted''))))"

text \<open>Without a status to set, a job that has failed already is still given a finishing time.\<close>

definition submit_failed_job :: "bool \<Rightarrow> go_time \<Rightarrow> string \<Rightarrow> string \<Rightarrow> BatchImageJob \<Rightarrow> BatchImageJob" where
  "submit_failed_job mark now code msg j =
     (let st = (if mark then JFailed else bj_Status j) in
      j\<lparr>bj_Status := st, bj_LastErrorCode := Some code, bj_LastErrorMessage := Some msg,
        bj_FinishedAt := (if st = JFailed \<and> bj_FinishedAt j = None then Some now else bj_FinishedAt j),
        bj_UpdatedAt := now, bj_Version := bj_Version j + 1\<rparr>)"

definition RecordBatchImageJobSubmitFailure :: "string \<Rightarrow> string \<Rightarrow> string \<Rightarrow> bool \<Rightarrow> unit batch" where
  "RecordBatchImageJobSubmitFailure b code msg mark =
     andthen (job_call (andthen (inspect bi_clock) (\<lambda>now. set_job b (submit_failed_job mark now code msg))))
       (\<lambda>_. AppendBatchImageEvent b (if mark then ''submit_failed'' else ''queue_failed''))"

definition settled_job :: "bill_config \<Rightarrow> float64 \<Rightarrow> string \<Rightarrow> go_time \<Rightarrow> go_time option \<Rightarrow> BatchImageJob \<Rightarrow> BatchImageJob" where
  "settled_job cfg cost h now expires j = j\<lparr>bj_Status := JCompleted, bj_ActualCost := Some (column10 cfg cost),
     bj_ManifestHash := Some h,
     bj_SettledAt := (if bj_SettledAt j = None then Some now else bj_SettledAt j),
     bj_FinishedAt := (if bj_FinishedAt j = None then Some now else bj_FinishedAt j),
     bj_OutputExpiresAt := (if bj_OutputExpiresAt j = None then expires else bj_OutputExpiresAt j),
     bj_UpdatedAt := now, bj_Version := bj_Version j + 1\<rparr>"

definition settleable :: "string \<Rightarrow> BatchImageJob \<Rightarrow> bool" where
  "settleable h j \<longleftrightarrow> bj_Status j = JSettling
     \<and> (bj_ManifestHash j = None \<or> bj_ManifestHash j = Some [] \<or> bj_ManifestHash j = Some h)"

definition MarkBatchImageJobSettled :: "bill_config \<Rightarrow> string \<Rightarrow> float64 \<Rightarrow> string \<Rightarrow> go_time \<Rightarrow> go_time option \<Rightarrow> unit batch" where
  "MarkBatchImageJobSettled cfg b cost h now expires = job_call (\<lambda>s.
     (case find_job b s of
        Some j \<Rightarrow>
          if settleable h j then
            if manifest_taken b (Some h) s \<or> \<not> fits10 cfg cost then (Inl JobDbError, s)
            else andthen (set_job b (settled_job cfg cost h now expires)) (\<lambda>_. append_event b ''settlement_completed'') s
          else (Inl (if bj_Status j \<noteq> JSettling
              then if bj_Status j = JCompleted then AlreadySettled else SettlementInvalidStatus
              else ManifestConflict), s)
      | None \<Rightarrow> (Inl JobNotFound, s)))"

definition retried_job :: "go_time \<Rightarrow> string \<Rightarrow> string \<Rightarrow> BatchImageJob \<Rightarrow> BatchImageJob" where
  "retried_job now code msg j = j\<lparr>bj_LastErrorCode := Some code, bj_LastErrorMessage := Some msg,
     bj_RetryCount := bj_RetryCount j + 1, bj_UpdatedAt := now\<rparr>"

definition SetBatchImageJobSettlementFailed :: "string \<Rightarrow> string \<Rightarrow> string \<Rightarrow> int batch" where
  "SetBatchImageJobSettlementFailed b code msg =
     andthen (job_call (andthen (inspect bi_clock) (\<lambda>now. andthen (set_job b (retried_job now code msg))
       (\<lambda>_. andthen (the_job b) (\<lambda>j. ret (bj_RetryCount j))))))
     (\<lambda>n. andthen (AppendBatchImageEvent b ''settlement_failed'') (\<lambda>_. ret n))"

section \<open>Items\<close>

definition items_of :: "string \<Rightarrow> batch_store \<Rightarrow> BatchImageItem list" where
  "items_of b s = filter (\<lambda>i. ii_JobID i = b) (bi_items s)"

definition create_item :: "BatchImageItem \<Rightarrow> unit batch" where
  "create_item i s =
     (if find_job (ii_JobID i) s = None then (Inl JobDbError, s)
      else if \<exists>x \<in> set (items_of (ii_JobID i) s). ii_CustomID x = ii_CustomID i then (Inl ItemExists, s)
      else (Inr (), s\<lparr>bi_items := bi_items s @ [i]\<rparr>))"

fun create_items :: "BatchImageItem list \<Rightarrow> unit batch" where
  "create_items [] = ret ()"
| "create_items (i # is) = andthen (create_item i) (\<lambda>_. create_items is)"

definition BulkCreateBatchImageItems :: "BatchImageItem list \<Rightarrow> unit batch" where
  "BulkCreateBatchImageItems is = (if is = [] then ret () else job_call (create_items is))"

text \<open>The rows of an index run keep the prompt previews of the rows they replace.\<close>

definition prompt_preview :: "string \<Rightarrow> BatchImageItem list \<Rightarrow> string option" where
  "prompt_preview c is = (case List.find (\<lambda>i. ii_CustomID i = c) is of
     None \<Rightarrow> None | Some i \<Rightarrow> if ii_PromptPreview i = Some [] then None else ii_PromptPreview i)"

definition with_preview :: "string \<Rightarrow> BatchImageItem list \<Rightarrow> BatchImageItem \<Rightarrow> BatchImageItem" where
  "with_preview b old i = i\<lparr>ii_JobID := b,
     ii_PromptPreview := (if ii_PromptPreview i = None then prompt_preview (ii_CustomID i) old else ii_PromptPreview i)\<rparr>"

definition ReplaceBatchImageItemsForJob :: "string \<Rightarrow> BatchImageItem list \<Rightarrow> int \<Rightarrow> int \<Rightarrow> unit batch" where
  "ReplaceBatchImageItemsForJob b is success failures = job_call (andthen (the_job b) (\<lambda>j.
     if bj_Status j \<noteq> JIndexing then throw IndexStateConflict
     else andthen (inspect (items_of b)) (\<lambda>old.
       andthen (update (\<lambda>s. s\<lparr>bi_items := filter (\<lambda>i. ii_JobID i \<noteq> b) (bi_items s)\<rparr>)) (\<lambda>_.
       andthen (create_items (map (with_preview b old) is)) (\<lambda>_.
       andthen (inspect bi_clock) (\<lambda>now.
         set_job b (\<lambda>j. j\<lparr>bj_SuccessCount := success, bj_FailCount := failures, bj_UpdatedAt := now\<rparr>)))))))"

definition page_limit :: "int \<Rightarrow> nat" where
  "page_limit limit = (if limit \<le> 0 \<or> 500 < limit then 100 else nat limit)"

definition ListBatchImageItems :: "string \<Rightarrow> item_status option \<Rightarrow> int \<Rightarrow> int \<Rightarrow> BatchImageItem list batch" where
  "ListBatchImageItems b st limit off = job_call (inspect (\<lambda>s. take (page_limit limit) (drop (nat off)
     (filter (\<lambda>i. case st of None \<Rightarrow> True | Some x \<Rightarrow> ii_Status i = x) (items_of b s)))))"

section \<open>Clean-up, downloads and what the user hides\<close>

definition clean_limit :: "int \<Rightarrow> nat" where
  "clean_limit limit = (if limit \<le> 0 \<or> 1000 < limit then 100 else nat limit)"

definition ended_at :: "BatchImageJob \<Rightarrow> go_time" where
  "ended_at j = (case bj_FinishedAt j of Some t \<Rightarrow> t | None \<Rightarrow>
     (case bj_SettledAt j of Some t \<Rightarrow> t | None \<Rightarrow> bj_UpdatedAt j))"

definition ListBatchImageJobsDueForInputCleanup :: "go_time \<Rightarrow> int \<Rightarrow> BatchImageJob list batch" where
  "ListBatchImageJobsDueForInputCleanup cutoff limit = job_call (inspect (\<lambda>s. take (clean_limit limit)
     (filter (\<lambda>j. bj_InputDeletedAt j = None \<and> bj_ProviderInputRef j \<noteq> None
        \<and> IsTerminalBatchImageJobStatus (bj_Status j) \<and> ended_at j \<le> cutoff) (bi_jobs s))))"

definition ListBatchImageJobsDueForOutputCleanup :: "go_time \<Rightarrow> int \<Rightarrow> BatchImageJob list batch" where
  "ListBatchImageJobsDueForOutputCleanup now limit = job_call (inspect (\<lambda>s. take (clean_limit limit)
     (sort_key (\<lambda>j. the (bj_OutputExpiresAt j)) (filter (\<lambda>j. bj_OutputDeletedAt j = None \<and> bj_ProviderOutputRef j \<noteq> None
        \<and> bj_Status j = JCompleted \<and> (case bj_OutputExpiresAt j of None \<Rightarrow> False | Some t \<Rightarrow> t \<le> now)) (bi_jobs s)))))"

definition holds_something :: "BatchImageJob \<Rightarrow> bool" where
  "holds_something j \<longleftrightarrow> 0 < (case bj_HoldAmount j of Some h \<Rightarrow> h | None \<Rightarrow> bj_EstimatedCost j)"

definition stale_unsubmitted :: "go_time \<Rightarrow> BatchImageJob \<Rightarrow> bool" where
  "stale_unsubmitted cutoff j \<longleftrightarrow> unsubmitted j \<and> bj_ProviderJobName j = None \<and> holds_something j \<and> bj_UpdatedAt j \<le> cutoff"

definition ListStaleUnsubmittedBatchImageJobs :: "go_time \<Rightarrow> int \<Rightarrow> BatchImageJob list batch" where
  "ListStaleUnsubmittedBatchImageJobs cutoff limit = job_call (inspect (\<lambda>s. take (clean_limit limit)
     (sort_key bj_UpdatedAt (filter (stale_unsubmitted cutoff) (bi_jobs s)))))"

definition marked :: "batch_error \<Rightarrow> string \<Rightarrow> (BatchImageJob \<Rightarrow> bool) \<Rightarrow> (BatchImageJob \<Rightarrow> BatchImageJob) \<Rightarrow> string \<Rightarrow> unit batch" where
  "marked e b w f event = andthen (found_or e (update_job b w f)) (\<lambda>_. AppendBatchImageEvent b event)"

definition MarkBatchImageInputDeleted :: "string \<Rightarrow> go_time \<Rightarrow> unit batch" where
  "MarkBatchImageInputDeleted b t = marked JobNotFound b (\<lambda>_. True)
     (\<lambda>j. j\<lparr>bj_InputDeletedAt := (if bj_InputDeletedAt j = None then Some t else bj_InputDeletedAt j),
        bj_UpdatedAt := t, bj_Version := bj_Version j + 1\<rparr>) ''input_cleanup_completed''"

definition output_deleted_job :: "go_time \<Rightarrow> BatchImageJob \<Rightarrow> BatchImageJob" where
  "output_deleted_job t j = j\<lparr>bj_Status := (if bj_Status j = JCompleted then JOutputDeleted else bj_Status j),
     bj_OutputDeletedAt := (if bj_OutputDeletedAt j = None then Some t else bj_OutputDeletedAt j),
     bj_FinishedAt := (if bj_Status j = JCompleted \<and> bj_FinishedAt j = None then Some t else bj_FinishedAt j),
     bj_UpdatedAt := t, bj_Version := bj_Version j + 1\<rparr>"

definition MarkBatchImageOutputDeleted :: "string \<Rightarrow> go_time \<Rightarrow> unit batch" where
  "MarkBatchImageOutputDeleted b t = marked JobNotFound b (\<lambda>_. True) (output_deleted_job t) ''output_cleanup_completed''"

definition MarkBatchImageDownloaded :: "string \<Rightarrow> go_time \<Rightarrow> unit batch" where
  "MarkBatchImageDownloaded b t = marked JobNotFound b (\<lambda>_. True)
     (\<lambda>j. j\<lparr>bj_DownloadedAt := (if bj_DownloadedAt j = None then Some t else bj_DownloadedAt j), bj_UpdatedAt := t\<rparr>)
     ''download_completed''"

definition MarkBatchImageJobUserDeleted :: "int \<Rightarrow> int \<Rightarrow> string \<Rightarrow> go_time \<Rightarrow> unit batch" where
  "MarkBatchImageJobUserDeleted u k b t = marked RecordDeleteNotReady b
     (\<lambda>j. owned_by u k j \<and> bj_UserDeletedAt j = None \<and> IsTerminalBatchImageJobStatus (bj_Status j))
     (\<lambda>j. j\<lparr>bj_UserDeletedAt := Some t, bj_UpdatedAt := t\<rparr>) ''user_record_deleted''"

definition SetBatchImageOutputExpiresAt :: "string \<Rightarrow> go_time \<Rightarrow> unit batch" where
  "SetBatchImageOutputExpiresAt b expires = found_or JobNotFound (andthen (inspect bi_clock) (\<lambda>now.
     update_job b (\<lambda>_. True) (\<lambda>j. j\<lparr>bj_OutputExpiresAt := (if bj_OutputExpiresAt j = None then Some expires
        else bj_OutputExpiresAt j), bj_UpdatedAt := now\<rparr>)))"

definition RecordBatchImageCleanupFailure :: "string \<Rightarrow> string \<Rightarrow> string \<Rightarrow> unit batch" where
  "RecordBatchImageCleanupFailure b code msg =
     andthen (job_call (andthen (inspect bi_clock) (\<lambda>now. set_job b (retried_job now code msg))))
       (\<lambda>_. AppendBatchImageEvent b ''output_cleanup_failed'')"

end
