(* ===== verification/BatchImageLifecycle.thy ===== *)
theory BatchImageLifecycle
  imports BatchImageJobs
begin

text \<open>
  What the statements of the repository can do to the row of a job: \<open>job_step\<close> has one rule per kind of
  change, with the guard of its statement. \<open>evolves s0 s\<close> says that the table went from \<open>s0\<close> to
  \<open>s\<close> by such changes and by insertions; every statement and so every service operation keeps it, and
  the well-formedness of rows and the order of the statuses follow from the rules.
\<close>

section \<open>Changes of a row\<close>

text \<open>What of a row belongs to its life, and what is fixed when it is made.\<close>

definition life :: "BatchImageJob \<Rightarrow> job_status \<times> go_time option \<times> string option \<times> go_time option
    \<times> go_time option \<times> float64 option \<times> string option" where
  "life j = (bj_Status j, bj_FinishedAt j, bj_ProviderJobName j, bj_SubmittedAt j, bj_SettledAt j, bj_ActualCost j,
     bj_ManifestHash j)"

definition terms :: "BatchImageJob \<Rightarrow> (int \<times> string \<times> int \<times> int option \<times> int option) \<times> (string \<times> string \<times> int)
    \<times> (float64 \<times> float64 option \<times> float64 \<times> int) \<times> string option \<times> string option" where
  "terms j = ((bj_ID j, bj_BatchID j, bj_UserID j, bj_APIKeyID j, bj_AccountID j), (bj_Provider j, bj_Model j, bj_ItemCount j),
     (bj_EstimatedCost j, bj_HoldAmount j, bj_BillableUnitPrice j, bj_PricingSnapshotVersion j),
     bj_IdempotencyKey j, bj_RequestHash j)"

definition service_targets :: "job_status set" where
  "service_targets = {JUploading, JRunning, JIndexing, JSettling, JFailed, JCancelled}"

inductive job_step :: "BatchImageJob \<Rightarrow> BatchImageJob \<Rightarrow> bool" where
  moves: "CanTransitionBatchImageJob (bj_Status j) st \<Longrightarrow> st \<in> service_targets \<Longrightarrow>
    job_step j (transitioned st now code msg j)"
| goes_stale: "unsubmitted j \<Longrightarrow> job_step j (failed_job now code' msg' j)"
| is_submitted: "CanTransitionBatchImageJob (bj_Status j) JSubmitted \<Longrightarrow> job_step j (submitted_job now provider p j)"
| submit_fails: "job_step j (submit_failed_job mark now code' msg' j)"
| is_settled: "settleable h j \<Longrightarrow> job_step j (settled_job cfg cost h now expires j)"
| output_goes: "job_step j (output_deleted_job now j)"
| is_noted: "life j' = life j \<Longrightarrow> terms j' = terms j \<Longrightarrow> job_step j j'"

inductive_cases job_stepE: "job_step j j'"

lemma job_step_terms: "job_step j j' \<Longrightarrow> terms j' = terms j"
  by (induction rule: job_step.induct)
    (simp_all add: terms_def transitioned_def failed_job_def submitted_job_def submit_failed_job_def settled_job_def
      output_deleted_job_def Let_def)

lemma job_steps_terms: "job_step\<^sup>*\<^sup>* j j' \<Longrightarrow> terms j' = terms j"
  by (induction rule: rtranclp_induct) (simp_all add: job_step_terms)

section \<open>Well-formed rows\<close>

definition job_ok :: "BatchImageJob \<Rightarrow> bool" where
  "job_ok j \<longleftrightarrow> (bj_FinishedAt j \<noteq> None \<longleftrightarrow> IsTerminalBatchImageJobStatus (bj_Status j))
     \<and> (bj_Status j \<in> {JCreated, JUploading} \<longrightarrow> bj_ProviderJobName j = None \<and> bj_SubmittedAt j = None)
     \<and> (bj_Status j \<in> {JSubmitted, JRunning, JIndexing, JSettling, JCompleted, JOutputDeleted} \<longrightarrow>
          bj_ProviderJobName j \<noteq> None \<and> bj_SubmittedAt j \<noteq> None)
     \<and> (bj_Status j \<in> {JCompleted, JOutputDeleted} \<longrightarrow>
          bj_SettledAt j \<noteq> None \<and> bj_ActualCost j \<noteq> None \<and> bj_ManifestHash j \<noteq> None)
     \<and> (bj_SettledAt j \<noteq> None \<longrightarrow> bj_Status j \<in> {JCompleted, JOutputDeleted, JFailed})"

lemma job_ok_life: "life j' = life j \<Longrightarrow> job_ok j' = job_ok j"
  by (simp add: life_def job_ok_def)

lemmas status_graph = CanTransitionBatchImageJob_def IsTerminalBatchImageJobStatus_def service_targets_def

lemma transitioned_ok:
  assumes "CanTransitionBatchImageJob (bj_Status j) st" and "st \<in> service_targets" and "job_ok j"
  shows "job_ok (transitioned st now code msg j)"
  using assms
  by (cases "bj_Status j"; cases st) (auto simp: status_graph job_ok_def transitioned_def)

lemma job_step_ok: "job_step j j' \<Longrightarrow> job_ok j \<Longrightarrow> job_ok j'"
proof (induction rule: job_step.induct)
  case (moves j st) then show ?case by (simp add: transitioned_ok)
next
  case (goes_stale j) then show ?case
    by (auto simp: job_ok_def failed_job_def unsubmitted_def IsTerminalBatchImageJobStatus_def)
next
  case (is_submitted j) then show ?case
    by (cases "bj_Status j") (auto simp: job_ok_def submitted_job_def status_graph)
next
  case (submit_fails j mark) then show ?case
    by (cases mark) (auto simp: job_ok_def submit_failed_job_def IsTerminalBatchImageJobStatus_def Let_def)
next
  case (is_settled h j) then show ?case
    by (auto simp: job_ok_def settled_job_def settleable_def IsTerminalBatchImageJobStatus_def)
next
  case (output_goes j) then show ?case
    by (cases "bj_Status j") (auto simp: job_ok_def output_deleted_job_def IsTerminalBatchImageJobStatus_def)
next
  case (is_noted j' j) then show ?case using job_ok_life by blast
qed

lemma job_steps_ok: "job_step\<^sup>*\<^sup>* j j' \<Longrightarrow> job_ok j \<Longrightarrow> job_ok j'"
  by (induction rule: rtranclp_induct) (auto intro: job_step_ok)

text \<open>The statuses in the order in which a job can go through them.\<close>

fun status_rank :: "job_status \<Rightarrow> nat" where
  "status_rank JCreated = 0" | "status_rank JUploading = 1" | "status_rank JSubmitted = 2"
| "status_rank JRunning = 3" | "status_rank JIndexing = 4" | "status_rank JSettling = 5"
| "status_rank JCompleted = 6" | "status_rank JCancelled = 7" | "status_rank JOutputDeleted = 8" | "status_rank JFailed = 9"

definition may_follow :: "job_status \<Rightarrow> job_status \<Rightarrow> bool" where
  "may_follow st st' \<longleftrightarrow> status_rank st \<le> status_rank st'
     \<and> (st = JCancelled \<longrightarrow> st' \<in> {JCancelled, JFailed})
     \<and> (st \<in> {JCompleted, JOutputDeleted} \<longrightarrow> st' \<in> {JCompleted, JOutputDeleted, JFailed})
     \<and> (st' \<in> {JCompleted, JOutputDeleted} \<longrightarrow> status_rank st \<le> 5 \<or> st \<in> {JCompleted, JOutputDeleted})"

lemma may_follow_trans: "may_follow a b \<Longrightarrow> may_follow b c \<Longrightarrow> may_follow a c"
  by (cases a; cases b; cases c; simp add: may_follow_def)

lemma may_follow_refl [simp]: "may_follow a a"
  by (cases a) (simp_all add: may_follow_def)

lemma can_follow:
  "CanTransitionBatchImageJob st st' \<Longrightarrow> st' \<in> insert JSubmitted service_targets \<Longrightarrow> may_follow st st'"
  by (cases st; cases st') (simp_all add: status_graph may_follow_def)

lemma job_step_follows: "job_step j j' \<Longrightarrow> may_follow (bj_Status j) (bj_Status j')"
proof (induction rule: job_step.induct)
  case (moves j st) then show ?case by (simp add: can_follow transitioned_def)
next
  case (goes_stale j) then show ?case by (auto simp: failed_job_def may_follow_def unsubmitted_def)
next
  case (is_submitted j) then show ?case by (simp add: can_follow submitted_job_def)
next
  case (submit_fails j mark) show ?case
    by (cases mark; cases "bj_Status j") (simp_all add: submit_failed_job_def may_follow_def Let_def)
next
  case (is_settled h j) then show ?case by (simp add: settled_job_def settleable_def may_follow_def)
next
  case (output_goes j) show ?case by (cases "bj_Status j") (simp_all add: output_deleted_job_def may_follow_def)
qed (simp add: life_def)

lemma job_steps_follow: "job_step\<^sup>*\<^sup>* j j' \<Longrightarrow> may_follow (bj_Status j) (bj_Status j')"
  by (induction rule: rtranclp_induct) (auto intro: may_follow_trans job_step_follows)

section \<open>Changes of the table\<close>

definition fresh_job :: "BatchImageJob \<Rightarrow> bool" where
  "fresh_job j \<longleftrightarrow> bj_Status j = JCreated \<and> job_ok j"

definition evolves :: "batch_store \<Rightarrow> batch_store \<Rightarrow> bool" where
  "evolves s s' \<longleftrightarrow> (\<exists>old new. bi_jobs s' = old @ new \<and> list_all2 job_step\<^sup>*\<^sup>* (bi_jobs s) old
     \<and> (\<forall>j \<in> set new. \<exists>j0. fresh_job j0 \<and> job_step\<^sup>*\<^sup>* j0 j))"

lemma evolves_refl [simp]: "evolves s s"
  unfolding evolves_def by (rule exI [of _ "bi_jobs s"], rule exI [of _ "[]"]) (simp add: list_all2_refl)

lemma evolves_same: "bi_jobs s' = bi_jobs s \<Longrightarrow> evolves s0 s' = evolves s0 s"
  by (simp add: evolves_def)

lemma evolves_rows:
  assumes "evolves s0 s" and "list_all2 job_step\<^sup>*\<^sup>* (bi_jobs s) (bi_jobs s')"
  shows "evolves s0 s'"
proof -
  from assms(1) obtain old new where js: "bi_jobs s = old @ new" "list_all2 job_step\<^sup>*\<^sup>* (bi_jobs s0) old"
    "\<forall>j \<in> set new. \<exists>j0. fresh_job j0 \<and> job_step\<^sup>*\<^sup>* j0 j" by (auto simp: evolves_def)
  from assms(2) js(1) obtain old' new' where js': "bi_jobs s' = old' @ new'" "list_all2 job_step\<^sup>*\<^sup>* old old'"
    "list_all2 job_step\<^sup>*\<^sup>* new new'" by (auto simp: list_all2_append1)
  have "list_all2 job_step\<^sup>*\<^sup>* (bi_jobs s0) old'"
    by (rule list_all2_trans [OF _ js(2) js'(2)]) simp
  moreover have "\<forall>j \<in> set new'. \<exists>j0. fresh_job j0 \<and> job_step\<^sup>*\<^sup>* j0 j"
  proof
    fix j' assume "j' \<in> set new'"
    then obtain i where i: "i < length new'" "j' = new' ! i" by (auto simp: in_set_conv_nth)
    with js'(3) have "new ! i \<in> set new" "job_step\<^sup>*\<^sup>* (new ! i) j'" by (simp_all add: list_all2_conv_all_nth)
    with js(3) show "\<exists>j0. fresh_job j0 \<and> job_step\<^sup>*\<^sup>* j0 j'" by (meson rtranclp_trans)
  qed
  ultimately show ?thesis using js'(1) by (auto simp: evolves_def)
qed

lemma evolves_update:
  assumes "evolves s0 s" and "\<And>j. j \<in> set (bi_jobs s) \<Longrightarrow> w j \<Longrightarrow> job_step j (f j)"
  shows "evolves s0 (update_jobs w f s)"
proof (rule evolves_rows [OF assms(1)])
  have "job_step\<^sup>*\<^sup>* j (if w j then f j else j)" if "j \<in> set (bi_jobs s)" for j
    using assms(2) [OF that] by (cases "w j") (simp_all add: r_into_rtranclp)
  then show "list_all2 job_step\<^sup>*\<^sup>* (bi_jobs s) (bi_jobs (update_jobs w f s))"
    by (simp add: update_jobs_def list.rel_map list_all2_same)
qed

lemma evolves_insert:
  assumes "evolves s0 s" and "fresh_job j" and "bi_jobs s' = bi_jobs s @ [j]"
  shows "evolves s0 s'"
proof -
  from assms(1) obtain old new where js: "bi_jobs s = old @ new" "list_all2 job_step\<^sup>*\<^sup>* (bi_jobs s0) old"
    "\<forall>j \<in> set new. \<exists>j0. fresh_job j0 \<and> job_step\<^sup>*\<^sup>* j0 j" by (auto simp: evolves_def)
  have "bi_jobs s' = old @ (new @ [j])" using assms(3) js(1) by simp
  moreover have "\<forall>x \<in> set (new @ [j]). \<exists>j0. fresh_job j0 \<and> job_step\<^sup>*\<^sup>* j0 x" using js(3) assms(2) by auto
  ultimately show ?thesis using js(2) unfolding evolves_def by blast
qed

lemma evolves_nth:
  assumes "evolves s s'" and "i < length (bi_jobs s)"
  shows "i < length (bi_jobs s')" and "job_step\<^sup>*\<^sup>* (bi_jobs s ! i) (bi_jobs s' ! i)"
proof -
  from assms(1) obtain old new where js: "bi_jobs s' = old @ new" "list_all2 job_step\<^sup>*\<^sup>* (bi_jobs s) old"
    by (auto simp: evolves_def)
  then have len: "length old = length (bi_jobs s)" by (simp add: list_all2_lengthD)
  then show "i < length (bi_jobs s')" using js(1) assms(2) by simp
  show "job_step\<^sup>*\<^sup>* (bi_jobs s ! i) (bi_jobs s' ! i)"
    using list_all2_nthD [OF js(2) assms(2)] js(1) len assms(2) by (simp add: nth_append)
qed

lemma evolves_ok:
  assumes "evolves s s'" and "\<forall>j \<in> set (bi_jobs s). job_ok j" and "j' \<in> set (bi_jobs s')"
  shows "job_ok j'"
proof -
  from assms(1) obtain old new where js: "bi_jobs s' = old @ new" "list_all2 job_step\<^sup>*\<^sup>* (bi_jobs s) old"
    "\<forall>j \<in> set new. \<exists>j0. fresh_job j0 \<and> job_step\<^sup>*\<^sup>* j0 j" by (auto simp: evolves_def)
  from assms(3) js(1) consider "j' \<in> set old" | "j' \<in> set new" by auto
  then show ?thesis
  proof cases
    case 1
    then obtain i where i: "i < length old" "j' = old ! i" by (auto simp: in_set_conv_nth)
    with js(2) have "bi_jobs s ! i \<in> set (bi_jobs s)" "job_step\<^sup>*\<^sup>* (bi_jobs s ! i) j'"
      by (simp_all add: list_all2_conv_all_nth)
    with assms(2) show ?thesis using job_steps_ok by blast
  next
    case 2
    with js(3) show ?thesis using job_steps_ok fresh_job_def by blast
  qed
qed

section \<open>Every statement\<close>

definition grows :: "batch_store \<Rightarrow> batch_store \<Rightarrow> bool" where
  "grows s0 s \<longleftrightarrow> distinct (map bj_BatchID (bi_jobs s)) \<and> evolves s0 s"

lemma grows_fields [simp]:
  "grows s0 (s\<lparr>bi_faults := fs\<rparr>) = grows s0 s" "grows s0 (s\<lparr>bi_events := es\<rparr>) = grows s0 s"
  "grows s0 (s\<lparr>bi_items := is\<rparr>) = grows s0 s" "grows s0 (s\<lparr>bi_bill := bs\<rparr>) = grows s0 s"
  "grows s0 (s\<lparr>bi_queue := qs\<rparr>) = grows s0 s" "grows s0 (s\<lparr>bi_clock := t\<rparr>) = grows s0 s"
  "grows s0 (s\<lparr>bi_usage_logs := ls\<rparr>) = grows s0 s" "grows s0 (s\<lparr>bi_invalidated := us\<rparr>) = grows s0 s"
  by (simp_all add: grows_def evolves_def)

lemma preserves_undone [preserves]: "preserves P p \<Longrightarrow> preserves P (undone p)"
  by (fastforce simp: preserves_def undone_def split: prod.split sum.split)

lemma preserves_job_call:
  assumes "preserves P p" and "\<And>fs s. P s \<Longrightarrow> P (s\<lparr>bi_faults := fs\<rparr>)"
  shows "preserves P (job_call p)"
proof -
  have u: "P t \<Longrightarrow> P (snd (undone p t))" for t using preservesD [OF preserves_undone [OF assms(1)]] .
  show ?thesis using assms(2) u by (auto simp: preserves_def job_call_def split: list.split fault.split)
qed

lemma grows_call [preserves]: "preserves (grows s0) p \<Longrightarrow> preserves (grows s0) (job_call p)"
  by (rule preserves_job_call) simp_all

lemma find_job_Some: "find_job b s = Some j \<Longrightarrow> j \<in> set (bi_jobs s) \<and> bj_BatchID j = b"
  by (auto simp: find_job_def find_Some_iff in_set_conv_nth)

lemma find_job_unique:
  "distinct (map bj_BatchID (bi_jobs s)) \<Longrightarrow> find_job b s = Some j \<Longrightarrow> x \<in> set (bi_jobs s) \<Longrightarrow> bj_BatchID x = b \<Longrightarrow> x = j"
  using find_job_Some by (fastforce simp: distinct_map inj_on_def)

lemma update_jobs_ids:
  assumes "\<And>j. j \<in> set (bi_jobs s) \<Longrightarrow> w j \<Longrightarrow> job_step j (f j)"
  shows "map bj_BatchID (bi_jobs (update_jobs w f s)) = map bj_BatchID (bi_jobs s)"
  using assms job_step_terms by (fastforce simp: update_jobs_def terms_def)

lemma grows_update:
  assumes "grows s0 s" and "\<And>j. j \<in> set (bi_jobs s) \<Longrightarrow> w j \<Longrightarrow> job_step j (f j)"
  shows "grows s0 (update_jobs w f s)"
  using assms update_jobs_ids [of s w f] evolves_update [of s0 s w f] by (simp add: grows_def)

lemma update_job_grows [preserves]:
  "(\<And>j. w j \<Longrightarrow> job_step j (f j)) \<Longrightarrow> preserves (grows s0) (update_job b w f)"
  by (auto simp: preserves_def update_job_def intro: grows_update)

lemma grows_set_job:
  assumes "grows s0 s" and "find_job b s = Some j" and "job_step j (f j)"
  shows "grows s0 (snd (set_job b f s))"
proof -
  have "grows s0 (update_jobs (\<lambda>x. bj_BatchID x = b \<and> True) f s)"
  proof (rule grows_update [OF assms(1)])
    fix x assume "x \<in> set (bi_jobs s)" "bj_BatchID x = b \<and> True"
    then show "job_step x (f x)" using find_job_unique assms by (metis grows_def)
  qed
  then show ?thesis by (simp add: set_job_def run update_job_def)
qed

lemma set_job_grows [preserves]: "(\<And>j. job_step j (f j)) \<Longrightarrow> preserves (grows s0) (set_job b f)"
  unfolding set_job_def by (intro preserves)

lemma append_event_grows [preserves]: "preserves (grows s0) (append_event b ty)"
  by (auto simp: preserves_def append_event_def split: option.split)

lemma the_job_grows [preserves]: "preserves (grows s0) (the_job b)"
  by (auto simp: preserves_def the_job_def split: option.split)

lemma step_noted: "life (f j) = life j \<Longrightarrow> terms (f j) = terms j \<Longrightarrow> job_step j (f j)"
  by (rule is_noted)

lemmas noted = life_def terms_def

lemma read_grows [preserves]:
  "preserves (grows s0) (AppendBatchImageEvent b ty)"
  "preserves (grows s0) (GetBatchImageJobByBatchID b)"
  "preserves (grows s0) (GetBatchImageJobByBatchIDForOwner u k b)"
  "preserves (grows s0) (GetBatchImageJobByIdempotencyKey u k key)"
  "preserves (grows s0) (ListBatchImageItems b st limit off)"
  "preserves (grows s0) (ListBatchImageJobsDueForInputCleanup cutoff limit)"
  "preserves (grows s0) (ListBatchImageJobsDueForOutputCleanup cutoff limit)"
  "preserves (grows s0) (ListStaleUnsubmittedBatchImageJobs cutoff limit)"
  unfolding AppendBatchImageEvent_def GetBatchImageJobByBatchID_def GetBatchImageJobByBatchIDForOwner_def
    GetBatchImageJobByIdempotencyKey_def ListBatchImageItems_def ListBatchImageJobsDueForInputCleanup_def
    ListBatchImageJobsDueForOutputCleanup_def ListStaleUnsubmittedBatchImageJobs_def
  by (intro preserves preservesI; simp split: option.split)+

lemma insert_job_grows:
  assumes "bj_Status p = JCreated" and "bj_ProviderJobName p = None"
  shows "preserves (grows s0) (insert_job cfg p)"
proof (rule preservesI)
  fix s assume g: "grows s0 s"
  let ?j = "stored_job cfg (inserted_job (bi_clock s) (bi_next_id s) p)"
  let ?s = "s\<lparr>bi_jobs := bi_jobs s @ [?j], bi_next_id := bi_next_id s + 1\<rparr>"
  have "fresh_job ?j" using assms
    by (simp add: fresh_job_def job_ok_def stored_job_def inserted_job_def IsTerminalBatchImageJobStatus_def)
  then have "evolves s0 ?s" using g evolves_insert [of s0 s ?j ?s] by (simp add: grows_def)
  moreover have "find_job (bj_BatchID p) s = None \<Longrightarrow> bj_BatchID ?j \<notin> bj_BatchID ` set (bi_jobs s)"
    by (auto simp: find_job_def find_None_iff stored_job_def inserted_job_def)
  ultimately have "find_job (bj_BatchID p) s = None \<Longrightarrow> grows s0 ?s" using g by (simp add: grows_def)
  then show "grows s0 (snd (insert_job cfg p s))" using g by (simp add: insert_job_def Let_def)
qed

lemma CreateBatchImageJob_grows [preserves]:
  assumes "bj_Status params = JCreated" and "bj_ProviderJobName params = None"
  shows "preserves (grows s0) (CreateBatchImageJob cfg params)"
  using assms by (simp add: CreateBatchImageJob_def Let_def preserves insert_job_grows)

text \<open>A guarded change of one job.\<close>

lemma guarded_grows:
  assumes "\<And>now j. \<not> bad j \<Longrightarrow> job_step j (f now j)" and "\<And>s0. preserves (grows s0) rest"
  shows "preserves (grows s0) (andthen (the_job b) (\<lambda>j. if bad j then throw e
     else andthen (inspect bi_clock) (\<lambda>now. andthen (set_job b (f now)) (\<lambda>_. rest))))"
proof (rule preservesI)
  fix s assume g: "grows s0 s"
  show "grows s0 (snd (andthen (the_job b) (\<lambda>j. if bad j then throw e
     else andthen (inspect bi_clock) (\<lambda>now. andthen (set_job b (f now)) (\<lambda>_. rest))) s))"
  proof (cases "find_job b s")
    case (Some j)
    show ?thesis
    proof (cases "bad j")
      case False
      from grows_set_job [OF g Some] assms(1) [OF False] have "grows s0 (snd (set_job b (f (bi_clock s)) s))" by blast
      from preservesD [OF assms(2) this] False Some g show ?thesis
        by (simp add: the_job_def run split: prod.split sum.split)
          (auto simp: set_job_def run update_job_def)
    qed (use Some g in \<open>simp add: the_job_def run\<close>)
  qed (use g in \<open>simp add: the_job_def run\<close>)
qed

lemma TransitionBatchImageJobStatus_grows [preserves]:
  "st \<in> service_targets \<Longrightarrow> preserves (grows s0) (TransitionBatchImageJobStatus b st code msg event)"
  unfolding TransitionBatchImageJobStatus_def
  by (intro grows_call guarded_grows preserves) (simp add: moves)

lemma UpdateBatchImageJobProviderSubmit_grows [preserves]:
  "preserves (grows s0) (UpdateBatchImageJobProviderSubmit b provider p)"
  unfolding UpdateBatchImageJobProviderSubmit_def
  by (intro grows_call guarded_grows preserves) (simp add: is_submitted)

lemma update_grows: "(\<And>s. bi_jobs (f s) = bi_jobs s) \<Longrightarrow> preserves (grows s0) (update f)"
  by (simp add: preserves_def run grows_def evolves_def)

lemma create_items_grows [preserves]: "preserves (grows s0) (create_items is)"
proof (induction "is")
  case (Cons i "is")
  have "preserves (grows s0) (create_item i)" by (auto simp: preserves_def create_item_def)
  then show ?case using Cons by (simp add: preserves)
qed (simp add: preserves)

lemma change_grows [preserves]:
  "preserves (grows s0) (TouchBatchImageJobSubmitting b)"
  "preserves (grows s0) (UpdateBatchImageJobProviderOutputRef b ref)"
  "preserves (grows s0) (RecordBatchImageJobSubmitFailure b code' msg' mark)"
  "preserves (grows s0) (SetBatchImageJobSettlementFailed b code' msg')"
  "preserves (grows s0) (MarkBatchImageInputDeleted b t)"
  "preserves (grows s0) (MarkBatchImageOutputDeleted b t)"
  "preserves (grows s0) (MarkBatchImageDownloaded b t)"
  "preserves (grows s0) (MarkBatchImageJobUserDeleted u k b t)"
  "preserves (grows s0) (SetBatchImageOutputExpiresAt b t)"
  "preserves (grows s0) (RecordBatchImageCleanupFailure b code' msg')"
  unfolding TouchBatchImageJobSubmitting_def UpdateBatchImageJobProviderOutputRef_def found_or_def
    RecordBatchImageJobSubmitFailure_def SetBatchImageJobSettlementFailed_def marked_def
    MarkBatchImageInputDeleted_def MarkBatchImageOutputDeleted_def MarkBatchImageDownloaded_def
    MarkBatchImageJobUserDeleted_def SetBatchImageOutputExpiresAt_def RecordBatchImageCleanupFailure_def
  by (intro preserves submit_fails output_goes step_noted; simp add: noted retried_job_def)+

lemma FailStale_grows [preserves]: "preserves (grows s0) (FailStaleUnsubmittedBatchImageJob b cutoff code' msg')"
  unfolding FailStaleUnsubmittedBatchImageJob_def by (intro preserves goes_stale) simp

lemma BulkCreateBatchImageItems_grows [preserves]: "preserves (grows s0) (BulkCreateBatchImageItems is)"
  unfolding BulkCreateBatchImageItems_def by (intro preserves)

lemma ReplaceBatchImageItemsForJob_grows [preserves]:
  "preserves (grows s0) (ReplaceBatchImageItemsForJob b is n m)"
  unfolding ReplaceBatchImageItemsForJob_def
  by (intro preserves update_grows step_noted) (simp_all add: noted)

lemma MarkBatchImageJobSettled_grows [preserves]:
  "preserves (grows s0) (MarkBatchImageJobSettled cfg b cost h now expires)"
  unfolding MarkBatchImageJobSettled_def
proof (intro grows_call preservesI)
  fix s assume g: "grows s0 s"
  have "grows s0 (snd (andthen (set_job b (settled_job cfg cost h now expires)) (\<lambda>_. append_event b ''settlement_completed'') s))"
    if "find_job b s = Some j" "settleable h j" for j
  proof -
    have "grows s0 (snd (set_job b (settled_job cfg cost h now expires) s))"
      using grows_set_job [of s0 s b j "settled_job cfg cost h now expires"] g that is_settled by blast
    from preservesD [OF append_event_grows [of s0 b "''settlement_completed''"] this]
    show ?thesis by (simp add: set_job_def run update_job_def)
  qed
  then show "grows s0 (snd (case find_job b s of
        Some j \<Rightarrow>
          if settleable h j then
            if manifest_taken b (Some h) s \<or> \<not> fits10 cfg cost then (Inl JobDbError, s)
            else andthen (set_job b (settled_job cfg cost h now expires)) (\<lambda>_. append_event b ''settlement_completed'') s
          else (Inl (if bj_Status j \<noteq> JSettling
              then if bj_Status j = JCompleted then AlreadySettled else SettlementInvalidStatus
              else ManifestConflict), s)
      | None \<Rightarrow> (Inl JobNotFound, s)))" using g by (simp split: option.split)
qed

end
