(* ===== verification/BatchImageSettlement.thy ===== *)
theory BatchImageSettlement
  imports BatchImageLifecycle UsageBillingMoney BillingCost
begin

text \<open>
  The money of batch-image jobs: \<open>service/batch_image_billing_hold.go\<close>,
  \<open>service/batch_image_settlement.go\<close> and \<open>service/batch_image_billing_recovery.go\<close>. The balances are in
  the billing store of \<open>UsageBilling\<close>, whose transactions fail independently of the statements on
  jobs. \<open>bt_text\<close> is the text of an error with its cause, \<open>bt_resolve\<close> the price resolution of a model.
\<close>

record batch_config =
  bt_bill :: bill_config
  bt_text :: "batch_error \<Rightarrow> string"
  bt_reason :: "batch_error \<Rightarrow> string"
  bt_resolve :: "string \<Rightarrow> ResolvedPricing option"
  bt_retention_hours :: int
  bt_input_retention_hours :: int
  bt_cleanup_batch :: int

definition batchImageSettlementMaxRetries :: int where "batchImageSettlementMaxRetries = 5"
definition batchImageMaxErrorMessageLength :: nat where "batchImageMaxErrorMessageLength = 1000"

section \<open>Holds\<close>

definition billed :: "'a bill \<Rightarrow> (bill_error + 'a) batch" where
  "billed p s = (case p (bi_bill s) of (r, b) \<Rightarrow> (Inr r, s\<lparr>bi_bill := b\<rparr>))"

definition hold_of :: "BatchImageJob \<Rightarrow> float64" where
  "hold_of j = (case bj_HoldAmount j of Some h \<Rightarrow> h | None \<Rightarrow> bj_EstimatedCost j)"

definition buildBatchImageHoldCommand :: "BatchImageJob \<Rightarrow> string \<Rightarrow> float64 \<Rightarrow> string \<Rightarrow> batch_error + BatchImageBalanceHoldCommand" where
  "buildBatchImageHoldCommand j rid actual payload = (case bj_APIKeyID j of
     None \<Rightarrow> Inl SettlementMissingAPIKeyID
   | Some k \<Rightarrow> if k \<le> 0 then Inl SettlementMissingAPIKeyID
       else Inr \<lparr>hc_RequestID = rid, hc_APIKeyID = k, hc_RequestFingerprint = [],
         hc_RequestPayloadHash = trim_space payload, hc_UserID = bj_UserID j, hc_BatchID = bj_BatchID j,
         hc_HoldAmount = (if hold_of j < 0 then 0 else hold_of j), hc_ActualAmount = (if actual < 0 then 0 else actual)\<rparr>)"

definition reserveBatchImageBalanceHold :: "batch_config \<Rightarrow> BatchImageJob \<Rightarrow> string \<Rightarrow> unit batch" where
  "reserveBatchImageBalanceHold cfg j payload =
     (case buildBatchImageHoldCommand j (BatchImageHoldRequestID (bj_BatchID j)) 0 payload of
        Inl e \<Rightarrow> throw e
      | Inr cmd \<Rightarrow> if hc_HoldAmount cmd \<le> 0 then ret ()
          else andthen (billed (ReserveBatchImageBalance (bt_bill cfg) cmd)) (\<lambda>r. case r of
              Inl e \<Rightarrow> throw (if e = BatchImageInsufficientBalance then InsufficientBalance else BillingHoldFailed)
            | Inr _ \<Rightarrow> ret ()))"

definition captureBatchImageBalanceHold :: "batch_config \<Rightarrow> BatchImageJob \<Rightarrow> float64 \<Rightarrow> string \<Rightarrow> unit batch" where
  "captureBatchImageBalanceHold cfg j actual payload =
     (case buildBatchImageHoldCommand j (BatchImageCaptureRequestID (bj_BatchID j)) actual payload of
        Inl e \<Rightarrow> throw e
      | Inr cmd \<Rightarrow> andthen (billed (CaptureBatchImageBalance (bt_bill cfg) cmd))
          (\<lambda>r. case r of Inl _ \<Rightarrow> throw SettlementBillingFailed | Inr _ \<Rightarrow> ret ()))"

text \<open>A conflict of fingerprints counts as released before.\<close>

definition releaseBatchImageBalanceHold :: "batch_config \<Rightarrow> BatchImageJob \<Rightarrow> string \<Rightarrow> unit batch" where
  "releaseBatchImageBalanceHold cfg j payload =
     (case buildBatchImageHoldCommand j (BatchImageReleaseRequestID (bj_BatchID j)) 0 payload of
        Inl e \<Rightarrow> throw e
      | Inr cmd \<Rightarrow> if hc_HoldAmount cmd \<le> 0 then ret ()
          else andthen (billed (ReleaseBatchImageBalance (bt_bill cfg) cmd)) (\<lambda>r. case r of
              Inl e \<Rightarrow> if e = UsageBillingRequestConflict then ret () else throw BillingHoldFailed
            | Inr _ \<Rightarrow> ret ()))"

definition invalidateAuthCache :: "int \<Rightarrow> unit batch" where
  "invalidateAuthCache u = (if 0 < u then update (\<lambda>s. s\<lparr>bi_invalidated := bi_invalidated s @ [u]\<rparr>) else ret ())"

section \<open>Prices and manifests\<close>

definition BatchImageUnitPrice :: "batch_config \<Rightarrow> BatchImageJob \<Rightarrow> batch_error + float64" where
  "BatchImageUnitPrice cfg j =
     (if trim_space (bj_Model j) = [] then Inl SettlementPricingMissing
      else case bt_resolve cfg (bj_Model j) of
        None \<Rightarrow> Inl SettlementPricingMissing
      | Some p \<Rightarrow> (case rp_Mode p of
          BillingModeToken \<Rightarrow> (case BasePricing p of
              Some b \<Rightarrow> if ImageOutputPriceExplicit b \<or> 0 < ImageOutputPricePerToken b then Inr (ImageOutputPricePerToken b)
                else Inl SettlementPricingMissing
            | None \<Rightarrow> Inl SettlementPricingMissing)
        | m \<Rightarrow> if m = BillingModeImage \<or> m = BillingModePerRequest then
              if 0 < DefaultPerRequestPrice p then Inr (DefaultPerRequestPrice p)
              else (case RequestTiers p of
                  [t] \<Rightarrow> (case pi_PerRequestPrice t of
                      Some x \<Rightarrow> if 0 \<le> x then Inr x else Inl SettlementPricingMissing
                    | None \<Rightarrow> Inl SettlementPricingMissing)
                | _ \<Rightarrow> Inl SettlementPricingMissing)
            else Inl SettlementPricingMissing))"

definition settlementUnitPrice :: "batch_config \<Rightarrow> BatchImageJob \<Rightarrow> batch_error + float64" where
  "settlementUnitPrice cfg j =
     (if 1 \<le> bj_PricingSnapshotVersion j
      then if bj_BillableUnitPrice j < 0 then Inl SettlementPricingMissing else Inr (bj_BillableUnitPrice j)
      else BatchImageUnitPrice cfg j)"

definition BuildBatchImageSettlementManifestHash :: "bill_config \<Rightarrow> BatchImageJob \<Rightarrow> string" where
  "BuildBatchImageSettlementManifestHash cfg j = bc_hash cfg (join_with [CHR 0x00]
     [trim_space (bj_BatchID j), trim_space (bj_Provider j), trim_space (bj_Model j),
      batchImageDerefString (bj_ProviderJobName j), batchImageDerefString (bj_ProviderOutputRef j),
      format_int (bj_SuccessCount j), format_int (bj_FailCount j), format_int (bj_ItemCount j)])"

definition outputRetentionAfterTerminal :: "batch_config \<Rightarrow> go_duration" where
  "outputRetentionAfterTerminal cfg = (if 0 < bt_retention_hours cfg then bt_retention_hours cfg * hour else 72 * hour)"

section \<open>Settlement\<close>

record BatchImageSettlementResult =
  sr_BatchID :: string
  sr_SuccessCount :: int
  sr_FailCount :: int
  sr_ActualCost :: float64
  sr_ManifestHash :: string
  sr_RequestID :: string
  sr_AlreadySettled :: bool

definition isBatchImageSettlementRetryExhausted :: "BatchImageJob \<Rightarrow> bool" where
  "isBatchImageSettlementRetryExhausted j \<longleftrightarrow> bj_Status j = JSettling
     \<and> batchImageSettlementMaxRetries \<le> bj_RetryCount j
     \<and> has_prefix (batchImageDerefString (bj_LastErrorCode j)) ''SETTLEMENT_''"

definition truncated :: "string \<Rightarrow> string" where
  "truncated m = truncateBatchImageMessage m batchImageMaxErrorMessageLength"

definition failExhaustedSettlement :: "batch_config \<Rightarrow> BatchImageJob \<Rightarrow> string \<Rightarrow> 'a batch" where
  "failExhaustedSettlement cfg j msg =
     andthen (attempt (releaseBatchImageBalanceHold cfg j (batchImageDerefString (bj_RequestHash j)))) (\<lambda>r. case r of
       Inl e \<Rightarrow> andthen (attempt (SetBatchImageJobSettlementFailed (bj_BatchID j) ''SETTLEMENT_RELEASE_FAILED''
           (truncated (bt_text cfg e)))) (\<lambda>_. throw SettlementBillingFailed)
     | Inr _ \<Rightarrow> andthen (invalidateAuthCache (bj_UserID j)) (\<lambda>_.
         andthen (TransitionBatchImageJobStatus (bj_BatchID j) JFailed (Some ''SETTLEMENT_BILLING_RETRY_EXHAUSTED'')
           (Some (if trim_space msg = [] then ''settlement billing retry limit reached'' else trim_space msg))
           ''settlement_retry_exhausted'') (\<lambda>_. throw SettlementBillingFailed)))"

definition recordSettlementFailure :: "batch_config \<Rightarrow> BatchImageJob \<Rightarrow> string \<Rightarrow> string \<Rightarrow> unit batch" where
  "recordSettlementFailure cfg j code' msg =
     andthen (attempt (SetBatchImageJobSettlementFailed (bj_BatchID j) code' (truncated msg))) (\<lambda>r. case r of
       Inl _ \<Rightarrow> ret ()
     | Inr n \<Rightarrow> if batchImageSettlementMaxRetries \<le> n then failExhaustedSettlement cfg j msg else ret ())"

definition settlement_failure :: "batch_config \<Rightarrow> BatchImageJob \<Rightarrow> string \<Rightarrow> string \<Rightarrow> batch_error \<Rightarrow> 'a batch" where
  "settlement_failure cfg j code' msg e = andthen (recordSettlementFailure cfg j code' msg) (\<lambda>_. throw e)"

definition usage_log_of :: "BatchImageJob \<Rightarrow> int \<Rightarrow> int \<Rightarrow> float64 \<Rightarrow> go_time \<Rightarrow> BatchUsageLog" where
  "usage_log_of j k a cost now = \<lparr>bl_RequestID = trim_space (BatchImageCaptureRequestID (bj_BatchID j)),
     bl_UserID = bj_UserID j, bl_APIKeyID = k, bl_AccountID = a, bl_Model = bj_Model j, bl_ImageCount = bj_SuccessCount j,
     bl_ActualCost = cost, bl_RateMultiplier = fmul (bj_GroupRateMultiplier j) (bj_BatchDiscountMultiplier j),
     bl_AccountRateMultiplier = bj_AccountRateMultiplier j, bl_CreatedAt = now\<rparr>"

text \<open>The usage log is written as well as it goes.\<close>

definition recordUsageLog :: "BatchImageJob \<Rightarrow> int \<Rightarrow> int \<Rightarrow> float64 \<Rightarrow> go_time \<Rightarrow> unit batch" where
  "recordUsageLog j k a cost now = andthen (attempt (job_call (update (\<lambda>s.
     s\<lparr>bi_usage_logs := bi_usage_logs s @ [usage_log_of j k a cost now]\<rparr>)))) (\<lambda>_. ret ())"

definition settlement_result :: "BatchImageJob \<Rightarrow> string \<Rightarrow> float64 \<Rightarrow> bool \<Rightarrow> BatchImageSettlementResult" where
  "settlement_result j h cost already = \<lparr>sr_BatchID = bj_BatchID j, sr_SuccessCount = bj_SuccessCount j,
     sr_FailCount = bj_FailCount j, sr_ActualCost = cost, sr_ManifestHash = h,
     sr_RequestID = BatchImageCaptureRequestID (bj_BatchID j), sr_AlreadySettled = already\<rparr>"

definition counts_invalid :: "BatchImageJob \<Rightarrow> bool" where
  "counts_invalid j \<longleftrightarrow> bj_SuccessCount j < 0 \<or> bj_FailCount j < 0 \<or> bj_ItemCount j < 0
     \<or> bj_ItemCount j < bj_SuccessCount j + bj_FailCount j"

definition counts_text :: "BatchImageJob \<Rightarrow> string" where
  "counts_text j = ''success='' @ fmt_d (bj_SuccessCount j) @ '' fail='' @ fmt_d (bj_FailCount j) @ '' item_count='' @ fmt_d (bj_ItemCount j)"

definition cost_text :: "float64 \<Rightarrow> float64 \<Rightarrow> string" where
  "cost_text actual held = ''actual cost '' @ fmt_f10 actual @ '' exceeds held amount '' @ fmt_f10 held"

text \<open>The last part of \<open>Settle\<close>: capture, then mark the job, then the usage log.\<close>

definition settle_for :: "batch_config \<Rightarrow> BatchImageJob \<Rightarrow> int \<Rightarrow> int \<Rightarrow> string \<Rightarrow> float64 \<Rightarrow> BatchImageSettlementResult batch" where
  "settle_for cfg j k a h cost =
     andthen (attempt (captureBatchImageBalanceHold cfg j cost h)) (\<lambda>r. case r of
       Inl e \<Rightarrow> settlement_failure cfg j ''SETTLEMENT_BILLING_FAILED'' (truncated (bt_text cfg e)) e
     | Inr _ \<Rightarrow>
         andthen (invalidateAuthCache (bj_UserID j)) (\<lambda>_.
         andthen (inspect bi_clock) (\<lambda>now.
         andthen (MarkBatchImageJobSettled (bt_bill cfg) (bj_BatchID j) cost h now (Some (now + outputRetentionAfterTerminal cfg))) (\<lambda>_.
         andthen (recordUsageLog j k a cost now) (\<lambda>_. ret (settlement_result j h cost False))))))"

definition price_checked :: "batch_config \<Rightarrow> BatchImageJob \<Rightarrow> batch_error + float64" where
  "price_checked cfg j = (case settlementUnitPrice cfg j of Inl e \<Rightarrow> Inl e
     | Inr x \<Rightarrow> if x < 0 then Inl SettlementPricingMissing else Inr x)"

definition settle_checked :: "batch_config \<Rightarrow> BatchImageJob \<Rightarrow> int \<Rightarrow> int \<Rightarrow> string \<Rightarrow> BatchImageSettlementResult batch" where
  "settle_checked cfg j k a h =
     (if isBatchImageSettlementRetryExhausted j
      then failExhaustedSettlement cfg j (''settlement retry limit reached: '' @ batchImageDerefString (bj_LastErrorCode j))
      else if counts_invalid j
      then settlement_failure cfg j ''SETTLEMENT_INVALID_COUNTS'' (counts_text j) SettlementInvalidCounts
      else if batchImageDerefString (bj_ManifestHash j) \<noteq> [] \<and> batchImageDerefString (bj_ManifestHash j) \<noteq> h
      then settlement_failure cfg j ''SETTLEMENT_MANIFEST_CONFLICT'' ''manifest hash conflict'' ManifestConflict
      else case price_checked cfg j of
        Inl e \<Rightarrow> settlement_failure cfg j ''SETTLEMENT_PRICING_MISSING'' (bt_text cfg e) e
      | Inr unit_price \<Rightarrow>
          let cost = fmul (fof (bj_SuccessCount j)) unit_price in
          if batchImageCostEpsilon < fsub cost (hold_of j)
          then settlement_failure cfg j ''SETTLEMENT_COST_EXCEEDS_HOLD'' (cost_text cost (hold_of j)) SettlementCostExceedsHold
          else settle_for cfg j k a h cost)"

definition Settle :: "batch_config \<Rightarrow> string \<Rightarrow> BatchImageSettlementResult batch" where
  "Settle cfg b = andthen (GetBatchImageJobByBatchID b) (\<lambda>j.
     let h = BuildBatchImageSettlementManifestHash (bt_bill cfg) j in
     if bj_Status j = JCompleted then ret (settlement_result j h (case bj_ActualCost j of None \<Rightarrow> 0 | Some x \<Rightarrow> x) True)
     else if bj_Status j \<noteq> JSettling then throw SettlementInvalidStatus
     else case bj_APIKeyID j of
       None \<Rightarrow> throw SettlementMissingAPIKeyID
     | Some k \<Rightarrow> if k \<le> 0 then throw SettlementMissingAPIKeyID
         else case bj_AccountID j of
           None \<Rightarrow> throw SettlementMissingAccountID
         | Some a \<Rightarrow> if a \<le> 0 then throw SettlementMissingAccountID else settle_checked cfg j k a h)"

section \<open>Recovery of submissions that never reached the provider\<close>

definition batch_Enqueue :: "batchImageQueueOptions \<Rightarrow> string \<Rightarrow> (queue_error + unit) batch" where
  "batch_Enqueue q b s = (case queue_Enqueue q b (bi_queue s) of (r, qs) \<Rightarrow> (Inr r, s\<lparr>bi_queue := qs\<rparr>))"

text \<open>One job of the list: what it adds to the count, and the error it leaves.\<close>

definition recover_job :: "batch_config \<Rightarrow> batchImageQueueOptions \<Rightarrow> go_time \<Rightarrow> BatchImageJob \<Rightarrow> (nat \<times> batch_error option) batch" where
  "recover_job cfg q cutoff j =
     andthen (FailStaleUnsubmittedBatchImageJob (bj_BatchID j) cutoff ''SUBMIT_STALE_BEFORE_PROVIDER''
       ''batch image submission did not reach provider before recovery cutoff'') (\<lambda>(applied, err).
       if \<not> applied then ret (0, err)
       else andthen (attempt (releaseBatchImageBalanceHold cfg j (batchImageDerefString (bj_RequestHash j)))) (\<lambda>r. case r of
           Inl e \<Rightarrow> andthen (batch_Enqueue q (bj_BatchID j)) (\<lambda>_. ret (0, Some e))
         | Inr _ \<Rightarrow> andthen (invalidateAuthCache (bj_UserID j)) (\<lambda>_. ret (1, None))))"

fun recover_jobs :: "batch_config \<Rightarrow> batchImageQueueOptions \<Rightarrow> go_time \<Rightarrow> BatchImageJob list \<Rightarrow> (nat \<times> batch_error option) batch" where
  "recover_jobs cfg q cutoff [] = ret (0, None)"
| "recover_jobs cfg q cutoff (j # js) = andthen (recover_job cfg q cutoff j) (\<lambda>(n, e).
     andthen (recover_jobs cfg q cutoff js) (\<lambda>(m, e'). ret (n + m, if e' = None then e else e')))"

definition ReleaseStaleUnsubmittedOnce :: "batch_config \<Rightarrow> batchImageQueueOptions \<Rightarrow> go_duration \<Rightarrow> int \<Rightarrow> (nat \<times> batch_error option) batch" where
  "ReleaseStaleUnsubmittedOnce cfg q stale limit = andthen (inspect bi_clock) (\<lambda>now.
     let cutoff = now - default_duration stale (600 * a_second) in
     andthen (ListStaleUnsubmittedBatchImageJobs cutoff (if limit \<le> 0 then 100 else limit)) (recover_jobs cfg q cutoff))"

section \<open>Frames\<close>

text \<open>Statements on jobs leave the billing store alone; operations on money leave the jobs alone.\<close>

definition bill_is :: "bill_store \<Rightarrow> batch_store \<Rightarrow> bool" where
  "bill_is b s \<longleftrightarrow> bi_bill s = b"

definition at_rest :: "batch_store \<Rightarrow> bool" where
  "at_rest s \<longleftrightarrow> bi_faults s = []"

lemma job_call_rest: "at_rest s \<Longrightarrow> job_call p s = undone p s"
  by (simp add: at_rest_def job_call_def)

text \<open>The change of one job, all else but the events and the clock's copies being the same.\<close>

definition job_now :: "string \<Rightarrow> BatchImageJob \<Rightarrow> batch_store \<Rightarrow> batch_store \<Rightarrow> bool" where
  "job_now b j s s' \<longleftrightarrow> at_rest s' \<and> find_job b s' = Some j \<and> bi_bill s' = bi_bill s \<and> bi_usage_logs s' = bi_usage_logs s
     \<and> map bj_BatchID (bi_jobs s') = map bj_BatchID (bi_jobs s)
     \<and> (\<forall>x \<in> set (bi_jobs s'). bj_BatchID x \<noteq> b \<longrightarrow> x \<in> set (bi_jobs s))"

lemma find_mapped_job:
  "List.find (\<lambda>j. bj_BatchID j = b) js = Some j \<Longrightarrow> (\<And>x. bj_BatchID (f x) = bj_BatchID x) \<Longrightarrow>
     List.find (\<lambda>j. bj_BatchID j = b) (map (\<lambda>j. if bj_BatchID j = b then f j else j) js) = Some (f j)"
  by (induction js) (auto split: if_splits)

lemma set_job_now:
  assumes "at_rest s" and "find_job b s = Some j" and "\<And>x. bj_BatchID (f x) = bj_BatchID x"
  obtains s' where "set_job b f s = (Inr (), s')" and "job_now b (f j) s s'" and "bi_clock s' = bi_clock s"
proof
  let ?s = "update_jobs (\<lambda>x. bj_BatchID x = b) f s"
  show "set_job b f s = (Inr (), ?s)" by (simp add: set_job_def run update_job_def)
  show "job_now b (f j) s ?s"
    using assms find_mapped_job [of b "bi_jobs s" j f]
    by (auto simp: job_now_def at_rest_def find_job_def update_jobs_def)
  show "bi_clock ?s = bi_clock s" by (simp add: update_jobs_def)
qed

lemma event_now:
  assumes "job_now b j s t"
  obtains s' where "append_event b ty t = (Inr (), s')" and "job_now b j s s'"
proof
  let ?s = "t\<lparr>bi_events := bi_events t @ [(b, ty)]\<rparr>"
  show "append_event b ty t = (Inr (), ?s)" using assms by (simp add: append_event_def job_now_def)
  show "job_now b j s ?s" using assms by (simp add: job_now_def at_rest_def find_job_def)
qed

lemma GetBatchImageJobByBatchID_rest:
  "at_rest s \<Longrightarrow> find_job b s = Some j \<Longrightarrow> GetBatchImageJobByBatchID b s = (Inr j, s)"
  by (simp add: GetBatchImageJobByBatchID_def job_call_rest undone_def the_job_def)

lemma AppendBatchImageEvent_now:
  assumes "job_now b j s t"
  obtains s' where "AppendBatchImageEvent b ty t = (Inr (), s')" and "job_now b j s s'"
proof -
  obtain s' where s': "append_event b ty t = (Inr (), s')" "job_now b j s s'" using event_now [OF assms] by blast
  moreover have "at_rest t" using assms by (simp add: job_now_def)
  ultimately show thesis using that by (simp add: AppendBatchImageEvent_def job_call_rest undone_def)
qed

lemma SetBatchImageJobSettlementFailed_now:
  assumes "at_rest s" and "find_job b s = Some j"
  obtains s' where "SetBatchImageJobSettlementFailed b code' msg s = (Inr (bj_RetryCount j + 1), s')"
    and "job_now b (retried_job (bi_clock s) code' msg j) s s'"
proof -
  obtain t where t: "set_job b (retried_job (bi_clock s) code' msg) s = (Inr (), t)"
    "job_now b (retried_job (bi_clock s) code' msg j) s t"
    using set_job_now [OF assms, of "retried_job (bi_clock s) code' msg"] by (auto simp: retried_job_def)
  obtain s' where s': "AppendBatchImageEvent b ''settlement_failed'' t = (Inr (), s')"
    "job_now b (retried_job (bi_clock s) code' msg j) s s'" using AppendBatchImageEvent_now [OF t(2)] by blast
  have "the_job b t = (Inr (retried_job (bi_clock s) code' msg j), t)" using t(2) by (simp add: the_job_def job_now_def)
  then show thesis using that [OF _ s'(2)] t(1) s'(1) assms(1)
    by (simp add: SetBatchImageJobSettlementFailed_def run job_call_rest undone_def retried_job_def)
qed

lemma TransitionBatchImageJobStatus_now:
  assumes "at_rest s" and "find_job b s = Some j" and "CanTransitionBatchImageJob (bj_Status j) st"
  obtains s' where "TransitionBatchImageJobStatus b st code' msg event s = (Inr (), s')"
    and "job_now b (transitioned st (bi_clock s) code' msg j) s s'"
proof -
  obtain t where t: "set_job b (transitioned st (bi_clock s) code' msg) s = (Inr (), t)"
    "job_now b (transitioned st (bi_clock s) code' msg j) s t"
    using set_job_now [OF assms(1,2), of "transitioned st (bi_clock s) code' msg"] by (auto simp: transitioned_def)
  obtain s' where s': "append_event b event t = (Inr (), s')"
    "job_now b (transitioned st (bi_clock s) code' msg j) s s'" using event_now [OF t(2)] by blast
  have "the_job b s = (Inr j, s)" using assms(2) by (simp add: the_job_def)
  then show thesis using that [OF _ s'(2)] that [OF _ t(2)] t(1) s'(1) assms(1,3)
    by (cases "event = []")
      (simp_all add: TransitionBatchImageJobStatus_def run job_call_rest undone_def)
qed

lemma MarkBatchImageJobSettled_now:
  assumes "at_rest s" and "find_job b s = Some j" and "settleable h j" and "\<not> manifest_taken b (Some h) s"
    and "fits10 cfg cost"
  obtains s' where "MarkBatchImageJobSettled cfg b cost h now expires s = (Inr (), s')"
    and "job_now b (settled_job cfg cost h now expires j) s s'"
proof -
  obtain t where t: "set_job b (settled_job cfg cost h now expires) s = (Inr (), t)"
    "job_now b (settled_job cfg cost h now expires j) s t"
    using set_job_now [OF assms(1,2), of "settled_job cfg cost h now expires"] by (auto simp: settled_job_def)
  obtain s' where s': "append_event b ''settlement_completed'' t = (Inr (), s')"
    "job_now b (settled_job cfg cost h now expires j) s s'" using event_now [OF t(2)] by blast
  then show thesis using that [OF _ s'(2)] t(1) assms
    by (simp add: MarkBatchImageJobSettled_def run job_call_rest undone_def)
qed

section \<open>Operations on holds when the billing database serves\<close>

lemma hold_refused:
  assumes "served B" and "applyBatchImageBalanceHold op cfg cmd B = (Inl e, B')"
  shows "B' = B"
  using assms by (auto simp: applyBatchImageBalanceHold_def Let_def run transaction_def served_def committed_def
      split: if_splits prod.splits sum.splits)

text \<open>A command the frozen balance does not cover is refused.\<close>

lemma capture_uncovered:
  assumes "served B" and "c = Hold_Normalize cfg cmd" and "(hc_RequestID c, hc_APIKeyID c) \<notin> claimed B"
    and "live_user (hc_UserID c) B = Some r" and "bu_Frozen r < bc_num cfg (hc_HoldAmount c)" and "0 < hc_HoldAmount c"
  shows "\<exists>e. CaptureBatchImageBalance cfg cmd B = (Inl e, B)"
proof (cases "hc_RequestID c = []")
  case True
  then show ?thesis using assms(2)
    by (auto simp: CaptureBatchImageBalance_def applyBatchImageBalanceHold_def Let_def run)
next
  case False
  have "\<exists>e. captureUsageBillingBatchImageBalance cfg c (claim_added c B) = (Inl e, claim_added c B)"
    using assms(4-) by (simp add: captureUsageBillingBatchImageBalance_def Let_def)
  then show ?thesis using hold_run [OF assms(1,2) False assms(3), of captureUsageBillingBatchImageBalance]
    by (auto simp: CaptureBatchImageBalance_def)
qed

lemma release_uncovered:
  assumes "served B" and "c = Hold_Normalize cfg cmd" and "(hc_RequestID c, hc_APIKeyID c) \<notin> claimed B"
    and "live_user (hc_UserID c) B = Some r" and "bu_Frozen r < bc_num cfg (hc_HoldAmount c)" and "0 < hc_HoldAmount c"
    and "(BatchImageHoldRequestID (hc_BatchID c), hc_APIKeyID c) \<in> claimed B"
  shows "\<exists>e. e \<noteq> UsageBillingRequestConflict \<and> ReleaseBatchImageBalance cfg cmd B = (Inl e, B)"
proof (cases "hc_RequestID c = []")
  case True
  then show ?thesis using assms(2)
    by (auto simp: ReleaseBatchImageBalance_def applyBatchImageBalanceHold_def Let_def run)
next
  case False
  have "batchImageHoldClaimExists (BatchImageHoldRequestID (hc_BatchID c)) (hc_APIKeyID c) (claim_added c B)"
    using assms(7) by (auto simp: claim_exists claimed_def claim_added_def)
  then have "releaseUsageBillingBatchImageBalance cfg c (claim_added c B) = (Inl FrozenBalanceInsufficient, claim_added c B)"
    using assms(4-) by (simp add: releaseUsageBillingBatchImageBalance_def Let_def)
  then show ?thesis using hold_run [OF assms(1,2) False assms(3), of releaseUsageBillingBatchImageBalance]
    by (auto simp: ReleaseBatchImageBalance_def)
qed

lemma billed_run: "billed p s = (case p (bi_bill s) of (r, b) \<Rightarrow> (Inr r, s\<lparr>bi_bill := b\<rparr>))"
  by (simp add: billed_def)

lemma same_bill: "bi_bill s = b \<Longrightarrow> s\<lparr>bi_bill := b\<rparr> = s"
  by simp

text \<open>The commands of a job.\<close>

definition capture_command :: "batch_config \<Rightarrow> BatchImageJob \<Rightarrow> float64 \<Rightarrow> string \<Rightarrow> BatchImageBalanceHoldCommand" where
  "capture_command cfg j actual payload = Hold_Normalize (bt_bill cfg) (projr (buildBatchImageHoldCommand j
     (BatchImageCaptureRequestID (bj_BatchID j)) actual payload))"

definition release_command :: "batch_config \<Rightarrow> BatchImageJob \<Rightarrow> string \<Rightarrow> BatchImageBalanceHoldCommand" where
  "release_command cfg j payload = Hold_Normalize (bt_bill cfg) (projr (buildBatchImageHoldCommand j
     (BatchImageReleaseRequestID (bj_BatchID j)) 0 payload))"

lemma build_Inr:
  assumes "bj_APIKeyID j = Some k" and "0 < k"
  obtains cmd where "buildBatchImageHoldCommand j rid actual payload = Inr cmd" and "hc_HoldAmount cmd = max 0 (hold_of j)"
    and "hc_APIKeyID cmd = k" and "hc_UserID cmd = bj_UserID j" and "hc_RequestID cmd = rid" and "hc_BatchID cmd = bj_BatchID j"
  using assms by (auto simp: buildBatchImageHoldCommand_def max_def)

lemma Hold_Normalize_fields [simp]:
  "hc_APIKeyID (Hold_Normalize cfg c) = hc_APIKeyID c" "hc_UserID (Hold_Normalize cfg c) = hc_UserID c"
  "hc_HoldAmount (Hold_Normalize cfg c) = hc_HoldAmount c" "hc_ActualAmount (Hold_Normalize cfg c) = hc_ActualAmount c"
  "hc_RequestID (Hold_Normalize cfg c) = trim_space (hc_RequestID c)"
  "hc_BatchID (Hold_Normalize cfg c) = trim_space (hc_BatchID c)"
  by (simp_all add: Hold_Normalize_def Let_def)

section \<open>A hold that cannot be settled\<close>

text \<open>A job in settlement whose hold the frozen balance does not cover.\<close>

definition uncovered :: "batch_config \<Rightarrow> bill_store \<Rightarrow> BatchImageJob \<Rightarrow> bool" where
  "uncovered cfg B j \<longleftrightarrow> served B \<and> (\<exists>k r. bj_APIKeyID j = Some k \<and> 0 < k \<and> 0 < hold_of j
     \<and> live_user (bj_UserID j) B = Some r \<and> bu_Frozen r < bc_num (bt_bill cfg) (hold_of j)
     \<and> (BatchImageHoldRequestID (trim_space (bj_BatchID j)), k) \<in> claimed B
     \<and> (trim_space (BatchImageCaptureRequestID (bj_BatchID j)), k) \<notin> claimed B
     \<and> (trim_space (BatchImageReleaseRequestID (bj_BatchID j)), k) \<notin> claimed B)"

lemma uncovered_terms: "terms j' = terms j \<Longrightarrow> uncovered cfg B j' = uncovered cfg B j"
  by (simp add: uncovered_def terms_def hold_of_def split: option.splits)

lemma uncovered_capture:
  assumes "uncovered cfg (bi_bill s) j"
  shows "captureBatchImageBalanceHold cfg j cost h s = (Inl SettlementBillingFailed, s)"
proof -
  from assms obtain k r where u: "served (bi_bill s)" "bj_APIKeyID j = Some k" "0 < k" "0 < hold_of j"
    "live_user (bj_UserID j) (bi_bill s) = Some r" "bu_Frozen r < bc_num (bt_bill cfg) (hold_of j)"
    "(trim_space (BatchImageCaptureRequestID (bj_BatchID j)), k) \<notin> claimed (bi_bill s)"
    by (auto simp: uncovered_def)
  obtain cmd where cmd: "buildBatchImageHoldCommand j (BatchImageCaptureRequestID (bj_BatchID j)) cost h = Inr cmd"
    "hc_HoldAmount cmd = max 0 (hold_of j)" "hc_APIKeyID cmd = k" "hc_UserID cmd = bj_UserID j"
    "hc_RequestID cmd = BatchImageCaptureRequestID (bj_BatchID j)" using build_Inr [OF u(2,3)] by metis
  then obtain e where "CaptureBatchImageBalance (bt_bill cfg) cmd (bi_bill s) = (Inl e, bi_bill s)"
    using capture_uncovered [OF u(1) refl, of "bt_bill cfg" cmd r] u by (auto simp: max_def)
  then show ?thesis using cmd(1) by (simp add: captureBatchImageBalanceHold_def run billed_run)
qed

lemma uncovered_release:
  assumes "uncovered cfg (bi_bill s) j"
  shows "releaseBatchImageBalanceHold cfg j p s = (Inl BillingHoldFailed, s)"
proof -
  from assms obtain k r where u: "served (bi_bill s)" "bj_APIKeyID j = Some k" "0 < k" "0 < hold_of j"
    "live_user (bj_UserID j) (bi_bill s) = Some r" "bu_Frozen r < bc_num (bt_bill cfg) (hold_of j)"
    "(BatchImageHoldRequestID (trim_space (bj_BatchID j)), k) \<in> claimed (bi_bill s)"
    "(trim_space (BatchImageReleaseRequestID (bj_BatchID j)), k) \<notin> claimed (bi_bill s)"
    by (auto simp: uncovered_def)
  obtain cmd where cmd: "buildBatchImageHoldCommand j (BatchImageReleaseRequestID (bj_BatchID j)) 0 p = Inr cmd"
    "hc_HoldAmount cmd = max 0 (hold_of j)" "hc_APIKeyID cmd = k" "hc_UserID cmd = bj_UserID j"
    "hc_RequestID cmd = BatchImageReleaseRequestID (bj_BatchID j)" "hc_BatchID cmd = bj_BatchID j"
    using build_Inr [OF u(2,3)] by metis
  then obtain e where "e \<noteq> UsageBillingRequestConflict" "ReleaseBatchImageBalance (bt_bill cfg) cmd (bi_bill s) = (Inl e, bi_bill s)"
    using release_uncovered [OF u(1) refl, of "bt_bill cfg" cmd r] u by (auto simp: max_def)
  then show ?thesis using cmd(1,2) u(4) by (simp add: releaseBatchImageBalanceHold_def run billed_run max_def)
qed

definition stuck :: "batch_config \<Rightarrow> string \<Rightarrow> bill_store \<Rightarrow> batch_store \<Rightarrow> bool" where
  "stuck cfg b B s \<longleftrightarrow> at_rest s \<and> bi_bill s = B
     \<and> (\<exists>j. find_job b s = Some j \<and> bj_Status j = JSettling \<and> uncovered cfg B j)"

lemma stuck_failure_recorded:
  assumes "stuck cfg b B s"
  shows "stuck cfg b B (snd (SetBatchImageJobSettlementFailed b code' msg s))"
proof -
  from assms obtain j where j: "at_rest s" "bi_bill s = B" "find_job b s = Some j" "bj_Status j = JSettling" "uncovered cfg B j"
    by (auto simp: stuck_def)
  obtain s' where "SetBatchImageJobSettlementFailed b code' msg s = (Inr (bj_RetryCount j + 1), s')"
    "job_now b (retried_job (bi_clock s) code' msg j) s s'"
    using SetBatchImageJobSettlementFailed_now [OF j(1,3)] by blast
  moreover have "uncovered cfg B (retried_job (bi_clock s) code' msg j)"
    using j(5) uncovered_terms [of "retried_job (bi_clock s) code' msg j" j] by (simp add: terms_def retried_job_def)
  ultimately show ?thesis using j by (auto simp: stuck_def job_now_def retried_job_def)
qed

lemma stuck_exhausted:
  assumes "stuck cfg b B s" and "uncovered cfg B j" and "bj_BatchID j = b"
  shows "\<exists>e s'. failExhaustedSettlement cfg j msg s = (Inl e, s') \<and> stuck cfg b B s'"
proof -
  have rel: "releaseBatchImageBalanceHold cfg j p s = (Inl BillingHoldFailed, s)" for p
    using uncovered_release assms by (simp add: stuck_def)
  obtain r s' where s': "SetBatchImageJobSettlementFailed b ''SETTLEMENT_RELEASE_FAILED'' (truncated (bt_text cfg BillingHoldFailed)) s = (r, s')"
    by fastforce
  then have "stuck cfg b B s'" using stuck_failure_recorded [OF assms(1)] by (metis snd_conv)
  then show ?thesis using s' assms(3) by (simp add: failExhaustedSettlement_def run rel)
qed

lemma stuck_failure:
  assumes "stuck cfg b B s" and "uncovered cfg B j" and "bj_BatchID j = b"
  shows "\<exists>e' s'. settlement_failure cfg j code' msg e s = (Inl e', s') \<and> stuck cfg b B s'"
proof -
  obtain r s1 where s1: "SetBatchImageJobSettlementFailed b code' (truncated msg) s = (r, s1)" by fastforce
  then have st: "stuck cfg b B s1" using stuck_failure_recorded [OF assms(1)] by (metis snd_conv)
  from stuck_exhausted [OF st assms(2,3), of msg] obtain e' s2
    where "failExhaustedSettlement cfg j msg s1 = (Inl e' :: batch_error + unit, s2)" "stuck cfg b B s2" by blast
  with st s1 assms(3) show ?thesis
    by (simp add: settlement_failure_def recordSettlementFailure_def run split: sum.split)
qed

lemma stuck_settle:
  assumes "stuck cfg b B s"
  shows "\<exists>e s'. Settle cfg b s = (Inl e, s') \<and> stuck cfg b B s'"
proof -
  from assms obtain j where j: "at_rest s" "bi_bill s = B" "find_job b s = Some j" "bj_Status j = JSettling" "uncovered cfg B j"
    by (auto simp: stuck_def)
  then have b: "bj_BatchID j = b" using find_job_Some by blast
  have capture: "captureBatchImageBalanceHold cfg j cost h s = (Inl SettlementBillingFailed, s)" for cost h
    using uncovered_capture j by simp
  have "settle_for cfg j k a h cost s = settlement_failure cfg j ''SETTLEMENT_BILLING_FAILED''
      (truncated (bt_text cfg SettlementBillingFailed)) SettlementBillingFailed s" for k a h cost
    by (simp add: settle_for_def run capture)
  moreover have "\<exists>e' s'. settlement_failure cfg j code' msg e s = (Inl e' :: batch_error + BatchImageSettlementResult, s')
      \<and> stuck cfg b B s'" for code' msg e by (rule stuck_failure [OF assms j(5) b])
  moreover have "\<exists>e s'. failExhaustedSettlement cfg j msg s = (Inl e :: batch_error + BatchImageSettlementResult, s')
      \<and> stuck cfg b B s'" for msg by (rule stuck_exhausted [OF assms j(5) b])
  ultimately have checked: "\<exists>e s'. settle_checked cfg j k a h s = (Inl e, s') \<and> stuck cfg b B s'" for k a h
    by (simp add: settle_checked_def Let_def split: sum.split)
  show ?thesis using assms j(4) checked
    by (auto simp: Settle_def run Let_def GetBatchImageJobByBatchID_rest [OF j(1,3)] split: option.split)
qed

fun settle_times :: "nat \<Rightarrow> batch_config \<Rightarrow> string \<Rightarrow> batch_store \<Rightarrow> batch_store" where
  "settle_times 0 cfg b s = s"
| "settle_times (Suc n) cfg b s = settle_times n cfg b (snd (Settle cfg b s))"

text \<open>C24: A hold with more than eight decimals that its column rounded down is never settled: when the frozen
  balance does not cover the hold, every settlement fails, the job stays in settlement for ever, also after
  the retry limit, and nothing of the money moves.\<close>

theorem uncovered_hold_never_settles:
  assumes "at_rest s" and "find_job b s = Some j" and "bj_Status j = JSettling" and "uncovered cfg (bi_bill s) j"
  shows "\<exists>e j'. fst (Settle cfg b (settle_times n cfg b s)) = Inl e \<and> find_job b (settle_times n cfg b s) = Some j'
    \<and> bj_Status j' = JSettling \<and> bi_bill (settle_times n cfg b s) = bi_bill s"
proof -
  have "stuck cfg b (bi_bill s) (settle_times n cfg b s')" if "stuck cfg b (bi_bill s) s'" for s'
    using that
  proof (induction n arbitrary: s')
    case (Suc n)
    then show ?case using stuck_settle [of cfg b "bi_bill s" s'] by auto
  qed simp
  moreover have "stuck cfg b (bi_bill s) s" using assms by (auto simp: stuck_def)
  ultimately have "stuck cfg b (bi_bill s) (settle_times n cfg b s)" by blast
  moreover from stuck_settle [OF this] obtain e where "fst (Settle cfg b (settle_times n cfg b s)) = Inl e" by auto
  ultimately show ?thesis by (auto simp: stuck_def)
qed

section \<open>A hold released\<close>

lemma claimed_added: "claimed (claim_added c B) = insert (hc_RequestID c, hc_APIKeyID c) (claimed B)"
  by (auto simp: claimed_def claim_added_def row_key_def)

lemma release_covered:
  assumes "served B" and "c = Hold_Normalize cfg cmd" and "hc_RequestID c \<noteq> []"
    and "(hc_RequestID c, hc_APIKeyID c) \<notin> claimed B" and "(BatchImageHoldRequestID (hc_BatchID c), hc_APIKeyID c) \<in> claimed B"
    and "live_user (hc_UserID c) B = Some r" and "bc_num cfg (hc_HoldAmount c) \<le> bu_Frozen r" and "0 < hc_HoldAmount c"
    and "fits8 (bu_Balance r + bc_num cfg (hc_HoldAmount c))" and "fits8 (bu_Frozen r - bc_num cfg (hc_HoldAmount c))"
  shows "\<exists>res B'. ReleaseBatchImageBalance cfg cmd B = (Inr res, B')
    \<and> bs_users B' = (bs_users B)(hc_UserID c \<mapsto> paid_user r (bu_Balance r + bc_num cfg (hc_HoldAmount c))
        (Some (bu_Frozen r - bc_num cfg (hc_HoldAmount c))))
    \<and> claimed B' = insert (hc_RequestID c, hc_APIKeyID c) (claimed B) \<and> bs_ledger B' = bs_ledger B @ [HoldReleased c]"
proof -
  let ?h = "bc_num cfg (hc_HoldAmount c)"
  let ?r = "paid_user r (bu_Balance r + ?h) (Some (bu_Frozen r - ?h))"
  let ?B = "(claim_added c B)\<lparr>bs_users := (bs_users B)(hc_UserID c \<mapsto> ?r), bs_ledger := bs_ledger B @ [HoldReleased c]\<rparr>"
  have "batchImageHoldClaimExists (BatchImageHoldRequestID (hc_BatchID c)) (hc_APIKeyID c) (claim_added c B)"
    using assms(5) by (simp add: claim_exists claimed_added)
  then have "releaseUsageBillingBatchImageBalance cfg c (claim_added c B)
      = (Inr (Some (rnd64 (bu_Balance ?r), rnd64 (bu_Frozen ?r))), ?B)"
    using assms(6-) by (simp add: releaseUsageBillingBatchImageBalance_def moved_def set_money_def run note_entry_def Let_def)
  then have "ReleaseBatchImageBalance cfg cmd B = (Inr \<lparr>hr_Applied = True, hr_NewBalance = Some (rnd64 (bu_Balance ?r)),
      hr_FrozenBalance = Some (rnd64 (bu_Frozen ?r))\<rparr>, ?B)"
    using hold_run [OF assms(1-4), of releaseUsageBillingBatchImageBalance] by (simp add: ReleaseBatchImageBalance_def)
  moreover have "claimed ?B = insert (hc_RequestID c, hc_APIKeyID c) (claimed B)" by (simp add: claimed_added)
  ultimately show ?thesis by simp
qed

text \<open>A job whose hold can be released now.\<close>

definition covered :: "batch_config \<Rightarrow> bill_store \<Rightarrow> BatchImageJob \<Rightarrow> int \<Rightarrow> bill_user \<Rightarrow> bool" where
  "covered cfg B j k r \<longleftrightarrow> served B \<and> bj_APIKeyID j = Some k \<and> 0 < k \<and> 0 < hold_of j
     \<and> live_user (bj_UserID j) B = Some r \<and> bc_num (bt_bill cfg) (hold_of j) \<le> bu_Frozen r
     \<and> fits8 (bu_Balance r + bc_num (bt_bill cfg) (hold_of j)) \<and> fits8 (bu_Frozen r - bc_num (bt_bill cfg) (hold_of j))
     \<and> (BatchImageHoldRequestID (trim_space (bj_BatchID j)), k) \<in> claimed B
     \<and> trim_space (BatchImageReleaseRequestID (bj_BatchID j)) \<noteq> []
     \<and> (trim_space (BatchImageReleaseRequestID (bj_BatchID j)), k) \<notin> claimed B"

definition refunded_user :: "batch_config \<Rightarrow> BatchImageJob \<Rightarrow> bill_user \<Rightarrow> bill_user" where
  "refunded_user cfg j r = paid_user r (bu_Balance r + bc_num (bt_bill cfg) (hold_of j))
     (Some (bu_Frozen r - bc_num (bt_bill cfg) (hold_of j)))"

lemma covered_release:
  assumes "covered cfg (bi_bill s) j k r"
  shows "\<exists>B. releaseBatchImageBalanceHold cfg j p s = (Inr (), s\<lparr>bi_bill := B\<rparr>)
    \<and> bs_users B = (bs_users (bi_bill s))(bj_UserID j \<mapsto> refunded_user cfg j r)
    \<and> claimed B = insert (trim_space (BatchImageReleaseRequestID (bj_BatchID j)), k) (claimed (bi_bill s))"
proof -
  note c = assms [unfolded covered_def]
  obtain cmd where cmd: "buildBatchImageHoldCommand j (BatchImageReleaseRequestID (bj_BatchID j)) 0 p = Inr cmd"
    "hc_HoldAmount cmd = max 0 (hold_of j)" "hc_APIKeyID cmd = k" "hc_UserID cmd = bj_UserID j"
    "hc_RequestID cmd = BatchImageReleaseRequestID (bj_BatchID j)" "hc_BatchID cmd = bj_BatchID j"
    using build_Inr [of j k] c by metis
  have h: "hc_HoldAmount cmd = hold_of j" using cmd(2) c by (simp add: max_def)
  obtain res B where "ReleaseBatchImageBalance (bt_bill cfg) cmd (bi_bill s) = (Inr res, B)"
    "bs_users B = (bs_users (bi_bill s))(bj_UserID j \<mapsto> refunded_user cfg j r)"
    "claimed B = insert (trim_space (BatchImageReleaseRequestID (bj_BatchID j)), k) (claimed (bi_bill s))"
    using release_covered [OF _ refl, of "bi_bill s" "bt_bill cfg" cmd r] c cmd(3-6) h
    by (auto simp: refunded_user_def)
  moreover from this(1) have "releaseBatchImageBalanceHold cfg j p s = (Inr (), s\<lparr>bi_bill := B\<rparr>)"
    using cmd(1) c h by (simp add: releaseBatchImageBalanceHold_def run billed_run)
  ultimately show ?thesis by blast
qed

lemma invalidate_now: "\<exists>us. invalidateAuthCache u s = (Inr (), s\<lparr>bi_invalidated := us\<rparr>)"
proof (cases "0 < u")
  case True
  then show ?thesis by (intro exI [of _ "bi_invalidated s @ [u]"]) (simp add: invalidateAuthCache_def run)
next
  case False
  then show ?thesis by (intro exI [of _ "bi_invalidated s"]) (simp add: invalidateAuthCache_def run)
qed

lemma exhausted_releases:
  assumes "at_rest s" and "find_job b s = Some j0" and "bj_Status j0 = JSettling" and "bj_BatchID j = b"
    and "covered cfg (bi_bill s) j k r"
  shows "\<exists>s' j'. failExhaustedSettlement cfg j msg s = (Inl SettlementBillingFailed, s') \<and> find_job b s' = Some j'
    \<and> bj_Status j' = JFailed \<and> at_rest s'
    \<and> bs_users (bi_bill s') = (bs_users (bi_bill s))(bj_UserID j \<mapsto> refunded_user cfg j r)
    \<and> claimed (bi_bill s') = insert (trim_space (BatchImageReleaseRequestID (bj_BatchID j)), k) (claimed (bi_bill s))"
proof -
  obtain B where B: "releaseBatchImageBalanceHold cfg j (batchImageDerefString (bj_RequestHash j)) s = (Inr (), s\<lparr>bi_bill := B\<rparr>)"
    "bs_users B = (bs_users (bi_bill s))(bj_UserID j \<mapsto> refunded_user cfg j r)"
    "claimed B = insert (trim_space (BatchImageReleaseRequestID (bj_BatchID j)), k) (claimed (bi_bill s))"
    using covered_release [OF assms(5)] by blast
  obtain us where us: "invalidateAuthCache (bj_UserID j) (s\<lparr>bi_bill := B\<rparr>) = (Inr (), s\<lparr>bi_bill := B\<rparr>\<lparr>bi_invalidated := us\<rparr>)"
    using invalidate_now by blast
  obtain t where t: "invalidateAuthCache (bj_UserID j) (s\<lparr>bi_bill := B\<rparr>) = (Inr (), t)" "at_rest t"
    "find_job b t = Some j0" "bi_bill t = B"
    by (rule that [OF us]) (use assms(1,2) in \<open>simp_all add: at_rest_def find_job_def\<close>)
  have "CanTransitionBatchImageJob (bj_Status j0) JFailed"
    using assms(3) by (simp add: CanTransitionBatchImageJob_def IsTerminalBatchImageJobStatus_def)
  from TransitionBatchImageJobStatus_now [OF t(2,3) this] obtain s' where
    "TransitionBatchImageJobStatus b JFailed (Some ''SETTLEMENT_BILLING_RETRY_EXHAUSTED'')
       (Some (if trim_space msg = [] then ''settlement billing retry limit reached'' else trim_space msg))
       ''settlement_retry_exhausted'' t = (Inr (), s')"
    "job_now b (transitioned JFailed (bi_clock t) (Some ''SETTLEMENT_BILLING_RETRY_EXHAUSTED'')
       (Some (if trim_space msg = [] then ''settlement billing retry limit reached'' else trim_space msg)) j0) t s'" by blast
  then show ?thesis using B t assms(4)
    by (simp add: failExhaustedSettlement_def run job_now_def) (simp add: transitioned_def)
qed

text \<open>C23: A settlement that runs out of retries gives the hold back without looking whether it was captured: when
  the capture of the job was committed before (its answers or the marking of the job were lost), the user is
  paid the hold a second time, out of the frozen balance of his other jobs, and both the capture and the
  release stand.\<close>

theorem exhausted_settlement_refunds_captured_hold:
  assumes "at_rest s" and "find_job b s = Some j" and "isBatchImageSettlementRetryExhausted j"
    and "bj_AccountID j = Some a" and "0 < a" and "covered cfg (bi_bill s) j k r"
    and "(trim_space (BatchImageCaptureRequestID b), k) \<in> claimed (bi_bill s)"
  shows "\<exists>s' j'. Settle cfg b s = (Inl SettlementBillingFailed, s') \<and> find_job b s' = Some j' \<and> bj_Status j' = JFailed
    \<and> bs_users (bi_bill s') (bj_UserID j) = Some (refunded_user cfg j r)
    \<and> {(trim_space (BatchImageCaptureRequestID b), k), (trim_space (BatchImageReleaseRequestID b), k)} \<subseteq> claimed (bi_bill s')"
proof -
  have b: "bj_BatchID j = b" using find_job_Some assms(2) by blast
  have st: "bj_Status j = JSettling" using assms(3) by (simp add: isBatchImageSettlementRetryExhausted_def)
  have "Settle cfg b s = failExhaustedSettlement cfg j
      (''settlement retry limit reached: '' @ batchImageDerefString (bj_LastErrorCode j)) s"
    using assms(3-6) st by (simp add: Settle_def run GetBatchImageJobByBatchID_rest [OF assms(1,2)] covered_def
      settle_checked_def Let_def)
  with exhausted_releases [OF assms(1,2) st b assms(6)] assms(7) b show ?thesis by (metis (no_types, lifting) fun_upd_same insert_iff insert_subset empty_subsetI)
qed

section \<open>A settlement that succeeds\<close>

lemma capture_covered:
  assumes "served B" and "c = Hold_Normalize cfg cmd" and "hc_RequestID c \<noteq> []"
    and "(hc_RequestID c, hc_APIKeyID c) \<notin> claimed B"
    and "live_user (hc_UserID c) B = Some r" and "bc_num cfg (hc_HoldAmount c) \<le> bu_Frozen r" and "0 < hc_HoldAmount c"
    and "\<not> batchImageCostEpsilon < fsub (hc_ActualAmount c) (hc_HoldAmount c)"
    and "fits8 (bu_Balance r + (bc_num cfg (hc_HoldAmount c) - bc_num cfg (hc_ActualAmount c)))"
    and "fits8 (bu_Frozen r - bc_num cfg (hc_HoldAmount c))"
  shows "\<exists>res B'. CaptureBatchImageBalance cfg cmd B = (Inr res, B')
    \<and> bs_users B' = (bs_users B)(hc_UserID c \<mapsto>
        paid_user r (bu_Balance r + (bc_num cfg (hc_HoldAmount c) - bc_num cfg (hc_ActualAmount c)))
          (Some (bu_Frozen r - bc_num cfg (hc_HoldAmount c))))
    \<and> claimed B' = insert (hc_RequestID c, hc_APIKeyID c) (claimed B) \<and> bs_ledger B' = bs_ledger B @ [HoldCaptured c]"
proof -
  let ?h = "bc_num cfg (hc_HoldAmount c)" and ?a = "bc_num cfg (hc_ActualAmount c)"
  let ?r = "paid_user r (bu_Balance r + (?h - ?a)) (Some (bu_Frozen r - ?h))"
  let ?B = "(claim_added c B)\<lparr>bs_users := (bs_users B)(hc_UserID c \<mapsto> ?r), bs_ledger := bs_ledger B @ [HoldCaptured c]\<rparr>"
  have eq: "bu_Balance r + (if ?a < ?h then ?h - ?a else 0) - (if ?h < ?a then ?a - ?h else 0) = bu_Balance r + (?h - ?a)" by simp
  have "captureUsageBillingBatchImageBalance cfg c (claim_added c B) = moved (HoldCaptured c) (hc_UserID c) r
      (bu_Balance r + (if ?a < ?h then ?h - ?a else 0) - (if ?h < ?a then ?a - ?h else 0)) (bu_Frozen r - ?h) (claim_added c B)"
    using assms(5-8) by (simp add: captureUsageBillingBatchImageBalance_def Let_def)
  also have "\<dots> = (Inr (Some (rnd64 (bu_Balance ?r), rnd64 (bu_Frozen ?r))), ?B)"
    unfolding eq using assms(9,10) by (simp add: moved_def set_money_def run note_entry_def)
  finally have "captureUsageBillingBatchImageBalance cfg c (claim_added c B)
      = (Inr (Some (rnd64 (bu_Balance ?r), rnd64 (bu_Frozen ?r))), ?B)" .
  then have "CaptureBatchImageBalance cfg cmd B = (Inr \<lparr>hr_Applied = True, hr_NewBalance = Some (rnd64 (bu_Balance ?r)),
      hr_FrozenBalance = Some (rnd64 (bu_Frozen ?r))\<rparr>, ?B)"
    using hold_run [OF assms(1-4), of captureUsageBillingBatchImageBalance] by (simp add: CaptureBatchImageBalance_def)
  moreover have "claimed ?B = insert (hc_RequestID c, hc_APIKeyID c) (claimed B)" by (simp add: claimed_added)
  ultimately show ?thesis by (intro exI) auto
qed

text \<open>What the capture of a job for a cost needs.\<close>

definition capturable :: "batch_config \<Rightarrow> bill_store \<Rightarrow> BatchImageJob \<Rightarrow> int \<Rightarrow> bill_user \<Rightarrow> float64 \<Rightarrow> bool" where
  "capturable cfg B j k r cost \<longleftrightarrow> served B \<and> bj_APIKeyID j = Some k \<and> 0 < k \<and> 0 < hold_of j \<and> 0 \<le> cost
     \<and> live_user (bj_UserID j) B = Some r \<and> bc_num (bt_bill cfg) (hold_of j) \<le> bu_Frozen r
     \<and> fits8 (bu_Balance r + (bc_num (bt_bill cfg) (hold_of j) - bc_num (bt_bill cfg) cost))
     \<and> fits8 (bu_Frozen r - bc_num (bt_bill cfg) (hold_of j))
     \<and> trim_space (BatchImageCaptureRequestID (bj_BatchID j)) \<noteq> []
     \<and> (trim_space (BatchImageCaptureRequestID (bj_BatchID j)), k) \<notin> claimed B"

definition charged_user :: "batch_config \<Rightarrow> BatchImageJob \<Rightarrow> float64 \<Rightarrow> bill_user \<Rightarrow> bill_user" where
  "charged_user cfg j cost r = paid_user r (bu_Balance r + (bc_num (bt_bill cfg) (hold_of j) - bc_num (bt_bill cfg) cost))
     (Some (bu_Frozen r - bc_num (bt_bill cfg) (hold_of j)))"

lemma capturable_capture:
  assumes "capturable cfg (bi_bill s) j k r cost" and "\<not> batchImageCostEpsilon < fsub cost (hold_of j)"
  shows "\<exists>B. captureBatchImageBalanceHold cfg j cost h s = (Inr (), s\<lparr>bi_bill := B\<rparr>)
    \<and> bs_users B = (bs_users (bi_bill s))(bj_UserID j \<mapsto> charged_user cfg j cost r)
    \<and> claimed B = insert (trim_space (BatchImageCaptureRequestID (bj_BatchID j)), k) (claimed (bi_bill s))"
proof -
  note c = assms(1) [unfolded capturable_def]
  obtain cmd where cmd: "buildBatchImageHoldCommand j (BatchImageCaptureRequestID (bj_BatchID j)) cost h = Inr cmd"
    "hc_HoldAmount cmd = max 0 (hold_of j)" "hc_APIKeyID cmd = k" "hc_UserID cmd = bj_UserID j"
    "hc_RequestID cmd = BatchImageCaptureRequestID (bj_BatchID j)"
    using build_Inr [of j k] c by metis
  have h: "hc_HoldAmount cmd = hold_of j" "hc_ActualAmount cmd = cost"
    using cmd(1,2) c by (auto simp: max_def buildBatchImageHoldCommand_def)
  obtain res B where "CaptureBatchImageBalance (bt_bill cfg) cmd (bi_bill s) = (Inr res, B)"
    and B: "bs_users B = (bs_users (bi_bill s))(bj_UserID j \<mapsto> charged_user cfg j cost r)"
    "claimed B = insert (trim_space (BatchImageCaptureRequestID (bj_BatchID j)), k) (claimed (bi_bill s))"
    using capture_covered [OF _ refl, of "bi_bill s" "bt_bill cfg" cmd r] c cmd(3-5) h assms(2)
    by (auto simp: charged_user_def)
  then have "captureBatchImageBalanceHold cfg j cost h s = (Inr (), s\<lparr>bi_bill := B\<rparr>)"
    using cmd(1) by (simp add: captureBatchImageBalanceHold_def run billed_run)
  with B show ?thesis by blast
qed

definition ready_to_mark :: "batch_config \<Rightarrow> string \<Rightarrow> BatchImageJob \<Rightarrow> batch_store \<Rightarrow> bool" where
  "ready_to_mark cfg b j s \<longleftrightarrow> bj_ManifestHash j = None
     \<and> \<not> manifest_taken b (Some (BuildBatchImageSettlementManifestHash (bt_bill cfg) j)) s"

lemma settle_for_captured:
  assumes "at_rest s" and "find_job b s = Some j" and "bj_Status j = JSettling" and "ready_to_mark cfg b j s"
    and "fits10 (bt_bill cfg) cost" and h: "h = BuildBatchImageSettlementManifestHash (bt_bill cfg) j"
    and cap: "captureBatchImageBalanceHold cfg j cost h s = (Inr (), s\<lparr>bi_bill := B\<rparr>)"
  shows "\<exists>s' now. settle_for cfg j k a h cost s = (Inr (settlement_result j h cost False), s') \<and> at_rest s' \<and> bi_bill s' = B
    \<and> find_job b s' = Some (settled_job (bt_bill cfg) cost h now (Some (now + outputRetentionAfterTerminal cfg)) j)
    \<and> bi_usage_logs s' = bi_usage_logs s @ [usage_log_of j k a cost now]"
proof -
  have b: "bj_BatchID j = b" using find_job_Some assms(2) by blast
  obtain us where us: "invalidateAuthCache (bj_UserID j) (s\<lparr>bi_bill := B\<rparr>) = (Inr (), s\<lparr>bi_bill := B\<rparr>\<lparr>bi_invalidated := us\<rparr>)"
    using invalidate_now by blast
  let ?now = "bi_clock s" and ?exp = "Some (bi_clock s + outputRetentionAfterTerminal cfg)"
  obtain t where t: "invalidateAuthCache (bj_UserID j) (s\<lparr>bi_bill := B\<rparr>) = (Inr (), t)" "at_rest t" "find_job b t = Some j"
    "bi_bill t = B" "bi_clock t = bi_clock s" "bi_usage_logs t = bi_usage_logs s" "bi_jobs t = bi_jobs s"
    by (rule that [OF us]) (use assms(1,2) in \<open>simp_all add: at_rest_def find_job_def\<close>)
  have "settleable h j" "\<not> manifest_taken b (Some h) t" using assms(3,4) t(7) by (simp_all add: settleable_def ready_to_mark_def manifest_taken_def h)
  from MarkBatchImageJobSettled_now [OF t(2,3) this assms(5), of ?now ?exp] obtain s1 where s1:
    "MarkBatchImageJobSettled (bt_bill cfg) b cost h ?now ?exp t = (Inr (), s1)"
    "job_now b (settled_job (bt_bill cfg) cost h ?now ?exp j) t s1" by blast
  let ?s' = "s1\<lparr>bi_usage_logs := bi_usage_logs s1 @ [usage_log_of j k a cost ?now]\<rparr>"
  have log: "recordUsageLog j k a cost ?now s1 = (Inr (), ?s')"
    using s1(2) by (simp add: recordUsageLog_def run job_call_rest job_now_def undone_def)
  have "settle_for cfg j k a h cost s = (Inr (settlement_result j h cost False), ?s')"
    by (simp add: settle_for_def run cap t(1,5) b s1(1) log)
  moreover have "at_rest ?s'" "bi_bill ?s' = B" "bi_usage_logs ?s' = bi_usage_logs s @ [usage_log_of j k a cost ?now]"
    "find_job b ?s' = Some (settled_job (bt_bill cfg) cost h ?now ?exp j)"
    using s1(2) t by (simp_all add: job_now_def at_rest_def find_job_def)
  ultimately show ?thesis by blast
qed

text \<open>The checks of a settlement that come before the money.\<close>

definition passes_checks :: "batch_config \<Rightarrow> BatchImageJob \<Rightarrow> float64 \<Rightarrow> bool" where
  "passes_checks cfg j cost \<longleftrightarrow> bj_Status j = JSettling \<and> \<not> isBatchImageSettlementRetryExhausted j \<and> \<not> counts_invalid j
     \<and> (\<exists>u. price_checked cfg j = Inr u \<and> cost = fmul (fof (bj_SuccessCount j)) u)
     \<and> \<not> batchImageCostEpsilon < fsub cost (hold_of j)"

lemma Settle_reaches_money:
  assumes "at_rest s" and "find_job b s = Some j" and "passes_checks cfg j cost" and "ready_to_mark cfg b j s"
    and "bj_APIKeyID j = Some k" and "0 < k" and "bj_AccountID j = Some a" and "0 < a"
  shows "Settle cfg b s = settle_for cfg j k a (BuildBatchImageSettlementManifestHash (bt_bill cfg) j) cost s"
  using assms(3-)
  by (auto simp: Settle_def run GetBatchImageJobByBatchID_rest [OF assms(1,2)] passes_checks_def settle_checked_def Let_def
      ready_to_mark_def batchImageDerefString_def)

text \<open>C16: A settlement that passes its checks charges the job once: the whole hold leaves the frozen balance,
  the difference to the cost of the successful images comes back to the balance, the job is completed with
  this cost and its manifest, one usage log is written; a second settlement answers that the job is settled
  and changes nothing.\<close>

theorem settlement_charges_once:
  assumes "at_rest s" and "find_job b s = Some j" and "passes_checks cfg j cost" and "ready_to_mark cfg b j s"
    and "capturable cfg (bi_bill s) j k r cost" and "bj_AccountID j = Some a" and "0 < a" and "fits10 (bt_bill cfg) cost"
  shows "\<exists>res s' now. Settle cfg b s = (Inr res, s') \<and> sr_ActualCost res = cost \<and> \<not> sr_AlreadySettled res
    \<and> find_job b s' = Some (settled_job (bt_bill cfg) cost (BuildBatchImageSettlementManifestHash (bt_bill cfg) j) now
        (Some (now + outputRetentionAfterTerminal cfg)) j)
    \<and> bs_users (bi_bill s') = (bs_users (bi_bill s))(bj_UserID j \<mapsto> charged_user cfg j cost r)
    \<and> bi_usage_logs s' = bi_usage_logs s @ [usage_log_of j k a cost now]
    \<and> (\<exists>again. Settle cfg b s' = (Inr again, s') \<and> sr_AlreadySettled again)"
proof -
  let ?h = "BuildBatchImageSettlementManifestHash (bt_bill cfg) j"
  have k: "bj_APIKeyID j = Some k" "0 < k" using assms(5) by (simp_all add: capturable_def)
  have st: "bj_Status j = JSettling" "\<not> batchImageCostEpsilon < fsub cost (hold_of j)"
    using assms(3) by (simp_all add: passes_checks_def)
  obtain B where B: "captureBatchImageBalanceHold cfg j cost ?h s = (Inr (), s\<lparr>bi_bill := B\<rparr>)"
    "bs_users B = (bs_users (bi_bill s))(bj_UserID j \<mapsto> charged_user cfg j cost r)"
    using capturable_capture [OF assms(5) st(2)] by blast
  from settle_for_captured [OF assms(1,2) st(1) assms(4,8) refl B(1), of k a] obtain s' now where s':
    "settle_for cfg j k a ?h cost s = (Inr (settlement_result j ?h cost False), s')" "at_rest s'" "bi_bill s' = B"
    "find_job b s' = Some (settled_job (bt_bill cfg) cost ?h now (Some (now + outputRetentionAfterTerminal cfg)) j)"
    "bi_usage_logs s' = bi_usage_logs s @ [usage_log_of j k a cost now]" by blast
  have "\<exists>again. Settle cfg b s' = (Inr again, s') \<and> sr_AlreadySettled again"
    by (simp add: Settle_def run GetBatchImageJobByBatchID_rest [OF s'(2,4)] Let_def settled_job_def settlement_result_def)
  then show ?thesis
    using Settle_reaches_money [OF assms(1-4) k assms(6,7)] s' B(2)
    by (intro exI [of _ "settlement_result j ?h cost False"] exI [of _ s'] exI [of _ now])
      (simp add: settlement_result_def)
qed

section \<open>Settlement ends\<close>

text \<open>A retry changes only the count of retries, the last error and the time of the change.\<close>

definition settle_view :: "BatchImageJob \<Rightarrow> BatchImageJob" where
  "settle_view j = j\<lparr>bj_RetryCount := 0, bj_LastErrorCode := None, bj_LastErrorMessage := None, bj_UpdatedAt := 0\<rparr>"

lemma settle_viewD:
  assumes "settle_view j' = settle_view j"
  shows "terms j' = terms j" "bj_Status j' = bj_Status j" "bj_ManifestHash j' = bj_ManifestHash j"
    "bj_SuccessCount j' = bj_SuccessCount j" "bj_FailCount j' = bj_FailCount j"
    "BuildBatchImageSettlementManifestHash cfg j' = BuildBatchImageSettlementManifestHash cfg j"
    "price_checked c j' = price_checked c j" "hold_of j' = hold_of j" "bj_AccountID j' = bj_AccountID j"
proof -
  have f: "g (settle_view j') = g (settle_view j)" for g :: "BatchImageJob \<Rightarrow> 'z" using assms by simp
  note fields = f [of bj_ID] f [of bj_BatchID] f [of bj_UserID] f [of bj_APIKeyID] f [of bj_AccountID] f [of bj_Provider]
    f [of bj_Model] f [of bj_ItemCount] f [of bj_EstimatedCost] f [of bj_HoldAmount] f [of bj_BillableUnitPrice]
    f [of bj_PricingSnapshotVersion] f [of bj_IdempotencyKey] f [of bj_RequestHash] f [of bj_Status] f [of bj_ManifestHash]
    f [of bj_SuccessCount] f [of bj_FailCount] f [of bj_ProviderJobName] f [of bj_ProviderOutputRef]
  show "terms j' = terms j" "bj_Status j' = bj_Status j" "bj_ManifestHash j' = bj_ManifestHash j"
    "bj_SuccessCount j' = bj_SuccessCount j" "bj_FailCount j' = bj_FailCount j"
    "BuildBatchImageSettlementManifestHash cfg j' = BuildBatchImageSettlementManifestHash cfg j"
    "price_checked c j' = price_checked c j" "hold_of j' = hold_of j" "bj_AccountID j' = bj_AccountID j"
    using fields by (simp_all add: settle_view_def terms_def BuildBatchImageSettlementManifestHash_def price_checked_def
        settlementUnitPrice_def BatchImageUnitPrice_def hold_of_def cong: option.case_cong)
qed

definition settling_on :: "batch_config \<Rightarrow> string \<Rightarrow> bill_store \<Rightarrow> BatchImageJob \<Rightarrow> int \<Rightarrow> batch_store \<Rightarrow> bool" where
  "settling_on cfg b B j0 m s \<longleftrightarrow> at_rest s \<and> bi_bill s = B
     \<and> (\<exists>j. find_job b s = Some j \<and> settle_view j = settle_view j0 \<and> m \<le> bj_RetryCount j)
     \<and> \<not> manifest_taken b (Some (BuildBatchImageSettlementManifestHash (bt_bill cfg) j0)) s"

definition settlement_over :: "string \<Rightarrow> batch_store \<Rightarrow> bool" where
  "settlement_over b s \<longleftrightarrow> (\<exists>j. find_job b s = Some j \<and> bj_Status j \<in> {JCompleted, JFailed})"

text \<open>What a job in settlement needs to come to an end: identifiers, a hold that can be released, and a cost
  that fits its column.\<close>

definition can_end :: "batch_config \<Rightarrow> bill_store \<Rightarrow> BatchImageJob \<Rightarrow> bool" where
  "can_end cfg B j \<longleftrightarrow> bj_Status j = JSettling \<and> (\<exists>k r. covered cfg B j k r) \<and> (\<exists>a. bj_AccountID j = Some a \<and> 0 < a)
     \<and> bj_ManifestHash j = None
     \<and> (\<forall>u. price_checked cfg j = Inr u \<longrightarrow> fits10 (bt_bill cfg) (fmul (fof (bj_SuccessCount j)) u))"

lemma covered_terms: "terms j' = terms j \<Longrightarrow> covered cfg B j' k r = covered cfg B j k r"
  by (simp add: covered_def terms_def hold_of_def split: option.splits)

lemma failure_recorded_on:
  assumes "settling_on cfg b B j0 m s" and "bj_BatchID j0 = b"
  shows "\<exists>n s'. SetBatchImageJobSettlementFailed b code' msg s = (Inr n, s') \<and> m < n \<and> settling_on cfg b B j0 (m + 1) s'"
proof -
  from assms(1) obtain j where j: "at_rest s" "bi_bill s = B" "find_job b s = Some j" "settle_view j = settle_view j0"
    "m \<le> bj_RetryCount j" "\<not> manifest_taken b (Some (BuildBatchImageSettlementManifestHash (bt_bill cfg) j0)) s"
    by (auto simp: settling_on_def)
  obtain s' where s': "SetBatchImageJobSettlementFailed b code' msg s = (Inr (bj_RetryCount j + 1), s')"
    "job_now b (retried_job (bi_clock s) code' msg j) s s'" using SetBatchImageJobSettlementFailed_now [OF j(1,3)] by blast
  have "settle_view (retried_job (bi_clock s) code' msg j) = settle_view j0"
    unfolding j(4) [symmetric] by (simp add: settle_view_def retried_job_def)
  moreover have "\<not> manifest_taken b (Some (BuildBatchImageSettlementManifestHash (bt_bill cfg) j0)) s'"
    using s'(2) j(6) by (auto simp: job_now_def manifest_taken_def)
  ultimately have "settling_on cfg b B j0 (m + 1) s'"
    using s'(2) j(2,5) by (auto simp: settling_on_def job_now_def retried_job_def)
  then show ?thesis using s'(1) j(5) by auto
qed

lemma exhausted_over:
  assumes "settling_on cfg b B j0 m s" and "can_end cfg B j0" and "settle_view j = settle_view j0" and "bj_BatchID j0 = b"
  shows "\<exists>e s'. failExhaustedSettlement cfg j msg s = (Inl e :: batch_error + 'a, s') \<and> settlement_over b s'"
proof -
  from assms(1) obtain j1 where j1: "at_rest s" "bi_bill s = B" "find_job b s = Some j1" "settle_view j1 = settle_view j0"
    by (auto simp: settling_on_def)
  obtain k r where "covered cfg B j0 k r" using assms(2) by (auto simp: can_end_def)
  then have c: "covered cfg (bi_bill s) j k r"
    using covered_terms [OF settle_viewD(1) [OF assms(3)], of cfg "bi_bill s" k r] j1(2) by simp
  have st: "bj_Status j1 = JSettling" using settle_viewD(2) [OF j1(4)] assms(2) by (simp add: can_end_def)
  have b: "bj_BatchID j = b" using settle_viewD(1) [OF assms(3)] assms(4) by (simp add: terms_def)
  obtain s' j' where "failExhaustedSettlement cfg j msg s = (Inl SettlementBillingFailed :: batch_error + 'a, s')"
    "find_job b s' = Some j'" "bj_Status j' = JFailed" using exhausted_releases [OF j1(1,3) st b c, of msg] by blast
  then show ?thesis by (auto simp: settlement_over_def)
qed

definition nearer :: "batch_config \<Rightarrow> string \<Rightarrow> bill_store \<Rightarrow> BatchImageJob \<Rightarrow> int \<Rightarrow> batch_store \<Rightarrow> bool" where
  "nearer cfg b B j0 m s' \<longleftrightarrow> settlement_over b s' \<or> m < 4 \<and> settling_on cfg b B j0 (m + 1) s'"

lemma failure_nearer:
  assumes "settling_on cfg b B j0 m s" and "can_end cfg B j0" and "settle_view j = settle_view j0" and "bj_BatchID j0 = b"
  shows "\<exists>e' s'. settlement_failure cfg j code' msg e s = (Inl e', s') \<and> nearer cfg b B j0 m s'"
proof -
  have b: "bj_BatchID j = b" using settle_viewD(1) [OF assms(3)] assms(4) by (simp add: terms_def)
  obtain n s1 where s1: "SetBatchImageJobSettlementFailed b code' (truncated msg) s = (Inr n, s1)" "m < n"
    "settling_on cfg b B j0 (m + 1) s1" using failure_recorded_on [OF assms(1,4)] by blast
  obtain e' s2 where s2: "failExhaustedSettlement cfg j msg s1 = (Inl e' :: batch_error + unit, s2)" "settlement_over b s2"
    using exhausted_over [OF s1(3) assms(2-4)] by blast
  show ?thesis
  proof (cases "batchImageSettlementMaxRetries \<le> n")
    case True
    then show ?thesis using s1(1) s2 b
      by (simp add: settlement_failure_def recordSettlementFailure_def run nearer_def)
  next
    case False
    then have "m < 4" using s1(2) by (simp add: batchImageSettlementMaxRetries_def)
    then show ?thesis using s1(1,3) False b
      by (simp add: settlement_failure_def recordSettlementFailure_def run nearer_def)
  qed
qed

lemma capture_result:
  assumes "served (bi_bill s)" and "bj_APIKeyID j = Some k" and "0 < k"
  shows "(\<exists>e. captureBatchImageBalanceHold cfg j cost h s = (Inl e, s))
    \<or> (\<exists>B. captureBatchImageBalanceHold cfg j cost h s = (Inr (), s\<lparr>bi_bill := B\<rparr>))"
proof -
  obtain cmd where cmd: "buildBatchImageHoldCommand j (BatchImageCaptureRequestID (bj_BatchID j)) cost h = Inr cmd"
    using build_Inr [OF assms(2,3)] by metis
  obtain r B where r: "CaptureBatchImageBalance (bt_bill cfg) cmd (bi_bill s) = (r, B)" by fastforce
  show ?thesis
  proof (cases r)
    case (Inl e)
    then have "B = bi_bill s" using r hold_refused [OF assms(1)] by (simp add: CaptureBatchImageBalance_def)
    then show ?thesis using cmd r Inl by (simp add: captureBatchImageBalanceHold_def run billed_run)
  next
    case (Inr x)
    then show ?thesis using cmd r by (auto simp: captureBatchImageBalanceHold_def run billed_run)
  qed
qed

lemma settle_nearer:
  assumes on: "settling_on cfg b B j0 m s" and can: "can_end cfg B j0" and b: "bj_BatchID j0 = b"
  shows "nearer cfg b B j0 m (snd (Settle cfg b s))"
proof -
  from on obtain j where j: "at_rest s" "bi_bill s = B" "find_job b s = Some j" "settle_view j = settle_view j0"
    "\<not> manifest_taken b (Some (BuildBatchImageSettlementManifestHash (bt_bill cfg) j0)) s"
    by (auto simp: settling_on_def)
  note v = settle_viewD [OF j(4)]
  obtain k r a where c: "covered cfg B j0 k r" "bj_AccountID j = Some a" "0 < a" "bj_Status j = JSettling" "bj_ManifestHash j = None"
    using can v by (auto simp: can_end_def)
  have k: "bj_APIKeyID j = Some k" "0 < k" "served (bi_bill s)" using c(1) v(1) j(2) by (simp_all add: covered_def terms_def)
  let ?h = "BuildBatchImageSettlementManifestHash (bt_bill cfg) j"
  have fail: "\<exists>e' s'. settlement_failure cfg j code' msg e s = (Inl e' :: batch_error + BatchImageSettlementResult, s')
      \<and> nearer cfg b B j0 m s'" for code' msg e by (rule failure_nearer [OF on can j(4) b])
  have exhausted: "\<exists>e' s'. failExhaustedSettlement cfg j msg s = (Inl e' :: batch_error + BatchImageSettlementResult, s')
      \<and> nearer cfg b B j0 m s'" for msg using exhausted_over [OF on can j(4) b] unfolding nearer_def by blast
  have money: "nearer cfg b B j0 m (snd (settle_for cfg j k a ?h cost s))" if "fits10 (bt_bill cfg) cost" for cost
  proof -
    from capture_result [OF k(3,1,2), of cfg cost ?h] consider
      e where "captureBatchImageBalanceHold cfg j cost ?h s = (Inl e, s)"
    | B' where "captureBatchImageBalanceHold cfg j cost ?h s = (Inr (), s\<lparr>bi_bill := B'\<rparr>)" by blast
    then show ?thesis
    proof cases
      case (1 e)
      then have "settle_for cfg j k a ?h cost s = settlement_failure cfg j ''SETTLEMENT_BILLING_FAILED''
          (truncated (bt_text cfg e)) e s" by (simp add: settle_for_def run)
      then show ?thesis using fail by (metis snd_conv)
    next
      case (2 B')
      have "ready_to_mark cfg b j s" using c(5) j(5) v(6) by (simp add: ready_to_mark_def)
      from settle_for_captured [OF j(1,3) c(4) this that refl 2, of k a] obtain s' now where
        "settle_for cfg j k a ?h cost s = (Inr (settlement_result j ?h cost False), s')"
        "find_job b s' = Some (settled_job (bt_bill cfg) cost ?h now (Some (now + outputRetentionAfterTerminal cfg)) j)" by blast
      then show ?thesis by (auto simp: nearer_def settlement_over_def settled_job_def)
    qed
  qed
  have fits: "price_checked cfg j = Inr u \<Longrightarrow> fits10 (bt_bill cfg) (fmul (fof (bj_SuccessCount j)) u)" for u
    using can v by (simp add: can_end_def)
  have fails: "nearer cfg b B j0 m (snd (settlement_failure cfg j code' msg e s :: (batch_error + BatchImageSettlementResult) \<times> batch_store))"
    "nearer cfg b B j0 m (snd (failExhaustedSettlement cfg j msg s :: (batch_error + BatchImageSettlementResult) \<times> batch_store))"
    for code' msg e using fail exhausted by (metis snd_conv)+
  have "nearer cfg b B j0 m (snd (settle_checked cfg j k a ?h s))"
    using fails money fits by (simp add: settle_checked_def Let_def split: sum.split)
  moreover have "Settle cfg b s = settle_checked cfg j k a ?h s" using c k
    by (simp add: Settle_def run GetBatchImageJobByBatchID_rest [OF j(1,3)] Let_def)
  ultimately show ?thesis by simp
qed


end
