(* ===== verification/BatchImageResults.thy ===== *)
theory BatchImageResults
  imports BatchImageLifecycle
begin

text \<open>
  The results of a provider: the lines of its output and the index made of them, from
  \<open>service/batch_image_processor.go\<close>. The decoding of a line is \<open>json.Unmarshal\<close>, a parameter that gives
  the members of the object; \<^const>\<open>None\<close> when the line is not one. The output is the list of lines
  that \<open>bufio.Scanner\<close> gives and whether it stopped with an error.
\<close>

section \<open>Decoded values\<close>

datatype json = JNull | JBool bool | JNum rat | JStr string | JArr "json list" | JObj "(string \<times> json) list"

definition member :: "(string \<times> json) list \<Rightarrow> string \<Rightarrow> json" where
  "member m k = (case map_of m k of None \<Rightarrow> JNull | Some v \<Rightarrow> v)"

definition has_member :: "(string \<times> json) list \<Rightarrow> string \<Rightarrow> bool" where
  "has_member m k \<longleftrightarrow> map_of m k \<noteq> None"

text \<open>A number is a \<open>float64\<close>; its conversion to \<open>int64\<close> drops the fraction.\<close>

definition batchImageMapString :: "(string \<times> json) list \<Rightarrow> string \<Rightarrow> string" where
  "batchImageMapString m k = (case member m k of
     JStr v \<Rightarrow> trim_space v
   | JNum x \<Rightarrow> format_int (if x < 0 then - \<lfloor>- x\<rfloor> else \<lfloor>x\<rfloor>)
   | _ \<Rightarrow> [])"

fun batchImageNestedAny :: "json \<Rightarrow> string list \<Rightarrow> json" where
  "batchImageNestedAny v [] = v"
| "batchImageNestedAny v (k # ks) = (case v of JObj m \<Rightarrow> batchImageNestedAny (member m k) ks | _ \<Rightarrow> JNull)"

definition batchImageNestedString :: "json \<Rightarrow> string list \<Rightarrow> string" where
  "batchImageNestedString v ks = (case batchImageNestedAny v ks of JStr t \<Rightarrow> trim_space t | _ \<Rightarrow> [])"

fun batchImageFirstNonEmptyString :: "string list \<Rightarrow> string" where
  "batchImageFirstNonEmptyString [] = []"
| "batchImageFirstNonEmptyString (v # vs) = (if trim_space v \<noteq> [] then trim_space v else batchImageFirstNonEmptyString vs)"

fun firstMap :: "json list \<Rightarrow> (string \<times> json) list option" where
  "firstMap [] = None"
| "firstMap (JObj m # vs) = Some m"
| "firstMap (_ # vs) = firstMap vs"

section \<open>Images and failures in a line\<close>

definition part_mime :: "json \<Rightarrow> string option" where
  "part_mime part = (case part of
     JObj p \<Rightarrow> (case firstMap [member p ''inlineData'', member p ''inline_data''] of
         Some inline \<Rightarrow>
           let data = trim_space (batchImageMapString inline ''data'');
               mime = batchImageFirstNonEmptyString [batchImageMapString inline ''mimeType'', batchImageMapString inline ''mime_type'']
           in if data = [] \<or> \<not> has_prefix (to_lower (trim_space mime)) ''image/'' then None else Some (trim_space mime)
       | None \<Rightarrow> None)
   | _ \<Rightarrow> None)"

definition candidate_parts :: "json \<Rightarrow> json list" where
  "candidate_parts c = (case c of JObj _ \<Rightarrow> (case batchImageNestedAny c [''content'', ''parts''] of JArr ps \<Rightarrow> ps | _ \<Rightarrow> []) | _ \<Rightarrow> [])"

definition batchImageFindImagePartsInCandidates :: "json \<Rightarrow> int \<times> string" where
  "batchImageFindImagePartsInCandidates raw = (case raw of
     JArr cs \<Rightarrow> let mimes = List.map_filter part_mime (concat (map candidate_parts cs))
       in (int (length mimes), case mimes of [] \<Rightarrow> [] | m # _ \<Rightarrow> m)
   | _ \<Rightarrow> (0, []))"

definition batchImageFindImageParts :: "(string \<times> json) list \<Rightarrow> int \<times> string" where
  "batchImageFindImageParts m =
     (let (n, mime) = batchImageFindImagePartsInCandidates (batchImageNestedAny (JObj m) [''response'', ''candidates'']) in
      if 0 < n then (n, mime) else batchImageFindImagePartsInCandidates (member m ''candidates''))"

definition batchImageMapFailureCode :: "string \<Rightarrow> string \<Rightarrow> string" where
  "batchImageMapFailureCode code' message =
     (let t = to_lower (trim_space (code' @ '' '' @ message)) in
      if contains t ''safety'' \<or> contains t ''policy'' \<or> contains t ''blocked'' \<or> contains t ''prohibited'' then ''SAFETY_BLOCKED''
      else if contains t ''invalid_argument'' \<or> contains t ''invalid argument'' \<or> contains t ''bad request'' then ''INVALID_ARGUMENT''
      else if contains t ''quota'' \<or> contains t ''rate'' \<or> contains t ''resource_exhausted'' \<or> contains t ''too many requests''
      then ''PROVIDER_RATE_LIMITED''
      else ''PROVIDER_ITEM_FAILED'')"

definition failure_fields :: "(string \<times> json) list \<Rightarrow> string \<times> string" where
  "failure_fields f =
     (let message = batchImageFirstNonEmptyString [batchImageMapString f ''message'', batchImageMapString f ''details''];
          code' = batchImageFirstNonEmptyString [batchImageMapString f ''code'', batchImageMapString f ''status'']
      in (batchImageMapFailureCode code' message, message))"

definition batchImageFailureFromProviderFields :: "(string \<times> json) list \<Rightarrow> (string \<times> string) option" where
  "batchImageFailureFromProviderFields m = (case member m ''status'' of
     JObj f \<Rightarrow> Some (failure_fields f)
   | _ \<Rightarrow> (case member m ''error'' of JObj f \<Rightarrow> Some (failure_fields f) | _ \<Rightarrow> None))"

definition batchImageFileExtension :: "string \<Rightarrow> string" where
  "batchImageFileExtension mime =
     (let t = to_lower (trim_space mime) in
      if t = ''image/png'' then ''png'' else if t = ''image/jpeg'' \<or> t = ''image/jpg'' then ''jpg''
      else if t = ''image/webp'' then ''webp'' else [])"

definition batchImageHasCandidates :: "(string \<times> json) list \<Rightarrow> bool" where
  "batchImageHasCandidates m \<longleftrightarrow> has_member m ''candidates''
     \<or> (case batchImageNestedAny (JObj m) [''response'', ''candidates''] of JArr _ \<Rightarrow> True | _ \<Rightarrow> False)"

record ParsedBatchImageResult =
  pr_CustomID :: string
  pr_Succeeded :: bool
  pr_MimeType :: string
  pr_FileExtension :: string
  pr_ImageCount :: int
  pr_ErrorCode :: string
  pr_ErrorMessage :: string
  pr_SourceLineNumber :: int

definition failed_result :: "string \<Rightarrow> int \<Rightarrow> string \<Rightarrow> string \<Rightarrow> ParsedBatchImageResult" where
  "failed_result c n code' message = \<lparr>pr_CustomID = c, pr_Succeeded = False, pr_MimeType = [], pr_FileExtension = [],
     pr_ImageCount = 0, pr_ErrorCode = code', pr_ErrorMessage = message, pr_SourceLineNumber = n\<rparr>"

definition custom_id :: "(string \<times> json) list \<Rightarrow> string" where
  "custom_id m = batchImageFirstNonEmptyString [batchImageMapString m ''key'', batchImageMapString m ''custom_id'',
     batchImageMapString m ''customId'', batchImageNestedString (JObj m) [''request'', ''key'']]"

type_synonym decoder = "string \<Rightarrow> (string \<times> json) list option"

definition ParseBatchImageResultLine :: "decoder \<Rightarrow> string \<Rightarrow> int \<Rightarrow> batch_error + ParsedBatchImageResult" where
  "ParseBatchImageResultLine decode line n = (case decode line of
     None \<Rightarrow> Inl IndexParseFailed
   | Some m \<Rightarrow>
       if custom_id m = [] then Inl IndexParseFailed
       else case batchImageFindImageParts m of (count, mime) \<Rightarrow>
         if 0 < count then Inr \<lparr>pr_CustomID = custom_id m, pr_Succeeded = True, pr_MimeType = mime,
           pr_FileExtension = batchImageFileExtension mime, pr_ImageCount = count, pr_ErrorCode = [], pr_ErrorMessage = [],
           pr_SourceLineNumber = n\<rparr>
         else case batchImageFailureFromProviderFields m of
           Some (code', message) \<Rightarrow> Inr (failed_result (custom_id m) n code' (truncateBatchImageMessage message 1000))
         | None \<Rightarrow>
             if has_member m ''response'' \<or> batchImageHasCandidates m
             then Inr (failed_result (custom_id m) n ''EMPTY_IMAGE_OUTPUT'' ''provider response contained no image output'')
             else Inr (failed_result (custom_id m) n ''PROVIDER_ITEM_FAILED'' ''provider result line contained no image output''))"

section \<open>The index\<close>

record index_run =
  ir_seen :: "string list"
  ir_items :: "BatchImageItem list"
  ir_success :: int
  ir_fail :: int
  ir_unknown :: int

definition no_index :: index_run where
  "no_index = \<lparr>ir_seen = [], ir_items = [], ir_success = 0, ir_fail = 0, ir_unknown = 0\<rparr>"

definition indexed_item :: "string \<Rightarrow> go_time \<Rightarrow> string \<Rightarrow> ParsedBatchImageResult \<Rightarrow> BatchImageItem" where
  "indexed_item b now src p = \<lparr>ii_JobID = b, ii_CustomID = pr_CustomID p,
     ii_Status = (if pr_Succeeded p then ISuccess else IFailed), ii_RequestHash = None, ii_PromptPreview = None,
     ii_ProviderSourceObject = batchImageOptionalStringPtr src, ii_SourceLineNumber = Some (pr_SourceLineNumber p),
     ii_MimeType = (if pr_Succeeded p then batchImageOptionalStringPtr (pr_MimeType p) else None),
     ii_FileExtension = (if pr_Succeeded p then batchImageOptionalStringPtr (pr_FileExtension p) else None),
     ii_ImageCount = pr_ImageCount p,
     ii_ErrorCode = (if pr_Succeeded p then None else batchImageOptionalStringPtr (pr_ErrorCode p)),
     ii_ErrorMessage = (if pr_Succeeded p then None else batchImageOptionalStringPtr (pr_ErrorMessage p)),
     ii_IndexedAt = Some now\<rparr>"

definition index_result :: "string list \<Rightarrow> (ParsedBatchImageResult \<Rightarrow> BatchImageItem) \<Rightarrow> ParsedBatchImageResult \<Rightarrow> index_run \<Rightarrow>
    batch_error + index_run" where
  "index_result expected item p run =
     (if expected \<noteq> [] \<and> pr_CustomID p \<notin> set expected then Inr (run\<lparr>ir_unknown := ir_unknown run + 1\<rparr>)
      else if pr_CustomID p \<in> set (ir_seen run) then Inl DuplicateCustomID
      else Inr (run\<lparr>ir_seen := pr_CustomID p # ir_seen run, ir_items := ir_items run @ [item p],
        ir_success := ir_success run + (if pr_Succeeded p then 1 else 0),
        ir_fail := ir_fail run + (if pr_Succeeded p then 0 else 1)\<rparr>))"

fun index_lines :: "decoder \<Rightarrow> string list \<Rightarrow> (ParsedBatchImageResult \<Rightarrow> BatchImageItem) \<Rightarrow> int \<Rightarrow> string list \<Rightarrow> index_run \<Rightarrow>
    batch_error + index_run" where
  "index_lines decode expected item n [] run = Inr run"
| "index_lines decode expected item n (line # lines) run =
     (if trim_space line = [] then index_lines decode expected item (n + 1) lines run
      else case ParseBatchImageResultLine decode (trim_space line) (n + 1) of
        Inl e \<Rightarrow> Inl e
      | Inr p \<Rightarrow> (case index_result expected item p run of
          Inl e \<Rightarrow> Inl e
        | Inr run' \<Rightarrow> index_lines decode expected item (n + 1) lines run'))"

definition missing_item :: "string \<Rightarrow> go_time \<Rightarrow> string \<Rightarrow> string \<Rightarrow> BatchImageItem" where
  "missing_item b now src c = \<lparr>ii_JobID = b, ii_CustomID = c, ii_Status = IFailed, ii_RequestHash = None, ii_PromptPreview = None,
     ii_ProviderSourceObject = batchImageOptionalStringPtr src, ii_SourceLineNumber = None, ii_MimeType = None,
     ii_FileExtension = None, ii_ImageCount = 0, ii_ErrorCode = Some ''PROVIDER_RESULT_MISSING'',
     ii_ErrorMessage = Some ''provider output did not include a result for this item'', ii_IndexedAt = Some now\<rparr>"

text \<open>The expected identifiers without a result, sorted.\<close>

definition missing_ids :: "string list \<Rightarrow> string list \<Rightarrow> string list" where
  "missing_ids expected seen = sort (filter (\<lambda>c. c \<notin> set seen) (remdups expected))"

definition with_missing :: "(string \<Rightarrow> BatchImageItem) \<Rightarrow> string list \<Rightarrow> index_run \<Rightarrow> index_run" where
  "with_missing item expected run =
     (let missing = missing_ids expected (ir_seen run) in
      run\<lparr>ir_items := ir_items run @ map item missing, ir_fail := ir_fail run + int (length missing)\<rparr>)"

text \<open>The pages of \<open>listExpectedCustomIDs\<close>.\<close>

definition expected_page :: nat where "expected_page = 500"

lemma ListBatchImageItems_items:
  assumes "ListBatchImageItems b None (int expected_page) (int off) s = (Inr page, s')"
  shows "items_of b s' = items_of b s" and "page = take expected_page (drop off (items_of b s))"
proof -
  have "bi_items s' = bi_items s \<and> page = take (page_limit (int expected_page)) (drop off (filter (\<lambda>i. True) (items_of b s)))"
    using assms by (auto simp: ListBatchImageItems_def job_call_def undone_def run items_of_def split: list.splits fault.splits)
  then show "items_of b s' = items_of b s" "page = take expected_page (drop off (items_of b s))"
    by (simp_all add: items_of_def page_limit_def expected_page_def)
qed

function expected_ids :: "string \<Rightarrow> nat \<Rightarrow> string list batch" where
  "expected_ids b off s = (case ListBatchImageItems b None (int expected_page) (int off) s of
     (Inl e, s') \<Rightarrow> (Inl e, s')
   | (Inr page, s') \<Rightarrow>
       if length page < expected_page then (Inr (map ii_CustomID page), s')
       else (case expected_ids b (off + length page) s' of
           (Inl e, s'') \<Rightarrow> (Inl e, s'') | (Inr ids, s'') \<Rightarrow> (Inr (map ii_CustomID page @ ids), s'')))"
  by pat_completeness auto
termination
proof (relation "measure (\<lambda>(b, off, s). length (items_of b s) - off)", simp)
  fix b off s r page s'
  assume a: "(r, s') = ListBatchImageItems b None (int expected_page) (int off) s" "r = Inr page" "\<not> length page < expected_page"
  from ListBatchImageItems_items [of b off s page s'] a(1,2) have
    p: "items_of b s' = items_of b s" "page = take expected_page (drop off (items_of b s))" by auto
  with a(3) have "expected_page \<le> length (items_of b s) - off" by simp
  moreover have "0 < expected_page" by (simp add: expected_page_def)
  ultimately show "((b, off + length page, s'), (b, off, s)) \<in> measure (\<lambda>(b, off, s). length (items_of b s) - off)"
    using p a(3) by simp
qed

declare expected_ids.simps [simp del]

definition source_object :: "BatchImageJob \<Rightarrow> string" where
  "source_object j = (if batchImageDerefString (bj_ProviderOutputRef j) = [] then batchImageDerefString (bj_ProviderJobName j)
     else batchImageDerefString (bj_ProviderOutputRef j))"

text \<open>\<open>opened\<close> is what opening the output gives: nothing, or its lines and the error of the scanner, if any. The
  last argument is the time the run starts.\<close>

definition finish_index :: "string \<Rightarrow> string list \<Rightarrow> (string \<Rightarrow> BatchImageItem) \<Rightarrow> index_run \<Rightarrow> index_run batch" where
  "finish_index b expected missing run =
     (let final = with_missing missing expected run in
      if ir_items final = [] then throw IndexNoResultLines
      else andthen (if 0 < ir_unknown run \<or> missing_ids expected (ir_seen run) \<noteq> []
          then andthen (attempt (AppendBatchImageEvent b ''index_reconciled'')) (\<lambda>_. ret ()) else ret ()) (\<lambda>_.
        andthen (ReplaceBatchImageItemsForJob b (ir_items final) (ir_success final) (ir_fail final)) (\<lambda>_. ret final)))"

definition Index :: "decoder \<Rightarrow> BatchImageJob \<Rightarrow> (string list \<times> batch_error option) option \<Rightarrow> index_run batch" where
  "Index decode j opened = andthen (expected_ids (bj_BatchID j) 0) (\<lambda>expected. case opened of
     None \<Rightarrow> throw IndexOutputMissing
   | Some (lines, err) \<Rightarrow> andthen (inspect bi_clock) (\<lambda>now.
       case index_lines decode expected (indexed_item (bj_BatchID j) now (source_object j)) 0 lines no_index of
         Inl e \<Rightarrow> throw e
       | Inr run \<Rightarrow> (case err of Some e \<Rightarrow> throw e
           | None \<Rightarrow> finish_index (bj_BatchID j) expected (missing_item (bj_BatchID j) now (source_object j)) run)))"

section \<open>What an index run accounts for\<close>

definition successes :: "BatchImageItem list \<Rightarrow> int" where
  "successes is = int (length (filter (\<lambda>i. ii_Status i = ISuccess) is))"

lemma successes_simps [simp]:
  "successes [] = 0" "successes (is @ is') = successes is + successes is'"
  "successes (i # is) = (if ii_Status i = ISuccess then 1 else 0) + successes is"
  by (simp_all add: successes_def)

definition run_ok :: "string list \<Rightarrow> index_run \<Rightarrow> bool" where
  "run_ok expected run \<longleftrightarrow> map ii_CustomID (ir_items run) = rev (ir_seen run) \<and> distinct (ir_seen run)
     \<and> set (ir_seen run) \<subseteq> set expected \<and> ir_success run = successes (ir_items run)
     \<and> ir_success run + ir_fail run = int (length (ir_items run))"

definition makes_item :: "(ParsedBatchImageResult \<Rightarrow> BatchImageItem) \<Rightarrow> bool" where
  "makes_item item \<longleftrightarrow> (\<forall>p. ii_CustomID (item p) = pr_CustomID p \<and> (ii_Status (item p) = ISuccess \<longleftrightarrow> pr_Succeeded p))"

lemma index_result_ok:
  assumes "index_result expected item p run = Inr run'" and "run_ok expected run" and "expected \<noteq> []" and "makes_item item"
  shows "run_ok expected run'"
  using assms by (auto simp: index_result_def run_ok_def makes_item_def split: if_splits)

lemma index_lines_ok:
  assumes "index_lines decode expected item n lines run = Inr run'" and "run_ok expected run" and "expected \<noteq> []" and "makes_item item"
  shows "run_ok expected run'"
  using assms(1,2)
proof (induction lines arbitrary: n run)
  case (Cons line lines)
  show ?case
  proof (cases "trim_space line = []")
    case True
    with Cons show ?thesis by simp
  next
    case False
    with Cons.prems(1) obtain p run1 where p: "index_result expected item p run = Inr run1"
      "index_lines decode expected item (n + 1) lines run1 = Inr run'"
      by (auto split: sum.splits)
    from index_result_ok [OF p(1) Cons.prems(2) assms(3,4)] Cons.IH [OF p(2)] show ?thesis by blast
  qed
qed simp

lemma no_index_ok: "run_ok expected no_index"
  by (simp add: run_ok_def no_index_def)

lemma with_missing_covers:
  assumes "run_ok expected run" and "\<And>c. ii_CustomID (item c) = c \<and> ii_Status (item c) = IFailed"
  shows "distinct (map ii_CustomID (ir_items (with_missing item expected run)))"
    and "set (map ii_CustomID (ir_items (with_missing item expected run))) = set expected"
    and "ir_success (with_missing item expected run) = successes (ir_items (with_missing item expected run))"
    and "ir_success (with_missing item expected run) + ir_fail (with_missing item expected run)
      = int (length (ir_items (with_missing item expected run)))"
proof -
  let ?m = "missing_ids expected (ir_seen run)"
  have m: "distinct ?m" "set ?m = set expected - set (ir_seen run)" by (auto simp: missing_ids_def)
  have ids: "map ii_CustomID (ir_items (with_missing item expected run)) = rev (ir_seen run) @ ?m"
    using assms by (simp add: with_missing_def Let_def run_ok_def o_def)
  show "distinct (map ii_CustomID (ir_items (with_missing item expected run)))"
    using assms(1) m unfolding ids by (auto simp: run_ok_def)
  show "set (map ii_CustomID (ir_items (with_missing item expected run))) = set expected"
    using assms(1) m(2) unfolding ids by (auto simp: run_ok_def)
  have "successes (map item ?m) = 0" using assms(2) by (simp add: successes_def)
  then show "ir_success (with_missing item expected run) = successes (ir_items (with_missing item expected run))"
    "ir_success (with_missing item expected run) + ir_fail (with_missing item expected run)
      = int (length (ir_items (with_missing item expected run)))"
    using assms(1) by (simp_all add: with_missing_def Let_def run_ok_def)
qed

text \<open>Reading the pages changes nothing but the fault script, and gives all identifiers.\<close>

definition same_tables :: "batch_store \<Rightarrow> batch_store \<Rightarrow> bool" where
  "same_tables s s' \<longleftrightarrow> bi_jobs s' = bi_jobs s \<and> bi_items s' = bi_items s \<and> bi_bill s' = bi_bill s"

lemma same_tables_trans: "same_tables s t \<Longrightarrow> same_tables t u \<Longrightarrow> same_tables s u"
  by (simp add: same_tables_def)

lemma job_call_tables:
  assumes "\<And>t. same_tables t (snd (p t))"
  shows "same_tables s (snd (job_call p s))"
proof -
  have "same_tables t (snd (undone p t))" for t
    using assms [of t] by (auto simp: undone_def same_tables_def split: prod.split sum.split)
  then show ?thesis by (simp add: job_call_def same_tables_def split: list.split fault.split)
qed

lemma expected_ids_all:
  "expected_ids b off s = (Inr ids, s') \<Longrightarrow> ids = map ii_CustomID (drop off (items_of b s)) \<and> same_tables s s'"
proof (induction b off s arbitrary: ids s' rule: expected_ids.induct)
  case (1 b off s)
  obtain r t where r: "ListBatchImageItems b None (int expected_page) (int off) s = (r, t)" by fastforce
  then have t: "same_tables s t"
    using job_call_tables [of "inspect _" s] by (metis (no_types, lifting) ListBatchImageItems_def snd_conv run_inspect same_tables_def)
  from "1.prems" r obtain page where page: "r = Inr page" by (cases r) (simp_all add: expected_ids.simps [of b off s])
  from ListBatchImageItems_items [OF r [unfolded page]] have
    p: "items_of b t = items_of b s" "page = take expected_page (drop off (items_of b s))" by auto
  show ?case
  proof (cases "length page < expected_page")
    case True
    then have "page = drop off (items_of b s)" using p(2) by auto
    then show ?thesis using "1.prems" r page True t by (simp add: expected_ids.simps [of b off s])
  next
    case False
    with "1.prems" r page obtain ids' where ids': "expected_ids b (off + length page) t = (Inr ids', s')"
      "ids = map ii_CustomID page @ ids'"
      by (auto simp: expected_ids.simps [of b off s] split: prod.splits sum.splits)
    from "1.IH" [OF r [symmetric] page False ids'(1)] have
      i: "ids' = map ii_CustomID (drop (off + length page) (items_of b s))" "same_tables t s'" using p(1) by auto
    have "length page = expected_page" using p(2) False by simp
    then have "map ii_CustomID page @ ids' = map ii_CustomID (drop off (items_of b s))"
      using p(2) i(1) by (metis append_take_drop_id drop_drop map_append add.commute)
    then show ?thesis using ids'(2) t i(2) same_tables_trans by blast
  qed
qed

lemma job_call_Inr: "job_call p s = (Inr a, s') \<Longrightarrow> \<exists>fs. p (s\<lparr>bi_faults := fs\<rparr>) = (Inr a, s')"
proof (cases "bi_faults s")
  case Nil
  then have eq: "s\<lparr>bi_faults := []\<rparr> = s" by simp
  assume "job_call p s = (Inr a, s')"
  with Nil have "p s = (Inr a, s')" by (auto simp: job_call_def undone_def split: prod.splits sum.splits)
  with eq show ?thesis by metis
next
  case (Cons f fs)
  moreover assume "job_call p s = (Inr a, s')"
  ultimately have "p (s\<lparr>bi_faults := fs\<rparr>) = (Inr a, s')"
    by (auto simp: job_call_def undone_def split: fault.splits prod.splits sum.splits)
  then show ?thesis by blast
qed

lemma create_items_Inr:
  "create_items is s = (Inr (), s') \<Longrightarrow> bi_items s' = bi_items s @ is \<and> bi_jobs s' = bi_jobs s"
proof (induction "is" arbitrary: s)
  case (Cons i "is")
  then obtain t where t: "create_item i s = (Inr (), t)" "create_items is t = (Inr (), s')"
    by (auto simp: run split: prod.splits sum.splits)
  then have "bi_items t = bi_items s @ [i]" "bi_jobs t = bi_jobs s" by (auto simp: create_item_def split: if_splits)
  with Cons.IH [OF t(2)] show ?case by simp
qed (simp add: run)

lemma find_job_map:
  assumes "find_job b s = Some j" and "\<And>x. bj_BatchID (f x) = bj_BatchID x"
  shows "List.find (\<lambda>j. bj_BatchID j = b) (map (\<lambda>j. if bj_BatchID j = b then f j else j) (bi_jobs s)) = Some (f j)"
proof -
  have "List.find (\<lambda>j. bj_BatchID j = b) js = Some j \<Longrightarrow>
      List.find (\<lambda>j. bj_BatchID j = b) (map (\<lambda>j. if bj_BatchID j = b then f j else j) js) = Some (f j)" for js
    using assms(2) by (induction js) (auto split: if_splits)
  with assms(1) show ?thesis by (simp add: find_job_def)
qed

lemma ReplaceBatchImageItemsForJob_Inr:
  assumes "ReplaceBatchImageItemsForJob b is n m s = (Inr (), s')"
  shows "items_of b s' = map (with_preview b (items_of b s)) is" and "b' \<noteq> b \<Longrightarrow> items_of b' s' = items_of b' s"
    and "\<exists>j j'. find_job b s = Some j \<and> bj_Status j = JIndexing \<and> find_job b s' = Some j'
      \<and> bj_Status j' = JIndexing \<and> bj_SuccessCount j' = n \<and> bj_FailCount j' = m \<and> terms j' = terms j"
proof -
  from job_call_Inr [OF assms [unfolded ReplaceBatchImageItemsForJob_def]] obtain fs where
    "andthen (the_job b) (\<lambda>j.
     if bj_Status j \<noteq> JIndexing then throw IndexStateConflict
     else andthen (inspect (items_of b)) (\<lambda>old.
       andthen (update (\<lambda>s. s\<lparr>bi_items := filter (\<lambda>i. ii_JobID i \<noteq> b) (bi_items s)\<rparr>)) (\<lambda>_.
       andthen (create_items (map (with_preview b old) is)) (\<lambda>_.
       andthen (inspect bi_clock) (\<lambda>now.
         set_job b (\<lambda>j. j\<lparr>bj_SuccessCount := n, bj_FailCount := m, bj_UpdatedAt := now\<rparr>))))))
      (s\<lparr>bi_faults := fs\<rparr>) = (Inr (), s')" by blast
  then obtain j t where j: "find_job b s = Some j" "bj_Status j = JIndexing"
    and t: "create_items (map (with_preview b (items_of b s)) is)
        (s\<lparr>bi_faults := fs, bi_items := filter (\<lambda>i. ii_JobID i \<noteq> b) (bi_items s)\<rparr>) = (Inr (), t)"
    and s': "set_job b (\<lambda>j. j\<lparr>bj_SuccessCount := n, bj_FailCount := m, bj_UpdatedAt := bi_clock t\<rparr>) t = (Inr (), s')"
    by (auto simp: run the_job_def items_of_def find_job_def split: option.splits if_splits prod.splits sum.splits)
  from create_items_Inr [OF t] have it: "bi_items t = filter (\<lambda>i. ii_JobID i \<noteq> b) (bi_items s) @ map (with_preview b (items_of b s)) is"
    and jt: "bi_jobs t = bi_jobs s" by simp_all
  have st: "bi_items s' = bi_items t" "bi_jobs s' = map (\<lambda>x. if bj_BatchID x = b
      then x\<lparr>bj_SuccessCount := n, bj_FailCount := m, bj_UpdatedAt := bi_clock t\<rparr> else x) (bi_jobs s)"
    using s' jt by (auto simp: set_job_def run update_job_def update_jobs_def)
  have w: "ii_JobID (with_preview b old i) = b" for old i by (simp add: with_preview_def)
  show "items_of b s' = map (with_preview b (items_of b s)) is"
    using st(1) it w by (simp add: items_of_def [of b s'] filter_map o_def)
  show "b' \<noteq> b \<Longrightarrow> items_of b' s' = items_of b' s"
    using st(1) it w by (auto simp: items_of_def filter_map o_def conj_commute intro: filter_cong)
  let ?j = "j\<lparr>bj_SuccessCount := n, bj_FailCount := m, bj_UpdatedAt := bi_clock t\<rparr>"
  have "find_job b s' = Some ?j"
    using find_job_map [OF j(1), of "\<lambda>x. x\<lparr>bj_SuccessCount := n, bj_FailCount := m, bj_UpdatedAt := bi_clock t\<rparr>"] st(2)
    by (simp add: find_job_def)
  then show "\<exists>j j'. find_job b s = Some j \<and> bj_Status j = JIndexing \<and> find_job b s' = Some j'
      \<and> bj_Status j' = JIndexing \<and> bj_SuccessCount j' = n \<and> bj_FailCount j' = m \<and> terms j' = terms j"
    using j by (intro exI [of _ j] exI [of _ ?j]) (simp add: terms_def)
qed

text \<open>C21: A successful index run accounts for every item of the job: whatever the provider's output holds,
  unknown lines, lines missing or in any order, the rows afterwards are exactly the submitted identifiers, each
  once; the job's counts are those of the rows and add up to the number of items; other jobs' rows are as
  they were.\<close>

theorem index_accounts_for_every_item:
  assumes "Index decode j opened s = (Inr run, s')" and "b = bj_BatchID j"
    and "distinct (map ii_CustomID (items_of b s))" and "items_of b s \<noteq> []"
  shows "\<exists>j'. find_job b s' = Some j' \<and> distinct (map ii_CustomID (items_of b s'))
    \<and> set (map ii_CustomID (items_of b s')) = set (map ii_CustomID (items_of b s))
    \<and> bj_SuccessCount j' = int (length (filter (\<lambda>i. ii_Status i = ISuccess) (items_of b s')))
    \<and> bj_SuccessCount j' + bj_FailCount j' = int (length (items_of b s))
    \<and> (\<forall>b'. b' \<noteq> b \<longrightarrow> items_of b' s' = items_of b' s)"
proof -
  from assms(1,2) obtain ids s1 where ids: "expected_ids b 0 s = (Inr ids, s1)"
    by (auto simp: Index_def run split: prod.splits sum.splits)
  from expected_ids_all [OF ids] have i: "ids = map ii_CustomID (items_of b s)" "bi_items s1 = bi_items s"
    by (simp_all add: same_tables_def)
  then have ne: "ids \<noteq> []" and same: "items_of c s1 = items_of c s" for c using assms(4) by (simp_all add: items_of_def)
  let ?item = "indexed_item b (bi_clock s1) (source_object j)" and ?miss = "missing_item b (bi_clock s1) (source_object j)"
  from assms(1,2) ids obtain lines run0 where l: "index_lines decode ids ?item 0 lines no_index = Inr run0"
    "finish_index b ids ?miss run0 s1 = (Inr run, s')"
    by (auto simp: Index_def run split: option.splits sum.splits)
  have "makes_item ?item" by (simp add: makes_item_def indexed_item_def)
  from index_lines_ok [OF l(1) no_index_ok ne this] have ok: "run_ok ids run0" .
  have "ii_CustomID (?miss c) = c \<and> ii_Status (?miss c) = IFailed" for c by (simp add: missing_item_def)
  note f = with_missing_covers [OF ok, of ?miss, OF this]
  from l(2) obtain s2 where s2: "ReplaceBatchImageItemsForJob b (ir_items (with_missing ?miss ids run0))
      (ir_success (with_missing ?miss ids run0)) (ir_fail (with_missing ?miss ids run0)) s2 = (Inr (), s')"
    and t2: "same_tables s1 s2"
  proof -
    let ?final = "with_missing ?miss ids run0"
    obtain r s3 where s3: "(if 0 < ir_unknown run0 \<or> missing_ids ids (ir_seen run0) \<noteq> []
          then andthen (attempt (AppendBatchImageEvent b ''index_reconciled'')) (\<lambda>_. ret ()) else ret ()) s1 = (r, s3)"
      by fastforce
    have "same_tables s1 (snd (AppendBatchImageEvent b ''index_reconciled'' s1))"
      unfolding AppendBatchImageEvent_def
      by (rule job_call_tables) (simp add: append_event_def same_tables_def split: option.split)
    then have "same_tables s1 s3" and "r = Inr ()"
      using s3 by (auto simp: run same_tables_def split: if_splits prod.splits)
    with l(2) s3 show thesis
      by (intro that [of s3]) (auto simp: finish_index_def Let_def run split: if_splits prod.splits sum.splits)
  qed
  have "items_of c s2 = items_of c s" for c using t2 same by (simp add: items_of_def same_tables_def)
  with ReplaceBatchImageItemsForJob_Inr [OF s2] obtain j' where
    it: "items_of b s' = map (with_preview b (items_of b s)) (ir_items (with_missing ?miss ids run0))"
    "\<forall>b'. b' \<noteq> b \<longrightarrow> items_of b' s' = items_of b' s" and j': "find_job b s' = Some j'"
    "bj_SuccessCount j' = ir_success (with_missing ?miss ids run0)" "bj_FailCount j' = ir_fail (with_missing ?miss ids run0)" by auto
  have p: "ii_CustomID (with_preview b old i) = ii_CustomID i" "ii_Status (with_preview b old i) = ii_Status i" for old i
    by (simp_all add: with_preview_def)
  then have ids': "map ii_CustomID (items_of b s') = map ii_CustomID (ir_items (with_missing ?miss ids run0))"
    "int (length (filter (\<lambda>i. ii_Status i = ISuccess) (items_of b s'))) = successes (ir_items (with_missing ?miss ids run0))"
    using it(1) by (simp_all add: o_def successes_def filter_map)
  have "length (ir_items (with_missing ?miss ids run0)) = card (set ids)"
    using distinct_card [OF f(1)] f(2) by simp
  also have "\<dots> = length (items_of b s)" using distinct_card [OF assms(3)] i(1) by simp
  finally have "bj_SuccessCount j' + bj_FailCount j' = int (length (items_of b s))" using j'(2,3) f(4) by simp
  then show ?thesis using j' it(2) f(1-3) ids' i(1) by simp
qed

end
