(* ===== verification/BatchImageServices.thy ===== *)
theory BatchImageServices
  imports BatchImageSettlement BatchImageResults
begin

text \<open>
  The operations that move a job: the processor and the pipeline of \<open>service/batch_image_processor.go\<close> and
  \<open>service/batch_image_settlement.go\<close>, submission, cancellation and what the user hides in
  \<open>service/batch_image_public.go\<close>, and \<open>service/batch_image_cleanup.go\<close>. A provider is its answers: they
  are arguments. While a submission waits for its provider the store goes on by itself: \<open>meanwhile\<close>
  is what the heartbeat and all others do to it.
\<close>

section \<open>The processor\<close>

datatype provider_state = PQueued | PRunning | PSucceeded | PFailed | PCancelled | PExpired | POther

record BatchProviderStatus =
  ps_State :: provider_state
  ps_OutputRef :: string
  ps_ErrorCode :: string
  ps_ErrorMessage :: string
  ps_Requeue :: go_duration

text \<open>What the processor learns from outside: whether the provider is registered, the account resolved, with the
  error if not, and supported; the status, \<^const>\<open>None\<close> for an error; the opened output.\<close>

record provider_answers =
  pa_registered :: bool
  pa_account :: "batch_error option"
  pa_supports :: bool
  pa_status :: "BatchProviderStatus option option"
  pa_output :: "(string list \<times> batch_error option) option"
  pa_cancel :: bool
  pa_cleanup :: "batch_error option"

definition a_millisecond :: go_duration where "a_millisecond = 10 ^ 6"

definition requeueDelay :: "go_duration \<Rightarrow> go_duration \<Rightarrow> go_duration" where
  "requeueDelay dflt suggested = (if 0 < suggested then suggested else if 0 < dflt then dflt else 30 * a_second)"

definition releaseTerminalHold :: "batch_config \<Rightarrow> BatchImageJob \<Rightarrow> job_status \<Rightarrow> unit batch" where
  "releaseTerminalHold cfg j st =
     (if st \<noteq> JFailed \<and> st \<noteq> JCancelled then ret ()
      else andthen (releaseBatchImageBalanceHold cfg j (batchImageDerefString (bj_RequestHash j)))
        (\<lambda>_. invalidateAuthCache (bj_UserID j)))"

definition persistProviderOutputRef :: "BatchImageJob \<Rightarrow> string \<Rightarrow> BatchImageJob batch" where
  "persistProviderOutputRef j ref0 =
     (let ref = trim_space ref0 in
      if ref = [] \<or> batchImageDerefString (bj_ProviderOutputRef j) = ref then ret j
      else andthen (UpdateBatchImageJobProviderOutputRef (bj_BatchID j) ref) (\<lambda>_. ret (j\<lparr>bj_ProviderOutputRef := Some ref\<rparr>)))"

definition fail_job :: "batch_config \<Rightarrow> BatchImageJob \<Rightarrow> job_status \<Rightarrow> string option \<Rightarrow> string option \<Rightarrow> string \<Rightarrow> process_result batch" where
  "fail_job cfg j st code' msg event = andthen (TransitionBatchImageJobStatus (bj_BatchID j) st code' msg event)
     (\<lambda>_. andthen (releaseTerminalHold cfg j st) (\<lambda>_. ret Terminal))"

definition index_error_code :: "batch_error \<Rightarrow> string" where
  "index_error_code e = (if e = DuplicateCustomID then ''DUPLICATE_CUSTOM_ID_IN_OUTPUT'' else ''INDEX_PARSE_FAILED'')"

definition indexAndSettle :: "batch_config \<Rightarrow> decoder \<Rightarrow> provider_answers \<Rightarrow> BatchImageJob \<Rightarrow> process_result batch" where
  "indexAndSettle cfg decode pa j = andthen (attempt (Index decode j (pa_output pa))) (\<lambda>r. case r of
     Inl e \<Rightarrow>
       if e = IndexOutputMissing then throw e
       else if e = IndexStateConflict then ret (Requeue a_millisecond)
       else fail_job cfg j JFailed (Some (index_error_code e)) (batchImageOptionalStringPtr (truncated (bt_text cfg e))) ''indexing_failed''
   | Inr _ \<Rightarrow> andthen (TransitionBatchImageJobStatus (bj_BatchID j) JSettling None None ''indexing_completed'')
       (\<lambda>_. ret (Requeue a_millisecond)))"

definition provider_failure_code :: "BatchProviderStatus \<Rightarrow> string" where
  "provider_failure_code p = (if trim_space (ps_ErrorCode p) \<noteq> [] then trim_space (ps_ErrorCode p)
     else if ps_State p = PExpired then ''PROVIDER_BATCH_EXPIRED'' else ''PROVIDER_BATCH_FAILED'')"

definition follow_status :: "batch_config \<Rightarrow> go_duration \<Rightarrow> decoder \<Rightarrow> provider_answers \<Rightarrow> BatchProviderStatus \<Rightarrow> BatchImageJob \<Rightarrow>
    process_result batch" where
  "follow_status cfg dflt decode pa p j =
     (if ps_State p = PRunning then
        andthen (if bj_Status j \<noteq> JRunning
          then TransitionBatchImageJobStatus (bj_BatchID j) JRunning None None ''provider_status_checked'' else ret ())
          (\<lambda>_. ret (Requeue (requeueDelay dflt (ps_Requeue p))))
      else if ps_State p = PSucceeded then
        andthen (if bj_Status j \<noteq> JIndexing
          then TransitionBatchImageJobStatus (bj_BatchID j) JIndexing None None ''indexing_started'' else ret ())
          (\<lambda>_. indexAndSettle cfg decode pa j)
      else if ps_State p = PFailed \<or> ps_State p = PExpired then
        fail_job cfg j JFailed (Some (provider_failure_code p)) (batchImageOptionalStringPtr (truncated (ps_ErrorMessage p))) ''job_failed''
      else if ps_State p = PCancelled then fail_job cfg j JCancelled None None ''job_failed''
      else ret (Requeue (requeueDelay dflt (ps_Requeue p))))"

definition processor_Process :: "batch_config \<Rightarrow> go_duration \<Rightarrow> decoder \<Rightarrow> provider_answers \<Rightarrow> string \<Rightarrow> process_result batch" where
  "processor_Process cfg dflt decode pa b = andthen (GetBatchImageJobByBatchID b) (\<lambda>j.
     if isBatchImageProcessorDoneStatus (bj_Status j)
     then andthen (releaseTerminalHold cfg j (bj_Status j)) (\<lambda>_. ret Terminal)
     else if \<not> pa_registered pa then throw UnsupportedProvider
     else case bj_AccountID j of
       None \<Rightarrow> throw MissingAccountID
     | Some a \<Rightarrow>
         if a \<le> 0 then throw MissingAccountID
         else case pa_account pa of
           Some e \<Rightarrow> throw e
         | None \<Rightarrow>
             if \<not> pa_supports pa then throw AccountError
             else if batchImageDerefString (bj_ProviderJobName j) = [] then throw MissingProviderJobName
             else if bj_Status j = JIndexing then indexAndSettle cfg decode pa j
             else case pa_status pa of
               None \<Rightarrow> ret (Requeue (60 * a_second))
             | Some None \<Rightarrow> ret (Requeue (requeueDelay dflt 0))
             | Some (Some p) \<Rightarrow> andthen (persistProviderOutputRef j (ps_OutputRef p)) (follow_status cfg dflt decode pa p))"

definition pipeline_Process :: "batch_config \<Rightarrow> go_duration \<Rightarrow> go_duration \<Rightarrow> decoder \<Rightarrow> provider_answers \<Rightarrow> string \<Rightarrow> process_result batch" where
  "pipeline_Process cfg retry dflt decode pa b = andthen (GetBatchImageJobByBatchID b) (\<lambda>j.
     if bj_Status j = JSettling then
       andthen (attempt (Settle cfg b)) (\<lambda>r. case r of
         Inr _ \<Rightarrow> ret Terminal
       | Inl e \<Rightarrow>
           if e = SettlementBillingFailed then
             andthen (attempt (GetBatchImageJobByBatchID b)) (\<lambda>u. case u of
               Inr j' \<Rightarrow> if IsTerminalBatchImageJobStatus (bj_Status j') then ret Terminal
                 else ret (Requeue (default_duration retry (60 * a_second)))
             | Inl _ \<Rightarrow> ret (Requeue (default_duration retry (60 * a_second))))
           else throw e)
     else processor_Process cfg dflt decode pa b)"

section \<open>Submission\<close>

text \<open>What a request has become before a job is made: the checks of the request, the choice of provider and
  account and the price snapshot are in the parameters of the job.\<close>

definition releaseFailedSubmitHold :: "batch_config \<Rightarrow> batchImageQueueOptions \<Rightarrow> BatchImageJob \<Rightarrow> string \<Rightarrow> unit batch" where
  "releaseFailedSubmitHold cfg q j h = andthen (attempt (releaseBatchImageBalanceHold cfg j h)) (\<lambda>r. case r of
     Inl e \<Rightarrow> andthen (attempt (RecordBatchImageJobSubmitFailure (bj_BatchID j) ''BILLING_RELEASE_FAILED'' (bt_text cfg e) True)) (\<lambda>_.
       andthen (batch_Enqueue q (bj_BatchID j)) (\<lambda>queued. case queued of
         Inl AlreadyQueued \<Rightarrow> throw BillingHoldFailed
       | Inl _ \<Rightarrow> andthen (attempt (AppendBatchImageEvent (bj_BatchID j) ''billing_retry_enqueue_failed'')) (\<lambda>_. throw BillingHoldFailed)
       | Inr _ \<Rightarrow> throw BillingHoldFailed))
   | Inr _ \<Rightarrow> invalidateAuthCache (bj_UserID j))"

definition hidePreUpstreamSubmitFailure :: "int \<Rightarrow> int \<Rightarrow> BatchImageJob \<Rightarrow> unit batch" where
  "hidePreUpstreamSubmitFailure u k j = (if bj_ProviderJobName j \<noteq> None then ret ()
     else andthen (inspect bi_clock) (\<lambda>now. andthen (attempt (MarkBatchImageJobUserDeleted u k (bj_BatchID j) now)) (\<lambda>_. ret ())))"

definition record_submit_failure :: "int \<Rightarrow> int \<Rightarrow> BatchImageJob \<Rightarrow> string \<Rightarrow> string \<Rightarrow> batch_error \<Rightarrow> 'a batch" where
  "record_submit_failure u k j code' msg e =
     andthen (attempt (RecordBatchImageJobSubmitFailure (bj_BatchID j) code' msg True)) (\<lambda>_.
     andthen (hidePreUpstreamSubmitFailure u k j) (\<lambda>_. throw e))"

text \<open>The outcome of \<open>provider.Submit\<close>: the error with the code that is recorded, or the job, if one came.\<close>

type_synonym submit_answer = "string + BatchProviderJob option"

definition pending_item :: "string \<Rightarrow> string \<Rightarrow> string \<times> string \<Rightarrow> BatchImageItem" where
  "pending_item b h i = \<lparr>ii_JobID = b, ii_CustomID = fst i, ii_Status = IPending, ii_RequestHash = Some h,
     ii_PromptPreview = Some (snd i), ii_ProviderSourceObject = None, ii_SourceLineNumber = None, ii_MimeType = None,
     ii_FileExtension = None, ii_ImageCount = 0, ii_ErrorCode = None, ii_ErrorMessage = None, ii_IndexedAt = None\<rparr>"

definition queue_submitted :: "batch_config \<Rightarrow> batchImageQueueOptions \<Rightarrow> string \<Rightarrow> unit batch" where
  "queue_submitted cfg q b = andthen (batch_Enqueue q b) (\<lambda>r. case r of
     Inr _ \<Rightarrow> ret ()
   | Inl AlreadyQueued \<Rightarrow> ret ()
   | Inl _ \<Rightarrow> andthen (attempt (RecordBatchImageJobSubmitFailure b ''QUEUE_FAILED'' (bt_text cfg QueueFailed) False))
       (\<lambda>_. throw QueueFailed))"

definition submitted_to_provider :: "batch_config \<Rightarrow> batchImageQueueOptions \<Rightarrow> int \<Rightarrow> int \<Rightarrow> BatchImageJob \<Rightarrow> string \<Rightarrow>
    submit_answer \<Rightarrow> BatchImageJob batch" where
  "submitted_to_provider cfg q u k j h answer = (case answer of
     Inl code' \<Rightarrow> andthen (releaseFailedSubmitHold cfg q j h)
       (\<lambda>_. record_submit_failure u k j code' (bt_text cfg (ProviderSubmitFailed code')) (ProviderSubmitFailed code'))
   | Inr None \<Rightarrow> andthen (releaseFailedSubmitHold cfg q j h)
       (\<lambda>_. record_submit_failure u k j ''PROVIDER_SUBMIT_FAILED'' ''provider job name missing'' (ProviderSubmitFailed []))
   | Inr (Some p) \<Rightarrow>
       if trim_space (pj_ProviderJobName p) = []
       then andthen (releaseFailedSubmitHold cfg q j h)
         (\<lambda>_. record_submit_failure u k j ''PROVIDER_SUBMIT_FAILED'' ''provider job name missing'' (ProviderSubmitFailed []))
       else andthen (attempt (UpdateBatchImageJobProviderSubmit (bj_BatchID j) (bj_Provider j) p)) (\<lambda>r. case r of
           Inl e \<Rightarrow> andthen (attempt (AppendBatchImageEvent (bj_BatchID j) ''provider_job_aborted_after_submit'')) (\<lambda>_. throw e)
         | Inr _ \<Rightarrow> andthen (queue_submitted cfg q (bj_BatchID j)) (\<lambda>_. GetBatchImageJobByBatchID (bj_BatchID j))))"

text \<open>The ticks of the heartbeat while the provider works, at their times.\<close>

definition runSubmitHeartbeat :: "string \<Rightarrow> go_time list \<Rightarrow> batch_store \<Rightarrow> batch_store" where
  "runSubmitHeartbeat b ticks = fold (\<lambda>t s. snd (TouchBatchImageJobSubmitting b (s\<lparr>bi_clock := t\<rparr>))) ticks"

definition submit_job :: "batch_config \<Rightarrow> batchImageQueueOptions \<Rightarrow> int \<Rightarrow> int \<Rightarrow> (string \<times> string) list \<Rightarrow> string \<Rightarrow>
    (batch_store \<Rightarrow> batch_store) \<Rightarrow> submit_answer \<Rightarrow> BatchImageJob \<Rightarrow> BatchImageJob batch" where
  "submit_job cfg q u k items h meanwhile answer j =
     andthen (attempt (reserveBatchImageBalanceHold cfg j h)) (\<lambda>held. case held of
       Inl e \<Rightarrow> record_submit_failure u k j (if e = InsufficientBalance then ''INSUFFICIENT_BALANCE'' else ''BILLING_HOLD_FAILED'')
         (bt_text cfg e) e
     | Inr _ \<Rightarrow> andthen (invalidateAuthCache u) (\<lambda>_.
         andthen (attempt (BulkCreateBatchImageItems (map (pending_item (bj_BatchID j) h) items))) (\<lambda>made. case made of
           Inl e \<Rightarrow> andthen (releaseFailedSubmitHold cfg q j h)
             (\<lambda>_. record_submit_failure u k j ''ITEM_CREATE_FAILED'' (bt_text cfg e) QueueFailed)
         | Inr _ \<Rightarrow>
             andthen (attempt (TransitionBatchImageJobStatus (bj_BatchID j) JUploading None None ''upload_started'')) (\<lambda>up. case up of
               Inl e \<Rightarrow> andthen (releaseFailedSubmitHold cfg q j h) (\<lambda>_.
                 if e = InvalidTransition then throw e
                 else record_submit_failure u k j ''UPLOAD_TRANSITION_FAILED'' (bt_text cfg e) e)
             | Inr _ \<Rightarrow> andthen (update meanwhile) (\<lambda>_. submitted_to_provider cfg q u k j h answer)))))"

definition same_request :: "batch_config \<Rightarrow> batchImageQueueOptions \<Rightarrow> string \<Rightarrow> BatchImageJob \<Rightarrow> BatchImageJob batch" where
  "same_request cfg q h j =
     (if batchImageDerefString (bj_RequestHash j) \<noteq> h then throw IdempotencyConflict
      else andthen (if bj_Status j = JSubmitted then queue_submitted cfg q (bj_BatchID j) else ret ()) (\<lambda>_. ret j))"

text \<open>The parent is replaced by its own parent, when it has one.\<close>

definition parent_of :: "int \<Rightarrow> int \<Rightarrow> string option \<Rightarrow> string option batch" where
  "parent_of u k p = (case p of None \<Rightarrow> ret None
   | Some b \<Rightarrow> andthen (GetBatchImageJobByBatchIDForOwner u k b) (\<lambda>j.
       ret (if batchImageDerefString (bj_ParentBatchID j) \<noteq> [] then Some (batchImageDerefString (bj_ParentBatchID j)) else Some b)))"

definition new_submission :: "batch_config \<Rightarrow> batchImageQueueOptions \<Rightarrow> int \<Rightarrow> int \<Rightarrow> (string \<times> string) list \<Rightarrow> string \<Rightarrow>
    (batch_store \<Rightarrow> batch_store) \<Rightarrow> submit_answer \<Rightarrow> BatchImageJob \<Rightarrow> BatchImageJob batch" where
  "new_submission cfg q u k items h meanwhile answer params =
     andthen (parent_of u k (bj_ParentBatchID params)) (\<lambda>parent.
     andthen (CreateBatchImageJob (bt_bill cfg) (params\<lparr>bj_UserID := u, bj_APIKeyID := Some k, bj_ParentBatchID := parent,
         bj_Status := JCreated, bj_ProviderJobName := None, bj_ItemCount := int (length items),
         bj_HoldID := Some (BatchImageHoldRequestID (bj_BatchID params)), bj_PricingSnapshotVersion := 1, bj_RetryCount := 0,
         bj_ActualCost := None, bj_ManifestHash := None, bj_RequestHash := Some h\<rparr>))
       (submit_job cfg q u k items h meanwhile answer))"

definition Submit :: "batch_config \<Rightarrow> batchImageQueueOptions \<Rightarrow> int \<Rightarrow> int \<Rightarrow> (string \<times> string) list \<Rightarrow> string \<Rightarrow> string \<Rightarrow>
    (batch_store \<Rightarrow> batch_store) \<Rightarrow> submit_answer \<Rightarrow> BatchImageJob \<Rightarrow> BatchImageJob batch" where
  "Submit cfg q u k items h key0 meanwhile answer params =
     (let key = trim_space key0; p = params\<lparr>bj_IdempotencyKey := batchImageOptionalStringPtr key\<rparr> in
      if key = [] then new_submission cfg q u k items h meanwhile answer p
      else andthen (attempt (GetBatchImageJobByIdempotencyKey u k key)) (\<lambda>r. case r of
          Inr j \<Rightarrow> same_request cfg q h j
        | Inl e \<Rightarrow> if e = JobNotFound then new_submission cfg q u k items h meanwhile answer p else throw e))"

section \<open>Cancellation, downloads and hidden records\<close>

definition cancel_released :: "batch_config \<Rightarrow> batchImageQueueOptions \<Rightarrow> int \<Rightarrow> BatchImageJob \<Rightarrow> unit batch" where
  "cancel_released cfg q u j =
     andthen (attempt (releaseBatchImageBalanceHold cfg j (batchImageDerefString (bj_RequestHash j)))) (\<lambda>r. case r of
       Inl e \<Rightarrow> andthen (batch_Enqueue q (bj_BatchID j)) (\<lambda>queued. case queued of
           Inl AlreadyQueued \<Rightarrow> throw CancelFailed
         | Inl _ \<Rightarrow> andthen (attempt (AppendBatchImageEvent (bj_BatchID j) ''billing_retry_enqueue_failed'')) (\<lambda>_. throw CancelFailed)
         | Inr _ \<Rightarrow> throw CancelFailed)
     | Inr _ \<Rightarrow> invalidateAuthCache u)"

definition Cancel :: "batch_config \<Rightarrow> batchImageQueueOptions \<Rightarrow> provider_answers \<Rightarrow> int \<Rightarrow> int \<Rightarrow> string \<Rightarrow> BatchImageJob batch" where
  "Cancel cfg q pa u k b = andthen (GetBatchImageJobByBatchIDForOwner u k b) (\<lambda>j.
     if isBatchImageProcessorDoneStatus (bj_Status j) then
       andthen (if bj_Status j = JFailed \<or> bj_Status j = JCancelled then cancel_released cfg q u j else ret ()) (\<lambda>_. ret j)
     else if batchImageDerefString (bj_ProviderJobName j) \<noteq> [] then
       (if \<not> pa_registered pa then throw UnsupportedProvider
        else if bj_AccountID j = None \<or> pa_account pa \<noteq> None \<or> \<not> pa_cancel pa then throw CancelFailed
        else andthen (attempt (AppendBatchImageEvent b ''job_cancel_requested'')) (\<lambda>_.
          andthen (batch_Enqueue q b) (\<lambda>queued. case queued of
            Inr _ \<Rightarrow> GetBatchImageJobByBatchIDForOwner u k b
          | Inl AlreadyQueued \<Rightarrow> GetBatchImageJobByBatchIDForOwner u k b
          | Inl _ \<Rightarrow> throw CancelFailed)))
     else andthen (TransitionBatchImageJobStatus b JCancelled None None ''job_cancelled'') (\<lambda>_.
       andthen (cancel_released cfg q u j) (\<lambda>_. GetBatchImageJobByBatchIDForOwner u k b)))"

definition MarkDownloaded :: "int \<Rightarrow> int \<Rightarrow> string \<Rightarrow> unit batch" where
  "MarkDownloaded u k b = andthen (GetBatchImageJobByBatchIDForOwner u k b) (\<lambda>_.
     andthen (inspect bi_clock) (\<lambda>now. MarkBatchImageDownloaded b now))"

definition DeleteRecord :: "int \<Rightarrow> int \<Rightarrow> string \<Rightarrow> unit batch" where
  "DeleteRecord u k b = andthen (GetBatchImageJobByBatchIDForOwner u k b) (\<lambda>j.
     if \<not> isBatchImageProcessorDoneStatus (bj_Status j) then throw RecordDeleteNotReady
     else andthen (inspect bi_clock) (\<lambda>now. MarkBatchImageJobUserDeleted u k b now))"

section \<open>Clean-up\<close>

datatype CleanupTarget = CleanupTargetInput | CleanupTargetOutput | CleanupTargetAll

definition appendCleanupEvent :: "string \<Rightarrow> string \<Rightarrow> unit batch" where
  "appendCleanupEvent b ty = andthen (attempt (AppendBatchImageEvent b ty)) (\<lambda>_. ret ())"

text \<open>The answer of the provider to a clean-up; \<^const>\<open>None\<close> also when the files were not found.\<close>

definition callProviderCleanup :: "provider_answers \<Rightarrow> BatchImageJob \<Rightarrow> batch_error option" where
  "callProviderCleanup pa j =
     (if \<not> pa_registered pa then Some UnsupportedProvider
      else case bj_AccountID j of
        None \<Rightarrow> Some MissingAccountID
      | Some a \<Rightarrow> if a \<le> 0 then Some MissingAccountID
          else case pa_account pa of Some e \<Rightarrow> Some e | None \<Rightarrow> pa_cleanup pa)"

definition cleanup_done :: "CleanupTarget \<Rightarrow> BatchImageJob \<Rightarrow> bool" where
  "cleanup_done target j = (case target of
     CleanupTargetInput \<Rightarrow> bj_InputDeletedAt j \<noteq> None
   | CleanupTargetOutput \<Rightarrow> bj_OutputDeletedAt j \<noteq> None \<or> bj_Status j = JOutputDeleted
   | CleanupTargetAll \<Rightarrow> False)"

definition cleanup_too_early :: "CleanupTarget \<Rightarrow> BatchImageJob \<Rightarrow> batch_error option" where
  "cleanup_too_early target j = (case target of
     CleanupTargetInput \<Rightarrow> if IsTerminalBatchImageJobStatus (bj_Status j) then None else Some CleanupFailed
   | CleanupTargetOutput \<Rightarrow> if bj_Status j \<noteq> JCompleted \<and> bj_Status j \<noteq> JFailed \<and> bj_Status j \<noteq> JCancelled
       then Some OutputDeleteNotReady else None
   | CleanupTargetAll \<Rightarrow> Some UnsupportedCleanupTarget)"

definition target_name :: "CleanupTarget \<Rightarrow> string" where
  "target_name target = (case target of CleanupTargetInput \<Rightarrow> ''input'' | CleanupTargetOutput \<Rightarrow> ''output'' | CleanupTargetAll \<Rightarrow> ''all'')"

definition cleanupFailureCode :: "batch_config \<Rightarrow> batch_error \<Rightarrow> string" where
  "cleanupFailureCode cfg e =
     (if e = UnsafeCleanupPath then ''BATCH_IMAGE_CLEANUP_UNSAFE_PATH''
      else if trim_space (bt_reason cfg e) \<noteq> [] then trim_space (bt_reason cfg e)
      else ''BATCH_IMAGE_PROVIDER_CLEANUP_FAILED'')"

definition cleanupJob :: "batch_config \<Rightarrow> provider_answers \<Rightarrow> CleanupTarget \<Rightarrow> BatchImageJob \<Rightarrow> unit batch" where
  "cleanupJob cfg pa target j =
     (if cleanup_done target j then ret ()
      else case cleanup_too_early target j of Some e \<Rightarrow> throw e | None \<Rightarrow>
        andthen (appendCleanupEvent (bj_BatchID j) (target_name target @ ''_cleanup_started'')) (\<lambda>_.
        case callProviderCleanup pa j of
          Some e \<Rightarrow>
            andthen (attempt (RecordBatchImageCleanupFailure (bj_BatchID j) (cleanupFailureCode cfg e) (bt_text cfg e))) (\<lambda>_.
            andthen (appendCleanupEvent (bj_BatchID j) (target_name target @ ''_cleanup_failed'')) (\<lambda>_.
              throw (if e = UnsafeCleanupPath then CleanupUnsafePath else ProviderCleanupFailed)))
        | None \<Rightarrow> andthen (inspect bi_clock) (\<lambda>now. case target of
            CleanupTargetInput \<Rightarrow> MarkBatchImageInputDeleted (bj_BatchID j) now
          | _ \<Rightarrow> MarkBatchImageOutputDeleted (bj_BatchID j) now)))"

definition DeleteOutputsForOwner :: "batch_config \<Rightarrow> provider_answers \<Rightarrow> int \<Rightarrow> int \<Rightarrow> string \<Rightarrow> BatchImageJob batch" where
  "DeleteOutputsForOwner cfg pa u k b = andthen (GetBatchImageJobByBatchIDForOwner u k b) (\<lambda>j.
     if bj_Status j = JOutputDeleted \<or> bj_OutputDeletedAt j \<noteq> None then ret j
     else if bj_Status j \<noteq> JCompleted then throw OutputDeleteNotReady
     else andthen (appendCleanupEvent (bj_BatchID j) ''manual_output_delete_requested'')
       (\<lambda>_. andthen (cleanupJob cfg pa CleanupTargetOutput j) (\<lambda>_. GetBatchImageJobByBatchIDForOwner u k b)))"

definition CleanupInput :: "batch_config \<Rightarrow> provider_answers \<Rightarrow> string \<Rightarrow> unit batch" where
  "CleanupInput cfg pa b = andthen (GetBatchImageJobByBatchID b) (cleanupJob cfg pa CleanupTargetInput)"

definition CleanupOutput :: "batch_config \<Rightarrow> provider_answers \<Rightarrow> string \<Rightarrow> unit batch" where
  "CleanupOutput cfg pa b = andthen (GetBatchImageJobByBatchID b) (cleanupJob cfg pa CleanupTargetOutput)"

definition inputRetentionAfterTerminal :: "batch_config \<Rightarrow> go_duration" where
  "inputRetentionAfterTerminal cfg = (if 0 < bt_input_retention_hours cfg then bt_input_retention_hours cfg else 24) * hour"

definition cleanupBatchSize :: "batch_config \<Rightarrow> int" where
  "cleanupBatchSize cfg = (if 0 < bt_cleanup_batch cfg then bt_cleanup_batch cfg else 100)"

text \<open>How many were cleaned, and how many were not. The provider answers each job as it likes.\<close>

fun cleanup_jobs :: "batch_config \<Rightarrow> (BatchImageJob \<Rightarrow> provider_answers) \<Rightarrow> CleanupTarget \<Rightarrow> BatchImageJob list \<Rightarrow> (nat \<times> nat) batch" where
  "cleanup_jobs cfg answers target [] = ret (0, 0)"
| "cleanup_jobs cfg answers target (j # js) = andthen (attempt (cleanupJob cfg (answers j) target j))
     (\<lambda>r. andthen (cleanup_jobs cfg answers target js) (\<lambda>(n, f). ret (case r of Inl _ \<Rightarrow> (n, f + 1) | Inr _ \<Rightarrow> (n + 1, f))))"

definition cleanup_RunOnce :: "batch_config \<Rightarrow> (BatchImageJob \<Rightarrow> provider_answers) \<Rightarrow> go_time \<Rightarrow> (nat \<times> nat \<times> nat) batch" where
  "cleanup_RunOnce cfg answers now =
     andthen (ListBatchImageJobsDueForInputCleanup (now - inputRetentionAfterTerminal cfg) (cleanupBatchSize cfg)) (\<lambda>inputs.
     andthen (cleanup_jobs cfg answers CleanupTargetInput inputs) (\<lambda>(n, f).
     andthen (ListBatchImageJobsDueForOutputCleanup now (cleanupBatchSize cfg)) (\<lambda>outputs.
     andthen (cleanup_jobs cfg answers CleanupTargetOutput outputs) (\<lambda>(m, g). ret (n, m, f + g)))))"

end
