(* ===== verification/BatchImageRuns.thy ===== *)
theory BatchImageRuns
  imports BatchImageServices
begin

text \<open>
  Runs of the batch-image services: \<open>batch_run\<close> closes the operations of submission, processing,
  settlement, recovery, cancellation and clean-up under composition, in any order and with any faults
  between them. Every operation \<open>grows\<close> the table of jobs, so its rows stay well-formed, their terms are
  never changed and their statuses only move forward.
\<close>

section \<open>Every operation\<close>

lemma money_grows [preserves]:
  "preserves (grows s0) (billed p)" "preserves (grows s0) (batch_Enqueue q b)" "preserves (grows s0) (invalidateAuthCache u)"
  by (auto simp: preserves_def billed_def batch_Enqueue_def invalidateAuthCache_def run split: prod.split)

lemma targets_service [simp]:
  "JUploading \<in> service_targets" "JRunning \<in> service_targets" "JIndexing \<in> service_targets" "JSettling \<in> service_targets"
  "JFailed \<in> service_targets" "JCancelled \<in> service_targets"
  by (simp_all add: service_targets_def)

lemma hold_grows [preserves]:
  "preserves (grows s0) (reserveBatchImageBalanceHold cfg j h)"
  "preserves (grows s0) (captureBatchImageBalanceHold cfg j c h)"
  "preserves (grows s0) (releaseBatchImageBalanceHold cfg j h)"
  unfolding reserveBatchImageBalanceHold_def captureBatchImageBalanceHold_def releaseBatchImageBalanceHold_def
  by (intro preserves)+

lemma settlement_parts_grow [preserves]:
  "preserves (grows s0) (failExhaustedSettlement cfg j msg)"
  "preserves (grows s0) (recordSettlementFailure cfg j code' msg)"
  "preserves (grows s0) (settlement_failure cfg j code' msg e)"
  "preserves (grows s0) (recordUsageLog j k a cost now)"
  unfolding failExhaustedSettlement_def recordSettlementFailure_def settlement_failure_def recordUsageLog_def
  by (intro preserves update_grows; simp add: preserves)+

lemma Settle_grows [preserves]: "preserves (grows s0) (Settle cfg b)"
  unfolding Settle_def settle_checked_def settle_for_def Let_def
  by (intro preserves)

lemma recover_grows [preserves]: "preserves (grows s0) (recover_job cfg q cutoff j)"
  unfolding recover_job_def by (intro preserves)

lemma recover_jobs_grows [preserves]: "preserves (grows s0) (recover_jobs cfg q cutoff js)"
  by (induction js) (simp_all, (intro preserves)+)

lemma ReleaseStale_grows [preserves]: "preserves (grows s0) (ReleaseStaleUnsubmittedOnce cfg q stale limit)"
  unfolding ReleaseStaleUnsubmittedOnce_def Let_def by (intro preserves)

lemma expected_ids_grow: "grows s0 s \<Longrightarrow> grows s0 (snd (expected_ids b n s))"
proof (induction b n s rule: expected_ids.induct)
  case (1 b n s)
  have l: "ListBatchImageItems b None (int expected_page) (int n) s = (r, s') \<Longrightarrow> grows s0 s'" for r s'
    using read_grows(5) 1(2) preservesD' by metis
  show ?case
  proof (cases "ListBatchImageItems b None (int expected_page) (int n) s")
    case (Pair r s')
    then show ?thesis using l 1(1) [OF Pair [symmetric]]
      by (simp add: expected_ids.simps [of b n s] split: sum.split prod.split) (metis snd_conv)
  qed
qed

lemma expected_ids_grows [preserves]: "preserves (grows s0) (expected_ids b n)"
  by (simp add: preserves_def expected_ids_grow)

lemma Index_grows [preserves]: "preserves (grows s0) (Index decode j out)"
  unfolding Index_def finish_index_def Let_def by (intro preserves)

lemma processor_parts_grow [preserves]:
  "preserves (grows s0) (releaseTerminalHold cfg j st)"
  "preserves (grows s0) (persistProviderOutputRef j ref)"
  "st \<in> service_targets \<Longrightarrow> preserves (grows s0) (fail_job cfg j st code' msg event)"
  unfolding releaseTerminalHold_def persistProviderOutputRef_def fail_job_def Let_def
  by (intro preserves; simp)+

lemma indexAndSettle_grows [preserves]: "preserves (grows s0) (indexAndSettle cfg decode pa j)"
  unfolding indexAndSettle_def by (intro preserves) simp_all

lemma follow_status_grows [preserves]: "preserves (grows s0) (follow_status cfg dflt decode pa p j)"
  unfolding follow_status_def by (intro preserves) simp_all

lemma Process_grows [preserves]:
  "preserves (grows s0) (processor_Process cfg dflt decode pa b)"
  "preserves (grows s0) (pipeline_Process cfg retry dflt decode pa b)"
proof -
  show p: "preserves (grows s0) (processor_Process cfg dflt decode pa b)"
    unfolding processor_Process_def by (intro preserves)
  show "preserves (grows s0) (pipeline_Process cfg retry dflt decode pa b)"
    unfolding pipeline_Process_def by (intro preserves p)
qed

lemma preserves_queued [preserves]:
  "preserves P m \<Longrightarrow> preserves P n \<Longrightarrow> preserves P (case e of AlreadyQueued \<Rightarrow> m | _ \<Rightarrow> n)"
  by (cases e) simp_all

lemma submission_parts_grow [preserves]:
  "preserves (grows s0) (releaseFailedSubmitHold cfg q j h)"
  "preserves (grows s0) (hidePreUpstreamSubmitFailure u k j)"
  "preserves (grows s0) (queue_submitted cfg q b)"
  "preserves (grows s0) (parent_of u k p)"
  unfolding releaseFailedSubmitHold_def hidePreUpstreamSubmitFailure_def queue_submitted_def parent_of_def
  by (intro preserves)+

lemma record_submit_failure_grows [preserves]: "preserves (grows s0) (record_submit_failure u k j code' msg e)"
  unfolding record_submit_failure_def by (intro preserves)

lemma submitted_to_provider_grows [preserves]: "preserves (grows s0) (submitted_to_provider cfg q u k j h answer)"
  unfolding submitted_to_provider_def by (intro preserves)

lemma submit_job_grows:
  assumes "\<And>s. grows s0 s \<Longrightarrow> grows s0 (meanwhile s)"
  shows "preserves (grows s0) (submit_job cfg q u k items h meanwhile answer j)"
  unfolding submit_job_def by (intro preserves preserves_update assms) simp_all

lemma same_request_grows [preserves]: "preserves (grows s0) (same_request cfg q h j)"
  unfolding same_request_def by (intro preserves)

lemma Submit_grows:
  assumes "\<And>s. grows s0 s \<Longrightarrow> grows s0 (meanwhile s)"
  shows "preserves (grows s0) (Submit cfg q u k items h key meanwhile answer params)"
  unfolding Submit_def new_submission_def Let_def
  by (intro preserves submit_job_grows assms) simp_all

lemma owner_grows [preserves]:
  "preserves (grows s0) (cancel_released cfg q u j)"
  "preserves (grows s0) (Cancel cfg q pa u k b)"
  "preserves (grows s0) (MarkDownloaded u k b)"
  "preserves (grows s0) (DeleteRecord u k b)"
proof -
  show c: "preserves (grows s0) (cancel_released cfg q u j)" for j
    unfolding cancel_released_def by (intro preserves)
  show "preserves (grows s0) (Cancel cfg q pa u k b)"
    unfolding Cancel_def by (intro preserves c) simp
  show "preserves (grows s0) (MarkDownloaded u k b)" "preserves (grows s0) (DeleteRecord u k b)"
    unfolding MarkDownloaded_def DeleteRecord_def by (intro preserves)+
qed

lemma cleanup_grows [preserves]:
  "preserves (grows s0) (cleanupJob cfg pa target j)"
  "preserves (grows s0) (cleanup_jobs cfg answers target js)"
proof -
  show c: "preserves (grows s0) (cleanupJob cfg pa target j)" for pa j
    unfolding cleanupJob_def appendCleanupEvent_def by (intro preserves) (auto simp: preserves split: CleanupTarget.split)
  show "preserves (grows s0) (cleanup_jobs cfg answers target js)"
    by (induction js) (simp_all, (intro preserves c)+)
qed

lemma cleanup_calls_grow [preserves]:
  "preserves (grows s0) (DeleteOutputsForOwner cfg pa u k b)"
  "preserves (grows s0) (CleanupInput cfg pa b)"
  "preserves (grows s0) (CleanupOutput cfg pa b)"
  "preserves (grows s0) (cleanup_RunOnce cfg answers now)"
  unfolding DeleteOutputsForOwner_def CleanupInput_def CleanupOutput_def cleanup_RunOnce_def appendCleanupEvent_def
  by (intro preserves)+

section \<open>Runs\<close>

text \<open>
  \<open>batch_run s s'\<close>: from \<open>s\<close> the services can come to \<open>s'\<close>. An operation is a step of its own; so is each
  statement of the repository, as it falls between the statements of another process. What is not the table of jobs
  (money, queue, clock, faults) may change in any way. While a provider works on a submission the others go on, too.
\<close>

inductive batch_run :: "batch_config \<Rightarrow> batchImageQueueOptions \<Rightarrow> batch_store \<Rightarrow> batch_store \<Rightarrow> bool" for cfg q where
  run_start: "batch_run cfg q s s"
| run_other: "batch_run cfg q s t \<Longrightarrow> bi_jobs t' = bi_jobs t \<Longrightarrow> batch_run cfg q s t'"
| run_submit: "batch_run cfg q s t \<Longrightarrow> (\<And>x. batch_run cfg q x (meanwhile x)) \<Longrightarrow>
    batch_run cfg q s (snd (Submit cfg q u k items h key meanwhile answer params t))"
| run_process: "batch_run cfg q s t \<Longrightarrow> batch_run cfg q s (snd (pipeline_Process cfg retry dflt decode pa b t))"
| run_recover: "batch_run cfg q s t \<Longrightarrow> batch_run cfg q s (snd (ReleaseStaleUnsubmittedOnce cfg q stale limit t))"
| run_cancel: "batch_run cfg q s t \<Longrightarrow> batch_run cfg q s (snd (Cancel cfg q pa u k b t))"
| run_download: "batch_run cfg q s t \<Longrightarrow> batch_run cfg q s (snd (MarkDownloaded u k b t))"
| run_hide: "batch_run cfg q s t \<Longrightarrow> batch_run cfg q s (snd (DeleteRecord u k b t))"
| run_delete: "batch_run cfg q s t \<Longrightarrow> batch_run cfg q s (snd (DeleteOutputsForOwner cfg pa u k b t))"
| run_cleanup: "batch_run cfg q s t \<Longrightarrow> batch_run cfg q s (snd (cleanup_RunOnce cfg answers now t))"
| in_created: "batch_run cfg q s t \<Longrightarrow> bj_Status p = JCreated \<Longrightarrow> bj_ProviderJobName p = None \<Longrightarrow>
    batch_run cfg q s (snd (CreateBatchImageJob bcfg p t))"
| in_touch: "batch_run cfg q s t \<Longrightarrow> batch_run cfg q s (snd (TouchBatchImageJobSubmitting b t))"
| in_transition: "batch_run cfg q s t \<Longrightarrow> st \<in> service_targets \<Longrightarrow>
    batch_run cfg q s (snd (TransitionBatchImageJobStatus b st code' msg event t))"
| in_stale: "batch_run cfg q s t \<Longrightarrow> batch_run cfg q s (snd (FailStaleUnsubmittedBatchImageJob b cutoff code'' msg' t))"
| in_submitted: "batch_run cfg q s t \<Longrightarrow> batch_run cfg q s (snd (UpdateBatchImageJobProviderSubmit b provider pj t))"
| in_failure: "batch_run cfg q s t \<Longrightarrow> batch_run cfg q s (snd (RecordBatchImageJobSubmitFailure b code'' msg' mark t))"
| in_output: "batch_run cfg q s t \<Longrightarrow> batch_run cfg q s (snd (UpdateBatchImageJobProviderOutputRef b ref t))"
| in_items: "batch_run cfg q s t \<Longrightarrow> batch_run cfg q s (snd (ReplaceBatchImageItemsForJob b is n m t))"
| in_settled: "batch_run cfg q s t \<Longrightarrow> batch_run cfg q s (snd (MarkBatchImageJobSettled bcfg b cost h now expires t))"
| in_unsettled: "batch_run cfg q s t \<Longrightarrow> batch_run cfg q s (snd (SetBatchImageJobSettlementFailed b code'' msg' t))"
| in_input_gone: "batch_run cfg q s t \<Longrightarrow> batch_run cfg q s (snd (MarkBatchImageInputDeleted b now t))"
| in_hidden: "batch_run cfg q s t \<Longrightarrow> batch_run cfg q s (snd (MarkBatchImageJobUserDeleted u k b now t))"
| in_gone: "batch_run cfg q s t \<Longrightarrow> batch_run cfg q s (snd (MarkBatchImageOutputDeleted b now t))"

lemmas step_grows = preservesD [OF Process_grows(2)] preservesD [OF ReleaseStale_grows] owner_grows(2-4) [THEN preservesD]
  cleanup_calls_grow(1,4) [THEN preservesD] change_grows [THEN preservesD] preservesD [OF FailStale_grows]
  preservesD [OF ReplaceBatchImageItemsForJob_grows] preservesD [OF MarkBatchImageJobSettled_grows]
  preservesD [OF TransitionBatchImageJobStatus_grows] preservesD [OF UpdateBatchImageJobProviderSubmit_grows]

lemma batch_run_grows: "batch_run cfg q s s' \<Longrightarrow> grows s0 s \<Longrightarrow> grows s0 s'"
proof (induction arbitrary: s0 rule: batch_run.induct)
  case (run_other s t t')
  then have "grows s0 t" by blast
  then show ?case using run_other(2) by (simp add: grows_def evolves_def)
next
  case (run_submit s t meanwhile u k items h key answer params)
  then show ?case using preservesD [OF Submit_grows] by blast
next
  case (in_created s t p bcfg)
  then show ?case using preservesD [OF CreateBatchImageJob_grows] by blast
qed (blast intro: step_grows)+

section \<open>What every run keeps\<close>

text \<open>C19: The rows of jobs are well-formed after every run: identifiers are unique, a job has a finish time exactly when its
  status is terminal, a provider's job and a submission time exactly from submission on, and a cost, a manifest
  and a settlement time when it is completed.\<close>

theorem batch_jobs_well_formed:
  assumes "batch_run cfg q s s'" and "distinct (map bj_BatchID (bi_jobs s))" and "\<forall>j \<in> set (bi_jobs s). job_ok j"
  shows "distinct (map bj_BatchID (bi_jobs s')) \<and> (\<forall>j \<in> set (bi_jobs s'). job_ok j)"
proof -
  have "grows s s'" using batch_run_grows [OF assms(1), of s] assms(2) by (simp add: grows_def)
  then show ?thesis using evolves_ok [OF _ assms(3)] by (auto simp: grows_def)
qed

text \<open>C20: A job is never lost, its terms (owner, account, model, number of items, prices, hold) never change, and its status
  only moves forward: a cancelled job can only become failed, a completed job only failed or with its output deleted,
  and a job that has failed stays failed.\<close>

theorem batch_status_moves_forward:
  assumes "batch_run cfg q s s'" and "distinct (map bj_BatchID (bi_jobs s))" and "i < length (bi_jobs s)"
  shows "i < length (bi_jobs s') \<and> terms (bi_jobs s' ! i) = terms (bi_jobs s ! i)
    \<and> may_follow (bj_Status (bi_jobs s ! i)) (bj_Status (bi_jobs s' ! i))"
proof -
  have "evolves s s'" using batch_run_grows [OF assms(1), of s] assms(2) by (simp add: grows_def)
  from evolves_nth [OF this assms(3)] show ?thesis using job_steps_terms job_steps_follow by blast
qed

text \<open>The heartbeat of a submission is such a run.\<close>

lemma heartbeat_run: "batch_run cfg q s t \<Longrightarrow> batch_run cfg q s (runSubmitHeartbeat b ticks t)"
proof (induction ticks arbitrary: t)
  case (Cons x ticks)
  have "batch_run cfg q s (t\<lparr>bi_clock := x\<rparr>)" by (rule run_other [OF Cons.prems]) simp
  from Cons.IH [OF in_touch [OF this]] show ?case by (simp add: runSubmitHeartbeat_def)
qed (simp add: runSubmitHeartbeat_def)

end
