(* ===== verification/BatchImageSubmission.thy ===== *)
theory BatchImageSubmission
  imports BatchImageRuns
begin

text \<open>
  What a submission does to the money of its user: when it fails after its hold was taken, the hold comes
  back; when the answer of the reservation is lost, it does not.
\<close>

section \<open>Reserving\<close>

definition reservable :: "batch_config \<Rightarrow> bill_store \<Rightarrow> BatchImageJob \<Rightarrow> int \<Rightarrow> bill_user \<Rightarrow> bool" where
  "reservable cfg B j k r \<longleftrightarrow> bj_APIKeyID j = Some k \<and> 0 < k \<and> 0 < hold_of j \<and> live_user (bj_UserID j) B = Some r
     \<and> bc_num (bt_bill cfg) (hold_of j) \<le> bu_Balance r
     \<and> fits8 (bu_Balance r - bc_num (bt_bill cfg) (hold_of j)) \<and> fits8 (bu_Frozen r + bc_num (bt_bill cfg) (hold_of j))
     \<and> trim_space (BatchImageHoldRequestID (bj_BatchID j)) \<noteq> []
     \<and> (trim_space (BatchImageHoldRequestID (bj_BatchID j)), k) \<notin> claimed B"

definition frozen_user :: "batch_config \<Rightarrow> BatchImageJob \<Rightarrow> bill_user \<Rightarrow> bill_user" where
  "frozen_user cfg j r = paid_user r (bu_Balance r - bc_num (bt_bill cfg) (hold_of j))
     (Some (bu_Frozen r + bc_num (bt_bill cfg) (hold_of j)))"

lemma reserve_runs:
  assumes "served B" and "c = Hold_Normalize cfg cmd" and "hc_RequestID c \<noteq> []"
    and "(hc_RequestID c, hc_APIKeyID c) \<notin> claimed B" and "live_user (hc_UserID c) B = Some r" and "0 < hc_HoldAmount c"
    and "bc_num cfg (hc_HoldAmount c) \<le> bu_Balance r"
    and "fits8 (bu_Balance r - bc_num cfg (hc_HoldAmount c))" and "fits8 (bu_Frozen r + bc_num cfg (hc_HoldAmount c))"
  shows "\<exists>res B'. ReserveBatchImageBalance cfg cmd B = (Inr res, B') \<and> served B'
    \<and> bs_users B' = (bs_users B)(hc_UserID c \<mapsto> paid_user r (bu_Balance r - bc_num cfg (hc_HoldAmount c))
        (Some (bu_Frozen r + bc_num cfg (hc_HoldAmount c))))
    \<and> claimed B' = insert (hc_RequestID c, hc_APIKeyID c) (claimed B)"
proof -
  let ?h = "bc_num cfg (hc_HoldAmount c)"
  let ?r = "paid_user r (bu_Balance r - ?h) (Some (bu_Frozen r + ?h))"
  let ?B = "(claim_added c B)\<lparr>bs_users := (bs_users B)(hc_UserID c \<mapsto> ?r), bs_ledger := bs_ledger B @ [HoldReserved c]\<rparr>"
  have "reserveUsageBillingBatchImageBalance cfg c (claim_added c B)
      = (Inr (Some (rnd64 (bu_Balance ?r), rnd64 (bu_Frozen ?r))), ?B)"
    using assms(5-) by (simp add: reserveUsageBillingBatchImageBalance_def moved_def set_money_def run note_entry_def Let_def)
  then have "ReserveBatchImageBalance cfg cmd B = (Inr \<lparr>hr_Applied = True, hr_NewBalance = Some (rnd64 (bu_Balance ?r)),
      hr_FrozenBalance = Some (rnd64 (bu_Frozen ?r))\<rparr>, ?B)"
    using hold_run [OF assms(1-4), of reserveUsageBillingBatchImageBalance] by (simp add: ReserveBatchImageBalance_def)
  moreover have "claimed ?B = insert (hc_RequestID c, hc_APIKeyID c) (claimed B)" by (simp add: claimed_added)
  moreover have "served ?B" using assms(1) by (simp add: served_def)
  ultimately show ?thesis by (intro exI) auto
qed

text \<open>A transaction whose answer is lost does what it does when it is answered.\<close>

lemma unanswered_hold:
  assumes "bs_faults B = [Unanswered]" and "hc_RequestID (Hold_Normalize cfg cmd) \<noteq> []"
  shows "applyBatchImageBalanceHold op cfg cmd B = (Inl DbError, snd (applyBatchImageBalanceHold op cfg cmd (B\<lparr>bs_faults := []\<rparr>)))"
  using assms by (simp add: applyBatchImageBalanceHold_def Let_def transaction_def)

lemma reservable_reserve:
  assumes "reservable cfg (bi_bill s) j k r" and "bs_faults (bi_bill s) \<in> {[], [Unanswered]}"
  shows "\<exists>B res. reserveBatchImageBalanceHold cfg j h s = (res, s\<lparr>bi_bill := B\<rparr>)
    \<and> res = (if bs_faults (bi_bill s) = [] then Inr () else Inl BillingHoldFailed) \<and> served B
    \<and> bs_users B = (bs_users (bi_bill s))(bj_UserID j \<mapsto> frozen_user cfg j r)
    \<and> claimed B = insert (trim_space (BatchImageHoldRequestID (bj_BatchID j)), k) (claimed (bi_bill s))"
proof -
  note a = assms(1) [unfolded reservable_def]
  obtain cmd where cmd: "buildBatchImageHoldCommand j (BatchImageHoldRequestID (bj_BatchID j)) 0 h = Inr cmd"
    "hc_HoldAmount cmd = max 0 (hold_of j)" "hc_APIKeyID cmd = k" "hc_UserID cmd = bj_UserID j"
    "hc_RequestID cmd = BatchImageHoldRequestID (bj_BatchID j)"
    using build_Inr [of j k] a by metis
  have h: "hc_HoldAmount cmd = hold_of j" using cmd(2) a by simp
  let ?B = "(bi_bill s)\<lparr>bs_faults := []\<rparr>" and ?op = "ReserveBatchImageBalance (bt_bill cfg) cmd"
  have sv: "served ?B" "live_user (bj_UserID j) ?B = live_user (bj_UserID j) (bi_bill s)"
    "claimed ?B = claimed (bi_bill s)" "bs_users ?B = bs_users (bi_bill s)"
    by (simp_all add: served_def live_user_def claimed_def)
  obtain res B where B: "?op ?B = (Inr res, B)" "served B" "bs_users B = (bs_users (bi_bill s))(bj_UserID j \<mapsto> frozen_user cfg j r)"
    "claimed B = insert (trim_space (BatchImageHoldRequestID (bj_BatchID j)), k) (claimed (bi_bill s))"
    using reserve_runs [OF sv(1) refl, of "bt_bill cfg" cmd r] a cmd(3-5) h sv(2-) by (auto simp: frozen_user_def)
  have "?op (bi_bill s) = ((if bs_faults (bi_bill s) = [] then Inr res else Inl DbError), B)"
  proof (cases "bs_faults (bi_bill s) = []")
    case True
    then have "?B = bi_bill s" by simp
    with B(1) True show ?thesis by simp
  next
    case False
    with assms(2) have u: "bs_faults (bi_bill s) = [Unanswered]" by simp
    have "hc_RequestID (Hold_Normalize (bt_bill cfg) cmd) \<noteq> []" using a cmd(5) by simp
    from unanswered_hold [OF u this] False B(1) show ?thesis by (simp add: ReserveBatchImageBalance_def)
  qed
  then have "reserveBatchImageBalanceHold cfg j h s
      = (if bs_faults (bi_bill s) = [] then Inr () else Inl BillingHoldFailed, s\<lparr>bi_bill := B\<rparr>)"
    using cmd(1) h a by (simp add: reserveBatchImageBalanceHold_def run billed_run)
  with B show ?thesis by blast
qed

section \<open>Recording the failure\<close>

definition queue_is :: "queue_store \<Rightarrow> batch_store \<Rightarrow> bool" where
  "queue_is Q s \<longleftrightarrow> bi_queue s = Q"

lemma queue_call [preserves]: "preserves (queue_is Q) p \<Longrightarrow> preserves (queue_is Q) (job_call p)"
  by (rule preserves_job_call) (simp_all add: queue_is_def)

lemma queue_parts [preserves]:
  "preserves (queue_is Q) (append_event b ty)" "preserves (queue_is Q) (update_job b w f)" "preserves (queue_is Q) (the_job b)"
  by (auto simp: preserves_def queue_is_def append_event_def update_job_def update_jobs_def the_job_def split: option.split)

lemma queue_failure: "preserves (queue_is Q) (record_submit_failure u k j code' msg e)"
  unfolding record_submit_failure_def RecordBatchImageJobSubmitFailure_def set_job_def AppendBatchImageEvent_def
    hidePreUpstreamSubmitFailure_def MarkBatchImageJobUserDeleted_def marked_def found_or_def
  by (intro preserves)

lemma job_now_trans: "job_now b j s t \<Longrightarrow> job_now b j' t s' \<Longrightarrow> job_now b j' s s'"
  by (auto simp: job_now_def)

lemma job_now_start: "at_rest s \<Longrightarrow> find_job b s = Some j \<Longrightarrow> job_now b j s s"
  by (simp add: job_now_def)

lemma RecordBatchImageJobSubmitFailure_now:
  assumes "at_rest s" and "find_job b s = Some j"
  obtains s' where "RecordBatchImageJobSubmitFailure b code' msg mark s = (Inr (), s')"
    and "job_now b (submit_failed_job mark (bi_clock s) code' msg j) s s'"
proof -
  obtain t where t: "set_job b (submit_failed_job mark (bi_clock s) code' msg) s = (Inr (), t)"
    "job_now b (submit_failed_job mark (bi_clock s) code' msg j) s t"
    using set_job_now [OF assms, of "submit_failed_job mark (bi_clock s) code' msg"]
    by (auto simp: submit_failed_job_def Let_def)
  obtain s' where s': "AppendBatchImageEvent b (if mark then ''submit_failed'' else ''queue_failed'') t = (Inr (), s')"
    "job_now b (submit_failed_job mark (bi_clock s) code' msg j) s s'" using AppendBatchImageEvent_now [OF t(2)] by blast
  show thesis using that [OF _ s'(2)] t(1) s'(1) assms(1)
    by (simp add: RecordBatchImageJobSubmitFailure_def run job_call_rest undone_def)
qed

lemma find_mapped_where:
  "List.find (\<lambda>j. bj_BatchID j = b) js = Some j \<Longrightarrow> w j \<Longrightarrow> (\<And>x. bj_BatchID (f x) = bj_BatchID x) \<Longrightarrow>
     List.find (\<lambda>j. bj_BatchID j = b) (map (\<lambda>j. if bj_BatchID j = b \<and> w j then f j else j) js) = Some (f j)"
  by (induction js) (auto split: if_splits)

lemma update_job_now:
  assumes "at_rest s" and "find_job b s = Some j" and "w j" and "\<And>x. bj_BatchID (f x) = bj_BatchID x"
  obtains n s' where "update_job b w f s = (Inr n, s')" and "0 < n" and "job_now b (f j) s s'" and "bi_clock s' = bi_clock s"
proof -
  let ?s = "update_jobs (\<lambda>x. bj_BatchID x = b \<and> w x) f s"
  have "find_job b ?s = Some (f j)" using assms(2-4) find_mapped_where [of b "bi_jobs s" j w f]
    by (simp add: find_job_def update_jobs_def)
  moreover have "map bj_BatchID (bi_jobs ?s) = map bj_BatchID (bi_jobs s)" using assms(4) by (simp add: update_jobs_def)
  ultimately have "job_now b (f j) s ?s" using assms(1) by (auto simp: job_now_def at_rest_def update_jobs_def)
  moreover have "j \<in> set (bi_jobs s) \<and> bj_BatchID j = b" using find_job_Some assms(2) by blast
  then have "j \<in> set (filter (\<lambda>x. bj_BatchID x = b \<and> w x) (bi_jobs s))" using assms(3) by simp
  then have "0 < length (filter (\<lambda>x. bj_BatchID x = b \<and> w x) (bi_jobs s))" by (rule length_pos_if_in_set)
  moreover have "bi_clock ?s = bi_clock s" by (simp add: update_jobs_def)
  ultimately show thesis using that by (simp add: update_job_def)
qed

lemma MarkBatchImageJobUserDeleted_now:
  assumes "at_rest s" and "find_job b s = Some j" and "owned_by u k j" and "bj_UserDeletedAt j = None"
    and "IsTerminalBatchImageJobStatus (bj_Status j)"
  obtains s' where "MarkBatchImageJobUserDeleted u k b t s = (Inr (), s')"
    and "job_now b (j\<lparr>bj_UserDeletedAt := Some t, bj_UpdatedAt := t\<rparr>) s s'"
proof -
  let ?w = "\<lambda>j. owned_by u k j \<and> bj_UserDeletedAt j = None \<and> IsTerminalBatchImageJobStatus (bj_Status j)"
  let ?f = "\<lambda>j. j\<lparr>bj_UserDeletedAt := Some t, bj_UpdatedAt := t\<rparr>"
  obtain n s1 where s1: "update_job b ?w ?f s = (Inr n, s1)" "0 < n" "job_now b (?f j) s s1"
    by (rule update_job_now [OF assms(1,2), of ?w ?f]) (use assms(3-) in auto)
  obtain s' where s': "AppendBatchImageEvent b ''user_record_deleted'' s1 = (Inr (), s')" "job_now b (?f j) s s'"
    using AppendBatchImageEvent_now [OF s1(3)] by blast
  show thesis using that [OF _ s'(2)] s1(1,2) s'(1) assms(1)
    by (simp add: MarkBatchImageJobUserDeleted_def marked_def found_or_def run job_call_rest undone_def)
qed

text \<open>A failed submission: its job is failed and hidden from its owner.\<close>

definition failed_and_hidden :: "string \<Rightarrow> batch_store \<Rightarrow> bool" where
  "failed_and_hidden b s \<longleftrightarrow> at_rest s \<and> distinct (map bj_BatchID (bi_jobs s))
     \<and> (\<exists>j. find_job b s = Some j \<and> bj_Status j = JFailed \<and> bj_UserDeletedAt j \<noteq> None)"

lemma failure_hides:
  assumes now: "at_rest s" "find_job b s = Some j1" "terms j1 = terms j" "bj_UserDeletedAt j1 = None"
    and ids: "distinct (map bj_BatchID (bi_jobs s))"
    and j: "bj_BatchID j = b" "owned_by u k j" "bj_ProviderJobName j = None"
  shows "\<exists>s'. record_submit_failure u k j code' msg e s = (Inl e, s') \<and> failed_and_hidden b s' \<and> bi_bill s' = bi_bill s
    \<and> bi_queue s' = bi_queue s"
proof -
  let ?j2 = "submit_failed_job True (bi_clock s) code' msg j1"
  obtain s1 where s1: "RecordBatchImageJobSubmitFailure b code' msg True s = (Inr (), s1)" "job_now b ?j2 s s1"
    using RecordBatchImageJobSubmitFailure_now [OF now(1,2)] by blast
  have j2: "at_rest s1" "find_job b s1 = Some ?j2" "owned_by u k ?j2" "bj_UserDeletedAt ?j2 = None" "bj_Status ?j2 = JFailed"
    "IsTerminalBatchImageJobStatus (bj_Status ?j2)"
    using s1(2) now(3,4) j(2)
    by (simp_all add: job_now_def submit_failed_job_def Let_def owned_by_def terms_def IsTerminalBatchImageJobStatus_def)
  let ?t = "bi_clock s1"
  obtain s' where s': "MarkBatchImageJobUserDeleted u k b ?t s1 = (Inr (), s')"
    "job_now b (?j2\<lparr>bj_UserDeletedAt := Some ?t, bj_UpdatedAt := ?t\<rparr>) s1 s'"
    using MarkBatchImageJobUserDeleted_now [OF j2(1-4,6)] by blast
  have r: "record_submit_failure u k j code' msg e s = (Inl e, s')"
    using s1(1) s'(1) j by (simp add: record_submit_failure_def hidePreUpstreamSubmitFailure_def run)
  have "failed_and_hidden b s'" "bi_bill s' = bi_bill s"
    using s1(2) s'(2) j2(5) ids by (auto simp: failed_and_hidden_def job_now_def)
  moreover have "queue_is (bi_queue s) s'" using preservesD' [OF queue_failure r] by (simp add: queue_is_def)
  ultimately show ?thesis using r by (auto simp: queue_is_def)
qed

section \<open>An answer lost\<close>

lemma hidden_not_cancelled:
  assumes "failed_and_hidden b s"
  shows "Cancel cfg q pa u k b s = (Inl JobNotFound, s)"
  using assms by (auto simp: failed_and_hidden_def Cancel_def run GetBatchImageJobByBatchIDForOwner_def job_call_rest undone_def)

lemma failed_not_stale:
  assumes "failed_and_hidden b s"
  obtains js where "ListStaleUnsubmittedBatchImageJobs cutoff n s = (Inr js, s)" and "b \<notin> bj_BatchID ` set js"
proof -
  let ?js = "take (clean_limit n) (sort_key bj_UpdatedAt (filter (stale_unsubmitted cutoff) (bi_jobs s)))"
  have "b \<noteq> bj_BatchID x" if "x \<in> set (bi_jobs s)" "stale_unsubmitted cutoff x" for x
    using assms that find_job_unique [of s b _ x] by (auto simp: failed_and_hidden_def stale_unsubmitted_def unsubmitted_def)
  then have "b \<notin> bj_BatchID ` set ?js" using set_take_subset [of "clean_limit n" "sort_key bj_UpdatedAt (filter (stale_unsubmitted cutoff) (bi_jobs s))"]
    by fastforce
  moreover have "ListStaleUnsubmittedBatchImageJobs cutoff n s = (Inr ?js, s)"
    using assms by (simp add: ListStaleUnsubmittedBatchImageJobs_def run job_call_rest undone_def failed_and_hidden_def)
  ultimately show thesis using that by blast
qed

text \<open>C22: When the reservation of a hold is committed and its answer is lost, the submission fails, the job is marked
  failed and hidden from its owner, and the money stays frozen: the job is not queued, its owner cannot cancel
  it any more, and the recovery of holds does not list it.\<close>

theorem lost_hold_answer_freezes_money:
  assumes "at_rest s" and "find_job b s = Some j" and "distinct (map bj_BatchID (bi_jobs s))" and "owned_by u k j"
    and "bj_ProviderJobName j = None" and "bj_UserDeletedAt j = None"
    and "reservable cfg (bi_bill s) j k r" and "bs_faults (bi_bill s) = [Unanswered]"
  shows "\<exists>s'. submit_job cfg q u k items h meanwhile answer j s = (Inl BillingHoldFailed, s')
    \<and> bs_users (bi_bill s') u = Some (frozen_user cfg j r)
    \<and> (\<exists>j'. find_job b s' = Some j' \<and> bj_Status j' = JFailed) \<and> bi_queue s' = bi_queue s
    \<and> Cancel cfg q pa u k b s' = (Inl JobNotFound, s')
    \<and> (\<exists>js. ListStaleUnsubmittedBatchImageJobs cutoff n s' = (Inr js, s') \<and> b \<notin> bj_BatchID ` set js)"
proof -
  obtain B where B: "reserveBatchImageBalanceHold cfg j h s = (Inl BillingHoldFailed, s\<lparr>bi_bill := B\<rparr>)"
    "bs_users B = (bs_users (bi_bill s))(bj_UserID j \<mapsto> frozen_user cfg j r)"
    using reservable_reserve [OF assms(7), of h] assms(8) by auto
  let ?s = "s\<lparr>bi_bill := B\<rparr>"
  have b: "bj_BatchID j = b" using find_job_Some assms(2) by blast
  have s: "at_rest ?s" "find_job b ?s = Some j" "distinct (map bj_BatchID (bi_jobs ?s))"
    using assms(1-3) by (simp_all add: at_rest_def find_job_def)
  obtain s' where s': "record_submit_failure u k j ''BILLING_HOLD_FAILED'' (bt_text cfg BillingHoldFailed) BillingHoldFailed ?s
      = (Inl BillingHoldFailed :: batch_error + BatchImageJob, s')" "failed_and_hidden b s'" "bi_bill s' = B" "bi_queue s' = bi_queue s"
    using failure_hides [OF s(1,2) refl assms(6) s(3) b assms(4,5),
        of "''BILLING_HOLD_FAILED''" "bt_text cfg BillingHoldFailed" BillingHoldFailed] by auto
  have r: "submit_job cfg q u k items h meanwhile answer j s = (Inl BillingHoldFailed, s')"
    using B(1) s'(1) by (simp add: submit_job_def run)
  have m: "bs_users (bi_bill s') u = Some (frozen_user cfg j r)" using s'(3) B(2) assms(4) by (simp add: owned_by_def)
  have f: "\<exists>j'. find_job b s' = Some j' \<and> bj_Status j' = JFailed" using s'(2) by (auto simp: failed_and_hidden_def)
  show ?thesis
    using r m f s'(4) hidden_not_cancelled [OF s'(2)] failed_not_stale [OF s'(2), of cutoff n] by metis
qed

section \<open>A refusal\<close>

lemma create_items_run:
  assumes "find_job b s \<noteq> None" and "distinct (map ii_CustomID is)" and "\<forall>i \<in> set is. ii_JobID i = b"
    and "\<forall>i \<in> set is. ii_CustomID i \<notin> ii_CustomID ` set (items_of b s)"
  shows "create_items is s = (Inr (), s\<lparr>bi_items := bi_items s @ is\<rparr>)"
  using assms
proof (induction "is" arbitrary: s)
  case (Cons i "is")
  let ?s = "s\<lparr>bi_items := bi_items s @ [i]\<rparr>"
  have i: "ii_JobID i = b" "ii_CustomID i \<notin> ii_CustomID ` set (items_of b s)" using Cons.prems(3,4) by simp_all
  then have "\<not> (\<exists>x \<in> set (items_of b s). ii_CustomID x = ii_CustomID i)" by (metis imageI)
  then have c: "create_item i s = (Inr (), ?s)" using Cons.prems(1) i(1) by (simp add: create_item_def)
  have "find_job b ?s \<noteq> None" using Cons.prems(1) by (simp add: find_job_def)
  moreover have "\<forall>x \<in> set is. ii_CustomID x \<noteq> ii_CustomID i" using Cons.prems(2) by (metis distinct.simps(2) image_eqI list.set_map list.simps(9))
  then have "\<forall>x \<in> set is. ii_CustomID x \<notin> ii_CustomID ` set (items_of b ?s)"
    using Cons.prems(4) by (auto simp: items_of_def)
  ultimately have "create_items is ?s = (Inr (), ?s\<lparr>bi_items := bi_items ?s @ is\<rparr>)"
    using Cons.IH [of ?s] Cons.prems(2,3) by simp
  then show ?case using c by (simp add: run)
qed (simp add: run)

lemma touch_now:
  assumes "job_now b j s t"
  shows "\<exists>j'. job_now b j' s (snd (TouchBatchImageJobSubmitting b (t\<lparr>bi_clock := x\<rparr>))) \<and> terms j' = terms j
    \<and> bj_UserDeletedAt j' = bj_UserDeletedAt j"
proof -
  let ?t = "t\<lparr>bi_clock := x\<rparr>" and ?f = "\<lambda>j. j\<lparr>bj_UpdatedAt := x\<rparr>"
  have n: "job_now b j s ?t" "at_rest ?t" "find_job b ?t = Some j"
    using assms by (simp_all add: job_now_def at_rest_def find_job_def)
  show ?thesis
  proof (cases "unsubmitted j")
    case True
    obtain m t' where "update_job b unsubmitted ?f ?t = (Inr m, t')" "job_now b (?f j) ?t t'"
      by (rule update_job_now [OF n(2,3), of unsubmitted ?f]) (use True in auto)
    then have "job_now b (?f j) s (snd (TouchBatchImageJobSubmitting b ?t))"
      using job_now_trans [OF n(1)] n(2) by (simp add: TouchBatchImageJobSubmitting_def job_call_rest undone_def run)
    then show ?thesis by (intro exI [of _ "?f j"]) (simp add: terms_def)
  next
    case False
    obtain m t' where t': "update_job b unsubmitted ?f ?t = (Inr m, t')" by (simp add: update_job_def)
    have "List.find (\<lambda>j. bj_BatchID j = b) js = Some j \<Longrightarrow>
        List.find (\<lambda>j. bj_BatchID j = b) (map (\<lambda>j. if bj_BatchID j = b \<and> unsubmitted j then ?f j else j) js) = Some j" for js
      using False by (induction js) (auto split: if_splits)
    then have "job_now b j ?t t'" using t' n(2,3)
      by (auto simp: update_job_def update_jobs_def job_now_def at_rest_def find_job_def)
    then have "job_now b j s (snd (TouchBatchImageJobSubmitting b ?t))"
      using job_now_trans [OF n(1)] n(2) t' by (simp add: TouchBatchImageJobSubmitting_def job_call_rest undone_def run)
    then show ?thesis by blast
  qed
qed

lemma heartbeat_now:
  assumes "job_now b j s t"
  shows "\<exists>j'. job_now b j' s (runSubmitHeartbeat b ticks t) \<and> terms j' = terms j \<and> bj_UserDeletedAt j' = bj_UserDeletedAt j"
  using assms
proof (induction ticks arbitrary: j t)
  case (Cons x ticks)
  from touch_now [OF Cons.prems] obtain j1 where
    "job_now b j1 s (snd (TouchBatchImageJobSubmitting b (t\<lparr>bi_clock := x\<rparr>)))" "terms j1 = terms j"
    "bj_UserDeletedAt j1 = bj_UserDeletedAt j" by blast
  with Cons.IH [OF this(1)] show ?case by (auto simp: runSubmitHeartbeat_def)
qed (auto simp: runSubmitHeartbeat_def)

lemma visible_requests:
  assumes "\<forall>c \<in> set b. visible c"
  shows "trim_space b = b" "trim_space (BatchImageHoldRequestID b) = BatchImageHoldRequestID b"
    "trim_space (BatchImageReleaseRequestID b) = BatchImageReleaseRequestID b" "BatchImageReleaseRequestID b \<noteq> []"
    "BatchImageHoldRequestID b \<noteq> BatchImageReleaseRequestID b"
proof -
  show b: "trim_space b = b" using assms by (rule trim_space_visible)
  have v: "\<forall>c \<in> set ''batch_image_hold:''. visible c" "\<forall>c \<in> set ''batch_image_release:''. visible c" by code_simp+
  show "trim_space (BatchImageHoldRequestID b) = BatchImageHoldRequestID b"
    "trim_space (BatchImageReleaseRequestID b) = BatchImageReleaseRequestID b"
    unfolding BatchImageHoldRequestID_def BatchImageReleaseRequestID_def b
    by (rule trim_space_visible, unfold set_append, use v assms in blast)+
  show "BatchImageReleaseRequestID b \<noteq> []" "BatchImageHoldRequestID b \<noteq> BatchImageReleaseRequestID b"
    by (simp_all add: BatchImageReleaseRequestID_def BatchImageHoldRequestID_def)
qed

text \<open>A new job whose submission can go on: no items yet, exact amounts, and a bill that serves.\<close>

definition submittable :: "batch_config \<Rightarrow> string \<Rightarrow> BatchImageJob \<Rightarrow> int \<Rightarrow> bill_user \<Rightarrow> batch_store \<Rightarrow> bool" where
  "submittable cfg b j k r s \<longleftrightarrow> at_rest s \<and> find_job b s = Some j \<and> distinct (map bj_BatchID (bi_jobs s))
     \<and> (\<forall>c \<in> set b. visible c) \<and> bj_Status j = JCreated \<and> bj_ProviderJobName j = None \<and> bj_UserDeletedAt j = None
     \<and> items_of b s = [] \<and> served (bi_bill s) \<and> reservable cfg (bi_bill s) j k r
     \<and> (BatchImageReleaseRequestID b, k) \<notin> claimed (bi_bill s) \<and> 0 \<le> bu_Frozen r
     \<and> whole8 (bu_Balance r) \<and> whole8 (bu_Frozen r) \<and> whole8 (bc_num (bt_bill cfg) (hold_of j))
     \<and> fits8 (bu_Balance r) \<and> fits8 (bu_Frozen r)"

lemma reserved_then_refunded:
  assumes "submittable cfg b j k r s" and "served B"
    and "bs_users B = (bs_users (bi_bill s))(bj_UserID j \<mapsto> frozen_user cfg j r)"
    and "claimed B = insert (BatchImageHoldRequestID b, k) (claimed (bi_bill s))"
  shows "covered cfg B j k (frozen_user cfg j r)" and "refunded_user cfg j (frozen_user cfg j r) = r"
proof -
  note a = assms(1) [unfolded submittable_def reservable_def]
  let ?h = "bc_num (bt_bill cfg) (hold_of j)"
  have b: "bj_BatchID j = b" using a find_job_Some by blast
  have w: "whole8 (bu_Balance r - ?h)" "whole8 (bu_Frozen r + ?h)"
    using a whole8_add [of "bu_Frozen r" ?h] whole8_add [of "bu_Balance r" "- ?h"] by (simp_all add: whole8_def)
  have f: "bu_Balance (frozen_user cfg j r) = bu_Balance r - ?h" "bu_Frozen (frozen_user cfg j r) = bu_Frozen r + ?h"
    "bu_Deleted (frozen_user cfg j r) = bu_Deleted r"
    using w by (simp_all add: frozen_user_def paid_user_def whole8_def)
  have r: "bs_users (bi_bill s) (bj_UserID j) = Some r" "\<not> bu_Deleted r"
    using a by (auto simp: live_user_def split: option.splits if_splits)
  show "covered cfg B j k (frozen_user cfg j r)"
    using a assms(2-4) f b r(2) visible_requests [of b] by (auto simp: covered_def live_user_def)
  show "refunded_user cfg j (frozen_user cfg j r) = r"
    using a f by (simp add: refunded_user_def paid_user_def whole8_def)
qed

lemma release_then_invalidate:
  assumes "submittable cfg b j k r s" and "served (bi_bill t)"
    and "bs_users (bi_bill t) = (bs_users (bi_bill s))(bj_UserID j \<mapsto> frozen_user cfg j r)"
    and "claimed (bi_bill t) = insert (BatchImageHoldRequestID b, k) (claimed (bi_bill s))"
  shows "\<exists>t'. releaseFailedSubmitHold cfg q j h t = (Inr (), t') \<and> bi_jobs t' = bi_jobs t \<and> bi_faults t' = bi_faults t
    \<and> bs_users (bi_bill t') = bs_users (bi_bill s)"
proof -
  note c = reserved_then_refunded [OF assms]
  obtain B where B: "releaseBatchImageBalanceHold cfg j h t = (Inr (), t\<lparr>bi_bill := B\<rparr>)"
    "bs_users B = (bs_users (bi_bill t))(bj_UserID j \<mapsto> refunded_user cfg j (frozen_user cfg j r))"
    using covered_release [OF c(1)] by blast
  have "bs_users (bi_bill s) (bj_UserID j) = Some r"
    using assms(1) by (auto simp: submittable_def reservable_def live_user_def split: option.splits if_splits)
  then have "bs_users B = bs_users (bi_bill s)" using B(2) assms(3) c(2) by (simp add: fun_upd_idem)
  moreover obtain us where "invalidateAuthCache (bj_UserID j) (t\<lparr>bi_bill := B\<rparr>) = (Inr (), t\<lparr>bi_bill := B\<rparr>\<lparr>bi_invalidated := us\<rparr>)"
    using invalidate_now by blast
  ultimately show ?thesis using B(1) by (intro exI [of _ "t\<lparr>bi_bill := B\<rparr>\<lparr>bi_invalidated := us\<rparr>"])
    (simp add: releaseFailedSubmitHold_def run)
qed


end
