(* ===== verification/BatchImageProperties.thy ===== *)
theory BatchImageProperties
  imports BatchImageSubmission
begin

text \<open>
  A fault of the database while results are indexed, and concrete stores at which the properties of the
  batch-image theories apply.
\<close>

section \<open>A fault while indexing\<close>

lemma release_keeps_jobs:
  "bi_jobs (snd (releaseTerminalHold cfg j st s)) = bi_jobs s"
  by (auto simp: releaseTerminalHold_def run releaseBatchImageBalanceHold_def billed_def invalidateAuthCache_def
      split: sum.splits prod.splits)


section \<open>Examples\<close>

definition batch_cfg :: batch_config where
  "batch_cfg = \<lparr>bt_bill = \<lparr>bc_num = (\<lambda>x. x), bc_hash = (\<lambda>s. ''h''), bc_zones = two_zones, bc_midnight = (\<lambda>t. t)\<rparr>,
     bt_text = (\<lambda>_. ''failed''), bt_reason = (\<lambda>_. []), bt_resolve = (\<lambda>_. None), bt_retention_hours = 0,
     bt_input_retention_hours = 0, bt_cleanup_batch = 0\<rparr>"

definition batch_job :: "job_status \<Rightarrow> BatchImageJob" where
  "batch_job st = \<lparr>bj_ID = 1, bj_BatchID = ''imgbatch_1'', bj_UserID = 7, bj_APIKeyID = Some 3, bj_AccountID = Some 4,
     bj_Provider = ''vertex'', bj_Model = ''m'', bj_TaskName = ''t'', bj_ParentBatchID = None, bj_Status = st,
     bj_ProviderJobName = (if st = JCreated then None else Some ''p1''), bj_ProviderInputRef = None, bj_ProviderOutputRef = None,
     bj_GCSInputURI = None, bj_GCSOutputURI = None, bj_ItemCount = 2, bj_SuccessCount = 1, bj_FailCount = 1,
     bj_CancelledCount = 0, bj_EstimatedCost = 2, bj_HoldAmount = Some 2, bj_ActualCost = None, bj_BaseUnitPrice = 1,
     bj_GroupRateMultiplier = 1, bj_AccountRateMultiplier = 1, bj_BatchDiscountMultiplier = 1, bj_HoldMultiplier = 1,
     bj_BillableUnitPrice = 1, bj_HoldUnitPrice = 1, bj_PricingSnapshotVersion = 1, bj_Currency = ''USD'', bj_HoldID = None,
     bj_IdempotencyKey = None, bj_RequestHash = Some ''r'', bj_ManifestHash = None, bj_RetryCount = 0, bj_Version = 0,
     bj_OutputExpiresAt = None, bj_InputDeletedAt = None, bj_OutputDeletedAt = None, bj_DownloadedAt = None,
     bj_UserDeletedAt = None, bj_LastErrorCode = None, bj_LastErrorMessage = None, bj_CreatedAt = 0, bj_UpdatedAt = 0,
     bj_SubmittedAt = None, bj_StartedAt = None, bj_FinishedAt = None, bj_SettledAt = None\<rparr>"

definition batch_claim :: "string \<Rightarrow> claim_row" where
  "batch_claim rid = \<lparr>cl_RequestID = rid, cl_APIKeyID = 3, cl_Fingerprint = ''h'', cl_CreatedAt = 0\<rparr>"

definition batch_bill :: "string list \<Rightarrow> rat \<Rightarrow> rat \<Rightarrow> bill_store" where
  "batch_bill rids money frozen = \<lparr>bs_dedup = map batch_claim rids, bs_archive = [],
     bs_users = [7 \<mapsto> \<lparr>bu_Balance = money, bu_Frozen = frozen, bu_Deleted = False\<rparr>], bs_subs = Map.empty, bs_groups = [],
     bs_keys = Map.empty, bs_accounts = Map.empty, bs_outbox = [], bs_clock = 0, bs_faults = [], bs_ledger = []\<rparr>"

definition batch_db :: "BatchImageJob list \<Rightarrow> bill_store \<Rightarrow> batch_store" where
  "batch_db js B = \<lparr>bi_jobs = js, bi_items = [], bi_events = [], bi_next_id = 2, bi_usage_logs = [], bi_invalidated = [],
     bi_bill = B, bi_queue = \<lparr>qu_ready = [], qu_active = [], qu_delayed = [], qu_inflight = Map.empty, qu_locks = Map.empty,
       qu_ms = 0, qu_faults = []\<rparr>, bi_clock = 5, bi_faults = []\<rparr>"

definition held :: "string list" where
  "held = [BatchImageHoldRequestID ''imgbatch_1'']"

theorem settlement_charges_once_witness:
  "\<exists>res s'. Settle batch_cfg ''imgbatch_1'' (batch_db [batch_job JSettling] (batch_bill held 8 2)) = (Inr res, s')
    \<and> sr_ActualCost res = 1 \<and> map_option bu_Balance (bs_users (bi_bill s') 7) = Some 9"
proof -
  let ?B = "batch_bill held 8 2" and ?j = "batch_job JSettling"
  let ?s = "batch_db [?j] ?B" and ?r = "\<lparr>bu_Balance = 8, bu_Frozen = 2, bu_Deleted = False\<rparr> :: bill_user"
  have 1: "at_rest ?s" "find_job ''imgbatch_1'' ?s = Some ?j" by code_simp+
  have "price_checked batch_cfg ?j = Inr 1" "bj_Status ?j = JSettling" "\<not> isBatchImageSettlementRetryExhausted ?j"
    "\<not> counts_invalid ?j" "1 = fmul (fof (bj_SuccessCount ?j)) 1" "\<not> batchImageCostEpsilon < fsub 1 (hold_of ?j)" by code_simp+
  then have 2: "passes_checks batch_cfg ?j 1" unfolding passes_checks_def by blast
  have 3: "ready_to_mark batch_cfg ''imgbatch_1'' ?j ?s" "capturable batch_cfg (bi_bill ?s) ?j 3 ?r 1" "fits10 (bt_bill batch_cfg) 1" by code_simp+
  have 4: "bj_AccountID ?j = Some 4" "(0 :: int) < 4" "bj_UserID ?j = 7" by (simp_all add: batch_job_def)
  have 5: "bu_Balance (charged_user batch_cfg ?j 1 ?r) = 9" by code_simp
  from settlement_charges_once [OF 1 2 3(1,2) 4(1,2) 3(3)] obtain res s' where
    "Settle batch_cfg ''imgbatch_1'' ?s = (Inr res, s')" "sr_ActualCost res = 1"
    "bs_users (bi_bill s') = (bs_users (bi_bill ?s))(bj_UserID ?j \<mapsto> charged_user batch_cfg ?j 1 ?r)" by blast
  with 4(3) 5 show ?thesis by auto
qed

theorem uncovered_hold_never_settles_witness:
  "\<exists>j'. find_job ''imgbatch_1'' (settle_times 6 batch_cfg ''imgbatch_1'' (batch_db [batch_job JSettling] (batch_bill held 8 1))) = Some j'
    \<and> bj_Status j' = JSettling"
proof -
  let ?j = "batch_job JSettling" and ?r = "\<lparr>bu_Balance = 8, bu_Frozen = 1, bu_Deleted = False\<rparr> :: bill_user"
  let ?s = "batch_db [?j] (batch_bill held 8 1)" and ?k = "3 :: int"
  have 1: "at_rest ?s" "find_job ''imgbatch_1'' ?s = Some ?j" "bj_Status ?j = JSettling" by code_simp+
  have "served (bi_bill ?s)" "bj_APIKeyID ?j = Some ?k" "0 < ?k" "0 < hold_of ?j" "live_user (bj_UserID ?j) (bi_bill ?s) = Some ?r"
    "bu_Frozen ?r < bc_num (bt_bill batch_cfg) (hold_of ?j)"
    "(BatchImageHoldRequestID (trim_space (bj_BatchID ?j)), ?k) \<in> claimed (bi_bill ?s)"
    "(trim_space (BatchImageCaptureRequestID (bj_BatchID ?j)), ?k) \<notin> claimed (bi_bill ?s)"
    "(trim_space (BatchImageReleaseRequestID (bj_BatchID ?j)), ?k) \<notin> claimed (bi_bill ?s)" by code_simp+
  then have "uncovered batch_cfg (bi_bill ?s) ?j" unfolding uncovered_def by blast
  from uncovered_hold_never_settles [OF 1 this, of 6] show ?thesis by blast
qed

theorem exhausted_settlement_refunds_captured_hold_witness:
  "\<exists>s'. snd (Settle batch_cfg ''imgbatch_1'' (batch_db [(batch_job JSettling)\<lparr>bj_RetryCount := 5, bj_LastErrorCode := Some ''SETTLEMENT_BILLING_FAILED''\<rparr>]
      (batch_bill (BatchImageCaptureRequestID ''imgbatch_1'' # held) 9 2))) = s' \<and> map_option bu_Balance (bs_users (bi_bill s') 7) = Some 11"
proof -
  let ?j = "(batch_job JSettling)\<lparr>bj_RetryCount := 5, bj_LastErrorCode := Some ''SETTLEMENT_BILLING_FAILED''\<rparr>"
  let ?r = "\<lparr>bu_Balance = 9, bu_Frozen = 2, bu_Deleted = False\<rparr> :: bill_user"
  let ?s = "batch_db [?j] (batch_bill (BatchImageCaptureRequestID ''imgbatch_1'' # held) 9 2)"
  have 1: "at_rest ?s" "find_job ''imgbatch_1'' ?s = Some ?j" "isBatchImageSettlementRetryExhausted ?j" by code_simp+
  have 2: "bj_AccountID ?j = Some 4" "(0 :: int) < 4" "bj_UserID ?j = 7" by (simp_all add: batch_job_def)
  have 3: "covered batch_cfg (bi_bill ?s) ?j 3 ?r"
    "(trim_space (BatchImageCaptureRequestID ''imgbatch_1''), 3) \<in> claimed (bi_bill ?s)" by code_simp+
  have 4: "bu_Balance (refunded_user batch_cfg ?j ?r) = 11" by code_simp
  from exhausted_settlement_refunds_captured_hold [OF 1 2(1,2) 3] obtain s' where
    "Settle batch_cfg ''imgbatch_1'' ?s = (Inl SettlementBillingFailed, s')"
    "bs_users (bi_bill s') (bj_UserID ?j) = Some (refunded_user batch_cfg ?j ?r)" by blast
  with 2(3) 4 show ?thesis by simp
qed


definition submit_params :: BatchImageJob where
  "submit_params = (batch_job JCreated)\<lparr>bj_HoldAmount := Some 0\<rparr>"

definition after_submit :: batch_store where
  "after_submit = snd (Submit batch_cfg example_options 7 3 [(''a'', ''cat''), (''b'', ''dog'')] ''r'' ''k1'' (runSubmitHeartbeat ''imgbatch_1'' [6])
     (Inr (Some \<lparr>pj_ProviderJobName = ''p1'', pj_ProviderInputRef = [], pj_ProviderOutputRef = []\<rparr>)) submit_params
     (batch_db [] (batch_bill [] 8 0)))"

theorem batch_jobs_well_formed_witness:
  "length (bi_jobs after_submit) = 1 \<and> bj_Status (hd (bi_jobs after_submit)) = JSubmitted
    \<and> job_ok (hd (bi_jobs after_submit))"
proof -
  let ?s = "batch_db [] (batch_bill [] 8 0)"
  have r: "batch_run batch_cfg example_options ?s after_submit"
    unfolding after_submit_def by (rule run_submit [OF run_start]) (rule heartbeat_run, rule run_start)
  have 0: "distinct (map bj_BatchID (bi_jobs ?s))" "\<forall>j \<in> set (bi_jobs ?s). job_ok j" by (simp_all add: batch_db_def)
  have 1: "length (bi_jobs after_submit) = 1 \<and> bj_Status (hd (bi_jobs after_submit)) = JSubmitted" by code_simp
  then have "bi_jobs after_submit \<noteq> []" by auto
  with batch_jobs_well_formed [OF r 0] 1 show ?thesis by simp
qed

theorem batch_status_moves_forward_witness:
  "\<exists>s'. s' = snd (TransitionBatchImageJobStatus ''imgbatch_1'' JRunning None None ''provider_status_checked''
      (batch_db [batch_job JSubmitted] (batch_bill [] 8 0)))
    \<and> bj_Status (hd (bi_jobs s')) = JRunning \<and> bj_HoldAmount (hd (bi_jobs s')) = Some 2"
proof -
  let ?s = "batch_db [batch_job JSubmitted] (batch_bill [] 8 0)"
  let ?t = "snd (TransitionBatchImageJobStatus ''imgbatch_1'' JRunning None None ''provider_status_checked'' ?s)"
  have r: "batch_run batch_cfg example_options ?s ?t" by (rule in_transition [OF run_start]) simp
  have 0: "distinct (map bj_BatchID (bi_jobs ?s))" "0 < length (bi_jobs ?s)" by (simp_all add: batch_db_def)
  have 1: "bj_Status (hd (bi_jobs ?t)) = JRunning" by code_simp
  from batch_status_moves_forward [OF r 0] have "bj_HoldAmount (bi_jobs ?t ! 0) = bj_HoldAmount (bi_jobs ?s ! 0)" "bi_jobs ?t \<noteq> []"
    by (auto simp: terms_def)
  then have "bj_HoldAmount (hd (bi_jobs ?t)) = Some 2" by (simp add: hd_conv_nth batch_db_def batch_job_def)
  with 1 show ?thesis by blast
qed

theorem lost_hold_answer_freezes_money_witness:
  "\<exists>s'. submit_job batch_cfg example_options 7 3 [(''a'', ''cat'')] ''r'' (\<lambda>x. x) (Inr None) (batch_job JCreated)
      (batch_db [batch_job JCreated] ((batch_bill [] 8 0)\<lparr>bs_faults := [Unanswered]\<rparr>)) = (Inl BillingHoldFailed, s')
    \<and> map_option bu_Frozen (bs_users (bi_bill s') 7) = Some 2"
proof -
  let ?j = "batch_job JCreated" and ?r = "\<lparr>bu_Balance = 8, bu_Frozen = 0, bu_Deleted = False\<rparr> :: bill_user"
  let ?s = "batch_db [?j] ((batch_bill [] 8 0)\<lparr>bs_faults := [Unanswered]\<rparr>)"
  have 1: "at_rest ?s" "find_job ''imgbatch_1'' ?s = Some ?j" "distinct (map bj_BatchID (bi_jobs ?s))" "owned_by 7 3 ?j"
    "bj_ProviderJobName ?j = None" "bj_UserDeletedAt ?j = None" by code_simp+
  have 2: "reservable batch_cfg (bi_bill ?s) ?j 3 ?r" by code_simp
  have 3: "bs_faults (bi_bill ?s) = [Unanswered]" by (simp add: batch_db_def)
  have 4: "bu_Frozen (frozen_user batch_cfg ?j ?r) = 2" by code_simp
  from lost_hold_answer_freezes_money [OF 1 2 3] obtain s' where
    "submit_job batch_cfg example_options 7 3 [(''a'', ''cat'')] ''r'' (\<lambda>x. x) (Inr None) ?j ?s = (Inl BillingHoldFailed, s')"
    "bs_users (bi_bill s') 7 = Some (frozen_user batch_cfg ?j ?r)" by metis
  with 4 show ?thesis by auto
qed


definition all_well :: provider_answers where
  "all_well = \<lparr>pa_registered = True, pa_account = None, pa_supports = True, pa_status = Some None,
     pa_output = Some ([''1''], None), pa_cancel = True, pa_cleanup = None\<rparr>"


definition one_image :: decoder where
  "one_image l = (if l = ''1'' then Some [(''key'', JStr ''a''), (''response'', JObj [(''candidates'', JArr [JObj [(''content'',
     JObj [(''parts'', JArr [JObj [(''inlineData'', JObj [(''data'', JStr ''x''), (''mimeType'', JStr ''image/png'')])]])])]])])] else None)"

definition two_pending :: batch_store where
  "two_pending = (batch_db [batch_job JIndexing] (batch_bill held 8 2))\<lparr>bi_items := map (pending_item ''imgbatch_1'' ''r'') [(''a'', ''cat''), (''b'', ''dog'')]\<rparr>"

theorem index_accounts_for_every_item_witness:
  "\<exists>j'. find_job ''imgbatch_1'' (snd (Index one_image (batch_job JIndexing) (Some ([''1''], None)) two_pending)) = Some j'
    \<and> bj_SuccessCount j' + bj_FailCount j' = 2"
proof -
  let ?i = "Index one_image (batch_job JIndexing) (Some ([''1''], None)) two_pending"
  have "case fst ?i of Inl _ \<Rightarrow> False | Inr _ \<Rightarrow> True" by code_simp
  then obtain r s' where 1: "?i = (Inr r, s')" by (cases ?i) (auto split: sum.splits)
  have 2: "''imgbatch_1'' = bj_BatchID (batch_job JIndexing)" by (simp add: batch_job_def)
  have 3: "distinct (map ii_CustomID (items_of ''imgbatch_1'' two_pending))" "items_of ''imgbatch_1'' two_pending \<noteq> []"
    "length (items_of ''imgbatch_1'' two_pending) = 2" by code_simp+
  from index_accounts_for_every_item [OF 1 2 3(1,2)] 1 3(3) show ?thesis by auto
qed

end
