(* ===== verification/Spec2Isabelle.thy ===== *)
theory Spec2Isabelle
  imports GoPrelude GoFloat GoUtf8 GroupConfig ApiKey Programs UserSubscriptions SubscriptionStore
    SubscriptionService SubscriptionInvariants SubscriptionRenewal SubscriptionOperations
    SubscriptionWindows Idempotency IdempotencyStore IdempotencyProperties IdempotencyConcurrency
    RedisStore ConcurrencySlots ConcurrencyInvariants ConcurrencyProperties
    Failover ChannelPricing ChannelModels ImageBilling GoStrings ModelNames BillingPrices BillingCost
    BillingProperties Tasks TaskOwnership PaymentStore RedeemService PaymentAmounts PaymentProviders
    AccountQuota UsageBilling UsageBillingRuns UsageBillingMoney UsageBillingProperties
    PaymentFulfillment PaymentLifecycle PaymentRefund PaymentEffects PaymentInvariants PaymentOwnership
    PaymentHandover PaymentProperties
    BatchImageQueue BatchImageJobs BatchImageLifecycle BatchImageSettlement BatchImageResults BatchImageServices
    BatchImageRuns BatchImageSubmission BatchImageProperties
begin

text \<open>
  Verification of the core of hermes-proxy, a gateway that shares subscriptions to model providers
  among many users. The program is the Go code under \<open>src/backend\<close>; paths below are relative to
  \<open>src/backend/internal\<close>.

  \<^bold>\<open>The program and its parts.\<close> A request comes in with an API key, which belongs to a user and a
  group. The group says how it is billed: from the user's balance or from a subscription with daily,
  weekly and monthly limits. The gateway picks an upstream account of the group, takes one of the
  account's concurrency slots (and one of the user's), forwards the request, moves on to another account
  when the upstream fails, and charges what the request used. Operations of the administrators and of
  payment providers that must not run twice go through the idempotency coordinator. State lives in
  PostgreSQL (subscriptions, idempotency records) and Redis (slots, wait counters), which several
  processes share.

  \<^bold>\<open>Foundations.\<close>
  \<^item> \<open>GoPrelude\<close>, \<open>GoStrings\<close>, \<open>GoUtf8\<close>, \<open>GoFloat\<close>: the Go standard library as far as the program uses
    it. A string is a list of bytes; a time and a duration are integers of nanoseconds; a float64 is a
    rational rounded to 53 bits after every operation, with laws of rounding in the locale
    \<open>go_rounding\<close>, interpreted on \<open>rnd64\<close>.
  \<^item> \<open>Programs\<close>: stateful Go functions with error results as functions from a store to an error or a
    value and the store after.

  \<^bold>\<open>Entities.\<close>
  \<^item> \<open>GroupConfig\<close>: \<open>service/group.go\<close>, \<open>service/group_peak_rate.go\<close>: limits, routing, peak-hour rates. The
    accepted time strings, the multiplier at every minute of the day, normalisation.
  \<^item> \<open>ApiKey\<close>: \<open>service/api_key.go\<close>, \<open>service/user.go\<close>, redeem and promo codes, proxies and their
    fallback chain (whose search ends, also on cycles).

  \<^bold>\<open>Subscriptions.\<close>
  \<^item> \<open>UserSubscriptions\<close>: \<open>service/user_subscription.go\<close> and the pure parts of
    \<open>service/subscription_service.go\<close>: windows, limits, progress.
  \<^item> \<open>SubscriptionStore\<close>: \<open>repository/user_subscription_repo.go\<close> on a record that holds the table, the
    groups, the caches and a clock; one definition per statement. A failing connection is an input.
  \<^item> \<open>SubscriptionService\<close>: \<open>service/subscription_service.go\<close>, the operations composed as the code
    composes them; each reads the clock once (\<open>now\<close>).
  \<^item> \<open>SubscriptionInvariants\<close> (a step relation over all operations, reachable states, the invariant by rule
    induction), \<open>SubscriptionRenewal\<close> (renewal; the laws of the calendar as locales),
    \<open>SubscriptionOperations\<close> (assignment, revocation, extension, failed renewals),
    \<open>SubscriptionWindows\<close> (window maintenance, and where it goes wrong).

  \<^bold>\<open>Idempotency.\<close>
  \<^item> \<open>Idempotency\<close>: \<open>service/idempotency.go\<close>; hashing and JSON are parameters with the laws relied on as
    locale assumptions. \<open>IdempotencyStore\<close>: \<open>repository/idempotency_repo.go\<close>; the store contract is a
    locale interpreted on the SQL model.
  \<^item> \<open>IdempotencyProperties\<close> (one request at a time) and \<open>IdempotencyConcurrency\<close> (interleavings of
    requests cut at their statements: at most one execution per key, and the stall that breaks it; the
    steps refine the uninterrupted claim).

  \<^bold>\<open>Concurrency.\<close>
  \<^item> \<open>RedisStore\<close>: Redis commands with key expiry as documented; a request may be delayed, lost, or lose
    its reply. \<open>ConcurrencySlots\<close>: the Lua scripts and operations of
    \<open>repository/concurrency_cache.go\<close> and the wrappers of \<open>service/concurrency_service.go\<close>.
  \<^item> \<open>ConcurrencyInvariants\<close>: whatever is lost or delayed, the slots promised never exceed the limit.
    \<open>ConcurrencyProperties\<close>: what operations do when served; the locale \<open>slot_semaphore\<close> is interpreted
    on the slots of accounts and of users.

  \<^bold>\<open>Failover.\<close> \<open>Failover\<close>: \<open>handler/failover_loop.go\<close> and the loop of \<open>handler/gateway_handler.go\<close> over
  the answers of the outside world. The number of turns is bounded by the accounts and allowed
  switches; no fuel is used, the loop is a fold over the turns that happen.

  \<^bold>\<open>Prices and costs.\<close>
  \<^item> \<open>ChannelPricing\<close>, \<open>ChannelModels\<close>: \<open>service/channel.go\<close>. Intervals that pass the validation put every
    count in at most one interval; the list of supported models is complete, sorted and without
    repetition, in every visiting order of the maps.
  \<^item> \<open>ImageBilling\<close>: \<open>service/image_billing_size.go\<close>, \<open>service/video_billing_resolution.go\<close>.
    \<open>ModelNames\<close>: \<open>service/openai_model_alias.go\<close>.
  \<^item> \<open>BillingPrices\<close>: the built-in prices of \<open>service/billing_service.go\<close> and the lookup of
    \<open>service/pricing_service.go\<close>. \<open>BillingCost\<close>: \<open>service/model_pricing_resolver.go\<close> and the cost
    functions of \<open>service/billing_service.go\<close>, every float operation in the code's order.
  \<^item> \<open>BillingProperties\<close>: service tiers scale a cost exactly, more usage never costs less, a request
    fails exactly when nothing prices it.

  \<^bold>\<open>Payments and redeem codes.\<close>
  \<^item> \<open>Tasks\<close>, \<open>TaskOwnership\<close>: operations as tasks, sequences of atomic statements on one store; pools
    interleave any number of tasks with changes from outside, and any task may stop for good. The
    locale \<open>ownership\<close> is the proof rule for what a task may rely on between two of its statements.
  \<^item> \<open>PaymentStore\<close>: the tables, the scripts of failures of the database, the audit table and Redis.
    \<open>RedeemService\<close>: \<open>service/redeem_service.go\<close>, \<open>repository/redeem_code_repo.go\<close>,
    \<open>repository/redeem_cache.go\<close>. \<open>PaymentAmounts\<close>: currencies, minor units, fees
    (\<open>payment/currency.go\<close>, \<open>payment/fee.go\<close>, \<open>service/payment_amounts.go\<close>).
  \<^item> \<open>PaymentProviders\<close>: which provider instance an order belongs to and which message it accepts
    (\<open>service/payment_order_provider_snapshot.go\<close>, \<open>service/payment_webhook_provider.go\<close>).
    \<open>PaymentFulfillment\<close>: \<open>service/payment_fulfillment.go\<close>. \<open>PaymentLifecycle\<close>: creation in
    \<open>service/payment_order.go\<close>, \<open>service/payment_order_lifecycle.go\<close>. \<open>PaymentRefund\<close>:
    \<open>service/payment_refund.go\<close>.
  \<^item> \<open>PaymentEffects\<close>: what each statement of each operation may change (the locales \<open>pay_effect\<close>,
    \<open>pay_effect_all\<close>). \<open>PaymentInvariants\<close>: a code gives its value at most once, in every
    interleaving. \<open>PaymentOwnership\<close>, \<open>PaymentHandover\<close>: the status RECHARGING as a lock, the modes of a
    task, and that settled orders were handed over exactly once. \<open>PaymentRuns\<close>: single operations run
    from beginning to end. \<open>PaymentProperties\<close>: runs on concrete stores, and what goes wrong when failures
    are not so kind.

  \<^bold>\<open>Charging.\<close>
  \<^item> \<open>AccountQuota\<close>: the daily, weekly and total quota of an upstream account, once as the SQL
    expressions of \<open>repository/account_repo.go\<close> and once as the Go code of \<open>service/account.go\<close>. The
    beginnings of windows are a grid (the locale \<open>reset_grid\<close>, interpreted on the daily and the weekly
    resets); both sides agree on it, and a window counts exactly what is charged in it.
  \<^item> \<open>UsageBilling\<close>: \<open>service/usage_billing.go\<close>, \<open>repository/usage_billing_repo.go\<close> and the archiving of
    claims; one transaction is one step. \<open>UsageBillingRuns\<close>: runs of transactions in any order, with
    failures and lost answers; claims and applied requests are the same (the locale \<open>once_only\<close>), each
    operation on holds posts one entry (\<open>hold_operation\<close>). \<open>UsageBillingMoney\<close>: balances and frozen
    balances follow from the ledger of what was applied. \<open>UsageBillingProperties\<close>: archiving, the windows
    and quota of an API key, concrete stores.

  \<^bold>\<open>Batch images.\<close> A user submits a job of many images; its cost is held, a provider works on it for hours, its
  output is indexed and the job settled.
  \<^item> \<open>BatchImageQueue\<close>: \<open>repository/batch_image_queue.go\<close> and one turn of the worker of
    \<open>service/batch_image_worker.go\<close>: the ready list, the active and delayed sets, inflight keys and locks; no
    queued job is lost, a job of a dead worker comes back, and where a late acknowledgement makes a second copy.
  \<^item> \<open>BatchImageJobs\<close>: the rows and statements of \<open>repository/batch_image_repo.go\<close> and the status graph of
    \<open>service/batch_image.go\<close>. \<open>BatchImageLifecycle\<close>: what a statement can do to a row (a step relation on
    rows), which every statement keeps.
  \<^item> \<open>BatchImageSettlement\<close>: holds, settlement and recovery (\<open>service/batch_image_billing_hold.go\<close>,
    \<open>service/batch_image_settlement.go\<close>, \<open>service/batch_image_billing_recovery.go\<close>) over the model of billing: a
    settlement charges once and ends after at most five turns, and the two ways in which it goes wrong.
  \<^item> \<open>BatchImageResults\<close>: the indexing of \<open>service/batch_image_processor.go\<close>: every submitted item is accounted for.
    \<open>BatchImageServices\<close>: processor and pipeline, submission, cancellation, clean-up
    (\<open>service/batch_image_public.go\<close>, \<open>service/batch_image_cleanup.go\<close>). A provider is its answers.
  \<^item> \<open>BatchImageRuns\<close>: all operations and statements in any order: rows stay well-formed, statuses move forward.
    \<open>BatchImageSubmission\<close>: the money of a submission that fails. \<open>BatchImageProperties\<close>: a fault while
    indexing, concrete stores.

  \<^bold>\<open>Assumptions of the model.\<close> Integers of the source that hold counts, identifiers and token numbers are
  unbounded here; they stay far below \<open>2 ^ 63\<close>. Go maps are functions, or lists in the order of one
  visit where the order can be seen. PostgreSQL runs each statement atomically and a transaction
  completely or not at all; Redis runs each script atomically. Pages of a Redis \<open>SCAN\<close> are inputs.
  Floating-point operations are not fused (amd64).

  \<^bold>\<open>Not modelled.\<close> Generated code (\<open>ent\<close>, \<open>wire\<close>), migrations, the frontend, configuration and start-up;
  HTTP handlers beyond the failover loop; the upstream protocols and their translation
  (\<open>pkg/apicompat\<close>, the gateway forwarders, WebSocket pools, streaming); OAuth, TLS fingerprints and
  proxies on the wire; account scheduling and rate-limit state (\<open>service/gateway_scheduling.go\<close>,
  \<open>service/openai_account_scheduler.go\<close>, \<open>service/account.go\<close> but for the quotas,
  \<open>service/ratelimit_service.go\<close>); the
  payment providers' clients (\<open>payment/provider\<close>), the choice of an instance and the request to it in
  \<open>CreateOrder\<close>, payment configuration and statistics, notification mails and the affiliate service
  (its answers are inputs); promo codes; the billing cache and the write-behind of usage; operations monitoring,
  notification, backup, content moderation; of batch images the validation of a request, the choice of its
  account and price, the providers' clients, the lists and downloads, and the loops of the workers. In the modelled parts: metrics and
  logging, the jitter of cache lifetimes, and the branches for a missing cache or executor.
\<close>

end
